(* ===== verification/Prelude.thy ===== *)
theory Prelude
  imports Complex_Main
begin

text \<open>
  Shared vocabulary of the development: the model of Python strings, integers and
  exceptions the components use, and the generic lemmas about them.

  \<^item> A Python \<open>str\<close> is a \<open>string\<close>, one \<open>char\<close> per code point, so the strings modelled are
    those whose code points are below 256 (Latin-1). Case mapping, white space and the two
    notions of digit (\<open>\d\<close> of a pattern and \<open>str.isdigit\<close>) are Python's on that range.
  \<^item> A Python \<open>int\<close> is an \<open>int\<close>; an exception is the \<open>Inl\<close> of a sum.
  \<^item> An aware \<open>datetime\<close> is its instant, an \<open>int\<close> of microseconds since 1970-01-01 UTC, and a
    \<open>timedelta\<close> is an \<open>int\<close> of microseconds.
\<close>

named_theorems str_simps \<open>evaluation of the string operations\<close>
named_theorems step_simps \<open>unfolding of the state-changing operations\<close>

type_synonym dt = int
type_synonym micros = int

definition second :: micros where "second = 1000000"
definition minute :: micros where "minute = 60 * second"
definition hour :: micros where "hour = 60 * minute"
definition day :: micros where "day = 24 * hour"

lemmas time_units = second_def minute_def hour_def day_def

section \<open>Exceptions\<close>

datatype py_exc =
    ValueError string
  | TypeError string
  | LookupError string
  | RuntimeError string
  | StructError string
  | AttributeError string
  | OverflowError string

text \<open>Sequencing of operations that may raise, and a loop of them: the first exception ends it.\<close>

fun res_bind :: "'e + 'a \<Rightarrow> ('a \<Rightarrow> 'e + 'b) \<Rightarrow> 'e + 'b" where
  "res_bind (Inl e) f = Inl e"
| "res_bind (Inr x) f = f x"

fun map_res :: "('a \<Rightarrow> 'e + 'b) \<Rightarrow> 'a list \<Rightarrow> 'e + 'b list" where
  "map_res f [] = Inr []"
| "map_res f (x # xs) = res_bind (f x) (\<lambda>y. res_bind (map_res f xs) (\<lambda>ys. Inr (y # ys)))"

lemma res_bind_Inr_iff: "res_bind r f = Inr y \<longleftrightarrow> (\<exists>x. r = Inr x \<and> f x = Inr y)"
  by (cases r) auto

lemma map_res_Inr_iff: "map_res f xs = Inr ys \<longleftrightarrow> list_all2 (\<lambda>x y. f x = Inr y) xs ys"
  by (induction xs arbitrary: ys) (auto simp: res_bind_Inr_iff list_all2_Cons1)

lemma map_res_InlD: "map_res f xs = Inl e \<Longrightarrow> \<exists>x \<in> set xs. f x = Inl e"
proof (induction xs)
  case (Cons x xs)
  then show ?case by (cases "f x"; cases "map_res f xs") auto
qed simp

lemma map_res_total: "(\<And>x. x \<in> set xs \<Longrightarrow> f x = Inr (g x)) \<Longrightarrow> map_res f xs = Inr (map g xs)"
  by (induction xs) auto

section \<open>Characters\<close>

abbreviation code :: "char \<Rightarrow> nat" where "code c \<equiv> of_char c"

text \<open>\<open>\d\<close> in a pattern and \<open>str.isdecimal\<close>: on Latin-1 only the ASCII digits.\<close>

definition is_digit :: "char \<Rightarrow> bool" where
  "is_digit c \<longleftrightarrow> 48 \<le> code c \<and> code c \<le> 57"

text \<open>\<open>str.isdigit\<close> also accepts the superscripts two, three and one.\<close>

definition py_isdigit_char :: "char \<Rightarrow> bool" where
  "py_isdigit_char c \<longleftrightarrow> is_digit c \<or> code c \<in> {178, 179, 185}"

definition is_lower :: "char \<Rightarrow> bool" where
  "is_lower c \<longleftrightarrow> 97 \<le> code c \<and> code c \<le> 122"

definition is_upper :: "char \<Rightarrow> bool" where
  "is_upper c \<longleftrightarrow> 65 \<le> code c \<and> code c \<le> 90"

definition is_alnum_ascii :: "char \<Rightarrow> bool" where
  "is_alnum_ascii c \<longleftrightarrow> is_digit c \<or> is_lower c \<or> is_upper c"

text \<open>\<open>str.isalnum\<close> on Latin-1: letters, digits, and the numeric signs.\<close>

definition py_isalnum_char :: "char \<Rightarrow> bool" where
  "py_isalnum_char c \<longleftrightarrow> is_alnum_ascii c
     \<or> code c \<in> {170, 178, 179, 181, 185, 186, 188, 189, 190}
     \<or> (192 \<le> code c \<and> code c \<noteq> 215 \<and> code c \<noteq> 247)"

definition is_space :: "char \<Rightarrow> bool" where
  "is_space c \<longleftrightarrow> (9 \<le> code c \<and> code c \<le> 13) \<or> (28 \<le> code c \<and> code c \<le> 32)
     \<or> code c = 133 \<or> code c = 160"

definition lower_char :: "char \<Rightarrow> char" where
  "lower_char c =
     (if is_upper c \<or> (192 \<le> code c \<and> code c \<le> 222 \<and> code c \<noteq> 215)
      then char_of (code c + 32) else c)"

definition py_lower :: "string \<Rightarrow> string" where
  "py_lower = map lower_char"

lemmas char_classes = is_digit_def py_isdigit_char_def is_lower_def is_upper_def
  is_alnum_ascii_def py_isalnum_char_def is_space_def

lemma code_lt_256 [simp]: "code c < 256"
  by (rule nat_of_char_less_256)

lemma code_lower_char:
  "code (lower_char c) =
     (if is_upper c \<or> (192 \<le> code c \<and> code c \<le> 222 \<and> code c \<noteq> 215) then code c + 32 else code c)"
  by (auto simp: lower_char_def is_upper_def of_char_of take_bit_eq_mod)

lemma lower_char_idem [simp]: "lower_char (lower_char c) = lower_char c"
  unfolding lower_char_def [of "lower_char c"]
  by (simp add: is_upper_def code_lower_char) (auto simp: lower_char_def is_upper_def)

lemma py_lower_idem [simp]: "py_lower (py_lower s) = py_lower s"
  by (simp add: py_lower_def)

lemma py_lower_append [simp]: "py_lower (s @ t) = py_lower s @ py_lower t"
  by (simp add: py_lower_def)

lemma length_py_lower [simp]: "length (py_lower s) = length s"
  by (simp add: py_lower_def)

lemma lower_char_lower: "is_lower c \<Longrightarrow> lower_char c = c"
  by (auto simp: lower_char_def is_lower_def is_upper_def)

lemma lower_char_digit: "is_digit c \<Longrightarrow> lower_char c = c"
  by (auto simp: lower_char_def is_digit_def is_upper_def)

lemma py_lower_id: "(\<And>c. c \<in> set s \<Longrightarrow> is_lower c \<or> is_digit c) \<Longrightarrow> py_lower s = s"
  unfolding py_lower_def
  by (rule map_idI) (auto intro: lower_char_lower lower_char_digit)

section \<open>Slicing and splitting\<close>

definition lstrip_chars :: "(char \<Rightarrow> bool) \<Rightarrow> string \<Rightarrow> string" where
  "lstrip_chars p s = dropWhile p s"

definition rstrip_chars :: "(char \<Rightarrow> bool) \<Rightarrow> string \<Rightarrow> string" where
  "rstrip_chars p s = rev (dropWhile p (rev s))"

definition strip_chars :: "(char \<Rightarrow> bool) \<Rightarrow> string \<Rightarrow> string" where
  "strip_chars p s = rstrip_chars p (lstrip_chars p s)"

definition py_strip :: "string \<Rightarrow> string" where
  "py_strip = strip_chars is_space"

text \<open>\<open>s.split(c, 1)[0]\<close>: the text before the first \<open>c\<close>, all of it when there is none.\<close>

definition before_first :: "char \<Rightarrow> string \<Rightarrow> string" where
  "before_first c s = takeWhile (\<lambda>x. x \<noteq> c) s"

text \<open>\<open>s.rsplit(c, 1)[-1]\<close>: the text after the last \<open>c\<close>, all of it when there is none.\<close>

definition after_last :: "char \<Rightarrow> string \<Rightarrow> string" where
  "after_last c s = rev (takeWhile (\<lambda>x. x \<noteq> c) (rev s))"

text \<open>\<open>s.rpartition(c)\<close>, without the separator: a string with no \<open>c\<close> is all tail.\<close>

definition rpartition :: "char \<Rightarrow> string \<Rightarrow> string \<times> string" where
  "rpartition c s =
     (if c \<in> set s then (rev (drop 1 (dropWhile (\<lambda>x. x \<noteq> c) (rev s))), after_last c s)
      else ([], s))"

fun join :: "string \<Rightarrow> string list \<Rightarrow> string" where
  "join sep [] = []"
| "join sep [s] = s"
| "join sep (s # t # ss) = s @ sep @ join sep (t # ss)"

text \<open>\<open>needle in s\<close>.\<close>

fun contains :: "string \<Rightarrow> string \<Rightarrow> bool" where
  "contains needle [] = (needle = [])"
| "contains needle (c # s) = (take (length needle) (c # s) = needle \<or> contains needle s)"

definition starts_with :: "string \<Rightarrow> string \<Rightarrow> bool" where
  "starts_with p s \<longleftrightarrow> take (length p) s = p"

lemma after_last_notin [simp]: "c \<notin> set (after_last c s)"
  by (auto simp: after_last_def dest: set_takeWhileD)

lemma takeWhile_neq_append: "c \<notin> set s \<Longrightarrow> takeWhile (\<lambda>x. x \<noteq> c) (s @ c # t) = s"
  by (induction s) auto

lemma dropWhile_neq_append: "c \<notin> set s \<Longrightarrow> dropWhile (\<lambda>x. x \<noteq> c) (s @ c # t) = c # t"
  by (induction s) auto

lemma takeWhile_neq_id: "c \<notin> set s \<Longrightarrow> takeWhile (\<lambda>x. x \<noteq> c) s = s"
  by (induction s) auto

lemma after_last_append: "c \<notin> set t \<Longrightarrow> after_last c (s @ c # t) = t"
  by (simp add: after_last_def takeWhile_neq_append)

lemma after_last_snoc: "c \<notin> set t \<Longrightarrow> after_last c ((s @ [c]) @ t) = t"
  by (simp add: after_last_append)

lemma after_last_none: "c \<notin> set t \<Longrightarrow> after_last c t = t"
  by (simp add: after_last_def takeWhile_neq_id)

lemma before_first_append: "c \<notin> set s \<Longrightarrow> before_first c (s @ c # t) = s"
  by (simp add: before_first_def takeWhile_neq_append)

lemma rpartition_append: "c \<notin> set t \<Longrightarrow> rpartition c (s @ c # t) = (s, t)"
  by (simp add: rpartition_def after_last_append dropWhile_neq_append)

lemmas split_simps = after_last_append after_last_none before_first_append rpartition_append

section \<open>Decimal numerals\<close>

definition digit_char :: "nat \<Rightarrow> char" where
  "digit_char d = char_of (48 + d)"

text \<open>\<open>str(n)\<close> of a natural number, and \<open>f"{n:0wd}"\<close>.\<close>

fun show_nat :: "nat \<Rightarrow> string" where
  "show_nat n =
     (if n < 10 then [digit_char n] else show_nat (n div 10) @ [digit_char (n mod 10)])"

declare show_nat.simps [simp del]

definition show_int :: "int \<Rightarrow> string" where
  "show_int i = (if i < 0 then CHR ''-'' # show_nat (nat (- i)) else show_nat (nat i))"

definition zpad :: "nat \<Rightarrow> nat \<Rightarrow> string" where
  "zpad w n = (let s = show_nat n in replicate (w - length s) CHR ''0'' @ s)"

text \<open>\<open>int(s)\<close> of a string of digits.\<close>

definition py_int :: "string \<Rightarrow> int" where
  "py_int s = foldl (\<lambda>a c. 10 * a + int (code c - 48)) 0 s"

lemma code_digit_char [simp]: "d < 10 \<Longrightarrow> code (digit_char d) = 48 + d"
  by (simp add: digit_char_def of_char_of take_bit_eq_mod)

lemma digit_char_eval [str_simps]:
  "digit_char 0 = CHR ''0''" "digit_char 1 = CHR ''1''" "digit_char (Suc 0) = CHR ''1''"
  "digit_char 2 = CHR ''2''" "digit_char 3 = CHR ''3''" "digit_char 4 = CHR ''4''"
  "digit_char 5 = CHR ''5''" "digit_char 6 = CHR ''6''" "digit_char 7 = CHR ''7''"
  "digit_char 8 = CHR ''8''" "digit_char 9 = CHR ''9''"
  by code_simp+

lemmas [str_simps] = show_nat.simps [of "numeral k" for k] show_nat.simps [of 0] show_nat.simps [of 1]
  show_nat.simps [of "Suc 0"]

lemma is_digit_digit_char [simp]: "d < 10 \<Longrightarrow> is_digit (digit_char d)"
  by (simp add: is_digit_def)

lemma is_digit_zero [simp]: "is_digit CHR ''0''"
  by (simp add: is_digit_def)

lemma py_int_Nil [simp]: "py_int [] = 0"
  by (simp add: py_int_def)

lemma py_int_snoc [simp]: "py_int (s @ [c]) = 10 * py_int s + int (code c - 48)"
  by (simp add: py_int_def)

lemma py_int_zeros [simp]: "py_int (replicate n CHR ''0'' @ s) = py_int s"
  by (induction n) (simp_all add: py_int_def)

lemma py_int_nonneg [simp]: "0 \<le> py_int s"
  by (induction s rule: rev_induct) auto

lemma py_int_bound: "(\<And>c. c \<in> set s \<Longrightarrow> is_digit c) \<Longrightarrow> py_int s < 10 ^ length s"
proof (induction s rule: rev_induct)
  case Nil
  then show ?case by simp
next
  case (snoc c s)
  from snoc.prems [of c] have "code c \<le> 57" by (simp add: is_digit_def)
  then have "int (code c - 48) \<le> 9" by linarith
  moreover from snoc have "py_int s + 1 \<le> 10 ^ length s" by simp
  ultimately show ?case by simp
qed

lemma py_int_show_nat [simp]: "py_int (show_nat n) = int n"
proof (induction n rule: show_nat.induct)
  case (1 n)
  then show ?case
    by (subst show_nat.simps) (auto simp: py_int_def [of "[_]"] zdiv_int zmod_int)
qed

lemma show_nat_digits: "c \<in> set (show_nat n) \<Longrightarrow> is_digit c"
proof (induction n rule: show_nat.induct)
  case (1 n)
  then show ?case
    by (cases "n < 10") (auto simp: show_nat.simps [of n])
qed

lemma show_nat_nonempty [simp]: "show_nat n \<noteq> []"
  by (subst show_nat.simps) simp

lemma length_show_nat: "n < 10 ^ w \<Longrightarrow> 0 < w \<Longrightarrow> length (show_nat n) \<le> w"
proof (induction w arbitrary: n)
  case 0
  then show ?case by simp
next
  case (Suc w)
  show ?case
  proof (cases "n < 10")
    case True
    then show ?thesis by (simp add: show_nat.simps [of n])
  next
    case False
    with Suc.prems have "n div 10 < 10 ^ w" and "0 < w"
      by (auto simp: less_mult_imp_div_less mult.commute intro: gr0I)
    then have "length (show_nat (n div 10)) \<le> w" by (rule Suc.IH)
    with False show ?thesis by (simp add: show_nat.simps [of n])
  qed
qed

lemma py_int_zpad [simp]: "py_int (zpad w n) = int n"
  by (simp add: zpad_def Let_def)

lemma zpad_digits: "c \<in> set (zpad w n) \<Longrightarrow> is_digit c"
  by (auto simp: zpad_def Let_def dest: show_nat_digits)

lemma length_zpad: "n < 10 ^ w \<Longrightarrow> 0 < w \<Longrightarrow> length (zpad w n) = w"
  using length_show_nat [of n w] by (simp add: zpad_def Let_def)

lemma length_zpad_int: "0 \<le> i \<Longrightarrow> i < 10 ^ w \<Longrightarrow> 0 < w \<Longrightarrow> length (zpad w (nat i)) = w"
  by (rule length_zpad) (simp_all add: nat_less_iff)

section \<open>Rounding\<close>

text \<open>Python rounds a tie to the even neighbour.\<close>

definition round_half_even :: "rat \<Rightarrow> int" where
  "round_half_even x =
     (let f = \<lfloor>x\<rfloor>; d = x - of_int f
      in if d < 1 / 2 then f else if 1 / 2 < d then f + 1 else if even f then f else f + 1)"

lemma round_half_even_bounds:
  "of_int (round_half_even x) \<le> x + 1 / 2" "x - 1 / 2 \<le> of_int (round_half_even x)"
  unfolding round_half_even_def Let_def by (simp_all split: if_splits) linarith+

lemma round_half_even_of_int [simp]: "round_half_even (of_int i) = i"
  by (simp add: round_half_even_def)

lemma round_half_even_mono_int:
  "of_int i \<le> x \<Longrightarrow> i \<le> round_half_even x" "x \<le> of_int i \<Longrightarrow> round_half_even x \<le> i"
  using round_half_even_bounds [of x] by linarith+

section \<open>Rows of a table\<close>

text \<open>A table is the list of its rows in the order of their ids; an \<open>UPDATE\<close> maps the rows it
  selects.\<close>

definition update_where :: "('a \<Rightarrow> bool) \<Rightarrow> ('a \<Rightarrow> 'a) \<Rightarrow> 'a list \<Rightarrow> 'a list" where
  "update_where p f rows = map (\<lambda>r. if p r then f r else r) rows"

lemma length_update_where [simp]: "length (update_where p f rows) = length rows"
  by (simp add: update_where_def)

lemma update_where_none: "(\<And>r. r \<in> set rows \<Longrightarrow> \<not> p r) \<Longrightarrow> update_where p f rows = rows"
  unfolding update_where_def by (rule map_idI) auto

lemma set_update_where:
  "r \<in> set (update_where p f rows) \<longleftrightarrow>
     (\<exists>r0 \<in> set rows. r = (if p r0 then f r0 else r0))"
  by (auto simp: update_where_def)

lemma map_update_where:
  "(\<And>r. r \<in> set rows \<Longrightarrow> p r \<Longrightarrow> g (f r) = g r) \<Longrightarrow> map g (update_where p f rows) = map g rows"
  by (simp add: update_where_def)

lemma update_where_forall:
  "\<forall>r \<in> set rows. P r \<Longrightarrow> (\<And>r. r \<in> set rows \<Longrightarrow> p r \<Longrightarrow> P r \<Longrightarrow> P (f r)) \<Longrightarrow>
   \<forall>r \<in> set (update_where p f rows). P r"
  by (auto simp: update_where_def)

end
