(* ===== verification/Calendar.thy ===== *)
theory Calendar
  imports Prelude
begin

text \<open>
  Python's proleptic Gregorian calendar (\<open>datetime\<close>, standard library) for UTC instants: dates as
  ordinals, the conversion both ways, the constructor with its range checks, and the fields of an
  instant. An instant is valid from year 1 to year 9999; outside that \<open>datetime\<close> raises.
\<close>

section \<open>Years and months\<close>

definition is_leap :: "int \<Rightarrow> bool" where
  "is_leap y \<longleftrightarrow> y mod 4 = 0 \<and> (y mod 100 \<noteq> 0 \<or> y mod 400 = 0)"

definition month_lengths :: "int \<Rightarrow> int list" where
  "month_lengths y = [31, if is_leap y then 29 else 28, 31, 30, 31, 30, 31, 31, 30, 31, 30, 31]"

definition days_in_month :: "int \<Rightarrow> int \<Rightarrow> int" where
  "days_in_month y m = month_lengths y ! nat (m - 1)"

definition days_before_year :: "int \<Rightarrow> int" where
  "days_before_year y = 365 * (y - 1) + (y - 1) div 4 - (y - 1) div 100 + (y - 1) div 400"

definition days_before_month :: "int \<Rightarrow> int \<Rightarrow> int" where
  "days_before_month y m = sum_list (take (nat (m - 1)) (month_lengths y))"

definition valid_date :: "int \<Rightarrow> int \<Rightarrow> int \<Rightarrow> bool" where
  "valid_date y m d \<longleftrightarrow>
     1 \<le> y \<and> y \<le> 9999 \<and> 1 \<le> m \<and> m \<le> 12 \<and> 1 \<le> d \<and> d \<le> days_in_month y m"

text \<open>The ordinal of a date: 1 January of year 1 is day 1.\<close>

definition ymd2ord :: "int \<Rightarrow> int \<Rightarrow> int \<Rightarrow> int" where
  "ymd2ord y m d = days_before_year y + days_before_month y m + d"

text \<open>The month that holds the \<open>n\<close>-th day (from 0) of a year, counting months from \<open>m\<close>.\<close>

fun split_month :: "int list \<Rightarrow> int \<Rightarrow> int \<Rightarrow> int \<times> int" where
  "split_month [] m n = (m, n + 1)"
| "split_month (l # ls) m n = (if n < l then (m, n + 1) else split_month ls (m + 1) (n - l))"

definition ord2ymd :: "int \<Rightarrow> int \<times> int \<times> int" where
  "ord2ymd n =
     (let n0 = n - 1;
          n400 = n0 div 146097; r400 = n0 mod 146097;
          n100 = r400 div 36524; r100 = r400 mod 36524;
          n4 = r100 div 1461; r4 = r100 mod 1461;
          n1 = r4 div 365; r1 = r4 mod 365;
          y = 400 * n400 + 100 * n100 + 4 * n4 + n1 + 1
      in if n1 = 4 \<or> n100 = 4 then (y - 1, 12, 31)
         else let (m, d) = split_month (month_lengths y) 1 r1 in (y, m, d))"

section \<open>Instants\<close>

definition epoch_ordinal :: int where "epoch_ordinal = 719163"

definition midnight :: "int \<Rightarrow> int \<Rightarrow> int \<Rightarrow> dt" where
  "midnight y m d = (ymd2ord y m d - epoch_ordinal) * day"

text \<open>\<open>datetime(y, m, d, h, mi, s, tzinfo=UTC)\<close>; \<open>None\<close> where it raises \<open>ValueError\<close>.\<close>

definition mk_datetime :: "int \<Rightarrow> int \<Rightarrow> int \<Rightarrow> int \<Rightarrow> int \<Rightarrow> int \<Rightarrow> dt option" where
  "mk_datetime y m d h mi s =
     (if valid_date y m d \<and> 0 \<le> h \<and> h \<le> 23 \<and> 0 \<le> mi \<and> mi \<le> 59 \<and> 0 \<le> s \<and> s \<le> 59
      then Some (midnight y m d + h * hour + mi * minute + s * second)
      else None)"

definition ordinal_of :: "dt \<Rightarrow> int" where
  "ordinal_of t = t div day + epoch_ordinal"

definition date_of :: "dt \<Rightarrow> int \<times> int \<times> int" where
  "date_of t = ord2ymd (ordinal_of t)"

definition hour_of :: "dt \<Rightarrow> int" where
  "hour_of t = (t mod day) div hour"

text \<open>\<open>t.replace(hour=0, minute=0, second=0, microsecond=0)\<close>.\<close>

definition floor_day :: "dt \<Rightarrow> dt" where
  "floor_day t = t div day * day"

text \<open>The instants \<open>datetime\<close> can hold: years 1 to 9999.\<close>

definition valid_dt :: "dt \<Rightarrow> bool" where
  "valid_dt t \<longleftrightarrow> 1 \<le> ordinal_of t \<and> ordinal_of t \<le> 3652059"

text \<open>\<open>datetime.fromtimestamp(n, tz=UTC)\<close> of a whole number of seconds.\<close>

definition from_timestamp :: "int \<Rightarrow> py_exc + dt" where
  "from_timestamp n =
     (if valid_dt (n * second) then Inr (n * second) else Inl (ValueError ''year is out of range''))"

section \<open>The calendar is a bijection\<close>

lemma day_pos [simp]: "0 < day"
  by (simp add: time_units)

lemma month_cases:
  assumes "1 \<le> m" "m \<le> 12"
  shows "(m::int) \<in> {1, 2, 3, 4, 5, 6, 7, 8, 9, 10, 11, 12}"
  using assms by simp presburger

lemma days_in_month_bounds:
  assumes "1 \<le> m" "m \<le> 12"
  shows "28 \<le> days_in_month y m \<and> days_in_month y m \<le> 31"
  using month_cases [OF assms] by (auto simp: days_in_month_def month_lengths_def)

text \<open>Splitting a day of the year over the months, and back, for any month lengths.\<close>

lemma split_month_take:
  assumes "k < length ls" "1 \<le> d" "d \<le> ls ! k" "\<forall>l \<in> set ls. 0 \<le> l"
  shows "split_month ls m (sum_list (take k ls) + d - 1) = (m + int k, d)"
  using assms
proof (induction ls arbitrary: k m)
  case Nil
  then show ?case by simp
next
  case (Cons l ls)
  show ?case
  proof (cases k)
    case 0
    with Cons.prems show ?thesis by simp
  next
    case (Suc j)
    then have "split_month ls (m + 1) (sum_list (take j ls) + d - 1) = (m + 1 + int j, d)"
      using Cons by simp
    moreover have "0 \<le> sum_list (take j ls)"
      using Cons.prems(4) by (auto intro!: sum_list_nonneg dest: in_set_takeD)
    ultimately show ?thesis using Suc Cons.prems(2) by (simp add: algebra_simps)
  qed
qed

lemma split_month_inverse:
  assumes "0 \<le> n" "n < sum_list ls" "split_month ls m n = (m', d)"
  shows "\<exists>k < length ls. m' = m + int k \<and> 1 \<le> d \<and> d \<le> ls ! k \<and> sum_list (take k ls) + d = n + 1"
  using assms
proof (induction ls arbitrary: m n)
  case Nil
  then show ?case by simp
next
  case (Cons l ls)
  show ?case
  proof (cases "n < l")
    case True
    with Cons.prems show ?thesis by (intro exI [of _ 0]) auto
  next
    case False
    with Cons.prems have "0 \<le> n - l" "n - l < sum_list ls" "split_month ls (m + 1) (n - l) = (m', d)"
      by auto
    from Cons.IH [OF this] obtain k where "k < length ls" "m' = m + 1 + int k" "1 \<le> d" "d \<le> ls ! k"
      "sum_list (take k ls) + d = n - l + 1" by blast
    then show ?thesis by (intro exI [of _ "Suc k"]) auto
  qed
qed

lemma length_month_lengths [simp]: "length (month_lengths y) = 12"
  by (simp add: month_lengths_def)

lemma sum_month_lengths: "sum_list (month_lengths y) = (if is_leap y then 366 else 365)"
  by (simp add: month_lengths_def)

lemma days_before_month_bound:
  assumes "1 \<le> m" "m \<le> 12"
  shows "0 \<le> days_before_month y m \<and> days_before_month y m + days_in_month y m \<le> (if is_leap y then 366 else 365)"
proof -
  let ?k = "nat (m - 1)"
  have k: "?k < length (month_lengths y)" using assms by simp
  have nn: "\<forall>l \<in> set (month_lengths y). 0 \<le> l" by (simp add: month_lengths_def)
  have "0 \<le> sum_list (take ?k (month_lengths y))"
    using nn by (auto intro!: sum_list_nonneg dest: in_set_takeD)
  moreover have "0 \<le> sum_list (drop (Suc ?k) (month_lengths y))"
    using nn by (auto intro!: sum_list_nonneg dest: in_set_dropD)
  moreover have "sum_list (month_lengths y) = sum_list (take ?k (month_lengths y))
      + (month_lengths y ! ?k + sum_list (drop (Suc ?k) (month_lengths y)))"
    using id_take_nth_drop [OF k] by (metis sum_list.Cons sum_list_append)
  ultimately show ?thesis
    unfolding days_in_month_def days_before_month_def by (auto simp: sum_month_lengths)
qed

lemma split_month_days:
  assumes "1 \<le> m" "m \<le> 12" "1 \<le> d" "d \<le> days_in_month y m"
  shows "split_month (month_lengths y) 1 (days_before_month y m + d - 1) = (m, d)"
  using split_month_take [of "nat (m - 1)" "month_lengths y" d 1] assms
  by (simp add: days_in_month_def days_before_month_def) (simp add: month_lengths_def)

lemma split_month_year:
  assumes "0 \<le> n" "n < (if is_leap y then 366 else 365)"
    and "split_month (month_lengths y) 1 n = (m, d)"
  shows "1 \<le> m \<and> m \<le> 12 \<and> 1 \<le> d \<and> d \<le> days_in_month y m \<and> days_before_month y m + d = n + 1"
  using split_month_inverse [of n "month_lengths y" 1 m d] assms
  by (auto simp: sum_month_lengths days_in_month_def days_before_month_def)

text \<open>
  A year \<open>400 a + 100 b + 4 c + e + 1\<close> with the digits in range starts after
  \<open>146097 a + 36524 b + 1461 c + 365 e\<close> days.
\<close>

definition year_digits_ok :: "int \<Rightarrow> int \<Rightarrow> int \<Rightarrow> bool" where
  "year_digits_ok b c e \<longleftrightarrow> 0 \<le> b \<and> b \<le> 3 \<and> 0 \<le> c \<and> c \<le> 24 \<and> 0 \<le> e \<and> e \<le> 3"

lemma days_before_year_digits:
  assumes "year_digits_ok b c e"
  shows "days_before_year (400 * a + 100 * b + 4 * c + e + 1) = 146097 * a + 36524 * b + 1461 * c + 365 * e"
proof -
  let ?y = "400 * a + 100 * b + 4 * c + e"
  have "?y div 4 = 100 * a + 25 * b + c"
    by (rule int_div_pos_eq [where r = e]) (use assms in \<open>auto simp: year_digits_ok_def\<close>)
  moreover have "?y div 100 = 4 * a + b"
    by (rule int_div_pos_eq [where r = "4 * c + e"]) (use assms in \<open>auto simp: year_digits_ok_def\<close>)
  moreover have "?y div 400 = a"
    by (rule int_div_pos_eq [where r = "100 * b + 4 * c + e"])
      (use assms in \<open>auto simp: year_digits_ok_def\<close>)
  ultimately show ?thesis by (simp add: days_before_year_def)
qed

lemma is_leap_digits:
  assumes "year_digits_ok b c e"
  shows "is_leap (400 * a + 100 * b + 4 * c + e + 1) \<longleftrightarrow> e = 3 \<and> (c \<noteq> 24 \<or> b = 3)"
proof -
  note ok = assms [unfolded year_digits_ok_def]
  let ?y = "400 * a + 100 * b + 4 * c + e + 1"
  have 4: "?y mod 4 = (if e = 3 then 0 else e + 1)"
    by (rule int_mod_pos_eq [where q = "100 * a + 25 * b + c + (if e = 3 then 1 else 0)"])
      (use ok in auto)
  have 100: "?y mod 100 = (if e = 3 \<and> c = 24 then 0 else 4 * c + e + 1)"
    by (rule int_mod_pos_eq [where q = "4 * a + b + (if e = 3 \<and> c = 24 then 1 else 0)"])
      (use ok in \<open>auto split: if_splits\<close>)
  have 400: "?y mod 400 = (if e = 3 \<and> c = 24 \<and> b = 3 then 0 else 100 * b + 4 * c + e + 1)"
    by (rule int_mod_pos_eq [where q = "a + (if e = 3 \<and> c = 24 \<and> b = 3 then 1 else 0)"])
      (use ok in \<open>auto split: if_splits\<close>)
  show ?thesis
    unfolding is_leap_def 4 100 400 using ok by auto
qed

lemma year_digits:
  fixes y :: int
  obtains a b c e where "y = 400 * a + 100 * b + 4 * c + e + 1" "year_digits_ok b c e"
proof
  let ?z = "y - 1"
  let ?r = "?z mod 400"
  let ?s = "?r mod 100"
  show "y = 400 * (?z div 400) + 100 * (?r div 100) + 4 * (?s div 4) + ?s mod 4 + 1"
    using mult_div_mod_eq [of 400 ?z] mult_div_mod_eq [of 100 ?r] mult_div_mod_eq [of 4 ?s] by linarith
  have "0 \<le> ?r" "?r < 400" "0 \<le> ?s" "?s < 100" "0 \<le> ?s mod 4" "?s mod 4 < 4" by simp_all
  then show "year_digits_ok (?r div 100) (?s div 4) (?s mod 4)"
    unfolding year_digits_ok_def by auto
qed

text \<open>What the algorithm returns, once its four quotients are known.\<close>

lemma ord2ymd_eval:
  assumes "N - 1 = 146097 * a + r" "0 \<le> r" "r < 146097"
    and "r = 36524 * b + s" "0 \<le> s" "s < 36524"
    and "s = 1461 * c + t" "0 \<le> t" "t < 1461"
    and "t = 365 * e + n" "0 \<le> n" "n < 365"
  shows "ord2ymd N =
    (let y = 400 * a + 100 * b + 4 * c + e + 1
     in if e = 4 \<or> b = 4 then (y - 1, 12, 31)
        else let (m, d) = split_month (month_lengths y) 1 n in (y, m, d))"
  unfolding ord2ymd_def Let_def
    int_div_pos_eq [OF assms(1-3)] int_mod_pos_eq [OF assms(1-3)]
    int_div_pos_eq [OF assms(4-6)] int_mod_pos_eq [OF assms(4-6)]
    int_div_pos_eq [OF assms(7-9)] int_mod_pos_eq [OF assms(7-9)]
    int_div_pos_eq [OF assms(10-12)] int_mod_pos_eq [OF assms(10-12)]
  by (rule refl)

lemma ord2ymd_digits:
  assumes "year_digits_ok b c e"
    and n: "0 \<le> n" "n < (if e = 3 \<and> (c \<noteq> 24 \<or> b = 3) then 366 else 365)"
  shows "ord2ymd (146097 * a + 36524 * b + 1461 * c + 365 * e + n + 1) =
    (if n = 365 then (400 * a + 100 * b + 4 * c + e + 1, 12, 31)
     else let (m, d) = split_month (month_lengths (400 * a + 100 * b + 4 * c + e + 1)) 1 n
          in (400 * a + 100 * b + 4 * c + e + 1, m, d))"
proof -
  note ok = assms(1) [unfolded year_digits_ok_def]
  consider (short) "n < 365" | (leap) "n = 365" "e = 3" "\<not> (c = 24 \<and> b = 3)"
    | (last) "n = 365" "e = 3" "c = 24" "b = 3"
    using n by (cases "n < 365") (auto split: if_splits)
  then show ?thesis
  proof cases
    case short
    have "e \<noteq> 4" "b \<noteq> 4" "n \<noteq> 365" using ok short by auto
    then show ?thesis
      by (subst ord2ymd_eval [of _ a "36524 * b + 1461 * c + 365 * e + n" b
          "1461 * c + 365 * e + n" c "365 * e + n" e n])
        (use ok n short in \<open>auto simp: Let_def\<close>)
  next
    case leap
    then show ?thesis
      by (subst ord2ymd_eval [of _ a "36524 * b + 1461 * c + 1460" b "1461 * c + 1460" c 1460 4 0])
        (use ok n in \<open>auto simp: Let_def split: if_splits\<close>)
  next
    case last
    then show ?thesis
      by (subst ord2ymd_eval [of _ a 146096 4 0 0 0 0 0]) (auto simp: Let_def)
  qed
qed

text \<open>
  Every valid date survives the trip to its ordinal and back, and every ordinal the trip to a date.
\<close>

lemma ymd_of_digits:
  assumes "year_digits_ok b c e" "1 \<le> m" "m \<le> 12" "1 \<le> d"
    and "d \<le> days_in_month (400 * a + 100 * b + 4 * c + e + 1) m"
  shows "ord2ymd (ymd2ord (400 * a + 100 * b + 4 * c + e + 1) m d)
    = (400 * a + 100 * b + 4 * c + e + 1, m, d)"
proof -
  let ?y = "400 * a + 100 * b + 4 * c + e + 1"
  let ?n = "days_before_month ?y m + d - 1"
  have len: "0 \<le> ?n" "?n < (if e = 3 \<and> (c \<noteq> 24 \<or> b = 3) then 366 else 365)"
    using days_before_month_bound [OF assms(2,3), of ?y] assms(4,5) is_leap_digits [OF assms(1), of a]
    by (auto split: if_splits)
  have split: "split_month (month_lengths ?y) 1 ?n = (m, d)"
    by (rule split_month_days [OF assms(2-5)])
  have ord: "ymd2ord ?y m d = 146097 * a + 36524 * b + 1461 * c + 365 * e + ?n + 1"
    by (simp add: ymd2ord_def days_before_year_digits [OF assms(1)])
  have "m = 12 \<and> d = 31" if "?n = 365"
  proof -
    from that len have "is_leap ?y"
      using is_leap_digits [OF assms(1), of a] by (auto split: if_splits)
    then have "split_month (month_lengths ?y) 1 365 = (12, 31)"
      by (simp add: month_lengths_def)
    with split that show ?thesis by simp
  qed
  with split show ?thesis
    unfolding ord ord2ymd_digits [OF assms(1) len] by auto
qed

lemma ord2ymd_ymd2ord:
  assumes "valid_date y m d"
  shows "ord2ymd (ymd2ord y m d) = (y, m, d)"
  using assms by (rule_tac y = y in year_digits) (auto simp: valid_date_def intro: ymd_of_digits)

lemma day_digits:
  fixes N :: int
  obtains a b c e n where "N = 146097 * a + 36524 * b + 1461 * c + 365 * e + n + 1"
    "year_digits_ok b c e" "0 \<le> n" "n < (if e = 3 \<and> (c \<noteq> 24 \<or> b = 3) then 366 else 365)"
proof -
  define r where "r = (N - 1) mod 146097"
  have N: "N = 146097 * ((N - 1) div 146097) + r + 1" unfolding r_def
    using mult_div_mod_eq [of 146097 "N - 1"] by linarith
  have r: "0 \<le> r" "r < 146097" by (simp_all add: r_def)
  define b where "b = min 3 (r div 36524)"
  define s where "s = r - 36524 * b"
  have b: "0 \<le> b" "b \<le> 3" using r by (auto simp: b_def)
  have s: "0 \<le> s" "s < 36525" "b < 3 \<Longrightarrow> s < 36524"
    using r mult_div_mod_eq [of 36524 r] pos_mod_bound [of 36524 r] pos_mod_sign [of 36524 r]
    unfolding s_def b_def by (auto simp: min_def split: if_splits)
  define c where "c = s div 1461"
  define t where "t = s mod 1461"
  have st: "s = 1461 * c + t" unfolding c_def t_def by simp
  have t: "0 \<le> t" "t < 1461" by (simp_all add: t_def)
  have c: "0 \<le> c" "c \<le> 24" using s(1,2) st t by auto
  define e where "e = min 3 (t div 365)"
  define n where "n = t - 365 * e"
  have e: "0 \<le> e" "e \<le> 3" using t by (auto simp: e_def)
  have n: "0 \<le> n" "n < 366" "e < 3 \<Longrightarrow> n < 365"
    using t mult_div_mod_eq [of 365 t] pos_mod_bound [of 365 t] pos_mod_sign [of 365 t]
    unfolding n_def e_def by (auto simp: min_def split: if_splits)
  have last: "e = 3 \<Longrightarrow> c = 24 \<Longrightarrow> b < 3 \<Longrightarrow> n < 365"
    using s(3) st unfolding n_def by auto
  show ?thesis
  proof (rule that)
    show "N = 146097 * ((N - 1) div 146097) + 36524 * b + 1461 * c + 365 * e + n + 1"
      using N st unfolding s_def n_def by linarith
    show "year_digits_ok b c e" using b c e by (simp add: year_digits_ok_def)
    show "n < (if e = 3 \<and> (c \<noteq> 24 \<or> b = 3) then 366 else 365)"
      by (cases "e = 3") (use n last b e in auto)
  qed (rule n)
qed

lemma ymd2ord_ord2ymd:
  assumes "ord2ymd N = (y, m, d)"
  shows "ymd2ord y m d = N \<and> 1 \<le> m \<and> m \<le> 12 \<and> 1 \<le> d \<and> d \<le> days_in_month y m"
proof -
  obtain a b c e n where N: "N = 146097 * a + 36524 * b + 1461 * c + 365 * e + n + 1"
    and ok: "year_digits_ok b c e"
    and n: "0 \<le> n" "n < (if e = 3 \<and> (c \<noteq> 24 \<or> b = 3) then 366 else 365)"
    by (rule day_digits)
  let ?y = "400 * a + 100 * b + 4 * c + e + 1"
  have n': "n < (if is_leap ?y then 366 else 365)"
    using n by (simp add: is_leap_digits [OF ok])
  have dby: "days_before_year ?y = N - n - 1"
    using days_before_year_digits [OF ok, of a] N by linarith
  obtain m' d' where split: "split_month (month_lengths ?y) 1 n = (m', d')" by fastforce
  have "(y, m, d) = (?y, m', d')"
  proof (cases "n = 365")
    case True
    then have "is_leap ?y" using n' by (auto split: if_splits)
    with split True have "m' = 12" "d' = 31" by (auto simp: month_lengths_def)
    with True assms ord2ymd_digits [OF ok n, of a] show ?thesis unfolding N by simp
  next
    case False
    with assms split ord2ymd_digits [OF ok n, of a] show ?thesis unfolding N by simp
  qed
  with split_month_year [OF n(1) n' split] dby show ?thesis
    by (auto simp: ymd2ord_def)
qed

lemma days_before_year_low:
  assumes "y \<le> 0"
  shows "days_before_year y \<le> - 366"
proof -
  obtain a b c e where y: "y = 400 * a + 100 * b + 4 * c + e + 1" and ok: "year_digits_ok b c e"
    by (rule year_digits)
  note d = ok [unfolded year_digits_ok_def]
  from y d assms have "a \<le> -1" by linarith
  then show ?thesis unfolding y days_before_year_digits [OF ok] using d by linarith
qed

lemma days_before_year_high:
  assumes "10000 \<le> y"
  shows "3652059 \<le> days_before_year y"
proof -
  obtain a b c e where y: "y = 400 * a + 100 * b + 4 * c + e + 1" and ok: "year_digits_ok b c e"
    by (rule year_digits)
  note d = ok [unfolded year_digits_ok_def]
  show ?thesis unfolding y days_before_year_digits [OF ok]
    by (cases "25 \<le> a") (use d y assms in linarith)+
qed

lemma date_of_valid:
  assumes "valid_dt t" "date_of t = (y, m, d)"
  shows "valid_date y m d" "midnight y m d = floor_day t"
proof -
  have ord: "ymd2ord y m d = ordinal_of t" "1 \<le> m" "m \<le> 12" "1 \<le> d" "d \<le> days_in_month y m"
    using ymd2ord_ord2ymd [of "ordinal_of t"] assms(2) by (auto simp: date_of_def)
  have upto: "days_before_month y m + d \<le> 366" "1 \<le> days_before_month y m + d"
    using days_before_month_bound [OF ord(2,3), of y] ord(4,5) by (auto split: if_splits)
  have range: "1 \<le> ordinal_of t" "ordinal_of t \<le> 3652059"
    using assms(1) by (auto simp: valid_dt_def)
  have "1 \<le> y"
    using days_before_year_low [of y] ord(1) range(1) upto unfolding ymd2ord_def by linarith
  moreover have "y \<le> 9999"
    using days_before_year_high [of y] ord(1) range(2) upto unfolding ymd2ord_def by linarith
  ultimately show "valid_date y m d" using ord by (simp add: valid_date_def)
  show "midnight y m d = floor_day t"
    by (simp add: midnight_def floor_day_def ord(1) ordinal_of_def)
qed

lemma date_of_midnight:
  assumes "valid_date y m d" "0 \<le> u" "u < day"
  shows "date_of (midnight y m d + u) = (y, m, d)"
proof -
  have "(midnight y m d + u) div day = ymd2ord y m d - epoch_ordinal"
    using assms(2,3) by (simp add: midnight_def)
  then show ?thesis
    by (simp add: date_of_def ordinal_of_def ord2ymd_ymd2ord [OF assms(1)])
qed

lemma floor_day_midnight:
  assumes "0 \<le> u" "u < day"
  shows "floor_day (midnight y m d + u) = midnight y m d"
  using assms by (simp add: floor_day_def midnight_def)

lemma floor_day_idem [simp]: "floor_day (floor_day t) = floor_day t"
  by (simp add: floor_day_def)

lemma floor_day_le: "floor_day t \<le> t" "t < floor_day t + day"
proof -
  have "t = floor_day t + t mod day" unfolding floor_day_def by simp
  moreover have "0 \<le> t mod day" "t mod day < day" using day_pos by simp_all
  ultimately show "floor_day t \<le> t" "t < floor_day t + day" by linarith+
qed

lemma date_of_floor_day [simp]: "date_of (floor_day t) = date_of t"
  by (simp add: date_of_def ordinal_of_def floor_day_def)

lemma valid_dt_floor_day [simp]: "valid_dt (floor_day t) = valid_dt t"
  by (simp add: valid_dt_def ordinal_of_def floor_day_def)

end
