(* ===== verification/Json.thy ===== *)
theory Json
  imports Calendar "HOL-Library.Word"
begin

text \<open>
  The values of JSON and Python's \<open>json.dumps\<close> (standard library) of them with an indent and
  \<open>ensure_ascii\<close>; the spelling of a float is the parameter \<open>show_float\<close>. Instants as
  \<open>datetime.isoformat\<close> and \<open>str\<close> spell them.

  Lemma: an encoded string is printable ASCII, whatever the string.
\<close>

section \<open>Values\<close>

datatype json =
    JNull
  | JBool bool
  | JInt int
  | JNum rat
  | JStr string
  | JArr "json list"
  | JObj "(string \<times> json) list"

definition jstr :: "string option \<Rightarrow> json" where
  "jstr v = (case v of None \<Rightarrow> JNull | Some s \<Rightarrow> JStr s)"

definition jint :: "int option \<Rightarrow> json" where
  "jint v = (case v of None \<Rightarrow> JNull | Some i \<Rightarrow> JInt i)"

definition jnum :: "rat option \<Rightarrow> json" where
  "jnum v = (case v of None \<Rightarrow> JNull | Some r \<Rightarrow> JNum r)"

section \<open>Encoding\<close>

definition hex_char :: "nat \<Rightarrow> char" where
  "hex_char n = (if n < 10 then char_of (48 + n) else char_of (87 + n))"

definition escape_char :: "char \<Rightarrow> string" where
  "escape_char c =
     (let n = code c
      in if c = CHR 0x22 then [CHR 0x5C, CHR 0x22]
         else if c = CHR 0x5C then [CHR 0x5C, CHR 0x5C]
         else if n = 10 then [CHR 0x5C, CHR ''n'']
         else if n = 13 then [CHR 0x5C, CHR ''r'']
         else if n = 9 then [CHR 0x5C, CHR ''t'']
         else if n = 12 then [CHR 0x5C, CHR ''f'']
         else if n = 8 then [CHR 0x5C, CHR ''b'']
         else if 32 \<le> n \<and> n \<le> 126 then [c]
         else [CHR 0x5C, CHR ''u'', CHR ''0'', CHR ''0'', hex_char (n div 16), hex_char (n mod 16)])"

definition quote :: "string \<Rightarrow> string" where
  "quote s = [CHR 0x22] @ concat (map escape_char s) @ [CHR 0x22]"

definition newline :: "nat \<Rightarrow> nat \<Rightarrow> string" where
  "newline step level = CHR 0x0A # replicate (step * level) CHR '' ''"

fun dumps :: "(rat \<Rightarrow> string) \<Rightarrow> nat \<Rightarrow> nat \<Rightarrow> json \<Rightarrow> string" where
  "dumps show_float step level JNull = ''null''"
| "dumps show_float step level (JBool b) = (if b then ''true'' else ''false'')"
| "dumps show_float step level (JInt i) = show_int i"
| "dumps show_float step level (JNum r) = show_float r"
| "dumps show_float step level (JStr s) = quote s"
| "dumps show_float step level (JArr vs) =
     (if vs = [] then ''[]''
      else ''['' @ newline step (level + 1)
        @ join (CHR '','' # newline step (level + 1)) (map (dumps show_float step (level + 1)) vs)
        @ newline step level @ '']'')"
| "dumps show_float step level (JObj kvs) =
     (if kvs = [] then ''{}''
      else ''{'' @ newline step (level + 1)
        @ join (CHR '','' # newline step (level + 1))
            (map (\<lambda>(k, v). quote k @ '': '' @ dumps show_float step (level + 1) v) kvs)
        @ newline step level @ ''}'')"

text \<open>\<open>str.encode()\<close> of ASCII text.\<close>

definition encode_ascii :: "string \<Rightarrow> 8 word list" where
  "encode_ascii s = map (\<lambda>c. of_nat (code c)) s"

section \<open>Instants as text\<close>

definition dt_text :: "string \<Rightarrow> dt \<Rightarrow> string" where
  "dt_text sep t =
     (let (y, m, d) = date_of t; u = t mod day; f = u mod second
      in zpad 4 (nat y) @ ''-'' @ zpad 2 (nat m) @ ''-'' @ zpad 2 (nat d) @ sep
         @ zpad 2 (nat (u div hour)) @ '':'' @ zpad 2 (nat (u mod hour div minute)) @ '':''
         @ zpad 2 (nat (u mod minute div second))
         @ (if f = 0 then [] else ''.'' @ zpad 6 (nat f)) @ ''+00:00'')"

definition isoformat :: "dt \<Rightarrow> string" where "isoformat = dt_text ''T''"
definition dt_str :: "dt \<Rightarrow> string" where "dt_str = dt_text '' ''"

section \<open>Encoded strings\<close>

lemma escape_char_printable:
  assumes "x \<in> set (escape_char c)"
  shows "32 \<le> code x \<and> code x \<le> 126"
proof -
  have h: "32 \<le> code (hex_char k) \<and> code (hex_char k) \<le> 126" if "k < 16" for k
    using that by (simp add: hex_char_def)
  have "code c < 16 * 16" using code_lt_256 [of c] by simp
  then have "code c div 16 < 16" by (rule less_mult_imp_div_less)
  moreover have "code c mod 16 < 16" by simp
  ultimately have "32 \<le> code (hex_char (code c div 16)) \<and> code (hex_char (code c div 16)) \<le> 126"
    "32 \<le> code (hex_char (code c mod 16)) \<and> code (hex_char (code c mod 16)) \<le> 126" using h by blast+
  with assms show ?thesis by (auto simp: escape_char_def Let_def split: if_splits)
qed

lemma quote_printable: "x \<in> set (quote s) \<Longrightarrow> 32 \<le> code x \<and> code x \<le> 126"
  using escape_char_printable by (auto simp: quote_def)

end
