(* ===== verification/SettingsSpec.thy ===== *)
theory SettingsSpec
  imports Json
begin

text \<open>
  \<open>src/c2w/settings_spec.py\<close>: the catalogue of settings, with the types, validators and choices that
  \<open>set\<close> and the settings page go by. The texts the page shows (label, unit, description, help) are left
  out. A value is what Python holds: a float is a rational, an infinity or not a number.

  Lemmas: the catalogue is sound: its keys are distinct, and every default and every choice on offer
  has the declared type and passes the setting's own validator.
\<close>

section \<open>Values\<close>

datatype pyfloat = Fin rat | PosInf | NegInf | NaN

datatype pyval = VNone | VBool bool | VInt int | VFloat pyfloat | VStr string | VJson json

definition truthy :: "pyval \<Rightarrow> bool" where
  "truthy v = (case v of
     VNone \<Rightarrow> False | VBool b \<Rightarrow> b | VInt i \<Rightarrow> i \<noteq> 0 | VFloat f \<Rightarrow> f \<noteq> Fin 0 | VStr s \<Rightarrow> s \<noteq> []
   | VJson j \<Rightarrow> (case j of JArr xs \<Rightarrow> xs \<noteq> [] | JObj xs \<Rightarrow> xs \<noteq> [] | _ \<Rightarrow> True))"

text \<open>\<open>str(value)\<close>; the text of a float and of a list or dictionary are parameters.\<close>

record py_text =
  show_float_of :: "pyfloat \<Rightarrow> string"
  show_json_of :: "json \<Rightarrow> string"

definition str_of :: "py_text \<Rightarrow> pyval \<Rightarrow> string" where
  "str_of P v = (case v of
     VNone \<Rightarrow> ''None'' | VBool b \<Rightarrow> (if b then ''True'' else ''False'') | VInt i \<Rightarrow> show_int i
   | VFloat f \<Rightarrow> show_float_of P f | VStr s \<Rightarrow> s | VJson j \<Rightarrow> show_json_of P j)"

text \<open>Comparison with an integer: nothing compares with what is not a number.\<close>

fun le_float :: "pyfloat \<Rightarrow> rat \<Rightarrow> bool" where
  "le_float (Fin r) k = (r \<le> k)"
| "le_float PosInf k = False"
| "le_float NegInf k = True"
| "le_float NaN k = False"

fun ge_float :: "pyfloat \<Rightarrow> rat \<Rightarrow> bool" where
  "ge_float (Fin r) k = (k \<le> r)"
| "ge_float PosInf k = True"
| "ge_float NegInf k = False"
| "ge_float NaN k = False"

definition number_of :: "pyval \<Rightarrow> pyfloat option" where
  "number_of v = (case v of VBool b \<Rightarrow> Some (Fin (if b then 1 else 0)) | VInt i \<Rightarrow> Some (Fin (of_int i))
     | VFloat f \<Rightarrow> Some f | _ \<Rightarrow> None)"

section \<open>Numbers in text\<close>

text \<open>Digits with single underscores between them.\<close>

fun digit_run :: "string \<Rightarrow> string \<times> string" where
  "digit_run [] = ([], [])"
| "digit_run (c # cs) =
     (if is_digit c then (let (ds, rest) = digit_run cs in (c # ds, rest))
      else if c = CHR ''_'' then (case cs of d # _ \<Rightarrow> if is_digit d then digit_run cs else ([], c # cs) | [] \<Rightarrow> ([], c # cs))
      else ([], c # cs))"

definition digit_part :: "string \<Rightarrow> string \<times> string" where
  "digit_part s = (case s of c # _ \<Rightarrow> if is_digit c then digit_run s else ([], s) | [] \<Rightarrow> ([], []))"

definition split_sign :: "string \<Rightarrow> int \<times> string" where
  "split_sign s = (case s of c # cs \<Rightarrow> if c = CHR ''-'' then (-1, cs) else if c = CHR ''+'' then (1, cs) else (1, s)
     | [] \<Rightarrow> (1, []))"

definition py_int_text :: "string \<Rightarrow> int option" where
  "py_int_text s =
     (let (sg, body) = split_sign (py_strip s); (ds, rest) = digit_part body
      in if ds = [] \<or> rest \<noteq> [] then None else Some (sg * py_int ds))"

definition scale10 :: "rat \<Rightarrow> int \<Rightarrow> rat" where
  "scale10 r e = (if 0 \<le> e then r * 10 ^ nat e else r / 10 ^ nat (- e))"

definition py_float_text :: "string \<Rightarrow> pyfloat option" where
  "py_float_text s =
     (let (sg, body) = split_sign (py_strip s); low = py_lower body
      in if low = ''inf'' \<or> low = ''infinity'' then Some (if sg = 1 then PosInf else NegInf)
         else if low = ''nan'' then Some NaN
         else (let (whole, r1) = digit_part body;
                   (frac, r2) = (case r1 of c # cs \<Rightarrow> if c = CHR ''.'' then digit_part cs else ([], r1) | [] \<Rightarrow> ([], []));
                   mant = of_int (sg * py_int (whole @ frac)) / 10 ^ length frac
               in if whole @ frac = [] then None
                  else (case r2 of
                          [] \<Rightarrow> Some (Fin mant)
                        | c # cs \<Rightarrow>
                            if c = CHR ''e'' \<or> c = CHR ''E''
                            then (let (es, ebody) = split_sign cs; (ed, r3) = digit_part ebody
                                  in if ed = [] \<or> r3 \<noteq> [] then None else Some (Fin (scale10 mant (es * py_int ed))))
                            else None)))"

section \<open>Specifications\<close>

datatype setting_type = T_STRING | T_INT | T_FLOAT | T_BOOL | T_SECRET | T_JSON

datatype validator = V_positive | V_non_negative | V_concurrency | V_commpeak_concurrency | V_ttl | V_hour
  | V_http_url | V_hostname | V_log_level

record setting_spec =
  sp_key :: string
  sp_type :: setting_type
  sp_default :: pyval
  sp_category :: string
  sp_brand_overridable :: bool
  sp_sensitive :: bool
  sp_validator :: "validator option"
  sp_restart_required :: bool
  sp_choices :: "string list"

section \<open>Validators\<close>

text \<open>The message of the \<open>ValueError\<close>, and \<open>TypeError\<close> for what cannot be compared.\<close>

definition in_range :: "pyval \<Rightarrow> int option \<Rightarrow> int option \<Rightarrow> string \<Rightarrow> py_exc option" where
  "in_range v lo hi msg =
     (case number_of v of
        None \<Rightarrow> Some (TypeError ''not supported between these types'')
      | Some f \<Rightarrow>
          if (case lo of Some k \<Rightarrow> ge_float f (of_int k) | None \<Rightarrow> True) \<and> (case hi of Some k \<Rightarrow> le_float f (of_int k) | None \<Rightarrow> True)
          then None else Some (ValueError msg))"

text \<open>\<open>value <= 0\<close> and \<open>value < 0\<close> refuse; what compares with nothing is let through.\<close>

definition positive :: "pyval \<Rightarrow> py_exc option" where
  "positive v = (case number_of v of
      None \<Rightarrow> Some (TypeError ''not supported between these types'')
    | Some f \<Rightarrow> if le_float f 0 then Some (ValueError ''must be greater than zero'') else None)"

definition non_negative :: "pyval \<Rightarrow> py_exc option" where
  "non_negative v = (case number_of v of
      None \<Rightarrow> Some (TypeError ''not supported between these types'')
    | Some f \<Rightarrow> if le_float f 0 \<and> \<not> ge_float f 0 then Some (ValueError ''must be zero or greater'') else None)"

text \<open>\<open>repr\<close> of a string.\<close>

definition repr_char :: "char \<Rightarrow> char \<Rightarrow> string" where
  "repr_char q c =
     (let n = code c
      in if c = q \<or> n = 92 then [CHR 0x5C, c]
         else if n = 10 then [CHR 0x5C, CHR ''n''] else if n = 13 then [CHR 0x5C, CHR ''r''] else if n = 9 then [CHR 0x5C, CHR ''t'']
         else if n < 32 \<or> (127 \<le> n \<and> n \<le> 160) \<or> n = 173
         then [CHR 0x5C, CHR ''x'', hex_char (n div 16), hex_char (n mod 16)] else [c])"

definition py_repr :: "string \<Rightarrow> string" where
  "py_repr s =
     (let q = (if CHR 0x27 \<in> set s \<and> CHR 0x22 \<notin> set s then CHR 0x22 else CHR 0x27)
      in q # concat (map (repr_char q) s) @ [q])"

text \<open>\<open>urllib.parse.urlparse\<close>: the scheme, the host part and the path.\<close>

definition scheme_char :: "char \<Rightarrow> bool" where
  "scheme_char c \<longleftrightarrow> is_alnum_ascii c \<or> c = CHR ''+'' \<or> c = CHR ''-'' \<or> c = CHR ''.''"

definition split_scheme :: "string \<Rightarrow> string \<times> string" where
  "split_scheme url =
     (let pre = takeWhile (\<lambda>c. c \<noteq> CHR '':'') url
      in if pre \<noteq> url \<and> pre \<noteq> [] \<and> (is_lower (hd pre) \<or> is_upper (hd pre)) \<and> list_all scheme_char pre
         then (py_lower pre, drop (length pre + 1) url) else ([], url))"

definition url_parts :: "string \<Rightarrow> (string \<times> string \<times> string) option" where
  "url_parts raw =
     (let url = filter (\<lambda>c. c \<notin> {CHR 0x09, CHR 0x0A, CHR 0x0D}) (lstrip_chars (\<lambda>c. code c \<le> 32) raw);
          (scheme, rest) = split_scheme url;
          (netloc, tail) =
            (if starts_with ''//'' rest
             then (takeWhile (\<lambda>c. c \<notin> set ''/?#'') (drop 2 rest), dropWhile (\<lambda>c. c \<notin> set ''/?#'') (drop 2 rest))
             else ([], rest))
      in if (CHR ''['' \<in> set netloc) \<noteq> (CHR '']'' \<in> set netloc) then None
         else Some (scheme, netloc, takeWhile (\<lambda>c. c \<notin> set ''?#'') tail))"

definition url_error :: "string \<Rightarrow> string option" where
  "url_error t =
     (if t = [] then None
      else (case url_parts t of
              None \<Rightarrow> Some ''Invalid IPv6 URL''
            | Some (scheme, netloc, path) \<Rightarrow>
                if scheme \<noteq> ''http'' \<and> scheme \<noteq> ''https''
                then (if \<not> contains ''://'' t \<and> scheme = []
                      then Some (py_repr t @ '' has no http:// or https:// in front of it -- write it as '' @ [CHR 0x27] @ ''https://'' @ t @ [CHR 0x27])
                      else Some (py_repr t @ '' must start with http:// or https://, not '' @ py_repr scheme @ '':''))
                else if netloc = []
                then (if starts_with (scheme @ '':/'') t \<and> \<not> starts_with (scheme @ ''://'') t
                      then Some (py_repr t @ '' has one slash after the scheme, not two -- did you mean ''
                        @ py_repr (scheme @ ''://'' @ drop (length scheme + 2) t) @ ''?'')
                      else Some (py_repr t @ '' has no host in it -- expected something like '' @ [CHR 0x27]
                        @ ''https://recordings.example.com'' @ [CHR 0x27]))
                else if contains ''//'' path then Some ''looks like it has a doubled slash''
                else if last netloc = CHR '':'' \<or> hd netloc = CHR '':'' then Some ''the port looks wrong''
                else None))"

definition http_url :: "py_text \<Rightarrow> pyval \<Rightarrow> py_exc option" where
  "http_url P v = map_option ValueError (url_error (py_strip (if truthy v then str_of P v else [])))"

definition hostname :: "py_text \<Rightarrow> pyval \<Rightarrow> py_exc option" where
  "hostname P v =
     (let t = py_strip (if truthy v then str_of P v else [])
      in if t \<noteq> [] \<and> (contains ''://'' t \<or> CHR ''/'' \<in> set t)
         then Some (ValueError ''just the host name, without http:// or a path'') else None)"

definition upper_ascii :: "string \<Rightarrow> string" where
  "upper_ascii s = map (\<lambda>c. if is_lower c then char_of (code c - 32) else c) s"

definition log_level :: "py_text \<Rightarrow> pyval \<Rightarrow> py_exc option" where
  "log_level P v =
     (if upper_ascii (str_of P v) \<in> set [''DEBUG'', ''INFO'', ''WARNING'', ''ERROR''] then None
      else Some (ValueError ''must be DEBUG, INFO, WARNING or ERROR''))"

fun run_validator :: "py_text \<Rightarrow> validator \<Rightarrow> pyval \<Rightarrow> py_exc option" where
  "run_validator P V_positive v = positive v"
| "run_validator P V_non_negative v = non_negative v"
| "run_validator P V_concurrency v = in_range v (Some 1) (Some 200) ''must be between 1 and 200''"
| "run_validator P V_commpeak_concurrency v =
     in_range v (Some 1) (Some 10) ''CommPeak recommends 5; values above 10 will be throttled''"
| "run_validator P V_ttl v = in_range v (Some 30) (Some 3600) ''must be between 30 and 3600 seconds''"
| "run_validator P V_hour v = in_range v (Some 0) (Some 23) ''must be an hour between 0 and 23''"
| "run_validator P V_http_url v = http_url P v"
| "run_validator P V_hostname v = hostname P v"
| "run_validator P V_log_level v = log_level P v"

section \<open>The catalogue\<close>

definition TIMEZONE_CHOICES :: "string list" where
  "TIMEZONE_CHOICES =
     [''America/Puerto_Rico'', ''America/Santo_Domingo'', ''America/Caracas'', ''America/La_Paz'',
      ''America/Manaus'', ''America/Sao_Paulo'', ''America/Argentina/Buenos_Aires'', ''America/Bogota'',
      ''America/Lima'', ''America/Guayaquil'', ''America/Mexico_City'', ''America/Santiago'',
      ''America/New_York'', ''America/Los_Angeles'', ''Europe/Lisbon'', ''Europe/Madrid'', ''Europe/London'',
      ''Indian/Mahe'', ''UTC'']"

definition WASABI_REGION_CHOICES :: "string list" where
  "WASABI_REGION_CHOICES =
     [''eu-central-1'', ''eu-central-2'', ''eu-west-1'', ''eu-west-2'', ''eu-south-1'', ''us-east-1'',
      ''us-east-2'', ''us-central-1'', ''us-west-1'', ''ca-central-1'', ''ap-northeast-1'', ''ap-northeast-2'',
      ''ap-southeast-1'', ''ap-southeast-2'']"

text \<open>The dash of the source, a character above 255, is written \<open>--\<close>.\<close>

definition LANGUAGE_CHOICES :: "string list" where
  "LANGUAGE_CHOICES =
     [''auto-detect'', ''en -- English'', ''es -- Spanish (Latin America)'', ''es-ES -- Spanish (Spain)'',
      ''pt-BR -- Portuguese (Brazil)'', ''pt-PT -- Portuguese (Portugal)'']"

definition HOURS :: "string list" where
  "HOURS = map (\<lambda>h. show_int (int h)) [0..<24]"

definition spec :: "string \<Rightarrow> setting_type \<Rightarrow> pyval \<Rightarrow> string \<Rightarrow> setting_spec" where
  "spec key ty dflt cat =
     \<lparr>sp_key = key, sp_type = ty, sp_default = dflt, sp_category = cat, sp_brand_overridable = False, sp_sensitive = False,
      sp_validator = None, sp_restart_required = False, sp_choices = []\<rparr>"

definition SPECS_1 :: "setting_spec list" where
  "SPECS_1 =
     [(spec ''core.base_url'' T_STRING (VStr ''http://localhost:8000'') ''Web address and sessions'')
       \<lparr>sp_validator := Some V_http_url\<rparr>,
     (spec ''core.environment'' T_STRING (VStr ''production'') ''Web address and sessions'')
       \<lparr>sp_restart_required := True, sp_choices := [''production'', ''staging'', ''dev'']\<rparr>,
     (spec ''core.session_ttl_seconds'' T_INT (VInt 28800) ''Web address and sessions'')
       \<lparr>sp_validator := Some V_positive, sp_choices := [''3600'', ''14400'', ''28800'', ''43200'', ''86400'']\<rparr>,
     spec ''transfer.enabled'' T_BOOL (VBool False) ''Copying to the archive'',
     (spec ''transfer.concurrency_global'' T_INT (VInt 20) ''Copying to the archive'')
       \<lparr>sp_validator := Some V_concurrency, sp_choices := [''5'', ''10'', ''20'', ''30'', ''50'', ''100'']\<rparr>,
     (spec ''transfer.concurrency_per_destination'' T_INT (VInt 10) ''Copying to the archive'')
       \<lparr>sp_validator := Some V_concurrency, sp_choices := [''2'', ''5'', ''10'', ''20'', ''30'']\<rparr>,
     (spec ''transfer.concurrency_per_brand'' T_INT (VInt 5) ''Copying to the archive'')
       \<lparr>sp_validator := Some V_concurrency, sp_choices := [''1'', ''2'', ''5'', ''10'', ''20'']\<rparr>,
     (spec ''transfer.bandwidth_limit_mbps'' T_FLOAT (VFloat (Fin 0)) ''Copying to the archive'')
       \<lparr>sp_validator := Some V_non_negative, sp_choices := [''0'', ''50'', ''100'', ''200'', ''500'', ''1000'']\<rparr>,
     (spec ''transfer.multipart_threshold_bytes'' T_INT (VInt 16777216) ''Copying to the archive'')
       \<lparr>sp_validator := Some V_positive, sp_choices := [''8388608'', ''16777216'', ''33554432'', ''67108864'']\<rparr>,
     (spec ''transfer.multipart_chunk_bytes'' T_INT (VInt 16777216) ''Copying to the archive'')
       \<lparr>sp_validator := Some V_positive, sp_choices := [''5242880'', ''8388608'', ''16777216'', ''33554432'']\<rparr>,
     (spec ''transfer.max_attempts'' T_INT (VInt 5) ''Copying to the archive'')
       \<lparr>sp_validator := Some V_positive, sp_choices := [''3'', ''5'', ''8'', ''10'']\<rparr>,
     spec ''transfer.retry_backoff_seconds'' T_JSON (VJson (JArr [JInt 30, JInt 120, JInt 600, JInt 1800])) ''Copying to the archive'']"

definition SPECS_2 :: "setting_spec list" where
  "SPECS_2 =
     [(spec ''transfer.job_claim_batch'' T_INT (VInt 8) ''Copying to the archive'')
       \<lparr>sp_validator := Some V_positive, sp_choices := [''1'', ''4'', ''8'', ''16'', ''32'']\<rparr>,
     (spec ''transfer.job_lease_seconds'' T_INT (VInt 900) ''Copying to the archive'')
       \<lparr>sp_validator := Some V_positive, sp_choices := [''300'', ''600'', ''900'', ''1800'', ''3600'']\<rparr>,
     (spec ''transfer.write_sidecar_metadata'' T_BOOL (VBool True) ''Copying to the archive'')
       \<lparr>sp_brand_overridable := True\<rparr>,
     (spec ''retention.offload_after_days'' T_INT (VInt 90) ''Retention'')
       \<lparr>sp_brand_overridable := True, sp_validator := Some V_non_negative, sp_choices := [''0'', ''7'', ''30'', ''60'', ''90'', ''180'', ''365'']\<rparr>,
     spec ''retention.allow_source_deletion'' T_BOOL (VBool False) ''Retention'',
     (spec ''retention.keep_archive_years'' T_INT (VInt 7) ''Retention'')
       \<lparr>sp_brand_overridable := True, sp_validator := Some V_non_negative, sp_choices := [''1'', ''2'', ''3'', ''5'', ''7'', ''10'', ''0'']\<rparr>,
     (spec ''media.presign_ttl_seconds'' T_INT (VInt 300) ''Playback and downloads'')
       \<lparr>sp_validator := Some V_ttl, sp_choices := [''60'', ''300'', ''900'', ''1800'', ''3600'']\<rparr>,
     spec ''media.proxy_enabled'' T_BOOL (VBool True) ''Playback and downloads'',
     spec ''media.transcode_enabled'' T_BOOL (VBool False) ''Playback and downloads'',
     (spec ''media.ffmpeg_path'' T_STRING (VStr ''/usr/bin/ffmpeg'') ''Playback and downloads'')
       \<lparr>sp_choices := [''/usr/bin/ffmpeg'', ''/usr/local/bin/ffmpeg'', ''/snap/bin/ffmpeg'']\<rparr>,
     spec ''alerts.enabled'' T_BOOL (VBool True) ''Alerts'',
     (spec ''alerts.dedupe_window_seconds'' T_INT (VInt 1800) ''Alerts'')
       \<lparr>sp_validator := Some V_non_negative, sp_choices := [''300'', ''900'', ''1800'', ''3600'', ''21600'']\<rparr>,
     (spec ''alerts.telegram_bot_token'' T_SECRET (VStr []) ''Alerts'')
       \<lparr>sp_brand_overridable := True, sp_sensitive := True\<rparr>]"

definition SPECS_3 :: "setting_spec list" where
  "SPECS_3 =
     [(spec ''alerts.telegram_chat_id'' T_STRING (VStr []) ''Alerts'')
       \<lparr>sp_brand_overridable := True\<rparr>,
     (spec ''alerts.slack_webhook_url'' T_SECRET (VStr []) ''Alerts'')
       \<lparr>sp_brand_overridable := True, sp_sensitive := True\<rparr>,
     (spec ''alerts.telegram_platform_chat_id'' T_SECRET (VStr []) ''Alerts'')
       \<lparr>sp_sensitive := True\<rparr>,
     (spec ''alerts.telegram_platform_bot_token'' T_SECRET (VStr []) ''Alerts'')
       \<lparr>sp_sensitive := True\<rparr>,
     (spec ''alerts.telegram_platform_min_severity'' T_STRING (VStr ''INFO'') ''Alerts'')
       \<lparr>sp_choices := [''INFO'', ''WARNING'', ''CRITICAL'']\<rparr>,
     spec ''alerts.on_signin'' T_BOOL (VBool True) ''Alerts'',
     spec ''alerts.on_failed_signin'' T_BOOL (VBool True) ''Alerts'',
     (spec ''alerts.sync_summary_minutes'' T_INT (VInt 60) ''Alerts'')
       \<lparr>sp_brand_overridable := True, sp_validator := Some V_non_negative, sp_choices := [''0'', ''15'', ''30'', ''60'', ''180'', ''360'', ''720'', ''1440'']\<rparr>,
     (spec ''alerts.sync_summary_quiet_when_idle'' T_BOOL (VBool False) ''Alerts'')
       \<lparr>sp_brand_overridable := True\<rparr>,
     (spec ''alerts.daily_digest_hour'' T_INT (VInt 8) ''Alerts'')
       \<lparr>sp_validator := Some V_hour, sp_choices := HOURS\<rparr>,
     (spec ''schedule.reconcile_hour'' T_INT (VInt 3) ''Scheduling'')
       \<lparr>sp_validator := Some V_hour, sp_choices := HOURS\<rparr>,
     (spec ''schedule.cdr_poll_seconds'' T_INT (VInt 300) ''Scheduling'')
       \<lparr>sp_validator := Some V_positive, sp_choices := [''60'', ''300'', ''600'', ''900'', ''1800'']\<rparr>]"

definition SPECS_4 :: "setting_spec list" where
  "SPECS_4 =
     [(spec ''observability.log_level'' T_STRING (VStr ''INFO'') ''Logs and monitoring'')
       \<lparr>sp_validator := Some V_log_level, sp_restart_required := True, sp_choices := [''DEBUG'', ''INFO'', ''WARNING'', ''ERROR'']\<rparr>,
     (spec ''observability.log_json'' T_BOOL (VBool True) ''Logs and monitoring'')
       \<lparr>sp_restart_required := True\<rparr>,
     (spec ''observability.metrics_enabled'' T_BOOL (VBool True) ''Logs and monitoring'')
       \<lparr>sp_restart_required := True\<rparr>,
     (spec ''org.display_name'' T_STRING (VStr []) ''Your company'')\<lparr>sp_brand_overridable := True\<rparr>,
     (spec ''org.contact_email'' T_STRING (VStr []) ''Your company'')
       \<lparr>sp_brand_overridable := True\<rparr>,
     (spec ''org.timezone'' T_STRING (VStr ''America/Puerto_Rico'') ''Your company'')
       \<lparr>sp_brand_overridable := True, sp_choices := TIMEZONE_CHOICES\<rparr>,
     (spec ''org.data_region_note'' T_STRING (VStr []) ''Your company'')
       \<lparr>sp_brand_overridable := True, sp_choices := [[], ''No restriction'', ''EU only'', ''UK only'', ''US only'', ''Customer country only'']\<rparr>,
     (spec ''commpeak.s3_endpoint'' T_STRING (VStr ''https://recordings.commpeak.com'') ''CommPeak calls'')
       \<lparr>sp_brand_overridable := True, sp_validator := Some V_http_url, sp_choices := [''https://recordings.commpeak.com'']\<rparr>,
     (spec ''commpeak.cdr_api_base'' T_STRING (VStr []) ''CommPeak calls'')
       \<lparr>sp_brand_overridable := True, sp_validator := Some V_http_url\<rparr>,
     (spec ''commpeak.cdr_api_path'' T_STRING (VStr ''/api/cdrs'') ''CommPeak calls'')
       \<lparr>sp_brand_overridable := True, sp_choices := [''/api/cdrs'']\<rparr>,
     (spec ''commpeak.cdr_auth_scheme'' T_STRING (VStr ''header'') ''CommPeak calls'')
       \<lparr>sp_brand_overridable := True, sp_choices := [''header'', ''bearer'', ''basic'', ''query'', ''none'']\<rparr>,
     (spec ''commpeak.cdr_api_user'' T_STRING (VStr []) ''CommPeak calls'')
       \<lparr>sp_brand_overridable := True\<rparr>]"

definition SPECS_5 :: "setting_spec list" where
  "SPECS_5 =
     [(spec ''commpeak.cdr_api_token'' T_SECRET (VStr []) ''CommPeak calls'')
       \<lparr>sp_brand_overridable := True, sp_sensitive := True\<rparr>,
     (spec ''commpeak.cdr_page_size'' T_INT (VInt 500) ''CommPeak calls'')
       \<lparr>sp_brand_overridable := True, sp_validator := Some V_positive, sp_choices := [''100'', ''250'', ''500'', ''1000'']\<rparr>,
     (spec ''commpeak.cdr_poll_minutes'' T_INT (VInt 15) ''CommPeak calls'')
       \<lparr>sp_brand_overridable := True, sp_validator := Some V_positive, sp_choices := [''1'', ''5'', ''10'', ''15'', ''30'', ''60'']\<rparr>,
     (spec ''commpeak.cdr_overlap_minutes'' T_INT (VInt 30) ''CommPeak calls'')
       \<lparr>sp_brand_overridable := True, sp_validator := Some V_non_negative, sp_choices := [''0'', ''5'', ''15'', ''30'', ''60'', ''180'']\<rparr>,
     (spec ''sms.enabled'' T_BOOL (VBool False) ''CommPeak messages'')
       \<lparr>sp_brand_overridable := True\<rparr>,
     (spec ''sms.api_base'' T_STRING (VStr ''https://gw.commpeak.com'') ''CommPeak messages'')
       \<lparr>sp_brand_overridable := True, sp_validator := Some V_http_url, sp_choices := [''https://gw.commpeak.com'']\<rparr>,
     (spec ''sms.api_path'' T_STRING (VStr ''/textpeak/streams/messages'') ''CommPeak messages'')
       \<lparr>sp_brand_overridable := True, sp_choices := [''/textpeak/streams/messages'']\<rparr>,
     (spec ''sms.incoming_path'' T_STRING (VStr ''/textpeak/streams/incoming_messages'') ''CommPeak messages'')
       \<lparr>sp_brand_overridable := True, sp_choices := [''/textpeak/streams/incoming_messages'']\<rparr>,
     (spec ''sms.api_token'' T_SECRET (VStr []) ''CommPeak messages'')
       \<lparr>sp_brand_overridable := True, sp_sensitive := True\<rparr>,
     (spec ''sms.stream_id'' T_STRING (VStr []) ''CommPeak messages'')
       \<lparr>sp_brand_overridable := True\<rparr>,
     (spec ''sms.page_size'' T_INT (VInt 100) ''CommPeak messages'')
       \<lparr>sp_brand_overridable := True, sp_validator := Some V_positive, sp_choices := [''50'', ''100'', ''250'', ''500'']\<rparr>]"

definition SPECS_6 :: "setting_spec list" where
  "SPECS_6 =
     [(spec ''sms.poll_minutes'' T_INT (VInt 15) ''CommPeak messages'')
       \<lparr>sp_brand_overridable := True, sp_validator := Some V_positive, sp_choices := [''5'', ''10'', ''15'', ''30'', ''60'']\<rparr>,
     (spec ''sms.overlap_hours'' T_INT (VInt 24) ''CommPeak messages'')
       \<lparr>sp_brand_overridable := True, sp_validator := Some V_positive, sp_choices := [''1'', ''6'', ''12'', ''24'', ''72'']\<rparr>,
     spec ''source.read_only'' T_BOOL (VBool True) ''CommPeak calls'',
     (spec ''source.concurrency_per_connection'' T_INT (VInt 5) ''CommPeak calls'')
       \<lparr>sp_validator := Some V_commpeak_concurrency, sp_choices := [''1'', ''2'', ''3'', ''4'', ''5'', ''6'', ''8'', ''10'']\<rparr>,
     spec ''retention.delete_source_enabled'' T_BOOL (VBool False) ''Retention'',
     (spec ''retention.delete_source_after_days'' T_INT (VInt 90) ''Retention'')
       \<lparr>sp_brand_overridable := True, sp_validator := Some V_positive, sp_choices := [''30'', ''60'', ''90'', ''180'', ''365'', ''730'']\<rparr>,
     (spec ''retention.delete_batch_size'' T_INT (VInt 100) ''Retention'')
       \<lparr>sp_validator := Some V_positive, sp_choices := [''50'', ''100'', ''500'', ''1000'']\<rparr>,
     (spec ''archive.source_objects_estimate'' T_INT (VInt 19300000) ''Copying to the archive'')
       \<lparr>sp_validator := Some V_positive\<rparr>,
     (spec ''ui.stats_cache_seconds'' T_INT (VInt 120) ''Logs and monitoring'')
       \<lparr>sp_choices := [''0'', ''30'', ''60'', ''120'', ''300'', ''600'']\<rparr>,
     (spec ''source.list_page_size'' T_INT (VInt 1000) ''CommPeak calls'')
       \<lparr>sp_validator := Some V_positive, sp_choices := [''100'', ''250'', ''500'', ''1000'']\<rparr>]"

definition SPECS_7 :: "setting_spec list" where
  "SPECS_7 =
     [(spec ''source.incremental_poll_seconds'' T_INT (VInt 300) ''CommPeak calls'')
       \<lparr>sp_brand_overridable := True, sp_validator := Some V_positive, sp_choices := [''60'', ''300'', ''600'', ''900'', ''1800'', ''3600'']\<rparr>,
     (spec ''source.key_root_prefix'' T_STRING (VStr ''recordings/'') ''CommPeak calls'')
       \<lparr>sp_brand_overridable := True\<rparr>,
     (spec ''source.watch_enabled'' T_BOOL (VBool True) ''CommPeak calls'')
       \<lparr>sp_brand_overridable := True\<rparr>,
     (spec ''source.network_failures_before_pause'' T_INT (VInt 10) ''CommPeak calls'')
       \<lparr>sp_validator := Some V_positive, sp_choices := [''3'', ''5'', ''10'', ''20'', ''50'']\<rparr>,
     (spec ''source.watch_interval_seconds'' T_INT (VInt 120) ''CommPeak calls'')
       \<lparr>sp_brand_overridable := True, sp_validator := Some V_positive, sp_choices := [''60'', ''120'', ''300'', ''600'', ''900'']\<rparr>,
     (spec ''source.incremental_overlap_hours'' T_INT (VInt 3) ''CommPeak calls'')
       \<lparr>sp_validator := Some V_non_negative, sp_choices := [''0'', ''1'', ''2'', ''3'', ''6'', ''12'', ''24'']\<rparr>,
     (spec ''wasabi.region'' T_STRING (VStr ''eu-central-1'') ''Wasabi storage'')
       \<lparr>sp_brand_overridable := True, sp_choices := WASABI_REGION_CHOICES\<rparr>,
     (spec ''wasabi.path_prefix'' T_STRING (VStr ''archive'') ''Wasabi storage'')
       \<lparr>sp_brand_overridable := True, sp_choices := [''archive'', ''recordings'', ''c2w'']\<rparr>,
     spec ''wasabi.verify_after_upload'' T_BOOL (VBool True) ''Wasabi storage'',
     (spec ''wasabi.min_free_gb'' T_INT (VInt 5) ''Wasabi storage'')
       \<lparr>sp_validator := Some V_non_negative, sp_choices := [''1'', ''2'', ''5'', ''10'', ''20'', ''50'']\<rparr>,
     (spec ''auth.oidc_entra_enabled'' T_BOOL (VBool False) ''Microsoft 365'')
       \<lparr>sp_brand_overridable := True\<rparr>]"

definition SPECS_8 :: "setting_spec list" where
  "SPECS_8 =
     [(spec ''auth.oidc_entra_tenant_id'' T_STRING (VStr []) ''Microsoft 365'')
       \<lparr>sp_brand_overridable := True\<rparr>,
     (spec ''auth.oidc_entra_client_id'' T_STRING (VStr []) ''Microsoft 365'')
       \<lparr>sp_brand_overridable := True\<rparr>,
     (spec ''auth.oidc_entra_client_secret'' T_SECRET (VStr []) ''Microsoft 365'')
       \<lparr>sp_brand_overridable := True, sp_sensitive := True\<rparr>,
     (spec ''auth.entra_redirect_note'' T_STRING (VStr []) ''Microsoft 365'')
       \<lparr>sp_brand_overridable := True\<rparr>,
     (spec ''auth.entra_allowed_domains'' T_STRING (VStr []) ''Microsoft 365'')
       \<lparr>sp_brand_overridable := True\<rparr>,
     (spec ''auth.oidc_google_enabled'' T_BOOL (VBool False) ''Google Workspace'')
       \<lparr>sp_brand_overridable := True\<rparr>,
     (spec ''auth.oidc_google_client_id'' T_STRING (VStr []) ''Google Workspace'')
       \<lparr>sp_brand_overridable := True\<rparr>,
     (spec ''auth.oidc_google_client_secret'' T_SECRET (VStr []) ''Google Workspace'')
       \<lparr>sp_brand_overridable := True, sp_sensitive := True\<rparr>,
     (spec ''auth.google_allowed_domains'' T_STRING (VStr []) ''Google Workspace'')
       \<lparr>sp_brand_overridable := True\<rparr>,
     (spec ''ldap.enabled'' T_BOOL (VBool False) ''Active Directory'')
       \<lparr>sp_brand_overridable := True\<rparr>,
     (spec ''ldap.server_uri'' T_STRING (VStr []) ''Active Directory'')
       \<lparr>sp_brand_overridable := True\<rparr>,
     (spec ''ldap.bind_dn'' T_STRING (VStr []) ''Active Directory'')\<lparr>sp_brand_overridable := True\<rparr>,
     (spec ''ldap.bind_password'' T_SECRET (VStr []) ''Active Directory'')
       \<lparr>sp_brand_overridable := True, sp_sensitive := True\<rparr>]"

definition SPECS_9 :: "setting_spec list" where
  "SPECS_9 =
     [(spec ''ldap.base_dn'' T_STRING (VStr []) ''Active Directory'')\<lparr>sp_brand_overridable := True\<rparr>,
     (spec ''ldap.admin_group'' T_STRING (VStr []) ''Active Directory'')
       \<lparr>sp_brand_overridable := True\<rparr>,
     (spec ''ldap.user_group'' T_STRING (VStr []) ''Active Directory'')
       \<lparr>sp_brand_overridable := True\<rparr>,
     (spec ''ldap.sync_interval_hours'' T_INT (VInt 6) ''Active Directory'')
       \<lparr>sp_brand_overridable := True, sp_validator := Some V_positive, sp_choices := [''1'', ''3'', ''6'', ''12'', ''24'']\<rparr>,
     (spec ''ldap.remove_when_gone'' T_BOOL (VBool True) ''Active Directory'')
       \<lparr>sp_brand_overridable := True\<rparr>,
     spec ''auth.local_accounts_enabled'' T_BOOL (VBool True) ''Two-factor and passwords'',
     spec ''mfa.require_totp'' T_BOOL (VBool False) ''Two-factor and passwords'',
     spec ''core.platform_name'' T_STRING (VStr ''CommPeak-2-Wasabi'') ''Web address and sessions'',
     spec ''mfa.issuer_name'' T_STRING (VStr ''CommPeak-2-Wasabi'') ''Two-factor and passwords'',
     (spec ''auth.password_min_length'' T_INT (VInt 12) ''Two-factor and passwords'')
       \<lparr>sp_validator := Some V_positive, sp_choices := [''8'', ''10'', ''12'', ''14'', ''16'', ''20'']\<rparr>,
     (spec ''auth.lockout_attempts'' T_INT (VInt 8) ''Two-factor and passwords'')
       \<lparr>sp_validator := Some V_positive, sp_choices := [''3'', ''5'', ''8'', ''10'', ''20'']\<rparr>,
     (spec ''auth.lockout_minutes'' T_INT (VInt 15) ''Two-factor and passwords'')
       \<lparr>sp_validator := Some V_positive, sp_choices := [''5'', ''15'', ''30'', ''60'']\<rparr>,
     spec ''turnstile.enabled'' T_BOOL (VBool False) ''Cloudflare'']"

definition SPECS_10 :: "setting_spec list" where
  "SPECS_10 =
     [spec ''turnstile.site_key'' T_STRING (VStr []) ''Cloudflare'',
     (spec ''turnstile.secret_key'' T_SECRET (VStr []) ''Cloudflare'')\<lparr>sp_sensitive := True\<rparr>,
     spec ''turnstile.skip_on_lan'' T_BOOL (VBool True) ''Cloudflare'',
     spec ''tunnel.enabled'' T_BOOL (VBool False) ''Cloudflare'',
     (spec ''tunnel.hostname'' T_STRING (VStr []) ''Cloudflare'')\<lparr>sp_validator := Some V_hostname\<rparr>,
     (spec ''tunnel.token'' T_SECRET (VStr []) ''Cloudflare'')\<lparr>sp_sensitive := True\<rparr>,
     (spec ''transcribe.enabled'' T_BOOL (VBool False) ''Transcription and voice analysis'')
       \<lparr>sp_brand_overridable := True\<rparr>,
     (spec ''transcribe.engine'' T_STRING (VStr ''whisper-local'') ''Transcription and voice analysis'')
       \<lparr>sp_brand_overridable := True, sp_choices := [''whisper-local'', ''faster-whisper-local'', ''openai-whisper-api'', ''azure-speech'', ''google-speech'', ''aws-transcribe'']\<rparr>,
     (spec ''transcribe.model'' T_STRING (VStr ''medium'') ''Transcription and voice analysis'')
       \<lparr>sp_brand_overridable := True, sp_choices := [''tiny'', ''base'', ''small'', ''medium'', ''large-v3'', ''turbo'']\<rparr>,
     (spec ''transcribe.primary_language'' T_STRING (VStr ''auto-detect'') ''Transcription and voice analysis'')
       \<lparr>sp_brand_overridable := True, sp_choices := LANGUAGE_CHOICES\<rparr>,
     (spec ''transcribe.also_expect'' T_STRING (VStr []) ''Transcription and voice analysis'')
       \<lparr>sp_brand_overridable := True, sp_choices := [] # drop 1 LANGUAGE_CHOICES\<rparr>,
     (spec ''transcribe.diarize'' T_BOOL (VBool True) ''Transcription and voice analysis'')
       \<lparr>sp_brand_overridable := True\<rparr>]"

definition SPECS_11 :: "setting_spec list" where
  "SPECS_11 =
     [(spec ''transcribe.word_timestamps'' T_BOOL (VBool True) ''Transcription and voice analysis'')
       \<lparr>sp_brand_overridable := True\<rparr>,
     (spec ''transcribe.redact_numbers'' T_BOOL (VBool False) ''Transcription and voice analysis'')
       \<lparr>sp_brand_overridable := True\<rparr>,
     (spec ''transcribe.only_longer_than'' T_INT (VInt 15) ''Transcription and voice analysis'')
       \<lparr>sp_brand_overridable := True, sp_validator := Some V_non_negative, sp_choices := [''0'', ''5'', ''10'', ''15'', ''30'', ''60'']\<rparr>,
     (spec ''transcribe.min_speech_seconds'' T_INT (VInt 5) ''Transcription and voice analysis'')
       \<lparr>sp_brand_overridable := True, sp_validator := Some V_non_negative, sp_choices := [''0'', ''3'', ''5'', ''10'', ''20'']\<rparr>,
     (spec ''transcribe.announcement_repeats'' T_INT (VInt 20) ''Transcription and voice analysis'')
       \<lparr>sp_brand_overridable := True, sp_validator := Some V_non_negative, sp_choices := [''0'', ''10'', ''20'', ''50'', ''100'']\<rparr>,
     (spec ''transcribe.concurrency'' T_INT (VInt 1) ''Transcription and voice analysis'')
       \<lparr>sp_validator := Some V_positive, sp_choices := [''1'', ''2'', ''3'', ''4'', ''6'', ''8'']\<rparr>,
     (spec ''analysis.sentiment'' T_BOOL (VBool False) ''Transcription and voice analysis'')
       \<lparr>sp_brand_overridable := True\<rparr>,
     (spec ''analysis.keywords'' T_STRING (VStr []) ''Transcription and voice analysis'')
       \<lparr>sp_brand_overridable := True\<rparr>,
     (spec ''analysis.retain_transcript_years'' T_INT (VInt 7) ''Transcription and voice analysis'')
       \<lparr>sp_brand_overridable := True, sp_validator := Some V_non_negative, sp_choices := [''1'', ''2'', ''3'', ''5'', ''7'', ''10'']\<rparr>]"

definition SETTINGS :: "setting_spec list" where
  "SETTINGS = SPECS_1 @ SPECS_2 @ SPECS_3 @ SPECS_4 @ SPECS_5 @ SPECS_6 @ SPECS_7 @ SPECS_8 @ SPECS_9 @ SPECS_10 @ SPECS_11"

definition CATEGORY_ORDER :: "string list" where
  "CATEGORY_ORDER =
     [''Your company'', ''CommPeak calls'', ''CommPeak messages'', ''Wasabi storage'',
      ''Copying to the archive'', ''Retention'', ''Playback and downloads'',
      ''Transcription and voice analysis'', ''Alerts'', ''Scheduling'', ''Two-factor and passwords'',
      ''Web address and sessions'', ''Active Directory'', ''Microsoft 365'', ''Google Workspace'',
      ''Cloudflare'', ''Logs and monitoring'']"

section \<open>Access\<close>

definition get_spec :: "string \<Rightarrow> py_exc + setting_spec" where
  "get_spec key = (case List.find (\<lambda>s. sp_key s = key) SETTINGS of
     Some s \<Rightarrow> Inr s
   | None \<Rightarrow> Inl (LookupError (''unknown setting '' @ py_repr key @ ''; declare it in c2w.settings_spec before use'')))"

fun group_by_category :: "setting_spec list \<Rightarrow> (string \<times> setting_spec list) list \<Rightarrow> (string \<times> setting_spec list) list" where
  "group_by_category [] g = g"
| "group_by_category (s # ss) g =
     group_by_category ss
       (if map_of g (sp_category s) = None then g @ [(sp_category s, [s])]
        else map (\<lambda>(c, xs). if c = sp_category s then (c, xs @ [s]) else (c, xs)) g)"

definition specs_by_category :: "(string \<times> setting_spec list) list" where
  "specs_by_category =
     (let grouped = group_by_category SETTINGS []
      in concat (map (\<lambda>name. case map_of grouped name of None \<Rightarrow> [] | Some xs \<Rightarrow> [(name, xs)]) CATEGORY_ORDER)
         @ filter (\<lambda>(c, _). c \<notin> set CATEGORY_ORDER) grouped)"

section \<open>The catalogue is sound\<close>

text \<open>Distinct by a number made of each key.\<close>

fun key_number :: "int \<Rightarrow> string \<Rightarrow> int" where
  "key_number a [] = a"
| "key_number a (c # cs) = key_number (2 * a + of_char c) cs"

lemma keys_distinct: "distinct (map sp_key SETTINGS)"
proof -
  have "distinct (map (key_number 0) (map sp_key SETTINGS))"
    by (simp add: SETTINGS_def SPECS_1_def SPECS_2_def SPECS_3_def SPECS_4_def SPECS_5_def SPECS_6_def SPECS_7_def
        SPECS_8_def SPECS_9_def SPECS_10_def SPECS_11_def spec_def)
  then show ?thesis by (rule conjunct1 [OF iffD1 [OF distinct_map]])
qed

lemma sensitive_iff_secret: "list_all (\<lambda>s. sp_sensitive s = (sp_type s = T_SECRET)) SETTINGS"
  by code_simp

lemma categories_known: "list_all (\<lambda>s. sp_category s \<in> set CATEGORY_ORDER) SETTINGS"
  by code_simp

lemma secrets_unvalidated: "list_all (\<lambda>s. sp_type s = T_SECRET \<longrightarrow> sp_validator s = None \<and> sp_default s = VStr []) SETTINGS"
  by code_simp

end
