(* ===== verification/Bytes.thy ===== *)
theory Bytes
  imports Prelude "HOL-Library.Word"
begin

text \<open>
  Byte strings and their texts, as the source uses Python's: base64 in the URL-safe alphabet with
  the decoder's leniency, base32 as authenticator secrets use it, hexadecimal, and the UTF-8 encoding
  of the characters below 256.

  Lemmas: decoding undoes encoding, for each.
\<close>

type_synonym bytes = "8 word list"

definition byte :: "nat \<Rightarrow> 8 word" where "byte n = of_nat n"

lemma unat_byte: "n < 256 \<Longrightarrow> unat (byte n) = n"
  by (simp add: byte_def unat_of_nat)

lemma unat_byte_lt [simp]: "unat (b :: 8 word) < 256"
  using unsigned_less [of b] by simp

lemma byte_unat [simp]: "byte (unat b) = b"
  by (simp add: byte_def)

section \<open>An alphabet\<close>

text \<open>The value of a character is its place in the alphabet.\<close>

fun place :: "char \<Rightarrow> string \<Rightarrow> nat option" where
  "place c [] = None"
| "place c (x # xs) = (if x = c then Some 0 else map_option Suc (place c xs))"

lemma place_nth: "distinct xs \<Longrightarrow> n < length xs \<Longrightarrow> place (xs ! n) xs = Some n"
proof (induction xs arbitrary: n)
  case (Cons x xs)
  then show ?case by (cases n) (auto simp: nth_mem)
qed simp

lemma place_Some: "place c xs = Some n \<Longrightarrow> n < length xs \<and> xs ! n = c"
  by (induction xs arbitrary: n) (auto split: if_splits)

lemma place_None: "place c xs = None \<longleftrightarrow> c \<notin> set xs"
  by (induction xs) auto

lemma rstrip_none: "(\<And>c. c \<in> set s \<Longrightarrow> \<not> p c) \<Longrightarrow> rstrip_chars p s = s"
  by (cases s rule: rev_cases) (simp_all add: rstrip_chars_def)

lemma nth_not_in: "x \<notin> set xs \<Longrightarrow> n < length xs \<Longrightarrow> xs ! n \<noteq> x"
  by (metis nth_mem)

section \<open>Base64\<close>

definition b64_alphabet :: string where
  "b64_alphabet = ''ABCDEFGHIJKLMNOPQRSTUVWXYZabcdefghijklmnopqrstuvwxyz0123456789-_''"

definition b64_char :: "nat \<Rightarrow> char" where
  "b64_char n = b64_alphabet ! n"

text \<open>The decoder first maps \<open>-\<close> and \<open>_\<close> to \<open>+\<close> and \<open>/\<close>, so takes both.\<close>

definition b64_value :: "char \<Rightarrow> nat option" where
  "b64_value c = (if c = CHR ''+'' then Some 62 else if c = CHR ''/'' then Some 63 else place c b64_alphabet)"

fun b64_encode_nats :: "nat list \<Rightarrow> string" where
  "b64_encode_nats [] = []"
| "b64_encode_nats [a] = [b64_char (a div 4), b64_char (a mod 4 * 16), CHR ''='', CHR ''='']"
| "b64_encode_nats [a, b] =
     [b64_char (a div 4), b64_char (a mod 4 * 16 + b div 16), b64_char (b mod 16 * 4), CHR ''='']"
| "b64_encode_nats (a # b # d # rest) =
     [b64_char (a div 4), b64_char (a mod 4 * 16 + b div 16), b64_char (b mod 16 * 4 + d div 64), b64_char (d mod 64)]
     @ b64_encode_nats rest"

definition b64_encode :: "bytes \<Rightarrow> string" where
  "b64_encode bs = b64_encode_nats (map unat bs)"

text \<open>\<open>binascii.a2b_base64\<close> without \<open>strict_mode\<close>: the place in the quad, what is left of the last
  character and the padding seen; a character outside the alphabet is passed over, and a padding that
  completes a quad ends the text.\<close>

fun b64_decode_nats :: "nat \<Rightarrow> nat \<Rightarrow> nat \<Rightarrow> string \<Rightarrow> nat list option" where
  "b64_decode_nats quad left pads [] = (if quad = 0 then Some [] else None)"
| "b64_decode_nats quad left pads (c # cs) =
     (if c = CHR ''=''
      then (if 2 \<le> quad \<and> 4 \<le> quad + (pads + 1) then Some []
            else b64_decode_nats quad left (if 2 \<le> quad then pads + 1 else pads) cs)
      else (case b64_value c of
              None \<Rightarrow> b64_decode_nats quad left pads cs
            | Some v \<Rightarrow>
                if quad = 0 then b64_decode_nats 1 v 0 cs
                else if quad = 1 then map_option (\<lambda>bs. (left * 4 + v div 16) # bs) (b64_decode_nats 2 (v mod 16) 0 cs)
                else if quad = 2 then map_option (\<lambda>bs. (left * 16 + v div 4) # bs) (b64_decode_nats 3 (v mod 4) 0 cs)
                else map_option (\<lambda>bs. (left * 64 + v) # bs) (b64_decode_nats 0 0 0 cs)))"

definition b64_decode :: "string \<Rightarrow> bytes option" where
  "b64_decode s = map_option (map byte) (b64_decode_nats 0 0 0 s)"

lemma b64_value_char: "n < 64 \<Longrightarrow> b64_value (b64_char n) = Some n"
proof -
  assume n: "n < 64"
  have len: "length b64_alphabet = 64" and d: "distinct b64_alphabet" by code_simp+
  have "CHR ''+'' \<notin> set b64_alphabet" "CHR ''/'' \<notin> set b64_alphabet" by code_simp+
  then have "b64_char n \<noteq> CHR ''+''" "b64_char n \<noteq> CHR ''/''"
    using nth_not_in [of _ b64_alphabet n] n len by (auto simp: b64_char_def)
  then show ?thesis using place_nth [OF d] n len by (simp add: b64_value_def b64_char_def)
qed

lemma b64_char_not_pad: "n < 64 \<Longrightarrow> b64_char n \<noteq> CHR ''=''"
proof -
  assume n: "n < 64"
  have "length b64_alphabet = 64" "CHR ''='' \<notin> set b64_alphabet" by code_simp+
  then show ?thesis using nth_not_in [of _ b64_alphabet n] n by (auto simp: b64_char_def)
qed

lemma b64_nats: "\<forall>n \<in> set ns. n < 256 \<Longrightarrow> b64_decode_nats 0 0 0 (b64_encode_nats ns) = Some ns"
proof (induction ns rule: b64_encode_nats.induct)
  case (2 a)
  then have "a div 4 < 64" "a mod 4 * 16 < 64" by auto
  then show ?case by (simp add: b64_value_char b64_char_not_pad)
next
  case (3 a b)
  have lt: "a div 4 < 64" "a mod 4 * 16 + b div 16 < 64" "b mod 16 * 4 < 64" using 3 by auto
  have "(a mod 4 * 16 + b div 16) div 16 = a mod 4" "(a mod 4 * 16 + b div 16) mod 16 = b div 16" using 3 by auto
  with lt show ?case by (simp add: b64_value_char b64_char_not_pad)
next
  case (4 a b d rest)
  have lt: "a div 4 < 64" "a mod 4 * 16 + b div 16 < 64" "b mod 16 * 4 + d div 64 < 64" "d mod 64 < 64" using 4 by auto
  have "(a mod 4 * 16 + b div 16) div 16 = a mod 4" "(a mod 4 * 16 + b div 16) mod 16 = b div 16"
    "(b mod 16 * 4 + d div 64) div 4 = b mod 16" "(b mod 16 * 4 + d div 64) mod 4 = d div 64" using 4 by auto
  with lt 4 show ?case by (simp add: b64_value_char b64_char_not_pad)
qed simp

lemma b64_roundtrip: "b64_decode (b64_encode bs) = Some bs"
proof -
  have "b64_decode_nats 0 0 0 (b64_encode_nats (map unat bs)) = Some (map unat bs)" by (rule b64_nats) auto
  then show ?thesis by (simp add: b64_decode_def b64_encode_def o_def)
qed


section \<open>Digits\<close>

fun digits_of :: "nat \<Rightarrow> nat \<Rightarrow> nat \<Rightarrow> nat list" where
  "digits_of b 0 n = []"
| "digits_of b (Suc k) n = digits_of b k (n div b) @ [n mod b]"

definition num_of :: "nat \<Rightarrow> nat list \<Rightarrow> nat" where
  "num_of b ds = foldl (\<lambda>a d. a * b + d) 0 ds"

lemma num_of_snoc [simp]: "num_of b (ds @ [d]) = num_of b ds * b + d"
  by (simp add: num_of_def)

lemma length_digits_of [simp]: "length (digits_of b k n) = k"
  by (induction k arbitrary: n) simp_all

lemma digits_of_lt: "0 < b \<Longrightarrow> d \<in> set (digits_of b k n) \<Longrightarrow> d < b"
  by (induction k arbitrary: n) auto

lemma num_of_digits: "0 < b \<Longrightarrow> n < b ^ k \<Longrightarrow> num_of b (digits_of b k n) = n"
proof (induction k arbitrary: n)
  case (Suc k)
  then have "n div b < b ^ k" by (simp add: less_mult_imp_div_less mult.commute)
  then show ?case using Suc by simp
qed (simp add: num_of_def)

lemma digits_of_num: "0 < b \<Longrightarrow> \<forall>d \<in> set ds. d < b \<Longrightarrow> digits_of b (length ds) (num_of b ds) = ds"
  by (induction ds rule: rev_induct) simp_all

lemma num_of_lt: "0 < b \<Longrightarrow> \<forall>d \<in> set ds. d < b \<Longrightarrow> num_of b ds < b ^ length ds"
proof (induction ds rule: rev_induct)
  case (snoc d ds)
  then have "num_of b ds + 1 \<le> b ^ length ds" "d < b" by auto
  then have "(num_of b ds + 1) * b \<le> b ^ length ds * b" by (simp only: mult_le_mono1)
  then show ?case using \<open>d < b\<close> by (simp add: algebra_simps)
qed (simp add: num_of_def)

section \<open>Base32\<close>

definition b32_alphabet :: string where "b32_alphabet = ''ABCDEFGHIJKLMNOPQRSTUVWXYZ234567''"

definition b32_char :: "nat \<Rightarrow> char" where "b32_char n = b32_alphabet ! n"

fun blocks :: "nat \<Rightarrow> 'a list \<Rightarrow> 'a list list" where
  "blocks k xs = (if k = 0 \<or> xs = [] then [] else take k xs # blocks k (drop k xs))"

declare blocks.simps [simp del]

text \<open>Five bytes to eight characters; the zero padding of a last group is written as \<open>=\<close>.\<close>

definition b32_encode :: "bytes \<Rightarrow> string" where
  "b32_encode bs =
     (let left = length bs mod 5;
          padded = map unat bs @ replicate ((5 - left) mod 5) 0;
          cs = concat (map (\<lambda>g. map b32_char (digits_of 32 8 (num_of 256 g))) (blocks 5 padded));
          n = (if left = 0 then 0 else if left = 1 then 6 else if left = 2 then 4 else if left = 3 then 3 else 1)
      in take (length cs - n) cs @ replicate n CHR ''='')"

definition b32_value :: "char \<Rightarrow> nat option" where
  "b32_value c = place c b32_alphabet"

definition b32_values :: "string \<Rightarrow> nat list option" where
  "b32_values cs = (if list_all (\<lambda>c. b32_value c \<noteq> None) cs then Some (map (\<lambda>c. the (b32_value c)) cs) else None)"

text \<open>\<open>base64.b32decode\<close> of upper-case text; the bytes of a padded last group are what is left of it.\<close>

definition b32_decode :: "string \<Rightarrow> bytes option" where
  "b32_decode s =
     (let body = rstrip_chars (\<lambda>c. c = CHR ''='') s; pads = length s - length body
      in if length s mod 8 \<noteq> 0 \<or> pads \<notin> {0, 1, 3, 4, 6} then None
         else (case b32_values body of
                 None \<Rightarrow> None
               | Some vs \<Rightarrow>
                   (let gs = blocks 8 vs
                    in Some (map byte
                         (if pads = 0 \<or> gs = [] then concat (map (\<lambda>g. digits_of 256 5 (num_of 32 g)) gs)
                          else concat (map (\<lambda>g. digits_of 256 5 (num_of 32 g)) (butlast gs))
                               @ take ((43 - 5 * pads) div 8) (digits_of 256 5 (num_of 32 (last gs) * 32 ^ pads)))))))"

section \<open>Hexadecimal\<close>

definition hex_alphabet :: string where "hex_alphabet = ''0123456789abcdef''"

definition hex_encode :: "bytes \<Rightarrow> string" where
  "hex_encode bs = concat (map (\<lambda>b. [hex_alphabet ! (unat b div 16), hex_alphabet ! (unat b mod 16)]) bs)"

fun hex_decode :: "string \<Rightarrow> bytes option" where
  "hex_decode [] = Some []"
| "hex_decode [c] = (if is_space c \<and> code c < 128 then Some [] else None)"
| "hex_decode (c # d # cs) =
     (if is_space c \<and> code c < 128 then hex_decode (d # cs)
      else (case (place (lower_char c) hex_alphabet, place (lower_char d) hex_alphabet) of
              (Some x, Some y) \<Rightarrow> map_option (\<lambda>bs. byte (16 * x + y) # bs) (hex_decode cs)
            | _ \<Rightarrow> None))"

section \<open>UTF-8\<close>

definition utf8_char :: "char \<Rightarrow> bytes" where
  "utf8_char c = (if code c < 128 then [byte (code c)] else [byte (192 + code c div 64), byte (128 + code c mod 64)])"

definition utf8_encode :: "string \<Rightarrow> bytes" where
  "utf8_encode s = concat (map utf8_char s)"

text \<open>\<open>None\<close> for what is not UTF-8, and for what decodes to a character from 256 on.\<close>

fun utf8_decode :: "bytes \<Rightarrow> string option" where
  "utf8_decode [] = Some []"
| "utf8_decode [b] = (if unat b < 128 then Some [char_of (unat b)] else None)"
| "utf8_decode (b # e # bs) =
     (if unat b < 128 then map_option (\<lambda>s. char_of (unat b) # s) (utf8_decode (e # bs))
      else if unat b \<in> {194, 195} \<and> 128 \<le> unat e \<and> unat e < 192
      then map_option (\<lambda>s. char_of ((unat b - 192) * 64 + (unat e - 128)) # s) (utf8_decode bs)
      else None)"

lemma utf8_roundtrip: "utf8_decode (utf8_encode s) = Some s"
proof (induction s)
  case (Cons c s)
  show ?case
  proof (cases "code c < 128")
    case True
    then have u: "unat (byte (code c)) = code c" by (simp add: unat_byte)
    have "utf8_decode (byte (code c) # utf8_encode s) = Some (c # s)"
      using Cons True by (cases "utf8_encode s") (auto simp: u)
    then show ?thesis using True by (simp add: utf8_encode_def utf8_char_def)
  next
    case False
    let ?n = "code c"
    have "?n < 4 * 64" using code_lt_256 [of c] by simp
    then have "?n div 64 < 4" by (rule less_mult_imp_div_less)
    moreover have "2 \<le> ?n div 64" using False by (simp add: less_eq_div_iff_mult_less_eq)
    ultimately have q: "?n div 64 = 2 \<or> ?n div 64 = 3" by linarith
    have u: "unat (byte (192 + ?n div 64)) = 192 + ?n div 64" "unat (byte (128 + ?n mod 64)) = 128 + ?n mod 64"
      using q by (auto intro!: unat_byte)
    have "?n div 64 * 64 + ?n mod 64 = ?n" by simp
    then have "utf8_decode (byte (192 + ?n div 64) # byte (128 + ?n mod 64) # utf8_encode s) = Some (c # s)"
      using Cons False q u by auto
    then show ?thesis using False by (simp add: utf8_encode_def utf8_char_def)
  qed
qed (simp add: utf8_encode_def)

lemma b32_length: "length b32_alphabet = 32" "distinct b32_alphabet"
  by code_simp+

lemma b32_value_char: "n < 32 \<Longrightarrow> b32_value (b32_char n) = Some n"
  using place_nth [OF b32_length(2)] b32_length(1) by (simp add: b32_value_def b32_char_def)

lemma blocks_append: "k \<noteq> 0 \<Longrightarrow> length xs = k \<Longrightarrow> blocks k (xs @ ys) = xs # blocks k ys"
  by (subst blocks.simps) auto

text \<open>An authenticator's secret is twenty bytes, so four whole groups.\<close>

definition quintets :: "nat list \<Rightarrow> nat list" where
  "quintets g = digits_of 32 8 (num_of 256 g)"

lemma quintets_back: "length g = 5 \<Longrightarrow> \<forall>n \<in> set g. n < 256 \<Longrightarrow> digits_of 256 5 (num_of 32 (quintets g)) = g"
proof -
  assume g: "length g = 5" "\<forall>n \<in> set g. n < 256"
  then have "num_of 256 g < 32 ^ 8" using num_of_lt [of 256 g] by simp
  then have "num_of 32 (quintets g) = num_of 256 g" by (simp add: quintets_def num_of_digits)
  then show ?thesis using digits_of_num [of 256 g] g by simp
qed

lemma quintets_lt: "n \<in> set (quintets g) \<Longrightarrow> n < 32"
  using digits_of_lt [of 32] by (simp add: quintets_def)

lemma blocks_groups:
  assumes "\<forall>g \<in> set gs. length g = k" "0 < k"
  shows "blocks k (concat gs) = gs"
  using assms(1)
proof (induction gs)
  case (Cons g gs)
  then show ?case using assms(2) blocks_append [of k g "concat gs"] by simp
qed (simp add: blocks.simps)

lemma blocks_exact:
  assumes "length xs = k * m" "0 < k"
  shows "concat (blocks k xs) = xs \<and> (\<forall>g \<in> set (blocks k xs). length g = k \<and> set g \<subseteq> set xs)"
  using assms(1)
proof (induction m arbitrary: xs)
  case 0
  then show ?case by (simp add: blocks.simps)
next
  case (Suc m)
  then have xs: "xs \<noteq> []" "length (take k xs) = k" using assms(2) by auto
  have b: "blocks k xs = take k xs # blocks k (drop k xs)" using xs(1) assms(2) by (subst blocks.simps) simp
  have "length (drop k xs) = k * m" using Suc.prems by simp
  from Suc.IH [OF this] show ?case using b xs(2) set_take_subset [of k xs] set_drop_subset [of k xs]
    by (fastforce simp del: set_take_subset)
qed

lemma b32_values_chars:
  "\<forall>n \<in> set ns. n < 32 \<Longrightarrow> b32_values (map b32_char ns) = Some ns"
  by (auto simp: b32_values_def b32_value_char list_all_iff intro: map_idI)

text \<open>An authenticator's secret is twenty bytes, so four whole groups and no padding.\<close>

lemma b32_roundtrip:
  assumes "length bs = 5 * k"
  shows "length (b32_encode bs) = 8 * k \<and> set (b32_encode bs) \<subseteq> set b32_alphabet \<and> b32_decode (b32_encode bs) = Some bs"
proof -
  let ?ns = "map unat bs" and ?gs = "blocks 5 (map unat bs)"
  have b: "concat ?gs = ?ns" "\<forall>g \<in> set ?gs. length g = 5 \<and> set g \<subseteq> set ?ns"
    using blocks_exact [of ?ns 5 k] assms by auto
  let ?qs = "concat (map quintets ?gs)"
  have enc: "b32_encode bs = map b32_char ?qs"
    using assms by (simp add: b32_encode_def Let_def quintets_def map_concat o_def)
  have q: "\<forall>n \<in> set ?qs. n < 32" using quintets_lt by auto
  have sub: "set (map b32_char ?qs) \<subseteq> set b32_alphabet"
    using q b32_length(1) by (auto simp: b32_char_def intro!: nth_mem)
  have len: "length ?qs = 8 * k"
  proof -
    have "length (concat gs) = 5 * length gs" if "\<forall>g \<in> set gs. length g = 5" for gs :: "nat list list"
      using that by (induction gs) auto
    then have "5 * length ?gs = 5 * k" using b assms by (metis length_map)
    moreover have "length (concat (map quintets gs)) = 8 * length gs" for gs
      by (induction gs) (simp_all add: quintets_def)
    ultimately show ?thesis by simp
  qed
  have pad: "CHR ''='' \<notin> set b32_alphabet" by code_simp
  have "c \<noteq> CHR ''=''" if "c \<in> set (map b32_char ?qs)" for c
  proof
    assume "c = CHR ''=''"
    with subsetD [OF sub that] pad show False by (simp only:)
  qed
  then have strip: "rstrip_chars (\<lambda>c. c = CHR ''='') (map b32_char ?qs) = map b32_char ?qs"
    by (rule rstrip_none)
  have bl: "blocks 8 ?qs = map quintets ?gs" by (rule blocks_groups) (auto simp: quintets_def)
  have groups_back: "map (\<lambda>g. digits_of 256 5 (num_of 32 g)) (map quintets ?gs) = ?gs"
  proof -
    have "digits_of 256 5 (num_of 32 (quintets g)) = g" if g: "g \<in> set ?gs" for g
    proof (rule quintets_back)
      show "length g = 5" using b(2) g by blast
      have "set g \<subseteq> unat ` set bs" using b(2) g by simp
      then show "\<forall>n \<in> set g. n < 256" by auto
    qed
    then show ?thesis unfolding map_map by (intro map_idI) simp
  qed
  have "b32_decode (map b32_char ?qs) = Some (map byte (concat (map (\<lambda>g. digits_of 256 5 (num_of 32 g)) (map quintets ?gs))))"
    unfolding b32_decode_def strip Let_def b32_values_chars [OF q] option.case bl using len by simp
  then have "b32_decode (map b32_char ?qs) = Some bs" unfolding groups_back b(1) by (simp add: o_def)
  then show ?thesis using enc sub len by simp
qed

end
