(* ===== verification/Crypto.thy ===== *)
theory Crypto
  imports Bytes
begin

text \<open>
  \<open>src/c2w/crypto.py\<close>: the sealing of credentials under a data key, itself sealed under the master key.
  AES-256-GCM is the parameter \<open>A\<close>; random bytes are arguments. A \<open>CryptoError\<close> is a \<open>RuntimeError\<close>.

  Lemmas: what is sealed opens again with the same associated data and key, and with no other data.
\<close>

section \<open>The cipher\<close>

record aead =
  ae_encrypt :: "bytes \<Rightarrow> bytes \<Rightarrow> bytes \<Rightarrow> bytes \<Rightarrow> bytes"
  ae_decrypt :: "bytes \<Rightarrow> bytes \<Rightarrow> bytes \<Rightarrow> bytes \<Rightarrow> bytes option"

text \<open>What is documented of it: decryption undoes encryption, and sixteen bytes of tag are added.\<close>

definition aead_ok :: "aead \<Rightarrow> bool" where
  "aead_ok A \<longleftrightarrow>
     (\<forall>k n p a. ae_decrypt A k n (ae_encrypt A k n p a) a = Some p \<and> length (ae_encrypt A k n p a) = length p + 16)"

text \<open>A ciphertext made with one associated datum is refused with the other.\<close>

definition tells_apart :: "aead \<Rightarrow> bytes \<Rightarrow> bytes \<Rightarrow> bool" where
  "tells_apart A a a' \<longleftrightarrow> (\<forall>k n p. ae_decrypt A k n (ae_encrypt A k n p a) a' = None)"

section \<open>Sealing\<close>

definition MAGIC :: bytes where "MAGIC = utf8_encode ''c2w1''"
definition KEY_ID_LEN :: nat where "KEY_ID_LEN = 16"
definition NONCE_LEN :: nat where "NONCE_LEN = 12"
definition KEY_LEN :: nat where "KEY_LEN = 32"

definition aes_key :: "bytes \<Rightarrow> py_exc + bytes" where
  "aes_key k = (if length k \<in> {16, 24, 32} then Inr k
     else Inl (ValueError ''AESGCM key must be 128, 192, or 256 bits.''))"

definition load_master_key :: "string \<Rightarrow> py_exc + bytes" where
  "load_master_key raw =
     (if raw = [] then Inl (RuntimeError ''C2W_MASTER_KEY (or C2W_MASTER_KEY_FILE) is not set.'')
      else (case (if list_all (\<lambda>c. code c < 128) raw then b64_decode raw else None) of
              None \<Rightarrow> Inl (RuntimeError ''C2W_MASTER_KEY is not valid urlsafe base64'')
            | Some key \<Rightarrow>
                if length key \<noteq> KEY_LEN
                then Inl (RuntimeError (''C2W_MASTER_KEY must decode to '' @ show_nat KEY_LEN @ '' bytes, got ''
                       @ show_nat (length key)))
                else Inr key))"

definition seal_with :: "aead \<Rightarrow> bytes \<Rightarrow> bytes \<Rightarrow> bytes \<Rightarrow> bytes \<Rightarrow> string \<Rightarrow> py_exc + string" where
  "seal_with A nonce key plaintext aad key_id =
     res_bind (aes_key key) (\<lambda>k.
       (let body = ae_encrypt A k nonce plaintext aad
        in case (if key_id = [] then Some (replicate KEY_ID_LEN 0) else hex_decode key_id) of
             None \<Rightarrow> Inl (ValueError ''non-hexadecimal number found in fromhex() arg'')
           | Some kid \<Rightarrow> Inr (b64_encode (MAGIC @ kid @ nonce @ body))))"

definition open_with :: "aead \<Rightarrow> bytes \<Rightarrow> string \<Rightarrow> bytes \<Rightarrow> py_exc + bytes" where
  "open_with A key blob aad =
     (case (if list_all (\<lambda>c. code c < 128) blob then b64_decode blob else None) of
        None \<Rightarrow> Inl (RuntimeError ''sealed value is not valid base64'')
      | Some raw \<Rightarrow>
          (let head = length MAGIC + KEY_ID_LEN
           in if length raw < head + NONCE_LEN + 16 \<or> take (length MAGIC) raw \<noteq> MAGIC
              then Inl (RuntimeError ''sealed value has an unrecognised format'')
              else res_bind (aes_key key) (\<lambda>k.
                (case ae_decrypt A k (take NONCE_LEN (drop head raw)) (drop (head + NONCE_LEN) raw) aad of
                   None \<Rightarrow> Inl (RuntimeError ''failed to unseal credential: wrong key, or the associated data does not match'')
                 | Some p \<Rightarrow> Inr p))))"

definition text_of :: "bytes \<Rightarrow> py_exc + string" where
  "text_of bs = (case utf8_decode bs of None \<Rightarrow> Inl (ValueError ''invalid utf-8'') | Some s \<Rightarrow> Inr s)"

section \<open>Data keys\<close>

definition generate_data_key :: "aead \<Rightarrow> string \<Rightarrow> bytes \<Rightarrow> bytes \<Rightarrow> bytes \<Rightarrow> py_exc + string \<times> string" where
  "generate_data_key A master_raw kid data_key nonce =
     (let key_id = hex_encode kid
      in res_bind (load_master_key master_raw) (\<lambda>mk.
         res_bind (seal_with A nonce mk data_key (utf8_encode key_id) []) (\<lambda>wrapped. Inr (key_id, wrapped))))"

definition unwrap_data_key :: "aead \<Rightarrow> string \<Rightarrow> string \<Rightarrow> string \<Rightarrow> py_exc + bytes" where
  "unwrap_data_key A master_raw key_id wrapped_key =
     res_bind (load_master_key master_raw) (\<lambda>mk. open_with A mk wrapped_key (utf8_encode key_id))"

definition seal :: "aead \<Rightarrow> string \<Rightarrow> bytes \<Rightarrow> string \<Rightarrow> string \<Rightarrow> string \<Rightarrow> string \<Rightarrow> py_exc + string" where
  "seal A master_raw nonce plaintext key_id wrapped_key aad =
     (if plaintext = [] then Inr []
      else res_bind (unwrap_data_key A master_raw key_id wrapped_key) (\<lambda>dk.
        seal_with A nonce dk (utf8_encode plaintext) (utf8_encode aad) key_id))"

definition open_sealed :: "aead \<Rightarrow> string \<Rightarrow> string \<Rightarrow> string \<Rightarrow> string \<Rightarrow> string \<Rightarrow> py_exc + string" where
  "open_sealed A master_raw ciphertext key_id wrapped_key aad =
     (if ciphertext = [] then Inr []
      else res_bind (unwrap_data_key A master_raw key_id wrapped_key) (\<lambda>dk.
        res_bind (open_with A dk ciphertext (utf8_encode aad)) text_of))"

definition seal_global :: "aead \<Rightarrow> string \<Rightarrow> bytes \<Rightarrow> string \<Rightarrow> string \<Rightarrow> py_exc + string" where
  "seal_global A master_raw nonce plaintext aad =
     (if plaintext = [] then Inr []
      else res_bind (load_master_key master_raw) (\<lambda>mk.
        seal_with A nonce mk (utf8_encode plaintext) (utf8_encode aad) []))"

definition open_global :: "aead \<Rightarrow> string \<Rightarrow> string \<Rightarrow> string \<Rightarrow> py_exc + string" where
  "open_global A master_raw ciphertext aad =
     (if ciphertext = [] then Inr []
      else res_bind (load_master_key master_raw) (\<lambda>mk. res_bind (open_with A mk ciphertext (utf8_encode aad)) text_of))"

section \<open>What is sealed opens\<close>

lemma b64_chars_ascii: "list_all (\<lambda>c. code c < 128) (b64_encode bs)"
proof -
  have all: "list_all (\<lambda>c. code c < 128) b64_alphabet" and len: "length b64_alphabet = 64" by code_simp+
  have ch: "code (b64_char n) < 128" if "n < 64" for n
    using all len that by (simp add: list_all_length b64_char_def)
  have "\<forall>n \<in> set ns. n < 256 \<Longrightarrow> list_all (\<lambda>c. code c < 128) (b64_encode_nats ns)" for ns
  proof (induction ns rule: b64_encode_nats.induct)
    case (4 a b d rest)
    then show ?case using ch [of "a div 4"] ch [of "a mod 4 * 16 + b div 16"] ch [of "b mod 16 * 4 + d div 64"] ch [of "d mod 64"]
      by (auto simp: less_mult_imp_div_less)
  qed (use ch in auto)
  then show ?thesis by (simp add: b64_encode_def)
qed

lemma hex_roundtrip: "hex_decode (hex_encode bs) = Some bs"
proof (induction bs)
  case (Cons b bs)
  have len: "length hex_alphabet = 16" and d: "distinct hex_alphabet"
    and low: "list_all (\<lambda>c. lower_char c = c \<and> \<not> is_space c) hex_alphabet" by code_simp+
  have c: "place (lower_char (hex_alphabet ! n)) hex_alphabet = Some n" "\<not> is_space (hex_alphabet ! n)" if "n < 16" for n
    using low len that place_nth [OF d] by (simp_all add: list_all_length)
  have "unat b < 16 * 16" using unat_byte_lt [of b] by simp
  then have lt: "unat b div 16 < 16" "unat b mod 16 < 16" by (simp_all add: less_mult_imp_div_less)
  have "byte (16 * (unat b div 16) + unat b mod 16) = b" by simp
  then show ?case using Cons c [OF lt(1)] c [OF lt(2)] by (simp add: hex_encode_def)
qed (simp add: hex_encode_def)

lemma hex_encode_length [simp]: "length (hex_encode bs) = 2 * length bs"
  by (induction bs) (simp_all add: hex_encode_def)

lemma MAGIC_length [simp]: "length MAGIC = 4"
  by (simp add: MAGIC_def utf8_encode_def utf8_char_def)

text \<open>The identifier of a key as the envelope carries it.\<close>

definition kid_of :: "string \<Rightarrow> bytes option" where
  "kid_of key_id = (if key_id = [] then Some (replicate KEY_ID_LEN 0) else hex_decode key_id)"

lemma seal_with_open:
  assumes "aead_ok A" "length nonce = NONCE_LEN" "kid_of key_id = Some kid" "length kid = KEY_ID_LEN"
    and "seal_with A nonce key p a key_id = Inr c"
  shows "open_with A key c a = Inr p \<and> b64_decode c = Some (MAGIC @ kid @ nonce @ ae_encrypt A key nonce p a) \<and>
    (tells_apart A a a' \<longrightarrow>
       open_with A key c a' = Inl (RuntimeError ''failed to unseal credential: wrong key, or the associated data does not match''))"
proof -
  let ?body = "ae_encrypt A key nonce p a"
  have k: "aes_key key = Inr key" and c: "c = b64_encode (MAGIC @ kid @ nonce @ ?body)"
    using assms(3,5) by (auto simp: seal_with_def aes_key_def kid_of_def split: if_splits)
  have raw: "b64_decode c = Some (MAGIC @ kid @ nonce @ ?body)" unfolding c by (rule b64_roundtrip)
  have body: "length ?body = length p + 16" "ae_decrypt A key nonce ?body a = Some p"
    using assms(1) by (simp_all add: aead_ok_def)
  have "open_with A key c x = (case ae_decrypt A key nonce ?body x of
      None \<Rightarrow> Inl (RuntimeError ''failed to unseal credential: wrong key, or the associated data does not match'')
    | Some q \<Rightarrow> Inr q)" for x
    using raw k assms(2,4) body(1) b64_chars_ascii unfolding c
    by (simp add: open_with_def Let_def NONCE_LEN_def KEY_ID_LEN_def)
  then show ?thesis using body(2) raw by (simp add: tells_apart_def)
qed

lemma seal_with_Inr: "length key \<in> {16, 24, 32} \<Longrightarrow> kid_of key_id = Some kid \<Longrightarrow> \<exists>c. seal_with A nonce key p a key_id = Inr c"
  by (auto simp: seal_with_def aes_key_def kid_of_def)

lemma kid_hex: "length kid = KEY_ID_LEN \<Longrightarrow> kid_of (hex_encode kid) = Some kid"
  using hex_roundtrip [of kid] by (auto simp: kid_of_def KEY_ID_LEN_def dest: arg_cong [of _ _ length])

lemma seal_with_nonempty: "seal_with A nonce key p a key_id = Inr c \<Longrightarrow> c \<noteq> []"
proof -
  assume "seal_with A nonce key p a key_id = Inr c"
  then obtain raw where "c = b64_encode (MAGIC @ raw)"
    by (auto simp: seal_with_def aes_key_def Let_def split: if_splits option.splits)
  then have "b64_decode c = Some (MAGIC @ raw)" by (simp add: b64_roundtrip)
  then show ?thesis using MAGIC_length by (cases c) (auto simp: b64_decode_def dest: arg_cong [of _ _ length])
qed

text \<open>C18: a credential comes back. Whatever is sealed under a data key made by this master key opens, under
  that key's identifier and wrapping and the same associated data, to what was sealed; with associated data
  the cipher tells apart from it, a credential moved to another row or field, it does not open at all; and
  the envelope names the key that sealed it.\<close>

theorem envelope_roundtrip:
  assumes "aead_ok A" "load_master_key raw = Inr mk" "length kid = KEY_ID_LEN" "length dk = KEY_LEN"
    and "length n0 = NONCE_LEN" "length n1 = NONCE_LEN"
    and "generate_data_key A raw kid dk n0 = Inr (key_id, wrapped)"
  shows "\<exists>c. seal A raw n1 p key_id wrapped aad = Inr c \<and> open_sealed A raw c key_id wrapped aad = Inr p \<and>
    (p \<noteq> [] \<longrightarrow> map_option (take KEY_ID_LEN \<circ> drop (length MAGIC)) (b64_decode c) = Some kid) \<and>
    (p \<noteq> [] \<and> tells_apart A (utf8_encode aad) (utf8_encode aad') \<longrightarrow>
       (\<exists>msg. open_sealed A raw c key_id wrapped aad' = Inl (RuntimeError msg)))"
proof (cases "p = []")
  case True
  then show ?thesis by (simp add: seal_def open_sealed_def)
next
  case False
  have ki: "key_id = hex_encode kid" and w: "seal_with A n0 mk dk (utf8_encode key_id) [] = Inr wrapped"
    using assms(2,7) by (auto simp: generate_data_key_def Let_def res_bind_Inr_iff)
  have "kid_of [] = Some (replicate KEY_ID_LEN 0)" by (simp add: kid_of_def)
  from seal_with_open [OF assms(1,5) this _ w] have "open_with A mk wrapped (utf8_encode key_id) = Inr dk" by simp
  then have u: "unwrap_data_key A raw key_id wrapped = Inr dk" using assms(2) by (simp add: unwrap_data_key_def)
  have kk: "kid_of key_id = Some kid" unfolding ki by (rule kid_hex [OF assms(3)])
  obtain c where c: "seal_with A n1 dk (utf8_encode p) (utf8_encode aad) key_id = Inr c"
  proof -
    have "length dk \<in> {16, 24, 32}" using assms(4) by (simp add: KEY_LEN_def)
    from seal_with_Inr [OF this kk] show thesis using that by blast
  qed
  note o = seal_with_open [OF assms(1,6) kk assms(3) c]
  have "seal A raw n1 p key_id wrapped aad = Inr c" using u c False by (simp add: seal_def)
  moreover have "open_sealed A raw c key_id wrapped x = res_bind (open_with A dk c (utf8_encode x)) text_of" for x
    using u seal_with_nonempty [OF c] by (simp add: open_sealed_def)
  ultimately show ?thesis using o assms(3) by (auto simp: text_of_def utf8_roundtrip)
qed

text \<open>The values sealed directly under the master key.\<close>

lemma seal_global_roundtrip:
  assumes "aead_ok A" "length nonce = NONCE_LEN" "seal_global A raw nonce p aad = Inr c"
  shows "open_global A raw c aad = Inr p \<and> (c = [] \<longleftrightarrow> p = []) \<and>
    (p \<noteq> [] \<and> tells_apart A (utf8_encode aad) (utf8_encode aad') \<longrightarrow> (\<exists>msg. open_global A raw c aad' = Inl (RuntimeError msg)))"
proof (cases "p = []")
  case True
  then show ?thesis using assms(3) by (simp add: seal_global_def open_global_def)
next
  case False
  then obtain mk where mk: "load_master_key raw = Inr mk" and s: "seal_with A nonce mk (utf8_encode p) (utf8_encode aad) [] = Inr c"
    using assms(3) by (auto simp: seal_global_def res_bind_Inr_iff)
  have "kid_of [] = Some (replicate KEY_ID_LEN 0)" by (simp add: kid_of_def)
  note o = seal_with_open [OF assms(1,2) this _ s]
  show ?thesis using o mk False seal_with_nonempty [OF s] by (auto simp: open_global_def text_of_def utf8_roundtrip)
qed

section \<open>Example\<close>

text \<open>A cipher with the documented laws: the tag is the associated data, cut or filled to sixteen bytes.\<close>

definition tag16 :: "bytes \<Rightarrow> bytes" where
  "tag16 a = take 16 (a @ replicate 16 0)"

definition tagging :: aead where
  "tagging = \<lparr>ae_encrypt = (\<lambda>k n p a. p @ tag16 a),
     ae_decrypt = (\<lambda>k n c a. if drop (length c - 16) c = tag16 a then Some (take (length c - 16) c) else None)\<rparr>"

lemma tag16_length [simp]: "length (tag16 a) = 16"
  by (simp add: tag16_def min_def)

lemma tagging_ok: "aead_ok tagging"
  by (simp add: aead_ok_def tagging_def)

definition demo_master :: string where "demo_master = b64_encode (replicate 32 7)"

lemma demo_master_loads: "load_master_key demo_master = Inr (replicate 32 7)"
proof -
  have dec: "b64_decode demo_master = Some (replicate 32 7)" by (simp only: demo_master_def b64_roundtrip)
  have ne: "demo_master \<noteq> []"
  proof
    assume "demo_master = []"
    then have "b64_decode demo_master = Some []" by (simp add: b64_decode_def)
    with dec have "length (replicate 32 (7 :: 8 word)) = length ([] :: bytes)" by (metis option.inject)
    then show False by (simp only: length_replicate list.size)
  qed
  show ?thesis
    using ne dec b64_chars_ascii [of "replicate 32 7", folded demo_master_def]
    by (simp only: load_master_key_def if_True if_False option.case length_replicate KEY_LEN_def) simp
qed

theorem envelope_roundtrip_witness:
  "\<exists>key_id wrapped c. generate_data_key tagging demo_master (replicate 16 1) (replicate 32 2) (replicate 12 3) = Inr (key_id, wrapped) \<and>
     seal tagging demo_master (replicate 12 4) ''secret'' key_id wrapped ''a'' = Inr c \<and>
     open_sealed tagging demo_master c key_id wrapped ''a'' = Inr ''secret'' \<and>
     (\<exists>msg. open_sealed tagging demo_master c key_id wrapped ''b'' = Inl (RuntimeError msg))"
proof -
  note m = demo_master_loads
  have kid: "kid_of [] = Some (replicate KEY_ID_LEN 0)" by (simp only: kid_of_def if_True refl)
  have "length (replicate 32 (7 :: 8 word)) \<in> {16, 24, 32}" by (simp only: length_replicate insert_iff refl simp_thms)
  from seal_with_Inr [OF this kid] obtain wrapped where
    "seal_with tagging (replicate 12 3) (replicate 32 7) (replicate 32 2) (utf8_encode (hex_encode (replicate 16 1))) [] = Inr wrapped" by blast
  then obtain key_id where g: "generate_data_key tagging demo_master (replicate 16 1) (replicate 32 2) (replicate 12 3) = Inr (key_id, wrapped)"
    using m by (simp only: generate_data_key_def Let_def res_bind.simps)
  have t: "tells_apart tagging (utf8_encode ''a'') (utf8_encode ''b'')"
    by (simp add: tells_apart_def tagging_def tag16_def utf8_encode_def utf8_char_def byte_def)
  show ?thesis
    using envelope_roundtrip [OF tagging_ok m _ _ _ _ g, of "replicate 12 4" "''secret''" "''a''" "''b''",
        unfolded length_replicate KEY_ID_LEN_def KEY_LEN_def NONCE_LEN_def, OF refl refl refl refl] g t
    by blast
qed

end
