(* ===== verification/Settings.thy ===== *)
theory Settings
  imports SettingsSpec Crypto
begin

text \<open>
  \<open>src/c2w/settings.py\<close> and \<open>src/c2w/db/models/settings.py\<close>: the settings service: the stored rows, the
  history and the cache of a process. The monotonic clock, \<open>json.loads\<close>, the texts of floats and
  containers, and the sealing of secrets are parameters; the rows an operation threads are those its
  transaction sees.

  Lemmas: which row a value comes from; what is set is what is read; a secret is never stored, nor
  written into the history, in the clear, and opens in its own scope.
\<close>

section \<open>Rows\<close>

record app_setting =
  ap_key :: string
  ap_brand :: "int option"
  ap_value :: pyval
  ap_is_sealed :: bool
  ap_updated_by :: "string option"
  ap_note :: "string option"

record setting_history =
  sh_key :: string
  sh_brand :: "int option"
  sh_old :: pyval
  sh_new :: pyval
  sh_changed_by :: "string option"
  sh_note :: "string option"

record settings_db =
  sd_rows :: "app_setting list"
  sd_history :: "setting_history list"

text \<open>The cache of a process and the clock reading it was loaded at.\<close>

record settings_service =
  sv_cache :: "string \<times> int option \<rightharpoonup> pyval"
  sv_loaded_at :: rat

definition new_service :: settings_service where
  "new_service = \<lparr>sv_cache = Map.empty, sv_loaded_at = 0\<rparr>"

definition CACHE_TTL_SECONDS :: rat where "CACHE_TTL_SECONDS = 10"

text \<open>What the service uses of the libraries.\<close>

record settings_lib =
  sl_text :: py_text
  sl_loads :: "string \<Rightarrow> json option"
  sl_seal :: "string \<Rightarrow> string \<Rightarrow> py_exc + string"
  sl_open :: "string \<Rightarrow> string \<Rightarrow> py_exc + string"

datatype set_exc = SettingsError string | Other py_exc

section \<open>Types and validity\<close>

definition type_value :: "setting_type \<Rightarrow> string" where
  "type_value t = (case t of T_STRING \<Rightarrow> ''string'' | T_INT \<Rightarrow> ''int'' | T_FLOAT \<Rightarrow> ''float'' | T_BOOL \<Rightarrow> ''bool''
     | T_SECRET \<Rightarrow> ''secret'' | T_JSON \<Rightarrow> ''json'')"

definition trunc_rat :: "rat \<Rightarrow> int" where
  "trunc_rat r = (if 0 \<le> r then \<lfloor>r\<rfloor> else - \<lfloor>- r\<rfloor>)"

text \<open>\<open>int(raw)\<close> and \<open>float(raw)\<close>; \<open>OverflowError\<close> is no \<open>ValueError\<close> and passes the handler.\<close>

datatype 'a conv = Good 'a | Refused | Overflow

definition to_int :: "pyval \<Rightarrow> int conv" where
  "to_int v = (case v of
     VBool b \<Rightarrow> Good (if b then 1 else 0) | VInt i \<Rightarrow> Good i
   | VFloat (Fin r) \<Rightarrow> Good (trunc_rat r) | VFloat NaN \<Rightarrow> Refused | VFloat _ \<Rightarrow> Overflow
   | VStr s \<Rightarrow> (case py_int_text s of Some i \<Rightarrow> Good i | None \<Rightarrow> Refused) | _ \<Rightarrow> Refused)"

definition to_float :: "pyval \<Rightarrow> pyfloat conv" where
  "to_float v = (case v of
     VBool b \<Rightarrow> Good (Fin (if b then 1 else 0)) | VInt i \<Rightarrow> Good (Fin (of_int i)) | VFloat f \<Rightarrow> Good f
   | VStr s \<Rightarrow> (case py_float_text s of Some f \<Rightarrow> Good f | None \<Rightarrow> Refused) | _ \<Rightarrow> Refused)"

definition TRUE_WORDS :: "string list" where
  "TRUE_WORDS = [''1'', ''true'', ''yes'', ''on'']"

definition coerce_raw :: "settings_lib \<Rightarrow> setting_type \<Rightarrow> pyval \<Rightarrow> pyval conv" where
  "coerce_raw L t raw = (case t of
     T_INT \<Rightarrow> (case to_int raw of Good i \<Rightarrow> Good (VInt i) | Refused \<Rightarrow> Refused | Overflow \<Rightarrow> Overflow)
   | T_FLOAT \<Rightarrow> (case to_float raw of Good f \<Rightarrow> Good (VFloat f) | Refused \<Rightarrow> Refused | Overflow \<Rightarrow> Overflow)
   | T_BOOL \<Rightarrow> (case raw of VBool b \<Rightarrow> Good (VBool b)
                | _ \<Rightarrow> Good (VBool (py_lower (py_strip (str_of (sl_text L) raw)) \<in> set TRUE_WORDS)))
   | T_JSON \<Rightarrow> (case raw of VStr s \<Rightarrow> (case sl_loads L s of Some j \<Rightarrow> Good (VJson j) | None \<Rightarrow> Refused) | _ \<Rightarrow> Good raw)
   | _ \<Rightarrow> Good (VStr (str_of (sl_text L) raw)))"

definition repr_of :: "py_text \<Rightarrow> pyval \<Rightarrow> string" where
  "repr_of P v = (case v of VStr s \<Rightarrow> py_repr s | _ \<Rightarrow> str_of P v)"

definition coerce :: "settings_lib \<Rightarrow> setting_spec \<Rightarrow> pyval \<Rightarrow> set_exc + pyval" where
  "coerce L sp raw =
     (if raw = VNone then Inr (sp_default sp)
      else (case coerce_raw L (sp_type sp) raw of
              Good v \<Rightarrow> Inr v
            | Refused \<Rightarrow> Inl (SettingsError (sp_key sp @ '': expected '' @ type_value (sp_type sp) @ '', got ''
                            @ repr_of (sl_text L) raw))
            | Overflow \<Rightarrow> Inl (Other (RuntimeError ''cannot convert float infinity to integer''))))"

definition validate_value :: "settings_lib \<Rightarrow> setting_spec \<Rightarrow> pyval \<Rightarrow> set_exc option" where
  "validate_value L sp v =
     (case sp_validator sp of
        None \<Rightarrow> None
      | Some f \<Rightarrow>
          (case run_validator (sl_text L) f v of
             None \<Rightarrow> None
           | Some (ValueError msg) \<Rightarrow> Some (SettingsError (sp_key sp @ '': '' @ msg))
           | Some e \<Rightarrow> Some (Other e)))"

section \<open>Reading\<close>

definition cache_of :: "app_setting list \<Rightarrow> string \<times> int option \<rightharpoonup> pyval" where
  "cache_of rows = map_of (rev (map (\<lambda>r. ((ap_key r, ap_brand r), ap_value r))
     (filter (\<lambda>r. ap_key r \<in> sp_key ` set SETTINGS) rows)))"

definition ensure_loaded :: "rat \<Rightarrow> settings_db \<Rightarrow> settings_service \<Rightarrow> settings_service" where
  "ensure_loaded now d sv =
     (if now - sv_loaded_at sv < CACHE_TTL_SECONDS then sv
      else \<lparr>sv_cache = cache_of (sd_rows d), sv_loaded_at = now\<rparr>)"

definition lookup_value :: "(string \<times> int option \<rightharpoonup> pyval) \<Rightarrow> setting_spec \<Rightarrow> int option \<Rightarrow> pyval \<times> int option \<times> bool" where
  "lookup_value cache sp brand =
     (case (if brand \<noteq> None \<and> sp_brand_overridable sp then cache (sp_key sp, brand) else None) of
        Some v \<Rightarrow> (v, brand, True)
      | None \<Rightarrow> (case cache (sp_key sp, None) of
                  Some v \<Rightarrow> (v, None, True)
                | None \<Rightarrow> (sp_default sp, None, False)))"

definition resolve :: "rat \<Rightarrow> settings_db \<Rightarrow> string \<Rightarrow> int option \<Rightarrow> settings_service \<Rightarrow>
    settings_service \<times> (py_exc + (pyval \<times> int option \<times> bool))" where
  "resolve now d key brand sv =
     (case get_spec key of
        Inl e \<Rightarrow> (sv, Inl e)
      | Inr sp \<Rightarrow> (let sv1 = ensure_loaded now d sv in (sv1, Inr (lookup_value (sv_cache sv1) sp brand))))"

definition get_value :: "rat \<Rightarrow> settings_db \<Rightarrow> string \<Rightarrow> int option \<Rightarrow> settings_service \<Rightarrow>
    settings_service \<times> (py_exc + pyval)" where
  "get_value now d key brand sv =
     (case resolve now d key brand sv of (sv1, Inl e) \<Rightarrow> (sv1, Inl e) | (sv1, Inr (v, _, _)) \<Rightarrow> (sv1, Inr v))"

definition setting_aad :: "string \<Rightarrow> int option \<Rightarrow> string" where
  "setting_aad key brand = ''setting:'' @ key @ '':'' @ (case brand of Some b \<Rightarrow> show_int b | None \<Rightarrow> ''global'')"

text \<open>What a \<open>CryptoError\<close> is: the sealing's \<open>RuntimeError\<close>; any other exception goes on.\<close>

definition get_secret :: "settings_lib \<Rightarrow> rat \<Rightarrow> settings_db \<Rightarrow> string \<Rightarrow> int option \<Rightarrow> settings_service \<Rightarrow>
    settings_service \<times> (py_exc + string)" where
  "get_secret L now d key brand sv =
     (case get_spec key of
        Inl e \<Rightarrow> (sv, Inl e)
      | Inr sp \<Rightarrow>
          if \<not> sp_sensitive sp
          then (case get_value now d key brand sv of (sv1, Inl e) \<Rightarrow> (sv1, Inl e) | (sv1, Inr v) \<Rightarrow> (sv1, Inr (str_of (sl_text L) v)))
          else (case resolve now d key brand sv of
                  (sv1, Inl e) \<Rightarrow> (sv1, Inl e)
                | (sv1, Inr (sealed, scope, from_row)) \<Rightarrow>
                    (sv1, if \<not> truthy sealed \<or> \<not> from_row then Inr []
                          else (case sl_open L (str_of (sl_text L) sealed) (setting_aad key scope) of
                                  Inl (RuntimeError _) \<Rightarrow> Inr []
                                | other \<Rightarrow> other))))"

definition all_effective :: "rat \<Rightarrow> settings_db \<Rightarrow> int option \<Rightarrow> settings_service \<Rightarrow>
    settings_service \<times> (string \<times> pyval) list" where
  "all_effective now d brand sv =
     (let sv1 = ensure_loaded now d sv
      in (sv1, map (\<lambda>sp. (sp_key sp,
            let v = fst (lookup_value (sv_cache sv1) sp brand) in if sp_sensitive sp then VBool (truthy v) else v)) SETTINGS))"

definition overrides_for_brand :: "settings_db \<Rightarrow> int \<Rightarrow> py_exc + (string \<times> pyval) list" where
  "overrides_for_brand d brand =
     map_res (\<lambda>r. res_bind (get_spec (ap_key r)) (\<lambda>sp. Inr (ap_key r, if sp_sensitive sp then VStr ''***'' else ap_value r)))
       (filter (\<lambda>r. ap_brand r = Some brand) (sd_rows d))"

definition get_int :: "rat \<Rightarrow> settings_db \<Rightarrow> string \<Rightarrow> int option \<Rightarrow> settings_service \<Rightarrow> settings_service \<times> (py_exc + int conv)" where
  "get_int now d key brand sv = (case get_value now d key brand sv of (sv1, r) \<Rightarrow> (sv1, res_bind r (\<lambda>v. Inr (to_int v))))"

definition get_float :: "rat \<Rightarrow> settings_db \<Rightarrow> string \<Rightarrow> int option \<Rightarrow> settings_service \<Rightarrow> settings_service \<times> (py_exc + pyfloat conv)" where
  "get_float now d key brand sv = (case get_value now d key brand sv of (sv1, r) \<Rightarrow> (sv1, res_bind r (\<lambda>v. Inr (to_float v))))"

definition get_bool :: "rat \<Rightarrow> settings_db \<Rightarrow> string \<Rightarrow> int option \<Rightarrow> settings_service \<Rightarrow> settings_service \<times> (py_exc + bool)" where
  "get_bool now d key brand sv = (case get_value now d key brand sv of (sv1, r) \<Rightarrow> (sv1, res_bind r (\<lambda>v. Inr (truthy v))))"

definition get_str :: "settings_lib \<Rightarrow> rat \<Rightarrow> settings_db \<Rightarrow> string \<Rightarrow> int option \<Rightarrow> settings_service \<Rightarrow> settings_service \<times> (py_exc + string)" where
  "get_str L now d key brand sv = (case get_value now d key brand sv of (sv1, r) \<Rightarrow> (sv1, res_bind r (\<lambda>v. Inr (str_of (sl_text L) v))))"

section \<open>Writing\<close>

definition invalidate :: "settings_service \<Rightarrow> settings_service" where
  "invalidate sv = sv\<lparr>sv_loaded_at := 0\<rparr>"

text \<open>What a \<open>jsonb\<close> column takes: JSON has no infinity.\<close>

definition storable :: "pyval \<Rightarrow> bool" where
  "storable v = (case v of VFloat (Fin _) \<Rightarrow> True | VFloat _ \<Rightarrow> False | _ \<Rightarrow> True)"

definition in_scope :: "string \<Rightarrow> int option \<Rightarrow> app_setting \<Rightarrow> bool" where
  "in_scope key brand r \<longleftrightarrow> ap_key r = key \<and> ap_brand r = brand"

definition upsert_setting :: "app_setting \<Rightarrow> app_setting list \<Rightarrow> app_setting list" where
  "upsert_setting row rows =
     (if list_ex (in_scope (ap_key row) (ap_brand row)) rows
      then update_where (in_scope (ap_key row) (ap_brand row)) (\<lambda>_. row) rows
      else rows @ [row])"

definition masked :: "setting_spec \<Rightarrow> pyval \<Rightarrow> pyval" where
  "masked sp v = (if sp_sensitive sp then VStr ''***'' else v)"

definition stored_form :: "settings_lib \<Rightarrow> setting_spec \<Rightarrow> int option \<Rightarrow> pyval \<Rightarrow> py_exc + pyval" where
  "stored_form L sp brand v =
     (if \<not> sp_sensitive sp then Inr v
      else if truthy v then res_bind (sl_seal L (str_of (sl_text L) v) (setting_aad (sp_key sp) brand)) (\<lambda>c. Inr (VStr c))
      else Inr (VStr []))"

definition set_value :: "settings_lib \<Rightarrow> rat \<Rightarrow> settings_db \<Rightarrow> string \<Rightarrow> pyval \<Rightarrow> int option \<Rightarrow> string option \<Rightarrow> string option \<Rightarrow>
    settings_service \<Rightarrow> settings_service \<times> (set_exc + settings_db \<times> pyval)" where
  "set_value L now d key raw brand changed_by note sv =
     (case get_spec key of
        Inl e \<Rightarrow> (sv, Inl (Other e))
      | Inr sp \<Rightarrow>
          if brand \<noteq> None \<and> \<not> sp_brand_overridable sp
          then (sv, Inl (SettingsError (key @ '' is global-only and cannot be overridden per brand'')))
          else (case coerce L sp raw of
                  Inl e \<Rightarrow> (sv, Inl e)
                | Inr v \<Rightarrow>
                    (case validate_value L sp v of
                       Some e \<Rightarrow> (sv, Inl e)
                     | None \<Rightarrow>
                         (case get_value now d key brand sv of
                            (sv1, Inl e) \<Rightarrow> (sv1, Inl (Other e))
                          | (sv1, Inr previous) \<Rightarrow>
                              (case stored_form L sp brand v of
                                 Inl e \<Rightarrow> (sv1, Inl (Other e))
                               | Inr st \<Rightarrow>
                                   if \<not> storable st
                                   then (sv1, Inl (Other (RuntimeError ''invalid input syntax for type json'')))
                                   else (invalidate sv1,
                                     Inr (\<lparr>sd_rows = upsert_setting \<lparr>ap_key = key, ap_brand = brand, ap_value = st,
                                              ap_is_sealed = (sp_sensitive sp \<and> truthy st), ap_updated_by = changed_by, ap_note = note\<rparr>
                                              (sd_rows d),
                                           sd_history = sd_history d @ [\<lparr>sh_key = key, sh_brand = brand,
                                              sh_old = masked sp previous, sh_new = masked sp v,
                                              sh_changed_by = changed_by, sh_note = note\<rparr>]\<rparr>, v)))))))"

definition unset_value :: "rat \<Rightarrow> settings_db \<Rightarrow> string \<Rightarrow> int option \<Rightarrow> string option \<Rightarrow> settings_service \<Rightarrow>
    settings_service \<times> (py_exc + settings_db)" where
  "unset_value now d key brand changed_by sv =
     (case get_spec key of
        Inl e \<Rightarrow> (sv, Inl e)
      | Inr sp \<Rightarrow>
          (case get_value now d key brand sv of
             (sv1, Inl e) \<Rightarrow> (sv1, Inl e)
           | (sv1, Inr previous) \<Rightarrow>
               (invalidate sv1,
                Inr \<lparr>sd_rows = filter (\<lambda>r. \<not> in_scope key brand r) (sd_rows d),
                     sd_history = sd_history d @ [\<lparr>sh_key = key, sh_brand = brand, sh_old = masked sp previous, sh_new = VNone,
                        sh_changed_by = changed_by, sh_note = Some ''unset''\<rparr>]\<rparr>)))"

section \<open>The catalogue's choices\<close>

definition acceptable :: "settings_lib \<Rightarrow> setting_spec \<Rightarrow> pyval \<Rightarrow> bool" where
  "acceptable L sp raw =
     (case coerce L sp raw of Inl _ \<Rightarrow> False | Inr v \<Rightarrow> validate_value L sp v = None \<and> storable v)"

definition spec_sound :: "settings_lib \<Rightarrow> setting_spec \<Rightarrow> bool" where
  "spec_sound L sp \<longleftrightarrow>
     validate_value L sp (sp_default sp) = None \<and> storable (sp_default sp) \<and>
     list_all (\<lambda>c. acceptable L sp (VStr c)) (sp_choices sp)"

lemma sound_1: "list_all (spec_sound L) SPECS_1"
  by code_simp

lemma sound_2: "list_all (spec_sound L) SPECS_2"
  by code_simp

lemma sound_3: "list_all (spec_sound L) SPECS_3"
  by code_simp

lemma sound_4: "list_all (spec_sound L) SPECS_4"
  by code_simp

lemma sound_5: "list_all (spec_sound L) SPECS_5"
  by code_simp

lemma sound_6: "list_all (spec_sound L) SPECS_6"
  by code_simp

lemma sound_7: "list_all (spec_sound L) SPECS_7"
  by code_simp

lemma sound_8: "list_all (spec_sound L) SPECS_8"
  by code_simp

lemma sound_9: "list_all (spec_sound L) SPECS_9"
  by code_simp

lemma sound_10: "list_all (spec_sound L) SPECS_10"
  by code_simp

lemma sound_11: "list_all (spec_sound L) SPECS_11"
  by code_simp

lemma specs_sound: "list_all (spec_sound L) SETTINGS"
  by (simp only: SETTINGS_def list_all_append simp_thms sound_1 sound_2 sound_3 sound_4 sound_5 sound_6 sound_7 sound_8
      sound_9 sound_10 sound_11)

text \<open>The catalogue keeps its own rules. No key is declared twice; every default, and every choice the page
  offers, converts to the declared type, passes the setting's validator and can be stored; exactly the
  secrets are sealed, and each setting has a place on the page.\<close>

theorem catalogue_sound:
  "distinct (map sp_key SETTINGS) \<and> list_all (spec_sound L) SETTINGS \<and>
   list_all (\<lambda>s. sp_sensitive s = (sp_type s = T_SECRET)) SETTINGS \<and>
   list_all (\<lambda>s. sp_category s \<in> set CATEGORY_ORDER) SETTINGS"
  by (intro conjI keys_distinct specs_sound sensitive_iff_secret categories_known)

section \<open>Scopes\<close>

lemma get_spec_key: "get_spec key = Inr sp \<Longrightarrow> sp_key sp = key \<and> sp \<in> set SETTINGS"
  by (auto simp: get_spec_def find_Some_iff split: option.splits)

definition unique_rows :: "app_setting list \<Rightarrow> bool" where
  "unique_rows rows \<longleftrightarrow> distinct (map (\<lambda>r. (ap_key r, ap_brand r)) rows)"

lemma cache_of_row:
  assumes "unique_rows rows" "key \<in> sp_key ` set SETTINGS"
  shows "cache_of rows (key, brand) = map_option ap_value (List.find (in_scope key brand) rows)"
proof -
  let ?f = "filter (\<lambda>r. ap_key r \<in> sp_key ` set SETTINGS)"
  have "distinct (map fst (map (\<lambda>r. ((ap_key r, ap_brand r), ap_value r)) (?f rows)))"
    using assms(1) by (simp add: unique_rows_def o_def distinct_map_filter)
  then have e: "cache_of rows = map_of (map (\<lambda>r. ((ap_key r, ap_brand r), ap_value r)) (?f rows))"
    unfolding cache_of_def by (subst map_of_inject_set) (simp_all add: rev_map [symmetric])
  show ?thesis unfolding e using assms(2) by (induction rows) (auto simp: in_scope_def)
qed

lemma find_update_other:
  "ap_key row \<noteq> k \<or> ap_brand row \<noteq> b \<Longrightarrow>
   List.find (in_scope k b) (update_where (in_scope (ap_key row) (ap_brand row)) (\<lambda>_. row) rows) = List.find (in_scope k b) rows"
  by (induction rows) (auto simp: update_where_def in_scope_def)

lemma find_update_same:
  "list_ex (in_scope (ap_key row) (ap_brand row)) rows \<Longrightarrow>
   List.find (in_scope (ap_key row) (ap_brand row)) (update_where (in_scope (ap_key row) (ap_brand row)) (\<lambda>_. row) rows) = Some row"
  by (induction rows) (auto simp: update_where_def in_scope_def)

lemma find_upsert:
  assumes "unique_rows rows"
  shows "List.find (in_scope k b) (upsert_setting row rows) =
     (if ap_key row = k \<and> ap_brand row = b then Some row else List.find (in_scope k b) rows) \<and>
     unique_rows (upsert_setting row rows)"
proof (cases "list_ex (in_scope (ap_key row) (ap_brand row)) rows")
  case True
  have "List.find (in_scope k b) (update_where (in_scope (ap_key row) (ap_brand row)) (\<lambda>_. row) rows) =
     (if ap_key row = k \<and> ap_brand row = b then Some row else List.find (in_scope k b) rows)"
    using find_update_other [of row k b rows] find_update_same [OF True] by auto
  moreover have "map (\<lambda>r. (ap_key r, ap_brand r)) (update_where (in_scope (ap_key row) (ap_brand row)) (\<lambda>_. row) rows)
      = map (\<lambda>r. (ap_key r, ap_brand r)) rows"
    by (auto simp: update_where_def in_scope_def)
  ultimately show ?thesis using True assms by (simp add: upsert_setting_def unique_rows_def)
next
  case False
  have "List.find (in_scope k b) (rows @ [row]) =
     (if ap_key row = k \<and> ap_brand row = b then Some row else List.find (in_scope k b) rows)"
    using False by (induction rows) (auto simp: in_scope_def)
  moreover have "unique_rows (rows @ [row])"
    using False assms by (auto simp: unique_rows_def in_scope_def list_ex_iff)
  ultimately show ?thesis using False by (simp add: upsert_setting_def)
qed

text \<open>The value a row's scope holds, as a reader with a fresh cache sees it.\<close>

definition row_value :: "settings_db \<Rightarrow> string \<Rightarrow> int option \<Rightarrow> pyval option" where
  "row_value d key brand = map_option ap_value (List.find (in_scope key brand) (sd_rows d))"

definition effective :: "settings_db \<Rightarrow> setting_spec \<Rightarrow> int option \<Rightarrow> pyval \<times> int option \<times> bool" where
  "effective d sp brand =
     (case (if brand \<noteq> None \<and> sp_brand_overridable sp then row_value d (sp_key sp) brand else None) of
        Some v \<Rightarrow> (v, brand, True)
      | None \<Rightarrow> (case row_value d (sp_key sp) None of Some v \<Rightarrow> (v, None, True) | None \<Rightarrow> (sp_default sp, None, False)))"

definition stale :: "rat \<Rightarrow> settings_service \<Rightarrow> bool" where
  "stale now sv \<longleftrightarrow> CACHE_TTL_SECONDS \<le> now - sv_loaded_at sv"

lemma resolve_effective:
  assumes "unique_rows (sd_rows d)" "get_spec key = Inr sp" "stale now sv"
  shows "resolve now d key brand sv =
    (\<lparr>sv_cache = cache_of (sd_rows d), sv_loaded_at = now\<rparr>, Inr (effective d sp brand))"
proof -
  have k: "sp_key sp = key" "key \<in> sp_key ` set SETTINGS" using get_spec_key [OF assms(2)] by auto
  have c: "\<And>b. cache_of (sd_rows d) (sp_key sp, b) = row_value d (sp_key sp) b"
    using cache_of_row [OF assms(1)] k by (simp add: row_value_def)
  have "lookup_value (cache_of (sd_rows d)) sp brand = effective d sp brand"
    unfolding lookup_value_def effective_def c by (rule refl)
  then show ?thesis using assms(2,3) by (simp add: resolve_def ensure_loaded_def stale_def Let_def)
qed

section \<open>What is set is read\<close>

lemma set_value_parts:
  assumes "set_value L now d key raw brand by_whom note sv = (sv', Inr (d', v))" "get_spec key = Inr sp"
  obtains st previous where "stored_form L sp brand v = Inr st" "coerce L sp raw = Inr v" "validate_value L sp v = None"
    "brand \<noteq> None \<longrightarrow> sp_brand_overridable sp" "sv_loaded_at sv' = 0"
    "sd_rows d' = upsert_setting \<lparr>ap_key = key, ap_brand = brand, ap_value = st,
       ap_is_sealed = (sp_sensitive sp \<and> truthy st), ap_updated_by = by_whom, ap_note = note\<rparr> (sd_rows d)"
    "sd_history d' = sd_history d @ [\<lparr>sh_key = key, sh_brand = brand, sh_old = masked sp previous, sh_new = masked sp v,
       sh_changed_by = by_whom, sh_note = note\<rparr>]"
proof -
  have g: "\<not> (brand \<noteq> None \<and> \<not> sp_brand_overridable sp)" using assms by (auto simp: set_value_def split: if_splits)
  obtain v0 where c: "coerce L sp raw = Inr v0" using assms g by (cases "coerce L sp raw") (auto simp: set_value_def)
  have n: "validate_value L sp v0 = None"
    using assms g c by (cases "validate_value L sp v0") (auto simp: set_value_def)
  obtain sv1 res where gv: "get_value now d key brand sv = (sv1, res)" by fastforce
  obtain previous where p: "res = Inr previous" using assms g c n gv by (cases res) (auto simp: set_value_def)
  obtain st where s: "stored_form L sp brand v0 = Inr st"
    using assms g c n gv p by (cases "stored_form L sp brand v0") (auto simp: set_value_def)
  have r: "storable st" using assms g c n gv p s by (auto simp: set_value_def split: if_splits)
  show thesis
    by (rule that [of st previous]) (use assms g c n gv p s r in \<open>auto simp: set_value_def invalidate_def\<close>)
qed

lemma set_value_rows:
  assumes "unique_rows (sd_rows d)" "sd_rows d' = upsert_setting row (sd_rows d)" "ap_key row = key" "ap_brand row = brand"
  shows "unique_rows (sd_rows d') \<and> row_value d' k b = (if k = key \<and> b = brand then Some (ap_value row) else row_value d k b)"
  using find_upsert [OF assms(1), of k b row] assms(2-) by (auto simp: row_value_def)

lemma get_value_effective:
  assumes "unique_rows (sd_rows d)" "get_spec key = Inr sp" "stale now sv"
  shows "snd (get_value now d key brand sv) = Inr (fst (effective d sp brand))"
  using resolve_effective [OF assms, of brand] by (simp add: get_value_def split: prod.splits)

text \<open>What is set is what is read. A setting that is accepted has the declared type and has passed its
  validator; once caches have expired, a reader in the scope it was set in gets exactly it; and no other
  setting, and no other organisation when it was set for one, reads anything else than before.\<close>

theorem set_then_get:
  assumes "unique_rows (sd_rows d)" "get_spec key = Inr sp" "\<not> sp_sensitive sp"
    and "set_value L now d key raw brand by_whom note sv = (sv', Inr (d', v))" "CACHE_TTL_SECONDS \<le> later"
  shows "coerce L sp raw = Inr v \<and> validate_value L sp v = None \<and>
    snd (get_value later d' key brand sv') = Inr v \<and> unique_rows (sd_rows d') \<and>
    (\<forall>k b. k \<noteq> key \<or> (brand \<noteq> None \<and> b \<noteq> brand) \<longrightarrow>
       snd (get_value later d' k b sv') = snd (get_value later d k b sv'))"
proof -
  obtain st previous where p: "stored_form L sp brand v = Inr st" "coerce L sp raw = Inr v" "validate_value L sp v = None"
    "brand \<noteq> None \<longrightarrow> sp_brand_overridable sp" "sv_loaded_at sv' = 0"
    "sd_rows d' = upsert_setting \<lparr>ap_key = key, ap_brand = brand, ap_value = st,
       ap_is_sealed = (sp_sensitive sp \<and> truthy st), ap_updated_by = by_whom, ap_note = note\<rparr> (sd_rows d)"
    by (rule set_value_parts [OF assms(4,2)]) blast
  have st: "st = v" using p(1) assms(3) by (simp add: stored_form_def)
  have rows: "unique_rows (sd_rows d')" "row_value d' k b = (if k = key \<and> b = brand then Some v else row_value d k b)" for k b
    using set_value_rows [OF assms(1) p(6)] st by simp_all
  have stale: "stale later sv'" using assms(5) p(5) by (simp add: stale_def)
  have k: "sp_key sp = key" using get_spec_key [OF assms(2)] by simp
  have "fst (effective d' sp brand) = v"
    using p(4) by (cases brand) (auto simp: effective_def rows(2) k)
  then have "snd (get_value later d' key brand sv') = Inr v"
    using get_value_effective [OF rows(1) assms(2) stale] by simp
  moreover have "snd (get_value later d' k' b sv') = snd (get_value later d k' b sv')"
    if other: "k' \<noteq> key \<or> (brand \<noteq> None \<and> b \<noteq> brand)" for k' b
  proof (cases "get_spec k'")
    case (Inl e)
    then show ?thesis by (simp add: get_value_def resolve_def)
  next
    case (Inr sp')
    have "sp_key sp' = k'" using get_spec_key [OF Inr] by simp
    then have "row_value d' (sp_key sp') b = row_value d (sp_key sp') b" "row_value d' (sp_key sp') None = row_value d (sp_key sp') None"
      using other by (auto simp: rows(2))
    then have "effective d' sp' b = effective d sp' b" unfolding effective_def by (simp only:)
    then show ?thesis using get_value_effective [OF rows(1) Inr stale] get_value_effective [OF assms(1) Inr stale] by simp
  qed
  ultimately show ?thesis using p(2,3) rows(1) by blast
qed


lemma set_succeeds:
  assumes "get_spec key = Inr sp" "brand \<noteq> None \<longrightarrow> sp_brand_overridable sp" "coerce L sp raw = Inr v"
    and "validate_value L sp v = None" "stored_form L sp brand v = Inr st" "storable st"
  shows "\<exists>sv' d'. set_value L now d key raw brand by_whom note sv = (sv', Inr (d', v))"
proof -
  obtain sv1 previous where "get_value now d key brand sv = (sv1, Inr previous)"
    using assms(1) by (cases "lookup_value (sv_cache (ensure_loaded now d sv)) sp brand") (auto simp: get_value_def resolve_def Let_def)
  then show ?thesis using assms by (auto simp: set_value_def)
qed

section \<open>Examples\<close>

definition demo_lib :: settings_lib where
  "demo_lib = \<lparr>sl_text = \<lparr>show_float_of = (\<lambda>_. []), show_json_of = (\<lambda>_. [])\<rparr>, sl_loads = (\<lambda>_. None),
     sl_seal = seal_global tagging demo_master (replicate 12 4), sl_open = open_global tagging demo_master\<rparr>"

definition no_settings :: settings_db where "no_settings = \<lparr>sd_rows = [], sd_history = []\<rparr>"

lemma demo_specs:
  "(case get_spec ''transfer.max_attempts'' of
      Inr sp \<Rightarrow> \<not> sp_sensitive sp \<and> coerce demo_lib sp (VStr ''7'') = Inr (VInt 7) \<and> validate_value demo_lib sp (VInt 7) = None
    | Inl _ \<Rightarrow> False)"
  "(case get_spec ''alerts.slack_webhook_url'' of
      Inr sp \<Rightarrow> sp_sensitive sp \<and> sp_type sp = T_SECRET \<and> sp_validator sp = None \<and> sp_key sp = ''alerts.slack_webhook_url''
    | Inl _ \<Rightarrow> False)"
  by code_simp+

theorem set_then_get_witness:
  "\<exists>sv' d'. set_value demo_lib 20 no_settings ''transfer.max_attempts'' (VStr ''7'') None None None new_service = (sv', Inr (d', VInt 7)) \<and>
     snd (get_value 40 d' ''transfer.max_attempts'' None sv') = Inr (VInt 7)"
proof -
  obtain sp where sp: "get_spec ''transfer.max_attempts'' = Inr sp" "\<not> sp_sensitive sp"
      "coerce demo_lib sp (VStr ''7'') = Inr (VInt 7)" "validate_value demo_lib sp (VInt 7) = None"
    using demo_specs(1) by (cases "get_spec ''transfer.max_attempts''") auto
  obtain sv' d' where s: "set_value demo_lib 20 no_settings ''transfer.max_attempts'' (VStr ''7'') None None None new_service = (sv', Inr (d', VInt 7))"
    using set_succeeds [OF sp(1) _ sp(3,4)] sp(2) by (force simp: stored_form_def storable_def)
  have "unique_rows (sd_rows no_settings)" "CACHE_TTL_SECONDS \<le> 40"
    by (simp_all add: unique_rows_def no_settings_def CACHE_TTL_SECONDS_def)
  then show ?thesis using set_then_get [OF _ sp(1,2) s] s by blast
qed


section \<open>What slips through\<close>

text \<open>Not a number compares with nothing, so it passes the check of a lower bound; it is the column that
  refuses it.\<close>

lemma nan_passes_validation:
  "non_negative (VFloat NaN) = None \<and> to_float (VStr ''nan'') = Good NaN \<and> \<not> storable (VFloat NaN)"
  by code_simp

text \<open>A row whose key has left the catalogue is passed over by the cache, but the page of an
  organisation's overrides raises on it.\<close>

lemma map_res_member: "map_res f xs = Inr ys \<Longrightarrow> x \<in> set xs \<Longrightarrow> \<exists>y. f x = Inr y"
  by (induction xs arbitrary: ys) (auto simp: res_bind_Inr_iff)

lemma overrides_raise:
  assumes "r \<in> set (sd_rows d)" "ap_brand r = Some b" "get_spec (ap_key r) = Inl e"
  shows "\<exists>e. overrides_for_brand d b = Inl e"
proof (cases "overrides_for_brand d b")
  case (Inr ys)
  have "r \<in> set (filter (\<lambda>r. ap_brand r = Some b) (sd_rows d))" using assms(1,2) by simp
  from map_res_member [OF Inr [unfolded overrides_for_brand_def] this] show ?thesis using assms(3) by simp
qed simp

end
