(* ===== verification/PyText.thy ===== *)
theory PyText
  imports Bytes
begin

text \<open>
  What the code uses of Python's text: case folding, replacing, searching, percent-encoding
  (\<open>urllib.parse.quote\<close>) and splitting, on Latin-1 text.
\<close>

section \<open>Case\<close>

text \<open>\<open>str.upper\<close>: the sharp s becomes two letters; the micro sign and y with diaeresis have capitals outside
  Latin-1 and are left, so they stay what no ASCII text contains.\<close>

definition upper_text :: "char \<Rightarrow> string" where
  "upper_text c =
     (if is_lower c \<or> (224 \<le> code c \<and> code c \<le> 254 \<and> code c \<noteq> 247) then [char_of (code c - 32)]
      else if code c = 223 then ''SS'' else [c])"

definition py_upper :: "string \<Rightarrow> string" where
  "py_upper s = concat (map upper_text s)"

definition ascii :: "string \<Rightarrow> bool" where
  "ascii s \<longleftrightarrow> list_all (\<lambda>c. code c < 128) s"

section \<open>Search and replace\<close>

text \<open>\<open>s.replace(old, new)\<close>, for a text \<open>old\<close> that is not empty.\<close>

function replace_text :: "string \<Rightarrow> string \<Rightarrow> string \<Rightarrow> string" where
  "replace_text old new s =
     (if old = [] \<or> s = [] then s
      else if starts_with old s then new @ replace_text old new (drop (length old) s)
      else hd s # replace_text old new (tl s))"
  by pat_completeness auto
termination
  by (relation "measure (\<lambda>(old, new, s). length s)") (auto simp: neq_Nil_conv)

declare replace_text.simps [simp del]

definition remove_char :: "char \<Rightarrow> string \<Rightarrow> string" where
  "remove_char c s = filter (\<lambda>x. x \<noteq> c) s"

text \<open>\<open>s.find(t)\<close>: the first place of \<open>t\<close>, when there is one.\<close>

fun find_text :: "string \<Rightarrow> string \<Rightarrow> nat option" where
  "find_text t [] = (if t = [] then Some 0 else None)"
| "find_text t (c # s) = (if starts_with t (c # s) then Some 0 else map_option Suc (find_text t s))"

text \<open>\<open>s.split(c)\<close>.\<close>

fun split_on :: "char \<Rightarrow> string \<Rightarrow> string list" where
  "split_on c [] = [[]]"
| "split_on c (x # s) =
     (if x = c then [] # split_on c s
      else (case split_on c s of [] \<Rightarrow> [[x]] | p # ps \<Rightarrow> (x # p) # ps))"

text \<open>\<open>s.partition(c)\<close>, with whether \<open>c\<close> was there.\<close>

definition partition_at :: "char \<Rightarrow> string \<Rightarrow> string \<times> bool \<times> string" where
  "partition_at c s = (before_first c s, c \<in> set s, drop 1 (dropWhile (\<lambda>x. x \<noteq> c) s))"

definition ends_with :: "string \<Rightarrow> string \<Rightarrow> bool" where
  "ends_with p s \<longleftrightarrow> length p \<le> length s \<and> drop (length s - length p) s = p"

section \<open>Percent-encoding\<close>

definition hex_upper :: "nat \<Rightarrow> char" where
  "hex_upper n = ''0123456789ABCDEF'' ! n"

definition percent_byte :: "8 word \<Rightarrow> string" where
  "percent_byte b = [CHR ''%'', hex_upper (unat b div 16), hex_upper (unat b mod 16)]"

definition quote_url :: "string \<Rightarrow> string \<Rightarrow> string" where
  "quote_url safe s =
     concat (map (\<lambda>c. if is_alnum_ascii c \<or> c \<in> set ''_.-~'' \<or> (c \<in> set safe \<and> code c < 128) then [c]
        else concat (map percent_byte (utf8_char c))) s)"

section \<open>Facts\<close>

lemma split_on_nonempty [simp]: "split_on c s \<noteq> []"
  by (induction s) (auto split: list.splits)

lemma split_on_no_sep: "p \<in> set (split_on c s) \<Longrightarrow> c \<notin> set p"
proof (induction s arbitrary: p)
  case (Cons x s)
  then show ?case by (cases "split_on c s") (auto split: if_splits)
qed simp

lemma split_on_single: "c \<notin> set s \<Longrightarrow> split_on c s = [s]"
  by (induction s) auto

lemma join_split_on: "join [c] (split_on c s) = s"
proof (induction s)
  case (Cons x s)
  then show ?case
    by (cases "split_on c s"; cases "tl (split_on c s)") auto
qed simp

lemma hex_upper_ascii: "n < 16 \<Longrightarrow> is_alnum_ascii (hex_upper n)"
proof -
  assume n: "n < 16"
  have "list_all is_alnum_ascii ''0123456789ABCDEF''" "length ''0123456789ABCDEF'' = 16" by code_simp+
  with n show ?thesis unfolding hex_upper_def list_all_length by (metis)
qed

text \<open>What is quoted with nothing safe holds no character a URI gives a meaning to.\<close>

lemma quote_url_chars: "c \<in> set (quote_url [] s) \<Longrightarrow> is_alnum_ascii c \<or> c \<in> set ''_.-~%''"
proof -
  assume "c \<in> set (quote_url [] s)"
  then obtain x where x: "x \<in> set s" "c \<in> set (if is_alnum_ascii x \<or> x \<in> set ''_.-~'' then [x] else concat (map percent_byte (utf8_char x)))"
    unfolding quote_url_def set_concat set_map image_image UN_iff by (simp only: list.set empty_iff simp_thms) blast
  show ?thesis
  proof (cases "is_alnum_ascii x \<or> x \<in> set ''_.-~''")
    case True
    then show ?thesis using x(2) by auto
  next
    case False
    then obtain b where "c \<in> set (percent_byte b)" using x(2) by auto
    moreover have "unat b div 16 < 16" "unat b mod 16 < 16"
      using unat_byte_lt [of b] by (simp_all add: less_mult_imp_div_less)
    ultimately show ?thesis by (auto simp: percent_byte_def hex_upper_ascii)
  qed
qed

end
