(* ===== verification/Totp.thy ===== *)
theory Totp
  imports PyText
begin

text \<open>
  \<open>src/c2w/auth/totp.py\<close>: the authenticator code (RFC 6238) and the recovery codes. HMAC-SHA1, Argon2 and
  the QR library are parameters; random bytes, salts and the clock are arguments.

  Lemmas: exactly which codes are accepted, and that an accepted counter is never accepted again.
\<close>

section \<open>Libraries\<close>

datatype verify_outcome = Verified | VerifyMismatch | VerificationFailed | InvalidHash

text \<open>\<open>PasswordHasher\<close>: \<open>hash\<close> with its salt, \<open>verify\<close> as what it returns or raises, \<open>check_needs_rehash\<close>
  as its answer or \<open>InvalidHashError\<close>.\<close>

record hasher =
  ha_hash :: "bytes \<Rightarrow> string \<Rightarrow> string"
  ha_verify :: "string \<Rightarrow> string \<Rightarrow> verify_outcome"
  ha_needs_rehash :: "string \<Rightarrow> bool option"

definition hasher_ok :: "hasher \<Rightarrow> bool" where
  "hasher_ok H \<longleftrightarrow> (\<forall>salt p. ha_verify H (ha_hash H salt p) p = Verified \<and> ha_hash H salt p \<noteq> [])"

text \<open>SHA-1 has twenty bytes.\<close>

definition hmac_ok :: "(bytes \<Rightarrow> bytes \<Rightarrow> bytes) \<Rightarrow> bool" where
  "hmac_ok hm \<longleftrightarrow> (\<forall>k m. length (hm k m) = 20)"

text \<open>\<open>hmac.compare_digest\<close> of two texts.\<close>

definition compare_digest :: "string \<Rightarrow> string \<Rightarrow> py_exc + bool" where
  "compare_digest a b =
     (if ascii a \<and> ascii b then Inr (a = b)
      else Inl (TypeError ''comparing strings with non-ASCII characters is not supported''))"

section \<open>Secrets\<close>

definition SECRET_BYTES :: nat where "SECRET_BYTES = 20"
definition DIGITS :: nat where "DIGITS = 6"
definition STEP_SECONDS :: int where "STEP_SECONDS = 30"
definition WINDOW_STEPS :: int where "WINDOW_STEPS = 1"
definition RECOVERY_CODES :: nat where "RECOVERY_CODES = 10"

definition new_secret :: "bytes \<Rightarrow> string" where
  "new_secret rnd = rstrip_chars (\<lambda>c. c = CHR ''='') (b32_encode rnd)"

definition format_secret :: "string \<Rightarrow> string" where
  "format_secret secret = join '' '' (blocks 4 secret)"

definition decode_secret :: "string \<Rightarrow> py_exc + bytes" where
  "decode_secret secret =
     (let raw = py_upper (remove_char CHR '' '' (py_strip secret));
          padded = raw @ replicate (nat ((- int (length raw)) mod 8)) CHR ''=''
      in if \<not> ascii padded then Inl (ValueError ''string argument should contain only ASCII characters'')
         else (case b32_decode padded of
                 None \<Rightarrow> Inl (ValueError ''Incorrect padding or non-base32 digit found'')
               | Some bs \<Rightarrow> Inr bs))"

section \<open>Codes\<close>

unbundle bit_operations_syntax

definition dynamic_offset :: "8 word \<Rightarrow> nat" where
  "dynamic_offset b = unat (b AND 0x0F)"

definition low_31_bits :: "32 word \<Rightarrow> 32 word" where
  "low_31_bits w = w AND 0x7FFFFFFF"

definition pack_counter :: "int \<Rightarrow> py_exc + bytes" where
  "pack_counter n =
     (if n < 0 \<or> 2 ^ 64 \<le> n then Inl (StructError ''int too large to convert'')
      else Inr (map byte (digits_of 256 8 (nat n))))"

definition unpack_word :: "bytes \<Rightarrow> py_exc + 32 word" where
  "unpack_word bs =
     (if length bs \<noteq> 4 then Inl (StructError ''unpack requires a buffer of 4 bytes'')
      else Inr (of_nat (num_of 256 (map unat bs))))"

definition code_at :: "(bytes \<Rightarrow> bytes \<Rightarrow> bytes) \<Rightarrow> string \<Rightarrow> int \<Rightarrow> py_exc + string" where
  "code_at hm secret counter =
     res_bind (decode_secret secret) (\<lambda>key.
     res_bind (pack_counter counter) (\<lambda>msg.
       (let digest = hm key msg
        in if digest = [] then Inl (LookupError ''index out of range'')
           else (let offset = dynamic_offset (last digest)
                 in res_bind (unpack_word (take 4 (drop offset digest))) (\<lambda>truncated.
                      Inr (zpad DIGITS (unat (low_31_bits truncated) mod 10 ^ DIGITS)))))))"

definition normalise_code :: "string \<Rightarrow> string" where
  "normalise_code entered = filter py_isdigit_char entered"

text \<open>The loop over the drifts.\<close>

fun try_drifts :: "(bytes \<Rightarrow> bytes \<Rightarrow> bytes) \<Rightarrow> string \<Rightarrow> string \<Rightarrow> int option \<Rightarrow> int \<Rightarrow> int list \<Rightarrow> py_exc + int option" where
  "try_drifts hm secret digits last_counter current [] = Inr None"
| "try_drifts hm secret digits last_counter current (drift # drifts) =
     (let counter = current + drift
      in if counter < 0 \<or> (case last_counter of Some n \<Rightarrow> counter \<le> n | None \<Rightarrow> False)
         then try_drifts hm secret digits last_counter current drifts
         else res_bind (code_at hm secret counter) (\<lambda>c.
              res_bind (compare_digest c digits) (\<lambda>same.
                if same then Inr (Some counter) else try_drifts hm secret digits last_counter current drifts)))"

definition current_step :: "dt \<Rightarrow> int" where
  "current_step now = now div (STEP_SECONDS * second)"

definition verify_code :: "(bytes \<Rightarrow> bytes \<Rightarrow> bytes) \<Rightarrow> string \<Rightarrow> string \<Rightarrow> int option \<Rightarrow> dt \<Rightarrow> py_exc + int option" where
  "verify_code hm secret entered last_counter now =
     (let digits = normalise_code entered
      in if length digits \<noteq> DIGITS then Inr None
         else try_drifts hm secret digits last_counter (current_step now) [- WINDOW_STEPS .. WINDOW_STEPS])"

section \<open>Enrolment text\<close>

definition provisioning_uri :: "string \<Rightarrow> string \<Rightarrow> string \<Rightarrow> string" where
  "provisioning_uri secret account issuer =
     ''otpauth://totp/'' @ quote_url [] (issuer @ '':'' @ account) @ ''?secret='' @ secret
       @ ''&issuer='' @ quote_url [] issuer
       @ ''&algorithm=SHA1&digits='' @ show_nat DIGITS @ ''&period='' @ show_int STEP_SECONDS"

text \<open>\<open>segno\<close>, the QR library, is the parameter \<open>draw\<close>: the SVG it writes with the modules in the colour
  it is given.\<close>

definition qr_svg :: "(string \<Rightarrow> int \<Rightarrow> string \<Rightarrow> string) \<Rightarrow> string \<Rightarrow> int \<Rightarrow> py_exc + string" where
  "qr_svg draw uri scale =
     (let sentinel = ''#010203'';
          svg = replace_text sentinel ''currentColor'' (draw uri scale sentinel)
      in if contains sentinel svg then Inl (RuntimeError ''QR sentinel colour was not replaced'')
         else if starts_with ''<?xml'' svg
         then (case find_text ''?>'' svg of
                 None \<Rightarrow> Inl (ValueError ''substring not found'')
               | Some i \<Rightarrow> Inr (lstrip_chars is_space (drop (i + 2) svg)))
         else Inr svg)"

section \<open>Passwords and recovery codes\<close>

text \<open>\<open>AuthError\<close>, what the database refuses, and whatever else reaches a caller.\<close>

datatype auth_exc = AuthError string | IntegrityError string | AuthRaised py_exc

fun auth_lift :: "py_exc + 'a \<Rightarrow> auth_exc + 'a" where
  "auth_lift (Inl e) = Inl (AuthRaised e)"
| "auth_lift (Inr x) = Inr x"

definition MIN_PASSWORD_LENGTH :: nat where "MIN_PASSWORD_LENGTH = 12"

definition hash_password :: "hasher \<Rightarrow> bytes \<Rightarrow> string \<Rightarrow> auth_exc + string" where
  "hash_password H salt password =
     (if length password < MIN_PASSWORD_LENGTH
      then Inl (AuthError (''password must be at least '' @ show_nat MIN_PASSWORD_LENGTH @ '' characters''))
      else Inr (ha_hash H salt password))"

definition hash_recovery_secret :: "hasher \<Rightarrow> bytes \<Rightarrow> string \<Rightarrow> auth_exc + string" where
  "hash_recovery_secret H salt secret =
     (if secret = [] then Inl (AuthError ''empty recovery code'') else Inr (ha_hash H salt secret))"

definition verify_password :: "hasher \<Rightarrow> string \<Rightarrow> string \<Rightarrow> bool" where
  "verify_password H password_hash password \<longleftrightarrow> ha_verify H password_hash password = Verified"

definition needs_rehash :: "hasher \<Rightarrow> string \<Rightarrow> bool" where
  "needs_rehash H password_hash = (case ha_needs_rehash H password_hash of Some b \<Rightarrow> b | None \<Rightarrow> True)"

definition canonical_recovery :: "string \<Rightarrow> string" where
  "canonical_recovery c = filter py_isalnum_char (py_lower c)"

definition recovery_code :: "bytes \<times> bytes \<times> bytes \<Rightarrow> string" where
  "recovery_code r = (case r of (a, b, c) \<Rightarrow> hex_encode a @ ''-'' @ hex_encode b @ ''-'' @ hex_encode c)"

definition new_recovery_codes :: "(nat \<Rightarrow> bytes \<times> bytes \<times> bytes) \<Rightarrow> string list" where
  "new_recovery_codes rnd = map (\<lambda>i. recovery_code (rnd i)) [0..<RECOVERY_CODES]"

definition hash_recovery_code :: "hasher \<Rightarrow> bytes \<Rightarrow> string \<Rightarrow> auth_exc + string" where
  "hash_recovery_code H salt c = hash_recovery_secret H salt (canonical_recovery c)"

definition verify_recovery_code :: "hasher \<Rightarrow> string list \<Rightarrow> string \<Rightarrow> string option" where
  "verify_recovery_code H hashes entered =
     (let candidate = canonical_recovery entered
      in if candidate = [] then None else find (\<lambda>stored. verify_password H stored candidate) hashes)"

section \<open>Lemmas\<close>

lemma code_at_shape:
  assumes "hmac_ok hm" "decode_secret secret = Inr key" "0 \<le> n" "n < 2 ^ 64"
  shows "\<exists>c. code_at hm secret n = Inr c \<and> length c = DIGITS \<and> (\<forall>x \<in> set c. is_digit x)"
proof -
  let ?d = "hm key (map byte (digits_of 256 8 (nat n)))"
  have len: "length ?d = 20" using assms(1) by (simp add: hmac_ok_def)
  have "dynamic_offset b < 16" for b
  proof -
    have "dynamic_offset b = unat (take_bit 4 b)"
      by (simp add: dynamic_offset_def take_bit_eq_mask mask_eq_exp_minus_1)
    also have "\<dots> < 16" using take_bit_nat_less_exp [of 4 "unat b"] by (simp add: unsigned_take_bit_eq)
    finally show ?thesis .
  qed
  from this [of "last ?d"] have off: "length (take 4 (drop (dynamic_offset (last ?d)) ?d)) = 4"
    using len by (simp add: min_def)
  let ?v = "unat (low_31_bits (of_nat (num_of 256 (map unat (take 4 (drop (dynamic_offset (last ?d)) ?d)))))) mod 10 ^ DIGITS"
  have ne: "?d \<noteq> []" using len by auto
  have "code_at hm secret n = Inr (zpad DIGITS ?v)"
    using assms(2-4) ne off by (simp add: code_at_def pack_counter_def unpack_word_def Let_def)
  moreover have "?v < 10 ^ DIGITS" by (simp add: DIGITS_def)
  ultimately show ?thesis using length_zpad [of ?v DIGITS] zpad_digits [of _ DIGITS ?v] by (auto simp: DIGITS_def)
qed

lemma alphabet_chars:
  "list_all (\<lambda>c. \<not> is_space c \<and> upper_text c = [c] \<and> code c < 128 \<and> c \<noteq> CHR ''='' \<and> c \<noteq> CHR '' '') b32_alphabet"
  by code_simp

text \<open>A new secret is what an authenticator is given, and decodes to the bytes it was drawn from.\<close>

lemma new_secret_decodes:
  assumes "length rnd = SECRET_BYTES"
  shows "length (new_secret rnd) = 32 \<and> decode_secret (new_secret rnd) = Inr rnd"
proof -
  let ?s = "b32_encode rnd"
  have r: "length ?s = 32" "set ?s \<subseteq> set b32_alphabet" "b32_decode ?s = Some rnd"
    using b32_roundtrip [of rnd 4] assms by (simp_all add: SECRET_BYTES_def)
  have c: "\<not> is_space x \<and> upper_text x = [x] \<and> code x < 128 \<and> x \<noteq> CHR ''='' \<and> x \<noteq> CHR '' ''" if "x \<in> set ?s" for x
    using subsetD [OF r(2) that] alphabet_chars unfolding list_all_iff by blast
  have ns: "new_secret rnd = ?s" unfolding new_secret_def by (rule rstrip_none) (use c in blast)
  have none: "dropWhile is_space xs = xs" if "\<And>x. x \<in> set xs \<Longrightarrow> \<not> is_space x" for xs
    using that by (cases xs) auto
  have strip: "py_strip ?s = ?s"
  proof -
    have "dropWhile is_space ?s = ?s" "dropWhile is_space (rev ?s) = rev ?s" by (rule none; use c in auto)+
    then show ?thesis by (simp add: py_strip_def strip_chars_def rstrip_chars_def lstrip_chars_def)
  qed
  have sp: "remove_char CHR '' '' ?s = ?s" unfolding remove_char_def by (rule filter_True) (use c in blast)
  have up: "py_upper ?s = ?s"
  proof -
    have "concat (map upper_text xs) = xs" if "\<And>x. x \<in> set xs \<Longrightarrow> upper_text x = [x]" for xs
      using that by (induction xs) auto
    then show ?thesis unfolding py_upper_def using c by blast
  qed
  have "ascii ?s" unfolding ascii_def list_all_iff using c by blast
  then show ?thesis using r ns unfolding decode_secret_def ns strip sp up by (simp add: Let_def)
qed

lemma upto_drifts: "[- WINDOW_STEPS .. WINDOW_STEPS] = [-1, 0, 1]"
  unfolding WINDOW_STEPS_def by code_simp

definition usable :: "int option \<Rightarrow> int \<Rightarrow> bool" where
  "usable last_counter n \<longleftrightarrow> 0 \<le> n \<and> (case last_counter of Some m \<Rightarrow> m < n | None \<Rightarrow> True)"

lemma try_drifts_find:
  assumes "hmac_ok hm" "decode_secret secret = Inr key" "ascii digits"
    and "\<And>k. k \<in> set drifts \<Longrightarrow> current + k < 2 ^ 64"
  shows "try_drifts hm secret digits last_counter current drifts =
    Inr (find (\<lambda>n. usable last_counter n \<and> code_at hm secret n = Inr digits) (map (\<lambda>k. current + k) drifts))"
  using assms(4)
proof (induction drifts)
  case (Cons k drifts)
  then have IH: "try_drifts hm secret digits last_counter current drifts =
    Inr (find (\<lambda>n. usable last_counter n \<and> code_at hm secret n = Inr digits) (map (\<lambda>k. current + k) drifts))" by simp
  show ?case
  proof (cases "usable last_counter (current + k)")
    case True
    then obtain c where c: "code_at hm secret (current + k) = Inr c" "\<forall>x \<in> set c. is_digit x"
      using code_at_shape [OF assms(1,2), of "current + k"] Cons.prems [of k] by (auto simp: usable_def)
    have "ascii c" using c(2) by (auto simp: ascii_def list_all_iff is_digit_def)
    then show ?thesis using True assms(3) IH c(1)
      by (cases last_counter) (auto simp: usable_def compare_digest_def Let_def)
  next
    case False
    then show ?thesis using IH by (cases last_counter) (auto simp: usable_def Let_def)
  qed
qed simp

lemma verify_find:
  assumes "hmac_ok hm" "decode_secret secret = Inr key" "current_step now + 1 < 2 ^ 64" "ascii (normalise_code entered)"
  shows "verify_code hm secret entered last_counter now =
    Inr (if length (normalise_code entered) = 6
         then find (\<lambda>n. usable last_counter n \<and> code_at hm secret n = Inr (normalise_code entered))
                [current_step now - 1, current_step now, current_step now + 1]
         else None)"
proof -
  have "try_drifts hm secret (normalise_code entered) last_counter (current_step now) [-1, 0, 1] =
    Inr (find (\<lambda>n. usable last_counter n \<and> code_at hm secret n = Inr (normalise_code entered))
      (map (\<lambda>k. current_step now + k) [-1, 0, 1]))"
    by (rule try_drifts_find [OF assms(1,2,4)]) (use assms(3) in auto)
  then show ?thesis by (simp only: verify_code_def Let_def upto_drifts DIGITS_def) simp
qed

text \<open>The code of the current step is accepted, and a text of digits never raises.\<close>

lemma current_code_accepted:
  assumes "hmac_ok hm" "decode_secret secret = Inr key" "0 \<le> current_step now" "current_step now + 1 < 2 ^ 64"
    and "code_at hm secret (current_step now) = Inr c"
  shows "\<exists>n. verify_code hm secret c None now = Inr (Some n)"
proof -
  have c: "length c = 6" "\<forall>x \<in> set c. is_digit x"
    using code_at_shape [OF assms(1,2,3)] assms(4,5) by (auto simp: DIGITS_def)
  have n: "normalise_code c = c" unfolding normalise_code_def by (rule filter_True) (use c(2) in \<open>auto simp: py_isdigit_char_def\<close>)
  have "ascii c" using c(2) by (auto simp: ascii_def list_all_iff is_digit_def)
  moreover have "find (\<lambda>n. usable None n \<and> code_at hm secret n = Inr c)
      [current_step now - 1, current_step now, current_step now + 1] \<noteq> None"
    using assms(3,5) by (simp add: usable_def)
  ultimately show ?thesis using verify_find [OF assms(1,2,4), of c None] c(1) n by auto
qed

text \<open>Which codes are accepted. A code is accepted exactly when it has six digits and is the code of a
  step within one of the current one, not before the epoch and later than every step accepted before; the
  earliest such step is what is returned, to be kept.\<close>

theorem verify_accepts:
  assumes "hmac_ok hm" "decode_secret secret = Inr key" "current_step now + 1 < 2 ^ 64" "ascii (normalise_code entered)"
  shows "verify_code hm secret entered last_counter now =
    Inr (if length (normalise_code entered) = 6
         then find (\<lambda>n. usable last_counter n \<and> code_at hm secret n = Inr (normalise_code entered))
                [current_step now - 1, current_step now, current_step now + 1]
         else None)"
  by (rule verify_find [OF assms])

text \<open>A keyed digest for the examples: the low half of the counter, and zeros.\<close>

definition demo_hmac :: "bytes \<Rightarrow> bytes \<Rightarrow> bytes" where
  "demo_hmac key msg = take 20 (rev (take 4 (rev msg)) @ [0, 0, 0, 0, 0, 0, 0, 0, 0, 0, 0, 0, 0, 0, 0, 0, 0, 0, 0, 0])"

definition demo_secret :: string where
  "demo_secret = ''AAAAAAAAAAAAAAAAAAAAAAAAAAAAAAAA''"

lemma demo_hmac_ok: "hmac_ok demo_hmac"
  by (simp add: hmac_ok_def demo_hmac_def)

lemma demo_secret_decodes: "decode_secret demo_secret = Inr (replicate 20 0)"
  by code_simp

lemmas code_eval = code_at_def demo_secret_decodes pack_counter_def unpack_word_def num_of_def dynamic_offset_def
  low_31_bits_def Let_def zpad_def DIGITS_def str_simps

lemma eight_digits:
  "digits_of b 8 n = [n div b div b div b div b div b div b div b mod b, n div b div b div b div b div b div b mod b,
     n div b div b div b div b div b mod b, n div b div b div b div b mod b, n div b div b div b mod b, n div b div b mod b,
     n div b mod b, n mod b]"
  by (simp add: eval_nat_numeral)

lemma demo_codes:
  "code_at demo_hmac demo_secret 1 = Inr ''000001''" "code_at demo_hmac demo_secret 1232 = Inr ''001232''"
  "code_at demo_hmac demo_secret 1233 = Inr ''001233''" "code_at demo_hmac demo_secret 1234 = Inr ''001234''"
  by (simp_all add: code_eval demo_hmac_def eight_digits byte_def) (simp_all add: eval_nat_numeral)

theorem verify_accepts_witness:
  "verify_code demo_hmac demo_secret '' 001-234 '' (Some 1232) (1233 * 30 * second) = Inr (Some 1234) \<and>
   verify_code demo_hmac demo_secret ''001234'' (Some 1234) (1233 * 30 * second) = Inr None"
proof -
  define t where "t = 1233 * 30 * second"
  have step: "current_step t = 1233" by (simp add: t_def current_step_def STEP_SECONDS_def second_def)
  have n: "normalise_code '' 001-234 '' = ''001234''" "normalise_code ''001234'' = ''001234''" "ascii ''001234''" by code_simp+
  show ?thesis
    using verify_accepts [OF demo_hmac_ok demo_secret_decodes, of t "'' 001-234 ''" "Some 1232"]
      verify_accepts [OF demo_hmac_ok demo_secret_decodes, of t "''001234''" "Some 1234"]
    unfolding t_def [symmetric] by (simp add: step n demo_codes usable_def)
qed

text \<open>The digest of RFC 4226, section 5.4, and a code that \<open>isdigit\<close> lets through and the comparison does not take.\<close>

lemma rfc_4226_example:
  "code_at (\<lambda>_ _. [0x1f, 0x86, 0x98, 0x69, 0x0e, 0x02, 0xca, 0x16, 0x61, 0x85, 0x50, 0xef, 0x7f, 0x19, 0xda, 0x8e,
     0x94, 0x5b, 0x55, 0x5a]) demo_secret 0 = Inr ''872921''"
  by (simp add: code_eval)

lemma superscripts_raise:
  "verify_code demo_hmac demo_secret (replicate 6 (char_of (178 :: nat))) None (60 * second) =
     Inl (TypeError ''comparing strings with non-ASCII characters is not supported'')"
proof -
  have n: "normalise_code (replicate 6 (char_of (178 :: nat))) = replicate 6 (char_of (178 :: nat))"
    "\<not> ascii (replicate 6 (char_of (178 :: nat)))" by code_simp+
  have "current_step (60 * second) = 2" by (simp add: current_step_def STEP_SECONDS_def second_def)
  then show ?thesis by (simp add: verify_code_def Let_def n upto_drifts demo_codes DIGITS_def compare_digest_def)
qed

end
