(* ===== verification/Regex.thy ===== *)
theory Regex
  imports Prelude
begin

text \<open>
  Python's \<open>re\<close> (standard library), as far as the patterns of the repository use it: a
  backtracking matcher over a pattern syntax with character classes, bounded greedy and lazy
  repetition, alternatives tried left to right, optional and named groups, one-character
  negative look-around and the anchors \<open>^\<close> and \<open>$\<close>.

  The matcher keeps the consumed text reversed (\<open>pre\<close>) beside the text still to come, and calls
  a continuation with every way the pattern can match, in Python's order; the first that succeeds
  is the match. The lemmas say when a greedy repetition is deterministic.
\<close>

type_synonym groups = "(string \<times> string) list"

datatype re =
    Empty
  | Cls "char \<Rightarrow> bool"
  | Rep nat nat "char \<Rightarrow> bool"      \<comment> \<open>\<open>[..]{lo,hi}\<close>, greedy\<close>
  | Plus "char \<Rightarrow> bool"              \<comment> \<open>\<open>[..]+\<close>\<close>
  | Star "char \<Rightarrow> bool"              \<comment> \<open>\<open>[..]*\<close>\<close>
  | LazyStar "char \<Rightarrow> bool"          \<comment> \<open>\<open>[..]*?\<close>\<close>
  | Seq re re
  | Alt re re
  | Group string re
  | NotBehind "char \<Rightarrow> bool"         \<comment> \<open>\<open>(?<![..])\<close>\<close>
  | NotAhead "char \<Rightarrow> bool"          \<comment> \<open>\<open>(?![..])\<close>\<close>
  | Bos                              \<comment> \<open>\<open>^\<close>\<close>
  | Eos                              \<comment> \<open>\<open>$\<close>: the end, or before a final newline\<close>

definition Chr :: "char \<Rightarrow> re" where
  "Chr c = Cls (\<lambda>x. x = c)"

definition Opt :: "re \<Rightarrow> re" where
  "Opt r = Alt r Empty"

fun Lit :: "string \<Rightarrow> re" where
  "Lit [] = Empty"
| "Lit [c] = Chr c"
| "Lit (c # d # s) = Seq (Chr c) (Lit (d # s))"

fun seqs :: "re list \<Rightarrow> re" where
  "seqs [] = Empty"
| "seqs [r] = r"
| "seqs (r # s # rs) = Seq r (seqs (s # rs))"

section \<open>Repetition of a class\<close>

fun rep_greedy :: "(char \<Rightarrow> bool) \<Rightarrow> nat \<Rightarrow> nat \<Rightarrow> string \<Rightarrow> string \<Rightarrow>
    (string \<Rightarrow> string \<Rightarrow> 'r option) \<Rightarrow> 'r option" where
  "rep_greedy p lo 0 pre s k = (if lo = 0 then k pre s else None)"
| "rep_greedy p lo (Suc hi) pre [] k = (if lo = 0 then k pre [] else None)"
| "rep_greedy p lo (Suc hi) pre (c # s) k =
     (case (if p c then rep_greedy p (lo - 1) hi (c # pre) s k else None) of
        Some r \<Rightarrow> Some r
      | None \<Rightarrow> if lo = 0 then k pre (c # s) else None)"

fun rep_lazy :: "(char \<Rightarrow> bool) \<Rightarrow> string \<Rightarrow> string \<Rightarrow>
    (string \<Rightarrow> string \<Rightarrow> 'r option) \<Rightarrow> 'r option" where
  "rep_lazy p pre [] k = k pre []"
| "rep_lazy p pre (c # s) k =
     (case k pre (c # s) of
        Some r \<Rightarrow> Some r
      | None \<Rightarrow> if p c then rep_lazy p (c # pre) s k else None)"

section \<open>The matcher\<close>

primrec rmatch :: "re \<Rightarrow> string \<Rightarrow> string \<Rightarrow> groups \<Rightarrow>
    (string \<Rightarrow> string \<Rightarrow> groups \<Rightarrow> 'r option) \<Rightarrow> 'r option" where
  "rmatch Empty pre s g k = k pre s g"
| "rmatch (Cls p) pre s g k =
     (case s of [] \<Rightarrow> None | c # s' \<Rightarrow> if p c then k (c # pre) s' g else None)"
| "rmatch (Rep lo hi p) pre s g k = rep_greedy p lo hi pre s (\<lambda>pre' s'. k pre' s' g)"
| "rmatch (Plus p) pre s g k = rep_greedy p 1 (length s) pre s (\<lambda>pre' s'. k pre' s' g)"
| "rmatch (Star p) pre s g k = rep_greedy p 0 (length s) pre s (\<lambda>pre' s'. k pre' s' g)"
| "rmatch (LazyStar p) pre s g k = rep_lazy p pre s (\<lambda>pre' s'. k pre' s' g)"
| "rmatch (Seq a b) pre s g k = rmatch a pre s g (\<lambda>pre' s' g'. rmatch b pre' s' g' k)"
| "rmatch (Alt a b) pre s g k =
     (case rmatch a pre s g k of Some r \<Rightarrow> Some r | None \<Rightarrow> rmatch b pre s g k)"
| "rmatch (Group n a) pre s g k =
     rmatch a pre s g (\<lambda>pre' s' g'. k pre' s' ((n, take (length s - length s') s) # g'))"
| "rmatch (NotBehind p) pre s g k =
     (case pre of c # _ \<Rightarrow> if p c then None else k pre s g | [] \<Rightarrow> k pre s g)"
| "rmatch (NotAhead p) pre s g k =
     (case s of c # _ \<Rightarrow> if p c then None else k pre s g | [] \<Rightarrow> k pre s g)"
| "rmatch Bos pre s g k = (if pre = [] then k pre s g else None)"
| "rmatch Eos pre s g k = (if s = [] \<or> s = [CHR 0x0A] then k pre s g else None)"

text \<open>\<open>pattern.match(s)\<close> and \<open>pattern.search(s)\<close>.\<close>

definition re_match :: "re \<Rightarrow> string \<Rightarrow> groups option" where
  "re_match r s = rmatch r [] s [] (\<lambda>_ _ g. Some g)"

fun re_search_from :: "re \<Rightarrow> string \<Rightarrow> string \<Rightarrow> groups option" where
  "re_search_from r pre [] = rmatch r pre [] [] (\<lambda>_ _ g. Some g)"
| "re_search_from r pre (c # s) =
     (case rmatch r pre (c # s) [] (\<lambda>_ _ g. Some g) of
        Some g \<Rightarrow> Some g
      | None \<Rightarrow> re_search_from r (c # pre) s)"

definition re_search :: "re \<Rightarrow> string \<Rightarrow> groups option" where
  "re_search r s = re_search_from r [] s"

text \<open>\<open>m.group(n)\<close>: the group's text, or \<open>None\<close> when the group took no part.\<close>

definition group :: "groups \<Rightarrow> string \<Rightarrow> string option" where
  "group g n = map_of g n"

section \<open>Deterministic repetition\<close>

text \<open>
  When the run of class characters cannot go on and the rest matches, the greedy repetition takes
  the whole run.
\<close>

lemma rep_greedy_run:
  assumes "\<forall>c \<in> set xs. p c" "lo \<le> length xs" "length xs \<le> hi"
    and "rest = [] \<or> \<not> p (hd rest) \<or> length xs = hi"
    and "k (rev xs @ pre) rest = Some r"
  shows "rep_greedy p lo hi pre (xs @ rest) k = Some r"
  using assms
proof (induction xs arbitrary: lo hi pre)
  case Nil
  then show ?case by (cases hi; cases rest) auto
next
  case (Cons c xs)
  then obtain h where "hi = Suc h" by (cases hi) auto
  with Cons show ?case by simp
qed

lemma rep_greedy_fail_first:
  "0 < lo \<Longrightarrow> s = [] \<or> \<not> p (hd s) \<Longrightarrow> rep_greedy p lo hi pre s k = None"
  by (cases hi; cases s) auto

text \<open>A repetition with no continuation that succeeds fails.\<close>

lemma rep_greedy_None:
  "(\<And>pre' s'. k pre' s' = None) \<Longrightarrow> rep_greedy p lo hi pre s k = None"
  by (induction p lo hi pre s k rule: rep_greedy.induct) auto

text \<open>
  Conversely: on a run that ends at \<open>rest\<close>, if no admissible prefix of the run can be continued,
  the repetition fails.
\<close>

lemma rep_greedy_run_None:
  assumes "\<And>n. lo \<le> n \<Longrightarrow> n \<le> length xs \<Longrightarrow> n \<le> hi \<Longrightarrow>
      k (rev (take n xs) @ pre) (drop n xs @ rest) = None"
    and "rest = [] \<or> \<not> p (hd rest)"
  shows "rep_greedy p lo hi pre (xs @ rest) k = None"
  using assms
proof (induction xs arbitrary: lo hi pre)
  case Nil
  then show ?case using Nil(1) [of 0] by (cases hi; cases rest) auto
next
  case (Cons c xs)
  show ?case
  proof (cases hi)
    case 0
    then show ?thesis using Cons.prems(1) [of 0] by auto
  next
    case (Suc h)
    have "rep_greedy p (lo - 1) h (c # pre) (xs @ rest) k = None"
    proof (rule Cons.IH)
      fix n
      assume "lo - 1 \<le> n" "n \<le> length xs" "n \<le> h"
      then show "k (rev (take n xs) @ c # pre) (drop n xs @ rest) = None"
        using Cons.prems(1) [of "Suc n"] Suc by simp
    qed (use Cons.prems in simp)
    with Suc show ?thesis using Cons.prems(1) [of 0] by simp
  qed
qed

section \<open>Stepping through a sequence\<close>

lemma rmatch_seqs_Cons [simp]:
  "rmatch (seqs (r # s # rs)) pre t g k =
     rmatch r pre t g (\<lambda>pre' t' g'. rmatch (seqs (s # rs)) pre' t' g' k)"
  by simp

lemma rmatch_Chr [simp]:
  "rmatch (Chr c) pre (d # s) g k = (if d = c then k (d # pre) s g else None)"
  "rmatch (Chr c) pre [] g k = None"
  by (simp_all add: Chr_def)

lemma rmatch_Opt [simp]:
  "rmatch (Opt r) pre s g k = (case rmatch r pre s g k of Some x \<Rightarrow> Some x | None \<Rightarrow> k pre s g)"
  by (simp add: Opt_def split: option.split)

lemma rmatch_group_run:
  assumes "\<forall>c \<in> set xs. p c" "lo \<le> length xs" "length xs \<le> hi"
    and "rest = [] \<or> \<not> p (hd rest) \<or> length xs = hi"
    and "k (rev xs @ pre) rest ((n, xs) # g) = Some r"
  shows "rmatch (Group n (Rep lo hi p)) pre (xs @ rest) g k = Some r"
  using assms by (auto intro!: rep_greedy_run)

lemma rmatch_group_run_eq:
  assumes "\<forall>c \<in> set xs. p c" "lo \<le> length xs" "length xs \<le> hi"
    and "rest = [] \<or> \<not> p (hd rest)"
    and "k (rev xs @ pre) rest ((n, xs) # g) \<noteq> None"
  shows "rmatch (Group n (Rep lo hi p)) pre (xs @ rest) g k = k (rev xs @ pre) rest ((n, xs) # g)"
proof -
  obtain r where "k (rev xs @ pre) rest ((n, xs) # g) = Some r" using assms(5) by auto
  with assms show ?thesis by (subst rmatch_group_run) auto
qed

lemma rmatch_group_plus:
  assumes "\<forall>c \<in> set xs. p c" "xs \<noteq> []" "rest = [] \<or> \<not> p (hd rest)"
    and "k (rev xs @ pre) rest ((n, xs) # g) = Some r"
  shows "rmatch (Group n (Plus p)) pre (xs @ rest) g k = Some r"
  using assms by (auto intro!: rep_greedy_run simp: Suc_le_eq)

section \<open>A field that ends at a separator\<close>

text \<open>
  When the separator is not in the class, a field followed by it matches in one way or not at all:
  the field has to be the whole text before the separator.
\<close>

lemma rep_greedy_sep:
  assumes "c \<notin> set xs" "\<not> p c"
    and k: "\<And>pre' s'. (s' = [] \<or> hd s' \<noteq> c) \<Longrightarrow> k pre' s' = None"
  shows "rep_greedy p lo hi pre (xs @ c # t) k =
    (if (\<forall>x \<in> set xs. p x) \<and> lo \<le> length xs \<and> length xs \<le> hi then k (rev xs @ pre) (c # t) else None)"
  using assms(1)
proof (induction xs arbitrary: lo hi pre)
  case Nil
  then show ?case using assms(2) by (cases hi) auto
next
  case (Cons x xs)
  then have "x \<noteq> c" "c \<notin> set xs" by auto
  then have none: "k pre (x # xs @ c # t) = None" by (simp add: k)
  show ?case
  proof (cases hi)
    case 0
    with none show ?thesis by simp
  next
    case (Suc h)
    with Cons.IH [OF \<open>c \<notin> set xs\<close>, of "lo - 1" h "x # pre"] none show ?thesis
      by (auto split: option.split)
  qed
qed

lemma rmatch_Chr_None: "s = [] \<or> hd s \<noteq> c \<Longrightarrow> rmatch (Chr c) pre s g k = None"
  by (cases s) auto

lemma rmatch_field_sep:
  assumes "c \<notin> set xs" "\<not> p c"
  shows "rmatch (Group n (Rep lo hi p)) pre (xs @ c # t) g
      (\<lambda>pre' s' g'. rmatch (Chr c) pre' s' g' k) =
    (if (\<forall>x \<in> set xs. p x) \<and> lo \<le> length xs \<and> length xs \<le> hi
     then k (c # rev xs @ pre) t ((n, xs) # g) else None)"
  using assms by (simp add: rep_greedy_sep rmatch_Chr_None)

lemma rmatch_rep_sep:
  assumes "c \<notin> set xs" "\<not> p c"
  shows "rmatch (Rep lo hi p) pre (xs @ c # t) g
      (\<lambda>pre' s' g'. rmatch (Chr c) pre' s' g' k) =
    (if (\<forall>x \<in> set xs. p x) \<and> lo \<le> length xs \<and> length xs \<le> hi
     then k (c # rev xs @ pre) t g else None)"
  using assms by (simp add: rep_greedy_sep rmatch_Chr_None)

lemma rmatch_plus_sep:
  assumes "c \<notin> set xs" "\<not> p c"
  shows "rmatch (Group n (Plus p)) pre (xs @ c # t) g
      (\<lambda>pre' s' g'. rmatch (Chr c) pre' s' g' k) =
    (if (\<forall>x \<in> set xs. p x) \<and> xs \<noteq> [] then k (c # rev xs @ pre) t ((n, xs) # g) else None)"
  using assms by (auto simp: rep_greedy_sep rmatch_Chr_None Suc_le_eq)

lemma rmatch_field_end:
  assumes "\<forall>x \<in> set xs. p x" "lo \<le> length xs" "length xs \<le> hi"
  shows "rmatch (Group n (Rep lo hi p)) pre xs g (\<lambda>pre' s' g'. rmatch Eos pre' s' g' (\<lambda>_ _ g. Some g))
    = Some ((n, xs) # g)"
  by (simp, rule rep_greedy_run [OF assms, of "[]", simplified]) simp_all

lemma rep_greedy_short:
  "length (takeWhile p s) < lo \<Longrightarrow> rep_greedy p lo hi pre s k = None"
proof (induction s arbitrary: lo hi pre)
  case Nil
  then show ?case by (cases hi) auto
next
  case (Cons x s)
  then show ?case by (cases hi) (auto split: if_splits)
qed

lemma rep_greedy_no_sep:
  assumes "c \<notin> set s" and k: "\<And>pre' s'. (s' = [] \<or> hd s' \<noteq> c) \<Longrightarrow> k pre' s' = None"
  shows "rep_greedy p lo hi pre s k = None"
  using assms(1)
proof (induction s arbitrary: lo hi pre)
  case Nil
  then show ?case using k by (cases hi) auto
next
  case (Cons x s)
  then show ?case using k [of "x # s"] by (cases hi) auto
qed

lemma rmatch_field_no_sep:
  "c \<notin> set s \<Longrightarrow> rmatch (Group n (Rep lo hi p)) pre s g
      (\<lambda>pre' s' g'. rmatch (Chr c) pre' s' g' k) = None"
  by (simp add: rep_greedy_no_sep rmatch_Chr_None)

text \<open>A repetition of a fixed count is deterministic, and a lazy one passes what cannot go on.\<close>

lemma rep_greedy_exact:
  "\<forall>c \<in> set xs. p c \<Longrightarrow> length xs = n \<Longrightarrow>
   rep_greedy p n n pre (xs @ rest) k = k (rev xs @ pre) rest"
proof (induction xs arbitrary: n pre)
  case Nil
  then show ?case by (cases rest) auto
next
  case (Cons x xs)
  then show ?case by (cases n) (auto split: option.split)
qed

lemma rep_lazy_skip:
  assumes "\<forall>c \<in> set xs. p c"
    and "\<And>pre' ys. ys \<noteq> [] \<Longrightarrow> set ys \<subseteq> set xs \<Longrightarrow> k pre' (ys @ rest) = None"
    and "k (rev xs @ pre) rest = Some r"
  shows "rep_lazy p pre (xs @ rest) k = Some r"
  using assms
proof (induction xs arbitrary: pre)
  case Nil
  then show ?case by (cases rest) auto
next
  case (Cons x xs)
  have "k pre (x # xs @ rest) = None" using Cons.prems(2) [of "x # xs" pre] by simp
  moreover have "rep_lazy p (x # pre) (xs @ rest) k = Some r"
    using Cons.prems by (intro Cons.IH) auto
  ultimately show ?case using Cons.prems(1) by simp
qed

lemmas field_simps = rmatch_field_sep rmatch_rep_sep rmatch_plus_sep

section \<open>The groups a match can set\<close>

primrec group_names :: "re \<Rightarrow> string set" where
  "group_names Empty = {}"
| "group_names (Cls p) = {}"
| "group_names (Rep lo hi p) = {}"
| "group_names (Plus p) = {}"
| "group_names (Star p) = {}"
| "group_names (LazyStar p) = {}"
| "group_names (Seq a b) = group_names a \<union> group_names b"
| "group_names (Alt a b) = group_names a \<union> group_names b"
| "group_names (Group n a) = insert n (group_names a)"
| "group_names (NotBehind p) = {}"
| "group_names (NotAhead p) = {}"
| "group_names Bos = {}"
| "group_names Eos = {}"

lemma rep_greedy_Some:
  "rep_greedy p lo hi pre s k = Some x \<Longrightarrow> \<exists>pre' s'. k pre' s' = Some x"
  by (induction p lo hi pre s k rule: rep_greedy.induct) (auto split: if_splits option.splits)

lemma rep_lazy_Some: "rep_lazy p pre s k = Some x \<Longrightarrow> \<exists>pre' s'. k pre' s' = Some x"
  by (induction p pre s k rule: rep_lazy.induct) (auto split: if_splits option.splits)

lemma rmatch_Some:
  "rmatch r pre s g k = Some x \<Longrightarrow>
   \<exists>pre' s' g'. k pre' s' g' = Some x \<and> fst ` set g' \<subseteq> fst ` set g \<union> group_names r"
proof (induction r arbitrary: pre s g k)
  case (Rep lo hi p)
  from rep_greedy_Some [OF Rep [unfolded rmatch.simps]] show ?case by blast
next
  case (Plus p)
  from rep_greedy_Some [OF Plus [unfolded rmatch.simps]] show ?case by blast
next
  case (Star p)
  from rep_greedy_Some [OF Star [unfolded rmatch.simps]] show ?case by blast
next
  case (LazyStar p)
  from rep_lazy_Some [OF LazyStar [unfolded rmatch.simps]] show ?case by blast
next
  case (Seq a b)
  from Seq.IH(1) [OF Seq.prems [unfolded rmatch.simps]]
  obtain pre' s' g' where b: "rmatch b pre' s' g' k = Some x"
    and a: "fst ` set g' \<subseteq> fst ` set g \<union> group_names a"
    by blast
  from Seq.IH(2) [OF b] obtain pre'' s'' g'' where "k pre'' s'' g'' = Some x"
    "fst ` set g'' \<subseteq> fst ` set g' \<union> group_names b"
    by blast
  moreover from this(2) a have "fst ` set g'' \<subseteq> fst ` set g \<union> group_names (Seq a b)" by auto
  ultimately show ?case by blast
next
  case (Alt a b)
  then have "rmatch a pre s g k = Some x \<or> rmatch b pre s g k = Some x"
    by (simp split: option.splits)
  then obtain pre' s' g' where "k pre' s' g' = Some x"
    "fst ` set g' \<subseteq> fst ` set g \<union> group_names a \<or> fst ` set g' \<subseteq> fst ` set g \<union> group_names b"
    using Alt.IH by metis
  then show ?case by (intro exI conjI) auto
next
  case (Group n a)
  from Group.IH [OF Group.prems [unfolded rmatch.simps]]
  obtain pre' s' g' where "k pre' s' ((n, take (length s - length s') s) # g') = Some x"
    "fst ` set g' \<subseteq> fst ` set g \<union> group_names a"
    by blast
  then have "fst ` set ((n, take (length s - length s') s) # g') \<subseteq> fst ` set g \<union> group_names (Group n a)"
    by auto
  with \<open>k pre' s' ((n, take (length s - length s') s) # g') = Some x\<close> show ?case by blast
next
  case (Cls p)
  then show ?case by (cases s; simp split: if_splits; blast)
next
  case (NotBehind p)
  then show ?case by (cases pre; simp split: if_splits; blast)
next
  case (NotAhead p)
  then show ?case by (cases s; simp split: if_splits; blast)
qed (simp split: if_splits; blast)+

lemma re_match_groups: "re_match r s = Some g \<Longrightarrow> n \<notin> group_names r \<Longrightarrow> group g n = None"
  unfolding re_match_def group_def
  by (drule rmatch_Some) (force simp: map_of_eq_None_iff)

end
