(* ===== verification/KeyParse.thy ===== *)
theory KeyParse
  imports Regex Calendar
begin

text \<open>
  \<open>src/c2w/commpeak/keyparse.py\<close>: a recording object key parsed into its fields. The patterns are
  terms of the pattern syntax, in the source's order; \<open>parse_key\<close> tries them, then the Dialer's
  uuid names, then the salvage. Keys are Latin-1 strings.

  Lemmas: each documented layout parses back to the fields it was written from; when \<open>parse_key\<close>
  raises; the day prefixes a scan lists cover every instant of its range once.
\<close>

section \<open>Patterns\<close>

definition DIRECTION_ALIASES :: "(string \<times> string) list" where
  "DIRECTION_ALIASES =
     [(''out'', ''out''), (''outbound'', ''out''), (''in'', ''in''), (''inbound'', ''in''),
      (''conf'', ''conf''), (''conference'', ''conf''), (''queue'', ''queue''),
      (''vm'', ''voicemail''), (''voicemail'', ''voicemail'')]"

definition is_ext_char :: "char \<Rightarrow> bool" where
  "is_ext_char c \<longleftrightarrow> is_alnum_ascii c \<or> c = CHR ''_'' \<or> c = CHR ''+''"

definition is_label_char :: "char \<Rightarrow> bool" where
  "is_label_char c \<longleftrightarrow> is_alnum_ascii c \<or> c = CHR ''_''"

definition is_alpha_ascii :: "char \<Rightarrow> bool" where
  "is_alpha_ascii c \<longleftrightarrow> is_lower c \<or> is_upper c"

text \<open>\<open>[0-9a-f]\<close> under \<open>IGNORECASE\<close>.\<close>

definition is_hex :: "char \<Rightarrow> bool" where
  "is_hex c \<longleftrightarrow> is_digit c \<or> (97 \<le> code c \<and> code c \<le> 102) \<or> (65 \<le> code c \<and> code c \<le> 70)"

definition NUMBER :: re where
  "NUMBER = Group ''number'' (Seq (Opt (Chr CHR ''+'')) (Rep 1 20 is_digit))"

definition FULL :: re where
  "FULL = seqs
     [Bos, Group ''direction'' (Plus is_lower), Chr CHR ''-'', NUMBER, Chr CHR ''-'',
      Group ''extension'' (Rep 1 32 is_ext_char), Chr CHR ''-'',
      Group ''date'' (Rep 8 8 is_digit), Chr CHR ''-'',
      Group ''time'' (Rep 6 6 is_digit), Chr CHR ''-'',
      Group ''uniqueid'' (Rep 9 12 is_digit),
      Opt (Seq (Chr CHR ''.'') (Group ''seq'' (Rep 1 4 is_digit))),
      Chr CHR ''.'', Group ''ext'' (Rep 1 8 is_alnum_ascii), Eos]"

definition NO_EXTENSION :: re where
  "NO_EXTENSION = seqs
     [Bos, Group ''direction'' (Plus is_lower), Chr CHR ''-'', NUMBER, Chr CHR ''-'',
      Group ''date'' (Rep 8 8 is_digit), Chr CHR ''-'',
      Group ''time'' (Rep 6 6 is_digit), Chr CHR ''-'',
      Group ''uniqueid'' (Rep 9 12 is_digit),
      Opt (Seq (Chr CHR ''.'') (Group ''seq'' (Rep 1 4 is_digit))),
      Chr CHR ''.'', Group ''ext'' (Rep 1 8 is_alnum_ascii), Eos]"

definition UNIQUEID_FIRST :: re where
  "UNIQUEID_FIRST = seqs
     [Bos, Group ''uniqueid'' (Rep 9 12 is_digit),
      Opt (Seq (Chr CHR ''.'') (Group ''seq'' (Rep 1 8 is_digit))), Chr CHR ''-'',
      Group ''direction'' (Plus is_lower), Chr CHR ''-'', NUMBER, Chr CHR ''-'',
      Group ''extension'' (Rep 1 32 is_ext_char), Chr CHR ''-'',
      Group ''date'' (Rep 8 8 is_digit), Chr CHR ''-'',
      Group ''time'' (Rep 6 6 is_digit),
      Chr CHR ''.'', Group ''ext'' (Rep 1 8 is_alnum_ascii), Eos]"

definition UUID :: re where
  "UUID = Group ''uuid'' (seqs
     [Rep 8 8 is_hex, Chr CHR ''-'', Rep 4 4 is_hex, Chr CHR ''-'', Rep 4 4 is_hex, Chr CHR ''-'',
      Rep 4 4 is_hex, Chr CHR ''-'', Rep 12 12 is_hex])"

definition UUID_WITH_EPOCH :: re where
  "UUID_WITH_EPOCH = seqs
     [Bos, UUID,
      Opt (Seq (Chr CHR ''_'') (Group ''label'' (Seq (Cls is_alpha_ascii) (LazyStar is_label_char)))),
      Chr CHR ''_'', Group ''uniqueid'' (Rep 9 12 is_digit),
      Chr CHR ''.'', Group ''ext'' (Rep 1 8 is_alnum_ascii), Eos]"

definition UUID_ONLY :: re where
  "UUID_ONLY = seqs [Bos, UUID, Chr CHR ''.'', Group ''ext'' (Rep 1 8 is_alnum_ascii), Eos]"

definition ANY_UNIQUEID :: re where
  "ANY_UNIQUEID = seqs
     [NotBehind is_digit, Group ''uniqueid'' (Seq (Chr CHR ''1'') (Rep 9 9 is_digit)),
      NotAhead is_digit]"

definition ANY_DATETIME :: re where
  "ANY_DATETIME = seqs
     [NotBehind is_digit, Group ''date'' (Rep 8 8 is_digit), Chr CHR ''-'',
      Group ''time'' (Rep 6 6 is_digit), NotAhead is_digit]"

definition ANY_NUMBER :: re where
  "ANY_NUMBER = seqs
     [NotBehind is_digit, Group ''number'' (Rep 6 20 is_digit), NotAhead is_digit]"

definition PREFIX :: re where
  "PREFIX = seqs
     [Alt Bos (Chr CHR ''/''), Group ''year'' (Rep 4 4 is_digit), Chr CHR ''/'',
      Group ''month'' (Rep 2 2 is_digit), Chr CHR ''/'',
      Group ''day'' (Rep 2 2 is_digit), Chr CHR ''/'',
      Opt (Seq (Group ''hour'' (Rep 2 2 is_digit)) (Chr CHR ''/''))]"

definition AUDIO_EXTENSIONS :: "string list" where
  "AUDIO_EXTENSIONS = [''flac'', ''mp3'', ''wav'', ''ogg'', ''opus'', ''m4a'']"

definition SIDECAR_EXTENSIONS :: "string list" where
  "SIDECAR_EXTENSIONS = [''json'', ''txt'', ''xml'']"

lemmas pattern_defs = NUMBER_def FULL_def NO_EXTENSION_def UNIQUEID_FIRST_def UUID_def
  UUID_WITH_EPOCH_def UUID_ONLY_def ANY_UNIQUEID_def ANY_DATETIME_def ANY_NUMBER_def PREFIX_def

section \<open>The parsed key\<close>

record parsed_key =
  pk_key :: string
  pk_basename :: string
  pk_parsed_ok :: bool
  pk_direction :: "string option"
  pk_number :: "string option"
  pk_extension :: "string option"
  pk_started_at :: "dt option"
  pk_uniqueid :: "int option"
  pk_seq :: int
  pk_file_ext :: "string option"
  pk_call_uuid :: "string option"
  pk_prefix_hour :: "dt option"
  pk_is_audio :: bool
  pk_is_sidecar :: bool
  pk_confidence_inputs :: "string set"

definition new_parsed_key :: "string \<Rightarrow> string \<Rightarrow> dt option \<Rightarrow> parsed_key" where
  "new_parsed_key key basename prefix_hour =
     \<lparr>pk_key = key, pk_basename = basename, pk_parsed_ok = False, pk_direction = None,
      pk_number = None, pk_extension = None, pk_started_at = None, pk_uniqueid = None,
      pk_seq = 0, pk_file_ext = None, pk_call_uuid = None, pk_prefix_hour = prefix_hour,
      pk_is_audio = False, pk_is_sidecar = False, pk_confidence_inputs = {}\<rparr>"

text \<open>The channel-creation time; \<open>fromtimestamp\<close> raises past the year 9999.\<close>

definition uniqueid_time :: "parsed_key \<Rightarrow> py_exc + dt option" where
  "uniqueid_time p =
     (case pk_uniqueid p of
        None \<Rightarrow> Inr None
      | Some u \<Rightarrow> (case from_timestamp u of Inl e \<Rightarrow> Inl e | Inr t \<Rightarrow> Inr (Some t)))"

definition call_group_key :: "parsed_key \<Rightarrow> string option" where
  "call_group_key p = map_option show_int (pk_uniqueid p)"

section \<open>Helpers\<close>

text \<open>\<open>strptime\<close> of the fourteen digits accepts second 60 and 61, which \<open>datetime\<close> then refuses.\<close>

definition to_datetime :: "string \<Rightarrow> string \<Rightarrow> dt option" where
  "to_datetime date time =
     (let y = py_int (take 4 date); m = py_int (take 2 (drop 4 date)); d = py_int (drop 6 date);
          h = py_int (take 2 time); mi = py_int (take 2 (drop 2 time)); s = py_int (drop 4 time)
      in mk_datetime y m d h mi s)"

definition group_int :: "groups \<Rightarrow> string \<Rightarrow> int" where
  "group_int g n = (case group g n of None \<Rightarrow> 0 | Some s \<Rightarrow> py_int s)"

definition group_str :: "groups \<Rightarrow> string \<Rightarrow> string" where
  "group_str g n = (case group g n of None \<Rightarrow> [] | Some s \<Rightarrow> s)"

definition prefix_time :: "string \<Rightarrow> dt option" where
  "prefix_time key =
     (case re_search PREFIX key of
        None \<Rightarrow> None
      | Some g \<Rightarrow>
          mk_datetime (group_int g ''year'') (group_int g ''month'') (group_int g ''day'')
            (group_int g ''hour'') 0 0)"

definition normalise_number :: "string \<Rightarrow> string" where
  "normalise_number raw = lstrip_chars (\<lambda>c. c = CHR ''+'') raw"

definition alias_or_self :: "string \<Rightarrow> string" where
  "alias_or_self d = (case map_of DIRECTION_ALIASES d of None \<Rightarrow> d | Some a \<Rightarrow> a)"

definition add_input :: "string \<Rightarrow> parsed_key \<Rightarrow> parsed_key" where
  "add_input i p = p\<lparr>pk_confidence_inputs := insert i (pk_confidence_inputs p)\<rparr>"

section \<open>\<open>parse_key\<close>\<close>

text \<open>The first of the three structured patterns that matches.\<close>

fun first_match :: "re list \<Rightarrow> string \<Rightarrow> groups option" where
  "first_match [] s = None"
| "first_match (r # rs) s = (case re_match r s of Some g \<Rightarrow> Some g | None \<Rightarrow> first_match rs s)"

definition fill_structured :: "groups \<Rightarrow> parsed_key \<Rightarrow> parsed_key" where
  "fill_structured g p =
     (let p1 = p\<lparr>pk_parsed_ok := True,
                 pk_direction := Some (alias_or_self (py_lower (group_str g ''direction''))),
                 pk_number := Some (normalise_number (group_str g ''number'')),
                 pk_extension := group g ''extension'',
                 pk_started_at := to_datetime (group_str g ''date'') (group_str g ''time''),
                 pk_uniqueid := Some (group_int g ''uniqueid''),
                 pk_seq := group_int g ''seq'',
                 pk_file_ext := Some (py_lower (group_str g ''ext'')),
                 pk_confidence_inputs :=
                   pk_confidence_inputs p \<union> {''direction'', ''number'', ''uniqueid''}\<rparr>;
          p2 = (case pk_extension p1 of
                  Some (_ # _) \<Rightarrow> add_input ''extension'' p1 | _ \<Rightarrow> p1)
      in (if pk_started_at p2 \<noteq> None then add_input ''started_at'' p2 else p2))"

definition fill_uuid :: "groups \<Rightarrow> parsed_key \<Rightarrow> py_exc + parsed_key" where
  "fill_uuid g p =
     (let p1 = add_input ''call_uuid''
                 (p\<lparr>pk_parsed_ok := True,
                    pk_call_uuid := Some (py_lower (group_str g ''uuid'')),
                    pk_file_ext := Some (py_lower (group_str g ''ext''))\<rparr>);
          p2 = (case group g ''uniqueid'' of
                  Some raw \<Rightarrow> add_input ''uniqueid'' (p1\<lparr>pk_uniqueid := Some (py_int raw)\<rparr>)
                | None \<Rightarrow> p1);
          p3 = (case group g ''label'' of
                  Some l \<Rightarrow> p2\<lparr>pk_extension := Some (py_lower l)\<rparr> | None \<Rightarrow> p2)
      in case uniqueid_time p3 of
           Inl e \<Rightarrow> Inl e
         | Inr t \<Rightarrow>
             (let p4 = p3\<lparr>pk_started_at := (case t of Some x \<Rightarrow> Some x | None \<Rightarrow> pk_prefix_hour p3)\<rparr>
              in Inr (if pk_started_at p4 \<noteq> None
                      then add_input
                             (case pk_uniqueid p4 of
                                Some u \<Rightarrow> if u \<noteq> 0 then ''uniqueid'' else ''prefix_hour''
                              | None \<Rightarrow> ''prefix_hour'') p4
                      else p4)))"

definition fill_salvage :: "string \<Rightarrow> parsed_key \<Rightarrow> parsed_key" where
  "fill_salvage basename p =
     (let (stem, ext) = rpartition CHR ''.'' basename;
          text = (if stem \<noteq> [] then stem else basename);
          p1 = (if ext \<noteq> [] then p\<lparr>pk_file_ext := Some (py_lower ext)\<rparr> else p);
          head = py_lower (before_first CHR ''-'' basename);
          p2 = (case map_of DIRECTION_ALIASES head of
                  Some a \<Rightarrow> add_input ''direction'' (p1\<lparr>pk_direction := Some a\<rparr>)
                | None \<Rightarrow> p1);
          p3 = (case re_search ANY_UNIQUEID text of
                  Some g \<Rightarrow> add_input ''uniqueid''
                    (p2\<lparr>pk_uniqueid := Some (group_int g ''uniqueid'')\<rparr>)
                | None \<Rightarrow> p2);
          p4 = (case re_search ANY_DATETIME text of
                  Some g \<Rightarrow>
                    (let q = p3\<lparr>pk_started_at :=
                               to_datetime (group_str g ''date'') (group_str g ''time'')\<rparr>
                     in if pk_started_at q \<noteq> None then add_input ''started_at'' q else q)
                | None \<Rightarrow> p3)
      in case re_search ANY_NUMBER text of
           Some g \<Rightarrow> add_input ''number''
             (p4\<lparr>pk_number := Some (normalise_number (group_str g ''number''))\<rparr>)
         | None \<Rightarrow> p4)"

definition flag_extension :: "parsed_key \<Rightarrow> parsed_key" where
  "flag_extension p =
     (case pk_file_ext p of
        Some (c # e) \<Rightarrow>
          p\<lparr>pk_is_audio := (c # e) \<in> set AUDIO_EXTENSIONS,
            pk_is_sidecar := (c # e) \<in> set SIDECAR_EXTENSIONS\<rparr>
      | _ \<Rightarrow> p)"

definition parse_key :: "string \<Rightarrow> py_exc + parsed_key" where
  "parse_key key =
     (let basename = after_last CHR ''/'' key;
          p = new_parsed_key key basename (prefix_time key);
          p0 = (if pk_prefix_hour p \<noteq> None then add_input ''prefix_hour'' p else p)
      in case first_match [FULL, NO_EXTENSION, UNIQUEID_FIRST] basename of
           Some g \<Rightarrow> Inr (flag_extension (fill_structured g p0))
         | None \<Rightarrow>
             (case first_match [UUID_WITH_EPOCH, UUID_ONLY] basename of
                Some g \<Rightarrow>
                  (case fill_uuid g p0 of
                     Inl e \<Rightarrow> Inl e | Inr q \<Rightarrow> Inr (flag_extension q))
              | None \<Rightarrow> Inr (flag_extension (fill_salvage basename p0))))"

section \<open>Day prefixes\<close>

definition DEFAULT_KEY_ROOT :: string where
  "DEFAULT_KEY_ROOT = ''recordings/''"

definition day_prefix :: "dt \<Rightarrow> string \<Rightarrow> string" where
  "day_prefix moment kroot =
     (let (y, m, d) = date_of moment
      in kroot @ zpad 4 (nat y) @ ''/'' @ zpad 2 (nat m) @ ''/'' @ zpad 2 (nat d) @ ''/'')"

text \<open>The cursor's days from \<open>cursor\<close> to \<open>final\<close>, a day at a time.\<close>

function day_cursor :: "dt \<Rightarrow> dt \<Rightarrow> dt list" where
  "day_cursor cursor final = (if cursor \<le> final then cursor # day_cursor (cursor + day) final else [])"
  by pat_completeness auto
termination
  by (relation "measure (\<lambda>(cursor, final). nat (final + 1 - cursor))")
    (auto simp: time_units)

declare day_cursor.simps [simp del]

definition iter_day_prefixes :: "dt \<Rightarrow> dt \<Rightarrow> string \<Rightarrow> string list" where
  "iter_day_prefixes start end kroot =
     map (\<lambda>d. day_prefix d kroot) (day_cursor (floor_day start) (floor_day end))"

section \<open>Rendering: the layouts the keys are written in\<close>

text \<open>The date and time fields of an instant, as a key spells them.\<close>

definition date_digits :: "dt \<Rightarrow> string" where
  "date_digits t = (let (y, m, d) = date_of t in zpad 4 (nat y) @ zpad 2 (nat m) @ zpad 2 (nat d))"

definition time_digits :: "dt \<Rightarrow> string" where
  "time_digits t =
     (let u = t mod day in
      zpad 2 (nat (u div hour)) @ zpad 2 (nat (u mod hour div minute)) @
      zpad 2 (nat (u mod minute div second)))"

text \<open>\<open>{direction}-{number}-{extension}-{date}-{time}-{uniqueid}.{seq}.{ext}\<close>\<close>

definition documented_name ::
    "string \<Rightarrow> string \<Rightarrow> string \<Rightarrow> dt \<Rightarrow> nat \<Rightarrow> nat \<Rightarrow> string \<Rightarrow> string" where
  "documented_name dir num extn t uid seq fe =
     dir @ ''-'' @ num @ ''-'' @ extn @ ''-'' @ date_digits t @ ''-'' @ time_digits t @ ''-'' @
     show_nat uid @ ''.'' @ show_nat seq @ ''.'' @ fe"

text \<open>\<open>{uniqueid}.{seq}-{direction}-{number}-{extension}-{date}-{time}.{ext}\<close>\<close>

definition uniqueid_first_name ::
    "string \<Rightarrow> string \<Rightarrow> string \<Rightarrow> dt \<Rightarrow> nat \<Rightarrow> nat \<Rightarrow> string \<Rightarrow> string" where
  "uniqueid_first_name dir num extn t uid seq fe =
     show_nat uid @ ''.'' @ show_nat seq @ ''-'' @ dir @ ''-'' @ num @ ''-'' @ extn @ ''-'' @
     date_digits t @ ''-'' @ time_digits t @ ''.'' @ fe"

text \<open>The fields a name of either layout can carry.\<close>

definition name_fields_ok :: "string \<Rightarrow> string \<Rightarrow> string \<Rightarrow> dt \<Rightarrow> nat \<Rightarrow> string \<Rightarrow> bool" where
  "name_fields_ok dir num extn t uid fe \<longleftrightarrow>
     dir \<noteq> [] \<and> (\<forall>c \<in> set dir. is_lower c) \<and>
     num \<noteq> [] \<and> length num \<le> 20 \<and> (\<forall>c \<in> set num. is_digit c) \<and>
     extn \<noteq> [] \<and> length extn \<le> 32 \<and> (\<forall>c \<in> set extn. is_ext_char c) \<and>
     valid_dt t \<and> second dvd t \<and> 10 ^ 8 \<le> uid \<and> uid < 10 ^ 12 \<and>
     fe \<noteq> [] \<and> length fe \<le> 8 \<and> (\<forall>c \<in> set fe. is_alnum_ascii c)"

lemma length_date_digits:
  assumes "valid_dt t"
  shows "length (date_digits t) = 8"
proof -
  obtain y m d where ymd: "date_of t = (y, m, d)" by (cases "date_of t") auto
  from date_of_valid(1) [OF assms ymd] have v: "valid_date y m d" .
  then have "days_in_month y m \<le> 31" using days_in_month_bounds by (simp add: valid_date_def)
  with v show ?thesis
    by (simp add: date_digits_def ymd length_zpad_int valid_date_def)
qed

lemma time_fields_range:
  "0 \<le> t mod day div hour" "t mod day div hour \<le> 23"
  "0 \<le> t mod day mod hour div minute" "t mod day mod hour div minute \<le> 59"
  "0 \<le> t mod day mod minute div second" "t mod day mod minute div second \<le> 59"
  by (simp_all add: time_units pos_imp_zdiv_nonneg_iff)

lemma length_time_digits [simp]: "length (time_digits t) = 6"
proof -
  show ?thesis
    using time_fields_range [of t] by (simp add: time_digits_def Let_def length_zpad_int)
qed

lemma date_digits_digits: "c \<in> set (date_digits t) \<Longrightarrow> is_digit c"
  by (auto simp: date_digits_def dest: zpad_digits split: prod.splits)

lemma time_digits_digits: "c \<in> set (time_digits t) \<Longrightarrow> is_digit c"
  by (auto simp: time_digits_def Let_def dest: zpad_digits)

lemma time_of_day_split:
  assumes "second dvd t"
  shows "t div day * day + t mod day div hour * hour + t mod day mod hour div minute * minute
    + t mod day mod minute div second * second = t"
proof -
  let ?u = "t mod day"
  have "?u mod hour mod minute = ?u mod minute"
    by (rule mod_mod_cancel) (simp add: time_units)
  moreover have "?u mod minute mod second = 0"
  proof -
    have "?u mod minute mod second = t mod second"
      by (simp add: mod_mod_cancel time_units)
    with assms show ?thesis by simp
  qed
  ultimately show ?thesis
    using div_mult_mod_eq [of t day] div_mult_mod_eq [of ?u hour]
      div_mult_mod_eq [of "?u mod hour" minute] div_mult_mod_eq [of "?u mod minute" second]
    by linarith
qed

lemma to_datetime_zpad:
  assumes "length (zpad 4 (nat y)) = 4" "length (zpad 2 (nat m)) = 2" "length (zpad 2 (nat d)) = 2"
    "length (zpad 2 (nat h)) = 2" "length (zpad 2 (nat mi)) = 2"
    and "0 \<le> y" "0 \<le> m" "0 \<le> d" "0 \<le> h" "0 \<le> mi" "0 \<le> s"
  shows "to_datetime (zpad 4 (nat y) @ zpad 2 (nat m) @ zpad 2 (nat d))
      (zpad 2 (nat h) @ zpad 2 (nat mi) @ zpad 2 (nat s)) = mk_datetime y m d h mi s"
  using assms by (simp add: to_datetime_def)

text \<open>Reading the two fields back gives the instant.\<close>

lemma to_datetime_digits:
  assumes "valid_dt t" "second dvd t"
  shows "to_datetime (date_digits t) (time_digits t) = Some t"
proof -
  obtain y m d where ymd: "date_of t = (y, m, d)" by (cases "date_of t") auto
  from date_of_valid [OF assms(1) ymd] have v: "valid_date y m d" and mid: "midnight y m d = floor_day t"
    by auto
  have "days_in_month y m \<le> 31" using v days_in_month_bounds by (simp add: valid_date_def)
  with v have len: "length (zpad 4 (nat y)) = 4" "length (zpad 2 (nat m)) = 2" "length (zpad 2 (nat d)) = 2"
    by (simp_all add: length_zpad_int valid_date_def)
  have len': "length (zpad 2 (nat (t mod day div hour))) = 2"
    "length (zpad 2 (nat (t mod day mod hour div minute))) = 2"
    using time_fields_range [of t] by (simp_all add: length_zpad_int)
  have nonneg: "0 \<le> y" "0 \<le> m" "0 \<le> d" using v by (simp_all add: valid_date_def)
  have "to_datetime (date_digits t) (time_digits t) =
      mk_datetime y m d (t mod day div hour) (t mod day mod hour div minute)
        (t mod day mod minute div second)"
    unfolding date_digits_def time_digits_def ymd Let_def prod.case
    by (rule to_datetime_zpad [OF len len' nonneg time_fields_range(1,3,5)])
  also have "\<dots> = Some (midnight y m d + t mod day div hour * hour
      + t mod day mod hour div minute * minute + t mod day mod minute div second * second)"
    unfolding mk_datetime_def using v time_fields_range [of t] by (simp only: if_True simp_thms)
  finally show ?thesis
    using time_of_day_split [OF assms(2)] mid by (simp add: floor_day_def)
qed

section \<open>The folder a key sits in\<close>

lemma zpad_no_sep: "\<not> is_digit c \<Longrightarrow> c \<notin> set (zpad w n)"
  by (auto dest: zpad_digits)

lemma is_digit_consts [simp]:
  "\<not> is_digit CHR ''/''" "\<not> is_digit CHR ''-''" "\<not> is_digit CHR ''.''" "\<not> is_digit CHR ''_''"
  "\<not> is_digit CHR ''+''"
  by (simp_all add: is_digit_def)

lemma rmatch_PREFIX_step:
  assumes "pre \<noteq> []" "c \<noteq> CHR ''/''"
  shows "rmatch PREFIX pre (c # s) g k = None"
  using assms by (simp add: PREFIX_def)

lemma re_search_PREFIX_skip:
  assumes "pre \<noteq> []" "CHR ''/'' \<notin> set xs"
  shows "re_search_from PREFIX pre (xs @ CHR ''/'' # s)
    = re_search_from PREFIX (rev xs @ pre) (CHR ''/'' # s)"
  using assms by (induction xs arbitrary: pre) (auto simp: rmatch_PREFIX_step)

definition dated_folder :: "string \<Rightarrow> string \<Rightarrow> string \<Rightarrow> string \<Rightarrow> bool" where
  "dated_folder Y M D base \<longleftrightarrow>
     length Y = 4 \<and> length M = 2 \<and> length D = 2 \<and> (\<forall>c \<in> set Y \<union> set M \<union> set D. is_digit c)
     \<and> CHR ''/'' \<notin> set base"

lemma dated_folder_no_sep:
  assumes "dated_folder Y M D base"
  shows "CHR ''/'' \<notin> set Y" "CHR ''/'' \<notin> set M" "CHR ''/'' \<notin> set D"
  using assms unfolding dated_folder_def by (metis UnI1 UnI2 is_digit_consts(1))+

lemma rmatch_PREFIX_here:
  assumes "dated_folder Y M D base"
  shows "rmatch PREFIX pre (CHR ''/'' # Y @ CHR ''/'' # M @ CHR ''/'' # D @ CHR ''/'' # base) []
      (\<lambda>_ _ g. Some g) = Some [(''day'', D), (''month'', M), (''year'', Y)]"
proof -
  have none: "rmatch (Group ''year'' (Rep 4 4 is_digit)) pre'
      (CHR ''/'' # t) g (\<lambda>pre' s' g'. rmatch (Chr CHR ''/'') pre' s' g' k) = None" for pre' t g k
    using rmatch_field_sep [of "CHR ''/''" "[]" is_digit "''year''" 4 4 pre' t g k]
    by (simp del: rmatch.simps(9))
  show ?thesis
    using assms dated_folder_no_sep [OF assms]
    by (simp add: PREFIX_def none field_simps rmatch_field_no_sep dated_folder_def
        del: rmatch.simps(9))
qed

lemma re_search_PREFIX:
  assumes "dated_folder Y M D base" "CHR ''/'' \<notin> set seg"
  shows "re_search PREFIX (seg @ CHR ''/'' # Y @ CHR ''/'' # M @ CHR ''/'' # D @ CHR ''/'' # base)
    = Some [(''day'', D), (''month'', M), (''year'', Y)]"
proof (cases seg)
  case Nil
  then show ?thesis by (simp add: re_search_def rmatch_PREFIX_here [OF assms(1)])
next
  case (Cons x xs)
  let ?rest = "Y @ CHR ''/'' # M @ CHR ''/'' # D @ CHR ''/'' # base"
  have chr: "rmatch (Chr CHR ''/'') [] (seg @ t) g k = None" for t g and k :: "_ \<Rightarrow> _ \<Rightarrow> _ \<Rightarrow> groups option"
    using Cons assms(2) by auto
  have "rmatch PREFIX [] (seg @ CHR ''/'' # ?rest) [] (\<lambda>_ _ g. Some g) = None"
    using assms dated_folder_no_sep [OF assms(1)]
    by (simp add: PREFIX_def field_simps dated_folder_def chr del: rmatch.simps(9))
  with Cons assms(2) show ?thesis
    by (simp add: re_search_def re_search_PREFIX_skip rmatch_PREFIX_here [OF assms(1)])
qed

lemma prefix_time_day_prefix:
  assumes "valid_dt t" "CHR ''/'' \<notin> set seg" "CHR ''/'' \<notin> set base"
  shows "prefix_time (day_prefix t (seg @ ''/'') @ base) = Some (floor_day t)"
proof -
  obtain y m d where ymd: "date_of t = (y, m, d)" by (cases "date_of t") auto
  from date_of_valid [OF assms(1) ymd] have v: "valid_date y m d" and mid: "midnight y m d = floor_day t"
    by auto
  have "days_in_month y m \<le> 31" using v days_in_month_bounds by (simp add: valid_date_def)
  with v assms(3) have "dated_folder (zpad 4 (nat y)) (zpad 2 (nat m)) (zpad 2 (nat d)) base"
    by (auto simp: dated_folder_def length_zpad_int valid_date_def dest: zpad_digits)
  from re_search_PREFIX [OF this assms(2)] v mid show ?thesis
    by (simp add: prefix_time_def day_prefix_def ymd group_int_def group_def mk_datetime_def
        valid_date_def)
qed

section \<open>Round trips\<close>

lemma show_nat_no_sep: "\<not> is_digit c \<Longrightarrow> c \<notin> set (show_nat n)"
  by (auto dest: show_nat_digits)

lemma length_show_nat_ge: "10 ^ w \<le> n \<Longrightarrow> w < length (show_nat n)"
proof (induction w arbitrary: n)
  case 0
  then show ?case by simp
next
  case (Suc w)
  then have "10 ^ w \<le> n div 10" by (simp add: less_eq_div_iff_mult_less_eq mult.commute)
  moreover have "\<not> n < 10" using Suc.prems by (metis le_trans not_less one_le_numeral
        one_le_power power_Suc mult_le_mono2 mult.right_neutral)
  ultimately show ?case using Suc.IH by (simp add: show_nat.simps [of n])
qed

lemma sep_classes [simp]:
  "\<not> is_lower CHR ''-''" "\<not> is_lower CHR ''/''" "\<not> is_lower CHR ''.''"
  "\<not> is_ext_char CHR ''-''" "\<not> is_ext_char CHR ''/''"
  "\<not> is_alnum_ascii CHR ''/''" "\<not> is_alnum_ascii CHR ''.''" "\<not> is_alnum_ascii CHR ''-''"
  by (simp_all add: is_ext_char_def char_classes)

lemma all_class_no_sep: "\<forall>c \<in> set s. p c \<Longrightarrow> \<not> p c \<Longrightarrow> c \<notin> set s"
  by auto

lemma fields_no_sep:
  assumes "name_fields_ok dir num extn t uid fe"
  shows "CHR ''-'' \<notin> set dir" "CHR ''-'' \<notin> set num" "CHR ''-'' \<notin> set extn"
    "CHR ''/'' \<notin> set dir" "CHR ''/'' \<notin> set num" "CHR ''/'' \<notin> set extn" "CHR ''/'' \<notin> set fe"
    "CHR ''-'' \<notin> set (date_digits t)" "CHR ''-'' \<notin> set (time_digits t)"
    "CHR ''/'' \<notin> set (date_digits t)" "CHR ''/'' \<notin> set (time_digits t)"
    "CHR ''.'' \<notin> set (time_digits t)"
    "CHR ''.'' \<notin> set (show_nat n)" "CHR ''-'' \<notin> set (show_nat n)" "CHR ''/'' \<notin> set (show_nat n)"
  using assms unfolding name_fields_ok_def
  by (auto dest: date_digits_digits time_digits_digits show_nat_digits)

lemma field_lengths:
  assumes "name_fields_ok dir num extn t uid fe"
  shows "9 \<le> length (show_nat uid)" "length (show_nat uid) \<le> 12"
    "length (date_digits t) = 8" "length (time_digits t) = 6"
    "Suc 0 \<le> length num" "length num \<le> 20" "Suc 0 \<le> length extn" "length extn \<le> 32"
    "Suc 0 \<le> length fe" "length fe \<le> 8"
  using assms length_show_nat [of uid 12] length_show_nat_ge [of 8 uid] length_date_digits [of t]
  by (auto simp: name_fields_ok_def Suc_le_eq)

lemma rmatch_NUMBER:
  assumes "num \<noteq> []" "length num \<le> 20" "\<forall>c \<in> set num. is_digit c"
  shows "rmatch NUMBER pre (num @ CHR ''-'' # t) g (\<lambda>pre' s' g'. rmatch (Chr CHR ''-'') pre' s' g' k)
    = k (CHR ''-'' # rev num @ pre) t ((''number'', num) # g)"
proof -
  have plus: "rmatch (Chr CHR ''+'') pre (num @ s) g k' = None" for s g and k' :: "_ \<Rightarrow> _ \<Rightarrow> _ \<Rightarrow> 'a option"
    using assms by (cases num) auto
  have "CHR ''-'' \<notin> set num" using assms(3) by auto
  with assms show ?thesis
    by (simp add: NUMBER_def plus rep_greedy_sep rmatch_Chr_None Suc_le_eq)
qed

lemma group_simps [simp]:
  "group [] n = None"
  "group ((m, v) # g) n = (if n = m then Some v else group g n)"
  by (simp_all add: group_def)

lemma digits_all [simp]:
  "\<forall>c \<in> set (date_digits t). is_digit c" "\<forall>c \<in> set (time_digits t). is_digit c"
  "\<forall>c \<in> set (show_nat n). is_digit c"
  by (auto dest: date_digits_digits time_digits_digits show_nat_digits)

lemma rmatch_ext_end:
  assumes "fe \<noteq> []" "length fe \<le> 8" "\<forall>c \<in> set fe. is_alnum_ascii c"
  shows "rmatch (Group ''ext'' (Rep (Suc 0) 8 is_alnum_ascii)) pre fe g
    (\<lambda>pre' s' g'. rmatch Eos pre' s' g' (\<lambda>_ _ g. Some g)) = Some ((''ext'', fe) # g)"
  using assms by (intro rmatch_field_end) (auto simp: Suc_le_eq)

text \<open>The channel id, its part number and the file extension, at the end of a name.\<close>

lemma rmatch_uid_tail:
  assumes "name_fields_ok dir num extn t uid fe" "seq < 10000"
  shows "rmatch (Group ''uniqueid'' (Rep 9 12 is_digit)) pre
      (show_nat uid @ CHR ''.'' # show_nat seq @ CHR ''.'' # fe) g
      (\<lambda>pre' s' g'. rmatch (Opt (Seq (Chr CHR ''.'') (Group ''seq'' (Rep (Suc 0) 4 is_digit)))) pre' s' g'
        (\<lambda>pre' s' g'. rmatch (Chr CHR ''.'') pre' s' g'
          (\<lambda>pre' s' g'. rmatch (Group ''ext'' (Rep (Suc 0) 8 is_alnum_ascii)) pre' s' g'
            (\<lambda>pre' s' g'. rmatch Eos pre' s' g' (\<lambda>_ _ g. Some g)))))
    = Some ((''ext'', fe) # (''seq'', show_nat seq) # (''uniqueid'', show_nat uid) # g)"
proof (rule rmatch_group_run)
  have seq: "length (show_nat seq) \<le> 4" "Suc 0 \<le> length (show_nat seq)"
    using assms(2) length_show_nat [of seq 4] by (simp_all add: Suc_le_eq)
  show "rmatch (Opt (Seq (Chr CHR ''.'') (Group ''seq'' (Rep (Suc 0) 4 is_digit))))
      (rev (show_nat uid) @ pre) (CHR ''.'' # show_nat seq @ CHR ''.'' # fe)
      ((''uniqueid'', show_nat uid) # g)
      (\<lambda>pre' s' g'. rmatch (Chr CHR ''.'') pre' s' g'
          (\<lambda>pre' s' g'. rmatch (Group ''ext'' (Rep (Suc 0) 8 is_alnum_ascii)) pre' s' g'
            (\<lambda>pre' s' g'. rmatch Eos pre' s' g' (\<lambda>_ _ g. Some g))))
    = Some ((''ext'', fe) # (''seq'', show_nat seq) # (''uniqueid'', show_nat uid) # g)"
    using assms(1) [unfolded name_fields_ok_def] seq show_nat_no_sep [of "CHR ''.''" seq]
    by (simp add: rmatch_field_sep rmatch_ext_end del: rmatch.simps(3,9,13))
qed (use field_lengths [OF assms(1)] in auto)

lemma FULL_match:
  assumes "name_fields_ok dir num extn t uid fe" "seq < 10000"
  shows "re_match FULL (documented_name dir num extn t uid seq fe) =
    Some [(''ext'', fe), (''seq'', show_nat seq), (''uniqueid'', show_nat uid),
          (''time'', time_digits t), (''date'', date_digits t), (''extension'', extn),
          (''number'', num), (''direction'', dir)]"
  using assms(1) [unfolded name_fields_ok_def] fields_no_sep [OF assms(1)] field_lengths [OF assms(1)]
  by (simp add: re_match_def FULL_def documented_name_def field_simps rmatch_NUMBER
      rmatch_uid_tail [OF assms]
      del: rmatch.simps(3,4,9,13) rmatch_Opt)

lemma basename_day_prefix:
  assumes "CHR ''/'' \<notin> set base"
  shows "after_last CHR ''/'' (day_prefix t kroot @ base) = base"
proof -
  obtain y m d where "date_of t = (y, m, d)" by (cases "date_of t") auto
  then have "day_prefix t kroot @ base
    = ((kroot @ zpad 4 (nat y) @ ''/'' @ zpad 2 (nat m) @ ''/'' @ zpad 2 (nat d)) @ ''/'') @ base"
    by (simp add: day_prefix_def)
  then show ?thesis by (simp only: after_last_snoc [OF assms])
qed

lemma uniqueid_first_seq:
  assumes "seq < 100000000"
  shows "length (show_nat seq) \<le> 8" "Suc 0 \<le> length (show_nat seq)"
  using assms length_show_nat [of seq 8] by (simp_all add: Suc_le_eq)

lemma rmatch_plus_fail:
  "s = [] \<or> \<not> p (hd s) \<Longrightarrow> rmatch (Group n (Plus p)) pre s g k = None"
  by (simp add: rep_greedy_fail_first)

lemma digit_not_lower: "is_digit c \<Longrightarrow> \<not> is_lower c"
  by (simp add: char_classes)

lemma FULL_none_digit:
  assumes "s \<noteq> []" "is_digit (hd s)"
  shows "re_match FULL s = None" "re_match NO_EXTENSION s = None"
  using assms
  by (simp_all add: re_match_def FULL_def NO_EXTENSION_def rmatch_plus_fail digit_not_lower
      del: rmatch.simps(3,4,9,13) rmatch_Opt)

lemma UNIQUEID_FIRST_match:
  assumes "name_fields_ok dir num extn t uid fe" "seq < 100000000"
  shows "re_match UNIQUEID_FIRST (uniqueid_first_name dir num extn t uid seq fe) =
    Some [(''ext'', fe), (''time'', time_digits t), (''date'', date_digits t), (''extension'', extn),
          (''number'', num), (''direction'', dir), (''seq'', show_nat seq), (''uniqueid'', show_nat uid)]"
  unfolding re_match_def UNIQUEID_FIRST_def uniqueid_first_name_def seqs.simps rmatch.simps(7)
    rmatch.simps(12) append_Cons append_Nil if_P [OF refl]
proof (rule rmatch_group_run)
  let ?rest = "dir @ CHR ''-'' # num @ CHR ''-'' # extn @ CHR ''-'' # date_digits t @ CHR ''-'' #
    time_digits t @ CHR ''.'' # fe"
  show "rmatch (Opt (Seq (Chr CHR ''.'') (Group ''seq'' (Rep 1 8 is_digit)))) (rev (show_nat uid) @ [])
     (CHR ''.'' # show_nat seq @ CHR ''-'' # ?rest) [(''uniqueid'', show_nat uid)]
     (\<lambda>pre' s' g'. rmatch (Chr CHR ''-'') pre' s' g' (\<lambda>pre' s' g'.
       rmatch (Group ''direction'' (Plus is_lower)) pre' s' g' (\<lambda>pre' s' g'.
       rmatch (Chr CHR ''-'') pre' s' g' (\<lambda>pre' s' g'. rmatch NUMBER pre' s' g' (\<lambda>pre' s' g'.
       rmatch (Chr CHR ''-'') pre' s' g' (\<lambda>pre' s' g'.
       rmatch (Group ''extension'' (Rep 1 32 is_ext_char)) pre' s' g' (\<lambda>pre' s' g'.
       rmatch (Chr CHR ''-'') pre' s' g' (\<lambda>pre' s' g'.
       rmatch (Group ''date'' (Rep 8 8 is_digit)) pre' s' g' (\<lambda>pre' s' g'.
       rmatch (Chr CHR ''-'') pre' s' g' (\<lambda>pre' s' g'.
       rmatch (Group ''time'' (Rep 6 6 is_digit)) pre' s' g' (\<lambda>pre' s' g'.
       rmatch (Chr CHR ''.'') pre' s' g' (\<lambda>pre' s' g'.
       rmatch (Group ''ext'' (Rep 1 8 is_alnum_ascii)) pre' s' g' (\<lambda>pre' s' g'.
       rmatch Eos pre' s' g' (\<lambda>_ _ g. Some g))))))))))))))
   = Some [(''ext'', fe), (''time'', time_digits t), (''date'', date_digits t), (''extension'', extn),
          (''number'', num), (''direction'', dir), (''seq'', show_nat seq), (''uniqueid'', show_nat uid)]"
    using assms(1) [unfolded name_fields_ok_def] fields_no_sep [OF assms(1)]
      field_lengths [OF assms(1)] uniqueid_first_seq [OF assms(2)]
    by (simp add: field_simps rmatch_NUMBER rmatch_ext_end del: rmatch.simps(3,4,9,13))
qed (use field_lengths [OF assms(1)] in auto)

text \<open>Every field of a key in either layout.\<close>

definition structured_key :: "string \<Rightarrow> string \<Rightarrow> string \<Rightarrow> string \<Rightarrow> string \<Rightarrow> dt \<Rightarrow> nat \<Rightarrow> nat \<Rightarrow>
    string \<Rightarrow> dt option \<Rightarrow> parsed_key" where
  "structured_key key base dir num extn t uid seq fe folder =
     \<lparr>pk_key = key, pk_basename = base, pk_parsed_ok = True,
      pk_direction = Some (alias_or_self dir), pk_number = Some num, pk_extension = Some extn,
      pk_started_at = Some t, pk_uniqueid = Some (int uid), pk_seq = int seq,
      pk_file_ext = Some (py_lower fe), pk_call_uuid = None, pk_prefix_hour = folder,
      pk_is_audio = py_lower fe \<in> set AUDIO_EXTENSIONS,
      pk_is_sidecar = py_lower fe \<in> set SIDECAR_EXTENSIONS,
      pk_confidence_inputs = {''direction'', ''number'', ''uniqueid'', ''extension'', ''started_at''}
        \<union> (if folder \<noteq> None then {''prefix_hour''} else {})\<rparr>"

lemma first_match_hd: "re_match r s = Some g \<Longrightarrow> first_match (r # rs) s = Some g"
  by simp

lemma first_match_tl:
  "re_match r s = None \<Longrightarrow> first_match rs s = Some g \<Longrightarrow> first_match (r # rs) s = Some g"
  by simp

lemma structured_parse:
  assumes ok: "name_fields_ok dir num extn t uid fe"
    and g: "group g ''direction'' = Some dir" "group g ''number'' = Some num"
      "group g ''extension'' = Some extn" "group g ''date'' = Some (date_digits t)"
      "group g ''time'' = Some (time_digits t)" "group g ''uniqueid'' = Some (show_nat uid)"
      "group g ''seq'' = Some (show_nat seq)" "group g ''ext'' = Some fe"
    and match: "first_match [FULL, NO_EXTENSION, UNIQUEID_FIRST] base = Some g"
    and base: "after_last CHR ''/'' key = base"
  shows "parse_key key = Inr (structured_key key base dir num extn t uid seq fe (prefix_time key))"
proof -
  note f = ok [unfolded name_fields_ok_def]
  have dir: "py_lower dir = dir" using f by (intro py_lower_id) auto
  have num: "normalise_number num = num"
    using f by (cases num) (auto simp: normalise_number_def lstrip_chars_def)
  obtain c e where fe: "py_lower fe = c # e" using f by (cases fe) (auto simp: py_lower_def)
  obtain x xs where extn: "extn = x # xs" using f by (cases extn) auto
  have start: "to_datetime (date_digits t) (time_digits t) = Some t"
    using f by (intro to_datetime_digits) auto
  have "fill_structured g p = p\<lparr>pk_parsed_ok := True, pk_direction := Some (alias_or_self dir),
      pk_number := Some num, pk_extension := Some extn, pk_started_at := Some t,
      pk_uniqueid := Some (int uid), pk_seq := int seq, pk_file_ext := Some (py_lower fe),
      pk_confidence_inputs := {''started_at'', ''extension''} \<union> (pk_confidence_inputs p \<union>
        {''direction'', ''number'', ''uniqueid''})\<rparr>" for p
    by (simp add: fill_structured_def Let_def add_input_def group_str_def group_int_def g dir num
        start extn insert_commute)
  then show ?thesis
    unfolding parse_key_def Let_def base match
    by (auto simp: flag_extension_def fe structured_key_def new_parsed_key_def add_input_def)
qed


text \<open>The layout that puts the channel id first parses to exactly its fields too: the leading
channel id is never taken for the phone number, and part numbers of up to eight digits survive.\<close>

theorem parse_key_uniqueid_first:
  assumes "name_fields_ok dir num extn t uid fe" "seq < 100000000"
    and "valid_dt folder" "CHR ''/'' \<notin> set seg"
  shows "let base = uniqueid_first_name dir num extn t uid seq fe;
             key = day_prefix folder (seg @ ''/'') @ base
         in parse_key key =
              Inr (structured_key key base dir num extn t uid seq fe (Some (floor_day folder)))"
proof -
  let ?base = "uniqueid_first_name dir num extn t uid seq fe"
  let ?key = "day_prefix folder (seg @ ''/'') @ ?base"
  have base: "CHR ''/'' \<notin> set ?base"
    using fields_no_sep [OF assms(1)] by (simp add: uniqueid_first_name_def)
  have none: "re_match FULL ?base = None" "re_match NO_EXTENSION ?base = None"
    using FULL_none_digit [of ?base] digits_all(3) [of uid]
    by (cases "show_nat uid"; simp add: uniqueid_first_name_def)+
  from structured_parse [OF assms(1) _ _ _ _ _ _ _ _
      first_match_tl [OF none(1) first_match_tl [OF none(2) first_match_hd [OF
        UNIQUEID_FIRST_match [OF assms(1,2)]]]]
      basename_day_prefix [OF base, of folder "seg @ ''/''"]]
  show ?thesis by (simp add: Let_def prefix_time_day_prefix [OF assms(3,4) base])
qed

section \<open>The Dialer's uuid names\<close>

definition uuid_text :: "string \<Rightarrow> string \<Rightarrow> string \<Rightarrow> string \<Rightarrow> string \<Rightarrow> string" where
  "uuid_text a b c d e = a @ ''-'' @ b @ ''-'' @ c @ ''-'' @ d @ ''-'' @ e"

definition uuid_ok :: "string \<Rightarrow> string \<Rightarrow> string \<Rightarrow> string \<Rightarrow> string \<Rightarrow> bool" where
  "uuid_ok a b c d e \<longleftrightarrow>
     length a = 8 \<and> length b = 4 \<and> length c = 4 \<and> length d = 4 \<and> length e = 12 \<and>
     (\<forall>x \<in> set a. is_hex x) \<and> (\<forall>x \<in> set b. is_hex x) \<and> (\<forall>x \<in> set c. is_hex x) \<and>
     (\<forall>x \<in> set d. is_hex x) \<and> (\<forall>x \<in> set e. is_hex x)"

text \<open>\<open>{uuid}_{label}_{uniqueid}.{ext}\<close>, the label optional.\<close>

definition uuid_leg_name :: "string \<Rightarrow> string option \<Rightarrow> nat \<Rightarrow> string \<Rightarrow> string" where
  "uuid_leg_name u label uid fe =
     u @ (case label of None \<Rightarrow> [] | Some l \<Rightarrow> ''_'' @ l) @ ''_'' @ show_nat uid @ ''.'' @ fe"

definition leg_ok :: "string option \<Rightarrow> nat \<Rightarrow> string \<Rightarrow> bool" where
  "leg_ok label uid fe \<longleftrightarrow>
     (case label of None \<Rightarrow> True
      | Some l \<Rightarrow> l \<noteq> [] \<and> is_alpha_ascii (hd l) \<and> (\<forall>x \<in> set (tl l). is_label_char x)) \<and>
     10 ^ 8 \<le> uid \<and> uid < 10 ^ 12 \<and>
     fe \<noteq> [] \<and> length fe \<le> 8 \<and> (\<forall>x \<in> set fe. is_alnum_ascii x)"

lemma hex_consts [simp]:
  "\<not> is_hex CHR ''-''" "\<not> is_hex CHR ''/''" "\<not> is_hex CHR ''+''" "\<not> is_hex CHR ''_''" "\<not> is_hex CHR ''.''"
  "\<not> is_label_char CHR ''.''" "\<not> is_label_char CHR ''/''" "\<not> is_label_char CHR ''-''"
  "\<not> is_alpha_ascii CHR ''/''"
  by (simp_all add: is_hex_def is_label_char_def is_alpha_ascii_def char_classes)

lemma uuid_no_sep:
  assumes "uuid_ok a b c d e"
  shows "CHR ''-'' \<notin> set a" "CHR ''-'' \<notin> set b" "CHR ''-'' \<notin> set c" "CHR ''-'' \<notin> set d"
    "CHR ''-'' \<notin> set e" "CHR ''/'' \<notin> set (uuid_text a b c d e)" "CHR ''+'' \<notin> set b"
  using assms by (auto simp: uuid_ok_def uuid_text_def)

text \<open>None of the structured layouts takes a name led by a uuid.\<close>

lemma Chr_plus_none: "c \<notin> set xs \<Longrightarrow> xs \<noteq> [] \<Longrightarrow> rmatch (Chr c) pre (xs @ s) g k = None"
  by (cases xs) auto

lemma uuid_not_structured:
  assumes "uuid_ok a b c d e"
  shows "first_match [FULL, NO_EXTENSION, UNIQUEID_FIRST] (uuid_text a b c d e @ rest) = None"
proof -
  note u = assms [unfolded uuid_ok_def]
  have b: "rmatch (Chr CHR ''+'') pre (b @ s) g k = None" for pre s g and k :: "_ \<Rightarrow> _ \<Rightarrow> _ \<Rightarrow> groups option"
    using u uuid_no_sep [OF assms] by (intro Chr_plus_none) auto
  have number: "rmatch NUMBER pre (b @ CHR ''-'' # s) g (\<lambda>pre' s' g'. rmatch (Chr CHR ''-'') pre' s' g' k)
     = (if \<forall>x \<in> set b. is_digit x then k (CHR ''-'' # rev b @ pre) s ((''number'', b) # g) else None)"
    for pre s g and k :: "_ \<Rightarrow> _ \<Rightarrow> _ \<Rightarrow> groups option"
    using u uuid_no_sep [OF assms] by (simp add: NUMBER_def b rep_greedy_sep rmatch_Chr_None)
  have "length (takeWhile is_digit (a @ CHR ''-'' # s)) < 9" for s
    using u length_takeWhile_le [of is_digit a] by (auto simp: takeWhile_append)
  then have uid: "rmatch (Group n (Rep 9 12 is_digit)) pre (a @ CHR ''-'' # s) g k = None"
    for n pre s g and k :: "_ \<Rightarrow> _ \<Rightarrow> _ \<Rightarrow> groups option"
    by (simp add: rep_greedy_short)
  have "re_match FULL (uuid_text a b c d e @ rest) = None"
    using u uuid_no_sep [OF assms]
    by (simp add: re_match_def FULL_def uuid_text_def field_simps number
        del: rmatch.simps(3,4,9,13) rmatch_Opt)
  moreover have "re_match NO_EXTENSION (uuid_text a b c d e @ rest) = None"
    using u uuid_no_sep [OF assms]
    by (simp add: re_match_def NO_EXTENSION_def uuid_text_def field_simps number
        del: rmatch.simps(3,4,9,13) rmatch_Opt)
  moreover have "re_match UNIQUEID_FIRST (uuid_text a b c d e @ rest) = None"
    by (simp add: re_match_def UNIQUEID_FIRST_def uuid_text_def uid
        del: rmatch.simps(3,4,9,13) rmatch_Opt)
  ultimately show ?thesis by simp
qed

lemma rmatch_UUID:
  assumes "uuid_ok a b c d e"
  shows "rmatch UUID pre (uuid_text a b c d e @ s) g k
    = k (rev (uuid_text a b c d e) @ pre) s ((''uuid'', uuid_text a b c d e) # g)"
  using assms uuid_no_sep [OF assms]
  by (simp add: UUID_def uuid_text_def uuid_ok_def rep_greedy_exact)

lemma rmatch_leg_uid:
  assumes "leg_ok label uid fe"
  shows "rmatch (Group ''uniqueid'' (Rep 9 12 is_digit)) pre (show_nat uid @ CHR ''.'' # fe) g
      (\<lambda>pre' s' g'. rmatch (Chr CHR ''.'') pre' s' g'
        (\<lambda>pre' s' g'. rmatch (Group ''ext'' (Rep (Suc 0) 8 is_alnum_ascii)) pre' s' g'
          (\<lambda>pre' s' g'. rmatch Eos pre' s' g' (\<lambda>_ _ g. Some g))))
    = Some ((''ext'', fe) # (''uniqueid'', show_nat uid) # g)"
  using assms length_show_nat [of uid 12] length_show_nat_ge [of 8 uid] show_nat_no_sep [of "CHR ''.''" uid]
  by (simp add: leg_ok_def rmatch_field_sep rmatch_ext_end del: rmatch.simps(3,9,13))

text \<open>A label's own text never stands for the channel id: an underscore follows it.\<close>

lemma rmatch_leg_skip:
  assumes "\<forall>x \<in> set ys. is_label_char x" "ys \<noteq> []"
  shows "rmatch (Chr CHR ''_'') pre (ys @ CHR ''_'' # show_nat uid @ CHR ''.'' # fe) g
      (\<lambda>pre' s' g'. rmatch (Group ''uniqueid'' (Rep 9 12 is_digit)) pre' s' g'
        (\<lambda>pre' s' g'. rmatch (Chr CHR ''.'') pre' s' g' k)) = None"
proof (cases ys)
  case Nil
  with assms(2) show ?thesis by simp
next
  case (Cons y zs)
  let ?run = "zs @ CHR ''_'' # show_nat uid"
  have "CHR ''.'' \<notin> set ?run" using assms(1) Cons show_nat_no_sep [of "CHR ''.''" uid] by auto
  from rmatch_field_sep [OF this, of is_digit "''uniqueid''" 9 12 "y # pre" fe g k] Cons show ?thesis
    by (auto simp del: rmatch.simps(3,9))
qed

lemma UUID_WITH_EPOCH_match:
  assumes u: "uuid_ok a b c d e" and leg: "leg_ok label uid fe"
  shows "re_match UUID_WITH_EPOCH (uuid_leg_name (uuid_text a b c d e) label uid fe) =
    Some ([(''ext'', fe), (''uniqueid'', show_nat uid)]
      @ (case label of None \<Rightarrow> [] | Some l \<Rightarrow> [(''label'', l)]) @ [(''uuid'', uuid_text a b c d e)])"
proof (cases label)
  case None
  obtain x xs where x: "show_nat uid = x # xs" "is_digit x"
    using digits_all(3) [of uid] by (cases "show_nat uid") auto
  then have "\<not> is_alpha_ascii x" by (auto simp: is_alpha_ascii_def char_classes)
  then have "rmatch (Group ''label'' (Seq (Cls is_alpha_ascii) r)) pre (show_nat uid @ s) g k = None"
    for r pre s g and k :: "_ \<Rightarrow> _ \<Rightarrow> _ \<Rightarrow> groups option"
    using x by simp
  with None show ?thesis
    by (simp add: re_match_def UUID_WITH_EPOCH_def uuid_leg_name_def rmatch_UUID [OF u]
        rmatch_leg_uid [OF leg] del: rmatch.simps(2,3,9,13))
next
  case (Some l)
  obtain y ys where l: "l = y # ys" "is_alpha_ascii y" "\<forall>x \<in> set ys. is_label_char x"
    using leg Some by (cases l) (auto simp: leg_ok_def)
  let ?s = "CHR ''_'' # show_nat uid @ CHR ''.'' # fe"
  let ?U = "uuid_text a b c d e"
  let ?K = "\<lambda>pre' s' g'. rmatch (Chr CHR ''_'') pre' s' g'
      (\<lambda>pre' s' g'. rmatch (Group ''uniqueid'' (Rep 9 12 is_digit)) pre' s' g'
        (\<lambda>pre' s' g'. rmatch (Chr CHR ''.'') pre' s' g'
          (\<lambda>pre' s' g'. rmatch (Group ''ext'' (Rep (Suc 0) 8 is_alnum_ascii)) pre' s' g'
            (\<lambda>pre' s' g'. rmatch Eos pre' s' g' (\<lambda>_ _ g. Some g)))))"
  have lazy: "rep_lazy is_label_char pre (ys @ ?s)
      (\<lambda>pre' s'. ?K pre' s' ((''label'', take (Suc (length ys + length ?s) - length s') (y # ys @ ?s))
         # [(''uuid'', ?U)]))
    = Some [(''ext'', fe), (''uniqueid'', show_nat uid), (''label'', l), (''uuid'', ?U)]" for pre
  proof (rule rep_lazy_skip)
    show "\<forall>x \<in> set ys. is_label_char x" by (rule l(3))
  next
    fix pre' zs
    assume "zs \<noteq> []" "set zs \<subseteq> set ys"
    with l(3) show "?K pre' (zs @ ?s) ((''label'', take (Suc (length ys + length ?s)
        - length (zs @ ?s)) (y # ys @ ?s)) # [(''uuid'', ?U)]) = None"
      by (intro rmatch_leg_skip) auto
  qed (simp add: rmatch_leg_uid [OF leg] l(1) del: rmatch.simps(3,9,13))
  then show ?thesis
    using l Some
    by (simp add: re_match_def UUID_WITH_EPOCH_def uuid_leg_name_def rmatch_UUID [OF u]
        del: rmatch.simps(3,13))
qed

text \<open>What \<open>parse_key\<close> makes of a uuid name.\<close>

definition uuid_leg_key :: "string \<Rightarrow> string \<Rightarrow> string \<Rightarrow> string option \<Rightarrow> nat \<Rightarrow> string \<Rightarrow>
    dt option \<Rightarrow> parsed_key" where
  "uuid_leg_key key base u label uid fe folder =
     \<lparr>pk_key = key, pk_basename = base, pk_parsed_ok = True, pk_direction = None,
      pk_number = None, pk_extension = map_option py_lower label,
      pk_started_at = Some (int uid * second), pk_uniqueid = Some (int uid), pk_seq = 0,
      pk_file_ext = Some (py_lower fe), pk_call_uuid = Some (py_lower u), pk_prefix_hour = folder,
      pk_is_audio = py_lower fe \<in> set AUDIO_EXTENSIONS,
      pk_is_sidecar = py_lower fe \<in> set SIDECAR_EXTENSIONS,
      pk_confidence_inputs = {''call_uuid'', ''uniqueid''}
        \<union> (if folder \<noteq> None then {''prefix_hour''} else {})\<rparr>"

lemma from_timestamp_range:
  assumes "0 \<le> n"
  shows "from_timestamp n =
    (if n \<le> 253402300799 then Inr (n * second) else Inl (ValueError ''year is out of range''))"
proof -
  have "n * second div day = n div 86400"
    using div_mult_mult1 [of second n 86400] by (simp add: time_units mult.commute)
  then show ?thesis
    using assms by (auto simp: from_timestamp_def valid_dt_def ordinal_of_def epoch_ordinal_def)
qed

lemma fill_uuid_leg:
  "fill_uuid ([(''ext'', fe), (''uniqueid'', show_nat uid)]
      @ (case label of None \<Rightarrow> [] | Some l \<Rightarrow> [(''label'', l)]) @ [(''uuid'', u)]) p =
   (let q = p\<lparr>pk_parsed_ok := True, pk_call_uuid := Some (py_lower u),
              pk_file_ext := Some (py_lower fe), pk_uniqueid := Some (int uid),
              pk_extension := (case label of None \<Rightarrow> pk_extension p | Some l \<Rightarrow> Some (py_lower l)),
              pk_started_at := Some (int uid * second),
              pk_confidence_inputs := {(if uid \<noteq> 0 then ''uniqueid'' else ''prefix_hour''),
                ''uniqueid'', ''call_uuid''} \<union> pk_confidence_inputs p\<rparr>
    in if uid \<le> 253402300799 then Inr q else Inl (ValueError ''year is out of range''))"
  by (cases label) (simp_all add: fill_uuid_def Let_def add_input_def group_str_def
      uniqueid_time_def from_timestamp_range)

text \<open>A Dialer leg named with its call's uuid, an optional leg label and the channel epoch gives
the uuid, the label and the epoch's own instant, and none of the digits inside the uuid is read as a
number or a time. The epoch has to fit a \<open>datetime\<close>: past the year 9999 the parser raises, although
it is documented never to.\<close>

theorem parse_key_uuid_leg:
  assumes "uuid_ok a b c d e" "leg_ok label uid fe" "valid_dt folder" "CHR ''/'' \<notin> set seg"
  shows "let u = uuid_text a b c d e; base = uuid_leg_name u label uid fe;
             key = day_prefix folder (seg @ ''/'') @ base
         in parse_key key =
              (if uid \<le> 253402300799
               then Inr (uuid_leg_key key base u label uid fe (Some (floor_day folder)))
               else Inl (ValueError ''year is out of range''))"
proof -
  let ?u = "uuid_text a b c d e"
  let ?base = "uuid_leg_name ?u label uid fe"
  let ?key = "day_prefix folder (seg @ ''/'') @ ?base"
  have leg: "l \<noteq> []" "CHR ''/'' \<notin> set l" if "label = Some l" for l
    using assms(2) that by (cases l; force simp: leg_ok_def)+
  have fe: "CHR ''/'' \<notin> set fe" "fe \<noteq> []" using assms(2) by (auto simp: leg_ok_def)
  have base: "CHR ''/'' \<notin> set ?base"
    using uuid_no_sep(6) [OF assms(1)] leg fe show_nat_no_sep [of "CHR ''/''" uid]
    by (auto simp: uuid_leg_name_def split: option.split)
  have none: "first_match [FULL, NO_EXTENSION, UNIQUEID_FIRST] ?base = None"
    unfolding uuid_leg_name_def by (rule uuid_not_structured [OF assms(1)])
  have "py_lower fe \<noteq> []" using fe by (simp add: py_lower_def)
  then obtain x xs where x: "py_lower fe = x # xs" by (cases "py_lower fe") auto
  have "uid \<noteq> 0" using assms(2) by (auto simp: leg_ok_def)
  then show ?thesis
    unfolding Let_def parse_key_def basename_day_prefix [OF base]
      prefix_time_day_prefix [OF assms(3,4) base] none option.case
      first_match_hd [OF UUID_WITH_EPOCH_match [OF assms(1,2)]] fill_uuid_leg
    by (simp add: new_parsed_key_def add_input_def flag_extension_def uuid_leg_key_def x
        insert_commute split: option.split)
qed

theorem parse_key_uuid_leg_witness:
  "parse_key ''recordings/2026/09/08/7b8d594d-11b4-450a-bd7f-1409311445bc_transfer4_1788800177.flac''
     = Inr (uuid_leg_key
         ''recordings/2026/09/08/7b8d594d-11b4-450a-bd7f-1409311445bc_transfer4_1788800177.flac''
         ''7b8d594d-11b4-450a-bd7f-1409311445bc_transfer4_1788800177.flac''
         ''7b8d594d-11b4-450a-bd7f-1409311445bc'' (Some ''transfer4'') 1788800177 ''flac''
         (Some 1788825600000000))"
proof -
  have pre: "uuid_ok ''7b8d594d'' ''11b4'' ''450a'' ''bd7f'' ''1409311445bc''"
      "valid_dt 1788825600000000" "CHR ''/'' \<notin> set ''recordings''"
    by code_simp+
  have leg: "leg_ok (Some ''transfer4'') 1788800177 ''flac''"
    by (simp add: leg_ok_def is_alpha_ascii_def is_label_char_def char_classes)
  have eval: "day_prefix 1788825600000000 (''recordings'' @ ''/'') = ''recordings/2026/09/08/''"
    "uuid_text ''7b8d594d'' ''11b4'' ''450a'' ''bd7f'' ''1409311445bc''
      = ''7b8d594d-11b4-450a-bd7f-1409311445bc''"
    "floor_day 1788825600000000 = 1788825600000000"
    by code_simp+
  have name: "uuid_leg_name ''7b8d594d-11b4-450a-bd7f-1409311445bc'' (Some ''transfer4'') 1788800177 ''flac''
        = ''7b8d594d-11b4-450a-bd7f-1409311445bc_transfer4_1788800177.flac''"
    by (simp add: uuid_leg_name_def str_simps)
  show ?thesis
    using parse_key_uuid_leg [of "''7b8d594d''" "''11b4''" "''450a''" "''bd7f''" "''1409311445bc''"
        "Some ''transfer4''" 1788800177 "''flac''" 1788825600000000 "''recordings''"]
      pre leg eval name
    by (simp add: Let_def)
qed

section \<open>When the parser raises\<close>

text \<open>The one name shape whose channel epoch \<open>datetime\<close> cannot hold.\<close>

definition uuid_epoch_overflow :: "string \<Rightarrow> bool" where
  "uuid_epoch_overflow base \<longleftrightarrow>
     first_match [FULL, NO_EXTENSION, UNIQUEID_FIRST] base = None \<and>
     (case re_match UUID_WITH_EPOCH base of
        Some g \<Rightarrow> 253402300799 < group_int g ''uniqueid'' | None \<Rightarrow> False)"

lemma fill_uuid_raises:
  assumes "pk_uniqueid p = None"
  shows "fill_uuid g p = Inl e \<longleftrightarrow>
    e = ValueError ''year is out of range'' \<and> 253402300799 < group_int g ''uniqueid''"
  using assms
  by (cases "group g ''uniqueid''"; cases "group g ''label''")
    (auto simp: fill_uuid_def Let_def add_input_def uniqueid_time_def from_timestamp_range
      group_int_def)

lemma UUID_ONLY_no_epoch: "re_match UUID_ONLY s = Some g \<Longrightarrow> group g ''uniqueid'' = None"
  by (erule re_match_groups) (simp add: UUID_ONLY_def UUID_def Chr_def)

text \<open>The parser raises for no key but a uuid name whose channel epoch lies past the year 9999,
and then the \<open>ValueError\<close> of \<open>fromtimestamp\<close>; every other key, however malformed, gives a parsed
key.\<close>

theorem parse_key_raises_iff:
  "parse_key key = Inl e \<longleftrightarrow>
     e = ValueError ''year is out of range'' \<and> uuid_epoch_overflow (after_last CHR ''/'' key)"
proof -
  let ?base = "after_last CHR ''/'' key"
  define p0 where "p0 = (let p = new_parsed_key key ?base (prefix_time key)
    in if pk_prefix_hour p \<noteq> None then add_input ''prefix_hour'' p else p)"
  have "pk_uniqueid p0 = None"
    by (simp add: p0_def Let_def add_input_def new_parsed_key_def)
  note raises = fill_uuid_raises [OF this]
  have no_raise: "fill_uuid g p0 \<noteq> Inl e" if "re_match UUID_ONLY ?base = Some g" for g
    using raises UUID_ONLY_no_epoch [OF that] by (simp add: group_int_def)
  have "parse_key key =
     (case first_match [FULL, NO_EXTENSION, UNIQUEID_FIRST] ?base of
        Some g \<Rightarrow> Inr (flag_extension (fill_structured g p0))
      | None \<Rightarrow>
          (case first_match [UUID_WITH_EPOCH, UUID_ONLY] ?base of
             Some g \<Rightarrow> (case fill_uuid g p0 of Inl e \<Rightarrow> Inl e | Inr q \<Rightarrow> Inr (flag_extension q))
           | None \<Rightarrow> Inr (flag_extension (fill_salvage ?base p0))))"
    by (simp only: parse_key_def Let_def p0_def)
  moreover have "(case fill_uuid g p0 of Inl e \<Rightarrow> Inl e | Inr q \<Rightarrow> Inr (flag_extension q)) = Inl e
      \<longleftrightarrow> fill_uuid g p0 = Inl e" for g
    by (cases "fill_uuid g p0") auto
  ultimately show ?thesis
    using no_raise raises
    by (cases "first_match [FULL, NO_EXTENSION, UNIQUEID_FIRST] ?base";
        cases "re_match UUID_WITH_EPOCH ?base"; cases "re_match UUID_ONLY ?base")
      (auto simp: uuid_epoch_overflow_def simp del: first_match.simps(2)
        simp: first_match.simps(2) [of UUID_WITH_EPOCH] first_match.simps(2) [of UUID_ONLY])
qed

section \<open>Day prefixes cover the range\<close>

lemma day_cursor_map:
  "day_cursor c final = map (\<lambda>i. c + int i * day) [0..<nat ((final - c) div day + 1)]"
proof (induction c final rule: day_cursor.induct)
  case (1 c final)
  show ?case
  proof (cases "c \<le> final")
    case True
    have "(final - c) div day = (final - (c + day)) div day + 1"
      using div_add_self2 [of day "final - (c + day)"] day_pos by (simp add: algebra_simps)
    moreover have "0 \<le> (final - c) div day" using True by (simp add: pos_imp_zdiv_nonneg_iff)
    ultimately have n: "nat ((final - c) div day + 1) = Suc (nat ((final - (c + day)) div day + 1))"
      by linarith
    show ?thesis
      unfolding day_cursor.simps [of c] n map_upt_Suc using True 1 [OF True] by (simp add: algebra_simps)
  next
    case False
    then have "(final - c) div day < 0" using div_neg_pos_less0 [of "final - c" day] by simp
    with False show ?thesis by (simp add: day_cursor.simps)
  qed
qed

lemma floor_day_diff: "(floor_day b - floor_day a) div day = b div day - a div day"
  by (simp add: floor_day_def flip: left_diff_distrib)

text \<open>The prefixes a scan lists for a range of instants are the days of the range, oldest first
and each exactly once: every instant of the range has its day's prefix in the list, and the list is
the prefixes of consecutive midnights from the first day to the last.\<close>

theorem iter_day_prefixes_covers:
  "(start \<le> t \<and> t \<le> stop \<longrightarrow> day_prefix t kroot \<in> set (iter_day_prefixes start stop kroot)) \<and>
   iter_day_prefixes start stop kroot =
     map (\<lambda>i. day_prefix (floor_day start + int i * day) kroot)
       [0..<nat (stop div day - start div day + 1)]"
proof
  show list: "iter_day_prefixes start stop kroot =
     map (\<lambda>i. day_prefix (floor_day start + int i * day) kroot)
       [0..<nat (stop div day - start div day + 1)]"
    by (simp add: iter_day_prefixes_def day_cursor_map floor_day_diff)
  show "start \<le> t \<and> t \<le> stop \<longrightarrow> day_prefix t kroot \<in> set (iter_day_prefixes start stop kroot)"
  proof
    assume t: "start \<le> t \<and> t \<le> stop"
    let ?i = "nat (t div day - start div day)"
    have le: "start div day \<le> t div day" "t div day \<le> stop div day"
      using t by (simp_all add: zdiv_mono1)
    then have "floor_day start + int ?i * day = floor_day t"
      by (simp add: floor_day_def left_diff_distrib)
    then have "day_prefix t kroot = day_prefix (floor_day start + int ?i * day) kroot"
      by (simp add: day_prefix_def)
    then show "day_prefix t kroot \<in> set (iter_day_prefixes start stop kroot)"
      unfolding list set_map by (rule image_eqI) (use le in auto)
  qed
qed

section \<open>Examples\<close>


theorem parse_key_uniqueid_first_witness:
  "parse_key ''recordings/2026/09/08/1788871736.100994-out-005551999752466-201-20260908-124856.flac''
     = Inr (structured_key
         ''recordings/2026/09/08/1788871736.100994-out-005551999752466-201-20260908-124856.flac''
         ''1788871736.100994-out-005551999752466-201-20260908-124856.flac''
         ''out'' ''005551999752466'' ''201'' 1788871736000000 1788871736 100994 ''flac''
         (Some 1788825600000000))"
proof -
  have ok: "name_fields_ok ''out'' ''005551999752466'' ''201'' 1788871736000000 1788871736 ''flac''"
    unfolding name_fields_ok_def
    by (simp add: is_ext_char_def char_classes valid_dt_def ordinal_of_def time_units epoch_ordinal_def)
  have pre: "valid_dt 1788871736000000" "CHR ''/'' \<notin> set ''recordings''" by code_simp+
  have eval: "day_prefix 1788871736000000 (''recordings'' @ ''/'') = ''recordings/2026/09/08/''"
    "floor_day 1788871736000000 = 1788825600000000"
    "date_digits 1788871736000000 = ''20260908''" "time_digits 1788871736000000 = ''124856''"
    by code_simp+
  have name: "uniqueid_first_name ''out'' ''005551999752466'' ''201'' 1788871736000000 1788871736
        100994 ''flac'' = ''1788871736.100994-out-005551999752466-201-20260908-124856.flac''"
    by (simp add: uniqueid_first_name_def eval str_simps)
  show ?thesis
    using parse_key_uniqueid_first [OF ok _ pre, of 100994] eval name by (simp add: Let_def)
qed

theorem iter_day_prefixes_covers_witness:
  "''recordings/2025/11/11/'' \<in> set (iter_day_prefixes 1762646400000000 1762905600000000 ''recordings/'')"
proof -
  have eval: "day_prefix 1762826400000000 ''recordings/'' = ''recordings/2025/11/11/''" by code_simp
  show ?thesis
    using conjunct1 [OF iter_day_prefixes_covers [of 1762646400000000 1762826400000000
        1762905600000000 "''recordings/''"]] unfolding eval by simp
qed

text \<open>The real key of the repository's own notes, whose part number has five digits, matches none
of the documented layouts: the salvage recovers its direction, channel id, number and start, but not
its extension or its part number, and it does not count as parsed.\<close>

lemma five_digit_seq_salvaged:
  "(case parse_key
      ''recordings/2022/12/26/in-99150321131757-5031470050247407092-20221226-152523-1672068323.91098.flac''
    of Inl e \<Rightarrow> False
     | Inr p \<Rightarrow> \<not> pk_parsed_ok p \<and> pk_direction p = Some ''in'' \<and> pk_number p = Some ''99150321131757''
         \<and> pk_uniqueid p = Some 1672068323 \<and> pk_started_at p = Some 1672068323000000
         \<and> pk_extension p = None \<and> pk_seq p = 0 \<and> pk_is_audio p)"
  by code_simp

end
