(* ===== verification/Errors.thy ===== *)
theory Errors
  imports Prelude
begin

text \<open>
  \<open>src/c2w/storage/errors.py\<close>: the classes of a storage failure, which of them are retried and
  which alert at once, and the classification of an exception. An exception of the S3 client library
  or of Python is what the classifier looks at: its class name, its text, its place among Python's
  exception classes and the response dictionary it may carry.

  Lemmas: the classification is total, reaches only the classes it should, and a refusal is never
  classified as retryable.
\<close>

section \<open>Error classes\<close>

datatype error_class =
    AUTH_ERROR | ACL_ERROR | NOT_FOUND | RATE_LIMIT | NETWORK_ERROR | S3_ERROR | CHECKSUM_ERROR
  | STORAGE_ERROR | PERMISSION_ERROR | CONFIG_ERROR | UNKNOWN

fun class_value :: "error_class \<Rightarrow> string" where
  "class_value AUTH_ERROR = ''AUTH_ERROR''"
| "class_value ACL_ERROR = ''ACL_ERROR''"
| "class_value NOT_FOUND = ''NOT_FOUND''"
| "class_value RATE_LIMIT = ''RATE_LIMIT''"
| "class_value NETWORK_ERROR = ''NETWORK_ERROR''"
| "class_value S3_ERROR = ''S3_ERROR''"
| "class_value CHECKSUM_ERROR = ''CHECKSUM_ERROR''"
| "class_value STORAGE_ERROR = ''STORAGE_ERROR''"
| "class_value PERMISSION_ERROR = ''PERMISSION_ERROR''"
| "class_value CONFIG_ERROR = ''CONFIG_ERROR''"
| "class_value UNKNOWN = ''UNKNOWN''"

definition RETRYABLE :: "error_class list" where
  "RETRYABLE = [RATE_LIMIT, NETWORK_ERROR, S3_ERROR, STORAGE_ERROR, CHECKSUM_ERROR, UNKNOWN]"

definition ALERTING :: "error_class list" where
  "ALERTING = [AUTH_ERROR, ACL_ERROR, PERMISSION_ERROR, CONFIG_ERROR]"

definition retryable :: "error_class \<Rightarrow> bool" where
  "retryable c \<longleftrightarrow> c \<in> set RETRYABLE"

definition alert_immediately :: "error_class \<Rightarrow> bool" where
  "alert_immediately c \<longleftrightarrow> c \<in> set ALERTING"

text \<open>The codes of S3 and of the client library.\<close>

definition CODE_MAP :: "(string \<times> error_class) list" where
  "CODE_MAP =
     [(''InvalidAccessKeyId'', AUTH_ERROR),
      (''SignatureDoesNotMatch'', AUTH_ERROR),
      (''InvalidToken'', AUTH_ERROR),
      (''ExpiredToken'', AUTH_ERROR),
      (''TokenRefreshRequired'', AUTH_ERROR),
      (''AccountProblem'', AUTH_ERROR),
      (''AccessDenied'', ACL_ERROR),
      (''AllAccessDisabled'', ACL_ERROR),
      (''RequestTimeTooSkewed'', CONFIG_ERROR),
      (''NoSuchBucket'', CONFIG_ERROR),
      (''InvalidBucketName'', CONFIG_ERROR),
      (''PermanentRedirect'', CONFIG_ERROR),
      (''AuthorizationHeaderMalformed'', CONFIG_ERROR),
      (''NoSuchKey'', NOT_FOUND),
      (''NoSuchUpload'', NOT_FOUND),
      (''404'', NOT_FOUND),
      (''SlowDown'', RATE_LIMIT),
      (''TooManyRequests'', RATE_LIMIT),
      (''RequestLimitExceeded'', RATE_LIMIT),
      (''503'', RATE_LIMIT),
      (''RequestTimeout'', NETWORK_ERROR),
      (''RequestTimeoutException'', NETWORK_ERROR),
      (''ConnectionError'', NETWORK_ERROR),
      (''InternalError'', S3_ERROR),
      (''ServiceUnavailable'', S3_ERROR),
      (''500'', S3_ERROR),
      (''BadDigest'', CHECKSUM_ERROR),
      (''InvalidDigest'', CHECKSUM_ERROR),
      (''XAmzContentSHA256Mismatch'', CHECKSUM_ERROR),
      (''QuotaExceeded'', STORAGE_ERROR),
      (''EntityTooLarge'', STORAGE_ERROR)]"

section \<open>A classified failure\<close>

fun hint :: "error_class \<Rightarrow> string option" where
  "hint ACL_ERROR = Some (''CommPeak refused this before the S3 layer saw it -- this is nginx's own 403, '' @
      ''not an S3 error, so the keys are not the problem (a wrong key gives '' @
      ''\"SignatureDoesNotMatch\" and a permission problem gives \"Access Denied\", both as '' @
      ''S3 XML). Two different refusals look exactly like this and the response cannot '' @
      ''tell them apart. Either this server's public IP is not on this S3 account's '' @
      ''Access Control List (Recordings Access Accounts -> IP ACL tab, per instance, '' @
      ''address with a /32 mask), or the address is on the list and has been blocked '' @
      ''anyway, which is what repeated attempts in quick succession cause and it can '' @
      ''persist for a long time. Check the list once: if the address is there -- '' @
      ''especially if a different address on the same list works -- it is the second, '' @
      ''so stop testing and give it time. The account's Access Summary tab logs the IP, '' @
      ''time and error for every refused attempt and is the only place that says which '' @
      ''it was'')"
| "hint AUTH_ERROR = Some (''the S3 token/secret is wrong or has been rotated; re-enter it'')"
| "hint CONFIG_ERROR = Some (''endpoint, region or bucket is wrong; CommPeak requires path-style addressing '' @
      ''against recordings.commpeak.com'')"
| "hint CHECKSUM_ERROR = Some (''source and destination bytes disagree; the object will be re-transferred'')"
| "hint STORAGE_ERROR = Some (''the destination rejected the write; check Wasabi quota and bucket policy'')"
| "hint UNKNOWN = Some (''not a failure this system recognises; the detail above is the raw error, and '' @
      ''the service log has the traceback. Nothing here points at your settings -- if '' @
      ''it recurs it is a fault to report rather than a setting to change'')"
| "hint NOT_FOUND = None"
| "hint RATE_LIMIT = None"
| "hint NETWORK_ERROR = None"
| "hint S3_ERROR = None"
| "hint PERMISSION_ERROR = None"

record transfer_error =
  te_class :: error_class
  te_message :: string
  te_code :: "string option"
  te_status :: "int option"
  te_hint :: "string option"

text \<open>\<open>hint or _HINTS.get(error_class)\<close>: an empty hint is no hint.\<close>

definition new_transfer_error ::
    "error_class \<Rightarrow> string \<Rightarrow> string option \<Rightarrow> int option \<Rightarrow> string option \<Rightarrow> transfer_error" where
  "new_transfer_error c msg ecode status h =
     \<lparr>te_class = c, te_message = msg, te_code = ecode, te_status = status,
      te_hint = (case h of Some (x # xs) \<Rightarrow> Some (x # xs) | _ \<Rightarrow> hint c)\<rparr>"

definition te_retryable :: "transfer_error \<Rightarrow> bool" where
  "te_retryable e = retryable (te_class e)"

definition te_str :: "transfer_error \<Rightarrow> string" where
  "te_str e =
     join '' '' ([''['' @ class_value (te_class e) @ '']'', te_message e]
       @ (case te_code e of Some (c # cs) \<Rightarrow> [''(code='' @ (c # cs) @ '')''] | _ \<Rightarrow> [])
       @ (case te_hint e of Some (h # hs) \<Rightarrow> [''-- '' @ (h # hs)] | _ \<Rightarrow> []))"

section \<open>Classification\<close>

text \<open>What an exception is, as far as the classifier asks. A \<open>TimeoutError\<close> is an \<open>OSError\<close>.\<close>

datatype exc_family = TimeoutFamily | OsFamily | OtherFamily

record s3_response =
  rs_code :: "string option"
  rs_message :: "string option"
  rs_status :: "int option"

record raised =
  ex_name :: string
  ex_text :: string
  ex_family :: exc_family
  ex_response :: "s3_response option"

datatype storage_exc = Classified transfer_error | Raised raised

definition opt_or :: "string option \<Rightarrow> string \<Rightarrow> string" where
  "opt_or mb s = (case mb of Some (c # cs) \<Rightarrow> c # cs | _ \<Rightarrow> s)"

definition status_in :: "int option \<Rightarrow> (int \<Rightarrow> bool) \<Rightarrow> bool" where
  "status_in st p = (case st of None \<Rightarrow> False | Some n \<Rightarrow> n \<noteq> 0 \<and> p n)"

definition lookup_code :: "string option \<Rightarrow> error_class option" where
  "lookup_code mb = (case mb of Some (c # cs) \<Rightarrow> map_of CODE_MAP (c # cs) | _ \<Rightarrow> None)"

definition classify_exception :: "storage_exc \<Rightarrow> transfer_error" where
  "classify_exception exc =
     (case exc of
        Classified e \<Rightarrow> e
      | Raised x \<Rightarrow>
          (let text = (if ex_text x \<noteq> [] then ex_text x else ex_name x);
               ecode = (case ex_response x of None \<Rightarrow> None | Some r \<Rightarrow> rs_code r);
               message = (case ex_response x of None \<Rightarrow> text | Some r \<Rightarrow> opt_or (rs_message r) text);
               status = (case ex_response x of None \<Rightarrow> None | Some r \<Rightarrow> rs_status r);
               name = ex_name x;
               named = Some (opt_or ecode name)
           in case lookup_code ecode of
                Some c \<Rightarrow> new_transfer_error c message ecode status None
              | None \<Rightarrow>
             (case (case status of None \<Rightarrow> None
                    | Some n \<Rightarrow> if n = 0 then None else map_of CODE_MAP (show_int n)) of
                Some c \<Rightarrow> new_transfer_error c message ecode status None
              | None \<Rightarrow>
             (case map_of CODE_MAP name of
                Some c \<Rightarrow> new_transfer_error c message named status None
              | None \<Rightarrow>
                  if ex_family x = TimeoutFamily \<or> contains ''Timeout'' name
                     \<or> contains ''timed out'' (py_lower message)
                  then new_transfer_error NETWORK_ERROR message named status None
                  else if ex_family x = OsFamily
                  then new_transfer_error NETWORK_ERROR message named status None
                  else if status_in status (\<lambda>n. 500 \<le> n \<and> n < 600)
                  then new_transfer_error S3_ERROR message ecode status None
                  else if status_in status (\<lambda>n. n = 401 \<or> n = 403)
                  then new_transfer_error ACL_ERROR message ecode status None
                  else new_transfer_error UNKNOWN message named status None))))"

section \<open>Lemmas\<close>

lemma hint_new [simp]: "te_class (new_transfer_error c msg ecode st h) = c"
  by (simp add: new_transfer_error_def)

text \<open>An alerting class is never retried, and every other class but a missing object is.\<close>

lemma retry_or_alert:
  "\<not> (retryable c \<and> alert_immediately c)" "retryable c \<or> alert_immediately c \<longleftrightarrow> c \<noteq> NOT_FOUND"
  by (cases c; simp add: retryable_def alert_immediately_def RETRYABLE_def ALERTING_def)+

text \<open>A refusal of access is never retried: an exception whose response has status 401 or 403 and
no code the table knows is classified as an access-list error unless the exception is itself a
network failure, and every class that alerts a human is outside the retry ladder, so the retried
classes and the alerting classes are disjoint and leave out only the missing object.\<close>

theorem refusal_not_retried:
  assumes "ex_response x = Some r" "rs_status r = Some st" "st = 401 \<or> st = 403"
    and "lookup_code (rs_code r) = None" "map_of CODE_MAP (ex_name x) = None"
    and "ex_family x = OtherFamily" "\<not> contains ''Timeout'' (ex_name x)"
    and "\<not> contains ''timed out'' (py_lower (te_message (classify_exception (Raised x))))"
  shows "te_class (classify_exception (Raised x)) = ACL_ERROR
    \<and> \<not> te_retryable (classify_exception (Raised x))
    \<and> (retryable c \<or> alert_immediately c \<longleftrightarrow> c \<noteq> NOT_FOUND) \<and> \<not> (retryable c \<and> alert_immediately c)"
proof -
  have "map_of CODE_MAP (show_int 401) = None" "map_of CODE_MAP (show_int 403) = None" by code_simp+
  then have "map_of CODE_MAP (show_int st) = None" using assms(3) by auto
  then have "te_class (classify_exception (Raised x)) = ACL_ERROR"
    using assms
    by (auto simp: classify_exception_def Let_def status_in_def new_transfer_error_def split: if_splits)
  then show ?thesis
    using retry_or_alert [of c] by (simp add: te_retryable_def retryable_def RETRYABLE_def)
qed

definition nginx_403 :: raised where
  "nginx_403 = \<lparr>ex_name = ''ClientError'', ex_text = ''An error occurred (403)'', ex_family = OtherFamily,
     ex_response = Some \<lparr>rs_code = Some ''403'', rs_message = Some ''Forbidden'', rs_status = Some 403\<rparr>\<rparr>"

theorem refusal_not_retried_witness:
  "te_class (classify_exception (Raised nginx_403)) = ACL_ERROR \<and>
   \<not> te_retryable (classify_exception (Raised nginx_403))"
proof -
  have "lookup_code (Some ''403'') = None" "map_of CODE_MAP ''ClientError'' = None"
    "\<not> contains ''Timeout'' ''ClientError''"
    "\<not> contains ''timed out'' (py_lower (te_message (classify_exception (Raised nginx_403))))"
    by code_simp+
  with refusal_not_retried [of nginx_403 _ 403] show ?thesis
    by (simp add: nginx_403_def)
qed

end
