(* ===== verification/S3Client.thy ===== *)
theory S3Client
  imports Errors Bytes "HOL-Library.AList" "HOL-Library.List_Lexorder"
begin

text \<open>
  \<open>src/c2w/storage/base.py\<close> and \<open>src/c2w/storage/s3_adapter.py\<close>: the storage values, the token
  bucket, the part buffer and the S3 client with its two upload paths.

  The client library and the bucket behind it are the parameter \<open>svc\<close>: the answer, or the
  exception, to a call after the calls made so far. The state an operation threads is that history,
  newest call first, so a theorem can say which calls an upload made and in which order. SHA-256 is
  the parameter \<open>sha\<close> on the whole byte string; the source's incremental digest is its value on the
  bytes fed so far. A byte stream is its chunks and how it ends. Times of the token bucket are
  rational seconds; the limiter delays an upload and changes none of its calls.

  Lemmas: the bucket never hands out more than its capacity and its rate allow; the parts of a
  multipart upload are the stream, cut at the part size; a failed multipart upload is aborted.
\<close>

section \<open>Values\<close>

record object_ref =
  or_key :: string
  or_size :: int
  or_etag :: string
  or_last_modified :: dt
  or_storage_class :: "string option"

record object_meta =
  om_key :: string
  om_size :: int
  om_etag :: string
  om_last_modified :: dt
  om_content_type :: "string option"
  om_checksum_sha256 :: "string option"
  om_metadata :: "(string \<times> string) list"

record upload_result =
  ur_key :: string
  ur_size :: nat
  ur_etag :: string
  ur_checksum_sha256 :: string
  ur_multipart :: bool
  ur_parts :: nat

record s3_credentials =
  sc_endpoint_url :: string
  sc_access_key :: string
  sc_secret_key :: string
  sc_region :: string
  sc_bucket :: string
  sc_path_style :: bool
  sc_signature_version :: string
  sc_verify_tls :: bool

definition sort_keys :: "object_ref list \<Rightarrow> object_ref list" where
  "sort_keys refs = sort_key (\<lambda>r. map code (or_key r)) refs"

definition MAX_PARTS :: nat where "MAX_PARTS = 10000"
definition MIN_PART_SIZE :: nat where "MIN_PART_SIZE = 5242880"

section \<open>The token bucket\<close>

record rate_limiter =
  rl_rate :: rat
  rl_capacity :: rat
  rl_tokens :: rat
  rl_updated :: rat

definition new_rate_limiter :: "rat \<Rightarrow> rat \<Rightarrow> rat \<Rightarrow> rate_limiter" where
  "new_rate_limiter bytes_per_second burst_seconds now =
     (let rate = max 0 bytes_per_second; capacity = max (rate * burst_seconds) 1
      in \<lparr>rl_rate = rate, rl_capacity = capacity, rl_tokens = capacity, rl_updated = now\<rparr>)"

definition from_mbps :: "rat \<Rightarrow> rat \<Rightarrow> rat \<Rightarrow> rate_limiter" where
  "from_mbps mbps burst_seconds now =
     new_rate_limiter (if 0 < mbps then mbps * 1000000 / 8 else 0) burst_seconds now"

definition rl_enabled :: "rate_limiter \<Rightarrow> bool" where
  "rl_enabled r \<longleftrightarrow> 0 < rl_rate r"

text \<open>One round of the loop at a clock reading: a grant, or how long to sleep.\<close>

definition acquire_round :: "nat \<Rightarrow> rat \<Rightarrow> rate_limiter \<Rightarrow> rate_limiter \<times> rat option" where
  "acquire_round amount now r =
     (let needed = min (of_nat amount) (rl_capacity r);
          gained = (now - rl_updated r) * rl_rate r;
          tokens = min (rl_capacity r) (rl_tokens r + gained);
          r1 = r\<lparr>rl_tokens := tokens, rl_updated := now\<rparr>
      in if needed \<le> tokens then (r1\<lparr>rl_tokens := tokens - of_nat amount\<rparr>, None)
         else (r1, Some (min ((needed - tokens) / rl_rate r) 1)))"

text \<open>The loop over the clock readings it makes; \<open>None\<close> when they end before the grant.\<close>

fun acquire_loop :: "nat \<Rightarrow> rat list \<Rightarrow> rate_limiter \<Rightarrow> rate_limiter option" where
  "acquire_loop amount [] r = None"
| "acquire_loop amount (now # nows) r =
     (case acquire_round amount now r of
        (r', None) \<Rightarrow> Some r'
      | (r', Some _) \<Rightarrow> acquire_loop amount nows r')"

definition acquire :: "nat \<Rightarrow> rat list \<Rightarrow> rate_limiter \<Rightarrow> rate_limiter option" where
  "acquire amount nows r =
     (if \<not> rl_enabled r \<or> amount = 0 then Some r else acquire_loop amount nows r)"

section \<open>The part buffer\<close>

text \<open>\<open>_PartBuffer.add\<close>: full parts taken off the front. The target is at least \<open>MIN_PART_SIZE\<close>.\<close>

function drain :: "nat \<Rightarrow> bytes \<Rightarrow> bytes list \<times> bytes" where
  "drain target buf =
     (if 0 < target \<and> target \<le> length buf
      then (let (parts, rest) = drain target (drop target buf) in (take target buf # parts, rest))
      else ([], buf))"
  by pat_completeness auto
termination
  by (relation "measure (\<lambda>(t, b). length b)") auto

declare drain.simps [simp del]

definition buffer_add :: "nat \<Rightarrow> bytes \<Rightarrow> bytes \<Rightarrow> bytes list \<times> bytes" where
  "buffer_add target buf chunk = drain target (buf @ chunk)"

section \<open>The service\<close>

datatype s3_call =
    PutObject string bytes "(string \<times> string) list" "string option" "string option"
  | CreateMultipart string "(string \<times> string) list" "string option"
  | UploadPart string string nat bytes
  | CompleteMultipart string string "(string \<times> nat) list"
  | AbortMultipart string string
  | CopyObject string "(string \<times> string) list" "string option"
  | HeadObject string
  | GetObject string nat
  | DeleteObject string
  | ListObjects string nat "string option" "string option"
  | ListPrefixes string string "string option"
  | PresignGet string nat "string option"

datatype stream_end = EndOk | EndExc storage_exc

type_synonym stream = "bytes list \<times> stream_end"

datatype s3_resp =
    RTag "string option"
  | RUpload string
  | RHead int "string option" dt "string option" "(string \<times> string) list"
  | RBody stream
  | RPage "object_ref list" bool "string option"
  | RPrefixPage "string list" bool "string option"
  | RUrl string
  | RDone

type_synonym history = "s3_call list"
type_synonym service = "history \<Rightarrow> s3_call \<Rightarrow> raised + s3_resp"

text \<open>A call that changes the bucket.\<close>

fun mutates :: "s3_call \<Rightarrow> bool" where
  "mutates (PutObject _ _ _ _ _) = True"
| "mutates (CreateMultipart _ _ _) = True"
| "mutates (UploadPart _ _ _ _) = True"
| "mutates (CompleteMultipart _ _ _) = True"
| "mutates (AbortMultipart _ _) = True"
| "mutates (CopyObject _ _ _) = True"
| "mutates (DeleteObject _) = True"
| "mutates _ = False"

record s3_client =
  cl_creds :: s3_credentials
  cl_open :: bool
  cl_multipart_threshold :: nat
  cl_multipart_chunk :: nat

definition new_s3_client :: "s3_credentials \<Rightarrow> nat \<Rightarrow> nat \<Rightarrow> s3_client" where
  "new_s3_client creds threshold chunk =
     \<lparr>cl_creds = creds, cl_open = False, cl_multipart_threshold = threshold,
      cl_multipart_chunk = max chunk MIN_PART_SIZE\<rparr>"

definition enter :: "s3_client \<Rightarrow> s3_client" where "enter c = c\<lparr>cl_open := True\<rparr>"
definition leave :: "s3_client \<Rightarrow> s3_client" where "leave c = c\<lparr>cl_open := False\<rparr>"

definition closed_error :: transfer_error where
  "closed_error = new_transfer_error UNKNOWN
     (''an S3 client was used after it was closed -- this is a fault '' @
      ''in c2w, not in this account's configuration'') None None None"

definition no_bucket_error :: transfer_error where
  "no_bucket_error =
     new_transfer_error CONFIG_ERROR ''no bucket configured for this client'' None None None"

text \<open>The \<open>client\<close> and \<open>bucket\<close> properties, in the order a method reads them.\<close>

definition unready :: "bool \<Rightarrow> s3_client \<Rightarrow> transfer_error option" where
  "unready bucket_first c =
     (let no_client = (if cl_open c then None else Some closed_error);
          no_bucket = (if sc_bucket (cl_creds c) = [] then Some no_bucket_error else None)
      in if bucket_first then (if no_bucket \<noteq> None then no_bucket else no_client)
         else (if no_client \<noteq> None then no_client else no_bucket))"

text \<open>A call, with its exception classified. An answer of the wrong shape is the \<open>KeyError\<close> of
reading it.\<close>

definition key_error :: "string \<Rightarrow> raised" where
  "key_error k = \<lparr>ex_name = ''KeyError'', ex_text = k, ex_family = OtherFamily, ex_response = None\<rparr>"

definition clean_etag :: "string option \<Rightarrow> string" where
  "clean_etag e = (case e of None \<Rightarrow> [] | Some s \<Rightarrow> strip_chars (\<lambda>c. c = CHR 0x22) s)"

section \<open>Reading\<close>

definition head :: "service \<Rightarrow> s3_client \<Rightarrow> string \<Rightarrow> history \<Rightarrow>
    history \<times> (transfer_error + object_meta)" where
  "head svc c key h =
     (case unready False c of
        Some e \<Rightarrow> (h, Inl e)
      | None \<Rightarrow>
          (HeadObject key # h,
           (case svc h (HeadObject key) of
              Inl x \<Rightarrow> Inl (classify_exception (Raised x))
            | Inr (RHead sz etag modified ctype meta) \<Rightarrow>
                Inr \<lparr>om_key = key, om_size = sz, om_etag = clean_etag etag,
                     om_last_modified = modified, om_content_type = ctype,
                     om_checksum_sha256 = map_of meta ''c2w-sha256'', om_metadata = meta\<rparr>
            | Inr _ \<Rightarrow> Inl (classify_exception (Raised (key_error ''ContentLength''))))))"

text \<open>The chunks of an object from an offset; the stream's own failure arrives classified.\<close>

definition open_stream :: "service \<Rightarrow> s3_client \<Rightarrow> string \<Rightarrow> nat \<Rightarrow> history \<Rightarrow>
    history \<times> (transfer_error + stream)" where
  "open_stream svc c key offset h =
     (case unready True c of
        Some e \<Rightarrow> (h, Inl e)
      | None \<Rightarrow>
          (GetObject key offset # h,
           (case svc h (GetObject key offset) of
              Inl x \<Rightarrow> Inl (classify_exception (Raised x))
            | Inr (RBody (chunks, fin)) \<Rightarrow>
                Inr (takeWhile (\<lambda>b. b \<noteq> []) chunks,
                     if list_ex (\<lambda>b. b = []) chunks then EndOk
                     else case fin of EndOk \<Rightarrow> EndOk
                          | EndExc x \<Rightarrow> EndExc (Classified (classify_exception x)))
            | Inr _ \<Rightarrow> Inl (classify_exception (Raised (key_error ''Body''))))))"

text \<open>A listing yields references and then ends; \<open>OutOfFuel\<close> when the pages go on.\<close>

datatype listing_end = Listed | ListFailed transfer_error | OutOfFuel

fun list_pages :: "nat \<Rightarrow> service \<Rightarrow> string \<Rightarrow> nat \<Rightarrow> string option \<Rightarrow> string option \<Rightarrow> history \<Rightarrow>
    history \<times> object_ref list \<times> listing_end" where
  "list_pages 0 svc prefix psize after token h = (h, [], OutOfFuel)"
| "list_pages (Suc n) svc prefix psize after token h =
     (let cmd = ListObjects prefix psize after token
      in case svc h cmd of
           Inl x \<Rightarrow> (cmd # h, [], ListFailed (classify_exception (Raised x)))
         | Inr (RPage refs truncated next_token) \<Rightarrow>
             (let refs' = map (\<lambda>r. r\<lparr>or_etag := clean_etag (Some (or_etag r))\<rparr>) refs
              in case next_token of
                   Some (t # ts) \<Rightarrow>
                     if truncated
                     then (let (h', more, fin) = list_pages n svc prefix psize after (Some (t # ts)) (cmd # h)
                           in (h', refs' @ more, fin))
                     else (cmd # h, refs', Listed)
                 | _ \<Rightarrow> (cmd # h, refs', Listed))
         | Inr _ \<Rightarrow> (cmd # h, [], ListFailed (classify_exception (Raised (key_error ''Key'')))))"

definition list_prefix :: "nat \<Rightarrow> service \<Rightarrow> s3_client \<Rightarrow> string \<Rightarrow> nat \<Rightarrow> string option \<Rightarrow> history \<Rightarrow>
    history \<times> object_ref list \<times> listing_end" where
  "list_prefix fuel svc c prefix page_size start_after h =
     (case unready True c of
        Some e \<Rightarrow> (h, [], ListFailed e)
      | None \<Rightarrow>
          list_pages fuel svc prefix page_size
            (case start_after of Some (a # as) \<Rightarrow> Some (a # as) | _ \<Rightarrow> None) None h)"

fun prefix_pages :: "nat \<Rightarrow> service \<Rightarrow> string \<Rightarrow> string \<Rightarrow> string option \<Rightarrow> history \<Rightarrow>
    history \<times> string list \<times> listing_end" where
  "prefix_pages 0 svc prefix delim token h = (h, [], OutOfFuel)"
| "prefix_pages (Suc n) svc prefix delim token h =
     (let cmd = ListPrefixes prefix delim token
      in case svc h cmd of
           Inl x \<Rightarrow> (cmd # h, [], ListFailed (classify_exception (Raised x)))
         | Inr (RPrefixPage ps truncated next_token) \<Rightarrow>
             (case next_token of
                Some (t # ts) \<Rightarrow>
                  if truncated
                  then (let (h', more, fin) = prefix_pages n svc prefix delim (Some (t # ts)) (cmd # h)
                        in (h', ps @ more, fin))
                  else (cmd # h, ps, Listed)
              | _ \<Rightarrow> (cmd # h, ps, Listed))
         | Inr _ \<Rightarrow> (cmd # h, [], ListFailed (classify_exception (Raised (key_error ''Prefix'')))))"

definition list_common_prefixes :: "nat \<Rightarrow> service \<Rightarrow> s3_client \<Rightarrow> string \<Rightarrow> history \<Rightarrow>
    history \<times> (transfer_error + string list) option" where
  "list_common_prefixes fuel svc c prefix h =
     (case unready False c of
        Some e \<Rightarrow> (h, Some (Inl e))
      | None \<Rightarrow>
          (case prefix_pages fuel svc prefix ''/'' None h of
             (h', ps, Listed) \<Rightarrow> (h', Some (Inr ps))
           | (h', _, ListFailed e) \<Rightarrow> (h', Some (Inl e))
           | (h', _, OutOfFuel) \<Rightarrow> (h', None)))"

section \<open>Writing\<close>

definition with_digest :: "(string \<times> string) list \<Rightarrow> string \<Rightarrow> (string \<times> string) list" where
  "with_digest meta d = AList.update ''c2w-sha256'' d meta"

definition nonempty :: "string option \<Rightarrow> string option" where
  "nonempty s = (case s of Some (c # cs) \<Rightarrow> Some (c # cs) | _ \<Rightarrow> None)"

text \<open>\<open>put_object\<close> of a whole body, with or without the transport checksum.\<close>

definition put_object :: "service \<Rightarrow> s3_client \<Rightarrow> string \<Rightarrow> bytes \<Rightarrow> (string \<times> string) list \<Rightarrow>
    string option \<Rightarrow> string option \<Rightarrow> string \<Rightarrow> history \<Rightarrow>
    history \<times> (transfer_error + upload_result)" where
  "put_object svc c key data meta checksum content_type digest h =
     (case unready False c of
        Some e \<Rightarrow> (h, Inl e)
      | None \<Rightarrow>
          (let cmd = PutObject key data meta checksum (nonempty content_type)
           in (cmd # h,
               (case svc h cmd of
                  Inl x \<Rightarrow> Inl (classify_exception (Raised x))
                | Inr r \<Rightarrow>
                    Inr \<lparr>ur_key = key, ur_size = length data,
                         ur_etag = clean_etag (case r of RTag t \<Rightarrow> t | _ \<Rightarrow> None),
                         ur_checksum_sha256 = digest, ur_multipart = False, ur_parts = 1\<rparr>))))"

definition put_bytes :: "service \<Rightarrow> (bytes \<Rightarrow> string) \<Rightarrow> s3_client \<Rightarrow> string \<Rightarrow> bytes \<Rightarrow>
    string option \<Rightarrow> (string \<times> string) list \<Rightarrow> history \<Rightarrow>
    history \<times> (transfer_error + upload_result)" where
  "put_bytes svc sha c key data content_type meta h =
     put_object svc c key data (with_digest meta (sha data)) None content_type (sha data) h"

definition put_small :: "service \<Rightarrow> (bytes \<Rightarrow> string) \<Rightarrow> s3_client \<Rightarrow> string \<Rightarrow> bytes \<Rightarrow>
    string option \<Rightarrow> (string \<times> string) list \<Rightarrow> history \<Rightarrow>
    history \<times> (transfer_error + upload_result)" where
  "put_small svc sha c key data content_type meta h =
     put_object svc c key data (with_digest meta (sha data)) (Some (sha data)) content_type (sha data) h"

definition choose_part_size :: "s3_client \<Rightarrow> nat option \<Rightarrow> nat" where
  "choose_part_size c size_hint =
     (let part = cl_multipart_chunk c;
          part' = (case size_hint of
                     Some n \<Rightarrow> if part * MAX_PARTS < n then max part ((n + MAX_PARTS - 1) div MAX_PARTS)
                               else part
                   | None \<Rightarrow> part)
      in max part' MIN_PART_SIZE)"

definition upload_part :: "service \<Rightarrow> string \<Rightarrow> string \<Rightarrow> nat \<Rightarrow> bytes \<Rightarrow> history \<Rightarrow>
    history \<times> (raised + string \<times> nat)" where
  "upload_part svc key uid number body h =
     (let cmd = UploadPart key uid number body
      in (cmd # h,
          (case svc h cmd of
             Inl x \<Rightarrow> Inl x
           | Inr (RTag (Some t)) \<Rightarrow> Inr (t, number)
           | Inr _ \<Rightarrow> Inl (key_error ''ETag''))))"

text \<open>The parts of one chunk, numbered on from those done.\<close>

fun upload_parts :: "service \<Rightarrow> string \<Rightarrow> string \<Rightarrow> bytes list \<Rightarrow> (string \<times> nat) list \<Rightarrow> history \<Rightarrow>
    history \<times> (raised + (string \<times> nat) list)" where
  "upload_parts svc key uid [] parts h = (h, Inr parts)"
| "upload_parts svc key uid (p # ps) parts h =
     (case upload_part svc key uid (length parts + 1) p h of
        (h', Inl x) \<Rightarrow> (h', Inl x)
      | (h', Inr t) \<Rightarrow> upload_parts svc key uid ps (parts @ [t]) h')"

text \<open>The chunks of the stream through the buffer; an empty chunk is passed over.\<close>

fun upload_chunks :: "service \<Rightarrow> string \<Rightarrow> string \<Rightarrow> nat \<Rightarrow> bytes list \<Rightarrow> stream_end \<Rightarrow> bytes \<Rightarrow>
    (string \<times> nat) list \<Rightarrow> history \<Rightarrow> history \<times> (storage_exc + bytes \<times> (string \<times> nat) list)" where
  "upload_chunks svc key uid target [] fin buf parts h =
     (h, case fin of EndOk \<Rightarrow> Inr (buf, parts) | EndExc x \<Rightarrow> Inl x)"
| "upload_chunks svc key uid target (chunk # chunks) fin buf parts h =
     (if chunk = [] then upload_chunks svc key uid target chunks fin buf parts h
      else (let (full, rest) = buffer_add target buf chunk
            in case upload_parts svc key uid full parts h of
                 (h', Inl x) \<Rightarrow> (h', Inl (Raised x))
               | (h', Inr parts') \<Rightarrow> upload_chunks svc key uid target chunks fin rest parts' h'))"

text \<open>The tail, then the completion.\<close>

definition finish_upload :: "service \<Rightarrow> string \<Rightarrow> string \<Rightarrow> bytes \<Rightarrow> (string \<times> nat) list \<Rightarrow> history \<Rightarrow>
    history \<times> (raised + string option \<times> nat)" where
  "finish_upload svc key uid tail parts h =
     (case (if tail \<noteq> [] \<or> parts = [] then upload_parts svc key uid [tail] parts h else (h, Inr parts)) of
        (h1, Inl x) \<Rightarrow> (h1, Inl x)
      | (h1, Inr parts1) \<Rightarrow>
          (let cmd = CompleteMultipart key uid parts1
           in (cmd # h1,
               (case svc h1 cmd of
                  Inl x \<Rightarrow> Inl x
                | Inr r \<Rightarrow> Inr (case r of RTag t \<Rightarrow> t | _ \<Rightarrow> None, length parts1)))))"

text \<open>The body of the \<open>try\<close> after the upload was created; the abort ignores its own failure.\<close>

definition multipart_body :: "service \<Rightarrow> s3_client \<Rightarrow> string \<Rightarrow> string \<Rightarrow> stream \<Rightarrow> nat \<Rightarrow> history \<Rightarrow>
    history \<times> (storage_exc + string option \<times> nat)" where
  "multipart_body svc c key uid stream part_size h =
     (case upload_chunks svc key uid part_size (fst stream) (snd stream) [] [] h of
        (h1, Inl x) \<Rightarrow> (h1, Inl x)
      | (h1, Inr (tail, parts)) \<Rightarrow>
          (case finish_upload svc key uid tail parts h1 of
             (h2, Inl x) \<Rightarrow> (h2, Inl (Raised x))
           | (h2, Inr r) \<Rightarrow> (h2, Inr r)))"

definition put_multipart :: "service \<Rightarrow> (bytes \<Rightarrow> string) \<Rightarrow> s3_client \<Rightarrow> string \<Rightarrow> stream \<Rightarrow> nat option \<Rightarrow>
    string option \<Rightarrow> (string \<times> string) list \<Rightarrow> history \<Rightarrow>
    history \<times> (transfer_error + upload_result)" where
  "put_multipart svc sha c key stream size_hint content_type meta h =
     (case unready False c of
        Some e \<Rightarrow> (h, Inl e)
      | None \<Rightarrow>
          (let create = CreateMultipart key meta (nonempty content_type)
           in case svc h create of
                Inl x \<Rightarrow> (create # h, Inl (classify_exception (Raised x)))
              | Inr (RUpload uid) \<Rightarrow>
                  (case multipart_body svc c key uid stream (choose_part_size c size_hint) (create # h) of
                     (h1, Inl x) \<Rightarrow>
                       (if uid \<noteq> [] then AbortMultipart key uid # h1 else h1, Inl (classify_exception x))
                   | (h1, Inr (etag, n)) \<Rightarrow>
                       (let data = concat (fst stream); digest = sha data
                        in (CopyObject key (with_digest meta digest) (nonempty content_type) # h1,
                            Inr \<lparr>ur_key = key, ur_size = length data, ur_etag = clean_etag etag,
                                 ur_checksum_sha256 = digest, ur_multipart = True, ur_parts = n\<rparr>)))
              | Inr _ \<Rightarrow> (create # h, Inl (classify_exception (Raised (key_error ''UploadId''))))))"

definition put_stream :: "service \<Rightarrow> (bytes \<Rightarrow> string) \<Rightarrow> s3_client \<Rightarrow> string \<Rightarrow> stream \<Rightarrow> nat option \<Rightarrow>
    string option \<Rightarrow> (string \<times> string) list \<Rightarrow> history \<Rightarrow>
    history \<times> (storage_exc + upload_result)" where
  "put_stream svc sha c key stream size_hint content_type meta h =
     (let classified = (\<lambda>(h', r). (h', case r of Inl e \<Rightarrow> Inl (Classified e) | Inr u \<Rightarrow> Inr u))
      in if (case size_hint of Some n \<Rightarrow> n < cl_multipart_threshold c | None \<Rightarrow> False)
         then (case snd stream of
                 EndExc x \<Rightarrow> (h, Inl x)
               | EndOk \<Rightarrow> classified (put_small svc sha c key (concat (fst stream)) content_type meta h))
         else classified (put_multipart svc sha c key stream size_hint content_type meta h))"

section \<open>The rest\<close>

definition presign_get :: "service \<Rightarrow> s3_client \<Rightarrow> string \<Rightarrow> nat \<Rightarrow> string option \<Rightarrow> history \<Rightarrow>
    history \<times> (transfer_error + string)" where
  "presign_get svc c key ttl_seconds download_filename h =
     (case unready True c of
        Some e \<Rightarrow> (h, Inl e)
      | None \<Rightarrow>
          (let disposition = map_option (\<lambda>f. ''attachment; filename='' @ [CHR 0x22]
                 @ filter (\<lambda>x. x \<noteq> CHR 0x22) f @ [CHR 0x22]) (nonempty download_filename);
               cmd = PresignGet key ttl_seconds disposition
           in (cmd # h,
               (case svc h cmd of
                  Inl x \<Rightarrow> Inl (classify_exception (Raised x))
                | Inr (RUrl u) \<Rightarrow> Inr u
                | Inr _ \<Rightarrow> Inl (classify_exception (Raised (key_error ''Url'')))))))"

definition simple_call :: "service \<Rightarrow> s3_client \<Rightarrow> s3_call \<Rightarrow> history \<Rightarrow>
    history \<times> (transfer_error + unit)" where
  "simple_call svc c cmd h =
     (case unready False c of
        Some e \<Rightarrow> (h, Inl e)
      | None \<Rightarrow> (cmd # h, (case svc h cmd of
                             Inl x \<Rightarrow> Inl (classify_exception (Raised x)) | Inr _ \<Rightarrow> Inr ())))"

definition delete :: "service \<Rightarrow> s3_client \<Rightarrow> string \<Rightarrow> history \<Rightarrow> history \<times> (transfer_error + unit)" where
  "delete svc c key h = simple_call svc c (DeleteObject key) h"

definition probe :: "service \<Rightarrow> s3_client \<Rightarrow> history \<Rightarrow> history \<times> (transfer_error + unit)" where
  "probe svc c h = simple_call svc c (ListObjects [] 1 None None) h"

section \<open>The token bucket keeps its rate\<close>

lemma acquire_round_grant:
  assumes "acquire_round amount now r = (r', None)" "0 < rl_rate r" "rl_updated r \<le> now"
  shows "rl_tokens r' + of_nat amount \<le> rl_tokens r + (now - rl_updated r) * rl_rate r"
    "rl_updated r' = now" "rl_rate r' = rl_rate r" "rl_capacity r' = rl_capacity r"
    "of_nat amount \<le> rl_capacity r \<Longrightarrow> 0 \<le> rl_tokens r'"
    "rl_tokens r' \<le> rl_capacity r'"
  using assms by (auto simp: acquire_round_def Let_def min_def split: if_splits)

lemma acquire_round_wait:
  assumes "acquire_round amount now r = (r', Some s)" "0 < rl_rate r" "rl_updated r \<le> now"
  shows "rl_tokens r' \<le> rl_tokens r + (now - rl_updated r) * rl_rate r"
    "rl_updated r' = now" "rl_rate r' = rl_rate r" "rl_capacity r' = rl_capacity r"
    "rl_tokens r' \<le> rl_capacity r'"
    "rl_tokens r \<le> rl_capacity r \<Longrightarrow>
       rl_tokens r' = rl_tokens r + (now - rl_updated r) * rl_rate r"
  using assms by (auto simp: acquire_round_def Let_def min_def field_simps split: if_splits)

lemma acquire_loop_grant:
  assumes "acquire_loop amount nows r = Some r'" "0 < rl_rate r" "sorted (rl_updated r # nows)"
  shows "rl_tokens r' + of_nat amount \<le> rl_tokens r + (rl_updated r' - rl_updated r) * rl_rate r \<and>
    rl_updated r \<le> rl_updated r' \<and> rl_updated r' \<in> set nows \<and>
    rl_rate r' = rl_rate r \<and> rl_capacity r' = rl_capacity r \<and>
    (of_nat amount \<le> rl_capacity r \<longrightarrow> 0 \<le> rl_tokens r') \<and> rl_tokens r' \<le> rl_capacity r'"
  using assms
proof (induction amount nows r arbitrary: r' rule: acquire_loop.induct)
  case (1 amount r)
  then show ?case by simp
next
  case (2 amount now nows r)
  obtain r1 w where round: "acquire_round amount now r = (r1, w)" by fastforce
  show ?case
  proof (cases w)
    case None
    with 2 round acquire_round_grant [of amount now r r1] show ?thesis by auto
  next
    case (Some s)
    with round 2(4) have w: "rl_tokens r1 \<le> rl_tokens r + (now - rl_updated r) * rl_rate r"
      "rl_updated r1 = now" "rl_rate r1 = rl_rate r" "rl_capacity r1 = rl_capacity r"
      using acquire_round_wait [of amount now r r1 s] 2(3) by auto
    have le: "rl_updated r \<le> now" using 2(4) by simp
    have "rl_tokens r' + of_nat amount \<le> rl_tokens r1 + (rl_updated r' - rl_updated r1) * rl_rate r1 \<and>
      rl_updated r1 \<le> rl_updated r' \<and> rl_updated r' \<in> set nows \<and>
      rl_rate r' = rl_rate r1 \<and> rl_capacity r' = rl_capacity r1 \<and>
      (of_nat amount \<le> rl_capacity r1 \<longrightarrow> 0 \<le> rl_tokens r') \<and> rl_tokens r' \<le> rl_capacity r'"
      using 2(2-4) round Some w by (intro 2(1) [OF round [symmetric]]) auto
    with w le show ?thesis by (auto simp: algebra_simps)
  qed
qed

text \<open>Requests one after the other, each with the clock readings its loop makes.\<close>

fun acquire_all :: "(nat \<times> rat list) list \<Rightarrow> rate_limiter \<Rightarrow> rate_limiter option" where
  "acquire_all [] r = Some r"
| "acquire_all ((amount, nows) # reqs) r =
     (case acquire amount nows r of None \<Rightarrow> None | Some r' \<Rightarrow> acquire_all reqs r')"

text \<open>The clock never runs backwards over the readings of a run.\<close>

fun clock_ok :: "rat \<Rightarrow> (nat \<times> rat list) list \<Rightarrow> bool" where
  "clock_ok t [] = True"
| "clock_ok t ((amount, nows) # reqs) = (sorted (t # nows) \<and> clock_ok (last (t # nows)) reqs)"

lemma clock_ok_mono: "clock_ok t reqs \<Longrightarrow> t' \<le> t \<Longrightarrow> clock_ok t' reqs"
proof (induction t reqs arbitrary: t' rule: clock_ok.induct)
  case (2 t amount nows reqs)
  then show ?case by (cases nows) auto
qed simp

lemma acquire_all_rate:
  assumes "acquire_all reqs r = Some r'" "0 < rl_rate r" "clock_ok (rl_updated r) reqs"
    and "\<forall>(a, _) \<in> set reqs. of_nat a \<le> rl_capacity r" "0 \<le> rl_tokens r"
    "rl_tokens r \<le> rl_capacity r"
  shows "of_nat (sum_list (map fst reqs)) + rl_tokens r' \<le>
      rl_tokens r + rl_rate r * (rl_updated r' - rl_updated r) \<and> 0 \<le> rl_tokens r' \<and>
    rl_rate r' = rl_rate r \<and> rl_capacity r' = rl_capacity r \<and> rl_tokens r' \<le> rl_capacity r'"
  using assms
proof (induction reqs arbitrary: r)
  case Nil
  then show ?case by simp
next
  case (Cons req reqs)
  obtain a nows where req: "req = (a, nows)" by (cases req)
  from Cons.prems(1) req obtain r1 where r1: "acquire a nows r = Some r1" "acquire_all reqs r1 = Some r'"
    by (auto split: option.splits)
  have sorted: "sorted (rl_updated r # nows)" and rest: "clock_ok (last (rl_updated r # nows)) reqs"
    using Cons.prems(3) req by auto
  have step: "rl_tokens r1 + of_nat a \<le> rl_tokens r + (rl_updated r1 - rl_updated r) * rl_rate r \<and>
      rl_updated r1 \<le> last (rl_updated r # nows) \<and> rl_rate r1 = rl_rate r \<and>
      rl_capacity r1 = rl_capacity r \<and> 0 \<le> rl_tokens r1 \<and> rl_tokens r1 \<le> rl_capacity r1"
  proof (cases "a = 0")
    case True
    have "rl_updated r \<le> last (rl_updated r # nows)"
      using sorted by (cases nows rule: rev_cases) auto
    with True r1 Cons.prems show ?thesis by (simp add: acquire_def)
  next
    case False
    with r1(1) Cons.prems(2) have loop: "acquire_loop a nows r = Some r1"
      by (simp add: acquire_def rl_enabled_def)
    have "x \<le> last nows" if "x \<in> set nows" for x
      using that sorted by (cases nows rule: rev_cases) (auto simp: sorted_append)
    with acquire_loop_grant [OF loop Cons.prems(2) sorted] Cons.prems(4) req show ?thesis by auto
  qed
  from rest step have "clock_ok (rl_updated r1) reqs" by (blast intro: clock_ok_mono)
  with Cons.IH [OF r1(2)] step Cons.prems(2,4) have
    "of_nat (sum_list (map fst reqs)) + rl_tokens r' \<le>
      rl_tokens r1 + rl_rate r1 * (rl_updated r' - rl_updated r1) \<and> 0 \<le> rl_tokens r' \<and>
      rl_rate r' = rl_rate r1 \<and> rl_capacity r' = rl_capacity r1 \<and> rl_tokens r' \<le> rl_capacity r'"
    by auto
  with step req show ?case by (auto simp: algebra_simps)
qed

lemma acquire_loop_eventually:
  assumes "0 < rl_rate r" "sorted (rl_updated r # nows)" "nows \<noteq> []" "rl_tokens r \<le> rl_capacity r"
    and "rl_updated r + (min (of_nat amount) (rl_capacity r) - rl_tokens r) / rl_rate r \<le> last nows"
  shows "acquire_loop amount nows r \<noteq> None"
  using assms
proof (induction amount nows r rule: acquire_loop.induct)
  case (1 amount r)
  then show ?case by simp
next
  case (2 amount now nows r)
  obtain r1 w where round: "acquire_round amount now r = (r1, w)" by fastforce
  show ?case
  proof (cases w)
    case None
    with round show ?thesis by simp
  next
    case (Some s)
    have le: "rl_updated r \<le> now" using 2(3) by simp
    note w = acquire_round_wait [OF round [unfolded Some] 2(2) le]
    have eq: "rl_tokens r1 = rl_tokens r + (now - rl_updated r) * rl_rate r" using w(6) 2(5) by simp
    have need: "rl_updated r1 + (min (of_nat amount) (rl_capacity r1) - rl_tokens r1) / rl_rate r1 \<le> last (now # nows)"
      using 2(2,6) w eq by (simp add: field_simps)
    have "rl_tokens r1 < min (of_nat amount) (rl_capacity r1)"
      using round Some by (auto simp: acquire_round_def Let_def split: if_splits)
    then have "nows \<noteq> []" using need w(2) 2(2) w(3)
      by (cases nows) (auto simp: field_simps)
    then have "acquire_loop amount nows r1 \<noteq> None"
      using 2(2,3) need w by (intro 2(1) [OF round [symmetric] Some]) auto
    with round Some show ?thesis by simp
  qed
qed

text \<open>The token bucket keeps the link's rate: over any run of granted requests no larger than the
bucket, the bytes granted stay within the capacity plus the rate times the time since the start,
however idle the bucket had been; and no request starves: it is granted by the first clock reading
after the time its missing tokens take to accrue, even when it is larger than the whole bucket.\<close>

theorem rate_limiter_rate:
  assumes "acquire_all reqs (new_rate_limiter rate burst t0) = Some r'" "0 < rate"
    and "clock_ok t0 reqs" "\<forall>(a, _) \<in> set reqs. of_nat a \<le> max (rate * burst) 1"
  shows "of_nat (sum_list (map fst reqs)) \<le> max (rate * burst) 1 + rate * (rl_updated r' - t0) \<and>
    (sorted (rl_updated r' # nows) \<and> nows \<noteq> [] \<and>
      rl_updated r' + (min (of_nat amount) (rl_capacity r') - rl_tokens r') / rate \<le> last nows
      \<longrightarrow> acquire amount nows r' \<noteq> None)"
proof -
  let ?r = "new_rate_limiter rate burst t0"
  have r: "rl_rate ?r = rate" "rl_capacity ?r = max (rate * burst) 1"
    "rl_tokens ?r = max (rate * burst) 1" "rl_updated ?r = t0"
    using assms(2) by (auto simp: new_rate_limiter_def Let_def)
  have end_state: "of_nat (sum_list (map fst reqs)) + rl_tokens r' \<le>
      rl_tokens ?r + rl_rate ?r * (rl_updated r' - rl_updated ?r) \<and> 0 \<le> rl_tokens r' \<and>
    rl_rate r' = rl_rate ?r \<and> rl_capacity r' = rl_capacity ?r \<and> rl_tokens r' \<le> rl_capacity r'"
    using assms r by (intro acquire_all_rate) auto
  moreover from this have "acquire amount nows r' \<noteq> None" if "sorted (rl_updated r' # nows)" "nows \<noteq> []"
      "rl_updated r' + (min (of_nat amount) (rl_capacity r') - rl_tokens r') / rate \<le> last nows"
    using acquire_loop_eventually [of r' nows amount] that assms(2) r end_state by (auto simp: acquire_def)
  ultimately show ?thesis using r by auto
qed

theorem rate_limiter_rate_witness:
  "\<exists>r. acquire_all [(6, [0]), (6, [1 / 8, 1 / 4])] (new_rate_limiter 10 1 0) = Some r \<and>
     (12 :: rat) \<le> 10 + 10 * (rl_updated r - 0)"
proof -
  have run: "acquire_all [(6, [0]), (6, [1 / 8, 1 / 4])] (new_rate_limiter 10 1 0)
      = Some \<lparr>rl_rate = 10, rl_capacity = 10, rl_tokens = 1 / 2, rl_updated = 1 / 4\<rparr>"
    by code_simp
  show ?thesis
    using rate_limiter_rate [OF run, of "[]" 0] run by simp
qed

section \<open>The parts of an upload are the stream\<close>

lemma drain_all:
  assumes "drain target buf = (parts, rest)"
  shows "concat parts @ rest = buf \<and> (\<forall>p \<in> set parts. length p = target) \<and>
    (0 < target \<longrightarrow> length rest < target)"
  using assms
proof (induction target buf arbitrary: parts rest rule: drain.induct)
  case (1 target buf)
  show ?case
  proof (cases "0 < target \<and> target \<le> length buf")
    case True
    obtain ps r where rec: "drain target (drop target buf) = (ps, r)" by fastforce
    with True 1(2) have "parts = take target buf # ps" "rest = r"
      by (simp_all add: drain.simps [of target buf])
    with "1.IH" [OF True rec] True show ?thesis by auto
  next
    case False
    with 1(2) have "parts = []" "rest = buf" by (auto simp: drain.simps [of target buf])
    with False show ?thesis by auto
  qed
qed

lemmas drain_spec = drain_all [THEN conjunct1] drain_all [THEN conjunct2, THEN conjunct1]
  drain_all [THEN conjunct2, THEN conjunct2, rule_format]

text \<open>The calls of a run of parts, numbered from \<open>n\<close>.\<close>

fun part_calls :: "string \<Rightarrow> string \<Rightarrow> nat \<Rightarrow> bytes list \<Rightarrow> s3_call list" where
  "part_calls key uid n [] = []"
| "part_calls key uid n (p # ps) = UploadPart key uid n p # part_calls key uid (Suc n) ps"

lemma part_calls_append:
  "part_calls key uid n (ps @ qs) = part_calls key uid n ps @ part_calls key uid (n + length ps) qs"
  by (induction ps arbitrary: n) auto

lemma upload_parts_Inr:
  assumes "upload_parts svc key uid ps parts h = (h', Inr parts')"
  shows "h' = rev (part_calls key uid (length parts + 1) ps) @ h \<and>
    length parts' = length parts + length ps \<and>
    (map snd parts = [1..<length parts + 1] \<longrightarrow> map snd parts' = [1..<length parts' + 1])"
  using assms
  by (induction ps arbitrary: parts h)
    (fastforce simp: upload_part_def Let_def split: prod.splits sum.splits s3_resp.splits option.splits)+

lemma upload_chunks_Inr:
  assumes "upload_chunks svc key uid target chunks fin buf parts h = (h', Inr (tail, parts'))"
    and "0 < target" "length buf < target"
  shows "fin = EndOk \<and> (\<exists>ps. h' = rev (part_calls key uid (length parts + 1) ps) @ h \<and>
      concat ps @ tail = buf @ concat chunks \<and> (\<forall>p \<in> set ps. length p = target) \<and>
      length tail < target \<and> length parts' = length parts + length ps \<and>
      (map snd parts = [1..<length parts + 1] \<longrightarrow> map snd parts' = [1..<length parts' + 1]))"
  using assms
proof (induction chunks arbitrary: buf parts h)
  case Nil
  then show ?case by (auto split: stream_end.splits intro!: exI [of _ "[]"])
next
  case (Cons chunk chunks)
  show ?case
  proof (cases "chunk = []")
    case True
    with Cons show ?thesis by auto
  next
    case False
    obtain full rest where add: "buffer_add target buf chunk = (full, rest)" by fastforce
    note d = drain_spec [OF add [unfolded buffer_add_def]]
    from False Cons.prems add obtain parts1 h1 where
      up: "upload_parts svc key uid full parts h = (h1, Inr parts1)" and
      run: "upload_chunks svc key uid target chunks fin rest parts1 h1 = (h', Inr (tail, parts'))"
      by (auto split: prod.splits sum.splits)
    note u = upload_parts_Inr [OF up]
    from Cons.IH [OF run Cons.prems(2) d(3) [OF Cons.prems(2)]] obtain ps where
      ps: "fin = EndOk" "h' = rev (part_calls key uid (length parts1 + 1) ps) @ h1"
      "concat ps @ tail = rest @ concat chunks" "\<forall>p \<in> set ps. length p = target"
      "length tail < target" "length parts' = length parts1 + length ps"
      "map snd parts1 = [1..<length parts1 + 1] \<longrightarrow> map snd parts' = [1..<length parts' + 1]"
      by blast
    have "concat (full @ ps) @ tail = buf @ concat (chunk # chunks)"
      using d(1) ps(3) by (metis append.assoc concat.simps(2) concat_append)
    with ps u d(2) show ?thesis
      by (intro conjI exI [of _ "full @ ps"]) (auto simp: part_calls_append)
  qed
qed

lemma finish_upload_Inr:
  assumes "finish_upload svc key uid tail parts h = (h', Inr (etag, n))"
    and "map snd parts = [1..<length parts + 1]"
  shows "\<exists>ps parts'. ps = (if tail \<noteq> [] \<or> parts = [] then [tail] else []) \<and>
    h' = CompleteMultipart key uid parts' # rev (part_calls key uid (length parts + 1) ps) @ h \<and>
    map snd parts' = [1..<n + 1] \<and> n = length parts + length ps \<and> length parts' = n"
proof -
  let ?ps = "if tail \<noteq> [] \<or> parts = [] then [tail] else []"
  have "(if tail \<noteq> [] \<or> parts = [] then upload_parts svc key uid [tail] parts h else (h, Inr parts))
      = upload_parts svc key uid ?ps parts h"
    by simp
  with assms(1) obtain h1 parts1 where up: "upload_parts svc key uid ?ps parts h = (h1, Inr parts1)"
    and "h' = CompleteMultipart key uid parts1 # h1" "n = length parts1"
    unfolding finish_upload_def by (auto simp: Let_def split: prod.splits sum.splits)
  with upload_parts_Inr [OF up] assms(2) show ?thesis by auto
qed

lemma choose_part_size_pos [simp]: "0 < choose_part_size c shint"
  by (simp add: choose_part_size_def Let_def MIN_PART_SIZE_def)

lemma put_multipart_stream_facts:
  assumes "put_multipart svc sha c key (chunks, fin) shint ctype meta h = (h', Inr u)"
  shows "\<exists>uid ps tags.
    h' = rev ([CreateMultipart key meta (nonempty ctype)] @ part_calls key uid 1 ps @
        [CompleteMultipart key uid tags,
         CopyObject key (with_digest meta (sha (concat chunks))) (nonempty ctype)]) @ h \<and>
    concat ps = concat chunks \<and> ps \<noteq> [] \<and> map snd tags = [1..<length ps + 1] \<and>
    (\<forall>p \<in> set (butlast ps). length p = choose_part_size c shint) \<and>
    length (last ps) \<le> choose_part_size c shint \<and> (1 < length ps \<longrightarrow> last ps \<noteq> []) \<and> fin = EndOk \<and>
    ur_key u = key \<and> ur_size u = length (concat chunks) \<and> ur_checksum_sha256 u = sha (concat chunks) \<and>
    ur_multipart u \<and> ur_parts u = length ps"
proof -
  let ?t = "choose_part_size c shint"
  let ?create = "CreateMultipart key meta (nonempty ctype)"
  from assms obtain uid h1 etag n where body:
      "multipart_body svc c key uid (chunks, fin) ?t (?create # h) = (h1, Inr (etag, n))"
    and h': "h' = CopyObject key (with_digest meta (sha (concat chunks))) (nonempty ctype) # h1"
    and u: "u = \<lparr>ur_key = key, ur_size = length (concat chunks), ur_etag = clean_etag etag,
       ur_checksum_sha256 = sha (concat chunks), ur_multipart = True, ur_parts = n\<rparr>"
    unfolding put_multipart_def
    by (auto simp: Let_def split: option.splits sum.splits s3_resp.splits prod.splits)
  from body obtain tail parts h0 where
      up: "upload_chunks svc key uid ?t chunks fin [] [] (?create # h) = (h0, Inr (tail, parts))"
    and fi: "finish_upload svc key uid tail parts h0 = (h1, Inr (etag, n))"
    unfolding multipart_body_def by (auto split: prod.splits sum.splits)
  from upload_chunks_Inr [OF up] obtain ps where ps: "fin = EndOk"
      "h0 = rev (part_calls key uid 1 ps) @ ?create # h" "concat ps @ tail = concat chunks"
      "\<forall>p \<in> set ps. length p = ?t" "length tail < ?t" "length parts = length ps"
      "map snd parts = [1..<length parts + 1]"
    by auto
  from finish_upload_Inr [OF fi ps(7)] obtain qs tags where
      qs: "qs = (if tail \<noteq> [] \<or> parts = [] then [tail] else [])"
      "h1 = CompleteMultipart key uid tags # rev (part_calls key uid (length parts + 1) qs) @ h0"
      "map snd tags = [1..<n + 1]" "n = length parts + length qs"
    by blast
  let ?all = "ps @ qs"
  have calls: "h' = rev ([?create] @ part_calls key uid 1 ?all @ [CompleteMultipart key uid tags,
      CopyObject key (with_digest meta (sha (concat chunks))) (nonempty ctype)]) @ h"
    using h' qs(2) ps(2,6) by (simp add: part_calls_append)
  have joined: "concat ?all = concat chunks" using ps(3,6) qs(1) by auto
  have ne: "?all \<noteq> []" using ps(6) qs(1) by auto
  have sizes: "(\<forall>p \<in> set (butlast ?all). length p = ?t) \<and> length (last ?all) \<le> ?t"
    using ps(4-6) qs(1) ne by (auto simp: butlast_append dest: in_set_butlastD)
  have tail: "1 < length ?all \<longrightarrow> last ?all \<noteq> []"
  proof (cases "qs = []")
    case True
    then have "last ?all \<in> set ps" using ne by simp
    with ps(4) have "length (last ?all) = ?t" by blast
    then show ?thesis using choose_part_size_pos [of c shint] by (metis less_irrefl list.size(3))
  next
    case False
    then show ?thesis using qs(1) ps(6) by (auto split: if_splits)
  qed
  show ?thesis
    using calls joined ne qs(3,4) sizes tail ps(1,6) u
    by (intro exI [of _ uid] exI [of _ ?all] exI [of _ tags]) simp
qed

text \<open>C40: A multipart upload that succeeds wrote the stream: its calls are the creation, the parts
numbered from one without a gap, the completion naming them in that order and the copy that records
the digest; the part bodies joined are exactly the stream's bytes, every part but the last has the
chosen part size and the last is no larger; the stream ended without an error; and the size and the
checksum reported are those of the whole stream.\<close>

theorem put_multipart_uploads_stream:
  assumes "put_multipart svc sha c key (chunks, fin) shint ctype meta h = (h', Inr u)"
  shows "\<exists>uid ps tags.
    h' = rev ([CreateMultipart key meta (nonempty ctype)] @ part_calls key uid 1 ps @
        [CompleteMultipart key uid tags,
         CopyObject key (with_digest meta (sha (concat chunks))) (nonempty ctype)]) @ h \<and>
    concat ps = concat chunks \<and> ps \<noteq> [] \<and> map snd tags = [1..<length ps + 1] \<and>
    (\<forall>p \<in> set (butlast ps). length p = choose_part_size c shint) \<and>
    length (last ps) \<le> choose_part_size c shint \<and> (1 < length ps \<longrightarrow> last ps \<noteq> []) \<and> fin = EndOk \<and>
    ur_key u = key \<and> ur_size u = length (concat chunks) \<and> ur_checksum_sha256 u = sha (concat chunks) \<and>
    ur_multipart u \<and> ur_parts u = length ps"
  by (rule put_multipart_stream_facts [OF assms])

section \<open>A failed upload is aborted\<close>

lemma upload_parts_calls:
  assumes "upload_parts svc key uid ps parts h = (h', r)"
  shows "\<exists>qs. h' = qs @ h \<and> (\<forall>q \<in> set qs. \<exists>n b. q = UploadPart key uid n b)"
  using assms
proof (induction ps arbitrary: parts h)
  case Nil
  then show ?case by simp
next
  case (Cons p ps)
  obtain h1 r1 where part: "upload_part svc key uid (length parts + 1) p h = (h1, r1)" by fastforce
  then have h1: "h1 = UploadPart key uid (length parts + 1) p # h" by (simp add: upload_part_def Let_def)
  show ?case
  proof (cases r1)
    case (Inl x)
    with Cons.prems part h1 show ?thesis by (auto intro!: exI [of _ "[UploadPart key uid (length parts + 1) p]"])
  next
    case (Inr t)
    with Cons.prems part have "upload_parts svc key uid ps (parts @ [t]) h1 = (h', r)" by simp
    from Cons.IH [OF this] obtain qs where "h' = qs @ h1" "\<forall>q \<in> set qs. \<exists>n b. q = UploadPart key uid n b"
      by blast
    with h1 show ?thesis
      by (intro exI [of _ "qs @ [UploadPart key uid (length parts + 1) p]"]) auto
  qed
qed

lemma upload_chunks_calls:
  assumes "upload_chunks svc key uid target chunks fin buf parts h = (h', r)"
  shows "\<exists>qs. h' = qs @ h \<and> (\<forall>q \<in> set qs. \<exists>n b. q = UploadPart key uid n b)"
  using assms
proof (induction chunks arbitrary: buf parts h)
  case Nil
  then show ?case by simp
next
  case (Cons chunk chunks)
  show ?case
  proof (cases "chunk = []")
    case True
    with Cons show ?thesis by auto
  next
    case False
    obtain full rest where add: "buffer_add target buf chunk = (full, rest)" by fastforce
    obtain h1 r1 where up: "upload_parts svc key uid full parts h = (h1, r1)" by fastforce
    from upload_parts_calls [OF up] obtain qs where qs: "h1 = qs @ h" "\<forall>q \<in> set qs. \<exists>n b. q = UploadPart key uid n b"
      by blast
    show ?thesis
    proof (cases r1)
      case (Inl x)
      with False add up qs Cons.prems show ?thesis by auto
    next
      case (Inr parts1)
      with False add up Cons.prems
      have "upload_chunks svc key uid target chunks fin rest parts1 h1 = (h', r)" by simp
      from Cons.IH [OF this] obtain qs' where "h' = qs' @ h1" "\<forall>q \<in> set qs'. \<exists>n b. q = UploadPart key uid n b"
        by blast
      with qs show ?thesis by (intro exI [of _ "qs' @ qs"]) auto
    qed
  qed
qed

definition is_copy :: "s3_call \<Rightarrow> bool" where
  "is_copy c \<longleftrightarrow> (case c of CopyObject _ _ _ \<Rightarrow> True | _ \<Rightarrow> False)"

definition completed :: "service \<Rightarrow> history \<Rightarrow> bool" where
  "completed svc h \<longleftrightarrow> (case h of
     CompleteMultipart key uid parts # h' \<Rightarrow> (case svc h' (CompleteMultipart key uid parts) of Inr _ \<Rightarrow> True | Inl _ \<Rightarrow> False)
   | _ \<Rightarrow> False)"

lemma finish_upload_calls:
  assumes "finish_upload svc key uid tail parts h = (h', Inl x)"
  shows "\<exists>qs. h' = qs @ h \<and> (\<forall>q \<in> set qs. (\<exists>n b. q = UploadPart key uid n b) \<or>
      (\<exists>ps. q = CompleteMultipart key uid ps \<and> q = hd qs \<and> svc (tl h') q = Inl x))"
proof -
  let ?ps = "if tail \<noteq> [] \<or> parts = [] then [tail] else []"
  obtain h1 r1 where up: "upload_parts svc key uid ?ps parts h = (h1, r1)" by fastforce
  have eq: "(if tail \<noteq> [] \<or> parts = [] then upload_parts svc key uid [tail] parts h else (h, Inr parts))
      = (h1, r1)"
    using up by (cases "tail \<noteq> [] \<or> parts = []") (simp_all del: upload_parts.simps(2))
  from upload_parts_calls [OF up] obtain qs where qs: "h1 = qs @ h" "\<forall>q \<in> set qs. \<exists>n b. q = UploadPart key uid n b"
    by blast
  show ?thesis
  proof (cases r1)
    case (Inl y)
    with assms eq qs show ?thesis by (auto simp: finish_upload_def)
  next
    case (Inr parts1)
    with assms eq have "h' = CompleteMultipart key uid parts1 # h1" "svc h1 (CompleteMultipart key uid parts1) = Inl x"
      by (auto simp: finish_upload_def Let_def split: sum.splits)
    with qs show ?thesis by (intro exI [of _ "CompleteMultipart key uid parts1 # qs"]) auto
  qed
qed

text \<open>A multipart upload that fails leaves nothing behind: either it was refused before an upload
existed, or the failed upload's last call is its abort; nothing was copied, and the only completion
that can have been asked for is the one whose refusal is the failure.\<close>

theorem put_multipart_failure_aborts:
  assumes "put_multipart svc sha c key stream shint ctype meta h = (h', Inl e)"
  shows "(h' = h \<and> unready False c = Some e) \<or>
    (h' = [CreateMultipart key meta (nonempty ctype)] @ h \<and>
       (\<forall>uid. svc h (CreateMultipart key meta (nonempty ctype)) \<noteq> Inr (RUpload uid))) \<or>
    (\<exists>uid qs x. svc h (CreateMultipart key meta (nonempty ctype)) = Inr (RUpload uid) \<and>
       h' = (if uid \<noteq> [] then [AbortMultipart key uid] else []) @ qs @ [CreateMultipart key meta (nonempty ctype)] @ h \<and>
       e = classify_exception x \<and>
       (\<forall>q \<in> set qs. (\<exists>n b. q = UploadPart key uid n b) \<or>
          (\<exists>ps y h0. q = CompleteMultipart key uid ps \<and> svc h0 q = Inl y \<and> x = Raised y)))"
proof -
  let ?t = "choose_part_size c shint"
  let ?create = "CreateMultipart key meta (nonempty ctype)"
  consider (unready) "h' = h" "unready False c = Some e"
    | (refused) "h' = ?create # h" "\<forall>uid. svc h ?create \<noteq> Inr (RUpload uid)"
    | (body) uid h1 x where "svc h ?create = Inr (RUpload uid)"
        "multipart_body svc c key uid stream ?t (?create # h) = (h1, Inl x)"
        "h' = (if uid \<noteq> [] then AbortMultipart key uid # h1 else h1)" "e = classify_exception x"
    using assms unfolding put_multipart_def
    by (auto simp: Let_def split: option.splits sum.splits s3_resp.splits prod.splits)
  then show ?thesis
  proof cases
    case body
    obtain h0 r0 where up: "upload_chunks svc key uid ?t (fst stream) (snd stream) [] [] (?create # h) = (h0, r0)"
      by fastforce
    from upload_chunks_calls [OF up] obtain qs where qs: "h0 = qs @ ?create # h"
      "\<forall>q \<in> set qs. \<exists>n b. q = UploadPart key uid n b" by blast
    have "\<exists>qs. h1 = qs @ ?create # h \<and> (\<forall>q \<in> set qs. (\<exists>n b. q = UploadPart key uid n b) \<or>
          (\<exists>ps y h0. q = CompleteMultipart key uid ps \<and> svc h0 q = Inl y \<and> x = Raised y))"
    proof (cases r0)
      case (Inl y)
      with body(2) up qs show ?thesis by (auto simp: multipart_body_def)
    next
      case (Inr tp)
      obtain tail parts where tp: "tp = (tail, parts)" by fastforce
      with body(2) up Inr obtain y where fi: "finish_upload svc key uid tail parts h0 = (h1, Inl y)" "x = Raised y"
        by (auto simp: multipart_body_def split: prod.splits sum.splits)
      from finish_upload_calls [OF fi(1)] obtain ps where ps: "h1 = ps @ h0"
        "\<forall>q \<in> set ps. (\<exists>n b. q = UploadPart key uid n b) \<or>
          (\<exists>cs. q = CompleteMultipart key uid cs \<and> q = hd ps \<and> svc (tl h1) q = Inl y)"
        by blast
      show ?thesis
        by (rule exI [of _ "ps @ qs"]) (use ps qs fi(2) in \<open>auto; blast\<close>)
    qed
    then obtain qs where "h1 = qs @ ?create # h" "\<forall>q \<in> set qs. (\<exists>n b. q = UploadPart key uid n b) \<or>
          (\<exists>ps y h0. q = CompleteMultipart key uid ps \<and> svc h0 q = Inl y \<and> x = Raised y)"
      by blast
    with body show ?thesis
      by (intro disjI2 exI [of _ uid] exI [of _ qs] exI [of _ x] conjI) simp_all
  qed auto
qed

section \<open>Part count, and the two paths together\<close>

lemma concat_length_butlast:
  assumes "ps \<noteq> []" "\<forall>p \<in> set (butlast ps). length p = t"
  shows "length (concat ps) = (length ps - 1) * t + length (last ps)"
proof -
  have "length (concat qs) = length qs * t" if "\<forall>p \<in> set qs. length p = t" for qs :: "'a list list"
    using that by (induction qs) auto
  from this [OF assms(2)] show ?thesis
    using arg_cong [OF append_butlast_last_id [OF assms(1)], of "\<lambda>x. length (concat x)"] by simp
qed

lemma choose_part_size_fits: "n \<le> choose_part_size c (Some n) * MAX_PARTS"
proof (cases "cl_multipart_chunk c * MAX_PARTS < n")
  case True
  let ?d = "(n + MAX_PARTS - 1) div MAX_PARTS"
  have "n + MAX_PARTS - 1 < MAX_PARTS * Suc ?d"
    using div_mult_mod_eq [of "n + MAX_PARTS - 1" MAX_PARTS] mod_less_divisor [of MAX_PARTS "n + MAX_PARTS - 1"]
    by (simp add: MAX_PARTS_def)
  then have "n \<le> ?d * MAX_PARTS" by (simp add: MAX_PARTS_def)
  also have "\<dots> \<le> choose_part_size c (Some n) * MAX_PARTS"
    using True by (intro mult_le_mono1) (simp add: choose_part_size_def Let_def)
  finally show ?thesis .
next
  case False
  then have "n \<le> cl_multipart_chunk c * MAX_PARTS" by simp
  also have "\<dots> \<le> choose_part_size c (Some n) * MAX_PARTS"
    using False by (intro mult_le_mono1) (simp add: choose_part_size_def Let_def)
  finally show ?thesis .
qed

text \<open>An upload stays under the service's limits: the part size is never below five mebibytes,
and a stream no longer than its announced size is cut into at most ten thousand parts, whatever that
size is.\<close>

theorem put_multipart_part_limit:
  assumes "put_multipart svc sha c key (chunks, fin) (Some n) ctype meta h = (h', Inr u)"
    and "length (concat chunks) \<le> n"
  shows "ur_parts u \<le> 10000 \<and> 5 * 1024 * 1024 \<le> choose_part_size c (Some n)"
proof
  let ?t = "choose_part_size c (Some n)"
  obtain ps where ps: "concat ps = concat chunks" "ps \<noteq> []" "\<forall>p \<in> set (butlast ps). length p = ?t"
      "1 < length ps \<longrightarrow> last ps \<noteq> []" "ur_parts u = length ps"
    using put_multipart_stream_facts [OF assms(1)] by blast
  have "length ps \<le> MAX_PARTS"
  proof (cases "1 < length ps")
    case True
    with ps(4) have "0 < length (last ps)" by simp
    then have "(length ps - 1) * ?t < length (concat chunks)"
      using concat_length_butlast [OF ps(2,3)] ps(1) by simp
    also have "\<dots> \<le> ?t * MAX_PARTS" using assms(2) choose_part_size_fits [of n c] by (rule le_trans)
    finally have "length ps - 1 < MAX_PARTS" by (simp add: mult.commute)
    then show ?thesis by simp
  qed (simp add: MAX_PARTS_def)
  then show "ur_parts u \<le> 10000" using ps(5) by (simp add: MAX_PARTS_def)
  show "5 * 1024 * 1024 \<le> ?t" by (simp add: choose_part_size_def Let_def MIN_PART_SIZE_def)
qed

text \<open>What a destination promises its callers about a write that succeeds, whichever path it took.\<close>

locale object_destination =
  fixes put :: "string \<Rightarrow> stream \<Rightarrow> nat option \<Rightarrow> string option \<Rightarrow> (string \<times> string) list \<Rightarrow> 's \<Rightarrow>
      's \<times> (storage_exc + upload_result)"
    and dest_head :: "string \<Rightarrow> 's \<Rightarrow> 's \<times> (transfer_error + object_meta)"
    and sha :: "bytes \<Rightarrow> string"
  assumes put_whole_stream: "put key (chunks, fin) n ctype meta s = (s', Inr u) \<Longrightarrow>
      fin = EndOk \<and> ur_size u = length (concat chunks) \<and> ur_checksum_sha256 u = sha (concat chunks) \<and> ur_key u = key"
    and head_of_key: "dest_head key s = (s', Inr m) \<Longrightarrow> om_key m = key"
begin

text \<open>A stream that broke off is never reported as written.\<close>

lemma put_broken_stream: "fin \<noteq> EndOk \<Longrightarrow> \<exists>s' x. put key (chunks, fin) n ctype meta s = (s', Inl x)"
  by (cases "put key (chunks, fin) n ctype meta s"; cases "snd (put key (chunks, fin) n ctype meta s)")
    (auto dest: put_whole_stream)

lemma put_same_bytes:
  "put key (chunks, fin) n ctype meta s = (s', Inr u) \<Longrightarrow>
   put key2 (chunks2, fin2) n2 ctype2 meta2 s2 = (s2', Inr u2) \<Longrightarrow> concat chunks = concat chunks2 \<Longrightarrow>
   ur_checksum_sha256 u = ur_checksum_sha256 u2 \<and> ur_size u = ur_size u2"
  by (auto dest!: put_whole_stream)

end

lemma put_object_Inr:
  "put_object svc c key data meta ck ctype d h = (h', Inr u) \<Longrightarrow>
   ur_key u = key \<and> ur_size u = length data \<and> ur_checksum_sha256 u = d"
  by (auto simp: put_object_def Let_def split: option.splits sum.splits)

lemma put_stream_Inr:
  assumes "put_stream svc sha c key (chunks, fin) n ctype meta h = (h', Inr u)"
  shows "fin = EndOk \<and> ur_size u = length (concat chunks) \<and>
    ur_checksum_sha256 u = sha (concat chunks) \<and> ur_key u = key"
proof (cases "case n of Some k \<Rightarrow> k < cl_multipart_threshold c | None \<Rightarrow> False")
  case True
  with assms have "fin = EndOk" "put_small svc sha c key (concat chunks) ctype meta h = (h', Inr u)"
    by (auto simp: put_stream_def Let_def split: stream_end.splits prod.splits sum.splits)
  then show ?thesis by (auto simp: put_small_def dest: put_object_Inr)
next
  case False
  with assms have "put_multipart svc sha c key (chunks, fin) n ctype meta h = (h', Inr u)"
    by (auto simp: put_stream_def Let_def split: prod.splits sum.splits)
  from put_multipart_stream_facts [OF this] show ?thesis by blast
qed

lemma head_key: "head svc c key h = (h', Inr m) \<Longrightarrow> om_key m = key"
  by (auto simp: head_def split: option.splits sum.splits s3_resp.splits)

interpretation s3_dest: object_destination "put_stream svc sha c" "head svc c" sha
  by unfold_locales (auto dest: put_stream_Inr head_key)

text \<open>Whichever path an upload takes, a stream that broke off is never reported as written, and a
reported write carries the size and the checksum of exactly the bytes the stream delivered.\<close>

theorem put_stream_reports_stream:
  "(fin \<noteq> EndOk \<longrightarrow> (\<exists>h' x. put_stream svc sha c key (chunks, fin) n ctype meta h = (h', Inl x))) \<and>
   (\<forall>h' u. put_stream svc sha c key (chunks, fin) n ctype meta h = (h', Inr u) \<longrightarrow>
      ur_key u = key \<and> ur_size u = length (concat chunks) \<and> ur_checksum_sha256 u = sha (concat chunks))"
  by (intro conjI allI impI s3_dest.put_broken_stream) (auto dest: s3_dest.put_whole_stream)

section \<open>Examples\<close>

text \<open>A service that accepts everything, one that fails the first part, a client that always takes the
multipart path, and a stand-in for the digest.\<close>

definition accepting :: service where
  "accepting h cmd = Inr (case cmd of CreateMultipart _ _ _ \<Rightarrow> RUpload ''u'' | _ \<Rightarrow> RTag (Some ''t''))"

definition failing_parts :: service where
  "failing_parts h cmd =
     (case cmd of
        CreateMultipart _ _ _ \<Rightarrow> Inr (RUpload ''u'')
      | UploadPart _ _ _ _ \<Rightarrow> Inl (key_error ''lost'')
      | _ \<Rightarrow> Inr (RTag (Some ''t'')))"

definition demo_sha :: "bytes \<Rightarrow> string" where "demo_sha b = show_nat (length b)"

definition demo_creds :: s3_credentials where
  "demo_creds = \<lparr>sc_endpoint_url = ''e'', sc_access_key = ''a'', sc_secret_key = ''s'', sc_region = ''r'',
     sc_bucket = ''b'', sc_path_style = True, sc_signature_version = ''s3v4'', sc_verify_tls = True\<rparr>"

definition demo_client :: s3_client where
  "demo_client = enter (new_s3_client demo_creds 0 0)"

lemma demo_sha_3: "demo_sha [1, 2, 3] = ''3''"
  by code_simp

lemma demo_upload:
  "put_multipart accepting demo_sha demo_client ''k'' ([[1, 2], [3]], EndOk) (Some 3) None [] [] =
    ([CopyObject ''k'' [(''c2w-sha256'', ''3'')] None, CompleteMultipart ''k'' ''u'' [(''t'', 1)],
      UploadPart ''k'' ''u'' 1 [1, 2, 3], CreateMultipart ''k'' [] None],
     Inr \<lparr>ur_key = ''k'', ur_size = 3, ur_etag = ''t'', ur_checksum_sha256 = ''3'', ur_multipart = True, ur_parts = 1\<rparr>)"
  unfolding put_multipart_def unready_def demo_client_def new_s3_client_def enter_def demo_creds_def
    choose_part_size_def MIN_PART_SIZE_def MAX_PARTS_def Let_def accepting_def multipart_body_def
  by (simp add: buffer_add_def drain.simps upload_part_def finish_upload_def Let_def demo_sha_3
      with_digest_def nonempty_def clean_etag_def strip_chars_def rstrip_chars_def lstrip_chars_def)

lemma demo_failure:
  "\<exists>e h. put_multipart failing_parts demo_sha demo_client ''k'' ([[1, 2], [3]], EndOk) (Some 3) None [] [] = (h, Inl e)"
  unfolding put_multipart_def unready_def demo_client_def new_s3_client_def enter_def demo_creds_def
    choose_part_size_def MIN_PART_SIZE_def MAX_PARTS_def Let_def failing_parts_def multipart_body_def
  by (simp add: buffer_add_def drain.simps upload_part_def finish_upload_def Let_def nonempty_def)

theorem put_multipart_uploads_stream_witness:
  "\<exists>uid ps. concat ps = [1, 2, 3 :: 8 word] \<and>
     rev [CopyObject ''k'' [(''c2w-sha256'', ''3'')] None, CompleteMultipart ''k'' ''u'' [(''t'', 1)],
      UploadPart ''k'' ''u'' 1 [1, 2, 3], CreateMultipart ''k'' [] None] ! 1 = hd (part_calls ''k'' uid 1 ps)"
  using put_multipart_uploads_stream [OF demo_upload]
  by (elim exE conjE) (rule exI, rule_tac x = ps in exI, case_tac ps; simp)

theorem put_multipart_failure_aborts_witness:
  "\<exists>h' e uid qs. put_multipart failing_parts demo_sha demo_client ''k'' ([[1, 2], [3]], EndOk) (Some 3) None [] []
     = (h', Inl e) \<and> h' = [AbortMultipart ''k'' uid] @ qs"
proof -
  obtain e h where f: "put_multipart failing_parts demo_sha demo_client ''k'' ([[1, 2], [3]], EndOk) (Some 3) None [] []
      = (h, Inl e)"
    using demo_failure by blast
  have ready: "unready False demo_client = None"
    by (simp add: unready_def demo_client_def enter_def new_s3_client_def demo_creds_def)
  have "failing_parts [] (CreateMultipart ''k'' [] (nonempty None)) = Inr (RUpload ''u'')"
    by (simp add: failing_parts_def)
  with put_multipart_failure_aborts [OF f] ready f show ?thesis by auto
qed

theorem put_multipart_part_limit_witness:
  "5 * 1024 * 1024 \<le> choose_part_size demo_client (Some 3)"
  using put_multipart_part_limit [OF demo_upload] by simp

theorem put_stream_reports_stream_witness:
  "\<exists>h' x. put_stream accepting demo_sha demo_client ''k'' ([[1]], EndExc (Raised (key_error ''x''))) None None [] [] = (h', Inl x)"
  using put_stream_reports_stream by (metis stream_end.distinct(1))

end
