(* ===== verification/Endpoints.thy ===== *)
theory Endpoints
  imports S3Client KeyParse
begin

text \<open>
  \<open>src/c2w/storage/commpeak.py\<close>, \<open>wasabi.py\<close>, \<open>deleter.py\<close> and \<open>factory.py\<close>: the read-only source,
  the archive's key layout, the one object that can delete, and the opening of stored credentials.
  The sealed-box decryption is the parameter \<open>unseal\<close>.

  Lemmas: no operation of a source changes its bucket; archive keys keep the account's folder and the
  source key; a delete is one call and is believed only when it was accepted; a sealed credential
  opens for its own row and field only.
\<close>

section \<open>The source\<close>

definition COMMPEAK_ENDPOINT :: string where
  "COMMPEAK_ENDPOINT = ''https://recordings.commpeak.com''"

definition RECOMMENDED_CONCURRENCY :: nat where "RECOMMENDED_CONCURRENCY = 5"

definition commpeak_credentials :: "string \<Rightarrow> string \<Rightarrow> string \<Rightarrow> string \<Rightarrow> string \<Rightarrow> s3_credentials" where
  "commpeak_credentials bucket access secret endpoint region =
     \<lparr>sc_endpoint_url = endpoint, sc_access_key = access, sc_secret_key = secret, sc_region = region,
      sc_bucket = bucket, sc_path_style = True, sc_signature_version = ''s3v4'', sc_verify_tls = True\<rparr>"

definition new_source :: "s3_credentials \<Rightarrow> s3_client" where
  "new_source creds = new_s3_client creds 16777216 16777216"

text \<open>\<open>SourceIsReadOnly\<close>, the answer of every mutating method.\<close>

definition read_only :: "string \<Rightarrow> py_exc" where
  "read_only msg = RuntimeError msg"

definition source_delete :: "s3_client \<Rightarrow> string \<Rightarrow> py_exc + unit" where
  "source_delete c key = Inl (read_only (''refusing to delete '' @ key @ '' from CommPeak bucket ''
     @ sc_bucket (cl_creds c) @ '': the source is read-only and CommPeak deletions are irreversible''))"

definition source_put_stream :: "py_exc + upload_result" where
  "source_put_stream = Inl (read_only ''refusing to write to CommPeak: the source is read-only'')"

definition source_put_bytes :: "py_exc + upload_result" where
  "source_put_bytes = Inl (read_only ''refusing to write to CommPeak: the source is read-only'')"

definition list_day :: "nat \<Rightarrow> service \<Rightarrow> s3_client \<Rightarrow> dt \<Rightarrow> string option \<Rightarrow> string \<Rightarrow> history \<Rightarrow>
    history \<times> object_ref list \<times> listing_end" where
  "list_day fuel svc c moment start_after kroot h =
     list_prefix fuel svc c (day_prefix moment kroot) 1000 start_after h"

text \<open>\<open>p.rstrip("/").rsplit("/", 1)[-1]\<close>.\<close>

definition leaf :: "string \<Rightarrow> string" where
  "leaf p = after_last CHR ''/'' (rstrip_chars (\<lambda>c. c = CHR ''/'') p)"

definition py_isdigit :: "string \<Rightarrow> bool" where
  "py_isdigit s \<longleftrightarrow> s \<noteq> [] \<and> (\<forall>c \<in> set s. py_isdigit_char c)"

text \<open>\<open>int(s)\<close> refuses the superscripts \<open>isdigit\<close> lets through.\<close>

definition int_of_digits :: "string \<Rightarrow> py_exc + int" where
  "int_of_digits s =
     (if s \<noteq> [] \<and> (\<forall>c \<in> set s. is_digit c) then Inr (py_int s)
      else Inl (ValueError ''invalid literal for int() with base 10''))"

type_synonym source_exc = "transfer_error + py_exc"

definition discover_years :: "nat \<Rightarrow> service \<Rightarrow> s3_client \<Rightarrow> string \<Rightarrow> history \<Rightarrow>
    history \<times> (source_exc + int list) option" where
  "discover_years fuel svc c kroot h =
     (case list_common_prefixes fuel svc c kroot h of
        (h', None) \<Rightarrow> (h', None)
      | (h', Some (Inl e)) \<Rightarrow> (h', Some (Inl (Inl e)))
      | (h', Some (Inr ps)) \<Rightarrow>
          (h', Some (case map_res int_of_digits
                         (filter (\<lambda>t. py_isdigit t \<and> length t = 4) (map leaf ps)) of
                       Inl e \<Rightarrow> Inl (Inr e) | Inr ys \<Rightarrow> Inr (sort ys))))"

text \<open>Down the three levels of folders, the least numeric one at each; strings sort by code point.\<close>

fun oldest_parts :: "nat \<Rightarrow> nat \<Rightarrow> service \<Rightarrow> s3_client \<Rightarrow> string \<Rightarrow> string list \<Rightarrow> history \<Rightarrow>
    history \<times> (transfer_error + string list) option" where
  "oldest_parts fuel 0 svc c kroot parts h = (h, Some (Inr parts))"
| "oldest_parts fuel (Suc n) svc c kroot parts h =
     (case list_common_prefixes fuel svc c (kroot @ concat (map (\<lambda>p. p @ ''/'') parts)) h of
        (h', None) \<Rightarrow> (h', None)
      | (h', Some (Inl e)) \<Rightarrow> (h', Some (Inl e))
      | (h', Some (Inr children)) \<Rightarrow>
          (case sort_key (map code) (filter py_isdigit (map leaf children)) of
             [] \<Rightarrow> (h', Some (Inr parts))
           | t # _ \<Rightarrow> oldest_parts fuel n svc c kroot (parts @ [t]) h'))"

definition earliest_day :: "nat \<Rightarrow> service \<Rightarrow> s3_client \<Rightarrow> string \<Rightarrow> history \<Rightarrow>
    history \<times> (source_exc + dt option) option" where
  "earliest_day fuel svc c kroot h =
     (case oldest_parts fuel 3 svc c kroot [] h of
        (h', None) \<Rightarrow> (h', None)
      | (h', Some (Inl e)) \<Rightarrow> (h', Some (Inl (Inl e)))
      | (h', Some (Inr parts)) \<Rightarrow>
          (h', Some (if length parts < 3 then Inr None
             else (case map_res int_of_digits (take 3 parts) of
                     Inr [y, m, d] \<Rightarrow>
                       (case mk_datetime y m d 0 0 0 of
                          Some t \<Rightarrow> Inr (Some t)
                        | None \<Rightarrow> Inl (Inr (ValueError ''day is out of range for month'')))
                   | Inr _ \<Rightarrow> Inr None
                   | Inl e \<Rightarrow> Inl (Inr e)))))"

section \<open>The onboarding self-test\<close>

record probe_result =
  pr_name :: string
  pr_ok :: bool
  pr_detail :: string
  pr_class :: "error_class option"
  pr_hint :: "string option"

definition exc_text :: "py_exc \<Rightarrow> string" where
  "exc_text e = (case e of ValueError s \<Rightarrow> s | TypeError s \<Rightarrow> s | LookupError s \<Rightarrow> s | RuntimeError s \<Rightarrow> s | StructError s \<Rightarrow> s
     | AttributeError s \<Rightarrow> s | OverflowError s \<Rightarrow> s)"

definition probe_ok :: "string \<Rightarrow> string \<Rightarrow> probe_result" where
  "probe_ok name detail =
     \<lparr>pr_name = name, pr_ok = True, pr_detail = detail, pr_class = None, pr_hint = None\<rparr>"

definition probe_failed :: "string \<Rightarrow> source_exc \<Rightarrow> probe_result" where
  "probe_failed name exc =
     (let err = (case exc of Inl e \<Rightarrow> e
                 | Inr e \<Rightarrow> new_transfer_error UNKNOWN (exc_text e) None None None)
      in \<lparr>pr_name = name, pr_ok = False, pr_detail = te_message err, pr_class = Some (te_class err),
          pr_hint = te_hint err\<rparr>)"

definition date_text :: "dt \<Rightarrow> string" where
  "date_text t = (let (y, m, d) = date_of t
     in zpad 4 (nat y) @ ''-'' @ zpad 2 (nat m) @ ''-'' @ zpad 2 (nat d))"

text \<open>Bytes read from the chunks until 64 KiB are in.\<close>

fun sample_bytes :: "nat \<Rightarrow> bytes list \<Rightarrow> nat" where
  "sample_bytes got [] = got"
| "sample_bytes got (b # bs) =
     (if 65536 \<le> got + length b then got + length b else sample_bytes (got + length b) bs)"

definition sample_complete :: "bytes list \<Rightarrow> bool" where
  "sample_complete bs \<longleftrightarrow> 65536 \<le> sample_bytes 0 bs"

definition probe_auth :: "service \<Rightarrow> s3_client \<Rightarrow> history \<Rightarrow> history \<times> probe_result" where
  "probe_auth svc c h =
     (case probe svc c h of
        (h', Inr _) \<Rightarrow> (h', probe_ok ''s3_authentication'' (''bucket '' @ sc_bucket (cl_creds c) @ '' reachable''))
      | (h', Inl e) \<Rightarrow> (h', probe_failed ''s3_authentication'' (Inl e)))"

definition probe_years :: "nat \<Rightarrow> service \<Rightarrow> s3_client \<Rightarrow> history \<Rightarrow> history \<times> probe_result option" where
  "probe_years fuel svc c h =
     (case discover_years fuel svc c DEFAULT_KEY_ROOT h of
        (h', None) \<Rightarrow> (h', None)
      | (h', Some (Inl e)) \<Rightarrow> (h', Some (probe_failed ''bucket_discovery'' e))
      | (h', Some (Inr ys)) \<Rightarrow>
          (h', Some (probe_ok ''bucket_discovery''
             (''years present: '' @ (if ys \<noteq> [] then join '', '' (map show_int ys) else ''none'')))))"

definition probe_directory :: "nat \<Rightarrow> service \<Rightarrow> s3_client \<Rightarrow> history \<Rightarrow> history \<times> probe_result option" where
  "probe_directory fuel svc c h =
     (case earliest_day fuel svc c DEFAULT_KEY_ROOT h of
        (h', None) \<Rightarrow> (h', None)
      | (h', Some (Inl e)) \<Rightarrow> (h', Some (probe_failed ''recordings_directory'' e))
      | (h', Some (Inr None)) \<Rightarrow>
          (h', Some (probe_ok ''recordings_directory'' ''bucket contains no dated folders yet''))
      | (h', Some (Inr (Some t))) \<Rightarrow>
          (h', Some (probe_ok ''recordings_directory'' (''oldest recording day '' @ date_text t))))"

text \<open>The listing asks for pages of five and stops at the fifth object; the sample is the first
non-empty key it yields.\<close>

fun sample_pages :: "nat \<Rightarrow> service \<Rightarrow> nat \<Rightarrow> string option \<Rightarrow> history \<Rightarrow>
    history \<times> object_ref list \<times> listing_end" where
  "sample_pages 0 svc want token h = (h, [], OutOfFuel)"
| "sample_pages (Suc n) svc want token h =
     (let cmd = ListObjects [] 5 None token
      in case svc h cmd of
           Inl x \<Rightarrow> (cmd # h, [], ListFailed (classify_exception (Raised x)))
         | Inr (RPage refs truncated next_token) \<Rightarrow>
             (if want \<le> length refs then (cmd # h, take want refs, Listed)
              else case next_token of
                     Some (t # ts) \<Rightarrow>
                       if truncated
                       then (let (h', more, fin) = sample_pages n svc (want - length refs) (Some (t # ts)) (cmd # h)
                             in (h', refs @ more, fin))
                       else (cmd # h, refs, Listed)
                   | _ \<Rightarrow> (cmd # h, refs, Listed))
         | Inr _ \<Rightarrow> (cmd # h, [], ListFailed (classify_exception (Raised (key_error ''Key'')))))"

definition probe_listing :: "nat \<Rightarrow> service \<Rightarrow> s3_client \<Rightarrow> history \<Rightarrow>
    history \<times> string option \<times> probe_result option" where
  "probe_listing fuel svc c h =
     (case (case unready True c of Some e \<Rightarrow> (h, [], ListFailed e)
            | None \<Rightarrow> sample_pages fuel svc 5 None h) of
        (h', refs, fin) \<Rightarrow>
          (h', (case filter (\<lambda>r. or_key r \<noteq> []) refs of [] \<Rightarrow> None | r # _ \<Rightarrow> Some (or_key r)),
           (case fin of
              Listed \<Rightarrow> Some (probe_ok ''list_operation''
                (''listed '' @ show_nat (length refs) @ '' object(s)''))
            | ListFailed e \<Rightarrow> Some (probe_failed ''list_operation'' (Inl e))
            | OutOfFuel \<Rightarrow> None)))"

definition probe_head :: "service \<Rightarrow> s3_client \<Rightarrow> string \<Rightarrow> history \<Rightarrow> history \<times> probe_result" where
  "probe_head svc c key h =
     (case head svc c key h of
        (h', Inl e) \<Rightarrow> (h', probe_failed ''head_object'' (Inl e))
      | (h', Inr m) \<Rightarrow> (h', probe_ok ''head_object''
           (om_key m @ '' ('' @ show_int (om_size m) @ '' bytes)'')))"

definition probe_download :: "service \<Rightarrow> s3_client \<Rightarrow> string \<Rightarrow> history \<Rightarrow> history \<times> probe_result" where
  "probe_download svc c key h =
     (case open_stream svc c key 0 h of
        (h', Inl e) \<Rightarrow> (h', probe_failed ''download_test'' (Inl e))
      | (h', Inr (chunks, fin)) \<Rightarrow>
          (h', (case (if sample_complete chunks then EndOk else fin) of
                  EndExc x \<Rightarrow> probe_failed ''download_test'' (Inl (classify_exception x))
                | EndOk \<Rightarrow> probe_ok ''download_test''
                    (''read '' @ show_nat (sample_bytes 0 chunks) @ '' bytes of '' @ key))))"

text \<open>The probes in order; \<open>None\<close> when a listing outran the fuel.\<close>

definition run_source_probes :: "nat \<Rightarrow> bool \<Rightarrow> service \<Rightarrow> s3_client \<Rightarrow> history \<Rightarrow>
    history \<times> probe_result list option" where
  "run_source_probes fuel sample_download svc c h =
     (let (h1, auth) = probe_auth svc c h
      in if \<not> pr_ok auth then (h1, Some [auth])
         else (let (h2, years) = probe_years fuel svc c h1;
                   (h3, dir) = probe_directory fuel svc c h2;
                   (h4, sample, listing) = probe_listing fuel svc c h3
               in case (years, dir, listing) of
                    (Some y, Some d, Some l) \<Rightarrow>
                      (case sample of
                         None \<Rightarrow> (h4, Some [auth, y, d, l,
                           probe_ok ''head_object'' ''skipped: no objects available to sample''])
                       | Some key \<Rightarrow>
                           (let (h5, hd_res) = probe_head svc c key h4
                            in if sample_download
                               then (let (h6, dl) = probe_download svc c key h5
                                     in (h6, Some [auth, y, d, l, hd_res, dl]))
                               else (h5, Some [auth, y, d, l, hd_res])))
                  | _ \<Rightarrow> (h4, None)))"

section \<open>A source never changes its bucket\<close>

text \<open>Everything a caller can do with a source, and the history it leaves.\<close>

datatype source_op =
    SrcProbe | SrcHead string | SrcOpen string nat | SrcList string nat "string option"
  | SrcListDay dt "string option" string | SrcPrefixes string | SrcYears string | SrcEarliest string
  | SrcSelfTest bool | SrcPresign string nat "string option"
  | SrcDelete string | SrcPutStream | SrcPutBytes

fun source_op_history :: "nat \<Rightarrow> service \<Rightarrow> s3_client \<Rightarrow> source_op \<Rightarrow> history \<Rightarrow> history" where
  "source_op_history fuel svc c SrcProbe h = fst (probe svc c h)"
| "source_op_history fuel svc c (SrcHead k) h = fst (head svc c k h)"
| "source_op_history fuel svc c (SrcOpen k n) h = fst (open_stream svc c k n h)"
| "source_op_history fuel svc c (SrcList p n a) h = fst (list_prefix fuel svc c p n a h)"
| "source_op_history fuel svc c (SrcListDay t a r) h = fst (list_day fuel svc c t a r h)"
| "source_op_history fuel svc c (SrcPrefixes p) h = fst (list_common_prefixes fuel svc c p h)"
| "source_op_history fuel svc c (SrcYears r) h = fst (discover_years fuel svc c r h)"
| "source_op_history fuel svc c (SrcEarliest r) h = fst (earliest_day fuel svc c r h)"
| "source_op_history fuel svc c (SrcSelfTest b) h = fst (run_source_probes fuel b svc c h)"
| "source_op_history fuel svc c (SrcPresign k n f) h = fst (presign_get svc c k n f h)"
| "source_op_history fuel svc c (SrcDelete k) h = (case source_delete c k of _ \<Rightarrow> h)"
| "source_op_history fuel svc c SrcPutStream h = (case source_put_stream of _ \<Rightarrow> h)"
| "source_op_history fuel svc c SrcPutBytes h = (case source_put_bytes of _ \<Rightarrow> h)"

definition reads_only :: "history \<Rightarrow> history \<Rightarrow> bool" where
  "reads_only h h' \<longleftrightarrow> (\<exists>new. h' = new @ h \<and> (\<forall>q \<in> set new. \<not> mutates q))"

lemma reads_only_refl [simp, intro]: "reads_only h h"
  by (simp add: reads_only_def)

lemma reads_only_Cons [intro]: "\<not> mutates q \<Longrightarrow> reads_only h (q # h)"
  by (auto simp: reads_only_def)

lemma reads_only_trans: "reads_only h h' \<Longrightarrow> reads_only h' h'' \<Longrightarrow> reads_only h h''"
  unfolding reads_only_def by (metis Un_iff append.assoc set_append)

lemma reads_only_step: "\<not> mutates q \<Longrightarrow> reads_only (q # h) h' \<Longrightarrow> reads_only h h'"
  by (erule reads_only_trans [OF reads_only_Cons])

lemma reads_probe: "reads_only h (fst (probe svc c h))"
  by (auto simp: probe_def simple_call_def split: option.split)

lemma reads_head: "reads_only h (fst (head svc c k h))"
  by (auto simp: head_def split: option.split)

lemma reads_open: "reads_only h (fst (open_stream svc c k n h))"
  by (auto simp: open_stream_def split: option.split)

lemma reads_presign: "reads_only h (fst (presign_get svc c k n f h))"
  by (auto simp: presign_get_def Let_def split: option.split)

lemma reads_list_pages: "reads_only h (fst (list_pages fuel svc p n a tok h))"
  by (induction fuel arbitrary: tok h)
    (auto simp: Let_def split: sum.split s3_resp.split option.split list.split prod.split
      intro: reads_only_step [of "ListObjects p n a _"], metis fst_conv mutates.simps(10) reads_only_step)

lemma reads_prefix_pages: "reads_only h (fst (prefix_pages fuel svc p d tok h))"
  by (induction fuel arbitrary: tok h)
    (auto simp: Let_def split: sum.split s3_resp.split option.split list.split prod.split,
      metis fst_conv mutates.simps(11) reads_only_step)

lemma reads_sample_pages: "reads_only h (fst (sample_pages fuel svc w tok h))"
  by (induction fuel arbitrary: w tok h)
    (auto simp: Let_def split: sum.split s3_resp.split option.split list.split prod.split,
      metis fst_conv mutates.simps(10) reads_only_step)

lemma reads_list_prefix: "reads_only h (fst (list_prefix fuel svc c p n a h))"
  by (auto simp: list_prefix_def reads_list_pages split: option.split)

lemma reads_common_prefixes: "reads_only h (fst (list_common_prefixes fuel svc c p h))"
  using reads_prefix_pages [of h fuel svc p "''/''" None]
  by (auto simp: list_common_prefixes_def split: option.split prod.split listing_end.split)

lemma reads_years: "reads_only h (fst (discover_years fuel svc c r h))"
  using reads_common_prefixes [of h fuel svc c r]
  by (auto simp: discover_years_def split: option.split prod.split sum.split)

lemma reads_oldest_parts: "reads_only h (fst (oldest_parts fuel n svc c r ps h))"
proof (induction n arbitrary: ps h)
  case 0
  then show ?case by simp
next
  case (Suc n)
  let ?l = "list_common_prefixes fuel svc c (r @ concat (map (\<lambda>p. p @ ''/'') ps)) h"
  have step: "reads_only h (fst ?l)" by (rule reads_common_prefixes)
  obtain h' res where l: "?l = (h', res)" by fastforce
  have "reads_only h' (fst (oldest_parts fuel n svc c r (ps @ [t]) h'))" for t by (rule Suc.IH)
  with step l show ?case
    by (auto split: option.split sum.split list.split intro: reads_only_trans)
qed

lemma reads_earliest: "reads_only h (fst (earliest_day fuel svc c r h))"
  using reads_oldest_parts [of h fuel 3 svc c r "[]"]
  by (auto simp: earliest_day_def split: option.split prod.split sum.split)

lemma reads_probe_steps:
  "reads_only h (fst (probe_auth svc c h))" "reads_only h (fst (probe_years fuel svc c h))"
  "reads_only h (fst (probe_directory fuel svc c h))" "reads_only h (fst (probe_listing fuel svc c h))"
  "reads_only h (fst (probe_head svc c k h))" "reads_only h (fst (probe_download svc c k h))"
  using reads_probe [of h svc c] reads_years [of h fuel svc c DEFAULT_KEY_ROOT]
    reads_earliest [of h fuel svc c DEFAULT_KEY_ROOT] reads_sample_pages [of h fuel svc 5 None]
    reads_head [of h svc c k] reads_open [of h svc c k 0]
  by (auto simp: probe_auth_def probe_years_def probe_directory_def probe_listing_def probe_head_def
      probe_download_def split: prod.split sum.split option.split)

lemma reads_self_test: "reads_only h (fst (run_source_probes fuel b svc c h))"
proof -
  obtain h1 auth where 1: "probe_auth svc c h = (h1, auth)" by fastforce
  obtain h2 years where 2: "probe_years fuel svc c h1 = (h2, years)" by fastforce
  obtain h3 dir where 3: "probe_directory fuel svc c h2 = (h3, dir)" by fastforce
  obtain h4 sample listing where 4: "probe_listing fuel svc c h3 = (h4, sample, listing)"
    using prod_cases3 by blast
  have r1: "reads_only h h1" using reads_probe_steps(1) [of h svc c] 1 by simp
  have r2: "reads_only h1 h2" using reads_probe_steps(2) [of h1 fuel svc c] 2 by simp
  have r3: "reads_only h2 h3" using reads_probe_steps(3) [of h2 fuel svc c] 3 by simp
  have r4: "reads_only h3 h4" using reads_probe_steps(4) [of h3 fuel svc c] 4 by simp
  have h4: "reads_only h h4" by (rule reads_only_trans [OF r1 reads_only_trans [OF r2 reads_only_trans [OF r3 r4]]])
  have h5: "reads_only h (fst (probe_head svc c k h4))" for k
    by (rule reads_only_trans [OF h4 reads_probe_steps(5)])
  have h6: "reads_only h (fst (probe_download svc c k (fst (probe_head svc c k h4))))" for k
    by (rule reads_only_trans [OF h5 reads_probe_steps(6)])
  show ?thesis
    unfolding run_source_probes_def Let_def 1 2 3 4 prod.case
    using r1 h4 h5 h6 by (auto split: option.split prod.split simp: case_prod_beta)
qed

text \<open>C37: Whatever sequence of operations is run on a recordings source, and whatever the service
answers, nothing is ever written to it or deleted from it: every call that reaches the bucket is a
read, and the three mutating methods raise without making a call at all.\<close>

theorem source_never_mutates:
  "reads_only h (fold (source_op_history fuel svc c) ops h) \<and>
   (\<exists>e. source_delete c key = Inl e) \<and> (\<exists>e. source_put_stream = Inl e) \<and> (\<exists>e. source_put_bytes = Inl e)"
proof -
  have step: "reads_only h (source_op_history fuel svc c s h)" for s h
    using reads_probe reads_head reads_open reads_list_prefix reads_common_prefixes reads_years
      reads_earliest reads_self_test reads_presign
    by (cases s) (auto simp: list_day_def)
  have "reads_only h (fold (source_op_history fuel svc c) ops h)"
    by (induction ops arbitrary: h) (auto intro: reads_only_trans [OF step])
  then show ?thesis
    by (simp add: source_delete_def source_put_stream_def source_put_bytes_def)
qed

section \<open>The archive\<close>

definition WASABI_REGIONS :: "(string \<times> string) list" where
  "WASABI_REGIONS =
     [(''us-east-1'', ''https://s3.us-east-1.wasabisys.com''),
      (''us-east-2'', ''https://s3.us-east-2.wasabisys.com''),
      (''us-central-1'', ''https://s3.us-central-1.wasabisys.com''),
      (''us-west-1'', ''https://s3.us-west-1.wasabisys.com''),
      (''ca-central-1'', ''https://s3.ca-central-1.wasabisys.com''),
      (''eu-central-1'', ''https://s3.eu-central-1.wasabisys.com''),
      (''eu-central-2'', ''https://s3.eu-central-2.wasabisys.com''),
      (''eu-west-1'', ''https://s3.eu-west-1.wasabisys.com''),
      (''eu-west-2'', ''https://s3.eu-west-2.wasabisys.com''),
      (''eu-south-1'', ''https://s3.eu-south-1.wasabisys.com''),
      (''ap-northeast-1'', ''https://s3.ap-northeast-1.wasabisys.com''),
      (''ap-northeast-2'', ''https://s3.ap-northeast-2.wasabisys.com''),
      (''ap-southeast-1'', ''https://s3.ap-southeast-1.wasabisys.com''),
      (''ap-southeast-2'', ''https://s3.ap-southeast-2.wasabisys.com'')]"

definition wasabi_credentials :: "string \<Rightarrow> string \<Rightarrow> string \<Rightarrow> string \<Rightarrow> string option \<Rightarrow>
    transfer_error + s3_credentials" where
  "wasabi_credentials bucket access secret region endpoint =
     (case (case nonempty endpoint of Some e \<Rightarrow> Some e | None \<Rightarrow> map_of WASABI_REGIONS region) of
        None \<Rightarrow> Inl (new_transfer_error CONFIG_ERROR
          (''unknown Wasabi region '' @ region @ ''; pass endpoint_url explicitly'') None None None)
      | Some e \<Rightarrow> Inr \<lparr>sc_endpoint_url = e, sc_access_key = access, sc_secret_key = secret,
          sc_region = region, sc_bucket = bucket, sc_path_style = True,
          sc_signature_version = ''s3v4'', sc_verify_tls = True\<rparr>)"

definition safe_in_key :: "char \<Rightarrow> bool" where
  "safe_in_key c \<longleftrightarrow> is_alnum_ascii c \<or> c = CHR ''.'' \<or> c = CHR ''_'' \<or> c = CHR ''-''"

text \<open>\<open>_UNSAFE_IN_KEY.sub("-", s)\<close>: each maximal run of unsafe characters becomes a hyphen.\<close>

function squash :: "string \<Rightarrow> string" where
  "squash [] = []"
| "squash (c # s) =
     (if safe_in_key c then c # squash s
      else CHR ''-'' # squash (dropWhile (\<lambda>x. \<not> safe_in_key x) s))"
  by pat_completeness auto
termination
  by (relation "measure length") (auto simp: le_imp_less_Suc length_dropWhile_le)

definition account_folder :: "string \<Rightarrow> string" where
  "account_folder name =
     (let cleaned = strip_chars (\<lambda>c. c = CHR ''.'' \<or> c = CHR ''-'') (squash (py_strip name))
      in if cleaned \<noteq> [] then cleaned else ''unnamed-account'')"

definition destination_key :: "string \<Rightarrow> string \<Rightarrow> string \<Rightarrow> string" where
  "destination_key path_prefix account source_key =
     (let tail = lstrip_chars (\<lambda>c. c = CHR ''/'') source_key;
          parts = filter (\<lambda>p. p \<noteq> []) [strip_chars (\<lambda>c. c = CHR ''/'') path_prefix, account_folder account]
      in join ''/'' parts @ ''/'' @ tail)"

definition sidecar_key :: "string \<Rightarrow> string" where
  "sidecar_key dest_key = dest_key @ ''.cdr.json''"

lemma squash_safe: "c \<in> set (squash s) \<Longrightarrow> safe_in_key c"
  by (induction s rule: squash.induct) (auto simp: safe_in_key_def split: if_splits)

lemma set_strip: "c \<in> set (strip_chars p s) \<Longrightarrow> c \<in> set s"
  by (auto simp: strip_chars_def rstrip_chars_def lstrip_chars_def dest!: set_dropWhileD)

lemma lstrip_hd: "lstrip_chars p s \<noteq> [] \<Longrightarrow> \<not> p (hd (lstrip_chars p s))"
  unfolding lstrip_chars_def by (rule hd_dropWhile)

lemma rstrip_last: "rstrip_chars p s \<noteq> [] \<Longrightarrow> \<not> p (last (rstrip_chars p s))"
  unfolding rstrip_chars_def by (simp add: last_rev hd_dropWhile)

lemma rstrip_hd: "rstrip_chars p s \<noteq> [] \<Longrightarrow> hd (rstrip_chars p s) = hd s"
proof (induction s rule: rev_induct)
  case (snoc x xs)
  then show ?case
    by (cases "p x"; cases xs) (auto simp: rstrip_chars_def)
qed (simp add: rstrip_chars_def)

lemma strip_ends:
  "strip_chars p s \<noteq> [] \<Longrightarrow> \<not> p (hd (strip_chars p s)) \<and> \<not> p (last (strip_chars p s))"
  unfolding strip_chars_def
  by (metis lstrip_hd rstrip_hd rstrip_last rstrip_chars_def dropWhile.simps(1) rev.simps(1))

text \<open>The archive folder of an account is a safe path segment for any name an operator types: not
empty, of letters, digits, dots, underscores and hyphens only (so never a slash), and neither
starting nor ending with a dot or a hyphen (so never a parent directory).\<close>

theorem account_folder_safe:
  "account_folder name \<noteq> [] \<and> (\<forall>c \<in> set (account_folder name). safe_in_key c) \<and>
   hd (account_folder name) \<notin> {CHR ''.'', CHR ''-''} \<and> last (account_folder name) \<notin> {CHR ''.'', CHR ''-''} \<and>
   CHR ''/'' \<notin> set (account_folder name)"
proof -
  let ?s = "strip_chars (\<lambda>c. c = CHR ''.'' \<or> c = CHR ''-'') (squash (py_strip name))"
  have unnamed: "\<forall>c \<in> set ''unnamed-account''. safe_in_key c" by code_simp
  have slash: "\<not> safe_in_key CHR ''/''" by code_simp
  show ?thesis
  proof (cases "?s = []")
    case True
    with unnamed slash show ?thesis by (auto simp: account_folder_def)
  next
    case False
    have safe: "\<forall>c \<in> set ?s. safe_in_key c" using squash_safe set_strip by blast
    with slash have "CHR ''/'' \<notin> set ?s" by blast
    with safe strip_ends [OF False] False show ?thesis by (simp add: account_folder_def)
  qed
qed

lemma account_folder_no_slash: "CHR ''/'' \<notin> set (account_folder name)" "account_folder name \<noteq> []"
proof -
  let ?s = "strip_chars (\<lambda>c. c = CHR ''.'' \<or> c = CHR ''-'') (squash (py_strip name))"
  have "\<not> safe_in_key CHR ''/''" by code_simp
  then have "CHR ''/'' \<notin> set ?s" using squash_safe set_strip by blast
  then show "CHR ''/'' \<notin> set (account_folder name)" "account_folder name \<noteq> []"
    by (auto simp: account_folder_def Let_def split: if_splits)
qed

lemma segment_split:
  assumes "CHR ''/'' \<notin> set a" "CHR ''/'' \<notin> set b" "a @ CHR ''/'' # x = b @ CHR ''/'' # y"
  shows "a = b \<and> x = y"
proof -
  from takeWhile_neq_append [OF assms(1), of x] takeWhile_neq_append [OF assms(2), of y]
  have "a = b" by (simp only: assms(3))
  with assms(3) show ?thesis by simp
qed

text \<open>Archive keys do not collide: with one path prefix, two recordings get the same archive key
only when their accounts have the same folder and their source keys are the same up to leading
slashes; and the key ends in the source key, kept as it is.\<close>

theorem destination_key_injective:
  "(destination_key pre a k = destination_key pre b k' \<longleftrightarrow>
      account_folder a = account_folder b \<and>
      lstrip_chars (\<lambda>c. c = CHR ''/'') k = lstrip_chars (\<lambda>c. c = CHR ''/'') k') \<and>
   (\<exists>front. destination_key pre a k = front @ ''/'' @ lstrip_chars (\<lambda>c. c = CHR ''/'') k)"
proof
  let ?p = "strip_chars (\<lambda>c. c = CHR ''/'') pre"
  let ?front = "\<lambda>a. (if ?p \<noteq> [] then ?p @ ''/'' else []) @ account_folder a"
  have key: "destination_key pre a k = ?front a @ ''/'' @ lstrip_chars (\<lambda>c. c = CHR ''/'') k" for a k
    using account_folder_no_slash(2) [of a] by (simp add: destination_key_def Let_def)
  show "destination_key pre a k = destination_key pre b k' \<longleftrightarrow>
      account_folder a = account_folder b \<and>
      lstrip_chars (\<lambda>c. c = CHR ''/'') k = lstrip_chars (\<lambda>c. c = CHR ''/'') k'"
    unfolding key append_assoc same_append_eq append_Cons append_Nil
  proof
    assume "account_folder a @ CHR ''/'' # lstrip_chars (\<lambda>c. c = CHR ''/'') k =
      account_folder b @ CHR ''/'' # lstrip_chars (\<lambda>c. c = CHR ''/'') k'"
    from segment_split [OF account_folder_no_slash(1) account_folder_no_slash(1) this]
    show "account_folder a = account_folder b \<and>
      lstrip_chars (\<lambda>c. c = CHR ''/'') k = lstrip_chars (\<lambda>c. c = CHR ''/'') k'" .
  qed (simp only: simp_thms)
  show "\<exists>front. destination_key pre a k = front @ ''/'' @ lstrip_chars (\<lambda>c. c = CHR ''/'') k"
    by (rule exI [of _ "?front a"]) (rule key)
qed

section \<open>The deleter\<close>

record delete_outcome =
  do_key :: string
  do_deleted :: bool
  do_detail :: string

record deleter =
  dl_creds :: s3_credentials
  dl_open :: bool

definition new_deleter :: "s3_credentials \<Rightarrow> py_exc + deleter" where
  "new_deleter creds =
     (if sc_access_key creds = [] \<or> sc_secret_key creds = []
      then Inl (ValueError (''refusing to build a deleter without delete credentials: '' @
        ''deletion is armed by entering a separate credential pair, not by a setting''))
      else Inr \<lparr>dl_creds = creds, dl_open = False\<rparr>)"

definition deleter_enter :: "deleter \<Rightarrow> deleter" where "deleter_enter d = d\<lparr>dl_open := True\<rparr>"
definition deleter_leave :: "deleter \<Rightarrow> deleter" where "deleter_leave d = d\<lparr>dl_open := False\<rparr>"

definition deleter_delete :: "service \<Rightarrow> deleter \<Rightarrow> string \<Rightarrow> history \<Rightarrow>
    history \<times> (transfer_error + delete_outcome)" where
  "deleter_delete svc d key h =
     (if \<not> dl_open d
      then (h, Inl (new_transfer_error UNKNOWN
        (''the deleter was used outside its context manager -- a fault in '' @
         ''c2w, not in this account's configuration'') None None None))
      else (DeleteObject key # h,
            Inr (case svc h (DeleteObject key) of
                   Inl x \<Rightarrow> \<lparr>do_key = key, do_deleted = False,
                      do_detail = take 300 (te_str (classify_exception (Raised x)))\<rparr>
                 | Inr _ \<Rightarrow> \<lparr>do_key = key, do_deleted = True, do_detail = []\<rparr>)))"

text \<open>A delete is one call for one key and never retried: the deleter reports an object deleted
exactly when the service accepted that call, reports a refusal without trying again, and makes no
call before it is opened; and no deleter can be built without both halves of its own credentials.\<close>

theorem deleter_one_call:
  "(\<exists>detail e. deleter_delete svc d key h =
      (if dl_open d
       then (DeleteObject key # h, Inr \<lparr>do_key = key,
              do_deleted = (\<exists>r. svc h (DeleteObject key) = Inr r), do_detail = detail\<rparr>)
       else (h, Inl e))) \<and>
   ((\<exists>e. new_deleter creds = Inl e) \<longleftrightarrow> sc_access_key creds = [] \<or> sc_secret_key creds = [])"
  by (auto simp: deleter_delete_def new_deleter_def split: sum.split)

section \<open>Stored credentials\<close>

text \<open>\<open>open_sealed value key_id wrapped aad\<close>, with the text of its \<open>CryptoError\<close>.\<close>

type_synonym unsealer = "string \<Rightarrow> string \<Rightarrow> string \<Rightarrow> string \<Rightarrow> string + string"

record brand_keys =
  bk_key_id :: "string option"
  bk_wrapped :: "string option"

record connection_row =
  cn_id :: int
  cn_brand_id :: int
  cn_s3_endpoint :: string
  cn_s3_region :: string
  cn_s3_bucket :: string
  cn_s3_access_key_sealed :: string
  cn_s3_secret_sealed :: string
  cn_cdr_api_key_sealed :: "string option"

record destination_row =
  ds_id :: int
  ds_brand_id :: int
  ds_endpoint :: string
  ds_region :: string
  ds_bucket :: string
  ds_access_key_sealed :: string
  ds_secret_sealed :: string

definition credentials_unavailable :: "string \<Rightarrow> transfer_error" where
  "credentials_unavailable msg = new_transfer_error CONFIG_ERROR msg None None
     (Some (''the master key does not match the one these credentials were sealed with; '' @
       ''restore /etc/c2w/master.key or re-enter the credentials''))"

definition brand_keys_of :: "(int \<Rightarrow> brand_keys option) \<Rightarrow> int \<Rightarrow> transfer_error + string \<times> string" where
  "brand_keys_of brands i =
     (let missing = Inl (credentials_unavailable (''brand '' @ show_int i @ '' has no encryption key configured''))
      in case brands i of
           None \<Rightarrow> missing
         | Some b \<Rightarrow> (case (nonempty (bk_key_id b), nonempty (bk_wrapped b)) of
                        (Some k, Some w) \<Rightarrow> Inr (k, w) | _ \<Rightarrow> missing))"

definition unseal_as :: "unsealer \<Rightarrow> string \<times> string \<Rightarrow> string \<Rightarrow> string \<Rightarrow> string \<Rightarrow> transfer_error + string" where
  "unseal_as unseal kw v aad label =
     (case unseal v (fst kw) (snd kw) aad of
        Inl e \<Rightarrow> Inl (credentials_unavailable (''could not unseal '' @ label @ '': '' @ e))
      | Inr p \<Rightarrow> Inr p)"

lemma unseal_as_Inr: "unseal_as unseal kw v a l = Inr p \<longleftrightarrow> unseal v (fst kw) (snd kw) a = Inr p"
  by (simp add: unseal_as_def split: sum.split)

definition field_aad :: "string \<Rightarrow> int \<Rightarrow> string \<Rightarrow> string" where
  "field_aad table i field = table @ '':'' @ show_int i @ '':'' @ field"

definition open_source :: "unsealer \<Rightarrow> (int \<Rightarrow> brand_keys option) \<Rightarrow> connection_row \<Rightarrow>
    transfer_error + s3_client" where
  "open_source unseal brands c =
     res_bind (brand_keys_of brands (cn_brand_id c)) (\<lambda>kw.
     res_bind (unseal_as unseal kw (cn_s3_access_key_sealed c) (field_aad ''connection'' (cn_id c) ''access_key'')
        (''connection '' @ show_int (cn_id c) @ '' access key'')) (\<lambda>access.
     res_bind (unseal_as unseal kw (cn_s3_secret_sealed c) (field_aad ''connection'' (cn_id c) ''secret_key'')
        (''connection '' @ show_int (cn_id c) @ '' secret'')) (\<lambda>secret.
     Inr (new_source (commpeak_credentials (cn_s3_bucket c) access secret (cn_s3_endpoint c) (cn_s3_region c))))))"

definition open_destination :: "unsealer \<Rightarrow> (int \<Rightarrow> brand_keys option) \<Rightarrow> destination_row \<Rightarrow>
    transfer_error + s3_client" where
  "open_destination unseal brands d =
     res_bind (brand_keys_of brands (ds_brand_id d)) (\<lambda>kw.
     res_bind (unseal_as unseal kw (ds_access_key_sealed d) (field_aad ''destination'' (ds_id d) ''access_key'')
        (''destination '' @ show_int (ds_id d) @ '' access key'')) (\<lambda>access.
     res_bind (unseal_as unseal kw (ds_secret_sealed d) (field_aad ''destination'' (ds_id d) ''secret_key'')
        (''destination '' @ show_int (ds_id d) @ '' secret'')) (\<lambda>secret.
     res_bind (wasabi_credentials (ds_bucket d) access secret (ds_region d) (Some (ds_endpoint d))) (\<lambda>creds.
     Inr (new_s3_client creds 16777216 16777216)))))"

definition reveal_connection_credentials :: "unsealer \<Rightarrow> (int \<Rightarrow> brand_keys option) \<Rightarrow> connection_row \<Rightarrow>
    transfer_error + string \<times> string" where
  "reveal_connection_credentials unseal brands c =
     res_bind (brand_keys_of brands (cn_brand_id c)) (\<lambda>kw.
     res_bind (unseal_as unseal kw (cn_s3_access_key_sealed c) (field_aad ''connection'' (cn_id c) ''access_key'')
        ''the S3 token'') (\<lambda>access.
     res_bind (unseal_as unseal kw (cn_s3_secret_sealed c) (field_aad ''connection'' (cn_id c) ''secret_key'')
        ''the S3 secret'') (\<lambda>secret.
     Inr (access, secret))))"

definition open_cdr_api_key :: "unsealer \<Rightarrow> (int \<Rightarrow> brand_keys option) \<Rightarrow> connection_row \<Rightarrow>
    transfer_error + string" where
  "open_cdr_api_key unseal brands c =
     (case nonempty (cn_cdr_api_key_sealed c) of
        None \<Rightarrow> Inr []
      | Some sealed \<Rightarrow>
          res_bind (brand_keys_of brands (cn_brand_id c)) (\<lambda>kw.
            unseal_as unseal kw sealed (field_aad ''connection'' (cn_id c) ''cdr_api_key'')
              ''the call records API key''))"

lemma show_int_inj: "show_int i = show_int j \<longleftrightarrow> i = j"
proof
  assume eq: "show_int i = show_int j"
  have minus: "hd (show_nat n) \<noteq> CHR ''-''" for n
    using show_nat_digits [of "hd (show_nat n)" n] by auto
  show "i = j"
  proof (cases "i < 0"; cases "j < 0")
    assume "i < 0" "j < 0"
    with eq have "show_nat (nat (- i)) = show_nat (nat (- j))" by (simp add: show_int_def)
    from arg_cong [OF this, of py_int] \<open>i < 0\<close> \<open>j < 0\<close> show ?thesis by simp
  next
    assume "\<not> i < 0" "\<not> j < 0"
    with eq have "show_nat (nat i) = show_nat (nat j)" by (simp add: show_int_def)
    from arg_cong [OF this, of py_int] \<open>\<not> i < 0\<close> \<open>\<not> j < 0\<close> show ?thesis by simp
  next
    assume "i < 0" "\<not> j < 0"
    with eq minus [of "nat j"] show ?thesis by (auto simp: show_int_def dest: arg_cong [of _ _ hd])
  next
    assume "\<not> i < 0" "j < 0"
    with eq minus [of "nat i"] show ?thesis by (auto simp: show_int_def dest: arg_cong [of _ _ hd])
  qed
qed simp

lemma show_int_no_colon: "CHR '':'' \<notin> set (show_int i)"
  using show_nat_no_sep [of "CHR '':''"] by (auto simp: show_int_def is_digit_def)

lemma field_aad_inj: "field_aad t i f = field_aad t j g \<longleftrightarrow> i = j \<and> f = g"
proof -
  have "show_int i = show_int j \<and> f = g" if "show_int i @ CHR '':'' # f = show_int j @ CHR '':'' # g"
  proof -
    from takeWhile_neq_append [OF show_int_no_colon, of i f] takeWhile_neq_append [OF show_int_no_colon, of j g]
    have "show_int i = show_int j" by (simp only: that)
    with that show ?thesis by simp
  qed
  then show ?thesis by (auto simp: field_aad_def show_int_inj)
qed

text \<open>What authenticated encryption promises: a sealed value opens under one associated datum only.\<close>

definition binds_aad :: "unsealer \<Rightarrow> bool" where
  "binds_aad unseal \<longleftrightarrow>
     (\<forall>v k w a a' p p'. unseal v k w a = Inr p \<longrightarrow> unseal v k w a' = Inr p' \<longrightarrow> a = a')"

text \<open>A stored credential opens for its own row and field only: where the sealed box binds its
associated datum, a source opens with one row's credentials, and a row that carries another
connection's sealed access key, or its own two sealed values exchanged, does not open at all.\<close>

theorem credentials_bound_to_row:
  assumes "binds_aad unseal" "open_source unseal brands c = Inr cl" "cn_brand_id c' = cn_brand_id c"
    and "(cn_s3_access_key_sealed c' = cn_s3_access_key_sealed c \<and> cn_id c' \<noteq> cn_id c) \<or>
      cn_s3_access_key_sealed c' = cn_s3_secret_sealed c"
  shows "\<exists>e. open_source unseal brands c' = Inl e \<and> te_class e = CONFIG_ERROR"
proof -
  obtain kw access secret where kw: "brand_keys_of brands (cn_brand_id c) = Inr kw"
    and a: "unseal (cn_s3_access_key_sealed c) (fst kw) (snd kw) (field_aad ''connection'' (cn_id c) ''access_key'') = Inr access"
    and s: "unseal (cn_s3_secret_sealed c) (fst kw) (snd kw) (field_aad ''connection'' (cn_id c) ''secret_key'') = Inr secret"
    using assms(2) by (auto simp: open_source_def res_bind_Inr_iff unseal_as_Inr)
  let ?aad = "field_aad ''connection'' (cn_id c') ''access_key''"
  have "unseal (cn_s3_access_key_sealed c') (fst kw) (snd kw) ?aad \<noteq> Inr p" for p
  proof
    assume p: "unseal (cn_s3_access_key_sealed c') (fst kw) (snd kw) ?aad = Inr p"
    note binds = assms(1) [unfolded binds_aad_def, rule_format, OF _ p]
    from assms(4) show False
    proof
      assume "cn_s3_access_key_sealed c' = cn_s3_access_key_sealed c \<and> cn_id c' \<noteq> cn_id c"
      with binds [of "field_aad ''connection'' (cn_id c) ''access_key''" access] a show False by (auto simp: field_aad_inj)
    next
      assume "cn_s3_access_key_sealed c' = cn_s3_secret_sealed c"
      with binds [of "field_aad ''connection'' (cn_id c) ''secret_key''" secret] s show False by (auto simp: field_aad_inj)
    qed
  qed
  then obtain e where "unseal (cn_s3_access_key_sealed c') (fst kw) (snd kw) ?aad = Inl e"
    by (cases "unseal (cn_s3_access_key_sealed c') (fst kw) (snd kw) ?aad") auto
  with kw assms(3) show ?thesis
    by (simp add: open_source_def unseal_as_def credentials_unavailable_def)
qed

text \<open>A sealed box that keeps the associated datum in front of the text.\<close>

definition demo_unseal :: unsealer where
  "demo_unseal v k w a =
     (if take (Suc (length a)) v = a @ [CHR ''|''] then Inr (drop (Suc (length a)) v) else Inl ''bad tag'')"

definition demo_connection :: "int \<Rightarrow> connection_row" where
  "demo_connection i = \<lparr>cn_id = i, cn_brand_id = 1, cn_s3_endpoint = COMMPEAK_ENDPOINT, cn_s3_region = ''r'',
     cn_s3_bucket = ''b'', cn_s3_access_key_sealed = ''connection:7:access_key|AK'',
     cn_s3_secret_sealed = ''connection:7:secret_key|SK'', cn_cdr_api_key_sealed = None\<rparr>"

lemma demo_unseal_binds: "binds_aad (\<lambda>v k w a. if CHR ''|'' \<in> set a then Inl ''bad'' else demo_unseal v k w a)"
proof -
  have "a = a'" if "CHR ''|'' \<notin> set a" "CHR ''|'' \<notin> set a'"
      "take (Suc (length a)) v = a @ [CHR ''|'']" "take (Suc (length a')) v = a' @ [CHR ''|'']" for v a a' :: string
  proof -
    have "takeWhile (\<lambda>x. x \<noteq> CHR ''|'') v = a" if "CHR ''|'' \<notin> set a" "take (Suc (length a)) v = a @ [CHR ''|'']" for a
      using takeWhile_neq_append [OF that(1), of "drop (Suc (length a)) v"] that(2)
        append_take_drop_id [of "Suc (length a)" v] by simp
    with that show ?thesis by metis
  qed
  then show ?thesis
    unfolding binds_aad_def demo_unseal_def by (auto split: if_splits)
qed

theorem credentials_bound_to_row_witness:
  "\<exists>e. open_source (\<lambda>v k w a. if CHR ''|'' \<in> set a then Inl ''bad'' else demo_unseal v k w a)
     (\<lambda>_. Some \<lparr>bk_key_id = Some ''k'', bk_wrapped = Some ''w''\<rparr>) (demo_connection 8) = Inl e"
proof -
  let ?u = "\<lambda>v k w a. if CHR ''|'' \<in> set a then Inl ''bad'' else demo_unseal v k w a"
  let ?b = "\<lambda>_ :: int. Some \<lparr>bk_key_id = Some ''k'', bk_wrapped = Some ''w''\<rparr>"
  have "\<exists>cl. open_source ?u ?b (demo_connection 7) = Inr cl"
    by (simp add: open_source_def brand_keys_of_def nonempty_def unseal_as_def demo_unseal_def
        demo_connection_def field_aad_def show_int_def str_simps)
  then obtain cl where "open_source ?u ?b (demo_connection 7) = Inr cl" by blast
  from credentials_bound_to_row [OF demo_unseal_binds this, of "demo_connection 8"] show ?thesis
    by (auto simp: demo_connection_def)
qed

end
