(* ===== verification/Db.thy ===== *)
theory Db
  imports KeyParse Endpoints Json
begin

text \<open>
  \<open>src/c2w/db/base.py\<close> and \<open>src/c2w/db/models/core.py\<close>: the enumerations and the rows of the
  tables the pipeline works on, and the database as the rows of each table in the order of their
  ids. A column is a field; a nullable column is an option. A transaction's statements are applied
  one after the other to the state an operation threads.
\<close>

section \<open>Enumerations\<close>

datatype recording_state =
    DISCOVERED | QUEUED | TRANSFERRING | UPLOADED | VERIFIED | AVAILABLE | REC_FAILED
  | SOURCE_DELETED | MISSING_SOURCE

definition playable :: "recording_state \<Rightarrow> bool" where
  "playable s \<longleftrightarrow> s \<in> {AVAILABLE, SOURCE_DELETED}"

definition terminal :: "recording_state \<Rightarrow> bool" where
  "terminal s \<longleftrightarrow> s \<in> {AVAILABLE, SOURCE_DELETED, REC_FAILED, MISSING_SOURCE}"

datatype job_state = PENDING | CLAIMED | RUNNING | DONE | JOB_FAILED | CANCELLED

datatype job_kind = TRANSFER | VERIFY | SIDECAR | SOURCE_DELETE | REPAIR

datatype sync_run_kind = FULL_INVENTORY | INCREMENTAL | CDR_POLL | RECONCILE | RETENTION

datatype connection_status = UNTESTED | CONN_OK | DEGRADED | CONN_ERROR | CONN_DISABLED

definition BRAND_PARTITIONED_TABLES :: "string list" where
  "BRAND_PARTITIONED_TABLES =
     [''cdrs'', ''recordings'', ''sms_messages'', ''transcripts'', ''transcript_segments'']"

section \<open>Rows\<close>

record recording =
  rec_id :: int
  rec_brand_id :: int
  rec_connection_id :: int
  rec_tenant_id :: int
  rec_source_key :: string
  rec_source_size :: int
  rec_source_etag :: "string option"
  rec_source_last_modified :: "dt option"
  rec_direction :: "string option"
  rec_number :: "string option"
  rec_extension :: "string option"
  rec_started_at :: "dt option"
  rec_uniqueid :: "int option"
  rec_seq :: int
  rec_call_group_key :: "string option"
  rec_file_ext :: "string option"
  rec_key_parsed_ok :: bool
  rec_cdr_id :: "int option"
  rec_call_uuid :: "string option"
  rec_match_method :: "string option"
  rec_match_confidence :: "rat option"
  rec_match_ambiguous :: bool
  rec_correlated_at :: "dt option"
  rec_state :: recording_state
  rec_destination_id :: "int option"
  rec_destination_key :: "string option"
  rec_destination_etag :: "string option"
  rec_destination_size :: "int option"
  rec_checksum_sha256 :: "string option"
  rec_bytes_transferred :: int
  rec_transfer_started_at :: "dt option"
  rec_transfer_completed_at :: "dt option"
  rec_verified_at :: "dt option"
  rec_sidecar_written :: bool
  rec_source_deleted_at :: "dt option"
  rec_last_error_class :: "string option"
  rec_last_error_detail :: "string option"

record job =
  job_id :: int
  job_brand_id :: int
  job_connection_id :: int
  job_destination_id :: "int option"
  job_recording_id :: int
  job_kind_of :: job_kind
  job_state_of :: job_state
  job_priority :: int
  job_attempts :: int
  job_next_attempt_at :: dt
  job_claimed_by :: "string option"
  job_claimed_at :: "dt option"
  job_finished_at :: "dt option"
  job_error_class :: "string option"
  job_error_detail :: "string option"

record attempt =
  att_id :: int
  att_job_id :: int
  att_brand_id :: int
  att_worker :: "string option"
  att_started_at :: dt
  att_ended_at :: "dt option"
  att_bytes_transferred :: int
  att_error_class :: "string option"
  att_error_detail :: "string option"

text \<open>A \<open>Decimal\<close>, exact; its special values print and compare as Python's.\<close>

datatype decimal = Dec rat | DecNaN | DecInfinity bool

record cdr_row =
  cdr_id :: int
  cdr_brand_id :: int
  cdr_connection_id :: int
  cdr_tenant_id :: int
  cdr_call_uuid :: string
  cdr_call_id :: "int option"
  cdr_start_at :: dt
  cdr_end_at :: "dt option"
  cdr_call_duration :: "int option"
  cdr_direction :: "string option"
  cdr_src :: "string option"
  cdr_dst :: "string option"
  cdr_src_norm :: "string option"
  cdr_dst_norm :: "string option"
  cdr_dst_country :: "string option"
  cdr_agent_extension :: "string option"
  cdr_agent_name :: "string option"
  cdr_bridged_agent_name :: "string option"
  cdr_bridged_agent_extension :: "string option"
  cdr_call_type :: "string option"
  cdr_queue_name :: "string option"
  cdr_bill_duration :: "int option"
  cdr_cost :: "decimal option"
  cdr_caller_user :: "string option"
  cdr_client_callerid_name :: "string option"
  cdr_client_callerid_number :: "string option"
  cdr_status :: "string option"
  cdr_hangup_disposition :: "string option"
  cdr_public_recording_url :: "string option"
  cdr_raw :: json

record connection =
  con_id :: int
  con_brand_id :: int
  con_tenant_id :: int
  con_name :: string
  con_destination_id :: "int option"
  con_status :: connection_status
  con_last_inventory_at :: "dt option"
  con_inventory_cursor_day :: "dt option"
  con_earliest_day :: "dt option"
  con_last_probe_at :: "dt option"
  con_last_cdr_cursor :: "dt option"
  con_cdr_api_base :: "string option"
  con_cdr_api_user :: "string option"
  con_last_sms_cursor :: "dt option"
  con_is_enabled :: bool
  con_concurrency_limit :: int
  con_s3_bucket :: string
  con_status_detail :: "string option"

record sync_run =
  run_id :: int
  run_brand_id :: int
  run_connection_id :: "int option"
  run_kind :: sync_run_kind
  run_started_at :: dt
  run_finished_at :: "dt option"
  run_ok :: "bool option"
  run_discovered :: int
  run_queued :: int
  run_error_detail :: "string option"

record database =
  db_recordings :: "recording list"
  db_jobs :: "job list"
  db_attempts :: "attempt list"
  db_cdrs :: "cdr_row list"
  db_connections :: "connection list"
  db_runs :: "sync_run list"
  db_next_id :: int

definition empty_db :: database where
  "empty_db = \<lparr>db_recordings = [], db_jobs = [], db_attempts = [], db_cdrs = [],
     db_connections = [], db_runs = [], db_next_id = 1\<rparr>"

section \<open>Statements\<close>

definition find_row :: "('a \<Rightarrow> bool) \<Rightarrow> 'a list \<Rightarrow> 'a option" where
  "find_row p rows = List.find p rows"

definition update_recording :: "int \<Rightarrow> (recording \<Rightarrow> recording) \<Rightarrow> database \<Rightarrow> database" where
  "update_recording i f d = d\<lparr>db_recordings := update_where (\<lambda>r. rec_id r = i) f (db_recordings d)\<rparr>"

definition update_job :: "int \<Rightarrow> (job \<Rightarrow> job) \<Rightarrow> database \<Rightarrow> database" where
  "update_job i f d = d\<lparr>db_jobs := update_where (\<lambda>j. job_id j = i) f (db_jobs d)\<rparr>"

definition update_connection :: "int \<Rightarrow> (connection \<Rightarrow> connection) \<Rightarrow> database \<Rightarrow> database" where
  "update_connection i f d =
     d\<lparr>db_connections := update_where (\<lambda>c. con_id c = i) f (db_connections d)\<rparr>"

lemmas [step_simps] = update_recording_def update_job_def update_connection_def

lemma update_simps [simp]:
  "db_recordings (update_job i f d) = db_recordings d"
  "db_jobs (update_recording i g d) = db_jobs d"
  "db_attempts (update_job i f d) = db_attempts d"
  "db_attempts (update_recording i g d) = db_attempts d"
  "db_jobs (update_job i f d) = update_where (\<lambda>j. job_id j = i) f (db_jobs d)"
  "db_recordings (update_recording i g d) = update_where (\<lambda>r. rec_id r = i) g (db_recordings d)"
  "db_next_id (update_job i f d) = db_next_id d"
  "db_next_id (update_recording i g d) = db_next_id d"
  by (simp_all add: step_simps)

lemma find_row_Some: "find_row p rows = Some r \<Longrightarrow> r \<in> set rows \<and> p r"
  by (auto simp: find_row_def find_Some_iff)

lemma find_row_None: "find_row p rows = None \<longleftrightarrow> (\<forall>r \<in> set rows. \<not> p r)"
  by (auto simp: find_row_def find_None_iff)

lemma find_row_map:
  "(\<And>r. P (f r) = P r) \<Longrightarrow> find_row P (map f rows) = map_option f (find_row P rows)"
  by (induction rows) (auto simp: find_row_def)

lemma find_row_snoc:
  "find_row P (rows @ [x]) = (case find_row P rows of None \<Rightarrow> if P x then Some x else None | Some r \<Rightarrow> Some r)"
  by (induction rows) (auto simp: find_row_def)

section \<open>A state machine and its invariant\<close>

text \<open>
  Operations of a component that all keep an invariant: so does any sequence of them. The invariant
  and the step are the component's; the admissible operations are those its callers make.
\<close>

locale state_machine =
  fixes inv :: "'s \<Rightarrow> bool"
    and admissible :: "'op \<Rightarrow> 's \<Rightarrow> bool"
    and step :: "'op \<Rightarrow> 's \<Rightarrow> 's"
  assumes step_inv: "inv s \<Longrightarrow> admissible p s \<Longrightarrow> inv (step p s)"
begin

inductive reachable :: "'s \<Rightarrow> 's \<Rightarrow> bool" where
  start: "reachable s s"
| next_step: "reachable s s' \<Longrightarrow> admissible p s' \<Longrightarrow> reachable s (step p s')"

lemma reachable_inv: "reachable s s' \<Longrightarrow> inv s \<Longrightarrow> inv s'"
  by (induction rule: reachable.induct) (auto intro: step_inv)

lemma reachable_trans: "reachable s' s'' \<Longrightarrow> reachable s s' \<Longrightarrow> reachable s s''"
  by (induction rule: reachable.induct) (auto intro: reachable.intros)

lemma run_inv: "inv s \<Longrightarrow> (\<And>p s. p \<in> set ps \<Longrightarrow> inv s \<Longrightarrow> admissible p s) \<Longrightarrow> inv (fold step ps s)"
proof (induction ps arbitrary: s)
  case (Cons p ps)
  have "inv (step p s)" using Cons.prems by (intro step_inv) auto
  with Cons show ?case by simp
qed simp

end

end
