(* ===== verification/Auth.thy ===== *)
theory Auth
  imports Totp Db
begin

text \<open>
  \<open>src/c2w/auth/local.py\<close> and the tables it works on (\<open>src/c2w/db/models/auth.py\<close>, the organisations and the audit
  trail of \<open>src/c2w/db/models/core.py\<close>): signing in with a password, through Active Directory and through an
  identity provider, and the session rows. Argon2, SHA-256 and the directory's answers are parameters; the
  clock, tokens and salts are arguments, and so are the settings an operation reads.

  Lemmas: the guessing budget of an account, that a local account is never taken over, and the session table
  as a map from tokens to what they grant.
\<close>

section \<open>Rows\<close>

datatype auth_source = LOCAL | ENTRA | GOOGLE | LDAP

datatype role = SUPER_ADMIN | ADMIN | OPERATOR

record user =
  us_id :: int
  us_brand_id :: "int option"
  us_email :: string
  us_display_name :: "string option"
  us_role :: role
  us_source :: auth_source
  us_password_hash :: "string option"
  us_must_change :: bool
  us_oidc_issuer :: "string option"
  us_oidc_subject :: "string option"
  us_oidc_groups :: "string list option"
  us_is_active :: bool
  us_last_login_at :: "dt option"
  us_telegram :: "string option"
  us_slack :: "string option"
  us_preferences :: "(string \<times> json) list"
  us_failed_logins :: int
  us_locked_until :: "dt option"
  us_totp_sealed :: "string option"
  us_totp_enrolled_at :: "dt option"
  us_totp_last_counter :: "int option"
  us_totp_recovery :: "string list"

record user_brand =
  ub_user_id :: int
  ub_brand_id :: int
  ub_role :: role

record user_session =
  se_token_hash :: string
  se_user_id :: int
  se_created_at :: dt
  se_expires_at :: dt
  se_last_seen_at :: "dt option"
  se_ip :: "string option"
  se_user_agent :: "string option"
  se_revoked_at :: "dt option"

record brand =
  br_id :: int
  br_name :: string
  br_is_active :: bool

record audit_event =
  ae_brand_id :: int
  ae_actor_user_id :: int
  ae_actor_label :: string
  ae_action :: string
  ae_result :: string
  ae_ip :: "string option"
  ae_user_agent :: "string option"
  ae_detail :: "(string \<times> json) list"

text \<open>The tables; the sequence the next account's id is drawn from.\<close>

record auth_db =
  au_users :: "user list"
  au_next_user :: int
  au_user_brands :: "user_brand list"
  au_sessions :: "user_session list"
  au_brands :: "brand list"
  au_audit :: "audit_event list"

definition is_super_admin :: "user \<Rightarrow> bool" where
  "is_super_admin u \<longleftrightarrow> us_role u = SUPER_ADMIN"

definition totp_active :: "user \<Rightarrow> bool" where
  "totp_active u \<longleftrightarrow> us_totp_sealed u \<noteq> None \<and> us_totp_sealed u \<noteq> Some [] \<and> us_totp_enrolled_at u \<noteq> None"

text \<open>\<open>User(...)\<close> with the columns' defaults, and the row as the session writes it back.\<close>

definition new_user :: "int \<Rightarrow> int option \<Rightarrow> string \<Rightarrow> string \<Rightarrow> role \<Rightarrow> auth_source \<Rightarrow> string option \<Rightarrow> user" where
  "new_user i brand email name r src pw =
     \<lparr>us_id = i, us_brand_id = brand, us_email = email, us_display_name = Some name, us_role = r, us_source = src,
      us_password_hash = pw, us_must_change = False, us_oidc_issuer = None, us_oidc_subject = None,
      us_oidc_groups = None, us_is_active = True, us_last_login_at = None, us_telegram = None, us_slack = None,
      us_preferences = [], us_failed_logins = 0, us_locked_until = None, us_totp_sealed = None,
      us_totp_enrolled_at = None, us_totp_last_counter = None, us_totp_recovery = []\<rparr>"

definition put_user :: "user \<Rightarrow> auth_db \<Rightarrow> auth_db" where
  "put_user u d = d\<lparr>au_users := update_where (\<lambda>r. us_id r = us_id u) (\<lambda>_. u) (au_users d)\<rparr>"

definition user_by_email :: "string \<Rightarrow> auth_db \<Rightarrow> user option" where
  "user_by_email email d = find_row (\<lambda>u. us_email u = email) (au_users d)"

definition user_by_id :: "int \<Rightarrow> auth_db \<Rightarrow> user option" where
  "user_by_id i d = find_row (\<lambda>u. us_id u = i) (au_users d)"

definition normal_email :: "string \<Rightarrow> string" where
  "normal_email email = py_lower (py_strip email)"

definition insert_user :: "(int \<Rightarrow> user) \<Rightarrow> auth_db \<Rightarrow> auth_db \<times> user" where
  "insert_user mk d =
     (let u = mk (au_next_user d)
      in (d\<lparr>au_users := au_users d @ [u], au_next_user := au_next_user d + 1\<rparr>, u))"

definition add_membership :: "int \<Rightarrow> int \<Rightarrow> role \<Rightarrow> auth_db \<Rightarrow> auth_db" where
  "add_membership uid bid r d =
     d\<lparr>au_user_brands := au_user_brands d @ [\<lparr>ub_user_id = uid, ub_brand_id = bid, ub_role = r\<rparr>]\<rparr>"

text \<open>\<open>select(Brand.id).where(Brand.is_active).order_by(Brand.id).limit(1)\<close>.\<close>

definition first_brand :: "auth_db \<Rightarrow> int option" where
  "first_brand d =
     (case map br_id (filter br_is_active (au_brands d)) of [] \<Rightarrow> None | b # bs \<Rightarrow> Some (foldl min b bs))"

section \<open>Passwords\<close>

definition MAX_FAILED_LOGINS :: int where "MAX_FAILED_LOGINS = 8"
definition LOCKOUT_DURATION :: micros where "LOCKOUT_DURATION = 15 * minute"

definition is_locked :: "dt \<Rightarrow> user \<Rightarrow> bool" where
  "is_locked now u \<longleftrightarrow> (case us_locked_until u of Some t \<Rightarrow> now < t | None \<Rightarrow> False)"

definition minutes_left :: "dt \<Rightarrow> user \<Rightarrow> int" where
  "minutes_left now u = (case us_locked_until u of Some t \<Rightarrow> (t - now) div minute + 1 | None \<Rightarrow> 0)"

definition count_failure :: "dt \<Rightarrow> user \<Rightarrow> user" where
  "count_failure now u =
     (let u1 = u\<lparr>us_failed_logins := us_failed_logins u + 1\<rparr>
      in if MAX_FAILED_LOGINS \<le> us_failed_logins u1
         then u1\<lparr>us_locked_until := Some (now + LOCKOUT_DURATION), us_failed_logins := 0\<rparr> else u1)"

definition count_success :: "hasher \<Rightarrow> bytes \<Rightarrow> dt \<Rightarrow> string \<Rightarrow> string \<Rightarrow> user \<Rightarrow> user" where
  "count_success H salt now pw_hash password u =
     (let u1 = (if needs_rehash H pw_hash then u\<lparr>us_password_hash := Some (ha_hash H salt password)\<rparr> else u)
      in u1\<lparr>us_failed_logins := 0, us_locked_until := None, us_last_login_at := Some now\<rparr>)"

definition authenticate :: "hasher \<Rightarrow> bytes \<Rightarrow> bool \<Rightarrow> dt \<Rightarrow> string \<Rightarrow> string \<Rightarrow> auth_db \<Rightarrow> auth_db \<times> (auth_exc + user)" where
  "authenticate H salt local_enabled now email password d =
     (case user_by_email (normal_email email) d of
        None \<Rightarrow> (d, Inl (AuthError ''invalid email or password''))
      | Some u \<Rightarrow>
          (case us_password_hash u of
             None \<Rightarrow> (d, Inl (AuthError ''invalid email or password''))
           | Some h \<Rightarrow>
               if h = [] then (d, Inl (AuthError ''invalid email or password''))
               else if \<not> us_is_active u then (d, Inl (AuthError ''account is disabled''))
               else if is_locked now u
               then (d, Inl (AuthError (''account is locked for another '' @ show_int (minutes_left now u) @ '' minute(s)'')))
               else if us_source u \<noteq> LOCAL
               then (d, Inl (AuthError ''this account signs in through your identity provider''))
               else if \<not> local_enabled \<and> us_role u \<noteq> SUPER_ADMIN
               then (d, Inl (AuthError ''local sign-in is disabled; use your organisation account''))
               else if \<not> verify_password H h password
               then (put_user (count_failure now u) d, Inl (AuthError ''invalid email or password''))
               else (let u1 = count_success H salt now h password u in (put_user u1 d, Inr u1))))"

section \<open>Active Directory\<close>

text \<open>What the directory and the settings say: the entry that name and password open, the groups its DN is
  in, and the two group names that map to roles.\<close>

record person =
  pe_dn :: string
  pe_name :: string

record directory_view =
  dv_enabled :: bool
  dv_configured :: bool
  dv_person :: "person option"
  dv_groups :: "string list"
  dv_admin_group :: string
  dv_user_group :: string

definition directory_role :: "directory_view \<Rightarrow> role option" where
  "directory_role v =
     (let admin_group = py_strip (dv_admin_group v); user_group = py_strip (dv_user_group v)
      in if admin_group \<noteq> [] \<and> admin_group \<in> set (dv_groups v) then Some ADMIN
         else if user_group \<noteq> [] \<and> user_group \<in> set (dv_groups v) then Some OPERATOR
         else if admin_group = [] \<and> user_group = [] then Some OPERATOR
         else None)"

definition or_else :: "string \<Rightarrow> string \<Rightarrow> string" where
  "or_else a b = (if a = [] then b else a)"

text \<open>The columns a completed federated sign-in writes, in either of the two paths.\<close>

definition signed_in_as :: "dt \<Rightarrow> string \<Rightarrow> string list \<Rightarrow> user \<Rightarrow> user" where
  "signed_in_as now subject groups u =
     u\<lparr>us_oidc_subject := Some subject, us_oidc_groups := Some groups, us_last_login_at := Some now,
       us_failed_logins := 0, us_locked_until := None\<rparr>"

definition authenticate_directory :: "directory_view \<Rightarrow> dt \<Rightarrow> string \<Rightarrow> auth_db \<Rightarrow> auth_db \<times> (auth_exc + user option)" where
  "authenticate_directory v now email d =
     (let email = normal_email email
      in if \<not> dv_enabled v \<or> \<not> dv_configured v then (d, Inr None)
         else (case dv_person v of
            None \<Rightarrow>
              (d, if find_row (\<lambda>u. us_email u = email \<and> us_source u = LDAP) (au_users d) \<noteq> None
                  then Inl (AuthError ''invalid email or password'') else Inr None)
          | Some p \<Rightarrow>
              (case directory_role v of
                 None \<Rightarrow> (d, Inl (AuthError ''your directory account is not in a group that has access to this system''))
               | Some r \<Rightarrow>
                   (let finish = (\<lambda>(d1, u). if \<not> us_is_active u then (d1, Inl (AuthError ''account is disabled''))
                          else (let u1 = signed_in_as now (pe_dn p) (sort_key (map code) (dv_groups v)) (u\<lparr>us_role := r\<rparr>)
                                in (put_user u1 d1, Inr (Some u1))))
                    in case user_by_email email d of
                         None \<Rightarrow>
                           (case first_brand d of
                              None \<Rightarrow> (d, Inl (AuthError ''this system has no organisation to place you in yet''))
                            | Some b \<Rightarrow>
                                (case insert_user (\<lambda>i. new_user i (Some b) email (or_else (pe_name p) email) r LDAP None) d of
                                   (d1, u) \<Rightarrow> finish (add_membership (us_id u) b r d1, u)))
                       | Some u \<Rightarrow>
                           if us_source u \<noteq> LDAP then (d, Inl (AuthError ''this account signs in with a password kept here''))
                           else finish (d, u)))))"

section \<open>An identity provider\<close>

definition link_federated_user ::
    "dt \<Rightarrow> string \<Rightarrow> string \<Rightarrow> string \<Rightarrow> string list \<Rightarrow> auth_source \<Rightarrow> auth_db \<Rightarrow> auth_db \<times> (auth_exc + user)" where
  "link_federated_user now identity_email subject display_name groups source d =
     (let email = normal_email identity_email;
          finish = (\<lambda>(d1, u). if \<not> us_is_active u then (d1, Inl (AuthError ''account is disabled''))
            else (let u1 = signed_in_as now subject groups u;
                      u2 = (if display_name \<noteq> [] \<and> (us_display_name u1 = None \<or> us_display_name u1 = Some [])
                            then u1\<lparr>us_display_name := Some display_name\<rparr> else u1)
                  in (put_user u2 d1, Inr u2)))
      in case user_by_email email d of
           None \<Rightarrow>
             (case first_brand d of
                None \<Rightarrow> (d, Inl (AuthError ''this system has no organisation to place you in yet''))
              | Some b \<Rightarrow>
                  (case insert_user (\<lambda>i. (new_user i (Some b) email (or_else display_name email) OPERATOR source None)
                                            \<lparr>us_oidc_subject := Some subject\<rparr>) d of
                     (d1, u) \<Rightarrow> finish (add_membership (us_id u) b OPERATOR d1, u)))
         | Some u \<Rightarrow>
             if us_source u = LOCAL then (d, Inl (AuthError ''this account signs in with a password kept here''))
             else if us_source u \<noteq> source then (d, Inl (AuthError ''this account signs in through a different provider''))
             else finish (d, u))"

definition create_super_admin :: "hasher \<Rightarrow> bytes \<Rightarrow> string \<Rightarrow> string \<Rightarrow> string option \<Rightarrow> auth_db \<Rightarrow> auth_db \<times> (auth_exc + user)" where
  "create_super_admin H salt email password display_name d =
     (let email = normal_email email
      in if user_by_email email d \<noteq> None then (d, Inl (AuthError (''a user with email '' @ email @ '' already exists'')))
         else (case hash_password H salt password of
                 Inl e \<Rightarrow> (d, Inl e)
               | Inr h \<Rightarrow>
                   (case insert_user (\<lambda>i. new_user i None email
                       (or_else (case display_name of Some n \<Rightarrow> n | None \<Rightarrow> []) email) SUPER_ADMIN LOCAL (Some h)) d of
                      (d1, u) \<Rightarrow> (d1, Inr u))))"

section \<open>Sessions\<close>

text \<open>\<open>_hash_token\<close> is the parameter \<open>sha\<close>: the hexadecimal SHA-256 of the token's bytes. A hash that is
  there already violates the column's uniqueness.\<close>

definition hash_token :: "(bytes \<Rightarrow> bytes) \<Rightarrow> string \<Rightarrow> string" where
  "hash_token sha token = hex_encode (sha (utf8_encode token))"

definition create_session ::
    "(bytes \<Rightarrow> bytes) \<Rightarrow> dt \<Rightarrow> int \<Rightarrow> string \<Rightarrow> user \<Rightarrow> string option \<Rightarrow> string option \<Rightarrow> auth_db \<Rightarrow>
     auth_db \<times> (auth_exc + string \<times> user_session)" where
  "create_session sha now ttl token u ip user_agent d =
     (let row = \<lparr>se_token_hash = hash_token sha token, se_user_id = us_id u, se_created_at = now,
          se_expires_at = now + ttl * second, se_last_seen_at = None, se_ip = ip, se_user_agent = user_agent,
          se_revoked_at = None\<rparr>
      in if se_token_hash row \<in> se_token_hash ` set (au_sessions d)
         then (d, Inl (IntegrityError ''duplicate key value violates unique constraint''))
         else (d\<lparr>au_sessions := au_sessions d @ [row]\<rparr>, Inr (token, row)))"

definition resolve_session :: "(bytes \<Rightarrow> bytes) \<Rightarrow> dt \<Rightarrow> string \<Rightarrow> auth_db \<Rightarrow> auth_db \<times> user option" where
  "resolve_session sha now token d =
     (if token = [] then (d, None)
      else (case find_row (\<lambda>s. se_token_hash s = hash_token sha token) (au_sessions d) of
              None \<Rightarrow> (d, None)
            | Some s \<Rightarrow>
                if se_revoked_at s \<noteq> None \<or> se_expires_at s \<le> now then (d, None)
                else (case user_by_id (se_user_id s) d of
                        None \<Rightarrow> (d, None)
                      | Some u \<Rightarrow>
                          if \<not> us_is_active u then (d, None)
                          else (d\<lparr>au_sessions := update_where (\<lambda>r. se_token_hash r = se_token_hash s)
                                  (\<lambda>r. r\<lparr>se_last_seen_at := Some now\<rparr>) (au_sessions d)\<rparr>, Some u))))"

definition revoke_session :: "(bytes \<Rightarrow> bytes) \<Rightarrow> dt \<Rightarrow> string \<Rightarrow> auth_db \<Rightarrow> auth_db" where
  "revoke_session sha now token d =
     d\<lparr>au_sessions := update_where (\<lambda>s. se_token_hash s = hash_token sha token) (\<lambda>s. s\<lparr>se_revoked_at := Some now\<rparr>)
        (au_sessions d)\<rparr>"

definition revoke_all_sessions :: "dt \<Rightarrow> int \<Rightarrow> auth_db \<Rightarrow> auth_db" where
  "revoke_all_sessions now uid d =
     d\<lparr>au_sessions := update_where (\<lambda>s. se_user_id s = uid \<and> se_revoked_at s = None)
        (\<lambda>s. s\<lparr>se_revoked_at := Some now\<rparr>) (au_sessions d)\<rparr>"

section \<open>Rows that are written back\<close>

definition users_ok :: "auth_db \<Rightarrow> bool" where
  "users_ok d \<longleftrightarrow> distinct (map us_id (au_users d)) \<and> (\<forall>u \<in> set (au_users d). us_id u < au_next_user d)"

lemma ids_put_user [simp]: "map us_id (au_users (put_user u d)) = map us_id (au_users d)"
  by (auto simp: put_user_def update_where_def)

lemma users_ok_put_user:
  assumes "users_ok d"
  shows "users_ok (put_user u d)"
proof -
  have "us_id r < au_next_user d" if "r \<in> set (au_users (put_user u d))" for r
  proof -
    have "\<exists>r0 \<in> set (au_users d). r = (if us_id r0 = us_id u then u else r0)"
      using that by (simp add: put_user_def set_update_where)
    then obtain r0 where r0: "r0 \<in> set (au_users d)" "r = (if us_id r0 = us_id u then u else r0)" by blast
    then have "us_id r = us_id r0" by simp
    then show ?thesis using assms r0(1) by (simp add: users_ok_def)
  qed
  then show ?thesis using assms ids_put_user [of u d] by (simp add: users_ok_def put_user_def)
qed

lemma user_by_email_in: "user_by_email e d = Some u \<Longrightarrow> u \<in> set (au_users d) \<and> us_email u = e"
  using find_row_Some [of "\<lambda>u. us_email u = e"] by (auto simp: user_by_email_def)

lemma user_by_id_in: "user_by_id i d = Some u \<Longrightarrow> u \<in> set (au_users d) \<and> us_id u = i"
  using find_row_Some [of "\<lambda>u. us_id u = i"] by (auto simp: user_by_id_def)

lemma find_row_update:
  assumes "distinct (map us_id rows)" "find_row p rows = Some u" "us_id u' = us_id u" "p u'"
  shows "find_row p (update_where (\<lambda>r. us_id r = us_id u') (\<lambda>_. u') rows) = Some u'"
  using assms
proof (induction rows)
  case (Cons r rows)
  show ?case
  proof (cases "p r")
    case True
    then have "r = u" using Cons.prems(2) by (simp add: find_row_def)
    then show ?thesis using Cons.prems(3,4) by (simp add: find_row_def update_where_def)
  next
    case False
    then have u: "find_row p rows = Some u" using Cons.prems(2) by (simp add: find_row_def)
    have "u \<in> set rows" using find_row_Some [OF u] by simp
    then have "us_id u \<in> us_id ` set rows" by (rule imageI)
    moreover have "us_id r \<notin> us_id ` set rows" using Cons.prems(1) by simp
    ultimately have other: "us_id r \<noteq> us_id u'" unfolding Cons.prems(3) by metis
    have "find_row p (update_where (\<lambda>r. us_id r = us_id u') (\<lambda>_. u') rows) = Some u'"
      by (rule Cons.IH [OF _ u Cons.prems(3,4)]) (use Cons.prems(1) in simp)
    moreover have "update_where (\<lambda>r. us_id r = us_id u') (\<lambda>_. u') (r # rows) = r # update_where (\<lambda>r. us_id r = us_id u') (\<lambda>_. u') rows"
      using other by (simp add: update_where_def)
    ultimately show ?thesis using False by (simp add: find_row_def)
  qed
qed (simp add: find_row_def)

lemma user_by_email_put:
  assumes "users_ok d" "user_by_email e d = Some u" "us_id u' = us_id u" "us_email u' = e"
  shows "user_by_email e (put_user u' d) = Some u'"
  using find_row_update [of "au_users d" "\<lambda>u. us_email u = e"] assms
  by (simp add: user_by_email_def put_user_def users_ok_def)

lemma put_user_keeps_others:
  "users_ok d \<Longrightarrow> r \<in> set (au_users d) \<Longrightarrow> us_id r \<noteq> us_id u \<Longrightarrow> r \<in> set (au_users (put_user u d))"
  by (auto simp: put_user_def set_update_where)

lemma same_user: "users_ok d \<Longrightarrow> r \<in> set (au_users d) \<Longrightarrow> u \<in> set (au_users d) \<Longrightarrow> us_id r = us_id u \<Longrightarrow> r = u"
  unfolding users_ok_def by (metis (no_types, lifting) distinct_map inj_onD)

section \<open>The guessing budget\<close>

text \<open>Whether an attempt gets as far as comparing the password.\<close>

definition hash_compared :: "bool \<Rightarrow> dt \<Rightarrow> user \<Rightarrow> bool" where
  "hash_compared local_enabled now u \<longleftrightarrow> us_password_hash u \<noteq> None \<and> us_password_hash u \<noteq> Some [] \<and> us_is_active u
     \<and> \<not> is_locked now u \<and> us_source u = LOCAL \<and> (local_enabled \<or> us_role u = SUPER_ADMIN)"

fun guesses_compared :: "hasher \<Rightarrow> bytes \<Rightarrow> bool \<Rightarrow> string \<Rightarrow> (dt \<times> string) list \<Rightarrow> auth_db \<Rightarrow> int" where
  "guesses_compared H salt le email [] d = 0"
| "guesses_compared H salt le email ((now, pw) # rest) d =
     (case user_by_email (normal_email email) d of
        None \<Rightarrow> 0
      | Some u \<Rightarrow> (if hash_compared le now u then 1 else 0)
          + guesses_compared H salt le email rest (fst (authenticate H salt le now email pw d)))"

lemma authenticate_wrong:
  assumes "user_by_email (normal_email email) d = Some u" "us_password_hash u = Some h" "\<not> verify_password H h pw"
  shows "fst (authenticate H salt le now email pw d) =
    (if hash_compared le now u then put_user (count_failure now u) d else d)"
  using assms by (simp add: authenticate_def hash_compared_def)

lemma locked_no_guesses:
  assumes "user_by_email (normal_email email) d = Some u" "us_locked_until u = Some until" "us_password_hash u = Some h"
    and "\<forall>(now, pw) \<in> set attempts. now < until \<and> \<not> verify_password H h pw"
  shows "guesses_compared H salt le email attempts d = 0"
  using assms(4)
proof (induction attempts)
  case (Cons a attempts)
  obtain now pw where a: "a = (now, pw)" by force
  have "\<not> hash_compared le now u" using Cons.prems a assms(2) by (simp add: hash_compared_def is_locked_def)
  then show ?case using Cons a assms(1) authenticate_wrong [OF assms(1,3), of H pw] by simp
qed simp

lemma guesses_bounded:
  assumes "users_ok d" "user_by_email (normal_email email) d = Some u" "us_password_hash u = Some h"
    and "us_failed_logins u < MAX_FAILED_LOGINS"
    and "\<forall>(now, pw) \<in> set attempts. start \<le> now \<and> now < start + LOCKOUT_DURATION \<and> \<not> verify_password H h pw"
  shows "guesses_compared H salt le email attempts d \<le> MAX_FAILED_LOGINS - us_failed_logins u"
  using assms
proof (induction attempts arbitrary: d u)
  case (Cons a attempts)
  obtain now pw where a: "a = (now, pw)" by force
  have w: "\<not> verify_password H h pw" "start \<le> now" "now < start + LOCKOUT_DURATION" using Cons.prems(5) a by auto
  have rest: "\<forall>(now, pw) \<in> set attempts. start \<le> now \<and> now < start + LOCKOUT_DURATION \<and> \<not> verify_password H h pw"
    using Cons.prems(5) by auto
  note next_db = authenticate_wrong [OF Cons.prems(2,3) w(1)]
  show ?case
  proof (cases "hash_compared le now u")
    case False
    then show ?thesis using Cons.IH [OF Cons.prems(1-4) rest] Cons.prems(2) a next_db by simp
  next
    case True
    let ?u = "count_failure now u"
    have u: "us_id ?u = us_id u" "us_email ?u = normal_email email" "us_password_hash ?u = Some h"
      using Cons.prems(3) user_by_email_in [OF Cons.prems(2)] by (simp_all add: count_failure_def Let_def)
    have there: "user_by_email (normal_email email) (put_user ?u d) = Some ?u"
      by (rule user_by_email_put [OF Cons.prems(1,2) u(1,2)])
    show ?thesis
    proof (cases "us_failed_logins u + 1 < MAX_FAILED_LOGINS")
      case fewer: True
      then have "us_failed_logins ?u = us_failed_logins u + 1" by (simp add: count_failure_def Let_def)
      then show ?thesis
        using Cons.IH [OF users_ok_put_user [OF Cons.prems(1)] there u(3) _ rest] fewer True a Cons.prems(2) next_db by simp
    next
      case False
      then have "us_locked_until ?u = Some (now + LOCKOUT_DURATION)" by (simp add: count_failure_def Let_def)
      moreover have "\<forall>(t, pw) \<in> set attempts. t < now + LOCKOUT_DURATION \<and> \<not> verify_password H h pw"
        using rest w(2) by fastforce
      ultimately have "guesses_compared H salt le email attempts (put_user ?u d) = 0"
        using locked_no_guesses [OF there _ u(3)] by blast
      then show ?thesis using True a Cons.prems(2,4) next_db by simp
    qed
  qed
qed simp


section \<open>Federation\<close>

text \<open>What either federated path leaves of the other accounts, once it has the account it signs in.\<close>

lemma insert_user_keeps:
  assumes "users_ok d" "insert_user mk d = (d1, u)" "us_id (mk (au_next_user d)) = au_next_user d"
  shows "users_ok d1 \<and> set (au_users d1) = insert u (set (au_users d)) \<and> us_id u = au_next_user d \<and> u = mk (au_next_user d)
    \<and> au_sessions d1 = au_sessions d"
proof -
  have d1: "d1 = d\<lparr>au_users := au_users d @ [mk (au_next_user d)], au_next_user := au_next_user d + 1\<rparr>"
      "u = mk (au_next_user d)"
    using assms(2) unfolding insert_user_def Let_def by auto
  have "au_next_user d \<notin> us_id ` set (au_users d)" using assms(1) by (auto simp: users_ok_def)
  then show ?thesis using assms(1,3) unfolding d1 users_ok_def by (auto simp: less_le)
qed

lemma keeps_local:
  assumes "users_ok d1" "l \<in> set (au_users d1)" "us_source l = LOCAL" "u \<in> set (au_users d1)" "us_source u \<noteq> LOCAL" "us_id u' = us_id u"
  shows "l \<in> set (au_users (put_user u' d1)) \<and> us_id l \<noteq> us_id u'"
proof -
  have "us_id l \<noteq> us_id u" using same_user [OF assms(1,2,4)] assms(3,5) by auto
  then show ?thesis using put_user_keeps_others [OF assms(1,2), of u'] assms(6) by simp
qed

lemma link_keeps_local:
  assumes "users_ok d" "l \<in> set (au_users d)" "us_source l = LOCAL" "source \<noteq> LOCAL"
    and "link_federated_user now email subject name groups source d = (d', r)"
  shows "l \<in> set (au_users d') \<and> (\<forall>u. r = Inr u \<longrightarrow> us_source u = source \<and> us_id u \<noteq> us_id l)"
proof (cases "user_by_email (normal_email email) d")
  case (Some u)
  have u: "u \<in> set (au_users d)" using user_by_email_in [OF Some] by simp
  show ?thesis
  proof (cases "us_source u = source \<and> us_is_active u")
    case True
    then show ?thesis using assms(4,5) Some
      keeps_local [OF assms(1-3) u, of "signed_in_as now subject groups u"]
      keeps_local [OF assms(1-3) u, of "(signed_in_as now subject groups u)\<lparr>us_display_name := Some name\<rparr>"]
      by (auto simp: link_federated_user_def signed_in_as_def Let_def split: if_splits)
  next
    case False
    then show ?thesis using assms(2,5) Some by (auto simp: link_federated_user_def Let_def split: if_splits)
  qed
next
  case None
  show ?thesis
  proof (cases "first_brand d")
    case no: None
    then show ?thesis using assms(2,5) None by (auto simp: link_federated_user_def Let_def)
  next
    case (Some b)
    let ?mk = "\<lambda>i. (new_user i (Some b) (normal_email email) (or_else name (normal_email email)) OPERATOR source None)
      \<lparr>us_oidc_subject := Some subject\<rparr>"
    obtain d1 u where ins: "insert_user ?mk d = (d1, u)" by force
    have k: "users_ok d1" "set (au_users d1) = insert u (set (au_users d))" "u = ?mk (au_next_user d)"
      using insert_user_keeps [OF assms(1) ins] by (auto simp: new_user_def)
    let ?d = "add_membership (us_id u) b OPERATOR d1"
    have d: "users_ok ?d" "set (au_users ?d) = insert u (set (au_users d))"
      using k by (simp_all add: add_membership_def users_ok_def)
    have u: "us_source u = source" "us_is_active u" "u \<in> set (au_users ?d)" using k(3) d(2) by (simp_all add: new_user_def)
    show ?thesis using assms(2-5) None Some ins u d(2)
      keeps_local [OF d(1) _ assms(3) u(3), of "signed_in_as now subject groups u"]
      keeps_local [OF d(1) _ assms(3) u(3), of "(signed_in_as now subject groups u)\<lparr>us_display_name := Some name\<rparr>"]
      by (auto simp: link_federated_user_def signed_in_as_def Let_def split: if_splits)
  qed
qed

lemma directory_keeps_local:
  assumes "users_ok d" "l \<in> set (au_users d)" "us_source l = LOCAL" "authenticate_directory v now email d = (d', r)"
  shows "l \<in> set (au_users d') \<and> (\<forall>u. r = Inr (Some u) \<longrightarrow> us_source u = LDAP \<and> us_id u \<noteq> us_id l \<and> directory_role v = Some (us_role u))"
proof (cases "dv_enabled v \<and> dv_configured v \<and> dv_person v \<noteq> None \<and> directory_role v \<noteq> None")
  case False
  then show ?thesis using assms(2,4)
    by (auto simp: authenticate_directory_def Let_def split: option.splits if_splits)
next
  case True
  then obtain p r0 where p: "dv_enabled v" "dv_configured v" "dv_person v = Some p" "directory_role v = Some r0" by auto
  let ?up = "\<lambda>u. signed_in_as now (pe_dn p) (sort_key (map code) (dv_groups v)) (u\<lparr>us_role := r0\<rparr>)"
  show ?thesis
  proof (cases "user_by_email (normal_email email) d")
    case (Some u)
    have u: "u \<in> set (au_users d)" using user_by_email_in [OF Some] by simp
    show ?thesis using assms(2,4) Some p keeps_local [OF assms(1-3) u, of "?up u"]
      by (auto simp: authenticate_directory_def signed_in_as_def Let_def split: if_splits)
  next
    case None
    show ?thesis
    proof (cases "first_brand d")
      case no: None
      then show ?thesis using assms(2,4) None p by (auto simp: authenticate_directory_def Let_def)
    next
      case (Some b)
      let ?mk = "\<lambda>i. new_user i (Some b) (normal_email email) (or_else (pe_name p) (normal_email email)) r0 LDAP None"
      obtain d1 u where ins: "insert_user ?mk d = (d1, u)" by force
      have k: "users_ok d1" "set (au_users d1) = insert u (set (au_users d))" "u = ?mk (au_next_user d)"
        using insert_user_keeps [OF assms(1) ins] by (auto simp: new_user_def)
      let ?d = "add_membership (us_id u) b r0 d1"
      have d: "users_ok ?d" "set (au_users ?d) = insert u (set (au_users d))"
        using k by (simp_all add: add_membership_def users_ok_def)
      have u: "us_source u = LDAP" "us_is_active u" "u \<in> set (au_users ?d)" using k(3) d(2) by (simp_all add: new_user_def)
      show ?thesis using assms(2-4) None Some p ins u d(2) keeps_local [OF d(1) _ assms(3) u(3), of "?up u"]
        by (auto simp: authenticate_directory_def signed_in_as_def Let_def split: if_splits)
    qed
  qed
qed

text \<open>An account with a password here is never taken over from outside. Whatever an identity provider
  or the directory asserts, the row of a local account is unchanged, and the account signed in is another one,
  of that provider; the directory's account has the role its groups give it now.\<close>

theorem local_account_kept:
  assumes "users_ok d" "l \<in> set (au_users d)" "us_source l = LOCAL" "source \<noteq> LOCAL"
    and "link_federated_user now email subject name groups source d = (d1, r1)"
    and "authenticate_directory v now' who d = (d2, r2)"
  shows "l \<in> set (au_users d1) \<and> (\<forall>u. r1 = Inr u \<longrightarrow> us_source u = source \<and> us_id u \<noteq> us_id l) \<and>
    l \<in> set (au_users d2) \<and>
    (\<forall>u. r2 = Inr (Some u) \<longrightarrow> us_source u = LDAP \<and> us_id u \<noteq> us_id l \<and> directory_role v = Some (us_role u))"
  using link_keeps_local [OF assms(1-5)] directory_keeps_local [OF assms(1-3,6)] by blast

section \<open>The session table as what it grants\<close>

text \<open>What a token is worth: the account and the end of it, unless it was revoked.\<close>

definition grants :: "(bytes \<Rightarrow> bytes) \<Rightarrow> auth_db \<Rightarrow> string \<Rightarrow> (int \<times> dt) option" where
  "grants sha d token =
     (if token = [] then None
      else (case find_row (\<lambda>s. se_token_hash s = hash_token sha token) (au_sessions d) of
              None \<Rightarrow> None
            | Some s \<Rightarrow> if se_revoked_at s \<noteq> None then None else Some (se_user_id s, se_expires_at s)))"

lemma grants_updated:
  assumes "\<And>s. se_token_hash (f s) = se_token_hash s"
  shows "grants sha (d\<lparr>au_sessions := update_where p f (au_sessions d)\<rparr>) token =
    (if token = [] then None
     else (case find_row (\<lambda>s. se_token_hash s = hash_token sha token) (au_sessions d) of
             None \<Rightarrow> None
           | Some s \<Rightarrow> (let s' = if p s then f s else s
               in if se_revoked_at s' \<noteq> None then None else Some (se_user_id s', se_expires_at s'))))"
proof -
  have "find_row (\<lambda>s. se_token_hash s = hash_token sha token) (update_where p f (au_sessions d)) =
    map_option (\<lambda>s. if p s then f s else s) (find_row (\<lambda>s. se_token_hash s = hash_token sha token) (au_sessions d))"
    unfolding update_where_def by (rule find_row_map) (simp add: assms)
  then show ?thesis by (simp add: grants_def Let_def split: option.splits)
qed

text \<open>C12: the session table implements a map from tokens to what they grant. Creating a session adds its
  token, for the account and the time to live; revoking removes it; revoking all removes exactly those of the
  account; resolving looks it up, refuses it once it has ended or its account is not active, and leaves the map
  as it is. A token whose hash differs is not concerned.\<close>

theorem sessions_refine:
  assumes "hash_token sha other \<noteq> hash_token sha token" "token \<noteq> []"
  shows "(\<forall>d1 row. create_session sha now ttl token u ip agent d = (d1, Inr (token, row)) \<longrightarrow>
      grants sha d1 token = Some (us_id u, now + ttl * second) \<and> grants sha d1 other = grants sha d other) \<and>
    grants sha (revoke_session sha now token d) token = None \<and>
    grants sha (revoke_session sha now token d) other = grants sha d other \<and>
    grants sha (revoke_all_sessions now uid d) t =
      (case grants sha d t of Some (i, e) \<Rightarrow> if i = uid then None else Some (i, e) | None \<Rightarrow> None) \<and>
    snd (resolve_session sha now token d) =
      (case grants sha d token of
         None \<Rightarrow> None
       | Some (i, e) \<Rightarrow> if e \<le> now then None
           else (case user_by_id i d of None \<Rightarrow> None | Some r \<Rightarrow> if us_is_active r then Some r else None)) \<and>
    grants sha (fst (resolve_session sha now token d)) t = grants sha d t"
proof (intro conjI allI impI)
  fix d1 row
  assume c: "create_session sha now ttl token u ip agent d = (d1, Inr (token, row))"
  then have new: "hash_token sha token \<notin> se_token_hash ` set (au_sessions d)"
    and d1: "au_sessions d1 = au_sessions d @ [row]" and row: "se_token_hash row = hash_token sha token"
      "se_user_id row = us_id u" "se_expires_at row = now + ttl * second" "se_revoked_at row = None"
    by (auto simp: create_session_def Let_def split: if_splits)
  have none: "find_row (\<lambda>s. se_token_hash s = hash_token sha token) (au_sessions d) = None"
    using new unfolding find_row_None by (metis imageI)
  show "grants sha d1 token = Some (us_id u, now + ttl * second)"
    using none row assms(2) by (simp add: grants_def d1 find_row_snoc)
  show "grants sha d1 other = grants sha d other"
    using row(1) assms(1) by (simp add: grants_def d1 find_row_snoc split: option.splits)
next
  show "grants sha (revoke_session sha now token d) token = None"
    unfolding revoke_session_def
    by (subst grants_updated) (auto simp: Let_def split: option.splits dest: find_row_Some)
  show "grants sha (revoke_session sha now token d) other = grants sha d other"
    unfolding revoke_session_def using assms(1)
    by (subst grants_updated) (auto simp: grants_def Let_def split: option.splits dest: find_row_Some)
  show "grants sha (revoke_all_sessions now uid d) t =
      (case grants sha d t of Some (i, e) \<Rightarrow> if i = uid then None else Some (i, e) | None \<Rightarrow> None)"
    unfolding revoke_all_sessions_def
    by (subst grants_updated) (auto simp: grants_def Let_def split: option.splits)
  show "snd (resolve_session sha now token d) =
      (case grants sha d token of
         None \<Rightarrow> None
       | Some (i, e) \<Rightarrow> if e \<le> now then None
           else (case user_by_id i d of None \<Rightarrow> None | Some r \<Rightarrow> if us_is_active r then Some r else None))"
    using assms(2) by (auto simp: resolve_session_def grants_def split: option.splits)
  have "grants sha (d\<lparr>au_sessions := update_where p (\<lambda>r. r\<lparr>se_last_seen_at := Some now\<rparr>) (au_sessions d)\<rparr>) t = grants sha d t" for p
    by (subst grants_updated) (auto simp: grants_def Let_def split: option.splits)
  then show "grants sha (fst (resolve_session sha now token d)) t = grants sha d t"
    by (simp add: resolve_session_def split: option.splits)
qed

section \<open>Examples\<close>

definition demo_hasher :: hasher where
  "demo_hasher = \<lparr>ha_hash = (\<lambda>salt p. CHR ''#'' # p),
     ha_verify = (\<lambda>h p. if h = CHR ''#'' # p then Verified else VerifyMismatch), ha_needs_rehash = (\<lambda>_. Some False)\<rparr>"

definition demo_admin :: user where
  "demo_admin = new_user 1 None ''root@example.com'' ''Root'' SUPER_ADMIN LOCAL (Some ''#correct horse battery'')"

definition demo_auth :: auth_db where
  "demo_auth = \<lparr>au_users = [demo_admin], au_next_user = 2, au_user_brands = [], au_sessions = [],
     au_brands = [\<lparr>br_id = 7, br_name = ''Acme'', br_is_active = True\<rparr>], au_audit = []\<rparr>"

lemma demo_auth_ok: "users_ok demo_auth"
  by (simp add: users_ok_def demo_auth_def demo_admin_def new_user_def)

lemma demo_auth_by_email: "user_by_email (normal_email '' Root@Example.com'') demo_auth = Some demo_admin"
  by code_simp

lemma demo_lookup_simps:
  "us_password_hash demo_admin = Some ''#correct horse battery''" "us_failed_logins demo_admin = 0"
  "us_source demo_admin = LOCAL" "us_id demo_admin = 1" "demo_admin \<in> set (au_users demo_auth)"
  by (simp_all add: demo_admin_def new_user_def demo_auth_def)

text \<open>Nine tries, one minute apart.\<close>

definition demo_tries :: "(dt \<times> string) list" where
  "demo_tries = map (\<lambda>i. (int i * minute, ''guess'')) [0..<9]"


theorem local_account_kept_witness:
  "demo_admin \<in> set (au_users (fst (link_federated_user 5 ''root@example.com'' ''sub'' [] [] ENTRA demo_auth))) \<and>
   demo_admin \<in> set (au_users (fst (authenticate_directory \<lparr>dv_enabled = True, dv_configured = True,
     dv_person = Some \<lparr>pe_dn = ''CN=x'', pe_name = ''X''\<rparr>, dv_groups = [''admins''], dv_admin_group = ''admins'', dv_user_group = []\<rparr>
     5 ''new@example.com'' demo_auth)))"
proof -
  let ?v = "\<lparr>dv_enabled = True, dv_configured = True, dv_person = Some \<lparr>pe_dn = ''CN=x'', pe_name = ''X''\<rparr>,
    dv_groups = [''admins''], dv_admin_group = ''admins'', dv_user_group = []\<rparr>"
  obtain d1 r1 d2 r2 where r: "link_federated_user 5 ''root@example.com'' ''sub'' [] [] ENTRA demo_auth = (d1, r1)"
    "authenticate_directory ?v 5 ''new@example.com'' demo_auth = (d2, r2)" by (metis surj_pair)
  show ?thesis
    using local_account_kept [OF demo_auth_ok demo_lookup_simps(5,3) _ r] r by simp
qed

theorem sessions_refine_witness:
  "grants id (fst (create_session id 5 60 ''tok'' demo_admin None None demo_auth)) ''tok'' = Some (1, 60000005) \<and>
   grants id (revoke_all_sessions 6 1 (fst (create_session id 5 60 ''tok'' demo_admin None None demo_auth))) ''tok'' = None"
proof -
  have h: "hash_token id ''x'' \<noteq> hash_token id ''tok''" by code_simp
  obtain d1 row where c: "create_session id 5 60 ''tok'' demo_admin None None demo_auth = (d1, Inr (''tok'', row))"
    by (simp add: create_session_def demo_auth_def Let_def)
  have g: "grants id d1 ''tok'' = Some (1, 60000005)"
    using sessions_refine [OF h, of 5 60 demo_admin None None demo_auth] c by (simp add: demo_lookup_simps second_def)
  then have "grants id (revoke_all_sessions 6 1 d1) ''tok'' = None"
    using sessions_refine [OF h, of 6 60 demo_admin None None d1 1 "''tok''"] by simp
  then show ?thesis using g c by simp
qed

text \<open>What the refusals tell apart, before any password is compared: no such account, a disabled one, a
  locked one and one of an identity provider.\<close>

lemma refusals_differ:
  assumes "user_by_email (normal_email email) d = Some u" "us_password_hash u = Some h" "h \<noteq> []" "\<not> us_is_active u"
    and "user_by_email (normal_email unknown) d = None"
  shows "snd (authenticate H salt le now email pw d) = Inl (AuthError ''account is disabled'') \<and>
    snd (authenticate H salt le now unknown pw d) = Inl (AuthError ''invalid email or password'')"
  using assms by (simp add: authenticate_def)

end
