(* ===== verification/Access.thy ===== *)
theory Access
  imports Auth SettingsSpec
begin

text \<open>
  \<open>src/c2w/auth/rbac.py\<close>, \<open>src/c2w/api/deps.py\<close> and the scoping of \<open>src/c2w/db/session.py\<close>: what a role permits, which
  organisation a request acts on and as what, and which rows the row-level security policy of that scope admits.

  Lemmas: a request acts only on an organisation of the person's own, and with the role they have there.
\<close>

section \<open>Roles and permissions\<close>

datatype permission =
    RECORDINGS_VIEW | RECORDINGS_PLAY | RECORDINGS_DOWNLOAD | RECORDINGS_DELETE | RECORDINGS_EXPORT
  | CDR_VIEW | CDR_EXPORT | STORAGE_VIEW | STORAGE_MANAGE | SYNC_VIEW | SYNC_MANAGE
  | USERS_MANAGE | INTEGRATIONS_MANAGE | SETTINGS_VIEW | SETTINGS_MANAGE | AUDIT_VIEW | BRANDS_MANAGE

definition ALL_PERMISSIONS :: "permission list" where
  "ALL_PERMISSIONS =
     [RECORDINGS_VIEW, RECORDINGS_PLAY, RECORDINGS_DOWNLOAD, RECORDINGS_DELETE, RECORDINGS_EXPORT, CDR_VIEW, CDR_EXPORT,
      STORAGE_VIEW, STORAGE_MANAGE, SYNC_VIEW, SYNC_MANAGE, USERS_MANAGE, INTEGRATIONS_MANAGE, SETTINGS_VIEW,
      SETTINGS_MANAGE, AUDIT_VIEW, BRANDS_MANAGE]"

fun permission_value :: "permission \<Rightarrow> string" where
  "permission_value RECORDINGS_VIEW = ''recordings.view''"
| "permission_value RECORDINGS_PLAY = ''recordings.play''"
| "permission_value RECORDINGS_DOWNLOAD = ''recordings.download''"
| "permission_value RECORDINGS_DELETE = ''recordings.delete''"
| "permission_value RECORDINGS_EXPORT = ''recordings.export''"
| "permission_value CDR_VIEW = ''cdr.view''"
| "permission_value CDR_EXPORT = ''cdr.export''"
| "permission_value STORAGE_VIEW = ''storage.view''"
| "permission_value STORAGE_MANAGE = ''storage.manage''"
| "permission_value SYNC_VIEW = ''sync.view''"
| "permission_value SYNC_MANAGE = ''sync.manage''"
| "permission_value USERS_MANAGE = ''users.manage''"
| "permission_value INTEGRATIONS_MANAGE = ''integrations.manage''"
| "permission_value SETTINGS_VIEW = ''settings.view''"
| "permission_value SETTINGS_MANAGE = ''settings.manage''"
| "permission_value AUDIT_VIEW = ''audit.view''"
| "permission_value BRANDS_MANAGE = ''brands.manage''"

definition OPERATOR_PERMISSIONS :: "permission list" where
  "OPERATOR_PERMISSIONS =
     [RECORDINGS_VIEW, RECORDINGS_PLAY, RECORDINGS_DOWNLOAD, RECORDINGS_EXPORT, CDR_VIEW, CDR_EXPORT, SYNC_VIEW]"

fun ROLE_PERMISSIONS :: "role \<Rightarrow> permission list" where
  "ROLE_PERMISSIONS SUPER_ADMIN = ALL_PERMISSIONS"
| "ROLE_PERMISSIONS ADMIN = filter (\<lambda>p. p \<noteq> BRANDS_MANAGE) ALL_PERMISSIONS"
| "ROLE_PERMISSIONS OPERATOR = OPERATOR_PERMISSIONS"

fun role_value :: "role \<Rightarrow> string" where
  "role_value SUPER_ADMIN = ''SUPER_ADMIN''"
| "role_value ADMIN = ''ADMIN''"
| "role_value OPERATOR = ''OPERATOR''"

text \<open>\<open>Role(text)\<close>.\<close>

definition role_of :: "string \<Rightarrow> py_exc + role" where
  "role_of s = (if s = ''SUPER_ADMIN'' then Inr SUPER_ADMIN else if s = ''ADMIN'' then Inr ADMIN
     else if s = ''OPERATOR'' then Inr OPERATOR else Inl (ValueError (py_repr s @ '' is not a valid Role'')))"

definition permissions_for :: "role \<Rightarrow> permission set" where
  "permissions_for r = set (ROLE_PERMISSIONS r)"

definition has_permission :: "role \<Rightarrow> permission \<Rightarrow> bool" where
  "has_permission r p \<longleftrightarrow> p \<in> permissions_for r"

section \<open>The organisation of a request\<close>

datatype http_exc = HTTPException int string | HttpIntegrityError string | HttpRaised py_exc

definition current_user :: "user option \<Rightarrow> http_exc + user" where
  "current_user u = (case u of None \<Rightarrow> Inl (HTTPException 401 ''sign in to continue'') | Some u \<Rightarrow> Inr u)"

definition optional_user :: "(bytes \<Rightarrow> bytes) \<Rightarrow> dt \<Rightarrow> string option \<Rightarrow> auth_db \<Rightarrow> auth_db \<times> user option" where
  "optional_user sha now cookie d =
     (case cookie of None \<Rightarrow> (d, None) | Some t \<Rightarrow> if t = [] then (d, None) else resolve_session sha now t d)"

text \<open>\<open>X-Forwarded-For\<close>, or the peer.\<close>

definition client_ip :: "string option \<Rightarrow> string option \<Rightarrow> string option" where
  "client_ip forwarded peer =
     (case forwarded of Some f \<Rightarrow> if f = [] then peer else Some (py_strip (before_first CHR '','' f)) | None \<Rightarrow> peer)"

definition assigned_brands :: "user \<Rightarrow> auth_db \<Rightarrow> int set" where
  "assigned_brands u d = set (map ub_brand_id (filter (\<lambda>m. ub_user_id m = us_id u) (au_user_brands d)))"

definition active_by_name :: "auth_db \<Rightarrow> brand list" where
  "active_by_name d = sort_key (\<lambda>b. map code (br_name b)) (filter br_is_active (au_brands d))"

text \<open>\<open>if user.brand_id:\<close> an id of zero counts as none.\<close>

definition home_brand :: "user \<Rightarrow> int option" where
  "home_brand u = (if us_brand_id u = Some 0 then None else us_brand_id u)"

definition allowed_brands :: "user \<Rightarrow> auth_db \<Rightarrow> int set" where
  "allowed_brands u d = assigned_brands u d \<union> set_option (home_brand u)"

definition selectable_brands :: "user \<Rightarrow> auth_db \<Rightarrow> brand list" where
  "selectable_brands u d =
     (if is_super_admin u then active_by_name d else filter (\<lambda>b. br_id b \<in> allowed_brands u d) (active_by_name d))"

text \<open>\<open>isdigit\<close> also takes superscripts, which \<open>int\<close> refuses.\<close>

definition digits_cookie :: "string option \<Rightarrow> http_exc + int option" where
  "digits_cookie cookie =
     (case cookie of
        None \<Rightarrow> Inr None
      | Some c \<Rightarrow>
          if c = [] \<or> \<not> list_all py_isdigit_char c then Inr None
          else (case py_int_text c of
                  None \<Rightarrow> Inl (HttpRaised (ValueError ''invalid literal for int() with base 10''))
                | Some n \<Rightarrow> Inr (Some n)))"

definition chosen_or :: "brand list \<Rightarrow> string option \<Rightarrow> int \<Rightarrow> http_exc + int" where
  "chosen_or brands cookie fallback =
     res_bind (digits_cookie cookie) (\<lambda>c.
       Inr (case c of Some n \<Rightarrow> if n \<in> br_id ` set brands then n else fallback | None \<Rightarrow> fallback))"

definition active_brand_id :: "user \<Rightarrow> string option \<Rightarrow> auth_db \<Rightarrow> http_exc + int" where
  "active_brand_id u cookie d =
     (case selectable_brands u d of
        [] \<Rightarrow> Inl (if is_super_admin u
                   then HTTPException 409 ''no organisation exists yet -- create one with: c2w-admin brand add --name '<name>' --slug <slug>''
                   else HTTPException 403 ''your account has no organisation'')
      | b # bs \<Rightarrow> chosen_or (b # bs) cookie
          (if is_super_admin u then br_id b else (case home_brand u of Some h \<Rightarrow> h | None \<Rightarrow> br_id b)))"

definition effective_role :: "user \<Rightarrow> int option \<Rightarrow> auth_db \<Rightarrow> role" where
  "effective_role u brand d =
     (if is_super_admin u then SUPER_ADMIN
      else (case (case brand of None \<Rightarrow> None
                  | Some b \<Rightarrow> find_row (\<lambda>m. ub_user_id m = us_id u \<and> ub_brand_id m = b) (au_user_brands d)) of
              Some m \<Rightarrow> ub_role m
            | None \<Rightarrow> us_role u))"

text \<open>\<open>require(permission)\<close>: the guard of a route, with the organisation it acts on.\<close>

definition require :: "permission \<Rightarrow> user \<Rightarrow> string option \<Rightarrow> auth_db \<Rightarrow> http_exc + int" where
  "require p u cookie d =
     res_bind (active_brand_id u cookie d) (\<lambda>brand.
       (let r = effective_role u (Some brand) d
        in if \<not> has_permission r p
           then Inl (HTTPException 403 (''your role here ('' @ role_value r @ '') does not allow '' @ permission_value p))
           else Inr brand))"

section \<open>The scope of a session\<close>

text \<open>\<open>brand_session\<close> sets \<open>c2w.brand_id\<close>; a policy admits the rows whose brand it names, and none when it is empty.\<close>

definition brand_session :: "int option \<Rightarrow> py_exc + string" where
  "brand_session brand =
     (case brand of
        None \<Rightarrow> Inl (RuntimeError ''brand_session requires a brand_id; use platform_session for cross-brand work'')
      | Some b \<Rightarrow> Inr (show_int b))"

definition policy_admits :: "string \<Rightarrow> int option \<Rightarrow> bool" where
  "policy_admits setting brand \<longleftrightarrow> setting \<noteq> [] \<and> brand \<noteq> None \<and> py_int_text setting = brand"

definition scoped_session :: "user \<Rightarrow> string option \<Rightarrow> auth_db \<Rightarrow> http_exc + string" where
  "scoped_session u cookie d =
     res_bind (active_brand_id u cookie d) (\<lambda>b. case brand_session (Some b) of Inl e \<Rightarrow> Inl (HttpRaised e) | Inr s \<Rightarrow> Inr s)"

section \<open>The console's scope\<close>

definition brand_scope :: "string option \<Rightarrow> user \<Rightarrow> auth_db \<Rightarrow> http_exc + (brand list \<times> brand option)" where
  "brand_scope cookie u d =
     (let brands = selectable_brands u d
      in if brands = [] then Inr ([], None) else res_bind (digits_cookie cookie) (\<lambda>c.
           Inr (brands,
             case (case c of Some n \<Rightarrow> find_row (\<lambda>b. br_id b = n) brands | None \<Rightarrow> None) of
               Some b \<Rightarrow> Some b
             | None \<Rightarrow> (case find_row (\<lambda>b. Some (br_id b) = us_brand_id u) brands of
                          Some b \<Rightarrow> Some b
                        | None \<Rightarrow> (case brands of [] \<Rightarrow> None | b # _ \<Rightarrow> Some b)))))"

definition audit_scope :: "string option \<Rightarrow> user \<Rightarrow> auth_db \<Rightarrow> http_exc + int option" where
  "audit_scope cookie u d = res_bind (brand_scope cookie u d) (\<lambda>(_, active). Inr (map_option br_id active))"

section \<open>Isolation\<close>

lemma digit_run_digits: "\<forall>c \<in> set s. is_digit c \<Longrightarrow> digit_run s = (s, [])"
  by (induction s) auto

lemma strip_none: "(\<And>c. c \<in> set s \<Longrightarrow> \<not> is_space c) \<Longrightarrow> py_strip s = s"
proof -
  assume a: "\<And>c. c \<in> set s \<Longrightarrow> \<not> is_space c"
  have "dropWhile is_space xs = xs" if "\<And>c. c \<in> set xs \<Longrightarrow> \<not> is_space c" for xs
    using that by (cases xs) auto
  from this [of s] this [of "rev s"] have "dropWhile is_space s = s" "dropWhile is_space (rev s) = rev s"
    using a by simp_all
  then show ?thesis by (simp add: py_strip_def strip_chars_def rstrip_chars_def lstrip_chars_def)
qed

lemma digit_not_space: "is_digit c \<Longrightarrow> \<not> is_space c"
  by (auto simp: is_digit_def is_space_def)

lemma digit_part_digits: "\<forall>c \<in> set s. is_digit c \<Longrightarrow> digit_part s = (s, [])"
  using digit_run_digits [of s] by (cases s) (auto simp: digit_part_def)

lemma py_int_text_show [simp]: "py_int_text (show_int i) = Some i"
proof (cases "i < 0")
  case True
  let ?ds = "show_nat (nat (- i))"
  have ds: "\<forall>c \<in> set ?ds. is_digit c" using show_nat_digits by blast
  have "py_strip (show_int i) = show_int i"
    by (rule strip_none) (use ds digit_not_space True in \<open>auto simp: show_int_def is_space_def\<close>)
  then show ?thesis using True ds digit_part_digits [OF ds] by (simp add: py_int_text_def show_int_def split_sign_def)
next
  case False
  let ?ds = "show_nat (nat i)"
  have ds: "\<forall>c \<in> set ?ds. is_digit c" using show_nat_digits by blast
  have "py_strip (show_int i) = show_int i"
    by (rule strip_none) (use ds digit_not_space False in \<open>auto simp: show_int_def\<close>)
  moreover have "split_sign ?ds = (1, ?ds)"
    using ds by (cases ?ds) (auto simp: split_sign_def is_digit_def)
  ultimately show ?thesis using False digit_part_digits [OF ds] by (simp add: py_int_text_def show_int_def)
qed

lemma show_int_nonempty [simp]: "show_int i \<noteq> []"
  by (simp add: show_int_def)

lemma policy_of_scope: "policy_admits (show_int b) brand \<longleftrightarrow> brand = Some b"
  by (auto simp: policy_admits_def)

lemma active_brand_allowed:
  assumes "active_brand_id u cookie d = Inr b"
  shows "if is_super_admin u then b \<in> br_id ` {x \<in> set (au_brands d). br_is_active x} else b \<in> allowed_brands u d"
proof -
  obtain x xs where sel: "selectable_brands u d = x # xs" using assms by (cases "selectable_brands u d") (simp_all add: active_brand_id_def)
  let ?fall = "if is_super_admin u then br_id x else (case home_brand u of Some h \<Rightarrow> h | None \<Rightarrow> br_id x)"
  have "b \<in> br_id ` set (x # xs) \<or> b = ?fall"
    using assms unfolding active_brand_id_def sel chosen_or_def
    by (auto simp: res_bind_Inr_iff split: option.splits if_splits)
  moreover have "br_id ` set (x # xs) \<subseteq> br_id ` {x \<in> set (au_brands d). br_is_active x}" "is_super_admin u \<or> br_id ` set (x # xs) \<subseteq> allowed_brands u d"
    using sel [symmetric] by (auto simp: selectable_brands_def active_by_name_def split: if_splits)
  moreover have "h \<in> allowed_brands u d" if "home_brand u = Some h" for h using that by (simp add: allowed_brands_def)
  ultimately show ?thesis by (cases "home_brand u") auto
qed


lemma operator_permissions: "permissions_for OPERATOR = set OPERATOR_PERMISSIONS" "permissions_for ADMIN = set ALL_PERMISSIONS - {BRANDS_MANAGE}"
  by (auto simp: permissions_for_def)

text \<open>C8: a guarded route is entered only with the permission of the role the person has in the organisation
  acted on: the role of the pairing where there is one, and the account's own only where there is none. So
  deleting recordings and managing people take an administrator there, and managing organisations a platform
  administrator, as long as no pairing makes one.\<close>

theorem permission_gate:
  assumes "require p u cookie d = Inr b" "\<forall>m \<in> set (au_user_brands d). ub_role m \<noteq> SUPER_ADMIN"
  shows "has_permission (effective_role u (Some b) d) p \<and>
    (\<forall>m. \<not> is_super_admin u \<and> find_row (\<lambda>m. ub_user_id m = us_id u \<and> ub_brand_id m = b) (au_user_brands d) = Some m \<longrightarrow>
       effective_role u (Some b) d = ub_role m) \<and>
    (p \<in> {RECORDINGS_DELETE, USERS_MANAGE, SETTINGS_MANAGE, STORAGE_MANAGE} \<longrightarrow> effective_role u (Some b) d \<noteq> OPERATOR) \<and>
    (p = BRANDS_MANAGE \<longrightarrow> is_super_admin u)"
proof -
  let ?r = "effective_role u (Some b) d"
  have p: "has_permission ?r p" using assms(1) by (auto simp: require_def res_bind_Inr_iff Let_def split: if_splits)
  have "?r \<noteq> OPERATOR" if "p \<in> {RECORDINGS_DELETE, USERS_MANAGE, SETTINGS_MANAGE, STORAGE_MANAGE}"
    using p that by (cases ?r) (auto simp: has_permission_def operator_permissions OPERATOR_PERMISSIONS_def)
  moreover have "is_super_admin u" if "p = BRANDS_MANAGE"
  proof (rule ccontr)
    assume not: "\<not> is_super_admin u"
    have "?r = SUPER_ADMIN"
      using p that by (cases ?r) (auto simp: has_permission_def operator_permissions OPERATOR_PERMISSIONS_def)
    then obtain m where "find_row (\<lambda>m. ub_user_id m = us_id u \<and> ub_brand_id m = b) (au_user_brands d) = Some m" "ub_role m = SUPER_ADMIN"
      using not by (auto simp: effective_role_def is_super_admin_def split: option.splits)
    then show False using find_row_Some [of "\<lambda>m. ub_user_id m = us_id u \<and> ub_brand_id m = b" "au_user_brands d" m] assms(2) by auto
  qed
  ultimately show ?thesis using p by (auto simp: effective_role_def)
qed

section \<open>Examples\<close>

text \<open>A person whose home is organisation 7, as its administrator, and who is an operator for organisation 8.\<close>

definition demo_person :: user where
  "demo_person = new_user 2 (Some 7) ''ana@example.com'' ''Ana'' ADMIN LOCAL (Some ''#a password of hers'')"

definition demo_orgs :: auth_db where
  "demo_orgs = \<lparr>au_users = [demo_admin, demo_person], au_next_user = 3,
     au_user_brands = [\<lparr>ub_user_id = 2, ub_brand_id = 7, ub_role = ADMIN\<rparr>, \<lparr>ub_user_id = 2, ub_brand_id = 8, ub_role = OPERATOR\<rparr>],
     au_sessions = [], au_brands = [\<lparr>br_id = 7, br_name = ''Acme'', br_is_active = True\<rparr>,
       \<lparr>br_id = 8, br_name = ''Bolt'', br_is_active = True\<rparr>, \<lparr>br_id = 9, br_name = ''Core'', br_is_active = True\<rparr>], au_audit = []\<rparr>"

lemma demo_person_simps:
  "us_id demo_person = 2" "us_role demo_person = ADMIN" "us_brand_id demo_person = Some 7" "\<not> is_super_admin demo_person"
  by (simp_all add: demo_person_def new_user_def is_super_admin_def)

lemma demo_selectable:
  "selectable_brands demo_person demo_orgs =
    [\<lparr>br_id = 7, br_name = ''Acme'', br_is_active = True\<rparr>, \<lparr>br_id = 8, br_name = ''Bolt'', br_is_active = True\<rparr>]"
proof -
  have "active_by_name demo_orgs = au_brands demo_orgs"
    unfolding active_by_name_def demo_orgs_def by code_simp
  moreover have "allowed_brands demo_person demo_orgs = {7, 8}"
    by (auto simp: allowed_brands_def assigned_brands_def home_brand_def demo_person_simps demo_orgs_def)
  ultimately show ?thesis by (simp add: selectable_brands_def demo_person_simps) (simp add: demo_orgs_def)
qed

lemma demo_cookies: "digits_cookie (Some ''8'') = Inr (Some 8)" "digits_cookie (Some ''9'') = Inr (Some 9)" "digits_cookie None = Inr None"
  by code_simp+

lemma demo_active: "active_brand_id demo_person (Some ''8'') demo_orgs = Inr 8" "active_brand_id demo_person (Some ''9'') demo_orgs = Inr 7"
  by (simp_all add: active_brand_id_def demo_selectable chosen_or_def demo_cookies demo_person_simps home_brand_def)


theorem permission_gate_witness:
  "require CDR_VIEW demo_person (Some ''8'') demo_orgs = Inr 8 \<and> effective_role demo_person (Some 8) demo_orgs = OPERATOR \<and>
   (\<exists>e. require RECORDINGS_DELETE demo_person (Some ''8'') demo_orgs = Inl e)"
proof -
  have r: "effective_role demo_person (Some 8) demo_orgs = OPERATOR"
    by (simp add: effective_role_def demo_person_simps demo_orgs_def find_row_def)
  have req: "require CDR_VIEW demo_person (Some ''8'') demo_orgs = Inr 8"
    by (simp add: require_def demo_active r has_permission_def permissions_for_def OPERATOR_PERMISSIONS_def)
  have nosuper: "\<forall>m \<in> set (au_user_brands demo_orgs). ub_role m \<noteq> SUPER_ADMIN" by (simp add: demo_orgs_def)
  have "require RECORDINGS_DELETE demo_person (Some ''8'') demo_orgs \<noteq> Inr b" for b
    using permission_gate [OF _ nosuper, of RECORDINGS_DELETE demo_person "Some ''8''" b] r demo_active
    by (auto simp: require_def Let_def split: if_splits)
  then have "\<exists>e. require RECORDINGS_DELETE demo_person (Some ''8'') demo_orgs = Inl e"
    by (cases "require RECORDINGS_DELETE demo_person (Some ''8'') demo_orgs") auto
  then show ?thesis using req r by blast
qed

section \<open>What the fallback does not ask\<close>

text \<open>The home organisation is what a request acts on when nothing is chosen, active or not.\<close>

lemma inactive_home_acts:
  assumes "\<not> is_super_admin u" "selectable_brands u d \<noteq> []" "home_brand u = Some h"
  shows "active_brand_id u None d = Inr h"
  using assms by (cases "selectable_brands u d") (simp_all add: active_brand_id_def chosen_or_def digits_cookie_def)

lemma superscript_cookie_raises:
  assumes "selectable_brands u d \<noteq> []"
  shows "\<exists>e. active_brand_id u (Some [char_of (178 :: nat)]) d = Inl (HttpRaised e)"
proof -
  have "\<exists>e. digits_cookie (Some [char_of (178 :: nat)]) = Inl (HttpRaised e)" by (intro exI) code_simp
  then show ?thesis using assms by (cases "selectable_brands u d") (auto simp: active_brand_id_def chosen_or_def)
qed

end
