(* ===== verification/Mfa.thy ===== *)
theory Mfa
  imports Auth Crypto SettingsSpec
begin

text \<open>
  \<open>src/c2w/auth/mfa.py\<close>: enrolling an authenticator, checking the second factor, and the ticket between the
  password and the code. The cipher, HMAC-SHA1, Argon2, the QR library and the ticket signer are parameters;
  the clock and random bytes are arguments.

  Lemmas: the invariant of the enrolment states; that what is shown at enrolment is what is accepted; and that
  a code or a recovery code is spent by being accepted.
\<close>

section \<open>Libraries\<close>

text \<open>\<open>TimestampSigner\<close> with its salt: signing at a time, and what unsigning with an age limit returns.\<close>

record signer =
  sg_sign :: "string \<Rightarrow> dt \<Rightarrow> string \<Rightarrow> string"
  sg_unsign :: "string \<Rightarrow> dt \<Rightarrow> int \<Rightarrow> string \<Rightarrow> string option"

definition signer_ok :: "signer \<Rightarrow> bool" where
  "signer_ok S \<longleftrightarrow> (\<forall>key t now age s. sg_sign S key t s \<noteq> [] \<and> sg_unsign S key now age (sg_sign S key t s) =
     (if t div second \<le> now div second \<and> now div second - t div second \<le> age then Some s else None))"

record mfa_lib =
  ml_aead :: aead
  ml_master :: string
  ml_hmac :: "bytes \<Rightarrow> bytes \<Rightarrow> bytes"
  ml_hasher :: hasher
  ml_draw :: "string \<Rightarrow> int \<Rightarrow> string \<Rightarrow> string"
  ml_signer :: signer

section \<open>Enrolment\<close>

definition TICKET_MAX_AGE_SECONDS :: int where "TICKET_MAX_AGE_SECONDS = 300"

definition mfa_aad :: "int \<Rightarrow> string" where
  "mfa_aad uid = ''totp:'' @ show_int uid"

record enrolment =
  en_secret :: string
  en_typed_secret :: string
  en_uri :: string
  en_qr_svg :: string

definition mfa_issuer :: "string \<Rightarrow> string" where
  "mfa_issuer name = or_else (py_strip (or_else name ''c2w'')) ''c2w''"

definition has_secret :: "user \<Rightarrow> bool" where
  "has_secret u \<longleftrightarrow> us_totp_sealed u \<noteq> None \<and> us_totp_sealed u \<noteq> Some []"

definition begin_enrolment :: "mfa_lib \<Rightarrow> bytes \<Rightarrow> bytes \<Rightarrow> string \<Rightarrow> user \<Rightarrow> auth_db \<Rightarrow> auth_db \<times> (auth_exc + enrolment)" where
  "begin_enrolment L rnd nonce issuer_name u d =
     (if us_source u \<noteq> LOCAL
      then (d, Inl (AuthError ''this account's second factor is managed by your identity provider''))
      else if totp_active u then (d, Inl (AuthError ''two-factor is already on for this account''))
      else (let secret = new_secret rnd
            in case seal_global (ml_aead L) (ml_master L) nonce secret (mfa_aad (us_id u)) of
                 Inl e \<Rightarrow> (d, Inl (AuthRaised e))
               | Inr sealed \<Rightarrow>
                   (let d1 = put_user (u\<lparr>us_totp_sealed := Some sealed, us_totp_enrolled_at := None, us_totp_last_counter := None\<rparr>) d;
                        uri = provisioning_uri secret (us_email u) (mfa_issuer issuer_name)
                    in (d1, auth_lift (res_bind (qr_svg (ml_draw L) uri 5) (\<lambda>svg.
                         Inr \<lparr>en_secret = secret, en_typed_secret = format_secret secret, en_uri = uri, en_qr_svg = svg\<rparr>))))))"

text \<open>\<open>confirm_enrolment\<close>; the recovery codes are drawn from \<open>rnd\<close>, and hashed with the salts.\<close>

definition open_secret :: "mfa_lib \<Rightarrow> user \<Rightarrow> py_exc + string" where
  "open_secret L u = open_global (ml_aead L) (ml_master L) (case us_totp_sealed u of Some s \<Rightarrow> s | None \<Rightarrow> []) (mfa_aad (us_id u))"

definition hash_codes :: "mfa_lib \<Rightarrow> (nat \<Rightarrow> bytes) \<Rightarrow> string list \<Rightarrow> auth_exc + string list" where
  "hash_codes L salts codes = map_res (\<lambda>(i, c). hash_recovery_code (ml_hasher L) (salts i) c) (enumerate 0 codes)"

definition confirm_enrolment :: "mfa_lib \<Rightarrow> dt \<Rightarrow> (nat \<Rightarrow> bytes \<times> bytes \<times> bytes) \<Rightarrow> (nat \<Rightarrow> bytes) \<Rightarrow> string \<Rightarrow> user \<Rightarrow> auth_db \<Rightarrow>
    auth_db \<times> (auth_exc + string list)" where
  "confirm_enrolment L now rnd salts c u d =
     (if \<not> has_secret u then (d, Inl (AuthError ''start the setup again -- there is no pending secret''))
      else if us_totp_enrolled_at u \<noteq> None then (d, Inl (AuthError ''two-factor is already on for this account''))
      else (case res_bind (open_secret L u) (\<lambda>secret. verify_code (ml_hmac L) secret c None now) of
              Inl e \<Rightarrow> (d, Inl (AuthRaised e))
            | Inr None \<Rightarrow> (d, Inl (AuthError ''that code did not match -- check the clock on your phone''))
            | Inr (Some counter) \<Rightarrow>
                (let codes = new_recovery_codes rnd
                 in case hash_codes L salts codes of
                      Inl e \<Rightarrow> (d, Inl e)
                    | Inr hashes \<Rightarrow>
                        (put_user (u\<lparr>us_totp_enrolled_at := Some now, us_totp_last_counter := Some counter, us_totp_recovery := hashes\<rparr>) d,
                         Inr codes))))"

definition cancel_enrolment :: "user \<Rightarrow> auth_db \<Rightarrow> auth_db \<times> (auth_exc + unit)" where
  "cancel_enrolment u d =
     (if us_totp_enrolled_at u \<noteq> None then (d, Inl (AuthError ''two-factor is on; turn it off instead''))
      else (put_user (u\<lparr>us_totp_sealed := None, us_totp_last_counter := None\<rparr>) d, Inr ()))"

text \<open>The columns of a factor that is off, as \<open>disable\<close> and an administrator's reset leave them.\<close>

definition clear_factor :: "user \<Rightarrow> user" where
  "clear_factor u = u\<lparr>us_totp_sealed := None, us_totp_enrolled_at := None, us_totp_last_counter := None, us_totp_recovery := []\<rparr>"

definition disable_factor :: "mfa_lib \<Rightarrow> string \<Rightarrow> user \<Rightarrow> auth_db \<Rightarrow> auth_db \<times> (auth_exc + unit)" where
  "disable_factor L password u d =
     (case us_password_hash u of
        Some h \<Rightarrow> if h \<noteq> [] \<and> verify_password (ml_hasher L) h password then (put_user (clear_factor u) d, Inr ())
                  else (d, Inl (AuthError ''that password is not right''))
      | None \<Rightarrow> (d, Inl (AuthError ''that password is not right'')))"

section \<open>At sign-in\<close>

definition second_factor_required :: "bool \<Rightarrow> user \<Rightarrow> bool" where
  "second_factor_required require_totp u = (if totp_active u then True else if us_source u \<noteq> LOCAL then False else require_totp)"

definition check_second_factor :: "mfa_lib \<Rightarrow> dt \<Rightarrow> string \<Rightarrow> user \<Rightarrow> auth_db \<Rightarrow> auth_db \<times> (auth_exc + unit)" where
  "check_second_factor L now entered u d =
     (if \<not> totp_active u \<or> \<not> has_secret u then (d, Inl (AuthError ''two-factor is not set up on this account''))
      else (case res_bind (open_secret L u) (\<lambda>secret. verify_code (ml_hmac L) secret entered (us_totp_last_counter u) now) of
              Inl e \<Rightarrow> (d, Inl (AuthRaised e))
            | Inr (Some counter) \<Rightarrow> (put_user (u\<lparr>us_totp_last_counter := Some counter\<rparr>) d, Inr ())
            | Inr None \<Rightarrow>
                (case verify_recovery_code (ml_hasher L) (us_totp_recovery u) entered of
                   Some used \<Rightarrow>
                     (revoke_all_sessions now (us_id u)
                        (put_user (u\<lparr>us_totp_recovery := remove1 used (us_totp_recovery u)\<rparr>) d), Inr ())
                 | None \<Rightarrow> (d, Inl (AuthError ''that code is not right, or has already been used'')))))"

section \<open>Tickets\<close>

definition issue_ticket :: "mfa_lib \<Rightarrow> dt \<Rightarrow> user \<Rightarrow> auth_exc + string" where
  "issue_ticket L now u =
     (if ml_master L = [] then Inl (AuthError ''the platform master key is not configured'')
      else Inr (sg_sign (ml_signer L) (ml_master L) now (show_int (us_id u))))"

definition read_ticket :: "mfa_lib \<Rightarrow> dt \<Rightarrow> string \<Rightarrow> int option" where
  "read_ticket L now ticket =
     (if ticket = [] \<or> ml_master L = [] then None
      else (case sg_unsign (ml_signer L) (ml_master L) now TICKET_MAX_AGE_SECONDS ticket of
              None \<Rightarrow> None
            | Some raw \<Rightarrow> py_int_text raw))"

definition can_reset_for :: "user \<Rightarrow> user \<Rightarrow> bool" where
  "can_reset_for actor target = (if us_role actor \<noteq> SUPER_ADMIN then False else us_id actor \<noteq> us_id target)"

section \<open>The states of an enrolment\<close>

text \<open>Nothing, pending (a secret and no date) or active. A factor that is not on has no counter and no
  recovery codes; one that is on has a secret that was proved, and the step that proved it.\<close>

definition factor_ok :: "user \<Rightarrow> bool" where
  "factor_ok u \<longleftrightarrow>
     (if us_totp_enrolled_at u = None then us_totp_last_counter u = None \<and> us_totp_recovery u = []
      else has_secret u \<and> us_totp_last_counter u \<noteq> None)"

definition factors_ok :: "auth_db \<Rightarrow> bool" where
  "factors_ok d \<longleftrightarrow> users_ok d \<and> (\<forall>u \<in> set (au_users d). factor_ok u)"

datatype mfa_op =
    Begin int bytes bytes string
  | Confirm int dt "nat \<Rightarrow> bytes \<times> bytes \<times> bytes" "nat \<Rightarrow> bytes" string
  | Cancel int
  | Disable int string
  | Check int dt string
  | Reset int dt

definition on_user :: "int \<Rightarrow> (user \<Rightarrow> auth_db \<Rightarrow> auth_db) \<Rightarrow> auth_db \<Rightarrow> auth_db" where
  "on_user uid f d = (case user_by_id uid d of None \<Rightarrow> d | Some u \<Rightarrow> f u d)"

fun mfa_step :: "mfa_lib \<Rightarrow> mfa_op \<Rightarrow> auth_db \<Rightarrow> auth_db" where
  "mfa_step L (Begin uid rnd nonce issuer) d = on_user uid (\<lambda>u d. fst (begin_enrolment L rnd nonce issuer u d)) d"
| "mfa_step L (Confirm uid now rnd salts c) d = on_user uid (\<lambda>u d. fst (confirm_enrolment L now rnd salts c u d)) d"
| "mfa_step L (Cancel uid) d = on_user uid (\<lambda>u d. fst (cancel_enrolment u d)) d"
| "mfa_step L (Disable uid password) d = on_user uid (\<lambda>u d. fst (disable_factor L password u d)) d"
| "mfa_step L (Check uid now entered) d = on_user uid (\<lambda>u d. fst (check_second_factor L now entered u d)) d"
| "mfa_step L (Reset uid now) d = on_user uid (\<lambda>u d. revoke_all_sessions now uid (put_user (clear_factor u) d)) d"

lemma factors_put: "factors_ok d \<Longrightarrow> factor_ok u \<Longrightarrow> factors_ok (put_user u d)"
  using users_ok_put_user [of d u] by (auto simp: factors_ok_def put_user_def set_update_where)

lemma factors_revoke [simp]: "factors_ok (revoke_all_sessions now uid d) = factors_ok d"
  by (simp add: factors_ok_def users_ok_def revoke_all_sessions_def)

lemma totp_active_iff: "totp_active u \<longleftrightarrow> has_secret u \<and> us_totp_enrolled_at u \<noteq> None"
  by (auto simp: totp_active_def has_secret_def)

lemma factor_ops_keep:
  assumes "factors_ok d" "u \<in> set (au_users d)"
  shows "factors_ok (fst (begin_enrolment L rnd nonce issuer u d))" "factors_ok (fst (confirm_enrolment L now rnd2 salts c u d))"
    "factors_ok (fst (cancel_enrolment u d))" "factors_ok (fst (disable_factor L password u d))"
    "factors_ok (fst (check_second_factor L now entered u d))" "factors_ok (put_user (clear_factor u) d)"
proof -
  have u: "factor_ok u" using assms by (simp add: factors_ok_def)
  note put = factors_put [OF assms(1)]
  show "factors_ok (fst (begin_enrolment L rnd nonce issuer u d))"
    using u assms(1) by (auto simp: begin_enrolment_def Let_def totp_active_iff factor_ok_def intro!: put split: sum.splits if_splits)
  show "factors_ok (fst (confirm_enrolment L now rnd2 salts c u d))"
    using u assms(1) by (auto simp: confirm_enrolment_def Let_def factor_ok_def has_secret_def intro!: put split: sum.splits option.splits)
  show "factors_ok (fst (cancel_enrolment u d))"
    using u assms(1) by (auto simp: cancel_enrolment_def factor_ok_def intro!: put)
  show "factors_ok (fst (disable_factor L password u d))" "factors_ok (put_user (clear_factor u) d)"
    using u assms(1) by (auto simp: disable_factor_def factor_ok_def clear_factor_def intro!: put split: option.splits)
  show "factors_ok (fst (check_second_factor L now entered u d))"
    using u assms(1) by (auto simp: check_second_factor_def factor_ok_def totp_active_iff has_secret_def intro!: put split: sum.splits option.splits)
qed

lemma mfa_step_keeps: "factors_ok d \<Longrightarrow> factors_ok (mfa_step L p d)"
  by (cases p) (auto simp: on_user_def factor_ops_keep user_by_id_in split: option.splits)

interpretation mfa_machine: state_machine factors_ok "\<lambda>_ _. True" "mfa_step L" for L
  by unfold_locales (rule mfa_step_keeps)

text \<open>Whatever order enrolments are begun, confirmed, cancelled, checked, turned off and reset in, an
  active factor always has its secret and the step that proved it, and one that is not active has neither a
  counter nor recovery codes.\<close>

theorem enrolment_states:
  assumes "factors_ok d" "u \<in> set (au_users (fold (mfa_step L) ops d))"
  shows "(totp_active u \<longrightarrow> has_secret u \<and> us_totp_last_counter u \<noteq> None) \<and>
    (\<not> totp_active u \<longrightarrow> us_totp_enrolled_at u = None \<and> us_totp_last_counter u = None \<and> us_totp_recovery u = [])"
proof -
  have "factors_ok (fold (mfa_step L) ops d)" by (rule mfa_machine.run_inv [OF assms(1)]) simp
  then have "factor_ok u" using assms(2) by (simp add: factors_ok_def)
  then show ?thesis by (auto simp: factor_ok_def totp_active_iff split: if_splits)
qed

section \<open>What is accepted is spent\<close>

lemma try_drifts_later:
  "try_drifts hm secret digits last_counter current drifts = Inr (Some n) \<Longrightarrow>
   0 \<le> n \<and> (case last_counter of Some m \<Rightarrow> m < n | None \<Rightarrow> True) \<and> code_at hm secret n = Inr digits"
proof (induction drifts)
  case (Cons k drifts)
  then show ?case
    by (auto simp: Let_def res_bind_Inr_iff compare_digest_def split: if_splits option.splits)
qed simp

lemma verify_code_later:
  "verify_code hm secret entered last_counter now = Inr (Some n) \<Longrightarrow>
   0 \<le> n \<and> (case last_counter of Some m \<Rightarrow> m < n | None \<Rightarrow> True) \<and> code_at hm secret n = Inr (normalise_code entered)"
  by (auto simp: verify_code_def Let_def dest: try_drifts_later split: if_splits)

lemma recovery_found:
  assumes "verify_recovery_code H hashes entered = Some h"
  shows "h \<in> set hashes \<and> verify_password H h (canonical_recovery entered)"
proof -
  have "find (\<lambda>stored. verify_password H stored (canonical_recovery entered)) hashes = Some h"
    using assms by (simp add: verify_recovery_code_def Let_def split: if_splits)
  then show ?thesis by (rule find_row_Some [unfolded find_row_def])
qed

lemma check_outcomes:
  assumes "check_second_factor L now entered u d = (d', Inr ())"
  obtains n where "d' = put_user (u\<lparr>us_totp_last_counter := Some n\<rparr>) d" "case us_totp_last_counter u of Some m \<Rightarrow> m < n | None \<Rightarrow> True"
  | h where "h \<in> set (us_totp_recovery u)" "verify_password (ml_hasher L) h (canonical_recovery entered)"
      "d' = revoke_all_sessions now (us_id u) (put_user (u\<lparr>us_totp_recovery := remove1 h (us_totp_recovery u)\<rparr>) d)"
proof -
  let ?r = "res_bind (open_secret L u) (\<lambda>secret. verify_code (ml_hmac L) secret entered (us_totp_last_counter u) now)"
  have guard: "\<not> (\<not> totp_active u \<or> \<not> has_secret u)" using assms by (auto simp: check_second_factor_def split: if_splits)
  show thesis
  proof (cases ?r)
    case (Inl e)
    then show thesis using assms guard by (simp add: check_second_factor_def)
  next
    case (Inr opt)
    show thesis
    proof (cases opt)
      case (Some n)
      then have r: "?r = Inr (Some n)" using Inr by simp
      then have "case us_totp_last_counter u of Some m \<Rightarrow> m < n | None \<Rightarrow> True"
        using verify_code_later by (fastforce simp: res_bind_Inr_iff)
      moreover have "d' = put_user (u\<lparr>us_totp_last_counter := Some n\<rparr>) d"
        using assms guard r by (simp add: check_second_factor_def)
      ultimately show thesis by (rule that(1) [rotated])
    next
      case None
      then have r: "?r = Inr None" using Inr by simp
      show thesis
      proof (cases "verify_recovery_code (ml_hasher L) (us_totp_recovery u) entered")
        case no: None
        then show thesis using assms guard r by (simp add: check_second_factor_def)
      next
        case used: (Some h)
        have "h \<in> set (us_totp_recovery u)" "verify_password (ml_hasher L) h (canonical_recovery entered)"
          using recovery_found [OF used] by simp_all
        moreover have "d' = revoke_all_sessions now (us_id u) (put_user (u\<lparr>us_totp_recovery := remove1 h (us_totp_recovery u)\<rparr>) d)"
          using assms guard r used by (simp add: check_second_factor_def)
        ultimately show thesis by (rule that(2))
      qed
    qed
  qed
qed

lemma user_by_id_put:
  assumes "users_ok d" "user_by_id i d = Some u" "us_id u' = i"
  shows "user_by_id i (put_user u' d) = Some u'"
  using find_row_update [of "au_users d" "\<lambda>u. us_id u = i" u u'] user_by_id_in [OF assms(2)] assms
  by (simp add: user_by_id_def put_user_def users_ok_def)

lemma user_by_id_revoke [simp]: "user_by_id i (revoke_all_sessions now uid d) = user_by_id i d"
  by (simp add: user_by_id_def revoke_all_sessions_def)

lemma users_ok_revoke [simp]: "users_ok (revoke_all_sessions now uid d) = users_ok d"
  by (simp add: users_ok_def revoke_all_sessions_def)

text \<open>Attempts at one account's second factor, one after the other: for each that succeeds, the step it was
  accepted for, or \<open>None\<close> when a recovery code was.\<close>

fun passed :: "mfa_lib \<Rightarrow> int \<Rightarrow> (dt \<times> string) list \<Rightarrow> auth_db \<Rightarrow> int option list" where
  "passed L uid [] d = []"
| "passed L uid ((now, entered) # rest) d =
     (case user_by_id uid d of
        None \<Rightarrow> []
      | Some u \<Rightarrow>
          (case check_second_factor L now entered u d of
             (d', Inl e) \<Rightarrow> passed L uid rest d'
           | (d', Inr _) \<Rightarrow>
               (case user_by_id uid d' of
                  None \<Rightarrow> []
                | Some u' \<Rightarrow> (if us_totp_last_counter u' = us_totp_last_counter u then None else us_totp_last_counter u')
                    # passed L uid rest d')))"

definition steps_of :: "int option list \<Rightarrow> int list" where
  "steps_of ps = List.map_filter id ps"

lemma steps_of_simps [simp]: "steps_of [] = []" "steps_of (None # ps) = steps_of ps" "steps_of (Some n # ps) = n # steps_of ps"
  by (simp_all add: steps_of_def)

definition after :: "int option \<Rightarrow> int \<Rightarrow> bool" where
  "after last_counter n \<longleftrightarrow> (case last_counter of Some m \<Rightarrow> m < n | None \<Rightarrow> True)"

lemma refused_changes_nothing: "check_second_factor L now entered u d = (d', Inl e) \<Longrightarrow> d' = d"
  by (auto simp: check_second_factor_def split: if_splits sum.splits option.splits)

lemma passed_spends:
  assumes "users_ok d" "user_by_id uid d = Some u"
  shows "sorted_wrt (<) (steps_of (passed L uid attempts d)) \<and> (\<forall>n \<in> set (steps_of (passed L uid attempts d)). after (us_totp_last_counter u) n)
    \<and> length (filter (\<lambda>p. p = None) (passed L uid attempts d)) \<le> length (us_totp_recovery u)"
  using assms
proof (induction attempts arbitrary: d u)
  case (Cons a attempts)
  obtain now entered where a: "a = (now, entered)" by force
  have u: "u \<in> set (au_users d)" "us_id u = uid" using user_by_id_in [OF Cons.prems(2)] by simp_all
  obtain d' r where c: "check_second_factor L now entered u d = (d', r)" by force
  show ?case
  proof (cases r)
    case (Inl e)
    then show ?thesis using refused_changes_nothing [of L now entered u d d' e] c Cons a by simp
  next
    case (Inr x)
    then have c': "check_second_factor L now entered u d = (d', Inr ())" using c by simp
    from c' show ?thesis
    proof (cases rule: check_outcomes)
      case (1 n)
      let ?u = "u\<lparr>us_totp_last_counter := Some n\<rparr>"
      have d': "users_ok d'" "user_by_id uid d' = Some ?u"
        using users_ok_put_user [OF Cons.prems(1)] user_by_id_put [OF Cons.prems, of ?u] u(2) 1(1) by simp_all
      have ne: "us_totp_last_counter u \<noteq> Some n" using 1(2) by (cases "us_totp_last_counter u") auto
      have p: "passed L uid (a # attempts) d = Some n # passed L uid attempts d'"
        using Cons.prems(2) c' d'(2) ne by (simp add: a)
      have later: "after (us_totp_last_counter u) m" if "after (Some n) m" for m
        using 1(2) that by (cases "us_totp_last_counter u") (simp_all add: after_def)
      have now_after: "after (us_totp_last_counter u) n" using 1(2) by (simp add: after_def)
      have IH: "sorted_wrt (<) (steps_of (passed L uid attempts d'))" "\<forall>m \<in> set (steps_of (passed L uid attempts d')). after (Some n) m"
        "length (filter (\<lambda>p. p = None) (passed L uid attempts d')) \<le> length (us_totp_recovery u)"
        using Cons.IH [OF d'] by simp_all
      have gt: "\<forall>m \<in> set (steps_of (passed L uid attempts d')). n < m" using IH(2) by (simp add: after_def)
      show ?thesis unfolding p using IH(1,3) gt now_after later IH(2) by simp
    next
      case (2 h)
      let ?u = "u\<lparr>us_totp_recovery := remove1 h (us_totp_recovery u)\<rparr>"
      have d': "users_ok d'" "user_by_id uid d' = Some ?u"
        using users_ok_put_user [OF Cons.prems(1)] user_by_id_put [OF Cons.prems, of ?u] u(2) 2(3) by simp_all
      have p: "passed L uid (a # attempts) d = None # passed L uid attempts d'"
        using Cons.prems(2) c' d'(2) by (simp add: a)
      have pos: "0 < length (us_totp_recovery u)" using 2(1) by (rule length_pos_if_in_set)
      have IH: "sorted_wrt (<) (steps_of (passed L uid attempts d'))"
        "\<forall>m \<in> set (steps_of (passed L uid attempts d')). after (us_totp_last_counter u) m"
        "length (filter (\<lambda>p. p = None) (passed L uid attempts d')) \<le> length (us_totp_recovery u) - 1"
        using Cons.IH [OF d'] 2(1) by (simp_all add: length_remove1)
      have "Suc (length (filter (\<lambda>p. p = None) (passed L uid attempts d'))) \<le> length (us_totp_recovery u)"
        using IH(3) pos by linarith
      then show ?thesis unfolding p using IH(1,2) by simp
    qed
  qed
qed simp

text \<open>C5: a code works once. Over any attempts at an account's second factor, the time steps accepted strictly
  increase from the last one it accepted, so no step's code is accepted twice, and recovery codes are accepted
  at most as many times as there are of them.\<close>

theorem codes_single_use:
  assumes "users_ok d" "user_by_id uid d = Some u"
  shows "sorted_wrt (<) (steps_of (passed L uid attempts d)) \<and>
    (\<forall>n m. us_totp_last_counter u = Some m \<longrightarrow> n \<in> set (steps_of (passed L uid attempts d)) \<longrightarrow> m < n) \<and>
    length (filter (\<lambda>p. p = None) (passed L uid attempts d)) \<le> length (us_totp_recovery u)"
  using passed_spends [OF assms, of L attempts] by (auto simp: after_def)

section \<open>What is shown is what is accepted\<close>

lemma begin_elim:
  assumes "begin_enrolment L rnd nonce issuer u d = (d1, Inr e)"
  obtains sealed where "us_source u = LOCAL" "seal_global (ml_aead L) (ml_master L) nonce (new_secret rnd) (mfa_aad (us_id u)) = Inr sealed"
    "en_secret e = new_secret rnd"
    "d1 = put_user (u\<lparr>us_totp_sealed := Some sealed, us_totp_enrolled_at := None, us_totp_last_counter := None\<rparr>) d"
  using assms
  by (auto simp: begin_enrolment_def Let_def res_bind_Inr_iff split: if_splits sum.splits elim!: auth_lift.elims)

lemma hash_codes_verify:
  assumes "hasher_ok H" "\<forall>c \<in> set cs. canonical_recovery c \<noteq> []"
  shows "\<exists>hs. map_res (\<lambda>(i, c). hash_recovery_code H (salts i) c) (enumerate k cs) = Inr hs \<and>
    (\<forall>c \<in> set cs. \<exists>h \<in> set hs. verify_password H h (canonical_recovery c))"
  using assms(2)
proof (induction cs arbitrary: k)
  case (Cons c cs)
  then obtain hs where hs: "map_res (\<lambda>(i, c). hash_recovery_code H (salts i) c) (enumerate (Suc k) cs) = Inr hs"
    "\<forall>c \<in> set cs. \<exists>h \<in> set hs. verify_password H h (canonical_recovery c)" by force
  let ?h = "ha_hash H (salts k) (canonical_recovery c)"
  have "hash_recovery_code H (salts k) c = Inr ?h"
    using Cons.prems by (simp add: hash_recovery_code_def hash_recovery_secret_def)
  moreover have "verify_password H ?h (canonical_recovery c)" using assms(1) by (simp add: hasher_ok_def verify_password_def)
  ultimately show ?case using hs by (intro exI [of _ "?h # hs"]) auto
qed simp

lemma hex_chars: "x \<in> set (hex_encode bs) \<Longrightarrow> x \<in> set hex_alphabet"
proof -
  assume "x \<in> set (hex_encode bs)"
  then have "\<exists>b \<in> set bs. x = hex_alphabet ! (unat b div 16) \<or> x = hex_alphabet ! (unat b mod 16)"
    by (auto simp: hex_encode_def)
  then obtain b where "b \<in> set bs" "x = hex_alphabet ! (unat b div 16) \<or> x = hex_alphabet ! (unat b mod 16)" by (rule bexE)
  moreover have "unat b div 16 < 16" "unat b mod 16 < 16" using unat_byte_lt [of b] by (simp_all add: less_mult_imp_div_less)
  moreover have "length hex_alphabet = 16" by code_simp
  ultimately show ?thesis by (metis nth_mem)
qed

lemma hex_alphabet_chars: "list_all (\<lambda>c. lower_char c = c \<and> py_isalnum_char c \<and> code c < 128) hex_alphabet"
  by code_simp

lemma recovery_code_text:
  assumes "a \<noteq> []"
  shows "canonical_recovery (recovery_code (a, b, c)) \<noteq> [] \<and> ascii (normalise_code (recovery_code (a, b, c)))"
proof -
  have x: "lower_char y = y \<and> py_isalnum_char y \<and> code y < 128" if "y \<in> set (hex_encode bs)" for y bs
    using hex_chars [OF that] hex_alphabet_chars unfolding list_all_iff by blast
  obtain y where y: "y \<in> set (hex_encode a)" using assms by (cases a) (auto simp: hex_encode_def)
  then have "lower_char y \<in> set (canonical_recovery (recovery_code (a, b, c)))"
    using x [OF y] by (auto simp: canonical_recovery_def py_lower_def recovery_code_def intro!: image_eqI [of _ _ y])
  moreover have "code y < 128" if "y \<in> set (recovery_code (a, b, c))" for y
    using that x by (auto simp: recovery_code_def)
  ultimately show ?thesis by (auto simp: ascii_def list_all_iff normalise_code_def)
qed

text \<open>Enrolling works. The code an authenticator that was given the displayed secret shows is accepted
  there and then, the factor is on, and each of the ten recovery codes shown passes the second factor.\<close>

theorem enrolment_works:
  assumes "aead_ok (ml_aead L)" "hmac_ok (ml_hmac L)" "hasher_ok (ml_hasher L)" "length rnd = SECRET_BYTES" "length nonce = NONCE_LEN"
    and "users_ok d" "user_by_id uid d = Some u" "begin_enrolment L rnd nonce issuer u d = (d1, Inr e)"
    and "0 \<le> current_step now" "current_step now + 1 < 2 ^ 64" "current_step later + 1 < 2 ^ 64"
    and "code_at (ml_hmac L) (en_secret e) (current_step now) = Inr c" "\<forall>i. fst (rnd2 i) \<noteq> []"
  shows "\<exists>u1 d2 u2 codes. user_by_id uid d1 = Some u1 \<and> confirm_enrolment L now rnd2 salts c u1 d1 = (d2, Inr codes) \<and>
    user_by_id uid d2 = Some u2 \<and> totp_active u2 \<and> length codes = 10 \<and>
    (\<forall>rc \<in> set codes. \<exists>d3. check_second_factor L later rc u2 d2 = (d3, Inr ()))"
proof -
  have uid: "us_id u = uid" using user_by_id_in [OF assms(7)] by simp
  obtain sealed where b: "seal_global (ml_aead L) (ml_master L) nonce (new_secret rnd) (mfa_aad (us_id u)) = Inr sealed"
    "en_secret e = new_secret rnd" "d1 = put_user (u\<lparr>us_totp_sealed := Some sealed, us_totp_enrolled_at := None, us_totp_last_counter := None\<rparr>) d"
    by (rule begin_elim [OF assms(8)])
  let ?u1 = "u\<lparr>us_totp_sealed := Some sealed, us_totp_enrolled_at := None, us_totp_last_counter := None\<rparr>"
  have d1: "users_ok d1" "user_by_id uid d1 = Some ?u1"
    using users_ok_put_user [OF assms(6)] user_by_id_put [OF assms(6,7), of ?u1] uid b(3) by simp_all
  have dec: "decode_secret (new_secret rnd) = Inr rnd" and ne: "new_secret rnd \<noteq> []"
    using new_secret_decodes [OF assms(4)] by auto
  have open_it: "open_global (ml_aead L) (ml_master L) sealed (mfa_aad uid) = Inr (new_secret rnd)" and sealed: "sealed \<noteq> []"
    using seal_global_roundtrip [OF assms(1,5) b(1)] ne uid by auto
  obtain n where n: "verify_code (ml_hmac L) (new_secret rnd) c None now = Inr (Some n)"
    using current_code_accepted [OF assms(2) dec assms(9,10)] assms(12) b(2) by auto
  let ?codes = "new_recovery_codes rnd2"
  have plain: "canonical_recovery rc \<noteq> [] \<and> ascii (normalise_code rc)" if rc: "rc \<in> set ?codes" for rc
  proof -
    obtain i where i: "rc = recovery_code (rnd2 i)" using rc by (auto simp: new_recovery_codes_def)
    obtain x y z where xyz: "rnd2 i = (x, y, z)" by (metis prod_cases3)
    have "x \<noteq> []" using assms(13) xyz by (metis fst_conv)
    then show ?thesis using recovery_code_text [of x y z] i xyz by simp
  qed
  obtain hs where hs: "hash_codes L salts ?codes = Inr hs"
    "\<forall>rc \<in> set ?codes. \<exists>h \<in> set hs. verify_password (ml_hasher L) h (canonical_recovery rc)"
    using hash_codes_verify [OF assms(3), of ?codes salts 0] plain unfolding hash_codes_def by blast
  let ?u2 = "?u1\<lparr>us_totp_enrolled_at := Some now, us_totp_last_counter := Some n, us_totp_recovery := hs\<rparr>"
  have confirm: "confirm_enrolment L now rnd2 salts c ?u1 d1 = (put_user ?u2 d1, Inr ?codes)"
    using open_it n hs(1) sealed uid by (simp add: confirm_enrolment_def has_secret_def open_secret_def)
  have there: "user_by_id uid (put_user ?u2 d1) = Some ?u2" using user_by_id_put [OF d1, of ?u2] uid by simp
  have active: "totp_active ?u2" "has_secret ?u2" using sealed by (simp_all add: totp_active_def has_secret_def)
  have "\<exists>d3. check_second_factor L later rc ?u2 (put_user ?u2 d1) = (d3, Inr ())" if rc: "rc \<in> set ?codes" for rc
  proof -
    obtain r where r: "verify_code (ml_hmac L) (new_secret rnd) rc (Some n) later = Inr r"
      using verify_find [OF assms(2) dec assms(11)] plain [OF rc] by blast
    obtain h where "h \<in> set hs" "verify_password (ml_hasher L) h (canonical_recovery rc)" using hs(2) rc by blast
    then have "find (\<lambda>h. verify_password (ml_hasher L) h (canonical_recovery rc)) hs \<noteq> None" by (auto simp: find_None_iff)
    then obtain h' where "verify_recovery_code (ml_hasher L) hs rc = Some h'"
      using plain [OF rc] by (auto simp: verify_recovery_code_def Let_def)
    then show ?thesis using r active open_it uid
      by (cases r) (simp_all add: check_second_factor_def open_secret_def)
  qed
  moreover have "length ?codes = 10" by (simp add: new_recovery_codes_def RECOVERY_CODES_def)
  ultimately show ?thesis using d1(2) confirm there active(1) by blast
qed

section \<open>Examples\<close>

definition demo_mfa :: mfa_lib where
  "demo_mfa = \<lparr>ml_aead = tagging, ml_master = demo_master, ml_hmac = demo_hmac, ml_hasher = demo_hasher,
     ml_draw = (\<lambda>uri scale colour. ''<svg/>''),
     ml_signer = \<lparr>sg_sign = (\<lambda>key t s. s), sg_unsign = (\<lambda>key now age s. Some s)\<rparr>\<rparr>"

definition demo_factor_db :: auth_db where
  "demo_factor_db = demo_auth\<lparr>au_users := [demo_admin\<lparr>us_totp_sealed := Some ''sealed'', us_totp_enrolled_at := Some 0,
     us_totp_last_counter := Some 5, us_totp_recovery := [''#abc'']\<rparr>]\<rparr>"

lemma demo_factors_ok: "factors_ok demo_factor_db"
  by (simp add: factors_ok_def users_ok_def factor_ok_def has_secret_def demo_factor_db_def demo_auth_def demo_admin_def new_user_def)

theorem enrolment_states_witness:
  "\<exists>u. u \<in> set (au_users (fold (mfa_step demo_mfa) [Cancel 1, Disable 1 ''guess''] demo_factor_db)) \<and>
     totp_active u \<and> us_totp_last_counter u \<noteq> None"
proof -
  define u where "u = demo_admin\<lparr>us_totp_sealed := Some ''sealed'', us_totp_enrolled_at := Some 0,
     us_totp_last_counter := Some 5, us_totp_recovery := [''#abc'']\<rparr>"
  have u: "u \<in> set (au_users (fold (mfa_step demo_mfa) [Cancel 1, Disable 1 ''guess''] demo_factor_db))"
    by (simp add: demo_factor_db_def demo_auth_def u_def on_user_def user_by_id_def find_row_def cancel_enrolment_def
      disable_factor_def demo_lookup_simps verify_password_def demo_mfa_def demo_hasher_def)
  moreover have "totp_active u" by (simp add: totp_active_def u_def)
  ultimately show ?thesis using enrolment_states [OF demo_factors_ok u] by blast
qed

theorem codes_single_use_witness:
  "sorted_wrt (<) (steps_of (passed demo_mfa 1 [(40 * minute, ''000080''), (40 * minute, ''000080'')] demo_factor_db))"
proof -
  have "\<exists>u. user_by_id 1 demo_factor_db = Some u"
    by (simp add: user_by_id_def find_row_def demo_factor_db_def demo_auth_def demo_lookup_simps)
  moreover have "users_ok demo_factor_db" using demo_factors_ok by (simp add: factors_ok_def)
  ultimately show ?thesis using codes_single_use by blast
qed

lemma demo_seals: "p \<noteq> [] \<Longrightarrow> \<exists>c. seal_global tagging demo_master (replicate 12 3) p aad = Inr c"
  using seal_with_Inr [of "replicate 32 (7 :: 8 word)" "[]" "replicate KEY_ID_LEN 0" tagging "replicate 12 3" "utf8_encode p" "utf8_encode aad"]
  by (simp add: seal_global_def demo_master_loads kid_of_def)

theorem enrolment_works_witness:
  "\<exists>d1 e c u1 d2 codes. begin_enrolment demo_mfa (replicate 20 1) (replicate 12 3) [] demo_admin demo_auth = (d1, Inr e) \<and>
     code_at demo_hmac (en_secret e) 2 = Inr c \<and> user_by_id 1 d1 = Some u1 \<and>
     confirm_enrolment demo_mfa (60 * second) (\<lambda>i. ([of_nat i], [0], [1])) (\<lambda>i. []) c u1 d1 = (d2, Inr codes) \<and> length codes = 10"
proof -
  let ?rnd = "replicate 20 (1 :: 8 word)"
  have dec: "decode_secret (new_secret ?rnd) = Inr ?rnd" "new_secret ?rnd \<noteq> []"
    using new_secret_decodes [of ?rnd] by (auto simp: SECRET_BYTES_def)
  obtain sealed where s: "seal_global tagging demo_master (replicate 12 3) (new_secret ?rnd) (mfa_aad 1) = Inr sealed"
    using demo_seals [OF dec(2)] by blast
  have svg: "qr_svg (\<lambda>uri scale colour. ''<svg/>'') uri n = Inr ''<svg/>''" for uri n
    unfolding qr_svg_def Let_def by code_simp
  obtain d1 e where b: "begin_enrolment demo_mfa ?rnd (replicate 12 3) [] demo_admin demo_auth = (d1, Inr e)" "en_secret e = new_secret ?rnd"
    using s by (simp add: begin_enrolment_def demo_lookup_simps totp_active_def demo_mfa_def svg Let_def)
      (simp add: demo_admin_def new_user_def svg Let_def)
  obtain c where c: "code_at demo_hmac (new_secret ?rnd) 2 = Inr c"
    using code_at_shape [OF demo_hmac_ok dec(1), of 2] by auto
  have step: "current_step (60 * second) = 2" by (simp add: current_step_def STEP_SECONDS_def second_def)
  have hok: "hasher_ok demo_hasher" by (simp add: hasher_ok_def demo_hasher_def)
  have by_id: "user_by_id 1 demo_auth = Some demo_admin"
    by (simp add: user_by_id_def find_row_def demo_auth_def demo_lookup_simps)
  have lib: "ml_aead demo_mfa = tagging" "ml_hmac demo_mfa = demo_hmac" "ml_hasher demo_mfa = demo_hasher" by (simp_all add: demo_mfa_def)
  show ?thesis
    using enrolment_works [of demo_mfa ?rnd "replicate 12 3" demo_auth 1 demo_admin "[]" d1 e "60 * second" "60 * second" c
        "\<lambda>i. ([of_nat i], [0], [1])" "\<lambda>i. []"]
      tagging_ok demo_hmac_ok hok demo_auth_ok by_id b c
    by (simp add: lib step SECRET_BYTES_def NONCE_LEN_def) blast
qed

end
