(* ===== verification/Users.thy ===== *)
theory Users
  imports Access Mfa
begin

text \<open>
  The administration of accounts in \<open>src/c2w/web/routes.py\<close> (\<open>/admin/users\<close>) and the trail it leaves
  (\<open>src/c2w/audit.py\<close>). A handler runs in one transaction of the request's session: it is committed when the
  handler answers, refusals included, and rolled back when it raises. Answers are the addresses redirected to.

  Lemmas: there is always an active platform administrator; an organisation's administrator reaches only its own
  people; and what is done is recorded.
\<close>

section \<open>The trail\<close>

datatype admin_action =
    ORGANISATION_CREATED | ORGANISATION_RENAMED | TENANT_CREATED | USER_CREATED | USER_ENABLED | USER_DELETED
  | USER_ROLE_CHANGED | USER_DETAILS_CHANGED | PASSWORD_RESET_BY_ADMIN | USER_BRAND_ADDED | USER_BRAND_REMOVED
  | USER_DISABLED | MFA_RESET_BY_ADMIN | MFA_ENABLED | MFA_DISABLED | RECOVERY_CODES_REISSUED | PASSWORD_CHANGED
  | CREDENTIALS_REVEALED

fun action_value :: "admin_action \<Rightarrow> string" where
  "action_value ORGANISATION_CREATED = ''ORGANISATION_CREATED''"
| "action_value ORGANISATION_RENAMED = ''ORGANISATION_RENAMED''"
| "action_value TENANT_CREATED = ''TENANT_CREATED''"
| "action_value USER_CREATED = ''USER_CREATED''"
| "action_value USER_ENABLED = ''USER_ENABLED''"
| "action_value USER_DELETED = ''USER_DELETED''"
| "action_value USER_ROLE_CHANGED = ''USER_ROLE_CHANGED''"
| "action_value USER_DETAILS_CHANGED = ''USER_DETAILS_CHANGED''"
| "action_value PASSWORD_RESET_BY_ADMIN = ''PASSWORD_RESET_BY_ADMIN''"
| "action_value USER_BRAND_ADDED = ''USER_BRAND_ADDED''"
| "action_value USER_BRAND_REMOVED = ''USER_BRAND_REMOVED''"
| "action_value USER_DISABLED = ''USER_DISABLED''"
| "action_value MFA_RESET_BY_ADMIN = ''MFA_RESET_BY_ADMIN''"
| "action_value MFA_ENABLED = ''MFA_ENABLED''"
| "action_value MFA_DISABLED = ''MFA_DISABLED''"
| "action_value RECOVERY_CODES_REISSUED = ''RECOVERY_CODES_REISSUED''"
| "action_value PASSWORD_CHANGED = ''PASSWORD_CHANGED''"
| "action_value CREDENTIALS_REVEALED = ''CREDENTIALS_REVEALED''"

record request =
  rq_cookie :: "string option"
  rq_ip :: "string option"
  rq_agent :: "string option"
  rq_now :: dt

definition set_default :: "string \<Rightarrow> json \<Rightarrow> (string \<times> json) list \<Rightarrow> (string \<times> json) list" where
  "set_default k v kvs = (if k \<in> fst ` set kvs then kvs else kvs @ [(k, v)])"

definition event_body :: "(string \<times> json) list \<Rightarrow> user option \<Rightarrow> (string \<times> json) list" where
  "event_body detail target =
     (case target of
        None \<Rightarrow> detail
      | Some t \<Rightarrow> set_default ''target_role'' (JStr (role_value (us_role t)))
          (set_default ''target_email'' (JStr (us_email t))
            (set_default ''target_user_id'' (JInt (us_id t)) detail)))"

text \<open>The session's scope is set for the insert and put back, so the policy's check holds of the row.\<close>

definition record_admin_event ::
    "request \<Rightarrow> user \<Rightarrow> admin_action \<Rightarrow> int option \<Rightarrow> user option \<Rightarrow> string \<Rightarrow> (string \<times> json) list \<Rightarrow> auth_db \<Rightarrow> auth_db" where
  "record_admin_event rq actor action brand target result detail d =
     (case brand of
        None \<Rightarrow> d
      | Some b \<Rightarrow> d\<lparr>au_audit := au_audit d @
          [\<lparr>ae_brand_id = b, ae_actor_user_id = us_id actor, ae_actor_label = us_email actor, ae_action = action_value action,
            ae_result = result, ae_ip = rq_ip rq, ae_user_agent = rq_agent rq, ae_detail = event_body detail target\<rparr>]\<rparr>)"

section \<open>Answers\<close>

type_synonym answer = "auth_db \<times> (http_exc + string)"

definition transaction :: "auth_db \<Rightarrow> answer \<Rightarrow> answer" where
  "transaction d r = (case r of (d', Inl e) \<Rightarrow> (d, Inl e) | (d', Inr s) \<Rightarrow> (d', Inr s))"

definition quote_plus :: "string \<Rightarrow> string" where
  "quote_plus s = map (\<lambda>c. if c = CHR '' '' then CHR ''+'' else c) (quote_url '' '' s)"

definition quote_path :: "string \<Rightarrow> string" where
  "quote_path s = quote_url ''/'' s"

text \<open>The actor is the row the session holds, so what a handler changed of it is seen afterwards.\<close>

definition actor_now :: "user \<Rightarrow> auth_db \<Rightarrow> user" where
  "actor_now actor d = (case user_by_id (us_id actor) d of Some u \<Rightarrow> u | None \<Rightarrow> actor)"

definition audited :: "request \<Rightarrow> user \<Rightarrow> admin_action \<Rightarrow> user option \<Rightarrow> string \<Rightarrow> (string \<times> json) list \<Rightarrow> string \<Rightarrow> auth_db \<Rightarrow> answer" where
  "audited rq actor action target result detail target_url d =
     (let a = actor_now actor d
      in case audit_scope (rq_cookie rq) a d of
           Inl e \<Rightarrow> (d, Inl e)
         | Inr b \<Rightarrow> (record_admin_event rq a action b target result detail d, Inr target_url))"

text \<open>\<open>_refuse\<close>.\<close>

definition refuse :: "request \<Rightarrow> user \<Rightarrow> admin_action \<Rightarrow> string \<Rightarrow> string \<Rightarrow> (string \<times> json) list \<Rightarrow> auth_db \<Rightarrow> answer" where
  "refuse rq actor action reason page detail d =
     audited rq actor action None ''DENIED'' (filter (\<lambda>(k, _). k \<noteq> ''reason'') detail @ [(''reason'', JStr reason)])
       (page @ (if CHR ''?'' \<in> set page then ''&'' else ''?'') @ ''error='' @ quote_plus reason) d"

section \<open>Guards\<close>

definition assert_may_manage :: "user \<Rightarrow> http_exc + unit" where
  "assert_may_manage actor =
     (if USERS_MANAGE \<notin> permissions_for (us_role actor) then Inl (HTTPException 403 ''your role may not manage users'') else Inr ())"

definition assert_may_assign :: "user \<Rightarrow> role \<Rightarrow> int option \<Rightarrow> http_exc + unit" where
  "assert_may_assign actor r brand =
     (if r = SUPER_ADMIN \<and> \<not> is_super_admin actor
      then Inl (HTTPException 403 ''only a platform administrator can create another platform administrator'')
      else if \<not> is_super_admin actor \<and> brand \<noteq> us_brand_id actor
      then Inl (HTTPException 403 ''you can only add users to your own organisation'')
      else Inr ())"

definition managed_target :: "user \<Rightarrow> string \<Rightarrow> auth_db \<Rightarrow> http_exc + user" where
  "managed_target actor ident d =
     (let ident = py_strip ident
      in res_bind (if ident \<noteq> [] \<and> list_all py_isdigit_char ident
                   then (case py_int_text ident of
                           None \<Rightarrow> Inl (HttpRaised (ValueError ''invalid literal for int() with base 10''))
                         | Some i \<Rightarrow> Inr (user_by_id i d))
                   else Inr (user_by_email (py_lower ident) d))
         (\<lambda>row. case row of
            None \<Rightarrow> Inl (HTTPException 404 ''no such person'')
          | Some r \<Rightarrow>
              if \<not> is_super_admin actor \<and> us_brand_id r \<noteq> us_brand_id actor
              then Inl (HTTPException 403 ''not someone in your organisation'')
              else if is_super_admin r \<and> \<not> is_super_admin actor
              then Inl (HTTPException 403 ''only a platform administrator can administer another one'')
              else Inr r))"

definition last_active_platform_admin :: "int \<Rightarrow> auth_db \<Rightarrow> bool" where
  "last_active_platform_admin excluding d \<longleftrightarrow>
     filter (\<lambda>u. us_role u = SUPER_ADMIN \<and> us_is_active u \<and> us_id u \<noteq> excluding) (au_users d) = []"

definition on_target :: "user \<Rightarrow> string \<Rightarrow> auth_db \<Rightarrow> (user \<Rightarrow> answer) \<Rightarrow> answer" where
  "on_target actor ident d k =
     (case res_bind (assert_may_manage actor) (\<lambda>_. managed_target actor ident d) of Inl e \<Rightarrow> (d, Inl e) | Inr t \<Rightarrow> k t)"

definition user_url :: "string \<Rightarrow> string" where
  "user_url ident = ''/admin/users/'' @ quote_path ident"

definition back_to :: "string \<Rightarrow> string \<Rightarrow> auth_db \<Rightarrow> answer" where
  "back_to ident message d = (d, Inr (user_url ident @ ''?error='' @ quote_plus message))"

section \<open>Creating an account\<close>

record add_form =
  af_email :: string
  af_display_name :: string
  af_role :: string
  af_source :: string
  af_brand_ids :: "string list"
  af_password :: string
  af_again :: string
  af_directory_dn :: string

definition source_of :: "string \<Rightarrow> auth_source option" where
  "source_of s = (if s = ''LOCAL'' then Some LOCAL else if s = ''ENTRA'' then Some ENTRA
     else if s = ''GOOGLE'' then Some GOOGLE else if s = ''LDAP'' then Some LDAP else None)"

fun source_key :: "auth_source \<Rightarrow> string option" where
  "source_key LDAP = Some ''ldap.enabled''"
| "source_key ENTRA = Some ''auth.oidc_entra_enabled''"
| "source_key GOOGLE = Some ''auth.oidc_google_enabled''"
| "source_key LOCAL = None"

fun source_name :: "auth_source \<Rightarrow> string" where
  "source_name LDAP = ''Active Directory / LDAP''"
| "source_name ENTRA = ''Microsoft Entra ID''"
| "source_name GOOGLE = ''Google Workspace''"
| "source_name LOCAL = ''LOCAL''"

fun source_value :: "auth_source \<Rightarrow> string" where
  "source_value LOCAL = ''LOCAL''"
| "source_value ENTRA = ''ENTRA''"
| "source_value GOOGLE = ''GOOGLE''"
| "source_value LDAP = ''LDAP''"

text \<open>Settings are read through \<open>rd\<close>: a key and the organisation it is read for.\<close>

definition directory_source_enabled :: "(string \<Rightarrow> int option \<Rightarrow> bool) \<Rightarrow> auth_source \<Rightarrow> request \<Rightarrow> user \<Rightarrow> auth_db \<Rightarrow> http_exc + bool" where
  "directory_source_enabled rd src rq actor d =
     res_bind (audit_scope (rq_cookie rq) actor d) (\<lambda>b.
       Inr (case source_key src of None \<Rightarrow> False | Some key \<Rightarrow> rd key b))"

definition brand_choice :: "user \<Rightarrow> role \<Rightarrow> string list \<Rightarrow> auth_db \<Rightarrow> string + int list" where
  "brand_choice actor r raws d =
     (if r = SUPER_ADMIN then Inr []
      else if raws = [] then Inl ''Tick at least one organisation''
      else (let ids = map py_int_text raws
            in if None \<in> set ids \<or> \<not> set (map the ids) \<subseteq> br_id ` set (selectable_brands actor d)
               then Inl ''That is not an organisation you can add users to'' else Inr (map the ids)))"

definition new_account :: "add_form \<Rightarrow> string \<Rightarrow> role \<Rightarrow> auth_source \<Rightarrow> int option \<Rightarrow> string option \<Rightarrow> int \<Rightarrow> user" where
  "new_account f email r src home pw i =
     (new_user i home email (or_else (py_strip (af_display_name f)) email) r src pw)
       \<lparr>us_must_change := (src = LOCAL),
        us_oidc_subject := (let dn = py_strip (af_directory_dn f) in if dn = [] then None else Some dn)\<rparr>"

definition add_memberships :: "int \<Rightarrow> int list \<Rightarrow> role \<Rightarrow> auth_db \<Rightarrow> auth_db" where
  "add_memberships uid brands r d = foldl (\<lambda>d b. add_membership uid b r d) d brands"

definition option_json :: "int option \<Rightarrow> json" where
  "option_json i = (case i of None \<Rightarrow> JNull | Some n \<Rightarrow> JInt n)"

definition create_account :: "hasher \<Rightarrow> bytes \<Rightarrow> (string \<Rightarrow> int option \<Rightarrow> bool) \<Rightarrow> request \<Rightarrow> user \<Rightarrow> add_form \<Rightarrow> string \<Rightarrow> role \<Rightarrow> auth_source \<Rightarrow>
    int list \<Rightarrow> (string \<Rightarrow> answer) \<Rightarrow> auth_db \<Rightarrow> answer" where
  "create_account H salt rd rq actor f email r src brands no d =
     (let home = (case brands of [] \<Rightarrow> None | b # _ \<Rightarrow> Some b);
          insert_row = (\<lambda>pw.
            if \<not> distinct brands then (d, Inl (HttpIntegrityError ''duplicate key value violates unique constraint''))
            else (case insert_user (new_account f email r src home pw) d of
                    (d1, u) \<Rightarrow>
                      audited rq actor USER_CREATED (Some u) ''SUCCESS''
                        [(''organisation_ids'', JArr (map JInt brands)), (''home_organisation_id'', option_json home),
                         (''signs_in_with'', JStr (source_value src))]
                        (''/admin/users?saved='' @ quote_plus email) (add_memberships (us_id u) brands r d1)))
      in if user_by_email email d \<noteq> None then no (email @ '' already has an account'')
         else if src = LOCAL
         then (if af_password f \<noteq> af_again f then no ''The two passwords do not match''
               else (case hash_password H salt (af_password f) of
                       Inl (AuthError m) \<Rightarrow> no m
                     | Inl _ \<Rightarrow> no []
                     | Inr h \<Rightarrow> insert_row (Some h)))
         else (case directory_source_enabled rd src rq actor d of
                 Inl e \<Rightarrow> (d, Inl e)
               | Inr False \<Rightarrow> no (source_name src @ '' sign-in is not configured, so an account cannot be created against it yet'')
               | Inr True \<Rightarrow> insert_row None))"

definition add_user :: "hasher \<Rightarrow> bytes \<Rightarrow> (string \<Rightarrow> int option \<Rightarrow> bool) \<Rightarrow> request \<Rightarrow> user \<Rightarrow> add_form \<Rightarrow> auth_db \<Rightarrow> answer" where
  "add_user H salt rd rq actor f d =
     (case assert_may_manage actor of
        Inl e \<Rightarrow> (d, Inl e)
      | Inr () \<Rightarrow>
          (let email = normal_email (af_email f);
               no = (\<lambda>m. refuse rq actor USER_CREATED m ''/admin/users'' [(''attempted_email'', JStr email)] d)
           in if CHR ''@'' \<notin> set email \<or> length email < 3 then no ''That does not look like an email address''
              else (case role_of (af_role f) of
                Inl _ \<Rightarrow> no ''Choose a role''
              | Inr r \<Rightarrow>
                  (case source_of (or_else (af_source f) ''LOCAL'') of
                     None \<Rightarrow> no ''Choose how this person signs in''
                   | Some src \<Rightarrow>
                       (case brand_choice actor r (filter (\<lambda>v. py_strip v \<noteq> []) (af_brand_ids f)) d of
                          Inl m \<Rightarrow> no m
                        | Inr brands \<Rightarrow>
                            (case assert_may_assign actor r (case brands of [] \<Rightarrow> None | b # _ \<Rightarrow> Some b) of
                               Inl e \<Rightarrow> (d, Inl e)
                             | Inr () \<Rightarrow> create_account H salt rd rq actor f email r src brands no d))))))"

section \<open>Changing an account\<close>

definition set_user_active :: "request \<Rightarrow> user \<Rightarrow> string \<Rightarrow> string \<Rightarrow> auth_db \<Rightarrow> answer" where
  "set_user_active rq actor ident form_active d = on_target actor ident d (\<lambda>t.
     (let active = (form_active = ''1'')
      in if us_id t = us_id actor then (d, Inr ''/admin/users?error=You+cannot+disable+your+own+account'')
         else if is_super_admin t \<and> \<not> active \<and> last_active_platform_admin (us_id t) d
         then (d, Inr (''/admin/users?error='' @ quote_plus ''That is the only active platform administrator -- add another first''))
         else (let t1 = t\<lparr>us_is_active := active\<rparr>;
                   d1 = put_user t1 (if active then d else revoke_all_sessions (rq_now rq) (us_id t) d)
               in audited rq actor (if active then USER_ENABLED else USER_DISABLED) (Some t1) ''SUCCESS''
                    [(''sessions_revoked'', JBool (\<not> active))] ''/admin/users'' d1)))"

record details_form =
  df_email :: string
  df_display_name :: string
  df_telegram :: string
  df_slack :: string

definition or_none :: "string \<Rightarrow> string option" where
  "or_none s = (let t = py_strip s in if t = [] then None else Some t)"

definition text_json :: "string option \<Rightarrow> json" where
  "text_json s = (case s of None \<Rightarrow> JNull | Some t \<Rightarrow> JStr t)"

definition change_json :: "string \<Rightarrow> string option \<Rightarrow> string option \<Rightarrow> (string \<times> json) list" where
  "change_json field old new =
     (if old = new then [] else [(field, JObj [(''from'', text_json old), (''to'', text_json new)])])"

definition change_user_details :: "request \<Rightarrow> user \<Rightarrow> string \<Rightarrow> details_form \<Rightarrow> auth_db \<Rightarrow> answer" where
  "change_user_details rq actor ident f d = on_target actor ident d (\<lambda>t.
     (let email = normal_email (df_email f)
      in if CHR ''@'' \<notin> set email \<or> length email < 3 then back_to ident ''That does not look like an email address'' d
         else if email \<noteq> us_email t \<and> user_by_email email d \<noteq> None
         then back_to ident (email @ '' already belongs to another account'') d
         else (let changes = change_json ''email'' (Some (us_email t)) (Some email)
                     @ change_json ''display_name'' (us_display_name t) (or_none (df_display_name f))
                     @ change_json ''telegram_chat_id'' (us_telegram t) (or_none (df_telegram f))
                     @ change_json ''slack_user_id'' (us_slack t) (or_none (df_slack f));
                   t1 = t\<lparr>us_email := email, us_display_name := or_none (df_display_name f),
                      us_telegram := or_none (df_telegram f), us_slack := or_none (df_slack f)\<rparr>
               in if changes = [] then (d, Inr (user_url ident))
                  else audited rq actor USER_DETAILS_CHANGED (Some t1) ''SUCCESS'' [(''changed'', JObj changes)]
                         (user_url email @ ''?saved=details'') (put_user t1 d))))"

definition reset_user_password :: "hasher \<Rightarrow> bytes \<Rightarrow> request \<Rightarrow> user \<Rightarrow> string \<Rightarrow> string \<Rightarrow> string \<Rightarrow> auth_db \<Rightarrow> answer" where
  "reset_user_password H salt rq actor ident new_pw again d = on_target actor ident d (\<lambda>t.
     (if us_source t \<noteq> LOCAL
      then back_to ident ''This account signs in through a directory, so its password is not kept here'' d
      else if new_pw \<noteq> again then back_to ident ''The two passwords do not match'' d
      else (case hash_password H salt new_pw of
              Inl (AuthError m) \<Rightarrow> back_to ident m d
            | Inl _ \<Rightarrow> back_to ident [] d
            | Inr h \<Rightarrow>
                (let t1 = t\<lparr>us_password_hash := Some h, us_must_change := True, us_failed_logins := 0, us_locked_until := None\<rparr>
                 in audited rq actor PASSWORD_RESET_BY_ADMIN (Some t1) ''SUCCESS''
                      [(''must_change_at_next_sign_in'', JBool True), (''sessions_revoked'', JBool True)]
                      (user_url ident @ ''?saved=password'') (put_user t1 (revoke_all_sessions (rq_now rq) (us_id t) d))))))"

text \<open>An answer of \<open>back\<close> after the role was assigned leaves the assignment pending in the session, and the commit
  that ends the request writes it.\<close>

definition change_user_role :: "request \<Rightarrow> user \<Rightarrow> string \<Rightarrow> string \<Rightarrow> auth_db \<Rightarrow> answer" where
  "change_user_role rq actor ident role_text d = on_target actor ident d (\<lambda>t.
     (case role_of role_text of
        Inl _ \<Rightarrow> back_to ident ''Choose a role'' d
      | Inr r \<Rightarrow>
          if r = us_role t then (d, Inr (user_url ident))
          else (case assert_may_assign actor r (us_brand_id t) of
                  Inl e \<Rightarrow> (d, Inl e)
                | Inr () \<Rightarrow>
                    if us_id t = us_id actor then back_to ident ''You cannot change your own role'' d
                    else if is_super_admin t \<and> r \<noteq> SUPER_ADMIN \<and> last_active_platform_admin (us_id t) d
                    then back_to ident ''That is the only active platform administrator -- promote somebody else first'' d
                    else (let t1 = t\<lparr>us_role := r\<rparr>;
                              finish = (\<lambda>t2. audited rq actor USER_ROLE_CHANGED (Some t2) ''SUCCESS''
                                [(''from'', JStr (role_value (us_role t))), (''to'', JStr (role_value r))]
                                (user_url ident @ ''?saved=role'') (put_user t2 d))
                          in if r = SUPER_ADMIN then finish (t1\<lparr>us_brand_id := None\<rparr>)
                             else if us_brand_id t = None
                             then (case selectable_brands actor d of
                                     [] \<Rightarrow> back_to ident ''There is no organisation to put them in'' (put_user t1 d)
                                   | b # _ \<Rightarrow> finish (t1\<lparr>us_brand_id := Some (br_id b)\<rparr>))
                             else finish t1))))"

definition set_membership :: "int \<Rightarrow> int \<Rightarrow> role \<Rightarrow> auth_db \<Rightarrow> auth_db" where
  "set_membership uid b r d =
     (if find_row (\<lambda>m. ub_user_id m = uid \<and> ub_brand_id m = b) (au_user_brands d) \<noteq> None
      then d\<lparr>au_user_brands := update_where (\<lambda>m. ub_user_id m = uid \<and> ub_brand_id m = b) (\<lambda>m. m\<lparr>ub_role := r\<rparr>) (au_user_brands d)\<rparr>
      else add_membership uid b r d)"

definition add_user_brand :: "request \<Rightarrow> user \<Rightarrow> string \<Rightarrow> string \<Rightarrow> string \<Rightarrow> auth_db \<Rightarrow> answer" where
  "add_user_brand rq actor ident brand_text role_text d = on_target actor ident d (\<lambda>t.
     (case (py_int_text brand_text, role_of role_text) of
        (Some b, Inr r) \<Rightarrow>
          if r = SUPER_ADMIN then back_to ident ''A platform administrator already reaches every organisation'' d
          else if b \<notin> br_id ` set (selectable_brands actor d)
          then back_to ident ''That is not an organisation you can grant access to'' d
          else audited rq actor USER_BRAND_ADDED (Some t) ''SUCCESS''
                 [(''organisation_id'', JInt b), (''role'', JStr (role_value r))]
                 (user_url ident @ ''?saved=access'') (set_membership (us_id t) b r d)
      | _ \<Rightarrow> back_to ident ''Choose an organisation and a role'' d))"

definition remove_user_brand :: "request \<Rightarrow> user \<Rightarrow> string \<Rightarrow> int \<Rightarrow> auth_db \<Rightarrow> answer" where
  "remove_user_brand rq actor ident b d = on_target actor ident d (\<lambda>t.
     (if b \<notin> br_id ` set (selectable_brands actor d) then (d, Inl (HTTPException 403 ''not your organisation to revoke''))
      else audited rq actor USER_BRAND_REMOVED (Some t) ''SUCCESS''
             [(''organisation_id'', JInt b), (''sessions_revoked'', JBool True)] (user_url ident @ ''?saved=access'')
             (revoke_all_sessions (rq_now rq) (us_id t)
               (d\<lparr>au_user_brands := filter (\<lambda>m. \<not> (ub_user_id m = us_id t \<and> ub_brand_id m = b)) (au_user_brands d)\<rparr>))))"

text \<open>Sessions and memberships go with the row, by cascade.\<close>

definition drop_user :: "int \<Rightarrow> auth_db \<Rightarrow> auth_db" where
  "drop_user uid d =
     d\<lparr>au_users := filter (\<lambda>u. us_id u \<noteq> uid) (au_users d),
       au_user_brands := filter (\<lambda>m. ub_user_id m \<noteq> uid) (au_user_brands d),
       au_sessions := filter (\<lambda>s. se_user_id s \<noteq> uid) (au_sessions d)\<rparr>"

definition delete_user :: "request \<Rightarrow> user \<Rightarrow> string \<Rightarrow> string \<Rightarrow> auth_db \<Rightarrow> answer" where
  "delete_user rq actor ident confirm d = on_target actor ident d (\<lambda>t.
     (if us_id t = us_id actor then back_to ident ''You cannot delete your own account'' d
      else if normal_email confirm \<noteq> py_lower (us_email t) then back_to ident ''Type the address exactly to confirm the deletion'' d
      else if is_super_admin t \<and> last_active_platform_admin (us_id t) d
      then back_to ident ''That is the only active platform administrator -- there would be nobody left who could undo this'' d
      else (case audited rq actor USER_DELETED (Some t) ''SUCCESS'' [(''role'', JStr (role_value (us_role t)))]
                   (''/admin/users?saved='' @ quote_plus (us_email t @ '' deleted'')) d of
              (d1, Inl e) \<Rightarrow> (d1, Inl e)
            | (d1, Inr s) \<Rightarrow> (drop_user (us_id t) (revoke_all_sessions (rq_now rq) (us_id t) d1), Inr s))))"

definition reset_user_2fa :: "request \<Rightarrow> user \<Rightarrow> string \<Rightarrow> auth_db \<Rightarrow> answer" where
  "reset_user_2fa rq actor ident d = on_target actor ident d (\<lambda>t.
     (if \<not> can_reset_for actor t
      then (d, Inr (''/admin/users?error='' @ quote_plus ''Only a platform administrator can clear someone else's second factor, and not their own''))
      else audited rq actor MFA_RESET_BY_ADMIN (Some (clear_factor t)) ''SUCCESS'' []
             (''/admin/users?saved='' @ quote_plus (''second factor cleared for '' @ us_email t))
             (revoke_all_sessions (rq_now rq) (us_id t) (put_user (clear_factor t) d))))"

section \<open>The handlers as one machine\<close>

datatype admin_op =
    AddUser add_form bytes
  | SetActive string string
  | ChangeDetails string details_form
  | ResetPassword string string string bytes
  | ChangeRole string string
  | AddBrand string string string
  | RemoveBrand string int
  | DeleteUser string string
  | ResetFactor string

fun handle :: "hasher \<Rightarrow> (string \<Rightarrow> int option \<Rightarrow> bool) \<Rightarrow> request \<Rightarrow> user \<Rightarrow> admin_op \<Rightarrow> auth_db \<Rightarrow> answer" where
  "handle H rd rq actor (AddUser f salt) d = add_user H salt rd rq actor f d"
| "handle H rd rq actor (SetActive ident a) d = set_user_active rq actor ident a d"
| "handle H rd rq actor (ChangeDetails ident f) d = change_user_details rq actor ident f d"
| "handle H rd rq actor (ResetPassword ident new again salt) d = reset_user_password H salt rq actor ident new again d"
| "handle H rd rq actor (ChangeRole ident r) d = change_user_role rq actor ident r d"
| "handle H rd rq actor (AddBrand ident b r) d = add_user_brand rq actor ident b r d"
| "handle H rd rq actor (RemoveBrand ident b) d = remove_user_brand rq actor ident b d"
| "handle H rd rq actor (DeleteUser ident c) d = delete_user rq actor ident c d"
| "handle H rd rq actor (ResetFactor ident) d = reset_user_2fa rq actor ident d"

text \<open>A request: the account of a session, as it is now, and what it asks for.\<close>

definition admin_request :: "hasher \<Rightarrow> (string \<Rightarrow> int option \<Rightarrow> bool) \<Rightarrow> request \<times> int \<times> admin_op \<Rightarrow> auth_db \<Rightarrow> auth_db" where
  "admin_request H rd call d =
     (case call of (rq, actor_id, p) \<Rightarrow>
        (case user_by_id actor_id d of
           None \<Rightarrow> d
         | Some actor \<Rightarrow> if us_is_active actor then fst (transaction d (handle H rd rq actor p d)) else d))"

section \<open>There is always somebody to undo it\<close>

definition has_platform_admin :: "auth_db \<Rightarrow> bool" where
  "has_platform_admin d \<longleftrightarrow> list_ex (\<lambda>u. is_super_admin u \<and> us_is_active u) (au_users d)"

definition admins_ok :: "auth_db \<Rightarrow> bool" where
  "admins_ok d \<longleftrightarrow> users_ok d \<and> has_platform_admin d"

lemma audited_keeps [simp]:
  "au_users (fst (audited rq actor action t res det url d)) = au_users d"
  "au_next_user (fst (audited rq actor action t res det url d)) = au_next_user d"
  "au_user_brands (fst (audited rq actor action t res det url d)) = au_user_brands d"
  "au_brands (fst (audited rq actor action t res det url d)) = au_brands d"
  by (simp_all add: audited_def record_admin_event_def Let_def split: sum.splits option.splits)

lemma same_users_ok: "au_users d' = au_users d \<Longrightarrow> au_next_user d' = au_next_user d \<Longrightarrow> users_ok d' = users_ok d"
  by (simp add: users_ok_def)

lemma audited_admins_ok [simp]: "admins_ok (fst (audited rq actor action t res det url d)) = admins_ok d"
  using same_users_ok [of "fst (audited rq actor action t res det url d)" d] by (simp add: admins_ok_def has_platform_admin_def)

lemma refuse_admins_ok [simp]: "admins_ok (fst (refuse rq actor action m page det d)) = admins_ok d"
  by (simp add: refuse_def)

lemma back_to_db [simp]: "fst (back_to ident m d) = d"
  by (simp add: back_to_def)

lemma revoke_admins_ok [simp]: "admins_ok (revoke_all_sessions now uid d) = admins_ok d"
  by (simp add: admins_ok_def has_platform_admin_def revoke_all_sessions_def users_ok_def)

lemma revoke_put [simp]: "put_user u (revoke_all_sessions now uid d) = revoke_all_sessions now uid (put_user u d)"
  by (simp add: put_user_def revoke_all_sessions_def)

lemma managed_target_in:
  assumes "managed_target actor ident d = Inr t"
  shows "t \<in> set (au_users d) \<and> (is_super_admin actor \<or> us_brand_id t = us_brand_id actor \<and> \<not> is_super_admin t)"
  using assms user_by_id_in [of _ d] user_by_email_in [of _ d]
  by (fastforce simp: managed_target_def Let_def res_bind_Inr_iff split: option.splits if_splits)

lemma on_target_rule:
  "P d \<Longrightarrow> (\<And>t. managed_target actor ident d = Inr t \<Longrightarrow> P (fst (k t))) \<Longrightarrow> P (fst (on_target actor ident d k))"
  by (auto simp: on_target_def res_bind_Inr_iff split: sum.splits)

lemma last_admin_iff:
  "last_active_platform_admin i d \<longleftrightarrow> (\<forall>u \<in> set (au_users d). is_super_admin u \<and> us_is_active u \<longrightarrow> us_id u = i)"
  by (auto simp: last_active_platform_admin_def filter_empty_conv is_super_admin_def)

lemma put_admins_ok:
  assumes "admins_ok d" "t \<in> set (au_users d)" "us_id t1 = us_id t"
    and "is_super_admin t \<and> us_is_active t \<longrightarrow> is_super_admin t1 \<and> us_is_active t1 \<or> \<not> last_active_platform_admin (us_id t) d"
  shows "admins_ok (put_user t1 d)"
proof -
  have ok: "users_ok d" using assms(1) by (simp add: admins_ok_def)
  obtain a where a: "a \<in> set (au_users d)" "is_super_admin a" "us_is_active a"
    using assms(1) by (auto simp: admins_ok_def has_platform_admin_def list_ex_iff)
  have t1: "t1 \<in> set (au_users (put_user t1 d))"
    using assms(2,3) by (auto simp: put_user_def set_update_where intro!: bexI [of _ t])
  have "\<exists>b \<in> set (au_users (put_user t1 d)). is_super_admin b \<and> us_is_active b"
  proof (cases "us_id a = us_id t")
    case False
    then show ?thesis using put_user_keeps_others [OF ok a(1), of t1] a assms(3) by auto
  next
    case True
    then have "a = t" by (rule same_user [OF ok a(1) assms(2)])
    then consider "is_super_admin t1 \<and> us_is_active t1" | "\<not> last_active_platform_admin (us_id t) d" using assms(4) a by blast
    then show ?thesis
    proof cases
      case 1
      then show ?thesis using t1 by blast
    next
      case 2
      then obtain b where "b \<in> set (au_users d)" "is_super_admin b" "us_is_active b" "us_id b \<noteq> us_id t" by (auto simp: last_admin_iff)
      then show ?thesis using put_user_keeps_others [OF ok, of b t1] assms(3) by auto
    qed
  qed
  then show ?thesis using users_ok_put_user [OF ok] by (auto simp: admins_ok_def has_platform_admin_def list_ex_iff)
qed

lemma drop_admins_ok:
  assumes "admins_ok d" "\<not> is_super_admin t \<or> \<not> last_active_platform_admin (us_id t) d" "t \<in> set (au_users d)"
  shows "admins_ok (drop_user (us_id t) d)"
proof -
  obtain a where a: "a \<in> set (au_users d)" "is_super_admin a" "us_is_active a"
    using assms(1) by (auto simp: admins_ok_def has_platform_admin_def list_ex_iff)
  have "\<exists>b \<in> set (au_users d). is_super_admin b \<and> us_is_active b \<and> us_id b \<noteq> us_id t"
  proof (cases "us_id a = us_id t")
    case True
    then have "a = t" using same_user [OF _ a(1) assms(3)] assms(1) by (simp add: admins_ok_def)
    then show ?thesis using assms(2) a(2) by (auto simp: last_admin_iff)
  qed (use a in blast)
  moreover have "users_ok (drop_user (us_id t) d)"
    using assms(1) by (auto simp: admins_ok_def users_ok_def drop_user_def distinct_map_filter)
  ultimately show ?thesis by (auto simp: admins_ok_def has_platform_admin_def list_ex_iff drop_user_def)
qed

lemma memberships_admins_ok [simp]: "admins_ok (add_memberships uid bs r d) = admins_ok d"
proof (induction bs arbitrary: d)
  case (Cons b bs)
  have "admins_ok (add_membership uid b r d) = admins_ok d"
    by (simp add: add_membership_def admins_ok_def users_ok_def has_platform_admin_def)
  then show ?case using Cons [of "add_membership uid b r d"] by (simp add: add_memberships_def)
qed (simp add: add_memberships_def)

lemma user_brands_admins_ok [simp]: "admins_ok (d\<lparr>au_user_brands := ms\<rparr>) = admins_ok d"
  by (simp add: admins_ok_def users_ok_def has_platform_admin_def)

lemma set_membership_admins_ok [simp]: "admins_ok (set_membership uid b r d) = admins_ok d"
  by (simp add: set_membership_def add_membership_def)

lemma new_account_id [simp]: "us_id (new_account f email r src home pw i) = i"
  by (simp add: new_account_def new_user_def)

lemma insert_admins_ok: "admins_ok d \<Longrightarrow> insert_user (new_account f email r src home pw) d = (d1, u) \<Longrightarrow> admins_ok d1"
  using insert_user_keeps [of d "new_account f email r src home pw" d1 u]
  by (auto simp: admins_ok_def has_platform_admin_def list_ex_iff)

lemma add_user_keeps_admins:
  assumes "admins_ok d"
  shows "admins_ok (fst (add_user H salt rd rq actor f d))"
proof -
  have no: "admins_ok (fst (refuse rq actor USER_CREATED m page det d))" for m page det using assms by simp
  have "admins_ok (fst (create_account H salt rd rq actor f email r src brands (\<lambda>m. refuse rq actor USER_CREATED m page det d) d))"
    for email r src brands page det
    using assms insert_admins_ok [OF assms, of f email r src]
    by (auto simp: create_account_def Let_def split: sum.splits bool.splits prod.splits auth_exc.splits)
  then show ?thesis using assms no by (simp add: add_user_def Let_def split: sum.splits option.splits unit.splits)
qed

lemma handle_keeps_admins:
  assumes "admins_ok d"
  shows "admins_ok (fst (handle H rd rq actor p d))"
proof (cases p)
  case (AddUser f salt)
  then show ?thesis using add_user_keeps_admins [OF assms] by simp
next
  case (SetActive ident a)
  have "admins_ok (fst (set_user_active rq actor ident a d))" unfolding set_user_active_def
    by (rule on_target_rule [where P = admins_ok, OF assms]) (auto simp: Let_def assms is_super_admin_def dest: managed_target_in intro!: put_admins_ok [OF assms])
  then show ?thesis using SetActive by simp
next
  case (ChangeDetails ident f)
  have "admins_ok (fst (change_user_details rq actor ident f d))" unfolding change_user_details_def
    by (rule on_target_rule [where P = admins_ok, OF assms]) (auto simp: Let_def assms is_super_admin_def dest: managed_target_in intro!: put_admins_ok [OF assms])
  then show ?thesis using ChangeDetails by simp
next
  case (ResetPassword ident new again salt)
  have "admins_ok (fst (reset_user_password H salt rq actor ident new again d))" unfolding reset_user_password_def
    by (rule on_target_rule [where P = admins_ok, OF assms])
      (auto simp: Let_def assms is_super_admin_def dest: managed_target_in intro!: put_admins_ok [OF assms] split: sum.splits auth_exc.splits)
  then show ?thesis using ResetPassword by simp
next
  case (ChangeRole ident r)
  have "admins_ok (fst (change_user_role rq actor ident r d))" unfolding change_user_role_def
    by (rule on_target_rule [where P = admins_ok, OF assms])
      (auto simp: Let_def assms is_super_admin_def dest: managed_target_in intro!: put_admins_ok [OF assms] split: sum.splits unit.splits list.splits)
  then show ?thesis using ChangeRole by simp
next
  case (AddBrand ident b r)
  have "admins_ok (fst (add_user_brand rq actor ident b r d))" unfolding add_user_brand_def
    by (rule on_target_rule [where P = admins_ok, OF assms]) (simp add: assms split: option.splits sum.splits)
  then show ?thesis using AddBrand by simp
next
  case (RemoveBrand ident b)
  have "admins_ok (fst (remove_user_brand rq actor ident b d))" unfolding remove_user_brand_def
    by (rule on_target_rule [where P = admins_ok, OF assms]) (simp add: assms)
  then show ?thesis using RemoveBrand by simp
next
  case (DeleteUser ident c)
  have "admins_ok (fst (delete_user rq actor ident c d))" unfolding delete_user_def
  proof (rule on_target_rule [where P = admins_ok, OF assms], goal_cases)
    case (1 t)
    let ?a = "audited rq actor USER_DELETED (Some t) ''SUCCESS'' [(''role'', JStr (role_value (us_role t)))]
                   (''/admin/users?saved='' @ quote_plus (us_email t @ '' deleted'')) d"
    obtain d1 res where a: "?a = (d1, res)" by force
    have d1: "admins_ok d1" "au_users d1 = au_users d" using a assms audited_admins_ok audited_keeps(1) by (metis fst_conv)+
    have t: "t \<in> set (au_users d1)" using managed_target_in [OF 1] d1(2) by simp
    have "admins_ok (drop_user (us_id t) (revoke_all_sessions (rq_now rq) (us_id t) d1))"
      if "\<not> (is_super_admin t \<and> last_active_platform_admin (us_id t) d)"
    proof (rule drop_admins_ok)
      show "\<not> is_super_admin t \<or> \<not> last_active_platform_admin (us_id t) (revoke_all_sessions (rq_now rq) (us_id t) d1)"
        using that d1(2) by (simp add: last_active_platform_admin_def revoke_all_sessions_def)
      show "t \<in> set (au_users (revoke_all_sessions (rq_now rq) (us_id t) d1))" using t by (simp add: revoke_all_sessions_def)
    qed (use d1 in simp)
    then show ?case using a assms d1 by (auto split: sum.splits)
  qed
  then show ?thesis using DeleteUser by simp
next
  case (ResetFactor ident)
  have "admins_ok (fst (reset_user_2fa rq actor ident d))" unfolding reset_user_2fa_def
    by (rule on_target_rule [where P = admins_ok, OF assms])
      (auto simp: assms is_super_admin_def clear_factor_def dest: managed_target_in intro!: put_admins_ok [OF assms])
  then show ?thesis using ResetFactor by simp
qed

lemma request_outcome:
  "admin_request H rd (rq, i, p) d = d \<or>
   (\<exists>actor. user_by_id i d = Some actor \<and> us_is_active actor \<and> admin_request H rd (rq, i, p) d = fst (handle H rd rq actor p d))"
proof (cases "user_by_id i d")
  case (Some actor)
  obtain d' r where "handle H rd rq actor p d = (d', r)" by force
  then show ?thesis using Some by (cases r) (auto simp: admin_request_def transaction_def)
qed (simp add: admin_request_def)

lemma request_keeps_admins: "admins_ok d \<Longrightarrow> admins_ok (admin_request H rd call d)"
proof -
  assume ok: "admins_ok d"
  obtain rq i p where call: "call = (rq, i, p)" by (metis prod_cases3)
  show ?thesis using request_outcome [of H rd rq i p d] handle_keeps_admins [OF ok, of H rd rq _ p] ok unfolding call by metis
qed

interpretation admin_machine: state_machine admins_ok "\<lambda>_ _. True" "admin_request H rd" for H rd
  by unfold_locales (rule request_keeps_admins)

text \<open>C3: there is always somebody to undo it. Whatever administrators do to accounts, each others' included, in
  any order, an active platform administrator remains.\<close>

theorem platform_admin_remains:
  assumes "users_ok d" "has_platform_admin d"
  shows "has_platform_admin (fold (admin_request H rd) calls d)"
  using admin_machine.run_inv [of d calls H rd] assms by (simp add: admins_ok_def)

section \<open>An organisation's administrator stays at home\<close>

text \<open>What somebody who is not a platform administrator may have changed.\<close>

definition confined :: "user \<Rightarrow> auth_db \<Rightarrow> auth_db \<Rightarrow> bool" where
  "confined actor d d' \<longleftrightarrow>
     (\<forall>r \<in> set (au_users d). is_super_admin r \<or> us_brand_id r \<noteq> us_brand_id actor \<longrightarrow> r \<in> set (au_users d')) \<and>
     (\<forall>r \<in> set (au_users d'). r \<notin> set (au_users d) \<longrightarrow> \<not> is_super_admin r \<and> us_brand_id r = us_brand_id actor) \<and>
     (\<forall>m \<in> set (au_user_brands d'). m \<notin> set (au_user_brands d) \<longrightarrow> ub_role m \<noteq> SUPER_ADMIN \<and> ub_brand_id m \<in> allowed_brands actor d)"

lemma confined_refl [simp]: "confined actor d d"
  by (simp add: confined_def)

lemma confined_cong: "au_users d1 = au_users d2 \<Longrightarrow> au_user_brands d1 = au_user_brands d2 \<Longrightarrow> confined actor d d1 = confined actor d d2"
  by (simp add: confined_def)

lemma confined_audited [simp]: "confined actor d (fst (audited rq a action t res det url d1)) = confined actor d d1"
  by (rule confined_cong) simp_all

lemma confined_refuse [simp]: "confined actor d (fst (refuse rq a action m page det d1)) = confined actor d d1"
  by (simp add: refuse_def)

lemma confined_revoke [simp]: "confined actor d (revoke_all_sessions now uid d1) = confined actor d d1"
  by (rule confined_cong) (simp_all add: revoke_all_sessions_def)

lemma confined_put:
  assumes "users_ok d" "\<not> is_super_admin actor" "managed_target actor ident d = Inr t"
    and "us_id t1 = us_id t" "us_brand_id t1 = us_brand_id t" "us_role t1 \<noteq> SUPER_ADMIN"
  shows "confined actor d (put_user t1 d)"
proof -
  have t: "t \<in> set (au_users d)" "us_brand_id t = us_brand_id actor" "\<not> is_super_admin t"
    using managed_target_in [OF assms(3)] assms(2) by auto
  have "r \<in> set (au_users (put_user t1 d))" if "r \<in> set (au_users d)" "is_super_admin r \<or> us_brand_id r \<noteq> us_brand_id actor" for r
  proof -
    have "us_id r \<noteq> us_id t1" using same_user [OF assms(1) that(1) t(1)] that(2) t assms(4) by auto
    then show ?thesis by (rule put_user_keeps_others [OF assms(1) that(1)])
  qed
  then show ?thesis using t assms(5,6) by (auto simp: confined_def put_user_def set_update_where is_super_admin_def split: if_splits)
qed

lemma confined_fields:
  assumes "managed_target actor ident d = Inr t" "\<not> is_super_admin actor"
  shows "us_role t \<noteq> SUPER_ADMIN"
  using managed_target_in [OF assms(1)] assms(2) by (auto simp: is_super_admin_def)

lemma selectable_allowed: "\<not> is_super_admin actor \<Longrightarrow> b \<in> br_id ` set (selectable_brands actor d) \<Longrightarrow> b \<in> allowed_brands actor d"
  by (auto simp: selectable_brands_def)

lemma confined_membership:
  assumes "b \<in> allowed_brands actor d" "r \<noteq> SUPER_ADMIN"
  shows "confined actor d (set_membership uid b r d)"
  using assms by (auto simp: confined_def set_membership_def add_membership_def set_update_where split: if_splits)

lemma add_memberships_parts: "au_users (add_memberships uid bs r d) = au_users d
    \<and> set (au_user_brands (add_memberships uid bs r d)) = set (au_user_brands d) \<union> {\<lparr>ub_user_id = uid, ub_brand_id = b, ub_role = r\<rparr> |b. b \<in> set bs}"
proof (induction bs arbitrary: d)
  case (Cons b bs)
  show ?case using Cons [of "add_membership uid b r d"] by (auto simp: add_memberships_def add_membership_def)
qed (simp add: add_memberships_def)

lemma confined_create:
  assumes "users_ok d" "\<not> is_super_admin actor" "r \<noteq> SUPER_ADMIN" "set brands \<subseteq> allowed_brands actor d"
    and "brands \<noteq> []" "Some (hd brands) = us_brand_id actor"
  shows "confined actor d (fst (create_account H salt rd rq actor f email r src brands (\<lambda>m. refuse rq actor USER_CREATED m page det d) d))"
proof -
  have ins: "confined actor d (add_memberships (us_id u) brands r d1)"
    if i: "insert_user (new_account f email r src (case brands of [] \<Rightarrow> None | b # _ \<Rightarrow> Some b) pw) d = (d1, u)" for pw d1 u
  proof -
    have parts: "set (au_users d1) = insert u (set (au_users d))" "u = new_account f email r src (case brands of [] \<Rightarrow> None | b # _ \<Rightarrow> Some b) pw (au_next_user d)"
        "au_user_brands d1 = au_user_brands d"
      using insert_user_keeps [OF assms(1) i] i by (auto simp: insert_user_def Let_def)
    have "us_role u = r" "us_brand_id u = us_brand_id actor"
      using parts(2) assms(5,6) by (cases brands; simp add: new_account_def new_user_def)+
    then show ?thesis using parts assms(3,4) add_memberships_parts [of "us_id u" brands r d1]
      by (auto simp: confined_def is_super_admin_def)
  qed
  show ?thesis using ins
    by (auto simp: create_account_def Let_def split: sum.splits bool.splits prod.splits auth_exc.splits)
qed

lemma brand_choice_allowed:
  assumes "brand_choice actor r raws d = Inr brands" "\<not> is_super_admin actor" "r \<noteq> SUPER_ADMIN"
  shows "set brands \<subseteq> allowed_brands actor d \<and> brands \<noteq> []"
  using assms selectable_allowed [OF assms(2)] by (force simp: brand_choice_def Let_def split: if_splits)

lemma confined_add_user:
  assumes "users_ok d" "\<not> is_super_admin actor"
  shows "confined actor d (fst (add_user H salt rd rq actor f d))"
proof -
  have "confined actor d (fst (create_account H salt rd rq actor f email r src brands (\<lambda>m. refuse rq actor USER_CREATED m page det d) d))"
    if c: "brand_choice actor r raws d = Inr brands" and a: "assert_may_assign actor r (case brands of [] \<Rightarrow> None | b # _ \<Rightarrow> Some b) = Inr ()"
    for email r src brands raws page det
  proof -
    have r: "r \<noteq> SUPER_ADMIN" using a assms(2) by (auto simp: assert_may_assign_def)
    note b = brand_choice_allowed [OF c assms(2) r]
    then have "Some (hd brands) = us_brand_id actor" using a assms(2) by (cases brands) (auto simp: assert_may_assign_def split: if_splits)
    then show ?thesis using confined_create [OF assms r] b by blast
  qed
  then show ?thesis by (simp add: add_user_def Let_def split: sum.splits option.splits unit.splits)
qed

lemmas confined_on_target = on_target_rule [where P = "confined actor d" and d = d for actor d, OF confined_refl]

lemma confined_handle:
  assumes "users_ok d" "\<not> is_super_admin actor" "us_brand_id actor \<noteq> None"
  shows "confined actor d (fst (handle H rd rq actor p d))"
proof (cases p)
  case (AddUser f salt)
  then show ?thesis using confined_add_user [OF assms(1,2)] by simp
next
  case (SetActive ident a)
  have "confined actor d (fst (set_user_active rq actor ident a d))" unfolding set_user_active_def
    by (rule confined_on_target) (auto simp: Let_def confined_fields assms(2) intro!: confined_put [OF assms(1,2)])
  then show ?thesis using SetActive by simp
next
  case (ChangeDetails ident f)
  have "confined actor d (fst (change_user_details rq actor ident f d))" unfolding change_user_details_def
    by (rule confined_on_target) (auto simp: Let_def confined_fields assms(2) intro!: confined_put [OF assms(1,2)])
  then show ?thesis using ChangeDetails by simp
next
  case (ResetPassword ident new again salt)
  have "confined actor d (fst (reset_user_password H salt rq actor ident new again d))" unfolding reset_user_password_def
    by (rule confined_on_target)
      (auto simp: Let_def confined_fields assms(2) intro!: confined_put [OF assms(1,2)] split: sum.splits auth_exc.splits)
  then show ?thesis using ResetPassword by simp
next
  case (ChangeRole ident r)
  have "us_brand_id t \<noteq> None" if "managed_target actor ident d = Inr t" for t
    using managed_target_in [OF that] assms(2,3) by auto
  then have "confined actor d (fst (change_user_role rq actor ident r d))" unfolding change_user_role_def
    by (intro confined_on_target)
      (auto simp: Let_def confined_fields assert_may_assign_def assms(2) intro!: confined_put [OF assms(1,2)] split: sum.splits unit.splits if_splits)
  then show ?thesis using ChangeRole by simp
next
  case (AddBrand ident b r)
  have "confined actor d (fst (add_user_brand rq actor ident b r d))" unfolding add_user_brand_def
    by (rule confined_on_target) (auto simp: selectable_allowed [OF assms(2)] intro!: confined_membership split: option.splits sum.splits)
  then show ?thesis using AddBrand by simp
next
  case (RemoveBrand ident b)
  have "confined actor d (fst (remove_user_brand rq actor ident b d))" unfolding remove_user_brand_def
    by (rule confined_on_target) (auto simp: confined_def revoke_all_sessions_def)
  then show ?thesis using RemoveBrand by simp
next
  case (DeleteUser ident c)
  have "confined actor d (fst (delete_user rq actor ident c d))" unfolding delete_user_def
  proof (rule confined_on_target, goal_cases)
    case (1 t)
    let ?a = "audited rq actor USER_DELETED (Some t) ''SUCCESS'' [(''role'', JStr (role_value (us_role t)))]
                   (''/admin/users?saved='' @ quote_plus (us_email t @ '' deleted'')) d"
    obtain d1 res where a: "?a = (d1, res)" by force
    have d1: "au_users d1 = au_users d" "au_user_brands d1 = au_user_brands d" using a audited_keeps(1,3) by (metis fst_conv)+
    have t: "t \<in> set (au_users d)" "us_brand_id t = us_brand_id actor" "\<not> is_super_admin t"
      using managed_target_in [OF 1] assms(2) by auto
    have "confined actor d (drop_user (us_id t) (revoke_all_sessions (rq_now rq) (us_id t) d1))"
      using d1 t same_user [OF assms(1) _ t(1)] by (auto simp: confined_def drop_user_def revoke_all_sessions_def)
    moreover have "confined actor d d1" using d1 by (simp add: confined_def)
    ultimately show ?case using a by (auto split: sum.splits)
  qed
  then show ?thesis using DeleteUser by simp
next
  case (ResetFactor ident)
  have "confined actor d (fst (reset_user_2fa rq actor ident d))" unfolding reset_user_2fa_def
    by (rule confined_on_target) (auto simp: clear_factor_def confined_fields assms(2) intro!: confined_put [OF assms(1,2)])
  then show ?thesis using ResetFactor by simp
qed

text \<open>C14: an organisation's administrator stays at home. Whatever somebody asks for who is not a platform
  administrator, accounts of other organisations and platform administrators are untouched, no platform
  administrator is made, what accounts are made or changed are of their own organisation, and access is granted
  only to organisations they reach themselves.\<close>

theorem organisation_admin_confined:
  assumes "users_ok d" "user_by_id i d = Some actor" "\<not> is_super_admin actor" "us_brand_id actor \<noteq> None"
    and "admin_request H rd (rq, i, p) d = d'"
  shows "(\<forall>r \<in> set (au_users d). is_super_admin r \<or> us_brand_id r \<noteq> us_brand_id actor \<longrightarrow> r \<in> set (au_users d')) \<and>
    (\<forall>r \<in> set (au_users d'). r \<notin> set (au_users d) \<longrightarrow> \<not> is_super_admin r \<and> us_brand_id r = us_brand_id actor) \<and>
    (\<forall>m \<in> set (au_user_brands d'). m \<notin> set (au_user_brands d) \<longrightarrow> ub_role m \<noteq> SUPER_ADMIN \<and> ub_brand_id m \<in> allowed_brands actor d)"
proof -
  from request_outcome [of H rd rq i p d, unfolded assms(5)]
  have "d' = d \<or> d' = fst (handle H rd rq actor p d)" unfolding assms(2) option.inject by blast
  then have c: "confined actor d d'"
  proof
    assume "d' = d"
    then show ?thesis by (simp only: confined_refl)
  next
    assume "d' = fst (handle H rd rq actor p d)"
    then show ?thesis by (simp only: confined_handle [OF assms(1,3,4)])
  qed
  show ?thesis by (rule c [unfolded confined_def])
qed

section \<open>Examples\<close>

definition demo_request :: request where
  "demo_request = \<lparr>rq_cookie = Some ''8'', rq_ip = None, rq_agent = None, rq_now = 0\<rparr>"

lemma demo_orgs_ok: "users_ok demo_orgs" "has_platform_admin demo_orgs"
  by (simp_all add: users_ok_def demo_orgs_def has_platform_admin_def demo_admin_def demo_person_def new_user_def is_super_admin_def)

lemma demo_person_there: "user_by_id 2 demo_orgs = Some demo_person" "user_by_email ''ana@example.com'' demo_orgs = Some demo_person"
  by (simp_all add: user_by_id_def user_by_email_def find_row_def demo_orgs_def demo_admin_def demo_person_def new_user_def)

theorem platform_admin_remains_witness:
  "has_platform_admin (fold (admin_request demo_hasher (\<lambda>_ _. False))
     [(demo_request, 1, SetActive ''root@example.com'' ''0''), (demo_request, 2, DeleteUser ''root@example.com'' ''root@example.com''),
      (demo_request, 1, ChangeRole ''ana@example.com'' ''SUPER_ADMIN''), (demo_request, 2, ChangeRole ''root@example.com'' ''OPERATOR'')] demo_orgs)"
  by (rule platform_admin_remains [OF demo_orgs_ok])

theorem organisation_admin_confined_witness:
  "demo_admin \<in> set (au_users (admin_request demo_hasher (\<lambda>_ _. False)
     (demo_request, 2, ResetPassword ''root@example.com'' ''twelve letters'' ''twelve letters'' []) demo_orgs))"
proof -
  have here: "demo_admin \<in> set (au_users demo_orgs)" "is_super_admin demo_admin" "us_brand_id demo_person \<noteq> None"
    by (simp_all add: demo_orgs_def demo_admin_def new_user_def is_super_admin_def demo_person_simps)
  note c = organisation_admin_confined [OF demo_orgs_ok(1) demo_person_there(1) demo_person_simps(4) here(3) refl, of demo_hasher "\<lambda>_ _. False"
    demo_request "ResetPassword ''root@example.com'' ''twelve letters'' ''twelve letters'' []", THEN conjunct1]
  show ?thesis by (rule bspec [OF c here(1), THEN mp]) (rule disjI1 [OF here(2)])
qed

lemma audited_answers:
  assumes "digits_cookie (rq_cookie rq) = Inr c"
  shows "snd (audited rq actor action t res det url d) = Inr url"
proof -
  have "\<exists>b. audit_scope (rq_cookie rq) u d = Inr b" for u
    using assms by (cases "selectable_brands u d") (auto simp: audit_scope_def brand_scope_def Let_def)
  then show ?thesis by (simp add: audited_def Let_def split: sum.splits) (metis Inl_Inr_False)
qed

text \<open>The grant is checked against the organisations the actor reaches, not against the role held there: somebody
  who administers one organisation and is an operator for another makes himself an administrator of it.\<close>

lemma self_promotion:
  "\<exists>d' s. handle demo_hasher (\<lambda>_ _. False) demo_request demo_person (AddBrand ''ana@example.com'' ''8'' ''ADMIN'') demo_orgs = (d', Inr s) \<and>
     effective_role demo_person (Some 8) demo_orgs = OPERATOR \<and> effective_role demo_person (Some 8) d' = ADMIN"
proof -
  let ?url = "user_url ''ana@example.com'' @ ''?saved=access''"
  let ?detail = "[(''organisation_id'', JInt 8), (''role'', JStr (role_value ADMIN))]"
  have t: "managed_target demo_person ''ana@example.com'' demo_orgs = Inr demo_person"
  proof -
    have "py_strip ''ana@example.com'' = ''ana@example.com''" "\<not> py_isdigit_char CHR ''a''" "py_lower ''ana@example.com'' = ''ana@example.com''"
      by code_simp+
    then show ?thesis unfolding managed_target_def Let_def using demo_person_there(2) demo_person_simps by (simp add: is_super_admin_def)
  qed
  have m: "assert_may_manage demo_person = Inr ()"
    by (simp add: assert_may_manage_def demo_person_simps operator_permissions ALL_PERMISSIONS_def)
  have b: "py_int_text ''8'' = Some 8" "role_of ''ADMIN'' = Inr ADMIN" by code_simp+
  let ?d = "set_membership 2 8 ADMIN demo_orgs"
  obtain d' r where a: "audited demo_request demo_person USER_BRAND_ADDED (Some demo_person) ''SUCCESS'' ?detail ?url ?d = (d', r)" by force
  have h: "handle demo_hasher (\<lambda>_ _. False) demo_request demo_person (AddBrand ''ana@example.com'' ''8'' ''ADMIN'') demo_orgs = (d', r)"
    using a by (simp add: add_user_brand_def on_target_def t m b demo_selectable demo_person_simps)
  have ms: "au_user_brands d' = au_user_brands ?d" using a audited_keeps(3) by (metis fst_conv)
  have "digits_cookie (rq_cookie demo_request) = Inr (Some 8)" by (simp add: demo_request_def demo_cookies)
  then have "\<exists>s. r = Inr s" using audited_answers a by (metis snd_conv)
  moreover have "effective_role demo_person (Some 8) d' = ADMIN"
    by (simp add: effective_role_def demo_person_simps ms set_membership_def demo_orgs_def find_row_def update_where_def)
  moreover have "effective_role demo_person (Some 8) demo_orgs = OPERATOR"
    by (simp add: effective_role_def demo_person_simps demo_orgs_def find_row_def)
  ultimately show ?thesis using h by blast
qed

end
