(* ===== verification/Login.thy ===== *)
theory Login
  imports Users "HOL-Library.AList"
begin

text \<open>
  The sign-in routes of \<open>src/c2w/web/routes.py\<close>: the password step, the code step, the forced enrolment, the
  provider's callback, signing out, choosing an organisation, and the person's own second factor and password.
  An answer is what is sent: where to, with which status, and the cookies it sets. The sign-in alerts, which
  write nothing and never raise, are left out.

  Lemmas: which answers carry a session, and that none does before the second factor.
\<close>

section \<open>Answers and surroundings\<close>

record response =
  rs_status :: int
  rs_where :: string
  rs_error :: "string option"
  rs_session :: "string option"
  rs_ticket :: "string option"
  rs_brand :: "int option"
  rs_clears_ticket :: bool
  rs_codes :: "string list"

definition redirect :: "string \<Rightarrow> response" where
  "redirect url = \<lparr>rs_status = 303, rs_where = url, rs_error = None, rs_session = None, rs_ticket = None, rs_brand = None,
     rs_clears_ticket = False, rs_codes = []\<rparr>"

definition page_with_error :: "int \<Rightarrow> string \<Rightarrow> string \<Rightarrow> response" where
  "page_with_error status page msg = (redirect page)\<lparr>rs_status := status, rs_error := Some msg\<rparr>"

text \<open>What a request finds: the libraries, the settings it reads, the clock, and the random draws of this request.\<close>

record login_env =
  le_lib :: mfa_lib
  le_sha :: "bytes \<Rightarrow> bytes"
  le_salt :: bytes
  le_directory :: "string \<Rightarrow> string \<Rightarrow> directory_view"
  le_local_enabled :: bool
  le_require_totp :: bool
  le_ttl :: int
  le_issuer :: string
  le_token :: string
  le_rnd :: bytes
  le_nonce :: bytes
  le_codes :: "nat \<Rightarrow> bytes \<times> bytes \<times> bytes"
  le_salts :: "nat \<Rightarrow> bytes"
  le_now :: dt
  le_ip :: "string option"
  le_agent :: "string option"

type_synonym login_answer = "auth_db \<times> (auth_exc + response)"

text \<open>\<open>get_session\<close>: what a handler answered is committed, and nothing of what it did when it raised.\<close>

definition in_session :: "auth_db \<Rightarrow> auth_db \<times> ('e + 'a) \<Rightarrow> auth_db \<times> ('e + 'a)" where
  "in_session d r = (case r of (d1, Inl e) \<Rightarrow> (d, Inl e) | (d1, Inr x) \<Rightarrow> (d1, Inr x))"

section \<open>The password step\<close>

text \<open>\<open>_sign_in\<close>.\<close>

definition initial_brand :: "user \<Rightarrow> auth_db \<Rightarrow> int option" where
  "initial_brand u d =
     (case us_brand_id u of
        Some b \<Rightarrow> Some b
      | None \<Rightarrow> (case selectable_brands u d of [] \<Rightarrow> None | b # _ \<Rightarrow> Some (br_id b)))"

definition sign_in :: "login_env \<Rightarrow> user \<Rightarrow> response \<Rightarrow> auth_db \<Rightarrow> login_answer" where
  "sign_in E u rs d =
     (case create_session (le_sha E) (le_now E) (le_ttl E) (le_token E) u (le_ip E) (le_agent E) d of
        (d1, Inl e) \<Rightarrow> (d1, Inl e)
      | (d1, Inr (token, row)) \<Rightarrow>
          (d1, Inr (rs\<lparr>rs_session := Some token,
             rs_brand := (case initial_brand u d1 of Some b \<Rightarrow> if b = 0 then None else Some b | None \<Rightarrow> None),
             rs_clears_ticket := True\<rparr>)))"

definition set_ticket :: "login_env \<Rightarrow> user \<Rightarrow> response \<Rightarrow> auth_exc + response" where
  "set_ticket E u rs = res_bind (issue_ticket (le_lib E) (le_now E) u) (\<lambda>t. Inr (rs\<lparr>rs_ticket := Some t\<rparr>))"

text \<open>The directory first, then the local password.\<close>

definition first_factor :: "login_env \<Rightarrow> string \<Rightarrow> string \<Rightarrow> auth_db \<Rightarrow> auth_db \<times> (auth_exc + user)" where
  "first_factor E email password d =
     (case authenticate_directory (le_directory E email password) (le_now E) email d of
        (d1, Inl e) \<Rightarrow> (d1, Inl e)
      | (d1, Inr (Some u)) \<Rightarrow> (d1, Inr u)
      | (d1, Inr None) \<Rightarrow>
          authenticate (ml_hasher (le_lib E)) (le_salt E) (le_local_enabled E) (le_now E) email password d1)"

definition login_submit :: "login_env \<Rightarrow> string \<Rightarrow> string \<Rightarrow> auth_db \<Rightarrow> login_answer" where
  "login_submit E email password d =
     (case first_factor E email password d of
        (d1, Inl (AuthError m)) \<Rightarrow> (d1, Inr (page_with_error 401 ''login.html'' m))
      | (d1, Inl e) \<Rightarrow> (d1, Inl e)
      | (d1, Inr u) \<Rightarrow>
          if second_factor_required (le_require_totp E) u
          then (d1, set_ticket E u (redirect (if totp_active u then ''/login/code'' else ''/login/enrol'')))
          else sign_in E u (redirect ''/'') d1)"

section \<open>The second step\<close>

definition ticket_user :: "login_env \<Rightarrow> string \<Rightarrow> auth_db \<Rightarrow> user option" where
  "ticket_user E ticket d =
     (case read_ticket (le_lib E) (le_now E) ticket of
        None \<Rightarrow> None
      | Some i \<Rightarrow> (case user_by_id i d of None \<Rightarrow> None | Some u \<Rightarrow> if us_is_active u then Some u else None))"

definition login_code_submit :: "login_env \<Rightarrow> string \<Rightarrow> string \<Rightarrow> auth_db \<Rightarrow> login_answer" where
  "login_code_submit E ticket c d =
     (case ticket_user E ticket d of
        None \<Rightarrow> (d, Inr (redirect ''/login''))
      | Some u \<Rightarrow>
          (case check_second_factor (le_lib E) (le_now E) c u d of
             (d1, Inl (AuthError m)) \<Rightarrow> (d1, Inr (page_with_error 401 ''login_code.html'' m))
           | (d1, Inl e) \<Rightarrow> (d1, Inl e)
           | (d1, Inr ()) \<Rightarrow> sign_in E u (redirect ''/'') d1))"

definition login_enrol_form :: "login_env \<Rightarrow> string \<Rightarrow> auth_db \<Rightarrow> auth_db \<times> (auth_exc + response \<times> enrolment option)" where
  "login_enrol_form E ticket d =
     (case ticket_user E ticket d of
        None \<Rightarrow> (d, Inr (redirect ''/login'', None))
      | Some u \<Rightarrow>
          (case begin_enrolment (le_lib E) (le_rnd E) (le_nonce E) (le_issuer E) u d of
             (d1, Inl (AuthError m)) \<Rightarrow> (d1, Inr (page_with_error 400 ''login.html'' m, None))
           | (d1, Inl e) \<Rightarrow> (d1, Inl e)
           | (d1, Inr e) \<Rightarrow> (d1, Inr ((redirect ''login_enrol.html'')\<lparr>rs_status := 200\<rparr>, Some e))))"

definition login_enrol_submit :: "login_env \<Rightarrow> string \<Rightarrow> string \<Rightarrow> auth_db \<Rightarrow> login_answer" where
  "login_enrol_submit E ticket c d =
     (case ticket_user E ticket d of
        None \<Rightarrow> (d, Inr (redirect ''/login''))
      | Some u \<Rightarrow>
          (case confirm_enrolment (le_lib E) (le_now E) (le_codes E) (le_salts E) c u d of
             (d1, Inl (AuthError m)) \<Rightarrow> (d1, Inr (redirect (''/login/enrol?error='' @ quote_plus m)))
           | (d1, Inl e) \<Rightarrow> (d1, Inl e)
           | (d1, Inr codes) \<Rightarrow> sign_in E u ((redirect ''recovery_codes.html'')\<lparr>rs_status := 200, rs_codes := codes\<rparr>) d1))"

section \<open>An identity provider's callback\<close>

record identity =
  id_email :: string
  id_subject :: string
  id_name :: string
  id_groups :: "string list"

text \<open>What \<open>oidc.load_provider\<close> and \<open>oidc.complete\<close> make of the answer is an argument: the refusal, or who it is.\<close>

definition provider_source :: "string \<Rightarrow> auth_source" where
  "provider_source provider = (if provider = ''entra'' then ENTRA else GOOGLE)"

definition oidc_callback :: "login_env \<Rightarrow> string \<Rightarrow> string option \<Rightarrow> string option \<Rightarrow> string option \<Rightarrow> string option \<Rightarrow> string + identity \<Rightarrow>
    auth_db \<Rightarrow> login_answer" where
  "oidc_callback E provider c state err err_text answer d =
     (let refuse = (\<lambda>m. (d, Inr (redirect (''/login?error='' @ quote_plus m))))
      in if err \<noteq> None \<and> err \<noteq> Some []
         then refuse (case err_text of Some t \<Rightarrow> if t = [] then provider @ '' refused the sign-in'' else t | None \<Rightarrow> provider @ '' refused the sign-in'')
         else if c = None \<or> c = Some [] \<or> state = None \<or> state = Some []
         then refuse ''That sign-in was incomplete; please start again''
         else (case answer of
                 Inl m \<Rightarrow> refuse m
               | Inr who \<Rightarrow>
                   (case link_federated_user (le_now E) (id_email who) (id_subject who) (id_name who) (id_groups who)
                           (provider_source provider) d of
                      (d1, Inl (AuthError m)) \<Rightarrow> (d1, Inr (redirect (''/login?error='' @ quote_plus m)))
                    | (d1, Inl e) \<Rightarrow> (d1, Inl e)
                    | (d1, Inr u) \<Rightarrow> sign_in E u (redirect ''/'') d1)))"

section \<open>Signing out and switching\<close>

definition logout :: "login_env \<Rightarrow> string option \<Rightarrow> auth_db \<Rightarrow> login_answer" where
  "logout E cookie d =
     (case cookie of
        Some t \<Rightarrow> (if t = [] then d else revoke_session (le_sha E) (le_now E) t d, Inr (redirect ''/login''))
      | None \<Rightarrow> (d, Inr (redirect ''/login'')))"

definition switch_brand :: "user \<Rightarrow> int \<Rightarrow> string option \<Rightarrow> auth_db \<Rightarrow> http_exc + response" where
  "switch_brand u brand referer d =
     (if brand \<notin> br_id ` set (selectable_brands u d) then Inl (HTTPException 403 ''not your organisation'')
      else Inr ((redirect (case referer of Some r \<Rightarrow> or_else r ''/'' | None \<Rightarrow> ''/''))\<lparr>rs_brand := Some brand\<rparr>))"

section \<open>One's own account\<close>

definition my_page_error :: "string \<Rightarrow> response" where
  "my_page_error m = redirect (''/me?error='' @ quote_plus m)"

definition change_my_password :: "login_env \<Rightarrow> request \<Rightarrow> user \<Rightarrow> string \<Rightarrow> string \<Rightarrow> string \<Rightarrow> auth_db \<Rightarrow> auth_db \<times> (http_exc + response)" where
  "change_my_password E rq u current_pw new_pw again d =
     (if us_source u \<noteq> LOCAL then (d, Inr (redirect ''/me?error=This+account+signs+in+through+your+organisation''))
      else if (case us_password_hash u of Some h \<Rightarrow> h = [] \<or> \<not> verify_password (ml_hasher (le_lib E)) h current_pw | None \<Rightarrow> True)
      then (d, Inr (redirect ''/me?error=Your+current+password+is+not+right''))
      else if new_pw \<noteq> again then (d, Inr (redirect ''/me?error=The+two+new+passwords+do+not+match''))
      else (case hash_password (ml_hasher (le_lib E)) (le_salt E) new_pw of
              Inl (AuthError m) \<Rightarrow> (d, Inr (my_page_error m))
            | Inl _ \<Rightarrow> (d, Inr (my_page_error []))
            | Inr h \<Rightarrow>
                (let u1 = u\<lparr>us_password_hash := Some h\<rparr>;
                     d1 = put_user u1 (revoke_all_sessions (le_now E) (us_id u) d)
                 in case audited rq u1 PASSWORD_CHANGED None ''SUCCESS'' [(''sessions_revoked'', JBool True)] ''/login'' d1 of
                      (d2, Inl e) \<Rightarrow> (d, Inl e)
                    | (d2, Inr url) \<Rightarrow> (d2, Inr (redirect url)))))"

text \<open>The handlers of \<open>/me/2fa\<close>; what \<open>AuthError\<close> says is shown, anything else fails the request.\<close>

definition my_2fa :: "string \<Rightarrow> request \<Rightarrow> user \<Rightarrow> admin_action option \<Rightarrow> response \<Rightarrow> auth_db \<Rightarrow> auth_db \<times> (auth_exc + 'a) \<Rightarrow>
    auth_db \<times> (http_exc + response)" where
  "my_2fa error_page rq u action ok d r =
     (case r of
        (d1, Inl (AuthError m)) \<Rightarrow> (d1, Inr (redirect (error_page @ ''?error='' @ quote_plus m)))
      | (d1, Inl (IntegrityError m)) \<Rightarrow> (d, Inl (HttpIntegrityError m))
      | (d1, Inl (AuthRaised e)) \<Rightarrow> (d, Inl (HttpRaised e))
      | (d1, Inr x) \<Rightarrow>
          (case action of
             None \<Rightarrow> (d1, Inr ok)
           | Some a \<Rightarrow>
               (case audited rq u a None ''SUCCESS'' [] [] d1 of (d2, Inl e) \<Rightarrow> (d, Inl e) | (d2, Inr _) \<Rightarrow> (d2, Inr ok))))"

definition start_my_2fa :: "login_env \<Rightarrow> request \<Rightarrow> user \<Rightarrow> auth_db \<Rightarrow> auth_db \<times> (http_exc + response)" where
  "start_my_2fa E rq u d =
     my_2fa ''/me'' rq u None (redirect ''/me/2fa'') d (begin_enrolment (le_lib E) (le_rnd E) (le_nonce E) (le_issuer E) u d)"

definition confirm_my_2fa :: "login_env \<Rightarrow> request \<Rightarrow> user \<Rightarrow> string \<Rightarrow> auth_db \<Rightarrow> auth_db \<times> (http_exc + response)" where
  "confirm_my_2fa E rq u c d =
     my_2fa ''/me/2fa'' rq u (Some MFA_ENABLED) ((redirect ''recovery_codes.html'')\<lparr>rs_status := 200, rs_codes := new_recovery_codes (le_codes E)\<rparr>) d
       (confirm_enrolment (le_lib E) (le_now E) (le_codes E) (le_salts E) c u d)"

definition cancel_my_2fa :: "request \<Rightarrow> user \<Rightarrow> auth_db \<Rightarrow> auth_db \<times> (http_exc + response)" where
  "cancel_my_2fa rq u d = my_2fa ''/me'' rq u None (redirect ''/me#twofactor'') d (cancel_enrolment u d)"

definition disable_my_2fa :: "login_env \<Rightarrow> request \<Rightarrow> user \<Rightarrow> string \<Rightarrow> auth_db \<Rightarrow> auth_db \<times> (http_exc + response)" where
  "disable_my_2fa E rq u password d =
     my_2fa ''/me'' rq u (Some MFA_DISABLED) (redirect ''/me?saved=2fa-off#twofactor'') d (disable_factor (le_lib E) password u d)"

definition regenerate_my_recovery :: "login_env \<Rightarrow> request \<Rightarrow> user \<Rightarrow> auth_db \<Rightarrow> auth_db \<times> (http_exc + response)" where
  "regenerate_my_recovery E rq u d =
     (if \<not> totp_active u then (d, Inr (redirect ''/me#twofactor''))
      else (let codes = new_recovery_codes (le_codes E)
            in case hash_codes (le_lib E) (le_salts E) codes of
                 Inl (AuthRaised e) \<Rightarrow> (d, Inl (HttpRaised e))
               | Inl (IntegrityError m) \<Rightarrow> (d, Inl (HttpIntegrityError m))
               | Inl (AuthError m) \<Rightarrow> (d, Inl (HttpRaised (ValueError m)))
               | Inr hashes \<Rightarrow>
                   (case audited rq u RECOVERY_CODES_REISSUED None ''SUCCESS'' [(''count'', JInt (int (length codes)))] []
                           (put_user (u\<lparr>us_totp_recovery := hashes\<rparr>) d) of
                      (d1, Inl e) \<Rightarrow> (d, Inl e)
                    | (d1, Inr _) \<Rightarrow> (d1, Inr ((redirect ''recovery_codes.html'')\<lparr>rs_status := 200, rs_codes := codes\<rparr>)))))"

text \<open>\<open>/me/appearance\<close>.\<close>

definition FONT_FAMILIES :: "string list" where
  "FONT_FAMILIES = [''system'', ''humanist'', ''grotesque'', ''serif'', ''mono'']"

definition FONT_SIZES :: "int list" where "FONT_SIZES = [14, 16, 18, 20, 22, 24, 28]"
definition DEFAULT_FONT_PX :: int where "DEFAULT_FONT_PX = 20"

definition clamp :: "int \<Rightarrow> int \<Rightarrow> int \<Rightarrow> int" where
  "clamp low high v = min (max v low) high"

record appearance_form =
  ap_theme :: string
  ap_font_px :: string
  ap_font_family :: string
  ap_volume :: string

definition appearance :: "appearance_form \<Rightarrow> (string \<times> json) list \<Rightarrow> (string \<times> json) list" where
  "appearance f prefs0 =
     (let theme = or_else (ap_theme f) ''auto'';
          prefs1 = AList.update ''theme'' (JStr (if theme \<in> {''auto'', ''light'', ''dark''} then theme else ''auto'')) prefs0;
          size = (case py_int_text (or_else (ap_font_px f) (show_int DEFAULT_FONT_PX)) of Some n \<Rightarrow> n | None \<Rightarrow> DEFAULT_FONT_PX);
          prefs2 = AList.delete ''font_scale'' (AList.update ''font_px'' (JInt (clamp (hd FONT_SIZES) (last FONT_SIZES) size)) prefs1);
          family = or_else (ap_font_family f) ''system'';
          prefs3 = AList.update ''font_family'' (JStr (if family \<in> set FONT_FAMILIES then family else ''system'')) prefs2;
          volume = (case py_int_text (or_else (ap_volume f) ''100'') of Some n \<Rightarrow> n | None \<Rightarrow> 100)
      in AList.update ''volume'' (JInt (clamp 0 200 volume)) prefs3)"

definition save_appearance :: "appearance_form \<Rightarrow> user \<Rightarrow> auth_db \<Rightarrow> auth_db \<times> (http_exc + response)" where
  "save_appearance f u d =
     (put_user (u\<lparr>us_preferences := appearance f (us_preferences u)\<rparr>) d, Inr (redirect ''/me?saved=appearance''))"

text \<open>What a form says, the page can show: the theme is one of three, the sizes are within their bounds.\<close>

lemma appearance_bounds:
  "\<exists>px v. map_of (appearance f prefs) ''font_px'' = Some (JInt px) \<and> 14 \<le> px \<and> px \<le> 28 \<and>
     map_of (appearance f prefs) ''volume'' = Some (JInt v) \<and> 0 \<le> v \<and> v \<le> 200 \<and>
     map_of (appearance f prefs) ''theme'' \<in> {Some (JStr ''auto''), Some (JStr ''light''), Some (JStr ''dark'')} \<and>
     map_of (appearance f prefs) ''font_scale'' = None"
  by (simp add: appearance_def Let_def update_conv' delete_conv' clamp_def FONT_SIZES_def)

section \<open>The requests nobody is signed in for\<close>

datatype login_request =
    Password string string
  | Code string string
  | Enrol_form string
  | Enrol string string
  | Callback string "string option" "string option" "string option" "string option" "string + identity"
  | Logout "string option"

fun answer_login :: "login_env \<Rightarrow> login_request \<Rightarrow> auth_db \<Rightarrow> login_answer" where
  "answer_login E (Password email pw) d = login_submit E email pw d"
| "answer_login E (Code ticket c) d = login_code_submit E ticket c d"
| "answer_login E (Enrol_form ticket) d =
     (case login_enrol_form E ticket d of (d1, Inl e) \<Rightarrow> (d1, Inl e) | (d1, Inr (rs, _)) \<Rightarrow> (d1, Inr rs))"
| "answer_login E (Enrol ticket c) d = login_enrol_submit E ticket c d"
| "answer_login E (Callback provider c state err err_text who) d = oidc_callback E provider c state err err_text who d"
| "answer_login E (Logout cookie) d = logout E cookie d"

definition login_request_of :: "login_env \<times> login_request \<Rightarrow> auth_db \<Rightarrow> auth_db" where
  "login_request_of call d = (case call of (E, r) \<Rightarrow> fst (in_session d (answer_login E r d)))"

definition login_run :: "(login_env \<times> login_request) list \<Rightarrow> auth_db \<Rightarrow> auth_db" where
  "login_run calls d = foldl (\<lambda>d call. login_request_of call d) d calls"

section \<open>No session before the second factor\<close>

text \<open>The tokens that open an account's sessions, and the columns that make its second factor.\<close>

definition live_tokens :: "int \<Rightarrow> auth_db \<Rightarrow> string set" where
  "live_tokens uid d = se_token_hash ` {s \<in> set (au_sessions d). se_user_id s = uid \<and> se_revoked_at s = None}"

definition same_factor :: "user \<Rightarrow> user \<Rightarrow> bool" where
  "same_factor u w \<longleftrightarrow> us_id w = us_id u \<and> us_source w = us_source u \<and> us_totp_sealed w = us_totp_sealed u \<and>
     us_totp_enrolled_at w = us_totp_enrolled_at u \<and> us_totp_last_counter w = us_totp_last_counter u \<and>
     us_totp_recovery w = us_totp_recovery u"

definition holds :: "user \<Rightarrow> auth_db \<Rightarrow> bool" where
  "holds u d \<longleftrightarrow> users_ok d \<and> (\<exists>w \<in> set (au_users d). same_factor u w)"

definition keeps_out :: "user \<Rightarrow> auth_db \<Rightarrow> auth_db \<Rightarrow> bool" where
  "keeps_out u d d' \<longleftrightarrow> holds u d' \<and> live_tokens (us_id u) d' \<subseteq> live_tokens (us_id u) d"

lemma keeps_out_refl: "holds u d \<Longrightarrow> keeps_out u d d"
  by (simp add: keeps_out_def)

lemma keeps_out_trans: "keeps_out u d d1 \<Longrightarrow> keeps_out u d1 d2 \<Longrightarrow> keeps_out u d d2"
  by (auto simp: keeps_out_def)

lemma keeps_out_holds: "keeps_out u d d' \<Longrightarrow> holds u d'"
  by (simp add: keeps_out_def)

lemma same_factor_id: "holds u d \<Longrightarrow> w \<in> set (au_users d) \<Longrightarrow> us_id w = us_id u \<Longrightarrow> same_factor u w"
  unfolding holds_def by (metis same_factor_def same_user)

lemma keeps_out_put:
  assumes "holds u d" "us_id w = us_id u \<longrightarrow> same_factor u w"
  shows "keeps_out u d (put_user w d)"
proof -
  obtain v where v: "v \<in> set (au_users d)" "same_factor u v" "users_ok d" using assms(1) by (auto simp: holds_def)
  have "\<exists>x \<in> set (au_users (put_user w d)). same_factor u x"
  proof (cases "us_id w = us_id u")
    case True
    then have "w \<in> set (au_users (put_user w d))" using v(1,2) by (auto simp: put_user_def set_update_where same_factor_def)
    then show ?thesis using assms(2) True by blast
  next
    case False
    then have "v \<in> set (au_users (put_user w d))"
      using put_user_keeps_others [OF v(3,1), of w] v(2) by (simp add: same_factor_def)
    then show ?thesis using v(2) by blast
  qed
  then show ?thesis using users_ok_put_user [OF v(3)] by (simp add: keeps_out_def holds_def live_tokens_def put_user_def)
qed

lemma live_tokens_fewer:
  "live_tokens uid (d\<lparr>au_sessions := update_where p (\<lambda>s. s\<lparr>se_revoked_at := Some now\<rparr>) (au_sessions d)\<rparr>) \<subseteq> live_tokens uid d"
  by (auto simp: live_tokens_def set_update_where split: if_splits)

lemma keeps_out_revoke:
  "holds u d \<Longrightarrow> keeps_out u d (revoke_session sha now t d)" "holds u d \<Longrightarrow> keeps_out u d (revoke_all_sessions now i d)"
  using live_tokens_fewer [where uid = "us_id u" and d = d and now = now]
  by (auto simp: keeps_out_def holds_def users_ok_def revoke_session_def revoke_all_sessions_def)

lemma keeps_out_sign_in:
  "holds u d \<Longrightarrow> us_id w \<noteq> us_id u \<Longrightarrow> keeps_out u d (fst (sign_in E w rs d))"
  by (auto simp: sign_in_def create_session_def keeps_out_def holds_def users_ok_def live_tokens_def Let_def)

lemma keeps_out_session: "keeps_out u d (fst r) \<Longrightarrow> holds u d \<Longrightarrow> keeps_out u d (fst (in_session d r))"
  by (auto simp: in_session_def keeps_out_refl split: prod.splits sum.splits)

text \<open>The two federated paths never reach a local account; the password path does not touch its factor.\<close>

lemma federation_frame:
  assumes "users_ok d"
  shows "users_ok (fst (authenticate_directory v now email d)) \<and> au_sessions (fst (authenticate_directory v now email d)) = au_sessions d"
    "users_ok (fst (link_federated_user now email subject name groups source d)) \<and>
     au_sessions (fst (link_federated_user now email subject name groups source d)) = au_sessions d"
proof -
  have ins: "users_ok d1 \<and> au_sessions d1 = au_sessions d" if "insert_user mk d = (d1, u)" "\<And>i. us_id (mk i) = i" for mk d1 u
    using insert_user_keeps [OF assms that(1)] that(2) by simp
  have mem: "users_ok (add_membership a b r d1) = users_ok d1" "au_sessions (add_membership a b r d1) = au_sessions d1" for a b r d1
    by (simp_all add: add_membership_def users_ok_def)
  have put: "au_sessions (put_user w d1) = au_sessions d1" for w d1 by (simp add: put_user_def)
  show "users_ok (fst (authenticate_directory v now email d)) \<and> au_sessions (fst (authenticate_directory v now email d)) = au_sessions d"
    using assms by (auto simp: authenticate_directory_def Let_def mem put intro!: users_ok_put_user
      dest: ins split: option.splits prod.splits simp: new_user_def)
  show "users_ok (fst (link_federated_user now email subject name groups source d)) \<and>
     au_sessions (fst (link_federated_user now email subject name groups source d)) = au_sessions d"
    using assms by (auto simp: link_federated_user_def Let_def mem put intro!: users_ok_put_user
      dest: ins split: option.splits prod.splits simp: new_user_def)
qed

lemma keeps_out_local:
  assumes "holds u d" "us_source u = LOCAL" "users_ok d' \<and> au_sessions d' = au_sessions d"
    and "\<And>l. l \<in> set (au_users d) \<Longrightarrow> us_source l = LOCAL \<Longrightarrow> l \<in> set (au_users d') \<and> (\<forall>w. P w \<longrightarrow> us_id w \<noteq> us_id l)"
  shows "keeps_out u d d' \<and> (\<forall>w. P w \<longrightarrow> us_id w \<noteq> us_id u)"
proof -
  obtain l where l: "l \<in> set (au_users d)" "same_factor u l" using assms(1) by (auto simp: holds_def)
  then have src: "us_source l = LOCAL" "us_id l = us_id u" using assms(2) by (simp_all add: same_factor_def)
  show ?thesis using assms(4) [OF l(1) src(1)] assms(3) l(2) src(2) by (auto simp: keeps_out_def holds_def live_tokens_def)
qed

lemma keeps_out_directory:
  assumes "holds u d" "us_source u = LOCAL" "authenticate_directory v now email d = (d', r)"
  shows "keeps_out u d d' \<and> (\<forall>w. r = Inr (Some w) \<longrightarrow> us_id w \<noteq> us_id u)"
proof (rule keeps_out_local [OF assms(1,2)])
  have ok: "users_ok d" using assms(1) by (simp add: holds_def)
  show "users_ok d' \<and> au_sessions d' = au_sessions d" using federation_frame(1) [OF ok, of v now email] by (simp add: assms(3))
  show "l \<in> set (au_users d') \<and> (\<forall>w. r = Inr (Some w) \<longrightarrow> us_id w \<noteq> us_id l)"
    if "l \<in> set (au_users d)" "us_source l = LOCAL" for l
    using directory_keeps_local [OF ok that assms(3)] by blast
qed

lemma keeps_out_link:
  assumes "holds u d" "us_source u = LOCAL" "src \<noteq> LOCAL" "link_federated_user now email subject name groups src d = (d', r)"
  shows "keeps_out u d d' \<and> (\<forall>w. r = Inr w \<longrightarrow> us_id w \<noteq> us_id u)"
proof (rule keeps_out_local [OF assms(1,2)])
  have ok: "users_ok d" using assms(1) by (simp add: holds_def)
  show "users_ok d' \<and> au_sessions d' = au_sessions d"
    using federation_frame(2) [OF ok, of now email subject name groups src] by (simp add: assms(4))
  show "l \<in> set (au_users d') \<and> (\<forall>w. r = Inr w \<longrightarrow> us_id w \<noteq> us_id l)"
    if "l \<in> set (au_users d)" "us_source l = LOCAL" for l
    using link_keeps_local [OF ok that assms(3,4)] by blast
qed

lemma keeps_out_authenticate:
  assumes "holds u d" "authenticate H salt le now email pw d = (d', r)"
  shows "keeps_out u d d'" "r = Inr w \<Longrightarrow> us_id w = us_id u \<Longrightarrow> same_factor u w"
proof -
  have same: "same_factor u x" if "us_id x = us_id u" "y \<in> set (au_users d)" "same_factor y x" for x y
    using same_factor_id [OF assms(1) that(2)] that(1,3) by (simp add: same_factor_def)
  have up: "same_factor y (count_failure now y)" "same_factor y (count_success H salt now h pw y)" for y h
    by (simp_all add: same_factor_def count_failure_def count_success_def Let_def)
  show "keeps_out u d d'"
    using assms by (auto simp: authenticate_def Let_def intro!: keeps_out_refl keeps_out_put dest: user_by_email_in
      intro: same [OF _ _ up(1)] same [OF _ _ up(2)] split: option.splits if_splits)
  show "r = Inr w \<Longrightarrow> us_id w = us_id u \<Longrightarrow> same_factor u w"
    using assms by (auto simp: authenticate_def Let_def dest: user_by_email_in
      intro: same [OF _ _ up(2)] split: option.splits if_splits)
qed

lemma keeps_out_first_factor:
  assumes "holds u d" "us_source u = LOCAL" "first_factor E email pw d = (d', r)"
  shows "keeps_out u d d' \<and> (\<forall>w. r = Inr w \<longrightarrow> us_id w = us_id u \<longrightarrow> same_factor u w)"
proof -
  obtain d1 r1 where dir: "authenticate_directory (le_directory E email pw) (le_now E) email d = (d1, r1)" by force
  note k = keeps_out_directory [OF assms(1,2) dir]
  show ?thesis
  proof (cases "r1 = Inr None")
    case True
    have a: "authenticate (ml_hasher (le_lib E)) (le_salt E) (le_local_enabled E) (le_now E) email pw d1 = (d', r)"
      using assms(3) dir True by (simp add: first_factor_def)
    have k1: "keeps_out u d d1" "holds u d1" using k by (simp_all add: keeps_out_def)
    show ?thesis using keeps_out_trans [OF k1(1) keeps_out_authenticate(1) [OF k1(2) a]]
      keeps_out_authenticate(2) [OF k1(2) a] by simp
  next
    case False
    then show ?thesis using assms(3) dir k by (auto simp: first_factor_def split: sum.splits option.splits)
  qed
qed

text \<open>What the check of a code says depends only on the columns of the factor; the enrolment of an active factor
  is refused.\<close>

lemma check_result_same:
  assumes "same_factor u w"
  shows "snd (check_second_factor L now c w d) = snd (check_second_factor L now c u d')"
proof -
  have eq: "us_id w = us_id u" "us_totp_sealed w = us_totp_sealed u" "us_totp_enrolled_at w = us_totp_enrolled_at u"
    "us_totp_last_counter w = us_totp_last_counter u" "us_totp_recovery w = us_totp_recovery u"
    using assms by (simp_all add: same_factor_def)
  have "totp_active w = totp_active u" "has_secret w = has_secret u" "open_secret L w = open_secret L u"
    by (simp_all add: totp_active_def has_secret_def open_secret_def eq)
  then show ?thesis by (simp add: check_second_factor_def eq split: sum.splits option.splits)
qed

lemma check_refused_db: "snd (check_second_factor L now c w d) = Inl e \<Longrightarrow> fst (check_second_factor L now c w d) = d"
  by (auto simp: check_second_factor_def split: sum.splits option.splits if_splits)

lemma keeps_out_factor_ops:
  assumes "holds u d" "us_id w \<noteq> us_id u"
  shows "keeps_out u d (fst (check_second_factor L now c w d))" "keeps_out u d (fst (begin_enrolment L rnd nonce issuer w d))"
    "keeps_out u d (fst (confirm_enrolment L now codes salts c w d))"
proof -
  note r = keeps_out_refl [OF assms(1)]
  have p: "keeps_out u d (put_user x d)" if "us_id x = us_id w" for x
    using keeps_out_put [OF assms(1), of x] that assms(2) by simp
  have q: "keeps_out u d (revoke_all_sessions now i (put_user x d))" if "us_id x = us_id w" for x i
    using keeps_out_trans [OF p [OF that] keeps_out_revoke(2) [OF keeps_out_holds [OF p [OF that]]]] .
  show "keeps_out u d (fst (check_second_factor L now c w d))"
    using r by (auto simp: check_second_factor_def intro!: p q split: sum.splits option.splits)
  show "keeps_out u d (fst (begin_enrolment L rnd nonce issuer w d))"
    using r by (auto simp: begin_enrolment_def Let_def intro!: p split: sum.splits)
  show "keeps_out u d (fst (confirm_enrolment L now codes salts c w d))"
    using r by (auto simp: confirm_enrolment_def Let_def intro!: p split: sum.splits option.splits)
qed

lemma ticket_user_in: "ticket_user E t d = Some w \<Longrightarrow> w \<in> set (au_users d) \<and> us_is_active w"
  by (auto simp: ticket_user_def dest: user_by_id_in split: option.splits if_splits)

lemma sign_in_after:
  "keeps_out u d d1 \<Longrightarrow> us_id w \<noteq> us_id u \<Longrightarrow> keeps_out u d (fst (sign_in E w rs d1))"
  by (rule keeps_out_trans [OF _ keeps_out_sign_in [OF keeps_out_holds]])

lemma keeps_out_answer:
  assumes "keeps_out u d d1" "\<And>w. r = Inr w \<Longrightarrow> keeps_out u d (fst (ok w))"
  shows "keeps_out u d (fst (case r of Inl (AuthError m) \<Rightarrow> (d1, Inr (bad m)) | Inl e \<Rightarrow> (d1, Inl e) | Inr w \<Rightarrow> ok w))"
proof (cases r)
  case (Inl e)
  then show ?thesis using assms(1) by (cases e) simp_all
next
  case (Inr w)
  then show ?thesis using assms(2) by simp
qed

lemma keeps_out_login:
  assumes "holds u d" "us_source u = LOCAL" "totp_active u"
  shows "keeps_out u d (fst (login_submit E email pw d))"
proof -
  obtain d1 r where f: "first_factor E email pw d = (d1, r)" by force
  note k = keeps_out_first_factor [OF assms(1,2) f]
  have own: "second_factor_required req w" if "same_factor u w" for w req
    using that assms(3) by (simp add: same_factor_def totp_active_def second_factor_required_def)
  show ?thesis
  proof (cases r)
    case (Inl e)
    then show ?thesis using k f by (cases e) (simp_all add: login_submit_def)
  next
    case (Inr w)
    then show ?thesis using k f own [of w] sign_in_after [of u d d1 w]
      by (cases "us_id w = us_id u") (auto simp: login_submit_def)
  qed
qed

lemma keeps_out_code:
  assumes "holds u d" "snd (check_second_factor (le_lib E) (le_now E) c u d0) \<noteq> Inr ()"
  shows "keeps_out u d (fst (login_code_submit E t c d))"
proof (cases "ticket_user E t d")
  case None
  then show ?thesis using keeps_out_refl [OF assms(1)] by (simp add: login_code_submit_def)
next
  case (Some w)
  obtain d1 r where c: "check_second_factor (le_lib E) (le_now E) c w d = (d1, r)" by force
  show ?thesis
  proof (cases "us_id w = us_id u")
    case True
    have "same_factor u w" using same_factor_id [OF assms(1)] ticket_user_in [OF Some] True by blast
    then have "r \<noteq> Inr ()" using check_result_same [of u w "le_lib E" "le_now E" c d d0] assms(2) c by simp
    then obtain e where e: "r = Inl e" by (cases r) auto
    then have "d1 = d" using check_refused_db [of "le_lib E" "le_now E" c w d e] c by simp
    then show ?thesis using Some c e keeps_out_refl [OF assms(1)] by (cases e) (simp_all add: login_code_submit_def)
  next
    case False
    have "keeps_out u d d1" using keeps_out_factor_ops(1) [OF assms(1) False, of "le_lib E" "le_now E" c] c by simp
    then show ?thesis unfolding login_code_submit_def Some option.case c prod.case unit.case
      by (intro keeps_out_answer) (auto intro: sign_in_after [OF _ False] split: unit.split)
  qed
qed

lemma enrol_refused:
  assumes "holds u d" "us_source u = LOCAL" "totp_active u" "w \<in> set (au_users d)" "us_id w = us_id u"
  shows "\<exists>m. begin_enrolment L rnd nonce issuer w d = (d, Inl (AuthError m))"
    "\<exists>m. confirm_enrolment L now codes salts c w d = (d, Inl (AuthError m))"
proof -
  have "totp_active w" "us_source w = LOCAL"
    using same_factor_id [OF assms(1,4,5)] assms(2,3) by (simp_all add: same_factor_def totp_active_def)
  then show "\<exists>m. begin_enrolment L rnd nonce issuer w d = (d, Inl (AuthError m))"
    "\<exists>m. confirm_enrolment L now codes salts c w d = (d, Inl (AuthError m))"
    by (simp_all add: begin_enrolment_def confirm_enrolment_def totp_active_iff)
qed

lemma keeps_out_enrol:
  assumes "holds u d" "us_source u = LOCAL" "totp_active u"
  shows "keeps_out u d (fst (login_enrol_form E t d))" "keeps_out u d (fst (login_enrol_submit E t c d))"
proof -
  note r = keeps_out_refl [OF assms(1)]
  have "keeps_out u d (fst (login_enrol_form E t d)) \<and> keeps_out u d (fst (login_enrol_submit E t c d))"
  proof (cases "ticket_user E t d")
    case None
    then show ?thesis using r by (simp add: login_enrol_form_def login_enrol_submit_def)
  next
    case (Some w)
    note w = ticket_user_in [OF Some]
    show ?thesis
    proof (cases "us_id w = us_id u")
      case True
      obtain m where m: "begin_enrolment (le_lib E) (le_rnd E) (le_nonce E) (le_issuer E) w d = (d, Inl (AuthError m))"
        using enrol_refused(1) [OF assms _ True] w by blast
      obtain n where n: "confirm_enrolment (le_lib E) (le_now E) (le_codes E) (le_salts E) c w d = (d, Inl (AuthError n))"
        using enrol_refused(2) [OF assms _ True] w by blast
      show ?thesis using Some m n r by (simp add: login_enrol_form_def login_enrol_submit_def)
    next
      case False
      obtain d2 y where b: "begin_enrolment (le_lib E) (le_rnd E) (le_nonce E) (le_issuer E) w d = (d2, y)" by force
      have "keeps_out u d d2"
        using keeps_out_factor_ops(2) [OF assms(1) False, of "le_lib E" "le_rnd E" "le_nonce E" "le_issuer E"] b by simp
      then have "keeps_out u d (fst (login_enrol_form E t d))"
        unfolding login_enrol_form_def Some option.case b prod.case by (intro keeps_out_answer) simp_all
      moreover obtain d1 x where c: "confirm_enrolment (le_lib E) (le_now E) (le_codes E) (le_salts E) c w d = (d1, x)" by force
      moreover have "keeps_out u d d1"
        using keeps_out_factor_ops(3) [OF assms(1) False, of "le_lib E" "le_now E" "le_codes E" "le_salts E" c] c by simp
      ultimately show ?thesis
        unfolding login_enrol_submit_def Some option.case c prod.case
        by (intro conjI keeps_out_answer sign_in_after [OF _ False])
    qed
  qed
  then show "keeps_out u d (fst (login_enrol_form E t d))" "keeps_out u d (fst (login_enrol_submit E t c d))" by simp_all
qed

lemma keeps_out_if: "keeps_out u d (fst a) \<Longrightarrow> keeps_out u d (fst b) \<Longrightarrow> keeps_out u d (fst (if c then a else b))"
  by simp

lemma keeps_out_callback:
  assumes "holds u d" "us_source u = LOCAL"
  shows "keeps_out u d (fst (oidc_callback E provider c state err err_text who d))"
proof -
  have r: "keeps_out u d (fst (d, x))" for x :: "auth_exc + response" using keeps_out_refl [OF assms(1)] by simp
  show ?thesis
  proof (cases who)
    case (Inl m)
    then show ?thesis unfolding oidc_callback_def Let_def Inl sum.case by (intro keeps_out_if r)
  next
    case (Inr p)
    obtain d1 x where l: "link_federated_user (le_now E) (id_email p) (id_subject p) (id_name p) (id_groups p) (provider_source provider) d = (d1, x)"
      by force
    have "provider_source provider \<noteq> LOCAL" by (simp add: provider_source_def)
    note k = keeps_out_link [OF assms this l]
    show ?thesis unfolding oidc_callback_def Let_def Inr sum.case l prod.case
      using k by (intro keeps_out_if r keeps_out_answer sign_in_after) simp_all
  qed
qed

lemma login_request_keeps_out:
  assumes "holds u d" "us_source u = LOCAL" "totp_active u"
    and "case r of Code t c \<Rightarrow> snd (check_second_factor (le_lib E) (le_now E) c u d0) \<noteq> Inr () | _ \<Rightarrow> True"
  shows "keeps_out u d (login_request_of (E, r) d)"
proof -
  have "keeps_out u d (fst (answer_login E r d))"
  proof (cases r)
    case (Enrol_form t)
    obtain d1 x where f: "login_enrol_form E t d = (d1, x)" by force
    show ?thesis using keeps_out_enrol(1) [OF assms(1-3), of E t] f by (simp add: Enrol_form split: sum.split prod.split)
  next
    case (Logout cookie)
    then show ?thesis using keeps_out_refl [OF assms(1)] keeps_out_revoke(1) [OF assms(1)]
      by (auto simp: logout_def split: option.splits)
  qed (use assms keeps_out_login keeps_out_code [of u d E _ d0] keeps_out_enrol(2) keeps_out_callback in auto)
  then show ?thesis using keeps_out_session [OF _ assms(1)] by (simp add: login_request_of_def)
qed

lemma login_run_keeps_out:
  assumes "holds u d" "us_source u = LOCAL" "totp_active u"
    and "\<forall>(E, r) \<in> set calls. case r of Code t c \<Rightarrow> snd (check_second_factor (le_lib E) (le_now E) c u d0) \<noteq> Inr () | _ \<Rightarrow> True"
  shows "keeps_out u d (login_run calls d)"
  using assms(4)
proof (induction calls rule: rev_induct)
  case Nil
  then show ?case using keeps_out_refl [OF assms(1)] by (simp add: login_run_def)
next
  case (snoc call calls)
  obtain E r where c: "call = (E, r)" by force
  have k: "keeps_out u d (login_run calls d)" using snoc by simp
  have "keeps_out u (login_run calls d) (login_request_of (E, r) (login_run calls d))"
    using login_request_keeps_out [OF keeps_out_holds [OF k] assms(2,3), where r = r and E = E and ?d0.0 = d0] snoc.prems c by simp
  then show ?case using keeps_out_trans [OF k] c by (simp add: login_run_def)
qed

text \<open>C1: no session before the second factor. An account with a password here and an authenticator switched on
  gains no session from any sequence of requests nobody is signed in for - passwords, right or wrong, forced
  enrolment, provider callbacks, half-logins replayed, signing out - as long as no code among them is one its factor
  accepts: every session open at the end was open before, and the factor is as it was.\<close>

theorem password_is_not_enough:
  assumes "users_ok d" "user_by_id uid d = Some u" "us_source u = LOCAL" "totp_active u"
    and "\<forall>(E, r) \<in> set calls. case r of Code t c \<Rightarrow> snd (check_second_factor (le_lib E) (le_now E) c u d) \<noteq> Inr () | _ \<Rightarrow> True"
  shows "live_tokens uid (login_run calls d) \<subseteq> live_tokens uid d \<and>
    (\<exists>w \<in> set (au_users (login_run calls d)). same_factor u w)"
proof -
  note u = user_by_id_in [OF assms(2)]
  have "holds u d" using assms(1) u by (auto simp: holds_def same_factor_def)
  from login_run_keeps_out [OF this assms(3-5)] show ?thesis using u by (simp add: keeps_out_def holds_def)
qed

section \<open>Examples\<close>

definition demo_env :: login_env where
  "demo_env = \<lparr>le_lib = demo_mfa, le_sha = id, le_salt = [],
     le_directory = (\<lambda>email pw. \<lparr>dv_enabled = False, dv_configured = False, dv_person = None, dv_groups = [], dv_admin_group = [], dv_user_group = []\<rparr>),
     le_local_enabled = True, le_require_totp = True, le_ttl = 3600, le_issuer = [], le_token = ''tok'', le_rnd = [], le_nonce = [],
     le_codes = (\<lambda>i. ([], [], [])), le_salts = (\<lambda>i. []), le_now = 60 * second, le_ip = None, le_agent = None\<rparr>"

theorem password_is_not_enough_witness:
  "live_tokens 1 (login_run [(demo_env, Password ''root@example.com'' ''correct horse battery''), (demo_env, Enrol_form ''1''),
     (demo_env, Enrol ''1'' ''123456''), (demo_env, Code ''1'' ''123456''), (demo_env, Logout (Some ''tok''))] demo_factor_db) = {}"
proof -
  have u: "\<exists>u. user_by_id 1 demo_factor_db = Some u \<and> us_source u = LOCAL \<and> totp_active u \<and>
      u = demo_admin\<lparr>us_totp_sealed := Some ''sealed'', us_totp_enrolled_at := Some 0, us_totp_last_counter := Some 5, us_totp_recovery := [''#abc'']\<rparr>"
    by (simp add: user_by_id_def find_row_def demo_factor_db_def demo_auth_def demo_lookup_simps totp_active_def)
  then obtain u where u: "user_by_id 1 demo_factor_db = Some u" "us_source u = LOCAL" "totp_active u"
    and row: "u = demo_admin\<lparr>us_totp_sealed := Some ''sealed'', us_totp_enrolled_at := Some 0, us_totp_last_counter := Some 5,
      us_totp_recovery := [''#abc'']\<rparr>" by blast
  have wrong: "snd (check_second_factor (le_lib demo_env) (le_now demo_env) ''123456'' u demo_factor_db) \<noteq> Inr ()"
    unfolding row by code_simp
  have "users_ok demo_factor_db" using demo_factors_ok by (simp add: factors_ok_def)
  moreover have "live_tokens 1 demo_factor_db = {}" by (simp add: live_tokens_def demo_factor_db_def demo_auth_def)
  ultimately show ?thesis using password_is_not_enough [OF _ u, of
      "[(demo_env, Password ''root@example.com'' ''correct horse battery''), (demo_env, Enrol_form ''1''),
        (demo_env, Enrol ''1'' ''123456''), (demo_env, Code ''1'' ''123456''), (demo_env, Logout (Some ''tok''))]"] wrong
    by auto
qed

text \<open>Showing the enrolment page draws a secret of its own: after one mistyped code, whose answer leads back to this
  page, the authenticator that was just set up is for a secret that is no longer the pending one.\<close>

lemma enrol_page_redraws:
  assumes "login_enrol_form E t d = (d1, Inr (rs, Some e))"
  shows "en_secret e = new_secret (le_rnd E)"
proof -
  have lift: "auth_lift z = Inr x \<Longrightarrow> z = Inr x" for z and x :: enrolment by (cases z) simp_all
  have b: "auth_lift (res_bind r f) = Inr y \<Longrightarrow> \<exists>x. f x = Inr y" for r :: "py_exc + 'x" and f and y :: enrolment
    by (cases r) (auto dest: lift)
  have s: "en_secret e = new_secret rnd" if "begin_enrolment L rnd nonce issuer w x = (y, Inr e)" for L rnd nonce issuer w x y
    using that by (auto simp: begin_enrolment_def Let_def dest!: b split: if_splits sum.splits)
  show ?thesis using assms by (auto simp: login_enrol_form_def split: option.splits prod.splits sum.splits auth_exc.splits dest: s)
qed

end
