(* ===== verification/Transfers.thy ===== *)
theory Transfers
  imports Db
begin

text \<open>
  \<open>src/c2w/sync/transfer.py\<close>: one recording from the source to the archive, its verification and the
  sidecar. The recording's row is threaded; the source is its answer to the GET of a key, the archive
  the service of \<open>S3Client\<close>. One clock reading \<open>now\<close> stands for those of a transfer, the spelling of a
  float in the sidecar is the parameter \<open>show_float\<close>. Timings and log lines are left out.

  Lemmas: the states a transfer leaves; a recording that is playable was proved to be in the archive.
\<close>

section \<open>The sidecar\<close>

definition CONTENT_TYPES :: "(string \<times> string) list" where
  "CONTENT_TYPES =
     [(''flac'', ''audio/flac''), (''mp3'', ''audio/mpeg''), (''wav'', ''audio/wav''),
      (''ogg'', ''audio/ogg''), (''opus'', ''audio/opus''), (''m4a'', ''audio/mp4'')]"

definition content_type_of :: "recording \<Rightarrow> string" where
  "content_type_of r =
     (case map_of CONTENT_TYPES (case rec_file_ext r of Some e \<Rightarrow> e | None \<Rightarrow> []) of
        Some t \<Rightarrow> t | None \<Rightarrow> ''application/octet-stream'')"

definition sidecar_payload :: "dt \<Rightarrow> recording \<Rightarrow> json \<Rightarrow> json" where
  "sidecar_payload now r cdr =
     JObj
       [(''schema'', JStr ''c2w.sidecar/1''),
        (''written_at'', JStr (isoformat now)),
        (''recording'', JObj
           [(''source_key'', JStr (rec_source_key r)),
            (''source_size'', JInt (rec_source_size r)),
            (''source_etag'', jstr (rec_source_etag r)),
            (''checksum_sha256'', jstr (rec_checksum_sha256 r)),
            (''direction'', jstr (rec_direction r)),
            (''number'', jstr (rec_number r)),
            (''extension'', jstr (rec_extension r)),
            (''started_at'', jstr (map_option isoformat (rec_started_at r))),
            (''uniqueid'', jint (rec_uniqueid r)),
            (''seq'', JInt (rec_seq r)),
            (''file_ext'', jstr (rec_file_ext r))]),
        (''correlation'', JObj
           [(''call_uuid'', jstr (rec_call_uuid r)),
            (''cdr_id'', jint (rec_cdr_id r)),
            (''method'', jstr (rec_match_method r)),
            (''confidence'', jnum (rec_match_confidence r)),
            (''ambiguous'', JBool (rec_match_ambiguous r))]),
        (''cdr'', cdr)]"

definition build_sidecar :: "(rat \<Rightarrow> string) \<Rightarrow> dt \<Rightarrow> recording \<Rightarrow> json \<Rightarrow> bytes" where
  "build_sidecar show_float now r cdr = encode_ascii (dumps show_float 1 0 (sidecar_payload now r cdr))"

text \<open>The call's row as the sidecar shows it: \<open>default=str\<close> spells its instants.\<close>

definition load_cdr :: "database \<Rightarrow> recording \<Rightarrow> json" where
  "load_cdr d r =
     (case rec_cdr_id r of
        None \<Rightarrow> JNull
      | Some i \<Rightarrow>
          (case find_row (\<lambda>c. cdr_brand_id c = rec_brand_id r \<and> cdr_id c = i) (db_cdrs d) of
             None \<Rightarrow> JNull
           | Some c \<Rightarrow> JObj
               [(''call_uuid'', JStr (cdr_call_uuid c)),
                (''call_id'', jint (cdr_call_id c)),
                (''start_at'', JStr (dt_str (cdr_start_at c))),
                (''end_at'', jstr (map_option dt_str (cdr_end_at c))),
                (''call_duration'', jint (cdr_call_duration c)),
                (''direction'', jstr (cdr_direction c)),
                (''src'', jstr (cdr_src c)),
                (''dst'', jstr (cdr_dst c)),
                (''status'', jstr (cdr_status c)),
                (''agent_extension'', jstr (cdr_agent_extension c)),
                (''agent_name'', jstr (cdr_agent_name c)),
                (''public_recording_url'', jstr (cdr_public_recording_url c)),
                (''raw'', cdr_raw c)]))"

section \<open>Comparison\<close>

definition size_error :: "int \<Rightarrow> int \<Rightarrow> transfer_error" where
  "size_error ssize dsize =
     new_transfer_error CHECKSUM_ERROR
       (''size mismatch: source '' @ show_int ssize @ '' bytes, destination '' @ show_int dsize @ '' bytes'')
       None None None"

definition digest_error :: transfer_error where
  "digest_error =
     new_transfer_error CHECKSUM_ERROR ''digest mismatch between transferred bytes and stored object metadata''
       None None None"

definition compare :: "int \<Rightarrow> object_meta \<Rightarrow> string \<Rightarrow> transfer_error option" where
  "compare ssize dest expected_digest =
     (if om_size dest \<noteq> ssize then Some (size_error ssize (om_size dest))
      else case nonempty (om_checksum_sha256 dest) of
             Some c \<Rightarrow> if c \<noteq> expected_digest then Some digest_error else None
           | None \<Rightarrow> None)"

section \<open>One transfer\<close>

record transfer_outcome =
  to_recording_id :: int
  to_bytes_transferred :: nat
  to_verified :: bool
  to_destination_key :: "string option"
  to_checksum_sha256 :: "string option"
  to_multipart :: bool
  to_sidecar_written :: bool

definition new_outcome :: "int \<Rightarrow> nat \<Rightarrow> bool \<Rightarrow> transfer_outcome" where
  "new_outcome i n v =
     \<lparr>to_recording_id = i, to_bytes_transferred = n, to_verified = v, to_destination_key = None,
      to_checksum_sha256 = None, to_multipart = False, to_sidecar_written = False\<rparr>"

text \<open>What a transfer works with. \<open>tx_get\<close> is the source's answer to the GET of a key.\<close>

record transfer_env =
  tx_get :: "string \<Rightarrow> transfer_error + stream"
  tx_service :: service
  tx_sha :: "bytes \<Rightarrow> string"
  tx_client :: s3_client
  tx_destination_id :: int
  tx_path_prefix :: string
  tx_account :: string
  tx_threshold :: nat
  tx_chunk :: nat
  tx_write_sidecar :: bool
  tx_show_float :: "rat \<Rightarrow> string"
  tx_now :: dt

definition dest_client :: "transfer_env \<Rightarrow> s3_client" where
  "dest_client env = (tx_client env)\<lparr>cl_multipart_threshold := tx_threshold env, cl_multipart_chunk := tx_chunk env\<rparr>"

definition start_transfer :: "dt \<Rightarrow> recording \<Rightarrow> recording" where
  "start_transfer now r = r\<lparr>rec_state := TRANSFERRING, rec_transfer_started_at := Some now\<rparr>"

definition archive_key :: "transfer_env \<Rightarrow> recording \<Rightarrow> string" where
  "archive_key env r = destination_key (tx_path_prefix env) (tx_account env) (rec_source_key r)"

definition text_or_empty :: "string option \<Rightarrow> string" where
  "text_or_empty v = (case v of Some s \<Rightarrow> s | None \<Rightarrow> [])"

definition upload_from :: "transfer_env \<Rightarrow> recording \<Rightarrow> stream \<Rightarrow> history \<Rightarrow>
    history \<times> (storage_exc + upload_result)" where
  "upload_from env r stream h =
     put_stream (tx_service env) (tx_sha env) (dest_client env) (archive_key env r) stream
       (Some (nat (rec_source_size r))) (Some (content_type_of r))
       [(''c2w-source-key'', take 1024 (rec_source_key r)),
        (''c2w-call-uuid'', text_or_empty (rec_call_uuid r)),
        (''c2w-match'', text_or_empty (rec_match_method r))] h"

definition buffered :: "transfer_env \<Rightarrow> recording \<Rightarrow> bool" where
  "buffered env r \<longleftrightarrow> rec_source_size r < int (tx_threshold env)"

text \<open>The stream of a GET that is read as it is uploaded: its failure is the stream's.\<close>

definition lazy_stream :: "transfer_error + stream \<Rightarrow> stream" where
  "lazy_stream g = (case g of Inl e \<Rightarrow> ([], EndExc (Classified e)) | Inr s \<Rightarrow> s)"

text \<open>The block under the source's gate, whose failures the \<open>except\<close> looks at: a small object is read
  whole, a large one is uploaded as it is read.\<close>

definition gated_copy :: "transfer_env \<Rightarrow> recording \<Rightarrow> history \<Rightarrow> history \<times> (storage_exc + bytes + upload_result)" where
  "gated_copy env r h =
     (if buffered env r
      then (h, case lazy_stream (tx_get env (rec_source_key r)) of
                 (chunks, EndOk) \<Rightarrow> Inr (Inl (concat chunks))
               | (chunks, EndExc x) \<Rightarrow> Inl x)
      else (case upload_from env r (lazy_stream (tx_get env (rec_source_key r))) h of
              (h', Inl x) \<Rightarrow> (h', Inl x)
            | (h', Inr u) \<Rightarrow> (h', Inr (Inr u))))"

definition is_not_found :: "storage_exc \<Rightarrow> bool" where
  "is_not_found x = (case x of Classified e \<Rightarrow> te_class e = NOT_FOUND | Raised _ \<Rightarrow> False)"

definition mark_missing :: "recording \<Rightarrow> recording" where
  "mark_missing r =
     r\<lparr>rec_state := MISSING_SOURCE, rec_last_error_class := Some (class_value NOT_FOUND),
       rec_last_error_detail := Some ''object no longer present at source''\<rparr>"

definition mark_uploaded :: "transfer_env \<Rightarrow> upload_result \<Rightarrow> recording \<Rightarrow> recording" where
  "mark_uploaded env u r =
     r\<lparr>rec_source_size := int (ur_size u), rec_destination_id := Some (tx_destination_id env),
       rec_destination_key := Some (archive_key env r), rec_destination_etag := Some (ur_etag u),
       rec_destination_size := Some (int (ur_size u)), rec_checksum_sha256 := Some (ur_checksum_sha256 u),
       rec_bytes_transferred := int (ur_size u), rec_state := UPLOADED,
       rec_transfer_completed_at := Some (tx_now env)\<rparr>"

definition mark_verified :: "dt \<Rightarrow> recording \<Rightarrow> recording" where
  "mark_verified now r =
     r\<lparr>rec_state := VERIFIED, rec_verified_at := Some now, rec_last_error_class := None,
       rec_last_error_detail := None\<rparr>"

definition write_sidecar :: "transfer_env \<Rightarrow> database \<Rightarrow> recording \<Rightarrow> history \<Rightarrow> history \<times> recording \<times> bool" where
  "write_sidecar env d r h =
     (if tx_write_sidecar env
      then (case put_bytes (tx_service env) (tx_sha env) (dest_client env) (sidecar_key (archive_key env r))
                   (build_sidecar (tx_show_float env) (tx_now env) r (load_cdr d r)) (Some ''application/json'') [] h of
              (h', Inr _) \<Rightarrow> (h', r\<lparr>rec_sidecar_written := True\<rparr>, True)
            | (h', Inl _) \<Rightarrow> (h', r, False))
      else (h, r, False))"

text \<open>From the uploaded object to the playable recording.\<close>

definition prove_upload :: "transfer_env \<Rightarrow> database \<Rightarrow> upload_result \<Rightarrow> recording \<Rightarrow> history \<Rightarrow>
    recording \<times> history \<times> (storage_exc + transfer_outcome)" where
  "prove_upload env d u r0 h =
     (let r = mark_uploaded env u r0
      in case head (tx_service env) (dest_client env) (archive_key env r0) h of
           (h1, Inl e) \<Rightarrow> (r, h1, Inl (Classified e))
         | (h1, Inr meta) \<Rightarrow>
             (case compare (int (ur_size u)) meta (ur_checksum_sha256 u) of
                Some e \<Rightarrow> (r, h1, Inl (Classified e))
              | None \<Rightarrow>
                  (let (h2, r2, ok) = write_sidecar env d (mark_verified (tx_now env) r) h1
                   in (r2\<lparr>rec_state := AVAILABLE\<rparr>, h2,
                       Inr \<lparr>to_recording_id = rec_id r0, to_bytes_transferred = ur_size u, to_verified = True,
                            to_destination_key = Some (archive_key env r0),
                            to_checksum_sha256 = Some (ur_checksum_sha256 u),
                            to_multipart = ur_multipart u, to_sidecar_written = ok\<rparr>))))"

definition transfer_recording :: "transfer_env \<Rightarrow> database \<Rightarrow> recording \<Rightarrow> history \<Rightarrow>
    recording \<times> history \<times> (storage_exc + transfer_outcome)" where
  "transfer_recording env d r0 h =
     (let r = start_transfer (tx_now env) r0
      in case gated_copy env r h of
           (h1, Inl x) \<Rightarrow>
             if is_not_found x then (mark_missing r, h1, Inr (new_outcome (rec_id r) 0 False))
             else (r, h1, Inl x)
         | (h1, Inr (Inr u)) \<Rightarrow> prove_upload env d u r h1
         | (h1, Inr (Inl body)) \<Rightarrow>
             (case upload_from env r ([body], EndOk) h1 of
                (h2, Inl x) \<Rightarrow> (r, h2, Inl x)
              | (h2, Inr u) \<Rightarrow> prove_upload env d u r h2))"

section \<open>Checking again\<close>

definition requeue :: "string \<Rightarrow> string \<Rightarrow> recording \<Rightarrow> recording" where
  "requeue eclass detail r =
     r\<lparr>rec_state := QUEUED, rec_last_error_class := Some eclass, rec_last_error_detail := Some detail\<rparr>"

definition verify_recording :: "service \<Rightarrow> s3_client \<Rightarrow> dt \<Rightarrow> recording \<Rightarrow> history \<Rightarrow>
    recording \<times> history \<times> (transfer_error + bool)" where
  "verify_recording svc dest now r h =
     (case nonempty (rec_destination_key r) of
        None \<Rightarrow> (r, h, Inr False)
      | Some key \<Rightarrow>
          (case head svc dest key h of
             (h1, Inl e) \<Rightarrow>
               if te_class e = NOT_FOUND
               then (requeue (class_value NOT_FOUND) ''archive object missing; re-queued for transfer'' r, h1, Inr False)
               else (r, h1, Inl e)
           | (h1, Inr meta) \<Rightarrow>
               (case compare (rec_source_size r) meta (text_or_empty (rec_checksum_sha256 r)) of
                  Some e \<Rightarrow> (requeue (class_value (te_class e)) (te_message e) r, h1, Inr False)
                | None \<Rightarrow> (r\<lparr>rec_verified_at := Some now\<rparr>, h1, Inr True))))"

section \<open>What a transfer leaves\<close>

lemma upload_from_facts:
  assumes "upload_from env r (chunks, fin) h = (h', Inr u)"
  shows "fin = EndOk" "ur_size u = length (concat chunks)" "ur_checksum_sha256 u = tx_sha env (concat chunks)"
  using assms unfolding upload_from_def
  by (auto dest: put_stream_Inr)

text \<open>The archive answered a HEAD of the key with the size and, when it keeps one, the checksum.\<close>

definition archive_agrees :: "transfer_env \<Rightarrow> string \<Rightarrow> bytes \<Rightarrow> bool" where
  "archive_agrees env key body \<longleftrightarrow>
     (\<exists>h h' meta. head (tx_service env) (dest_client env) key h = (h', Inr meta) \<and>
        om_size meta = int (length body) \<and>
        (\<forall>c. nonempty (om_checksum_sha256 meta) = Some c \<longrightarrow> c = tx_sha env body))"

definition proved_copy :: "transfer_env \<Rightarrow> bytes \<Rightarrow> recording \<Rightarrow> bool" where
  "proved_copy env body r \<longleftrightarrow>
     rec_destination_size r = Some (int (length body)) \<and> rec_source_size r = int (length body) \<and>
     rec_checksum_sha256 r = Some (tx_sha env body) \<and> rec_verified_at r = Some (tx_now env) \<and>
     (\<exists>key. rec_destination_key r = Some key \<and> archive_agrees env key body)"

lemma compare_None:
  "compare ssize meta digest = None \<longleftrightarrow>
     om_size meta = ssize \<and> (\<forall>c. nonempty (om_checksum_sha256 meta) = Some c \<longrightarrow> c = digest)"
  by (auto simp: compare_def split: option.splits)

lemma write_sidecar_keeps:
  "write_sidecar env d r h = (h', r', ok) \<Longrightarrow> r' = r \<or> r' = r\<lparr>rec_sidecar_written := True\<rparr>"
  by (auto simp: write_sidecar_def split: prod.splits sum.splits if_splits)

lemma prove_upload_Inr:
  assumes "prove_upload env d u r0 h = (r, h', Inr out)"
    and "ur_size u = length body" "ur_checksum_sha256 u = tx_sha env body"
  shows "rec_state r = AVAILABLE \<and> to_verified out \<and> to_bytes_transferred out = length body \<and> proved_copy env body r"
proof -
  let ?r = "mark_uploaded env u r0"
  obtain h1 meta where hd: "head (tx_service env) (dest_client env) (archive_key env r0) h = (h1, Inr meta)"
    using assms(1) by (auto simp: prove_upload_def Let_def split: prod.splits sum.splits)
  have cmp: "compare (int (ur_size u)) meta (ur_checksum_sha256 u) = None"
    using assms(1) hd by (auto simp: prove_upload_def Let_def split: option.splits)
  obtain h2 r2 ok where ws: "write_sidecar env d (mark_verified (tx_now env) ?r) h1 = (h2, r2, ok)"
    by (cases "write_sidecar env d (mark_verified (tx_now env) ?r) h1")
  have r: "r = r2\<lparr>rec_state := AVAILABLE\<rparr>" and out: "to_verified out" "to_bytes_transferred out = ur_size u"
    using assms(1) hd cmp ws by (auto simp: prove_upload_def Let_def)
  have "archive_agrees env (archive_key env r0) body"
    unfolding archive_agrees_def using hd cmp assms(2,3) by (auto simp: compare_None)
  then show ?thesis
    using write_sidecar_keeps [OF ws] out assms(2,3)
    by (auto simp: r proved_copy_def mark_verified_def mark_uploaded_def)
qed

lemma prove_upload_Inl:
  "prove_upload env d u r0 h = (r, h', Inl x) \<Longrightarrow> r = mark_uploaded env u r0"
  by (auto simp: prove_upload_def Let_def split: prod.splits sum.splits option.splits)

text \<open>Every way a transfer can end.\<close>

lemma transfer_cases:
  assumes "transfer_recording env d r0 h = (r, h', res)"
  obtains (missing) x h1 where "gated_copy env (start_transfer (tx_now env) r0) h = (h1, Inl x)" "is_not_found x"
      "r = mark_missing (start_transfer (tx_now env) r0)" "res = Inr (new_outcome (rec_id r0) 0 False)"
    | (unread) x where "r = start_transfer (tx_now env) r0" "res = Inl x"
    | (unproved) x u where "r = mark_uploaded env u (start_transfer (tx_now env) r0)" "res = Inl x"
    | (proved) body out where "lazy_stream (tx_get env (rec_source_key r0)) = (body, EndOk)" "res = Inr out"
      "rec_state r = AVAILABLE" "to_verified out" "to_bytes_transferred out = length (concat body)"
      "proved_copy env (concat body) r"
proof -
  let ?r = "start_transfer (tx_now env) r0"
  obtain chunks fin where g: "lazy_stream (tx_get env (rec_source_key ?r)) = (chunks, fin)"
    by (cases "lazy_stream (tx_get env (rec_source_key ?r))")
  have key: "rec_source_key ?r = rec_source_key r0" by (simp add: start_transfer_def)
  have fin: thesis if p: "prove_upload env d u ?r h2 = (r, h', res)" and body: "fin = EndOk"
      "ur_size u = length (concat chunks)" "ur_checksum_sha256 u = tx_sha env (concat chunks)" for u h2
  proof (cases res)
    case (Inl x)
    then show thesis using unproved prove_upload_Inl p by blast
  next
    case (Inr out)
    then show thesis
      using proved [of chunks out] prove_upload_Inr [OF p [unfolded Inr] body(2,3)] g key body(1) by auto
  qed
  show thesis
  proof (cases "gated_copy env ?r h")
    case (Pair h1 res1)
    show thesis
    proof (cases res1)
      case (Inl x)
      then show thesis using assms Pair missing [of h1 x] unread [of x]
        by (auto simp: transfer_recording_def Let_def start_transfer_def split: if_splits)
    next
      case (Inr y)
      show thesis
      proof (cases y)
        case (Inr u)
        have up: "upload_from env ?r (chunks, fin) h = (h1, Inr u)"
          using Pair \<open>res1 = Inr y\<close> Inr g by (auto simp: gated_copy_def split: if_splits prod.splits sum.splits stream_end.splits)
        have "prove_upload env d u ?r h1 = (r, h', res)"
          using assms Pair \<open>res1 = Inr y\<close> Inr by (simp add: transfer_recording_def Let_def)
        then show thesis using fin upload_from_facts [OF up] by blast
      next
        case (Inl body)
        have b: "fin = EndOk" "body = concat chunks" "h1 = h"
          using Pair \<open>res1 = Inr y\<close> Inl g by (auto simp: gated_copy_def split: if_splits prod.splits sum.splits stream_end.splits)
        obtain h2 up where up: "upload_from env ?r ([body], EndOk) h1 = (h2, up)"
          by (cases "upload_from env ?r ([body], EndOk) h1")
        show thesis
        proof (cases up)
          case (Inl x)
          then show thesis using assms Pair \<open>res1 = Inr y\<close> \<open>y = Inl body\<close> up unread [of x]
            by (auto simp: transfer_recording_def Let_def)
        next
          case (Inr u)
          have "prove_upload env d u ?r h2 = (r, h', res)"
            using assms Pair \<open>res1 = Inr y\<close> \<open>y = Inl body\<close> up Inr by (simp add: transfer_recording_def Let_def)
          then show thesis using fin b upload_from_facts [OF up [unfolded Inr]] by simp
        qed
      qed
    qed
  qed
qed

text \<open>C11: a transfer makes a recording playable exactly when it reports it verified, and then the source
  object was read to its end, and the archive answered for the key with the size of those bytes and, if
  it keeps a checksum, with theirs; the row carries the size, the checksum and the time of that proof.
  Whatever fails, the recording is not playable and no verification is claimed that was not there.\<close>

theorem transfer_available_iff:
  assumes "transfer_recording env d r0 h = (r, h', res)"
  shows "(rec_state r = AVAILABLE \<longleftrightarrow> (\<exists>out. res = Inr out \<and> to_verified out)) \<and>
    (rec_state r = AVAILABLE \<longrightarrow>
       (\<exists>chunks. lazy_stream (tx_get env (rec_source_key r0)) = (chunks, EndOk) \<and>
          proved_copy env (concat chunks) r)) \<and>
    (rec_state r \<noteq> AVAILABLE \<longrightarrow>
       rec_state r \<in> {TRANSFERRING, UPLOADED, MISSING_SOURCE} \<and> rec_verified_at r = rec_verified_at r0)"
  using assms
  by (cases rule: transfer_cases)
    (auto simp: mark_missing_def mark_uploaded_def start_transfer_def new_outcome_def)

lemma mark_missing_state: "rec_state (mark_missing r) = MISSING_SOURCE"
  by (simp add: mark_missing_def)

lemma prove_upload_not_missing:
  assumes "prove_upload env d u r0 h = (r, h', res)"
  shows "rec_state r \<noteq> MISSING_SOURCE"
proof (cases res)
  case (Inl x)
  then have "r = mark_uploaded env u r0" using assms prove_upload_Inl by blast
  then show ?thesis by (simp add: mark_uploaded_def)
next
  case (Inr out)
  then have "rec_state r = AVAILABLE"
    using assms by (auto simp: prove_upload_def Let_def split: prod.splits sum.splits option.splits)
  then show ?thesis by simp
qed

text \<open>When a recording is given up as gone from its source. For an object below the multipart
  threshold it is so exactly when the source's own answer was NOT_FOUND. For a larger one the
  \<open>except\<close> cannot tell the source from the archive: any NOT_FOUND of the upload counts.\<close>

theorem missing_source_iff:
  assumes "transfer_recording env d r0 h = (r, h', res)"
  shows "rec_state r = MISSING_SOURCE \<longleftrightarrow>
    (if buffered env r0
     then \<exists>chunks e. lazy_stream (tx_get env (rec_source_key r0)) = (chunks, EndExc (Classified e)) \<and> te_class e = NOT_FOUND
     else \<exists>h1 e. upload_from env (start_transfer (tx_now env) r0)
        (lazy_stream (tx_get env (rec_source_key r0))) h = (h1, Inl (Classified e)) \<and> te_class e = NOT_FOUND)"
proof -
  let ?r = "start_transfer (tx_now env) r0"
  have same: "buffered env ?r = buffered env r0" "rec_source_key ?r = rec_source_key r0" "rec_state ?r = TRANSFERRING"
    by (simp_all add: buffered_def start_transfer_def)
  have gone: "rec_state r = MISSING_SOURCE \<longleftrightarrow> (\<exists>h1 x. gated_copy env ?r h = (h1, Inl x) \<and> is_not_found x)"
    using assms same(3) prove_upload_not_missing [of env d _ ?r _ r h' res]
    by (auto simp: transfer_recording_def Let_def mark_missing_state split: prod.splits sum.splits if_splits)
  have nf: "is_not_found x \<longleftrightarrow> (\<exists>e. x = Classified e \<and> te_class e = NOT_FOUND)" for x
    by (auto simp: is_not_found_def split: storage_exc.split)
  show ?thesis
  proof (cases "buffered env r0")
    case True
    then have "(\<exists>h1 x. gated_copy env ?r h = (h1, Inl x) \<and> is_not_found x) \<longleftrightarrow>
        (\<exists>chunks x. lazy_stream (tx_get env (rec_source_key r0)) = (chunks, EndExc x) \<and> is_not_found x)"
      using same by (cases "lazy_stream (tx_get env (rec_source_key r0))"; cases "snd (lazy_stream (tx_get env (rec_source_key r0)))")
        (auto simp: gated_copy_def)
    then show ?thesis using gone True nf by auto
  next
    case False
    then have "(\<exists>h1 x. gated_copy env ?r h = (h1, Inl x) \<and> is_not_found x) \<longleftrightarrow>
        (\<exists>h1 x. upload_from env ?r (lazy_stream (tx_get env (rec_source_key r0))) h = (h1, Inl x) \<and> is_not_found x)"
      using same by (auto simp: gated_copy_def split: prod.splits sum.splits)
    then show ?thesis using gone False nf by auto
  qed
qed

lemma verify_outcome:
  assumes "verify_recording svc dest now r0 h = (r, h', res)" and "nonempty (rec_destination_key r0) = Some key"
  shows "(res = Inr True \<longleftrightarrow> (\<exists>h1 meta. head svc dest key h = (h1, Inr meta) \<and> om_size meta = rec_source_size r0 \<and>
        (\<forall>c. nonempty (om_checksum_sha256 meta) = Some c \<longrightarrow> c = text_or_empty (rec_checksum_sha256 r0)))) \<and>
    (res = Inr True \<longrightarrow> r = r0\<lparr>rec_verified_at := Some now\<rparr>) \<and>
    (res = Inr False \<longrightarrow> rec_state r = QUEUED \<and> rec_verified_at r = rec_verified_at r0 \<and>
       rec_destination_key r = rec_destination_key r0 \<and>
       rec_last_error_class r \<in> {Some (class_value NOT_FOUND), Some (class_value CHECKSUM_ERROR)}) \<and>
    (\<forall>e. res = Inl e \<longrightarrow> r = r0 \<and> te_class e \<noteq> NOT_FOUND)"
proof -
  have cls: "te_class e = CHECKSUM_ERROR" if "compare a b c = Some e" for a b c e
    using that by (auto simp: compare_def size_error_def digest_error_def new_transfer_error_def split: if_splits option.splits)
  obtain h1 ans where hd: "head svc dest key h = (h1, ans)" by (cases "head svc dest key h")
  show ?thesis
  proof (cases ans)
    case (Inl e)
    then show ?thesis using assms hd
      by (auto simp: verify_recording_def requeue_def split: if_splits)
  next
    case (Inr meta)
    show ?thesis
    proof (cases "compare (rec_source_size r0) meta (text_or_empty (rec_checksum_sha256 r0))")
      case None
      then show ?thesis using assms hd Inr compare_None [of "rec_source_size r0" meta "text_or_empty (rec_checksum_sha256 r0)"]
        by (auto simp: verify_recording_def)
    next
      case (Some e)
      then show ?thesis using assms hd Inr compare_None [of "rec_source_size r0" meta "text_or_empty (rec_checksum_sha256 r0)"] cls [OF Some]
        by (auto simp: verify_recording_def requeue_def)
    qed
  qed
qed

text \<open>Checking an archived recording again. It is reported good exactly when the archive answers for
  its key with its size and a checksum that does not disagree, and then only the time of verification
  changes. Reported bad, with a key, the recording is QUEUED with the reason, never failed, and keeps
  everything else, the time it was last verified included. An archive that cannot be asked changes
  nothing.\<close>

theorem verify_recording_outcome:
  assumes "verify_recording svc dest now r0 h = (r, h', res)" and "nonempty (rec_destination_key r0) = Some key"
  shows "(res = Inr True \<longleftrightarrow> (\<exists>h1 meta. head svc dest key h = (h1, Inr meta) \<and> om_size meta = rec_source_size r0 \<and>
        (\<forall>c. nonempty (om_checksum_sha256 meta) = Some c \<longrightarrow> c = text_or_empty (rec_checksum_sha256 r0)))) \<and>
    (res = Inr True \<longrightarrow> r = r0\<lparr>rec_verified_at := Some now\<rparr>) \<and>
    (res = Inr False \<longrightarrow> rec_state r = QUEUED \<and> rec_verified_at r = rec_verified_at r0 \<and>
       rec_destination_key r = rec_destination_key r0 \<and>
       rec_last_error_class r \<in> {Some (class_value NOT_FOUND), Some (class_value CHECKSUM_ERROR)}) \<and>
    (\<forall>e. res = Inl e \<longrightarrow> r = r0 \<and> te_class e \<noteq> NOT_FOUND)"
  by (rule verify_outcome [OF assms])

section \<open>Examples\<close>

definition blank_recording :: "int \<Rightarrow> string \<Rightarrow> int \<Rightarrow> recording" where
  "blank_recording i key sz =
     \<lparr>rec_id = i, rec_brand_id = 1, rec_connection_id = 1, rec_tenant_id = 1, rec_source_key = key,
      rec_source_size = sz, rec_source_etag = None, rec_source_last_modified = None, rec_direction = None,
      rec_number = None, rec_extension = None, rec_started_at = None, rec_uniqueid = None, rec_seq = 0,
      rec_call_group_key = None, rec_file_ext = Some ''wav'', rec_key_parsed_ok = False, rec_cdr_id = None,
      rec_call_uuid = None, rec_match_method = Some ''orphan'', rec_match_confidence = Some 0,
      rec_match_ambiguous = False, rec_correlated_at = None, rec_state = QUEUED, rec_destination_id = None,
      rec_destination_key = None, rec_destination_etag = None, rec_destination_size = None,
      rec_checksum_sha256 = None, rec_bytes_transferred = 0, rec_transfer_started_at = None,
      rec_transfer_completed_at = None, rec_verified_at = None, rec_sidecar_written = False,
      rec_source_deleted_at = None, rec_last_error_class = None, rec_last_error_detail = None\<rparr>"

text \<open>An archive that keeps what it is given, and one whose multipart uploads are gone by the first part.\<close>

definition good_archive :: service where
  "good_archive h cmd =
     (case cmd of HeadObject _ \<Rightarrow> Inr (RHead 3 None 0 None [(''c2w-sha256'', ''3'')])
      | CreateMultipart _ _ _ \<Rightarrow> Inr (RUpload ''u'') | _ \<Rightarrow> Inr (RTag (Some ''t'')))"

definition no_such_upload :: raised where
  "no_such_upload = \<lparr>ex_name = ''ClientError'', ex_text = ''gone'', ex_family = OtherFamily,
     ex_response = Some \<lparr>rs_code = Some ''NoSuchUpload'', rs_message = None, rs_status = Some 404\<rparr>\<rparr>"

definition lossy_archive :: service where
  "lossy_archive h cmd =
     (case cmd of CreateMultipart _ _ _ \<Rightarrow> Inr (RUpload ''u'') | UploadPart _ _ _ _ \<Rightarrow> Inl no_such_upload
      | _ \<Rightarrow> Inr RDone)"

definition demo_env :: "service \<Rightarrow> nat \<Rightarrow> transfer_env" where
  "demo_env svc threshold =
     \<lparr>tx_get = (\<lambda>_. Inr ([[1, 2], [3]], EndOk)), tx_service = svc, tx_sha = demo_sha,
      tx_client = \<lparr>cl_creds = demo_creds, cl_open = True, cl_multipart_threshold = 0, cl_multipart_chunk = 0\<rparr>,
      tx_destination_id = 1, tx_path_prefix = ''p'', tx_account = ''acc'', tx_threshold = threshold, tx_chunk = 1,
      tx_write_sidecar = True, tx_show_float = (\<lambda>_. ''0.0''), tx_now = 0\<rparr>"

lemma demo_transfer:
  "rec_state (fst (transfer_recording (demo_env good_archive 9) empty_db (blank_recording 1 ''k'' 3) [])) = AVAILABLE"
  by code_simp

theorem transfer_available_iff_witness:
  "\<exists>r h' res chunks. transfer_recording (demo_env good_archive 9) empty_db (blank_recording 1 ''k'' 3) [] = (r, h', res) \<and>
     rec_state r = AVAILABLE \<and> proved_copy (demo_env good_archive 9) (concat chunks) r"
proof -
  obtain r h' res where t: "transfer_recording (demo_env good_archive 9) empty_db (blank_recording 1 ''k'' 3) [] = (r, h', res)"
    by (metis surj_pair)
  then have "rec_state r = AVAILABLE" using demo_transfer by simp
  then show ?thesis using transfer_available_iff [OF t] t by blast
qed

lemma lossy_upload:
  "\<exists>h1 e. upload_from (demo_env lossy_archive 1) (start_transfer 0 (blank_recording 1 ''k'' 3))
     ([[1, 2], [3]], EndOk) [] = (h1, Inl (Classified e)) \<and> te_class e = NOT_FOUND"
  unfolding upload_from_def demo_env_def dest_client_def put_stream_def put_multipart_def unready_def demo_creds_def
    choose_part_size_def MIN_PART_SIZE_def MAX_PARTS_def Let_def lossy_archive_def multipart_body_def
    blank_recording_def start_transfer_def
  by (simp add: buffer_add_def drain.simps upload_part_def finish_upload_def Let_def no_such_upload_def
      classify_exception_def lookup_code_def CODE_MAP_def new_transfer_error_def)

text \<open>The source delivered the whole object; the archive lost the upload; the recording is given up as
  gone from its source.\<close>

theorem missing_source_iff_witness:
  "\<exists>r h' res. transfer_recording (demo_env lossy_archive 1) empty_db (blank_recording 1 ''k'' 3) [] = (r, h', res) \<and>
     tx_get (demo_env lossy_archive 1) ''k'' = Inr ([[1, 2], [3]], EndOk) \<and> rec_state r = MISSING_SOURCE"
proof -
  obtain r h' res where t: "transfer_recording (demo_env lossy_archive 1) empty_db (blank_recording 1 ''k'' 3) [] = (r, h', res)"
    by (metis surj_pair)
  have "\<not> buffered (demo_env lossy_archive 1) (blank_recording 1 ''k'' 3)"
    "lazy_stream (tx_get (demo_env lossy_archive 1) (rec_source_key (blank_recording 1 ''k'' 3))) = ([[1, 2], [3]], EndOk)"
    "tx_now (demo_env lossy_archive 1) = 0"
    by (simp_all add: buffered_def demo_env_def blank_recording_def lazy_stream_def)
  then have "rec_state r = MISSING_SOURCE" using missing_source_iff [OF t] lossy_upload by simp
  then show ?thesis using t by (simp add: demo_env_def)
qed

theorem verify_recording_outcome_witness:
  "\<exists>r h' res. verify_recording good_archive (tx_client (demo_env good_archive 9)) 7
       ((blank_recording 1 ''k'' 3)\<lparr>rec_destination_key := Some ''a'', rec_checksum_sha256 := Some ''4'', rec_verified_at := Some 5\<rparr>) []
     = (r, h', res) \<and> rec_state r = QUEUED \<and> rec_verified_at r = Some 5"
proof -
  let ?r0 = "(blank_recording 1 ''k'' 3)\<lparr>rec_destination_key := Some ''a'', rec_checksum_sha256 := Some ''4'', rec_verified_at := Some 5\<rparr>"
  let ?v = "verify_recording good_archive (tx_client (demo_env good_archive 9)) 7 ?r0 []"
  have v: "?v = (fst ?v, fst (snd ?v), snd (snd ?v))" by simp
  have "snd (snd ?v) = Inr False" by code_simp
  then have "rec_state (fst ?v) = QUEUED \<and> rec_verified_at (fst ?v) = Some 5"
    using verify_recording_outcome [OF v, of "''a''"] by (simp add: nonempty_def)
  then show ?thesis using v by blast
qed

end
