(* ===== verification/Queue.thy ===== *)
theory Queue
  imports Db "HOL-Library.Multiset" "HOL-Library.Product_Lexorder"
begin

text \<open>
  \<open>src/c2w/sync/queue.py\<close>: the job queue. Each operation is a transaction's statements on the
  database; the clock is the parameter \<open>now\<close>, the jitter of a retry the parameter \<open>jitter\<close>, and the
  rows other transactions hold locked the parameter \<open>locked\<close>. Rows of equal priority and time are
  taken in the order of their ids, one of the orders PostgreSQL may take.

  Lemmas: a claim takes the head of the queue and no locked row; the row invariant survives every
  operation; a retry's time; what an enqueue does to a job that exists.
\<close>

section \<open>Operations\<close>

definition worker_identity :: "string \<Rightarrow> int \<Rightarrow> string option \<Rightarrow> string" where
  "worker_identity host pid suffix =
     (let base = host @ '':'' @ show_int pid
      in case suffix of Some (c # cs) \<Rightarrow> base @ '':'' @ (c # cs) | _ \<Rightarrow> base)"

definition backoff_delay :: "int \<Rightarrow> int list \<Rightarrow> rat \<Rightarrow> micros" where
  "backoff_delay attempt ladder jitter =
     (if ladder = [] then 60 * second
      else (let index = min (max (attempt - 1) 0) (int (length ladder) - 1);
                base = ladder ! nat index
            in round_half_even (of_int base * jitter * of_int second)))"

definition new_job :: "int \<Rightarrow> int \<Rightarrow> int \<Rightarrow> int \<Rightarrow> int option \<Rightarrow> job_kind \<Rightarrow> int \<Rightarrow> dt \<Rightarrow> job" where
  "new_job i brand conn recid dest kind priority runat =
     \<lparr>job_id = i, job_brand_id = brand, job_connection_id = conn, job_destination_id = dest,
      job_recording_id = recid, job_kind_of = kind, job_state_of = PENDING, job_priority = priority,
      job_attempts = 0, job_next_attempt_at = runat, job_claimed_by = None, job_claimed_at = None,
      job_finished_at = None, job_error_class = None, job_error_detail = None\<rparr>"

text \<open>The row an \<open>ON CONFLICT (brand_id, recording_id, kind)\<close> meets.\<close>

definition same_work :: "int \<Rightarrow> int \<Rightarrow> job_kind \<Rightarrow> job \<Rightarrow> bool" where
  "same_work brand recid kind j \<longleftrightarrow>
     job_brand_id j = brand \<and> job_recording_id j = recid \<and> job_kind_of j = kind"

definition enqueue :: "dt \<Rightarrow> int \<Rightarrow> int \<Rightarrow> int \<Rightarrow> int option \<Rightarrow> job_kind \<Rightarrow> int \<Rightarrow> dt option \<Rightarrow>
    database \<Rightarrow> database" where
  "enqueue now brand conn recid dest kind priority run_at d =
     (if list_ex (same_work brand recid kind) (db_jobs d) then d
      else d\<lparr>db_jobs := db_jobs d @ [new_job (db_next_id d) brand conn recid dest kind priority
               (case run_at of Some t \<Rightarrow> t | None \<Rightarrow> now)],
             db_next_id := db_next_id d + 1\<rparr>)"

record claim_filter =
  cf_kinds :: "job_kind list"
  cf_brand_ids :: "int list"
  cf_connection_ids :: "int list"

text \<open>The conditions of the selection; an empty filter list adds none.\<close>

definition claimable :: "dt \<Rightarrow> claim_filter \<Rightarrow> job \<Rightarrow> bool" where
  "claimable now f j \<longleftrightarrow>
     job_state_of j = PENDING \<and> job_next_attempt_at j \<le> now \<and>
     (cf_kinds f \<noteq> [] \<longrightarrow> job_kind_of j \<in> set (cf_kinds f)) \<and>
     (cf_brand_ids f \<noteq> [] \<longrightarrow> job_brand_id j \<in> set (cf_brand_ids f)) \<and>
     (cf_connection_ids f \<noteq> [] \<longrightarrow> job_connection_id j \<in> set (cf_connection_ids f))"

definition claim_key :: "job \<Rightarrow> int \<times> dt" where
  "claim_key j = (job_priority j, job_next_attempt_at j)"

definition claimed_ids :: "dt \<Rightarrow> claim_filter \<Rightarrow> nat \<Rightarrow> int set \<Rightarrow> database \<Rightarrow> int list" where
  "claimed_ids now f limit locked d =
     map job_id (take limit (sort_key claim_key
       (filter (\<lambda>j. claimable now f j \<and> job_id j \<notin> locked) (db_jobs d))))"

definition mark_claimed :: "string \<Rightarrow> dt \<Rightarrow> job \<Rightarrow> job" where
  "mark_claimed worker now j =
     j\<lparr>job_state_of := RUNNING, job_claimed_by := Some worker, job_claimed_at := Some now,
       job_attempts := job_attempts j + 1\<rparr>"

text \<open>One open attempt per claimed job.\<close>

fun add_attempts :: "string \<Rightarrow> dt \<Rightarrow> job list \<Rightarrow> database \<Rightarrow> database" where
  "add_attempts worker now [] d = d"
| "add_attempts worker now (j # js) d =
     add_attempts worker now js
       (d\<lparr>db_attempts := db_attempts d @
            [\<lparr>att_id = db_next_id d, att_job_id = job_id j, att_brand_id = job_brand_id j,
              att_worker = Some worker, att_started_at = now, att_ended_at = None,
              att_bytes_transferred = 0, att_error_class = None, att_error_detail = None\<rparr>],
          db_next_id := db_next_id d + 1\<rparr>)"

definition claim_batch :: "dt \<Rightarrow> string \<Rightarrow> nat \<Rightarrow> claim_filter \<Rightarrow> int set \<Rightarrow> database \<Rightarrow>
    database \<times> job list" where
  "claim_batch now worker limit f locked d =
     (let ids = claimed_ids now f limit locked d
      in if ids = [] then (d, [])
         else (let d1 = d\<lparr>db_jobs := update_where (\<lambda>j. job_id j \<in> set ids) (mark_claimed worker now) (db_jobs d)\<rparr>;
                   jobs = filter (\<lambda>j. job_id j \<in> set ids) (db_jobs d1)
               in (add_attempts worker now jobs d1, jobs)))"

text \<open>The open attempt that started last; among equals the first id.\<close>

definition open_attempt :: "int \<Rightarrow> attempt list \<Rightarrow> attempt option" where
  "open_attempt i as =
     (case sort_key (\<lambda>a. - att_started_at a) (filter (\<lambda>a. att_job_id a = i \<and> att_ended_at a = None) as) of
        [] \<Rightarrow> None | a # _ \<Rightarrow> Some a)"

definition close_attempt :: "int \<Rightarrow> dt \<Rightarrow> int \<Rightarrow> string option \<Rightarrow> string option \<Rightarrow> database \<Rightarrow> database" where
  "close_attempt i ended bytes eclass detail d =
     (case open_attempt i (db_attempts d) of
        None \<Rightarrow> d
      | Some a \<Rightarrow> d\<lparr>db_attempts := update_where (\<lambda>x. att_id x = att_id a)
          (\<lambda>x. x\<lparr>att_ended_at := Some ended, att_bytes_transferred := bytes,
                 att_error_class := eclass, att_error_detail := detail\<rparr>) (db_attempts d)\<rparr>)"

definition complete_job :: "dt \<Rightarrow> job \<Rightarrow> job" where
  "complete_job now j =
     j\<lparr>job_state_of := DONE, job_finished_at := Some now, job_error_class := None, job_error_detail := None\<rparr>"

definition complete :: "dt \<Rightarrow> int \<Rightarrow> int \<Rightarrow> database \<Rightarrow> database" where
  "complete now i bytes d =
     close_attempt i now bytes None None (update_job i (complete_job now) d)"

definition will_retry :: "error_class \<Rightarrow> int \<Rightarrow> job \<Rightarrow> bool" where
  "will_retry c max_attempts j \<longleftrightarrow> retryable c \<and> job_attempts j < max_attempts"

definition fail_job :: "dt \<Rightarrow> rat \<Rightarrow> error_class \<Rightarrow> string \<Rightarrow> int \<Rightarrow> int list \<Rightarrow> job \<Rightarrow> job" where
  "fail_job now jitter c detail max_attempts ladder j =
     (let j1 = j\<lparr>job_error_class := Some (class_value c), job_error_detail := Some (take 4000 detail)\<rparr>
      in if will_retry c max_attempts j
         then j1\<lparr>job_state_of := PENDING,
                 job_next_attempt_at := now + backoff_delay (job_attempts j) ladder jitter,
                 job_claimed_by := None, job_claimed_at := None\<rparr>
         else j1\<lparr>job_state_of := JOB_FAILED, job_finished_at := Some now\<rparr>)"

definition fail :: "dt \<Rightarrow> rat \<Rightarrow> job \<Rightarrow> error_class \<Rightarrow> string \<Rightarrow> int \<Rightarrow> int list \<Rightarrow> int \<Rightarrow> database \<Rightarrow>
    database \<times> bool" where
  "fail now jitter j c detail max_attempts ladder bytes d =
     (close_attempt (job_id j) now bytes (Some (class_value c)) (Some (take 4000 detail))
        (update_job (job_id j) (fail_job now jitter c detail max_attempts ladder) d),
      will_retry c max_attempts j)"

definition release_job :: "dt \<Rightarrow> int \<Rightarrow> job \<Rightarrow> job" where
  "release_job now delay_seconds j =
     j\<lparr>job_state_of := PENDING, job_claimed_by := None, job_claimed_at := None,
       job_attempts := max (job_attempts j - 1) 0,
       job_next_attempt_at := now + delay_seconds * second\<rparr>"

definition release :: "dt \<Rightarrow> job \<Rightarrow> int \<Rightarrow> database \<Rightarrow> database" where
  "release now j delay_seconds d =
     close_attempt (job_id j) now 0 None (Some ''released'')
       (update_job (job_id j) (release_job now delay_seconds) d)"

definition lease_expired :: "dt \<Rightarrow> int \<Rightarrow> job \<Rightarrow> bool" where
  "lease_expired now lease_seconds j \<longleftrightarrow>
     job_state_of j = RUNNING \<and>
     (case job_claimed_at j of Some t \<Rightarrow> t < now - lease_seconds * second | None \<Rightarrow> False)"

definition reclaim_job :: "job \<Rightarrow> job" where
  "reclaim_job j = j\<lparr>job_state_of := PENDING, job_claimed_by := None, job_claimed_at := None\<rparr>"

definition reclaim_expired :: "dt \<Rightarrow> int \<Rightarrow> database \<Rightarrow> database \<times> nat" where
  "reclaim_expired now lease_seconds d =
     (let expired = filter (lease_expired now lease_seconds) (db_jobs d);
          d1 = d\<lparr>db_jobs := update_where (lease_expired now lease_seconds) reclaim_job (db_jobs d)\<rparr>
      in (d1\<lparr>db_recordings := update_where
               (\<lambda>r. rec_state r = TRANSFERRING \<and> rec_id r \<in> set (map job_recording_id expired))
               (\<lambda>r. r\<lparr>rec_state := QUEUED\<rparr>) (db_recordings d1)\<rparr>,
          length expired))"

definition queue_depth :: "int option \<Rightarrow> database \<Rightarrow> job_state \<Rightarrow> nat" where
  "queue_depth brand d s =
     length (filter (\<lambda>j. job_state_of j = s \<and> (case brand of None \<Rightarrow> True | Some b \<Rightarrow> job_brand_id j = b))
       (db_jobs d))"

definition pending_for_connection :: "int \<Rightarrow> database \<Rightarrow> nat" where
  "pending_for_connection conn d =
     length (filter (\<lambda>j. job_connection_id j = conn \<and> job_state_of j \<in> {PENDING, RUNNING}) (db_jobs d))"

section \<open>The head of the queue\<close>

lemma distinct_ids_filter: "distinct (map job_id js) \<Longrightarrow> distinct (map job_id (filter p js))"
  by (induction js) auto

lemma claimed_rows:
  "claimed_ids now f limit locked d =
     map job_id (take limit (filter (\<lambda>j. job_id j \<notin> locked)
       (filter (claimable now f) (sort_key claim_key (db_jobs d)))))"
proof -
  have "filter (\<lambda>j. claimable now f j \<and> job_id j \<notin> locked) (db_jobs d) =
      filter (\<lambda>j. job_id j \<notin> locked) (filter (claimable now f) (db_jobs d))"
    by (induction "db_jobs d") auto
  then show ?thesis by (simp add: claimed_ids_def filter_sort)
qed

lemma claimed_ids_sub:
  "i \<in> set (claimed_ids now f limit locked d) \<Longrightarrow>
     \<exists>j \<in> set (db_jobs d). job_id j = i \<and> claimable now f j \<and> i \<notin> locked"
  by (auto simp: claimed_rows dest!: in_set_takeD)

lemma unique_row: "distinct (map job_id js) \<Longrightarrow> j \<in> set js \<Longrightarrow> j' \<in> set js \<Longrightarrow> job_id j = job_id j' \<Longrightarrow> j = j'"
  by (simp add: distinct_map inj_on_def)

lemma drop_not_taken:
  assumes "distinct (map g xs)"
  shows "filter (\<lambda>x. g x \<notin> set (map g (take n xs))) xs = drop n xs"
  using assms
proof (induction xs arbitrary: n)
  case (Cons x xs)
  show ?case
  proof (cases n)
    case 0 then show ?thesis by simp
  next
    case (Suc m)
    have "filter (\<lambda>y. g y \<notin> set (map g (take n (x # xs)))) (x # xs)
        = filter (\<lambda>y. g y \<notin> set (map g (take m xs))) xs"
      using Cons.prems Suc by (auto intro!: filter_cong simp: image_iff)
    then show ?thesis using Cons Suc by simp
  qed
qed simp

lemma claimed_ids_split:
  assumes "distinct (map job_id (db_jobs d))"
  shows "claimed_ids now f (m + n) locked d =
    claimed_ids now f m locked d @
    claimed_ids now f n (locked \<union> set (claimed_ids now f m locked d)) d"
proof -
  define xs where "xs = filter (\<lambda>j. job_id j \<notin> locked) (filter (claimable now f) (sort_key claim_key (db_jobs d)))"
  have "mset (map job_id (sort_key claim_key (db_jobs d))) = mset (map job_id (db_jobs d))" by simp
  then have "distinct (map job_id (sort_key claim_key (db_jobs d)))"
    using assms mset_eq_imp_distinct_iff by blast
  then have dis: "distinct (map job_id xs)" unfolding xs_def by (intro distinct_ids_filter)
  have 1: "claimed_ids now f k locked d = map job_id (take k xs)" for k
    by (simp only: claimed_rows xs_def)
  have "filter (\<lambda>j. job_id j \<notin> locked \<union> set (map job_id (take m xs)))
      (filter (claimable now f) (sort_key claim_key (db_jobs d)))
      = filter (\<lambda>j. job_id j \<notin> set (map job_id (take m xs))) xs"
    unfolding xs_def by (simp only: filter_filter) (rule filter_cong, auto)
  also have "\<dots> = drop m xs" by (rule drop_not_taken [OF dis])
  finally have 2: "map job_id (take n (drop m xs)) = claimed_ids now f n (locked \<union> set (claimed_ids now f m locked d)) d"
    by (simp only: claimed_rows [of _ _ n] 1)
  have "claimed_ids now f (m + n) locked d = map job_id (take m xs) @ map job_id (take n (drop m xs))"
    by (simp only: 1 take_add map_append)
  then show ?thesis by (simp only: 1 [of m, symmetric] 2)
qed

text \<open>Who is taken, and who is passed over.\<close>

lemma claimed_ids_best:
  assumes "distinct (map job_id (db_jobs d))"
    and j: "j \<in> set (db_jobs d)" "job_id j \<in> set (claimed_ids now f limit locked d)"
    and k: "k \<in> set (db_jobs d)" "claimable now f k" "job_id k \<notin> locked"
      "job_id k \<notin> set (claimed_ids now f limit locked d)"
  shows "claim_key j \<le> claim_key k"
proof -
  define xs where "xs = sort_key claim_key (filter (\<lambda>j. claimable now f j \<and> job_id j \<notin> locked) (db_jobs d))"
  have ids: "claimed_ids now f limit locked d = map job_id (take limit xs)"
    by (simp add: claimed_ids_def xs_def)
  have srt: "sorted (map claim_key xs)" by (simp add: xs_def)
  obtain j' where j': "j' \<in> set (take limit xs)" "job_id j' = job_id j" using j ids by auto
  have "j' \<in> set (db_jobs d)" using j'(1) by (auto simp: xs_def dest!: in_set_takeD)
  then have "j' = j" using unique_row [OF assms(1) _ j(1)] j'(2) by auto
  then have jin: "j \<in> set (take limit xs)" using j'(1) by simp
  have "k \<in> set xs" using k by (simp add: xs_def)
  then have "k \<in> set (take limit xs) \<or> k \<in> set (drop limit xs)"
    by (metis Un_iff append_take_drop_id set_append)
  moreover have "k \<notin> set (take limit xs)" using k(4) ids by auto
  ultimately have kin: "k \<in> set (drop limit xs)" by blast
  have "sorted (map claim_key (take limit xs) @ map claim_key (drop limit xs))"
    using srt by (simp flip: map_append)
  then show ?thesis using jin kin by (simp add: sorted_append)
qed

lemma attempts_keep [simp]:
  "db_jobs (add_attempts worker now js d) = db_jobs d"
  "db_recordings (add_attempts worker now js d) = db_recordings d"
  by (induction js arbitrary: d) simp_all

lemma attempts_next: "db_next_id (add_attempts worker now js d) = db_next_id d + int (length js)"
  by (induction js arbitrary: d) simp_all

lemma claim_batch_jobs:
  "db_jobs (fst (claim_batch now worker limit f locked d)) =
     update_where (\<lambda>j. job_id j \<in> set (claimed_ids now f limit locked d)) (mark_claimed worker now) (db_jobs d)"
  by (auto simp: claim_batch_def Let_def update_where_def intro!: map_idI [symmetric])

lemma claim_batch_snd:
  "snd (claim_batch now worker limit f locked d) =
     map (mark_claimed worker now) (filter (\<lambda>j. job_id j \<in> set (claimed_ids now f limit locked d)) (db_jobs d))"
proof (cases "claimed_ids now f limit locked d = []")
  case False
  then show ?thesis
    by (simp add: claim_batch_def Let_def update_where_def filter_map comp_def mark_claimed_def cong: if_cong)
qed (simp add: claim_batch_def)

lemma length_filter_ids:
  assumes "distinct (map g xs)" "distinct ids" "set ids \<subseteq> set (map g xs)"
  shows "length (filter (\<lambda>x. g x \<in> set ids) xs) = length ids"
proof -
  have "length (filter (\<lambda>x. g x \<in> set ids) xs) = card (set (map g (filter (\<lambda>x. g x \<in> set ids) xs)))"
    using assms(1) by (metis distinct_card distinct_map_filter length_map)
  also have "set (map g (filter (\<lambda>x. g x \<in> set ids) xs)) = set ids" using assms(3) by auto
  finally show ?thesis using assms(2) by (simp add: distinct_card)
qed

lemma claimed_ids_distinct:
  assumes "distinct (map job_id (db_jobs d))"
  shows "distinct (claimed_ids now f limit locked d)"
proof -
  have "mset (map job_id (sort_key claim_key (db_jobs d))) = mset (map job_id (db_jobs d))" by simp
  then have "distinct (map job_id (sort_key claim_key (db_jobs d)))"
    using assms mset_eq_imp_distinct_iff by blast
  then have "distinct (map job_id (filter (\<lambda>j. job_id j \<notin> locked)
      (filter (claimable now f) (sort_key claim_key (db_jobs d)))))"
    by (intro distinct_ids_filter)
  then show ?thesis by (simp add: claimed_rows take_map [symmetric])
qed

lemma claimed_count:
  assumes "distinct (map job_id (db_jobs d))"
  shows "length (snd (claim_batch now worker limit f locked d)) = length (claimed_ids now f limit locked d)"
  unfolding claim_batch_snd length_map
  by (rule length_filter_ids [OF assms claimed_ids_distinct [OF assms]])
    (auto dest!: claimed_ids_sub)

definition mine :: "string \<Rightarrow> dt \<Rightarrow> job \<Rightarrow> bool" where
  "mine worker now j \<longleftrightarrow>
     job_state_of j = RUNNING \<and> job_claimed_by j = Some worker \<and> job_claimed_at j = Some now"

lemma passed_over:
  assumes "claim_batch now worker limit f locked d = (d', js)" "k \<in> set (db_jobs d')" "claimable now f k"
  shows "job_id k \<notin> set (claimed_ids now f limit locked d)"
proof
  assume i: "job_id k \<in> set (claimed_ids now f limit locked d)"
  obtain k0 where "k = (if job_id k0 \<in> set (claimed_ids now f limit locked d) then mark_claimed worker now k0 else k0)"
    using claim_batch_jobs [of now worker limit f locked d] assms(1,2) by (auto simp: set_update_where)
  then have "job_state_of k = RUNNING" using i by (auto simp: mark_claimed_def split: if_splits)
  then show False using assms(3) by (simp add: claimable_def)
qed

text \<open>A claim takes at most its limit and only jobs that are pending, due, within the filter and
  locked by nobody else; it takes as many as there are up to the limit; each is the worker's, with
  one more attempt; and a due job that is passed over is never ahead of one that is taken in
  (priority, time) order.\<close>

theorem claim_batch_head:
  assumes "distinct (map job_id (db_jobs d))" and "claim_batch now worker limit f locked d = (d', js)"
  shows "length js = min limit (length (filter (\<lambda>j. claimable now f j \<and> job_id j \<notin> locked) (db_jobs d))) \<and>
    (\<forall>j \<in> set js. mine worker now j \<and>
      (\<exists>j0 \<in> set (db_jobs d). claimable now f j0 \<and> job_id j0 \<notin> locked \<and>
        j = mark_claimed worker now j0 \<and> job_attempts j = job_attempts j0 + 1 \<and>
        (\<forall>k \<in> set (db_jobs d) \<inter> set (db_jobs d').
           claimable now f k \<and> job_id k \<notin> locked \<longrightarrow> claim_key j0 \<le> claim_key k)))"
  (is "?n \<and> ?all")
proof
  have js: "js = snd (claim_batch now worker limit f locked d)" "d' = fst (claim_batch now worker limit f locked d)"
    using assms(2) by simp_all
  show ?n using claimed_count [OF assms(1)] by (simp add: claimed_ids_def js)
  show ?all
  proof
    fix j assume "j \<in> set js"
    then obtain j0 where j0: "j0 \<in> set (db_jobs d)" "job_id j0 \<in> set (claimed_ids now f limit locked d)"
      and j: "j = mark_claimed worker now j0" by (auto simp: claim_batch_snd js)
    have c: "claimable now f j0 \<and> job_id j0 \<notin> locked"
      using claimed_ids_sub [OF j0(2)] unique_row [OF assms(1) _ j0(1)] by auto
    have best: "claim_key j0 \<le> claim_key k" if k: "k \<in> set (db_jobs d) \<inter> set (db_jobs d')"
        "claimable now f k \<and> job_id k \<notin> locked" for k
      using claimed_ids_best [OF assms(1) j0] k passed_over [OF assms(2)] by blast
    show "mine worker now j \<and> (\<exists>j0 \<in> set (db_jobs d). claimable now f j0 \<and> job_id j0 \<notin> locked \<and>
        j = mark_claimed worker now j0 \<and> job_attempts j = job_attempts j0 + 1 \<and>
        (\<forall>k \<in> set (db_jobs d) \<inter> set (db_jobs d').
           claimable now f k \<and> job_id k \<notin> locked \<longrightarrow> claim_key j0 \<le> claim_key k))"
      using j0(1) c j best by (auto simp: mine_def mark_claimed_def intro!: bexI [of _ j0])
  qed
qed

definition sample_job :: "int \<Rightarrow> int \<Rightarrow> dt \<Rightarrow> job" where
  "sample_job i priority due = new_job i 1 1 (100 + i) (Some 1) TRANSFER priority due"

definition sample_queue :: database where
  "sample_queue = empty_db\<lparr>db_jobs := [sample_job 1 100 5, sample_job 2 50 9, sample_job 3 100 2, sample_job 4 10 99],
     db_next_id := 5\<rparr>"

definition no_filter :: claim_filter where
  "no_filter = \<lparr>cf_kinds = [], cf_brand_ids = [], cf_connection_ids = []\<rparr>"

theorem claim_batch_head_witness:
  "map job_id (snd (claim_batch 50 ''w'' 2 no_filter {} sample_queue)) = [2, 3] \<and>
   list_all (mine ''w'' 50) (snd (claim_batch 50 ''w'' 2 no_filter {} sample_queue))"
proof -
  have d: "distinct (map job_id (db_jobs sample_queue))" by code_simp
  have v: "map job_id (snd (claim_batch 50 ''w'' 2 no_filter {} sample_queue)) = [2, 3]" by code_simp
  show ?thesis
    using claim_batch_head [OF d, of 50 "''w''" 2 no_filter "{}", OF surjective_pairing] v by (auto simp: list_all_iff)
qed

text \<open>C27: two workers. The second, whose selection skips the rows the first holds locked, takes
  exactly the jobs that follow: their two batches are disjoint and together are the head of the queue
  that one claim of both limits would take. After the first has committed, none of its jobs can be
  claimed again.\<close>

theorem claims_disjoint:
  assumes "distinct (map job_id (db_jobs d))" and "claim_batch now w m f locked d = (d1, js)"
  shows "claimed_ids now f (m + n) locked d = claimed_ids now f m locked d @
      claimed_ids now f n (locked \<union> set (map job_id js)) d \<and>
    set (map job_id js) = set (claimed_ids now f m locked d) \<and>
    set (claimed_ids now f n (locked \<union> set (map job_id js)) d) \<inter> set (map job_id js) = {} \<and>
    set (claimed_ids now' f' n' locked' d1) \<inter> set (map job_id js) = {}"
proof -
  have js: "js = map (mark_claimed w now) (filter (\<lambda>j. job_id j \<in> set (claimed_ids now f m locked d)) (db_jobs d))"
    using claim_batch_snd [of now w m f locked d] assms(2) by simp
  have ids: "set (map job_id js) = set (claimed_ids now f m locked d)"
    using claimed_ids_sub [of _ now f m locked d] by (force simp: js mark_claimed_def)
  have d1: "set (claimed_ids now' f' n' locked' d1) \<inter> set (map job_id js) = {}"
  proof (rule ccontr)
    assume "\<not> ?thesis"
    then obtain i where i: "i \<in> set (claimed_ids now' f' n' locked' d1)" "i \<in> set (claimed_ids now f m locked d)"
      using ids by auto
    obtain j where j: "j \<in> set (db_jobs d1)" "job_id j = i" "job_state_of j = PENDING"
      using claimed_ids_sub [OF i(1)] by (auto simp: claimable_def)
    obtain j0 where "j = (if job_id j0 \<in> set (claimed_ids now f m locked d) then mark_claimed w now j0 else j0)"
      using j(1) claim_batch_jobs [of now w m f locked d] assms(2) by (auto simp: set_update_where)
    then show False using i(2) j(2,3) by (auto simp: mark_claimed_def split: if_splits)
  qed
  show ?thesis
    using claimed_ids_split [OF assms(1), of now f m n locked] d1
    unfolding ids by (auto dest: claimed_ids_sub)
qed

theorem claims_disjoint_witness:
  "claimed_ids 50 no_filter 1 {} sample_queue = [2] \<and>
   claimed_ids 50 no_filter 2 {} sample_queue = [2] @ claimed_ids 50 no_filter 1 {2} sample_queue"
proof -
  have d: "distinct (map job_id (db_jobs sample_queue))" by code_simp
  have v: "map job_id (snd (claim_batch 50 ''w'' 1 no_filter {} sample_queue)) = [2]"
    "claimed_ids 50 no_filter 1 {} sample_queue = [2]" by code_simp+
  show ?thesis
    using claims_disjoint [OF d, of 50 "''w''" 1 no_filter "{}" _ _ 1, OF surjective_pairing] v
    by (simp add: numeral_2_eq_2)
qed

section \<open>The invariant of the job rows\<close>

definition job_ok :: "job \<Rightarrow> bool" where
  "job_ok j \<longleftrightarrow> 0 \<le> job_attempts j \<and>
     (case job_state_of j of
        PENDING \<Rightarrow> job_claimed_by j = None \<and> job_claimed_at j = None
      | RUNNING \<Rightarrow> job_claimed_by j \<noteq> None \<and> job_claimed_at j \<noteq> None \<and> 1 \<le> job_attempts j
      | DONE \<Rightarrow> job_finished_at j \<noteq> None \<and> job_error_class j = None
      | JOB_FAILED \<Rightarrow> job_finished_at j \<noteq> None \<and> job_error_class j \<noteq> None
      | _ \<Rightarrow> True)"

definition work_of :: "job \<Rightarrow> int \<times> int \<times> job_kind" where
  "work_of j = (job_brand_id j, job_recording_id j, job_kind_of j)"

definition queue_inv :: "database \<Rightarrow> bool" where
  "queue_inv d \<longleftrightarrow>
     distinct (map job_id (db_jobs d)) \<and> distinct (map work_of (db_jobs d)) \<and>
     (\<forall>j \<in> set (db_jobs d). job_id j < db_next_id d) \<and> (\<forall>j \<in> set (db_jobs d). job_ok j)"

datatype queue_op =
    Enqueue dt int int int "int option" job_kind int "dt option"
  | Claim dt string nat claim_filter "int set"
  | Complete dt int int
  | Fail dt rat job error_class string int "int list" int
  | Release dt job int
  | Reclaim dt int

fun queue_step :: "queue_op \<Rightarrow> database \<Rightarrow> database" where
  "queue_step (Enqueue now b c r dest kind priority run_at) d = enqueue now b c r dest kind priority run_at d"
| "queue_step (Claim now w limit f locked) d = fst (claim_batch now w limit f locked d)"
| "queue_step (Complete now i bytes) d = complete now i bytes d"
| "queue_step (Fail now jitter j c detail mx ladder bytes) d = fst (fail now jitter j c detail mx ladder bytes d)"
| "queue_step (Release now j delay) d = release now j delay d"
| "queue_step (Reclaim now lease) d = fst (reclaim_expired now lease d)"

lemma close_attempt_keep [simp]:
  "db_jobs (close_attempt i now bytes c detail d) = db_jobs d"
  "db_recordings (close_attempt i now bytes c detail d) = db_recordings d"
  "db_next_id (close_attempt i now bytes c detail d) = db_next_id d"
  by (simp_all add: close_attempt_def split: option.split)

text \<open>An update of job rows that keeps identity, and well-formedness row by row, keeps the invariant.\<close>

lemma queue_inv_update:
  assumes "queue_inv d" "db_jobs d' = update_where p f (db_jobs d)" "db_next_id d \<le> db_next_id d'"
    and "\<And>j. job_id (f j) = job_id j \<and> work_of (f j) = work_of j"
    and "\<And>j. job_ok j \<Longrightarrow> p j \<Longrightarrow> job_ok (f j)"
  shows "queue_inv d'"
proof -
  have "map job_id (db_jobs d') = map job_id (db_jobs d)" "map work_of (db_jobs d') = map work_of (db_jobs d)"
    unfolding assms(2) by (rule map_update_where, use assms(4) in simp)+
  moreover have "\<forall>j \<in> set (db_jobs d'). job_id j < db_next_id d' \<and> job_ok j"
    unfolding assms(2) using assms(1,3,4,5) by (intro update_where_forall) (fastforce simp: queue_inv_def)+
  ultimately show ?thesis using assms(1) by (simp add: queue_inv_def)
qed

lemma enqueue_keeps: "queue_inv d \<Longrightarrow> queue_inv (enqueue now b c r dest kind priority run_at d)"
proof (cases "list_ex (same_work b r kind) (db_jobs d)")
  case False
  assume "queue_inv d"
  moreover have "(b, r, kind) \<notin> set (map work_of (db_jobs d))"
    using False by (auto simp: list_ex_iff same_work_def work_of_def)
  ultimately show ?thesis using False
    by (fastforce simp: queue_inv_def enqueue_def new_job_def work_of_def job_ok_def)
qed (simp add: enqueue_def)

lemma claim_keeps: "queue_inv d \<Longrightarrow> queue_inv (fst (claim_batch now w limit f locked d))"
proof (rule queue_inv_update [OF _ claim_batch_jobs])
  show "db_next_id d \<le> db_next_id (fst (claim_batch now w limit f locked d))"
    by (simp add: claim_batch_def Let_def attempts_next)
qed (auto simp: mark_claimed_def work_of_def job_ok_def)

lemma fail_job_ok: "job_ok j \<Longrightarrow> job_ok (fail_job now jitter c detail mx ladder j)"
  by (simp add: fail_job_def Let_def job_ok_def)

lemma fail_job_ids: "job_id (fail_job now jitter c detail mx ladder j) = job_id j \<and>
    work_of (fail_job now jitter c detail mx ladder j) = work_of j"
  by (simp add: fail_job_def Let_def work_of_def)

lemma complete_keeps: "queue_inv d \<Longrightarrow> queue_inv (complete now i bytes d)"
  by (erule queue_inv_update [where p = "\<lambda>j. job_id j = i" and f = "complete_job now"])
    (auto simp: complete_def complete_job_def work_of_def job_ok_def)

lemma fail_keeps: "queue_inv d \<Longrightarrow> queue_inv (fst (fail now jitter j c detail mx ladder bytes d))"
  by (erule queue_inv_update [where p = "\<lambda>k. job_id k = job_id j" and f = "fail_job now jitter c detail mx ladder"])
    (auto simp: fail_def fail_job_ids intro: fail_job_ok)

lemma release_keeps: "queue_inv d \<Longrightarrow> queue_inv (release now j delay d)"
  by (erule queue_inv_update [where p = "\<lambda>k. job_id k = job_id j" and f = "release_job now delay"])
    (auto simp: release_def release_job_def work_of_def job_ok_def)

lemma reclaim_keeps: "queue_inv d \<Longrightarrow> queue_inv (fst (reclaim_expired now lease d))"
  by (erule queue_inv_update [where p = "lease_expired now lease" and f = reclaim_job])
    (auto simp: reclaim_expired_def reclaim_job_def Let_def work_of_def job_ok_def)

lemma queue_step_keeps: "queue_inv d \<Longrightarrow> queue_inv (queue_step p d)"
  by (cases p) (simp_all add: enqueue_keeps claim_keeps complete_keeps fail_keeps release_keeps reclaim_keeps)

interpretation queue_machine: state_machine queue_inv "\<lambda>_ _. True" queue_step
  by unfold_locales (rule queue_step_keeps)

text \<open>C23: whatever the workers, the scans and the reclaiming do to the queue and in whatever order,
  job ids stay unique, an object has at most one job of a kind, a running job has a holder, a claim
  time and a counted attempt, a pending one is held by nobody, and a finished one says when, and
  why if it failed.\<close>

theorem queue_invariant:
  "queue_inv d \<Longrightarrow> queue_inv (fold queue_step ops d)"
  by (rule queue_machine.run_inv) simp_all

theorem queue_invariant_witness:
  "queue_inv (fold queue_step
     [Enqueue 0 1 1 101 (Some 1) TRANSFER 100 None, Enqueue 0 1 1 101 (Some 1) TRANSFER 5 None,
      Claim 10 ''w'' 5 no_filter {}, Fail 20 1 (sample_job 1 100 0) RATE_LIMIT ''slow down'' 5 [30, 120] 0,
      Reclaim 99 60] empty_db)"
  by (rule queue_invariant) (simp add: queue_inv_def empty_db_def)

section \<open>Retry\<close>

definition well_laddered :: "int list \<Rightarrow> bool" where
  "well_laddered ladder \<longleftrightarrow> ladder \<noteq> [] \<and> sorted ladder \<and> 0 \<le> ladder ! 0"

lemma ladder_index:
  "ladder \<noteq> [] \<Longrightarrow> nat (min (max (k - 1) 0) (int (length ladder) - 1)) < length ladder"
  by (cases ladder) auto

text \<open>The delay of an attempt is the ladder's step for it, stretched by the jitter, and is bounded by
  the last step.\<close>

lemma backoff_bounds:
  assumes "well_laddered ladder" "4 / 5 \<le> jitter" "jitter \<le> 13 / 10"
  shows "\<exists>base \<in> set ladder. 4 * (base * second) \<le> 5 * backoff_delay k ladder jitter + 5 \<and>
    10 * backoff_delay k ladder jitter \<le> 13 * (base * second) + 10 \<and> base \<le> ladder ! (length ladder - 1) \<and>
    base = ladder ! min (nat (k - 1)) (length ladder - 1)"
proof -
  let ?i = "nat (min (max (k - 1) 0) (int (length ladder) - 1))"
  have ne: "ladder \<noteq> []" and srt: "sorted ladder" and nn: "0 \<le> ladder ! 0"
    using assms(1) by (auto simp: well_laddered_def)
  have lt: "?i < length ladder" by (rule ladder_index [OF ne])
  have i: "?i = min (nat (k - 1)) (length ladder - 1)" using ne by (cases ladder) auto
  let ?b = "ladder ! ?i"
  have mono: "ladder ! 0 \<le> ?b" using srt lt by (intro sorted_nth_mono) auto
  have mono2: "?b \<le> ladder ! (length ladder - 1)" using srt lt by (intro sorted_nth_mono) auto
  define x where "x = of_int ?b * jitter * (of_int second :: rat)"
  have del: "backoff_delay k ladder jitter = round_half_even x"
    using ne by (simp add: backoff_delay_def x_def Let_def)
  have b0: "(0::rat) \<le> of_int ?b * of_int second" using mono nn by (simp add: second_def)
  have lo: "4 / 5 * (of_int ?b * of_int second) \<le> x" and hi: "x \<le> 13 / 10 * (of_int ?b * of_int second)"
    using mult_right_mono [OF assms(2) b0] mult_right_mono [OF assms(3) b0] by (simp_all add: x_def ac_simps)
  have r: "of_int (backoff_delay k ladder jitter) \<le> x + 1 / 2" "x - 1 / 2 \<le> of_int (backoff_delay k ladder jitter)"
    unfolding del by (rule round_half_even_bounds)+
  have "(of_int (4 * (?b * second)) :: rat) \<le> of_int (5 * backoff_delay k ladder jitter + 5)"
    using lo r by simp
  moreover have "(of_int (10 * backoff_delay k ladder jitter) :: rat) \<le> of_int (13 * (?b * second) + 10)"
    using hi r by simp
  ultimately show ?thesis using lt mono2 i by (intro bexI [of _ ?b]) (simp_all only: of_int_le_iff nth_mem)
qed

lemma fail_row:
  assumes "queue_inv d" "j \<in> set (db_jobs d)"
  shows "fail_job now jitter c detail mx ladder j \<in> set (db_jobs (fst (fail now jitter j c detail mx ladder bytes d)))"
    and "k \<in> set (db_jobs d) \<Longrightarrow> job_id k \<noteq> job_id j \<Longrightarrow>
      k \<in> set (db_jobs (fst (fail now jitter j c detail mx ladder bytes d)))"
  using assms(2) by (auto simp: fail_def set_update_where)

definition pending_at :: "dt \<Rightarrow> job \<Rightarrow> bool" where
  "pending_at t j \<longleftrightarrow> job_state_of j = PENDING \<and> job_claimed_by j = None \<and> job_next_attempt_at j = t"

text \<open>C29: a failure is retried exactly when its class is retryable and attempts are left. A retried
  job is pending and free again, due after the ladder's step for this attempt stretched by the jitter
  (between 0.8 and 1.3 of it, to the microsecond); any other is failed for good, with the class
  recorded, and no claim can take it. Other jobs are untouched.\<close>

theorem fail_retries:
  assumes "queue_inv d" "j \<in> set (db_jobs d)" "well_laddered ladder" "4 / 5 \<le> jitter" "jitter \<le> 13 / 10"
    and "fail now jitter j c detail mx ladder bytes d = (d', retried)"
  shows "(retried \<longleftrightarrow> retryable c \<and> job_attempts j < mx) \<and>
    (\<exists>j' \<in> set (db_jobs d'). job_id j' = job_id j \<and> job_attempts j' = job_attempts j \<and>
       job_error_class j' = Some (class_value c) \<and>
       (if retried
        then \<exists>delay base. pending_at (now + delay) j' \<and>
          base = ladder ! min (nat (job_attempts j - 1)) (length ladder - 1) \<and>
          4 * (base * second) \<le> 5 * delay + 5 \<and> 10 * delay \<le> 13 * (base * second) + 10
        else job_state_of j' = JOB_FAILED \<and> job_finished_at j' = Some now \<and>
          (\<forall>t f. \<not> claimable t f j'))) \<and>
    (\<forall>k \<in> set (db_jobs d). job_id k \<noteq> job_id j \<longrightarrow> k \<in> set (db_jobs d'))"
proof -
  let ?j = "fail_job now jitter c detail mx ladder j"
  have d': "d' = fst (fail now jitter j c detail mx ladder bytes d)" and r: "retried = will_retry c mx j"
    using assms(6) by (auto simp: fail_def)
  have keep: "job_id ?j = job_id j \<and> job_attempts ?j = job_attempts j \<and> job_error_class ?j = Some (class_value c)"
    by (simp add: fail_job_def Let_def)
  have "if retried then pending_at (now + backoff_delay (job_attempts j) ladder jitter) ?j
      else job_state_of ?j = JOB_FAILED \<and> job_finished_at ?j = Some now"
    by (simp add: r fail_job_def Let_def pending_at_def)
  then have "if retried
        then \<exists>delay base. pending_at (now + delay) ?j \<and>
          base = ladder ! min (nat (job_attempts j - 1)) (length ladder - 1) \<and>
          4 * (base * second) \<le> 5 * delay + 5 \<and> 10 * delay \<le> 13 * (base * second) + 10
        else job_state_of ?j = JOB_FAILED \<and> job_finished_at ?j = Some now \<and> (\<forall>t f. \<not> claimable t f ?j)"
    using backoff_bounds [OF assms(3-5), of "job_attempts j"] by (cases retried) (auto simp: claimable_def)
  then show ?thesis
    using fail_row [OF assms(1,2)] keep r unfolding d' will_retry_def by blast
qed

theorem fail_retries_witness:
  "\<exists>d'. fail 1000 (11 / 10) (mark_claimed ''w'' 5 (sample_job 1 100 0)) RATE_LIMIT ''slow'' 5 [30, 120] 0
      (empty_db\<lparr>db_jobs := [mark_claimed ''w'' 5 (sample_job 1 100 0)], db_next_id := 2\<rparr>) = (d', True) \<and>
    (\<exists>j' \<in> set (db_jobs d'). job_id j' = 1)"
proof -
  let ?j = "mark_claimed ''w'' 5 (sample_job 1 100 0)"
  let ?d = "empty_db\<lparr>db_jobs := [?j], db_next_id := 2\<rparr>"
  have f: "fail 1000 (11 / 10) ?j RATE_LIMIT ''slow'' 5 [30, 120] 0 ?d =
      (fst (fail 1000 (11 / 10) ?j RATE_LIMIT ''slow'' 5 [30, 120] 0 ?d), True)"
    by (simp add: fail_def will_retry_def retryable_def RETRYABLE_def mark_claimed_def sample_job_def new_job_def)
  have "queue_inv ?d" by (simp add: queue_inv_def empty_db_def mark_claimed_def sample_job_def new_job_def job_ok_def)
  from fail_retries [OF this _ _ _ _ f] f show ?thesis
    by (auto simp: well_laddered_def mark_claimed_def sample_job_def new_job_def)
qed

text \<open>A job whose every attempt fails: claimed while it is pending, failed with the next class.\<close>

fun failing_rounds :: "int \<Rightarrow> int list \<Rightarrow> (dt \<times> rat \<times> error_class) list \<Rightarrow> job \<Rightarrow> job" where
  "failing_rounds mx ladder [] j = j"
| "failing_rounds mx ladder ((now, jitter, c) # rs) j =
     (if job_state_of j = PENDING
      then failing_rounds mx ladder rs (fail_job now jitter c ''failed'' mx ladder (mark_claimed ''w'' now j))
      else j)"

lemma failing_rounds_end:
  "job_state_of j \<noteq> PENDING \<Longrightarrow> failing_rounds mx ladder rs j = j"
  by (cases rs) auto

lemma failing_rounds_step:
  "fail_job now jitter c detail mx ladder (mark_claimed w now j) = j' \<Longrightarrow>
     job_attempts j' = job_attempts j + 1 \<and>
     (if retryable c \<and> job_attempts j + 1 < mx then job_state_of j' = PENDING else job_state_of j' = JOB_FAILED)"
  by (auto simp: fail_job_def Let_def will_retry_def mark_claimed_def)

lemma failing_rounds_bounded:
  assumes "job_state_of j = PENDING" "0 \<le> job_attempts j" "job_attempts j < mx"
    and "mx - job_attempts j \<le> int (length rs)"
  shows "job_state_of (failing_rounds mx ladder rs j) = JOB_FAILED \<and>
    job_attempts (failing_rounds mx ladder rs j) \<le> mx"
  using assms
proof (induction rs arbitrary: j)
  case (Cons r rs)
  obtain now jitter c where r: "r = (now, jitter, c)" by (cases r)
  let ?j = "fail_job now jitter c ''failed'' mx ladder (mark_claimed ''w'' now j)"
  have s: "job_attempts ?j = job_attempts j + 1 \<and>
     (if retryable c \<and> job_attempts j + 1 < mx then job_state_of ?j = PENDING else job_state_of ?j = JOB_FAILED)"
    by (rule failing_rounds_step [OF refl])
  show ?case
  proof (cases "job_state_of ?j = PENDING")
    case True
    then have "job_attempts ?j < mx" using s by (auto split: if_splits)
    then show ?thesis using Cons s True r by auto
  next
    case False
    then show ?thesis using Cons.prems s r by (auto simp: failing_rounds_end split: if_splits)
  qed
qed simp

text \<open>C31: retries end. A job whose every attempt fails, with whatever classes and delays, is failed for
  good after at most its limit of attempts.\<close>

theorem retries_bounded:
  "0 < mx \<Longrightarrow> mx \<le> int (length rs) \<Longrightarrow>
   job_state_of (failing_rounds mx ladder rs (new_job i b c r dest kind priority t)) = JOB_FAILED \<and>
   job_attempts (failing_rounds mx ladder rs (new_job i b c r dest kind priority t)) \<le> mx"
  by (rule failing_rounds_bounded) (simp_all add: new_job_def)

theorem retries_bounded_witness:
  "job_state_of (failing_rounds 2 [30] [(0, 1, RATE_LIMIT), (5, 1, RATE_LIMIT), (9, 1, RATE_LIMIT)]
     (new_job 1 1 1 1 None TRANSFER 100 0)) = JOB_FAILED"
  using retries_bounded [of 2 "[(0, 1, RATE_LIMIT), (5, 1, RATE_LIMIT), (9, 1, RATE_LIMIT)]" "[30]" 1 1 1 1 None TRANSFER 100 0]
  by simp

section \<open>Enqueueing and reclaiming\<close>

text \<open>After an enqueue the object has exactly one job of the kind; a job that existed keeps its
  row exactly, its state, its priority and its time included, so that asking again (with whatever
  priority, destination or time) changes nothing; a new job is pending and due at the time asked.\<close>

theorem enqueue_once:
  assumes "queue_inv d"
  shows "\<exists>j. filter (same_work b r kind) (db_jobs (enqueue now b c r dest kind priority run_at d)) = [j] \<and>
    (if \<exists>j0 \<in> set (db_jobs d). same_work b r kind j0
     then j \<in> set (db_jobs d) \<and> enqueue now b c r dest kind priority run_at d = d
     else pending_at (case run_at of Some t \<Rightarrow> t | None \<Rightarrow> now) j \<and> job_attempts j = 0 \<and>
       db_jobs (enqueue now b c r dest kind priority run_at d) = db_jobs d @ [j])"
proof (cases "list_ex (same_work b r kind) (db_jobs d)")
  case True
  then obtain j where j: "j \<in> set (db_jobs d)" "same_work b r kind j" by (auto simp: list_ex_iff)
  have w: "same_work b r kind k \<longleftrightarrow> work_of k = (b, r, kind)" for k by (simp add: same_work_def work_of_def)
  have "distinct (map work_of (filter (same_work b r kind) (db_jobs d)))"
    using assms by (simp add: queue_inv_def distinct_map_filter)
  moreover have "set (map work_of (filter (same_work b r kind) (db_jobs d))) = {(b, r, kind)}"
    using j by (auto simp: w)
  ultimately have "length (filter (same_work b r kind) (db_jobs d)) = 1"
    by (metis One_nat_def card.empty card_insert_disjoint distinct_card empty_iff finite.emptyI length_map)
  then have "\<exists>k. filter (same_work b r kind) (db_jobs d) = [k]" by (simp add: length_Suc_conv)
  moreover have "j \<in> set (filter (same_work b r kind) (db_jobs d))" using j by simp
  ultimately have "filter (same_work b r kind) (db_jobs d) = [j]" by fastforce
  then show ?thesis using True j by (auto simp: enqueue_def)
next
  case False
  let ?j = "new_job (db_next_id d) b c r dest kind priority (case run_at of Some t \<Rightarrow> t | None \<Rightarrow> now)"
  have no: "\<not> (\<exists>j0 \<in> set (db_jobs d). same_work b r kind j0)" using False by (simp add: list_ex_iff)
  have "enqueue now b c r dest kind priority run_at d =
      d\<lparr>db_jobs := db_jobs d @ [?j], db_next_id := db_next_id d + 1\<rparr>" using False by (simp only: enqueue_def if_False)
  moreover have "same_work b r kind ?j" "job_attempts ?j = 0"
    "pending_at (case run_at of Some t \<Rightarrow> t | None \<Rightarrow> now) ?j"
    by (simp_all add: new_job_def same_work_def pending_at_def)
  moreover have "filter (same_work b r kind) (db_jobs d) = []" using no by (auto simp: filter_empty_conv)
  ultimately show ?thesis using no by (intro exI [of _ ?j]) simp
qed

theorem enqueue_once_witness:
  "\<exists>j. filter (same_work 1 101 TRANSFER) (db_jobs (enqueue 7 1 1 101 None TRANSFER 5 None sample_queue)) = [j]"
proof -
  have "queue_inv sample_queue" by code_simp
  from enqueue_once [OF this, of 1 101 TRANSFER 7 1 None 5 None] show ?thesis by auto
qed

lemma unchanged_rows:
  "r \<in> set rows \<Longrightarrow> \<not> p r \<Longrightarrow> r \<in> set (update_where p f rows)"
  by (auto simp: set_update_where)

lemma in_expired: "i \<in> set (map job_recording_id (filter p js)) \<longleftrightarrow> (\<exists>j \<in> set js. p j \<and> job_recording_id j = i)"
  by auto

lemma reclaimed_not_expired: "\<not> lease_expired now lease (reclaim_job j)"
  by (simp add: lease_expired_def reclaim_job_def)

text \<open>Reclaiming. Exactly the running jobs whose lease is over come back, each pending, free, due
  as before and with its attempts as counted; every other job is untouched; a recording is moved from
  TRANSFERRING to QUEUED exactly if such a job is about it; and none of the leases is expired
  afterwards, so that reclaiming again at the same time changes no job.\<close>

theorem reclaim_exact:
  assumes "reclaim_expired now lease d = (d', n)"
  shows "n = length (filter (lease_expired now lease) (db_jobs d)) \<and>
    db_jobs d' = map (\<lambda>j. if lease_expired now lease j then reclaim_job j else j) (db_jobs d) \<and>
    (\<forall>j \<in> set (db_jobs d). lease_expired now lease j \<longrightarrow>
       pending_at (job_next_attempt_at j) (reclaim_job j) \<and> job_attempts (reclaim_job j) = job_attempts j) \<and>
    db_recordings d' = map (\<lambda>r. if rec_state r = TRANSFERRING \<and>
        (\<exists>j \<in> set (db_jobs d). lease_expired now lease j \<and> job_recording_id j = rec_id r)
      then r\<lparr>rec_state := QUEUED\<rparr> else r) (db_recordings d) \<and>
    db_attempts d' = db_attempts d \<and>
    (\<forall>j \<in> set (db_jobs d'). \<not> lease_expired now lease j) \<and>
    db_jobs (fst (reclaim_expired now lease d')) = db_jobs d'"
proof -
  have d': "d' = fst (reclaim_expired now lease d)" and n: "n = snd (reclaim_expired now lease d)"
    using assms by simp_all
  have jobs: "db_jobs (fst (reclaim_expired now lease e)) = update_where (lease_expired now lease) reclaim_job (db_jobs e)" for e
    by (simp add: reclaim_expired_def Let_def)
  have "\<not> lease_expired now lease (if lease_expired now lease j then reclaim_job j else j)" for j
    by (cases "lease_expired now lease j") (simp_all add: reclaimed_not_expired)
  then have done_: "\<forall>j \<in> set (db_jobs d'). \<not> lease_expired now lease j"
    unfolding d' jobs update_where_def by (auto simp: reclaimed_not_expired)
  then have "db_jobs (fst (reclaim_expired now lease d')) = db_jobs d'"
    unfolding jobs by (intro update_where_none) auto
  moreover have "db_recordings d' = map (\<lambda>r. if rec_state r = TRANSFERRING \<and>
        (\<exists>j \<in> set (db_jobs d). lease_expired now lease j \<and> job_recording_id j = rec_id r)
      then r\<lparr>rec_state := QUEUED\<rparr> else r) (db_recordings d)"
    unfolding d' reclaim_expired_def Let_def update_where_def in_expired by simp
  moreover have "db_jobs d' = map (\<lambda>j. if lease_expired now lease j then reclaim_job j else j) (db_jobs d)"
    unfolding d' jobs update_where_def ..
  moreover have "n = length (filter (lease_expired now lease) (db_jobs d))" "db_attempts d' = db_attempts d"
    by (simp_all add: n d' reclaim_expired_def Let_def)
  moreover have "pending_at (job_next_attempt_at j) (reclaim_job j) \<and> job_attempts (reclaim_job j) = job_attempts j" for j
    by (simp add: reclaim_job_def pending_at_def)
  ultimately show ?thesis using done_ by blast
qed

definition stale_queue :: database where
  "stale_queue = empty_db\<lparr>db_jobs := [mark_claimed ''w'' 5 (sample_job 1 100 0)]\<rparr>"

theorem reclaim_exact_witness:
  "snd (reclaim_expired 400000000 300 stale_queue) = 1 \<and>
   list_all (\<lambda>j. \<not> lease_expired 400000000 300 j) (db_jobs (fst (reclaim_expired 400000000 300 stale_queue)))"
proof -
  have "snd (reclaim_expired 400000000 300 stale_queue) = 1"
    by (simp add: reclaim_expired_def stale_queue_def lease_expired_def mark_claimed_def second_def Let_def
        sample_job_def new_job_def)
  then show ?thesis unfolding list_all_iff using reclaim_exact [of 400000000 300 stale_queue, OF surjective_pairing] by blast
qed

end
