(* ===== verification/Alerts.thy ===== *)
theory Alerts
  imports Errors
begin

text \<open>
  \<open>src/c2w/alerts/base.py\<close>: the dispatch of alerts with its suppression of repeats. The process-local
  table of what was sent is threaded; the clock, the SHA-256 of a key, the emoji of a severity, the
  settings and the two channels are parameters. A channel accepts, declines or raises.

  Lemmas: what is suppressed and for how long; a channel that fails never stops the others.
\<close>

section \<open>An alert\<close>

datatype severity = INFO | WARNING | CRITICAL

fun severity_value :: "severity \<Rightarrow> string" where
  "severity_value INFO = ''INFO''"
| "severity_value WARNING = ''WARNING''"
| "severity_value CRITICAL = ''CRITICAL''"

record alert =
  al_title :: string
  al_body :: string
  al_severity :: severity
  al_brand_id :: "int option"
  al_brand_name :: "string option"
  al_dedupe_key :: "string option"
  al_fields :: "(string \<times> string) list"
  al_platform_fields :: "(string \<times> string) list"
  al_system_name :: string

definition new_alert :: "string \<Rightarrow> string \<Rightarrow> severity \<Rightarrow> int option \<Rightarrow> string option \<Rightarrow> string option \<Rightarrow>
    (string \<times> string) list \<Rightarrow> alert" where
  "new_alert title body sev brand bname dedupe flds =
     \<lparr>al_title = title, al_body = body, al_severity = sev, al_brand_id = brand, al_brand_name = bname,
      al_dedupe_key = dedupe, al_fields = flds, al_platform_fields = [], al_system_name = []\<rparr>"

definition show_opt_int :: "int option \<Rightarrow> string" where
  "show_opt_int v = (case v of None \<Rightarrow> ''None'' | Some i \<Rightarrow> show_int i)"

definition alert_key :: "(string \<Rightarrow> string) \<Rightarrow> alert \<Rightarrow> string" where
  "alert_key sha a =
     take 32 (sha (case al_dedupe_key a of
       Some (c # cs) \<Rightarrow> c # cs
     | _ \<Rightarrow> severity_value (al_severity a) @ '':'' @ al_title a @ '':'' @ show_opt_int (al_brand_id a)))"

definition field_lines :: "(string \<times> string) list \<Rightarrow> string list" where
  "field_lines fs = (if fs = [] then [] else [] # map (\<lambda>(k, v). k @ '': '' @ v) fs)"

definition as_text :: "(severity \<Rightarrow> string) \<Rightarrow> bool \<Rightarrow> alert \<Rightarrow> string" where
  "as_text emoji for_platform a =
     join [CHR 0x0A]
       ([emoji (al_severity a) @ '' *'' @ al_title a @ ''*'']
        @ (if al_system_name a = [] then [] else [al_system_name a])
        @ (case al_brand_name a of Some (c # cs) \<Rightarrow> [''Brand: '' @ (c # cs)] | _ \<Rightarrow> [])
        @ (if al_body a = [] then [] else [[], al_body a])
        @ field_lines (al_fields a)
        @ (if for_platform then field_lines (al_platform_fields a) else []))"

section \<open>Dispatch\<close>

record alert_settings =
  as_enabled :: bool
  as_platform_name :: string
  as_window_seconds :: int

type_synonym last_sent = "string \<rightharpoonup> rat"
type_synonym channel = "string \<times> (alert \<Rightarrow> raised + bool)"

definition suppressed :: "alert_settings \<Rightarrow> last_sent \<Rightarrow> string \<Rightarrow> rat \<Rightarrow> bool" where
  "suppressed st table key now \<longleftrightarrow>
     0 < as_window_seconds st \<and>
     now - (case table key of Some t \<Rightarrow> t | None \<Rightarrow> 0) < of_int (as_window_seconds st)"

definition stamp :: "alert_settings \<Rightarrow> alert \<Rightarrow> alert" where
  "stamp st a = (if al_system_name a = [] then a\<lparr>al_system_name := as_platform_name st\<rparr> else a)"

definition accepting_channels :: "channel list \<Rightarrow> alert \<Rightarrow> string list" where
  "accepting_channels channels a = map fst (filter (\<lambda>(n, send). send a = Inr True) channels)"

definition dispatch :: "(string \<Rightarrow> string) \<Rightarrow> alert_settings \<Rightarrow> channel list \<Rightarrow> rat \<Rightarrow> last_sent \<Rightarrow> alert \<Rightarrow>
    last_sent \<times> string list" where
  "dispatch sha st channels now table a =
     (if \<not> as_enabled st then (table, [])
      else (let a' = stamp st a; key = alert_key sha a'
            in if suppressed st table key now then (table, [])
               else (let sent = accepting_channels channels a'
                     in (if sent = [] then table else table(key \<mapsto> now), sent))))"

fun dispatch_all :: "(string \<Rightarrow> string) \<Rightarrow> alert_settings \<Rightarrow> channel list \<Rightarrow> (rat \<times> alert) list \<Rightarrow> last_sent \<Rightarrow>
    last_sent \<times> (rat \<times> string list) list" where
  "dispatch_all sha st channels [] table = (table, [])"
| "dispatch_all sha st channels ((now, a) # rest) table =
     (let (table', sent) = dispatch sha st channels now table a;
          (table'', outs) = dispatch_all sha st channels rest table'
      in (table'', (now, sent) # outs))"

definition reset_dedupe_cache :: last_sent where
  "reset_dedupe_cache = Map.empty"

section \<open>Suppression\<close>

lemma alert_key_stamp [simp]: "alert_key sha (stamp st a) = alert_key sha a"
  by (cases "al_dedupe_key a"; cases "the (al_dedupe_key a)") (simp_all add: alert_key_def stamp_def)

text \<open>The times at which copies of one alert got out, the last one remembered first.\<close>

definition sent_times :: "(rat \<times> string list) list \<Rightarrow> rat list" where
  "sent_times outs = map fst (filter (\<lambda>(t, sent). sent \<noteq> []) outs)"

definition remembered :: "last_sent \<Rightarrow> string \<Rightarrow> rat list" where
  "remembered table key = (case table key of None \<Rightarrow> [] | Some t \<Rightarrow> [t])"

definition apart :: "int \<Rightarrow> rat list \<Rightarrow> bool" where
  "apart w ts \<longleftrightarrow> sorted_wrt (\<lambda>t u. of_int w \<le> u - t) ts"

lemma apart_Cons: "apart w (t # ts) \<longleftrightarrow> (\<forall>u \<in> set ts. of_int w \<le> u - t) \<and> apart w ts"
  by (simp add: apart_def)

lemma dispatch_sent:
  assumes "dispatch sha st channels now table a = (table', sent)" "alert_key sha a = key" "0 < as_window_seconds st"
  shows "if sent = [] then table' = table
     else table' key = Some now \<and> (\<forall>t \<in> set (remembered table key). of_int (as_window_seconds st) \<le> now - t)"
  using assms by (auto simp: dispatch_def Let_def suppressed_def remembered_def split: if_splits option.splits)

lemma storm_apart:
  assumes "\<forall>(t, b) \<in> set as. alert_key sha b = key" "0 < as_window_seconds st"
  shows "apart (as_window_seconds st) (remembered table key @ sent_times (snd (dispatch_all sha st channels as table)))"
  using assms
proof (induction "as" arbitrary: table)
  case Nil
  then show ?case by (simp add: sent_times_def apart_def remembered_def split: option.split)
next
  case (Cons x as)
  obtain now a where x: "x = (now, a)" by (cases x)
  obtain table' sent where d: "dispatch sha st channels now table a = (table', sent)"
    by (cases "dispatch sha st channels now table a")
  let ?more = "sent_times (snd (dispatch_all sha st channels as table'))"
  have rest: "sent_times (snd (dispatch_all sha st channels (x # as) table)) = (if sent = [] then [] else [now]) @ ?more"
    by (simp add: x d sent_times_def Let_def split: prod.split)
  have s: "if sent = [] then table' = table
     else table' key = Some now \<and> (\<forall>t \<in> set (remembered table key). of_int (as_window_seconds st) \<le> now - t)"
    using dispatch_sent [OF d] Cons.prems x by auto
  have ih: "apart (as_window_seconds st) (remembered table' key @ ?more)"
    using Cons by auto
  show ?case
  proof (cases "sent = []")
    case True
    then show ?thesis using s ih rest by simp
  next
    case False
    have far: "apart (as_window_seconds st) (now # ?more)" using False s ih by (simp add: remembered_def)
    show ?thesis
    proof (cases "table key")
      case None
      then show ?thesis using far False rest by (simp add: remembered_def)
    next
      case (Some t)
      have "of_int (as_window_seconds st) \<le> now - t" using s False Some by (simp add: remembered_def)
      moreover have "(0::rat) \<le> of_int (as_window_seconds st)" using Cons.prems(2) by simp
      ultimately show ?thesis using far False rest Some by (fastforce simp: remembered_def apart_Cons)
    qed
  qed
qed

text \<open>A storm of one alert, however many copies at whatever times, gets out at times a whole window
  apart, whatever the channels answer, raise or decline; a copy no channel took does not count as sent,
  and a copy is held back only within the window of the last one that got out or, for an alert that was
  never sent, within the first window of the clock.\<close>

theorem alert_storm:
  assumes "\<forall>(t, b) \<in> set as. alert_key sha b = key" "0 < as_window_seconds st" "as_enabled st"
  shows "apart (as_window_seconds st) (sent_times (snd (dispatch_all sha st channels as table))) \<and>
    (\<forall>now a. alert_key sha a = key \<and> accepting_channels channels (stamp st a) \<noteq> [] \<longrightarrow>
       (snd (dispatch sha st channels now table a) = [] \<longleftrightarrow>
        now - (case table key of Some t \<Rightarrow> t | None \<Rightarrow> 0) < of_int (as_window_seconds st)))"
proof -
  have "apart (as_window_seconds st) (remembered table key @ sent_times (snd (dispatch_all sha st channels as table)))"
    by (rule storm_apart [OF assms(1,2)])
  then have "apart (as_window_seconds st) (sent_times (snd (dispatch_all sha st channels as table)))"
    by (auto simp: remembered_def apart_Cons split: option.splits)
  then show ?thesis using assms(2,3) by (auto simp: dispatch_def Let_def suppressed_def)
qed

theorem alert_storm_witness:
  "apart 300 (sent_times (snd (dispatch_all id \<lparr>as_enabled = True, as_platform_name = ''c2w'', as_window_seconds = 300\<rparr>
      [(''slack'', \<lambda>_. Inr True)]
      [(400, new_alert ''t'' ''b'' WARNING None None (Some ''k'') []), (500, new_alert ''t'' ''b'' WARNING None None (Some ''k'') []),
       (800, new_alert ''t'' ''b'' WARNING None None (Some ''k'') [])] Map.empty)))"
  using alert_storm [of "[(400, new_alert ''t'' ''b'' WARNING None None (Some ''k'') []), (500, new_alert ''t'' ''b'' WARNING None None (Some ''k'') []),
       (800, new_alert ''t'' ''b'' WARNING None None (Some ''k'') [])]" id "''k''"
     "\<lparr>as_enabled = True, as_platform_name = ''c2w'', as_window_seconds = 300\<rparr>" "[(''slack'', \<lambda>_. Inr True)]" Map.empty]
  by (simp add: alert_key_def new_alert_def)

end
