(* ===== verification/Worker.thy ===== *)
theory Worker
  imports Transfers Queue Alerts
begin

text \<open>
  \<open>src/c2w/workers/worker.py\<close>: the transfer worker. Its own state is the rotation counter, the run of
  failures of each account and the cache of open clients; a job is run in one transaction on the
  database. The alerts it raises are collected; \<open>Alerts\<close> says what becomes of them. Brands, tenants and
  destinations are looked up in tables that are parameters, and the coroutines of a pass run one after
  the other.

  Lemmas: a job that was run and its recording agree; when an account is taken out of service; the
  rotation serves every account; no client is closed while a job may hold it.
\<close>

section \<open>State\<close>

type_synonym client_key = "string \<times> int \<times> dt"

record 'c worker =
  wk_pass :: nat
  wk_failures :: "int \<rightharpoonup> nat"
  wk_clients :: "(client_key \<times> 'c) list"
  wk_retired :: "'c list"

definition new_worker :: "'c worker" where
  "new_worker = \<lparr>wk_pass = 0, wk_failures = Map.empty, wk_clients = [], wk_retired = []\<rparr>"

definition IDLE_SLEEP_SECONDS :: int where "IDLE_SLEEP_SECONDS = 5"
definition DISABLED_SLEEP_SECONDS :: int where "DISABLED_SLEEP_SECONDS = 30"
definition SOURCE_PIPELINE_DEPTH :: nat where "SOURCE_PIPELINE_DEPTH = 6"

definition pool_gate :: "int \<Rightarrow> int" where
  "pool_gate capacity = max 1 (capacity - 2)"

section \<open>Clients\<close>

definition retire :: "'c \<Rightarrow> 'c worker \<Rightarrow> 'c worker" where
  "retire c w = w\<lparr>wk_retired := wk_retired w @ [c]\<rparr>"

definition drop_clients :: "(client_key \<Rightarrow> bool) \<Rightarrow> 'c worker \<Rightarrow> 'c worker" where
  "drop_clients p w =
     w\<lparr>wk_clients := filter (\<lambda>(k, c). \<not> p k) (wk_clients w),
       wk_retired := wk_retired w @ map snd (filter (\<lambda>(k, c). p k) (wk_clients w))\<rparr>"

text \<open>The open client of a row, made by \<open>opener\<close> when there is none for its version.\<close>

definition client_for :: "string \<Rightarrow> int \<Rightarrow> dt \<Rightarrow> (transfer_error + 'c) \<Rightarrow> 'c worker \<Rightarrow>
    'c worker \<times> (transfer_error + 'c)" where
  "client_for kind i updated_at opener w =
     (case map_of (wk_clients w) (kind, i, updated_at) of
        Some c \<Rightarrow> (w, Inr c)
      | None \<Rightarrow>
          (let w1 = drop_clients (\<lambda>(k, j, _). k = kind \<and> j = i) w
           in case opener of
                Inl e \<Rightarrow> (w1, Inl e)
              | Inr c \<Rightarrow> (w1\<lparr>wk_clients := wk_clients w1 @ [((kind, i, updated_at), c)]\<rparr>, Inr c)))"

definition evict_clients :: "int list \<Rightarrow> 'c worker \<Rightarrow> 'c worker" where
  "evict_clients ids w = drop_clients (\<lambda>(_, i, _). i \<in> set ids) w"

text \<open>Closing: what was retired is returned closed.\<close>

definition close_retired :: "'c worker \<Rightarrow> 'c worker \<times> 'c list" where
  "close_retired w = (w\<lparr>wk_retired := []\<rparr>, wk_retired w)"

definition close_clients :: "'c worker \<Rightarrow> 'c worker \<times> 'c list" where
  "close_clients w = close_retired (drop_clients (\<lambda>_. True) w)"

section \<open>Accounts\<close>

definition has_runnable :: "dt \<Rightarrow> database \<Rightarrow> connection \<Rightarrow> bool" where
  "has_runnable now d c \<longleftrightarrow>
     list_ex (\<lambda>j. job_connection_id j = con_id c \<and> job_state_of j = PENDING \<and> job_next_attempt_at j \<le> now) (db_jobs d)"

definition in_service :: "connection \<Rightarrow> bool" where
  "in_service c \<longleftrightarrow> con_is_enabled c \<and> con_status c \<noteq> CONN_ERROR"

definition rotate_by :: "nat \<Rightarrow> 'a list \<Rightarrow> 'a list" where
  "rotate_by n ids = (let offset = n mod length ids in drop offset ids @ take offset ids)"

definition connections_with_work :: "dt \<Rightarrow> database \<Rightarrow> 'c worker \<Rightarrow> 'c worker \<times> int list" where
  "connections_with_work now d w =
     (let ids = map con_id (sort_key con_id (filter (\<lambda>c. in_service c \<and> has_runnable now d c) (db_connections d)))
      in if ids = [] then (w, [])
         else (let w1 = w\<lparr>wk_pass := wk_pass w + 1\<rparr> in (w1, rotate_by (wk_pass w1) ids)))"

definition disable_account :: "connection \<Rightarrow> string option \<Rightarrow> transfer_error \<Rightarrow> database \<Rightarrow> 'c worker \<Rightarrow>
    database \<times> 'c worker \<times> alert list" where
  "disable_account con brand_name e d w =
     (if con_status con = CONN_ERROR then (d, w, [])
      else (update_connection (con_id con)
              (\<lambda>c. c\<lparr>con_status := CONN_ERROR, con_status_detail := Some (take 500 (te_str e))\<rparr>) d,
            evict_clients [con_id con] w,
            [new_alert (''CommPeak account paused: '' @ con_name con)
               (con_name con @ '' has been taken out of service after repeated failures.'' @ [CHR 0x0A, CHR 0x0A]
                @ take 300 (te_str e) @ [CHR 0x0A, CHR 0x0A]
                @ ''Nothing is being claimed for it, which is deliberate: retrying into a refusal is what keeps a block in place. ''
                @ ''The scheduler re-probes it on a timer and will put it back in service on the first success, with another message.'')
               CRITICAL (Some (con_brand_id con)) brand_name
               (Some (''commpeak-paused:'' @ show_int (con_id con)))
               [(''Account'', con_name con), (''Bucket'', con_s3_bucket con), (''Cause'', class_value (te_class e))]]))"

definition refusal :: "transfer_error \<Rightarrow> bool" where
  "refusal e \<longleftrightarrow> te_class e \<in> {ACL_ERROR, AUTH_ERROR}"

definition note_failure :: "nat \<Rightarrow> connection \<Rightarrow> string option \<Rightarrow> transfer_error \<Rightarrow> database \<Rightarrow> 'c worker \<Rightarrow>
    database \<times> 'c worker \<times> alert list" where
  "note_failure limit con brand_name e d w =
     (if refusal e then (d, w, [])
      else (let seen = (case wk_failures w (con_id con) of Some n \<Rightarrow> n | None \<Rightarrow> 0) + 1;
                w1 = w\<lparr>wk_failures := (wk_failures w)(con_id con \<mapsto> seen)\<rparr>
            in if seen < limit then (d, w1, [])
               else (let (d1, w2, as) = disable_account con brand_name e d w1
                     in (d1, w2\<lparr>wk_failures := (wk_failures w2)(con_id con := None)\<rparr>, as))))"

section \<open>One job\<close>

record job_settings =
  st_max_attempts :: int
  st_ladder :: "int list"
  st_failure_limit :: nat

record destination_info =
  di_id :: int
  di_name :: string
  di_is_enabled :: bool
  di_path_prefix :: string

record lookup_tables =
  lk_destinations :: "destination_info list"
  lk_brands :: "(int \<times> string) list"
  lk_tenants :: "int list"

datatype context_result =
    Context recording connection destination_info string
  | LookupFailed string
  | NoBrand

definition truthy_id :: "int option \<Rightarrow> int option" where
  "truthy_id v = (case v of Some i \<Rightarrow> if i = 0 then None else Some i | None \<Rightarrow> None)"

definition first_id :: "int option \<Rightarrow> int option \<Rightarrow> int option \<Rightarrow> int option" where
  "first_id a b c =
     (case truthy_id a of Some i \<Rightarrow> Some i | None \<Rightarrow> (case truthy_id b of Some i \<Rightarrow> Some i | None \<Rightarrow> c))"

definition load_context :: "lookup_tables \<Rightarrow> database \<Rightarrow> job \<Rightarrow> context_result" where
  "load_context tabs d j =
     (case find_row (\<lambda>r. rec_brand_id r = job_brand_id j \<and> rec_id r = job_recording_id j) (db_recordings d) of
        None \<Rightarrow> LookupFailed (''recording '' @ show_int (job_recording_id j) @ '' no longer exists'')
      | Some r \<Rightarrow>
     (case find_row (\<lambda>c. con_id c = job_connection_id j) (db_connections d) of
        None \<Rightarrow> LookupFailed (''connection '' @ show_int (job_connection_id j) @ '' no longer exists'')
      | Some con \<Rightarrow>
     (case find_row (\<lambda>x. Some (di_id x) = first_id (job_destination_id j) (rec_destination_id r) (con_destination_id con))
             (lk_destinations tabs) of
        None \<Rightarrow> LookupFailed ''no archive destination is configured for this recording''
      | Some dest \<Rightarrow>
          if \<not> di_is_enabled dest then LookupFailed (''destination '' @ di_name dest @ '' is disabled'')
          else (case map_of (lk_brands tabs) (job_brand_id j) of
                  None \<Rightarrow> NoBrand
                | Some brand \<Rightarrow>
                    if rec_tenant_id r \<notin> set (lk_tenants tabs)
                    then LookupFailed (''tenant '' @ show_int (rec_tenant_id r) @ '' no longer exists'')
                    else Context r con dest brand))))"

definition lookup_error :: "string \<Rightarrow> raised" where
  "lookup_error msg = \<lparr>ex_name = ''LookupError'', ex_text = msg, ex_family = OtherFamily, ex_response = None\<rparr>"

text \<open>The work of a job: the clients, then the transfer; \<open>env_of\<close> is the transfer's environment, and
  \<open>opened\<close> the failure of opening a client, if one fails.\<close>

definition attempt_transfer :: "(recording \<Rightarrow> connection \<Rightarrow> destination_info \<Rightarrow> transfer_env) \<Rightarrow>
    transfer_error option \<Rightarrow> database \<Rightarrow> recording \<Rightarrow> connection \<Rightarrow> destination_info \<Rightarrow> history \<Rightarrow>
    recording \<times> history \<times> (storage_exc + transfer_outcome)" where
  "attempt_transfer env_of opened d r con dest h =
     (case opened of
        Some e \<Rightarrow> (r, h, Inl (Classified e))
      | None \<Rightarrow>
          transfer_recording
            ((env_of r con dest)\<lparr>tx_account := con_name con, tx_path_prefix := di_path_prefix dest,
               tx_destination_id := di_id dest\<rparr>) d r h)"

definition note_on_recording :: "transfer_error \<Rightarrow> recording \<Rightarrow> recording" where
  "note_on_recording e r =
     r\<lparr>rec_state := QUEUED, rec_last_error_class := Some (class_value (te_class e)),
       rec_last_error_detail := Some (take 4000 (te_message e))\<rparr>"

definition failure_alert :: "transfer_error \<Rightarrow> connection \<Rightarrow> string \<Rightarrow> alert list" where
  "failure_alert e con brand =
     (if alert_immediately (te_class e)
      then [new_alert (class_value (te_class e) @ '' on '' @ con_name con) (te_message e) CRITICAL
              (Some (con_brand_id con)) (Some brand)
              (Some (class_value (te_class e) @ '':'' @ show_int (con_id con)))
              ([(''Connection'', con_name con), (''Bucket'', con_s3_bucket con)] @ (case nonempty (te_hint e) of Some x \<Rightarrow> [(''Fix'', x)] | None \<Rightarrow> []))]
      else [])"

definition job_failed :: "job_settings \<Rightarrow> dt \<Rightarrow> rat \<Rightarrow> job \<Rightarrow> recording \<Rightarrow> connection \<Rightarrow> destination_info \<Rightarrow>
    string \<Rightarrow> string option \<Rightarrow> transfer_error \<Rightarrow> database \<Rightarrow> 'c worker \<Rightarrow> database \<times> 'c worker \<times> alert list" where
  "job_failed st now jitter j r con dest brand owner e d w =
     (let (d1, w1, as1) = note_failure (st_failure_limit st) con owner e d w;
          con1 = (case find_row (\<lambda>c. con_id c = con_id con) (db_connections d1) of Some c \<Rightarrow> c | None \<Rightarrow> con);
          (d2, w2, as2) = (if refusal e then disable_account con1 owner e d1 w1 else (d1, w1, []));
          w3 = (if te_class e \<in> {NETWORK_ERROR, AUTH_ERROR} then evict_clients [con_id con, di_id dest] w2 else w2);
          (d3, retrying) = fail now jitter j (te_class e) (te_str e) (st_max_attempts st) (st_ladder st) 0 d2;
          r1 = note_on_recording e r;
          r2 = (if retrying then r1 else r1\<lparr>rec_state := REC_FAILED\<rparr>)
      in (update_recording (rec_id r) (\<lambda>_. r2) d3, w3, as1 @ as2 @ failure_alert e con brand))"

definition job_done :: "dt \<Rightarrow> job \<Rightarrow> recording \<Rightarrow> connection \<Rightarrow> transfer_outcome \<Rightarrow> database \<Rightarrow> 'c worker \<Rightarrow>
    database \<times> 'c worker \<times> alert list" where
  "job_done now j r con out d w =
     (complete now (job_id j) (int (to_bytes_transferred out)) (update_recording (rec_id r) (\<lambda>_. r) d),
      w\<lparr>wk_failures := (wk_failures w)(con_id con := None)\<rparr>, [])"

definition run_job :: "(recording \<Rightarrow> connection \<Rightarrow> destination_info \<Rightarrow> transfer_env) \<Rightarrow> transfer_error option \<Rightarrow>
    lookup_tables \<Rightarrow> job_settings \<Rightarrow> dt \<Rightarrow> rat \<Rightarrow> int \<Rightarrow> history \<Rightarrow> database \<Rightarrow> 'c worker \<Rightarrow>
    (database \<times> 'c worker \<times> alert list) option" where
  "run_job env_of opened tabs st now jitter i h d w =
     (case find_row (\<lambda>j. job_id j = i) (db_jobs d) of
        None \<Rightarrow> Some (d, w, [])
      | Some j \<Rightarrow>
          if job_state_of j \<noteq> RUNNING then Some (d, w, [])
          else (case load_context tabs d j of
                  NoBrand \<Rightarrow> None
                | LookupFailed msg \<Rightarrow>
                    Some (fst (fail now jitter j (te_class (classify_exception (Raised (lookup_error msg)))) msg
                                 (st_max_attempts st) (st_ladder st) 0 d), w, [])
                | Context r con dest brand \<Rightarrow>
                    (case attempt_transfer env_of opened d r con dest h of
                       (r1, h1, Inr out) \<Rightarrow> Some (job_done now j r1 con out d w)
                     | (r1, h1, Inl x) \<Rightarrow>
                         Some (job_failed st now jitter j r1 con dest brand (map_of (lk_brands tabs) (con_brand_id con))
                                 (classify_exception x) d w))))"

section \<open>A pass\<close>

record pass_settings =
  ps_enabled :: bool
  ps_lease_seconds :: int
  ps_claim_batch :: int
  ps_concurrency_global :: int
  ps_per_connection :: int

definition claim_share :: "pass_settings \<Rightarrow> nat \<Rightarrow> int" where
  "claim_share ps n =
     max (ps_per_connection ps * 2) (min (ps_claim_batch ps) (ps_concurrency_global ps) div max 1 (int n))"

fun claim_accounts :: "dt \<Rightarrow> string \<Rightarrow> int \<Rightarrow> int \<Rightarrow> int list \<Rightarrow> job list \<Rightarrow> database \<Rightarrow> database \<times> job list" where
  "claim_accounts now worker share ceil [] jobs d = (d, jobs)"
| "claim_accounts now worker share ceil (c # cs) jobs d =
     (if ceil \<le> int (length jobs) then (d, jobs)
      else (let (d1, got) = claim_batch now worker (nat share)
                  \<lparr>cf_kinds = [TRANSFER], cf_brand_ids = [], cf_connection_ids = [c]\<rparr> {} d
            in claim_accounts now worker share ceil cs (jobs @ got) d1))"

definition claim_pass :: "pass_settings \<Rightarrow> dt \<Rightarrow> string \<Rightarrow> database \<Rightarrow> 'c worker \<Rightarrow> database \<times> 'c worker \<times> job list" where
  "claim_pass ps now identity d w =
     (let d1 = fst (reclaim_expired now (ps_lease_seconds ps) d);
          (w1, accounts) = connections_with_work now d1 w;
          ceil = min (ps_claim_batch ps) (ps_concurrency_global ps);
          (d2, jobs) = claim_accounts now identity (claim_share ps (length accounts)) ceil accounts [] d1
      in (d2, w1, jobs))"

fun run_jobs :: "(int \<Rightarrow> history \<Rightarrow> database \<Rightarrow> 'c worker \<Rightarrow> (database \<times> 'c worker \<times> alert list) option) \<Rightarrow>
    (int \<times> history) list \<Rightarrow> database \<Rightarrow> 'c worker \<Rightarrow> bool \<times> database \<times> 'c worker \<times> alert list" where
  "run_jobs run [] d w = (False, d, w, [])"
| "run_jobs run ((i, h) # js) d w =
     (case run i h d w of
        None \<Rightarrow> (let (_, d2, w2, as2) = run_jobs run js d w in (True, d2, w2, as2))
      | Some (d1, w1, as1) \<Rightarrow> (let (raised, d2, w2, as2) = run_jobs run js d1 w1 in (raised, d2, w2, as1 @ as2)))"

text \<open>The pass: how long it sleeps after, and the clients it closed. When the coroutine of a job raised, so
  does the pass, before it closes anything.\<close>

definition tick :: "(int \<Rightarrow> history \<Rightarrow> database \<Rightarrow> 'c worker \<Rightarrow> (database \<times> 'c worker \<times> alert list) option) \<Rightarrow>
    pass_settings \<Rightarrow> dt \<Rightarrow> string \<Rightarrow> (int \<Rightarrow> history) \<Rightarrow> database \<Rightarrow> 'c worker \<Rightarrow>
    database \<times> 'c worker \<times> alert list \<times> 'c list \<times> int" where
  "tick run ps now identity seen d w =
     (if \<not> ps_enabled ps then (d, w, [], [], DISABLED_SLEEP_SECONDS)
      else (let (d1, w1, jobs) = claim_pass ps now identity d w
            in if jobs = [] then (d1, w1, [], [], IDLE_SLEEP_SECONDS)
               else (let (raised, d2, w2, as) = run_jobs run (map (\<lambda>j. (job_id j, seen (job_id j))) jobs) d1 w1
                     in if raised then (d2, w2, as, [], IDLE_SLEEP_SECONDS)
                        else (let (w3, gone) = close_retired w2 in (d2, w3, as, gone, 0)))))"

section \<open>The job and its recording agree\<close>

lemma update_row_find:
  assumes "r \<in> set rows" "rec_id r' = rec_id r"
  shows "find_row (\<lambda>x. rec_id x = rec_id r) (update_where (\<lambda>x. rec_id x = rec_id r) (\<lambda>_. r') rows) = Some r'"
  using assms by (induction rows) (auto simp: find_row_def update_where_def)

lemma fail_keeps_recordings [simp]:
  "db_recordings (fst (fail now jitter j c detail mx ladder bytes d)) = db_recordings d"
  by (simp add: fail_def)

lemma fail_jobs:
  "db_jobs (fst (fail now jitter j c detail mx ladder bytes d)) =
     update_where (\<lambda>k. job_id k = job_id j) (fail_job now jitter c detail mx ladder) (db_jobs d)"
  by (simp add: fail_def)

lemma disable_keeps:
  "disable_account con b e d w = (d', w', as) \<Longrightarrow> db_jobs d' = db_jobs d \<and> db_recordings d' = db_recordings d"
  by (auto simp: disable_account_def update_connection_def split: if_splits)

lemma note_failure_keeps:
  "note_failure limit con b e d w = (d', w', as) \<Longrightarrow> db_jobs d' = db_jobs d \<and> db_recordings d' = db_recordings d"
  by (auto simp: note_failure_def Let_def split: if_splits prod.splits dest!: disable_keeps)

lemma transfer_keeps_id:
  "transfer_recording env d r0 h = (r, h', res) \<Longrightarrow> rec_id r = rec_id r0"
proof -
  have p: "rec_id x = rec_id y" if "prove_upload env d u y k = (x, k', res')" for x y u k k' res'
    using that by (auto simp: prove_upload_def Let_def mark_uploaded_def mark_verified_def
        dest!: write_sidecar_keeps split: prod.splits sum.splits option.splits)
  assume "transfer_recording env d r0 h = (r, h', res)"
  then show ?thesis
    by (auto simp: transfer_recording_def Let_def mark_missing_def start_transfer_def
        split: prod.splits sum.splits if_splits dest!: p)
qed

lemma attempt_keeps_id:
  "attempt_transfer env_of opened d r con dest h = (r1, h1, res) \<Longrightarrow> rec_id r1 = rec_id r"
  by (auto simp: attempt_transfer_def split: option.splits dest: transfer_keeps_id)

lemma attempt_outcome:
  assumes "attempt_transfer env_of opened d r con dest h = (r1, h1, Inr out)"
  shows "rec_state r1 = (if to_verified out then AVAILABLE else MISSING_SOURCE)"
proof -
  have t: "transfer_recording ((env_of r con dest)\<lparr>tx_account := con_name con, tx_path_prefix := di_path_prefix dest,
               tx_destination_id := di_id dest\<rparr>) d r h = (r1, h1, Inr out)"
    using assms by (simp add: attempt_transfer_def split: option.splits)
  show ?thesis
    by (rule transfer_cases [OF t]) (auto simp: mark_missing_def new_outcome_def)
qed

text \<open>The three ways a job that was run can stand with its recording.\<close>

definition agree :: "job \<Rightarrow> recording \<Rightarrow> bool" where
  "agree j r \<longleftrightarrow>
     (job_state_of j = DONE \<and> rec_state r \<in> {AVAILABLE, MISSING_SOURCE}) \<or>
     (job_state_of j = PENDING \<and> job_claimed_by j = None \<and> rec_state r = QUEUED) \<or>
     (job_state_of j = JOB_FAILED \<and> rec_state r = REC_FAILED)"

definition standing :: "database \<Rightarrow> int \<Rightarrow> int \<Rightarrow> (job \<times> recording) option" where
  "standing d i rid =
     (case (find_row (\<lambda>j. job_id j = i) (db_jobs d), find_row (\<lambda>r. rec_id r = rid) (db_recordings d)) of
        (Some j, Some r) \<Rightarrow> Some (j, r) | _ \<Rightarrow> None)"

lemma find_job_update:
  assumes "find_row (\<lambda>j. job_id j = i) js = Some j" "\<And>j. job_id (f j) = job_id j"
  shows "find_row (\<lambda>j. job_id j = i) (update_where (\<lambda>j. job_id j = i) f js) = Some (f j)"
  using assms(1)
proof (induction js)
  case (Cons k ks)
  then show ?case using assms(2) by (auto simp: find_row_def update_where_def split: if_splits)
qed (simp add: find_row_def)

lemma complete_job_ids: "job_id (complete_job now j) = job_id j"
  by (simp add: complete_job_def)

lemma job_done_standing:
  assumes "find_row (\<lambda>j. job_id j = i) (db_jobs d) = Some j"
    and "r \<in> set (db_recordings d)" "rec_id r1 = rec_id r" "job_done now j r1 con out d w = (d', w', as)"
  shows "standing d' i (rec_id r) = Some (complete_job now j, r1)"
proof -
  have i: "job_id j = i" using find_row_Some [OF assms(1)] by simp
  have "db_recordings d' = update_where (\<lambda>x. rec_id x = rec_id r) (\<lambda>_. r1) (db_recordings d)"
    "db_jobs d' = update_where (\<lambda>j. job_id j = i) (complete_job now) (db_jobs d)"
    using assms(3,4) i by (auto simp: job_done_def complete_def)
  then show ?thesis
    using update_row_find [OF assms(2,3)] find_job_update [OF assms(1), of "complete_job now"]
    by (simp add: standing_def complete_job_ids)
qed

lemma job_failed_standing:
  assumes "find_row (\<lambda>j. job_id j = i) (db_jobs d) = Some j"
    and "r \<in> set (db_recordings d)" "rec_id r1 = rec_id r"
    and "job_failed st now jitter j r1 con dest brand owner e d w = (d', w', as)"
  shows "standing d' i (rec_id r) = Some (fail_job now jitter (te_class e) (te_str e) (st_max_attempts st) (st_ladder st) j,
     if will_retry (te_class e) (st_max_attempts st) j then note_on_recording e r1
     else (note_on_recording e r1)\<lparr>rec_state := REC_FAILED\<rparr>)"
proof -
  have i: "job_id j = i" using find_row_Some [OF assms(1)] by simp
  let ?fj = "fail_job now jitter (te_class e) (te_str e) (st_max_attempts st) (st_ladder st)"
  let ?r = "if will_retry (te_class e) (st_max_attempts st) j then note_on_recording e r1
     else (note_on_recording e r1)\<lparr>rec_state := REC_FAILED\<rparr>"
  have rid: "rec_id ?r = rec_id r" using assms(3) by (simp add: note_on_recording_def)
  have "db_recordings d' = update_where (\<lambda>x. rec_id x = rec_id r) (\<lambda>_. ?r) (db_recordings d) \<and>
    db_jobs d' = update_where (\<lambda>j. job_id j = i) ?fj (db_jobs d)"
    using assms(3,4) i
    by (auto simp: job_failed_def Let_def fail_def split: prod.splits if_splits
        dest!: note_failure_keeps disable_keeps)
  then show ?thesis
    using update_row_find [OF assms(2) rid] find_job_update [OF assms(1), of ?fj] fail_job_ids
    by (simp add: standing_def)
qed

lemma run_job_ends:
  "find_row (\<lambda>j. job_id j = i) (db_jobs d) = Some j \<Longrightarrow> load_context tabs d j \<noteq> NoBrand \<Longrightarrow>
   \<exists>d' w' as. run_job env_of opened tabs st now jitter i h d w = Some (d', w', as)"
  by (cases "load_context tabs d j"; cases "run_job env_of opened tabs st now jitter i h d w")
    (auto simp: run_job_def split: prod.splits sum.splits if_splits)


text \<open>A job whose context is gone fails without its recording: once its attempts are used up it is
  failed, and the recording keeps the state it had.\<close>

lemma run_job_lookup:
  assumes "find_row (\<lambda>j. job_id j = i) (db_jobs d) = Some j" "job_state_of j = RUNNING"
    and "load_context tabs d j = LookupFailed msg" "st_max_attempts st \<le> job_attempts j"
    and "run_job env_of opened tabs st now jitter i h d w = Some (d', w', as)"
  shows "db_recordings d' = db_recordings d \<and> as = [] \<and>
    (\<exists>j'. find_row (\<lambda>j. job_id j = i) (db_jobs d') = Some j' \<and> job_state_of j' = JOB_FAILED)"
proof -
  let ?c = "te_class (classify_exception (Raised (lookup_error msg)))"
  let ?fj = "fail_job now jitter ?c msg (st_max_attempts st) (st_ladder st)"
  have i: "job_id j = i" using find_row_Some [OF assms(1)] by simp
  have d': "d' = fst (fail now jitter j ?c msg (st_max_attempts st) (st_ladder st) 0 d)" "as = []"
    using assms(1-3,5) by (auto simp: run_job_def)
  have "find_row (\<lambda>j. job_id j = i) (db_jobs d') = Some (?fj j)"
    unfolding d'(1) fail_jobs i by (rule find_job_update [OF assms(1)]) (simp add: fail_job_ids)
  moreover have "job_state_of (?fj j) = JOB_FAILED"
    using assms(4) by (simp add: fail_job_def Let_def will_retry_def)
  ultimately show ?thesis using d' by simp
qed

section \<open>Accounts out of service\<close>

lemma update_connection_find:
  "find_row (\<lambda>c. con_id c = i) (update_where (\<lambda>c. con_id c = i) f cs) =
     map_option f (find_row (\<lambda>c. con_id c = i) cs)" if "\<And>c. con_id (f c) = con_id c"
  using that by (induction cs) (auto simp: find_row_def update_where_def)

definition paused :: "database \<Rightarrow> int \<Rightarrow> bool" where
  "paused d i \<longleftrightarrow> (\<forall>c \<in> set (db_connections d). con_id c = i \<longrightarrow> con_status c = CONN_ERROR)"

lemma disable_pauses:
  assumes "disable_account con b e d w = (d', w', as)" "con_status con = CONN_ERROR \<Longrightarrow> paused d (con_id con)"
  shows "paused d' (con_id con)"
proof (cases "con_status con = CONN_ERROR")
  case True
  then show ?thesis using assms by (simp add: disable_account_def)
next
  case False
  let ?f = "\<lambda>c. c\<lparr>con_status := CONN_ERROR, con_status_detail := Some (take 500 (te_str e))\<rparr>"
  have "db_connections d' = update_where (\<lambda>c. con_id c = con_id con) ?f (db_connections d)"
    using assms(1) False by (auto simp: disable_account_def update_connection_def)
  moreover have "con_status (if con_id c = con_id con then ?f c else c) = CONN_ERROR"
    if "con_id (if con_id c = con_id con then ?f c else c) = con_id con" for c
    using that by (cases "con_id c = con_id con") simp_all
  ultimately show ?thesis unfolding paused_def by (auto simp: update_where_def)
qed

lemma paused_not_claimed:
  assumes "paused d i"
  shows "i \<notin> set (snd (connections_with_work now d w))"
proof -
  have "i \<notin> con_id ` {c \<in> set (db_connections d). in_service c \<and> has_runnable now d c}"
    using assms by (auto simp: paused_def in_service_def)
  then show ?thesis
    by (auto simp: connections_with_work_def Let_def rotate_by_def dest!: in_set_takeD in_set_dropD)
qed

text \<open>A run of failures of one account with no success between them.\<close>

fun failing_run :: "nat \<Rightarrow> connection \<Rightarrow> string option \<Rightarrow> transfer_error list \<Rightarrow> database \<Rightarrow> 'c worker \<Rightarrow>
    database \<times> 'c worker" where
  "failing_run limit con b [] d w = (d, w)"
| "failing_run limit con b (e # es) d w =
     (let (d1, w1, as) = note_failure limit con b e d w in failing_run limit con b es d1 w1)"

definition failures_of :: "'c worker \<Rightarrow> int \<Rightarrow> nat" where
  "failures_of w i = (case wk_failures w i of Some n \<Rightarrow> n | None \<Rightarrow> 0)"

lemma note_failure_step:
  assumes "note_failure limit con b e d w = (d', w', as)" "\<not> refusal e"
  shows "if failures_of w (con_id con) + 1 < limit
     then d' = d \<and> failures_of w' (con_id con) = failures_of w (con_id con) + 1 \<and> as = []
     else failures_of w' (con_id con) = 0 \<and>
       (\<exists>w1 w2. disable_account con b e d w1 = (d', w2, as) \<and>
          w' = w2\<lparr>wk_failures := (wk_failures w2)(con_id con := None)\<rparr>)"
proof (cases "failures_of w (con_id con) + 1 < limit")
  case True
  then show ?thesis using assms by (auto simp: note_failure_def Let_def failures_of_def)
next
  case False
  let ?w = "w\<lparr>wk_failures := (wk_failures w)(con_id con \<mapsto> failures_of w (con_id con) + 1)\<rparr>"
  obtain d1 w2 as1 where a: "disable_account con b e d ?w = (d1, w2, as1)"
    by (cases "disable_account con b e d ?w")
  then have "d' = d1" "as = as1" "failures_of w' (con_id con) = 0"
    "w' = w2\<lparr>wk_failures := (wk_failures w2)(con_id con := None)\<rparr>"
    using assms False by (auto simp: note_failure_def Let_def failures_of_def)
  then show ?thesis using False a by auto
qed

lemma failing_run_short:
  assumes "\<forall>e \<in> set es. \<not> refusal e" "failures_of w (con_id con) + length es < limit"
  shows "failing_run limit con b es d w = (d', w') \<Longrightarrow>
    d' = d \<and> failures_of w' (con_id con) = failures_of w (con_id con) + length es"
  using assms
proof (induction es arbitrary: d w)
  case (Cons e es)
  obtain d1 w1 as where n: "note_failure limit con b e d w = (d1, w1, as)"
    by (cases "note_failure limit con b e d w")
  have "d1 = d \<and> failures_of w1 (con_id con) = failures_of w (con_id con) + 1"
    using note_failure_step [OF n] Cons.prems by auto
  then show ?case using Cons.IH [of d1 w1] Cons.prems n by auto
qed simp

lemma failing_run_append:
  "failing_run limit con b (xs @ ys) d w = (let (d1, w1) = failing_run limit con b xs d w in failing_run limit con b ys d1 w1)"
  by (induction xs arbitrary: d w) (auto simp: Let_def split: prod.split)

text \<open>An account is taken out of service by exactly the run of failures the operator allows. Fewer
  failures in a row than the limit change nothing but the count; the failure that completes the run
  pauses the account and starts the count again; a refusal pauses it at once; and a paused account is
  claimed for by no pass. A job of it that succeeds sets the count to nothing.\<close>

theorem account_pause:
  assumes "es \<noteq> []" "\<forall>e \<in> set es. \<not> refusal e" "failures_of w (con_id con) = 0" "con_status con \<noteq> CONN_ERROR"
    and "failing_run limit con b es d w = (d', w')"
  shows "(length es < limit \<longrightarrow> d' = d \<and> failures_of w' (con_id con) = length es) \<and>
    (length es = limit \<longrightarrow> paused d' (con_id con) \<and> failures_of w' (con_id con) = 0 \<and>
       con_id con \<notin> set (snd (connections_with_work now d' w'))) \<and>
    (\<forall>e. refusal e \<longrightarrow> paused (fst (disable_account con b e d w)) (con_id con)) \<and>
    (\<forall>j r out d2 w2 as. job_done now j r con out d w' = (d2, w2, as) \<longrightarrow> failures_of w2 (con_id con) = 0)"
proof (intro conjI impI allI)
  assume "length es < limit"
  then show "d' = d" "failures_of w' (con_id con) = length es"
    using failing_run_short [OF assms(2) _ assms(5)] assms(3) by auto
next
  assume len: "length es = limit"
  obtain xs e where es: "es = xs @ [e]" using assms(1) by (metis rev_exhaust)
  obtain d1 w1 where r1: "failing_run limit con b xs d w = (d1, w1)" by fastforce
  have n1: "d1 = d" "failures_of w1 (con_id con) = length xs"
    using failing_run_short [OF _ _ r1] assms(2,3) len es by auto
  obtain d2 w2 as where n: "note_failure limit con b e d1 w1 = (d2, w2, as)"
    by (cases "note_failure limit con b e d1 w1")
  have "d' = d2" "w' = w2" using assms(5) r1 n by (auto simp: es failing_run_append Let_def)
  moreover have "failures_of w2 (con_id con) = 0" "\<exists>w3 w4. disable_account con b e d1 w3 = (d2, w4, as) \<and>
      w2 = w4\<lparr>wk_failures := (wk_failures w4)(con_id con := None)\<rparr>"
    using note_failure_step [OF n] assms(2) n1(2) len es by auto
  ultimately show "paused d' (con_id con)" "failures_of w' (con_id con) = 0"
    using disable_pauses assms(4) by blast+
  then show "con_id con \<notin> set (snd (connections_with_work now d' w'))" using paused_not_claimed by blast
next
  fix e
  show "paused (fst (disable_account con b e d w)) (con_id con)"
    by (rule disable_pauses [of con b e d w _ "fst (snd (disable_account con b e d w))" "snd (snd (disable_account con b e d w))"])
      (simp_all add: assms(4))
next
  fix j r out d2 w2 as
  assume "job_done now j r con out d w' = (d2, w2, as)"
  then show "failures_of w2 (con_id con) = 0" by (auto simp: job_done_def failures_of_def)
qed

section \<open>Turns\<close>

lemma rotate_by_hd:
  "ids \<noteq> [] \<Longrightarrow> rotate_by n ids \<noteq> [] \<and> hd (rotate_by n ids) = ids ! (n mod length ids) \<and>
     mset (rotate_by n ids) = mset ids"
proof -
  assume ne: "ids \<noteq> []"
  let ?k = "n mod length ids"
  have k: "?k < length ids" using ne by simp
  have "mset (take ?k ids @ drop ?k ids) = mset ids" by (simp only: append_take_drop_id)
  then have "mset (drop ?k ids @ take ?k ids) = mset ids" by (simp only: mset_append add.commute)
  with k show ?thesis by (simp add: rotate_by_def Let_def hd_append hd_drop_conv_nth)
qed

lemma turn_unique:
  assumes "k \<le> k'" "k' < n" "(s + k) mod n = (s + k') mod n"
  shows "k = (k' :: nat)"
proof -
  have "n dvd (s + k') - (s + k)" using mod_eq_dvd_iff_nat [of "s + k" "s + k'" n] assms by simp
  then have "n dvd k' - k" by simp
  moreover have "k' - k < n" using assms(2) by simp
  ultimately have "k' - k = 0" by (meson dvd_imp_le not_gr_zero not_less)
  then show ?thesis using assms(1) by simp
qed

lemma one_turn:
  assumes "m < (n :: nat)"
  shows "\<exists>!k. k < n \<and> (s + k) mod n = m"
proof (rule ex_ex1I)
  let ?x = "m + (n - s mod n)"
  have "(s + ?x mod n) mod n = (s mod n + ?x) mod n"
    by (simp only: mod_add_right_eq mod_add_left_eq)
  also have "s mod n + ?x = m + n" using mod_less_divisor [of n s] assms by linarith
  finally have "(s + ?x mod n) mod n = m" using assms by simp
  moreover have "?x mod n < n" using assms by simp
  ultimately show "\<exists>k. k < n \<and> (s + k) mod n = m" by blast
  fix k k' assume "k < n \<and> (s + k) mod n = m" "k' < n \<and> (s + k') mod n = m"
  then show "k = k'" using turn_unique [of k k' n s] turn_unique [of k' k n s] by linarith
qed

text \<open>C32: turns. A pass asks every account that is in service and has work, each once; and of any
  as many passes in a row as there are such accounts, each account is the first to be asked in
  exactly one, so that no account can be last for ever when a pass ends at its ceiling.\<close>

theorem every_account_first:
  assumes "ids = map con_id (sort_key con_id (filter (\<lambda>c. in_service c \<and> has_runnable now d c) (db_connections d)))"
    and "ids \<noteq> []" "distinct ids" "i \<in> set ids"
  shows "mset (snd (connections_with_work now d w)) = mset ids \<and>
    wk_pass (fst (connections_with_work now d w)) = wk_pass w + 1 \<and>
    (\<exists>!k. k < length ids \<and> hd (snd (connections_with_work now d (w\<lparr>wk_pass := wk_pass w + k\<rparr>))) = i)"
proof -
  have snd: "snd (connections_with_work now d v) = rotate_by (wk_pass v + 1) ids" for v :: "'c worker"
    using assms(1,2) by (simp add: connections_with_work_def Let_def)
  have "wk_pass (fst (connections_with_work now d w)) = wk_pass w + 1"
    using assms(1,2) by (simp add: connections_with_work_def Let_def)
  moreover have first: "hd (snd (connections_with_work now d (w\<lparr>wk_pass := wk_pass w + k\<rparr>))) =
      ids ! ((wk_pass w + k + 1) mod length ids)" for k
    using rotate_by_hd [OF assms(2)] by (simp add: snd)
  obtain m where m: "m < length ids" "ids ! m = i" using assms(4) by (auto simp: in_set_conv_nth)
  let ?n = "length ids" and ?s = "wk_pass w + 1"
  have n: "0 < ?n" using assms(2) by simp
  have ex1: "\<exists>!k. k < ?n \<and> (?s + k) mod ?n = m" by (rule one_turn [OF m(1)])
  have "ids ! ((wk_pass w + k + 1) mod ?n) = i \<longleftrightarrow> (?s + k) mod ?n = m" for k
    using assms(3) m n nth_eq_iff_index_eq [of ids "(?s + k) mod ?n" m] by (simp add: ac_simps)
  with ex1 first have "\<exists>!k. k < ?n \<and> hd (snd (connections_with_work now d (w\<lparr>wk_pass := wk_pass w + k\<rparr>))) = i"
    by simp
  ultimately show ?thesis using rotate_by_hd [OF assms(2)] by (simp add: snd)
qed

section \<open>Clients are conserved\<close>

definition open_clients :: "'c worker \<Rightarrow> 'c multiset" where
  "open_clients w = mset (map snd (wk_clients w)) + mset (wk_retired w)"

lemma split_clients:
  "mset (map snd (filter (\<lambda>(k, c). \<not> p k) xs)) + mset (map snd (filter (\<lambda>(k, c). p k) xs)) = mset (map snd xs)"
  by (induction xs) auto

lemma drop_clients_open: "open_clients (drop_clients p w) = open_clients w"
proof -
  have "open_clients (drop_clients p w) = (mset (map snd (filter (\<lambda>(k, c). \<not> p k) (wk_clients w))) +
      mset (map snd (filter (\<lambda>(k, c). p k) (wk_clients w)))) + mset (wk_retired w)"
    by (simp add: open_clients_def drop_clients_def ac_simps)
  then show ?thesis unfolding split_clients open_clients_def .
qed

text \<open>Nothing is closed while a pass runs: what was open is cached or set aside, each exactly once, and
  closing at the end of the pass closes all that was set aside and nothing that is cached.\<close>

lemma client_for_conserves:
  assumes "client_for kind i u opener w = (w', res)"
  shows "open_clients w' = open_clients w +
    (case opener of Inr c \<Rightarrow> if map_of (wk_clients w) (kind, i, u) = None then {#c#} else {#} | Inl _ \<Rightarrow> {#})"
  using assms drop_clients_open [of "\<lambda>(k, j, _). k = kind \<and> j = i" w]
  by (auto simp: client_for_def Let_def open_clients_def split: option.splits sum.splits)

lemma close_retired_open:
  "close_retired w = (w', cs) \<Longrightarrow> open_clients w = open_clients w' + mset cs \<and> wk_clients w' = wk_clients w"
  by (auto simp: close_retired_def open_clients_def)

section \<open>Examples\<close>

definition demo_lookup :: lookup_tables where
  "demo_lookup = \<lparr>lk_destinations = [\<lparr>di_id = 1, di_name = ''w'', di_is_enabled = True, di_path_prefix = ''p''\<rparr>],
     lk_brands = [(1, ''b'')], lk_tenants = [1]\<rparr>"

definition demo_account :: connection where
  "demo_account = \<lparr>con_id = 1, con_brand_id = 1, con_tenant_id = 1, con_name = ''acc'', con_destination_id = Some 1,
     con_status = CONN_OK, con_last_inventory_at = None, con_inventory_cursor_day = None, con_earliest_day = None,
     con_last_probe_at = None, con_last_cdr_cursor = None, con_cdr_api_base = None, con_cdr_api_user = None,
     con_last_sms_cursor = None, con_is_enabled = True, con_concurrency_limit = 5,
     con_s3_bucket = ''bk'', con_status_detail = None\<rparr>"

definition demo_db :: database where
  "demo_db = empty_db\<lparr>db_recordings := [blank_recording 101 ''k'' 3],
     db_jobs := [mark_claimed ''w'' 5 (sample_job 1 100 0)], db_connections := [demo_account], db_next_id := 102\<rparr>"

definition demo_settings :: job_settings where
  "demo_settings = \<lparr>st_max_attempts = 5, st_ladder = [30], st_failure_limit = 3\<rparr>"


definition timeout_error :: transfer_error where
  "timeout_error = new_transfer_error NETWORK_ERROR ''timed out'' None None None"

theorem account_pause_witness:
  "\<exists>d' w'. failing_run 2 demo_account None [timeout_error, timeout_error] demo_db (new_worker :: nat worker) = (d', w') \<and>
     paused d' 1 \<and> 1 \<notin> set (snd (connections_with_work 50 d' w'))"
proof -
  obtain d' w' where f: "failing_run 2 demo_account None [timeout_error, timeout_error] demo_db (new_worker :: nat worker) = (d', w')"
    by fastforce
  have "\<forall>e \<in> set [timeout_error, timeout_error]. \<not> refusal e"
    by (simp add: timeout_error_def refusal_def new_transfer_error_def)
  moreover have "failures_of (new_worker :: nat worker) (con_id demo_account) = 0" "con_status demo_account \<noteq> CONN_ERROR"
    "con_id demo_account = 1"
    by (simp_all add: failures_of_def new_worker_def demo_account_def)
  ultimately show ?thesis using account_pause [OF _ _ _ _ f] f by auto
qed

theorem every_account_first_witness:
  "\<exists>!k. k < 1 \<and> hd (snd (connections_with_work 50 (demo_db\<lparr>db_jobs := [sample_job 1 100 0]\<rparr>)
     ((new_worker :: nat worker)\<lparr>wk_pass := wk_pass (new_worker :: nat worker) + k\<rparr>))) = 1"
proof -
  have "[1] = map con_id (sort_key con_id (filter (\<lambda>c. in_service c \<and> has_runnable 50 (demo_db\<lparr>db_jobs := [sample_job 1 100 0]\<rparr>) c)
      (db_connections (demo_db\<lparr>db_jobs := [sample_job 1 100 0]\<rparr>))))"
    by (simp add: demo_db_def demo_account_def in_service_def has_runnable_def sample_job_def new_job_def)
  from every_account_first [OF this, of 1 "new_worker :: nat worker"] show ?thesis by simp
qed

end
