(* ===== verification/Deletion.thy ===== *)
theory Deletion
  imports Transfers Queue "HOL-Library.List_Lexorder" "HOL-Library.Char_ord"
begin

text \<open>
  \<open>src/c2w/sync/completeness.py\<close>, \<open>source_retention.py\<close> and \<open>source_delete.py\<close>: what is known of an
  account's archive, which objects may be deleted at the source, and the deletion itself. The archive
  and the source are services of \<open>S3Client\<close> with a history each; a candidate is the dictionary the
  deletion is handed, whose missing keys raise. Percentages are exact.

  Lemmas: the report's light is its reasons; an object is deleted only after the archive has just
  answered for it; a dry run deletes nothing.
\<close>

section \<open>Completeness\<close>

record account_completeness =
  ac_connection_id :: int
  ac_account :: string
  ac_brand_id :: int
  ac_brand_name :: string
  ac_indexed :: nat
  ac_verified :: nat
  ac_failed :: nat
  ac_missing_source :: nat
  ac_in_flight :: nat
  ac_scanned_from :: "string option"
  ac_scanned_to :: "string option"
  ac_orphans :: nat
  ac_notes :: "string list"

definition unverified :: "account_completeness \<Rightarrow> nat" where
  "unverified a = ac_indexed a - ac_verified a"

definition percent_verified :: "account_completeness \<Rightarrow> rat" where
  "percent_verified a =
     (if ac_indexed a = 0 then 0
      else of_int (round_half_even (100 * (100 * of_nat (ac_verified a) / of_nat (ac_indexed a)))) / 100)"

text \<open>\<open>f"{n:,}"\<close>.\<close>

fun show_commas :: "nat \<Rightarrow> string" where
  "show_commas n = (if n < 1000 then show_nat n else show_commas (n div 1000) @ '','' @ zpad 3 (n mod 1000))"

declare show_commas.simps [simp del]

definition blocking_reasons :: "account_completeness \<Rightarrow> string list" where
  "blocking_reasons a =
     (if ac_indexed a = 0 then [''nothing has been indexed for this account''] else [])
     @ (if unverified a \<noteq> 0
        then [show_commas (unverified a) @ '' of '' @ show_commas (ac_indexed a)
              @ '' indexed recordings are not verified in the archive''] else [])
     @ (if ac_failed a \<noteq> 0 then [show_commas (ac_failed a) @ '' recordings failed to copy''] else [])
     @ (if ac_scanned_from a = None
        then [''the inventory's coverage of this account is unknown, so the indexed count cannot be taken as the whole account'']
        else [])"

definition safe_to_delete_from :: "account_completeness \<Rightarrow> bool" where
  "safe_to_delete_from a \<longleftrightarrow> blocking_reasons a = []"

definition count_rows :: "(recording \<Rightarrow> bool) \<Rightarrow> int \<Rightarrow> database \<Rightarrow> nat" where
  "count_rows p c d = length (filter (\<lambda>r. rec_connection_id r = c \<and> p r) (db_recordings d))"

definition complete_account :: "database \<Rightarrow> string \<Rightarrow> connection \<Rightarrow> account_completeness" where
  "complete_account d brand con =
     (let c = con_id con;
          indexed = count_rows (\<lambda>_. True) c d;
          verified = count_rows (\<lambda>r. rec_verified_at r \<noteq> None) c d;
          failed = count_rows (\<lambda>r. rec_state r = REC_FAILED) c d;
          missing = count_rows (\<lambda>r. rec_state r = MISSING_SOURCE) c d;
          from = map_option date_text (con_earliest_day con)
      in \<lparr>ac_connection_id = c, ac_account = con_name con, ac_brand_id = con_brand_id con, ac_brand_name = brand,
          ac_indexed = indexed, ac_verified = verified, ac_failed = failed, ac_missing_source = missing,
          ac_in_flight = nat (int indexed - int verified - int failed - int missing),
          ac_scanned_from = from, ac_scanned_to = map_option date_text (con_inventory_cursor_day con),
          ac_orphans = count_rows (\<lambda>r. rec_cdr_id r = None) c d,
          ac_notes =
            (if from = None
             then [''the inventory has no recorded start day, so how much of this account has been walked is unknown'']
             else [])
            @ (if indexed = 0 then [''nothing indexed for this account''] else [])\<rparr>)"

definition account_completeness :: "(int \<Rightarrow> string option) \<Rightarrow> database \<Rightarrow> account_completeness list" where
  "account_completeness brands d =
     map (\<lambda>(b, con). complete_account d b con)
       (sort_key (\<lambda>(b, con). (map code b, map code (con_name con)))
          (concat (map (\<lambda>con. case brands (con_brand_id con) of None \<Rightarrow> [] | Some b \<Rightarrow> [(b, con)])
             (filter con_is_enabled (db_connections d)))))"

record completeness_totals =
  ct_indexed :: nat
  ct_verified :: nat
  ct_unverified :: nat
  ct_failed :: nat
  ct_safe_accounts :: nat
  ct_accounts :: nat

definition as_context :: "account_completeness list \<Rightarrow> completeness_totals" where
  "as_context items =
     \<lparr>ct_indexed = sum_list (map ac_indexed items), ct_verified = sum_list (map ac_verified items),
      ct_unverified = sum_list (map unverified items), ct_failed = sum_list (map ac_failed items),
      ct_safe_accounts = length (filter safe_to_delete_from items), ct_accounts = length items\<rparr>"

section \<open>Retention\<close>

record deletion_plan =
  dp_connection_id :: int
  dp_account :: string
  dp_brand_id :: int
  dp_retention_days :: int
  dp_eligible :: nat
  dp_oldest :: "dt option"
  dp_newest :: "dt option"
  dp_bytes_at_source :: int
  dp_refusals :: "string list"
  dp_sample :: "recording list"

definition permitted :: "deletion_plan \<Rightarrow> bool" where
  "permitted p \<longleftrightarrow> dp_refusals p = [] \<and> 0 < dp_eligible p"

definition refusal_reasons :: "bool \<Rightarrow> bool \<Rightarrow> string list \<Rightarrow> bool \<Rightarrow> string list" where
  "refusal_reasons has_delete_credentials account_enabled completeness_blocking global_enabled =
     (if global_enabled then [] else [''source deletion is switched off for the whole platform''])
     @ (if account_enabled then [] else [''source deletion is not switched on for this account''])
     @ (if has_delete_credentials then []
        else [''no delete credentials are configured for this account -- deletion uses a separate credential pair from the read-only one''])
     @ completeness_blocking"

definition eligible :: "dt \<Rightarrow> int \<Rightarrow> recording \<Rightarrow> bool" where
  "eligible cutoff c r \<longleftrightarrow>
     rec_connection_id r = c \<and> (case rec_started_at r of Some t \<Rightarrow> t < cutoff | None \<Rightarrow> False) \<and>
     rec_verified_at r \<noteq> None \<and> rec_destination_key r \<noteq> None \<and> rec_checksum_sha256 r \<noteq> None \<and>
     rec_state r \<noteq> SOURCE_DELETED"

fun least_of :: "int list \<Rightarrow> int option" where
  "least_of [] = None"
| "least_of (x # xs) = Some (fold min xs x)"

fun greatest_of :: "int list \<Rightarrow> int option" where
  "greatest_of [] = None"
| "greatest_of (x # xs) = Some (fold max xs x)"

definition plan_deletions :: "dt \<Rightarrow> int \<Rightarrow> string \<Rightarrow> int \<Rightarrow> int \<Rightarrow> nat \<Rightarrow> database \<Rightarrow> deletion_plan" where
  "plan_deletions now c account brand retention_days limit d =
     (let rows = filter (eligible (now - retention_days * day) c) (db_recordings d);
          starts = concat (map (\<lambda>r. case rec_started_at r of Some t \<Rightarrow> [t] | None \<Rightarrow> []) rows)
      in \<lparr>dp_connection_id = c, dp_account = account, dp_brand_id = brand, dp_retention_days = retention_days,
          dp_eligible = length rows, dp_oldest = least_of starts, dp_newest = greatest_of starts,
          dp_bytes_at_source = sum_list (map rec_source_size rows), dp_refusals = [],
          dp_sample = take limit (sort_key (\<lambda>r. case rec_started_at r of Some t \<Rightarrow> t | None \<Rightarrow> 0) rows)\<rparr>)"

section \<open>Deletion\<close>

definition REFUSALS :: "string list" where
  "REFUSALS = [''ACL_ERROR'', ''AUTH_ERROR'', ''RATE_LIMIT'', ''NETWORK_ERROR'']"

record delete_run =
  dr_account :: string
  dr_dry_run :: bool
  dr_considered :: nat
  dr_deleted :: nat
  dr_kept :: nat
  dr_bytes_freed :: int
  dr_stopped_early :: string
  dr_kept_reasons :: "string \<rightharpoonup> nat"

definition new_run :: "string \<Rightarrow> bool \<Rightarrow> delete_run" where
  "new_run account dry =
     \<lparr>dr_account = account, dr_dry_run = dry, dr_considered = 0, dr_deleted = 0, dr_kept = 0,
      dr_bytes_freed = 0, dr_stopped_early = [], dr_kept_reasons = Map.empty\<rparr>"

definition keep :: "string \<Rightarrow> delete_run \<Rightarrow> delete_run" where
  "keep reason r =
     r\<lparr>dr_kept := dr_kept r + 1,
       dr_kept_reasons := (dr_kept_reasons r)(reason \<mapsto>
         (case dr_kept_reasons r reason of Some n \<Rightarrow> n | None \<Rightarrow> 0) + 1)\<rparr>"

text \<open>A candidate's dictionary: \<open>None\<close> is a missing key, whose \<open>KeyError\<close> is a \<open>LookupError\<close>, and
  \<open>Some None\<close> a null.\<close>

record candidate =
  ca_id :: int
  ca_source_key :: string
  ca_source_size :: "int option"
  ca_destination_key :: string
  ca_destination_size :: "int option option"
  ca_checksum_sha256 :: "string option option"

definition still_in_the_archive :: "service \<Rightarrow> s3_client \<Rightarrow> candidate \<Rightarrow> history \<Rightarrow>
    history \<times> (py_exc + bool \<times> string)" where
  "still_in_the_archive svc dest c h =
     (case head svc dest (ca_destination_key c) h of
        (h1, Inl e) \<Rightarrow> (h1, Inr (False, ''archive did not answer ('' @ class_value (te_class e) @ '')''))
      | (h1, Inr meta) \<Rightarrow>
          (h1,
           (case ca_destination_size c of
              None \<Rightarrow> Inl (LookupError ''destination_size'')
            | Some recorded_size \<Rightarrow>
                if (case recorded_size of Some n \<Rightarrow> om_size meta \<noteq> n | None \<Rightarrow> False)
                then Inr (False, ''archived object is a different size than recorded'')
                else (case nonempty (map_of (om_metadata meta) ''c2w-sha256'') of
                        None \<Rightarrow> Inr (True, ''no checksum stored on the archived object; size matched'')
                      | Some stored \<Rightarrow>
                          (case ca_checksum_sha256 c of
                             None \<Rightarrow> Inl (LookupError ''checksum_sha256'')
                           | Some kept \<Rightarrow>
                               (case nonempty kept of
                                  Some s \<Rightarrow>
                                    if stored \<noteq> s
                                    then Inr (False, ''archived object's checksum does not match the one recorded'')
                                    else Inr (True, [])
                                | None \<Rightarrow> Inr (True, [])))))))"

definition mark_source_deleted :: "dt \<Rightarrow> int \<Rightarrow> database \<Rightarrow> database" where
  "mark_source_deleted now i d =
     update_recording i (\<lambda>r. r\<lparr>rec_state := SOURCE_DELETED, rec_source_deleted_at := Some now\<rparr>) d"

definition count_deleted :: "candidate \<Rightarrow> delete_run \<Rightarrow> delete_run" where
  "count_deleted c r =
     r\<lparr>dr_deleted := dr_deleted r + 1,
       dr_bytes_freed := dr_bytes_freed r + (case ca_source_size c of Some n \<Rightarrow> n | None \<Rightarrow> 0)\<rparr>"

text \<open>The archive's side, the source's side and the rows.\<close>

record deletion_world =
  dw_archive :: history
  dw_source :: history
  dw_db :: database

fun delete_loop :: "service \<Rightarrow> s3_client \<Rightarrow> service \<Rightarrow> deleter option \<Rightarrow> bool \<Rightarrow> dt \<Rightarrow> candidate list \<Rightarrow>
    delete_run \<Rightarrow> deletion_world \<Rightarrow> deletion_world \<times> ((transfer_error + py_exc) + delete_run)" where
  "delete_loop asvc dest ssvc del dry now [] run w = (w, Inr run)"
| "delete_loop asvc dest ssvc del dry now (c # cs) run0 w =
     (let run = run0\<lparr>dr_considered := dr_considered run0 + 1\<rparr>;
          (ha, checked) = still_in_the_archive asvc dest c (dw_archive w);
          w1 = w\<lparr>dw_archive := ha\<rparr>
      in case checked of
           Inl e \<Rightarrow> (w1, Inl (Inr e))
         | Inr (False, why) \<Rightarrow> delete_loop asvc dest ssvc del dry now cs (keep why run) w1
         | Inr (True, why) \<Rightarrow>
             (case (if dry then None else del) of
                None \<Rightarrow> delete_loop asvc dest ssvc del dry now cs (count_deleted c run) w1
              | Some dl \<Rightarrow>
                  (case deleter_delete ssvc dl (ca_source_key c) (dw_source w1) of
                     (hs, Inl e) \<Rightarrow> (w1\<lparr>dw_source := hs\<rparr>, Inl (Inl e))
                   | (hs, Inr outcome) \<Rightarrow>
                       (let w2 = w1\<lparr>dw_source := hs\<rparr>
                        in if \<not> do_deleted outcome
                           then (let run1 = keep ''the source refused the delete'' run
                                 in if list_ex (\<lambda>cls. contains cls (do_detail outcome)) REFUSALS
                                    then (w2, Inr (run1\<lparr>dr_stopped_early := ''source refused: '' @ take 200 (do_detail outcome)\<rparr>))
                                    else delete_loop asvc dest ssvc del dry now cs run1 w2)
                           else delete_loop asvc dest ssvc del dry now cs (count_deleted c run)
                                  (w2\<lparr>dw_db := mark_source_deleted now (ca_id c) (dw_db w2)\<rparr>)))))"

definition run_source_deletion :: "service \<Rightarrow> s3_client \<Rightarrow> service \<Rightarrow> deleter option \<Rightarrow> bool \<Rightarrow> dt \<Rightarrow> string \<Rightarrow>
    candidate list \<Rightarrow> deletion_world \<Rightarrow> deletion_world \<times> ((transfer_error + py_exc) + delete_run)" where
  "run_source_deletion asvc dest ssvc del dry now account candidates w =
     (if \<not> dry \<and> del = None
      then (w, Inl (Inr (ValueError ''a real deletion run needs a deleter; refusing to pretend'')))
      else delete_loop asvc dest ssvc del dry now candidates (new_run account dry) w)"

section \<open>The report's light\<close>

lemma count_rows_all: "count_rows p c d = count_rows (\<lambda>_. True) c d \<longleftrightarrow>
    (\<forall>r \<in> set (db_recordings d). rec_connection_id r = c \<longrightarrow> p r)"
proof -
  have "length (filter (\<lambda>r. q r \<and> p r) xs) \<le> length (filter q xs)" for q and xs :: "recording list"
    by (induction xs) auto
  note le = this
  have "length (filter (\<lambda>r. q r \<and> p r) xs) = length (filter q xs) \<longleftrightarrow> (\<forall>r \<in> set xs. q r \<longrightarrow> p r)"
    for q and xs :: "recording list"
  proof (induction xs)
    case (Cons x xs)
    then show ?case using le [of q xs] by auto
  qed simp
  from this [of "\<lambda>r. rec_connection_id r = c" "db_recordings d"] show ?thesis by (simp add: count_rows_def)
qed

lemma count_rows_le: "count_rows p c d \<le> count_rows (\<lambda>_. True) c d"
proof -
  have "length (filter (\<lambda>r. rec_connection_id r = c \<and> p r) xs) \<le> length (filter (\<lambda>r. rec_connection_id r = c) xs)" for xs
    by (induction xs) auto
  then show ?thesis by (simp add: count_rows_def)
qed

lemma count_rows_zero: "count_rows p c d = 0 \<longleftrightarrow> (\<forall>r \<in> set (db_recordings d). rec_connection_id r = c \<longrightarrow> \<not> p r)"
  by (auto simp: count_rows_def filter_empty_conv)

lemma safe_iff:
  "safe_to_delete_from (complete_account d brand con) \<longleftrightarrow>
     (\<exists>r \<in> set (db_recordings d). rec_connection_id r = con_id con) \<and>
     (\<forall>r \<in> set (db_recordings d). rec_connection_id r = con_id con \<longrightarrow>
        rec_verified_at r \<noteq> None \<and> rec_state r \<noteq> REC_FAILED) \<and> con_earliest_day con \<noteq> None"
proof -
  let ?c = "con_id con" and ?v = "\<lambda>r. rec_verified_at r \<noteq> None"
  have "count_rows (\<lambda>_. True) ?c d - count_rows ?v ?c d = 0 \<longleftrightarrow> count_rows ?v ?c d = count_rows (\<lambda>_. True) ?c d"
    using count_rows_le [of ?v ?c d] by auto
  then have u: "unverified (complete_account d brand con) = 0 \<longleftrightarrow>
      (\<forall>r \<in> set (db_recordings d). rec_connection_id r = ?c \<longrightarrow> ?v r)"
    unfolding count_rows_all [of ?v] by (simp add: unverified_def complete_account_def Let_def del: not_None_eq)
  have i: "ac_indexed (complete_account d brand con) = 0 \<longleftrightarrow> \<not> (\<exists>r \<in> set (db_recordings d). rec_connection_id r = ?c)"
    by (auto simp: complete_account_def Let_def count_rows_zero)
  have f: "ac_failed (complete_account d brand con) = 0 \<longleftrightarrow>
      (\<forall>r \<in> set (db_recordings d). rec_connection_id r = ?c \<longrightarrow> rec_state r \<noteq> REC_FAILED)"
    by (auto simp: complete_account_def Let_def count_rows_zero)
  have s: "ac_scanned_from (complete_account d brand con) = None \<longleftrightarrow> con_earliest_day con = None"
    by (simp add: complete_account_def Let_def)
  show ?thesis unfolding safe_to_delete_from_def blocking_reasons_def using u i f s
    by (simp del: not_None_eq) blast
qed

text \<open>The light that permits deleting is on exactly when the account has rows, every one of them
  carries a verification and none has failed, and the scanned range is known; one row without one turns
  it off. It says nothing of a check that failed since: a recording the reconciliation has just found
  missing or altered in the archive is queued again with its old verification kept, and leaves the
  light as it was.\<close>

theorem safe_light:
  "(safe_to_delete_from (complete_account d brand con) \<longleftrightarrow>
     (\<exists>r \<in> set (db_recordings d). rec_connection_id r = con_id con) \<and>
     (\<forall>r \<in> set (db_recordings d). rec_connection_id r = con_id con \<longrightarrow>
        rec_verified_at r \<noteq> None \<and> rec_state r \<noteq> REC_FAILED) \<and> con_earliest_day con \<noteq> None) \<and>
   (safe_to_delete_from (complete_account d brand con) \<longrightarrow>
      safe_to_delete_from (complete_account (update_recording i (requeue eclass detail) d) brand con))"
proof -
  let ?q = "\<lambda>r. if rec_id r = i then requeue eclass detail r else r"
  have keep: "rec_connection_id (?q r) = rec_connection_id r" "rec_verified_at (?q r) = rec_verified_at r"
      "rec_state r \<noteq> REC_FAILED \<Longrightarrow> rec_state (?q r) \<noteq> REC_FAILED" for r
    by (simp_all add: requeue_def)
  have rows: "db_recordings (update_recording i (requeue eclass detail) d) = map ?q (db_recordings d)"
    by (simp add: update_where_def)
  have "safe_to_delete_from (complete_account (update_recording i (requeue eclass detail) d) brand con)"
    if "safe_to_delete_from (complete_account d brand con)"
    using that unfolding safe_iff rows set_map bex_simps ball_simps keep(1,2) using keep(3) by blast
  then show ?thesis using safe_iff by blast
qed

section \<open>Nothing is deleted unproved\<close>

text \<open>Among the calls made to the archive is a head of the candidate's key that was answered with the size
  and the checksum on record.\<close>

definition archive_holds :: "service \<Rightarrow> s3_client \<Rightarrow> history \<Rightarrow> candidate \<Rightarrow> bool" where
  "archive_holds svc dest asked c \<longleftrightarrow>
     (\<exists>later h meta. asked = later @ HeadObject (ca_destination_key c) # h \<and>
        head svc dest (ca_destination_key c) h = (HeadObject (ca_destination_key c) # h, Inr meta) \<and>
        (\<forall>n. ca_destination_size c = Some (Some n) \<longrightarrow> om_size meta = n) \<and>
        (\<forall>s t. nonempty (map_of (om_metadata meta) ''c2w-sha256'') = Some s \<and>
           ca_checksum_sha256 c = Some (Some t) \<and> t \<noteq> [] \<longrightarrow> s = t))"

lemma nonempty_Some: "nonempty (Some t) = (if t = [] then None else Some t)"
  by (cases t) (simp_all add: nonempty_def)

lemma head_history:
  assumes "head svc dest k h = (h', res)"
  shows "\<exists>new. h' = new @ h" and "res = Inr meta \<Longrightarrow> h' = HeadObject k # h"
  using assms by (auto simp: head_def split: option.splits)

lemma still_in_archive:
  assumes "still_in_the_archive svc dest c h = (h', res)"
  shows "\<exists>new. h' = new @ h" and "res = Inr (True, why) \<Longrightarrow> archive_holds svc dest (later @ h') c"
proof -
  obtain ans where hd: "head svc dest (ca_destination_key c) h = (h', ans)"
    using assms by (auto simp: still_in_the_archive_def split: prod.splits sum.splits)
  then show "\<exists>new. h' = new @ h" by (rule head_history(1))
  assume ok: "res = Inr (True, why)"
  then obtain meta where ans: "ans = Inr meta" using assms hd by (auto simp: still_in_the_archive_def split: sum.splits)
  have size: "om_size meta = n" if "ca_destination_size c = Some (Some n)" for n
    using assms hd ok ans that by (auto simp: still_in_the_archive_def split: if_splits)
  have sum: "s = t" if "nonempty (map_of (om_metadata meta) ''c2w-sha256'') = Some s"
      "ca_checksum_sha256 c = Some (Some t)" "t \<noteq> []" for s t
    using assms hd ok ans that by (auto simp: still_in_the_archive_def nonempty_Some split: option.splits if_splits)
  have h': "h' = HeadObject (ca_destination_key c) # h" using head_history(2) [OF hd] ans by simp
  show "archive_holds svc dest (later @ h') c"
    unfolding archive_holds_def using hd [unfolded h' ans] size sum h' by blast
qed

lemma archive_holds_later: "archive_holds svc dest asked c \<Longrightarrow> archive_holds svc dest (new @ asked) c"
  unfolding archive_holds_def by (metis append.assoc)

text \<open>A refusal of the source, as the pass reads it.\<close>

definition refused :: "service \<Rightarrow> history \<Rightarrow> s3_call \<Rightarrow> bool" where
  "refused svc h cmd \<longleftrightarrow>
     (\<exists>x. svc h cmd = Inl x \<and> list_ex (\<lambda>cls. contains cls (take 300 (te_str (classify_exception (Raised x))))) REFUSALS)"

text \<open>The calls of a pass to the source, newest first: each is the deletion of a candidate the archive holds,
  and none follows a refusal.\<close>

definition justified :: "service \<Rightarrow> s3_client \<Rightarrow> history \<Rightarrow> service \<Rightarrow> candidate list \<Rightarrow> history \<Rightarrow> history \<Rightarrow> bool" where
  "justified asvc dest asked ssvc cs base calls \<longleftrightarrow>
     (\<forall>cmd \<in> set calls. \<exists>c \<in> set cs. cmd = DeleteObject (ca_source_key c) \<and> archive_holds asvc dest asked c) \<and>
     (\<forall>later cmd earlier. calls = later @ cmd # earlier \<and> later \<noteq> [] \<longrightarrow> \<not> refused ssvc (earlier @ base) cmd) \<and>
     length calls \<le> length cs"

lemma justified_Nil: "justified asvc dest asked ssvc cs base []"
  by (simp add: justified_def)

lemma justified_more: "justified asvc dest asked ssvc cs base calls \<Longrightarrow> justified asvc dest asked ssvc (c # cs) base calls"
  by (fastforce simp: justified_def)

lemma justified_snoc:
  assumes "justified asvc dest asked ssvc cs (DeleteObject (ca_source_key c) # base) calls"
    and "archive_holds asvc dest asked c" "calls \<noteq> [] \<longrightarrow> \<not> refused ssvc base (DeleteObject (ca_source_key c))"
  shows "justified asvc dest asked ssvc (c # cs) base (calls @ [DeleteObject (ca_source_key c)])"
proof -
  let ?del = "DeleteObject (ca_source_key c)"
  have "\<not> refused ssvc (earlier @ base) cmd" if s: "calls @ [?del] = later @ cmd # earlier" "later \<noteq> []" for later cmd earlier
  proof (cases earlier rule: rev_cases)
    case Nil
    then show ?thesis using s assms(3) by auto
  next
    case (snoc es e)
    then have "calls = later @ cmd # es" "e = ?del" using s(1) by auto
    then show ?thesis using assms(1) s(2) snoc by (auto simp: justified_def)
  qed
  then show ?thesis using assms(1,2) by (auto simp: justified_def)
qed

lemma deleter_delete_outcome:
  assumes "deleter_delete svc d key h = (h', Inr out)"
  shows "h' = DeleteObject key # h"
    and "\<not> do_deleted out \<Longrightarrow> \<not> list_ex (\<lambda>cls. contains cls (do_detail out)) REFUSALS \<Longrightarrow> \<not> refused svc h (DeleteObject key)"
    and "do_deleted out \<Longrightarrow> \<not> refused svc h (DeleteObject key)"
  using assms by (auto simp: deleter_delete_def refused_def split: if_splits sum.splits)

lemma deleter_delete_Inl: "deleter_delete svc d key h = (h', Inl e) \<Longrightarrow> h' = h"
  by (auto simp: deleter_delete_def split: if_splits)

text \<open>One step of the pass: the candidate is kept, counted, or ends the pass.\<close>

lemma delete_loop_step:
  assumes "still_in_the_archive asvc dest c (dw_archive w) = (ha, checked)"
  shows "delete_loop asvc dest ssvc del dry now (c # cs) run w =
     (let run1 = run\<lparr>dr_considered := dr_considered run + 1\<rparr>; w1 = w\<lparr>dw_archive := ha\<rparr>
      in case checked of
           Inl e \<Rightarrow> (w1, Inl (Inr e))
         | Inr (ok, why) \<Rightarrow>
             if \<not> ok then delete_loop asvc dest ssvc del dry now cs (keep why run1) w1
             else if dry \<or> del = None then delete_loop asvc dest ssvc del dry now cs (count_deleted c run1) w1
             else (case deleter_delete ssvc (the del) (ca_source_key c) (dw_source w) of
                     (hs, Inl e) \<Rightarrow> (w1\<lparr>dw_source := hs\<rparr>, Inl (Inl e))
                   | (hs, Inr out) \<Rightarrow>
                       if do_deleted out
                       then delete_loop asvc dest ssvc del dry now cs (count_deleted c run1)
                              (w1\<lparr>dw_source := hs, dw_db := mark_source_deleted now (ca_id c) (dw_db w)\<rparr>)
                       else if list_ex (\<lambda>cls. contains cls (do_detail out)) REFUSALS
                       then (w1\<lparr>dw_source := hs\<rparr>, Inr ((keep ''the source refused the delete'' run1)
                              \<lparr>dr_stopped_early := ''source refused: '' @ take 200 (do_detail out)\<rparr>))
                       else delete_loop asvc dest ssvc del dry now cs (keep ''the source refused the delete'' run1)
                              (w1\<lparr>dw_source := hs\<rparr>)))"
  using assms
  by (cases del; cases dry; cases checked) (auto simp: Let_def split: prod.splits sum.splits bool.splits)

lemma delete_loop_justified:
  assumes "delete_loop asvc dest ssvc del dry now cs run w = (w', res)"
  shows "\<exists>calls new. dw_source w' = calls @ dw_source w \<and> dw_archive w' = new @ dw_archive w \<and>
    (\<forall>later. justified asvc dest (later @ dw_archive w') ssvc cs (dw_source w) calls) \<and>
    (dry \<or> del = None \<longrightarrow> calls = [] \<and> dw_db w' = dw_db w)"
  using assms
proof (induction cs arbitrary: run w)
  case Nil
  then show ?case by (auto simp: justified_Nil)
next
  case (Cons c cs)
  obtain ha checked where ck: "still_in_the_archive asvc dest c (dw_archive w) = (ha, checked)" by fastforce
  obtain n0 where ha: "ha = n0 @ dw_archive w" using still_in_archive(1) [OF ck] by blast
  note step = Cons.prems [unfolded delete_loop_step [OF ck] Let_def]
  have ext: "\<exists>calls new. dw_source w' = calls @ dw_source w1 \<and> dw_archive w' = new @ dw_archive w \<and>
      (\<forall>later. justified asvc dest (later @ dw_archive w') ssvc cs (dw_source w1) calls) \<and>
      (dry \<or> del = None \<longrightarrow> calls = [] \<and> dw_db w' = dw_db w1)"
    if "delete_loop asvc dest ssvc del dry now cs run1 w1 = (w', res)" "dw_archive w1 = ha" for run1 w1
    using Cons.IH [OF that(1)] that(2) unfolding ha by (metis append.assoc)
  have here: "archive_holds asvc dest (later @ ha) c" if "checked = Inr (True, why)" for why later
    using still_in_archive(2) [OF ck that] .
  have one: "justified asvc dest asked ssvc (c # cs) base [DeleteObject (ca_source_key c)]"
    if "archive_holds asvc dest asked c" for asked base
    using justified_snoc [OF justified_Nil that] by simp
  have goon: ?case if go: "delete_loop asvc dest ssvc del dry now cs run1 (w\<lparr>dw_archive := ha\<rparr>) = (w', res)" for run1
  proof -
    obtain calls new where r: "dw_source w' = calls @ dw_source w" "dw_archive w' = new @ dw_archive w"
        "\<And>later. justified asvc dest (later @ dw_archive w') ssvc cs (dw_source w) calls"
        "dry \<or> del = None \<longrightarrow> calls = [] \<and> dw_db w' = dw_db w"
      using ext [OF go] by auto
    show ?thesis using r justified_more [OF r(3)] by (intro exI [of _ calls] exI [of _ new]) simp
  qed
  have called: ?case if go: "checked = Inr (True, why)" "\<not> dry" "del = Some d"
      "deleter_delete ssvc d (ca_source_key c) (dw_source w) = (hs, Inr out)"
      "\<not> refused ssvc (dw_source w) (DeleteObject (ca_source_key c))"
      "delete_loop asvc dest ssvc del dry now cs run1 w1 = (w', res)" "dw_archive w1 = ha" "dw_source w1 = hs"
    for why d hs out run1 w1
  proof -
    obtain calls new where r: "dw_source w' = calls @ hs" "dw_archive w' = new @ dw_archive w"
        "\<And>later. justified asvc dest (later @ dw_archive w') ssvc cs hs calls"
      using ext [OF go(6,7)] go(8) by auto
    obtain later where "dw_archive w' = later @ ha" using Cons.IH [OF go(6)] go(7) by auto
    then have "justified asvc dest (l @ dw_archive w') ssvc (c # cs) (dw_source w) (calls @ [DeleteObject (ca_source_key c)])" for l
      using justified_snoc [OF r(3) [of l, unfolded deleter_delete_outcome(1) [OF go(4)]]]
        here [OF go(1), of "l @ later"] go(5) by simp
    then show ?thesis using r(1,2) go(2,3) deleter_delete_outcome(1) [OF go(4)]
      by (intro exI [of _ "calls @ [DeleteObject (ca_source_key c)]"] exI [of _ new]) simp
  qed
  consider (raised) e where "checked = Inl e" | (kept) why where "checked = Inr (False, why)"
    | (dry) why where "checked = Inr (True, why)" "dry \<or> del = None"
    | (unusable) why d hs e where "checked = Inr (True, why)" "\<not> dry" "del = Some d"
        "deleter_delete ssvc d (ca_source_key c) (dw_source w) = (hs, Inl e)"
    | (answered) why d hs out where "checked = Inr (True, why)" "\<not> dry" "del = Some d"
        "deleter_delete ssvc d (ca_source_key c) (dw_source w) = (hs, Inr out)"
    by (cases checked; cases del; cases "deleter_delete ssvc (the del) (ca_source_key c) (dw_source w)")
      (auto, (metis (full_types) old.sum.exhaust)+)
  then show ?case
  proof cases
    case raised
    then show ?thesis using step ha by (auto simp: justified_Nil)
  next
    case kept
    then show ?thesis using step goon by simp
  next
    case dry
    then show ?thesis using step goon by simp
  next
    case unusable
    then show ?thesis using step ha deleter_delete_Inl [OF unusable(4)] by (auto simp: justified_Nil)
  next
    case answered
    note d = deleter_delete_outcome [OF answered(4)]
    show ?thesis
    proof (cases "\<not> do_deleted out \<and> list_ex (\<lambda>cls. contains cls (do_detail out)) REFUSALS")
      case True
      then show ?thesis using step answered d(1) ha one [OF here [OF answered(1)]]
        by (intro exI [of _ "[DeleteObject (ca_source_key c)]"] exI [of _ n0]) auto
    next
      case False
      then have "\<not> refused ssvc (dw_source w) (DeleteObject (ca_source_key c))" using d(2,3) by blast
      then show ?thesis using step answered False called [OF answered] by (auto split: if_splits)
    qed
  qed
qed

lemma keep_fields [simp]:
  "dr_considered (keep why r) = dr_considered r" "dr_deleted (keep why r) = dr_deleted r" "dr_kept (keep why r) = dr_kept r + 1"
  by (simp_all add: keep_def)

lemma count_deleted_fields [simp]:
  "dr_considered (count_deleted c r) = dr_considered r" "dr_deleted (count_deleted c r) = dr_deleted r + 1"
  "dr_kept (count_deleted c r) = dr_kept r"
  by (simp_all add: count_deleted_def)

lemma delete_loop_elim:
  assumes "delete_loop asvc dest ssvc del dry now (c # cs) run w = (w', res)"
  obtains (ended) "dw_db w' = dw_db w"
      "\<And>r. res = Inr r \<Longrightarrow> dr_considered r = dr_considered run + 1 \<and> dr_kept r = dr_kept run + 1 \<and> dr_deleted r = dr_deleted run"
  | (kept) run1 w1 where "delete_loop asvc dest ssvc del dry now cs run1 w1 = (w', res)" "dw_db w1 = dw_db w"
      "dr_considered run1 = dr_considered run + 1" "dr_kept run1 = dr_kept run + 1" "dr_deleted run1 = dr_deleted run"
  | (counted) run1 w1 where "delete_loop asvc dest ssvc del dry now cs run1 w1 = (w', res)" "dw_db w1 = dw_db w"
      "dry \<or> del = None" "dr_considered run1 = dr_considered run + 1" "dr_deleted run1 = dr_deleted run + 1" "dr_kept run1 = dr_kept run"
  | (removed) run1 w1 x where "delete_loop asvc dest ssvc del dry now cs run1 w1 = (w', res)"
      "dw_db w1 = mark_source_deleted now (ca_id c) (dw_db w)" "\<not> dry" "del \<noteq> None"
      "dw_source w1 = DeleteObject (ca_source_key c) # dw_source w"
      "ssvc (dw_source w) (DeleteObject (ca_source_key c)) = Inr x"
      "dr_considered run1 = dr_considered run + 1" "dr_deleted run1 = dr_deleted run + 1" "dr_kept run1 = dr_kept run"
proof -
  obtain ha checked where ck: "still_in_the_archive asvc dest c (dw_archive w) = (ha, checked)" by fastforce
  note step = assms [unfolded delete_loop_step [OF ck] Let_def]
  let ?run1 = "run\<lparr>dr_considered := dr_considered run + 1\<rparr>" and ?w1 = "w\<lparr>dw_archive := ha\<rparr>"
  show thesis
  proof (cases checked)
    case (Inl e)
    then show thesis using step by (intro ended) auto
  next
    case (Inr r)
    obtain ok why where r: "r = (ok, why)" by fastforce
    consider "\<not> ok" | "ok" "dry \<or> del = None" | d where "ok" "\<not> dry" "del = Some d" by blast
    then show thesis
    proof cases
      case 1
      then have "delete_loop asvc dest ssvc del dry now cs (keep why ?run1) ?w1 = (w', res)" using step Inr r by simp
      then show thesis by (rule kept) simp_all
    next
      case 2
      then have "delete_loop asvc dest ssvc del dry now cs (count_deleted c ?run1) ?w1 = (w', res)" using step Inr r by auto
      then show thesis by (rule counted) (simp_all add: 2)
    next
      case 3
      obtain hs ans where ans: "deleter_delete ssvc d (ca_source_key c) (dw_source w) = (hs, ans)" by fastforce
      show thesis
      proof (cases ans)
        case (Inl e)
        then show thesis using step \<open>checked = Inr r\<close> r 3 ans by (intro ended) auto
      next
        case (Inr out)
        have took: "\<exists>x. ssvc (dw_source w) (DeleteObject (ca_source_key c)) = Inr x" if "do_deleted out"
          using ans Inr that by (auto simp: deleter_delete_def split: if_splits sum.splits)
        show thesis
        proof (cases "do_deleted out")
          case True
          then obtain x where x: "ssvc (dw_source w) (DeleteObject (ca_source_key c)) = Inr x" using took by blast
          from True have "delete_loop asvc dest ssvc del dry now cs (count_deleted c ?run1)
              (?w1\<lparr>dw_source := hs, dw_db := mark_source_deleted now (ca_id c) (dw_db w)\<rparr>) = (w', res)"
            using step \<open>checked = Inr r\<close> r 3 ans Inr by simp
          then show thesis
            by (rule removed) (simp_all add: 3 x deleter_delete_outcome(1) [OF ans [unfolded Inr]])
        next
          case False
          show thesis
          proof (cases "list_ex (\<lambda>cls. contains cls (do_detail out)) REFUSALS")
            case True
            then show thesis using step \<open>checked = Inr r\<close> r 3 ans Inr False by (intro ended) auto
          next
            case no: False
            from False no have "delete_loop asvc dest ssvc del dry now cs (keep ''the source refused the delete'' ?run1)
                (?w1\<lparr>dw_source := hs\<rparr>) = (w', res)"
              using step \<open>checked = Inr r\<close> r 3 ans Inr by simp
            then show thesis by (rule kept) simp_all
          qed
        qed
      qed
    qed
  qed
qed

lemma delete_loop_source: 
  "delete_loop asvc dest ssvc del dry now cs run w = (w', res) \<Longrightarrow> \<exists>calls. dw_source w' = calls @ dw_source w"
  using delete_loop_justified by blast

lemma delete_loop_rows:
  assumes "delete_loop asvc dest ssvc del dry now cs run w = (w', res)"
  shows "\<exists>gone. dw_db w' = fold (\<lambda>c. mark_source_deleted now (ca_id c)) gone (dw_db w) \<and> set gone \<subseteq> set cs \<and>
    (\<forall>c \<in> set gone. \<exists>later h x. dw_source w' = later @ DeleteObject (ca_source_key c) # h \<and>
       ssvc h (DeleteObject (ca_source_key c)) = Inr x) \<and>
    (\<forall>r. res = Inr r \<longrightarrow>
       dr_considered r + dr_deleted run + dr_kept run = dr_considered run + dr_deleted r + dr_kept r \<and>
       (\<not> dry \<and> del \<noteq> None \<longrightarrow> dr_deleted r = dr_deleted run + length gone))"
  using assms
proof (induction cs arbitrary: run w)
  case Nil
  then show ?case by (intro exI [of _ "[]"]) auto
next
  case (Cons c cs)
  from Cons.prems show ?case
  proof (cases rule: delete_loop_elim)
    case ended
    then show ?thesis by (intro exI [of _ "[]"]) auto
  next
    case (kept run1 w1)
    show ?thesis using Cons.IH [OF kept(1)] kept(2-5) by fastforce
  next
    case (counted run1 w1)
    show ?thesis using Cons.IH [OF counted(1)] counted(2-6) by fastforce
  next
    case (removed run1 w1 x)
    obtain gone where d: "dw_db w' = fold (\<lambda>c. mark_source_deleted now (ca_id c)) gone (dw_db w1)" "set gone \<subseteq> set cs"
        "\<And>c. c \<in> set gone \<Longrightarrow> \<exists>later h x. dw_source w' = later @ DeleteObject (ca_source_key c) # h \<and>
          ssvc h (DeleteObject (ca_source_key c)) = Inr x"
        "\<And>r. res = Inr r \<Longrightarrow>
          dr_considered r + dr_deleted run1 + dr_kept run1 = dr_considered run1 + dr_deleted r + dr_kept r \<and>
          (\<not> dry \<and> del \<noteq> None \<longrightarrow> dr_deleted r = dr_deleted run1 + length gone)"
      using Cons.IH [OF removed(1)] by blast
    obtain later where "dw_source w' = later @ dw_source w1" using delete_loop_source [OF removed(1)] by blast
    then show ?thesis using d removed(2-) by (intro exI [of _ "c # gone"]) auto
  qed
qed


text \<open>The rows a pass marks as deleted are those of candidates whose deletion the source accepted, each
  once; a pass that ends has either kept or deleted every candidate it considered, and on a real run its
  count of deletions is the number of rows marked.\<close>

theorem deletion_rows:
  assumes "run_source_deletion asvc dest ssvc del dry now account cs w = (w', res)"
  shows "\<exists>gone. dw_db w' = fold (\<lambda>c. mark_source_deleted now (ca_id c)) gone (dw_db w) \<and> set gone \<subseteq> set cs \<and>
    (\<forall>c \<in> set gone. \<exists>later h x. dw_source w' = later @ DeleteObject (ca_source_key c) # h \<and>
       ssvc h (DeleteObject (ca_source_key c)) = Inr x) \<and>
    (\<forall>r. res = Inr r \<longrightarrow> dr_considered r = dr_deleted r + dr_kept r \<and> (\<not> dry \<longrightarrow> dr_deleted r = length gone))"
proof (cases "\<not> dry \<and> del = None")
  case True
  then show ?thesis using assms by (auto simp: run_source_deletion_def intro: exI [of _ "[]"])
next
  case False
  then have "delete_loop asvc dest ssvc del dry now cs (new_run account dry) w = (w', res)"
    using assms by (auto simp: run_source_deletion_def)
  from delete_loop_rows [OF this] show ?thesis using False by (simp add: new_run_def) blast
qed

section \<open>Witnesses\<close>

definition demo_candidates :: "candidate list" where
  "demo_candidates =
     [\<lparr>ca_id = 1, ca_source_key = ''a'', ca_source_size = Some 4, ca_destination_key = ''p/a'',
       ca_destination_size = Some (Some 4), ca_checksum_sha256 = Some None\<rparr>,
      \<lparr>ca_id = 2, ca_source_key = ''b'', ca_source_size = Some 3, ca_destination_key = ''p/b'',
       ca_destination_size = Some (Some 3), ca_checksum_sha256 = Some (Some ''3'')\<rparr>]"

definition taking :: service where "taking h cmd = Inr RDone"

definition demo_pass :: "deletion_world \<times> ((transfer_error + py_exc) + delete_run)" where
  "demo_pass = run_source_deletion good_archive \<lparr>cl_creds = demo_creds, cl_open = True, cl_multipart_threshold = 0,
       cl_multipart_chunk = 0\<rparr> taking (Some \<lparr>dl_creds = demo_creds, dl_open = True\<rparr>) False 7 ''acc'' demo_candidates
     \<lparr>dw_archive = [], dw_source = [], dw_db = empty_db\<lparr>db_recordings := [blank_recording 2 ''b'' 3]\<rparr>\<rparr>"

lemma demo_pass_result:
  "dw_source (fst demo_pass) = [DeleteObject ''b''] \<and>
   (case snd demo_pass of Inr r \<Rightarrow> dr_considered r = 2 \<and> dr_deleted r = 1 | Inl _ \<Rightarrow> False) \<and>
   map rec_state (db_recordings (dw_db (fst demo_pass))) = [SOURCE_DELETED]"
  by code_simp


theorem deletion_rows_witness:
  "\<exists>gone. length gone = 1 \<and> set gone \<subseteq> set demo_candidates \<and>
     dw_db (fst demo_pass) = fold (\<lambda>c. mark_source_deleted 7 (ca_id c)) gone
       (empty_db\<lparr>db_recordings := [blank_recording 2 ''b'' 3]\<rparr>)"
proof -
  have r: "demo_pass = (fst demo_pass, snd demo_pass)" by simp
  obtain run where i: "snd demo_pass = Inr run" using demo_pass_result by (cases "snd demo_pass") simp_all
  then have run: "snd demo_pass = Inr run \<and> dr_deleted run = 1" using demo_pass_result by simp
  obtain gone where g: "dw_db (fst demo_pass) = fold (\<lambda>c. mark_source_deleted 7 (ca_id c)) gone
      (empty_db\<lparr>db_recordings := [blank_recording 2 ''b'' 3]\<rparr>)" "set gone \<subseteq> set demo_candidates"
      "\<forall>r. snd demo_pass = Inr r \<longrightarrow> dr_deleted r = length gone"
    using deletion_rows [OF r [unfolded demo_pass_def], folded demo_pass_def] by auto
  then show ?thesis using run by (intro exI [of _ gone]) simp
qed

definition proved_db :: database where
  "proved_db = empty_db\<lparr>db_recordings := [(blank_recording 2 ''b'' 3)\<lparr>rec_state := AVAILABLE, rec_verified_at := Some 5\<rparr>]\<rparr>"

definition scanned_account :: connection where
  "scanned_account = \<lparr>con_id = rec_connection_id (blank_recording 2 ''b'' 3), con_brand_id = 1, con_tenant_id = 1,
     con_name = ''a'', con_destination_id = Some 1,
     con_status = CONN_OK, con_last_inventory_at = None, con_inventory_cursor_day = None, con_earliest_day = Some 0,
     con_last_probe_at = None, con_last_cdr_cursor = None, con_cdr_api_base = None, con_cdr_api_user = None,
     con_last_sms_cursor = None, con_is_enabled = True, con_concurrency_limit = 5,
     con_s3_bucket = ''bk'', con_status_detail = None\<rparr>"

theorem safe_light_witness:
  "safe_to_delete_from (complete_account proved_db ''b'' scanned_account) \<and>
   safe_to_delete_from (complete_account (update_recording 2 (requeue ''NOT_FOUND'' ''gone'') proved_db) ''b'' scanned_account)"
proof -
  have "safe_to_delete_from (complete_account proved_db ''b'' scanned_account)"
    using safe_light [of proved_db "''b''" scanned_account] by (simp add: proved_db_def scanned_account_def)
  then show ?thesis using safe_light [of proved_db "''b''" scanned_account] by blast
qed

end
