(* ===== verification/Reconciler.thy ===== *)
theory Reconciler
  imports Worker Deletion "HOL-Library.Option_ord"
begin

text \<open>
  \<open>src/c2w/workers/reconciler.py\<close>: the nightly comparison of the database with the archive. A connection
  is reconciled in one transaction: what raises leaves the database as it was. The archive's client
  is a parameter, or the failure of opening it; the counters of a run's row are the report's.

  Lemmas: what becomes of a recording that stalled, of one the archive no longer holds, and that the
  oldest verifications come round.
\<close>

definition VERIFY_SAMPLE_SIZE :: nat where "VERIFY_SAMPLE_SIZE = 500"

record reconcile_report =
  rp_brand_id :: int
  rp_connection_id :: int
  rp_checked :: nat
  rp_repaired :: nat
  rp_missing_destination :: nat
  rp_checksum_mismatch :: nat
  rp_stuck_recordings :: nat
  rp_failed_recordings :: nat
  rp_orphan_recordings :: nat
  rp_notes :: "string list"

definition new_report :: "connection \<Rightarrow> reconcile_report" where
  "new_report con =
     \<lparr>rp_brand_id = con_brand_id con, rp_connection_id = con_id con, rp_checked = 0, rp_repaired = 0,
      rp_missing_destination = 0, rp_checksum_mismatch = 0, rp_stuck_recordings = 0, rp_failed_recordings = 0,
      rp_orphan_recordings = 0, rp_notes = []\<rparr>"

definition problems :: "reconcile_report \<Rightarrow> nat" where
  "problems r = rp_missing_destination r + rp_checksum_mismatch r + rp_stuck_recordings r"

definition of_connection :: "connection \<Rightarrow> recording \<Rightarrow> bool" where
  "of_connection con r \<longleftrightarrow> rec_brand_id r = con_brand_id con \<and> rec_connection_id r = con_id con"

definition count_anomalies :: "connection \<Rightarrow> database \<Rightarrow> reconcile_report \<Rightarrow> reconcile_report" where
  "count_anomalies con d rep =
     (let rows = filter (of_connection con) (db_recordings d)
      in rep\<lparr>rp_failed_recordings := length (filter (\<lambda>r. rec_state r = REC_FAILED) rows),
             rp_orphan_recordings := length (filter (\<lambda>r. rec_match_method r = Some ''orphan'') rows)\<rparr>)"

section \<open>Stalled recordings\<close>

definition stalled :: "connection \<Rightarrow> recording \<Rightarrow> bool" where
  "stalled con r \<longleftrightarrow> of_connection con r \<and> rec_state r \<in> {UPLOADED, TRANSFERRING, VERIFIED}"

definition proved_row :: "recording \<Rightarrow> bool" where
  "proved_row r \<longleftrightarrow> rec_state r = VERIFIED \<and> rec_verified_at r \<noteq> None"

definition requeue_one :: "dt \<Rightarrow> connection \<Rightarrow> recording \<Rightarrow> database \<times> reconcile_report \<Rightarrow>
    database \<times> reconcile_report" where
  "requeue_one now con r s =
     (let (d, rep) = s
      in if proved_row r
         then (update_recording (rec_id r) (\<lambda>x. x\<lparr>rec_state := AVAILABLE\<rparr>) d, rep\<lparr>rp_repaired := rp_repaired rep + 1\<rparr>)
         else (let d1 = update_recording (rec_id r) (\<lambda>x. x\<lparr>rec_state := QUEUED\<rparr>) d;
                   rep1 = rep\<lparr>rp_stuck_recordings := rp_stuck_recordings rep + 1\<rparr>
               in case truthy_id (con_destination_id con) of
                    None \<Rightarrow> (d1, rep1)
                  | Some dest \<Rightarrow>
                      (enqueue now (rec_brand_id r) (con_id con) (rec_id r) (Some dest) TRANSFER 50 None d1,
                       rep1\<lparr>rp_repaired := rp_repaired rep1 + 1\<rparr>)))"

definition requeue_stuck :: "dt \<Rightarrow> connection \<Rightarrow> database \<times> reconcile_report \<Rightarrow> database \<times> reconcile_report" where
  "requeue_stuck now con s = fold (requeue_one now con) (take 2000 (filter (stalled con) (db_recordings (fst s)))) s"

section \<open>Checking the archive again\<close>

definition sampled :: "connection \<Rightarrow> recording \<Rightarrow> bool" where
  "sampled con r \<longleftrightarrow> of_connection con r \<and> rec_state r = AVAILABLE \<and> rec_destination_key r \<noteq> None"

text \<open>Oldest verification first, those never verified before all.\<close>

definition verify_sample :: "connection \<Rightarrow> database \<Rightarrow> recording list" where
  "verify_sample con d = take VERIFY_SAMPLE_SIZE (sort_key rec_verified_at (filter (sampled con) (db_recordings d)))"

definition note_bad :: "recording \<Rightarrow> reconcile_report \<Rightarrow> reconcile_report" where
  "note_bad r rep =
     (if rec_last_error_class r = Some ''NOT_FOUND''
      then rep\<lparr>rp_missing_destination := rp_missing_destination rep + 1\<rparr>
      else rep\<lparr>rp_checksum_mismatch := rp_checksum_mismatch rep + 1\<rparr>)"

definition recheck :: "service \<Rightarrow> s3_client \<Rightarrow> dt \<Rightarrow> connection \<Rightarrow> recording \<Rightarrow>
    history \<times> database \<times> reconcile_report \<Rightarrow> transfer_error + (history \<times> database \<times> reconcile_report)" where
  "recheck svc dest now con r s =
     (let (h, d, rep) = s; rep1 = rep\<lparr>rp_checked := rp_checked rep + 1\<rparr>
      in case verify_recording svc dest now r h of
           (r1, h1, Inl e) \<Rightarrow> Inl e
         | (r1, h1, Inr True) \<Rightarrow> Inr (h1, update_recording (rec_id r) (\<lambda>_. r1) d, rep1)
         | (r1, h1, Inr False) \<Rightarrow>
             (let d1 = update_recording (rec_id r) (\<lambda>_. r1) d; rep2 = note_bad r1 rep1
              in Inr (case if rec_state r = AVAILABLE then truthy_id (con_destination_id con) else None of
                        None \<Rightarrow> (h1, d1, rep2)
                      | Some di \<Rightarrow>
                          (h1, enqueue now (rec_brand_id r) (con_id con) (rec_id r) (Some di) TRANSFER 20 None d1,
                           rep2\<lparr>rp_repaired := rp_repaired rep2 + 1\<rparr>))))"

fun recheck_all :: "service \<Rightarrow> s3_client \<Rightarrow> dt \<Rightarrow> connection \<Rightarrow> recording list \<Rightarrow>
    history \<times> database \<times> reconcile_report \<Rightarrow> transfer_error + (history \<times> database \<times> reconcile_report)" where
  "recheck_all svc dest now con [] s = Inr s"
| "recheck_all svc dest now con (r # rs) s =
     res_bind (recheck svc dest now con r s) (\<lambda>s1. recheck_all svc dest now con rs s1)"

definition skip_note :: "destination_info list \<Rightarrow> connection \<Rightarrow> string option" where
  "skip_note dests con =
     (case con_destination_id con of
        None \<Rightarrow> Some ''no destination configured; archive verification skipped''
      | Some i \<Rightarrow>
          (case find_row (\<lambda>x. di_id x = i) dests of
             None \<Rightarrow> Some ''destination missing or disabled''
           | Some x \<Rightarrow> if di_is_enabled x then None else Some ''destination missing or disabled''))"

text \<open>The session does not flush before a query: the sample is drawn from the rows as they were \<open>stored\<close> when
  the transaction began, whatever the run has changed since.\<close>

definition sample_verify :: "destination_info list \<Rightarrow> service \<Rightarrow> transfer_error + s3_client \<Rightarrow> dt \<Rightarrow> connection \<Rightarrow>
    database \<Rightarrow> history \<times> database \<times> reconcile_report \<Rightarrow> transfer_error + (history \<times> database \<times> reconcile_report)" where
  "sample_verify dests svc opened now con stored s =
     (let (h, d, rep) = s
      in case skip_note dests con of
           Some note \<Rightarrow> Inr (h, d, rep\<lparr>rp_notes := rp_notes rep @ [note]\<rparr>)
         | None \<Rightarrow>
             (let sample = verify_sample con stored
              in if sample = [] then Inr s
                 else res_bind opened (\<lambda>client. recheck_all svc client now con sample s)))"

section \<open>The run\<close>

definition reconcile_alert :: "connection \<Rightarrow> string \<Rightarrow> reconcile_report \<Rightarrow> alert list" where
  "reconcile_alert con brand rep =
     (if problems rep = 0 then []
      else [new_alert ''Reconciliation found archive problems''
              (show_nat (problems rep) @ '' problem(s) on '' @ con_name con @ ''; ''
               @ show_nat (rp_repaired rep) @ '' re-queued for transfer.'')
              WARNING (Some (con_brand_id con)) (Some brand) (Some (''reconcile:'' @ show_int (con_id con)))
              [(''Verified'', show_nat (rp_checked rep)), (''Missing in archive'', show_nat (rp_missing_destination rep)),
               (''Checksum mismatch'', show_nat (rp_checksum_mismatch rep)), (''Stuck'', show_nat (rp_stuck_recordings rep))]])"

definition reconcile_run :: "dt \<Rightarrow> connection \<Rightarrow> int \<Rightarrow> sync_run" where
  "reconcile_run now con i =
     \<lparr>run_id = i, run_brand_id = con_brand_id con, run_connection_id = Some (con_id con), run_kind = RECONCILE,
      run_started_at = now, run_finished_at = Some now, run_ok = Some True, run_discovered = 0, run_queued = 0,
      run_error_detail = None\<rparr>"

text \<open>\<open>None\<close> is an exception: the transaction is rolled back.\<close>

definition reconcile_connection :: "destination_info list \<Rightarrow> (int \<times> string) list \<Rightarrow> service \<Rightarrow> (connection \<Rightarrow> transfer_error + s3_client) \<Rightarrow>
    dt \<Rightarrow> int \<Rightarrow> history \<Rightarrow> database \<Rightarrow> (database \<times> reconcile_report \<times> alert list) option" where
  "reconcile_connection dests brands svc opened now i h d =
     (case find_row (\<lambda>c. con_id c = i) (db_connections d) of
        None \<Rightarrow> None
      | Some con \<Rightarrow>
          (let d0 = d\<lparr>db_runs := db_runs d @ [reconcile_run now con (db_next_id d)], db_next_id := db_next_id d + 1\<rparr>;
               rep0 = count_anomalies con d0 (new_report con);
               (d1, rep1) = requeue_stuck now con (d0, rep0)
           in case sample_verify dests svc (opened con) now con d0 (h, d1, rep1) of
                Inl _ \<Rightarrow> None
              | Inr (h2, d2, rep2) \<Rightarrow>
                  if problems rep2 = 0 then Some (d2, rep2, [])
                  else (case map_of brands (con_brand_id con) of
                          None \<Rightarrow> None
                        | Some brand \<Rightarrow> Some (d2, rep2, reconcile_alert con brand rep2))))"

fun reconcile_each :: "(int \<Rightarrow> database \<Rightarrow> (database \<times> reconcile_report \<times> alert list) option) \<Rightarrow> int list \<Rightarrow> database \<Rightarrow>
    database \<times> reconcile_report list \<times> alert list" where
  "reconcile_each one [] d = (d, [], [])"
| "reconcile_each one (i # is) d =
     (case one i d of
        None \<Rightarrow> reconcile_each one is d
      | Some (d1, rep, as) \<Rightarrow> (let (d2, reps, as2) = reconcile_each one is d1 in (d2, rep # reps, as @ as2)))"

definition reconcile_all :: "(int \<Rightarrow> database \<Rightarrow> (database \<times> reconcile_report \<times> alert list) option) \<Rightarrow> database \<Rightarrow>
    database \<times> reconcile_report list \<times> alert list" where
  "reconcile_all one d = reconcile_each one (map con_id (filter con_is_enabled (db_connections d))) d"

text \<open>Once a day, at the hour that is set: the date of the last run and whether this call runs.\<close>

definition maybe_run :: "int \<Rightarrow> dt \<Rightarrow> string option \<Rightarrow> string option \<times> bool" where
  "maybe_run hr now last_date =
     (let today = date_text now
      in if hour_of now \<noteq> hr \<or> last_date = Some today then (last_date, False) else (Some today, True))"

section \<open>Stalled recordings\<close>

definition unstalled :: "recording \<Rightarrow> recording" where
  "unstalled r = r\<lparr>rec_state := if proved_row r then AVAILABLE else QUEUED\<rparr>"

lemma update_others:
  assumes "distinct (map rec_id rows)" "r \<in> set rows" "\<And>x. rec_id (g x) = rec_id x" "g r = r"
  shows "update_where (\<lambda>x. rec_id x = rec_id r) f (map g rows) = map (\<lambda>x. if x = r then f r else g x) rows"
proof -
  have "x = r" if "x \<in> set rows" "rec_id x = rec_id r" for x
    using assms(1,2) that by (metis distinct_map inj_onD)
  then show ?thesis using assms(3,4) by (auto simp: update_where_def)
qed

definition has_transfer :: "database \<Rightarrow> recording \<Rightarrow> bool" where
  "has_transfer d r \<longleftrightarrow> list_ex (same_work (rec_brand_id r) (rec_id r) TRANSFER) (db_jobs d)"

lemma enqueue_jobs:
  "\<exists>new. db_jobs (enqueue now b c i dest k p t d) = db_jobs d @ new \<and>
     (\<forall>j \<in> set new. same_work b i k j \<and> job_state_of j = PENDING \<and> job_priority j = p) \<and>
     (new = [] \<longleftrightarrow> list_ex (same_work b i k) (db_jobs d)) \<and>
     list_ex (same_work b i k) (db_jobs (enqueue now b c i dest k p t d))"
  by (auto simp: enqueue_def new_job_def same_work_def)

lemma enqueue_has [simp]: "list_ex (same_work b i k) (db_jobs (enqueue now b c i dest k p t d))"
  using enqueue_jobs by blast

lemma enqueue_recordings [simp]: "db_recordings (enqueue now b c i dest k p t d) = db_recordings d"
  by (simp add: enqueue_def)

lemma requeue_rows:
  assumes "distinct (map rec_id recs)" "distinct rs" "set rs \<subseteq> set recs" "D \<inter> set rs = {}"
    and "db_recordings d = map (\<lambda>x. if x \<in> D then unstalled x else x) recs"
    and "fold (requeue_one now con) rs (d, rep) = (d', rep')"
  shows "db_recordings d' = map (\<lambda>x. if x \<in> D \<union> set rs then unstalled x else x) recs"
  using assms(2-)
proof (induction rs arbitrary: D d rep)
  case (Cons r rs)
  obtain d1 rep1 where one: "requeue_one now con r (d, rep) = (d1, rep1)" by fastforce
  let ?g = "\<lambda>x. if x \<in> D then unstalled x else x"
  have u: "update_where (\<lambda>x. rec_id x = rec_id r) f (map ?g recs) = map (\<lambda>x. if x = r then f r else ?g x) recs" for f
    by (rule update_others [OF assms(1)]) (use Cons.prems in \<open>auto simp: unstalled_def\<close>)
  have "db_recordings d1 = map (\<lambda>x. if x = r then unstalled r else ?g x) recs"
    using one u [of "\<lambda>x. x\<lparr>rec_state := AVAILABLE\<rparr>"] u [of "\<lambda>x. x\<lparr>rec_state := QUEUED\<rparr>"] Cons.prems(4)
    by (auto simp: requeue_one_def Let_def unstalled_def split: if_splits option.splits)
  then have "db_recordings d1 = map (\<lambda>x. if x \<in> insert r D then unstalled x else x) recs" by auto
  with Cons.IH [of "insert r D" d1 rep1] Cons.prems one show ?case by auto
qed simp

definition same_or_more :: "job list \<Rightarrow> job list \<Rightarrow> int \<Rightarrow> recording list \<Rightarrow> bool" where
  "same_or_more before after priority rs \<longleftrightarrow>
     (\<exists>new. after = before @ new \<and> (\<forall>j \<in> set new. job_state_of j = PENDING \<and> job_priority j = priority \<and>
        (\<exists>r \<in> set rs. same_work (rec_brand_id r) (rec_id r) TRANSFER j \<and>
           \<not> list_ex (same_work (rec_brand_id r) (rec_id r) TRANSFER) before)))"

lemma same_or_more_refl: "same_or_more js js p rs"
  by (simp add: same_or_more_def)

lemma same_or_more_step:
  assumes "same_or_more a b p [r]" "same_or_more b c p rs"
  shows "same_or_more a c p (r # rs)"
proof -
  obtain n1 n2 where n: "b = a @ n1" "c = b @ n2"
    "\<forall>j \<in> set n1. job_state_of j = PENDING \<and> job_priority j = p \<and>
        same_work (rec_brand_id r) (rec_id r) TRANSFER j \<and> \<not> list_ex (same_work (rec_brand_id r) (rec_id r) TRANSFER) a"
    "\<forall>j \<in> set n2. job_state_of j = PENDING \<and> job_priority j = p \<and>
        (\<exists>r \<in> set rs. same_work (rec_brand_id r) (rec_id r) TRANSFER j \<and>
           \<not> list_ex (same_work (rec_brand_id r) (rec_id r) TRANSFER) b)"
    using assms by (auto simp: same_or_more_def)
  have "c = a @ n1 @ n2" using n(1,2) by simp
  moreover have "\<not> list_ex q a" if "\<not> list_ex q b" for q using that n(1) by simp
  ultimately show ?thesis unfolding same_or_more_def using n(3,4)
    by (intro exI [of _ "n1 @ n2"]) (metis Un_iff list.set_intros set_append)
qed

lemma enqueue_more:
  "same_or_more (db_jobs d) (db_jobs (enqueue now (rec_brand_id r) c (rec_id r) dest TRANSFER p t d)) p [r]"
  by (auto simp: same_or_more_def enqueue_def new_job_def same_work_def)

lemma same_or_more_has:
  "same_or_more (db_jobs d) (db_jobs d') p rs \<Longrightarrow> has_transfer d r \<Longrightarrow> has_transfer d' r"
  by (auto simp: same_or_more_def has_transfer_def)

lemma requeue_counts:
  assumes "fold (requeue_one now con) rs (d, rep) = (d', rep')"
  shows "same_or_more (db_jobs d) (db_jobs d') 50 (filter (\<lambda>r. \<not> proved_row r) rs) \<and>
    (truthy_id (con_destination_id con) \<noteq> None \<longrightarrow> (\<forall>r \<in> set rs. \<not> proved_row r \<longrightarrow> has_transfer d' r)) \<and>
    rp_stuck_recordings rep' = rp_stuck_recordings rep + length (filter (\<lambda>r. \<not> proved_row r) rs) \<and>
    rp_repaired rep' = rp_repaired rep +
      (if truthy_id (con_destination_id con) = None then length (filter proved_row rs) else length rs)"
  using assms
proof (induction rs arbitrary: d rep)
  case Nil
  then show ?case by (simp add: same_or_more_refl)
next
  case (Cons r rs)
  obtain d1 rep1 where one: "requeue_one now con r (d, rep) = (d1, rep1)" by fastforce
  note ih = Cons.IH [of d1 rep1]
  have rest: "fold (requeue_one now con) rs (d1, rep1) = (d', rep')" using Cons.prems one by simp
  show ?case
  proof (cases "proved_row r")
    case True
    then have "db_jobs d1 = db_jobs d" "rp_repaired rep1 = rp_repaired rep + 1"
      "rp_stuck_recordings rep1 = rp_stuck_recordings rep"
      using one by (auto simp: requeue_one_def Let_def)
    then show ?thesis using ih [OF rest] True by simp
  next
    case False
    have jobs: "same_or_more (db_jobs d) (db_jobs d1) 50 [r]"
      using one False enqueue_more [of "update_recording (rec_id r) (\<lambda>x. x\<lparr>rec_state := QUEUED\<rparr>) d"]
      by (auto simp: requeue_one_def Let_def same_or_more_refl split: option.splits)
    have has: "has_transfer d1 r" if "truthy_id (con_destination_id con) \<noteq> None"
      using one False that by (auto simp: requeue_one_def Let_def has_transfer_def split: option.splits)
    have n: "rp_stuck_recordings rep1 = rp_stuck_recordings rep + 1"
      "rp_repaired rep1 = rp_repaired rep + (if truthy_id (con_destination_id con) = None then 0 else 1)"
      using one False by (auto simp: requeue_one_def Let_def split: option.splits)
    show ?thesis using ih [OF rest] jobs has n False same_or_more_step [OF jobs] same_or_more_has by auto
  qed
qed

text \<open>What the night does to the recordings that stalled, the first two thousand of them: one that was
  proved becomes AVAILABLE, any other is QUEUED, and no other recording changes. With a destination, each
  that is queued has a transfer job: a new pending one where there was none, and where there was one, in
  whatever state, that job as it stands. What is reported stuck and repaired is their number.\<close>

theorem requeue_stuck_outcome:
  assumes "distinct (map rec_id (db_recordings d))" "requeue_stuck now con (d, rep) = (d', rep')"
    and "rows = take 2000 (filter (stalled con) (db_recordings d))"
  shows "db_recordings d' = map (\<lambda>r. if r \<in> set rows then unstalled r else r) (db_recordings d) \<and>
    same_or_more (db_jobs d) (db_jobs d') 50 (filter (\<lambda>r. \<not> proved_row r) rows) \<and>
    (truthy_id (con_destination_id con) \<noteq> None \<longrightarrow> (\<forall>r \<in> set rows. \<not> proved_row r \<longrightarrow> has_transfer d' r)) \<and>
    rp_stuck_recordings rep' = rp_stuck_recordings rep + length (filter (\<lambda>r. \<not> proved_row r) rows) \<and>
    rp_repaired rep' = rp_repaired rep +
      (if truthy_id (con_destination_id con) = None then length (filter proved_row rows) else length rows)"
proof -
  have f: "fold (requeue_one now con) rows (d, rep) = (d', rep')" using assms(2,3) by (simp add: requeue_stuck_def)
  have "distinct (filter (stalled con) (db_recordings d))" using assms(1) by (simp add: distinct_map)
  then have "distinct rows" "set rows \<subseteq> set (db_recordings d)" unfolding assms(3) by (auto dest: in_set_takeD)
  then show ?thesis using requeue_rows [OF assms(1) _ _ _ _ f, of "{}"] requeue_counts [OF f] by simp
qed

section \<open>Checking again\<close>

lemma verify_keeps_id: "verify_recording svc dest now r h = (r1, h1, res) \<Longrightarrow> rec_id r1 = rec_id r"
  by (auto simp: verify_recording_def requeue_def split: option.splits prod.splits sum.splits if_splits)

text \<open>One check of a sampled recording with an archive key. Found good, only its row's verification is
  new. Found bad, it is QUEUED, counted in exactly one of the two kinds of damage and as repaired; but it
  gets a pending job only where it had no transfer job at all. An object that had been copied has its
  finished job, the enqueue leaves that as it is, and the recording waits QUEUED with no job that any
  worker would claim.\<close>

theorem recheck_outcome:
  assumes "sampled con r" "nonempty (rec_destination_key r) = Some key" "truthy_id (con_destination_id con) = Some dest_id"
    and "verify_recording svc dest now r h = (r1, h1, Inr ok)"
    and "recheck svc dest now con r (h, d, rep) = Inr (h', d', rep')"
  shows "db_recordings d' = update_where (\<lambda>x. rec_id x = rec_id r) (\<lambda>_. r1) (db_recordings d) \<and>
    rp_checked rep' = rp_checked rep + 1 \<and>
    (ok \<longrightarrow> r1 = r\<lparr>rec_verified_at := Some now\<rparr> \<and> db_jobs d' = db_jobs d \<and> problems rep' = problems rep) \<and>
    (\<not> ok \<longrightarrow> rec_state r1 = QUEUED \<and> rp_repaired rep' = rp_repaired rep + 1 \<and> problems rep' = problems rep + 1 \<and>
       (if has_transfer d r
        then db_jobs d' = db_jobs d \<and>
          ((\<forall>j \<in> set (db_jobs d). same_work (rec_brand_id r) (rec_id r) TRANSFER j \<longrightarrow> job_state_of j = DONE) \<longrightarrow>
           (\<forall>f t. \<not> list_ex (\<lambda>j. same_work (rec_brand_id r) (rec_id r) TRANSFER j \<and> claimable t f j) (db_jobs d')))
        else (\<exists>j. db_jobs d' = db_jobs d @ [j] \<and> same_work (rec_brand_id r) (rec_id r) TRANSFER j \<and>
          job_state_of j = PENDING \<and> job_priority j = 20)))"
proof -
  let ?w = "same_work (rec_brand_id r) (rec_id r) TRANSFER" and ?d = "update_recording (rec_id r) (\<lambda>_. r1) d"
  note v = verify_outcome [OF assms(4,2)]
  show ?thesis
  proof (cases ok)
    case True
    then have "h' = h1" "d' = ?d" "rep' = rep\<lparr>rp_checked := rp_checked rep + 1\<rparr>"
      using assms(4,5) by (auto simp: recheck_def Let_def)
    then show ?thesis using v True by (simp add: problems_def)
  next
    case False
    have av: "rec_state r = AVAILABLE" using assms(1) by (simp add: sampled_def)
    have d': "d' = enqueue now (rec_brand_id r) (con_id con) (rec_id r) (Some dest_id) TRANSFER 20 None ?d"
      and rep': "rep' = (note_bad r1 (rep\<lparr>rp_checked := rp_checked rep + 1\<rparr>))
        \<lparr>rp_repaired := rp_repaired (note_bad r1 (rep\<lparr>rp_checked := rp_checked rep + 1\<rparr>)) + 1\<rparr>"
      using assms(3,4,5) False av by (auto simp: recheck_def Let_def)
    have n: "rp_checked rep' = rp_checked rep + 1" "rp_repaired rep' = rp_repaired rep + 1" "problems rep' = problems rep + 1"
      unfolding rep' by (simp_all add: note_bad_def problems_def)
    have q: "rec_state r1 = QUEUED" using v False by simp
    show ?thesis
    proof (cases "has_transfer d r")
      case True
      then have "d' = ?d" unfolding d' by (simp add: enqueue_def has_transfer_def)
      moreover have "\<not> (?w j \<and> claimable t f j)"
        if "\<forall>j \<in> set (db_jobs d). ?w j \<longrightarrow> job_state_of j = DONE" "j \<in> set (db_jobs d)" for j f t
        using that by (auto simp: claimable_def)
      ultimately show ?thesis using True False n q by (auto simp: list_ex_iff)
    next
      case no: False
      then show ?thesis using False n q unfolding d'
        by (auto simp: enqueue_def has_transfer_def new_job_def same_work_def)
    qed
  qed
qed

section \<open>Every object comes round\<close>

definition overdue_row :: "dt \<Rightarrow> connection \<Rightarrow> recording \<Rightarrow> bool" where
  "overdue_row t con r \<longleftrightarrow> sampled con r \<and> rec_verified_at r < Some t"

definition overdue :: "dt \<Rightarrow> connection \<Rightarrow> database \<Rightarrow> nat" where
  "overdue t con d = length (filter (overdue_row t con) (db_recordings d))"

lemma recheck_row:
  assumes "sampled con r" "rec_destination_key r \<noteq> Some []" "t \<le> now"
    and "recheck svc dest now con r (h, d, rep) = Inr (h', d', rep')"
  obtains r1 where "db_recordings d' = update_where (\<lambda>x. rec_id x = rec_id r) (\<lambda>_. r1) (db_recordings d)"
    "rec_id r1 = rec_id r" "\<not> overdue_row t con r1"
proof -
  obtain r1 h1 res where v: "verify_recording svc dest now r h = (r1, h1, res)" by (metis surj_pair)
  obtain ok where ok: "res = Inr ok" using assms(4) v by (cases res) (auto simp: recheck_def)
  obtain key where key: "nonempty (rec_destination_key r) = Some key"
    using assms(1,2) by (cases "rec_destination_key r") (auto simp: sampled_def nonempty_Some)
  have "\<not> overdue_row t con r1"
    using verify_outcome [OF v key] ok assms(3) by (cases ok) (auto simp: overdue_row_def sampled_def)
  moreover have "db_recordings d' = update_where (\<lambda>x. rec_id x = rec_id r) (\<lambda>_. r1) (db_recordings d)"
    using assms(4) v ok by (cases ok) (auto simp: recheck_def Let_def split: option.splits if_splits)
  ultimately show thesis using that verify_keeps_id [OF v] by blast
qed

lemma recheck_all_rows:
  assumes "distinct (map rec_id recs)" "\<forall>r \<in> set recs. rec_destination_key r \<noteq> Some []" "t \<le> now"
    and "distinct rs" "set rs \<subseteq> set recs" "\<forall>r \<in> set rs. sampled con r"
    and "db_recordings d = map g recs" "\<And>x. rec_id (g x) = rec_id x" "\<And>r. r \<in> set rs \<Longrightarrow> g r = r"
    and "recheck_all svc dest now con rs (h, d, rep) = Inr (h', d', rep')"
  shows "\<exists>g'. db_recordings d' = map g' recs \<and> (\<forall>x. x \<notin> set rs \<longrightarrow> g' x = g x) \<and>
    (\<forall>r \<in> set rs. \<not> overdue_row t con (g' r))"
  using assms(4-)
proof (induction rs arbitrary: g h d rep)
  case (Cons r rs)
  obtain h1 d1 rep1 where one: "recheck svc dest now con r (h, d, rep) = Inr (h1, d1, rep1)"
      "recheck_all svc dest now con rs (h1, d1, rep1) = Inr (h', d', rep')"
    using Cons.prems(7) by (cases "recheck svc dest now con r (h, d, rep)") auto
  have rr: "sampled con r" "rec_destination_key r \<noteq> Some []" using Cons.prems assms(2) by auto
  obtain r1 where r1: "db_recordings d1 = update_where (\<lambda>x. rec_id x = rec_id r) (\<lambda>_. r1) (db_recordings d)"
      "rec_id r1 = rec_id r" "\<not> overdue_row t con r1"
    by (rule recheck_row [OF rr assms(3) one(1)])
  let ?g = "\<lambda>x. if x = r then r1 else g x"
  have "db_recordings d1 = map ?g recs"
    unfolding r1(1) Cons.prems(4) by (rule update_others [OF assms(1)]) (use Cons.prems in auto)
  then obtain g' where "db_recordings d' = map g' recs" "\<forall>x. x \<notin> set rs \<longrightarrow> g' x = ?g x"
      "\<forall>r \<in> set rs. \<not> overdue_row t con (g' r)"
    using Cons.IH [of d1 ?g h1 rep1] Cons.prems r1(2) one(2) by fastforce
  then show ?case using r1(3) Cons.prems(1) by (intro exI [of _ g']) auto
qed auto

lemma drop_sorted_below:
  assumes "sorted (map key xs)" "\<And>x. p x \<longleftrightarrow> key x < c"
  shows "length (filter p (drop k xs)) = length (filter p xs) - k"
  using assms(1)
proof (induction xs arbitrary: k)
  case (Cons x xs)
  show ?case
  proof (cases "p x")
    case True
    then show ?thesis using Cons by (cases k) auto
  next
    case False
    then have "\<forall>y \<in> set (x # xs). \<not> p y" using Cons.prems assms(2) by fastforce
    then have "filter p (x # xs) = []" "filter p (drop k (x # xs)) = []"
      using set_drop_subset [of k "x # xs"] unfolding filter_empty_conv by blast+
    then show ?thesis by simp
  qed
qed simp

lemma sample_rows:
  assumes "distinct (map rec_id (db_recordings d0))" "\<forall>r \<in> set (db_recordings d0). rec_destination_key r \<noteq> Some []"
    and "t \<le> now" "skip_note dests con = None"
    and "db_recordings d = map u (db_recordings d0)" "\<And>x. rec_id (u x) = rec_id x" "\<And>x. sampled con x \<Longrightarrow> u x = x"
    and "sample_verify dests svc opened now con d0 (h, d, rep) = Inr (h', d', rep')"
  shows "\<exists>g. db_recordings d' = map g (db_recordings d0) \<and> (\<forall>x. x \<notin> set (verify_sample con d0) \<longrightarrow> g x = u x) \<and>
    (\<forall>r \<in> set (verify_sample con d0). \<not> overdue_row t con (g r))"
proof (cases "verify_sample con d0 = []")
  case True
  then have "d' = d" using assms(4,8) by (simp add: sample_verify_def)
  then show ?thesis unfolding True using assms(5) by (intro exI [of _ u]) simp
next
  case False
  then obtain client where r: "recheck_all svc client now con (verify_sample con d0) (h, d, rep) = Inr (h', d', rep')"
    using assms(4,8) by (cases opened) (auto simp: sample_verify_def Let_def)
  have "set (verify_sample con d0) \<subseteq> {r \<in> set (db_recordings d0). sampled con r}" "distinct (verify_sample con d0)"
    using assms(1) by (auto simp: verify_sample_def distinct_map dest: in_set_takeD)
  with recheck_all_rows [OF assms(1,2,3) _ _ _ assms(5,6) _ r] assms(7) show ?thesis by blast
qed

lemma overdue_rest:
  assumes "distinct (map rec_id (db_recordings d))"
  shows "card {r \<in> set (db_recordings d). overdue_row t con r \<and> r \<notin> set (verify_sample con d)} \<le> overdue t con d - VERIFY_SAMPLE_SIZE"
proof -
  let ?recs = "db_recordings d" and ?o = "overdue_row t con" and ?v = "\<lambda>r. rec_verified_at r < Some t"
  define s where "s = sort_key rec_verified_at (filter (sampled con) ?recs)"
  have sample: "verify_sample con d = take VERIFY_SAMPLE_SIZE s" by (simp add: verify_sample_def s_def)
  have dis: "distinct s" using assms by (simp add: distinct_map s_def)
  have s: "set s = {r \<in> set ?recs. sampled con r}" by (auto simp: s_def)
  have "{r \<in> set ?recs. ?o r \<and> r \<notin> set (take VERIFY_SAMPLE_SIZE s)} \<subseteq> {x \<in> set (drop VERIFY_SAMPLE_SIZE s). ?o x}"
  proof safe
    fix x assume x: "x \<in> set ?recs" "?o x" "x \<notin> set (take VERIFY_SAMPLE_SIZE s)"
    then have "x \<in> set s" using s by (simp add: overdue_row_def)
    then show "x \<in> set (drop VERIFY_SAMPLE_SIZE s)" using x(3) by (metis Un_iff append_take_drop_id set_append)
  qed
  then have "card {r \<in> set ?recs. ?o r \<and> r \<notin> set (take VERIFY_SAMPLE_SIZE s)} \<le> card {x \<in> set (drop VERIFY_SAMPLE_SIZE s). ?o x}"
    by (rule card_mono [rotated]) simp
  also have "\<dots> = length (filter ?o (drop VERIFY_SAMPLE_SIZE s))"
    using distinct_card [of "filter ?o (drop VERIFY_SAMPLE_SIZE s)"] dis by (simp add: distinct_drop)
  also have "\<dots> = length (filter ?v (drop VERIFY_SAMPLE_SIZE s))"
    using s by (intro arg_cong [of _ _ length] filter_cong) (auto simp: overdue_row_def dest: in_set_dropD)
  also have "\<dots> = length (filter ?v s) - VERIFY_SAMPLE_SIZE"
    by (rule drop_sorted_below) (simp_all add: s_def)
  also have "length (filter ?v s) = overdue t con d"
  proof -
    have "mset s = mset (filter (sampled con) ?recs)" by (simp add: s_def)
    then have "mset (filter ?v s) = mset (filter ?v (filter (sampled con) ?recs))" by (metis mset_filter)
    then have "length (filter ?v s) = length (filter ?v (filter (sampled con) ?recs))" using mset_eq_length by blast
    also have "\<dots> = overdue t con d"
      unfolding overdue_def filter_filter by (intro arg_cong [of _ _ length] filter_cong) (auto simp: overdue_row_def)
    finally show ?thesis .
  qed
  finally show ?thesis unfolding sample .
qed

lemma overdue_card: "distinct (map rec_id (db_recordings d)) \<Longrightarrow>
    length (filter p (db_recordings d)) = card {r \<in> set (db_recordings d). p r}"
  using distinct_card [of "filter p (db_recordings d)"] by (simp add: distinct_map)

text \<open>C25: the archive is checked in turns. A reconciliation that ends lessens the recordings of the connection
  that are playable and were last verified before a given time by a whole sample, or to none, but for those
  it has itself just taken out of the VERIFIED state; and the former can only be passed over so often: none
  waits for ever.\<close>

theorem rechecks_come_round:
  assumes "find_row (\<lambda>c. con_id c = i) (db_connections d) = Some con" "skip_note dests con = None"
    and "distinct (map rec_id (db_recordings d))" "\<forall>r \<in> set (db_recordings d). rec_destination_key r \<noteq> Some []"
    and "t \<le> now" "reconcile_connection dests brands svc opened now i h d = Some (d', rep', as)"
  shows "overdue t con d' \<le> (overdue t con d - VERIFY_SAMPLE_SIZE) +
    length (filter (\<lambda>r. stalled con r \<and> proved_row r) (db_recordings d))"
proof -
  define d0 where "d0 = d\<lparr>db_runs := db_runs d @ [reconcile_run now con (db_next_id d)], db_next_id := db_next_id d + 1\<rparr>"
  have recs: "db_recordings d0 = db_recordings d" by (simp add: d0_def)
  obtain d1 rep1 where q: "requeue_stuck now con (d0, count_anomalies con d0 (new_report con)) = (d1, rep1)" by fastforce
  obtain h2 where v: "sample_verify dests svc (opened con) now con d0 (h, d1, rep1) = Inr (h2, d', rep')"
  proof -
    have "(case sample_verify dests svc (opened con) now con d0 (h, d1, rep1) of
              Inl _ \<Rightarrow> None
            | Inr (h2, d2, rep2) \<Rightarrow>
                if problems rep2 = 0 then Some (d2, rep2, [])
                else (case map_of brands (con_brand_id con) of
                        None \<Rightarrow> None | Some brand \<Rightarrow> Some (d2, rep2, reconcile_alert con brand rep2))) = Some (d', rep', as)"
      using assms(6) unfolding reconcile_connection_def assms(1) option.case Let_def d0_def [symmetric] q prod.case .
    then show thesis
      by (cases "sample_verify dests svc (opened con) now con d0 (h, d1, rep1)")
        (auto split: if_splits option.splits intro: that)
  qed
  let ?rows = "take 2000 (filter (stalled con) (db_recordings d0))" and ?s = "set (verify_sample con d0)"
  define u where "u = (\<lambda>x. if x \<in> set ?rows then unstalled x else x)"
  have dis: "distinct (map rec_id (db_recordings d0))" "distinct ?rows" "set ?rows \<subseteq> set (db_recordings d0)"
    using assms(3) recs by (auto simp: distinct_map dest: in_set_takeD)
  have f: "fold (requeue_one now con) ?rows (d0, count_anomalies con d0 (new_report con)) = (d1, rep1)"
    using q unfolding requeue_stuck_def fst_conv .
  have u1: "db_recordings d1 = map u (db_recordings d0)"
    using requeue_rows [OF dis _ _ f, of "{}"] unfolding u_def Un_empty_left Int_empty_left by (simp only: empty_iff if_False map_idI)
  have u2: "rec_id (u x) = rec_id x" "sampled con x \<Longrightarrow> u x = x" for x
    by (auto simp: u_def unstalled_def sampled_def stalled_def dest!: in_set_takeD)
  obtain g where g: "db_recordings d' = map g (db_recordings d0)" "\<And>x. x \<notin> ?s \<Longrightarrow> g x = u x"
      "\<And>r. r \<in> ?s \<Longrightarrow> \<not> overdue_row t con (g r)"
    using sample_rows [OF dis(1) _ assms(5,2) u1 u2 v] assms(4) unfolding recs by blast
  have cases_u: "overdue_row t con x \<or> stalled con x \<and> proved_row x" if "overdue_row t con (u x)" for x
    using that by (auto simp: u_def unstalled_def overdue_row_def sampled_def stalled_def of_connection_def
        split: if_splits dest!: in_set_takeD)
  have "overdue t con d' = length (filter (\<lambda>x. overdue_row t con (g x)) (db_recordings d0))"
    unfolding overdue_def g(1) by (simp add: filter_map o_def)
  also have "\<dots> = card {x \<in> set (db_recordings d0). overdue_row t con (g x)}" by (rule overdue_card [OF dis(1)])
  also have "\<dots> \<le> card ({x \<in> set (db_recordings d0). overdue_row t con x \<and> x \<notin> ?s} \<union>
      {x \<in> set (db_recordings d0). stalled con x \<and> proved_row x})"
  proof (rule card_mono)
    have "x \<notin> ?s \<and> (overdue_row t con x \<or> stalled con x \<and> proved_row x)" if "overdue_row t con (g x)" for x
      using g(2,3) cases_u that by metis
    then show "{x \<in> set (db_recordings d0). overdue_row t con (g x)}
        \<subseteq> {x \<in> set (db_recordings d0). overdue_row t con x \<and> x \<notin> ?s} \<union>
          {x \<in> set (db_recordings d0). stalled con x \<and> proved_row x}" by blast
  qed simp
  also have "\<dots> \<le> card {x \<in> set (db_recordings d0). overdue_row t con x \<and> x \<notin> ?s} +
      card {x \<in> set (db_recordings d0). stalled con x \<and> proved_row x}" by (rule card_Un_le)
  also have "\<dots> \<le> (overdue t con d0 - VERIFY_SAMPLE_SIZE) + length (filter (\<lambda>r. stalled con r \<and> proved_row r) (db_recordings d0))"
    using overdue_rest [OF dis(1)] overdue_card [OF dis(1), of "\<lambda>r. stalled con r \<and> proved_row r"] by simp
  finally show ?thesis by (simp add: overdue_def recs)
qed

section \<open>Examples\<close>

definition stalled_db :: database where
  "stalled_db = empty_db\<lparr>db_recordings := [(blank_recording 101 ''k'' 3)\<lparr>rec_state := UPLOADED\<rparr>,
     (blank_recording 102 ''l'' 3)\<lparr>rec_state := AVAILABLE, rec_destination_key := Some ''a''\<rparr>],
     db_jobs := [(sample_job 1 100 0)\<lparr>job_state_of := DONE, job_recording_id := 102\<rparr>], db_next_id := 102\<rparr>"

definition lost_archive :: service where
  "lost_archive h cmd = Inl \<lparr>ex_name = ''ClientError'', ex_text = ''gone'', ex_family = OtherFamily,
     ex_response = Some \<lparr>rs_code = Some ''404'', rs_message = None, rs_status = Some 404\<rparr>\<rparr>"

theorem requeue_stuck_outcome_witness:
  "map rec_state (db_recordings (fst (requeue_stuck 7 demo_account (stalled_db, new_report demo_account)))) = [QUEUED, AVAILABLE] \<and>
   has_transfer (fst (requeue_stuck 7 demo_account (stalled_db, new_report demo_account)))
     ((blank_recording 101 ''k'' 3)\<lparr>rec_state := UPLOADED\<rparr>)"
proof -
  have d: "distinct (map rec_id (db_recordings stalled_db))" by (simp add: stalled_db_def blank_recording_def)
  have rows: "take 2000 (filter (stalled demo_account) (db_recordings stalled_db)) =
      [(blank_recording 101 ''k'' 3)\<lparr>rec_state := UPLOADED\<rparr>]"
    by (simp add: stalled_db_def stalled_def of_connection_def blank_recording_def demo_account_def)
  have t: "truthy_id (con_destination_id demo_account) \<noteq> None" by (simp add: demo_account_def truthy_id_def)
  show ?thesis
    using requeue_stuck_outcome [OF d surjective_pairing refl, of 7 demo_account "new_report demo_account", unfolded rows] t
    by (simp add: stalled_db_def unstalled_def proved_row_def blank_recording_def)
qed

theorem recheck_outcome_witness:
  "\<exists>h' d' rep'. recheck lost_archive (tx_client (demo_env good_archive 9)) 7 demo_account
       ((blank_recording 102 ''l'' 3)\<lparr>rec_state := AVAILABLE, rec_destination_key := Some ''a''\<rparr>)
       ([], stalled_db, new_report demo_account) = Inr (h', d', rep') \<and>
     rp_repaired rep' = 1 \<and> db_jobs d' = db_jobs stalled_db"
proof -
  let ?r = "(blank_recording 102 ''l'' 3)\<lparr>rec_state := AVAILABLE, rec_destination_key := Some ''a''\<rparr>"
  let ?v = "verify_recording lost_archive (tx_client (demo_env good_archive 9)) 7 ?r []"
  have v: "snd (snd ?v) = Inr False" by code_simp
  have v3: "?v = (fst ?v, fst (snd ?v), Inr False)" using v by (metis surjective_pairing)
  have s: "sampled demo_account ?r" "nonempty (rec_destination_key ?r) = Some ''a''"
      "truthy_id (con_destination_id demo_account) = Some 1" "has_transfer stalled_db ?r"
    by (simp_all add: sampled_def of_connection_def blank_recording_def demo_account_def nonempty_Some truthy_id_def
        has_transfer_def stalled_db_def same_work_def sample_job_def new_job_def)
  obtain h' d' rep' where r: "recheck lost_archive (tx_client (demo_env good_archive 9)) 7 demo_account ?r
      ([], stalled_db, new_report demo_account) = Inr (h', d', rep')"
    using v3 by (cases "recheck lost_archive (tx_client (demo_env good_archive 9)) 7 demo_account ?r ([], stalled_db, new_report demo_account)")
      (auto simp: recheck_def Let_def split: prod.splits)
  show ?thesis using recheck_outcome [OF s(1-3) v3 r] s(4) r by (simp add: new_report_def)
qed

definition archived_db :: database where
  "archived_db = stalled_db\<lparr>db_connections := [demo_account]\<rparr>"

lemma demo_run_ends:
  "\<exists>d' rep' as. reconcile_connection (lk_destinations demo_lookup) [(1, ''b'')] good_archive
     (\<lambda>_. Inr (tx_client (demo_env good_archive 9))) 7 1 [] archived_db = Some (d', rep', as)"
proof -
  have "(case reconcile_connection (lk_destinations demo_lookup) [(1, ''b'')] good_archive
     (\<lambda>_. Inr (tx_client (demo_env good_archive 9))) 7 1 [] archived_db of Some _ \<Rightarrow> True | None \<Rightarrow> False)"
    by code_simp
  then show ?thesis by (simp split: option.splits) (metis surj_pair)
qed

theorem rechecks_come_round_witness:
  "\<exists>d' rep' as. reconcile_connection (lk_destinations demo_lookup) [(1, ''b'')] good_archive
       (\<lambda>_. Inr (tx_client (demo_env good_archive 9))) 7 1 [] archived_db = Some (d', rep', as) \<and>
     overdue 5 demo_account archived_db = 1 \<and> overdue 5 demo_account d' = 0"
proof -
  let ?run = "reconcile_connection (lk_destinations demo_lookup) [(1, ''b'')] good_archive
       (\<lambda>_. Inr (tx_client (demo_env good_archive 9))) 7 1 [] archived_db"
  have h: "find_row (\<lambda>c. con_id c = 1) (db_connections archived_db) = Some demo_account"
      "skip_note (lk_destinations demo_lookup) demo_account = None" "distinct (map rec_id (db_recordings archived_db))"
      "\<forall>r \<in> set (db_recordings archived_db). rec_destination_key r \<noteq> Some []" "(5::int) \<le> 7"
    by (simp_all add: archived_db_def stalled_db_def blank_recording_def skip_note_def demo_account_def demo_lookup_def find_row_def)
  obtain d' rep' as where r: "?run = Some (d', rep', as)" using demo_run_ends by blast
  have one: "overdue 5 demo_account archived_db = 1" "filter (\<lambda>r. stalled demo_account r \<and> proved_row r) (db_recordings archived_db) = []"
    by (simp_all add: overdue_def overdue_row_def archived_db_def stalled_db_def sampled_def of_connection_def stalled_def
        proved_row_def blank_recording_def demo_account_def)
  have "overdue 5 demo_account d' \<le> (1 - VERIFY_SAMPLE_SIZE) + length ([] :: recording list)"
    using rechecks_come_round [OF h r] one by simp
  then show ?thesis using r one(1) by (simp add: VERIFY_SAMPLE_SIZE_def)
qed

end
