(* ===== verification/Correlate.thy ===== *)
theory Correlate
  imports KeyParse "HOL-Library.Product_Lexorder" "HOL-Library.Multiset"
begin

text \<open>
  \<open>src/c2w/commpeak/correlate.py\<close>: the call record that a recording belongs to. A pair of recording
  and record is classified into a tier with its distance in time; the best tier wins, then the
  smallest distance, and a second record at the same tier within a second makes the match ambiguous.

  Distances are exact microseconds (the source's floats agree with them on whole seconds), and a
  confidence is an exact rational. An exception of \<open>uniqueid_time\<close> ends the correlation.

  Lemmas: the choice is a least element of the classified records and does not depend on the order
  they come in; the numbers of the two sides agree up to prefixes, symmetrically.
\<close>

definition EPOCH_TOLERANCE :: micros where "EPOCH_TOLERANCE = 2 * second"
definition TIME_WINDOW :: micros where "TIME_WINDOW = 90 * second"
definition SUFFIX_DIGITS :: nat where "SUFFIX_DIGITS = 9"

section \<open>Tiers\<close>

datatype match_method = UUID_EXACT | EPOCH_EXACT | EPOCH_ONLY | TIME_NUMBER | TIME_ONLY | ORPHAN

definition match_methods :: "match_method list" where
  "match_methods = [UUID_EXACT, EPOCH_EXACT, EPOCH_ONLY, TIME_NUMBER, TIME_ONLY, ORPHAN]"

fun method_value :: "match_method \<Rightarrow> string" where
  "method_value UUID_EXACT = ''uuid_exact''"
| "method_value EPOCH_EXACT = ''epoch_exact''"
| "method_value EPOCH_ONLY = ''epoch_only''"
| "method_value TIME_NUMBER = ''time_number''"
| "method_value TIME_ONLY = ''time_only''"
| "method_value ORPHAN = ''orphan''"

fun method_confidence :: "match_method \<Rightarrow> rat" where
  "method_confidence UUID_EXACT = 1"
| "method_confidence EPOCH_EXACT = 99 / 100"
| "method_confidence EPOCH_ONLY = 90 / 100"
| "method_confidence TIME_NUMBER = 75 / 100"
| "method_confidence TIME_ONLY = 40 / 100"
| "method_confidence ORPHAN = 0"

definition needs_review :: "match_method \<Rightarrow> bool" where
  "needs_review m \<longleftrightarrow> m \<in> {TIME_ONLY, ORPHAN}"

fun method_rank :: "match_method \<Rightarrow> int" where
  "method_rank UUID_EXACT = -1"
| "method_rank EPOCH_EXACT = 0"
| "method_rank EPOCH_ONLY = 1"
| "method_rank TIME_NUMBER = 2"
| "method_rank TIME_ONLY = 3"
| "method_rank ORPHAN = 4"

lemma method_rank_inj: "method_rank a = method_rank b \<longleftrightarrow> a = b"
  by (cases a; cases b) auto

section \<open>Records\<close>

record cdr_candidate =
  cc_id :: int
  cc_uuid :: string
  cc_start :: dt
  cc_src :: "string option"
  cc_dst :: "string option"
  cc_duration :: "int option"
  cc_agent_extension :: "string option"

definition cc_end :: "cdr_candidate \<Rightarrow> dt" where
  "cc_end c = cc_start c + (case cc_duration c of None \<Rightarrow> 0 | Some d \<Rightarrow> d) * second"

record match_result =
  mr_method :: match_method
  mr_cdr_id :: "int option"
  mr_call_uuid :: "string option"
  mr_confidence :: rat
  mr_delta :: "micros option"
  mr_ambiguous :: bool
  mr_considered :: nat

definition matched :: "match_result \<Rightarrow> bool" where
  "matched r \<longleftrightarrow> mr_cdr_id r \<noteq> None"

section \<open>Numbers\<close>

definition normalise_msisdn :: "string option \<Rightarrow> string" where
  "normalise_msisdn v =
     (case v of
        None \<Rightarrow> []
      | Some s \<Rightarrow>
          (let digits = filter is_digit (before_first CHR ''@'' s)
           in if digits = [] then []
              else (let stripped = lstrip_chars (\<lambda>c. c = CHR ''0'') digits;
                        trimmed = (if stripped \<noteq> [] then stripped else digits)
                    in if SUFFIX_DIGITS < length trimmed
                       then drop (length trimmed - SUFFIX_DIGITS) trimmed else trimmed)))"

definition last_digits :: "nat \<Rightarrow> string \<Rightarrow> string" where
  "last_digits n s = drop (length s - n) s"

definition numbers_agree :: "string option \<Rightarrow> string option \<Rightarrow> bool" where
  "numbers_agree a b =
     (let na = normalise_msisdn a; nb = normalise_msisdn b
      in if na = [] \<or> nb = [] then False
         else if length na < 6 \<or> length nb < 6 then na = nb
         else (let shortest = min (length na) (length nb)
               in last_digits shortest na = last_digits shortest nb))"

definition recording_number_matches :: "parsed_key \<Rightarrow> cdr_candidate \<Rightarrow> bool" where
  "recording_number_matches p c =
     (if numbers_agree (pk_number p) (cc_src c) \<or> numbers_agree (pk_number p) (cc_dst c) then True
      else (case pk_extension p of
              Some (x # xs) \<Rightarrow> numbers_agree (pk_extension p) (cc_dst c)
                \<or> numbers_agree (pk_extension p) (cc_agent_extension c)
            | _ \<Rightarrow> False))"

section \<open>Classification\<close>

definition reference_times :: "parsed_key \<Rightarrow> dt option \<Rightarrow> dt list" where
  "reference_times p uid_time =
     (let out = (case uid_time of Some u \<Rightarrow> [u] | None \<Rightarrow> []);
          out = (case pk_started_at p of
                   Some s \<Rightarrow> if s \<in> set out then out else out @ [s] | None \<Rightarrow> out)
      in case pk_prefix_hour p of
           Some h \<Rightarrow> if out = [] then [h] else out | None \<Rightarrow> out)"

text \<open>The first reference time within the window.\<close>

fun window_tier :: "bool \<Rightarrow> dt \<Rightarrow> dt list \<Rightarrow> (match_method \<times> micros) option" where
  "window_tier number_ok start [] = None"
| "window_tier number_ok start (r # rs) =
     (if \<bar>r - start\<bar> \<le> TIME_WINDOW
      then Some (if number_ok then TIME_NUMBER else TIME_ONLY, \<bar>r - start\<bar>)
      else window_tier number_ok start rs)"

definition uuid_identity :: "parsed_key \<Rightarrow> cdr_candidate \<Rightarrow> bool" where
  "uuid_identity p c \<longleftrightarrow>
     (case pk_call_uuid p of
        Some u \<Rightarrow> u \<noteq> [] \<and> cc_uuid c \<noteq> [] \<and> u = py_lower (cc_uuid c) | None \<Rightarrow> False)"

definition classify :: "parsed_key \<Rightarrow> cdr_candidate \<Rightarrow> py_exc + (match_method \<times> micros) option" where
  "classify p c =
     (if uuid_identity p c then Inr (Some (UUID_EXACT, 0))
      else
        (let number_ok = recording_number_matches p c; start = cc_start c
         in res_bind (uniqueid_time p) (\<lambda>epoch.
              case epoch of
                Some e \<Rightarrow>
                  (let delta = \<bar>e - start\<bar>
                   in if delta \<le> EPOCH_TOLERANCE
                      then Inr (Some (if number_ok then EPOCH_EXACT else EPOCH_ONLY, delta))
                      else Inr (window_tier number_ok start (reference_times p epoch)))
              | None \<Rightarrow> Inr (window_tier number_ok start (reference_times p epoch)))))"

section \<open>The choice\<close>

type_synonym scored = "int \<times> micros \<times> match_method \<times> cdr_candidate"

definition score :: "cdr_candidate \<times> (match_method \<times> micros) option \<Rightarrow> scored list" where
  "score cv = (case snd cv of None \<Rightarrow> [] | Some (m, d) \<Rightarrow> [(method_rank m, d, m, fst cv)])"

definition scored_key :: "scored \<Rightarrow> int \<times> micros" where
  "scored_key s = (fst s, fst (snd s))"

definition pick :: "scored list \<Rightarrow> nat \<Rightarrow> match_result" where
  "pick scored n =
     (case sort_key scored_key scored of
        [] \<Rightarrow> \<lparr>mr_method = ORPHAN, mr_cdr_id = None, mr_call_uuid = None, mr_confidence = 0,
              mr_delta = None, mr_ambiguous = False, mr_considered = n\<rparr>
      | (rank, delta, meth, best) # others \<Rightarrow>
          (let ambiguous = list_ex (\<lambda>(r, d, _, c). r = rank \<and> \<bar>d - delta\<bar> \<le> second
                             \<and> cc_id c \<noteq> cc_id best) others;
               confidence = method_confidence meth * (if ambiguous then 1 / 2 else 1)
           in \<lparr>mr_method = meth, mr_cdr_id = Some (cc_id best), mr_call_uuid = Some (cc_uuid best),
               mr_confidence = of_int (round_half_even (confidence * 10000)) / 10000,
               mr_delta = Some (round_half_even (of_int delta / 1000) * 1000),
               mr_ambiguous = ambiguous, mr_considered = n\<rparr>))"

definition correlate :: "parsed_key \<Rightarrow> cdr_candidate list \<Rightarrow> py_exc + match_result" where
  "correlate p candidates =
     res_bind (map_res (\<lambda>c. res_bind (classify p c) (\<lambda>v. Inr (c, v))) candidates)
       (\<lambda>verdicts. Inr (pick (concat (map score verdicts)) (length candidates)))"

section \<open>The summary of a sample\<close>

record correlation_totals =
  ct_total :: nat
  ct_counts :: "match_method \<Rightarrow> nat"
  ct_ambiguous :: nat
  ct_strong_ratio :: rat
  ct_orphan_ratio :: rat

definition ratio4 :: "nat \<Rightarrow> nat \<Rightarrow> rat" where
  "ratio4 a b = of_int (round_half_even (of_nat a / of_nat b * 10000)) / 10000"

definition correlation_summary :: "match_result list \<Rightarrow> correlation_totals" where
  "correlation_summary results =
     (let counts = (\<lambda>m. length (filter (\<lambda>r. mr_method r = m) results));
          total = (if results = [] then 1 else length results);
          strong = counts EPOCH_EXACT + counts EPOCH_ONLY + counts TIME_NUMBER
      in \<lparr>ct_total = length results, ct_counts = counts,
          ct_ambiguous = length (filter mr_ambiguous results),
          ct_strong_ratio = ratio4 strong total, ct_orphan_ratio = ratio4 (counts ORPHAN) total\<rparr>)"

section \<open>The choice is a least element\<close>

lemma sort_key_ConsD:
  assumes "sort_key f xs = y # ys"
  shows "mset xs = add_mset y (mset ys)" "y \<in> set xs" "\<forall>x \<in> set xs. f y \<le> f x"
proof -
  have "mset (sort_key f xs) = mset xs" by simp
  with assms show m: "mset xs = add_mset y (mset ys)" by simp
  from arg_cong [OF m, of set_mset] show "y \<in> set xs" by simp
  have "sorted (map f (sort_key f xs))" by simp
  with assms arg_cong [OF m, of set_mset] show "\<forall>x \<in> set xs. f y \<le> f x" by auto
qed

lemma sort_key_Nil [simp]: "sort_key f xs = [] \<longleftrightarrow> xs = []"
  by (metis mset.simps(1) mset_sort mset_zero_iff)

text \<open>The scored records of a run that did not raise.\<close>

definition verdicts :: "parsed_key \<Rightarrow> cdr_candidate list \<Rightarrow> scored set" where
  "verdicts p cs = {(method_rank m, d, m, c) | m d c. c \<in> set cs \<and> classify p c = Inr (Some (m, d))}"

lemma correlate_Inr:
  assumes "correlate p cs = Inr r"
  obtains sc where "r = pick sc (length cs)" "set sc = verdicts p cs"
proof -
  obtain vs where vs: "list_all2 (\<lambda>c y. res_bind (classify p c) (\<lambda>v. Inr (c, v)) = Inr y) cs vs"
    and r: "r = pick (concat (map score vs)) (length cs)"
    using assms by (auto simp: correlate_def res_bind_Inr_iff map_res_Inr_iff)
  from vs have "set (concat (map score vs)) = verdicts p cs"
    by induction (auto simp: verdicts_def score_def res_bind_Inr_iff split: option.splits)
  with r that show thesis by blast
qed

lemma pick_cases:
  obtains (none) "sc = []" "pick sc n = \<lparr>mr_method = ORPHAN, mr_cdr_id = None, mr_call_uuid = None,
      mr_confidence = 0, mr_delta = None, mr_ambiguous = False, mr_considered = n\<rparr>"
  | (best) rank delta m c where "(rank, delta, m, c) \<in> set sc"
      "\<forall>(r, d, _) \<in> set sc. (rank, delta) \<le> (r, d)"
      "mr_method (pick sc n) = m" "mr_cdr_id (pick sc n) = Some (cc_id c)"
      "mr_call_uuid (pick sc n) = Some (cc_uuid c)"
      "mr_delta (pick sc n) = Some (round_half_even (of_int delta / 1000) * 1000)"
      "mr_ambiguous (pick sc n) \<longleftrightarrow>
        (\<exists>(r, d, m', c') \<in> set sc. r = rank \<and> \<bar>d - delta\<bar> \<le> second \<and> cc_id c' \<noteq> cc_id c)"
      "mr_confidence (pick sc n) = of_int (round_half_even (method_confidence m
        * (if mr_ambiguous (pick sc n) then 1 / 2 else 1) * 10000)) / 10000"
proof (cases "sort_key scored_key sc")
  case Nil
  then show ?thesis by (intro none) (simp_all add: pick_def)
next
  case (Cons y ys)
  obtain rank delta m c where y: "y = (rank, delta, m, c)" by (cases y) auto
  note least = sort_key_ConsD [OF Cons]
  have "set sc = insert y (set ys)" using arg_cong [OF least(1), of set_mset] by simp
  then have "list_ex (\<lambda>(r, d, _, c'). r = rank \<and> \<bar>d - delta\<bar> \<le> second \<and> cc_id c' \<noteq> cc_id c) ys
      \<longleftrightarrow> (\<exists>(r, d, m', c') \<in> set sc. r = rank \<and> \<bar>d - delta\<bar> \<le> second \<and> cc_id c' \<noteq> cc_id c)"
    by (auto simp: list_ex_iff y)
  then show ?thesis
    using least(2,3) y Cons
    by (intro best [of rank delta m c]) (auto simp: pick_def Let_def scored_key_def)
qed

lemma correlate_Inr_classify:
  assumes "correlate p cs = Inr r" "c \<in> set cs"
  shows "\<exists>v. classify p c = Inr v"
  using assms
  by (auto simp: correlate_def res_bind_Inr_iff map_res_Inr_iff list_all2_conv_all_nth in_set_conv_nth)

text \<open>What it is for a record at some distance to be the answer.\<close>

definition answer_is :: "parsed_key \<Rightarrow> cdr_candidate list \<Rightarrow> match_result \<Rightarrow> cdr_candidate \<Rightarrow> micros \<Rightarrow> bool" where
  "answer_is p cs r c d \<longleftrightarrow>
     c \<in> set cs \<and> classify p c = Inr (Some (mr_method r, d)) \<and>
     mr_cdr_id r = Some (cc_id c) \<and> mr_call_uuid r = Some (cc_uuid c) \<and>
     mr_delta r = Some (round_half_even (of_int d / 1000) * 1000) \<and>
     mr_confidence r = of_int (round_half_even (method_confidence (mr_method r)
        * (if mr_ambiguous r then 1 / 2 else 1) * 10000)) / 10000 \<and>
     (\<forall>c' \<in> set cs. \<forall>m' d'. classify p c' = Inr (Some (m', d')) \<longrightarrow>
        (method_rank (mr_method r), d) \<le> (method_rank m', d')) \<and>
     (mr_ambiguous r \<longleftrightarrow> (\<exists>c' \<in> set cs. \<exists>d'. classify p c' = Inr (Some (mr_method r, d')) \<and>
        \<bar>d' - d\<bar> \<le> second \<and> cc_id c' \<noteq> cc_id c))"

lemma verdictsI:
  "c \<in> set cs \<Longrightarrow> classify p c = Inr (Some (m, d)) \<Longrightarrow> (method_rank m, d, m, c) \<in> verdicts p cs"
  by (auto simp: verdicts_def)

lemma verdictsD:
  "(r, d, m, c) \<in> verdicts p cs \<Longrightarrow> r = method_rank m \<and> c \<in> set cs \<and> classify p c = Inr (Some (m, d))"
  by (auto simp: verdicts_def)

lemma verdicts_near:
  "(\<exists>(r, d', m', c') \<in> verdicts p cs. r = method_rank m \<and> \<bar>d' - d\<bar> \<le> second \<and> cc_id c' \<noteq> i)
   \<longleftrightarrow> (\<exists>c' \<in> set cs. \<exists>d'. classify p c' = Inr (Some (m, d')) \<and> \<bar>d' - d\<bar> \<le> second \<and> cc_id c' \<noteq> i)"
  by (auto simp: verdicts_def method_rank_inj)

lemma correlate_answer:
  assumes "correlate p cs = Inr r"
  shows "(\<forall>c \<in> set cs. classify p c = Inr None) \<and> r = pick [] (length cs) \<or> (\<exists>c d. answer_is p cs r c d)"
proof -
  obtain sc where r: "r = pick sc (length cs)" and sc: "set sc = verdicts p cs"
    by (rule correlate_Inr [OF assms])
  show ?thesis
  proof (cases sc "length cs" rule: pick_cases)
    case none
    with sc have "classify p c \<noteq> Inr (Some v)" if "c \<in> set cs" for c v
      using verdictsI [OF that, of p "fst v" "snd v"] by auto
    with correlate_Inr_classify [OF assms] have "\<forall>c \<in> set cs. classify p c = Inr None"
      by (metis option.exhaust)
    with none r show ?thesis by simp
  next
    case (best rank delta m c)
    note v = verdictsD [OF best(1) [unfolded sc]]
    have least: "\<forall>c' \<in> set cs. \<forall>m' d'. classify p c' = Inr (Some (m', d')) \<longrightarrow>
        (method_rank m, delta) \<le> (method_rank m', d')"
      using best(2) v unfolding sc by (blast dest: verdictsI)
    have "answer_is p cs r c delta"
      unfolding answer_is_def r best(3) using v least best(4-8) sc verdicts_near [of p cs m delta "cc_id c"]
      by (simp only: simp_thms)
    then show ?thesis by blast
  qed
qed

text \<open>C39: The correlator picks a least record: a recording is an orphan exactly when no record
classifies, and otherwise the record chosen has the best tier, then the smallest distance, among all
that classify; the match is ambiguous exactly when a different record has that tier within a second
of the same distance.\<close>

theorem correlate_best:
  assumes "correlate p cs = Inr r"
  shows "(mr_method r = ORPHAN \<and> mr_cdr_id r = None \<and> mr_confidence r = 0 \<and>
           (\<forall>c \<in> set cs. classify p c = Inr None)) \<or>
         (\<exists>c \<in> set cs. \<exists>d. classify p c = Inr (Some (mr_method r, d)) \<and>
           mr_cdr_id r = Some (cc_id c) \<and> mr_call_uuid r = Some (cc_uuid c) \<and>
           (\<forall>c' \<in> set cs. \<forall>m' d'. classify p c' = Inr (Some (m', d')) \<longrightarrow>
              (method_rank (mr_method r), d) \<le> (method_rank m', d')) \<and>
           (mr_ambiguous r \<longleftrightarrow> (\<exists>c' \<in> set cs. \<exists>d'. classify p c' = Inr (Some (mr_method r, d')) \<and>
              \<bar>d' - d\<bar> \<le> second \<and> cc_id c' \<noteq> cc_id c)))"
  using correlate_answer [OF assms]
proof
  assume "(\<forall>c \<in> set cs. classify p c = Inr None) \<and> r = pick [] (length cs)"
  then show ?thesis by (simp add: pick_def)
next
  assume "\<exists>c d. answer_is p cs r c d"
  then show ?thesis unfolding answer_is_def by blast
qed

section \<open>When it raises\<close>

lemma classify_Inl: "classify p c = Inl e \<longleftrightarrow> uniqueid_time p = Inl e \<and> \<not> uuid_identity p c"
  by (cases "uniqueid_time p") (auto simp: classify_def Let_def split: option.splits)

lemma correlate_Inl:
  "correlate p cs = Inl e \<longleftrightarrow> uniqueid_time p = Inl e \<and> (\<exists>c \<in> set cs. \<not> uuid_identity p c)"
proof (cases "correlate p cs")
  case (Inl e')
  let ?f = "\<lambda>c. res_bind (classify p c) (\<lambda>v. Inr (c, v))"
  from Inl have "map_res ?f cs = Inl e'"
    by (cases "map_res ?f cs") (auto simp: correlate_def)
  then obtain c where "c \<in> set cs" "?f c = Inl e'" by (blast dest: map_res_InlD)
  moreover from this(2) have "classify p c = Inl e'" by (cases "classify p c") auto
  ultimately show ?thesis using Inl by (auto simp: classify_Inl)
next
  case (Inr r)
  have "uuid_identity p c" if "uniqueid_time p = Inl e" "c \<in> set cs" for c
    using correlate_Inr_classify [OF Inr that(2)] that(1) by (cases "uuid_identity p c") (auto simp: classify_def Let_def)
  with Inr show ?thesis by auto
qed

section \<open>The order of the records does not matter\<close>

lemma pair_le_antisym: "(a, b) \<le> (c, d) \<Longrightarrow> (c, d) \<le> (a, b) \<Longrightarrow> a = c \<and> (b :: micros) = d" for a c :: int
  by auto

text \<open>The correlator's answer does not depend on the order in which the call records come: the
tier, the distance, the ambiguity and the confidence are the same for any reordering of the same
records, and so is the record chosen unless the match is flagged ambiguous.\<close>

theorem correlate_order_independent:
  assumes "mset cs = mset cs'" "correlate p cs = Inr r" "correlate p cs' = Inr r'"
  shows "mr_method r = mr_method r' \<and> mr_delta r = mr_delta r' \<and>
    mr_ambiguous r = mr_ambiguous r' \<and> mr_confidence r = mr_confidence r' \<and>
    (\<not> mr_ambiguous r \<longrightarrow> mr_cdr_id r = mr_cdr_id r')"
proof -
  have set: "set cs = set cs'" using assms(1) by (metis set_mset_mset)
  show ?thesis
  proof (cases "\<forall>c \<in> set cs. classify p c = Inr None")
    case True
    with set have "r = pick [] (length cs)" "r' = pick [] (length cs')"
      using correlate_answer [OF assms(2)] correlate_answer [OF assms(3)]
      by (auto simp: answer_is_def)
    then show ?thesis by (simp add: pick_def)
  next
    case False
    with set correlate_answer [OF assms(2)] correlate_answer [OF assms(3)]
    obtain c d c' d' where "answer_is p cs r c d" "answer_is p cs' r' c' d'" by blast
    note a = \<open>answer_is p cs r c d\<close> [unfolded answer_is_def]
      and a' = \<open>answer_is p cs' r' c' d'\<close> [unfolded answer_is_def, folded set]
    have "(method_rank (mr_method r), d) \<le> (method_rank (mr_method r'), d')"
      "(method_rank (mr_method r'), d') \<le> (method_rank (mr_method r), d)"
      using a a' by blast+
    from pair_le_antisym [OF this] have same: "mr_method r = mr_method r'" "d = d'"
      by (simp_all add: method_rank_inj)
    have near: "\<bar>d' - d\<bar> \<le> second" "\<bar>d - d'\<bar> \<le> second" using same by (simp_all add: second_def)
    have amb: "mr_ambiguous r \<longleftrightarrow> (\<exists>x \<in> set cs. \<exists>e. classify p x = Inr (Some (mr_method r, e)) \<and>
        \<bar>e - d\<bar> \<le> second \<and> cc_id x \<noteq> cc_id c)"
      using a by (elim conjE)
    have amb': "mr_ambiguous r' \<longleftrightarrow> (\<exists>x \<in> set cs. \<exists>e. classify p x = Inr (Some (mr_method r, e)) \<and>
        \<bar>e - d\<bar> \<le> second \<and> cc_id x \<noteq> cc_id c')"
      using a' [folded same] by (elim conjE)
    have "mr_ambiguous r = mr_ambiguous r'"
    proof (cases "cc_id c = cc_id c'")
      case False
      have "c \<in> set cs" "classify p c = Inr (Some (mr_method r, d))"
        "c' \<in> set cs" "classify p c' = Inr (Some (mr_method r, d))" using a a' same by auto
      with False near same show ?thesis unfolding amb amb' by metis
    qed (simp add: amb amb')
    moreover have "cc_id c = cc_id c'" if "\<not> mr_ambiguous r"
    proof (rule ccontr)
      assume "cc_id c \<noteq> cc_id c'"
      moreover have "c' \<in> set cs" "classify p c' = Inr (Some (mr_method r, d'))" using a' same by auto
      ultimately show False using that near unfolding amb by metis
    qed
    moreover have "mr_cdr_id r = Some (cc_id c)"
      "mr_delta r = Some (round_half_even (of_int d / 1000) * 1000)"
      "mr_confidence r = of_int (round_half_even (method_confidence (mr_method r)
        * (if mr_ambiguous r then 1 / 2 else 1) * 10000)) / 10000"
      by ((insert a, elim conjE, assumption)+)
    moreover have "mr_cdr_id r' = Some (cc_id c')"
      "mr_delta r' = Some (round_half_even (of_int d' / 1000) * 1000)"
      "mr_confidence r' = of_int (round_half_even (method_confidence (mr_method r')
        * (if mr_ambiguous r' then 1 / 2 else 1) * 10000)) / 10000"
      by ((insert a', elim conjE, assumption)+)
    ultimately show ?thesis using same by simp
  qed
qed

text \<open>A call record that carries the recording's own uuid is always the answer: the tier is the
identity with distance zero, whatever the numbers and times of the other records, and the confidence
is full unless two different records carry that uuid, which halves it. The exception of a channel
epoch past the year 9999 is the only one, and an identity on every record avoids even that.\<close>

theorem correlate_uuid_identity:
  "(\<forall>r. correlate p cs = Inr r \<and> (\<exists>c \<in> set cs. uuid_identity p c) \<longrightarrow>
      mr_method r = UUID_EXACT \<and> mr_delta r = Some 0 \<and>
      (\<exists>c \<in> set cs. uuid_identity p c \<and> mr_cdr_id r = Some (cc_id c)) \<and>
      (mr_ambiguous r \<longleftrightarrow> (\<exists>c \<in> set cs. uuid_identity p c \<and> Some (cc_id c) \<noteq> mr_cdr_id r)) \<and>
      mr_confidence r = (if mr_ambiguous r then 1 / 2 else 1)) \<and>
   (correlate p cs = Inl e \<longleftrightarrow> uniqueid_time p = Inl e \<and> (\<exists>c \<in> set cs. \<not> uuid_identity p c))"
proof (intro conjI allI impI correlate_Inl)
  fix r
  assume *: "correlate p cs = Inr r \<and> (\<exists>c \<in> set cs. uuid_identity p c)"
  then obtain u where u: "u \<in> set cs" "classify p u = Inr (Some (UUID_EXACT, 0))"
    by (auto simp: classify_def)
  have only: "uuid_identity p c \<and> d = 0" if "classify p c = Inr (Some (UUID_EXACT, d))" for c d
  proof -
    have "window_tier b s rs \<noteq> Some (UUID_EXACT, d)" for b s rs by (induction rs) auto
    with that show ?thesis
      by (auto simp: classify_def Let_def res_bind_Inr_iff split: if_splits option.splits)
  qed
  have iff: "classify p c = Inr (Some (UUID_EXACT, d)) \<longleftrightarrow> uuid_identity p c \<and> d = 0" for c d
    using only [of c d] by (auto simp: classify_def [of p c])
  from correlate_answer [of p cs r] * u obtain c d where "answer_is p cs r c d" by fastforce
  note a = this [unfolded answer_is_def]
  have "(method_rank (mr_method r), d) \<le> (method_rank UUID_EXACT, 0)" using a u by blast
  then have m: "mr_method r = UUID_EXACT" by (cases "mr_method r") auto
  have c: "c \<in> set cs" "uuid_identity p c" "d = 0" using a iff [of c d] unfolding m by blast+
  have id: "mr_cdr_id r = Some (cc_id c)" using a by (elim conjE)
  have "mr_delta r = Some (round_half_even (of_int d / 1000) * 1000)" using a by (elim conjE)
  then have delta: "mr_delta r = Some 0"
    using round_half_even_of_int [of 0] by (simp add: c(3))
  have "mr_ambiguous r \<longleftrightarrow> (\<exists>x \<in> set cs. \<exists>e. classify p x = Inr (Some (mr_method r, e)) \<and>
      \<bar>e - d\<bar> \<le> second \<and> cc_id x \<noteq> cc_id c)"
    using a by (elim conjE)
  then have amb: "mr_ambiguous r \<longleftrightarrow> (\<exists>x \<in> set cs. uuid_identity p x \<and> Some (cc_id x) \<noteq> mr_cdr_id r)"
    by (simp add: m iff c(3) id second_def)
  have "mr_confidence r = of_int (round_half_even (method_confidence (mr_method r)
      * (if mr_ambiguous r then 1 / 2 else 1) * 10000)) / 10000"
    using a by (elim conjE)
  then have "mr_confidence r = (if mr_ambiguous r then 1 / 2 else 1)"
    using round_half_even_of_int [of 5000] round_half_even_of_int [of 10000]
    by (cases "mr_ambiguous r") (simp_all add: m)
  with m delta c id amb show "mr_method r = UUID_EXACT" "mr_delta r = Some 0"
    "\<exists>c \<in> set cs. uuid_identity p c \<and> mr_cdr_id r = Some (cc_id c)"
    "mr_ambiguous r \<longleftrightarrow> (\<exists>c \<in> set cs. uuid_identity p c \<and> Some (cc_id c) \<noteq> mr_cdr_id r)"
    "mr_confidence r = (if mr_ambiguous r then 1 / 2 else 1)"
    by auto
qed

section \<open>Numbers agree up to prefixes\<close>

lemma normalise_digits:
  assumes "d \<noteq> []" "\<forall>c \<in> set d. is_digit c" "hd d \<noteq> CHR ''0''"
    and "\<forall>c \<in> set pre. \<not> is_digit c \<or> c = CHR ''0''" "CHR ''@'' \<notin> set pre"
    and "tail = [] \<or> hd tail = CHR ''@''"
  shows "normalise_msisdn (Some (pre @ d @ tail)) = last_digits (min (length d) 9) d"
proof -
  have at: "\<not> is_digit CHR ''@''" by (simp add: is_digit_def)
  have "CHR ''@'' \<notin> set d" using assms(2) at by auto
  then have "CHR ''@'' \<notin> set (pre @ d)" using assms(5) by simp
  then have "before_first CHR ''@'' (pre @ d @ tail) = pre @ d"
    using assms(6) before_first_append [of "CHR ''@''" "pre @ d" "tl tail"] takeWhile_neq_id [of _ "pre @ d"]
    by (cases tail) (auto simp: before_first_def)
  moreover have "filter is_digit d = d" using assms(2) by simp
  moreover have "dropWhile (\<lambda>c. c = CHR ''0'') (filter is_digit pre @ d) = d"
    using assms(1,3,4) by (subst dropWhile_append2) (auto, cases d, auto)
  ultimately show ?thesis
    using assms(1) by (auto simp: normalise_msisdn_def Let_def lstrip_chars_def SUFFIX_DIGITS_def last_digits_def)
qed

text \<open>Two spellings of one number agree: whatever international prefix, punctuation or leading
zeros stand before the significant digits and whatever domain follows them. Agreement is symmetric,
and a short number, such as an extension, agrees only with the same digits, never as the suffix of a
longer one.\<close>

theorem numbers_agree_spellings:
  assumes "d \<noteq> []" "\<forall>c \<in> set d. is_digit c" "hd d \<noteq> CHR ''0''"
    and "\<forall>c \<in> set pre \<union> set pre'. (\<not> is_digit c \<or> c = CHR ''0'') \<and> c \<noteq> CHR ''@''"
    and "tail = [] \<or> hd tail = CHR ''@''" "tail' = [] \<or> hd tail' = CHR ''@''"
  shows "numbers_agree (Some (pre @ d @ tail)) (Some (pre' @ d @ tail')) \<and>
    numbers_agree a b = numbers_agree b a \<and>
    (length (normalise_msisdn a) < 6 \<longrightarrow>
      numbers_agree a b = (normalise_msisdn a \<noteq> [] \<and> normalise_msisdn a = normalise_msisdn b))"
proof (intro conjI)
  have "normalise_msisdn (Some (pre @ d @ tail)) = last_digits (min (length d) 9) d"
    "normalise_msisdn (Some (pre' @ d @ tail')) = last_digits (min (length d) 9) d"
    using assms by (intro normalise_digits; auto)+
  moreover have "last_digits (min (length d) 9) d \<noteq> []" using assms(1)
    by (cases "length d \<le> 9") (simp_all add: last_digits_def not_le)
  ultimately show "numbers_agree (Some (pre @ d @ tail)) (Some (pre' @ d @ tail'))"
    by (simp add: numbers_agree_def Let_def)
qed (auto simp: numbers_agree_def Let_def min.commute)

section \<open>The sample summary\<close>

text \<open>The summary counts every result once, and its strong ratio leaves out the strongest tier: a
sample joined entirely by uuid, the one join that cannot be wrong, scores zero on the accuracy gate.\<close>

theorem summary_counts:
  "sum_list (map (ct_counts (correlation_summary rs)) match_methods) = ct_total (correlation_summary rs) \<and>
   ((\<forall>r \<in> set rs. mr_method r = UUID_EXACT) \<longrightarrow> ct_strong_ratio (correlation_summary rs) = 0)"
proof
  show "sum_list (map (ct_counts (correlation_summary rs)) match_methods) = ct_total (correlation_summary rs)"
    unfolding correlation_summary_def Let_def
  proof (induction rs)
    case (Cons r rs)
    then show ?case by (cases "mr_method r") (simp_all add: match_methods_def)
  qed (simp add: match_methods_def)
  show "(\<forall>r \<in> set rs. mr_method r = UUID_EXACT) \<longrightarrow> ct_strong_ratio (correlation_summary rs) = 0"
    using round_half_even_of_int [of 0]
    by (auto simp: correlation_summary_def Let_def ratio4_def filter_empty_conv)
qed

section \<open>Examples\<close>

text \<open>A parsed key with a number and a channel id, and three records of the same seconds.\<close>

definition sample_key :: parsed_key where
  "sample_key = (new_parsed_key ''k'' ''k'' None)
     \<lparr>pk_number := Some ''441632960770'', pk_uniqueid := Some 1636635223,
      pk_started_at := Some 1636635223000000\<rparr>"

definition sample_cdr :: "int \<Rightarrow> string \<Rightarrow> dt \<Rightarrow> string \<Rightarrow> cdr_candidate" where
  "sample_cdr i u t n = \<lparr>cc_id = i, cc_uuid = u, cc_start = t, cc_src = Some n, cc_dst = None,
      cc_duration = None, cc_agent_extension = None\<rparr>"

definition sample_cdrs :: "cdr_candidate list" where
  "sample_cdrs = [sample_cdr 1 ''a'' 1636635225000000 ''00441632960770@did.commpeak.com'',
     sample_cdr 2 ''b'' 1636635223000000 ''+44 163 296 0770'',
     sample_cdr 3 ''c'' 1636635223000000 ''123456'']"

definition sample_result :: match_result where
  "sample_result = \<lparr>mr_method = EPOCH_EXACT, mr_cdr_id = Some 2, mr_call_uuid = Some ''b'',
     mr_confidence = 99 / 100, mr_delta = Some 0, mr_ambiguous = False, mr_considered = 3\<rparr>"

lemma sample_correlates: "correlate sample_key sample_cdrs = Inr sample_result"
  by code_simp

lemma sample_correlates_rev: "correlate sample_key (rev sample_cdrs) = Inr sample_result"
  by code_simp

theorem correlate_best_witness:
  "correlate sample_key sample_cdrs = Inr sample_result \<and>
   (\<exists>c \<in> set sample_cdrs. mr_cdr_id sample_result = Some (cc_id c))"
  using correlate_best [OF sample_correlates] sample_correlates
  by (auto simp: sample_result_def)

theorem correlate_order_independent_witness:
  "mset sample_cdrs = mset (rev sample_cdrs) \<and> mr_cdr_id sample_result = mr_cdr_id sample_result"
  using correlate_order_independent [OF _ sample_correlates sample_correlates_rev] by simp

theorem correlate_uuid_identity_witness:
  "(case correlate (sample_key\<lparr>pk_call_uuid := Some ''ab''\<rparr>) [sample_cdr 7 ''AB'' 0 ''1''] of
      Inr r \<Rightarrow> mr_method r = UUID_EXACT \<and> mr_delta r = Some 0 | Inl e \<Rightarrow> False)"
proof -
  let ?p = "sample_key\<lparr>pk_call_uuid := Some ''ab''\<rparr>" and ?c = "sample_cdr 7 ''AB'' 0 ''1''"
  have id: "uuid_identity ?p ?c" by code_simp
  then obtain r where "correlate ?p [?c] = Inr r"
    using correlate_Inl [of ?p "[?c]"] by (cases "correlate ?p [?c]") auto
  with conjunct1 [OF correlate_uuid_identity [of ?p "[?c]"]] id show ?thesis by auto
qed

theorem numbers_agree_spellings_witness:
  "numbers_agree (Some ''+441632960770'') (Some ''00441632960770@did.commpeak.com'') \<and>
   \<not> numbers_agree (Some ''101'') (Some ''5559101'')"
proof -
  have "numbers_agree (Some ''+441632960770'') (Some ''00441632960770@did.commpeak.com'')"
    using numbers_agree_spellings [of "''441632960770''" "''+''" "''00''" "[]" "''@did.commpeak.com''"]
    by (simp add: is_digit_def)
  moreover have "\<not> numbers_agree (Some ''101'') (Some ''5559101'')" by code_simp
  ultimately show ?thesis by simp
qed

theorem summary_counts_witness:
  "ct_strong_ratio (correlation_summary [sample_result\<lparr>mr_method := UUID_EXACT\<rparr>]) = 0"
  using conjunct2 [OF summary_counts [of "[sample_result\<lparr>mr_method := UUID_EXACT\<rparr>]"]]
  by simp

end
