(* ===== verification/Inventory.thy ===== *)
theory Inventory
  imports Correlate Queue
begin

text \<open>
  \<open>src/c2w/sync/inventory.py\<close>: the discovery of a bucket's recordings, a day prefix at a time. The
  listing is that of \<open>S3Client\<close>; a session is the rows as the transaction sees them beside the rows
  last committed, which is what is left when a scan raises. One clock reading \<open>now\<close> stands for those
  of a scan.

  Lemmas: what a scanned listing leaves in the tables, that scanning again changes nothing, that the
  cursor never passes a day that was not listed to its end, what an incremental pass lists again.
\<close>

section \<open>Priorities and counters\<close>

definition PRIORITY_RECENT :: int where "PRIORITY_RECENT = 10"
definition PRIORITY_MONTH :: int where "PRIORITY_MONTH = 50"
definition PRIORITY_QUARTER :: int where "PRIORITY_QUARTER = 200"
definition PRIORITY_HISTORIC :: int where "PRIORITY_HISTORIC = 500"

definition backfill_priority :: "dt option \<Rightarrow> dt \<Rightarrow> int" where
  "backfill_priority started_at now =
     (case started_at of
        None \<Rightarrow> PRIORITY_HISTORIC
      | Some t \<Rightarrow>
          (let age = now - t
           in if age \<le> 2 * day then PRIORITY_RECENT
              else if age \<le> 31 * day then PRIORITY_MONTH
              else if age \<le> 93 * day then PRIORITY_QUARTER
              else PRIORITY_HISTORIC))"

record inventory_result =
  ir_prefixes_scanned :: nat
  ir_objects_seen :: nat
  ir_recordings_new :: nat
  ir_recordings_existing :: nat
  ir_non_audio_skipped :: nat
  ir_bytes_seen :: int
  ir_queued :: nat
  ir_correlated :: nat
  ir_orphans :: nat
  ir_match_methods :: "string \<rightharpoonup> nat"
  ir_last_prefix :: "string option"

definition new_result :: "nat \<Rightarrow> string option \<Rightarrow> inventory_result" where
  "new_result n prefix =
     \<lparr>ir_prefixes_scanned = n, ir_objects_seen = 0, ir_recordings_new = 0, ir_recordings_existing = 0,
      ir_non_audio_skipped = 0, ir_bytes_seen = 0, ir_queued = 0, ir_correlated = 0, ir_orphans = 0,
      ir_match_methods = Map.empty, ir_last_prefix = prefix\<rparr>"

definition count_of :: "('k \<rightharpoonup> nat) \<Rightarrow> 'k \<Rightarrow> nat" where
  "count_of m k = (case m k of Some n \<Rightarrow> n | None \<Rightarrow> 0)"

definition add_counts :: "('k \<rightharpoonup> nat) \<Rightarrow> ('k \<rightharpoonup> nat) \<Rightarrow> 'k \<rightharpoonup> nat" where
  "add_counts m n = (\<lambda>k. case n k of Some x \<Rightarrow> Some (count_of m k + x) | None \<Rightarrow> m k)"

definition merge_result :: "inventory_result \<Rightarrow> inventory_result \<Rightarrow> inventory_result" where
  "merge_result a b =
     \<lparr>ir_prefixes_scanned = ir_prefixes_scanned a + ir_prefixes_scanned b,
      ir_objects_seen = ir_objects_seen a + ir_objects_seen b,
      ir_recordings_new = ir_recordings_new a + ir_recordings_new b,
      ir_recordings_existing = ir_recordings_existing a + ir_recordings_existing b,
      ir_non_audio_skipped = ir_non_audio_skipped a + ir_non_audio_skipped b,
      ir_bytes_seen = ir_bytes_seen a + ir_bytes_seen b,
      ir_queued = ir_queued a + ir_queued b,
      ir_correlated = ir_correlated a + ir_correlated b,
      ir_orphans = ir_orphans a + ir_orphans b,
      ir_match_methods = add_counts (ir_match_methods a) (ir_match_methods b),
      ir_last_prefix = (case nonempty (ir_last_prefix b) of Some p \<Rightarrow> Some p | None \<Rightarrow> ir_last_prefix a)\<rparr>"

section \<open>Candidates for a recording\<close>

definition candidate_of :: "cdr_row \<Rightarrow> cdr_candidate" where
  "candidate_of r =
     \<lparr>cc_id = cdr_id r, cc_uuid = cdr_call_uuid r, cc_start = cdr_start_at r, cc_src = cdr_src r,
      cc_dst = cdr_dst r, cc_duration = cdr_call_duration r, cc_agent_extension = cdr_agent_extension r\<rparr>"

definition anchor_of :: "parsed_key \<Rightarrow> py_exc + dt option" where
  "anchor_of p =
     (case uniqueid_time p of
        Inl e \<Rightarrow> Inl e
      | Inr (Some t) \<Rightarrow> Inr (Some t)
      | Inr None \<Rightarrow> Inr (case pk_started_at p of Some t \<Rightarrow> Some t | None \<Rightarrow> pk_prefix_hour p))"

definition candidates_for :: "database \<Rightarrow> connection \<Rightarrow> parsed_key \<Rightarrow> int \<Rightarrow> py_exc + cdr_candidate list" where
  "candidates_for d con p window_seconds =
     (case anchor_of p of
        Inl e \<Rightarrow> Inl e
      | Inr None \<Rightarrow> Inr []
      | Inr (Some anchor) \<Rightarrow>
          (let lo = anchor - window_seconds * second; hi = anchor + window_seconds * second
           in Inr (map candidate_of (take 50 (sort_key cdr_start_at
                (filter (\<lambda>r. cdr_brand_id r = con_brand_id con \<and> cdr_connection_id r = con_id con \<and>
                             lo \<le> cdr_start_at r \<and> cdr_start_at r \<le> hi) (db_cdrs d)))))))"

section \<open>One object\<close>

definition recorded :: "connection \<Rightarrow> string \<Rightarrow> recording \<Rightarrow> bool" where
  "recorded con key r \<longleftrightarrow>
     rec_brand_id r = con_brand_id con \<and> rec_connection_id r = con_id con \<and> rec_source_key r = key"

definition started_of :: "parsed_key \<Rightarrow> py_exc + dt option" where
  "started_of p = (case pk_started_at p of Some t \<Rightarrow> Inr (Some t) | None \<Rightarrow> uniqueid_time p)"

definition new_recording :: "int \<Rightarrow> connection \<Rightarrow> object_ref \<Rightarrow> parsed_key \<Rightarrow> dt option \<Rightarrow> match_result \<Rightarrow>
    int option \<Rightarrow> dt \<Rightarrow> recording" where
  "new_recording i con ref p started mr dest now =
     \<lparr>rec_id = i, rec_brand_id = con_brand_id con, rec_connection_id = con_id con,
      rec_tenant_id = con_tenant_id con, rec_source_key = or_key ref, rec_source_size = or_size ref,
      rec_source_etag = Some (or_etag ref), rec_source_last_modified = Some (or_last_modified ref),
      rec_direction = pk_direction p, rec_number = pk_number p, rec_extension = pk_extension p,
      rec_started_at = started, rec_uniqueid = pk_uniqueid p, rec_seq = pk_seq p,
      rec_call_group_key = call_group_key p, rec_file_ext = pk_file_ext p,
      rec_key_parsed_ok = pk_parsed_ok p, rec_cdr_id = mr_cdr_id mr,
      rec_call_uuid = (case nonempty (mr_call_uuid mr) of Some u \<Rightarrow> Some u | None \<Rightarrow> pk_call_uuid p),
      rec_match_method = Some (method_value (mr_method mr)),
      rec_match_confidence = Some (mr_confidence mr), rec_match_ambiguous = mr_ambiguous mr,
      rec_correlated_at = (if matched mr then Some now else None), rec_state = DISCOVERED,
      rec_destination_id = dest, rec_destination_key = None, rec_destination_etag = None,
      rec_destination_size = None, rec_checksum_sha256 = None, rec_bytes_transferred = 0,
      rec_transfer_started_at = None, rec_transfer_completed_at = None, rec_verified_at = None,
      rec_sidecar_written = False, rec_source_deleted_at = None, rec_last_error_class = None,
      rec_last_error_detail = None\<rparr>"

record scan_options =
  so_destination_id :: "int option"
  so_enqueue_transfers :: bool
  so_window_seconds :: int
  so_commit_every :: nat
  so_page_size :: nat

record session =
  ses_work :: database
  ses_committed :: database

definition commit :: "session \<Rightarrow> session" where
  "commit s = s\<lparr>ses_committed := ses_work s\<rparr>"

definition add_recording :: "(int \<Rightarrow> recording) \<Rightarrow> database \<Rightarrow> database" where
  "add_recording f d = d\<lparr>db_recordings := db_recordings d @ [f (db_next_id d)], db_next_id := db_next_id d + 1\<rparr>"

text \<open>The new object's row, its match counted, and its job when there is somewhere to put it.\<close>

definition record_object :: "connection \<Rightarrow> scan_options \<Rightarrow> dt \<Rightarrow> object_ref \<Rightarrow> parsed_key \<Rightarrow> dt option \<Rightarrow>
    match_result \<Rightarrow> database \<Rightarrow> database" where
  "record_object con opts now ref p started mr d =
     (let i = db_next_id d;
          d1 = add_recording (\<lambda>i. new_recording i con ref p started mr (so_destination_id opts) now) d
      in if so_enqueue_transfers opts \<and> so_destination_id opts \<noteq> None
         then update_recording i (\<lambda>r. r\<lparr>rec_state := QUEUED\<rparr>)
                (enqueue now (con_brand_id con) (con_id con) i (so_destination_id opts) TRANSFER
                   (backfill_priority started now) None d1)
         else d1)"

definition count_new :: "scan_options \<Rightarrow> object_ref \<Rightarrow> match_result \<Rightarrow> inventory_result \<Rightarrow> inventory_result" where
  "count_new opts ref mr r =
     (let m = method_value (mr_method mr)
      in r\<lparr>ir_recordings_new := ir_recordings_new r + 1,
           ir_bytes_seen := ir_bytes_seen r + or_size ref,
           ir_match_methods := (ir_match_methods r)(m \<mapsto> count_of (ir_match_methods r) m + 1),
           ir_correlated := ir_correlated r + (if matched mr then 1 else 0),
           ir_orphans := ir_orphans r + (if mr_method mr = ORPHAN then 1 else 0),
           ir_queued := ir_queued r + (if so_enqueue_transfers opts \<and> so_destination_id opts \<noteq> None then 1 else 0)\<rparr>)"

text \<open>One turn of the scan's loop, up to its \<open>continue\<close> or its end; the commit in slices belongs to
  the new objects' turns only, as both \<open>continue\<close>s pass it by.\<close>

definition scan_object :: "connection \<Rightarrow> scan_options \<Rightarrow> dt \<Rightarrow> object_ref \<Rightarrow> session \<times> inventory_result \<Rightarrow>
    py_exc + session \<times> inventory_result" where
  "scan_object con opts now ref st =
     (let (s, r0) = st; r = r0\<lparr>ir_objects_seen := ir_objects_seen r0 + 1\<rparr>
      in case parse_key (or_key ref) of
           Inl e \<Rightarrow> Inl e
         | Inr p \<Rightarrow>
             if \<not> pk_is_audio p then Inr (s, r\<lparr>ir_non_audio_skipped := ir_non_audio_skipped r + 1\<rparr>)
             else if list_ex (recorded con (or_key ref)) (db_recordings (ses_work s))
             then Inr (s, r\<lparr>ir_recordings_existing := ir_recordings_existing r + 1\<rparr>)
             else (case candidates_for (ses_work s) con p (so_window_seconds opts) of
                     Inl e \<Rightarrow> Inl e
                   | Inr candidates \<Rightarrow>
                 (case correlate p candidates of
                    Inl e \<Rightarrow> Inl e
                  | Inr mr \<Rightarrow>
                 (case started_of p of
                    Inl e \<Rightarrow> Inl e
                  | Inr started \<Rightarrow>
                      (let s1 = s\<lparr>ses_work := record_object con opts now ref p started mr (ses_work s)\<rparr>;
                           r1 = count_new opts ref mr r
                       in Inr (if so_commit_every opts \<noteq> 0 \<and> ir_objects_seen r1 mod so_commit_every opts = 0
                               then commit s1 else s1, r1))))))"

section \<open>A day, a range\<close>

fun scan_refs :: "connection \<Rightarrow> scan_options \<Rightarrow> dt \<Rightarrow> object_ref list \<Rightarrow> session \<times> inventory_result \<Rightarrow>
    (py_exc \<times> database) + session \<times> inventory_result" where
  "scan_refs con opts now [] st = Inr st"
| "scan_refs con opts now (ref # refs) st =
     (case scan_object con opts now ref st of
        Inl e \<Rightarrow> Inl (e, ses_committed (fst st))
      | Inr st' \<Rightarrow> scan_refs con opts now refs st')"

datatype scan_exc = ScanPy py_exc | ScanStorage transfer_error

text \<open>What a scan comes to: an exception with the rows it had committed, or its end. \<open>None\<close> when the
  listing does not end within the fuel.\<close>

type_synonym 'a scan = "((scan_exc \<times> database) + 'a) option"

definition scan_day :: "nat \<Rightarrow> service \<Rightarrow> s3_client \<Rightarrow> connection \<Rightarrow> scan_options \<Rightarrow> string \<Rightarrow> dt \<Rightarrow> dt \<Rightarrow>
    history \<Rightarrow> session \<Rightarrow> (history \<times> session \<times> inventory_result) scan" where
  "scan_day fuel svc c con opts kroot now moment h s =
     (let prefix = day_prefix moment kroot;
          (h', refs, fin) = list_prefix fuel svc c prefix (so_page_size opts) None h
      in case scan_refs con opts now refs (s, new_result 1 (Some prefix)) of
           Inl (e, d) \<Rightarrow> Some (Inl (ScanPy e, d))
         | Inr (s', r) \<Rightarrow>
             (case fin of
                Listed \<Rightarrow> Some (Inr (h', s', r))
              | ListFailed e \<Rightarrow> Some (Inl (ScanStorage e, ses_committed s'))
              | OutOfFuel \<Rightarrow> None))"

text \<open>\<open>strptime(text, "%Y/%m/%d")\<close> of the standard library: its pattern's alternatives in order,
  then the whole text must have been read, then the date must exist.\<close>

definition nonzero_digit :: "char \<Rightarrow> bool" where
  "nonzero_digit c \<longleftrightarrow> is_digit c \<and> c \<noteq> CHR ''0''"

fun strp_two :: "(char \<times> char \<Rightarrow> bool) \<Rightarrow> string \<Rightarrow> (int \<times> string) option" where
  "strp_two p (a # b # s) = (if p (a, b) then Some (py_int [a, b], s) else None)"
| "strp_two p _ = None"

fun strp_one :: "string \<Rightarrow> (int \<times> string) option" where
  "strp_one (a # s) = (if nonzero_digit a then Some (py_int [a], s) else None)"
| "strp_one [] = None"

definition or_else :: "'a option \<Rightarrow> 'a option \<Rightarrow> 'a option" where
  "or_else a b = (case a of Some x \<Rightarrow> Some x | None \<Rightarrow> b)"

definition strp_month :: "string \<Rightarrow> (int \<times> string) option" where
  "strp_month s =
     or_else (strp_two (\<lambda>(a, b). a = CHR ''1'' \<and> b \<in> {CHR ''0'', CHR ''1'', CHR ''2''}) s)
    (or_else (strp_two (\<lambda>(a, b). a = CHR ''0'' \<and> nonzero_digit b) s) (strp_one s))"

definition strp_mday :: "string \<Rightarrow> (int \<times> string) option" where
  "strp_mday s =
     or_else (strp_two (\<lambda>(a, b). a = CHR ''3'' \<and> b \<in> {CHR ''0'', CHR ''1''}) s)
    (or_else (strp_two (\<lambda>(a, b). a \<in> {CHR ''1'', CHR ''2''} \<and> is_digit b) s)
    (or_else (strp_two (\<lambda>(a, b). a = CHR ''0'' \<and> nonzero_digit b) s)
    (or_else (strp_one s)
       (strp_two (\<lambda>(a, b). a = CHR '' '' \<and> nonzero_digit b) s))))"

definition strptime_ymd :: "string \<Rightarrow> py_exc + dt" where
  "strptime_ymd s =
     (let bad = Inl (ValueError ''time data does not match format'')
      in if length s < 4 \<or> \<not> list_all is_digit (take 4 s) then bad
         else case drop 4 s of
           c1 # s1 \<Rightarrow> if c1 \<noteq> CHR ''/'' then bad else
             (case strp_month s1 of
                Some (m, c2 # s2) \<Rightarrow> if c2 \<noteq> CHR ''/'' then bad else
                  (case strp_mday s2 of
                     Some (d, []) \<Rightarrow>
                       (case mk_datetime (py_int (take 4 s)) m d 0 0 0 of
                          Some t \<Rightarrow> Inr t | None \<Rightarrow> Inl (ValueError ''day is out of range for month''))
                   | _ \<Rightarrow> bad)
              | _ \<Rightarrow> bad)
         | [] \<Rightarrow> bad)"

definition day_of_prefix :: "string \<Rightarrow> string \<Rightarrow> py_exc + dt" where
  "day_of_prefix kroot prefix =
     (let datepart = (if kroot \<noteq> [] \<and> starts_with kroot prefix then drop (length kroot) prefix else prefix)
      in strptime_ymd (strip_chars (\<lambda>c. c = CHR ''/'') datepart))"

definition advance_cursor :: "connection \<Rightarrow> dt \<Rightarrow> dt \<Rightarrow> bool \<Rightarrow> session \<Rightarrow> session" where
  "advance_cursor con d now commit_every_prefix s =
     (let s1 = s\<lparr>ses_work := update_connection (con_id con)
            (\<lambda>c. c\<lparr>con_inventory_cursor_day := Some d, con_last_inventory_at := Some now\<rparr>) (ses_work s)\<rparr>
      in if commit_every_prefix then commit s1 else s1)"

fun scan_prefixes :: "nat \<Rightarrow> service \<Rightarrow> s3_client \<Rightarrow> connection \<Rightarrow> scan_options \<Rightarrow> string \<Rightarrow> dt \<Rightarrow> bool \<Rightarrow>
    string list \<Rightarrow> history \<Rightarrow> session \<Rightarrow> inventory_result \<Rightarrow> (history \<times> session \<times> inventory_result) scan" where
  "scan_prefixes fuel svc c con opts kroot now every [] h s acc = Some (Inr (h, s, acc))"
| "scan_prefixes fuel svc c con opts kroot now every (prefix # ps) h s acc =
     (case day_of_prefix kroot prefix of
        Inl e \<Rightarrow> Some (Inl (ScanPy e, ses_committed s))
      | Inr d \<Rightarrow>
          (case scan_day fuel svc c con opts kroot now d h s of
             None \<Rightarrow> None
           | Some (Inl x) \<Rightarrow> Some (Inl x)
           | Some (Inr (h', s', got)) \<Rightarrow>
               scan_prefixes fuel svc c con opts kroot now every ps h' (advance_cursor con d now every s')
                 (merge_result acc got)))"

definition scan_range :: "nat \<Rightarrow> service \<Rightarrow> s3_client \<Rightarrow> connection \<Rightarrow> scan_options \<Rightarrow> string \<Rightarrow> dt \<Rightarrow> bool \<Rightarrow>
    dt \<Rightarrow> dt \<Rightarrow> history \<Rightarrow> session \<Rightarrow> (history \<times> session \<times> inventory_result) scan" where
  "scan_range fuel svc c con opts kroot now every start stop h s =
     scan_prefixes fuel svc c con (opts\<lparr>so_window_seconds := 120\<rparr>) kroot now every
       (iter_day_prefixes start stop kroot) h s (new_result 0 None)"

text \<open>The days an incremental pass lists again.\<close>

definition overlap_days :: "int \<Rightarrow> int" where
  "overlap_days overlap_hours = max 1 ((max overlap_hours 0 + 23) div 24)"

definition plan_incremental :: "connection \<Rightarrow> int \<Rightarrow> dt \<Rightarrow> dt \<times> dt" where
  "plan_incremental con overlap_hours now0 =
     (let now = floor_day now0
      in case con_inventory_cursor_day con of
           None \<Rightarrow> (now - overlap_days overlap_hours * day, now)
         | Some cursor \<Rightarrow> (min (cursor - overlap_days overlap_hours * day) now, now))"

section \<open>What a listing leaves in the tables\<close>

definition source_of :: "recording \<Rightarrow> int \<times> int \<times> string" where
  "source_of r = (rec_brand_id r, rec_connection_id r, rec_source_key r)"

definition tables_ok :: "database \<Rightarrow> bool" where
  "tables_ok d \<longleftrightarrow> queue_inv d \<and> distinct (map rec_id (db_recordings d)) \<and>
     distinct (map source_of (db_recordings d)) \<and>
     (\<forall>r \<in> set (db_recordings d). rec_id r < db_next_id d) \<and>
     (\<forall>j \<in> set (db_jobs d). job_recording_id j < db_next_id d)"

definition is_audio_key :: "string \<Rightarrow> bool" where
  "is_audio_key key = (case parse_key key of Inr p \<Rightarrow> pk_is_audio p | Inl _ \<Rightarrow> False)"

definition queues :: "scan_options \<Rightarrow> bool" where
  "queues opts \<longleftrightarrow> so_enqueue_transfers opts \<and> so_destination_id opts \<noteq> None"

definition new_row_ok :: "connection \<Rightarrow> scan_options \<Rightarrow> dt \<Rightarrow> object_ref set \<Rightarrow> database \<Rightarrow> recording \<Rightarrow> bool" where
  "new_row_ok con opts now refs d r \<longleftrightarrow>
     rec_brand_id r = con_brand_id con \<and> rec_connection_id r = con_id con \<and>
     (\<exists>ref \<in> refs. rec_source_key r = or_key ref \<and> rec_source_size r = or_size ref \<and> is_audio_key (or_key ref)) \<and>
     (if queues opts
      then rec_state r = QUEUED \<and>
        (\<exists>j \<in> set (db_jobs d). same_work (con_brand_id con) (rec_id r) TRANSFER j \<and> pending_at now j)
      else rec_state r = DISCOVERED)"

definition scan_adds :: "connection \<Rightarrow> scan_options \<Rightarrow> dt \<Rightarrow> object_ref set \<Rightarrow> nat \<Rightarrow> database \<Rightarrow> database \<Rightarrow> bool" where
  "scan_adds con opts now refs n d d' \<longleftrightarrow>
     (\<exists>news js. db_recordings d' = db_recordings d @ news \<and> db_jobs d' = db_jobs d @ js \<and>
        (\<forall>r \<in> set news. new_row_ok con opts now refs d' r) \<and> length news = n \<and>
        length js = (if queues opts then n else 0)) \<and>
     db_attempts d' = db_attempts d \<and> db_cdrs d' = db_cdrs d \<and> db_connections d' = db_connections d"

lemma scan_adds_refl: "scan_adds con opts now refs 0 d d"
  by (simp add: scan_adds_def)

lemma new_row_ok_mono:
  "new_row_ok con opts now refs d r \<Longrightarrow> refs \<subseteq> refs' \<Longrightarrow> set (db_jobs d) \<subseteq> set (db_jobs d') \<Longrightarrow>
   new_row_ok con opts now refs' d' r"
  unfolding new_row_ok_def by (auto split: if_splits)

lemma scan_adds_trans:
  assumes "scan_adds con opts now refs n d d1" "scan_adds con opts now refs' m d1 d2" "refs \<subseteq> refs''" "refs' \<subseteq> refs''"
  shows "scan_adds con opts now refs'' (n + m) d d2"
proof -
  from assms(1) obtain n1 j1 where 1: "db_recordings d1 = db_recordings d @ n1" "db_jobs d1 = db_jobs d @ j1"
    "\<forall>r \<in> set n1. new_row_ok con opts now refs d1 r" "length n1 = n" "length j1 = (if queues opts then n else 0)"
    by (auto simp: scan_adds_def)
  from assms(2) obtain n2 j2 where 2: "db_recordings d2 = db_recordings d1 @ n2" "db_jobs d2 = db_jobs d1 @ j2"
    "\<forall>r \<in> set n2. new_row_ok con opts now refs' d2 r" "length n2 = m" "length j2 = (if queues opts then m else 0)"
    by (auto simp: scan_adds_def)
  have "\<forall>r \<in> set (n1 @ n2). new_row_ok con opts now refs'' d2 r"
    using 1(3) 2(2,3) new_row_ok_mono [OF _ assms(3), of con opts now d1 _ d2]
      new_row_ok_mono [OF _ assms(4), of con opts now d2 _ d2] by auto
  moreover have "db_recordings d2 = db_recordings d @ (n1 @ n2)" "db_jobs d2 = db_jobs d @ (j1 @ j2)"
    "length (n1 @ n2) = n + m" "length (j1 @ j2) = (if queues opts then n + m else 0)"
    using 1 2 by auto
  moreover have "db_attempts d2 = db_attempts d \<and> db_cdrs d2 = db_cdrs d \<and> db_connections d2 = db_connections d"
    using assms(1,2) by (auto simp: scan_adds_def)
  ultimately show ?thesis unfolding scan_adds_def by blast
qed

lemma tables_ok_enqueue_fresh:
  assumes "tables_ok d"
  shows "\<not> list_ex (same_work b (db_next_id d) kind) (db_jobs d)"
  using assms by (auto simp: tables_ok_def list_ex_iff same_work_def)

definition placed :: "connection \<Rightarrow> scan_options \<Rightarrow> dt \<Rightarrow> object_ref \<Rightarrow> parsed_key \<Rightarrow> dt option \<Rightarrow>
    match_result \<Rightarrow> int \<Rightarrow> recording" where
  "placed con opts now ref p started mr i =
     (let r = new_recording i con ref p started mr (so_destination_id opts) now
      in if queues opts then r\<lparr>rec_state := QUEUED\<rparr> else r)"

lemma update_fresh:
  "(\<And>r. r \<in> set rows \<Longrightarrow> rec_id r \<noteq> i) \<Longrightarrow> rec_id x = i \<Longrightarrow>
   update_where (\<lambda>r. rec_id r = i) f (rows @ [x]) = rows @ [f x]"
  unfolding update_where_def by (simp add: map_idI)

lemma record_object_tables:
  assumes "tables_ok d" "d' = record_object con opts now ref p started mr d"
  shows "db_recordings d' = db_recordings d @ [placed con opts now ref p started mr (db_next_id d)]"
    and "db_jobs d' = db_jobs d @ (if queues opts
      then [new_job (db_next_id d + 1) (con_brand_id con) (con_id con) (db_next_id d) (so_destination_id opts)
              TRANSFER (backfill_priority started now) now] else [])"
    and "db_next_id d' = db_next_id d + (if queues opts then 2 else 1)"
    and "db_attempts d' = db_attempts d \<and> db_cdrs d' = db_cdrs d \<and> db_connections d' = db_connections d"
proof -
  have fresh: "rec_id r \<noteq> db_next_id d" if "r \<in> set (db_recordings d)" for r
    using assms(1) that by (auto simp: tables_ok_def)
  have rid: "rec_id (new_recording i con ref p started mr dest now) = i" for i dest
    by (simp add: new_recording_def)
  note nojob = tables_ok_enqueue_fresh [OF assms(1), of "con_brand_id con" TRANSFER]
  show "db_recordings d' = db_recordings d @ [placed con opts now ref p started mr (db_next_id d)]"
    using nojob unfolding assms(2) record_object_def Let_def
    by (cases "so_destination_id opts")
      (simp_all add: enqueue_def add_recording_def queues_def placed_def update_fresh [OF fresh rid] Let_def)
  show "db_jobs d' = db_jobs d @ (if queues opts
      then [new_job (db_next_id d + 1) (con_brand_id con) (con_id con) (db_next_id d) (so_destination_id opts)
              TRANSFER (backfill_priority started now) now] else [])"
    using nojob unfolding assms(2) record_object_def Let_def
    by (simp add: enqueue_def add_recording_def queues_def)
  show "db_next_id d' = db_next_id d + (if queues opts then 2 else 1)"
    using nojob unfolding assms(2) record_object_def Let_def
    by (simp add: enqueue_def add_recording_def queues_def)
  show "db_attempts d' = db_attempts d \<and> db_cdrs d' = db_cdrs d \<and> db_connections d' = db_connections d"
    unfolding assms(2) record_object_def Let_def
    by (simp add: enqueue_def add_recording_def update_recording_def)
qed

lemma placed_fields:
  "rec_id (placed con opts now ref p started mr i) = i"
  "source_of (placed con opts now ref p started mr i) = (con_brand_id con, con_id con, or_key ref)"
  "rec_source_size (placed con opts now ref p started mr i) = or_size ref"
  "rec_state (placed con opts now ref p started mr i) = (if queues opts then QUEUED else DISCOVERED)"
  by (simp_all add: placed_def new_recording_def source_of_def Let_def)

lemma recorded_source: "recorded con key r \<longleftrightarrow> source_of r = (con_brand_id con, con_id con, key)"
  by (simp add: recorded_def source_of_def)

lemma record_object_adds:
  assumes ok: "tables_ok d" and d': "d' = record_object con opts now ref p started mr d"
    and p: "parse_key (or_key ref) = Inr p" "pk_is_audio p"
    and new: "\<not> list_ex (recorded con (or_key ref)) (db_recordings d)"
  shows "tables_ok d'" and "scan_adds con opts now {ref} 1 d d'"
    and "list_ex (recorded con (or_key ref)) (db_recordings d')"
proof -
  note t = record_object_tables [OF ok d']
  let ?job = "new_job (db_next_id d + 1) (con_brand_id con) (con_id con) (db_next_id d) (so_destination_id opts)
              TRANSFER (backfill_priority started now) now"
  have src: "(con_brand_id con, con_id con, or_key ref) \<notin> set (map source_of (db_recordings d))"
    using new by (auto simp: list_ex_iff recorded_source)
  have q: "queue_inv d" and rid: "\<forall>r \<in> set (db_recordings d). rec_id r < db_next_id d"
    and jr: "\<forall>j \<in> set (db_jobs d). job_recording_id j < db_next_id d"
    and dist: "distinct (map rec_id (db_recordings d))" "distinct (map source_of (db_recordings d))"
    using ok by (auto simp: tables_ok_def)
  have "queue_inv d'"
  proof (cases "queues opts")
    case True
    have "work_of ?job \<notin> set (map work_of (db_jobs d))" using jr by (auto simp: work_of_def new_job_def)
    moreover have "db_next_id d + 1 \<notin> set (map job_id (db_jobs d))"
      using q by (fastforce simp: queue_inv_def)
    ultimately show ?thesis using q True
      by (fastforce simp: queue_inv_def t new_job_def job_ok_def)
  next
    case False
    then show ?thesis using q by (fastforce simp: queue_inv_def t)
  qed
  moreover have "db_next_id d \<notin> set (map rec_id (db_recordings d))" using rid by auto
  ultimately show "tables_ok d'" using dist src rid jr
    by (fastforce simp: tables_ok_def t placed_fields new_job_def split: if_splits)
  have "is_audio_key (or_key ref)" using p by (simp add: is_audio_key_def)
  moreover have "placed con opts now ref p started mr (db_next_id d) = r \<Longrightarrow>
      rec_brand_id r = con_brand_id con \<and> rec_connection_id r = con_id con \<and> rec_source_key r = or_key ref" for r
    using placed_fields(2) [of con opts now ref p started mr "db_next_id d"] by (auto simp: source_of_def)
  moreover have "same_work (con_brand_id con) (db_next_id d) TRANSFER ?job \<and> pending_at now ?job"
    by (simp add: same_work_def new_job_def pending_at_def)
  ultimately have "new_row_ok con opts now {ref} d' (placed con opts now ref p started mr (db_next_id d))"
    by (simp add: new_row_ok_def placed_fields t(2))
  then show "scan_adds con opts now {ref} 1 d d'"
    using t by (simp add: scan_adds_def)
  show "list_ex (recorded con (or_key ref)) (db_recordings d')"
    by (simp add: t recorded_source placed_fields)
qed

text \<open>What one turn does: passes an object by, or records it.\<close>

definition turn :: "connection \<Rightarrow> scan_options \<Rightarrow> dt \<Rightarrow> object_ref \<Rightarrow> session \<times> inventory_result \<Rightarrow>
    session \<times> inventory_result \<Rightarrow> nat \<Rightarrow> bool" where
  "turn con opts now ref st st' n \<longleftrightarrow>
     scan_adds con opts now {ref} n (ses_work (fst st)) (ses_work (fst st')) \<and>
     tables_ok (ses_work (fst st')) \<and>
     (is_audio_key (or_key ref) \<longrightarrow> list_ex (recorded con (or_key ref)) (db_recordings (ses_work (fst st')))) \<and>
     ses_committed (fst st') \<in> {ses_committed (fst st), ses_work (fst st')} \<and>
     ir_recordings_new (snd st') = ir_recordings_new (snd st) + n \<and>
     ir_queued (snd st') = ir_queued (snd st) + (if queues opts then n else 0) \<and>
     ir_objects_seen (snd st') = ir_objects_seen (snd st) + 1 \<and>
     ir_recordings_new (snd st') + ir_recordings_existing (snd st') + ir_non_audio_skipped (snd st') =
     ir_recordings_new (snd st) + ir_recordings_existing (snd st) + ir_non_audio_skipped (snd st) + 1"

lemma scan_object_turn:
  assumes "scan_object con opts now ref st = Inr st'" and ok: "tables_ok (ses_work (fst st))"
  obtains n where "turn con opts now ref st st' n"
    and "is_audio_key (or_key ref) \<and> \<not> list_ex (recorded con (or_key ref)) (db_recordings (ses_work (fst st))) \<longleftrightarrow> n = 1"
    and "n = 0 \<Longrightarrow> fst st' = fst st"
proof -
  obtain s r where st: "st = (s, r)" by (cases st)
  obtain p where p: "parse_key (or_key ref) = Inr p"
    using assms(1) by (auto simp: scan_object_def st Let_def split: sum.splits)
  have audio: "is_audio_key (or_key ref) = pk_is_audio p" by (simp add: is_audio_key_def p)
  let ?rec = "list_ex (recorded con (or_key ref)) (db_recordings (ses_work s))"
  show thesis
  proof (cases "pk_is_audio p \<and> \<not> ?rec")
    case False
    then have "fst st' = s" "ir_recordings_new (snd st') = ir_recordings_new r" "ir_queued (snd st') = ir_queued r"
      "ir_objects_seen (snd st') = ir_objects_seen r + 1"
      "ir_recordings_existing (snd st') + ir_non_audio_skipped (snd st') =
        ir_recordings_existing r + ir_non_audio_skipped r + 1"
      using assms(1) p by (auto simp: scan_object_def st Let_def split: if_splits)
    then have "turn con opts now ref st st' 0"
      using False ok by (auto simp: turn_def st scan_adds_refl audio)
    then show thesis using that [of 0] False audio \<open>fst st' = s\<close> by (auto simp: st)
  next
    case True
    then obtain mr started where st': "ses_work (fst st') = record_object con opts now ref p started mr (ses_work s)"
        "snd st' = count_new opts ref mr (r\<lparr>ir_objects_seen := ir_objects_seen r + 1\<rparr>)"
        "ses_committed (fst st') \<in> {ses_committed s, ses_work (fst st')}"
      using assms(1) p by (auto simp: scan_object_def st Let_def commit_def split: sum.splits if_splits)
    have "tables_ok (ses_work s)" using ok by (simp add: st)
    note add = record_object_adds [OF this st'(1) p]
    have "turn con opts now ref st st' 1"
      using add True st'(2,3) by (simp add: turn_def st count_new_def Let_def queues_def)
    then show thesis using that [of 1] True audio by (simp add: st)
  qed
qed

lemma recorded_stays:
  "scan_adds con opts now refs n d d' \<Longrightarrow> list_ex P (db_recordings d) \<Longrightarrow> list_ex P (db_recordings d')"
  by (auto simp: scan_adds_def)

definition refs_scanned :: "connection \<Rightarrow> scan_options \<Rightarrow> dt \<Rightarrow> object_ref list \<Rightarrow> session \<times> inventory_result \<Rightarrow>
    session \<times> inventory_result \<Rightarrow> nat \<Rightarrow> bool" where
  "refs_scanned con opts now refs st st' n \<longleftrightarrow>
     scan_adds con opts now (set refs) n (ses_work (fst st)) (ses_work (fst st')) \<and>
     tables_ok (ses_work (fst st')) \<and>
     (\<forall>ref \<in> set refs. is_audio_key (or_key ref) \<longrightarrow>
        list_ex (recorded con (or_key ref)) (db_recordings (ses_work (fst st')))) \<and>
     ir_recordings_new (snd st') = ir_recordings_new (snd st) + n \<and>
     ir_queued (snd st') = ir_queued (snd st) + (if queues opts then n else 0) \<and>
     ir_objects_seen (snd st') = ir_objects_seen (snd st) + length refs \<and>
     ir_recordings_new (snd st') + ir_recordings_existing (snd st') + ir_non_audio_skipped (snd st') =
     ir_recordings_new (snd st) + ir_recordings_existing (snd st) + ir_non_audio_skipped (snd st) + length refs"

lemma scan_refs_scanned:
  assumes "scan_refs con opts now refs st = Inr st'" and "tables_ok (ses_work (fst st))"
  shows "\<exists>n. refs_scanned con opts now refs st st' n"
  using assms
proof (induction refs arbitrary: st)
  case Nil
  then show ?case by (intro exI [of _ 0]) (simp add: refs_scanned_def scan_adds_refl)
next
  case (Cons ref refs)
  then obtain st1 where st1: "scan_object con opts now ref st = Inr st1" "scan_refs con opts now refs st1 = Inr st'"
    by (auto split: sum.splits)
  obtain n where n: "turn con opts now ref st st1 n"
    using scan_object_turn [OF st1(1) Cons.prems(2)] by blast
  then obtain m where m: "refs_scanned con opts now refs st1 st' m"
    using Cons.IH [OF st1(2)] by (auto simp: turn_def)
  have "scan_adds con opts now (set (ref # refs)) (n + m) (ses_work (fst st)) (ses_work (fst st'))"
    using n m by (auto simp: turn_def refs_scanned_def intro: scan_adds_trans)
  moreover have "is_audio_key (or_key ref) \<Longrightarrow>
      list_ex (recorded con (or_key ref)) (db_recordings (ses_work (fst st')))"
    using n m recorded_stays by (auto simp: turn_def refs_scanned_def)
  ultimately have "refs_scanned con opts now (ref # refs) st st' (n + m)"
    using n m unfolding turn_def refs_scanned_def by auto
  then show ?case ..
qed

text \<open>Whatever stops the loop, what is committed is a run of whole turns.\<close>

lemma scan_refs_committed:
  assumes "tables_ok (ses_work (fst st))" "tables_ok d0"
    and "\<exists>n. scan_adds con opts now R n d0 (ses_work (fst st))"
    and "\<exists>n. tables_ok (ses_committed (fst st)) \<and> scan_adds con opts now R n d0 (ses_committed (fst st))"
    and "set refs \<subseteq> R"
  shows "(\<forall>e d. scan_refs con opts now refs st = Inl (e, d) \<longrightarrow> tables_ok d \<and> (\<exists>n. scan_adds con opts now R n d0 d)) \<and>
    (\<forall>st'. scan_refs con opts now refs st = Inr st' \<longrightarrow>
       tables_ok (ses_committed (fst st')) \<and> (\<exists>n. scan_adds con opts now R n d0 (ses_committed (fst st'))))"
  using assms
proof (induction refs arbitrary: st)
  case (Cons ref refs)
  show ?case
  proof (cases "scan_object con opts now ref st")
    case (Inl e)
    then show ?thesis using Cons.prems by auto
  next
    case (Inr st1)
    obtain n where n: "turn con opts now ref st st1 n"
      using scan_object_turn [OF Inr Cons.prems(1)] by blast
    obtain m where m: "scan_adds con opts now R m d0 (ses_work (fst st))" using Cons.prems(3) by blast
    have w: "scan_adds con opts now R (m + n) d0 (ses_work (fst st1))"
      using scan_adds_trans [OF m, of "{ref}" n "ses_work (fst st1)" R] n Cons.prems(5) by (auto simp: turn_def)
    have c: "\<exists>n. tables_ok (ses_committed (fst st1)) \<and> scan_adds con opts now R n d0 (ses_committed (fst st1))"
      using n w Cons.prems(4) by (auto simp: turn_def)
    show ?thesis
      using Cons.IH [of st1] n w c Cons.prems(2,5) Inr by (auto simp: turn_def)
  qed
qed auto

section \<open>The day of a prefix\<close>

lemma strp_month_zpad:
  assumes "1 \<le> m" "m \<le> 12"
  shows "strp_month (zpad 2 m @ s) = Some (int m, s)"
proof -
  have "m \<in> {1, 2, 3, 4, 5, 6, 7, 8, 9, 10, 11, 12}" using assms unfolding insert_iff empty_iff by presburger
  then show ?thesis
    by (elim insertE emptyE; hypsubst)
      (simp_all add: zpad_def str_simps strp_month_def or_else_def nonzero_digit_def is_digit_def py_int_def)
qed

lemma strp_mday_zpad:
  assumes "1 \<le> m" "m \<le> 31"
  shows "strp_mday (zpad 2 m @ s) = Some (int m, s)"
proof -
  have "m \<in> {1, 2, 3, 4, 5, 6, 7, 8, 9, 10, 11, 12,13,14,15,16,17,18,19,20,21,22,23,24,25,26,27,28,29,30,31}" using assms unfolding insert_iff empty_iff by presburger
  then show ?thesis
    by (elim insertE emptyE; hypsubst)
      (simp_all add: zpad_def str_simps strp_mday_def or_else_def nonzero_digit_def is_digit_def py_int_def)
qed

lemma dropWhile_hd: "xs \<noteq> [] \<Longrightarrow> \<not> p (hd xs) \<Longrightarrow> dropWhile p xs = xs"
  by (cases xs) auto

lemma strip_slashes:
  assumes "s \<noteq> []" "hd s \<noteq> CHR ''/''" "last s \<noteq> CHR ''/''"
  shows "strip_chars (\<lambda>c. c = CHR ''/'') (s @ ''/'') = s"
  using assms dropWhile_hd [of "s @ ''/''" "\<lambda>c. c = CHR ''/''"] dropWhile_hd [of "rev s" "\<lambda>c. c = CHR ''/''"]
  by (simp add: strip_chars_def lstrip_chars_def rstrip_chars_def hd_rev)

lemma zpad_ends:
  assumes "n < 10 ^ w" "0 < w"
  shows "zpad w n \<noteq> [] \<and> is_digit (hd (zpad w n)) \<and> is_digit (last (zpad w n))"
proof -
  have "zpad w n \<noteq> []" using length_zpad [OF assms] assms(2) by auto
  then show ?thesis using zpad_digits [of _ w n] by simp
qed

lemma day_of_prefix_day:
  assumes "valid_dt t"
  shows "day_of_prefix kroot (day_prefix t kroot) = Inr (floor_day t)"
proof -
  obtain y m d where ymd: "date_of t = (y, m, d)" by (cases "date_of t")
  have v: "valid_date y m d" and mid: "midnight y m d = floor_day t" using date_of_valid [OF assms ymd] by auto
  have yr: "1 \<le> y" "y \<le> 9999" "1 \<le> m" "m \<le> 12" "1 \<le> d" "d \<le> 31"
    using v days_in_month_bounds [of m y] by (auto simp: valid_date_def)
  let ?y = "zpad 4 (nat y)" and ?m = "zpad 2 (nat m)" and ?d = "zpad 2 (nat d)"
  have ly: "length ?y = 4" using yr by (intro length_zpad) auto
  have e: "zpad 4 (nat y) \<noteq> [] \<and> is_digit (hd ?y)" "?d \<noteq> [] \<and> is_digit (last ?d)"
    using zpad_ends [of "nat y" 4] zpad_ends [of "nat d" 2] yr by auto
  let ?core = "?y @ ''/'' @ ?m @ ''/'' @ ?d"
  have pre: "day_prefix t kroot = kroot @ ?core @ ''/''" by (simp add: day_prefix_def ymd)
  have "strip_chars (\<lambda>c. c = CHR ''/'') (?core @ ''/'') = ?core"
    using e by (intro strip_slashes) (auto simp: is_digit_def)
  moreover have "strptime_ymd ?core = Inr (floor_day t)"
    using strp_month_zpad [of "nat m" "''/'' @ ?d"] strp_mday_zpad [of "nat d" "[]"] yr v mid ly zpad_digits [of _ 4 "nat y"]
    by (simp add: strptime_ymd_def Let_def mk_datetime_def list_all_iff)
  ultimately show ?thesis
    by (simp add: day_of_prefix_def Let_def pre starts_with_def)
qed
section \<open>The listing of a day\<close>

lemma recorded_once:
  assumes "tables_ok d" "list_ex (recorded con key) (db_recordings d)"
  shows "\<exists>r. filter (recorded con key) (db_recordings d) = [r]"
proof -
  let ?k = "(con_brand_id con, con_id con, key)"
  have "distinct (map source_of (filter (recorded con key) (db_recordings d)))"
    using assms(1) by (simp add: tables_ok_def distinct_map_filter)
  moreover have "set (map source_of (filter (recorded con key) (db_recordings d))) = {?k}"
    using assms(2) by (auto simp: list_ex_iff recorded_source)
  ultimately have "length (filter (recorded con key) (db_recordings d)) = 1"
    by (metis One_nat_def card.empty card_insert_disjoint distinct_card empty_iff finite.emptyI length_map)
  then show ?thesis by (simp add: length_Suc_conv)
qed

lemma scan_day_Inr:
  assumes "scan_day fuel svc c con opts kroot now moment h s = Some (Inr (h', s', r))"
  obtains refs where "list_prefix fuel svc c (day_prefix moment kroot) (so_page_size opts) None h = (h', refs, Listed)"
    and "scan_refs con opts now refs (s, new_result 1 (Some (day_prefix moment kroot))) = Inr (s', r)"
  using assms by (auto simp: scan_day_def Let_def split: prod.splits sum.splits listing_end.splits)

text \<open>A day's scan that comes to its end has seen every object the listing named, and every
  audio object of it then has exactly one recording of its account and key. It only adds: the rows that
  were there are untouched, each new row is for a listed audio object with that object's size and, when
  there is a destination, is QUEUED with a pending transfer job that is due; without one it is
  DISCOVERED and no job is made. Every object is counted once, as new, known, or not media.\<close>

theorem scan_day_records:
  assumes "scan_day fuel svc c con opts kroot now moment h s = Some (Inr (h', s', r))"
    and "tables_ok (ses_work s)"
  shows "\<exists>refs. list_prefix fuel svc c (day_prefix moment kroot) (so_page_size opts) None h = (h', refs, Listed) \<and>
     scan_adds con opts now (set refs) (ir_recordings_new r) (ses_work s) (ses_work s') \<and> tables_ok (ses_work s') \<and>
     (\<forall>ref \<in> set refs. is_audio_key (or_key ref) \<longrightarrow>
        (\<exists>row. filter (recorded con (or_key ref)) (db_recordings (ses_work s')) = [row])) \<and>
     ir_objects_seen r = length refs \<and>
     ir_recordings_new r + ir_recordings_existing r + ir_non_audio_skipped r = length refs \<and>
     ir_queued r = (if queues opts then ir_recordings_new r else 0)"
proof -
  obtain refs where l: "list_prefix fuel svc c (day_prefix moment kroot) (so_page_size opts) None h = (h', refs, Listed)"
    and sc: "scan_refs con opts now refs (s, new_result 1 (Some (day_prefix moment kroot))) = Inr (s', r)"
    using scan_day_Inr [OF assms(1)] .
  then obtain n where n: "refs_scanned con opts now refs (s, new_result 1 (Some (day_prefix moment kroot))) (s', r) n"
    using scan_refs_scanned [OF sc] assms(2) by auto
  have "n = ir_recordings_new r" using n by (simp add: refs_scanned_def new_result_def)
  then have "scan_adds con opts now (set refs) (ir_recordings_new r) (ses_work s) (ses_work s')" "tables_ok (ses_work s')"
    "ir_objects_seen r = length refs \<and>
     ir_recordings_new r + ir_recordings_existing r + ir_non_audio_skipped r = length refs \<and>
     ir_queued r = (if queues opts then ir_recordings_new r else 0)"
    using n by (auto simp: refs_scanned_def new_result_def)
  moreover have "\<exists>row. filter (recorded con (or_key ref)) (db_recordings (ses_work s')) = [row]"
    if "ref \<in> set refs" "is_audio_key (or_key ref)" for ref
    using n that by (intro recorded_once) (auto simp: refs_scanned_def)
  ultimately show ?thesis using l by blast
qed

lemma rescan_object:
  assumes "scan_object con opts now ref st = Inr st'" and "tables_ok (ses_work (fst st))"
    and "list_all (\<lambda>ref. is_audio_key (or_key ref) \<longrightarrow> list_ex (recorded con (or_key ref)) (db_recordings (ses_work s))) [ref]"
  shows "\<exists>r'. scan_object con opts' now' ref (s, r) = Inr (s, r') \<and> ir_recordings_new r' = ir_recordings_new r"
proof -
  obtain p where p: "parse_key (or_key ref) = Inr p"
    using assms(1) by (cases st) (auto simp: scan_object_def Let_def split: sum.splits)
  then show ?thesis using assms(3) by (auto simp: scan_object_def Let_def is_audio_key_def)
qed

lemma rescan_refs:
  assumes "scan_refs con opts now refs st = Inr st'" "tables_ok (ses_work (fst st))"
    and "\<And>ref. ref \<in> set refs \<Longrightarrow> is_audio_key (or_key ref) \<Longrightarrow>
      list_ex (recorded con (or_key ref)) (db_recordings (ses_work s))"
  shows "\<exists>r'. scan_refs con opts' now' refs (s, r) = Inr (s, r') \<and> ir_recordings_new r' = ir_recordings_new r"
  using assms
proof (induction refs arbitrary: st r)
  case (Cons ref refs)
  then obtain st1 where st1: "scan_object con opts now ref st = Inr st1" "scan_refs con opts now refs st1 = Inr st'"
    by (auto split: sum.splits)
  have ok: "tables_ok (ses_work (fst st1))"
    using scan_object_turn [OF st1(1) Cons.prems(2)] by (auto simp: turn_def)
  obtain r1 where r1: "scan_object con opts' now' ref (s, r) = Inr (s, r1)" "ir_recordings_new r1 = ir_recordings_new r"
    using rescan_object [OF st1(1) Cons.prems(2), of s opts' now' r] Cons.prems(3) by auto
  obtain r2 where "scan_refs con opts' now' refs (s, r1) = Inr (s, r2)" "ir_recordings_new r2 = ir_recordings_new r1"
    using Cons.IH [OF st1(2) ok, of r1] Cons.prems(3) by auto
  then show ?case using r1 by auto
qed simp

text \<open>Scanning a day again that lists the same objects changes nothing at all, whatever options and
  clock the second scan has: no row, no job, no commit, nothing new.\<close>

theorem rescan_no_change:
  assumes "scan_day fuel svc c con opts kroot now moment h s = Some (Inr (h', s', r))"
    and "tables_ok (ses_work s)"
    and "list_prefix fuel svc c (day_prefix moment kroot) (so_page_size opts) None h = (h', refs, Listed)"
    and "list_prefix fuel2 svc2 c2 (day_prefix moment kroot) (so_page_size opts2) None h2 = (h2', refs, Listed)"
  shows "\<exists>r2. scan_day fuel2 svc2 c2 con opts2 kroot now2 moment h2 s' = Some (Inr (h2', s', r2)) \<and>
     ir_recordings_new r2 = 0"
proof -
  have sc: "scan_refs con opts now refs (s, new_result 1 (Some (day_prefix moment kroot))) = Inr (s', r)"
    using scan_day_Inr [OF assms(1)] assms(3) by auto
  then obtain n where n: "refs_scanned con opts now refs (s, new_result 1 (Some (day_prefix moment kroot))) (s', r) n"
    using scan_refs_scanned [OF sc] assms(2) by auto
  have "\<exists>r2. scan_refs con opts2 now2 refs (s', new_result 1 (Some (day_prefix moment kroot))) = Inr (s', r2) \<and>
      ir_recordings_new r2 = ir_recordings_new (new_result 1 (Some (day_prefix moment kroot)))"
    by (rule rescan_refs [OF sc]) (use n assms(2) in \<open>auto simp: refs_scanned_def\<close>)
  then show ?thesis using assms(4) by (auto simp: scan_day_def new_result_def)
qed

section \<open>The cursor\<close>

text \<open>\<open>listed_to_end\<close>: the day was listed to its end and each audio object it named has its row.\<close>

definition listed_to_end :: "nat \<Rightarrow> service \<Rightarrow> s3_client \<Rightarrow> connection \<Rightarrow> scan_options \<Rightarrow> string \<Rightarrow> database \<Rightarrow> dt \<Rightarrow> bool" where
  "listed_to_end fuel svc c con opts kroot d t \<longleftrightarrow>
     (\<exists>h h' refs. list_prefix fuel svc c (day_prefix t kroot) (so_page_size opts) None h = (h', refs, Listed) \<and>
        (\<forall>ref \<in> set refs. is_audio_key (or_key ref) \<longrightarrow> list_ex (recorded con (or_key ref)) (db_recordings d)))"

definition cursor_at :: "connection \<Rightarrow> dt \<Rightarrow> database \<Rightarrow> bool" where
  "cursor_at con t d \<longleftrightarrow>
     (\<forall>row \<in> set (db_connections d). con_id row = con_id con \<longrightarrow> con_inventory_cursor_day row = Some t)"

text \<open>The rows left committed by a scan, whichever way it ended.\<close>

fun left_committed :: "(scan_exc \<times> database) + (history \<times> session \<times> inventory_result) \<Rightarrow> database" where
  "left_committed (Inl (e, d)) = d"
| "left_committed (Inr (h, s, r)) = ses_committed s"

definition keeps_rows :: "database \<Rightarrow> database \<Rightarrow> bool" where
  "keeps_rows d d' \<longleftrightarrow> (\<exists>news. db_recordings d' = db_recordings d @ news)"

lemma listed_mono:
  "listed_to_end fuel svc c con opts kroot d t \<Longrightarrow> keeps_rows d d' \<Longrightarrow> listed_to_end fuel svc c con opts kroot d' t"
  by (fastforce simp: listed_to_end_def keeps_rows_def)

lemma advance_facts:
  "ses_committed (advance_cursor con t now True s) = ses_work (advance_cursor con t now True s)"
  "db_recordings (ses_work (advance_cursor con t now True s)) = db_recordings (ses_work s)"
  "tables_ok (ses_work (advance_cursor con t now True s)) = tables_ok (ses_work s)"
  "cursor_at con t (ses_work (advance_cursor con t now True s))"
  by (auto simp: advance_cursor_def Let_def commit_def update_connection_def tables_ok_def queue_inv_def
      cursor_at_def set_update_where)

definition covered :: "nat \<Rightarrow> service \<Rightarrow> s3_client \<Rightarrow> connection \<Rightarrow> scan_options \<Rightarrow> string \<Rightarrow> dt list \<Rightarrow>
    database \<Rightarrow> database \<Rightarrow> nat \<Rightarrow> bool" where
  "covered fuel svc c con opts kroot ds d dc k \<longleftrightarrow>
     k \<le> length ds \<and> tables_ok dc \<and> keeps_rows d dc \<and>
     (\<forall>t \<in> set (take k ds). listed_to_end fuel svc c con opts kroot dc t) \<and>
     (if k = 0 then db_connections dc = db_connections d else cursor_at con (ds ! (k - 1)) dc)"

lemma covered_Cons:
  assumes "covered fuel svc c con opts kroot ds d1 dc k" "keeps_rows d d1"
    and "listed_to_end fuel svc c con opts kroot d1 t" "cursor_at con t d1"
  shows "covered fuel svc c con opts kroot (t # ds) d dc (Suc k)"
proof -
  have "cursor_at con ((t # ds) ! k) dc"
    using assms(1,4) by (cases k) (auto simp: covered_def cursor_at_def)
  moreover have "listed_to_end fuel svc c con opts kroot dc t"
    using assms(1,3) by (auto simp: covered_def intro: listed_mono)
  ultimately show ?thesis using assms(1,2) by (auto simp: covered_def keeps_rows_def)
qed

lemma scan_prefixes_covered:
  assumes "scan_prefixes fuel svc c con opts kroot now True (map (\<lambda>t. day_prefix t kroot) ds) h s acc = Some out"
    and "tables_ok (ses_work s)" "ses_committed s = ses_work s"
    and "\<And>t. t \<in> set ds \<Longrightarrow> valid_dt t \<and> floor_day t = t"
  shows "\<exists>k. covered fuel svc c con opts kroot ds (ses_work s) (left_committed out) k \<and>
     (\<forall>h' s' r. out = Inr (h', s', r) \<longrightarrow> k = length ds)"
  using assms
proof (induction ds arbitrary: h s acc)
  case Nil
  then show ?case by (auto simp: covered_def keeps_rows_def)
next
  case (Cons t ds)
  have day: "day_of_prefix kroot (day_prefix t kroot) = Inr t"
    using day_of_prefix_day [of t kroot] Cons.prems(4) [of t] by simp
  let ?start = "(s, new_result 1 (Some (day_prefix t kroot)))"
  obtain h1 refs fin where l: "list_prefix fuel svc c (day_prefix t kroot) (so_page_size opts) None h = (h1, refs, fin)"
    by (cases "list_prefix fuel svc c (day_prefix t kroot) (so_page_size opts) None h")
  have committed: "(\<forall>e d. scan_refs con opts now refs ?start = Inl (e, d) \<longrightarrow>
        tables_ok d \<and> (\<exists>n. scan_adds con opts now (set refs) n (ses_work s) d)) \<and>
      (\<forall>st'. scan_refs con opts now refs ?start = Inr st' \<longrightarrow>
        tables_ok (ses_committed (fst st')) \<and> (\<exists>n. scan_adds con opts now (set refs) n (ses_work s) (ses_committed (fst st'))))"
    by (rule scan_refs_committed) (use Cons.prems(2,3) in \<open>auto intro: exI [of _ 0] simp: scan_adds_refl\<close>)
  show ?case
  proof (cases "scan_day fuel svc c con opts kroot now t h s")
    case None
    then show ?thesis using Cons.prems(1) day by simp
  next
    case (Some res)
    show ?thesis
    proof (cases res)
      case (Inl x)
      then have out: "out = Inl x" using Some Cons.prems(1) day by simp
      have "tables_ok (snd x) \<and> (\<exists>n. scan_adds con opts now (set refs) n (ses_work s) (snd x))"
        using Some Inl l committed
        by (auto simp: scan_day_def Let_def split: sum.splits listing_end.splits prod.splits)
      then have "covered fuel svc c con opts kroot (t # ds) (ses_work s) (left_committed out) 0"
        unfolding out by (cases x) (auto simp: covered_def keeps_rows_def scan_adds_def)
      then show ?thesis using out by auto
    next
      case (Inr y)
      obtain h1 s1 got where y: "y = (h1, s1, got)" by (cases y)
      have sd: "scan_day fuel svc c con opts kroot now t h s = Some (Inr (h1, s1, got))" using Some Inr y by simp
      let ?s2 = "advance_cursor con t now True s1"
      obtain refs where l: "list_prefix fuel svc c (day_prefix t kroot) (so_page_size opts) None h = (h1, refs, Listed)"
        and "scan_refs con opts now refs ?start = Inr (s1, got)"
        using scan_day_Inr [OF sd] .
      then obtain n where n: "refs_scanned con opts now refs ?start (s1, got) n"
        using scan_refs_scanned Cons.prems(2) by fastforce
      have keep: "keeps_rows (ses_work s) (ses_work ?s2)"
        using n by (auto simp: refs_scanned_def scan_adds_def keeps_rows_def advance_facts)
      have lt: "listed_to_end fuel svc c con opts kroot (ses_work ?s2) t"
        using l n by (auto simp: listed_to_end_def refs_scanned_def advance_facts)
      have "scan_prefixes fuel svc c con opts kroot now True (map (\<lambda>t. day_prefix t kroot) ds) h1 ?s2 (merge_result acc got) = Some out"
        using Cons.prems(1) day sd by simp
      then obtain k where k: "covered fuel svc c con opts kroot ds (ses_work ?s2) (left_committed out) k"
          "\<forall>h' s' r. out = Inr (h', s', r) \<longrightarrow> k = length ds"
        using Cons.IH [of h1 ?s2 "merge_result acc got"] Cons.prems(4) n
        by (auto simp: advance_facts refs_scanned_def)
      have "covered fuel svc c con opts kroot (t # ds) (ses_work s) (left_committed out) (Suc k)"
        by (rule covered_Cons [OF k(1) keep lt advance_facts(4)])
      then show ?thesis using k(2) by auto
    qed
  qed
qed

lemma floor_day_next: "floor_day t = t \<Longrightarrow> floor_day (t + day) = t + day"
  by (simp add: floor_day_def time_units)

lemma day_cursor_days:
  assumes "t \<in> set (day_cursor a b)" "floor_day a = a"
  shows "a \<le> t \<and> t \<le> b \<and> floor_day t = t"
  using assms
proof (induction a b arbitrary: t rule: day_cursor.induct)
  case (1 cursor final)
  show ?case
  proof (cases "cursor \<le> final")
    case True
    have "floor_day (cursor + day) = cursor + day" using 1(3) by (rule floor_day_next)
    then have "cursor \<le> u \<and> u \<le> final \<and> floor_day u = u" if "u \<in> set (day_cursor (cursor + day) final)" for u
      using 1(1) [OF True that] day_pos by linarith
    then show ?thesis using 1(2,3) True day_cursor.simps [of cursor final] by auto
  next
    case False
    then show ?thesis using 1(2) by (simp add: day_cursor.simps [of cursor])
  qed
qed

lemma valid_dt_between: "valid_dt a \<Longrightarrow> valid_dt b \<Longrightarrow> a \<le> t \<Longrightarrow> t \<le> b \<Longrightarrow> valid_dt t"
  using zdiv_mono1 [of a t day] zdiv_mono1 [of t b day] by (simp add: valid_dt_def ordinal_of_def)

definition scan_days :: "dt \<Rightarrow> dt \<Rightarrow> dt list" where
  "scan_days start stop = day_cursor (floor_day start) (floor_day stop)"

lemma scan_range_covered:
  assumes "scan_range fuel svc c con opts kroot now True start stop h s = Some out"
    and "tables_ok (ses_work s)" "ses_committed s = ses_work s" "valid_dt start" "valid_dt stop"
  shows "\<exists>k. covered fuel svc c con (opts\<lparr>so_window_seconds := 120\<rparr>) kroot (scan_days start stop)
      (ses_work s) (left_committed out) k \<and>
     (\<forall>h' s' r. out = Inr (h', s', r) \<longrightarrow> k = length (scan_days start stop))"
proof (rule scan_prefixes_covered)
  show "scan_prefixes fuel svc c con (opts\<lparr>so_window_seconds := 120\<rparr>) kroot now True
      (map (\<lambda>t. day_prefix t kroot) (scan_days start stop)) h s (new_result 0 None) = Some out"
    using assms(1) by (simp add: scan_range_def iter_day_prefixes_def scan_days_def)
  show "valid_dt t \<and> floor_day t = t" if "t \<in> set (scan_days start stop)" for t
    using day_cursor_days [of t "floor_day start" "floor_day stop"] that assms(4,5)
      valid_dt_between [of "floor_day start" "floor_day stop" t] by (simp add: scan_days_def)
qed (use assms(2,3) in auto)


lemma days_listed:
  assumes "start div day \<le> t div day" "t div day \<le> stop div day"
  shows "day_prefix t kroot \<in> set (iter_day_prefixes start stop kroot)"
proof -
  let ?i = "nat (t div day - start div day)"
  have "floor_day start + int ?i * day = floor_day t"
    using assms by (simp add: floor_day_def left_diff_distrib)
  then have "floor_day t \<in> set (day_cursor (floor_day start) (floor_day stop))"
    unfolding day_cursor_map set_map using assms
    by (intro image_eqI [of _ _ ?i]) (simp_all add: floor_day_diff)
  then show ?thesis by (auto simp: iter_day_prefixes_def day_prefix_def intro!: image_eqI [of _ _ "floor_day t"])
qed

text \<open>An incremental pass starts at least a whole day, and at least the operator's overlap, before
  the last scanned day, and lists every day from there to today: an object that is written to a dated
  folder that late is still found.\<close>

theorem plan_incremental_overlaps:
  assumes "plan_incremental con overlap_hours now = (start, stop)"
  shows "start \<le> stop \<and> stop = floor_day now \<and>
    (\<forall>cursor. con_inventory_cursor_day con = Some cursor \<longrightarrow>
       start \<le> cursor - day \<and> start \<le> cursor - overlap_hours * hour \<and>
       (\<forall>t. cursor - overlap_hours * hour \<le> t \<and> t \<le> now \<longrightarrow>
          day_prefix t kroot \<in> set (iter_day_prefixes start stop kroot))) \<and>
    (con_inventory_cursor_day con = None \<longrightarrow> start = stop - overlap_days overlap_hours * day)"
proof -
  have o1: "1 \<le> overlap_days overlap_hours" by (simp add: overlap_days_def)
  have "overlap_hours \<le> 24 * overlap_days overlap_hours"
  proof -
    have "max overlap_hours 0 \<le> 24 * ((max overlap_hours 0 + 23) div 24)" by presburger
    then show ?thesis unfolding overlap_days_def by linarith
  qed
  then have o2: "overlap_hours * hour \<le> overlap_days overlap_hours * day"
    by (simp add: time_units)
  have o3: "day \<le> overlap_days overlap_hours * day" "0 \<le> overlap_days overlap_hours * day"
    using o1 by (simp_all add: time_units)
  have st: "stop = floor_day now" using assms by (auto simp: plan_incremental_def Let_def split: option.splits)
  have se: "start = (case con_inventory_cursor_day con of None \<Rightarrow> stop - overlap_days overlap_hours * day
      | Some cursor \<Rightarrow> min (cursor - overlap_days overlap_hours * day) stop)"
    using assms by (auto simp: plan_incremental_def Let_def split: option.splits)
  have "day_prefix t kroot \<in> set (iter_day_prefixes start stop kroot)" if "start \<le> t" "t \<le> now" for t
  proof -
    have "floor_day start div day \<le> t div day" "t div day \<le> stop div day"
      using that st zdiv_mono1 [of start t day] zdiv_mono1 [of t now day] by (simp_all add: floor_day_def)
    then show ?thesis using days_listed [of start t stop kroot] zdiv_mono1 [of start t day] that by simp
  qed
  then show ?thesis using st se o2 o3 by (auto split: option.splits simp: min_le_iff_disj)
qed

section \<open>A recording named by a call\<close>

text \<open>
  A recording named with nothing but its call's uuid has the midnight of its folder for its only time.
  The candidates offered to the correlator are the calls within two minutes of that, so that the call
  itself, which the correlator would take by its identity, is not among them, and the object is stored
  as an orphan. No other code correlates a recording that exists.
\<close>

lemma uuid_beyond_window:
  assumes "pk_uniqueid p = None" "pk_started_at p = Some t" "pk_call_uuid p = Some u"
    and "\<And>r. r \<in> set (db_cdrs d) \<Longrightarrow> cdr_start_at r < t - 120 * second \<or> t + 120 * second < cdr_start_at r"
  shows "candidates_for d con p 120 = Inr [] \<and>
    (\<exists>mr. correlate p [] = Inr mr \<and> mr_method mr = ORPHAN \<and> \<not> matched mr)"
proof -
  have "anchor_of p = Inr (Some t)" using assms by (simp add: anchor_of_def uniqueid_time_def)
  moreover have "filter (\<lambda>r. cdr_brand_id r = con_brand_id con \<and> cdr_connection_id r = con_id con \<and>
      t - 120 * second \<le> cdr_start_at r \<and> cdr_start_at r \<le> t + 120 * second) (db_cdrs d) = []"
    using assms(4) by (fastforce simp: filter_empty_conv)
  ultimately have "candidates_for d con p 120 = Inr []" by (simp add: candidates_for_def Let_def)
  moreover have "\<exists>mr. correlate p [] = Inr mr \<and> mr_method mr = ORPHAN \<and> \<not> matched mr"
    by (simp add: correlate_def pick_def matched_def)
  ultimately show ?thesis by blast
qed

section \<open>Examples\<close>

definition one_page :: "object_ref list \<Rightarrow> service" where
  "one_page refs h cmd = (case cmd of ListObjects _ _ _ _ \<Rightarrow> Inr (RPage refs False None) | _ \<Rightarrow> Inr RDone)"

definition scan_client :: s3_client where
  "scan_client = \<lparr>cl_creds = demo_creds, cl_open = True, cl_multipart_threshold = 0, cl_multipart_chunk = 0\<rparr>"

definition sample_refs :: "object_ref list" where
  "sample_refs =
     [\<lparr>or_key = ''recordings/2025/11/11/0f8fad5b-d9cb-469f-a165-70867728950e.flac'', or_size = 44,
       or_etag = ''e'', or_last_modified = 0, or_storage_class = None\<rparr>,
      \<lparr>or_key = ''recordings/2025/11/11/index.json'', or_size = 2,
       or_etag = ''f'', or_last_modified = 0, or_storage_class = None\<rparr>]"

definition sample_connection :: connection where
  "sample_connection = \<lparr>con_id = 1, con_brand_id = 1, con_tenant_id = 1, con_name = ''a'', con_destination_id = Some 1,
     con_status = CONN_OK, con_last_inventory_at = None, con_inventory_cursor_day = None, con_earliest_day = None,
     con_last_probe_at = None, con_last_cdr_cursor = None, con_cdr_api_base = None, con_cdr_api_user = None,
     con_last_sms_cursor = None, con_is_enabled = True, con_concurrency_limit = 5,
     con_s3_bucket = ''bk'', con_status_detail = None\<rparr>"

definition sample_options :: scan_options where
  "sample_options = \<lparr>so_destination_id = Some 1, so_enqueue_transfers = True, so_window_seconds = 120,
     so_commit_every = 2, so_page_size = 3\<rparr>"

definition fresh_session :: session where
  "fresh_session = \<lparr>ses_work = empty_db\<lparr>db_connections := [sample_connection]\<rparr>,
     ses_committed = empty_db\<lparr>db_connections := [sample_connection]\<rparr>\<rparr>"

definition sample_day :: dt where
  "sample_day = 1762819200000000"

definition sample_scan :: "session \<Rightarrow> (history \<times> session \<times> inventory_result) scan" where
  "sample_scan s = scan_day 1 (one_page sample_refs) scan_client sample_connection sample_options ''recordings/''
     sample_day sample_day [] s"

lemma sample_scan_ends:
  obtains h s r where "sample_scan fresh_session = Some (Inr (h, s, r))" "ir_recordings_new r = 1" "ir_objects_seen r = 2"
proof -
  have "case sample_scan fresh_session of Some (Inr (h, s, r)) \<Rightarrow> ir_recordings_new r = 1 \<and> ir_objects_seen r = 2 | _ \<Rightarrow> False"
    by code_simp
  then show thesis using that by (auto split: option.splits sum.splits)
qed

lemma fresh_ok: "tables_ok (ses_work fresh_session)" "ses_committed fresh_session = ses_work fresh_session"
  by (simp_all add: fresh_session_def tables_ok_def queue_inv_def empty_db_def)

lemma sample_listing:
  "list_prefix 1 (one_page sample_refs) scan_client prefix psize None h =
     (ListObjects prefix psize None None # h, sample_refs, Listed)"
  by (simp add: list_prefix_def unready_def scan_client_def demo_creds_def one_page_def
      sample_refs_def clean_etag_def strip_chars_def lstrip_chars_def rstrip_chars_def)

theorem scan_day_records_witness:
  "\<exists>h s r row. sample_scan fresh_session = Some (Inr (h, s, r)) \<and> tables_ok (ses_work s) \<and> ir_objects_seen r = 2"
proof -
  obtain h s r where sc: "sample_scan fresh_session = Some (Inr (h, s, r))" "ir_objects_seen r = 2"
    using sample_scan_ends by blast
  show ?thesis using scan_day_records [OF sc(1) [unfolded sample_scan_def] fresh_ok(1)] sc by blast
qed

theorem rescan_no_change_witness:
  "\<exists>h s r h2 r2. sample_scan fresh_session = Some (Inr (h, s, r)) \<and> ir_recordings_new r = 1 \<and>
     sample_scan s = Some (Inr (h2, s, r2)) \<and> ir_recordings_new r2 = 0"
proof -
  obtain h s r where sc: "sample_scan fresh_session = Some (Inr (h, s, r))" "ir_recordings_new r = 1"
    using sample_scan_ends by blast
  have l: "list_prefix 1 (one_page sample_refs) scan_client (day_prefix sample_day ''recordings/'') (so_page_size sample_options)
      None [] = (h, sample_refs, Listed)"
    by (rule scan_day_Inr [OF sc(1) [unfolded sample_scan_def]]) (simp only: sample_listing prod.inject)
  have "\<exists>r2. scan_day 1 (one_page sample_refs) scan_client sample_connection sample_options ''recordings/''
      sample_day sample_day [] s = Some (Inr (h, s, r2)) \<and> ir_recordings_new r2 = 0"
    by (rule rescan_no_change [OF sc(1) [unfolded sample_scan_def] fresh_ok(1) l l])
  then show ?thesis using sc unfolding sample_scan_def by (elim exE conjE) (intro exI conjI; assumption)
qed


theorem plan_incremental_overlaps_witness:
  "plan_incremental (sample_connection\<lparr>con_inventory_cursor_day := Some sample_day\<rparr>) 2 (sample_day + hour) =
     (sample_day - day, sample_day) \<and> sample_day - day \<le> sample_day"
proof -
  have p: "plan_incremental (sample_connection\<lparr>con_inventory_cursor_day := Some sample_day\<rparr>) 2 (sample_day + hour) =
     (sample_day - day, sample_day)" by code_simp
  show ?thesis using plan_incremental_overlaps [OF p] p by blast
qed

end
