(* ===== verification/Scheduler.thy ===== *)
theory Scheduler
  imports Reconciler Inventory
begin

text \<open>
  \<open>src/c2w/workers/scheduler.py\<close>: which steps a tick runs, the incremental inventory, the re-checking of accounts
  that fail, the queueing of recordings that have aged past the offload window, and the recount of the
  archives. The loop's clock, the clock, the settings that are read, opening a source and the service
  behind it are parameters.

  Lemmas: the intervals of the steps, the fairness of the re-checking, what the retention pass queues, and
  what a failed scan leaves behind.
\<close>

section \<open>The tick\<close>

datatype sched_step = ArchiveTotals | InventoryStep | CallRecords | WatchAccess | TextMessages | SyncSummary | Announcements | Retention

text \<open>When each step last ran, by the loop's clock.\<close>

type_synonym timers = "sched_step \<Rightarrow> rat"

definition never_run :: timers where "never_run = (\<lambda>_. 0)"

definition ARCHIVE_TOTALS_SECONDS :: rat where "ARCHIVE_TOTALS_SECONDS = 600"

text \<open>The settings a tick reads, each in a session of its own; a reading may raise.\<close>

record tick_settings =
  ts_poll_seconds :: "py_exc + int"
  ts_cdr_minutes :: "py_exc + int"
  ts_watch_seconds :: "py_exc + int"
  ts_sms_minutes :: "py_exc + int"
  ts_summary_minutes :: "py_exc + int"

text \<open>A step that is due takes the time and runs; the interval may be switched off with zero.\<close>

definition due :: "sched_step \<Rightarrow> rat \<Rightarrow> rat \<Rightarrow> timers \<Rightarrow> bool" where
  "due st interval now T \<longleftrightarrow> interval \<le> now - T st"

definition run_step :: "sched_step \<Rightarrow> bool \<Rightarrow> rat \<Rightarrow> timers \<times> sched_step list \<Rightarrow> timers \<times> sched_step list" where
  "run_step st b now s = (if b then ((fst s)(st := now), snd s @ [st]) else s)"

text \<open>A reading that raises ends the tick: the steps before it have run.\<close>

type_synonym tick_state = "(timers \<times> sched_step list) \<times> py_exc option"

definition with_setting :: "py_exc + int \<Rightarrow> (int \<Rightarrow> timers \<times> sched_step list \<Rightarrow> timers \<times> sched_step list) \<Rightarrow> tick_state \<Rightarrow> tick_state" where
  "with_setting v f s =
     (case s of
        (x, Some e) \<Rightarrow> (x, Some e)
      | (x, None) \<Rightarrow> (case v of Inl e \<Rightarrow> (x, Some e) | Inr n \<Rightarrow> (f n x, None)))"

definition archive_step :: "rat \<Rightarrow> timers \<times> sched_step list \<Rightarrow> timers \<times> sched_step list" where
  "archive_step now x = run_step ArchiveTotals (due ArchiveTotals ARCHIVE_TOTALS_SECONDS now (fst x)) now x"

definition summary_step :: "rat \<Rightarrow> int \<Rightarrow> timers \<times> sched_step list \<Rightarrow> timers \<times> sched_step list" where
  "summary_step now minutes x =
     (if minutes = 0 \<or> \<not> due SyncSummary (of_int (minutes * 60)) now (fst x) then x
      else if fst x SyncSummary = 0 then ((fst x)(SyncSummary := now), snd x)
      else run_step SyncSummary True now x)"

definition hourly :: "sched_step \<Rightarrow> rat \<Rightarrow> timers \<times> sched_step list \<Rightarrow> timers \<times> sched_step list" where
  "hourly st now x = run_step st (due st 3600 now (fst x)) now x"

definition tick :: "tick_settings \<Rightarrow> rat \<Rightarrow> timers \<Rightarrow> tick_state" where
  "tick S now T =
     (with_setting (ts_summary_minutes S) (\<lambda>m x. hourly Retention now (hourly Announcements now (summary_step now m x)))
     (with_setting (ts_sms_minutes S) (\<lambda>m x. run_step TextMessages (due TextMessages (of_int (max 60 (m * 60))) now (fst x)) now x)
     (with_setting (ts_watch_seconds S) (\<lambda>w x. run_step WatchAccess (due WatchAccess (of_int (max 60 w)) now (fst x)) now x)
     (with_setting (ts_cdr_minutes S)
        (\<lambda>m x. run_step CallRecords (m \<noteq> 0 \<and> due CallRecords (of_int (m * 60)) now (fst x)) now x)
     (with_setting (ts_poll_seconds S)
        (\<lambda>p x. let x1 = archive_step now x in run_step InventoryStep (due InventoryStep (of_int p) now (fst x1)) now x1)
     ((T, []), None))))))"

text \<open>A run of ticks, and when a step ran in it.\<close>

fun ticks :: "(rat \<times> tick_settings) list \<Rightarrow> timers \<Rightarrow> (rat \<times> sched_step list) list" where
  "ticks [] T = []"
| "ticks ((now, S) # rest) T = (case tick S now T of ((T1, steps), e) \<Rightarrow> (now, steps) # ticks rest T1)"

definition runs_of :: "sched_step \<Rightarrow> (rat \<times> sched_step list) list \<Rightarrow> rat list" where
  "runs_of st h = map fst (filter (\<lambda>(t, steps). st \<in> set steps) h)"

section \<open>The incremental inventory\<close>

record sched_env =
  sn_int :: "string \<Rightarrow> int option \<Rightarrow> py_exc + int"
  sn_bool :: "string \<Rightarrow> int option \<Rightarrow> py_exc + bool"
  sn_open :: "connection \<Rightarrow> transfer_error + s3_client"
  sn_service :: "connection \<Rightarrow> service"
  sn_fuel :: nat

text \<open>The run's row, as it is added and as a scan that ends well leaves it. Its counters of prefixes, bytes and methods
  are the scan's result.\<close>

definition new_run :: "dt \<Rightarrow> connection \<Rightarrow> int \<Rightarrow> sync_run" where
  "new_run now con i =
     \<lparr>run_id = i, run_brand_id = con_brand_id con, run_connection_id = Some (con_id con), run_kind = INCREMENTAL,
      run_started_at = now, run_finished_at = None, run_ok = None, run_discovered = 0, run_queued = 0, run_error_detail = None\<rparr>"

definition finish_scan :: "dt \<Rightarrow> int \<Rightarrow> int \<Rightarrow> inventory_result \<Rightarrow> database \<Rightarrow> database" where
  "finish_scan now i run r d =
     update_connection i (\<lambda>c. c\<lparr>con_status := CONN_OK, con_status_detail := None, con_last_probe_at := Some now\<rparr>)
       (d\<lparr>db_runs := update_where (\<lambda>x. run_id x = run)
          (\<lambda>x. x\<lparr>run_finished_at := Some now, run_ok := Some True, run_discovered := int (ir_recordings_new r),
                 run_queued := int (ir_queued r)\<rparr>) (db_runs d)\<rparr>)"

datatype scan_failure = NoConnection | BadSetting py_exc | NotOpened transfer_error | Stopped scan_exc

datatype scan_outcome = Scanned inventory_result | ScanFailed scan_failure | ScanEndless

text \<open>One account, in one session. The handler of an exception marks the run and the account as failed and raises
  again: leaving the session rolls that back with the rest, down to what the scan had committed in slices.\<close>

definition scan_connection :: "sched_env \<Rightarrow> dt \<Rightarrow> int \<Rightarrow> database \<Rightarrow> database \<times> scan_outcome" where
  "scan_connection E now i d =
     (case find_row (\<lambda>c. con_id c = i) (db_connections d) of
        None \<Rightarrow> (d, ScanFailed NoConnection)
      | Some con \<Rightarrow>
          (case res_bind (sn_int E ''source.incremental_overlap_hours'' None) (\<lambda>overlap.
                res_bind (sn_int E ''source.list_page_size'' None) (\<lambda>page_size.
                res_bind (sn_bool E ''transfer.enabled'' None) (\<lambda>on. Inr (overlap, page_size, on)))) of
             Inl e \<Rightarrow> (d, ScanFailed (BadSetting e))
           | Inr (overlap, page_size, on) \<Rightarrow>
               (let (start, stop) = plan_incremental con overlap now;
                    run = db_next_id d;
                    work = d\<lparr>db_runs := db_runs d @ [new_run now con run], db_next_id := run + 1\<rparr>;
                    opts = \<lparr>so_destination_id = (if on then con_destination_id con else None), so_enqueue_transfers = on,
                      so_window_seconds = 120, so_commit_every = 500, so_page_size = nat page_size\<rparr>
                in case sn_open E con of
                     Inl e \<Rightarrow> (d, ScanFailed (NotOpened e))
                   | Inr client \<Rightarrow>
                       (case scan_range (sn_fuel E) (sn_service E con) client con opts [] now False start stop []
                               \<lparr>ses_work = work, ses_committed = d\<rparr> of
                          None \<Rightarrow> (d, ScanEndless)
                        | Some (Inl (e, kept)) \<Rightarrow> (kept, ScanFailed (Stopped e))
                        | Some (Inr (h, s, r)) \<Rightarrow> (finish_scan now i run r (ses_work s), Scanned r)))))"

fun scan_each :: "(int \<Rightarrow> database \<Rightarrow> database \<times> scan_outcome) \<Rightarrow> int list \<Rightarrow> database \<Rightarrow> database \<times> (int \<times> scan_outcome) list" where
  "scan_each scan [] d = (d, [])"
| "scan_each scan (i # is) d =
     (case scan i d of
        (d1, ScanEndless) \<Rightarrow> (d1, [(i, ScanEndless)])
      | (d1, out) \<Rightarrow> (case scan_each scan is d1 of (d2, outs) \<Rightarrow> (d2, (i, out) # outs)))"

definition watched :: "connection \<Rightarrow> bool" where
  "watched c \<longleftrightarrow> con_is_enabled c \<and> con_status c = CONN_ERROR"

definition scannable :: "connection \<Rightarrow> bool" where
  "scannable c \<longleftrightarrow> con_is_enabled c \<and> con_status c \<noteq> CONN_ERROR"

definition run_incremental_inventory :: "sched_env \<Rightarrow> dt \<Rightarrow> database \<Rightarrow> database \<times> (int \<times> scan_outcome) list" where
  "run_incremental_inventory E now d =
     scan_each (scan_connection E now) (map con_id (filter scannable (db_connections d))) d"

section \<open>Accounts that fail\<close>

text \<open>The account checked longest ago, those never checked first.\<close>

definition next_watched :: "database \<Rightarrow> connection option" where
  "next_watched d = (case sort_key con_last_probe_at (filter watched (db_connections d)) of [] \<Rightarrow> None | c # _ \<Rightarrow> Some c)"

definition probe_account :: "sched_env \<Rightarrow> connection \<Rightarrow> (transfer_error + string list) option" where
  "probe_account E c =
     (case sn_open E c of
        Inl e \<Rightarrow> Some (Inl e)
      | Inr client \<Rightarrow> snd (list_common_prefixes (sn_fuel E) (sn_service E c) client [] []))"

definition still_failing :: "dt \<Rightarrow> transfer_error \<Rightarrow> connection \<Rightarrow> database \<Rightarrow> database" where
  "still_failing now e c d =
     update_connection (con_id c)
       (\<lambda>x. x\<lparr>con_status_detail := Some (take 4000 (te_str e)), con_last_probe_at := Some now\<rparr>) d"

definition recovered :: "dt \<Rightarrow> connection \<Rightarrow> database \<Rightarrow> database" where
  "recovered now c d =
     update_connection (con_id c) (\<lambda>x. x\<lparr>con_status := CONN_OK, con_status_detail := None, con_last_probe_at := Some now\<rparr>) d"

definition recovery_alert :: "(int \<times> string) list \<Rightarrow> connection \<Rightarrow> alert" where
  "recovery_alert brands c =
     (let was = (case con_status_detail c of Some s \<Rightarrow> take 200 s | None \<Rightarrow> [])
      in new_alert ''CommPeak account is working again''
           (con_name c @ '' answered a bucket listing, after previously failing with: ''
            @ (if was = [] then ''an unknown error'' else was) @ [CHR 0x0A, CHR 0x0A]
            @ ''Inventory has resumed for it; nothing needs doing.'')
           INFO (Some (con_brand_id c)) (map_of brands (con_brand_id c))
           (Some (''commpeak-recovered:'' @ show_int (con_id c)))
           [(''Account'', con_name c), (''Bucket'', con_s3_bucket c)])"

text \<open>One turn. \<open>None\<close> when the listing does not end within the fuel.\<close>

definition watch_access :: "sched_env \<Rightarrow> (int \<times> string) list \<Rightarrow> dt \<Rightarrow> database \<Rightarrow> (database \<times> (py_exc + alert list)) option" where
  "watch_access E brands now d =
     (case sn_bool E ''source.watch_enabled'' None of
        Inl e \<Rightarrow> Some (d, Inl e)
      | Inr False \<Rightarrow> Some (d, Inr [])
      | Inr True \<Rightarrow>
          (case next_watched d of
             None \<Rightarrow> Some (d, Inr [])
           | Some c \<Rightarrow>
               (case probe_account E c of
                  None \<Rightarrow> None
                | Some (Inl e) \<Rightarrow> Some (still_failing now e c d, Inr [])
                | Some (Inr _) \<Rightarrow> Some (recovered now c d, Inr [recovery_alert brands c]))))"

section \<open>Recordings that have aged\<close>

text \<open>Newest first; a start that is not known is never before the cutoff, and the session does not flush in between.\<close>

definition eligible :: "connection \<Rightarrow> dt \<Rightarrow> recording \<Rightarrow> bool" where
  "eligible c cutoff r \<longleftrightarrow> rec_brand_id r = con_brand_id c \<and> rec_connection_id r = con_id c \<and> rec_state r = DISCOVERED \<and>
     (case rec_started_at r of None \<Rightarrow> False | Some t \<Rightarrow> t \<le> cutoff)"

definition pending_offload :: "connection \<Rightarrow> dt \<Rightarrow> recording list \<Rightarrow> recording list" where
  "pending_offload c cutoff rows = take 5000 (sort_key (\<lambda>r. map_option uminus (rec_started_at r)) (filter (eligible c cutoff) rows))"

definition offload_one :: "dt \<Rightarrow> connection \<Rightarrow> recording \<Rightarrow> database \<Rightarrow> database" where
  "offload_one now c r d =
     update_recording (rec_id r) (\<lambda>x. x\<lparr>rec_state := QUEUED, rec_destination_id := con_destination_id c\<rparr>)
       (enqueue now (rec_brand_id r) (con_id c) (rec_id r) (con_destination_id c) TRANSFER
          (backfill_priority (rec_started_at r) now) None d)"

definition retention_run :: "dt \<Rightarrow> connection \<Rightarrow> int \<Rightarrow> int \<Rightarrow> sync_run" where
  "retention_run now c n i =
     \<lparr>run_id = i, run_brand_id = con_brand_id c, run_connection_id = Some (con_id c), run_kind = RETENTION,
      run_started_at = now, run_finished_at = Some now, run_ok = Some True, run_discovered = 0, run_queued = n, run_error_detail = None\<rparr>"

definition offload_connection :: "sched_env \<Rightarrow> dt \<Rightarrow> recording list \<Rightarrow> connection \<Rightarrow> database \<Rightarrow> py_exc + database" where
  "offload_connection E now stored c d =
     res_bind (sn_int E ''retention.offload_after_days'' (Some (con_brand_id c))) (\<lambda>days.
       let pending = pending_offload c (now - days * day) stored;
           d1 = fold (offload_one now c) pending d
       in Inr (if pending = [] then d1
               else d1\<lparr>db_runs := db_runs d1 @ [retention_run now c (int (length pending)) (db_next_id d1)],
                       db_next_id := db_next_id d1 + 1\<rparr>))"

fun offload_each :: "sched_env \<Rightarrow> dt \<Rightarrow> recording list \<Rightarrow> connection list \<Rightarrow> database \<Rightarrow> py_exc + database" where
  "offload_each E now stored [] d = Inr d"
| "offload_each E now stored (c # cs) d = res_bind (offload_connection E now stored c d) (offload_each E now stored cs)"

text \<open>One transaction for all accounts: what raises leaves everything as it was.\<close>

definition queue_eligible_recordings :: "sched_env \<Rightarrow> dt \<Rightarrow> database \<Rightarrow> database \<times> py_exc option" where
  "queue_eligible_recordings E now d =
     (case sn_bool E ''transfer.enabled'' None of
        Inl e \<Rightarrow> (d, Some e)
      | Inr False \<Rightarrow> (d, None)
      | Inr True \<Rightarrow>
          (case offload_each E now (db_recordings d)
                  (filter (\<lambda>c. con_is_enabled c \<and> con_destination_id c \<noteq> None) (db_connections d)) d of
             Inl e \<Rightarrow> (d, Some e)
           | Inr d1 \<Rightarrow> (d1, None)))"

section \<open>What the archives hold\<close>

record destination_totals =
  dt_id :: int
  dt_brand_id :: int
  dt_objects :: int
  dt_bytes :: int
  dt_updated_at :: dt

definition archived_in :: "destination_totals \<Rightarrow> recording \<Rightarrow> bool" where
  "archived_in x r \<longleftrightarrow> rec_verified_at r \<noteq> None \<and> rec_destination_id r = Some (dt_id x) \<and> rec_brand_id r = dt_brand_id x"

definition recount :: "recording list \<Rightarrow> destination_totals \<Rightarrow> int \<times> int" where
  "recount rows x =
     (let held = filter (archived_in x) rows
      in (int (length held), sum_list (map (\<lambda>r. case rec_destination_size r of Some n \<Rightarrow> n | None \<Rightarrow> 0) held)))"

definition refresh_archive_totals :: "dt \<Rightarrow> recording list \<Rightarrow> destination_totals list \<Rightarrow> destination_totals list" where
  "refresh_archive_totals now rows ds =
     map (\<lambda>x. let (objects, bytes) = recount rows x
              in if (dt_objects x, dt_bytes x) = (objects, bytes) then x
                 else x\<lparr>dt_objects := objects, dt_bytes := bytes, dt_updated_at := now\<rparr>) ds"

section \<open>The intervals\<close>

fun least_interval :: "sched_step \<Rightarrow> rat" where
  "least_interval ArchiveTotals = 600"
| "least_interval WatchAccess = 60"
| "least_interval TextMessages = 60"
| "least_interval Announcements = 3600"
| "least_interval Retention = 3600"
| "least_interval _ = 0"

definition spaced_step :: "sched_step \<Rightarrow> bool" where
  "spaced_step st \<longleftrightarrow> st \<in> {ArchiveTotals, WatchAccess, TextMessages, Announcements, Retention}"

text \<open>What has become of one step while a tick is under way.\<close>

definition spaced :: "sched_step \<Rightarrow> rat \<Rightarrow> timers \<Rightarrow> timers \<times> sched_step list \<Rightarrow> bool" where
  "spaced st now T x \<longleftrightarrow> (if st \<in> set (snd x) then fst x st = now \<and> least_interval st \<le> now - T st else fst x st = T st)"

lemma spaced_run:
  "spaced st now T x \<Longrightarrow> (b \<Longrightarrow> least_interval s \<le> now - fst x s) \<Longrightarrow> spaced st now T (run_step s b now x)"
  by (auto simp: spaced_def run_step_def split: if_splits)

lemma spaced_setting:
  "spaced st now T (fst s) \<Longrightarrow> (\<And>n x. spaced st now T x \<Longrightarrow> spaced st now T (f n x)) \<Longrightarrow> spaced st now T (fst (with_setting v f s))"
  by (auto simp: with_setting_def split: sum.splits prod.splits option.splits)

lemma tick_spaced:
  assumes "spaced_step st"
  shows "spaced st now T (fst (tick S now T))"
  unfolding tick_def
proof (intro spaced_setting)
  show "spaced st now T (fst ((T, []), None))" by (simp add: spaced_def)
next
  fix p x assume x: "spaced st now T x"
  have "spaced st now T (archive_step now x)"
    unfolding archive_step_def by (rule spaced_run [OF x]) (simp add: due_def ARCHIVE_TOTALS_SECONDS_def)
  moreover have "spaced st now T (run_step InventoryStep b now y)" if "spaced st now T y" for b y
    using that assms by (auto simp: spaced_def run_step_def spaced_step_def)
  ultimately show "spaced st now T (let x1 = archive_step now x in run_step InventoryStep (due InventoryStep (of_int p) now (fst x1)) now x1)"
    by (simp add: Let_def)
next
  fix m x assume x: "spaced st now T x"
  show "spaced st now T (run_step CallRecords (m \<noteq> 0 \<and> due CallRecords (of_int (m * 60)) now (fst x)) now x)"
    using x assms by (auto simp: spaced_def run_step_def spaced_step_def)
next
  fix w x assume x: "spaced st now T x"
  have "(60 :: rat) \<le> of_int (max 60 w)" by simp
  then show "spaced st now T (run_step WatchAccess (due WatchAccess (of_int (max 60 w)) now (fst x)) now x)"
    by (intro spaced_run [OF x]) (simp only: due_def least_interval.simps)
next
  fix m x assume x: "spaced st now T x"
  have "(60 :: rat) \<le> of_int (max 60 (m * 60))" by simp
  then show "spaced st now T (run_step TextMessages (due TextMessages (of_int (max 60 (m * 60))) now (fst x)) now x)"
    by (intro spaced_run [OF x]) (simp only: due_def least_interval.simps)
next
  fix m x assume x: "spaced st now T x"
  have "spaced st now T (summary_step now m x)" using x assms by (auto simp: spaced_def summary_step_def run_step_def spaced_step_def)
  then show "spaced st now T (hourly Retention now (hourly Announcements now (summary_step now m x)))"
    unfolding hourly_def by (intro spaced_run) (simp_all add: due_def)
qed

lemma runs_spaced:
  assumes "spaced_step st"
  shows "sorted_wrt (\<lambda>a b. least_interval st \<le> b - a) (T st # runs_of st (ticks calls T))"
proof (induction calls arbitrary: T)
  case Nil
  then show ?case by (simp add: runs_of_def)
next
  case (Cons c calls)
  obtain now S where c: "c = (now, S)" by force
  obtain T1 steps e where t: "tick S now T = ((T1, steps), e)" by (metis surj_pair)
  have pos: "0 \<le> least_interval st" by (cases st) simp_all
  have s: "if st \<in> set steps then T1 st = now \<and> least_interval st \<le> now - T st else T1 st = T st"
    using tick_spaced [OF assms, of now T S] by (simp add: t spaced_def split: if_splits)
  have runs: "runs_of st (ticks (c # calls) T) = (if st \<in> set steps then [now] else []) @ runs_of st (ticks calls T1)"
    by (simp add: c t runs_of_def)
  show ?case
  proof (cases "st \<in> set steps")
    case True
    then have "T1 st = now" "least_interval st \<le> now - T st" using s by simp_all
    then show ?thesis using Cons.IH [of T1] True pos unfolding runs by fastforce
  next
    case False
    then show ?thesis using Cons.IH [of T1] s unfolding runs by simp
  qed
qed

text \<open>The intervals of the scheduler. However often it ticks and whatever is set, two recounts of the archives are ten
  minutes apart, two checks of failing accounts and two readings of the text messages a minute, two retention passes and
  two sweeps for announcements an hour.\<close>

theorem steps_are_spaced:
  assumes "spaced_step st"
  shows "sorted_wrt (\<lambda>a b. least_interval st \<le> b - a) (runs_of st (ticks calls T)) \<and> 60 \<le> least_interval st"
  using runs_spaced [OF assms, of T calls] assms by (auto simp: spaced_step_def)

section \<open>No account is starved\<close>

lemma length_filter_mono: "(\<And>x. P x \<Longrightarrow> Q x) \<Longrightarrow> length (filter P xs) \<le> length (filter Q xs)"
  by (induction xs) (auto simp: le_SucI)

lemma count_update:
  assumes "distinct (map k rows)" "c \<in> set rows" "\<not> P (f c)"
  shows "length (filter P (update_where (\<lambda>r. k r = k c) f rows)) + (if P c then 1 else 0) = length (filter P rows)"
  using assms
proof (induction rows)
  case (Cons r rows)
  show ?case
  proof (cases "r = c")
    case True
    then have "update_where (\<lambda>r. k r = k c) f rows = rows" using Cons.prems(1) by (intro update_where_none) (auto simp: image_iff)
    then show ?thesis using True Cons.prems(3) by (simp add: update_where_def)
  next
    case False
    then have c: "c \<in> set rows" "k r \<noteq> k c" using Cons.prems(1,2) by auto
    have "length (filter P (update_where (\<lambda>r. k r = k c) f rows)) + (if P c then 1 else 0) = length (filter P rows)"
      by (rule Cons.IH) (use Cons.prems c in auto)
    then show ?thesis using c(2) by (simp add: update_where_def)
  qed
qed simp

definition stale :: "dt \<Rightarrow> connection \<Rightarrow> bool" where
  "stale t c \<longleftrightarrow> watched c \<and> con_last_probe_at c < Some t"

fun watch_turns :: "sched_env \<Rightarrow> (int \<times> string) list \<Rightarrow> dt list \<Rightarrow> database \<Rightarrow> database option" where
  "watch_turns E brands [] d = Some d"
| "watch_turns E brands (t # ts) d =
     (case watch_access E brands t d of None \<Rightarrow> None | Some (d1, _) \<Rightarrow> watch_turns E brands ts d1)"

lemma next_watched_oldest:
  assumes "next_watched d = Some c"
  shows "c \<in> set (db_connections d)" "watched c" "\<And>x. x \<in> set (db_connections d) \<Longrightarrow> watched x \<Longrightarrow> con_last_probe_at c \<le> con_last_probe_at x"
proof -
  obtain cs where cs: "sort_key con_last_probe_at (filter watched (db_connections d)) = c # cs"
    using assms by (auto simp: next_watched_def split: list.splits)
  have set: "set (c # cs) = set (filter watched (db_connections d))" unfolding cs [symmetric] by simp
  have sorted: "sorted (map con_last_probe_at (c # cs))" unfolding cs [symmetric] by (rule sorted_sort_key)
  show "c \<in> set (db_connections d)" "watched c" using set by auto
  show "con_last_probe_at c \<le> con_last_probe_at x" if "x \<in> set (db_connections d)" "watched x" for x
  proof -
    have "x \<in> set (c # cs)" using that set by simp
    then show ?thesis using sorted by auto
  qed
qed

lemma next_watched_None: "next_watched d = None \<longleftrightarrow> (\<forall>c \<in> set (db_connections d). \<not> watched c)"
proof -
  have "next_watched d = None \<longleftrightarrow> sort_key con_last_probe_at (filter watched (db_connections d)) = []"
    by (cases "sort_key con_last_probe_at (filter watched (db_connections d))") (simp_all add: next_watched_def)
  then show ?thesis by (simp add: filter_empty_conv)
qed

text \<open>A turn deals with one stale account, as long as there is one.\<close>

lemma watch_turn:
  assumes "distinct (map con_id (db_connections d))" "sn_bool E ''source.watch_enabled'' None = Inr True"
    and "\<And>c. probe_account E c \<noteq> None" "t0 \<le> t"
  shows "\<exists>d1 r. watch_access E brands t d = Some (d1, r) \<and> map con_id (db_connections d1) = map con_id (db_connections d) \<and>
    length (filter (stale t0) (db_connections d1)) \<le> length (filter (stale t0) (db_connections d)) - 1"
proof (cases "next_watched d")
  case None
  then have "filter (stale t0) (db_connections d) = []" by (auto simp: next_watched_None filter_empty_conv stale_def)
  then show ?thesis using None assms(2) by (simp add: watch_access_def)
next
  case (Some c)
  note c = next_watched_oldest [OF Some]
  define f :: "connection \<Rightarrow> connection" where "f = (case probe_account E c of Some (Inl e) \<Rightarrow> (\<lambda>x. x\<lparr>con_status_detail := Some (take 4000 (te_str e)), con_last_probe_at := Some t\<rparr>)
    | _ \<Rightarrow> (\<lambda>x. x\<lparr>con_status := CONN_OK, con_status_detail := None, con_last_probe_at := Some t\<rparr>))"
  have w: "\<exists>r. watch_access E brands t d = Some (update_connection (con_id c) f d, r)"
    using Some assms(2) assms(3) [of c]
    by (auto simp: watch_access_def f_def still_failing_def recovered_def split: option.splits sum.splits)
  have ids: "con_id (f x) = con_id x" for x by (auto simp: f_def split: option.splits sum.splits)
  have fresh: "\<not> stale t0 (f c)" using assms(4) by (auto simp: f_def stale_def split: option.splits sum.splits)
  have "length (filter (stale t0) (db_connections (update_connection (con_id c) f d))) + (if stale t0 c then 1 else 0)
      = length (filter (stale t0) (db_connections d))"
    using count_update [OF assms(1) c(1), of "stale t0" f] fresh by (simp add: update_connection_def)
  moreover have "filter (stale t0) (db_connections d) = []" if "\<not> stale t0 c"
    using that c by (fastforce simp: filter_empty_conv stale_def)
  moreover have "map con_id (db_connections (update_connection (con_id c) f d)) = map con_id (db_connections d)"
    by (simp add: update_connection_def update_where_def ids if_distrib cong: if_cong)
  ultimately show ?thesis using w by (cases "stale t0 c") auto
qed

text \<open>C17: no failing account is starved. While the checks answer, as many turns as there are failing accounts see to
  every one of them: whatever still fails at the end has been checked since the first turn.\<close>

theorem watch_reaches_every_account:
  assumes "distinct (map con_id (db_connections d))" "sn_bool E ''source.watch_enabled'' None = Inr True"
    and "\<And>c. probe_account E c \<noteq> None" "\<forall>t \<in> set ts. t0 \<le> t"
    and "length (filter watched (db_connections d)) \<le> length ts"
  shows "\<exists>d'. watch_turns E brands ts d = Some d' \<and>
    (\<forall>c \<in> set (db_connections d'). watched c \<longrightarrow> (\<exists>t. con_last_probe_at c = Some t \<and> t0 \<le> t))"
proof -
  have turns: "\<exists>d'. watch_turns E brands ts d = Some d' \<and>
      length (filter (stale t0) (db_connections d')) \<le> length (filter (stale t0) (db_connections d)) - length ts"
    using assms(1,4)
  proof (induction ts arbitrary: d)
    case (Cons t ts)
    obtain d1 r where d1: "watch_access E brands t d = Some (d1, r)" "map con_id (db_connections d1) = map con_id (db_connections d)"
      "length (filter (stale t0) (db_connections d1)) \<le> length (filter (stale t0) (db_connections d)) - 1"
      using watch_turn [OF Cons.prems(1) assms(2,3), of t0 t brands] Cons.prems(2) by auto
    obtain d' where "watch_turns E brands ts d1 = Some d'"
      "length (filter (stale t0) (db_connections d')) \<le> length (filter (stale t0) (db_connections d1)) - length ts"
      using Cons.IH [of d1] Cons.prems d1(2) by auto
    then show ?case using d1 by (intro exI [of _ d']) simp
  qed simp
  then obtain d' where d': "watch_turns E brands ts d = Some d'"
    "length (filter (stale t0) (db_connections d')) \<le> length (filter (stale t0) (db_connections d)) - length ts" by blast
  have "length (filter (stale t0) (db_connections d)) \<le> length (filter watched (db_connections d))"
    by (rule length_filter_mono) (simp add: stale_def)
  then have "filter (stale t0) (db_connections d') = []" using d'(2) assms(5) by simp
  then have fresh: "\<not> con_last_probe_at c < Some t0" if "c \<in> set (db_connections d')" "watched c" for c
    using that by (auto simp: filter_empty_conv stale_def)
  have "\<exists>t. con_last_probe_at c = Some t \<and> t0 \<le> t" if "c \<in> set (db_connections d')" "watched c" for c
    using fresh [OF that] by (cases "con_last_probe_at c") simp_all
  then show ?thesis using d'(1) by blast
qed

section \<open>What ages is queued\<close>

definition offloaded :: "connection \<Rightarrow> recording \<Rightarrow> recording" where
  "offloaded c r = r\<lparr>rec_state := QUEUED, rec_destination_id := con_destination_id c\<rparr>"

lemma offload_one_tables:
  "db_recordings (offload_one now c r d) = update_where (\<lambda>x. rec_id x = rec_id r) (offloaded c) (db_recordings d)"
  "set (db_jobs d) \<subseteq> set (db_jobs (offload_one now c r d))"
  "list_ex (same_work (rec_brand_id r) (rec_id r) TRANSFER) (db_jobs (offload_one now c r d))"
  by (auto simp: offload_one_def enqueue_def offloaded_def [abs_def] same_work_def new_job_def list_ex_iff Let_def)

lemma fold_offload_recordings:
  "db_recordings (fold (offload_one now c) rs d) =
    map (\<lambda>x. if rec_id x \<in> rec_id ` set rs then offloaded c x else x) (db_recordings d)"
  by (induction rs arbitrary: d) (auto simp: offload_one_tables update_where_def offloaded_def)

lemma fold_offload_jobs:
  "set (db_jobs d) \<subseteq> set (db_jobs (fold (offload_one now c) rs d)) \<and>
   (\<forall>r \<in> set rs. list_ex (same_work (rec_brand_id r) (rec_id r) TRANSFER) (db_jobs (fold (offload_one now c) rs d)))"
proof (induction rs arbitrary: d)
  case (Cons r rs)
  show ?case using Cons.IH [of "offload_one now c r d"] offload_one_tables(2,3) [where r = r and now = now and c = c and d = d]
    by (auto simp: list_ex_iff)
qed simp

lemma pending_offload_newest:
  assumes "r \<in> set rows" "eligible c cutoff r" "r \<notin> set (pending_offload c cutoff rows)" "p \<in> set (pending_offload c cutoff rows)"
  shows "rec_started_at r \<le> rec_started_at p"
proof -
  define xs where "xs = sort_key (\<lambda>r. map_option uminus (rec_started_at r)) (filter (eligible c cutoff) rows)"
  have p: "p \<in> set (take 5000 xs)" and "r \<notin> set (take 5000 xs)" using assms(3,4) by (simp_all add: pending_offload_def xs_def)
  moreover have "r \<in> set xs" using assms(1,2) by (simp add: xs_def)
  ultimately have r: "r \<in> set (drop 5000 xs)" by (metis Un_iff append_take_drop_id set_append)
  have "sorted (map (\<lambda>r. map_option uminus (rec_started_at r)) (take 5000 xs @ drop 5000 xs))"
    unfolding append_take_drop_id xs_def by (rule sorted_sort_key)
  then have "map_option uminus (rec_started_at p) \<le> map_option uminus (rec_started_at r)"
    using p r unfolding map_append sorted_append by auto
  moreover have "p \<in> set xs" using p by (rule in_set_takeD)
  then have "eligible c cutoff p" by (simp add: xs_def)
  ultimately show ?thesis using assms(2) by (auto simp: eligible_def split: option.splits)
qed

text \<open>What the retention pass queues. For one account it takes the newest five thousand at most of the recordings that
  are only discovered and started before the window; each becomes queued for the account's archive and has its job, and no
  other recording is touched. One whose start is not known is never taken.\<close>

theorem retention_queues_the_aged:
  assumes "offload_connection E now (db_recordings d) c d = Inr d'"
    and "sn_int E ''retention.offload_after_days'' (Some (con_brand_id c)) = Inr days"
  shows "\<exists>pending. set pending \<subseteq> {r \<in> set (db_recordings d). eligible c (now - days * day) r} \<and> length pending \<le> 5000 \<and>
    db_recordings d' = map (\<lambda>x. if rec_id x \<in> rec_id ` set pending then offloaded c x else x) (db_recordings d) \<and>
    (\<forall>r \<in> set pending. rec_started_at r \<noteq> None \<and> list_ex (same_work (rec_brand_id r) (rec_id r) TRANSFER) (db_jobs d')) \<and>
    (\<forall>r \<in> set (db_recordings d). eligible c (now - days * day) r \<longrightarrow> r \<in> set pending \<or>
       (length pending = 5000 \<and> (\<forall>p \<in> set pending. rec_started_at r \<le> rec_started_at p)))"
proof -
  define rows where "rows = filter (eligible c (now - days * day)) (db_recordings d)"
  define pending where "pending = pending_offload c (now - days * day) (db_recordings d)"
  have p: "set pending \<subseteq> set rows" "length pending = min 5000 (length rows)"
    using set_take_subset [of 5000 "sort_key (\<lambda>r. map_option uminus (rec_started_at r)) rows"]
    by (simp_all add: pending_def pending_offload_def rows_def min.commute)
  have d': "db_recordings d' = db_recordings (fold (offload_one now c) pending d)" "db_jobs d' = db_jobs (fold (offload_one now c) pending d)"
    using assms by (auto simp: offload_connection_def pending_def Let_def split: if_splits)
  have all: "r \<in> set pending" if "length pending \<noteq> 5000" "r \<in> set rows" for r
  proof -
    have "length rows \<le> 5000" using p(2) that(1) by (simp add: min_def split: if_splits)
    then have "set pending = set rows" by (simp add: pending_def pending_offload_def rows_def)
    then show ?thesis using that(2) by simp
  qed
  have started: "rec_started_at r \<noteq> None" if "eligible c t r" for r t using that by (auto simp: eligible_def split: option.splits)
  show ?thesis
  proof (intro exI [of _ pending] conjI ballI impI)
    show "set pending \<subseteq> {r \<in> set (db_recordings d). eligible c (now - days * day) r}" using p(1) by (auto simp: rows_def)
    show "length pending \<le> 5000" using p(2) by simp
    show "db_recordings d' = map (\<lambda>x. if rec_id x \<in> rec_id ` set pending then offloaded c x else x) (db_recordings d)"
      unfolding d' by (rule fold_offload_recordings)
    show "rec_started_at r \<noteq> None" if "r \<in> set pending" for r using that p(1) started by (auto simp: rows_def)
    show "list_ex (same_work (rec_brand_id r) (rec_id r) TRANSFER) (db_jobs d')" if "r \<in> set pending" for r
      using fold_offload_jobs [of d now c pending] that by (simp add: d')
    show "r \<in> set pending \<or> (length pending = 5000 \<and> (\<forall>p \<in> set pending. rec_started_at r \<le> rec_started_at p))"
      if "r \<in> set (db_recordings d)" "eligible c (now - days * day) r" for r
      using all [of r] that pending_offload_newest [OF that] by (auto simp: rows_def pending_def)
  qed
qed

section \<open>A scan that fails\<close>

text \<open>An account that cannot be opened: the run and the failure are rolled back, so nothing of it is recorded, the account
  is not marked as failing, and the next pass scans it again.\<close>

lemma refused_scan_leaves_nothing:
  assumes "find_row (\<lambda>c. con_id c = i) (db_connections d) = Some con" "sn_open E con = Inl e"
  shows "fst (scan_connection E now i d) = d"
  using assms by (cases "sn_int E ''source.incremental_overlap_hours'' None"; cases "sn_int E ''source.list_page_size'' None";
      cases "sn_bool E ''transfer.enabled'' None") (simp_all add: scan_connection_def Let_def split: prod.splits)

lemma refused_accounts_stay_scannable:
  assumes "\<And>con. \<exists>e. sn_open E con = Inl e"
  shows "fst (run_incremental_inventory E now d) = d"
proof -
  have one: "fst (scan_connection E now i d) = d" for i
    using refused_scan_leaves_nothing assms
    by (cases "find_row (\<lambda>c. con_id c = i) (db_connections d)") (fastforce simp: scan_connection_def)+
  have "fst (scan_each (scan_connection E now) is d) = d" for "is"
  proof (induction "is")
    case (Cons i "is")
    obtain out where "scan_connection E now i d = (d, out)" using one [of i] by (metis prod.collapse)
    then show ?case using Cons by (cases out) (auto split: prod.splits)
  qed simp
  then show ?thesis by (simp add: run_incremental_inventory_def)
qed

section \<open>What the archives hold\<close>

text \<open>After the recount every archive says what the verified recordings add up to, and a second recount touches none.\<close>

lemma recount_exact:
  "\<forall>x \<in> set (refresh_archive_totals now rows ds). (dt_objects x, dt_bytes x) = recount rows x"
  "refresh_archive_totals later rows (refresh_archive_totals now rows ds) = refresh_archive_totals now rows ds"
proof -
  have r: "recount rows (x\<lparr>dt_objects := a, dt_bytes := b, dt_updated_at := t\<rparr>) = recount rows x" for x a b t
    by (simp add: recount_def archived_in_def [abs_def])
  show "\<forall>x \<in> set (refresh_archive_totals now rows ds). (dt_objects x, dt_bytes x) = recount rows x"
    by (auto simp: refresh_archive_totals_def r split: prod.splits)
  show "refresh_archive_totals later rows (refresh_archive_totals now rows ds) = refresh_archive_totals now rows ds"
    by (auto simp: refresh_archive_totals_def r split: prod.splits)
qed

section \<open>Examples\<close>

definition demo_sched :: sched_env where
  "demo_sched = \<lparr>sn_int = (\<lambda>k b. Inr 30), sn_bool = (\<lambda>k b. Inr True), sn_open = (\<lambda>c. Inl (new_transfer_error ACL_ERROR ''refused'' None None None)),
     sn_service = (\<lambda>c h cmd. Inr RDone), sn_fuel = 1\<rparr>"

definition refused_account :: "int \<Rightarrow> connection" where
  "refused_account i = sample_connection\<lparr>con_id := i, con_status := CONN_ERROR\<rparr>"

theorem steps_are_spaced_witness:
  "sorted_wrt (\<lambda>a b. 60 \<le> b - a) (runs_of WatchAccess (ticks (map (\<lambda>i. (of_nat i * 30,
     \<lparr>ts_poll_seconds = Inr 300, ts_cdr_minutes = Inr 0, ts_watch_seconds = Inr (- 5), ts_sms_minutes = Inr 0, ts_summary_minutes = Inr 0\<rparr>)) [0..<20]) never_run))"
  using steps_are_spaced [of WatchAccess] by (simp add: spaced_step_def)

theorem watch_reaches_every_account_witness:
  "\<exists>d'. watch_turns demo_sched [] [100, 200] (empty_db\<lparr>db_connections := [refused_account 1, refused_account 2]\<rparr>) = Some d' \<and>
     list_all (\<lambda>c. if watched c then con_last_probe_at c \<noteq> None else True) (db_connections d')"
proof -
  let ?d = "empty_db\<lparr>db_connections := [refused_account 1, refused_account 2]\<rparr>"
  have "\<exists>d'. watch_turns demo_sched [] [100, 200] ?d = Some d' \<and>
      (\<forall>c \<in> set (db_connections d'). watched c \<longrightarrow> (\<exists>t. con_last_probe_at c = Some t \<and> 100 \<le> t))"
  proof (rule watch_reaches_every_account)
    show "distinct (map con_id (db_connections ?d))" by (simp add: refused_account_def)
    show "probe_account demo_sched c \<noteq> None" for c by (simp add: probe_account_def demo_sched_def)
    show "length (filter watched (db_connections ?d)) \<le> length [100, 200 :: dt]" by simp
  qed (simp_all add: demo_sched_def)
  then obtain d' where d': "watch_turns demo_sched [] [100, 200] ?d = Some d'"
    "\<forall>c \<in> set (db_connections d'). watched c \<longrightarrow> (\<exists>t. con_last_probe_at c = Some t \<and> 100 \<le> t)" by (elim exE conjE)
  have "con_last_probe_at c \<noteq> None" if "c \<in> set (db_connections d')" "watched c" for c
    using d'(2) [rule_format, OF that] by auto
  then have "list_all (\<lambda>c. if watched c then con_last_probe_at c \<noteq> None else True) (db_connections d')" by (simp add: list_all_iff)
  with d'(1) show ?thesis by (rule_tac exI [of _ d']) (rule conjI)
qed

definition aged :: recording where
  "aged = (blank_recording 1 ''k'' 3)\<lparr>rec_state := DISCOVERED, rec_started_at := Some 0\<rparr>"

theorem retention_queues_the_aged_witness:
  "\<exists>d' (pending :: recording list). offload_connection demo_sched (100 * day) [aged] sample_connection (empty_db\<lparr>db_recordings := [aged]\<rparr>) = Inr d' \<and>
     length pending \<le> 5000 \<and> db_recordings d' = map (\<lambda>x. if rec_id x \<in> rec_id ` set pending then offloaded sample_connection x else x) [aged] \<and>
     map rec_state (db_recordings d') = [QUEUED]"
proof -
  let ?d = "empty_db\<lparr>db_recordings := [aged]\<rparr>"
  have rows: "db_recordings ?d = [aged]" by simp
  have "case offload_connection demo_sched (100 * day) [aged] sample_connection ?d of Inr d' \<Rightarrow> map rec_state (db_recordings d') = [QUEUED] | Inl e \<Rightarrow> False"
    by code_simp
  then obtain d' where d': "offload_connection demo_sched (100 * day) [aged] sample_connection ?d = Inr d'"
    "map rec_state (db_recordings d') = [QUEUED]" by (auto split: sum.splits)
  have days: "sn_int demo_sched ''retention.offload_after_days'' (Some (con_brand_id sample_connection)) = Inr 30" by (simp add: demo_sched_def)
  from retention_queues_the_aged [of demo_sched "100 * day" ?d sample_connection d' 30, unfolded rows, OF d'(1) days]
  obtain pending :: "recording list" where "length pending \<le> 5000"
    "db_recordings d' = map (\<lambda>x. if rec_id x \<in> rec_id ` set pending then offloaded sample_connection x else x) [aged]"
    by (elim exE conjE)
  then show ?thesis using d' by (intro exI [of _ d'] exI [of _ pending] conjI)
qed

end
