(* ===== verification/Upsert.thy ===== *)
theory Upsert
  imports Prelude
begin

text \<open>
  What the two importers of \<open>src/c2w/commpeak/\<close> have in common: \<open>INSERT ... ON CONFLICT (key) DO UPDATE\<close>, a row at a
  time, counting what was new. A row carries its key; a conflict merges the new row into the stored one.

  The locale states what a merge must promise for a window to be read again without harm, and proves what
  follows once for both tables.
\<close>

definition upsert :: "('r \<Rightarrow> 'k) \<Rightarrow> ('r \<Rightarrow> 'r \<Rightarrow> 'r) \<Rightarrow> 'r \<Rightarrow> 'r list \<Rightarrow> 'r list" where
  "upsert key merge r rows =
     (if key r \<in> key ` set rows then update_where (\<lambda>x. key x = key r) (\<lambda>x. merge x r) rows else rows @ [r])"

definition upsert_all :: "('r \<Rightarrow> 'k) \<Rightarrow> ('r \<Rightarrow> 'r \<Rightarrow> 'r) \<Rightarrow> 'r list \<Rightarrow> 'r list \<Rightarrow> 'r list" where
  "upsert_all key merge rs rows = foldl (\<lambda>t r. upsert key merge r t) rows rs"

text \<open>How many of the rows were new.\<close>

fun count_new_keys :: "('r \<Rightarrow> 'k) \<Rightarrow> 'r list \<Rightarrow> 'k set \<Rightarrow> nat" where
  "count_new_keys key [] K = 0"
| "count_new_keys key (r # rs) K = (if key r \<in> K then 0 else 1) + count_new_keys key rs (insert (key r) K)"

definition coalesce :: "'a option \<Rightarrow> 'a option \<Rightarrow> 'a option" where
  "coalesce a b = (case a of Some x \<Rightarrow> Some x | None \<Rightarrow> b)"

lemma coalesce_simps [simp]: "coalesce (Some x) b = Some x" "coalesce None b = b"
  by (simp_all add: coalesce_def)

lemma coalesce_keeps: "b \<noteq> None \<Longrightarrow> coalesce a b \<noteq> None"
  by (cases a) simp_all

lemma coalesce_later [simp]: "coalesce a (coalesce b (coalesce a x)) = coalesce a (coalesce b x)" "coalesce a a = a" "coalesce a (coalesce a x) = coalesce a x"
  by (cases a; cases b; simp)+

locale upsert_table =
  fixes key :: "'r \<Rightarrow> 'k"
    and merge :: "'r \<Rightarrow> 'r \<Rightarrow> 'r"
  assumes merge_key: "key (merge x r) = key x"
    and merge_same: "merge r r = r"
    and merge_twice: "merge (merge x r) r = merge x r"
    and later_wins: "merge (merge (merge x r) s) r = merge (merge x s) r"
begin

lemma upsert_keys: "key ` set (upsert key merge r rows) = insert (key r) (key ` set rows)"
proof (cases "key r \<in> key ` set rows")
  case True
  have "key ` set (update_where (\<lambda>x. key x = key r) (\<lambda>x. merge x r) rows) = key ` set rows"
    unfolding update_where_def set_map image_image by (rule image_cong) (simp_all add: merge_key)
  then show ?thesis using True by (auto simp: upsert_def)
qed (simp add: upsert_def)

lemma upsert_all_keys: "key ` set (upsert_all key merge rs rows) = key ` set rs \<union> key ` set rows"
  unfolding upsert_all_def by (induction rs arbitrary: rows) (auto simp: upsert_keys)

lemma upsert_distinct: "distinct (map key rows) \<Longrightarrow> distinct (map key (upsert key merge r rows))"
  by (auto simp: upsert_def update_where_def merge_key comp_def if_distrib cong: if_cong)

lemma upsert_all_distinct: "distinct (map key rows) \<Longrightarrow> distinct (map key (upsert_all key merge rs rows))"
  unfolding upsert_all_def by (induction rs arbitrary: rows) (auto simp: upsert_distinct)

text \<open>What becomes of a stored row: the merges of the rows of its key, in order.\<close>

lemma upsert_all_known:
  assumes "key ` set rs \<subseteq> key ` set rows"
  shows "upsert_all key merge rs rows = map (\<lambda>x. foldl merge x (filter (\<lambda>r. key r = key x) rs)) rows"
  using assms
proof (induction rs arbitrary: rows)
  case Nil
  then show ?case by (simp add: upsert_all_def)
next
  case (Cons r rs)
  have up: "upsert key merge r rows = map (\<lambda>x. if key x = key r then merge x r else x) rows"
    using Cons.prems by (simp add: upsert_def update_where_def)
  have "key ` set rs \<subseteq> key ` set (upsert key merge r rows)" using Cons.prems by (auto simp: upsert_keys)
  from Cons.IH [OF this] show ?case
    using Cons.prems by (simp add: upsert_all_def up comp_def merge_key if_distrib cong: if_cong)
qed

lemma upsert_all_append: "upsert_all key merge (rs @ ss) rows = upsert_all key merge ss (upsert_all key merge rs rows)"
  by (simp add: upsert_all_def)

lemma foldl_key: "key (foldl merge x rs) = key x"
  by (induction rs arbitrary: x) (simp_all add: merge_key)

lemma later_wins_all: "merge (foldl merge (merge x r) rs) r = merge (foldl merge x rs) r"
proof (induction rs rule: rev_induct)
  case Nil
  show ?case by (simp add: merge_twice)
next
  case (snoc s rs)
  have "merge (merge (foldl merge (merge x r) rs) s) r = merge (merge (merge (foldl merge (merge x r) rs) r) s) r"
    by (simp add: later_wins)
  also have "\<dots> = merge (merge (merge (foldl merge x rs) r) s) r" by (simp add: snoc)
  also have "\<dots> = merge (merge (foldl merge x rs) s) r" by (simp add: later_wins)
  finally show ?case by simp
qed

lemma again: "foldl merge (foldl merge x rs) rs = foldl merge x rs"
proof (induction rs rule: rev_induct)
  case (snoc r rs)
  have "merge (foldl merge (merge (foldl merge x rs) r) rs) r = merge (foldl merge (foldl merge x rs) rs) r"
    by (rule later_wins_all)
  then show ?case by (simp add: snoc)
qed simp

lemma upsert_all_trace:
  "x \<in> set (upsert_all key merge rs rows) \<Longrightarrow> \<exists>y. key y = key x \<and> x = foldl merge y (filter (\<lambda>r. key r = key x) rs)"
proof (induction rs arbitrary: x rule: rev_induct)
  case Nil
  then show ?case by auto
next
  case (snoc r rs)
  let ?t = "upsert_all key merge rs rows"
  have x: "x \<in> set (upsert key merge r ?t)" using snoc.prems by (simp add: upsert_all_def)
  show ?case
  proof (cases "key x = key r")
    case False
    then have "x \<in> set ?t" using x by (auto simp: upsert_def set_update_where merge_key split: if_splits)
    from snoc.IH [OF this] show ?thesis using False by simp
  next
    case True
    show ?thesis
    proof (cases "key r \<in> key ` set ?t")
      case known: True
      then obtain w where w: "w \<in> set ?t" "key w = key r" "x = merge w r"
        using x True by (auto simp: upsert_def set_update_where split: if_splits)
      from snoc.IH [OF w(1)] w(2,3) show ?thesis by (auto simp: merge_key)
    next
      case new: False
      then have "filter (\<lambda>s. key s = key r) rs = []" unfolding filter_empty_conv upsert_all_keys by (metis UnI1 imageI)
      moreover have "x = r" using x True new by (auto simp: upsert_def split: if_splits) (metis imageI)
      ultimately show ?thesis by (auto simp: merge_same intro: exI [of _ r])
    qed
  qed
qed

text \<open>Reading a window again adds no row and changes none.\<close>

lemma upsert_all_idem: "upsert_all key merge rs (upsert_all key merge rs rows) = upsert_all key merge rs rows"
proof -
  let ?t = "upsert_all key merge rs rows"
  have "foldl merge x (filter (\<lambda>r. key r = key x) rs) = x" if x: "x \<in> set ?t" for x
  proof -
    obtain y where "key y = key x" "x = foldl merge y (filter (\<lambda>r. key r = key x) rs)" using upsert_all_trace [OF x] by blast
    then show ?thesis using again by metis
  qed
  moreover have "key ` set rs \<subseteq> key ` set ?t" by (simp add: upsert_all_keys)
  ultimately show ?thesis by (simp add: upsert_all_known map_idI)
qed

lemma count_new_known: "key ` set rs \<subseteq> K \<Longrightarrow> count_new_keys key rs K = 0"
  by (induction rs arbitrary: K) (auto simp: subset_insertI2)

lemma length_upsert_all: "length (upsert_all key merge rs rows) = length rows + count_new_keys key rs (key ` set rows)"
proof (induction rs arbitrary: rows)
  case (Cons r rs)
  have "length (upsert_all key merge rs (upsert key merge r rows)) =
      length (upsert key merge r rows) + count_new_keys key rs (insert (key r) (key ` set rows))"
    unfolding Cons.IH upsert_keys ..
  then show ?case by (simp add: upsert_all_def upsert_def)
qed (simp add: upsert_all_def)

end

end
