(* ===== verification/Cdr.thy ===== *)
theory Cdr
  imports Inventory PyText SettingsSpec Upsert "HOL-Library.AList"
begin

text \<open>
  \<open>src/c2w/commpeak/cdr_client.py\<close>: reading call records from one PBX Stats instance, page by page, and storing them.
  The instance's answers, the text of a float or of a nested value, and what the driver makes of a value in
  a text column are parameters; the clock is an argument.

  Lemmas: what a window that is read again does to the table, what a known value becomes, and which records
  a poll stores before it moves its cursor.
\<close>

section \<open>Values of a record\<close>

type_synonym payload = "(string \<times> json) list"

definition jget :: "string \<Rightarrow> payload \<Rightarrow> json" where
  "jget k r = (case map_of r k of Some v \<Rightarrow> v | None \<Rightarrow> JNull)"

definition jtruthy :: "json \<Rightarrow> bool" where
  "jtruthy j = (case j of JNull \<Rightarrow> False | JBool b \<Rightarrow> b | JInt i \<Rightarrow> i \<noteq> 0 | JNum r \<Rightarrow> r \<noteq> 0 | JStr s \<Rightarrow> s \<noteq> []
     | JArr xs \<Rightarrow> xs \<noteq> [] | JObj kvs \<Rightarrow> kvs \<noteq> [])"

definition jor :: "json \<Rightarrow> json \<Rightarrow> json" where
  "jor a b = (if jtruthy a then a else b)"

definition str_json :: "py_text \<Rightarrow> json \<Rightarrow> string" where
  "str_json P j = (case j of JNull \<Rightarrow> ''None'' | JBool b \<Rightarrow> (if b then ''True'' else ''False'') | JInt i \<Rightarrow> show_int i
     | JNum r \<Rightarrow> show_float_of P (Fin r) | JStr s \<Rightarrow> s | JArr xs \<Rightarrow> show_json_of P j | JObj kvs \<Rightarrow> show_json_of P j)"

text \<open>\<open>value in (None, "")\<close>.\<close>

definition absent :: "json \<Rightarrow> bool" where
  "absent j \<longleftrightarrow> j = JNull \<or> j = JStr []"

definition py_isdigit :: "string \<Rightarrow> bool" where
  "py_isdigit s \<longleftrightarrow> s \<noteq> [] \<and> list_all py_isdigit_char s"

text \<open>\<open>int(text)\<close> of text that \<open>isdigit\<close> accepted: a superscript digit is refused after all.\<close>

definition int_of_digits :: "string \<Rightarrow> py_exc + int" where
  "int_of_digits s = (if list_all is_digit s then Inr (py_int s) else Inl (ValueError ''invalid literal for int() with base 10''))"

section \<open>Timestamps\<close>

text \<open>\<open>strptime\<close>'s pattern for a two-digit clock field.\<close>

definition strp_clock :: "(char \<Rightarrow> char \<Rightarrow> bool) \<Rightarrow> string \<Rightarrow> (int \<times> string) option" where
  "strp_clock two s = or_else (strp_two (\<lambda>(a, b). two a b \<and> is_digit b) s)
     (case s of a # rest \<Rightarrow> if is_digit a then Some (py_int [a], rest) else None | [] \<Rightarrow> None)"

definition strp_hour :: "string \<Rightarrow> (int \<times> string) option" where
  "strp_hour = strp_clock (\<lambda>a b. (a = CHR ''2'' \<and> b \<in> set ''0123'') \<or> a = CHR ''0'' \<or> a = CHR ''1'')"

definition strp_minute :: "string \<Rightarrow> (int \<times> string) option" where
  "strp_minute = strp_clock (\<lambda>a b. a \<in> set ''012345'')"

definition strp_second :: "string \<Rightarrow> (int \<times> string) option" where
  "strp_second = strp_clock (\<lambda>a b. (a = CHR ''6'' \<and> b \<in> set ''01'') \<or> a \<in> set ''012345'')"

definition literal :: "char \<Rightarrow> string \<Rightarrow> string option" where
  "literal c s = (case s of x # rest \<Rightarrow> if x = c then Some rest else None | [] \<Rightarrow> None)"

text \<open>A space in a format stands for any run of white space; letters match in either case.\<close>

definition separator :: "char \<Rightarrow> string \<Rightarrow> string option" where
  "separator c s = (if c = CHR '' '' then (case s of x # rest \<Rightarrow> if is_space x then Some (dropWhile is_space rest) else None | [] \<Rightarrow> None)
     else or_else (literal c s) (literal (lower_char c) s))"

definition strp_field :: "(string \<Rightarrow> (int \<times> string) option) \<Rightarrow> char \<Rightarrow> string \<Rightarrow> (int \<times> string) option" where
  "strp_field p c s = (case p s of Some (n, r) \<Rightarrow> map_option (Pair n) (separator c r) | None \<Rightarrow> None)"

text \<open>\<open>%Y-%m-%d\<close>, a separator and \<open>%H:%M:%S\<close>; what is left of the text.\<close>

definition strp_datetime :: "char \<Rightarrow> string \<Rightarrow> (dt \<times> string) option" where
  "strp_datetime sep s =
     (if length s < 4 \<or> \<not> list_all is_digit (take 4 s) then None
      else Option.bind (literal CHR ''-'' (drop 4 s)) (\<lambda>s1.
        Option.bind (strp_field strp_month CHR ''-'' s1) (\<lambda>(mo, s2).
        Option.bind (strp_field strp_mday sep s2) (\<lambda>(da, s3).
        Option.bind (strp_field strp_hour CHR '':'' s3) (\<lambda>(ho, s4).
        Option.bind (strp_field strp_minute CHR '':'' s4) (\<lambda>(mi, s5).
        Option.bind (strp_second s5) (\<lambda>(se, s6).
        map_option (\<lambda>t. (t, s6)) (mk_datetime (py_int (take 4 s)) mo da ho mi se))))))))"

text \<open>\<open>%z\<close>: an offset with or without colons, in the same way throughout, or \<open>Z\<close>; less than a day.\<close>

definition strp_two_digits :: "string \<Rightarrow> (int \<times> string) option" where
  "strp_two_digits = strp_two (\<lambda>(a, b). is_digit a \<and> is_digit b)"

definition strp_sixty :: "string \<Rightarrow> (int \<times> string) option" where
  "strp_sixty = strp_two (\<lambda>(a, b). a \<in> set ''012345'' \<and> is_digit b)"

definition offset_rest :: "bool \<Rightarrow> string \<Rightarrow> micros option" where
  "offset_rest colon s =
     (let fraction = (\<lambda>r. case r of [] \<Rightarrow> Some 0
        | c # ds \<Rightarrow> if c = CHR ''.'' \<and> ds \<noteq> [] \<and> length ds \<le> 6 \<and> list_all is_digit ds
                   then Some (py_int (ds @ replicate (6 - length ds) CHR ''0'')) else None);
          secs = (\<lambda>r. case strp_sixty r of Some (n, r1) \<Rightarrow> map_option (\<lambda>f. n * second + f) (fraction r1) | None \<Rightarrow> None)
      in if s = [] then Some 0
         else if colon then Option.bind (literal CHR '':'' s) secs
         else secs s)"

definition strp_offset :: "string \<Rightarrow> micros option" where
  "strp_offset s =
     (if s = ''Z'' then Some 0
      else case s of
        [] \<Rightarrow> None
      | sg # s1 \<Rightarrow>
          if sg \<noteq> CHR ''+'' \<and> sg \<noteq> CHR ''-'' then None
          else Option.bind (strp_two_digits s1) (\<lambda>(h, s2).
            let colon = (s2 \<noteq> [] \<and> hd s2 = CHR '':'') in
            Option.bind (strp_sixty (if colon then tl s2 else s2)) (\<lambda>(m, s3).
            Option.bind (offset_rest colon s3) (\<lambda>r.
              let total = h * hour + m * minute + r in
              if day \<le> total then None else Some (if sg = CHR ''-'' then - total else total)))))"

definition strp_any :: "string \<Rightarrow> dt option" where
  "strp_any s =
     (case strp_datetime CHR '' '' s of
        Some (t, []) \<Rightarrow> Some t
      | _ \<Rightarrow>
          (case strp_datetime CHR ''T'' s of
             Some (t, []) \<Rightarrow> Some t
           | Some (t, z) \<Rightarrow> map_option (\<lambda>off. t - off) (strp_offset z)
           | None \<Rightarrow> None))"

definition parse_cdr_timestamp :: "py_text \<Rightarrow> json \<Rightarrow> py_exc + dt option" where
  "parse_cdr_timestamp P v =
     (if absent v then Inr None
      else (case v of
              JInt n \<Rightarrow> res_bind (from_timestamp n) (\<lambda>t. Inr (Some t))
            | JBool b \<Rightarrow> res_bind (from_timestamp (if b then 1 else 0)) (\<lambda>t. Inr (Some t))
            | JNum r \<Rightarrow>
                (let t = round_half_even (r * of_int second)
                 in if valid_dt t then Inr (Some t) else Inl (ValueError ''year is out of range''))
            | _ \<Rightarrow> Inr (strp_any (py_strip (str_json P v)))))"

section \<open>A record as a row\<close>

definition direction_of :: "py_text \<Rightarrow> payload \<Rightarrow> string option" where
  "direction_of P r =
     (let raw = py_lower (py_strip (str_json P (jor (jget ''type'' r) (jor (jget ''direction'' r) (JStr [])))))
      in if raw = [] then (if contains ''@did.'' (str_json P (jor (jget ''src'' r) (JStr []))) then Some ''in'' else None)
         else if contains ''out'' raw then Some ''out''
         else if contains ''in'' raw then Some ''in''
         else if raw = ''internal'' \<or> raw = ''local'' then Some ''internal''
         else None)"

definition truncate_rat :: "rat \<Rightarrow> int" where
  "truncate_rat r = (if 0 \<le> r then \<lfloor>r\<rfloor> else - \<lfloor>- r\<rfloor>)"

definition seconds_of :: "py_text \<Rightarrow> json \<Rightarrow> py_exc + int option" where
  "seconds_of P v =
     (if absent v then Inr None
      else (let raw = py_strip (str_json P v); parts = split_on CHR '':'' raw
            in if py_isdigit raw then res_bind (int_of_digits raw) (\<lambda>n. Inr (Some n))
               else if 1 < length parts \<and> length parts \<le> 3 \<and> list_all (\<lambda>p. py_isdigit (py_strip p)) parts
               then res_bind (map_res (\<lambda>p. int_of_digits (py_strip p)) parts) (\<lambda>ns. Inr (Some (foldl (\<lambda>t n. t * 60 + n) 0 ns)))
               else (case py_float_text raw of
                       None \<Rightarrow> Inr None
                     | Some (Fin q) \<Rightarrow> Inr (Some (truncate_rat q))
                     | Some NaN \<Rightarrow> Inr None
                     | Some _ \<Rightarrow> Inl (OverflowError ''cannot convert float infinity to integer''))))"

text \<open>\<open>Decimal(text)\<close>: underscores are dropped, a payload of a not-a-number is not kept.\<close>

definition decimal_text :: "string \<Rightarrow> decimal option" where
  "decimal_text s0 =
     (let s = filter (\<lambda>c. c \<noteq> CHR ''_'') s0; (sg, body) = split_sign s; low = py_lower body;
          special = (\<lambda>name. starts_with name low \<and> list_all is_digit (drop (length name) low))
      in if low = ''inf'' \<or> low = ''infinity'' then Some (DecInfinity (sg = 1))
         else if special ''nan'' \<or> special ''snan'' then Some DecNaN
         else (let whole = takeWhile is_digit body; r1 = dropWhile is_digit body;
                   (frac, r2) = (case r1 of c # cs \<Rightarrow> if c = CHR ''.'' then (takeWhile is_digit cs, dropWhile is_digit cs) else ([], r1)
                                 | [] \<Rightarrow> ([], []));
                   mant = of_int (sg * py_int (whole @ frac)) / 10 ^ length frac
               in if whole @ frac = [] then None
                  else (case r2 of
                          [] \<Rightarrow> Some (Dec mant)
                        | c # cs \<Rightarrow>
                            if c = CHR ''e'' \<or> c = CHR ''E''
                            then (let (es, ds) = split_sign cs
                                  in if ds = [] \<or> \<not> list_all is_digit ds then None else Some (Dec (scale10 mant (es * py_int ds))))
                            else None)))"

definition decimal_of :: "py_text \<Rightarrow> json \<Rightarrow> decimal option" where
  "decimal_of P v = (if absent v then None else decimal_text (py_strip (str_json P v)))"

text \<open>\<open>normalise_msisdn\<close> of whatever the record has there: a number has no \<open>split\<close>.\<close>

definition msisdn_of :: "json \<Rightarrow> py_exc + string option" where
  "msisdn_of v =
     (if \<not> jtruthy v then Inr None
      else (case v of
              JStr s \<Rightarrow> Inr (nonempty (Some (normalise_msisdn (Some s))))
            | _ \<Rightarrow> Inl (AttributeError ''object has no attribute 'split'')))"

record cdr_values =
  cv_call_uuid :: "string option"
  cv_call_id :: json
  cv_start_at :: "dt option"
  cv_end_at :: "dt option"
  cv_call_duration :: "int option"
  cv_direction :: "string option"
  cv_src :: json
  cv_dst :: json
  cv_src_norm :: "string option"
  cv_dst_norm :: "string option"
  cv_dst_country :: json
  cv_agent_extension :: json
  cv_agent_name :: json
  cv_bridged_agent_name :: json
  cv_bridged_agent_extension :: json
  cv_call_type :: json
  cv_queue_name :: json
  cv_bill_duration :: "int option"
  cv_cost :: "decimal option"
  cv_caller_user :: json
  cv_client_callerid_name :: json
  cv_client_callerid_number :: json
  cv_status :: json
  cv_hangup_disposition :: json
  cv_public_recording_url :: json
  cv_raw :: json

definition call_id_of :: "py_text \<Rightarrow> payload \<Rightarrow> py_exc + json" where
  "call_id_of P r =
     (let i = jget ''id'' r
      in if \<not> py_isdigit (str_json P (jor i (JStr []))) then Inr (jget ''call_id'' r)
         else (case i of
                 JStr s \<Rightarrow> res_bind (int_of_digits s) (\<lambda>n. Inr (JInt n))
               | JInt n \<Rightarrow> Inr (JInt n)
               | JNum q \<Rightarrow> Inr (JInt (truncate_rat q))
               | JBool b \<Rightarrow> Inr (JInt (if b then 1 else 0))
               | _ \<Rightarrow> Inl (TypeError ''int() argument must be a string, a bytes-like object or a real number'')))"

definition normalise_cdr :: "py_text \<Rightarrow> payload \<Rightarrow> py_exc + cdr_values" where
  "normalise_cdr P r =
     (let source = jor (jget ''caller_id'' r) (jor (jget ''source'' r) (jget ''src'' r));
          destination = jor (jget ''destination'' r) (jget ''dst'' r);
          uuid = jor (jget ''uniqueid'' r) (jor (jget ''call_uuid'' r) (jget ''id'' r))
      in res_bind (parse_cdr_timestamp P (jor (jget ''call_start'' r) (jget ''start_at'' r))) (\<lambda>start.
         res_bind (parse_cdr_timestamp P (jor (jget ''call_end'' r) (jget ''end_at'' r))) (\<lambda>finish.
         res_bind (call_id_of P r) (\<lambda>call_id.
         res_bind (seconds_of P (jor (jget ''duration'' r) (jget ''call_duration'' r))) (\<lambda>duration.
         res_bind (msisdn_of source) (\<lambda>src_norm.
         res_bind (msisdn_of destination) (\<lambda>dst_norm.
         res_bind (seconds_of P (jget ''bill_duration'' r)) (\<lambda>billed.
         Inr \<lparr>cv_call_uuid = (if uuid = JNull then None else Some (str_json P uuid)), cv_call_id = call_id,
              cv_start_at = start, cv_end_at = finish, cv_call_duration = duration, cv_direction = direction_of P r,
              cv_src = source, cv_dst = destination, cv_src_norm = src_norm, cv_dst_norm = dst_norm,
              cv_dst_country = jor (jget ''country_name'' r) (jget ''dst_country'' r),
              cv_agent_extension = jor (jget ''agent_pbxExtension'' r) (jget ''agent_callerid_number'' r),
              cv_agent_name = jor (jget ''agent_name'' r) (jget ''agent_callerid_name'' r),
              cv_bridged_agent_name = jget ''bridged_agent_name'' r,
              cv_bridged_agent_extension = jget ''bridged_agent_pbxExtension'' r,
              cv_call_type = jor (jget ''type'' r) (jget ''call_type'' r),
              cv_queue_name = jor (jget ''queue_name'' r) (jget ''queue_alias'' r),
              cv_bill_duration = billed, cv_cost = decimal_of P (jget ''cost'' r),
              cv_caller_user = jor (jget ''caller_user'' r) (jget ''caller_username'' r),
              cv_client_callerid_name = jor (jget ''source_name'' r) (jget ''client_callerid_name'' r),
              cv_client_callerid_number = jget ''client_callerid_number'' r,
              cv_status = jor (jget ''hangup_cause'' r) (jget ''status'' r),
              cv_hangup_disposition = jor (jget ''hangup_disposition'' r)
                (jor (jget ''client_hangup_disposition'' r) (jget ''agent_hangup_disposition'' r)),
              cv_public_recording_url = jor (jget ''recording_link'' r)
                (jor (jget ''public_recording_url'' r) (jget ''record_file'' r)),
              cv_raw = JObj r\<rparr>))))))))"

section \<open>Storing a page\<close>

datatype cdr_exc = CdrPermission string | CdrStatus int | CdrTransport string | CdrDatabase string | CdrPy py_exc

text \<open>What the driver makes of a value bound to a column, by the column's name: the stored text or number, or its refusal.\<close>

record binding =
  bd_text :: "string \<Rightarrow> json \<Rightarrow> string + string option"
  bd_int :: "string \<Rightarrow> json \<Rightarrow> string + int option"

definition binding_ok :: "binding \<Rightarrow> bool" where
  "binding_ok B \<longleftrightarrow> (\<forall>col. bd_text B col JNull = Inr None \<and> bd_int B col JNull = Inr None)"

fun database_error :: "string + 'a \<Rightarrow> cdr_exc + 'a" where
  "database_error (Inl m) = Inl (CdrDatabase m)"
| "database_error (Inr x) = Inr x"

fun python_error :: "py_exc + 'a \<Rightarrow> cdr_exc + 'a" where
  "python_error (Inl e) = Inl (CdrPy e)"
| "python_error (Inr x) = Inr x"

text \<open>The values of the \<open>INSERT\<close>; the columns that are text or a number already are bound as they are, and the id is
  drawn when the row is stored.\<close>

definition cdr_of :: "binding \<Rightarrow> int \<Rightarrow> int \<Rightarrow> int \<Rightarrow> string \<Rightarrow> dt \<Rightarrow> cdr_values \<Rightarrow> cdr_exc + cdr_row" where
  "cdr_of B brand con tenant uuid start v = database_error
     (res_bind (bd_int B ''call_id'' (cv_call_id v)) (\<lambda>call_id.
      res_bind (bd_text B ''src'' (cv_src v)) (\<lambda>src.
      res_bind (bd_text B ''dst'' (cv_dst v)) (\<lambda>dst.
      res_bind (bd_text B ''dst_country'' (cv_dst_country v)) (\<lambda>country.
      res_bind (bd_text B ''agent_extension'' (cv_agent_extension v)) (\<lambda>extension.
      res_bind (bd_text B ''agent_name'' (cv_agent_name v)) (\<lambda>agent.
      res_bind (bd_text B ''bridged_agent_name'' (cv_bridged_agent_name v)) (\<lambda>bridged.
      res_bind (bd_text B ''bridged_agent_extension'' (cv_bridged_agent_extension v)) (\<lambda>bridged_extension.
      res_bind (bd_text B ''call_type'' (cv_call_type v)) (\<lambda>call_type.
      res_bind (bd_text B ''queue_name'' (cv_queue_name v)) (\<lambda>queue.
      res_bind (bd_text B ''caller_user'' (cv_caller_user v)) (\<lambda>caller.
      res_bind (bd_text B ''client_callerid_name'' (cv_client_callerid_name v)) (\<lambda>client.
      res_bind (bd_text B ''client_callerid_number'' (cv_client_callerid_number v)) (\<lambda>client_number.
      res_bind (bd_text B ''status'' (cv_status v)) (\<lambda>status.
      res_bind (bd_text B ''hangup_disposition'' (cv_hangup_disposition v)) (\<lambda>disposition.
      res_bind (bd_text B ''public_recording_url'' (cv_public_recording_url v)) (\<lambda>url.
      Inr \<lparr>cdr_id = 0, cdr_brand_id = brand, cdr_connection_id = con, cdr_tenant_id = tenant, cdr_call_uuid = uuid,
           cdr_call_id = call_id, cdr_start_at = start, cdr_end_at = cv_end_at v, cdr_call_duration = cv_call_duration v,
           cdr_direction = cv_direction v, cdr_src = src, cdr_dst = dst, cdr_src_norm = cv_src_norm v,
           cdr_dst_norm = cv_dst_norm v, cdr_dst_country = country, cdr_agent_extension = extension, cdr_agent_name = agent,
           cdr_bridged_agent_name = bridged, cdr_bridged_agent_extension = bridged_extension, cdr_call_type = call_type,
           cdr_queue_name = queue, cdr_bill_duration = cv_bill_duration v, cdr_cost = cv_cost v, cdr_caller_user = caller,
           cdr_client_callerid_name = client, cdr_client_callerid_number = client_number, cdr_status = status,
           cdr_hangup_disposition = disposition, cdr_public_recording_url = url, cdr_raw = cv_raw v\<rparr>)))))))))))))))))"

definition cdr_key :: "cdr_row \<Rightarrow> int \<times> int \<times> string" where
  "cdr_key r = (cdr_brand_id r, cdr_connection_id r, cdr_call_uuid r)"

text \<open>\<open>ON CONFLICT ... DO UPDATE SET\<close>.\<close>

definition merge_cdr :: "cdr_row \<Rightarrow> cdr_row \<Rightarrow> cdr_row" where
  "merge_cdr x r = x\<lparr>
     cdr_end_at := coalesce (cdr_end_at r) (cdr_end_at x),
     cdr_call_duration := coalesce (cdr_call_duration r) (cdr_call_duration x),
     cdr_status := coalesce (cdr_status r) (cdr_status x),
     cdr_bridged_agent_name := coalesce (cdr_bridged_agent_name r) (cdr_bridged_agent_name x),
     cdr_bridged_agent_extension := coalesce (cdr_bridged_agent_extension r) (cdr_bridged_agent_extension x),
     cdr_call_type := coalesce (cdr_call_type r) (cdr_call_type x),
     cdr_queue_name := coalesce (cdr_queue_name r) (cdr_queue_name x),
     cdr_bill_duration := coalesce (cdr_bill_duration r) (cdr_bill_duration x),
     cdr_cost := coalesce (cdr_cost r) (cdr_cost x),
     cdr_hangup_disposition := coalesce (cdr_hangup_disposition r) (cdr_hangup_disposition x),
     cdr_public_recording_url := coalesce (cdr_public_recording_url r) (cdr_public_recording_url x),
     cdr_raw := cdr_raw r\<rparr>"

record ingest =
  in_db :: database
  in_inserted :: nat
  in_updated :: nat

definition store_cdr :: "cdr_row \<Rightarrow> ingest \<Rightarrow> ingest" where
  "store_cdr r s =
     (let d = in_db s; new = cdr_key r \<notin> cdr_key ` set (db_cdrs d)
      in \<lparr>in_db = d\<lparr>db_cdrs := upsert cdr_key merge_cdr (r\<lparr>cdr_id := db_next_id d\<rparr>) (db_cdrs d), db_next_id := db_next_id d + 1\<rparr>,
          in_inserted = in_inserted s + (if new then 1 else 0), in_updated = in_updated s + (if new then 0 else 1)\<rparr>)"

text \<open>What a record comes to: passed by without an identity or a start, a row, or an exception.\<close>

definition usable :: "cdr_values \<Rightarrow> (string \<times> dt) option" where
  "usable v = (case cv_call_uuid v of
     None \<Rightarrow> None
   | Some u \<Rightarrow> if u = [] then None else (case cv_start_at v of None \<Rightarrow> None | Some t \<Rightarrow> Some (u, t)))"

definition row_of :: "py_text \<Rightarrow> binding \<Rightarrow> int \<Rightarrow> int \<Rightarrow> int \<Rightarrow> payload \<Rightarrow> cdr_exc + cdr_row option" where
  "row_of P B brand con tenant r =
     res_bind (python_error (normalise_cdr P r)) (\<lambda>v.
       case usable v of
         None \<Rightarrow> Inr None
       | Some (u, t) \<Rightarrow> res_bind (cdr_of B brand con tenant u t v) (\<lambda>row. Inr (Some row)))"

fun ingest_page :: "py_text \<Rightarrow> binding \<Rightarrow> int \<Rightarrow> int \<Rightarrow> int \<Rightarrow> payload list \<Rightarrow> ingest \<Rightarrow> ingest \<times> cdr_exc option" where
  "ingest_page P B brand con tenant [] s = (s, None)"
| "ingest_page P B brand con tenant (r # rs) s =
     (case row_of P B brand con tenant r of
        Inl e \<Rightarrow> (s, Some e)
      | Inr None \<Rightarrow> ingest_page P B brand con tenant rs s
      | Inr (Some row) \<Rightarrow> ingest_page P B brand con tenant rs (store_cdr row s))"

section \<open>Reading the pages\<close>

datatype auth_scheme = AUTH_NONE | BEARER | BASIC | HEADER | QUERY

definition auth_scheme_of :: "string \<Rightarrow> py_exc + auth_scheme" where
  "auth_scheme_of s =
     (case map_of [(''none'', AUTH_NONE), (''bearer'', BEARER), (''basic'', BASIC), (''header'', HEADER), (''query'', QUERY)] s of
        Some a \<Rightarrow> Inr a | None \<Rightarrow> Inl (ValueError (s @ '' is not a valid AuthScheme'')))"

record cdr_config =
  cc_base_url :: string
  cc_path :: string
  cc_auth :: auth_scheme
  cc_token :: string
  cc_username :: string
  cc_header_name :: string
  cc_page_size :: int
  cc_sort_by :: string
  cc_sort_direction :: string
  cc_response_format :: string

record cdr_request =
  cr_url :: string
  cr_form :: "(string \<times> string) list"
  cr_headers :: "(string \<times> string) list"
  cr_basic :: "(string \<times> string) option"

text \<open>The instance: what it answers to a request, a status and the decoding of its body, or the failure to reach it.\<close>

type_synonym cdr_api = "cdr_request \<Rightarrow> cdr_exc + int \<times> (py_exc + json)"

definition cdr_auth :: "cdr_config \<Rightarrow> (string \<times> string) list \<times> (string \<times> string) list \<times> (string \<times> string) option" where
  "cdr_auth c =
     (let accept = (''Accept'', ''application/json'')
      in case cc_auth c of
           HEADER \<Rightarrow> ([accept, (cc_header_name c, cc_token c)], [], None)
         | BEARER \<Rightarrow> ([accept, (''Authorization'', ''Bearer '' @ cc_token c)], [], None)
         | BASIC \<Rightarrow> ([accept], [], Some (cc_username c, cc_token c))
         | QUERY \<Rightarrow> ([accept], [(''api_key'', cc_token c)], None)
         | AUTH_NONE \<Rightarrow> ([accept], [], None))"

text \<open>A dictionary built in steps: a key that is there already keeps its place and takes the new value.\<close>

definition dict_of :: "(string \<times> 'v) list \<Rightarrow> (string \<times> 'v) list" where
  "dict_of kvs = foldl (\<lambda>d (k, v). AList.update k v d) [] kvs"

record cdr_filters =
  fi_texts :: "(string \<times> string) list"
  fi_flags :: "(string \<times> bool option) list"
  fi_bill_duration_from :: "int option"
  fi_custom :: "(string \<times> string) list"

definition no_filters :: cdr_filters where
  "no_filters = \<lparr>fi_texts = map (\<lambda>k. (k, [])) [''country'', ''direction'', ''call_type'', ''destination'', ''source'', ''extension'',
       ''did'', ''caller_id'', ''hangup_cause'', ''agent'', ''queue'', ''uniqueid''],
     fi_flags = map (\<lambda>k. (k, None)) [''successful'', ''completed'', ''transferred''], fi_bill_duration_from = None, fi_custom = []\<rparr>"

definition as_form :: "cdr_filters \<Rightarrow> (string \<times> string) list" where
  "as_form f = dict_of
    (filter (\<lambda>(k, v). v \<noteq> []) (fi_texts f)
     @ concat (map (\<lambda>(k, b). case b of None \<Rightarrow> [] | Some b \<Rightarrow> [(k, if b then ''1'' else ''0'')]) (fi_flags f))
     @ (case fi_bill_duration_from f of None \<Rightarrow> [] | Some n \<Rightarrow> [(''bill_duration_from'', show_int n)])
     @ filter (\<lambda>(k, v). v \<noteq> []) (fi_custom f))"

text \<open>\<open>strftime("%Y-%m-%d %H:%M:%S")\<close>.\<close>

definition clock_text :: "dt \<Rightarrow> string" where
  "clock_text t = take 19 (dt_str t)"

definition page_request :: "cdr_config \<Rightarrow> cdr_filters \<Rightarrow> dt \<Rightarrow> dt \<Rightarrow> nat \<Rightarrow> cdr_request" where
  "page_request c f start stop page =
     (let (headers, base, basic) = cdr_auth c
      in \<lparr>cr_url = rstrip_chars (\<lambda>x. x = CHR ''/'') (cc_base_url c) @ ''/'' @ lstrip_chars (\<lambda>x. x = CHR ''/'') (cc_path c),
          cr_form = dict_of (base @ as_form f @ [(''format'', cc_response_format c), (''page'', show_nat page),
            (''cdrs_per_page'', show_int (cc_page_size c)), (''sort_by'', cc_sort_by c), (''sort_direction'', cc_sort_direction c),
            (''from'', clock_text start), (''till'', clock_text stop)]),
          cr_headers = dict_of headers, cr_basic = basic\<rparr>)"

definition dicts :: "json list \<Rightarrow> payload list" where
  "dicts xs = concat (map (\<lambda>j. case j of JObj kvs \<Rightarrow> [kvs] | _ \<Rightarrow> []) xs)"

definition first_list :: "payload \<Rightarrow> json list option" where
  "first_list kvs = Option.bind (List.find (\<lambda>k. case jget k kvs of JArr xs \<Rightarrow> True | _ \<Rightarrow> False)
       [''data'', ''items'', ''results'', ''cdrs'', ''records''])
     (\<lambda>k. case jget k kvs of JArr xs \<Rightarrow> Some xs | _ \<Rightarrow> None)"

definition extract_records :: "json \<Rightarrow> payload list" where
  "extract_records j =
     (case j of
        JArr xs \<Rightarrow> dicts xs
      | JObj kvs \<Rightarrow> (case first_list kvs of Some xs \<Rightarrow> dicts xs
          | None \<Rightarrow> if map_of kvs ''call_uuid'' \<noteq> None then [kvs] else [])
      | _ \<Rightarrow> [])"

definition read_page :: "cdr_api \<Rightarrow> cdr_config \<Rightarrow> cdr_filters \<Rightarrow> dt \<Rightarrow> dt \<Rightarrow> nat \<Rightarrow> cdr_exc + payload list" where
  "read_page api c f start stop page =
     res_bind (api (page_request c f start stop page)) (\<lambda>(status, body).
       if status = 401 then Inl (CdrPermission ''the CDR API rejected the credentials (401)'')
       else if status = 403 then Inl (CdrPermission
         ''the CDR API returned 403; check the API key's permissions and whether this server's address is allowed'')
       else if status < 200 \<or> 300 \<le> status then Inl (CdrStatus status)
       else res_bind (python_error body) (\<lambda>j. Inr (extract_records j)))"

datatype fetch_end = Complete | PageLimit | Failed cdr_exc

text \<open>The consumer runs between two pages: each is stored before the next is asked for.\<close>

fun fetch_range :: "(nat \<Rightarrow> cdr_exc + payload list) \<Rightarrow> int \<Rightarrow> (payload list \<Rightarrow> ingest \<Rightarrow> ingest \<times> cdr_exc option) \<Rightarrow> nat \<Rightarrow> nat \<Rightarrow>
    ingest \<Rightarrow> ingest \<times> fetch_end" where
  "fetch_range read page_size store 0 page s = (s, PageLimit)"
| "fetch_range read page_size store (Suc n) page s =
     (case read page of
        Inl e \<Rightarrow> (s, Failed e)
      | Inr records \<Rightarrow>
          if records = [] then (s, Complete)
          else (case store records s of
                  (s1, Some e) \<Rightarrow> (s1, Failed e)
                | (s1, None) \<Rightarrow>
                    if int (length records) < page_size then (s1, Complete)
                    else fetch_range read page_size store n (page + 1) s1))"

definition MAX_PAGES :: nat where "MAX_PAGES = 500"

definition poll_window :: "dt option \<Rightarrow> dt \<Rightarrow> int \<Rightarrow> dt \<times> dt" where
  "poll_window cursor now overlap_minutes =
     (case cursor of None \<Rightarrow> (now - 24 * hour, now) | Some t \<Rightarrow> (t - overlap_minutes * minute, now))"

section \<open>A window that is read again\<close>

interpretation cdrs: upsert_table cdr_key merge_cdr
proof unfold_locales
  show "cdr_key (merge_cdr x r) = cdr_key x" for x r by (simp add: cdr_key_def merge_cdr_def)
  show "merge_cdr r r = r" for r by (cases r) (simp add: merge_cdr_def)
  show "merge_cdr (merge_cdr x r) r = merge_cdr x r" for x r by (cases x; cases r) (simp add: merge_cdr_def)
  show "merge_cdr (merge_cdr (merge_cdr x r) s) r = merge_cdr (merge_cdr x s) r" for x r s
    by (cases x; cases r; cases s) (simp add: merge_cdr_def)
qed

text \<open>The rows a page comes to, and the ids they are stored under.\<close>

fun page_rows :: "py_text \<Rightarrow> binding \<Rightarrow> int \<Rightarrow> int \<Rightarrow> int \<Rightarrow> payload list \<Rightarrow> cdr_row list option" where
  "page_rows P B brand con tenant [] = Some []"
| "page_rows P B brand con tenant (r # rs) =
     (case row_of P B brand con tenant r of
        Inl e \<Rightarrow> None
      | Inr None \<Rightarrow> page_rows P B brand con tenant rs
      | Inr (Some row) \<Rightarrow> map_option ((#) row) (page_rows P B brand con tenant rs))"

fun number_from :: "int \<Rightarrow> cdr_row list \<Rightarrow> cdr_row list" where
  "number_from n [] = []"
| "number_from n (r # rs) = r\<lparr>cdr_id := n\<rparr> # number_from (n + 1) rs"

lemma cdr_key_id [simp]: "cdr_key (r\<lparr>cdr_id := i\<rparr>) = cdr_key r"
  by (simp add: cdr_key_def)

lemma merge_cdr_id [simp]: "merge_cdr x (r\<lparr>cdr_id := i\<rparr>) = merge_cdr x r"
  by (simp add: merge_cdr_def)

lemma number_from_keys [simp]: "map cdr_key (number_from n rs) = map cdr_key rs"
  by (induction rs arbitrary: n) simp_all

lemma number_from_key_set [simp]: "cdr_key ` set (number_from n rs) = cdr_key ` set rs"
  by (metis number_from_keys set_map)

lemma number_from_merges: "foldl merge_cdr x (filter (\<lambda>r. cdr_key r = k) (number_from n rs)) = foldl merge_cdr x (filter (\<lambda>r. cdr_key r = k) rs)"
  by (induction rs arbitrary: n x) simp_all

lemma ingest_page_rows:
  assumes "ingest_page P B brand con tenant rs s = (s', None)"
  shows "\<exists>rows. page_rows P B brand con tenant rs = Some rows \<and>
    in_db s' = (in_db s)\<lparr>db_cdrs := upsert_all cdr_key merge_cdr (number_from (db_next_id (in_db s)) rows) (db_cdrs (in_db s)),
      db_next_id := db_next_id (in_db s) + int (length rows)\<rparr> \<and>
    in_inserted s' = in_inserted s + count_new_keys cdr_key rows (cdr_key ` set (db_cdrs (in_db s))) \<and>
    in_inserted s' + in_updated s' = in_inserted s + in_updated s + length rows"
  using assms
proof (induction rs arbitrary: s)
  case Nil
  then show ?case by (simp add: upsert_all_def)
next
  case (Cons r rs)
  show ?case
  proof (cases "row_of P B brand con tenant r")
    case (Inl e)
    then show ?thesis using Cons.prems by simp
  next
    case (Inr o1)
    show ?thesis
    proof (cases o1)
      case None
      then show ?thesis using Cons Inr by simp
    next
      case (Some row)
      let ?d = "in_db s" and ?s = "store_cdr row s"
      have "ingest_page P B brand con tenant rs ?s = (s', None)" using Cons.prems Inr Some by simp
      then obtain rows where rows: "page_rows P B brand con tenant rs = Some rows"
        and db: "in_db s' = (in_db ?s)\<lparr>db_cdrs := upsert_all cdr_key merge_cdr (number_from (db_next_id (in_db ?s)) rows) (db_cdrs (in_db ?s)),
          db_next_id := db_next_id (in_db ?s) + int (length rows)\<rparr>"
        and n: "in_inserted s' = in_inserted ?s + count_new_keys cdr_key rows (cdr_key ` set (db_cdrs (in_db ?s)))"
          "in_inserted s' + in_updated s' = in_inserted ?s + in_updated ?s + length rows"
        using Cons.IH [of ?s] by blast
      have d: "db_cdrs (in_db ?s) = upsert cdr_key merge_cdr (row\<lparr>cdr_id := db_next_id ?d\<rparr>) (db_cdrs ?d)"
        "db_next_id (in_db ?s) = db_next_id ?d + 1"
        "in_inserted ?s = in_inserted s + (if cdr_key row \<notin> cdr_key ` set (db_cdrs ?d) then 1 else 0)"
        "in_inserted ?s + in_updated ?s = in_inserted s + in_updated s + 1"
        by (simp_all add: store_cdr_def Let_def)
      have k: "cdr_key ` set (db_cdrs (in_db ?s)) = insert (cdr_key row) (cdr_key ` set (db_cdrs ?d))"
        unfolding d(1) cdrs.upsert_keys by simp
      have "in_db s' = ?d\<lparr>db_cdrs := upsert_all cdr_key merge_cdr (number_from (db_next_id ?d) (row # rows)) (db_cdrs ?d),
          db_next_id := db_next_id ?d + int (length (row # rows))\<rparr>"
        unfolding db d by (simp add: store_cdr_def Let_def upsert_all_def)
      then show ?thesis using rows n d(3,4) k Inr Some by (intro exI [of _ "row # rows"]) simp
    qed
  qed
qed

lemma ingest_page_total: "page_rows P B brand con tenant rs \<noteq> None \<Longrightarrow> snd (ingest_page P B brand con tenant rs s) = None"
  by (induction rs arbitrary: s) (auto split: sum.splits option.splits)

text \<open>C26: reading a window again. The same page ingested a second time, after whatever else left the calls as they
  were, is stored without an exception, adds no call, changes none, and counts every usable record as updated.\<close>

theorem reread_window:
  assumes "ingest_page P B brand con tenant rs s = (s1, None)" "db_cdrs (in_db s2) = db_cdrs (in_db s1)"
  shows "\<exists>s3. ingest_page P B brand con tenant rs s2 = (s3, None) \<and> db_cdrs (in_db s3) = db_cdrs (in_db s1) \<and>
    in_inserted s3 = in_inserted s2 \<and> page_rows P B brand con tenant rs \<noteq> None \<and>
    in_updated s3 = in_updated s2 + length (the (page_rows P B brand con tenant rs))"
proof -
  obtain rows where rows: "page_rows P B brand con tenant rs = Some rows"
    and db: "in_db s1 = (in_db s)\<lparr>db_cdrs := upsert_all cdr_key merge_cdr (number_from (db_next_id (in_db s)) rows) (db_cdrs (in_db s)),
      db_next_id := db_next_id (in_db s) + int (length rows)\<rparr>"
    using ingest_page_rows [OF assms(1)] by blast
  obtain s3 where s3: "ingest_page P B brand con tenant rs s2 = (s3, None)"
    using ingest_page_total [of P B brand con tenant rs s2] rows by (metis option.distinct(1) prod.collapse)
  let ?n = "number_from (db_next_id (in_db s)) rows" and ?m = "number_from (db_next_id (in_db s2)) rows"
  have t1: "db_cdrs (in_db s1) = upsert_all cdr_key merge_cdr ?n (db_cdrs (in_db s))" by (simp add: db)
  have known: "cdr_key ` set rows \<subseteq> cdr_key ` set (db_cdrs (in_db s1))" by (auto simp: t1 cdrs.upsert_all_keys)
  have "db_cdrs (in_db s3) = upsert_all cdr_key merge_cdr ?m (db_cdrs (in_db s1))"
    using ingest_page_rows [OF s3] rows assms(2) by auto
  also have "\<dots> = upsert_all cdr_key merge_cdr ?n (db_cdrs (in_db s1))"
    using known by (simp add: cdrs.upsert_all_known number_from_merges)
  also have "\<dots> = db_cdrs (in_db s1)" unfolding t1 by (rule cdrs.upsert_all_idem)
  finally have same: "db_cdrs (in_db s3) = db_cdrs (in_db s1)" .
  have "in_inserted s3 = in_inserted s2"
    using ingest_page_rows [OF s3] rows known cdrs.count_new_known assms(2) by auto
  then show ?thesis using s3 same rows ingest_page_rows [OF s3] by auto
qed

section \<open>All the pages\<close>

lemma ingest_page_append:
  "ingest_page P B brand con tenant (xs @ ys) s =
    (case ingest_page P B brand con tenant xs s of (s1, Some e) \<Rightarrow> (s1, Some e) | (s1, None) \<Rightarrow> ingest_page P B brand con tenant ys s1)"
  by (induction xs arbitrary: s) (auto split: sum.splits option.splits)

lemma page_rows_append:
  "page_rows P B brand con tenant (xs @ ys) =
    (case page_rows P B brand con tenant xs of None \<Rightarrow> None | Some a \<Rightarrow> map_option ((@) a) (page_rows P B brand con tenant ys))"
  by (induction xs) (cases "page_rows P B brand con tenant ys"; auto split: sum.splits option.splits)+

lemma page_rows_take: "page_rows P B brand con tenant rs \<noteq> None \<Longrightarrow> page_rows P B brand con tenant (take n rs) \<noteq> None"
  using page_rows_append [of P B brand con tenant "take n rs" "drop n rs"] by (auto split: option.splits)

lemma page_rows_drop: "page_rows P B brand con tenant rs \<noteq> None \<Longrightarrow> page_rows P B brand con tenant (drop n rs) \<noteq> None"
  using page_rows_append [of P B brand con tenant "take n rs" "drop n rs"] by (auto split: option.splits)

lemma fetch_range_list:
  assumes "0 < n" "page_rows P B brand con tenant rs \<noteq> None" "0 < page"
    and "\<And>k. read (page + k) = Inr (take n (drop (k * n) rs))"
  shows "fetch_range read (int n) (ingest_page P B brand con tenant) m page s =
    (fst (ingest_page P B brand con tenant (take (m * n) rs) s), if length rs < m * n then Complete else PageLimit)"
  using assms(2-4)
proof (induction m arbitrary: page rs s)
  case 0
  then show ?case by simp
next
  case (Suc m)
  have here: "read page = Inr (take n rs)" using Suc.prems(3) [of 0] by simp
  obtain s1 where s1: "ingest_page P B brand con tenant (take n rs) s = (s1, None)"
    using ingest_page_total [OF page_rows_take [OF Suc.prems(1)], of n s] by (metis prod.collapse)
  have "read (Suc page + k) = Inr (take n (drop (k * n) (drop n rs)))" for k
    using Suc.prems(3) [of "Suc k"] by (simp add: add.commute)
  from Suc.IH [OF page_rows_drop [OF Suc.prems(1)] zero_less_Suc this]
  have rest: "fetch_range read (int n) (ingest_page P B brand con tenant) m (page + 1) s1 =
    (fst (ingest_page P B brand con tenant (take (m * n) (drop n rs)) s1), if length (drop n rs) < m * n then Complete else PageLimit)"
    by simp
  have split: "take (Suc m * n) rs = take n rs @ take (m * n) (drop n rs)" by (simp add: take_add)
  show ?case
  proof (cases "length rs < n")
    case True
    then show ?thesis using here s1 by (cases "rs = []") (simp_all add: split)
  next
    case False
    then have "take n rs \<noteq> []" using assms(1) by auto
    then have step: "fetch_range read (int n) (ingest_page P B brand con tenant) (Suc m) page s =
        fetch_range read (int n) (ingest_page P B brand con tenant) m (page + 1) s1"
      using here s1 False by simp
    show ?thesis unfolding step rest split ingest_page_append s1 using False by simp (metis less_diff_conv2 not_le_imp_less nat_less_le linorder_not_less add.commute)
  qed
qed

text \<open>What a poll stores. Against an instance that answers page \<open>p\<close> with the \<open>p\<close>-th stretch of its records, reading
  all the pages comes to storing the records in one go, up to the page limit: it is complete exactly when there are
  fewer than five hundred full pages of them.\<close>

theorem poll_stores_the_window:
  assumes "0 < n" "page_rows P B brand con tenant rs \<noteq> None"
    and "\<And>k. read (k + 1) = Inr (take n (drop (k * n) rs))"
  shows "fetch_range read (int n) (ingest_page P B brand con tenant) MAX_PAGES 1 s =
    (fst (ingest_page P B brand con tenant (take (500 * n) rs) s), if length rs < 500 * n then Complete else PageLimit)"
  using fetch_range_list [OF assms(1,2) zero_less_one, of read MAX_PAGES s] assms(3) by (simp add: MAX_PAGES_def add.commute)

section \<open>What a later reading may change\<close>

text \<open>What the table already says of a call stays: who, when and from where for good, and what was known is never blanked.\<close>

definition refines_call :: "cdr_row \<Rightarrow> cdr_row \<Rightarrow> bool" where
  "refines_call x y \<longleftrightarrow> cdr_id y = cdr_id x \<and> cdr_key y = cdr_key x \<and> cdr_start_at y = cdr_start_at x \<and>
     cdr_src y = cdr_src x \<and> cdr_dst y = cdr_dst x \<and>
     (cdr_end_at x \<noteq> None \<longrightarrow> cdr_end_at y \<noteq> None) \<and> (cdr_call_duration x \<noteq> None \<longrightarrow> cdr_call_duration y \<noteq> None) \<and>
     (cdr_cost x \<noteq> None \<longrightarrow> cdr_cost y \<noteq> None) \<and> (cdr_status x \<noteq> None \<longrightarrow> cdr_status y \<noteq> None) \<and>
     (cdr_public_recording_url x \<noteq> None \<longrightarrow> cdr_public_recording_url y \<noteq> None)"

lemma refines_call_refl [simp]: "refines_call x x"
  by (simp add: refines_call_def)

lemma refines_call_trans: "refines_call x y \<Longrightarrow> refines_call y z \<Longrightarrow> refines_call x z"
  by (simp add: refines_call_def)

lemma refines_call_merge: "refines_call x (merge_cdr x r)"
  by (simp add: refines_call_def merge_cdr_def cdr_key_def coalesce_def split: option.splits)

definition calls_kept :: "database \<Rightarrow> database \<Rightarrow> bool" where
  "calls_kept d d' \<longleftrightarrow> (\<forall>x \<in> set (db_cdrs d). \<exists>y \<in> set (db_cdrs d'). refines_call x y) \<and>
     db_recordings d' = db_recordings d \<and> db_jobs d' = db_jobs d \<and> db_connections d' = db_connections d"

lemma calls_kept_refl: "calls_kept d d"
  using refines_call_refl by (auto simp only: calls_kept_def)

lemma calls_kept_trans: "calls_kept d d1 \<Longrightarrow> calls_kept d1 d2 \<Longrightarrow> calls_kept d d2"
  unfolding calls_kept_def by (metis refines_call_trans)

lemma calls_kept_store: "calls_kept (in_db s) (in_db (store_cdr row s))"
proof -
  let ?row = "row\<lparr>cdr_id := db_next_id (in_db s)\<rparr>" and ?t = "db_cdrs (in_db s)"
  have "\<exists>y \<in> set (upsert cdr_key merge_cdr ?row ?t). refines_call x y" if x: "x \<in> set ?t" for x
  proof (cases "cdr_key ?row \<in> cdr_key ` set ?t")
    case True
    then have "(if cdr_key x = cdr_key ?row then merge_cdr x ?row else x) \<in> set (upsert cdr_key merge_cdr ?row ?t)"
      using x unfolding upsert_def update_where_def by simp
    moreover have "refines_call x (if cdr_key x = cdr_key ?row then merge_cdr x ?row else x)"
      using refines_call_merge by simp
    ultimately show ?thesis by (rule bexI [rotated])
  next
    case False
    then have "x \<in> set (upsert cdr_key merge_cdr ?row ?t)" using x unfolding upsert_def by simp
    then show ?thesis using refines_call_refl by (rule bexI [rotated])
  qed
  then show ?thesis by (simp add: calls_kept_def store_cdr_def Let_def)
qed

lemma calls_kept_page: "calls_kept (in_db s) (in_db (fst (ingest_page P B brand con tenant rs s)))"
proof (induction rs arbitrary: s)
  case (Cons r rs)
  show ?case
  proof (cases "row_of P B brand con tenant r")
    case (Inr o1)
    then show ?thesis using Cons.IH calls_kept_trans [OF calls_kept_store Cons.IH] by (cases o1) simp_all
  qed (simp add: calls_kept_refl)
qed (simp add: calls_kept_refl)

lemma calls_kept_fetch:
  "calls_kept (in_db s) (in_db (fst (fetch_range read page_size (ingest_page P B brand con tenant) n page s)))"
proof (induction n arbitrary: page s)
  case (Suc n)
  show ?case
  proof (cases "read page")
    case (Inr records)
    obtain s1 e where st: "ingest_page P B brand con tenant records s = (s1, e)" by force
    have "calls_kept (in_db s) (in_db s1)" using calls_kept_page [of s P B brand con tenant records] st by simp
    then show ?thesis using Inr st calls_kept_trans [OF _ Suc.IH] by (cases e) (simp_all add: calls_kept_refl)
  qed (simp add: calls_kept_refl)
qed (simp add: calls_kept_refl)

section \<open>What the instances may send\<close>

text \<open>A call between two extensions is filed as inbound: the test for \<open>in\<close> comes before the one for \<open>internal\<close>.\<close>

lemma internal_is_inbound: "direction_of P [(''type'', JStr ''internal'')] = Some ''in''"
  by (simp add: direction_of_def jor_def jget_def jtruthy_def str_json_def) code_simp

text \<open>A number sent as a number, and a duration of infinity, end the poll of that account.\<close>

lemma numeric_caller_raises: "msisdn_of (JInt 5) = Inl (AttributeError ''object has no attribute 'split'')"
  by (simp add: msisdn_of_def jtruthy_def)

lemma infinite_duration_raises: "seconds_of P (JStr ''inf'') = Inl (OverflowError ''cannot convert float infinity to integer'')"
  by (simp add: seconds_of_def absent_def str_json_def) code_simp

section \<open>Examples\<close>

definition demo_py :: py_text where
  "demo_py = \<lparr>show_float_of = (\<lambda>f. ''1.5''), show_json_of = (\<lambda>j. [])\<rparr>"

definition demo_binding :: binding where
  "demo_binding = \<lparr>bd_text = (\<lambda>col j. case j of JStr s \<Rightarrow> Inr (Some s) | JNull \<Rightarrow> Inr None | _ \<Rightarrow> Inl ''expected str''),
     bd_int = (\<lambda>col j. case j of JInt n \<Rightarrow> Inr (Some n) | JNull \<Rightarrow> Inr None | _ \<Rightarrow> Inl ''expected int'')\<rparr>"

definition demo_call :: "string \<Rightarrow> payload" where
  "demo_call u = [(''uniqueid'', JStr u), (''call_start'', JStr ''2026-03-19 10:15:10''), (''source'', JStr ''+44 1632 960770'')]"

definition demo_ingest :: ingest where
  "demo_ingest = \<lparr>in_db = empty_db, in_inserted = 0, in_updated = 0\<rparr>"

lemma demo_rows: "page_rows demo_py demo_binding 7 3 5 [demo_call ''a'', demo_call ''b''] \<noteq> None"
  by code_simp

theorem reread_window_witness:
  "\<exists>s1 s3. ingest_page demo_py demo_binding 7 3 5 [demo_call ''a'', demo_call ''b''] demo_ingest = (s1, None) \<and>
     ingest_page demo_py demo_binding 7 3 5 [demo_call ''a'', demo_call ''b''] s1 = (s3, None) \<and> in_inserted s3 = in_inserted s1"
proof -
  obtain s1 where s1: "ingest_page demo_py demo_binding 7 3 5 [demo_call ''a'', demo_call ''b''] demo_ingest = (s1, None)"
    using ingest_page_total [OF demo_rows, of demo_ingest] by (metis prod.collapse)
  from reread_window [OF s1 refl] s1 show ?thesis by blast
qed

theorem poll_stores_the_window_witness:
  "fetch_range (\<lambda>p. Inr (take 1 (drop ((p - 1) * 1) [demo_call ''a'', demo_call ''b'']))) 1 (ingest_page demo_py demo_binding 7 3 5) MAX_PAGES 1 demo_ingest =
    (fst (ingest_page demo_py demo_binding 7 3 5 (take (500 * 1) [demo_call ''a'', demo_call ''b'']) demo_ingest), Complete)"
  using poll_stores_the_window [OF zero_less_one demo_rows, of "\<lambda>p. Inr (take 1 (drop ((p - 1) * 1) [demo_call ''a'', demo_call ''b'']))" demo_ingest]
  by simp

end
