(* ===== verification/Sms.thy ===== *)
theory Sms
  imports Cdr
begin

text \<open>
  \<open>src/c2w/commpeak/sms_client.py\<close>: reading the text messages of one TextPeak key, in both directions, and storing
  them. The service's answers, the texts of floats and nested values and the driver's view of a value are
  parameters, as for the call records.

  Lemmas: a window that is read again changes nothing, a delivery receipt is filled in and never blanked, and a
  sender that is a name has no number to be searched by.
\<close>

section \<open>Requests\<close>

datatype direction = OUT | IN

fun direction_value :: "direction \<Rightarrow> string" where
  "direction_value OUT = ''out''"
| "direction_value IN = ''in''"

record sms_config =
  sm_token :: string
  sm_base_url :: string
  sm_outgoing_path :: string
  sm_incoming_path :: string
  sm_header_name :: string
  sm_page_size :: int
  sm_stream_id :: string

definition path_for :: "sms_config \<Rightarrow> direction \<Rightarrow> string" where
  "path_for c d = (case d of OUT \<Rightarrow> sm_outgoing_path c | IN \<Rightarrow> sm_incoming_path c)"

definition sms_headers :: "sms_config \<Rightarrow> (string \<times> string) list" where
  "sms_headers c = dict_of [(sm_header_name c, sm_token c), (''Accept'', ''application/json'')]"

record sms_filters =
  sf_start :: "dt option"
  sf_end :: "dt option"
  sf_status :: "string option"
  sf_phone :: "string option"
  sf_destination :: "string option"
  sf_stream_id :: "string option"
  sf_message_type :: "string option"

definition given :: "string \<Rightarrow> string option \<Rightarrow> (string \<times> string) list" where
  "given k v = (case nonempty v of None \<Rightarrow> [] | Some s \<Rightarrow> [(k, s)])"

definition as_params :: "sms_filters \<Rightarrow> direction \<Rightarrow> (string \<times> string) list" where
  "as_params f d =
     (case sf_start f of None \<Rightarrow> [] | Some t \<Rightarrow> [(''startDate'', clock_text t)])
     @ (case sf_end f of None \<Rightarrow> [] | Some t \<Rightarrow> [(''endDate'', clock_text t)])
     @ given ''phone'' (sf_phone f) @ given ''streamId'' (sf_stream_id f)
     @ (case d of OUT \<Rightarrow> given ''status'' (sf_status f) @ given ''type'' (sf_message_type f)
        | IN \<Rightarrow> given ''destination'' (sf_destination f))"

section \<open>A message as a row\<close>

definition py_isalpha_char :: "char \<Rightarrow> bool" where
  "py_isalpha_char c \<longleftrightarrow> is_lower c \<or> is_upper c \<or> code c \<in> {170, 181, 186} \<or>
     (192 \<le> code c \<and> code c \<noteq> 215 \<and> code c \<noteq> 247)"

definition numeric_suffix :: "py_text \<Rightarrow> json \<Rightarrow> string option" where
  "numeric_suffix P v =
     (let head = before_first CHR ''@'' (str_json P (jor v (JStr [])))
      in if head = [] \<or> list_ex py_isalpha_char head then None else nonempty (Some (normalise_msisdn (Some head))))"

definition int_or_none :: "py_text \<Rightarrow> json \<Rightarrow> int option" where
  "int_or_none P v = py_int_text (py_strip (str_json P v))"

definition json_length :: "json \<Rightarrow> py_exc + int" where
  "json_length v = (case v of JStr s \<Rightarrow> Inr (int (length s)) | JArr xs \<Rightarrow> Inr (int (length xs)) | JObj kvs \<Rightarrow> Inr (int (length kvs))
     | _ \<Rightarrow> Inl (TypeError ''object has no len()''))"

definition SMS_SEGMENT_CHARS :: int where "SMS_SEGMENT_CHARS = 160"

definition segments_of :: "int option \<Rightarrow> int option" where
  "segments_of len = (case len of None \<Rightarrow> None | Some n \<Rightarrow> if n = 0 then None else Some (max 1 (- (- n div SMS_SEGMENT_CHARS))))"

definition name_of :: "py_text \<Rightarrow> json \<Rightarrow> string option" where
  "name_of P v =
     (if absent v then None
      else (case v of
              JObj kvs \<Rightarrow> map_option (\<lambda>k. str_json P (jget k kvs))
                (List.find (\<lambda>k. jtruthy (jget k kvs)) [''name'', ''alias'', ''title'', ''id''])
            | _ \<Rightarrow> Some (str_json P v)))"

record sms_values =
  sv_message_uuid :: "string option"
  sv_direction :: string
  sv_status :: json
  sv_sent_at :: "dt option"
  sv_delivered_at :: "dt option"
  sv_received_at :: "dt option"
  sv_occurred_at :: "dt option"
  sv_source_number :: json
  sv_source_name :: json
  sv_destination_number :: json
  sv_source_norm :: "string option"
  sv_destination_norm :: "string option"
  sv_country_code :: json
  sv_country_name :: json
  sv_contact_name :: json
  sv_body :: json
  sv_message_length :: "int option"
  sv_segments :: "int option"
  sv_cost :: "decimal option"
  sv_platform :: json
  sv_stream :: "string option"
  sv_campaign :: "string option"
  sv_conversation :: "string option"
  sv_external_key :: json
  sv_raw :: json

definition message_body :: "payload \<Rightarrow> json" where
  "message_body r = (case jget ''content'' r of JObj kvs \<Rightarrow> jget ''body'' kvs | _ \<Rightarrow> jget ''body'' r)"

text \<open>The columns both directions fill in the same way.\<close>

definition message_values :: "py_text \<Rightarrow> direction \<Rightarrow> payload \<Rightarrow> json \<Rightarrow> json \<Rightarrow> json \<Rightarrow> json \<Rightarrow> json \<Rightarrow>
    dt option \<Rightarrow> dt option \<Rightarrow> dt option \<Rightarrow> dt option \<Rightarrow> py_exc + sms_values" where
  "message_values P dir r source destination body status contact sent delivered received occurred =
     res_bind (case int_or_none P (jget ''message_length'' r) of
        Some n \<Rightarrow> Inr (Some n)
      | None \<Rightarrow> if body = JNull then Inr None else res_bind (json_length body) (\<lambda>n. Inr (Some n))) (\<lambda>len.
     Inr \<lparr>sv_message_uuid = nonempty (Some (py_strip (str_json P (jor (jget ''message_uuid'' r) (JStr []))))),
       sv_direction = direction_value dir, sv_status = status, sv_sent_at = sent, sv_delivered_at = delivered,
       sv_received_at = received, sv_occurred_at = occurred, sv_source_number = source,
       sv_source_name = jget ''source_name'' r, sv_destination_number = destination,
       sv_source_norm = numeric_suffix P source, sv_destination_norm = numeric_suffix P destination,
       sv_country_code = jget ''country_code'' r, sv_country_name = jget ''country_name'' r, sv_contact_name = contact,
       sv_body = body, sv_message_length = len, sv_segments = segments_of len, sv_cost = decimal_of P (jget ''cost'' r),
       sv_platform = jget ''platform'' r, sv_stream = name_of P (jget ''stream'' r),
       sv_campaign = name_of P (jget ''campaign'' r), sv_conversation = name_of P (jget ''conversation'' r),
       sv_external_key = jget ''external_key'' r, sv_raw = JObj r\<rparr>)"

definition normalise_message :: "py_text \<Rightarrow> direction \<Rightarrow> payload \<Rightarrow> py_exc + sms_values" where
  "normalise_message P dir r =
     (case dir of
        OUT \<Rightarrow>
          res_bind (parse_cdr_timestamp P (jget ''sent_at'' r)) (\<lambda>sent.
          res_bind (parse_cdr_timestamp P (jget ''delivered_at'' r)) (\<lambda>delivered.
          message_values P OUT r (jget ''source_number'' r) (jget ''destination_number'' r) (message_body r) (jget ''status'' r) JNull
            sent delivered None (or_else sent delivered)))
      | IN \<Rightarrow>
          res_bind (parse_cdr_timestamp P (jget ''received_at'' r)) (\<lambda>received.
          message_values P IN r (jor (jget ''from'' r) (jget ''source_number'' r)) (jor (jget ''to'' r) (jget ''destination_number'' r))
            (jget ''body'' r) JNull (jget ''contact_name'' r) None None received received))"

section \<open>Reading the pages\<close>

record sms_request =
  sr_url :: string
  sr_params :: "(string \<times> string) list"
  sr_headers :: "(string \<times> string) list"

type_synonym sms_api = "sms_request \<Rightarrow> cdr_exc + int \<times> (py_exc + json)"

definition sms_request_of :: "sms_config \<Rightarrow> direction \<Rightarrow> sms_filters \<Rightarrow> nat \<Rightarrow> sms_request" where
  "sms_request_of c dir f page =
     \<lparr>sr_url = rstrip_chars (\<lambda>x. x = CHR ''/'') (sm_base_url c) @ path_for c dir,
      sr_params = dict_of (as_params f dir @ [(''page'', show_nat page), (''itemsPerPage'', show_int (sm_page_size c))]),
      sr_headers = sms_headers c\<rparr>"

definition read_messages :: "sms_api \<Rightarrow> sms_config \<Rightarrow> direction \<Rightarrow> sms_filters \<Rightarrow> nat \<Rightarrow> cdr_exc + json" where
  "read_messages api c dir f page =
     res_bind (api (sms_request_of c dir f page)) (\<lambda>(status, body).
       if status < 200 \<or> 300 \<le> status then Inl (CdrStatus status) else python_error body)"

text \<open>\<open>int(total)\<close> of what the envelope says there is.\<close>

definition total_of :: "json \<Rightarrow> py_exc + int option" where
  "total_of payload =
     (case payload of
        JObj kvs \<Rightarrow>
          (case jget ''total'' kvs of
             JNull \<Rightarrow> Inr None
           | JInt n \<Rightarrow> Inr (Some n)
           | JBool b \<Rightarrow> Inr (Some (if b then 1 else 0))
           | JNum q \<Rightarrow> Inr (Some (truncate_rat q))
           | JStr s \<Rightarrow> (case py_int_text s of Some n \<Rightarrow> Inr (Some n) | None \<Rightarrow> Inl (ValueError ''invalid literal for int() with base 10''))
           | _ \<Rightarrow> Inl (TypeError ''int() argument must be a string, a bytes-like object or a real number''))
      | _ \<Rightarrow> Inr None)"

definition items_of :: "json \<Rightarrow> json list" where
  "items_of payload =
     (case (case payload of JObj kvs \<Rightarrow> jget ''items'' kvs | j \<Rightarrow> j) of JArr xs \<Rightarrow> xs | _ \<Rightarrow> [])"

fun fetch_pages :: "(nat \<Rightarrow> cdr_exc + json) \<Rightarrow> int \<Rightarrow> nat \<Rightarrow> nat \<Rightarrow> payload list \<Rightarrow> cdr_exc + payload list" where
  "fetch_pages read page_size 0 page got = Inr got"
| "fetch_pages read page_size (Suc n) page got =
     res_bind (read page) (\<lambda>payload.
       let items = items_of payload; got1 = got @ dicts items
       in if items = [] then Inr got
          else res_bind (python_error (total_of payload)) (\<lambda>total.
            if (case total of Some t \<Rightarrow> t \<le> int (length got1) | None \<Rightarrow> False) then Inr got1
            else if int (length items) < page_size then Inr got1
            else fetch_pages read page_size n (page + 1) got1))"

definition fetch_messages :: "sms_api \<Rightarrow> sms_config \<Rightarrow> direction \<Rightarrow> sms_filters \<Rightarrow> cdr_exc + payload list" where
  "fetch_messages api c dir f0 =
     (if sm_token c = [] then Inl (CdrPy (ValueError ''no TextPeak API key configured''))
      else (let f = (if nonempty (sf_stream_id f0) = None \<and> sm_stream_id c \<noteq> [] then f0\<lparr>sf_stream_id := Some (sm_stream_id c)\<rparr> else f0)
            in fetch_pages (read_messages api c dir f) (sm_page_size c) MAX_PAGES 1 []))"
section \<open>Storing\<close>

record sms_row =
  sms_id :: int
  sms_brand_id :: int
  sms_connection_id :: "int option"
  sms_message_uuid :: string
  sms_direction :: string
  sms_status :: "string option"
  sms_sent_at :: "dt option"
  sms_delivered_at :: "dt option"
  sms_received_at :: "dt option"
  sms_occurred_at :: dt
  sms_source_number :: "string option"
  sms_source_name :: "string option"
  sms_destination_number :: "string option"
  sms_source_norm :: "string option"
  sms_destination_norm :: "string option"
  sms_country_code :: "string option"
  sms_country_name :: "string option"
  sms_contact_name :: "string option"
  sms_body :: "string option"
  sms_message_length :: "int option"
  sms_segments :: "int option"
  sms_cost :: "decimal option"
  sms_platform :: "string option"
  sms_stream :: "string option"
  sms_campaign :: "string option"
  sms_conversation :: "string option"
  sms_external_key :: "string option"
  sms_raw :: json

definition sms_of :: "binding \<Rightarrow> int \<Rightarrow> int option \<Rightarrow> string \<Rightarrow> dt \<Rightarrow> sms_values \<Rightarrow> cdr_exc + sms_row" where
  "sms_of B brand con uuid occurred v = database_error
     (res_bind (bd_text B ''status'' (sv_status v)) (\<lambda>status.
      res_bind (bd_text B ''source_number'' (sv_source_number v)) (\<lambda>source.
      res_bind (bd_text B ''source_name'' (sv_source_name v)) (\<lambda>source_name.
      res_bind (bd_text B ''destination_number'' (sv_destination_number v)) (\<lambda>destination.
      res_bind (bd_text B ''country_code'' (sv_country_code v)) (\<lambda>country_code.
      res_bind (bd_text B ''country_name'' (sv_country_name v)) (\<lambda>country_name.
      res_bind (bd_text B ''contact_name'' (sv_contact_name v)) (\<lambda>contact.
      res_bind (bd_text B ''body'' (sv_body v)) (\<lambda>body.
      res_bind (bd_text B ''platform'' (sv_platform v)) (\<lambda>platform.
      res_bind (bd_text B ''external_key'' (sv_external_key v)) (\<lambda>external_key.
      Inr \<lparr>sms_id = 0, sms_brand_id = brand, sms_connection_id = con, sms_message_uuid = uuid, sms_direction = sv_direction v,
           sms_status = status, sms_sent_at = sv_sent_at v, sms_delivered_at = sv_delivered_at v,
           sms_received_at = sv_received_at v, sms_occurred_at = occurred, sms_source_number = source,
           sms_source_name = source_name, sms_destination_number = destination, sms_source_norm = sv_source_norm v,
           sms_destination_norm = sv_destination_norm v, sms_country_code = country_code, sms_country_name = country_name,
           sms_contact_name = contact, sms_body = body, sms_message_length = sv_message_length v, sms_segments = sv_segments v,
           sms_cost = sv_cost v, sms_platform = platform, sms_stream = sv_stream v, sms_campaign = sv_campaign v,
           sms_conversation = sv_conversation v, sms_external_key = external_key, sms_raw = sv_raw v\<rparr>)))))))))))"

definition sms_key :: "sms_row \<Rightarrow> int \<times> string" where
  "sms_key r = (sms_brand_id r, sms_message_uuid r)"

definition merge_sms :: "sms_row \<Rightarrow> sms_row \<Rightarrow> sms_row" where
  "merge_sms x r = x\<lparr>sms_status := coalesce (sms_status r) (sms_status x),
     sms_delivered_at := coalesce (sms_delivered_at r) (sms_delivered_at x),
     sms_cost := coalesce (sms_cost r) (sms_cost x), sms_raw := sms_raw r\<rparr>"

text \<open>The table, the sequence of its ids, and the two counters.\<close>

record sms_store =
  ss_rows :: "sms_row list"
  ss_next :: int
  ss_inserted :: nat
  ss_updated :: nat

definition store_sms :: "sms_row \<Rightarrow> sms_store \<Rightarrow> sms_store" where
  "store_sms r s =
     (let new = sms_key r \<notin> sms_key ` set (ss_rows s)
      in s\<lparr>ss_rows := upsert sms_key merge_sms (r\<lparr>sms_id := ss_next s\<rparr>) (ss_rows s), ss_next := ss_next s + 1,
           ss_inserted := ss_inserted s + (if new then 1 else 0), ss_updated := ss_updated s + (if new then 0 else 1)\<rparr>)"

fun store_messages :: "binding \<Rightarrow> int \<Rightarrow> int option \<Rightarrow> sms_values list \<Rightarrow> sms_store \<Rightarrow> cdr_exc + sms_store" where
  "store_messages B brand con [] s = Inr s"
| "store_messages B brand con (v # vs) s =
     (case (nonempty (sv_message_uuid v), sv_occurred_at v) of
        (Some u, Some t) \<Rightarrow> res_bind (sms_of B brand con u t v) (\<lambda>r. store_messages B brand con vs (store_sms r s))
      | _ \<Rightarrow> store_messages B brand con vs s)"

definition sms_window :: "dt option \<Rightarrow> dt \<Rightarrow> int \<Rightarrow> dt \<times> dt" where
  "sms_window cursor now overlap_hours =
     (case cursor of None \<Rightarrow> (now - 7 * day, now) | Some t \<Rightarrow> (t - overlap_hours * hour, now))"

section \<open>A window that is read again\<close>

interpretation messages: upsert_table sms_key merge_sms
proof unfold_locales
  show "sms_key (merge_sms x r) = sms_key x" for x r by (simp add: sms_key_def merge_sms_def)
  show "merge_sms r r = r" for r by (cases r) (simp add: merge_sms_def)
  show "merge_sms (merge_sms x r) r = merge_sms x r" for x r by (cases x; cases r) (simp add: merge_sms_def)
  show "merge_sms (merge_sms (merge_sms x r) s) r = merge_sms (merge_sms x s) r" for x r s
    by (cases x; cases r; cases s) (simp add: merge_sms_def)
qed

fun message_rows :: "binding \<Rightarrow> int \<Rightarrow> int option \<Rightarrow> sms_values list \<Rightarrow> cdr_exc + sms_row list" where
  "message_rows B brand con [] = Inr []"
| "message_rows B brand con (v # vs) =
     (case (nonempty (sv_message_uuid v), sv_occurred_at v) of
        (Some u, Some t) \<Rightarrow> res_bind (sms_of B brand con u t v) (\<lambda>r. res_bind (message_rows B brand con vs) (\<lambda>rs. Inr (r # rs)))
      | _ \<Rightarrow> message_rows B brand con vs)"

fun sms_number_from :: "int \<Rightarrow> sms_row list \<Rightarrow> sms_row list" where
  "sms_number_from n [] = []"
| "sms_number_from n (r # rs) = r\<lparr>sms_id := n\<rparr> # sms_number_from (n + 1) rs"

lemma sms_key_id [simp]: "sms_key (r\<lparr>sms_id := i\<rparr>) = sms_key r"
  by (simp add: sms_key_def)

lemma merge_sms_id [simp]: "merge_sms x (r\<lparr>sms_id := i\<rparr>) = merge_sms x r"
  by (simp add: merge_sms_def)

lemma sms_number_from_keys [simp]: "sms_key ` set (sms_number_from n rs) = sms_key ` set rs"
  by (induction rs arbitrary: n) auto

lemma sms_number_from_merges:
  "foldl merge_sms x (filter (\<lambda>r. sms_key r = k) (sms_number_from n rs)) = foldl merge_sms x (filter (\<lambda>r. sms_key r = k) rs)"
  by (induction rs arbitrary: n x) simp_all

text \<open>Storing the messages of a window comes to one pass of their rows over the table.\<close>

lemma store_messages_rows:
  "case message_rows B brand con vs of
     Inl e \<Rightarrow> store_messages B brand con vs s = Inl e
   | Inr rows \<Rightarrow> (\<exists>s'. store_messages B brand con vs s = Inr s' \<and>
       ss_rows s' = upsert_all sms_key merge_sms (sms_number_from (ss_next s) rows) (ss_rows s) \<and>
       ss_inserted s' = ss_inserted s + count_new_keys sms_key rows (sms_key ` set (ss_rows s)) \<and>
       ss_inserted s' + ss_updated s' = ss_inserted s + ss_updated s + length rows)"
proof (induction vs arbitrary: s)
  case Nil
  show ?case by (simp add: upsert_all_def)
next
  case (Cons v vs)
  show ?case
  proof (cases "nonempty (sv_message_uuid v) = None \<or> sv_occurred_at v = None")
    case True
    then have eqs: "store_messages B brand con (v # vs) s = store_messages B brand con vs s"
      "message_rows B brand con (v # vs) = message_rows B brand con vs"
      by (auto split: option.splits)
    show ?thesis unfolding eqs by (rule Cons.IH)
  next
    case False
    then obtain u t where ut: "nonempty (sv_message_uuid v) = Some u" "sv_occurred_at v = Some t" by auto
    show ?thesis
    proof (cases "sms_of B brand con u t v")
      case (Inl e)
      then show ?thesis using ut by simp
    next
      case (Inr r)
      have k: "sms_key ` set (upsert sms_key merge_sms (r\<lparr>sms_id := i\<rparr>) rows) = insert (sms_key r) (sms_key ` set rows)" for i rows
        by (simp add: messages.upsert_keys)
      show ?thesis using ut Inr Cons.IH [of "store_sms r s"]
        by (cases "message_rows B brand con vs") (auto simp: store_sms_def Let_def k upsert_all_def)
    qed
  qed
qed

text \<open>Delivery receipts arrive late, so a window of messages is read again. Stored a second time, after whatever
  else left the table as it was, the same messages raise nothing, add nothing and change nothing.\<close>

theorem messages_again:
  assumes "store_messages B brand con vs s = Inr s1" "ss_rows s2 = ss_rows s1"
  shows "\<exists>s3. store_messages B brand con vs s2 = Inr s3 \<and> ss_rows s3 = ss_rows s1 \<and> ss_inserted s3 = ss_inserted s2"
proof -
  obtain rows where rows: "message_rows B brand con vs = Inr rows"
    and s1: "ss_rows s1 = upsert_all sms_key merge_sms (sms_number_from (ss_next s) rows) (ss_rows s)"
    using store_messages_rows [of B brand con vs s] assms(1) by (auto split: sum.splits)
  obtain s3 where s3: "store_messages B brand con vs s2 = Inr s3"
    "ss_rows s3 = upsert_all sms_key merge_sms (sms_number_from (ss_next s2) rows) (ss_rows s1)"
    "ss_inserted s3 = ss_inserted s2 + count_new_keys sms_key rows (sms_key ` set (ss_rows s1))"
    using store_messages_rows [of B brand con vs s2] rows assms(2) by auto
  have known: "sms_key ` set rows \<subseteq> sms_key ` set (ss_rows s1)" by (auto simp: s1 messages.upsert_all_keys)
  have "ss_rows s3 = upsert_all sms_key merge_sms (sms_number_from (ss_next s) rows) (ss_rows s1)"
    using known by (simp add: s3(2) messages.upsert_all_known sms_number_from_merges)
  also have "\<dots> = ss_rows s1" unfolding s1 by (rule messages.upsert_all_idem)
  finally show ?thesis using s3(1,3) messages.count_new_known [OF known] by simp
qed

section \<open>Messages\<close>

text \<open>A sender that is a name has no number to be searched by; a message has as many parts as its text fills.\<close>

lemma name_has_no_number:
  "list_ex py_isalpha_char (before_first CHR ''@'' s) \<Longrightarrow> numeric_suffix P (JStr s) = None"
  by (simp add: numeric_suffix_def jor_def jtruthy_def str_json_def Let_def before_first_def split: if_splits)

lemma segments_cover:
  assumes "0 < n" "segments_of (Some n) = Some k"
  shows "(k - 1) * 160 < n \<and> n \<le> k * 160"
proof -
  have "k = max 1 (- (- n div 160))" using assms by (simp add: segments_of_def SMS_SEGMENT_CHARS_def)
  then show ?thesis using assms(1) by (auto simp: max_def)
qed

text \<open>A receipt that is read later is filled in, and reading an older answer again does not take it back.\<close>

lemma receipt_stays:
  "sms_delivered_at x \<noteq> None \<Longrightarrow> sms_delivered_at (merge_sms x r) \<noteq> None"
  "sms_delivered_at r \<noteq> None \<Longrightarrow> sms_delivered_at (merge_sms x r) = sms_delivered_at r"
  by (auto simp: merge_sms_def coalesce_def split: option.splits)

text \<open>The last page the limit allows ends the reading like any other, with nothing to tell it by.\<close>

lemma page_limit_is_silent: "fetch_pages read page_size 0 page got = Inr got"
  by simp

section \<open>Examples\<close>

definition demo_message :: payload where
  "demo_message = [(''message_uuid'', JStr ''m1''), (''sent_at'', JStr ''2026-03-19 10:15:10''), (''source_number'', JStr ''Go4Rex''),
     (''content'', JObj [(''body'', JStr ''Hello'')])]"

definition demo_store :: sms_store where
  "demo_store = \<lparr>ss_rows = [], ss_next = 1, ss_inserted = 0, ss_updated = 0\<rparr>"

theorem messages_again_witness:
  "\<exists>v s1 s3. normalise_message demo_py OUT demo_message = Inr v \<and> store_messages demo_binding 7 (Some 3) [v] demo_store = Inr s1 \<and>
     store_messages demo_binding 7 (Some 3) [v] s1 = Inr s3 \<and> ss_rows s3 = ss_rows s1 \<and> ss_inserted s1 = 1"
proof -
  have "case normalise_message demo_py OUT demo_message of Inl e \<Rightarrow> False
      | Inr v \<Rightarrow> (case store_messages demo_binding 7 (Some 3) [v] demo_store of Inl e \<Rightarrow> False | Inr s1 \<Rightarrow> ss_inserted s1 = 1)"
    by code_simp
  then have "\<exists>v s1. normalise_message demo_py OUT demo_message = Inr v \<and> store_messages demo_binding 7 (Some 3) [v] demo_store = Inr s1 \<and> ss_inserted s1 = 1"
    by (auto split: sum.splits)
  then obtain v s1 where v: "normalise_message demo_py OUT demo_message = Inr v"
    "store_messages demo_binding 7 (Some 3) [v] demo_store = Inr s1" "ss_inserted s1 = 1" by blast
  from messages_again [OF v(2) refl] v show ?thesis by blast
qed

end
