(* ===== verification/Polling.thy ===== *)
theory Polling
  imports Scheduler Sms
begin

text \<open>
  The polls of \<open>src/c2w/workers/scheduler.py\<close>: the call records of every account, and the text messages of every
  organisation, each with its cursor. The two services, the settings, the sealed keys and the clock are
  parameters.

  Lemmas: when a cursor moves, that no window is skipped, and what stops the poll of one from stopping the others.
\<close>

section \<open>Call records\<close>

record poll_env =
  pe_int :: "string \<Rightarrow> int option \<Rightarrow> py_exc + int"
  pe_bool :: "string \<Rightarrow> int option \<Rightarrow> py_exc + bool"
  pe_str :: "string \<Rightarrow> int option \<Rightarrow> py_exc + string"
  pe_secret :: "string \<Rightarrow> int option \<Rightarrow> py_exc + string"
  pe_row :: "int \<Rightarrow> connection_row"
  pe_brands :: "int \<Rightarrow> brand_keys option"
  pe_unseal :: unsealer
  pe_text :: py_text
  pe_binding :: binding
  pe_cdr_api :: cdr_api
  pe_sms_api :: sms_api

text \<open>A key that cannot be unsealed is logged and counts as none.\<close>

definition open_cdr_key :: "poll_env \<Rightarrow> connection \<Rightarrow> py_exc + string" where
  "open_cdr_key E c =
     (if nonempty (cn_cdr_api_key_sealed (pe_row E (con_id c))) \<noteq> None
      then (case open_cdr_api_key (pe_unseal E) (pe_brands E) (pe_row E (con_id c)) of Inl _ \<Rightarrow> Inr [] | Inr k \<Rightarrow> Inr k)
      else pe_secret E ''commpeak.cdr_api_token'' (Some (con_brand_id c)))"

definition text_or :: "string \<Rightarrow> string \<Rightarrow> string" where
  "text_or a b = (if a = [] then b else a)"

definition number_or :: "int \<Rightarrow> int \<Rightarrow> int" where
  "number_or a b = (if a = 0 then b else a)"

text \<open>The readings before the first request; what they raise is not caught.\<close>

definition cdr_plan :: "poll_env \<Rightarrow> dt \<Rightarrow> connection \<Rightarrow> string \<Rightarrow> py_exc + cdr_config \<times> dt \<times> dt" where
  "cdr_plan E now c token =
     (let b = Some (con_brand_id c) in
      res_bind (pe_int E ''commpeak.cdr_overlap_minutes'' b) (\<lambda>overlap.
      res_bind (pe_int E ''commpeak.cdr_page_size'' b) (\<lambda>page_size.
      res_bind (pe_str E ''commpeak.cdr_auth_scheme'' b) (\<lambda>mode.
      res_bind (pe_str E ''commpeak.cdr_api_path'' b) (\<lambda>path.
      res_bind (auth_scheme_of (text_or mode ''header'')) (\<lambda>scheme.
        let (start, stop) = poll_window (con_last_cdr_cursor c) now (max overlap 1)
        in Inr (\<lparr>cc_base_url = (case con_cdr_api_base c of Some s \<Rightarrow> s | None \<Rightarrow> []), cc_path = text_or path ''/api/cdrs'',
             cc_auth = scheme, cc_token = token, cc_username = (case con_cdr_api_user c of Some s \<Rightarrow> s | None \<Rightarrow> []),
             cc_header_name = ''X-API-KEY'', cc_page_size = number_or page_size 500, cc_sort_by = ''call_start'',
             cc_sort_direction = ''desc'', cc_response_format = ''json''\<rparr>, start, stop)))))))"

definition start_ingest :: "database \<Rightarrow> ingest" where
  "start_ingest d = \<lparr>in_db = d, in_inserted = 0, in_updated = 0\<rparr>"

definition read_account :: "poll_env \<Rightarrow> cdr_config \<Rightarrow> dt \<Rightarrow> dt \<Rightarrow> connection \<Rightarrow> database \<Rightarrow> ingest \<times> fetch_end" where
  "read_account E cfg start stop c d =
     fetch_range (read_page (pe_cdr_api E) cfg no_filters start stop) (cc_page_size cfg)
       (ingest_page (pe_text E) (pe_binding E) (con_brand_id c) (con_id c) (con_tenant_id c)) MAX_PAGES 1 (start_ingest d)"

text \<open>A failure leaves the session as it is: what was stored before it is committed, but for the database's own
  refusal, which undoes the transaction. The cursor moves after a reading that did not fail.\<close>

datatype poll_outcome = Skipped | Polled nat nat | PollFailed cdr_exc | NotPolled py_exc

definition poll_account :: "poll_env \<Rightarrow> dt \<Rightarrow> int \<Rightarrow> database \<Rightarrow> database \<times> poll_outcome" where
  "poll_account E now i d =
     (case find_row (\<lambda>c. con_id c = i) (db_connections d) of
        None \<Rightarrow> (d, NotPolled (LookupError ''No row was found when one was required''))
      | Some c \<Rightarrow>
          if nonempty (con_cdr_api_base c) = None then (d, Skipped)
          else (case open_cdr_key E c of
             Inl e \<Rightarrow> (d, NotPolled e)
           | Inr token \<Rightarrow>
               if token = [] then (d, Skipped)
               else (case cdr_plan E now c token of
                  Inl e \<Rightarrow> (d, NotPolled e)
                | Inr (cfg, start, stop) \<Rightarrow>
                    (case read_account E cfg start stop c d of
                       (s, Failed (CdrDatabase m)) \<Rightarrow> (d, PollFailed (CdrDatabase m))
                     | (s, Failed e) \<Rightarrow> (in_db s, PollFailed e)
                     | (s, _) \<Rightarrow> (update_connection i (\<lambda>x. x\<lparr>con_last_cdr_cursor := Some stop\<rparr>) (in_db s),
                                  Polled (in_inserted s) (in_updated s))))))"

text \<open>The accounts by name; an exception of the plan ends the pass.\<close>

fun poll_each :: "(int \<Rightarrow> database \<Rightarrow> database \<times> poll_outcome) \<Rightarrow> int list \<Rightarrow> database \<Rightarrow> database \<times> (int \<times> poll_outcome) list" where
  "poll_each poll [] d = (d, [])"
| "poll_each poll (i # is) d =
     (case poll i d of
        (d1, NotPolled e) \<Rightarrow> (d1, [(i, NotPolled e)])
      | (d1, out) \<Rightarrow> (case poll_each poll is d1 of (d2, outs) \<Rightarrow> (d2, (i, out) # outs)))"

definition poll_call_records :: "poll_env \<Rightarrow> dt \<Rightarrow> database \<Rightarrow> database \<times> (int \<times> poll_outcome) list" where
  "poll_call_records E now d =
     poll_each (poll_account E now) (map con_id (sort_key (\<lambda>c. map code (con_name c)) (filter con_is_enabled (db_connections d)))) d"

section \<open>Text messages\<close>

record sms_brand =
  sb_id :: int
  sb_active :: bool

definition sms_config_of :: "poll_env \<Rightarrow> int \<Rightarrow> string \<Rightarrow> py_exc + sms_config" where
  "sms_config_of E b token =
     (res_bind (pe_str E ''sms.api_base'' (Some b)) (\<lambda>base.
      res_bind (pe_str E ''sms.api_path'' (Some b)) (\<lambda>out_path.
      res_bind (pe_str E ''sms.incoming_path'' (Some b)) (\<lambda>in_path.
      res_bind (pe_str E ''sms.stream_id'' (Some b)) (\<lambda>stream.
      res_bind (pe_int E ''sms.page_size'' (Some b)) (\<lambda>page_size.
      Inr \<lparr>sm_token = token, sm_base_url = base, sm_outgoing_path = out_path, sm_incoming_path = in_path,
           sm_header_name = ''Authorization'', sm_page_size = page_size, sm_stream_id = stream\<rparr>))))))"

definition window_filters :: "dt \<Rightarrow> dt \<Rightarrow> sms_filters" where
  "window_filters start stop = \<lparr>sf_start = Some start, sf_end = Some stop, sf_status = None, sf_phone = None,
     sf_destination = None, sf_stream_id = None, sf_message_type = None\<rparr>"

definition fetch_both :: "poll_env \<Rightarrow> sms_config \<Rightarrow> dt \<Rightarrow> dt \<Rightarrow> cdr_exc + sms_values list" where
  "fetch_both E cfg start stop =
     (let one = (\<lambda>dir. res_bind (fetch_messages (pe_sms_api E) cfg dir (window_filters start stop)) (\<lambda>items.
           map_res (\<lambda>r. python_error (normalise_message (pe_text E) dir r)) items))
      in res_bind (one OUT) (\<lambda>sent. res_bind (one IN) (\<lambda>received. Inr (sent @ received))))"

datatype sms_outcome = SmsSkipped | SmsPolled nat | SmsFailed cdr_exc | SmsRaised cdr_exc

text \<open>The organisation's first account holds the cursor.\<close>

definition sms_account :: "int \<Rightarrow> database \<Rightarrow> connection option" where
  "sms_account b d = (case sort_key con_id (filter (\<lambda>c. con_brand_id c = b) (db_connections d)) of [] \<Rightarrow> None | c # _ \<Rightarrow> Some c)"

definition poll_messages :: "poll_env \<Rightarrow> dt \<Rightarrow> int \<Rightarrow> database \<times> sms_store \<Rightarrow> (database \<times> sms_store) \<times> sms_outcome" where
  "poll_messages E now b s =
     (let (d, t) = s; raised = (\<lambda>e. (s, SmsRaised (CdrPy e)))
      in case pe_bool E ''sms.enabled'' (Some b) of
        Inl e \<Rightarrow> raised e
      | Inr False \<Rightarrow> (s, SmsSkipped)
      | Inr True \<Rightarrow>
          (case pe_secret E ''sms.api_token'' (Some b) of
             Inl e \<Rightarrow> raised e
           | Inr token \<Rightarrow>
               if token = [] then (s, SmsSkipped)
               else (case res_bind (sms_config_of E b token) (\<lambda>cfg. res_bind (pe_int E ''sms.overlap_hours'' (Some b)) (\<lambda>o1. Inr (cfg, o1))) of
                  Inl e \<Rightarrow> raised e
                | Inr (cfg, overlap) \<Rightarrow>
                    (case sms_account b d of
                       None \<Rightarrow> (s, SmsSkipped)
                     | Some c \<Rightarrow>
                         (let (start, stop) = sms_window (con_last_sms_cursor c) now overlap
                          in case fetch_both E cfg start stop of
                               Inl e \<Rightarrow> (s, SmsFailed e)
                             | Inr rows \<Rightarrow>
                                 (case store_messages (pe_binding E) b (Some (con_id c)) rows t of
                                    Inl e \<Rightarrow> (s, SmsRaised e)
                                  | Inr t1 \<Rightarrow>
                                      ((update_connection (con_id c) (\<lambda>x. x\<lparr>con_last_sms_cursor := Some stop\<rparr>) d, t1),
                                       SmsPolled (length rows))))))))"

fun poll_brands :: "poll_env \<Rightarrow> dt \<Rightarrow> int list \<Rightarrow> database \<times> sms_store \<Rightarrow> (database \<times> sms_store) \<times> (int \<times> sms_outcome) list" where
  "poll_brands E now [] s = (s, [])"
| "poll_brands E now (b # bs) s =
     (case poll_messages E now b s of
        (s1, SmsRaised e) \<Rightarrow> (s1, [(b, SmsRaised e)])
      | (s1, out) \<Rightarrow> (case poll_brands E now bs s1 of (s2, outs) \<Rightarrow> (s2, (b, out) # outs)))"

definition poll_text_messages :: "poll_env \<Rightarrow> dt \<Rightarrow> sms_brand list \<Rightarrow> database \<times> sms_store \<Rightarrow>
    (database \<times> sms_store) \<times> (int \<times> sms_outcome) list" where
  "poll_text_messages E now brands s = poll_brands E now (map sb_id (filter sb_active brands)) s"

section \<open>When a cursor moves\<close>

lemma keeps_connection_id [simp]: "con_id (x\<lparr>con_last_cdr_cursor := v\<rparr>) = con_id x"
  by simp

lemma connections_of_poll:
  assumes "read_account E cfg start stop c d = (s, e)"
  shows "calls_kept d (in_db s)"
  using calls_kept_fetch [of "start_ingest d" _ _ _ _ _ _ _ MAX_PAGES 1] assms
  unfolding read_account_def start_ingest_def by (metis fst_conv ingest.select_convs(1))

lemma moved_cursor:
  assumes found: "find_row (\<lambda>c. con_id c = i) (db_connections d) = Some c"
    and kept: "calls_kept d d1"
  shows "find_row (\<lambda>c. con_id c = i) (db_connections (update_connection i (\<lambda>x. x\<lparr>con_last_cdr_cursor := Some t\<rparr>) d1)) =
    Some (c\<lparr>con_last_cdr_cursor := Some t\<rparr>)"
proof -
  let ?f = "\<lambda>x :: connection. if con_id x = i then x\<lparr>con_last_cdr_cursor := Some t\<rparr> else x"
  have same: "db_connections d1 = db_connections d" using kept by (simp add: calls_kept_def)
  have "con_id c = i" using found by (auto simp: find_row_def find_Some_iff)
  moreover have "find_row (\<lambda>c. con_id c = i) (map ?f (db_connections d)) = map_option ?f (find_row (\<lambda>c. con_id c = i) (db_connections d))"
    by (rule find_row_map) simp
  ultimately show ?thesis using found same by (simp add: update_connection_def update_where_def)
qed

lemma calls_kept_moved:
  assumes "calls_kept d d1"
  shows "\<forall>x \<in> set (db_cdrs d). \<exists>y \<in> set (db_cdrs (update_connection i f d1)). refines_call x y"
    and "db_recordings (update_connection i f d1) = db_recordings d"
    and "db_jobs (update_connection i f d1) = db_jobs d"
  using assms by (simp_all add: calls_kept_def update_connection_def)

text \<open>What an account's poll did, by its outcome: nothing, the calls of it stored, or the calls and the cursor.\<close>

lemma poll_account_cases:
  assumes "poll_account E now i d = (d', out)" and "find_row (\<lambda>c. con_id c = i) (db_connections d) = Some c"
  shows "(\<exists>n m d1. out = Polled n m \<and> calls_kept d d1 \<and> d' = update_connection i (\<lambda>x. x\<lparr>con_last_cdr_cursor := Some now\<rparr>) d1) \<or>
    ((\<forall>n m. out \<noteq> Polled n m) \<and> calls_kept d d')"
proof (cases "nonempty (con_cdr_api_base c) = None")
  case True
  then show ?thesis using assms by (auto simp: poll_account_def calls_kept_refl)
next
  case base: False
  show ?thesis
  proof (cases "open_cdr_key E c")
    case (Inl e)
    then show ?thesis using assms base by (auto simp: poll_account_def calls_kept_refl)
  next
    case token: (Inr token)
    show ?thesis
    proof (cases "token = []")
      case True
      then show ?thesis using assms base token by (auto simp: poll_account_def calls_kept_refl)
    next
      case named: False
      show ?thesis
      proof (cases "cdr_plan E now c token")
        case (Inl e)
        then show ?thesis using assms base token named by (auto simp: poll_account_def calls_kept_refl)
      next
        case plan: (Inr p)
        obtain cfg start stop where p: "p = (cfg, start, stop)" by (cases p) auto
        have stop: "stop = now"
          using plan p by (auto simp: cdr_plan_def res_bind_Inr_iff Let_def poll_window_def split: option.splits)
        obtain s e where run: "read_account E cfg start stop c d = (s, e)" by force
        have kept: "calls_kept d (in_db s)" by (rule connections_of_poll [OF run])
        have "poll_account E now i d = (case (s, e) of
             (s, Failed (CdrDatabase m)) \<Rightarrow> (d, PollFailed (CdrDatabase m))
           | (s, Failed e) \<Rightarrow> (in_db s, PollFailed e)
           | (s, _) \<Rightarrow> (update_connection i (\<lambda>x. x\<lparr>con_last_cdr_cursor := Some stop\<rparr>) (in_db s), Polled (in_inserted s) (in_updated s)))"
          unfolding poll_account_def using assms(2) base token named plan p run by (simp only: option.case sum.case prod.case if_False)
        then show ?thesis using assms(1) kept stop
          by (auto simp: calls_kept_refl split: fetch_end.splits cdr_exc.splits)
      qed
    qed
  qed
qed

lemma plan_from_cursor:
  assumes "cdr_plan E now c token = Inr (cfg, start, stop)" and "con_last_cdr_cursor c = Some t"
  shows "start \<le> t - minute" and "stop = now"
proof -
  have "start = t - max overlap 1 * minute \<and> stop = now" if "pe_int E ''commpeak.cdr_overlap_minutes'' (Some (con_brand_id c)) = Inr overlap" for overlap
    using assms that by (auto simp: cdr_plan_def res_bind_Inr_iff Let_def poll_window_def)
  moreover obtain overlap where o: "pe_int E ''commpeak.cdr_overlap_minutes'' (Some (con_brand_id c)) = Inr overlap"
    using assms(1) by (auto simp: cdr_plan_def res_bind_Inr_iff Let_def)
  ultimately have "start = t - max overlap 1 * minute" "stop = now" by blast+
  moreover have "1 * minute \<le> max overlap 1 * minute" by (intro mult_right_mono) (simp_all add: minute_def second_def)
  ultimately show "start \<le> t - minute" "stop = now" by simp_all
qed

text \<open>C33: The poll of an account keeps every call it knew, refining it at most, and touches no recording and no job. The
  account's cursor moves exactly when the reading did not fail, and then the next poll, whatever its settings, reads from
  at least a minute before the moment this one read up to until its own: no time between two polls is outside both windows.\<close>

theorem no_window_is_skipped:
  assumes poll: "poll_account E now i d = (d', out)"
    and found: "find_row (\<lambda>c. con_id c = i) (db_connections d) = Some c"
  shows "(\<forall>x \<in> set (db_cdrs d). \<exists>y \<in> set (db_cdrs d'). refines_call x y) \<and>
    db_recordings d' = db_recordings d \<and> db_jobs d' = db_jobs d \<and>
    (\<exists>c'. find_row (\<lambda>c. con_id c = i) (db_connections d') = Some c' \<and>
      con_last_cdr_cursor c' = (case out of Polled _ _ \<Rightarrow> Some now | _ \<Rightarrow> con_last_cdr_cursor c) \<and>
      (\<forall>n m E' now' token cfg start stop. out = Polled n m \<longrightarrow> cdr_plan E' now' c' token = Inr (cfg, start, stop) \<longrightarrow>
         start \<le> now - minute \<and> stop = now'))"
  using poll_account_cases [OF poll found]
proof (elim disjE exE conjE)
  fix n m d1 assume out: "out = Polled n m" and kept: "calls_kept d d1"
    and d': "d' = update_connection i (\<lambda>x. x\<lparr>con_last_cdr_cursor := Some now\<rparr>) d1"
  let ?c = "c\<lparr>con_last_cdr_cursor := Some now\<rparr>"
  have "find_row (\<lambda>c. con_id c = i) (db_connections d') = Some ?c" unfolding d' by (rule moved_cursor [OF found kept])
  moreover have "con_last_cdr_cursor ?c = (case out of Polled _ _ \<Rightarrow> Some now | _ \<Rightarrow> con_last_cdr_cursor c)" by (simp add: out)
  moreover have "start \<le> now - minute \<and> stop = now'" if "cdr_plan E' now' ?c token = Inr (cfg, start, stop)" for E' now' token cfg start stop
    using plan_from_cursor [OF that, of now] by simp
  ultimately show ?thesis using calls_kept_moved [OF kept, of i "\<lambda>x. x\<lparr>con_last_cdr_cursor := Some now\<rparr>"] unfolding d'
    by (intro conjI exI [of _ ?c]) simp_all
next
  assume other: "\<forall>n m. out \<noteq> Polled n m" and kept: "calls_kept d d'"
  then have "find_row (\<lambda>c. con_id c = i) (db_connections d') = Some c" using found by (simp add: calls_kept_def)
  moreover have "con_last_cdr_cursor c = (case out of Polled _ _ \<Rightarrow> Some now | _ \<Rightarrow> con_last_cdr_cursor c)"
    using other by (cases out) auto
  ultimately show ?thesis using kept other unfolding calls_kept_def by (intro conjI exI [of _ c]) simp_all
qed

section \<open>One account and the others\<close>

text \<open>The failure of an account's reading is that account's; what its plan raises ends the pass.\<close>

lemma failure_is_per_account:
  assumes "poll i d = (d1, PollFailed e)"
  shows "snd (poll_each poll (i # is) d) = (i, PollFailed e) # snd (poll_each poll is d1)"
  using assms by (simp split: prod.split)

lemma plan_ends_the_pass:
  assumes "poll i d = (d1, NotPolled e)"
  shows "poll_each poll (i # is) d = (d1, [(i, NotPolled e)])"
  using assms by simp

lemma bad_scheme_ends_the_pass:
  assumes "open_cdr_key E c = Inr token" "token \<noteq> []" "nonempty (con_cdr_api_base c) \<noteq> None"
    and "find_row (\<lambda>c. con_id c = i) (db_connections d) = Some c"
    and "pe_int E ''commpeak.cdr_overlap_minutes'' (Some (con_brand_id c)) = Inr overlap"
    and "pe_int E ''commpeak.cdr_page_size'' (Some (con_brand_id c)) = Inr page_size"
    and "pe_str E ''commpeak.cdr_auth_scheme'' (Some (con_brand_id c)) = Inr mode"
    and "pe_str E ''commpeak.cdr_api_path'' (Some (con_brand_id c)) = Inr path"
    and "auth_scheme_of (text_or mode ''header'') = Inl e"
  shows "poll_each (poll_account E now) (i # is) d = (d, [(i, NotPolled e)])"
proof (rule plan_ends_the_pass)
  have "cdr_plan E now c token = Inl e" using assms by (simp add: cdr_plan_def)
  then show "poll_account E now i d = (d, NotPolled e)" using assms(1-4) by (simp add: poll_account_def)
qed

section \<open>Examples\<close>

definition demo_poll :: poll_env where
  "demo_poll = \<lparr>pe_int = (\<lambda>k b. Inr 10), pe_bool = (\<lambda>k b. Inr False),
     pe_str = (\<lambda>k b. Inr (if k = ''commpeak.cdr_api_path'' then ''/api/cdrs'' else ''header'')), pe_secret = (\<lambda>k b. Inr ''key''),
     pe_row = (\<lambda>i. \<lparr>cn_id = i, cn_brand_id = 1, cn_s3_endpoint = [], cn_s3_region = [], cn_s3_bucket = [], cn_s3_access_key_sealed = [],
       cn_s3_secret_sealed = [], cn_cdr_api_key_sealed = None\<rparr>), pe_brands = (\<lambda>i. None), pe_unseal = (\<lambda>k s a l. Inl []),
     pe_text = demo_py, pe_binding = demo_binding,
     pe_cdr_api = (\<lambda>r. Inr (200, Inr (JArr [JObj (demo_call ''a''), JObj (demo_call ''b'')]))),
     pe_sms_api = (\<lambda>r. Inl (CdrStatus 500))\<rparr>"

definition demo_accounts :: database where
  "demo_accounts = empty_db\<lparr>db_connections := [sample_connection\<lparr>con_cdr_api_base := Some ''https://x''\<rparr>]\<rparr>"

theorem no_window_is_skipped_witness:
  "\<exists>d' c' n. poll_account demo_poll 900000000 1 demo_accounts = (d', Polled n 0) \<and>
     find_row (\<lambda>c. con_id c = 1) (db_connections d') = Some c' \<and> con_last_cdr_cursor c' = Some 900000000"
proof -
  have found: "find_row (\<lambda>c. con_id c = 1) (db_connections demo_accounts) = Some (sample_connection\<lparr>con_cdr_api_base := Some ''https://x''\<rparr>)"
    by code_simp
  have "(case poll_account demo_poll 900000000 1 demo_accounts of (_, Polled n m) \<Rightarrow> m = 0 | _ \<Rightarrow> False)" by code_simp
  then obtain d' n where "poll_account demo_poll 900000000 1 demo_accounts = (d', Polled n 0)"
    by (auto split: prod.splits poll_outcome.splits)
  then show ?thesis using no_window_is_skipped [OF _ found, of demo_poll 900000000 d' "Polled n 0"] by auto
qed

end
