(* ===== verification/Transcripts.thy ===== *)
theory Transcripts
  imports Endpoints Db Regex Upsert SettingsSpec "HOL-Library.AList"
begin

text \<open>
  Transcripts: \<open>src/c2w/transcribe/base.py\<close> (what a recogniser gives back, and the masking of numbers),
  \<open>announcements.py\<close> (telling a conversation from a recording of one) and the rules and the storing of
  \<open>service.py\<close>. The tables are part of one store; seconds, confidences and shares are exact rationals. The
  recogniser, SHA-1 and the readings of the settings are parameters.

  Lemmas: no number of seven digits survives the masking; what the judgement of a call depends on; what storing
  a transcript replaces, and what going through the stored ones again takes away.
\<close>

section \<open>What a recogniser gives back\<close>

record segment =
  sg_seq :: int
  sg_start_ms :: int
  sg_end_ms :: int
  sg_text :: string
  sg_speaker :: "string option"
  sg_confidence :: "rat option"

record transcript_result =
  tr_text :: string
  tr_language :: "string option"
  tr_language_detected :: "string option"
  tr_confidence :: "rat option"
  tr_duration_seconds :: "rat option"
  tr_segments :: "segment list"
  tr_speaker_count :: "int option"
  tr_engine :: string
  tr_model :: string
  tr_engine_detail :: "(string \<times> json) list"
  tr_speech_seconds :: "rat option"

section \<open>Masking numbers\<close>

text \<open>A greedy repetition \<open>(?:...){lo,}\<close> of a pattern, at most \<open>n\<close> times: each turn of the patterns used takes
  a character, so the length of the text is enough.\<close>

fun rep_seq :: "re \<Rightarrow> nat \<Rightarrow> nat \<Rightarrow> string \<Rightarrow> string \<Rightarrow> (string \<Rightarrow> string \<Rightarrow> 'r option) \<Rightarrow> 'r option" where
  "rep_seq r lo 0 pre s k = (if lo = 0 then k pre s else None)"
| "rep_seq r lo (Suc n) pre s k =
     (case rmatch r pre s [] (\<lambda>pre' s' _. rep_seq r (lo - 1) n pre' s' k) of
        Some x \<Rightarrow> Some x
      | None \<Rightarrow> if lo = 0 then k pre s else None)"

definition is_separator :: "char \<Rightarrow> bool" where
  "is_separator c \<longleftrightarrow> c \<in> set '' -.''"

text \<open>\<open>(?<!\d)\d(?:[ \-.]?\d){6,}(?!\d)\<close> at one place: what was before it, reversed, and what is left.\<close>

definition long_digits :: "string \<Rightarrow> string \<Rightarrow> (string \<times> string) option" where
  "long_digits pre s =
     rmatch (Seq (NotBehind is_digit) (Cls is_digit)) pre s [] (\<lambda>pre1 s1 _.
       rep_seq (Seq (Opt (Cls is_separator)) (Cls is_digit)) 6 (length s1) pre1 s1 (\<lambda>pre2 s2.
         rmatch (NotAhead is_digit) pre2 s2 [] (\<lambda>pre3 s3 _. Some (pre3, s3))))"

definition mask_digits :: "nat \<Rightarrow> string \<Rightarrow> string" where
  "mask_digits keep_last m =
     (let digits = filter is_digit m
      in if length digits \<le> keep_last then m
         else replicate (length digits - keep_last) CHR ''*'' @ drop (length digits - keep_last) digits)"

text \<open>\<open>re.sub\<close> of a pattern that never matches the empty text, from left to right.\<close>

fun sub_from :: "(string \<Rightarrow> string \<Rightarrow> (string \<times> string) option) \<Rightarrow> (string \<Rightarrow> string) \<Rightarrow> nat \<Rightarrow> string \<Rightarrow> string \<Rightarrow> string" where
  "sub_from p f 0 pre s = s"
| "sub_from p f (Suc n) pre [] = []"
| "sub_from p f (Suc n) pre (c # s) =
     (case p pre (c # s) of
        Some (pre', s') \<Rightarrow> f (take (length (c # s) - length s') (c # s)) @ sub_from p f n pre' s'
      | None \<Rightarrow> c # sub_from p f n (c # pre) s)"

definition re_sub :: "(string \<Rightarrow> string \<Rightarrow> (string \<times> string) option) \<Rightarrow> (string \<Rightarrow> string) \<Rightarrow> string \<Rightarrow> string" where
  "re_sub p f s = sub_from p f (length s) [] s"

definition redact_digits :: "string \<Rightarrow> string" where
  "redact_digits = re_sub long_digits (mask_digits 2)"

section \<open>Fingerprints\<close>

text \<open>\<open>unicodedata.normalize("NFKD", ...)\<close> of lower-case Latin-1 text, without the combining marks. The fraction
  slash is written as the ASCII one and the micro sign is kept; neither is told apart by what follows.\<close>

definition unaccented :: "char \<Rightarrow> string" where
  "unaccented c =
     (let n = code c
      in if n \<in> {160, 168, 175, 180, 184} then '' ''
         else if n = 170 \<or> (224 \<le> n \<and> n \<le> 229) then ''a''
         else if n = 178 then ''2'' else if n = 179 then ''3'' else if n = 185 then ''1''
         else if n = 188 then ''1/4'' else if n = 189 then ''1/2'' else if n = 190 then ''3/4''
         else if n = 231 then ''c''
         else if 232 \<le> n \<and> n \<le> 235 then ''e''
         else if 236 \<le> n \<and> n \<le> 239 then ''i''
         else if n = 241 then ''n''
         else if n = 186 \<or> (242 \<le> n \<and> n \<le> 246) then ''o''
         else if 249 \<le> n \<and> n \<le> 252 then ''u''
         else if n = 253 \<or> n = 255 then ''y''
         else [c])"

definition is_word :: "char \<Rightarrow> bool" where
  "is_word c \<longleftrightarrow> py_isalnum_char c \<or> c = CHR ''_''"

text \<open>\<open>str.split()\<close>: the words between white space.\<close>

fun split_words :: "string \<Rightarrow> string \<Rightarrow> string list" where
  "split_words w [] = (if w = [] then [] else [rev w])"
| "split_words w (c # s) =
     (if is_space c then (if w = [] then split_words [] s else rev w # split_words [] s) else split_words (c # w) s)"

definition py_split :: "string \<Rightarrow> string list" where
  "py_split s = split_words [] s"

text \<open>\<open>[^\w]+\<close>\<close>

definition not_word_run :: "string \<Rightarrow> string \<Rightarrow> (string \<times> string) option" where
  "not_word_run pre s = rmatch (Plus (\<lambda>c. \<not> is_word c)) pre s [] (\<lambda>pre' s' _. Some (pre', s'))"

definition normalise :: "string \<Rightarrow> string" where
  "normalise sentence =
     (let plain = concat (map unaccented (py_lower sentence))
      in join '' '' (py_split (re_sub not_word_run (\<lambda>_. '' '') plain)))"

definition MIN_WORDS :: nat where "MIN_WORDS = 5"

definition phrase_hash :: "(string \<Rightarrow> string) \<Rightarrow> string \<Rightarrow> string" where
  "phrase_hash sha1_hex normalised = take 16 (sha1_hex normalised)"

text \<open>The sentence's fingerprint, when it is long enough to have one.\<close>

definition phrase_key :: "(string \<Rightarrow> string) \<Rightarrow> string \<Rightarrow> string option" where
  "phrase_key sha1_hex plain = (if MIN_WORDS \<le> length (py_split plain) then Some (phrase_hash sha1_hex plain) else None)"

fun alts :: "re list \<Rightarrow> re" where
  "alts [] = Empty"
| "alts [r] = r"
| "alts (r # s # rs) = Alt r (alts (s # rs))"

definition ANNOUNCEMENT :: re where
  "ANNOUNCEMENT = alts
     [Lit ''buzon de voz'', Lit ''correo de voz'', Lit ''caixa postal'',
      seqs [Lit ''despues de'', Opt (Chr CHR ''l''), Chr CHR '' '', alts [Lit ''tono'', Lit ''senal'', Lit ''pitido'']],
      seqs [Lit ''depois do '', alts [Lit ''sinal'', Lit ''bipe'']],
      Lit ''deje su mensaje'', Lit ''grabe su mensaje'',
      seqs [Lit ''deixe '', Opt (Lit ''a ''), Lit ''sua mensagem''],
      seqs [Lit ''grave '', Opt (Lit ''a ''), Lit ''sua mensagem''],
      seqs [Lit ''el numero '', Opt (Lit ''que usted ''), alts [Lit ''marco'', Lit ''ha marcado'', Lit ''solicitado'', Lit ''que marco'']],
      seqs [Lit ''o numero '', Opt (Lit ''que voce ''), alts [Lit ''ligou'', Lit ''discou'', Lit ''chamou'', Lit ''chamado'']],
      seqs [Lit ''fuera de '', alts [Lit ''servicio'', Lit ''cobertura'']], Lit ''fuera del area'',
      seqs [Opt (Lit ''llamada ''), Lit ''sera cobrada''], Lit ''se cobrara al terminar'',
      seqs [Lit ''after the '', alts [Lit ''tone'', Lit ''beep'']],
      seqs [Lit ''leave '', alts [Chr CHR ''a'', Lit ''your''], Lit '' message''],
      seqs [Lit ''the number you have '', alts [Lit ''dialed'', Lit ''dialled'', Lit ''called'']],
      seqs [Lit ''voice'', Opt (Chr CHR '' ''), Lit ''mail''], Lit ''mailbox'']"

definition MUSIC :: re where
  "MUSIC = alts
     [seqs [Bos, Star (\<lambda>c. \<not> is_word c), Eos],
      seqs [Bos, Star (\<lambda>c. \<not> is_word c), alts [Lit ''musica'', Lit ''music'', Lit ''musique'', Lit ''instrumental''],
        Star (\<lambda>c. \<not> is_word c), Eos],
      seqs [Lit ''amara'', Opt (Chr CHR '' ''), Lit ''org''],
      seqs [Lit ''subtitulos '', alts [Lit ''realizados'', Lit ''por'']], Lit ''legendas pela'',
      Lit ''gracias por ver'', seqs [Lit ''obrigad'', Cls (\<lambda>c. c \<in> set ''oa''), Lit '' por assistir''],
      seqs [Lit ''thank'', Opt (Chr CHR ''s''), Chr CHR '' '', Opt (Lit ''you ''), Lit ''for watching''],
      Lit ''suscribete'', Lit ''subscribe'']"

section \<open>The tables\<close>

record transcript_row =
  tx_id :: int
  tx_brand_id :: int
  tx_recording_id :: int
  tx_cdr_id :: "int option"
  tx_engine :: string
  tx_model :: string
  tx_language :: "string option"
  tx_language_detected :: "string option"
  tx_confidence :: "rat option"
  tx_duration :: "int option"
  tx_text :: "string option"
  tx_redacted :: bool
  tx_diarized :: bool
  tx_speakers :: "int option"
  tx_detail :: "(string \<times> json) list"
  tx_failed_reason :: "string option"
  tx_updated_at :: dt

record segment_row =
  sr_brand_id :: int
  sr_transcript_id :: int
  sr_segment :: segment

record phrase_row =
  ph_brand_id :: int
  ph_hash :: string
  ph_sample :: string
  ph_calls :: int

record lease =
  le_brand_id :: int
  le_recording_id :: int
  le_agent_id :: int
  le_token :: string
  le_started_at :: "dt option"
  le_expires_at :: dt

record agent_row =
  ag_id :: int
  ag_name :: string
  ag_token_hash :: string
  ag_last_seen_at :: "dt option"
  ag_last_detail :: "(string \<times> string) list"
  ag_revoked_at :: "dt option"

record claim_audit =
  ca_brand_id :: int
  ca_label :: string
  ca_recordings :: "int list"

record store =
  st_db :: database
  st_destinations :: "destination_row list"
  st_transcripts :: "transcript_row list"
  st_segments :: "segment_row list"
  st_phrases :: "phrase_row list"
  st_leases :: "lease list"
  st_cursors :: "(int \<times> dt) list"
  st_agents :: "agent_row list"
  st_audit :: "claim_audit list"
  st_next_id :: int

datatype transcribe_exc =
    TxPy py_exc
  | TxDatabase string
  | TxStorage transfer_error
  | EngineUnavailable string
  | LeaseGone string

section \<open>Settings and engines\<close>

record transcribe_settings =
  tc_enabled :: bool
  tc_engine :: string
  tc_model :: string
  tc_primary_language :: string
  tc_diarize :: bool
  tc_word_timestamps :: bool
  tc_redact_numbers :: bool
  tc_only_longer_than :: int
  tc_concurrency :: int
  tc_min_speech_seconds :: int
  tc_announcement_repeats :: int

record setting_readers =
  rd_bool :: "string \<Rightarrow> int \<Rightarrow> py_exc + bool"
  rd_str :: "string \<Rightarrow> int \<Rightarrow> py_exc + string"
  rd_int :: "string \<Rightarrow> int \<Rightarrow> py_exc + int"

definition load_settings :: "setting_readers \<Rightarrow> int \<Rightarrow> py_exc + transcribe_settings" where
  "load_settings R b =
     res_bind (rd_bool R ''transcribe.enabled'' b) (\<lambda>enabled.
     res_bind (rd_str R ''transcribe.engine'' b) (\<lambda>engine.
     res_bind (rd_str R ''transcribe.model'' b) (\<lambda>model.
     res_bind (rd_str R ''transcribe.primary_language'' b) (\<lambda>language.
     res_bind (rd_bool R ''transcribe.diarize'' b) (\<lambda>diarize.
     res_bind (rd_bool R ''transcribe.word_timestamps'' b) (\<lambda>timestamps.
     res_bind (rd_bool R ''transcribe.redact_numbers'' b) (\<lambda>redact.
     res_bind (rd_int R ''transcribe.only_longer_than'' b) (\<lambda>longer.
     res_bind (rd_int R ''transcribe.concurrency'' b) (\<lambda>concurrency.
     res_bind (rd_int R ''transcribe.min_speech_seconds'' b) (\<lambda>speech.
     res_bind (rd_int R ''transcribe.announcement_repeats'' b) (\<lambda>repeats.
       Inr \<lparr>tc_enabled = enabled, tc_engine = engine, tc_model = model, tc_primary_language = language,
         tc_diarize = diarize, tc_word_timestamps = timestamps, tc_redact_numbers = redact,
         tc_only_longer_than = longer, tc_concurrency = concurrency, tc_min_speech_seconds = speech,
         tc_announcement_repeats = repeats\<rparr>)))))))))))"

definition IMPLEMENTED_ENGINES :: "string list" where
  "IMPLEMENTED_ENGINES = [''whisper-local'', ''faster-whisper-local'']"

definition build_engine :: "transcribe_settings \<Rightarrow> transcribe_exc + string \<times> bool" where
  "build_engine config =
     (if tc_engine config \<notin> set IMPLEMENTED_ENGINES then
        Inl (EngineUnavailable (''the '' @ py_repr (tc_engine config) @ '' recogniser is not built into this system yet; '' @
          ''choose 'faster-whisper-local' to run on this server''))
      else Inr (tc_model config, tc_redact_numbers config))"

section \<open>Which results are kept\<close>

definition whole_seconds :: "rat \<Rightarrow> string" where
  "whole_seconds x = show_int (round_half_even x)"

definition skip_reason :: "transcript_result \<Rightarrow> transcribe_settings \<Rightarrow> string option" where
  "skip_reason result config =
     (let duration = (case tr_duration_seconds result of Some x \<Rightarrow> x | None \<Rightarrow> 0);
          rest = (if tc_only_longer_than config \<noteq> 0 \<and> duration < of_int (tc_only_longer_than config)
                  then Some (''skipped: '' @ whole_seconds duration @ ''s of audio is under the '' @
                    show_int (tc_only_longer_than config) @ ''s minimum in settings'')
                  else if py_strip (tr_text result) = [] then Some ''skipped: no speech -- the recogniser heard no words''
                  else None)
      in case tr_speech_seconds result of
           Some speech \<Rightarrow>
             if tc_min_speech_seconds config \<noteq> 0 \<and> speech < of_int (tc_min_speech_seconds config)
             then Some (''skipped: no speech -- '' @ whole_seconds speech @ ''s of speech in '' @ whole_seconds duration @
               ''s of audio (hold music, ringing or silence)'')
             else rest
         | None \<Rightarrow> rest)"

section \<open>Was there a conversation?\<close>

record verdict =
  vd_conversation :: rat
  vd_announcement :: rat
  vd_music :: rat
  vd_reason :: "string option"

type_synonym keyed = "segment \<times> string \<times> string option"

definition keyed_of :: "(string \<Rightarrow> string) \<Rightarrow> segment list \<Rightarrow> keyed list" where
  "keyed_of sha1_hex segments = map (\<lambda>s. let plain = normalise (sg_text s) in (s, plain, phrase_key sha1_hex plain)) segments"

definition keys_of :: "keyed list \<Rightarrow> string list" where
  "keys_of keyed = sort_key (map code) (remdups (List.map_filter (\<lambda>(_, _, k). k) keyed))"

definition sample_text :: "segment \<Rightarrow> string" where
  "sample_text s = take 300 (py_strip (sg_text s))"

text \<open>In a dictionary display the last of two equal keys wins.\<close>

definition sample_of :: "keyed list \<Rightarrow> string \<Rightarrow> string" where
  "sample_of keyed key = (case List.find (\<lambda>(_, _, k). k = Some key) (rev keyed) of Some (s, _) \<Rightarrow> sample_text s | None \<Rightarrow> [])"

definition phrase_id :: "phrase_row \<Rightarrow> int \<times> string" where
  "phrase_id p = (ph_brand_id p, ph_hash p)"

definition count_phrase :: "phrase_row \<Rightarrow> phrase_row \<Rightarrow> phrase_row" where
  "count_phrase p new = p\<lparr>ph_calls := ph_calls p + 1\<rparr>"

definition learn_phrases :: "int \<Rightarrow> keyed list \<Rightarrow> phrase_row list \<Rightarrow> phrase_row list" where
  "learn_phrases brand keyed phrases =
     upsert_all phrase_id count_phrase
       (map (\<lambda>k. \<lparr>ph_brand_id = brand, ph_hash = k, ph_sample = sample_of keyed k, ph_calls = 1\<rparr>) (keys_of keyed)) phrases"

definition seen_calls :: "int \<Rightarrow> phrase_row list \<Rightarrow> string \<Rightarrow> int" where
  "seen_calls brand phrases key =
     (case find_row (\<lambda>p. ph_brand_id p = brand \<and> ph_hash p = key) phrases of Some p \<Rightarrow> ph_calls p | None \<Rightarrow> 0)"

datatype audio_kind = Music | Announcement | Conversation

definition kind_of :: "int \<Rightarrow> (string \<Rightarrow> int) \<Rightarrow> keyed \<Rightarrow> audio_kind" where
  "kind_of repeats seen k =
     (let (_, plain, key) = k
      in if re_search MUSIC plain \<noteq> None then Music
         else if re_search ANNOUNCEMENT plain \<noteq> None \<or> (repeats \<noteq> 0 \<and> (case key of Some h \<Rightarrow> repeats \<le> seen h | None \<Rightarrow> False))
         then Announcement else Conversation)"

definition seconds_of_segment :: "segment \<Rightarrow> rat" where
  "seconds_of_segment s = max 0 (of_int (sg_end_ms s - sg_start_ms s) / 1000)"

definition seconds_of_kind :: "int \<Rightarrow> (string \<Rightarrow> int) \<Rightarrow> keyed list \<Rightarrow> audio_kind \<Rightarrow> rat" where
  "seconds_of_kind repeats seen keyed kind =
     foldl (\<lambda>t k. if kind_of repeats seen k = kind then t + seconds_of_segment (fst k) else t) 0 keyed"

definition round_tenth :: "rat \<Rightarrow> rat" where
  "round_tenth x = of_int (round_half_even (10 * x)) / 10"

definition verdict_of :: "(string \<Rightarrow> string) \<Rightarrow> int \<Rightarrow> segment list \<Rightarrow> int \<Rightarrow> int \<Rightarrow> phrase_row list \<Rightarrow> verdict" where
  "verdict_of sha1_hex brand segments repeats min_speech phrases =
     (let keyed = keyed_of sha1_hex segments;
          amount = seconds_of_kind repeats (seen_calls brand phrases) keyed;
          music = amount Music; announcement = amount Announcement; conversation = amount Conversation
      in \<lparr>vd_conversation = round_tenth conversation, vd_announcement = round_tenth announcement,
          vd_music = round_tenth music,
          vd_reason = (if (music \<noteq> 0 \<or> announcement \<noteq> 0) \<and> conversation < of_int min_speech
                       then Some (if announcement < music then ''skipped: music on hold''
                         else ''skipped: recorded announcement -- voicemail, carrier or phone-menu message'')
                       else None)\<rparr>)"

definition judge :: "(string \<Rightarrow> string) \<Rightarrow> int \<Rightarrow> segment list \<Rightarrow> int \<Rightarrow> int \<Rightarrow> bool \<Rightarrow> store \<Rightarrow> store \<times> verdict" where
  "judge sha1_hex brand segments repeats min_speech learn st =
     (let st1 = (if learn then st\<lparr>st_phrases := learn_phrases brand (keyed_of sha1_hex segments) (st_phrases st)\<rparr> else st)
      in (st1, verdict_of sha1_hex brand segments repeats min_speech (st_phrases st1)))"

section \<open>Storing\<close>

definition transcript_key :: "transcript_row \<Rightarrow> int \<times> int" where
  "transcript_key t = (tx_brand_id t, tx_recording_id t)"

text \<open>The widths of the columns; a longer value is refused.\<close>

definition too_wide :: "transcript_row \<Rightarrow> bool" where
  "too_wide t \<longleftrightarrow> 40 < length (tx_engine t) \<or> 40 < length (tx_model t) \<or>
     (case tx_language t of Some l \<Rightarrow> 16 < length l | None \<Rightarrow> False) \<or>
     (case tx_language_detected t of Some l \<Rightarrow> 16 < length l | None \<Rightarrow> False)"

definition insert_transcript :: "(transcript_row \<Rightarrow> transcript_row \<Rightarrow> transcript_row) \<Rightarrow> transcript_row \<Rightarrow> store \<Rightarrow> transcribe_exc + store" where
  "insert_transcript merge t st =
     (if too_wide t then Inl (TxDatabase ''value too long for type character varying'')
      else Inr (st\<lparr>st_transcripts := upsert transcript_key merge (t\<lparr>tx_id := st_next_id st\<rparr>) (st_transcripts st),
                  st_next_id := st_next_id st + 1\<rparr>))"

definition failed_row :: "int \<Rightarrow> recording \<Rightarrow> string \<Rightarrow> transcribe_settings \<Rightarrow> dt \<Rightarrow> transcript_row" where
  "failed_row brand r reason config now =
     \<lparr>tx_id = 0, tx_brand_id = brand, tx_recording_id = rec_id r, tx_cdr_id = rec_cdr_id r,
      tx_engine = tc_engine config, tx_model = tc_model config, tx_language = None, tx_language_detected = None,
      tx_confidence = None, tx_duration = None, tx_text = None, tx_redacted = False, tx_diarized = False,
      tx_speakers = None, tx_detail = [], tx_failed_reason = Some reason, tx_updated_at = now\<rparr>"

definition note_failure :: "transcript_row \<Rightarrow> transcript_row \<Rightarrow> transcript_row" where
  "note_failure t new = t\<lparr>tx_failed_reason := tx_failed_reason new, tx_updated_at := tx_updated_at new\<rparr>"

definition record_failure :: "dt \<Rightarrow> recording \<Rightarrow> int \<Rightarrow> string \<Rightarrow> transcribe_settings \<Rightarrow> store \<Rightarrow> transcribe_exc + store" where
  "record_failure now r brand reason config st =
     insert_transcript note_failure (failed_row brand r reason config now) st"

definition stored_row :: "int \<Rightarrow> recording \<Rightarrow> transcript_result \<Rightarrow> transcribe_settings \<Rightarrow> dt \<Rightarrow> transcript_row" where
  "stored_row brand r result config now =
     \<lparr>tx_id = 0, tx_brand_id = brand, tx_recording_id = rec_id r, tx_cdr_id = rec_cdr_id r,
      tx_engine = (if tr_engine result = [] then tc_engine config else tr_engine result),
      tx_model = (if tr_model result = [] then tc_model config else tr_model result),
      tx_language = tr_language result, tx_language_detected = tr_language_detected result,
      tx_confidence = tr_confidence result, tx_duration = map_option round_half_even (tr_duration_seconds result),
      tx_text = Some (tr_text result), tx_redacted = tc_redact_numbers config,
      tx_diarized = (case tr_speaker_count result of Some n \<Rightarrow> n \<noteq> 0 | None \<Rightarrow> False),
      tx_speakers = tr_speaker_count result, tx_detail = tr_engine_detail result, tx_failed_reason = None,
      tx_updated_at = now\<rparr>"

definition replace_transcript :: "transcript_row \<Rightarrow> transcript_row \<Rightarrow> transcript_row" where
  "replace_transcript t new = new\<lparr>tx_id := tx_id t, tx_cdr_id := tx_cdr_id t\<rparr>"

definition transcript_id :: "int \<Rightarrow> int \<Rightarrow> store \<Rightarrow> int" where
  "transcript_id brand recording st =
     (case find_row (\<lambda>t. transcript_key t = (brand, recording)) (st_transcripts st) of Some t \<Rightarrow> tx_id t | None \<Rightarrow> 0)"

definition store_transcript :: "dt \<Rightarrow> recording \<Rightarrow> int \<Rightarrow> transcript_result \<Rightarrow> transcribe_settings \<Rightarrow> store \<Rightarrow> transcribe_exc + store" where
  "store_transcript now r brand result config st =
     res_bind (insert_transcript replace_transcript (stored_row brand r result config now) st) (\<lambda>st1.
       let i = transcript_id brand (rec_id r) st1
       in Inr (st1\<lparr>st_segments := filter (\<lambda>s. sr_transcript_id s \<noteq> i) (st_segments st1) @
             map (\<lambda>s. \<lparr>sr_brand_id = brand, sr_transcript_id = i, sr_segment = s\<rparr>) (tr_segments result)\<rparr>))"

section \<open>Going through the stored transcripts again\<close>

type_synonym heard = "int \<times> segment list"

definition segments_of :: "int \<Rightarrow> int \<Rightarrow> store \<Rightarrow> segment list" where
  "segments_of brand i st =
     map (\<lambda>s. s\<lparr>sg_speaker := None, sg_confidence := None\<rparr>)
       (sort_key sg_seq (map sr_segment (filter (\<lambda>s. sr_brand_id s = brand \<and> sr_transcript_id s = i) (st_segments st))))"

definition kept_since :: "int \<Rightarrow> dt option \<Rightarrow> transcript_row \<Rightarrow> bool" where
  "kept_since brand since t \<longleftrightarrow> tx_brand_id t = brand \<and> tx_text t \<noteq> None \<and>
     (case since of None \<Rightarrow> True | Some d \<Rightarrow> d \<le> tx_updated_at t)"

definition by_transcript :: "int \<Rightarrow> dt option \<Rightarrow> store \<Rightarrow> heard list" where
  "by_transcript brand since st =
     filter (\<lambda>h. snd h \<noteq> []) (map (\<lambda>t. (tx_id t, segments_of brand (tx_id t) st))
       (sort_key tx_id (filter (kept_since brand since) (st_transcripts st))))"

definition recount_phrases :: "(string \<Rightarrow> string) \<Rightarrow> int \<Rightarrow> heard list \<Rightarrow> phrase_row list \<Rightarrow> phrase_row list" where
  "recount_phrases sha1_hex brand heard phrases =
     (let keys = map (\<lambda>h. keys_of (keyed_of sha1_hex (snd h))) heard;
          sentences = concat (map (\<lambda>h. keyed_of sha1_hex (snd h)) heard)
      in filter (\<lambda>p. ph_brand_id p \<noteq> brand) phrases @
         map (\<lambda>k. \<lparr>ph_brand_id = brand, ph_hash = k,
             ph_sample = (case List.find (\<lambda>(_, _, x). x = Some k) sentences of Some (s, _) \<Rightarrow> sample_text s | None \<Rightarrow> []),
             ph_calls = int (length (filter (\<lambda>ks. k \<in> set ks) keys))\<rparr>) (remdups (concat keys)))"

definition discard_transcript :: "int \<Rightarrow> int \<Rightarrow> string \<Rightarrow> store \<Rightarrow> store" where
  "discard_transcript brand i reason st =
     st\<lparr>st_segments := filter (\<lambda>s. \<not> (sr_brand_id s = brand \<and> sr_transcript_id s = i)) (st_segments st),
        st_transcripts := update_where (\<lambda>t. tx_brand_id t = brand \<and> tx_id t = i)
          (\<lambda>t. t\<lparr>tx_text := None, tx_failed_reason := Some reason\<rparr>) (st_transcripts st)\<rparr>"

fun reclassify_each :: "(string \<Rightarrow> string) \<Rightarrow> int \<Rightarrow> int \<Rightarrow> int \<Rightarrow> heard list \<Rightarrow> store \<Rightarrow> store \<times> nat" where
  "reclassify_each sha1_hex brand repeats min_speech [] st = (st, 0)"
| "reclassify_each sha1_hex brand repeats min_speech ((i, segments) # heard) st =
     (case judge sha1_hex brand segments repeats min_speech False st of
        (st1, v) \<Rightarrow>
          (case vd_reason v of
             None \<Rightarrow> reclassify_each sha1_hex brand repeats min_speech heard st1
           | Some reason \<Rightarrow>
               (case reclassify_each sha1_hex brand repeats min_speech heard (discard_transcript brand i reason st1) of
                  (st2, n) \<Rightarrow> (st2, n + 1))))"

definition reclassify :: "(string \<Rightarrow> string) \<Rightarrow> int \<Rightarrow> int \<Rightarrow> int \<Rightarrow> dt option \<Rightarrow> bool \<Rightarrow> store \<Rightarrow> store \<times> nat \<times> nat" where
  "reclassify sha1_hex brand repeats min_speech since rebuild st =
     (let heard = by_transcript brand since st;
          st1 = (if rebuild then st\<lparr>st_phrases := recount_phrases sha1_hex brand heard (st_phrases st)\<rparr> else st)
      in case reclassify_each sha1_hex brand repeats min_speech heard st1 of (st2, n) \<Rightarrow> (st2, length heard, n))"

section \<open>One recording\<close>

text \<open>The archive and the recogniser: opening the destination, then fetching and recognising, may raise; a line for
  each exception. What is written and deleted on disk is not modelled.\<close>

record recogniser =
  rg_open :: "destination_row \<Rightarrow> transcribe_exc + unit"
  rg_recognise :: "recording \<Rightarrow> transcribe_settings \<Rightarrow> transcribe_exc + transcript_result"
  rg_exc_line :: "transcribe_exc \<Rightarrow> string"
  rg_sha1 :: "string \<Rightarrow> string"

definition with_conversation :: "verdict \<Rightarrow> transcript_result \<Rightarrow> transcript_result" where
  "with_conversation v result =
     result\<lparr>tr_engine_detail := AList.update ''conversation_seconds'' (JNum (vd_conversation v)) (tr_engine_detail result)\<rparr>"

definition reason_of :: "verdict \<Rightarrow> transcript_result \<Rightarrow> transcribe_settings \<Rightarrow> string option" where
  "reason_of v result config = (case skip_reason result config of Some r \<Rightarrow> Some r | None \<Rightarrow> vd_reason v)"

text \<open>What is judged worth keeping is stored, anything else leaves its reason.\<close>

definition file_result :: "(string \<Rightarrow> string) \<Rightarrow> dt \<Rightarrow> recording \<Rightarrow> int \<Rightarrow> transcript_result \<Rightarrow> transcribe_settings \<Rightarrow> store \<Rightarrow>
    transcribe_exc + store \<times> bool" where
  "file_result sha1_hex now r brand result config st =
     (case judge sha1_hex brand (tr_segments result) (tc_announcement_repeats config) (tc_min_speech_seconds config) True st of
        (st1, v) \<Rightarrow>
          (let res = with_conversation v result
           in case reason_of v res config of
                None \<Rightarrow> res_bind (store_transcript now r brand res config st1) (\<lambda>st2. Inr (st2, True))
              | Some reason \<Rightarrow> res_bind (record_failure now r brand reason config st1) (\<lambda>st2. Inr (st2, False))))"

definition has_text :: "int \<Rightarrow> store \<Rightarrow> bool" where
  "has_text i st \<longleftrightarrow> list_ex (\<lambda>t. tx_recording_id t = i \<and> tx_text t \<noteq> None) (st_transcripts st)"

definition transcribe_recording :: "recogniser \<Rightarrow> dt \<Rightarrow> int \<Rightarrow> int \<Rightarrow> transcribe_settings \<Rightarrow> store \<Rightarrow> transcribe_exc + store \<times> bool" where
  "transcribe_recording G now i brand config st =
     (case find_row (\<lambda>r. rec_id r = i) (db_recordings (st_db st)) of
        None \<Rightarrow> Inr (st, False)
      | Some r \<Rightarrow>
          if rec_brand_id r \<noteq> brand then
            Inl (TxPy (ValueError (''recording '' @ show_int i @ '' belongs to organisation '' @ show_int (rec_brand_id r) @
              '', not '' @ show_int brand)))
          else if has_text i st then Inr (st, False)
          else (case (rec_destination_id r, nonempty (rec_destination_key r)) of
             (Some d, Some _) \<Rightarrow>
               if d = 0 then Inr (st, False)
               else (case find_row (\<lambda>x. ds_id x = d) (st_destinations st) of
                  None \<Rightarrow> Inr (st, False)
                | Some destination \<Rightarrow>
                    (case res_bind (rg_open G destination) (\<lambda>_. rg_recognise G r config) of
                       Inl (EngineUnavailable m) \<Rightarrow> Inl (EngineUnavailable m)
                     | Inl e \<Rightarrow> res_bind (record_failure now r brand (take 400 (rg_exc_line G e)) config st) (\<lambda>st1. Inr (st1, False))
                     | Inr result \<Rightarrow> file_result (rg_sha1 G) now r brand result config st))
           | _ \<Rightarrow> Inr (st, False)))"

section \<open>What the masking leaves\<close>

text \<open>The longest run of digits, single separators between them, with the digits counted and the rest.\<close>

fun number_run :: "string \<Rightarrow> string \<times> nat \<times> string" where
  "number_run [] = ([], 0, [])"
| "number_run (c # s) =
     (if is_digit c then (case number_run s of (m, n, r) \<Rightarrow> (c # m, Suc n, r))
      else case s of
          d # s' \<Rightarrow> if is_separator c \<and> is_digit d then (case number_run s' of (m, n, r) \<Rightarrow> (c # d # m, Suc n, r)) else ([], 0, c # s)
        | [] \<Rightarrow> ([], 0, c # s))"

abbreviation run_digits :: "string \<Rightarrow> nat" where "run_digits s \<equiv> fst (snd (number_run s))"

lemma digit_not_separator [simp]: "is_digit c \<Longrightarrow> \<not> is_separator c"
  by (auto simp: is_digit_def is_separator_def)

lemma number_run_append: "number_run s = (m, n, r) \<Longrightarrow> s = m @ r"
  by (induction s arbitrary: m n r rule: number_run.induct) (auto split: if_splits prod.splits list.splits)

definition stops :: "string \<Rightarrow> bool" where
  "stops s \<longleftrightarrow> (case s of [] \<Rightarrow> True | c # t \<Rightarrow> \<not> is_digit c \<and> (is_separator c \<longrightarrow> (case t of [] \<Rightarrow> True | d # _ \<Rightarrow> \<not> is_digit d)))"

lemma stops_run: "stops s \<Longrightarrow> number_run s = ([], 0, s)"
  by (cases s) (auto simp: stops_def split: list.splits)

lemma number_run_stops: "stops (snd (snd (number_run s)))"
proof (induction s rule: number_run.induct)
  case (2 c s)
  consider (digit) "is_digit c"
    | (spaced) d s' where "\<not> is_digit c" "is_separator c" "s = d # s'" "is_digit d"
    | (stops) "stops (c # s)" by (cases s) (auto simp: stops_def)
  then show ?case
  proof cases
    case digit
    then show ?thesis using 2(1) by (auto split: prod.split)
  next
    case spaced
    then show ?thesis using 2(2) by (auto split: prod.split)
  next
    case stops
    show ?thesis unfolding stops_run [OF stops] using stops by simp
  qed
qed (simp add: stops_def)

lemma stops_hd: "stops s \<Longrightarrow> s = [] \<or> \<not> is_digit (hd s)"
  by (auto simp: stops_def split: list.splits)

abbreviation one_digit :: re where "one_digit \<equiv> Seq (Opt (Cls is_separator)) (Cls is_digit)"

lemma rmatch_one_digit:
  "rmatch one_digit pre s g k =
     (case s of
        [] \<Rightarrow> None
      | c # t \<Rightarrow> if is_digit c then k (c # pre) t g
                else case t of [] \<Rightarrow> None | d # u \<Rightarrow> if is_separator c \<and> is_digit d then k (d # c # pre) u g else None)"
  by (auto split: list.splits option.splits)

lemma rep_digits:
  "length s \<le> n \<Longrightarrow>
   rep_seq one_digit lo n pre s (\<lambda>pre2 s2. rmatch (NotAhead is_digit) pre2 s2 [] (\<lambda>p q _. Some (p, q))) =
     (case number_run s of (m, c, r) \<Rightarrow> if lo \<le> c then Some (rev m @ pre, r) else None)"
proof (induction s arbitrary: lo n pre rule: number_run.induct)
  case 1
  then show ?case by (cases n) (simp_all add: rmatch_one_digit)
next
  case (2 c s)
  obtain n' where n: "n = Suc n'" using 2(3) by (cases n) auto
  consider (digit) "is_digit c"
    | (spaced) d s' where "\<not> is_digit c" "is_separator c" "s = d # s'" "is_digit d"
    | (stops) "stops (c # s)" by (cases s) (auto simp: stops_def)
  then show ?case
  proof cases
    case digit
    obtain m k r where run: "number_run s = (m, k, r)" by (cases "number_run s") auto
    have "length s \<le> n'" using 2(3) n by simp
    from 2(1) [OF digit this, of "lo - 1" "c # pre"] show ?thesis
      using digit run by (auto simp: n rmatch_one_digit)
  next
    case spaced
    obtain m k r where run: "number_run s' = (m, k, r)" by (cases "number_run s'") auto
    have "length s' \<le> n'" using 2(3) n spaced by simp
    from 2(2) [OF spaced(1) spaced(3) _ this, of "lo - 1" "d # c # pre"] show ?thesis
      using spaced run by (auto simp: n rmatch_one_digit)
  next
    case stops
    then show ?thesis by (auto simp: n rmatch_one_digit stops_run stops_def split: list.splits)
  qed
qed

lemma long_digits_at:
  "long_digits pre (c # s) =
     (if (pre = [] \<or> \<not> is_digit (hd pre)) \<and> is_digit c \<and> 6 \<le> run_digits s
      then Some (rev (fst (number_run s)) @ c # pre, snd (snd (number_run s))) else None)"
  unfolding long_digits_def using rep_digits [of s "length s" 6 "c # pre"]
  by (cases pre; cases "number_run s") auto

lemma long_digits_Nil [simp]: "long_digits pre [] = None"
  by (cases pre) (auto simp: long_digits_def)

text \<open>The masking, a run at a time.\<close>

function mask_runs :: "string \<Rightarrow> string" where
  "mask_runs [] = []"
| "mask_runs (c # s) =
     (if is_digit c then (case number_run s of (m, n, r) \<Rightarrow> (if 6 \<le> n then mask_digits 2 (c # m) else c # m) @ mask_runs r)
      else c # mask_runs s)"
  by pat_completeness auto
termination
  by (relation "measure length") (auto dest!: number_run_append [OF sym])


lemma run_rest: "number_run s = (m, n, r) \<Longrightarrow> stops r"
  using number_run_stops [of s] by simp

lemma sub_short_run:
  assumes "number_run s = (m, k, r)" "k < 6" "length s \<le> n" "pre \<noteq> []" "is_digit (hd pre)"
  shows "sub_from long_digits f n pre s = m @ sub_from long_digits f (n - length m) (rev m @ pre) r"
  using assms
proof (induction s arbitrary: m k r n pre rule: number_run.induct)
  case 1
  then show ?case by simp
next
  case (2 c s)
  obtain n' where n: "n = Suc n'" using 2(5) by (cases n) auto
  consider (digit) "is_digit c"
    | (spaced) d s' where "\<not> is_digit c" "is_separator c" "s = d # s'" "is_digit d"
    | (stops) "stops (c # s)" by (cases s) (auto simp: stops_def)
  then show ?case
  proof cases
    case digit
    obtain m' k' r' where run: "number_run s = (m', k', r')" by (cases "number_run s") auto
    have eqs: "m = c # m'" "k = Suc k'" "r = r'" using 2(3) digit run by auto
    have "sub_from long_digits f n' (c # pre) s = m' @ sub_from long_digits f (n' - length m') (rev m' @ c # pre) r'"
      using 2(1) [OF digit run, of n' "c # pre"] 2(4) 2(5) digit eqs n by simp
    then show ?thesis using digit eqs 2(6,7) by (simp add: n long_digits_at)
  next
    case spaced
    obtain m' k' r' where run: "number_run s' = (m', k', r')" by (cases "number_run s'") auto
    have eqs: "m = c # d # m'" "k = Suc k'" "r = r'" using 2(3) spaced run by auto
    obtain n2 where n2: "n' = Suc n2" using 2(5) n spaced by (cases n') auto
    have "sub_from long_digits f n2 (d # c # pre) s' = m' @ sub_from long_digits f (n2 - length m') (rev m' @ d # c # pre) r'"
      using 2(2) [OF spaced(1) spaced(3) _ run, of n2 "d # c # pre"] 2(4) 2(5) spaced eqs n n2 by simp
    then show ?thesis using spaced eqs 2(4) run by (simp add: n n2 long_digits_at)
  next
    case stops
    show ?thesis using 2(3) unfolding stops_run [OF stops] by simp
  qed
qed

lemma sub_mask_runs:
  "\<lbrakk>length s \<le> n; (pre = [] \<or> \<not> is_digit (hd pre)) \<or> (s = [] \<or> \<not> is_digit (hd s))\<rbrakk> \<Longrightarrow>
   sub_from long_digits (mask_digits 2) n pre s = mask_runs s"
proof (induction s arbitrary: n pre rule: mask_runs.induct)
  case 1
  then show ?case by (cases n) simp_all
next
  case (2 c s)
  obtain n' where n: "n = Suc n'" using 2(3) by (cases n) auto
  obtain m k r where run: "number_run s = (m, k, r)" by (cases "number_run s") auto
  note s = number_run_append [OF run]
  note rest = stops_hd [OF run_rest [OF run]]
  show ?case
  proof (cases "is_digit c")
    case False
    have "sub_from long_digits (mask_digits 2) n' (c # pre) s = mask_runs s"
      using 2(2) [OF False, of n' "c # pre"] 2(3) False n by simp
    then show ?thesis using False by (simp add: n long_digits_at)
  next
    case True
    note IH = 2(1) [OF True run [symmetric] refl]
    show ?thesis
    proof (cases "6 \<le> k")
      case True
      have "sub_from long_digits (mask_digits 2) n' (rev m @ c # pre) r = mask_runs r"
        using IH [of n' "rev m @ c # pre"] 2(3) n s rest by simp
      then show ?thesis using True \<open>is_digit c\<close> 2(4) run s by (auto simp: n long_digits_at)
    next
      case False
      have "sub_from long_digits (mask_digits 2) n' (c # pre) s =
          m @ sub_from long_digits (mask_digits 2) (n' - length m) (rev m @ c # pre) r"
        using sub_short_run [OF run, of n' "c # pre"] False 2(3) n \<open>is_digit c\<close> by simp
      moreover have "sub_from long_digits (mask_digits 2) (n' - length m) (rev m @ c # pre) r = mask_runs r"
        using IH [of "n' - length m" "rev m @ c # pre"] 2(3) n s rest by simp
      ultimately show ?thesis using False \<open>is_digit c\<close> run by (simp add: n long_digits_at)
    qed
  qed
qed

lemma redact_mask_runs: "redact_digits s = mask_runs s"
  by (simp add: redact_digits_def re_sub_def sub_mask_runs)

fun no_numbers :: "string \<Rightarrow> bool" where
  "no_numbers [] = True"
| "no_numbers (c # s) = ((is_digit c \<longrightarrow> run_digits s < 6) \<and> no_numbers s)"

lemma no_numbers_match: "no_numbers (u @ v) \<Longrightarrow> long_digits pre v = None"
proof (induction u)
  case Nil
  then show ?case by (cases v) (auto simp: long_digits_at)
qed simp

lemma stops_mask_runs: "stops r \<Longrightarrow> stops (mask_runs r)"
  by (cases r; cases "tl r") (auto simp: stops_def split: list.splits)

lemma run_append:
  "number_run s = (m, n, r) \<Longrightarrow> stops x \<Longrightarrow> number_run (m @ x) = (m, n, x)"
proof (induction s arbitrary: m n r rule: number_run.induct)
  case 1
  then show ?case by (simp add: stops_run)
next
  case (2 c s)
  show ?case
  proof (cases s)
    case Nil
    then show ?thesis using 2(3,4) by (auto simp: stops_run split: if_splits)
  next
    case (Cons d t)
    show ?thesis
    proof (cases "is_digit c")
      case True
      obtain m' k' r' where run: "number_run s = (m', k', r')" by (cases "number_run s") auto
      show ?thesis using 2(1) [OF True run 2(4)] 2(3) True run by auto
    next
      case False
      obtain m' k' r' where run: "number_run t = (m', k', r')" by (cases "number_run t") auto
      show ?thesis
      proof (cases "is_separator c \<and> is_digit d")
        case True
        then show ?thesis using 2(2) [OF False Cons True run 2(4)] 2(3) False Cons run by auto
      next
        case nosep: False
        then show ?thesis using 2(3,4) False Cons by (auto simp: stops_run)
      qed
    qed
  qed
qed

lemma no_numbers_run:
  "number_run s = (m, n, r) \<Longrightarrow> n < 6 \<Longrightarrow> stops x \<Longrightarrow> no_numbers x \<Longrightarrow> no_numbers (m @ x)"
proof (induction s arbitrary: m n r rule: number_run.induct)
  case (2 c s)
  show ?case
  proof (cases "is_digit c")
    case True
    obtain m' k' r' where run: "number_run s = (m', k', r')" by (cases "number_run s") auto
    then show ?thesis using 2(1) [OF True run _ 2(5,6)] 2(3,4) True run_append [OF run 2(5)] by auto
  next
    case False
    show ?thesis
    proof (cases s)
      case (Cons d t)
      obtain m' k' r' where run: "number_run t = (m', k', r')" by (cases "number_run t") auto
      show ?thesis
      proof (cases "is_separator c \<and> is_digit d")
        case True
        then show ?thesis using 2(2) [OF False Cons True run _ 2(5,6)] 2(3,4) False Cons run run_append [OF run 2(5)] by auto
      next
        case nosep: False
        then show ?thesis using 2(3,6) False Cons by auto
      qed
    qed (use 2 False in auto)
  qed
qed simp

lemma no_numbers_stars: "no_numbers (replicate k CHR ''*'' @ s) = no_numbers s"
  by (induction k) (simp_all add: is_digit_def)

lemma filter_digits_run: "number_run s = (m, n, r) \<Longrightarrow> length (filter is_digit m) = n"
  by (induction s arbitrary: m n r rule: number_run.induct) (auto split: if_splits prod.splits list.splits)

lemma drop_two: "length ds = Suc (Suc k) \<Longrightarrow> \<exists>a b. drop k ds = [a, b]"
  by (induction k arbitrary: ds) (auto simp: length_Suc_conv)

lemma no_numbers_masked:
  assumes run: "number_run s = (m, n, r)" and long: "6 \<le> n" and c: "is_digit c" and x: "stops x" "no_numbers x"
  shows "no_numbers (mask_digits 2 (c # m) @ x)"
proof -
  define k where "k = n - 1"
  let ?ds = "filter is_digit (c # m)"
  have len: "length ?ds = Suc (Suc k)" using filter_digits_run [OF run] c long by (simp add: k_def)
  obtain a b where ab: "drop k ?ds = [a, b]" using drop_two [OF len] by blast
  have "set [a, b] \<subseteq> set ?ds" unfolding ab [symmetric] by (rule set_drop_subset)
  then have d: "is_digit a" "is_digit b" by (simp_all only: set_filter list.set insert_subset mem_Collect_eq simp_thms)
  have "mask_digits 2 (c # m) = replicate k CHR ''*'' @ [a, b]"
    using len ab long by (simp add: mask_digits_def Let_def k_def del: filter.simps)
  then show ?thesis using d x by (simp add: no_numbers_stars stops_run)
qed

lemma no_numbers_mask_runs: "no_numbers (mask_runs s)"
proof (induction s rule: mask_runs.induct)
  case (2 c s)
  show ?case
  proof (cases "is_digit c")
    case True
    obtain m k r where run: "number_run s = (m, k, r)" by (cases "number_run s") auto
    note rest = stops_mask_runs [OF run_rest [OF run]] 2(1) [OF True run [symmetric] refl]
    show ?thesis
    proof (cases "6 \<le> k")
      case long: True
      then show ?thesis using no_numbers_masked [OF run long True rest] True run by simp
    next
      case short: False
      then show ?thesis using no_numbers_run [OF run _ rest] run_append [OF run rest(1)] True run by simp
    qed
  qed (use 2 in simp)
qed simp

lemma no_numbers_suffix: "no_numbers (u @ v) \<Longrightarrow> no_numbers v"
  by (induction u) auto

lemma mask_runs_id: "no_numbers s \<Longrightarrow> mask_runs s = s"
proof (induction s rule: mask_runs.induct)
  case (2 c s)
  show ?case
  proof (cases "is_digit c")
    case True
    obtain m k r where run: "number_run s = (m, k, r)" by (cases "number_run s") auto
    have s: "s = m @ r" by (rule number_run_append [OF run])
    have "no_numbers r" using no_numbers_suffix [of "c # m" r] 2(3) s by simp
    then show ?thesis using 2(1) [OF True run [symmetric] refl] 2(3) True run s by auto
  qed (use 2 in simp)
qed simp

text \<open>C19: What the masking gives back has no place where the pattern of a long number matches, and masking it again
  changes nothing; a text in which it matches nowhere is left as it is.\<close>

theorem no_number_survives:
  "long_digits (rev (take i (redact_digits s))) (drop i (redact_digits s)) = None \<and>
   redact_digits (redact_digits s) = redact_digits s \<and>
   redact_digits s = mask_runs s"
  using no_numbers_match [of "take i (redact_digits s)" "drop i (redact_digits s)"] no_numbers_mask_runs [of s]
  by (simp add: redact_mask_runs mask_runs_id)

text \<open>The sentences of a transcript are masked one by one and then joined: a number spoken across two of them is
  whole again in the text that is searched.\<close>

lemma number_across_segments:
  "redact_digits ''card 123'' = ''card 123'' \<and> redact_digits ''4567 ok'' = ''4567 ok'' \<and>
   redact_digits (join '' '' [redact_digits ''card 123'', redact_digits ''4567 ok'']) = ''card *****67 ok''"
  unfolding redact_mask_runs by code_simp

section \<open>What going through them again takes away\<close>

text \<open>The reference: every call judged on its own, with the counts as they are after the rebuilding.\<close>

definition discards :: "(string \<Rightarrow> string) \<Rightarrow> int \<Rightarrow> int \<Rightarrow> int \<Rightarrow> phrase_row list \<Rightarrow> heard list \<Rightarrow> (int \<times> string) list" where
  "discards sha1_hex brand repeats min_speech phrases heard =
     List.map_filter (\<lambda>(i, segments). map_option (Pair i) (vd_reason (verdict_of sha1_hex brand segments repeats min_speech phrases))) heard"

definition discarded_row :: "int \<Rightarrow> (int \<Rightarrow> string option) \<Rightarrow> transcript_row \<Rightarrow> transcript_row" where
  "discarded_row brand reasons t =
     (case reasons (tx_id t) of
        Some r \<Rightarrow> if tx_brand_id t = brand then t\<lparr>tx_text := None, tx_failed_reason := Some r\<rparr> else t
      | None \<Rightarrow> t)"

lemma discarded_row_same [simp]: "tx_id (discarded_row b f t) = tx_id t" "tx_brand_id (discarded_row b f t) = tx_brand_id t"
  by (simp_all add: discarded_row_def split: option.split)

lemma discards_Cons:
  "discards h b r m p ((i, segs) # heard) =
     (case vd_reason (verdict_of h b segs r m p) of None \<Rightarrow> discards h b r m p heard | Some x \<Rightarrow> (i, x) # discards h b r m p heard)"
  by (simp add: discards_def List.map_filter_simps split: option.split)

lemma discards_ids: "fst ` set (discards h b r m p heard) \<subseteq> fst ` set heard"
  by (auto simp: discards_def List.map_filter_def image_iff) force

lemma reclassify_each_spec:
  assumes "distinct (map fst heard)"
  shows "reclassify_each h b r m heard st =
    (let ds = discards h b r m (st_phrases st) heard
     in (st\<lparr>st_segments := filter (\<lambda>s. \<not> (sr_brand_id s = b \<and> sr_transcript_id s \<in> fst ` set ds)) (st_segments st),
           st_transcripts := map (discarded_row b (map_of ds)) (st_transcripts st)\<rparr>, length ds))"
  using assms
proof (induction heard arbitrary: st)
  case Nil
  then show ?case by (simp add: discards_def List.map_filter_simps discarded_row_def)
next
  case (Cons x heard)
  obtain i segs where x: "x = (i, segs)" by force
  let ?ds = "discards h b r m (st_phrases st) heard"
  have new: "i \<notin> fst ` set ?ds" using Cons.prems discards_ids [of h b r m "st_phrases st" heard] x by auto
  show ?case
  proof (cases "vd_reason (verdict_of h b segs r m (st_phrases st))")
    case None
    then show ?thesis using Cons.IH [of st] Cons.prems x by (simp add: judge_def discards_Cons Let_def)
  next
    case (Some reason)
    let ?st = "discard_transcript b i reason st"
    have "map (discarded_row b (map_of ?ds)) (st_transcripts ?st) = map (discarded_row b (map_of ((i, reason) # ?ds))) (st_transcripts st)"
    proof -
      have none: "map_of ?ds i = None" using new by (simp add: map_of_eq_None_iff)
      have "discarded_row b (map_of ?ds) (if tx_brand_id t = b \<and> tx_id t = i then t\<lparr>tx_text := None, tx_failed_reason := Some reason\<rparr> else t) =
          discarded_row b (map_of ((i, reason) # ?ds)) t" for t
        by (cases "tx_id t = i") (simp_all add: discarded_row_def none)
      then show ?thesis by (simp add: discard_transcript_def update_where_def)
    qed
    moreover have "filter (\<lambda>s. \<not> (sr_brand_id s = b \<and> sr_transcript_id s \<in> fst ` set ?ds)) (st_segments ?st) =
        filter (\<lambda>s. \<not> (sr_brand_id s = b \<and> sr_transcript_id s \<in> fst ` set ((i, reason) # ?ds))) (st_segments st)"
      by (simp add: discard_transcript_def) (rule filter_cong, simp, blast)
    moreover have "?st\<lparr>st_segments := A, st_transcripts := B\<rparr> = st\<lparr>st_segments := A, st_transcripts := B\<rparr>" for A B
      by (simp add: discard_transcript_def)
    moreover have "st_phrases ?st = st_phrases st" by (simp add: discard_transcript_def)
    moreover have "distinct (map fst heard)" using Cons.prems by simp
    ultimately have "reclassify_each h b r m heard ?st =
        (st\<lparr>st_segments := filter (\<lambda>s. \<not> (sr_brand_id s = b \<and> sr_transcript_id s \<in> fst ` set ((i, reason) # ?ds))) (st_segments st),
            st_transcripts := map (discarded_row b (map_of ((i, reason) # ?ds))) (st_transcripts st)\<rparr>, length ?ds)"
      unfolding Cons.IH [OF \<open>distinct (map fst heard)\<close>, of ?st] Let_def by (simp only:)
    then show ?thesis using Some x by (simp only: reclassify_each.simps judge_def if_False Let_def prod.case option.case discards_Cons list.size) simp
  qed
qed

lemma heard_ids: "distinct (map tx_id (st_transcripts st)) \<Longrightarrow> distinct (map fst (by_transcript brand since st))"
proof -
  assume d: "distinct (map tx_id (st_transcripts st))"
  let ?ts = "sort_key tx_id (filter (kept_since brand since) (st_transcripts st))"
  have "distinct (map tx_id ?ts)" using d by (simp add: distinct_map inj_on_def)
  then have "distinct (map tx_id (filter (\<lambda>t. segments_of brand (tx_id t) st \<noteq> []) ?ts))" by (rule distinct_map_filter)
  then show ?thesis by (simp add: by_transcript_def filter_map comp_def)
qed

text \<open>C28: Going through the stored transcripts again judges every call by itself: those found to be music or a recording
  lose their sentences and their text and keep the row with the reason, so that nothing hands the recording out again;
  every other call, and every other organisation, keeps row and sentences whole. As many are counted as are discarded.\<close>

theorem reclassify_keeps_conversations:
  assumes ids: "distinct (map tx_id (st_transcripts st))"
    and run: "reclassify h b r m since rebuild st = (st', checked, skipped)"
  shows "\<exists>ds. ds = discards h b r m (st_phrases st') (by_transcript b since st) \<and> skipped = length ds \<and>
    st_transcripts st' = map (discarded_row b (map_of ds)) (st_transcripts st) \<and>
    st_segments st' = filter (\<lambda>s. \<not> (sr_brand_id s = b \<and> sr_transcript_id s \<in> fst ` set ds)) (st_segments st) \<and>
    map transcript_key (st_transcripts st') = map transcript_key (st_transcripts st)"
proof -
  let ?heard = "by_transcript b since st"
  define st1 where "st1 = (if rebuild then st\<lparr>st_phrases := recount_phrases h b ?heard (st_phrases st)\<rparr> else st)"
  have same: "st_transcripts st1 = st_transcripts st" "st_segments st1 = st_segments st" by (simp_all add: st1_def)
  let ?ds = "discards h b r m (st_phrases st1) ?heard"
  have "reclassify_each h b r m ?heard st1 = (st', skipped)"
    using run by (auto simp: reclassify_def Let_def st1_def split: prod.splits if_splits)
  then have st': "st' = st1\<lparr>st_segments := filter (\<lambda>s. \<not> (sr_brand_id s = b \<and> sr_transcript_id s \<in> fst ` set ?ds)) (st_segments st1),
      st_transcripts := map (discarded_row b (map_of ?ds)) (st_transcripts st1)\<rparr>" and n: "skipped = length ?ds"
    using reclassify_each_spec [OF heard_ids [OF ids, of b since], of h b r m st1] by (simp_all add: Let_def)
  have "transcript_key (discarded_row b (map_of ?ds) t) = transcript_key t" for t
    by (simp add: transcript_key_def discarded_row_def split: option.split)
  then show ?thesis using st' n same by (intro exI [of _ ?ds]) simp
qed

section \<open>What storing replaces\<close>

definition transcripts_ok :: "store \<Rightarrow> bool" where
  "transcripts_ok st \<longleftrightarrow> distinct (map transcript_key (st_transcripts st)) \<and> distinct (map tx_id (st_transcripts st)) \<and>
     (\<forall>t \<in> set (st_transcripts st). tx_id t < st_next_id st) \<and>
     (\<forall>s \<in> set (st_segments st). sr_transcript_id s < st_next_id st)"

lemma note_failure_simps [simp]:
  "transcript_key (note_failure t u) = transcript_key t" "tx_id (note_failure t u) = tx_id t"
  "tx_text (note_failure t u) = tx_text t" "tx_failed_reason (note_failure t u) = tx_failed_reason u"
  by (simp_all add: note_failure_def transcript_key_def)

lemma replace_transcript_simps [simp]:
  "tx_id (replace_transcript t u) = tx_id t" "tx_text (replace_transcript t u) = tx_text u"
  "tx_failed_reason (replace_transcript t u) = tx_failed_reason u"
  "tx_recording_id (replace_transcript t u) = tx_recording_id u" "tx_brand_id (replace_transcript t u) = tx_brand_id u"
  by (simp_all add: replace_transcript_def)

lemma replace_transcript_key: "transcript_key t = transcript_key u \<Longrightarrow> transcript_key (replace_transcript t u) = transcript_key t"
  by (simp add: transcript_key_def)

text \<open>An upsert of a merge that keeps key and id: the other rows are as they were, and the row of the key is there.\<close>

lemma insert_transcript_spec:
  assumes ok: "transcripts_ok st" and ins: "insert_transcript merge t st = Inr st'"
    and merge: "\<And>x y. transcript_key x = transcript_key y \<Longrightarrow> transcript_key (merge x y) = transcript_key x"
      "\<And>x y. tx_id (merge x y) = tx_id x"
  shows "transcripts_ok st'" and "\<exists>rows. st' = st\<lparr>st_transcripts := rows, st_next_id := st_next_id st + 1\<rparr>"
    and "filter (\<lambda>x. transcript_key x \<noteq> transcript_key t) (st_transcripts st') = filter (\<lambda>x. transcript_key x \<noteq> transcript_key t) (st_transcripts st)"
    and "\<exists>x. find_row (\<lambda>x. transcript_key x = transcript_key t) (st_transcripts st') = Some x \<and>
      (x = t\<lparr>tx_id := st_next_id st\<rparr> \<or> (\<exists>y \<in> set (st_transcripts st). x = merge y (t\<lparr>tx_id := st_next_id st\<rparr>)))"
proof -
  let ?t = "t\<lparr>tx_id := st_next_id st\<rparr>" and ?rows = "st_transcripts st"
  have key: "transcript_key ?t = transcript_key t" by (simp add: transcript_key_def)
  have st': "st' = st\<lparr>st_transcripts := upsert transcript_key merge ?t ?rows, st_next_id := st_next_id st + 1\<rparr>"
    using ins by (simp add: insert_transcript_def split: if_splits)
  then show "\<exists>rows. st' = st\<lparr>st_transcripts := rows, st_next_id := st_next_id st + 1\<rparr>" by blast
  let ?f = "\<lambda>x. if transcript_key x = transcript_key t then merge x ?t else x"
  have fkey: "transcript_key (?f x) = transcript_key x" for x using merge(1) [of x ?t] key by simp
  have fid: "tx_id (?f x) = tx_id x" for x by (simp add: merge(2))
  show "transcripts_ok st'"
    "filter (\<lambda>x. transcript_key x \<noteq> transcript_key t) (st_transcripts st') = filter (\<lambda>x. transcript_key x \<noteq> transcript_key t) ?rows"
    "\<exists>x. find_row (\<lambda>x. transcript_key x = transcript_key t) (st_transcripts st') = Some x \<and>
      (x = ?t \<or> (\<exists>y \<in> set ?rows. x = merge y ?t))"
  proof (atomize (full), cases "transcript_key t \<in> transcript_key ` set ?rows")
    case True
    have rows: "st_transcripts st' = map ?f ?rows" using True by (simp add: st' upsert_def update_where_def key)
    have keys: "map transcript_key (map ?f ?rows) = map transcript_key ?rows" and ids: "map tx_id (map ?f ?rows) = map tx_id ?rows"
      unfolding map_map by (simp_all only: comp_def fkey fid)
    have "distinct (map transcript_key (map ?f ?rows))" "distinct (map tx_id (map ?f ?rows))"
      unfolding keys ids using ok by (simp_all only: transcripts_ok_def)
    moreover have "\<forall>x \<in> set (map ?f ?rows). tx_id x < st_next_id st + 1"
    proof
      fix x assume "x \<in> set (map ?f ?rows)"
      then obtain y where "y \<in> set ?rows" "x = ?f y" unfolding set_map by blast
      then show "tx_id x < st_next_id st + 1" using ok fid [of y] unfolding transcripts_ok_def by fastforce
    qed
    moreover have "\<forall>s \<in> set (st_segments st). sr_transcript_id s < st_next_id st + 1" using ok by (fastforce simp: transcripts_ok_def)
    ultimately have "transcripts_ok st'" unfolding transcripts_ok_def by (simp add: st' rows [unfolded st', simplified])
    moreover have "filter (\<lambda>x. transcript_key x \<noteq> transcript_key t) (map ?f ?rows) = filter (\<lambda>x. transcript_key x \<noteq> transcript_key t) ?rows"
      by (simp only: filter_map comp_def fkey) (rule map_idI, simp)
    moreover have "\<exists>x. find_row (\<lambda>x. transcript_key x = transcript_key t) (map ?f ?rows) = Some x \<and> (\<exists>y \<in> set ?rows. x = merge y ?t)"
    proof -
      obtain z where "z \<in> set ?rows" "transcript_key z = transcript_key t" using True by (metis imageE)
      then have "find_row (\<lambda>x. transcript_key x = transcript_key t) ?rows \<noteq> None" by (auto simp: find_row_def find_None_iff)
      then obtain y where y: "find_row (\<lambda>x. transcript_key x = transcript_key t) ?rows = Some y" by blast
      then have mem: "y \<in> set ?rows" "transcript_key y = transcript_key t" by (auto simp: find_row_def find_Some_iff)
      have "find_row (\<lambda>x. transcript_key x = transcript_key t) (map ?f ?rows) = Some (?f y)"
        using find_row_map [of "\<lambda>x. transcript_key x = transcript_key t" ?f ?rows] fkey y by simp
      then show ?thesis using mem by auto
    qed
    ultimately show "transcripts_ok st' \<and>
      filter (\<lambda>x. transcript_key x \<noteq> transcript_key t) (st_transcripts st') = filter (\<lambda>x. transcript_key x \<noteq> transcript_key t) ?rows \<and>
      (\<exists>x. find_row (\<lambda>x. transcript_key x = transcript_key t) (st_transcripts st') = Some x \<and> (x = ?t \<or> (\<exists>y \<in> set ?rows. x = merge y ?t)))"
      unfolding rows by blast
  next
    case False
    have rows: "st_transcripts st' = ?rows @ [?t]" using False by (simp add: st' upsert_def key)
    have "find_row (\<lambda>x. transcript_key x = transcript_key t) ?rows = None"
      using False by (auto simp: find_row_def find_None_iff image_iff)
    then have "find_row (\<lambda>x. transcript_key x = transcript_key t) (?rows @ [?t]) = Some ?t" by (simp add: find_row_snoc key)
    moreover have "transcripts_ok st'" using ok False
      by (fastforce simp: transcripts_ok_def st' rows [unfolded st', simplified] key)
    ultimately show "transcripts_ok st' \<and>
      filter (\<lambda>x. transcript_key x \<noteq> transcript_key t) (st_transcripts st') = filter (\<lambda>x. transcript_key x \<noteq> transcript_key t) ?rows \<and>
      (\<exists>x. find_row (\<lambda>x. transcript_key x = transcript_key t) (st_transcripts st') = Some x \<and> (x = ?t \<or> (\<exists>y \<in> set ?rows. x = merge y ?t)))"
      unfolding rows by (simp add: key)
  qed
qed

text \<open>A transcript stored again replaces the one before: one row of the recording, with the new text and no reason, and
  the sentences of the new result alone, in their order.\<close>

lemma store_transcript_spec:
  assumes ok: "transcripts_ok st" and stored: "store_transcript now r brand res config st = Inr st'"
  shows "transcripts_ok st'"
    and "filter (\<lambda>x. transcript_key x \<noteq> (brand, rec_id r)) (st_transcripts st') =
      filter (\<lambda>x. transcript_key x \<noteq> (brand, rec_id r)) (st_transcripts st)"
    and "\<exists>t. find_row (\<lambda>x. transcript_key x = (brand, rec_id r)) (st_transcripts st') = Some t \<and>
      tx_text t = Some (tr_text res) \<and> tx_failed_reason t = None \<and>
      map sr_segment (filter (\<lambda>s. sr_transcript_id s = tx_id t) (st_segments st')) = tr_segments res \<and>
      filter (\<lambda>s. sr_transcript_id s \<noteq> tx_id t) (st_segments st') = filter (\<lambda>s. sr_transcript_id s \<noteq> tx_id t) (st_segments st)"
    and "\<exists>rows segs n. st' = st\<lparr>st_transcripts := rows, st_segments := segs, st_next_id := n\<rparr>"
proof -
  let ?row = "stored_row brand r res config now"
  have key: "transcript_key ?row = (brand, rec_id r)" by (simp add: transcript_key_def stored_row_def)
  obtain st1 where ins: "insert_transcript replace_transcript ?row st = Inr st1"
    and st': "st' = st1\<lparr>st_segments := filter (\<lambda>s. sr_transcript_id s \<noteq> transcript_id brand (rec_id r) st1) (st_segments st1) @
      map (\<lambda>s. \<lparr>sr_brand_id = brand, sr_transcript_id = transcript_id brand (rec_id r) st1, sr_segment = s\<rparr>) (tr_segments res)\<rparr>"
    using stored by (auto simp: store_transcript_def res_bind_Inr_iff Let_def)
  note ins_ok = insert_transcript_spec [OF ok ins replace_transcript_key replace_transcript_simps(1), unfolded key]
  obtain t where t: "find_row (\<lambda>x. transcript_key x = (brand, rec_id r)) (st_transcripts st1) = Some t"
    and form: "t = ?row\<lparr>tx_id := st_next_id st\<rparr> \<or> (\<exists>y \<in> set (st_transcripts st). t = replace_transcript y (?row\<lparr>tx_id := st_next_id st\<rparr>))"
    using ins_ok(4) by blast
  have id: "transcript_id brand (rec_id r) st1 = tx_id t" by (simp add: transcript_id_def t)
  have "t \<in> set (st_transcripts st1)" using t by (auto simp: find_row_def find_Some_iff)
  then have "tx_id t < st_next_id st1" using ins_ok(1) by (simp add: transcripts_ok_def)
  then show "transcripts_ok st'" using ins_ok(1) id by (auto simp: transcripts_ok_def st')
  obtain rows where st1: "st1 = st\<lparr>st_transcripts := rows, st_next_id := st_next_id st + 1\<rparr>" using ins_ok(2) by blast
  then show "\<exists>rows segs n. st' = st\<lparr>st_transcripts := rows, st_segments := segs, st_next_id := n\<rparr>"
    by (intro exI [of _ rows] exI [of _ "st_segments st'"] exI [of _ "st_next_id st + 1"]) (simp add: st')
  show "filter (\<lambda>x. transcript_key x \<noteq> (brand, rec_id r)) (st_transcripts st') =
      filter (\<lambda>x. transcript_key x \<noteq> (brand, rec_id r)) (st_transcripts st)" using ins_ok(3) by (simp add: st')
  have "tx_text t = Some (tr_text res)" "tx_failed_reason t = None" using form by (auto simp: stored_row_def)
  moreover have "st_segments st1 = st_segments st" by (simp add: st1)
  ultimately show "\<exists>t. find_row (\<lambda>x. transcript_key x = (brand, rec_id r)) (st_transcripts st') = Some t \<and>
      tx_text t = Some (tr_text res) \<and> tx_failed_reason t = None \<and>
      map sr_segment (filter (\<lambda>s. sr_transcript_id s = tx_id t) (st_segments st')) = tr_segments res \<and>
      filter (\<lambda>s. sr_transcript_id s \<noteq> tx_id t) (st_segments st') = filter (\<lambda>s. sr_transcript_id s \<noteq> tx_id t) (st_segments st)"
    by (intro exI [of _ t]) (simp add: st' t id filter_map comp_def)
qed

lemma record_failure_spec:
  assumes ok: "transcripts_ok st" and rec: "record_failure now r brand reason config st = Inr st'"
  shows "transcripts_ok st'"
    and "filter (\<lambda>x. transcript_key x \<noteq> (brand, rec_id r)) (st_transcripts st') =
      filter (\<lambda>x. transcript_key x \<noteq> (brand, rec_id r)) (st_transcripts st)"
    and "\<exists>t. find_row (\<lambda>x. transcript_key x = (brand, rec_id r)) (st_transcripts st') = Some t \<and> tx_failed_reason t = Some reason"
    and "\<exists>rows n. st' = st\<lparr>st_transcripts := rows, st_next_id := n\<rparr>"
proof -
  let ?row = "failed_row brand r reason config now"
  have key: "transcript_key ?row = (brand, rec_id r)" by (simp add: transcript_key_def failed_row_def)
  note ins_ok = insert_transcript_spec [OF ok rec [unfolded record_failure_def] note_failure_simps(1,2), unfolded key]
  show "transcripts_ok st'" by (rule ins_ok(1))
  show "filter (\<lambda>x. transcript_key x \<noteq> (brand, rec_id r)) (st_transcripts st') =
      filter (\<lambda>x. transcript_key x \<noteq> (brand, rec_id r)) (st_transcripts st)" by (rule ins_ok(3))
  show "\<exists>rows n. st' = st\<lparr>st_transcripts := rows, st_next_id := n\<rparr>" using ins_ok(2) by blast
  obtain t where "find_row (\<lambda>x. transcript_key x = (brand, rec_id r)) (st_transcripts st') = Some t"
    "t = ?row\<lparr>tx_id := st_next_id st\<rparr> \<or> (\<exists>y \<in> set (st_transcripts st). t = note_failure y (?row\<lparr>tx_id := st_next_id st\<rparr>))"
    using ins_ok(4) by blast
  then show "\<exists>t. find_row (\<lambda>x. transcript_key x = (brand, rec_id r)) (st_transcripts st') = Some t \<and> tx_failed_reason t = Some reason"
    by (auto simp: failed_row_def)
qed

section \<open>Examples\<close>

definition demo_transcript :: "int \<Rightarrow> string \<Rightarrow> transcript_row" where
  "demo_transcript i words = \<lparr>tx_id = i, tx_brand_id = 1, tx_recording_id = 10 + i, tx_cdr_id = None, tx_engine = ''e'', tx_model = ''m'',
     tx_language = None, tx_language_detected = None, tx_confidence = None, tx_duration = None, tx_text = Some words, tx_redacted = False,
     tx_diarized = False, tx_speakers = None, tx_detail = [], tx_failed_reason = None, tx_updated_at = 0\<rparr>"

definition demo_sentence :: "int \<Rightarrow> string \<Rightarrow> segment_row" where
  "demo_sentence i words = \<lparr>sr_brand_id = 1, sr_transcript_id = i, sr_segment = \<lparr>sg_seq = 0, sg_start_ms = 0, sg_end_ms = 8000,
     sg_text = words, sg_speaker = None, sg_confidence = None\<rparr>\<rparr>"

definition demo_stored :: store where
  "demo_stored = \<lparr>st_db = empty_db, st_destinations = [], st_transcripts = [demo_transcript 1 ''Music'', demo_transcript 2 ''hello''],
     st_segments = [demo_sentence 1 ''Music'', demo_sentence 2 ''hello''], st_phrases = [], st_leases = [], st_cursors = [],
     st_agents = [], st_audit = [], st_next_id = 3\<rparr>"

theorem reclassify_keeps_conversations_witness:
  "\<exists>st' checked skipped. reclassify (\<lambda>s. s) 1 0 3 None False demo_stored = (st', checked, skipped) \<and> skipped = 1 \<and>
     map tx_text (st_transcripts st') = [None, Some ''hello''] \<and> st_segments st' = [demo_sentence 2 ''hello'']"
proof -
  obtain st' checked skipped where run: "reclassify (\<lambda>s. s) 1 0 3 None False demo_stored = (st', checked, skipped)"
    by (metis prod.exhaust)
  have "distinct (map tx_id (st_transcripts demo_stored))" by code_simp
  from reclassify_keeps_conversations [OF this run] obtain ds where
    ds: "ds = discards (\<lambda>s. s) 1 0 3 (st_phrases st') (by_transcript 1 None demo_stored)" "skipped = length ds"
    "st_transcripts st' = map (discarded_row 1 (map_of ds)) (st_transcripts demo_stored)"
    "st_segments st' = filter (\<lambda>s. \<not> (sr_brand_id s = 1 \<and> sr_transcript_id s \<in> fst ` set ds)) (st_segments demo_stored)"
    by blast
  have "discards (\<lambda>s. s) 1 0 3 p (by_transcript 1 None demo_stored) = [(1, ''skipped: music on hold'')]" for p
  proof -
    have "by_transcript 1 None demo_stored = [(1, [sr_segment (demo_sentence 1 ''Music'')]), (2, [sr_segment (demo_sentence 2 ''hello'')])]"
      by code_simp
    moreover have "kind_of 0 f (sr_segment (demo_sentence i w), normalise w, k) = (if w = ''Music'' then Music else Conversation)"
      if "w \<in> {''Music'', ''hello''}" for f i w k
    proof -
      have "re_search MUSIC (normalise ''Music'') \<noteq> None" "re_search MUSIC (normalise ''hello'') = None"
        "re_search ANNOUNCEMENT (normalise ''hello'') = None" by code_simp+
      then show ?thesis using that by (auto simp: kind_of_def)
    qed
    ultimately show ?thesis
      by (simp add: discards_Cons verdict_of_def keyed_of_def Let_def seconds_of_kind_def demo_sentence_def)
        (simp add: discards_def List.map_filter_simps seconds_of_segment_def)
  qed
  then have "ds = [(1, ''skipped: music on hold'')]" by (simp add: ds(1))
  then show ?thesis using run ds(2-4)
    by (intro exI [of _ st'] exI [of _ checked] exI [of _ skipped]) (simp add: demo_stored_def demo_transcript_def demo_sentence_def discarded_row_def)
qed

end
