(* ===== verification/Agents.thy ===== *)
theory Agents
  imports Transcripts PyText Transfers
begin

text \<open>
  Work lent to machines elsewhere: \<open>src/c2w/transcribe/agents.py\<close> with the request handlers of \<open>api/agent.py\<close>, and the
  server's own \<open>workers/transcriber.py\<close>, which takes from the same backlog. A machine holds a lease on a recording;
  a cursor per organisation says how far the leases have gone, oldest first. The settings, the drawn tokens, the signing
  of links and the clock are parameters.

  Lemmas: a recording has one lease at most, none is left behind the cursor, and what a machine sends changes its
  own recording alone.
\<close>

section \<open>Machines and their tokens\<close>

definition LEASE_SECONDS :: int where "LEASE_SECONDS = 20 * 60"
definition MAX_CLAIM :: int where "MAX_CLAIM = 32"
definition TOKEN_PREFIX :: string where "TOKEN_PREFIX = ''c2wa_''"

record agent =
  an_id :: int
  an_name :: string

definition create_agent :: "(string \<Rightarrow> string) \<Rightarrow> string \<Rightarrow> string \<Rightarrow> store \<Rightarrow> transcribe_exc + store \<times> string" where
  "create_agent hash_token drawn name st =
     (let token = TOKEN_PREFIX @ drawn; h = hash_token token
      in if list_ex (\<lambda>a. ag_name a = name \<or> ag_token_hash a = h) (st_agents st)
         then Inl (TxDatabase ''duplicate key value violates unique constraint'')
         else Inr (st\<lparr>st_agents := st_agents st @ [\<lparr>ag_id = st_next_id st, ag_name = name, ag_token_hash = h,
                ag_last_seen_at = None, ag_last_detail = [], ag_revoked_at = None\<rparr>], st_next_id := st_next_id st + 1\<rparr>, token))"

definition revoke_agent :: "dt \<Rightarrow> string \<Rightarrow> store \<Rightarrow> store \<times> bool" where
  "revoke_agent now name st =
     (let live = (\<lambda>a. ag_name a = name \<and> ag_revoked_at a = None)
      in (st\<lparr>st_agents := update_where live (\<lambda>a. a\<lparr>ag_revoked_at := Some now\<rparr>) (st_agents st)\<rparr>, list_ex live (st_agents st)))"

definition authenticate :: "(string \<Rightarrow> string) \<Rightarrow> dt \<Rightarrow> string \<Rightarrow> store \<Rightarrow> store \<times> agent option" where
  "authenticate hash_token now token st =
     (if \<not> starts_with TOKEN_PREFIX token then (st, None)
      else let live = (\<lambda>a. ag_token_hash a = hash_token token \<and> ag_revoked_at a = None)
           in (st\<lparr>st_agents := update_where live (\<lambda>a. a\<lparr>ag_last_seen_at := Some now\<rparr>) (st_agents st)\<rparr>,
               map_option (\<lambda>a. \<lparr>an_id = ag_id a, an_name = ag_name a\<rparr>) (find_row live (st_agents st))))"

definition note_detail :: "agent \<Rightarrow> (string \<times> string) list \<Rightarrow> store \<Rightarrow> store" where
  "note_detail agent detail st =
     st\<lparr>st_agents := update_where (\<lambda>a. ag_id a = an_id agent) (\<lambda>a. a\<lparr>ag_last_detail := detail\<rparr>) (st_agents st)\<rparr>"

text \<open>The \<open>Authorization\<close> header.\<close>

definition current_agent :: "(string \<Rightarrow> string) \<Rightarrow> dt \<Rightarrow> string option \<Rightarrow> store \<Rightarrow> store \<times> agent option" where
  "current_agent hash_token now authorization st =
     (case partition_at CHR '' '' (case authorization of Some a \<Rightarrow> a | None \<Rightarrow> []) of
        (scheme, _, token) \<Rightarrow>
          if py_lower scheme = ''bearer'' then authenticate hash_token now (py_strip token) st else (st, None))"

section \<open>Handing out work\<close>

definition cursor_of :: "int \<Rightarrow> store \<Rightarrow> dt option" where
  "cursor_of brand st = map_of (st_cursors st) brand"

definition move_cursor :: "int \<Rightarrow> dt \<Rightarrow> bool \<Rightarrow> store \<Rightarrow> store" where
  "move_cursor brand t backwards st =
     st\<lparr>st_cursors := AList.update brand
       (case cursor_of brand st of None \<Rightarrow> t | Some c \<Rightarrow> if backwards then min c t else max c t) (st_cursors st)\<rparr>"

definition expire_leases :: "dt \<Rightarrow> int \<Rightarrow> store \<Rightarrow> store" where
  "expire_leases now brand st =
     (let gone = (\<lambda>l. le_brand_id l = brand \<and> le_expires_at l < now);
          st1 = st\<lparr>st_leases := filter (\<lambda>l. \<not> gone l) (st_leases st)\<rparr>
      in case List.map_filter le_started_at (filter gone (st_leases st)) of
           [] \<Rightarrow> st1
         | d # ds \<Rightarrow> move_cursor brand (foldl min d ds) True st1)"

definition transcribed :: "int \<Rightarrow> int \<Rightarrow> store \<Rightarrow> bool" where
  "transcribed brand i st \<longleftrightarrow> list_ex (\<lambda>t. transcript_key t = (brand, i)) (st_transcripts st)"

definition leased :: "int \<Rightarrow> int \<Rightarrow> store \<Rightarrow> bool" where
  "leased brand i st \<longleftrightarrow> list_ex (\<lambda>l. le_brand_id l = brand \<and> le_recording_id l = i) (st_leases st)"

text \<open>An archived recording of the organisation that nothing has dealt with and nobody holds.\<close>

definition archived :: "int \<Rightarrow> recording \<Rightarrow> bool" where
  "archived brand r \<longleftrightarrow> rec_brand_id r = brand \<and> playable (rec_state r) \<and>
     rec_destination_key r \<noteq> None \<and> rec_destination_id r \<noteq> None"

definition waiting :: "int \<Rightarrow> store \<Rightarrow> recording \<Rightarrow> bool" where
  "waiting brand st r \<longleftrightarrow> archived brand r \<and> \<not> transcribed brand (rec_id r) st \<and> \<not> leased brand (rec_id r) st"

definition from_cursor :: "dt option \<Rightarrow> recording \<Rightarrow> bool" where
  "from_cursor cursor r \<longleftrightarrow> (case rec_started_at r of
     None \<Rightarrow> False | Some t \<Rightarrow> (case cursor of None \<Rightarrow> True | Some c \<Rightarrow> c \<le> t))"

definition start_of :: "recording \<Rightarrow> dt" where
  "start_of r = (case rec_started_at r of Some t \<Rightarrow> t | None \<Rightarrow> 0)"

definition candidates :: "int \<Rightarrow> nat \<Rightarrow> store \<Rightarrow> recording list" where
  "candidates brand limit st =
     take limit (sort_key start_of (filter (\<lambda>r. waiting brand st r \<and> from_cursor (cursor_of brand st) r) (db_recordings (st_db st))))"

definition bill_duration :: "recording \<Rightarrow> store \<Rightarrow> int option" where
  "bill_duration r st =
     (case rec_cdr_id r of
        None \<Rightarrow> None
      | Some c \<Rightarrow> (case find_row (\<lambda>x. cdr_id x = c \<and> cdr_brand_id x = rec_brand_id r) (db_cdrs (st_db st)) of
                     None \<Rightarrow> None | Some x \<Rightarrow> cdr_bill_duration x))"

record claim_env =
  ce_readers :: setting_readers
  ce_token :: "int \<Rightarrow> string"
  ce_presign :: "(destination_row \<times> string) list \<Rightarrow> transcribe_exc + string list"
  ce_now :: dt

fun lease_each :: "claim_env \<Rightarrow> agent \<Rightarrow> int \<Rightarrow> transcribe_settings \<Rightarrow> recording list \<Rightarrow> store \<Rightarrow>
    transcribe_exc + store \<times> (recording \<times> string) list" where
  "lease_each E agent brand config [] st = Inr (st, [])"
| "lease_each E agent brand config (r # rs) st =
     (if bill_duration r st = Some 0 then
        res_bind (record_failure (ce_now E) r brand ''skipped: not answered -- the call record shows no talk time'' config st)
          (\<lambda>st1. lease_each E agent brand config rs st1)
      else let token = ce_token E (rec_id r) in
        if leased brand (rec_id r) st \<or> list_ex (\<lambda>l. le_token l = token) (st_leases st)
        then lease_each E agent brand config rs st
        else res_bind (lease_each E agent brand config rs (st\<lparr>st_leases := st_leases st @
               [\<lparr>le_brand_id = brand, le_recording_id = rec_id r, le_agent_id = an_id agent, le_token = token,
                 le_started_at = rec_started_at r, le_expires_at = ce_now E + LEASE_SECONDS * second\<rparr>]\<rparr>))
             (\<lambda>(st1, held). Inr (st1, (r, token) # held)))"

definition text_of :: "string option \<Rightarrow> string" where
  "text_of s = (case s of Some x \<Rightarrow> x | None \<Rightarrow> [])"

text \<open>The destinations of the leased recordings, by id; one that is not the organisation's has no entry.\<close>

definition leased_objects :: "int \<Rightarrow> store \<Rightarrow> (recording \<times> string) list \<Rightarrow> transcribe_exc + (destination_row \<times> string) list" where
  "leased_objects brand st held =
     map_res (\<lambda>(r, _). case rec_destination_id r of
         None \<Rightarrow> Inl (TxPy (LookupError ''None''))
       | Some d \<Rightarrow> (case find_row (\<lambda>x. ds_id x = d \<and> ds_brand_id x = brand) (st_destinations st) of
             None \<Rightarrow> Inl (TxPy (LookupError (show_int d)))
           | Some x \<Rightarrow> Inr (x, text_of (rec_destination_key r)))) held"

definition last_place :: "char \<Rightarrow> string \<Rightarrow> int" where
  "last_place c s = (if c \<in> set s then int (length s) - 1 - int (length (takeWhile (\<lambda>x. x \<noteq> c) (rev s))) else - 1)"

definition suffix_of :: "string \<Rightarrow> string" where
  "suffix_of key =
     (let dot = last_place CHR ''.'' key in if last_place CHR ''/'' key < dot then drop (nat dot) key else ''.flac'')"

text \<open>The dash of the menu's labels is written \<open>--\<close>.\<close>

definition language_code :: "string \<Rightarrow> string option" where
  "language_code setting =
     (if setting = [] \<or> starts_with ''auto'' setting then None
      else let label = py_strip (case find_text ''--'' setting of Some i \<Rightarrow> take i setting | None \<Rightarrow> setting)
           in nonempty (Some (py_lower (before_first CHR ''-'' label))))"

record job_offer =
  jo_id :: string
  jo_url :: string
  jo_suffix :: string
  jo_language :: "string option"
  jo_model :: string
  jo_word_timestamps :: bool
  jo_min_speech_seconds :: int
  jo_only_longer_than :: int
  jo_expires_in :: int

definition job_name :: "int \<Rightarrow> string \<Rightarrow> string" where
  "job_name brand token = show_int brand @ ''.'' @ token"

definition offer_of :: "int \<Rightarrow> transcribe_settings \<Rightarrow> (recording \<times> string) \<times> string \<Rightarrow> job_offer" where
  "offer_of brand config x = (case x of ((r, token), url) \<Rightarrow>
     \<lparr>jo_id = job_name brand token, jo_url = url, jo_suffix = suffix_of (text_of (rec_destination_key r)),
      jo_language = language_code (tc_primary_language config), jo_model = tc_model config,
      jo_word_timestamps = tc_word_timestamps config, jo_min_speech_seconds = tc_min_speech_seconds config,
      jo_only_longer_than = tc_only_longer_than config, jo_expires_in = LEASE_SECONDS\<rparr>)"

definition sign_offers :: "claim_env \<Rightarrow> agent \<Rightarrow> int \<Rightarrow> transcribe_settings \<Rightarrow> store \<Rightarrow> (recording \<times> string) list \<Rightarrow>
    transcribe_exc + store \<times> job_offer list" where
  "sign_offers E agent brand config st held =
     res_bind (leased_objects brand st held) (\<lambda>objects.
     res_bind (ce_presign E objects) (\<lambda>urls.
       if length urls \<noteq> length held then Inl (TxPy (ValueError ''zip() argument 2 is shorter than argument 1''))
       else Inr (st\<lparr>st_audit := st_audit st @ [\<lparr>ca_brand_id = brand, ca_label = ''transcription agent '' @ an_name agent,
                   ca_recordings = map (rec_id \<circ> fst) held\<rparr>]\<rparr>,
             map (offer_of brand config) (zip held urls))))"

definition last_start :: "recording list \<Rightarrow> dt" where
  "last_start rows = foldl max (start_of (hd rows)) (map start_of (tl rows))"

definition claim_for_brand :: "claim_env \<Rightarrow> agent \<Rightarrow> int \<Rightarrow> nat \<Rightarrow> store \<Rightarrow> transcribe_exc + store \<times> job_offer list" where
  "claim_for_brand E agent brand limit st =
     (case load_settings (ce_readers E) brand of
        Inl e \<Rightarrow> Inl (TxPy e)
      | Inr config \<Rightarrow>
          if \<not> tc_enabled config then Inr (st, [])
          else (let st1 = expire_leases (ce_now E) brand st; rows = candidates brand limit st1
                in if rows = [] then Inr (st1, [])
                   else res_bind (lease_each E agent brand config rows st1) (\<lambda>(st2, held).
                     let st3 = move_cursor brand (last_start rows) False st2
                     in if held = [] then Inr (st3, []) else sign_offers E agent brand config st3 held)))"

text \<open>An even share for each organisation; an exception leaves what the ones before it were given.\<close>

fun claim_brands :: "claim_env \<Rightarrow> agent \<Rightarrow> nat \<Rightarrow> nat \<Rightarrow> int list \<Rightarrow> job_offer list \<Rightarrow> store \<Rightarrow>
    store \<times> (transcribe_exc + job_offer list)" where
  "claim_brands E agent limit share [] jobs st = (st, Inr jobs)"
| "claim_brands E agent limit share (b # bs) jobs st =
     (if limit \<le> length jobs then (st, Inr jobs)
      else case claim_for_brand E agent b (min share (limit - length jobs)) st of
             Inl e \<Rightarrow> (st, Inl e)
           | Inr (st1, js) \<Rightarrow> claim_brands E agent limit share bs (jobs @ js) st1)"

definition claim :: "claim_env \<Rightarrow> agent \<Rightarrow> int \<Rightarrow> int list \<Rightarrow> store \<Rightarrow> store \<times> (transcribe_exc + job_offer list)" where
  "claim E agent wanted brands st =
     (let limit = nat (max 1 (min wanted MAX_CLAIM)); n = max 1 (length brands); share = max 1 ((limit + n - 1) div n)
      in claim_brands E agent limit share brands [] st)"

section \<open>What comes back\<close>

record agent_segment =
  as_start :: rat
  as_end :: rat
  as_text :: string
  as_confidence :: "rat option"

record agent_result =
  ar_segments :: "agent_segment list"
  ar_language :: "string option"
  ar_language_detected :: "string option"
  ar_language_probability :: "rat option"
  ar_duration_seconds :: "rat option"
  ar_speech_seconds :: "rat option"
  ar_model :: string
  ar_device :: string
  ar_seconds_taken :: "rat option"

definition parse_job :: "string \<Rightarrow> transcribe_exc + int \<times> string" where
  "parse_job job =
     (case partition_at CHR ''.'' job of (brand, _, token) \<Rightarrow>
        if brand = [] \<or> \<not> list_all py_isdigit_char brand \<or> token = [] then Inl (LeaseGone ''not a job id'')
        else if \<not> list_all is_digit brand
        then Inl (TxPy (ValueError (''invalid literal for int() with base 10: '' @ py_repr brand)))
        else Inr (py_int brand, token))"

definition settings_for :: "setting_readers \<Rightarrow> int \<Rightarrow> transcribe_exc + transcribe_settings" where
  "settings_for R brand = (case load_settings R brand of Inl e \<Rightarrow> Inl (TxPy e) | Inr c \<Rightarrow> Inr c)"

text \<open>The session sees the leases of its organisation only.\<close>

definition held_lease :: "dt \<Rightarrow> int \<Rightarrow> agent \<Rightarrow> string \<Rightarrow> store \<Rightarrow> transcribe_exc + int" where
  "held_lease now brand agent token st =
     (case find_row (\<lambda>l. le_brand_id l = brand \<and> le_token l = token \<and> now < le_expires_at l) (st_leases st) of
        None \<Rightarrow> Inl (LeaseGone ''this job is no longer held by this agent'')
      | Some l \<Rightarrow> if le_agent_id l \<noteq> an_id agent then Inl (LeaseGone ''this job is no longer held by this agent'')
                else Inr (le_recording_id l))"

definition release :: "int \<Rightarrow> string \<Rightarrow> store \<Rightarrow> store \<times> dt option" where
  "release brand token st =
     (let mine = (\<lambda>l. le_brand_id l = brand \<and> le_token l = token)
      in (st\<lparr>st_leases := filter (\<lambda>l. \<not> mine l) (st_leases st)\<rparr>,
          case find_row mine (st_leases st) of Some l \<Rightarrow> le_started_at l | None \<Rightarrow> None))"

definition milliseconds :: "rat \<Rightarrow> int" where
  "milliseconds x = (if x < 0 then \<lceil>x * 1000\<rceil> else \<lfloor>x * 1000\<rfloor>)"

definition round_places :: "rat \<Rightarrow> rat" where
  "round_places x = of_int (round_half_even (10000 * x)) / 10000"

definition bounded :: "rat option \<Rightarrow> rat option" where
  "bounded x = map_option (\<lambda>v. round_places (min 1 (max 0 v))) x"

definition received_segments :: "bool \<Rightarrow> agent_segment list \<Rightarrow> segment list" where
  "received_segments redact segs =
     List.map_filter (\<lambda>(i, s).
       let said = py_strip (as_text s)
       in if said = [] then None
          else Some \<lparr>sg_seq = int i, sg_start_ms = milliseconds (as_start s), sg_end_ms = milliseconds (as_end s),
                 sg_text = (if redact then redact_digits said else said), sg_speaker = None,
                 sg_confidence = bounded (as_confidence s)\<rparr>) (enumerate 0 segs)"

definition mean_confidence :: "segment list \<Rightarrow> rat option" where
  "mean_confidence segs =
     (let cs = List.map_filter sg_confidence segs
      in if cs = [] then None else Some (round_places (sum_list cs / of_nat (length cs))))"

definition json_num :: "rat option \<Rightarrow> json" where
  "json_num x = (case x of None \<Rightarrow> JNull | Some v \<Rightarrow> JNum v)"

definition received :: "agent \<Rightarrow> agent_result \<Rightarrow> transcribe_settings \<Rightarrow> transcript_result" where
  "received agent result config =
     (let segs = received_segments (tc_redact_numbers config) (ar_segments result)
      in \<lparr>tr_text = join '' '' (map sg_text segs), tr_language = ar_language result,
          tr_language_detected = ar_language_detected result, tr_confidence = mean_confidence segs,
          tr_duration_seconds = ar_duration_seconds result, tr_segments = segs, tr_speaker_count = None,
          tr_engine = ''faster-whisper-agent'',
          tr_model = (if ar_model result = [] then tc_model config else ar_model result),
          tr_engine_detail = [(''agent'', JStr (an_name agent)), (''device'', JStr (ar_device result)),
            (''language_probability'', json_num (ar_language_probability result)),
            (''speech_seconds'', json_num (ar_speech_seconds result)),
            (''seconds_taken'', json_num (ar_seconds_taken result)), (''vad_filter'', JBool True)],
          tr_speech_seconds = ar_speech_seconds result\<rparr>)"

definition one_recording :: "int \<Rightarrow> int \<Rightarrow> store \<Rightarrow> transcribe_exc + recording" where
  "one_recording brand i st =
     (case find_row (\<lambda>r. rec_brand_id r = brand \<and> rec_id r = i) (db_recordings (st_db st)) of
        None \<Rightarrow> Inl (TxPy (LookupError ''No row was found when one was required'')) | Some r \<Rightarrow> Inr r)"

definition submit :: "(string \<Rightarrow> string) \<Rightarrow> setting_readers \<Rightarrow> dt \<Rightarrow> agent \<Rightarrow> string \<Rightarrow> agent_result \<Rightarrow> store \<Rightarrow>
    store \<times> (transcribe_exc + string)" where
  "submit sha1_hex R now agent job result st =
     (case res_bind (parse_job job) (\<lambda>(brand, token).
             res_bind (held_lease now brand agent token st) (\<lambda>i.
             res_bind (one_recording brand i st) (\<lambda>r.
             res_bind (settings_for R brand) (\<lambda>config.
             res_bind (file_result sha1_hex now r brand (received agent result config) config st) (\<lambda>(st1, kept).
               Inr (fst (release brand token st1), if kept then ''stored'' else ''skipped'')))))) of
        Inl e \<Rightarrow> (st, Inl e)
      | Inr (st1, out) \<Rightarrow> (st1, Inr out))"

definition fail_job :: "setting_readers \<Rightarrow> dt \<Rightarrow> agent \<Rightarrow> string \<Rightarrow> string \<Rightarrow> bool \<Rightarrow> store \<Rightarrow> store \<times> (transcribe_exc + unit)" where
  "fail_job R now agent job reason retry st =
     (case res_bind (parse_job job) (\<lambda>(brand, token).
             res_bind (held_lease now brand agent token st) (\<lambda>i.
               case release brand token st of (st1, started) \<Rightarrow>
                 if retry then Inr (case started of Some t \<Rightarrow> move_cursor brand t True st1 | None \<Rightarrow> st1)
                 else res_bind (one_recording brand i st1) (\<lambda>r.
                      res_bind (settings_for R brand) (\<lambda>config.
                        record_failure now r brand (take 400 (''agent '' @ an_name agent @ '': '' @ reason)) config st1)))) of
        Inl e \<Rightarrow> (st, Inl e)
      | Inr st1 \<Rightarrow> (st1, Inr ()))"

section \<open>The requests\<close>

datatype 'a answer = Answer 'a | Unauthorized | Conflict string | ServerError transcribe_exc

text \<open>The request's own session holds what the authentication noted; it is undone with the request.\<close>

definition claim_request :: "(string \<Rightarrow> string) \<Rightarrow> claim_env \<Rightarrow> string option \<Rightarrow> int \<Rightarrow> (string \<times> string) list \<Rightarrow> int list \<Rightarrow>
    store \<Rightarrow> store \<times> job_offer list answer" where
  "claim_request hash_token E authorization wanted detail brands st =
     (case current_agent hash_token (ce_now E) authorization st of
        (_, None) \<Rightarrow> (st, Unauthorized)
      | (st1, Some agent) \<Rightarrow>
          (case claim E agent wanted brands (note_detail agent detail st1) of
             (st2, Inr jobs) \<Rightarrow> (st2, Answer jobs)
           | (st2, Inl e) \<Rightarrow> (st2\<lparr>st_agents := st_agents st\<rparr>, ServerError e)))"

definition answer_of :: "store \<Rightarrow> store \<times> (transcribe_exc + 'a) \<Rightarrow> store \<times> 'a answer" where
  "answer_of st x =
     (case x of
        (st1, Inr out) \<Rightarrow> (st1, Answer out)
      | (_, Inl (LeaseGone m)) \<Rightarrow> (st, Conflict m)
      | (_, Inl e) \<Rightarrow> (st, ServerError e))"

definition result_request :: "(string \<Rightarrow> string) \<Rightarrow> (string \<Rightarrow> string) \<Rightarrow> setting_readers \<Rightarrow> dt \<Rightarrow> string option \<Rightarrow> string \<Rightarrow>
    agent_result \<Rightarrow> store \<Rightarrow> store \<times> string answer" where
  "result_request hash_token sha1_hex R now authorization job body st =
     (case current_agent hash_token now authorization st of
        (_, None) \<Rightarrow> (st, Unauthorized)
      | (st1, Some agent) \<Rightarrow> answer_of st (submit sha1_hex R now agent job body st1))"

definition fail_request :: "(string \<Rightarrow> string) \<Rightarrow> setting_readers \<Rightarrow> dt \<Rightarrow> string option \<Rightarrow> string \<Rightarrow> string \<Rightarrow> bool \<Rightarrow>
    store \<Rightarrow> store \<times> string answer" where
  "fail_request hash_token R now authorization job reason retry st =
     (case current_agent hash_token now authorization st of
        (_, None) \<Rightarrow> (st, Unauthorized)
      | (st1, Some agent) \<Rightarrow>
          (case answer_of st (fail_job R now agent job reason retry st1) of
             (st2, Answer _) \<Rightarrow> (st2, Answer (if retry then ''returned'' else ''recorded''))
           | (st2, Conflict m) \<Rightarrow> (st2, Conflict m)
           | (st2, Unauthorized) \<Rightarrow> (st2, Unauthorized)
           | (st2, ServerError e) \<Rightarrow> (st2, ServerError e)))"

section \<open>The server's own transcriber\<close>

definition UNAVAILABLE_SECONDS :: rat where "UNAVAILABLE_SECONDS = 300"
definition IDLE_SECONDS :: rat where "IDLE_SECONDS = 30"
definition BUSY_SECONDS :: rat where "BUSY_SECONDS = 1"

text \<open>Newest first, those of unknown start last.\<close>

definition pending_recordings :: "int \<Rightarrow> nat \<Rightarrow> dt \<Rightarrow> store \<Rightarrow> int list" where
  "pending_recordings brand limit now st =
     (let free = filter (\<lambda>r. archived brand r \<and> \<not> transcribed brand (rec_id r) st \<and>
            \<not> list_ex (\<lambda>l. le_brand_id l = brand \<and> le_recording_id l = rec_id r \<and> now < le_expires_at l) (st_leases st))
            (db_recordings (st_db st))
      in map rec_id (take limit (sort_key (\<lambda>r. - start_of r) (filter (\<lambda>r. rec_started_at r \<noteq> None) free) @
           filter (\<lambda>r. rec_started_at r = None) free)))"

type_synonym retries = "(int \<times> rat) list"

definition transcribe_one :: "recogniser \<Rightarrow> dt \<Rightarrow> rat \<Rightarrow> int \<Rightarrow> transcribe_settings \<Rightarrow> int \<Rightarrow> retries \<times> store \<Rightarrow> (retries \<times> store) \<times> bool" where
  "transcribe_one G now loop_now brand config i s =
     (case transcribe_recording G now i brand config (snd s) of
        Inr (st1, done) \<Rightarrow> ((fst s, st1), done)
      | Inl (EngineUnavailable m) \<Rightarrow> ((AList.update brand (loop_now + UNAVAILABLE_SECONDS) (fst s), snd s), False)
      | Inl e \<Rightarrow> (s, False))"

fun transcribe_each :: "recogniser \<Rightarrow> dt \<Rightarrow> rat \<Rightarrow> int \<Rightarrow> transcribe_settings \<Rightarrow> int list \<Rightarrow> retries \<times> store \<Rightarrow> (retries \<times> store) \<times> nat" where
  "transcribe_each G now loop_now brand config [] s = (s, 0)"
| "transcribe_each G now loop_now brand config (i # is) s =
     (case transcribe_one G now loop_now brand config i s of
        (s1, done) \<Rightarrow> (case transcribe_each G now loop_now brand config is s1 of (s2, n) \<Rightarrow> (s2, n + (if done then 1 else 0))))"

definition pass_for_brand :: "recogniser \<Rightarrow> setting_readers \<Rightarrow> dt \<Rightarrow> rat \<Rightarrow> int \<Rightarrow> retries \<times> store \<Rightarrow> (retries \<times> store) \<times> (py_exc + nat)" where
  "pass_for_brand G R now loop_now brand s =
     (if loop_now < (case map_of (fst s) brand of Some t \<Rightarrow> t | None \<Rightarrow> 0) then (s, Inr 0)
      else case load_settings R brand of
             Inl e \<Rightarrow> (s, Inl e)
           | Inr config \<Rightarrow>
               if \<not> tc_enabled config then (s, Inr 0)
               else (case build_engine config of
                  Inl _ \<Rightarrow> ((AList.update brand (loop_now + UNAVAILABLE_SECONDS) (fst s), snd s), Inr 0)
                | Inr _ \<Rightarrow>
                    (case transcribe_each G now loop_now brand config
                            (pending_recordings brand (nat (max 1 (tc_concurrency config))) now (snd s)) s of
                       (s1, n) \<Rightarrow> (s1, Inr n))))"

fun transcriber_pass :: "recogniser \<Rightarrow> setting_readers \<Rightarrow> dt \<Rightarrow> rat \<Rightarrow> int list \<Rightarrow> retries \<times> store \<Rightarrow> (retries \<times> store) \<times> (py_exc + nat)" where
  "transcriber_pass G R now loop_now [] s = (s, Inr 0)"
| "transcriber_pass G R now loop_now (b # bs) s =
     (case pass_for_brand G R now loop_now b s of
        (s1, Inl e) \<Rightarrow> (s1, Inl e)
      | (s1, Inr n) \<Rightarrow> (case transcriber_pass G R now loop_now bs s1 of (s2, r) \<Rightarrow> (s2, res_bind r (\<lambda>m. Inr (n + m)))))"

definition delay_after :: "py_exc + nat \<Rightarrow> rat" where
  "delay_after worked = (case worked of Inr (Suc _) \<Rightarrow> BUSY_SECONDS | _ \<Rightarrow> IDLE_SECONDS)"

section \<open>How far along\<close>

record progress_row =
  pg_archived :: int
  pg_processed :: int
  pg_remaining :: int
  pg_pct :: rat
  pg_per_hour :: rat
  pg_last_24h :: int
  pg_with_speech :: int
  pg_eta_hours :: "rat option"

definition round_hundredth :: "rat \<Rightarrow> rat" where
  "round_hundredth x = of_int (round_half_even (100 * x)) / 100"

text \<open>\<open>stored\<close> is the sum of the organisation's \<open>objects_stored\<close>.\<close>

definition measure_progress :: "dt \<Rightarrow> int \<Rightarrow> int \<Rightarrow> store \<Rightarrow> progress_row" where
  "measure_progress now brand stored st =
     (let mine = filter (\<lambda>t. tx_brand_id t = brand) (st_transcripts st);
          dayful = filter (\<lambda>t. now - day < tx_updated_at t) mine;
          last_hour = int (length (filter (\<lambda>t. now - hour < tx_updated_at t) dayful)); last_day = int (length dayful);
          processed = int (length mine); remaining = max (stored - processed) 0;
          per_hour = (if last_hour \<noteq> 0 then of_int last_hour else of_int last_day / 24)
      in \<lparr>pg_archived = stored, pg_processed = processed, pg_remaining = remaining,
          pg_pct = (if stored \<noteq> 0 then round_hundredth (100 * of_int processed / of_int stored) else 0),
          pg_per_hour = round_tenth per_hour, pg_last_24h = last_day,
          pg_with_speech = int (length (filter (\<lambda>t. tx_text t \<noteq> None) dayful)),
          pg_eta_hours = (if per_hour \<noteq> 0 then Some (round_tenth (of_int remaining / per_hour)) else None)\<rparr>)"

section \<open>One lease at most\<close>

lemma leased_iff: "leased b i st \<longleftrightarrow> (b, i) \<in> (\<lambda>l. (le_brand_id l, le_recording_id l)) ` set (st_leases st)"
  by (auto simp: leased_def list_ex_iff image_iff)

lemma transcribed_iff: "transcribed b i st \<longleftrightarrow> (b, i) \<in> transcript_key ` set (st_transcripts st)"
  by (force simp: transcribed_def list_ex_iff image_iff)

definition lease_key :: "lease \<Rightarrow> int \<times> int" where
  "lease_key l = (le_brand_id l, le_recording_id l)"

text \<open>The tables of the protocol: a recording has one transcript and one lease at most, a token names one lease, and a
  lease remembers the start of its recording.\<close>

definition lease_of :: "database \<Rightarrow> lease \<Rightarrow> bool" where
  "lease_of d l \<longleftrightarrow> (\<exists>t. le_started_at l = Some t \<and>
     (\<forall>r \<in> set (db_recordings d). rec_brand_id r = le_brand_id l \<longrightarrow> rec_id r = le_recording_id l \<longrightarrow> rec_started_at r = Some t))"

definition leases_ok :: "store \<Rightarrow> bool" where
  "leases_ok st \<longleftrightarrow> transcripts_ok st \<and> distinct (map lease_key (st_leases st)) \<and> distinct (map le_token (st_leases st)) \<and>
     (\<forall>l \<in> set (st_leases st). lease_of (st_db st) l)"

text \<open>No recording an agent could be given lies behind its organisation's cursor, and leases are given from a cursor.\<close>

definition none_behind :: "store \<Rightarrow> bool" where
  "none_behind st \<longleftrightarrow>
     (\<forall>brand. \<forall>r \<in> set (db_recordings (st_db st)).
       waiting brand st r \<longrightarrow> rec_started_at r \<noteq> None \<longrightarrow> from_cursor (cursor_of brand st) r) \<and>
     (\<forall>l \<in> set (st_leases st). cursor_of (le_brand_id l) st \<noteq> None)"

definition protocol_inv :: "store \<Rightarrow> bool" where
  "protocol_inv st \<longleftrightarrow> leases_ok st \<and> none_behind st \<and> distinct (map rec_id (db_recordings (st_db st)))"

section \<open>What the steps do to the tables\<close>

lemma transcribed_after:
  assumes "filter (\<lambda>x. transcript_key x \<noteq> k) (st_transcripts st') = filter (\<lambda>x. transcript_key x \<noteq> k) (st_transcripts st)"
    and "find_row (\<lambda>x. transcript_key x = k) (st_transcripts st') = Some t"
  shows "transcribed b i st' \<longleftrightarrow> (b, i) = k \<or> transcribed b i st"
proof -
  have "transcript_key t = k" "t \<in> set (st_transcripts st')" using assms(2) by (auto simp: find_row_def find_Some_iff)
  moreover have "set (filter (\<lambda>x. transcript_key x \<noteq> k) (st_transcripts st')) = set (filter (\<lambda>x. transcript_key x \<noteq> k) (st_transcripts st))"
    using assms(1) by simp
  ultimately show ?thesis unfolding transcribed_iff set_filter by (cases "(b, i) = k") (auto simp: image_iff set_eq_iff)
qed

text \<open>What the filing of a result leaves alone.\<close>

definition same_protocol :: "store \<Rightarrow> store \<Rightarrow> bool" where
  "same_protocol st st' \<longleftrightarrow> st_db st' = st_db st \<and> st_destinations st' = st_destinations st \<and> st_leases st' = st_leases st \<and>
     st_cursors st' = st_cursors st \<and> st_agents st' = st_agents st \<and> st_audit st' = st_audit st"

lemma record_failure_effect:
  assumes "transcripts_ok st" and "record_failure now r brand reason config st = Inr st'"
  shows "transcripts_ok st'" and "same_protocol st st'" and "st_phrases st' = st_phrases st" and "st_segments st' = st_segments st"
    and "transcribed b i st' \<longleftrightarrow> (b, i) = (brand, rec_id r) \<or> transcribed b i st"
proof -
  note sp = record_failure_spec [OF assms]
  show "transcripts_ok st'" by (rule sp(1))
  obtain rows n where "st' = st\<lparr>st_transcripts := rows, st_next_id := n\<rparr>" using sp(4) by blast
  then show "same_protocol st st'" "st_phrases st' = st_phrases st" "st_segments st' = st_segments st" by (simp_all add: same_protocol_def)
  obtain t where "find_row (\<lambda>x. transcript_key x = (brand, rec_id r)) (st_transcripts st') = Some t" using sp(3) by blast
  from transcribed_after [OF sp(2) this] show "transcribed b i st' \<longleftrightarrow> (b, i) = (brand, rec_id r) \<or> transcribed b i st" .
qed

lemma learn_other_brands: "filter (\<lambda>p. ph_brand_id p \<noteq> b) (learn_phrases b keyed phrases) = filter (\<lambda>p. ph_brand_id p \<noteq> b) phrases"
proof -
  have "filter (\<lambda>p. ph_brand_id p \<noteq> b) (upsert phrase_id count_phrase p ps) = filter (\<lambda>p. ph_brand_id p \<noteq> b) ps"
    if "ph_brand_id p = b" for p ps
  proof -
    have "filter (\<lambda>p. ph_brand_id p \<noteq> b) (update_where (\<lambda>x. phrase_id x = phrase_id p) (\<lambda>x. count_phrase x p) ps) =
        filter (\<lambda>p. ph_brand_id p \<noteq> b) ps"
      unfolding update_where_def using that by (induction ps) (auto simp: phrase_id_def count_phrase_def)
    then show ?thesis using that by (simp add: upsert_def)
  qed
  then have "filter (\<lambda>p. ph_brand_id p \<noteq> b) (upsert_all phrase_id count_phrase ps qs) = filter (\<lambda>p. ph_brand_id p \<noteq> b) qs"
    if "\<forall>p \<in> set ps. ph_brand_id p = b" for ps qs
    using that unfolding upsert_all_def by (induction ps arbitrary: qs) simp_all
  then show ?thesis unfolding learn_phrases_def by simp
qed

lemma file_result_effect:
  assumes ok: "transcripts_ok st" and filed: "file_result h now r brand res config st = Inr (st', kept)"
  shows "transcripts_ok st'" and "same_protocol st st'"
    and "transcribed b i st' \<longleftrightarrow> (b, i) = (brand, rec_id r) \<or> transcribed b i st"
    and "filter (\<lambda>x. transcript_key x \<noteq> (brand, rec_id r)) (st_transcripts st') = filter (\<lambda>x. transcript_key x \<noteq> (brand, rec_id r)) (st_transcripts st)"
    and "filter (\<lambda>p. ph_brand_id p \<noteq> brand) (st_phrases st') = filter (\<lambda>p. ph_brand_id p \<noteq> brand) (st_phrases st)"
    and "filter (\<lambda>s. sr_transcript_id s \<noteq> transcript_id brand (rec_id r) st') (st_segments st') =
      filter (\<lambda>s. sr_transcript_id s \<noteq> transcript_id brand (rec_id r) st') (st_segments st)"
proof -
  obtain st1 v where judged: "judge h brand (tr_segments res) (tc_announcement_repeats config) (tc_min_speech_seconds config) True st = (st1, v)"
    by force
  then have st1: "st1 = st\<lparr>st_phrases := learn_phrases brand (keyed_of h (tr_segments res)) (st_phrases st)\<rparr>"
    by (simp add: judge_def Let_def)
  have ok1: "transcripts_ok st1" using ok by (simp add: st1 transcripts_ok_def)
  have tr1: "st_transcripts st1 = st_transcripts st" "transcribed b i st1 = transcribed b i st" by (simp_all add: st1 transcribed_def)
  have sp1: "same_protocol st st1" by (simp add: st1 same_protocol_def)
  have ph: "filter (\<lambda>p. ph_brand_id p \<noteq> brand) (st_phrases st1) = filter (\<lambda>p. ph_brand_id p \<noteq> brand) (st_phrases st)"
    by (simp add: st1 learn_other_brands)
  let ?res = "with_conversation v res"
  have "transcripts_ok st' \<and> same_protocol st st' \<and>
      (transcribed b i st' \<longleftrightarrow> (b, i) = (brand, rec_id r) \<or> transcribed b i st) \<and>
      filter (\<lambda>x. transcript_key x \<noteq> (brand, rec_id r)) (st_transcripts st') = filter (\<lambda>x. transcript_key x \<noteq> (brand, rec_id r)) (st_transcripts st) \<and>
      filter (\<lambda>p. ph_brand_id p \<noteq> brand) (st_phrases st') = filter (\<lambda>p. ph_brand_id p \<noteq> brand) (st_phrases st) \<and>
      filter (\<lambda>s. sr_transcript_id s \<noteq> transcript_id brand (rec_id r) st') (st_segments st') =
      filter (\<lambda>s. sr_transcript_id s \<noteq> transcript_id brand (rec_id r) st') (st_segments st)"
  proof (cases "reason_of v ?res config")
    case None
    then have stored: "store_transcript now r brand ?res config st1 = Inr st'"
      using filed judged by (simp add: file_result_def res_bind_Inr_iff Let_def)
    note sp = store_transcript_spec [OF ok1 stored]
    obtain rows segs n where st': "st' = st1\<lparr>st_transcripts := rows, st_segments := segs, st_next_id := n\<rparr>" using sp(4) by blast
    obtain t where t: "find_row (\<lambda>x. transcript_key x = (brand, rec_id r)) (st_transcripts st') = Some t"
      and segs: "filter (\<lambda>s. sr_transcript_id s \<noteq> tx_id t) (st_segments st') = filter (\<lambda>s. sr_transcript_id s \<noteq> tx_id t) (st_segments st1)"
      using sp(3) by blast
    have "transcript_id brand (rec_id r) st' = tx_id t" by (simp add: transcript_id_def t)
    then have "filter (\<lambda>s. sr_transcript_id s \<noteq> transcript_id brand (rec_id r) st') (st_segments st') =
      filter (\<lambda>s. sr_transcript_id s \<noteq> transcript_id brand (rec_id r) st') (st_segments st)" using segs by (simp add: st1)
    moreover have "same_protocol st st'" using sp1 by (simp add: st' same_protocol_def)
    moreover have "st_phrases st' = st_phrases st1" by (simp add: st')
    ultimately show ?thesis
      using sp(1,2) tr1 ph transcribed_after [OF sp(2) t, of b i] by simp
  next
    case (Some reason)
    then have failed: "record_failure now r brand reason config st1 = Inr st'"
      using filed judged by (simp add: file_result_def res_bind_Inr_iff Let_def)
    note ef = record_failure_effect [OF ok1 failed] and sp = record_failure_spec [OF ok1 failed]
    have "same_protocol st st'" using sp1 ef(2) by (simp add: same_protocol_def)
    then show ?thesis
      using ef(1,3,4,5) sp(2) tr1 ph by (simp add: st1)
  qed
  then show "transcripts_ok st'" "same_protocol st st'"
    "transcribed b i st' \<longleftrightarrow> (b, i) = (brand, rec_id r) \<or> transcribed b i st"
    "filter (\<lambda>x. transcript_key x \<noteq> (brand, rec_id r)) (st_transcripts st') = filter (\<lambda>x. transcript_key x \<noteq> (brand, rec_id r)) (st_transcripts st)"
    "filter (\<lambda>p. ph_brand_id p \<noteq> brand) (st_phrases st') = filter (\<lambda>p. ph_brand_id p \<noteq> brand) (st_phrases st)"
    "filter (\<lambda>s. sr_transcript_id s \<noteq> transcript_id brand (rec_id r) st') (st_segments st') =
      filter (\<lambda>s. sr_transcript_id s \<noteq> transcript_id brand (rec_id r) st') (st_segments st)"
    by simp_all
qed

section \<open>Nothing is left behind\<close>

lemma cursor_of_move:
  "cursor_of b (move_cursor brand t back st) =
     (if b = brand then Some (case cursor_of brand st of None \<Rightarrow> t | Some c \<Rightarrow> if back then min c t else max c t) else cursor_of b st)"
  by (simp add: cursor_of_def move_cursor_def update_conv')

lemma move_cursor_simps [simp]:
  "st_db (move_cursor b t back st) = st_db st" "st_leases (move_cursor b t back st) = st_leases st"
  "st_transcripts (move_cursor b t back st) = st_transcripts st" "st_segments (move_cursor b t back st) = st_segments st"
  "st_next_id (move_cursor b t back st) = st_next_id st" "st_phrases (move_cursor b t back st) = st_phrases st"
  by (simp_all add: move_cursor_def)

lemma waiting_tables:
  "st_transcripts st' = st_transcripts st \<Longrightarrow> st_leases st' = st_leases st \<Longrightarrow> waiting b st' r = waiting b st r"
  by (simp add: waiting_def transcribed_def leased_def)

lemma leases_ok_tables:
  "\<lbrakk>transcripts_ok st'; st_db st' = st_db st; distinct (map lease_key (st_leases st')); distinct (map le_token (st_leases st'));
    set (st_leases st') \<subseteq> set (st_leases st); leases_ok st\<rbrakk> \<Longrightarrow> leases_ok st'"
  by (auto simp: leases_ok_def)

lemma transcripts_ok_tables:
  "\<lbrakk>transcripts_ok st; st_transcripts st' = st_transcripts st; st_segments st' = st_segments st; st_next_id st' = st_next_id st\<rbrakk> \<Longrightarrow> transcripts_ok st'"
  by (simp add: transcripts_ok_def)

lemma filter_leases_ok:
  assumes "leases_ok st" "transcripts_ok st'" "st_db st' = st_db st" "st_leases st' = filter p (st_leases st)"
  shows "leases_ok st'"
proof (rule leases_ok_tables [OF assms(2,3) _ _ _ assms(1)])
  show "distinct (map lease_key (st_leases st'))" "distinct (map le_token (st_leases st'))"
    using assms(1) by (simp_all add: assms(4) leases_ok_def distinct_map_filter)
qed (simp add: assms(4))

lemma same_token: "leases_ok st \<Longrightarrow> l \<in> set (st_leases st) \<Longrightarrow> l' \<in> set (st_leases st) \<Longrightarrow> le_token l = le_token l' \<Longrightarrow> l = l'"
  by (auto simp: leases_ok_def distinct_map inj_on_def)

text \<open>Fewer wait, the cursors stay.\<close>

lemma none_behind_shrinks:
  assumes "none_behind st" "st_db st' = st_db st" "st_cursors st' = st_cursors st" "set (st_leases st') \<subseteq> set (st_leases st)"
    and "\<And>b r. r \<in> set (db_recordings (st_db st)) \<Longrightarrow> waiting b st' r \<Longrightarrow> waiting b st r"
  shows "none_behind st'"
  using assms unfolding none_behind_def cursor_of_def by (metis subset_iff)

text \<open>Leases are taken away and the cursor goes back to the oldest of them.\<close>

lemma given_back:
  assumes inv: "protocol_inv st" and brand: "\<And>l. gone l \<Longrightarrow> le_brand_id l = brand"
    and some: "\<exists>l \<in> set (st_leases st). gone l"
    and oldest: "\<And>l t. l \<in> set (st_leases st) \<Longrightarrow> gone l \<Longrightarrow> le_started_at l = Some t \<Longrightarrow> m \<le> t"
  shows "protocol_inv (move_cursor brand m True (st\<lparr>st_leases := filter (\<lambda>l. \<not> gone l) (st_leases st)\<rparr>))" (is "protocol_inv ?st")
proof -
  have ok: "leases_ok st" and behind: "none_behind st" and ids: "distinct (map rec_id (db_recordings (st_db st)))"
    using inv by (simp_all add: protocol_inv_def)
  obtain c where c: "cursor_of brand st = Some c" using some brand behind by (fastforce simp: none_behind_def)
  have cur: "cursor_of b ?st = (if b = brand then Some (min c m) else cursor_of b st)" for b
    using c by (simp add: cursor_of_move) (simp add: cursor_of_def)
  have "transcripts_ok ?st" by (rule transcripts_ok_tables [of st]) (use ok in \<open>simp_all add: leases_ok_def\<close>)
  then have "leases_ok ?st" by (rule filter_leases_ok [OF ok]) simp_all
  moreover have "none_behind ?st" unfolding none_behind_def
  proof (intro conjI allI ballI impI)
    fix b r assume r: "r \<in> set (db_recordings (st_db ?st))" and wait: "waiting b ?st r" and start: "rec_started_at r \<noteq> None"
    show "from_cursor (cursor_of b ?st) r"
    proof (cases "leased b (rec_id r) st")
      case False
      then have "waiting b st r" using wait by (auto simp: waiting_def transcribed_def leased_def)
      then have "from_cursor (cursor_of b st) r" using behind r start by (simp add: none_behind_def)
      then show ?thesis using c by (auto simp: from_cursor_def cur split: option.splits)
    next
      case True
      then obtain l where l: "l \<in> set (st_leases st)" "le_brand_id l = b" "le_recording_id l = rec_id r"
        by (auto simp: leased_def list_ex_iff)
      have gone: "gone l" using wait l by (auto simp: waiting_def leased_def list_ex_iff)
      then have "b = brand" using brand l by simp
      obtain t where t: "le_started_at l = Some t" "rec_started_at r = Some t"
        using ok l r wait by (auto simp: leases_ok_def lease_of_def waiting_def archived_def)
      then show ?thesis using oldest [OF l(1) gone t(1)] \<open>b = brand\<close> by (simp add: from_cursor_def cur)
    qed
  next
    fix l assume "l \<in> set (st_leases ?st)"
    then show "cursor_of (le_brand_id l) ?st \<noteq> None" using behind by (auto simp: cur none_behind_def)
  qed
  ultimately show ?thesis using ids by (simp add: protocol_inv_def)
qed

lemma foldl_min_le: "x \<in> set (d # ds) \<Longrightarrow> foldl min (d :: int) ds \<le> x"
proof -
  have "foldl min d ds \<le> d \<and> (\<forall>x \<in> set ds. foldl min d ds \<le> x)"
    by (induction ds arbitrary: d) (fastforce simp: min_def)+
  then show "x \<in> set (d # ds) \<Longrightarrow> foldl min d ds \<le> x" by auto
qed

lemma expire_inv:
  assumes inv: "protocol_inv st"
  shows "protocol_inv (expire_leases now brand st)"
proof -
  let ?gone = "\<lambda>l. le_brand_id l = brand \<and> le_expires_at l < now"
  let ?starts = "List.map_filter le_started_at (filter ?gone (st_leases st))"
  have started: "le_started_at l \<noteq> None" if "l \<in> set (st_leases st)" for l
    using inv that by (auto simp: protocol_inv_def leases_ok_def lease_of_def)
  show ?thesis
  proof (cases ?starts)
    case Nil
    have "filter ?gone (st_leases st) = []"
    proof (rule ccontr)
      assume "filter ?gone (st_leases st) \<noteq> []"
      then obtain l ls where ls: "filter ?gone (st_leases st) = l # ls" by (cases "filter ?gone (st_leases st)") auto
      then have "l \<in> set (filter ?gone (st_leases st))" by simp
      then have "le_started_at l \<noteq> None" using started by simp
      then show False using Nil ls by (auto simp: List.map_filter_simps split: option.splits)
    qed
    then have "filter (\<lambda>l. \<not> ?gone l) (st_leases st) = st_leases st" by (auto simp: filter_empty_conv filter_id_conv)
    then have "expire_leases now brand st = st" using Nil by (simp add: expire_leases_def Let_def)
    then show ?thesis using inv by simp
  next
    case (Cons d ds)
    have mem: "t \<in> set (d # ds)" if "l \<in> set (st_leases st)" "?gone l" "le_started_at l = Some t" for l t
    proof -
      have "t \<in> set ?starts" using that by (auto simp: List.map_filter_def image_iff)
      then show ?thesis using Cons by simp
    qed
    have "\<exists>l \<in> set (st_leases st). ?gone l"
    proof -
      have "d \<in> set ?starts" using Cons by simp
      then show ?thesis by (auto simp: List.map_filter_def)
    qed
    from given_back [OF inv _ this, of brand "foldl min d ds"] mem foldl_min_le show ?thesis
      using Cons by (simp add: expire_leases_def Let_def)
  qed
qed

section \<open>What comes back\<close>

lemma held_leaseD:
  assumes "held_lease now brand agent token st = Inr i"
  shows "\<exists>l \<in> set (st_leases st). le_brand_id l = brand \<and> le_token l = token \<and> le_recording_id l = i \<and>
    le_agent_id l = an_id agent \<and> now < le_expires_at l"
  using assms by (auto simp: held_lease_def find_row_def find_Some_iff split: option.splits if_splits)

lemma release_simps [simp]:
  "st_db (fst (release b t st)) = st_db st" "st_transcripts (fst (release b t st)) = st_transcripts st"
  "st_segments (fst (release b t st)) = st_segments st" "st_phrases (fst (release b t st)) = st_phrases st"
  "st_next_id (fst (release b t st)) = st_next_id st" "st_cursors (fst (release b t st)) = st_cursors st"
  "st_leases (fst (release b t st)) = filter (\<lambda>l. \<not> (le_brand_id l = b \<and> le_token l = t)) (st_leases st)"
  by (simp_all add: release_def)

lemma one_recordingD: "one_recording b i st = Inr r \<Longrightarrow> rec_id r = i \<and> rec_brand_id r = b \<and> r \<in> set (db_recordings (st_db st))"
  by (auto simp: one_recording_def find_row_def find_Some_iff split: option.splits)

text \<open>The recording of a released lease has been dealt with.\<close>

lemma dealt_with:
  assumes inv: "protocol_inv st" and l: "l \<in> set (st_leases st)" "le_brand_id l = brand" "le_token l = token" "le_recording_id l = i"
    and st': "transcripts_ok st'" "st_db st' = st_db st" "st_cursors st' = st_cursors st"
      "st_leases st' = filter (\<lambda>l. \<not> (le_brand_id l = brand \<and> le_token l = token)) (st_leases st)"
    and tr: "\<And>b j. transcribed b j st' \<longleftrightarrow> (b, j) = (brand, i) \<or> transcribed b j st"
  shows "protocol_inv st'"
proof -
  have ok: "leases_ok st" and behind: "none_behind st" using inv by (simp_all add: protocol_inv_def)
  have "waiting b st r" if "waiting b st' r" for b r
  proof -
    have "\<not> leased b (rec_id r) st"
    proof
      assume "leased b (rec_id r) st"
      then obtain l' where l': "l' \<in> set (st_leases st)" "le_brand_id l' = b" "le_recording_id l' = rec_id r"
        by (auto simp: leased_def list_ex_iff)
      have "\<not> leased b (rec_id r) st'" using that by (simp add: waiting_def)
      then have "le_brand_id l' = brand" "le_token l' = token" using l' by (auto simp: leased_def list_ex_iff st'(4))
      then have "l' = l" using same_token [OF ok l'(1) l(1)] l(3) by simp
      then have "transcribed b (rec_id r) st'" using l l' tr by simp
      then show False using that by (simp add: waiting_def)
    qed
    then show ?thesis using that tr by (simp add: waiting_def)
  qed
  then have "none_behind st'" by (intro none_behind_shrinks [OF behind st'(2,3)]) (auto simp: st'(4))
  then show ?thesis using inv filter_leases_ok [OF ok st'(1,2,4)] by (simp add: protocol_inv_def st'(2))
qed

lemma submit_inv:
  assumes inv: "protocol_inv st"
  shows "protocol_inv (fst (submit h R now agent job result st))"
proof (cases "snd (submit h R now agent job result st)")
  case (Inl e)
  then have "fst (submit h R now agent job result st) = st" by (auto simp: submit_def split: sum.splits)
  then show ?thesis using inv by simp
next
  case (Inr out)
  obtain brand token i r config st1 kept where held: "held_lease now brand agent token st = Inr i"
    and r: "one_recording brand i st = Inr r"
    and filed: "file_result h now r brand (received agent result config) config st = Inr (st1, kept)"
    and st': "fst (submit h R now agent job result st) = fst (release brand token st1)"
    using Inr unfolding submit_def by (auto simp: res_bind_Inr_iff split: sum.splits)
  obtain l where l: "l \<in> set (st_leases st)" "le_brand_id l = brand" "le_token l = token" "le_recording_id l = i"
    using held_leaseD [OF held] by blast
  have ok: "transcripts_ok st" using inv by (simp add: protocol_inv_def leases_ok_def)
  note ef = file_result_effect [OF ok filed]
  have same: "st_db st1 = st_db st" "st_leases st1 = st_leases st" "st_cursors st1 = st_cursors st"
    using ef(2) by (simp_all add: same_protocol_def)
  show ?thesis unfolding st'
  proof (rule dealt_with [OF inv l])
    show "transcripts_ok (fst (release brand token st1))" by (rule transcripts_ok_tables [OF ef(1)]) simp_all
    show "transcribed b j (fst (release brand token st1)) \<longleftrightarrow> (b, j) = (brand, i) \<or> transcribed b j st" for b j
      using ef(3) [of b j] one_recordingD [OF r] by (simp add: transcribed_def)
  qed (simp_all add: same)
qed

lemma fail_inv:
  assumes inv: "protocol_inv st"
  shows "protocol_inv (fst (fail_job R now agent job reason retry st))"
proof (cases "snd (fail_job R now agent job reason retry st)")
  case (Inl e)
  then have "fst (fail_job R now agent job reason retry st) = st" by (auto simp: fail_job_def split: sum.splits)
  then show ?thesis using inv by simp
next
  case (Inr u)
  define st' where "st' = fst (fail_job R now agent job reason retry st)"
  obtain brand token i where held: "held_lease now brand agent token st = Inr i"
    and did: "(case release brand token st of (st1, started) \<Rightarrow>
                 if retry then Inr (case started of Some t \<Rightarrow> move_cursor brand t True st1 | None \<Rightarrow> st1)
                 else res_bind (one_recording brand i st1) (\<lambda>r.
                      res_bind (settings_for R brand) (\<lambda>config.
                        record_failure now r brand (take 400 (''agent '' @ an_name agent @ '': '' @ reason)) config st1))) = Inr st'"
    using Inr unfolding st'_def fail_job_def by (auto simp: res_bind_Inr_iff split: sum.splits)
  obtain l where l: "l \<in> set (st_leases st)" "le_brand_id l = brand" "le_token l = token" "le_recording_id l = i"
    using held_leaseD [OF held] by blast
  let ?mine = "\<lambda>l. le_brand_id l = brand \<and> le_token l = token"
  have ok: "leases_ok st" using inv by (simp add: protocol_inv_def)
  obtain t where t: "le_started_at l = Some t" using ok l(1) by (auto simp: leases_ok_def lease_of_def)
  have only: "l' = l" if "l' \<in> set (st_leases st)" "?mine l'" for l' using same_token [OF ok that(1) l(1)] that l by simp
  have rel: "release brand token st = (st\<lparr>st_leases := filter (\<lambda>l. \<not> ?mine l) (st_leases st)\<rparr>, Some t)"
  proof -
    have "find_row ?mine (st_leases st) \<noteq> None" using l by (auto simp: find_row_def find_None_iff)
    then obtain l' where l': "find_row ?mine (st_leases st) = Some l'" by blast
    then have "l' \<in> set (st_leases st)" "?mine l'" by (auto simp: find_row_def find_Some_iff)
    then have "l' = l" using only by blast
    then show ?thesis using l' t by (simp add: release_def)
  qed
  have "protocol_inv st'"
  proof (cases retry)
    case True
    then have "st' = move_cursor brand t True (st\<lparr>st_leases := filter (\<lambda>l. \<not> ?mine l) (st_leases st)\<rparr>)" using did rel by simp
    moreover have "protocol_inv (move_cursor brand t True (st\<lparr>st_leases := filter (\<lambda>l. \<not> ?mine l) (st_leases st)\<rparr>))"
    proof (rule given_back [OF inv])
      show "\<exists>l \<in> set (st_leases st). ?mine l" using l by blast
      show "t \<le> u" if "l' \<in> set (st_leases st)" "?mine l'" "le_started_at l' = Some u" for l' u
        using only [OF that(1,2)] that(3) t by simp
    qed simp
    ultimately show ?thesis by simp
  next
    case False
    let ?st1 = "fst (release brand token st)"
    obtain r config where r: "one_recording brand i ?st1 = Inr r"
      and failed: "record_failure now r brand (take 400 (''agent '' @ an_name agent @ '': '' @ reason)) config ?st1 = Inr st'"
      using did unfolding rel prod.case if_not_P [OF False] fst_conv res_bind_Inr_iff by blast
    have "transcripts_ok ?st1" by (rule transcripts_ok_tables [of st]) (use ok in \<open>simp_all add: leases_ok_def\<close>)
    note ef = record_failure_effect [OF this failed]
    have same: "st_db st' = st_db st" "st_cursors st' = st_cursors st"
      "st_leases st' = filter (\<lambda>l. \<not> (le_brand_id l = brand \<and> le_token l = token)) (st_leases st)"
      using ef(2) by (simp_all add: same_protocol_def)
    show ?thesis
    proof (rule dealt_with [OF inv l ef(1) same])
      show "transcribed b j st' \<longleftrightarrow> (b, j) = (brand, i) \<or> transcribed b j st" for b j
        using ef(5) [of b j] one_recordingD [OF r] by (simp add: transcribed_def)
    qed
  qed
  then show ?thesis by (simp add: st'_def)
qed

section \<open>The claim\<close>

text \<open>The drawn tokens: different for different recordings, and none of a lease already given but its own.\<close>

definition draws_fresh :: "claim_env \<Rightarrow> store \<Rightarrow> bool" where
  "draws_fresh E st \<longleftrightarrow> list_all (\<lambda>r.
     list_all (\<lambda>r'. ce_token E (rec_id r) = ce_token E (rec_id r') \<longrightarrow> rec_id r = rec_id r') (db_recordings (st_db st)) \<and>
     list_all (\<lambda>l. le_token l = ce_token E (rec_id r) \<longrightarrow> lease_key l = (rec_brand_id r, rec_id r)) (st_leases st))
     (db_recordings (st_db st))"

lemma draws_fresh_leases:
  "\<lbrakk>draws_fresh E st; st_db st' = st_db st; set (st_leases st') \<subseteq> set (st_leases st)\<rbrakk> \<Longrightarrow> draws_fresh E st'"
  by (auto simp: draws_fresh_def list_all_iff)

definition leasing :: "claim_env \<Rightarrow> int \<Rightarrow> recording list \<Rightarrow> store \<Rightarrow> store \<Rightarrow> bool" where
  "leasing E brand rows st st' \<longleftrightarrow> leases_ok st' \<and> draws_fresh E st' \<and> st_db st' = st_db st \<and> st_cursors st' = st_cursors st \<and>
     (\<forall>b i. transcribed b i st \<longrightarrow> transcribed b i st') \<and> (\<forall>b i. leased b i st \<longrightarrow> leased b i st') \<and>
     (\<forall>r \<in> set rows. transcribed brand (rec_id r) st' \<or> leased brand (rec_id r) st') \<and>
     (\<forall>l \<in> set (st_leases st'). l \<in> set (st_leases st) \<or> le_brand_id l = brand)"

lemma leasing_step:
  assumes "leasing E brand rs st1 st'" "st_db st1 = st_db st" "st_cursors st1 = st_cursors st"
    "\<And>b i. transcribed b i st \<Longrightarrow> transcribed b i st1" "\<And>b i. leased b i st \<Longrightarrow> leased b i st1"
    "transcribed brand (rec_id r) st1 \<or> leased brand (rec_id r) st1"
    "\<And>l. l \<in> set (st_leases st1) \<Longrightarrow> l \<in> set (st_leases st) \<or> le_brand_id l = brand"
  shows "leasing E brand (r # rs) st st'"
  using assms unfolding leasing_def by (metis (no_types, lifting) set_ConsD)

lemma lease_each_leasing:
  assumes "lease_each E agent brand config rows st = Inr (st', held)" "leases_ok st" "draws_fresh E st"
    "distinct (map rec_id (db_recordings (st_db st)))"
    "\<forall>r \<in> set rows. r \<in> set (db_recordings (st_db st)) \<and> rec_brand_id r = brand \<and> rec_started_at r \<noteq> None"
  shows "leasing E brand rows st st'"
  using assms
proof (induction rows arbitrary: st st' held)
  case Nil
  then show ?case by (simp add: leasing_def)
next
  case (Cons r rs)
  note ok = Cons.prems(2) and fresh = Cons.prems(3) and ids = Cons.prems(4)
  have r: "r \<in> set (db_recordings (st_db st))" "rec_brand_id r = brand" "rec_started_at r \<noteq> None" using Cons.prems(5) by auto
  show ?case
  proof (cases "bill_duration r st = Some 0")
    case True
    then obtain st1 where failed: "record_failure (ce_now E) r brand ''skipped: not answered -- the call record shows no talk time'' config st = Inr st1"
      and rest: "lease_each E agent brand config rs st1 = Inr (st', held)" using Cons.prems(1) by (auto simp: res_bind_Inr_iff)
    have tok: "transcripts_ok st" using ok by (simp add: leases_ok_def)
    note ef = record_failure_effect [OF tok failed]
    have same: "st_db st1 = st_db st" "st_leases st1 = st_leases st" "st_cursors st1 = st_cursors st" using ef(2) by (simp_all add: same_protocol_def)
    have "leases_ok st1" using ok ef(1) same by (simp add: leases_ok_def)
    moreover have "draws_fresh E st1" using fresh same by (simp add: draws_fresh_def)
    ultimately have "leasing E brand rs st1 st'" using Cons.IH [OF rest] ids Cons.prems(5) same by simp
    then show ?thesis by (rule leasing_step) (use same ef(5) in \<open>auto simp: leased_def\<close>)
  next
    case answered: False
    let ?token = "ce_token E (rec_id r)"
    show ?thesis
    proof (cases "leased brand (rec_id r) st \<or> list_ex (\<lambda>l. le_token l = ?token) (st_leases st)")
      case True
      have "leased brand (rec_id r) st"
      proof (rule disjE [OF True])
        assume "list_ex (\<lambda>l. le_token l = ?token) (st_leases st)"
        then obtain l where "l \<in> set (st_leases st)" "le_token l = ?token" by (auto simp: list_ex_iff)
        then have "lease_key l = (brand, rec_id r)" using fresh r by (auto simp: draws_fresh_def list_all_iff)
        then show ?thesis using \<open>l \<in> set (st_leases st)\<close> by (auto simp: leased_def list_ex_iff lease_key_def)
      qed
      moreover have "lease_each E agent brand config rs st = Inr (st', held)" using Cons.prems(1) answered True by (simp add: Let_def)
      then have "leasing E brand rs st st'" using Cons.IH ok fresh ids Cons.prems(5) by simp
      ultimately show ?thesis by (intro leasing_step [of E brand rs st st' st r]) auto
    next
      case False
      let ?l = "\<lparr>le_brand_id = brand, le_recording_id = rec_id r, le_agent_id = an_id agent, le_token = ?token,
                 le_started_at = rec_started_at r, le_expires_at = ce_now E + LEASE_SECONDS * second\<rparr>"
      let ?st1 = "st\<lparr>st_leases := st_leases st @ [?l]\<rparr>"
      obtain held1 where rest: "lease_each E agent brand config rs ?st1 = Inr (st', held1)"
        using Cons.prems(1) answered False by (auto simp: res_bind_Inr_iff Let_def)
      have same: "r' = r" if "r' \<in> set (db_recordings (st_db st))" "rec_id r' = rec_id r" for r'
        using ids that r(1) by (auto simp: distinct_map inj_on_def)
      have token: "rec_id r' = rec_id r" if "r' \<in> set (db_recordings (st_db st))" "ce_token E (rec_id r') = ?token" for r'
        using fresh that r(1) unfolding draws_fresh_def list_all_iff by blast
      have "lease_key ?l \<notin> lease_key ` set (st_leases st)" "le_token ?l \<notin> le_token ` set (st_leases st)"
        using False by (auto simp: leased_def list_ex_iff lease_key_def)
      moreover have "lease_of (st_db st) ?l" using r same by (auto simp: lease_of_def)
      moreover have "transcripts_ok ?st1" by (rule transcripts_ok_tables [of st]) (use ok in \<open>simp_all add: leases_ok_def\<close>)
      ultimately have "leases_ok ?st1" using ok by (auto simp: leases_ok_def)
      moreover have "draws_fresh E ?st1"
        unfolding draws_fresh_def list_all_iff
      proof (intro ballI conjI impI)
        fix r1 r2 assume "r1 \<in> set (db_recordings (st_db ?st1))" "r2 \<in> set (db_recordings (st_db ?st1))"
          "ce_token E (rec_id r1) = ce_token E (rec_id r2)"
        then show "rec_id r1 = rec_id r2" using fresh unfolding draws_fresh_def list_all_iff by simp
      next
        fix r1 l1 assume r1: "r1 \<in> set (db_recordings (st_db ?st1))" and l1: "l1 \<in> set (st_leases ?st1)"
          and tok: "le_token l1 = ce_token E (rec_id r1)"
        show "lease_key l1 = (rec_brand_id r1, rec_id r1)"
        proof (cases "l1 = ?l")
          case True
          then have "rec_id r1 = rec_id r" using token [of r1] r1 tok by simp
          then show ?thesis using True same [of r1] r1 r by (simp add: lease_key_def)
        next
          case False
          then show ?thesis using fresh r1 l1 tok unfolding draws_fresh_def list_all_iff by simp
        qed
      qed
      ultimately have "leasing E brand rs ?st1 st'" using Cons.IH [OF rest] ids Cons.prems(5) by simp
      then show ?thesis by (rule leasing_step) (auto simp: leased_def transcribed_def)
    qed
  qed
qed

lemma beyond_take:
  assumes "r \<in> set xs" "r \<notin> set (take n (sort_key f xs))" "x \<in> set (take n (sort_key f xs))"
  shows "f x \<le> f r"
proof -
  let ?s = "sort_key f xs"
  have "r \<in> set (take n ?s @ drop n ?s)" using assms(1) by simp
  then have "r \<in> set (take n ?s) \<union> set (drop n ?s)" by (simp only: set_append)
  then have "r \<in> set (drop n ?s)" using assms(2) by blast
  moreover have "sorted (map f (take n ?s) @ map f (drop n ?s))" by (simp flip: map_append)
  ultimately show ?thesis using assms(3) by (simp add: sorted_append)
qed

lemma last_start_le: "rows \<noteq> [] \<Longrightarrow> (\<And>x. x \<in> set rows \<Longrightarrow> start_of x \<le> b) \<Longrightarrow> last_start rows \<le> b"
proof -
  have "foldl max d ds \<le> b" if "d \<le> b" "\<forall>x \<in> set ds. x \<le> b" for d :: int and ds
    using that by (induction ds arbitrary: d) simp_all
  then show "rows \<noteq> [] \<Longrightarrow> (\<And>x. x \<in> set rows \<Longrightarrow> start_of x \<le> b) \<Longrightarrow> last_start rows \<le> b"
    by (cases rows) (simp_all add: last_start_def)
qed

lemma from_cursor_known: "from_cursor c r \<Longrightarrow> rec_started_at r \<noteq> None"
  by (cases "rec_started_at r") (simp_all add: from_cursor_def)

lemma claim_for_brand_inv:
  assumes inv: "protocol_inv st" and fresh: "draws_fresh E st"
    and claim: "claim_for_brand E agent brand limit st = Inr (st', jobs)"
  shows "protocol_inv st' \<and> draws_fresh E st'"
proof (cases "load_settings (ce_readers E) brand")
  case (Inl e)
  then show ?thesis using claim by (simp add: claim_for_brand_def)
next
  case (Inr config)
  show ?thesis
  proof (cases "tc_enabled config")
    case False
    then show ?thesis using claim Inr inv fresh by (simp add: claim_for_brand_def)
  next
    case True
    define st1 where "st1 = expire_leases (ce_now E) brand st"
    define rows where "rows = candidates brand limit st1"
    have inv1: "protocol_inv st1" unfolding st1_def by (rule expire_inv [OF inv])
    have same1: "st_db st1 = st_db st" "set (st_leases st1) \<subseteq> set (st_leases st)"
      by (auto simp: st1_def expire_leases_def Let_def split: list.splits)
    have fresh1: "draws_fresh E st1" by (rule draws_fresh_leases [OF fresh same1])
    show ?thesis
    proof (cases "rows = []")
      case True
      then show ?thesis using claim Inr \<open>tc_enabled config\<close> inv1 fresh1
        by (simp add: claim_for_brand_def Let_def flip: st1_def rows_def)
    next
      case some: False
      obtain st2 held where each: "lease_each E agent brand config rows st1 = Inr (st2, held)"
        and rest: "(let st3 = move_cursor brand (last_start rows) False st2
            in if held = [] then Inr (st3, []) else sign_offers E agent brand config st3 held) = Inr (st', jobs)"
        using claim Inr \<open>tc_enabled config\<close> some
        by (auto simp: claim_for_brand_def Let_def res_bind_Inr_iff simp flip: st1_def rows_def)
      let ?free = "filter (\<lambda>r. waiting brand st1 r \<and> from_cursor (cursor_of brand st1) r) (db_recordings (st_db st1))"
      have rows: "rows = take limit (sort_key start_of ?free)" by (simp add: rows_def candidates_def)
      have row: "r \<in> set (db_recordings (st_db st1)) \<and> waiting brand st1 r \<and> from_cursor (cursor_of brand st1) r" if "r \<in> set rows" for r
        using set_take_subset [of limit "sort_key start_of ?free"] that unfolding rows by auto
      have ok1: "leases_ok st1" and behind1: "none_behind st1" and ids: "distinct (map rec_id (db_recordings (st_db st1)))"
        using inv1 by (simp_all add: protocol_inv_def)
      have leasing: "leasing E brand rows st1 st2"
      proof (rule lease_each_leasing [OF each ok1 fresh1 ids], intro ballI conjI)
        fix r assume "r \<in> set rows"
        note r = row [OF this]
        then show "r \<in> set (db_recordings (st_db st1))" by blast
        show "rec_brand_id r = brand" using r by (simp add: waiting_def archived_def)
        show "rec_started_at r \<noteq> None" using r from_cursor_known by blast
      qed
      let ?st3 = "move_cursor brand (last_start rows) False st2"
      have tables: "st_db st' = st_db ?st3" "st_leases st' = st_leases ?st3" "st_cursors st' = st_cursors ?st3"
          "st_transcripts st' = st_transcripts ?st3" "st_segments st' = st_segments ?st3" "st_next_id st' = st_next_id ?st3"
        using rest by (auto simp: Let_def sign_offers_def res_bind_Inr_iff split: if_splits)
      have db: "st_db st' = st_db st1" using leasing tables by (simp add: leasing_def)
      have cur: "cursor_of b st' = (if b = brand then Some (case cursor_of brand st1 of None \<Rightarrow> last_start rows | Some c \<Rightarrow> max c (last_start rows))
          else cursor_of b st1)" for b
      proof -
        have "cursor_of b st' = cursor_of b ?st3" by (simp add: cursor_of_def tables(3))
        moreover have "cursor_of b' st2 = cursor_of b' st1" for b' using leasing by (simp add: leasing_def cursor_of_def)
        ultimately show ?thesis by (cases "cursor_of brand st1") (simp_all add: cursor_of_move)
      qed
      have "leases_ok st2" "draws_fresh E st2" using leasing by (simp_all add: leasing_def)
      then have "leases_ok st'" "draws_fresh E st'"
        using tables by (simp_all add: leases_ok_def draws_fresh_def transcripts_ok_def)
      moreover have "none_behind st'" unfolding none_behind_def
      proof (intro conjI allI ballI impI)
        fix b r assume r: "r \<in> set (db_recordings (st_db st'))" and wait': "waiting b st' r" and start: "rec_started_at r \<noteq> None"
        have gone: "\<not> transcribed b (rec_id r) st2" "\<not> leased b (rec_id r) st2"
          using wait' tables by (simp_all add: waiting_def transcribed_def leased_def)
        then have wait: "waiting b st1 r" using wait' leasing by (auto simp: waiting_def leasing_def)
        then have old: "from_cursor (cursor_of b st1) r" using behind1 r start db by (simp add: none_behind_def)
        show "from_cursor (cursor_of b st') r"
        proof (cases "b = brand")
          case True
          have new: "r \<notin> set (take limit (sort_key start_of ?free))" using gone leasing True rows by (auto simp: leasing_def)
          have free: "r \<in> set ?free" using r wait old db True by simp
          have "start_of x \<le> start_of r" if "x \<in> set rows" for x using beyond_take [OF free new] that unfolding rows .
          then have "last_start rows \<le> start_of r" by (rule last_start_le [OF some])
          then show ?thesis using old start True by (auto simp: cur from_cursor_def start_of_def split: option.splits)
        qed (use old cur in simp)
      next
        fix l assume "l \<in> set (st_leases st')"
        then have "l \<in> set (st_leases st1) \<or> le_brand_id l = brand" using leasing tables by (simp add: leasing_def)
        then show "cursor_of (le_brand_id l) st' \<noteq> None" using behind1 by (auto simp: cur none_behind_def)
      qed
      ultimately show ?thesis using ids db by (simp add: protocol_inv_def)
    qed
  qed
qed

lemma claim_inv:
  assumes "protocol_inv st" "draws_fresh E st"
  shows "protocol_inv (fst (claim E agent wanted brands st))"
proof -
  have "protocol_inv (fst (claim_brands E agent limit share bs jobs st))" if "protocol_inv st" "draws_fresh E st" for limit share bs jobs st
    using that
  proof (induction bs arbitrary: jobs st)
    case (Cons b bs)
    show ?case
    proof (cases "claim_for_brand E agent b (min share (limit - length jobs)) st")
      case (Inr x)
      obtain st1 js where x: "x = (st1, js)" by force
      have "protocol_inv st1 \<and> draws_fresh E st1" by (rule claim_for_brand_inv [OF Cons.prems Inr [unfolded x]])
      then show ?thesis using Cons Inr x by simp
    qed (use Cons.prems in simp)
  qed simp
  then show ?thesis using assms by (simp add: claim_def Let_def)
qed

section \<open>The server's own work\<close>

lemma transcribe_recording_effect:
  assumes "transcripts_ok st" "transcribe_recording G now i brand config st = Inr (st', kept)"
  shows "transcripts_ok st' \<and> same_protocol st st' \<and> (\<forall>b j. transcribed b j st \<longrightarrow> transcribed b j st')"
proof -
  have refl: "same_protocol st st" by (simp add: same_protocol_def)
  have filed: ?thesis if "file_result h now r brand res config st = Inr (st', kept)" for h r res
    using file_result_effect [OF assms(1) that] by blast
  have failed: ?thesis if "record_failure now r brand reason config st = Inr st'" for r reason
    using record_failure_effect [OF assms(1) that] by blast
  show ?thesis using assms filed failed refl
    by (auto simp: transcribe_recording_def res_bind_Inr_iff split: option.splits if_splits sum.splits transcribe_exc.splits)
qed

lemma transcribe_one_inv:
  assumes inv: "protocol_inv (snd s)"
  shows "protocol_inv (snd (fst (transcribe_one G now t brand config i s)))"
proof (cases "transcribe_recording G now i brand config (snd s)")
  case (Inr x)
  obtain st' kept where x: "x = (st', kept)" by force
  have ok: "leases_ok (snd s)" using inv by (simp add: protocol_inv_def)
  have ef: "transcripts_ok st'" "same_protocol (snd s) st'" "\<And>b j. transcribed b j (snd s) \<Longrightarrow> transcribed b j st'"
    using transcribe_recording_effect [OF _ Inr [unfolded x]] ok by (auto simp: leases_ok_def)
  have same: "st_db st' = st_db (snd s)" "st_cursors st' = st_cursors (snd s)" "st_leases st' = st_leases (snd s)"
    using ef(2) by (simp_all add: same_protocol_def)
  have "none_behind st'"
    by (rule none_behind_shrinks [OF _ same(1,2)]) (use inv ef(3) same in \<open>auto simp: protocol_inv_def waiting_def leased_def\<close>)
  moreover have "leases_ok st'" using ok ef(1) same by (simp add: leases_ok_def)
  ultimately show ?thesis using inv Inr x same by (simp add: transcribe_one_def protocol_inv_def)
next
  case (Inl e)
  then show ?thesis using inv by (cases e) (simp_all add: transcribe_one_def)
qed

lemma transcribe_each_inv:
  "transcribe_each G now t brand config is s = (s', n) \<Longrightarrow> protocol_inv (snd s) \<Longrightarrow> protocol_inv (snd s')"
proof (induction "is" arbitrary: s n)
  case (Cons i "is")
  obtain s1 b where one: "transcribe_one G now t brand config i s = (s1, b)" by (meson surj_pair)
  obtain s2 m where rest: "transcribe_each G now t brand config is s1 = (s2, m)" by (meson surj_pair)
  have "protocol_inv (snd s1)" using transcribe_one_inv [OF Cons.prems(2), of G now t brand config i] one by simp
  from Cons.IH [of s1 m] this rest show ?case using Cons.prems(1) one by simp
qed simp

lemma pass_for_brand_inv:
  assumes "pass_for_brand G R now t b s = (s', r)" and inv: "protocol_inv (snd s)"
  shows "protocol_inv (snd s')"
proof (cases "load_settings R b")
  case (Inr config)
  obtain s1 n where each: "transcribe_each G now t b config (pending_recordings b (nat (max 1 (tc_concurrency config))) now (snd s)) s = (s1, n)"
    by (meson surj_pair)
  have "protocol_inv (snd s1)" by (rule transcribe_each_inv [OF each inv])
  then show ?thesis using assms Inr each by (auto simp: pass_for_brand_def split: if_splits sum.splits)
qed (use assms in \<open>auto simp: pass_for_brand_def split: if_splits\<close>)

lemma transcriber_pass_inv:
  "protocol_inv (snd s) \<Longrightarrow> protocol_inv (snd (fst (transcriber_pass G R now t brands s)))"
proof (induction brands arbitrary: s)
  case (Cons b bs)
  obtain s1 r where pass: "pass_for_brand G R now t b s = (s1, r)" by (meson surj_pair)
  have inv: "protocol_inv (snd s1)" by (rule pass_for_brand_inv [OF pass Cons.prems])
  show ?case
  proof (cases r)
    case (Inr n)
    obtain s2 q where "transcriber_pass G R now t bs s1 = (s2, q)" by (meson surj_pair)
    then show ?thesis using Cons.IH [OF inv] pass Inr by simp
  qed (simp add: pass inv)
qed simp

section \<open>The protocol\<close>

datatype protocol_op =
    Claim claim_env agent int "int list"
  | Submit "string \<Rightarrow> string" setting_readers dt agent string agent_result
  | GiveBack setting_readers dt agent string string bool
  | ServerPass recogniser setting_readers dt rat "int list" retries

fun protocol_step :: "protocol_op \<Rightarrow> store \<Rightarrow> store" where
  "protocol_step (Claim E agent wanted brands) st = fst (claim E agent wanted brands st)"
| "protocol_step (Submit h R now agent job result) st = fst (submit h R now agent job result st)"
| "protocol_step (GiveBack R now agent job reason retry) st = fst (fail_job R now agent job reason retry st)"
| "protocol_step (ServerPass G R now t brands retries) st = snd (fst (transcriber_pass G R now t brands (retries, st)))"

fun draws_ok :: "protocol_op \<Rightarrow> store \<Rightarrow> bool" where
  "draws_ok (Claim E agent wanted brands) st = draws_fresh E st"
| "draws_ok _ st = True"

interpretation protocol: state_machine protocol_inv draws_ok protocol_step
proof unfold_locales
  fix st p assume inv: "protocol_inv st" and "draws_ok p st"
  then show "protocol_inv (protocol_step p st)"
    by (cases p) (simp_all add: claim_inv submit_inv fail_inv transcriber_pass_inv)
qed


text \<open>C15: A machine's result is taken only for a job it holds, under a lease that has not run out, and changes the
  transcript and the sentences of that one recording, the counts of its organisation's sentences, and its own
  lease; the recording is then dealt with.\<close>

theorem submission_confined:
  assumes ok: "transcripts_ok st" and sent: "submit h R now agent job result st = (st', Inr out)"
  shows "\<exists>brand token l. parse_job job = Inr (brand, token) \<and> l \<in> set (st_leases st) \<and> le_brand_id l = brand \<and> le_token l = token \<and>
    le_agent_id l = an_id agent \<and> now < le_expires_at l \<and>
    st_leases st' = filter (\<lambda>l. \<not> (le_brand_id l = brand \<and> le_token l = token)) (st_leases st) \<and>
    st_db st' = st_db st \<and> st_cursors st' = st_cursors st \<and> st_agents st' = st_agents st \<and>
    (let k = (brand, le_recording_id l) in
      transcribed brand (le_recording_id l) st' \<and>
      filter (\<lambda>x. transcript_key x \<noteq> k) (st_transcripts st') = filter (\<lambda>x. transcript_key x \<noteq> k) (st_transcripts st) \<and>
      filter (\<lambda>s. sr_transcript_id s \<noteq> transcript_id brand (le_recording_id l) st') (st_segments st') =
        filter (\<lambda>s. sr_transcript_id s \<noteq> transcript_id brand (le_recording_id l) st') (st_segments st)) \<and>
    filter (\<lambda>p. ph_brand_id p \<noteq> brand) (st_phrases st') = filter (\<lambda>p. ph_brand_id p \<noteq> brand) (st_phrases st)"
proof -
  obtain brand token i r config st1 kept where job: "parse_job job = Inr (brand, token)"
    and held: "held_lease now brand agent token st = Inr i" and r: "one_recording brand i st = Inr r"
    and filed: "file_result h now r brand (received agent result config) config st = Inr (st1, kept)"
    and st': "st' = fst (release brand token st1)"
    using sent unfolding submit_def by (auto simp: res_bind_Inr_iff split: sum.splits)
  obtain l where l: "l \<in> set (st_leases st)" "le_brand_id l = brand" "le_token l = token" "le_recording_id l = i"
    "le_agent_id l = an_id agent" "now < le_expires_at l" using held_leaseD [OF held] by blast
  have i: "rec_id r = i" using one_recordingD [OF r] by blast
  note ef = file_result_effect [OF ok filed, unfolded i]
  have same: "st_db st1 = st_db st" "st_leases st1 = st_leases st" "st_cursors st1 = st_cursors st" "st_agents st1 = st_agents st"
    using ef(2) by (simp_all add: same_protocol_def)
  have id: "transcript_id brand i st' = transcript_id brand i st1" by (simp add: transcript_id_def st')
  have agents: "st_agents st' = st_agents st" using same by (simp add: st' release_def)
  have "transcribed brand i st'" using ef(3) [of brand i] by (simp add: st' transcribed_def)
  then show ?thesis using job l same agents id ef(4,5,6) unfolding Let_def
    by (intro exI [of _ brand] exI [of _ token] exI [of _ l]) (simp add: st')
qed

text \<open>The server's transcriber takes no lease: what it is working on is still there to be claimed.\<close>

definition demo_recording :: recording where
  "demo_recording = (blank_recording 2 ''b'' 3)\<lparr>rec_state := AVAILABLE, rec_started_at := Some 500, rec_destination_id := Some 4,
     rec_destination_key := Some ''x/b.wav''\<rparr>"

definition demo_store :: store where
  "demo_store = \<lparr>st_db = empty_db\<lparr>db_recordings := [demo_recording]\<rparr>,
     st_destinations = [\<lparr>ds_id = 4, ds_brand_id = 1, ds_endpoint = [], ds_region = [], ds_bucket = [], ds_access_key_sealed = [],
       ds_secret_sealed = []\<rparr>],
     st_transcripts = [], st_segments = [], st_phrases = [], st_leases = [], st_cursors = [], st_agents = [], st_audit = [], st_next_id = 1\<rparr>"

lemma both_may_take_it: "pending_recordings 1 1 0 demo_store = [2] \<and> map rec_id (candidates 1 1 demo_store) = [2]"
  by code_simp

text \<open>A recording archived after the claims have passed its start is not handed out: the invariant is kept by the steps
  above, not by the transfers that make a recording available.\<close>

lemma archived_late: "candidates 1 8 (demo_store\<lparr>st_cursors := [(1, 501)]\<rparr>) = [] \<and> waiting 1 (demo_store\<lparr>st_cursors := [(1, 501)]\<rparr>) demo_recording"
  by code_simp

section \<open>Examples\<close>

definition demo_readers :: setting_readers where
  "demo_readers = \<lparr>rd_bool = (\<lambda>k b. Inr True), rd_str = (\<lambda>k b. Inr ''es -- Spanish''), rd_int = (\<lambda>k b. Inr 3)\<rparr>"

definition demo_claim :: claim_env where
  "demo_claim = \<lparr>ce_readers = demo_readers, ce_token = (\<lambda>i. ''t''), ce_presign = (\<lambda>os. Inr (map snd os)), ce_now = 600\<rparr>"

definition demo_agent :: agent where
  "demo_agent = \<lparr>an_id = 9, an_name = ''gpu''\<rparr>"

definition demo_answer :: agent_result where
  "demo_answer = \<lparr>ar_segments = [\<lparr>as_start = 0, as_end = 8, as_text = '' hello '', as_confidence = Some (1 / 2)\<rparr>], ar_language = None,
     ar_language_detected = None, ar_language_probability = None, ar_duration_seconds = Some 9, ar_speech_seconds = Some 8,
     ar_model = [], ar_device = ''cuda'', ar_seconds_taken = Some 1\<rparr>"

lemma demo_inv: "protocol_inv demo_store"
  by (simp add: protocol_inv_def leases_ok_def transcripts_ok_def none_behind_def from_cursor_def cursor_of_def demo_store_def empty_db_def
      split: option.split)


definition held_store :: store where
  "held_store = fst (claim demo_claim demo_agent 8 [1] demo_store)"

definition demo_settings :: transcribe_settings where
  "demo_settings = \<lparr>tc_enabled = True, tc_engine = ''es -- Spanish'', tc_model = ''es -- Spanish'', tc_primary_language = ''es -- Spanish'',
     tc_diarize = True, tc_word_timestamps = True, tc_redact_numbers = True, tc_only_longer_than = 3, tc_concurrency = 3,
     tc_min_speech_seconds = 3, tc_announcement_repeats = 3\<rparr>"

lemma demo_stored: "snd (submit (\<lambda>s. s) demo_readers 700 demo_agent ''1.t'' demo_answer held_store) = Inr ''stored''"
proof -
  let ?res = "received demo_agent demo_answer demo_settings"
  have "parse_job ''1.t'' = Inr (1, ''t'')" "held_lease 700 1 demo_agent ''t'' held_store = Inr 2"
    "one_recording 1 2 held_store = Inr demo_recording" "settings_for demo_readers 1 = Inr demo_settings" by code_simp+
  moreover have "case file_result (\<lambda>s. s) 700 demo_recording 1 ?res demo_settings held_store of Inr (_, kept) \<Rightarrow> kept | Inl _ \<Rightarrow> False"
    by code_simp
  then obtain st1 where "file_result (\<lambda>s. s) 700 demo_recording 1 ?res demo_settings held_store = Inr (st1, True)"
    by (auto split: sum.splits)
  ultimately show ?thesis by (simp add: submit_def)
qed

theorem submission_confined_witness:
  "\<exists>st' l. submit (\<lambda>s. s) demo_readers 700 demo_agent ''1.t'' demo_answer held_store = (st', Inr ''stored'') \<and>
     l \<in> set (st_leases held_store) \<and> le_agent_id l = 9 \<and> 700 < le_expires_at l \<and> st_leases st' = [] \<and>
     transcribed 1 (le_recording_id l) st'"
proof -
  obtain st' where sent: "submit (\<lambda>s. s) demo_readers 700 demo_agent ''1.t'' demo_answer held_store = (st', Inr ''stored'')"
    using demo_stored by (metis prod.collapse)
  have "protocol_inv held_store" unfolding held_store_def
    by (rule claim_inv [OF demo_inv]) code_simp
  then have "transcripts_ok held_store" by (simp add: protocol_inv_def leases_ok_def)
  from submission_confined [OF this sent] obtain brand token l where l: "parse_job ''1.t'' = Inr (brand, token)" "l \<in> set (st_leases held_store)"
    "le_agent_id l = an_id demo_agent" "700 < le_expires_at l"
    "st_leases st' = filter (\<lambda>l. \<not> (le_brand_id l = brand \<and> le_token l = token)) (st_leases held_store)"
    "transcribed brand (le_recording_id l) st'" unfolding Let_def by blast
  have job: "parse_job ''1.t'' = Inr (1, ''t'')" by code_simp
  have one: "filter (\<lambda>l. \<not> (le_brand_id l = 1 \<and> le_token l = ''t'')) (st_leases held_store) = []" by code_simp
  show ?thesis using sent l job one by (intro exI [of _ st'] exI [of _ l]) (simp add: demo_agent_def)
qed


end
