(* ===== verification/Media.thy ===== *)
theory Media
  imports Agents Access Calendar
begin

text \<open>
  Listening to and taking away recordings: \<open>src/c2w/media/sdr.py\<close> and the media routes of \<open>web/routes.py\<close>. A route
  finds the organisation that holds the recording among those the caller may read, decides, signs a link to the
  archive and writes an audit row; a refusal is raised through the request's session. The storage service, the
  sealed keys, the settings and the clock are parameters.

  Lemmas: who is given a link, what is written of it, and what a refusal leaves.
\<close>

section \<open>What is asked and answered\<close>

datatype media_action = PLAY | DOWNLOAD_COPY

fun action_name :: "media_action \<Rightarrow> string" where
  "action_name PLAY = ''PLAY''"
| "action_name DOWNLOAD_COPY = ''DOWNLOAD''"

datatype media_exc =
    MediaDenied string string
  | MediaPy py_exc
  | MediaCrypto string
  | MediaStorage transfer_error

record media_audit =
  ma_brand_id :: int
  ma_actor_user_id :: int
  ma_actor_label :: string
  ma_ip :: "string option"
  ma_user_agent :: "string option"
  ma_action :: string
  ma_result :: string
  ma_recording_id :: int
  ma_call_uuid :: "string option"
  ma_detail :: "(string \<times> json) list"

record media_env =
  me_now :: dt
  me_unseal :: unsealer
  me_brands :: "int \<Rightarrow> brand_keys option"
  me_ttl :: "py_exc + int"
  me_service :: service
  me_dest_name :: "int \<Rightarrow> string"
  me_ip :: "string option"
  me_user_agent :: "string option"

definition audit_media_access :: "media_env \<Rightarrow> user \<Rightarrow> recording \<Rightarrow> media_action \<Rightarrow> string \<Rightarrow> (string \<times> json) list \<Rightarrow>
    media_audit list \<Rightarrow> media_audit list" where
  "audit_media_access E u r action result detail audit =
     audit @ [\<lparr>ma_brand_id = rec_brand_id r, ma_actor_user_id = us_id u, ma_actor_label = us_email u, ma_ip = me_ip E,
       ma_user_agent = me_user_agent E, ma_action = action_name action, ma_result = result, ma_recording_id = rec_id r,
       ma_call_uuid = rec_call_uuid r, ma_detail = detail\<rparr>]"

section \<open>The decision\<close>

definition needed_permission :: "media_action \<Rightarrow> permission" where
  "needed_permission action = (case action of PLAY \<Rightarrow> RECORDINGS_PLAY | DOWNLOAD_COPY \<Rightarrow> RECORDINGS_DOWNLOAD)"

definition authorise :: "user \<Rightarrow> recording \<Rightarrow> media_action \<Rightarrow> (string \<times> string) option" where
  "authorise u r action =
     (if \<not> has_permission (us_role u) (needed_permission action)
      then Some (''permission_denied'', ''your role may not '' @ py_lower (action_name action) @ '' recordings'')
      else if \<not> is_super_admin u \<and> us_brand_id u \<noteq> Some (rec_brand_id r)
      then Some (''wrong_brand'', ''recording belongs to another organisation'')
      else if \<not> playable (rec_state r) then
        (if rec_state r \<in> {REC_FAILED, MISSING_SOURCE}
         then Some (''unavailable'', ''this recording is not available in the archive'')
         else Some (''still_syncing'', ''this recording is still being archived''))
      else None)"

section \<open>The link\<close>

definition stamp_text :: "dt \<Rightarrow> string" where
  "stamp_text t =
     (case date_of t of (y, mo, d) \<Rightarrow>
        let s = t mod day div second
        in zpad 4 (nat y) @ zpad 2 (nat mo) @ zpad 2 (nat d) @ ''-'' @
           zpad 2 (nat (s div 3600)) @ zpad 2 (nat (s mod 3600 div 60)) @ zpad 2 (nat (s mod 60)))"

definition filename_for :: "dt \<Rightarrow> recording \<Rightarrow> string" where
  "filename_for now r =
     (let stamp = stamp_text (case rec_started_at r of Some t \<Rightarrow> t | None \<Rightarrow> now);
          given = (\<lambda>x. case nonempty x of Some s \<Rightarrow> [s] | None \<Rightarrow> []);
          part = (if rec_seq r \<noteq> 0 then [''part'' @ show_int (rec_seq r + 1)] else [])
      in join ''-'' ([stamp] @ given (rec_direction r) @ given (rec_number r) @ part) @ ''.'' @
         (case nonempty (rec_file_ext r) of Some e \<Rightarrow> e | None \<Rightarrow> ''flac''))"

definition open_sealed_as :: "media_env \<Rightarrow> brand_keys \<Rightarrow> string \<Rightarrow> string \<Rightarrow> media_exc + string" where
  "open_sealed_as E b sealed aad =
     (case me_unseal E sealed (text_of (bk_key_id b)) (text_of (bk_wrapped b)) aad of
        Inl e \<Rightarrow> Inl (MediaCrypto e) | Inr p \<Rightarrow> Inr p)"

definition lift_error :: "('e \<Rightarrow> media_exc) \<Rightarrow> 'e + 'a \<Rightarrow> media_exc + 'a" where
  "lift_error f r = (case r of Inl e \<Rightarrow> Inl (f e) | Inr x \<Rightarrow> Inr x)"

definition signed_link :: "media_env \<Rightarrow> destination_row \<Rightarrow> brand_keys \<Rightarrow> int \<Rightarrow> string \<Rightarrow> string option \<Rightarrow> media_exc + string" where
  "signed_link E d b ttl key filename =
     res_bind (open_sealed_as E b (ds_access_key_sealed d) (field_aad ''destination'' (ds_id d) ''access_key'')) (\<lambda>access.
     res_bind (open_sealed_as E b (ds_secret_sealed d) (field_aad ''destination'' (ds_id d) ''secret_key'')) (\<lambda>secret.
     res_bind (lift_error MediaStorage (wasabi_credentials (ds_bucket d) access secret (ds_region d) (Some (ds_endpoint d)))) (\<lambda>creds.
       lift_error MediaStorage (snd (presign_get (me_service E) (enter (new_s3_client creds 16777216 16777216)) key (nat ttl) filename [])))))"

record media_access =
  mx_url :: string
  mx_expires_at :: dt
  mx_filename :: string

definition playback_url :: "media_env \<Rightarrow> user \<Rightarrow> recording \<Rightarrow> media_action \<Rightarrow> store \<Rightarrow> media_audit list \<Rightarrow>
    media_audit list \<times> (media_exc + media_access)" where
  "playback_url E u r action st audit =
     (let deny = (\<lambda>reason message. (audit_media_access E u r action ''DENIED'' [(''reason'', JStr reason)] audit,
            Inl (MediaDenied reason message)))
      in case authorise u r action of
        Some (reason, message) \<Rightarrow> deny reason message
      | None \<Rightarrow>
          (case (rec_destination_id r, nonempty (rec_destination_key r)) of
             (Some i, Some key) \<Rightarrow>
               (case find_row (\<lambda>d. ds_id d = i) (st_destinations st) of
                  None \<Rightarrow> deny ''no_destination'' ''the archive for this recording is not configured''
                | Some d \<Rightarrow>
                    (case me_brands E (rec_brand_id r) of
                       None \<Rightarrow> (audit, Inl (MediaPy (LookupError ''No row was found when one was required'')))
                     | Some b \<Rightarrow>
                         (let filename = filename_for (me_now E) r
                          in case res_bind (lift_error MediaPy (me_ttl E)) (\<lambda>ttl.
                                    res_bind (signed_link E d b ttl key
                                      (if action = DOWNLOAD_COPY then Some filename else None)) (\<lambda>url. Inr (ttl, url))) of
                               Inl e \<Rightarrow> (audit, Inl e)
                             | Inr (ttl, url) \<Rightarrow>
                                 (audit_media_access E u r action ''SUCCESS''
                                    [(''destination'', JStr (me_dest_name E i)), (''ttl_seconds'', JInt ttl)] audit,
                                  Inr \<lparr>mx_url = url, mx_expires_at = me_now E + ttl * second, mx_filename = filename\<rparr>))))
           | _ \<Rightarrow> deny ''no_archive_copy'' ''this recording has no archive copy yet''))"

section \<open>The routes\<close>

datatype media_response =
    RedirectTo string
  | Document string
  | HttpError int string
  | Crashed media_exc

text \<open>The first readable organisation that holds the row; what is raised in the body undoes the request's session.\<close>

definition owned_recording :: "int list \<Rightarrow> int \<Rightarrow> store \<Rightarrow> recording option" where
  "owned_recording readable i st =
     (case List.find (\<lambda>b. list_ex (\<lambda>r. rec_brand_id r = b \<and> rec_id r = i) (db_recordings (st_db st))) readable of
        None \<Rightarrow> None
      | Some b \<Rightarrow> find_row (\<lambda>r. rec_brand_id r = b \<and> rec_id r = i) (db_recordings (st_db st)))"

definition denied_status :: "string \<Rightarrow> int" where
  "denied_status reason = (if reason \<in> {''still_syncing'', ''no_archive_copy''} then 409 else 403)"

definition media_redirect :: "media_env \<Rightarrow> user \<Rightarrow> int list \<Rightarrow> int \<Rightarrow> bool \<Rightarrow> store \<Rightarrow> media_audit list \<Rightarrow>
    media_audit list \<times> media_response" where
  "media_redirect E u readable i download st audit =
     (case owned_recording readable i st of
        None \<Rightarrow> (audit, HttpError 404 ''recording not found'')
      | Some r \<Rightarrow>
          (case playback_url E u r (if download then DOWNLOAD_COPY else PLAY) st audit of
             (audit1, Inr access) \<Rightarrow> (audit1, RedirectTo (mx_url access))
           | (_, Inl (MediaDenied reason message)) \<Rightarrow> (audit, HttpError (denied_status reason) message)
           | (_, Inl e) \<Rightarrow> (audit, Crashed e)))"

text \<open>The transcripts of a recording, by id, each with its sentences in order.\<close>

definition transcripts_for_recording :: "int \<Rightarrow> int \<Rightarrow> store \<Rightarrow> (transcript_row \<times> segment list) list" where
  "transcripts_for_recording brand i st =
     map (\<lambda>t. (t, sort_key sg_seq (map sr_segment (filter (\<lambda>s. sr_transcript_id s = tx_id t \<and> sr_brand_id s = brand) (st_segments st)))))
       (sort_key tx_id (filter (\<lambda>t. tx_recording_id t = i \<and> tx_brand_id t = brand) (st_transcripts st)))"

definition clock_of :: "int \<Rightarrow> string" where
  "clock_of seconds =
     (let minutes = seconds div 60; secs = zpad 2 (nat (seconds mod 60)); hours = minutes div 60
      in if hours \<noteq> 0 then show_int hours @ '':'' @ zpad 2 (nat (minutes mod 60)) @ '':'' @ secs
         else show_int (minutes mod 60) @ '':'' @ secs)"

definition offset_text :: "int \<Rightarrow> string" where
  "offset_text ms = clock_of (max 0 ms div 1000)"

text \<open>The dash for a missing call is written \<open>--\<close>.\<close>

definition transcript_text :: "transcript_row \<times> segment list \<Rightarrow> recording \<Rightarrow> string" where
  "transcript_text x r =
     (case x of (t, segments) \<Rightarrow>
        let header = [''Recording '' @ show_int (rec_id r),
                ''Call '' @ (case nonempty (rec_call_uuid r) of Some c \<Rightarrow> c | None \<Rightarrow> ''--''),
                py_strip (''Recognised by '' @ tx_engine t @ '' '' @ tx_model t)];
            spoken = (case nonempty (tx_language_detected t) of Some l \<Rightarrow> [''Language detected: '' @ l] | None \<Rightarrow> []);
            masked = (if tx_redacted t then [''Long digit runs are masked, keeping the last two.''] else []);
            line = (\<lambda>s. ''['' @ offset_text (sg_start_ms s) @ ''] '' @
                (case nonempty (sg_speaker s) of Some w \<Rightarrow> w @ '': '' | None \<Rightarrow> []) @ sg_text s)
        in join [CHR 0x0A] (header @ spoken @ masked @ [[]] @ map line segments) @ [CHR 0x0A])"

definition download_transcript :: "media_env \<Rightarrow> user \<Rightarrow> int list \<Rightarrow> int \<Rightarrow> store \<Rightarrow> media_audit list \<Rightarrow>
    media_audit list \<times> media_response" where
  "download_transcript E u readable i st audit =
     (case owned_recording readable i st of
        None \<Rightarrow> (audit, HttpError 404 ''recording not found'')
      | Some r \<Rightarrow>
          (case authorise u r DOWNLOAD_COPY of
             Some (reason, message) \<Rightarrow> (audit, HttpError 403 message)
           | None \<Rightarrow>
               (case List.find (\<lambda>x. snd x \<noteq> []) (transcripts_for_recording (rec_brand_id r) i st) of
                  None \<Rightarrow> (audit, HttpError 404 ''this recording has no transcript'')
                | Some x \<Rightarrow>
                    (audit_media_access E u r DOWNLOAD_COPY ''allowed''
                       [(''kind'', JStr ''transcript''), (''lines'', JInt (int (length (snd x))))] audit,
                     Document (transcript_text x r)))))"

section \<open>Who is given a link\<close>

lemma authorise_None:
  "authorise u r action = None \<longleftrightarrow> has_permission (us_role u) (needed_permission action) \<and>
     (is_super_admin u \<or> us_brand_id u = Some (rec_brand_id r)) \<and> playable (rec_state r)"
  by (auto simp: authorise_def)

lemma owned_recordingD:
  assumes "owned_recording readable i st = Some r"
  shows "r \<in> set (db_recordings (st_db st)) \<and> rec_id r = i \<and> rec_brand_id r \<in> set readable"
  using assms by (auto simp: owned_recording_def find_row_def find_Some_iff split: option.splits)

lemma playback_allowed:
  assumes "playback_url E u r action st audit = (audit', Inr access)"
  shows "authorise u r action = None \<and>
    (\<exists>d i ttl. rec_destination_id r = Some i \<and> find_row (\<lambda>d. ds_id d = i) (st_destinations st) = Some d \<and> me_ttl E = Inr ttl \<and>
      audit' = audit_media_access E u r action ''SUCCESS''
        [(''destination'', JStr (me_dest_name E i)), (''ttl_seconds'', JInt ttl)] audit)"
proof -
  have a: "authorise u r action = None" using assms by (auto simp: playback_url_def Let_def split: option.splits)
  then show ?thesis using assms
    by (auto simp: playback_url_def Let_def res_bind_Inr_iff lift_error_def split: option.splits sum.splits)
qed

text \<open>A refusal that is audited goes with an exception, and the exception takes the audit row with it.\<close>

lemma refusal_is_written: "authorise u r action = Some (reason, message) \<Longrightarrow>
   playback_url E u r action st audit =
     (audit_media_access E u r action ''DENIED'' [(''reason'', JStr reason)] audit, Inl (MediaDenied reason message))"
  by (simp add: playback_url_def)


text \<open>Of a refusal of the transcript nothing is kept either, and what is kept of one taken is not \<open>SUCCESS\<close>.\<close>

lemma transcript_audit:
  assumes "download_transcript E u readable i st audit = (audit', out)"
  shows "audit' = audit \<or> (\<exists>row. audit' = audit @ [row] \<and> ma_result row = ''allowed'' \<and> ma_action row = ''DOWNLOAD'')"
  using assms by (auto simp: download_transcript_def audit_media_access_def split: option.splits)

text \<open>A member of two organisations may read a recording of the second and may not play it.\<close>

lemma second_organisation_is_refused:
  assumes "us_role u \<noteq> SUPER_ADMIN" "us_brand_id u \<noteq> Some (rec_brand_id r)" "has_permission (us_role u) RECORDINGS_PLAY"
  shows "authorise u r PLAY = Some (''wrong_brand'', ''recording belongs to another organisation'')"
  using assms by (simp add: authorise_def is_super_admin_def needed_permission_def)

section \<open>Examples\<close>

definition demo_media :: media_env where
  "demo_media = \<lparr>me_now = 0, me_unseal = (\<lambda>s k w a. Inr ''secret''), me_brands = (\<lambda>i. Some \<lparr>bk_key_id = Some ''k'', bk_wrapped = Some ''w''\<rparr>),
     me_ttl = Inr 300, me_service = (\<lambda>h c. Inr (RUrl ''https://signed'')), me_dest_name = (\<lambda>i. ''archive''), me_ip = None, me_user_agent = None\<rparr>"

definition demo_listener :: user where
  "demo_listener = new_user 5 (Some 1) ''a@b'' ''A'' OPERATOR LOCAL None"

definition demo_archive :: store where
  "demo_archive = demo_store\<lparr>st_destinations := [\<lparr>ds_id = 4, ds_brand_id = 1, ds_endpoint = ''https://e'', ds_region = ''r'', ds_bucket = ''b'',
     ds_access_key_sealed = ''x'', ds_secret_sealed = ''y''\<rparr>]\<rparr>"


end
