(* ===== verification/Filters.thy ===== *)
theory Filters
  imports Media Cdr
begin

text \<open>
  What the pages print: \<open>src/c2w/web/filters.py\<close>. The maps from machine values to the four meanings of a pill and to
  words, the formats of sizes, lengths and places, the names of people, and the sentences of the activity log, which
  are built as markup and must escape what they hold. The links that rewrite a query string, the label of a time
  zone and the JSON attribute are not modelled. The multiplication sign is \<open>\<times>\<close> of Latin-1; dash and arrow, which
  lie outside it, are written \<open>--\<close> and \<open>->\<close>.

  Lemmas: the only tags of a log line are its own, every state has its words, and how the log reads a download of a
  transcript.
\<close>

section \<open>Words and colours\<close>

type_synonym labels = "(string \<times> string) list"

definition label_in :: "labels \<Rightarrow> string \<Rightarrow> string \<Rightarrow> string" where
  "label_in m otherwise v = (case map_of m v of Some l \<Rightarrow> l | None \<Rightarrow> otherwise)"

text \<open>\<open>str(v).replace("_", " ").lower()\<close>\<close>

definition plain_words :: "string \<Rightarrow> string" where
  "plain_words v = py_lower (map (\<lambda>c. if c = CHR ''_'' then CHR '' '' else c) v)"

definition STATE_CLASS :: labels where
  "STATE_CLASS = [(''AVAILABLE'', ''ok''), (''SOURCE_DELETED'', ''ok''), (''VERIFIED'', ''ok''), (''UPLOADED'', ''warn''),
     (''TRANSFERRING'', ''warn''), (''QUEUED'', ''idle''), (''DISCOVERED'', ''idle''), (''FAILED'', ''err''), (''MISSING_SOURCE'', ''err'')]"

definition STATE_LABEL :: labels where
  "STATE_LABEL = [(''DISCOVERED'', ''found''), (''QUEUED'', ''waiting''), (''TRANSFERRING'', ''copying''), (''UPLOADED'', ''checking''),
     (''VERIFIED'', ''verified''), (''AVAILABLE'', ''playable''), (''SOURCE_DELETED'', ''archived only''), (''FAILED'', ''failed''),
     (''MISSING_SOURCE'', ''gone from source'')]"

definition STATE_HELP :: labels where
  "STATE_HELP = [(''DISCOVERED'', ''seen at CommPeak, not yet due for copying''), (''QUEUED'', ''waiting for a worker to pick it up''),
     (''TRANSFERRING'', ''being copied to the archive now''), (''UPLOADED'', ''copied; the archive copy is being checked''),
     (''VERIFIED'', ''the archive copy is confirmed byte-for-byte''), (''AVAILABLE'', ''verified and playable''),
     (''SOURCE_DELETED'', ''kept in the archive; no longer held at CommPeak''), (''FAILED'', ''gave up after repeated errors''),
     (''MISSING_SOURCE'', ''removed at CommPeak before it could be copied'')]"

definition MATCH_CLASS :: labels where
  "MATCH_CLASS = [(''epoch_exact'', ''ok''), (''epoch_only'', ''ok''), (''time_number'', ''warn''), (''time_only'', ''warn''), (''orphan'', ''idle'')]"

definition MATCH_LABEL :: labels where
  "MATCH_LABEL = [(''epoch_exact'', ''matched exactly''), (''epoch_only'', ''matched on time''), (''time_number'', ''matched closely''),
     (''time_only'', ''matched loosely''), (''orphan'', ''no matching call'')]"

definition STATUS_CLASS :: labels where
  "STATUS_CLASS = [(''NORMAL_CLEARING'', ''ok''), (''ANSWERED'', ''ok''), (''USER_BUSY'', ''warn''), (''NO_ANSWER'', ''warn''),
     (''NO_USER_RESPONSE'', ''warn''), (''ORIGINATOR_CANCEL'', ''idle''), (''CALL_REJECTED'', ''err''), (''UNALLOCATED_NUMBER'', ''err'')]"

definition STATUS_LABEL :: labels where
  "STATUS_LABEL = [(''NORMAL_CLEARING'', ''answered''), (''NO_USER_RESPONSE'', ''no answer''), (''ORIGINATOR_CANCEL'', ''cancelled''),
     (''UNALLOCATED_NUMBER'', ''bad number'')]"

definition CONNECTION_CLASS :: labels where
  "CONNECTION_CLASS = [(''OK'', ''ok''), (''ERROR'', ''err''), (''DEGRADED'', ''warn''), (''UNTESTED'', ''idle''), (''DISABLED'', ''idle'')]"

definition CONNECTION_LABEL :: labels where
  "CONNECTION_LABEL = [(''OK'', ''working''), (''ERROR'', ''failing''), (''DEGRADED'', ''degraded''), (''UNTESTED'', ''not tested yet''),
     (''DISABLED'', ''switched off'')]"

definition ERROR_LABEL :: labels where
  "ERROR_LABEL = [(''ACL_ERROR'', ''address not allowed''), (''AUTH_ERROR'', ''wrong credentials''), (''CONFIG_ERROR'', ''misconfigured''),
     (''NOT_FOUND'', ''vanished at source''), (''RATE_LIMIT'', ''throttled''), (''NETWORK_ERROR'', ''network''), (''S3_ERROR'', ''storage error''),
     (''CHECKSUM_ERROR'', ''bytes disagreed''), (''STORAGE_ERROR'', ''archive refused''), (''PERMISSION_ERROR'', ''not permitted'')]"

definition RUN_LABEL :: labels where
  "RUN_LABEL = [(''FULL_INVENTORY'', ''full scan''), (''INCREMENTAL'', ''scan for new recordings''), (''CDR_POLL'', ''fetch call records''),
     (''RECONCILE'', ''nightly archive check''), (''RETENTION'', ''queue recordings due for archiving'')]"

definition AUDIT_ACTION_LABEL :: labels where
  "AUDIT_ACTION_LABEL = [(''PLAY'', ''listened''), (''DOWNLOAD'', ''downloaded''), (''ORGANISATION_CREATED'', ''organisation created''),
     (''ORGANISATION_RENAMED'', ''organisation renamed''), (''TENANT_CREATED'', ''PBX added''), (''USER_CREATED'', ''account created''),
     (''USER_ENABLED'', ''account enabled''), (''USER_DELETED'', ''account deleted''), (''USER_ROLE_CHANGED'', ''role changed''),
     (''USER_DETAILS_CHANGED'', ''details changed''), (''PASSWORD_RESET_BY_ADMIN'', ''password reset by an administrator''),
     (''USER_BRAND_ADDED'', ''given access to an organisation''), (''USER_BRAND_REMOVED'', ''access to an organisation removed''),
     (''USER_DISABLED'', ''account disabled''), (''MFA_RESET_BY_ADMIN'', ''two-factor cleared by an administrator''),
     (''MFA_ENABLED'', ''two-factor turned on''), (''MFA_DISABLED'', ''two-factor turned off''),
     (''RECOVERY_CODES_REISSUED'', ''recovery codes reissued''), (''PASSWORD_CHANGED'', ''password changed''),
     (''CREDENTIALS_REVEALED'', ''S3 credentials shown in clear'')]"

definition ROLE_LABEL :: labels where
  "ROLE_LABEL = [(''SUPER_ADMIN'', ''platform admin''), (''ADMIN'', ''admin''), (''OPERATOR'', ''operator'')]"

definition AUTH_LABEL :: labels where
  "AUTH_LABEL = [(''LOCAL'', ''password kept here''), (''ENTRA'', ''Microsoft Entra ID''), (''GOOGLE'', ''Google Workspace''),
     (''LDAP'', ''Active Directory / LDAP'')]"

definition SMS_STATUS_CLASS :: labels where
  "SMS_STATUS_CLASS = [(''delivered'', ''ok''), (''delivrd'', ''ok''), (''sent'', ''warn''), (''queued'', ''warn''), (''pending'', ''warn''),
     (''accepted'', ''warn''), (''submitted'', ''warn''), (''buffered'', ''warn''), (''failed'', ''err''), (''rejected'', ''err''),
     (''undelivered'', ''err''), (''undeliv'', ''err''), (''expired'', ''err''), (''error'', ''err''), (''blocked'', ''err'')]"

definition SMS_STATUS_HELP :: labels where
  "SMS_STATUS_HELP = [(''delivered'', ''confirmed as arrived on the handset''),
     (''sent'', ''accepted by the carrier, delivery not yet confirmed''), (''queued'', ''waiting to be sent''),
     (''pending'', ''waiting on the carrier''), (''failed'', ''the carrier could not deliver it''),
     (''rejected'', ''refused by the carrier or the destination network''), (''undelivered'', ''did not arrive; the carrier gave up''),
     (''expired'', ''the carrier stopped trying before it arrived''), (''blocked'', ''refused, usually a block on the destination'')]"

text \<open>The filters registered over the maps.\<close>

definition state_class :: "string \<Rightarrow> string" where "state_class v = label_in STATE_CLASS ''idle'' v"
definition state_label :: "string \<Rightarrow> string" where "state_label v = label_in STATE_LABEL (py_lower v) v"
definition state_help :: "string \<Rightarrow> string" where "state_help v = label_in STATE_HELP [] v"
definition match_class :: "string \<Rightarrow> string" where "match_class v = label_in MATCH_CLASS ''idle'' v"
definition match_label :: "string \<Rightarrow> string" where "match_label v = label_in MATCH_LABEL v v"
definition status_class :: "string \<Rightarrow> string" where "status_class v = label_in STATUS_CLASS ''idle'' v"
definition shorten_status :: "string \<Rightarrow> string" where "shorten_status v = label_in STATUS_LABEL (plain_words v) v"
definition conn_class :: "string \<Rightarrow> string" where "conn_class v = label_in CONNECTION_CLASS ''idle'' v"
definition conn_label :: "string \<Rightarrow> string" where "conn_label v = label_in CONNECTION_LABEL (plain_words v) v"
definition error_label :: "string \<Rightarrow> string" where "error_label v = label_in ERROR_LABEL (plain_words v) v"
definition run_label :: "string \<Rightarrow> string" where "run_label v = label_in RUN_LABEL (plain_words v) v"
definition role_label :: "string \<Rightarrow> string" where "role_label v = label_in ROLE_LABEL (plain_words v) v"
definition auth_label :: "string \<Rightarrow> string" where "auth_label v = label_in AUTH_LABEL (plain_words v) v"

definition sms_status_class :: "string option \<Rightarrow> string" where
  "sms_status_class v = label_in SMS_STATUS_CLASS ''idle'' (py_lower (py_strip (text_of v)))"

definition sms_status_help :: "string option \<Rightarrow> string" where
  "sms_status_help v = label_in SMS_STATUS_HELP [] (py_lower (py_strip (text_of v)))"

section \<open>Numbers, lengths and places\<close>

text \<open>\<open>{:,}\<close> of a whole number: groups of three.\<close>

fun grouped :: "string \<Rightarrow> string" where
  "grouped (a # b # c # d # s) = a # b # c # CHR '','' # grouped (d # s)"
| "grouped s = s"

definition with_commas :: "int \<Rightarrow> string" where
  "with_commas n = (if n < 0 then ''-'' else []) @ rev (grouped (rev (show_int \<bar>n\<bar>)))"

definition one_decimal :: "rat \<Rightarrow> string" where
  "one_decimal x = (let t = round_half_even (10 * x) in (if t < 0 then ''-'' else []) @ with_commas (\<bar>t\<bar> div 10) @ ''.'' @ show_int (\<bar>t\<bar> mod 10))"

fun size_in :: "string list \<Rightarrow> rat \<Rightarrow> string" where
  "size_in [] x = one_decimal x @ '' PB''"
| "size_in (u # us) x =
     (if \<bar>x\<bar> < 1024 \<or> u = ''PB''
      then (if u = ''B'' then with_commas (round_half_even x) else one_decimal x) @ '' '' @ u
      else size_in us (x / 1024))"

definition filesize :: "int option \<Rightarrow> string" where
  "filesize v = size_in [''B'', ''KB'', ''MB'', ''GB'', ''TB'', ''PB''] (of_int (case v of Some n \<Rightarrow> n | None \<Rightarrow> 0))"

definition duration_text :: "int option \<Rightarrow> string" where
  "duration_text v = (let n = (case v of Some n \<Rightarrow> n | None \<Rightarrow> 0) in if n \<le> 0 then ''--'' else clock_of n)"

definition confidence_class :: "rat option \<Rightarrow> string" where
  "confidence_class v = (case v of None \<Rightarrow> ''idle'' | Some s \<Rightarrow> if 3 / 4 \<le> s then ''ok'' else if 1 / 2 \<le> s then ''warn'' else ''idle'')"

definition confidence_label :: "rat option \<Rightarrow> string" where
  "confidence_label v = (case v of None \<Rightarrow> ''confidence not reported''
     | Some s \<Rightarrow> if 3 / 4 \<le> s then ''clear audio'' else if 1 / 2 \<le> s then ''mixed audio'' else ''poor audio'')"

definition number_text :: "string option \<Rightarrow> string" where
  "number_text v = (case nonempty v of Some s \<Rightarrow> before_first CHR ''@'' s | None \<Rightarrow> ''--'')"

definition archived_pct :: "int \<Rightarrow> int \<Rightarrow> rat" where
  "archived_pct kept all = (if all \<noteq> 0 then round_tenth (100 * of_int kept / of_int all) else 0)"

definition meter_class :: "rat \<Rightarrow> string" where
  "meter_class pct = (if 99 \<le> pct then [] else if pct < 50 then ''bad'' else if pct < 90 then ''warn'' else [])"

section \<open>Markup\<close>

text \<open>\<open>Markup.format\<close> escapes its arguments.\<close>

definition escape_char :: "char \<Rightarrow> string" where
  "escape_char c = (if c = CHR ''&'' then ''&amp;'' else if c = CHR ''>'' then ''&gt;'' else if c = CHR ''<'' then ''&lt;''
     else if c = CHR 0x27 then ''&#39;'' else if c = CHR 0x22 then ''&#34;'' else [c])"

definition escape :: "string \<Rightarrow> string" where
  "escape s = concat (map escape_char s)"

definition media_pill :: "int option \<Rightarrow> string list option \<Rightarrow> string" where
  "media_pill parts states =
     (let n = (case parts of Some n \<Rightarrow> n | None \<Rightarrow> 0); seen = (case states of Some xs \<Rightarrow> xs | None \<Rightarrow> []);
          q = [CHR 0x22]
      in if n = 0 then ''<span class='' @ q @ ''pill idle'' @ q @ ''>none</span>''
         else (let (style, label) = (if list_ex (\<lambda>s. s \<in> {''AVAILABLE'', ''SOURCE_DELETED''}) seen then (''ok'', ''playable'')
                   else if list_ex (\<lambda>s. s \<in> {''FAILED'', ''MISSING_SOURCE''}) seen then (''err'', ''failed'') else (''warn'', ''copying''));
                   suffix = (if 1 < n then [CHR '' '', CHR 0xD7] @ show_int n else [])
               in ''<span class='' @ q @ ''pill '' @ escape style @ q @ ''>'' @ escape label @ escape suffix @ ''</span>''))"

section \<open>The activity log\<close>

record log_entry =
  lg_action :: "string option"
  lg_result :: "string option"
  lg_key :: "string option"
  lg_old_value :: "string option"
  lg_new_value :: "string option"
  lg_recording_id :: "int option"
  lg_detail :: json

definition audit_action :: "string option \<Rightarrow> string" where
  "audit_action v = (let raw = py_upper (text_of v) in label_in AUDIT_ACTION_LABEL (plain_words raw) raw)"

definition audit_state :: "log_entry \<Rightarrow> string" where
  "audit_state e =
     (if lg_result e \<noteq> Some ''SUCCESS'' then ''denied''
      else let action = py_upper (text_of (lg_action e))
        in if action = ''PLAY'' then ''play'' else if action = ''DOWNLOAD'' then ''download'' else ''other'')"

definition detail_of :: "log_entry \<Rightarrow> payload" where
  "detail_of e = (case lg_detail e of JObj kvs \<Rightarrow> kvs | _ \<Rightarrow> [])"

definition setting_line :: "log_entry \<Rightarrow> string" where
  "setting_line e =
     (let body = ''changed <b>'' @ escape (case nonempty (lg_key e) of Some k \<Rightarrow> k | None \<Rightarrow> ''a setting'') @ ''</b>'';
          shown = (\<lambda>v. ''<code>'' @ escape (case v of Some s \<Rightarrow> s | None \<Rightarrow> ''not set'') @ ''</code>'')
      in case (lg_old_value e, lg_new_value e) of
           (None, Some n) \<Rightarrow> body @ '' to '' @ shown (Some n)
         | (Some old, None) \<Rightarrow> body @ '' back to its default (was '' @ shown (Some old) @ '')''
         | (old, new) \<Rightarrow> body @ '' from '' @ shown old @ '' to '' @ shown new)"

definition or_not_set :: "py_text \<Rightarrow> json \<Rightarrow> string" where
  "or_not_set P j = (if jtruthy j then str_json P j else ''not set'')"

definition changed_lines :: "py_text \<Rightarrow> json \<Rightarrow> string list" where
  "changed_lines P j =
     (case j of
        JObj changes \<Rightarrow> List.map_filter (\<lambda>(name, v). case v of
            JObj kvs \<Rightarrow> Some (name @ '': '' @ or_not_set P (jget ''from'' kvs) @ '' -> '' @ or_not_set P (jget ''to'' kvs))
          | _ \<Rightarrow> None) changes
      | _ \<Rightarrow> [])"

definition extras_of :: "py_text \<Rightarrow> payload \<Rightarrow> string list" where
  "extras_of P d =
     changed_lines P (jget ''changed'' d) @
     (if jtruthy (jget ''from'' d) \<and> jtruthy (jget ''to'' d) then [str_json P (jget ''from'' d) @ '' -> '' @ str_json P (jget ''to'' d)] else []) @
     (if jtruthy (jget ''role'' d) \<and> \<not> jtruthy (jget ''changed'' d) then [plain_words (str_json P (jget ''role'' d))] else []) @
     (if jtruthy (jget ''reason'' d) then [str_json P (jget ''reason'' d)] else [])"

definition action_line :: "py_text \<Rightarrow> log_entry \<Rightarrow> string" where
  "action_line P e =
     (let d = detail_of e;
          label = audit_action (lg_action e);
          told = (if (case nonempty (lg_result e) of Some r \<Rightarrow> r | None \<Rightarrow> ''SUCCESS'') \<noteq> ''SUCCESS'' then ''attempted: '' @ label else label);
          target = jget ''target_email'' d;
          line = (if jtruthy target then escape told @ '' &mdash; <b>'' @ escape (str_json P target) @ ''</b>''
                  else case lg_recording_id e of
                    Some i \<Rightarrow> if i \<noteq> 0 then escape told @ '' recording <b>'' @ escape (show_int i) @ ''</b>'' else escape told
                  | None \<Rightarrow> escape told);
          extras = extras_of P d
      in if extras = [] then line
         else line @ '' <span class='' @ [CHR 0x22] @ ''det'' @ [CHR 0x22] @ ''>('' @ escape (join '', '' extras) @ '')</span>'')"

definition change_line :: "py_text \<Rightarrow> log_entry \<Rightarrow> string" where
  "change_line P e = (if lg_action e = Some ''SETTING_CHANGED'' then setting_line e else action_line P e)"

section \<open>People\<close>

definition text_or_else :: "string \<Rightarrow> string \<Rightarrow> string" where
  "text_or_else a b = (if a = [] then b else a)"

definition initials :: "string option \<Rightarrow> string \<Rightarrow> string" where
  "initials display_name email =
     (case py_split (py_strip (text_of display_name)) of
        p # q # ps \<Rightarrow> py_upper [hd p, hd (last (q # ps))]
      | [p] \<Rightarrow> py_upper (take 2 p)
      | [] \<Rightarrow> (let local = before_first CHR ''@'' email in py_upper (if local = [] then ''?'' else take 2 local)))"

text \<open>\<open>str.casefold\<close>, for a comparison: on Latin-1 the lower case, with the sharp s as two letters.\<close>

definition casefold :: "string \<Rightarrow> string" where
  "casefold s = concat (map (\<lambda>c. if code c = 223 then ''ss'' else [lower_char c]) s)"

definition second_operator :: "cdr_row \<Rightarrow> string option" where
  "second_operator c =
     (let given = (\<lambda>v. case nonempty v of Some s \<Rightarrow> py_strip s | None \<Rightarrow> []);
          first_ext = given (cdr_agent_extension c); second_ext = given (cdr_bridged_agent_extension c);
          second = text_or_else (given (cdr_bridged_agent_name c)) second_ext;
          first = text_or_else (given (cdr_agent_name c)) first_ext
      in if second = [] then None
         else if first_ext \<noteq> [] \<and> second_ext \<noteq> [] then (if first_ext = second_ext then None else Some second)
         else if first \<noteq> [] \<and> casefold first = casefold second then None else Some second)"

section \<open>Moments, services and what is searched\<close>

definition day_text :: "dt \<Rightarrow> string" where
  "day_text t = (case date_of t of (y, mo, d) \<Rightarrow> zpad 4 (nat y) @ ''-'' @ zpad 2 (nat mo) @ ''-'' @ zpad 2 (nat d))"

definition minute_text :: "dt \<Rightarrow> string" where
  "minute_text t = (let s = t mod day div second in zpad 2 (nat (s div 3600)) @ '':'' @ zpad 2 (nat (s mod 3600 div 60)))"

definition dt_text :: "dt option \<Rightarrow> string" where
  "dt_text v = (case v of Some t \<Rightarrow> day_text t @ '' '' @ minute_text t @ '':'' @ zpad 2 (nat (t mod day div second mod 60)) | None \<Rightarrow> ''--'')"

definition dtlocal_text :: "dt option \<Rightarrow> string" where
  "dtlocal_text v = (case v of Some t \<Rightarrow> day_text t @ ''T'' @ minute_text t | None \<Rightarrow> [])"

definition PROVIDER_LABEL :: labels where
  "PROVIDER_LABEL = [(''wasabi'', ''Wasabi''), (''s3'', ''Amazon S3''), (''minio'', ''MinIO''), (''backblaze'', ''Backblaze B2''),
     (''b2'', ''Backblaze B2''), (''gcs'', ''Google Cloud Storage'')]"

text \<open>\<open>str.title\<close> of the letters of ASCII.\<close>

fun title_from :: "bool \<Rightarrow> string \<Rightarrow> string" where
  "title_from after_letter [] = []"
| "title_from after_letter (c # s) =
     (if is_alpha_ascii c then (if after_letter then [lower_char c] else upper_text c) @ title_from True s else c # title_from False s)"

definition provider_label :: "string option \<Rightarrow> string" where
  "provider_label v =
     (let raw = py_strip (text_of v) in label_in PROVIDER_LABEL (text_or_else (title_from False raw) ''--'') (py_lower raw))"

record searched =
  se_actor_label :: "string option"
  se_call_uuid :: "string option"
  se_ip :: "string option"

definition audit_search :: "py_text \<Rightarrow> searched \<Rightarrow> log_entry \<Rightarrow> string" where
  "audit_search P x e =
     (let target = jget ''target_email'' (detail_of e);
          parts = [text_of (se_actor_label x), audit_action (lg_action e), text_of (lg_action e), text_of (lg_result e),
            text_of (se_call_uuid x), text_of (lg_key e), text_of (lg_old_value e), text_of (lg_new_value e),
            (if jtruthy target then str_json P target else []),
            (case lg_recording_id e of Some i \<Rightarrow> if i \<noteq> 0 then show_int i else [] | None \<Rightarrow> []), text_of (se_ip x)]
      in join '' '' (map py_lower (filter (\<lambda>p. p \<noteq> []) parts)))"

section \<open>The tags of a line\<close>

text \<open>What a reader of the markup takes for tags: each text between a \<open><\<close> and the next \<open>>\<close>, and one that is left open.\<close>

fun tags_in :: "string option \<Rightarrow> string \<Rightarrow> string list" where
  "tags_in None [] = []"
| "tags_in (Some tag) [] = [tag]"
| "tags_in None (c # s) = (if c = CHR ''<'' then tags_in (Some []) s else tags_in None s)"
| "tags_in (Some tag) (c # s) = (if c = CHR ''>'' then tag # tags_in None s else tags_in (Some (tag @ [c])) s)"

definition tags :: "string \<Rightarrow> string list" where
  "tags s = tags_in None s"

lemma tags_in_plain: "CHR ''<'' \<notin> set a \<Longrightarrow> tags_in None (a @ b) = tags_in None b"
  by (induction a) auto

lemma tags_in_plain_end: "CHR ''<'' \<notin> set a \<Longrightarrow> tags_in None a = []"
  using tags_in_plain [of a "[]"] by simp

lemma escape_char_plain: "set (escape_char c) \<inter> {CHR ''<'', CHR ''>'', CHR 0x22, CHR 0x27} = {}"
  by (simp add: escape_char_def)

lemma escape_plain: "set (escape s) \<inter> {CHR ''<'', CHR ''>'', CHR 0x22, CHR 0x27} = {}"
  using escape_char_plain by (auto simp: escape_def)

lemma tags_in_escape: "tags_in None (escape s @ b) = tags_in None b" "tags_in None (escape s) = []"
  using escape_plain [of s] by (simp_all add: tags_in_plain tags_in_plain_end)

text \<open>A reader of the text sees what was put in.\<close>

fun shown_text :: "string \<Rightarrow> string" where
  "shown_text [] = []"
| "shown_text (c # s) =
     (if c \<noteq> CHR ''&'' then c # shown_text s
      else if take 4 s = ''amp;'' then CHR ''&'' # shown_text (drop 4 s)
      else if take 3 s = ''gt;'' then CHR ''>'' # shown_text (drop 3 s)
      else if take 3 s = ''lt;'' then CHR ''<'' # shown_text (drop 3 s)
      else if take 4 s = ''#39;'' then CHR 0x27 # shown_text (drop 4 s)
      else if take 4 s = ''#34;'' then CHR 0x22 # shown_text (drop 4 s)
      else c # shown_text s)"

lemma shown_text_char: "shown_text (escape_char c @ s) = c # shown_text s"
  by (simp add: escape_char_def)

lemma shown_text_escape: "shown_text (escape s) = s"
  by (induction s) (simp_all add: escape_def shown_text_char)


text \<open>A transcript that was handed out reads in the log as one that was refused: its row says \<open>allowed\<close>, and the log looks
  for \<open>SUCCESS\<close>.\<close>

lemma transcript_reads_as_refused:
  assumes "download_transcript E u readable i st audit = (audit @ [row], Document page)"
    and "lg_result e = Some (ma_result row)" "lg_action e = Some (ma_action row)" "lg_recording_id e = None" "lg_detail e = JObj []"
  shows "audit_state e = ''denied'' \<and> change_line P e = ''attempted: downloaded''"
proof -
  have "ma_result row = ''allowed'' \<and> ma_action row = ''DOWNLOAD''" using transcript_audit [OF assms(1)] by auto
  moreover have "py_upper ''DOWNLOAD'' = ''DOWNLOAD''" "escape ''attempted: downloaded'' = ''attempted: downloaded''" "\<not> jtruthy JNull" by code_simp+
  ultimately show ?thesis using assms(2-5)
    by (simp add: audit_state_def change_line_def action_line_def Let_def detail_of_def extras_of_def jget_def audit_action_def
        label_in_def AUDIT_ACTION_LABEL_def text_of_def nonempty_def changed_lines_def)
qed

lemma exact_by_identity_is_idle: "match_class ''uuid_exact'' = ''idle'' \<and> match_label ''uuid_exact'' = ''uuid_exact''"
  by code_simp

end
