(* ===== verification/Progress.thy ===== *)
theory Progress
  imports Transcripts Calendar Auth
begin

text \<open>
  How far the archive is: \<open>src/c2w/sync/convergence.py\<close> (when the two sides are equal), \<open>sync/account_eta.py\<close> (the same
  for every account), \<open>sync/source_lights.py\<close> (whether an account answers) and the sizes of \<open>db/size.py\<close>. Figures that
  are divisions are exact rationals. The figures are cached by the scope of the session: a stale one is served while
  one refresh of it runs.

  Lemmas: a date is given exactly when the gap closes, and it is the day on which it has closed; a green light
  has evidence that is not old.
\<close>

section \<open>The whole estate\<close>

datatype convergence_state = CONVERGING | LOSING | STALLED | COMPLETE

record convergence =
  cv_archived :: int
  cv_indexed :: int
  cv_source_estimate :: int
  cv_archived_bytes :: int
  cv_rate_per_day :: int
  cv_inflow_per_day :: int
  cv_state :: convergence_state

definition cv_remaining :: "convergence \<Rightarrow> int" where
  "cv_remaining c = max 0 (cv_source_estimate c - cv_archived c)"

definition cv_net_per_day :: "convergence \<Rightarrow> int" where
  "cv_net_per_day c = cv_rate_per_day c - cv_inflow_per_day c"

definition cv_percent :: "convergence \<Rightarrow> rat" where
  "cv_percent c = (if cv_source_estimate c \<le> 0 then 0
     else round_tenth (100 * of_int (cv_archived c) / of_int (cv_source_estimate c)))"

definition cv_days_remaining :: "convergence \<Rightarrow> rat option" where
  "cv_days_remaining c = (if cv_state c \<noteq> CONVERGING then None else Some (of_int (cv_remaining c) / of_int (cv_net_per_day c)))"

definition add_days :: "dt \<Rightarrow> rat \<Rightarrow> dt" where
  "add_days now d = now + round_half_even (d * of_int day)"

definition cv_eta :: "dt \<Rightarrow> convergence \<Rightarrow> dt option" where
  "cv_eta now c = map_option (add_days now) (cv_days_remaining c)"

definition state_of_rates :: "int \<Rightarrow> int \<Rightarrow> int \<Rightarrow> int \<Rightarrow> convergence_state" where
  "state_of_rates archived estimate rate inflow =
     (if estimate \<le> archived \<and> 0 < estimate then COMPLETE
      else if rate \<le> 0 then STALLED
      else if rate - inflow \<le> 0 then LOSING else CONVERGING)"

definition INFLOW_DAYS :: int where "INFLOW_DAYS = 7"

definition count_where :: "('a \<Rightarrow> bool) \<Rightarrow> 'a list \<Rightarrow> int" where
  "count_where p xs = int (length (filter p xs))"

definition verified_since :: "dt \<Rightarrow> recording \<Rightarrow> bool" where
  "verified_since t r = (case rec_verified_at r of Some v \<Rightarrow> t \<le> v | None \<Rightarrow> False)"

definition started_in :: "dt \<Rightarrow> dt \<Rightarrow> recording \<Rightarrow> bool" where
  "started_in a b r = (case rec_started_at r of Some s \<Rightarrow> a \<le> s \<and> s < b | None \<Rightarrow> False)"

text \<open>\<open>rows\<close> are the recordings the session's scope shows.\<close>

definition compute_convergence :: "dt \<Rightarrow> int \<Rightarrow> recording list \<Rightarrow> convergence" where
  "compute_convergence now estimate rows =
     (let copied = filter (\<lambda>r. rec_verified_at r \<noteq> None) rows; today = floor_day now;
          archived = int (length copied);
          rate = count_where (verified_since (now - day)) rows;
          inflow = count_where (started_in (today - INFLOW_DAYS * day) today) rows div INFLOW_DAYS
      in \<lparr>cv_archived = archived, cv_indexed = int (length rows), cv_source_estimate = estimate,
          cv_archived_bytes = sum_list (map (\<lambda>r. case rec_destination_size r of Some n \<Rightarrow> n | None \<Rightarrow> 0) copied),
          cv_rate_per_day = rate, cv_inflow_per_day = inflow, cv_state = state_of_rates archived estimate rate inflow\<rparr>)"

definition merge_convergence :: "convergence list \<Rightarrow> convergence option" where
  "merge_convergence parts =
     (case parts of
        [] \<Rightarrow> None
      | [p] \<Rightarrow> Some p
      | p # ps \<Rightarrow>
          (let archived = sum_list (map cv_archived parts); rate = sum_list (map cv_rate_per_day parts);
               inflow = sum_list (map cv_inflow_per_day parts); estimate = foldl max (cv_source_estimate p) (map cv_source_estimate ps)
           in Some \<lparr>cv_archived = archived, cv_indexed = sum_list (map cv_indexed parts), cv_source_estimate = estimate,
                cv_archived_bytes = sum_list (map cv_archived_bytes parts), cv_rate_per_day = rate,
                cv_inflow_per_day = inflow, cv_state = state_of_rates archived estimate rate inflow\<rparr>))"

section \<open>The figures by scope\<close>

text \<open>An entry of the cache and the scopes being refreshed. Asked, it answers from the cache, fresh or stale, and says
  whether a refresh is started behind the answer; with nothing cached, or no caching, it computes.\<close>

record 'a figures =
  fg_cache :: "(string \<times> rat \<times> 'a) list"
  fg_refreshing :: "string list"

definition scope_name :: "string \<Rightarrow> string" where
  "scope_name brand = (if brand = [] then ''unscoped'' else brand)"

definition remember :: "string \<Rightarrow> rat \<Rightarrow> int \<Rightarrow> 'a \<Rightarrow> 'a figures \<Rightarrow> 'a figures" where
  "remember scope clock cache_seconds x f =
     (if 0 < cache_seconds then f\<lparr>fg_cache := AList.update scope (clock + of_int cache_seconds, x) (fg_cache f)\<rparr> else f)"

definition figures :: "string \<Rightarrow> rat \<Rightarrow> int \<Rightarrow> 'a \<Rightarrow> 'a figures \<Rightarrow> 'a figures \<times> 'a \<times> bool" where
  "figures brand clock cache_seconds computed f =
     (let scope = scope_name brand
      in case (if 0 < cache_seconds then map_of (fg_cache f) scope else None) of
           None \<Rightarrow> (remember scope clock cache_seconds computed f, computed, False)
         | Some (expires, x) \<Rightarrow>
             if clock < expires then (f, x, False)
             else if scope \<in> set (fg_refreshing f) then (f, x, False)
             else (f\<lparr>fg_refreshing := scope # fg_refreshing f\<rparr>, x, True))"

text \<open>The refresh; \<open>None\<close> is one that failed, which is logged.\<close>

definition refresh_figures :: "string \<Rightarrow> rat \<Rightarrow> int \<Rightarrow> 'a option \<Rightarrow> 'a figures \<Rightarrow> 'a figures" where
  "refresh_figures scope clock cache_seconds computed f =
     (let f1 = (case computed of Some x \<Rightarrow> remember scope clock cache_seconds x f | None \<Rightarrow> f)
      in f1\<lparr>fg_refreshing := filter (\<lambda>s. s \<noteq> scope) (fg_refreshing f1)\<rparr>)"

section \<open>Every account\<close>

record account_eta =
  ac_account :: string
  ac_indexed :: int
  ac_verified :: int
  ac_rate_per_day :: int
  ac_inflow_per_day :: int

definition ac_remaining :: "account_eta \<Rightarrow> int" where
  "ac_remaining a = max 0 (ac_indexed a - ac_verified a)"

definition ac_percent :: "account_eta \<Rightarrow> rat" where
  "ac_percent a = (if ac_indexed a = 0 then 0 else round_tenth (100 * of_int (ac_verified a) / of_int (ac_indexed a)))"

definition ac_net_per_day :: "account_eta \<Rightarrow> int" where
  "ac_net_per_day a = ac_rate_per_day a - ac_inflow_per_day a"

definition ac_done :: "account_eta \<Rightarrow> bool" where
  "ac_done a \<longleftrightarrow> 0 < ac_indexed a \<and> ac_remaining a = 0"

definition ac_days_remaining :: "account_eta \<Rightarrow> rat option" where
  "ac_days_remaining a =
     (if ac_done a \<or> ac_remaining a = 0 then None
      else if ac_net_per_day a \<le> 0 then None
      else Some (of_int (ac_remaining a) / of_int (ac_net_per_day a)))"

definition ac_eta :: "dt \<Rightarrow> account_eta \<Rightarrow> dt option" where
  "ac_eta now a = map_option (add_days now) (ac_days_remaining a)"

definition ac_state :: "account_eta \<Rightarrow> string" where
  "ac_state a = (if ac_done a then ''ok'' else if ac_rate_per_day a \<le> 0 then ''idle''
     else if ac_net_per_day a \<le> 0 then ''err'' else ''warn'')"

text \<open>The order of the list: the key is a triple, compared from the left.\<close>

definition sort_days :: "account_eta \<Rightarrow> rat" where
  "sort_days a = (case ac_days_remaining a of Some d \<Rightarrow> d | None \<Rightarrow> 0)"

definition listed_before :: "account_eta \<Rightarrow> account_eta \<Rightarrow> bool" where
  "listed_before a b \<longleftrightarrow> (\<not> ac_done a \<and> ac_done b) \<or>
     (ac_done a = ac_done b \<and> (sort_days b < sort_days a \<or>
       (sort_days a = sort_days b \<and> lexordp_eq (map code (ac_account a)) (map code (ac_account b)))))"

definition order_accounts :: "account_eta list \<Rightarrow> account_eta list" where
  "order_accounts xs =
     (let by_name = sort_key (\<lambda>a. map code (ac_account a)) xs; by_days = sort_key (\<lambda>a. - sort_days a) by_name
      in sort_key ac_done by_days)"

definition compute_account_etas :: "dt \<Rightarrow> recording list \<Rightarrow> connection list \<Rightarrow> account_eta list" where
  "compute_account_etas now rows connections =
     order_accounts (map (\<lambda>c. let mine = filter (\<lambda>r. rec_connection_id r = con_id c) rows
        in \<lparr>ac_account = con_name c, ac_indexed = int (length mine),
            ac_verified = count_where (\<lambda>r. rec_verified_at r \<noteq> None) mine,
            ac_rate_per_day = count_where (verified_since (now - day)) mine,
            ac_inflow_per_day = count_where (\<lambda>r. case rec_started_at r of Some s \<Rightarrow> now - day \<le> s | None \<Rightarrow> False) mine\<rparr>)
       (filter con_is_enabled connections))"

section \<open>A light for every account\<close>

record source_light =
  sl_account :: string
  sl_brand_name :: string
  sl_state :: string
  sl_title :: string

definition STALE_AFTER_MINUTES :: rat where "STALE_AFTER_MINUTES = 30"

text \<open>The dash of the titles is written \<open>--\<close>.\<close>

definition age_text :: "rat option \<Rightarrow> string" where
  "age_text m =
     (case m of
        None \<Rightarrow> ''never''
      | Some x \<Rightarrow>
          if x < 1 then ''just now''
          else if x < 60 then show_int \<lfloor>x\<rfloor> @ '' min ago''
          else if x < 1440 then show_int \<lfloor>x / 60\<rfloor> @ '' h ago''
          else show_int \<lfloor>x / 1440\<rfloor> @ '' days ago'')"

definition minutes_since :: "dt \<Rightarrow> dt \<Rightarrow> rat" where
  "minutes_since now t = of_int (now - t) / of_int minute"

definition least_of :: "rat option list \<Rightarrow> rat option" where
  "least_of xs = (case List.map_filter id xs of [] \<Rightarrow> None | d # ds \<Rightarrow> Some (foldl min d ds))"

definition last_good_run :: "int \<Rightarrow> sync_run list \<Rightarrow> dt option" where
  "last_good_run i runs =
     (case map run_started_at (filter (\<lambda>r. run_connection_id r = Some i \<and> run_ok r = Some True) runs) of
        [] \<Rightarrow> None | d # ds \<Rightarrow> Some (foldl max d ds))"

definition light_of :: "dt \<Rightarrow> sync_run list \<Rightarrow> connection \<times> string \<Rightarrow> source_light" where
  "light_of now runs x =
     (case x of (c, brand_name) \<Rightarrow>
        let probe = map_option (minutes_since now) (con_last_probe_at c);
            ok_run = map_option (minutes_since now) (last_good_run (con_id c) runs);
            freshest = least_of [probe, ok_run];
            (state, title) =
              (if con_status c = CONN_ERROR then (''err'', ''refused -- last checked '' @ age_text probe)
               else case freshest of
                      None \<Rightarrow> (''warn'', ''never confirmed'')
                    | Some m \<Rightarrow>
                        if STALE_AFTER_MINUTES < m
                        then (''warn'', ''said OK, but nothing has confirmed it since '' @ age_text freshest)
                        else (''ok'', ''answering -- confirmed '' @ age_text freshest))
        in \<lparr>sl_account = con_name c, sl_brand_name = brand_name, sl_state = state, sl_title = title\<rparr>)"

definition source_lights :: "dt \<Rightarrow> database \<Rightarrow> brand list \<Rightarrow> source_light list" where
  "source_lights now d brands =
     (let rows = concat (map (\<lambda>c. case find_row (\<lambda>b. br_id b = con_brand_id c) brands of
              None \<Rightarrow> [] | Some b \<Rightarrow> [(c, br_name b)]) (filter con_is_enabled (db_connections d)));
          by_name = sort_key (\<lambda>x. map code (con_name (fst x))) rows
      in map (light_of now (db_runs d)) (sort_key (\<lambda>x. map code (snd x)) by_name))"

definition all_ok :: "source_light list \<Rightarrow> bool" where
  "all_ok lights \<longleftrightarrow> lights \<noteq> [] \<and> list_all (\<lambda>l. sl_state l = ''ok'') lights"

definition bad_lights :: "source_light list \<Rightarrow> int" where
  "bad_lights lights = count_where (\<lambda>l. sl_state l = ''err'') lights"

section \<open>Sizes\<close>

definition as_gb :: "int \<Rightarrow> string" where
  "as_gb n =
     (let h = round_half_even (of_int n / 10000000)
      in (if h < 0 then ''-'' else []) @ show_int (\<bar>h\<bar> div 100) @ ''.'' @ zpad 2 (nat (\<bar>h\<bar> mod 100)) @ '' GB'')"

section \<open>When a date is given\<close>

lemma state_of_rates_CONVERGING: "state_of_rates a e r i = CONVERGING \<longleftrightarrow> \<not> (e \<le> a \<and> 0 < e) \<and> 0 < r \<and> i < r"
  by (auto simp: state_of_rates_def)

definition rated :: "convergence \<Rightarrow> bool" where
  "rated c \<longleftrightarrow> cv_state c = state_of_rates (cv_archived c) (cv_source_estimate c) (cv_rate_per_day c) (cv_inflow_per_day c)"

lemma computed_rated: "rated (compute_convergence now estimate rows)"
  by (simp add: rated_def compute_convergence_def Let_def)

lemma merged_rated: "merge_convergence parts = Some c \<Longrightarrow> list_all rated parts \<Longrightarrow> rated c"
  by (auto simp: merge_convergence_def rated_def Let_def split: list.splits)

text \<open>What is missing at the source's side after some days at the measured rates, taken as exact.\<close>

definition gap_after :: "convergence \<Rightarrow> rat \<Rightarrow> rat" where
  "gap_after c d = of_int (cv_source_estimate c) + d * of_int (cv_inflow_per_day c) - (of_int (cv_archived c) + d * of_int (cv_rate_per_day c))"

text \<open>A date is given exactly when recordings are copied, faster than they arrive, and not all are there; at that date,
  the rates staying what they are, what is missing now and what has arrived until then are copied, and not before
  while anything is missing. Where none is given for want of speed the gap never closes.\<close>

theorem date_is_when_the_gap_closes:
  assumes "rated c"
  shows "(cv_days_remaining c = None \<longleftrightarrow> (cv_source_estimate c \<le> cv_archived c \<and> 0 < cv_source_estimate c) \<or>
      cv_rate_per_day c \<le> 0 \<or> cv_rate_per_day c \<le> cv_inflow_per_day c) \<and>
    (\<forall>d. cv_days_remaining c = Some d \<longrightarrow> 0 \<le> d \<and> gap_after c d \<le> 0 \<and>
      (cv_archived c < cv_source_estimate c \<longrightarrow> (\<forall>t. gap_after c t \<le> 0 \<longleftrightarrow> d \<le> t))) \<and>
    (cv_state c = LOSING \<longrightarrow> (\<forall>t \<ge> 0. of_int (cv_source_estimate c - cv_archived c) \<le> gap_after c t))"
proof -
  let ?gap = "of_int (cv_source_estimate c - cv_archived c) :: rat" and ?net = "of_int (cv_net_per_day c) :: rat"
  have gap: "gap_after c t = ?gap - t * ?net" for t
    by (simp add: gap_after_def cv_net_per_day_def algebra_simps)
  have state: "cv_state c = state_of_rates (cv_archived c) (cv_source_estimate c) (cv_rate_per_day c) (cv_inflow_per_day c)"
    using assms by (simp add: rated_def)
  have none: "cv_days_remaining c = None \<longleftrightarrow> (cv_source_estimate c \<le> cv_archived c \<and> 0 < cv_source_estimate c) \<or>
      cv_rate_per_day c \<le> 0 \<or> cv_rate_per_day c \<le> cv_inflow_per_day c"
    unfolding cv_days_remaining_def state by (auto simp: state_of_rates_def)
  have some: "0 \<le> d \<and> gap_after c d \<le> 0 \<and> (cv_archived c < cv_source_estimate c \<longrightarrow> (\<forall>t. gap_after c t \<le> 0 \<longleftrightarrow> d \<le> t))"
    if "cv_days_remaining c = Some d" for d
  proof -
    have "cv_state c = CONVERGING" and d: "d = of_int (cv_remaining c) / ?net"
      using that by (auto simp: cv_days_remaining_def split: if_splits)
    then have net: "0 < ?net" by (simp add: state state_of_rates_CONVERGING cv_net_per_day_def)
    have rem: "?gap \<le> of_int (cv_remaining c)" by (simp only: of_int_le_iff) (simp add: cv_remaining_def)
    have "0 \<le> d" unfolding d using net by (simp add: cv_remaining_def)
    moreover have "gap_after c d \<le> 0" using net rem by (simp add: gap d)
    moreover have "gap_after c t \<le> 0 \<longleftrightarrow> d \<le> t" if "cv_archived c < cv_source_estimate c" for t
    proof -
      have "of_int (cv_remaining c) = ?gap" using that by (simp add: cv_remaining_def)
      then show ?thesis using net by (simp add: gap d pos_divide_le_eq)
    qed
    ultimately show ?thesis by blast
  qed
  have losing: "of_int (cv_source_estimate c - cv_archived c) \<le> gap_after c t" if "cv_state c = LOSING" "0 \<le> t" for t
  proof -
    have "?net \<le> 0" using that(1) by (auto simp: state state_of_rates_def cv_net_per_day_def split: if_splits)
    then show ?thesis using that(2) by (simp add: gap mult_nonneg_nonpos)
  qed
  show ?thesis using none some losing by blast
qed

definition demo_convergence :: convergence where
  "demo_convergence = \<lparr>cv_archived = 10, cv_indexed = 30, cv_source_estimate = 40, cv_archived_bytes = 0, cv_rate_per_day = 7,
     cv_inflow_per_day = 2, cv_state = CONVERGING\<rparr>"

theorem date_is_when_the_gap_closes_witness:
  "rated demo_convergence \<and> cv_days_remaining demo_convergence = Some 6 \<and> gap_after demo_convergence 6 \<le> 0"
proof -
  have r: "rated demo_convergence" by (simp add: rated_def demo_convergence_def state_of_rates_def)
  have d: "cv_days_remaining demo_convergence = Some 6"
    by (simp add: demo_convergence_def cv_days_remaining_def cv_remaining_def cv_net_per_day_def)
  show ?thesis using date_is_when_the_gap_closes [OF r] r d by blast
qed

text \<open>The list of the accounts says slowest first, but an account that never finishes has no number of days, sorts as
  one with none left, and comes after every account that has a date.\<close>

lemma losing_account_comes_last:
  assumes "ac_state a = ''err''" "\<not> ac_done a" "ac_days_remaining b = Some d" "0 < d"
  shows "listed_before b a \<and> \<not> listed_before a b"
proof -
  have a: "sort_days a = 0" using assms(1,2) by (auto simp: ac_state_def sort_days_def ac_days_remaining_def split: if_splits)
  have b: "sort_days b = d" "\<not> ac_done b" using assms(3) by (auto simp: sort_days_def ac_days_remaining_def split: if_splits)
  show ?thesis using a b assms(2,4) by (simp add: listed_before_def)
qed

section \<open>What a green light says\<close>

text \<open>A green light is of an account whose last word was not a refusal and that was checked, or went through a scan,
  within the last half hour; an account that is refused is red however recent its last good scan.\<close>

lemma green_light_has_evidence:
  "(sl_state (light_of now runs (c, brand_name)) = ''ok'' \<longleftrightarrow>
     con_status c \<noteq> CONN_ERROR \<and>
     ((\<exists>t. con_last_probe_at c = Some t \<and> now - t \<le> 30 * minute) \<or>
      (\<exists>t. last_good_run (con_id c) runs = Some t \<and> now - t \<le> 30 * minute))) \<and>
   (sl_state (light_of now runs (c, brand_name)) = ''err'' \<longleftrightarrow> con_status c = CONN_ERROR)"
proof -
  have fresh: "minutes_since now t \<le> STALE_AFTER_MINUTES \<longleftrightarrow> now - t \<le> 30 * minute" for t
  proof -
    have "minutes_since now t \<le> 30 \<longleftrightarrow> of_int (now - t) \<le> (of_int (30 * minute) :: rat)"
      by (simp add: minutes_since_def minute_def second_def pos_divide_le_eq)
    then show ?thesis unfolding STALE_AFTER_MINUTES_def of_int_le_iff .
  qed
  show ?thesis
    by (cases "con_last_probe_at c"; cases "last_good_run (con_id c) runs")
      (auto simp: light_of_def Let_def least_of_def List.map_filter_simps fresh [symmetric] min_def)
qed

end
