(* ===== verification/Sql.thy ===== *)
theory Sql
  imports Prelude "HOL-Library.Multiset"
begin

text \<open>
  What the searches of \<open>src/c2w/api/v1\<close> ask of the database and of Python's sort: \<open>LIKE\<close>, the translation of an
  operator's wildcards into it, an order by a comparison that keeps what it does not tell apart in its order, and
  pages of an ordered list.

  Lemmas: a translated pattern matches what the wildcards say, the sort sorts, a window of the merged order needs
  no more of each list than reaches its end, and walking the pages ends exactly when the last is not beyond the
  furthest offset.
\<close>

section \<open>LIKE\<close>

text \<open>\<open>%\<close> is any text, \<open>_\<close> any one character, and the backslash takes the next one as it is. The database refuses a
  pattern that ends in a backslash; none of those built here does.\<close>

fun like :: "string \<Rightarrow> string \<Rightarrow> bool" where
  "like [] s = (s = [])"
| "like (c # p) [] = (c = CHR ''%'' \<and> like p [])"
| "like (c # p) (x # s) =
     (if c = CHR ''%'' then like p (x # s) \<or> like (c # p) s
      else if c = CHR ''_'' then like p s
      else if c = CHR 0x5C then (case p of [] \<Rightarrow> False | d # q \<Rightarrow> x = d \<and> like q s)
      else x = c \<and> like p s)"

definition ilike :: "string \<Rightarrow> string \<Rightarrow> bool" where
  "ilike p s = like (py_lower p) (py_lower s)"

definition glob_to_like :: "string \<Rightarrow> string" where
  "glob_to_like pattern = concat (map (\<lambda>c.
     if c = CHR ''*'' then ''%'' else if c = CHR ''?'' then ''_''
     else if c \<in> {CHR ''%'', CHR ''_'', CHR 0x5C} then [CHR 0x5C, c] else [c]) pattern)"

text \<open>What the operator means: \<open>*\<close> any run, \<open>?\<close> exactly one.\<close>

fun glob :: "string \<Rightarrow> string \<Rightarrow> bool" where
  "glob [] s = (s = [])"
| "glob (c # p) [] = (c = CHR ''*'' \<and> glob p [])"
| "glob (c # p) (x # s) =
     (if c = CHR ''*'' then glob p (x # s) \<or> glob (c # p) s
      else if c = CHR ''?'' then glob p s
      else x = c \<and> glob p s)"

lemma glob_to_like_simps [simp]:
  "glob_to_like [] = []"
  "glob_to_like (c # p) = (if c = CHR ''*'' then [CHR ''%''] else if c = CHR ''?'' then [CHR ''_'']
     else if c \<in> {CHR ''%'', CHR ''_'', CHR 0x5C} then [CHR 0x5C, c] else [c]) @ glob_to_like p"
  by (auto simp: glob_to_like_def)

lemma like_glob: "like (glob_to_like p) s = glob p s"
proof (induction p s rule: glob.induct)
  case (1 s)
  then show ?case by simp
next
  case (2 c p)
  then show ?case by (cases "c = CHR ''*''") auto
next
  case (3 c p x s)
  then show ?case by (cases "c = CHR ''*''"; cases "c = CHR ''?''") auto
qed

definition plain :: "string \<Rightarrow> bool" where
  "plain s \<longleftrightarrow> set s \<inter> {CHR ''%'', CHR ''_'', CHR 0x5C, CHR ''*'', CHR ''?''} = {}"

lemma glob_to_like_plain: "plain p \<Longrightarrow> glob_to_like p = p"
  by (induction p) (auto simp: plain_def)

lemma like_any: "like ''%'' s"
  by (induction s) auto

lemma like_percent: "like (CHR ''%'' # p) s \<longleftrightarrow> (\<exists>a b. s = a @ b \<and> like p b)"
proof (induction s)
  case Nil
  then show ?case by auto
next
  case (Cons x s)
  have "(\<exists>a b. x # s = a @ b \<and> like p b) \<longleftrightarrow> like p (x # s) \<or> (\<exists>a b. s = a @ b \<and> like p b)"
    by (auto simp: Cons_eq_append_conv)
  then show ?case using Cons by simp
qed

lemma like_plain: "plain a \<Longrightarrow> like (a @ p) s \<longleftrightarrow> (\<exists>t. s = a @ t \<and> like p t)"
proof (induction a arbitrary: s)
  case Nil
  then show ?case by simp
next
  case (Cons c a)
  from Cons.prems have "plain a" "c \<noteq> CHR ''%''" "c \<noteq> CHR ''_''" "c \<noteq> CHR 0x5C" by (auto simp: plain_def)
  then show ?case using Cons.IH by (cases s) auto
qed

lemma like_begins: "plain a \<Longrightarrow> like (a @ ''%'') s \<longleftrightarrow> (\<exists>t. s = a @ t)"
  by (simp add: like_plain like_any)

lemma like_ends: "plain a \<Longrightarrow> like (''%'' @ a) s \<longleftrightarrow> (\<exists>t. s = t @ a)"
  using like_plain [of a "[]"] by (simp add: like_percent)

lemma like_contains: "plain a \<Longrightarrow> like (''%'' @ a @ ''%'') s \<longleftrightarrow> (\<exists>t u. s = t @ a @ u)"
  by (auto simp: like_percent like_begins)

section \<open>Order by a comparison\<close>

fun insert_by :: "('a \<Rightarrow> 'a \<Rightarrow> bool) \<Rightarrow> 'a \<Rightarrow> 'a list \<Rightarrow> 'a list" where
  "insert_by le x [] = [x]"
| "insert_by le x (y # ys) = (if le x y then x # y # ys else y # insert_by le x ys)"

definition sort_by :: "('a \<Rightarrow> 'a \<Rightarrow> bool) \<Rightarrow> 'a list \<Rightarrow> 'a list" where
  "sort_by le xs = foldr (insert_by le) xs []"

fun merge_by :: "('a \<Rightarrow> 'a \<Rightarrow> bool) \<Rightarrow> 'a list \<Rightarrow> 'a list \<Rightarrow> 'a list" where
  "merge_by le [] ys = ys"
| "merge_by le xs [] = xs"
| "merge_by le (x # xs) (y # ys) = (if le x y then x # merge_by le xs (y # ys) else y # merge_by le (x # xs) ys)"

lemma sort_by_simps [simp]: "sort_by le [] = []" "sort_by le (x # xs) = insert_by le x (sort_by le xs)"
  by (simp_all add: sort_by_def)

lemma mset_insert_by [simp]: "mset (insert_by le x ys) = add_mset x (mset ys)"
  by (induction ys) auto

lemma mset_sort_by [simp]: "mset (sort_by le xs) = mset xs"
  by (induction xs) auto

lemma set_sort_by [simp]: "set (sort_by le xs) = set xs"
  by (metis mset_sort_by set_mset_mset)

lemma length_sort_by [simp]: "length (sort_by le xs) = length xs"
  by (metis mset_sort_by size_mset)

lemma merge_by_Nil [simp]: "merge_by le xs [] = xs"
  by (cases xs) auto

lemma take_merge_by: "take n (merge_by le xs ys) = take n (merge_by le (take n xs) (take n ys))"
proof (induction n arbitrary: xs ys)
  case 0
  then show ?case by simp
next
  case (Suc k)
  have cut: "take k (z # take k zs) = take k (z # zs)" for z :: 'a and zs by (cases k) auto
  show ?case
  proof (cases "xs = [] \<or> ys = []")
    case True
    then show ?thesis by auto
  next
    case False
    then obtain x as y bs where xs: "xs = x # as" and ys: "ys = y # bs" by (meson neq_Nil_conv)
    have left: "take k (merge_by le as (y # bs)) = take k (merge_by le (take k as) (y # take k bs))"
      using Suc.IH [of as "y # bs"] Suc.IH [of "take k as" "y # take k bs"] by (simp add: cut)
    have right: "take k (merge_by le (x # as) bs) = take k (merge_by le (x # take k as) (take k bs))"
      using Suc.IH [of "x # as" bs] Suc.IH [of "x # take k as" "take k bs"] by (simp add: cut)
    show ?thesis by (simp add: xs ys left right)
  qed
qed

locale ranking =
  fixes le :: "'a \<Rightarrow> 'a \<Rightarrow> bool"
  assumes either: "le x y \<or> le y x"
    and onwards: "le x y \<Longrightarrow> le y z \<Longrightarrow> le x z"
begin

lemma insert_by_merge: "insert_by le x (merge_by le xs ys) = merge_by le (insert_by le x xs) ys"
proof (induction xs arbitrary: ys)
  case Nil
  show ?case by (induction ys) auto
next
  case (Cons a as)
  show ?case
  proof (induction ys)
    case Nil
    then show ?case by simp
  next
    case (Cons b bs)
    have skip: "\<not> le x b" if "\<not> le a b" "\<not> le x a" using that either onwards by blast
    have first: "le x b" if "le x a" "le a b" using that onwards by blast
    show ?case using Cons.IH Cons.prems \<open>\<And>ys. insert_by le x (merge_by le as ys) = merge_by le (insert_by le x as) ys\<close> skip first
      by (cases "le a b"; cases "le x a"; cases "le x b") auto
  qed
qed

lemma sort_by_append: "sort_by le (xs @ ys) = merge_by le (sort_by le xs) (sort_by le ys)"
  by (induction xs) (simp_all add: insert_by_merge)

lemma sorted_insert_by: "sorted_wrt le ys \<Longrightarrow> sorted_wrt le (insert_by le x ys)"
proof (induction ys)
  case Nil
  then show ?case by simp
next
  case (Cons y ys)
  have set: "set (insert_by le x ys) = insert x (set ys)" by (induction ys) auto
  show ?case
  proof (cases "le x y")
    case True
    then show ?thesis using Cons.prems onwards [of x y] by auto
  next
    case False
    then have "le y x" using either by blast
    then show ?thesis using False Cons set by auto
  qed
qed

lemma sorted_sort_by: "sorted_wrt le (sort_by le xs)"
  by (induction xs) (simp_all add: sorted_insert_by)

lemma insert_by_first: "\<forall>y \<in> set ys. le x y \<Longrightarrow> insert_by le x ys = x # ys"
  by (cases ys) auto

lemma sort_by_sorted: "sorted_wrt le xs \<Longrightarrow> sort_by le xs = xs"
  by (induction xs) (simp_all add: insert_by_first)

text \<open>The first \<open>n\<close> of several ordered lists merged need only the first \<open>n\<close> of each.\<close>

lemma window:
  assumes "\<And>l. l \<in> set ls \<Longrightarrow> sorted_wrt le l"
  shows "take n (sort_by le (concat (map (take n) ls))) = take n (sort_by le (concat ls))"
  using assms
proof (induction ls)
  case Nil
  then show ?case by simp
next
  case (Cons l ls)
  have l: "sort_by le l = l" "sort_by le (take n l) = take n l"
    using Cons.prems [of l] by (simp_all add: sort_by_sorted sorted_wrt_take)
  have rest: "take n (sort_by le (concat (map (take n) ls))) = take n (sort_by le (concat ls))" using Cons by simp
  let ?short = "sort_by le (concat (map (take n) ls))" and ?whole = "sort_by le (concat ls)"
  have "take n (sort_by le (concat (map (take n) (l # ls)))) = take n (merge_by le (take n l) ?short)"
    by (simp add: sort_by_append l)
  also have "\<dots> = take n (merge_by le (take n (take n l)) (take n ?short))" by (rule take_merge_by)
  also have "\<dots> = take n (merge_by le (take n l) (take n ?whole))" by (simp only: rest take_take min.idem)
  also have "\<dots> = take n (merge_by le l ?whole)" by (rule take_merge_by [symmetric])
  also have "\<dots> = take n (sort_by le (concat (l # ls)))" by (simp add: sort_by_append l)
  finally show ?case .
qed

end

section \<open>Pages\<close>

definition limit_offset :: "int \<Rightarrow> int \<Rightarrow> 'a list \<Rightarrow> 'a list" where
  "limit_offset l o1 xs = take (nat l) (drop (nat o1) xs)"

text \<open>The walk of an export over the pages: it ends at a page that is empty or not full. \<open>None\<close> is a walk that has not ended
  after as many pages as there is fuel.\<close>

fun walk :: "nat \<Rightarrow> (int \<Rightarrow> 'a list) \<Rightarrow> int \<Rightarrow> int \<Rightarrow> 'a list option" where
  "walk 0 page l offset = None"
| "walk (Suc n) page l offset =
     (let rows = page offset
      in if rows = [] then Some []
         else if int (length rows) \<noteq> l then Some rows
         else map_option ((@) rows) (walk n page l (offset + l)))"

lemma walk_short:
  assumes "page o1 = take l rows" "length rows < l"
  shows "walk (Suc n) page (int l) o1 = Some rows"
  using assms by (simp add: Let_def)

lemma walk_full:
  assumes "page o1 = take l rows" "l \<le> length rows" "0 < l" "walk n page (int l) (o1 + int l) = Some rest"
  shows "walk (Suc n) page (int l) o1 = Some (take l rows @ rest)"
proof -
  have "take l rows \<noteq> []" "length (take l rows) = l" using assms(2,3) by auto
  then show ?thesis using assms(1,4) by (simp add: Let_def)
qed

lemma walk_ends:
  assumes "0 < l" "length xs < l * m + l" "j \<le> m"
    and page: "\<And>k. k \<le> m \<Longrightarrow> page (int (l * k)) = take l (drop (l * k) xs)"
  shows "walk (Suc (m - j)) page (int l) (int (l * j)) = Some (drop (l * j) xs)"
  using assms(3)
proof (induction "m - j" arbitrary: j)
  case 0
  then have "length (drop (l * j) xs) < l" using assms(1,2) by simp
  from walk_short [of page "int (l * j)", OF page [of j] this] show ?case using 0 by (simp del: of_nat_mult walk.simps)
next
  case (Suc n)
  show ?case
  proof (cases "length (drop (l * j) xs) < l")
    case True
    from walk_short [of page "int (l * j)", OF page [OF Suc.prems] this] show ?thesis .
  next
    case False
    have "Suc j \<le> m" "n = m - Suc j" using Suc.hyps(2) by simp_all
    then have "walk (Suc (m - Suc j)) page (int l) (int (l * Suc j)) = Some (drop (l * Suc j) xs)" using Suc.hyps(1) by blast
    then have rest: "walk (m - j) page (int l) (int (l * j) + int l) = Some (drop (l * Suc j) xs)"
      using \<open>Suc j \<le> m\<close> by (metis Suc_diff_Suc Suc_le_lessD add.commute mult_Suc_right of_nat_add)
    have "take l (drop (l * j) xs) @ drop (l * Suc j) xs = drop (l * j) xs"
      by (metis append_take_drop_id drop_drop add.commute mult_Suc_right)
    with walk_full [of page "int (l * j)", OF page [OF Suc.prems] _ assms(1) rest] False show ?thesis by (metis not_less)
  qed
qed

lemma walk_never:
  assumes "\<And>k. length (page (int k)) = l" "0 < l"
  shows "walk n page (int l) (int o1) = None"
proof (induction n arbitrary: o1)
  case (Suc n)
  have "page (int o1) \<noteq> []" using assms(1) [of o1] assms(2) by auto
  moreover have "walk n page (int l) (int o1 + int l) = None" using Suc.IH [of "o1 + l"] by simp
  ultimately show ?case using assms(1) by (simp add: Let_def)
qed simp

text \<open>A search that takes no offset beyond the furthest reads the page there again and again.\<close>

lemma walk_clamped:
  assumes "\<And>o1. page (int o1) = take l (drop (min o1 (l * m)) xs)" "0 < l"
  shows "if length xs < l * m + l then walk (Suc m) page (int l) 0 = Some xs else \<forall>fuel. walk fuel page (int l) 0 = None"
proof (cases "length xs < l * m + l")
  case True
  have "walk (Suc (m - 0)) page (int l) (int (l * 0)) = Some (drop (l * 0) xs)"
    using True assms by (intro walk_ends) (simp_all add: min_def del: of_nat_mult)
  then show ?thesis using True by (simp del: walk.simps)
next
  case False
  have "length (page (int o1)) = l" for o1 using False assms(1) by simp
  then have "walk fuel page (int l) (int 0) = None" for fuel using assms(2) by (intro walk_never)
  then show ?thesis using False by simp
qed

end
