(* ===== verification/CallSearch.thy ===== *)
theory CallSearch
  imports Cdr Access Sql
begin

text \<open>
  The calls page: \<open>src/c2w/api/v1/cdrs.py\<close> and the routes \<open>/calls\<close> and \<open>/calls/export.csv\<close> of \<open>web/routes.py\<close>. A query
  is read from the form, turned into conditions on a row, run in the scope of one organisation, and, for who may
  read several, run in each and merged. The columns of a result row are those of its call and what is joined to
  it. The text of the export's lines is not modelled; its walk over the pages is, with the table as it stands and
  the clock read at each page.

  Lemmas: what a number typed finds, the merged page is a page of the merged whole, the page list, and when an
  export ends.
\<close>

section \<open>The query\<close>

datatype sort_field = BY_STARTED | BY_DURATION | BY_SRC | BY_DST

record cdr_query =
  cq_date_from :: "dt option"
  cq_date_to :: "dt option"
  cq_number :: "string option"
  cq_number_match :: string
  cq_direction :: "string option"
  cq_agent :: "string option"
  cq_status :: "string option"
  cq_country :: "string option"
  cq_queue :: "string option"
  cq_call_type :: "string option"
  cq_call_uuid :: "string option"
  cq_connection_id :: "int option"
  cq_media :: "string option"
  cq_min_duration :: "int option"
  cq_sort :: sort_field
  cq_descending :: bool
  cq_limit :: int
  cq_offset :: int

definition MAX_PAGE_SIZE :: int where "MAX_PAGE_SIZE = 200"
definition MAX_OFFSET :: int where "MAX_OFFSET = 50000"
definition MAX_MERGE_ROWS :: int where "MAX_MERGE_ROWS = 5000"
definition COUNT_CAP :: int where "COUNT_CAP = 10000"
definition DEFAULT_RANGE_DAYS :: int where "DEFAULT_RANGE_DAYS = 7"

definition effective_range :: "dt \<Rightarrow> cdr_query \<Rightarrow> dt \<times> dt" where
  "effective_range now q =
     (let stop = (case cq_date_to q of Some t \<Rightarrow> t | None \<Rightarrow> now)
      in (case cq_date_from q of Some t \<Rightarrow> t | None \<Rightarrow> stop - DEFAULT_RANGE_DAYS * day, stop))"

text \<open>The form: every field is text; an empty one is no filter, and a number that is none is the default.\<close>

definition query_date :: "string \<Rightarrow> dt option" where
  "query_date s =
     (if length s < 4 \<or> \<not> list_all is_digit (take 4 s) then None
      else Option.bind (literal CHR ''-'' (drop 4 s)) (\<lambda>s1.
        Option.bind (strp_field strp_month CHR ''-'' s1) (\<lambda>(mo, s2).
        Option.bind (strp_mday s2) (\<lambda>(da, s3).
          if s3 = [] then mk_datetime (py_int (take 4 s)) mo da 0 0 0
          else Option.bind (separator CHR ''T'' s3) (\<lambda>s4.
            Option.bind (strp_field strp_hour CHR '':'' s4) (\<lambda>(ho, s5).
            Option.bind (strp_minute s5) (\<lambda>(mi, s6).
              if s6 = [] then mk_datetime (py_int (take 4 s)) mo da ho mi 0
              else Option.bind (literal CHR '':'' s6) (\<lambda>s7.
                Option.bind (strp_second s7) (\<lambda>(se, s8).
                  if s8 = [] then mk_datetime (py_int (take 4 s)) mo da ho mi se else None)))))))))"

definition form_date :: "string option \<Rightarrow> dt option" where
  "form_date v = Option.bind (nonempty v) query_date"

definition form_int :: "string option \<Rightarrow> int option" where
  "form_int v = Option.bind (nonempty v) py_int_text"

definition sort_of :: "string \<Rightarrow> sort_field" where
  "sort_of s = (if s = ''duration'' then BY_DURATION else if s = ''src'' then BY_SRC else if s = ''dst'' then BY_DST else BY_STARTED)"

definition nonzero_or :: "int \<Rightarrow> int option \<Rightarrow> int" where
  "nonzero_or d v = (case v of None \<Rightarrow> d | Some n \<Rightarrow> if n = 0 then d else n)"

record call_form =
  cf_number :: "string option"
  cf_number_match :: "string option"
  cf_date_from :: "string option"
  cf_date_to :: "string option"
  cf_direction :: "string option"
  cf_agent :: "string option"
  cf_media :: "string option"
  cf_connection_id :: "string option"
  cf_status :: "string option"
  cf_min_duration :: "string option"
  cf_country :: "string option"
  cf_queue :: "string option"
  cf_call_type :: "string option"
  cf_sort :: string
  cf_desc :: string
  cf_limit :: "string option"
  cf_offset :: "string option"

definition parse_query :: "call_form \<Rightarrow> cdr_query" where
  "parse_query f =
     \<lparr>cq_date_from = form_date (cf_date_from f), cq_date_to = form_date (cf_date_to f), cq_number = cf_number f,
      cq_number_match = (let m = py_strip (case nonempty (cf_number_match f) of Some m \<Rightarrow> m | None \<Rightarrow> ''contains'')
                         in if m = [] then ''contains'' else m),
      cq_direction = nonempty (cf_direction f), cq_agent = nonempty (cf_agent f), cq_status = nonempty (cf_status f),
      cq_country = nonempty (cf_country f), cq_queue = nonempty (cf_queue f), cq_call_type = nonempty (cf_call_type f),
      cq_call_uuid = None, cq_connection_id = form_int (cf_connection_id f), cq_media = nonempty (cf_media f),
      cq_min_duration = form_int (cf_min_duration f), cq_sort = sort_of (cf_sort f),
      cq_descending = (cf_desc f \<in> {''1'', ''true'', []}),
      cq_limit = nonzero_or 50 (form_int (cf_limit f)), cq_offset = nonzero_or 0 (form_int (cf_offset f))\<rparr>"

section \<open>Conditions\<close>

definition NUMBER_MATCHES :: "string list" where
  "NUMBER_MATCHES = [''contains'', ''begins'', ''ends'', ''exact'']"

definition is_wildcard :: "char \<Rightarrow> bool" where
  "is_wildcard c \<longleftrightarrow> c = CHR ''*'' \<or> c = CHR ''?''"

definition digits_and_wildcards :: "string \<Rightarrow> string" where
  "digits_and_wildcards raw = filter (\<lambda>c. py_isdigit_char c \<or> is_wildcard c) raw"

text \<open>A comparison with a column that is null is not true.\<close>

definition col :: "('a \<Rightarrow> bool) \<Rightarrow> 'a option \<Rightarrow> bool" where
  "col p v = (case v of Some x \<Rightarrow> p x | None \<Rightarrow> False)"

definition either_number :: "(string \<Rightarrow> bool) \<Rightarrow> cdr_row \<Rightarrow> bool" where
  "either_number p c \<longleftrightarrow> col p (cdr_src c) \<or> col p (cdr_dst c)"

definition either_norm :: "string \<Rightarrow> cdr_row \<Rightarrow> bool" where
  "either_norm digits c \<longleftrightarrow> col (\<lambda>s. s = digits) (cdr_src_norm c) \<or> col (\<lambda>s. s = digits) (cdr_dst_norm c)"

definition number_condition :: "string \<Rightarrow> string \<Rightarrow> cdr_row \<Rightarrow> bool" where
  "number_condition typed given_mode c =
     (let raw = py_strip typed; mode = (if given_mode \<in> set NUMBER_MATCHES then given_mode else ''contains'');
          wild = digits_and_wildcards raw; digits = normalise_msisdn (Some raw)
      in if list_ex is_wildcard wild then either_number (like (glob_to_like wild)) c
         else if mode = ''exact'' then either_norm (if digits = [] then wild else digits) c
         else if mode = ''begins'' then either_number (like (glob_to_like wild @ ''%'')) c
         else if mode = ''ends'' then either_number (like (''%'' @ glob_to_like wild)) c
         else if 6 \<le> length digits then either_norm digits c
         else either_number (ilike (''%'' @ raw @ ''%'')) c)"

definition given_col :: "string option \<Rightarrow> string option \<Rightarrow> bool" where
  "given_col wanted v = (case nonempty wanted of None \<Rightarrow> True | Some w \<Rightarrow> col (\<lambda>s. s = w) v)"

definition stripped_col :: "string option \<Rightarrow> string option \<Rightarrow> bool" where
  "stripped_col wanted v = (case nonempty wanted of None \<Rightarrow> True | Some w \<Rightarrow> col (\<lambda>s. s = py_strip w) v)"

definition linked :: "recording list \<Rightarrow> cdr_row \<Rightarrow> recording list" where
  "linked recs c = filter (\<lambda>r. rec_cdr_id r = Some (cdr_id c) \<and> rec_brand_id r = cdr_brand_id c) recs"

definition media_condition :: "string option \<Rightarrow> recording list \<Rightarrow> cdr_row \<Rightarrow> bool" where
  "media_condition media recs c =
     (let some_state = (\<lambda>p. list_ex (\<lambda>r. p (rec_state r)) (linked recs c))
      in if media = Some ''available'' then some_state (\<lambda>s. s \<in> {AVAILABLE, SOURCE_DELETED})
         else if media = Some ''pending'' then some_state (\<lambda>s. s \<notin> {AVAILABLE, SOURCE_DELETED, REC_FAILED})
         else if media = Some ''failed'' then some_state (\<lambda>s. s \<in> {REC_FAILED, MISSING_SOURCE})
         else if media = Some ''none'' then linked recs c = []
         else True)"

definition matches_query :: "dt \<Rightarrow> cdr_query \<Rightarrow> recording list \<Rightarrow> cdr_row \<Rightarrow> bool" where
  "matches_query now q recs c \<longleftrightarrow>
     fst (effective_range now q) \<le> cdr_start_at c \<and> cdr_start_at c \<le> snd (effective_range now q) \<and>
     (case cq_connection_id q of Some i \<Rightarrow> i = 0 \<or> cdr_connection_id c = i | None \<Rightarrow> True) \<and>
     stripped_col (cq_call_uuid q) (Some (cdr_call_uuid c)) \<and>
     (case nonempty (cq_number q) of Some s \<Rightarrow> number_condition s (cq_number_match q) c | None \<Rightarrow> True) \<and>
     (if cq_direction q \<in> {Some ''in'', Some ''out''} then cdr_direction c = cq_direction q else True) \<and>
     (case nonempty (cq_agent q) of
        Some a \<Rightarrow> col (\<lambda>s. s = py_strip a) (cdr_agent_extension c) \<or> col (ilike (''%'' @ py_strip a @ ''%'')) (cdr_agent_name c)
      | None \<Rightarrow> True) \<and>
     given_col (cq_status q) (cdr_status c) \<and> stripped_col (cq_country q) (cdr_dst_country c) \<and>
     stripped_col (cq_queue q) (cdr_queue_name c) \<and> stripped_col (cq_call_type q) (cdr_call_type c) \<and>
     (case cq_min_duration q of Some n \<Rightarrow> n = 0 \<or> col (\<lambda>d. n \<le> d) (cdr_call_duration c) | None \<Rightarrow> True) \<and>
     media_condition (cq_media q) recs c"

section \<open>A page\<close>

record call_line =
  cl_call :: cdr_row
  cl_connection_name :: "string option"
  cl_parts :: int
  cl_states :: "recording_state list"
  cl_first_recording :: "int option"
  cl_bytes :: int
  cl_match_method :: "string option"
  cl_match_confidence :: "rat option"
  cl_brand_name :: "string option"

definition least_by :: "('a \<Rightarrow> 'a \<Rightarrow> bool) \<Rightarrow> 'a list \<Rightarrow> 'a option" where
  "least_by le xs = (case sort_by le xs of [] \<Rightarrow> None | x # _ \<Rightarrow> Some x)"

definition text_le :: "string \<Rightarrow> string \<Rightarrow> bool" where
  "text_le a b \<longleftrightarrow> map code a \<le> map code b"

text \<open>The recordings of a call, joined in; one without any still has its line. Of the states only which there are matters.\<close>

definition line_of :: "database \<Rightarrow> cdr_row \<Rightarrow> call_line" where
  "line_of d c =
     (let rs = linked (db_recordings d) c
      in \<lparr>cl_call = c,
          cl_connection_name = map_option con_name
            (find_row (\<lambda>k. con_id k = cdr_connection_id c \<and> con_brand_id k = cdr_brand_id c) (db_connections d)),
          cl_parts = int (length rs), cl_states = remdups (map rec_state rs),
          cl_first_recording = least_by (\<le>) (map rec_id rs), cl_bytes = sum_list (map rec_source_size rs),
          cl_match_method = least_by text_le (List.map_filter recording.rec_match_method rs),
          cl_match_confidence = least_by (\<ge>) (List.map_filter rec_match_confidence rs), cl_brand_name = None\<rparr>)"

text \<open>What a column sorts on, and the order: nulls last, then by id.\<close>

definition sort_value :: "sort_field \<Rightarrow> cdr_row \<Rightarrow> int list option" where
  "sort_value f c =
     (case f of BY_STARTED \<Rightarrow> Some [cdr_start_at c] | BY_DURATION \<Rightarrow> map_option (\<lambda>n. [n]) (cdr_call_duration c)
      | BY_SRC \<Rightarrow> map_option (map (\<lambda>x. int (code x))) (cdr_src c) | BY_DST \<Rightarrow> map_option (map (\<lambda>x. int (code x))) (cdr_dst c))"

definition row_before :: "sort_field \<Rightarrow> bool \<Rightarrow> cdr_row \<Rightarrow> cdr_row \<Rightarrow> bool" where
  "row_before f descending a b =
     (let by_id = (if descending then cdr_id b \<le> cdr_id a else cdr_id a \<le> cdr_id b)
      in case (sort_value f a, sort_value f b) of
           (None, None) \<Rightarrow> by_id | (None, Some _) \<Rightarrow> False | (Some _, None) \<Rightarrow> True
         | (Some x, Some y) \<Rightarrow> if x = y then by_id else if descending then y < x else x < y)"

text \<open>The rows a session sees: those its setting admits.\<close>

definition visible :: "string \<Rightarrow> database \<Rightarrow> database" where
  "visible setting d = d\<lparr>db_recordings := filter (\<lambda>r. policy_admits setting (Some (rec_brand_id r))) (db_recordings d),
     db_cdrs := filter (\<lambda>c. policy_admits setting (Some (cdr_brand_id c))) (db_cdrs d),
     db_connections := filter (\<lambda>k. policy_admits setting (Some (con_brand_id k))) (db_connections d),
     db_jobs := filter (\<lambda>j. policy_admits setting (Some (job_brand_id j))) (db_jobs d),
     db_runs := filter (\<lambda>r. policy_admits setting (Some (run_brand_id r))) (db_runs d)\<rparr>"

definition found_calls :: "dt \<Rightarrow> cdr_query \<Rightarrow> database \<Rightarrow> cdr_row list" where
  "found_calls now q d = sort_by (row_before (cq_sort q) (cq_descending q)) (filter (matches_query now q (db_recordings d)) (db_cdrs d))"

record call_page =
  pg_rows :: "call_line list"
  pg_total :: "int option"
  pg_limit :: int
  pg_offset :: int
  pg_truncated :: bool
  pg_count_capped :: bool

definition search_cdrs :: "dt \<Rightarrow> cdr_query \<Rightarrow> int \<Rightarrow> string \<Rightarrow> database \<Rightarrow> call_page" where
  "search_cdrs now q cap setting d =
     (let seen = visible setting d; l = max 1 (min (cq_limit q) cap); o1 = max 0 (min (cq_offset q) MAX_OFFSET)
      in \<lparr>pg_rows = map (line_of seen) (limit_offset l o1 (found_calls now q seen)), pg_total = None, pg_limit = l, pg_offset = o1,
          pg_truncated = (MAX_OFFSET \<le> o1), pg_count_capped = False\<rparr>)"

definition count_cdrs :: "dt \<Rightarrow> cdr_query \<Rightarrow> string \<Rightarrow> database \<Rightarrow> int" where
  "count_cdrs now q setting d = min COUNT_CAP (int (length (found_calls now q (visible setting d))))"

definition has_more :: "call_page \<Rightarrow> bool" where
  "has_more p \<longleftrightarrow> int (length (pg_rows p)) = pg_limit p"

section \<open>The page list\<close>

definition page_number :: "call_page \<Rightarrow> int" where
  "page_number p = pg_offset p div max 1 (pg_limit p) + 1"

definition page_count :: "call_page \<Rightarrow> int option" where
  "page_count p =
     (if pg_count_capped p then None
      else map_option (\<lambda>n. max 1 \<lceil>(of_int n :: rat) / of_int (max 1 (pg_limit p))\<rceil>) (pg_total p))"

fun gaps_after :: "int \<Rightarrow> int list \<Rightarrow> int option list" where
  "gaps_after previous [] = []"
| "gaps_after previous (n # ns) = (if previous + 1 < n then [None] else []) @ Some n # gaps_after n ns"

definition with_gaps :: "int list \<Rightarrow> bool \<Rightarrow> int option list" where
  "with_gaps pages open_ended =
     (case pages of [] \<Rightarrow> [] | n # ns \<Rightarrow> Some n # gaps_after n ns) @ (if open_ended then [None] else [])"

definition page_links :: "int \<Rightarrow> call_page \<Rightarrow> int option list" where
  "page_links around p =
     (let here = page_number p
      in case page_count p of
           None \<Rightarrow> with_gaps (sort (remdups (1 # [max 1 (here - around) .. here]))) True
         | Some final \<Rightarrow> with_gaps (sort (remdups (1 # final # [max 1 (here - around) .. min final (here + around)]))) False)"

section \<open>Several organisations\<close>

definition readable_brand_ids :: "user \<Rightarrow> string option \<Rightarrow> auth_db \<Rightarrow> http_exc + int list" where
  "readable_brand_ids u cookie d =
     (if \<not> is_super_admin u
      then res_bind (brand_scope cookie u d) (\<lambda>(_, active). Inr (case active of Some b \<Rightarrow> [br_id b] | None \<Rightarrow> []))
      else Inr (sort (map br_id (filter br_is_active (au_brands d)))))"

text \<open>The key of Python's sort: what is missing before what is there. \<open>reverse\<close> keeps the order of equals.\<close>

definition merge_key :: "sort_field \<Rightarrow> call_line \<Rightarrow> int option" where
  "merge_key f x = (if f = BY_DURATION then cdr_call_duration (cl_call x) else Some (cdr_start_at (cl_call x)))"

definition key_le :: "int option \<Rightarrow> int option \<Rightarrow> bool" where
  "key_le a b \<longleftrightarrow> (case (a, b) of (None, _) \<Rightarrow> True | (Some _, None) \<Rightarrow> False | (Some x, Some y) \<Rightarrow> x \<le> y)"

definition line_before :: "sort_field \<Rightarrow> bool \<Rightarrow> call_line \<Rightarrow> call_line \<Rightarrow> bool" where
  "line_before f reverse a b = (if reverse then key_le (merge_key f b) (merge_key f a) else key_le (merge_key f a) (merge_key f b))"

definition deep_query :: "cdr_query \<Rightarrow> cdr_query" where
  "deep_query q = q\<lparr>cq_limit := min (cq_offset q + cq_limit q) MAX_MERGE_ROWS, cq_offset := 0\<rparr>"

definition stamped :: "(int \<Rightarrow> string option) \<Rightarrow> int \<Rightarrow> call_line \<Rightarrow> call_line" where
  "stamped names b x = x\<lparr>cl_brand_name := Some (case names b of Some n \<Rightarrow> n | None \<Rightarrow> [])\<rparr>"

text \<open>A slice with bounds below nought counts from the end.\<close>

definition py_slice :: "int \<Rightarrow> int \<Rightarrow> 'a list \<Rightarrow> 'a list" where
  "py_slice i j xs = (let n = int (length xs); bound = (\<lambda>k. if k < 0 then max 0 (n + k) else min k n) in take (nat (bound j - bound i)) (drop (nat (bound i)) xs))"

definition search_across :: "dt \<Rightarrow> (int \<Rightarrow> string option) \<Rightarrow> cdr_query \<Rightarrow> int list \<Rightarrow> database \<Rightarrow> call_page \<times> int" where
  "search_across now names q brands d =
     (case brands of
        [b] \<Rightarrow>
          (let n = count_cdrs now q (show_int b) d
           in ((search_cdrs now q MAX_PAGE_SIZE (show_int b) d)\<lparr>pg_total := Some n, pg_count_capped := COUNT_CAP \<le> n\<rparr>, n))
      | _ \<Rightarrow>
          (let rows = concat (map (\<lambda>b. map (stamped names b) (pg_rows (search_cdrs now (deep_query q) MAX_MERGE_ROWS (show_int b) d))) brands);
               counts = map (\<lambda>b. count_cdrs now q (show_int b) d) brands; n = sum_list counts;
               merged = sort_by (line_before (cq_sort q) (cq_descending q)) rows
           in (\<lparr>pg_rows = py_slice (cq_offset q) (cq_offset q + cq_limit q) merged, pg_total = Some n, pg_limit = cq_limit q,
                pg_offset = cq_offset q, pg_truncated = (MAX_MERGE_ROWS < cq_offset q + cq_limit q),
                pg_count_capped = list_ex (\<lambda>k. COUNT_CAP \<le> k) counts\<rparr>, n)))"

definition calls_page :: "dt \<Rightarrow> (int \<Rightarrow> string option) \<Rightarrow> user \<Rightarrow> string option \<Rightarrow> string \<Rightarrow> auth_db \<Rightarrow> cdr_query \<Rightarrow> database \<Rightarrow>
    http_exc + call_page" where
  "calls_page now names u cookie setting a q d =
     res_bind (readable_brand_ids u cookie a) (\<lambda>brands.
       if brands = []
       then (let n = count_cdrs now q setting d
             in Inr ((search_cdrs now q MAX_PAGE_SIZE setting d)\<lparr>pg_total := Some n, pg_count_capped := COUNT_CAP \<le> n\<rparr>))
       else Inr (fst (search_across now names q brands d)))"

section \<open>The export\<close>

definition export_query :: "call_form \<Rightarrow> cdr_query" where
  "export_query f = parse_query (f\<lparr>cf_status := None, cf_sort := ''started'', cf_desc := ''1'', cf_limit := Some ''200'', cf_offset := Some ''0''\<rparr>)"

text \<open>The clock is read at each page.\<close>

definition export_calls :: "nat \<Rightarrow> (int \<Rightarrow> dt) \<Rightarrow> role \<Rightarrow> call_form \<Rightarrow> string \<Rightarrow> database \<Rightarrow> http_exc + call_line list option" where
  "export_calls fuel clock r f setting d =
     (if \<not> has_permission r CDR_EXPORT then Inl (HTTPException 403 ''your role may not export CDRs'')
      else (let q = export_query f
            in Inr (walk fuel (\<lambda>o1. pg_rows (search_cdrs (clock o1) (q\<lparr>cq_offset := o1\<rparr>) MAX_PAGE_SIZE setting d)) 200 0)))"

section \<open>What a number finds\<close>

lemma glob_plain: "plain p \<Longrightarrow> glob p s \<longleftrightarrow> s = p"
  by (induction p s rule: glob.induct) (auto simp: plain_def)

lemma digits_plain:
  assumes "\<not> list_ex is_wildcard (digits_and_wildcards raw)"
  shows "plain (digits_and_wildcards raw)"
proof -
  have "\<not> py_isdigit_char CHR ''%''" "\<not> py_isdigit_char CHR ''_''" "\<not> py_isdigit_char CHR 0x5C" by code_simp+
  then show ?thesis using assms by (auto simp: plain_def digits_and_wildcards_def is_wildcard_def list_ex_iff)
qed

text \<open>A number typed with a wildcard finds the calls one of whose two numbers, as it is shown, is of the pattern: a star
  any run, a question mark exactly one. Typed without one it finds, to begin or to end with, the calls one of whose
  numbers begins or ends with the digits typed.\<close>

theorem number_condition_means:
  "number_condition typed mode c \<longleftrightarrow>
     (let wild = digits_and_wildcards (py_strip typed); digits = normalise_msisdn (Some (py_strip typed))
      in if list_ex is_wildcard wild then either_number (glob wild) c
         else if mode = ''exact'' then either_norm (if digits = [] then wild else digits) c
         else if mode = ''begins'' then either_number (\<lambda>s. \<exists>t. s = wild @ t) c
         else if mode = ''ends'' then either_number (\<lambda>s. \<exists>t. s = t @ wild) c
         else if 6 \<le> length digits then either_norm digits c
         else either_number (ilike (''%'' @ py_strip typed @ ''%'')) c)"
proof -
  let ?wild = "digits_and_wildcards (py_strip typed)"
  show ?thesis
  proof (cases "list_ex is_wildcard ?wild")
    case True
    moreover have "like (glob_to_like ?wild) = glob ?wild" by (rule ext) (rule like_glob)
    ultimately show ?thesis by (simp add: number_condition_def Let_def)
  next
    case False
    from digits_plain [OF False] have "plain ?wild" .
    then have "glob_to_like ?wild = ?wild" "like (?wild @ ''%'') = (\<lambda>s. \<exists>t. s = ?wild @ t)" "like (''%'' @ ?wild) = (\<lambda>s. \<exists>t. s = t @ ?wild)"
      by (simp_all add: fun_eq_iff glob_to_like_plain like_begins like_ends [simplified])
    then show ?thesis using False by (simp add: number_condition_def Let_def NUMBER_MATCHES_def)
  qed
qed

text \<open>Six digits or more and no wildcard: \<open>contains\<close> compares them with the last nine digits and finds nothing inside a number.\<close>

lemma contains_is_not_inside:
  assumes "normalise_msisdn (Some (py_strip typed)) = digits" "6 \<le> length digits" "\<not> list_ex is_wildcard (digits_and_wildcards (py_strip typed))"
    and "cdr_src_norm c \<noteq> Some digits" "cdr_dst_norm c \<noteq> Some digits"
  shows "\<not> number_condition typed ''contains'' c"
  using assms by (auto simp: number_condition_def Let_def NUMBER_MATCHES_def either_norm_def col_def split: option.splits)

text \<open>A recording that is gone from the source counts as being copied and as failed.\<close>

lemma missing_is_pending_and_failed:
  assumes "linked recs c = [r]" "rec_state r = MISSING_SOURCE"
  shows "media_condition (Some ''pending'') recs c \<and> media_condition (Some ''failed'') recs c"
  using assms by (simp add: media_condition_def Let_def)

section \<open>The page list shows its numbers in order\<close>

fun marks_gaps :: "int option list \<Rightarrow> bool" where
  "marks_gaps [] = True"
| "marks_gaps [Some a] = True"
| "marks_gaps [Some a, None] = True"
| "marks_gaps (Some a # Some b # xs) = (b = a + 1 \<and> marks_gaps (Some b # xs))"
| "marks_gaps (Some a # None # Some b # xs) = (a + 1 < b \<and> marks_gaps (Some b # xs))"
| "marks_gaps _ = False"

definition numbers_in :: "int option list \<Rightarrow> int list" where
  "numbers_in xs = List.map_filter id xs"

lemma numbers_in_simps [simp]: "numbers_in [] = []" "numbers_in (None # xs) = numbers_in xs" "numbers_in (Some n # xs) = n # numbers_in xs"
  "numbers_in (xs @ ys) = numbers_in xs @ numbers_in ys"
  by (simp_all add: numbers_in_def List.map_filter_def)

lemma numbers_in_with_gaps: "numbers_in (with_gaps ns open_ended) = ns"
proof -
  have "numbers_in (gaps_after n ns) = ns" for n ns by (induction n ns rule: gaps_after.induct) auto
  then show ?thesis by (simp add: with_gaps_def split: list.split)
qed

lemma marks_gaps_with_gaps:
  assumes "sorted_wrt (<) ns"
  shows "marks_gaps (with_gaps ns False)" "ns \<noteq> [] \<Longrightarrow> marks_gaps (with_gaps ns True)"
proof -
  have "sorted_wrt (<) (n # ns) \<Longrightarrow> marks_gaps (Some n # gaps_after n ns) \<and> marks_gaps (Some n # gaps_after n ns @ [None])" for n ns
    by (induction n ns rule: gaps_after.induct) auto
  then show "marks_gaps (with_gaps ns False)" "ns \<noteq> [] \<Longrightarrow> marks_gaps (with_gaps ns True)"
    using assms by (auto simp: with_gaps_def split: list.split)
qed

lemma sort_remdups: "sorted_wrt (<) (sort (remdups xs))" for xs :: "int list"
  by (simp add: strict_sorted_iff)

text \<open>C35: The page list names, in rising order and each once, the first page, the last where it is known, and those about the
  current one; where and only where numbers are left out stands one gap; and it ends open exactly when nobody knows how
  many there are.\<close>

theorem page_links_in_order:
  "sorted_wrt (<) (numbers_in (page_links around p)) \<and> marks_gaps (page_links around p) \<and>
   set (numbers_in (page_links around p)) =
     (case page_count p of
        None \<Rightarrow> {1} \<union> {max 1 (page_number p - around) .. page_number p}
      | Some n \<Rightarrow> {1, n} \<union> {max 1 (page_number p - around) .. min n (page_number p + around)}) \<and>
   (page_count p = None \<longleftrightarrow> last (page_links around p) = None)"
proof (cases "page_count p")
  case None
  obtain ns where ns: "ns = sort (remdups (1 # [max 1 (page_number p - around) .. page_number p]))" by simp
  have links: "page_links around p = with_gaps ns True" by (simp add: page_links_def Let_def None ns del: remdups.simps)
  have set: "set ns = {1} \<union> {max 1 (page_number p - around) .. page_number p}" unfolding ns by (simp only: set_sort set_remdups) auto
  then have "ns \<noteq> []" by auto
  moreover have "last (with_gaps ns True) = None" by (simp add: with_gaps_def)
  moreover have "sorted_wrt (<) ns" unfolding ns by (rule sort_remdups)
  ultimately show ?thesis unfolding links numbers_in_with_gaps using None set marks_gaps_with_gaps(2) [of ns] by simp
next
  case (Some n)
  obtain ns where ns: "ns = sort (remdups (1 # n # [max 1 (page_number p - around) .. min n (page_number p + around)]))" by simp
  have links: "page_links around p = with_gaps ns False" by (simp add: page_links_def Let_def Some ns del: remdups.simps)
  have set: "set ns = {1, n} \<union> {max 1 (page_number p - around) .. min n (page_number p + around)}"
    unfolding ns by (simp only: set_sort set_remdups) auto
  have ends: "\<exists>y. last (Some m # gaps_after m ms) = Some y" for m ms by (induction m ms rule: gaps_after.induct) auto
  obtain m ms where "ns = m # ms" using set by (cases ns) auto
  then have "last (with_gaps ns False) \<noteq> None" using ends [of m ms] by (auto simp: with_gaps_def)
  moreover have "sorted_wrt (<) ns" unfolding ns by (rule sort_remdups)
  ultimately show ?thesis unfolding links numbers_in_with_gaps using Some set marks_gaps_with_gaps(1) [of ns] by simp
qed

section \<open>A page of several organisations\<close>

interpretation lines: ranking "line_before f reverse" for f reverse
  by unfold_locales (auto simp: line_before_def key_le_def split: option.splits if_splits)

interpretation calls: ranking "row_before f descending" for f descending
  by unfold_locales (auto simp: row_before_def Let_def split: option.splits if_splits)

lemma found_calls_sorted: "sorted_wrt (row_before (cq_sort q) (cq_descending q)) (found_calls now q d)"
  unfolding found_calls_def by (rule calls.sorted_sort_by)

lemma row_before_line_before:
  assumes "row_before f descending a b" "f = BY_STARTED \<or> f = BY_DURATION \<and> (descending \<or> cdr_call_duration a \<noteq> None \<and> cdr_call_duration b \<noteq> None)"
    and "cl_call x = a" "cl_call y = b"
  shows "line_before f descending x y"
  using assms
  by (auto simp: row_before_def line_before_def sort_value_def merge_key_def key_le_def Let_def split: option.splits if_splits)

text \<open>All that an organisation has, as the merge would see it.\<close>

definition whole_list :: "dt \<Rightarrow> (int \<Rightarrow> string option) \<Rightarrow> cdr_query \<Rightarrow> database \<Rightarrow> int \<Rightarrow> call_line list" where
  "whole_list now names q d b = map (\<lambda>c. stamped names b (line_of (visible (show_int b) d) c)) (found_calls now q (visible (show_int b) d))"

lemma whole_list_sorted:
  assumes "cq_sort q = BY_STARTED \<or> cq_sort q = BY_DURATION \<and> (cq_descending q \<or> list_all (\<lambda>c. cdr_call_duration c \<noteq> None) (db_cdrs d))"
  shows "sorted_wrt (line_before (cq_sort q) (cq_descending q)) (whole_list now names q d b)"
proof -
  have calls: "set (found_calls now q (visible (show_int b) d)) \<subseteq> set (db_cdrs d)" by (auto simp: found_calls_def visible_def)
  have "sorted_wrt (\<lambda>a c. line_before (cq_sort q) (cq_descending q) (stamped names b (line_of e a)) (stamped names b (line_of e c)))
      (found_calls now q (visible (show_int b) d))" for e
    using found_calls_sorted
  proof (rule sorted_wrt_mono_rel [rotated])
    fix a c assume "a \<in> set (found_calls now q (visible (show_int b) d))" "c \<in> set (found_calls now q (visible (show_int b) d))"
      and before: "row_before (cq_sort q) (cq_descending q) a c"
    then have "cq_sort q = BY_STARTED \<or> cq_sort q = BY_DURATION \<and> (cq_descending q \<or> cdr_call_duration a \<noteq> None \<and> cdr_call_duration c \<noteq> None)"
      using assms calls by (auto simp: list_all_iff)
    then show "line_before (cq_sort q) (cq_descending q) (stamped names b (line_of e a)) (stamped names b (line_of e c))"
      by (rule row_before_line_before [OF before]) (simp_all add: stamped_def line_of_def Let_def)
  qed
  then show ?thesis by (simp add: whole_list_def sorted_wrt_map)
qed

lemma matches_query_paging [simp]: "matches_query now (q\<lparr>cq_limit := l\<rparr>) = matches_query now q"
  "matches_query now (q\<lparr>cq_offset := o1\<rparr>) = matches_query now q"
  by (simp_all add: fun_eq_iff matches_query_def effective_range_def cong: option.case_cong if_cong)

lemma found_calls_paging [simp]: "found_calls now (q\<lparr>cq_limit := l\<rparr>) d = found_calls now q d"
  "found_calls now (q\<lparr>cq_offset := o1\<rparr>) d = found_calls now q d"
  by (simp_all add: found_calls_def)

lemma deep_page:
  assumes "0 < cq_offset q + cq_limit q" "cq_offset q + cq_limit q \<le> MAX_MERGE_ROWS"
  shows "map (stamped names b) (pg_rows (search_cdrs now (deep_query q) MAX_MERGE_ROWS (show_int b) d)) =
    take (nat (cq_offset q + cq_limit q)) (whole_list now names q d b)"
  using assms by (simp add: search_cdrs_def deep_query_def whole_list_def limit_offset_def Let_def take_map MAX_OFFSET_def comp_def)

lemma py_slice_window: "0 \<le> o1 \<Longrightarrow> 0 \<le> l \<Longrightarrow> py_slice o1 (o1 + l) xs = drop (nat o1) (take (nat (o1 + l)) xs)"
  by (simp add: py_slice_def Let_def drop_take nat_diff_distrib' min_def)


section \<open>How an export ends\<close>

lemma found_calls_clock: "cq_date_to q = Some t \<Longrightarrow> found_calls now q d = found_calls t q d"
  by (simp add: found_calls_def matches_query_def [abs_def] effective_range_def)

lemma export_query_limit: "cq_limit (export_query f) = 200"
proof -
  have "form_int (Some ''200'') = Some 200" by code_simp
  then show ?thesis by (simp add: export_query_def parse_query_def nonzero_or_def)
qed

definition exported :: "dt \<Rightarrow> call_form \<Rightarrow> string \<Rightarrow> database \<Rightarrow> call_line list" where
  "exported t f setting d = map (line_of (visible setting d)) (found_calls t (export_query f) (visible setting d))"

lemma export_page:
  assumes "cq_date_to (export_query f) = Some t"
  shows "pg_rows (search_cdrs now ((export_query f)\<lparr>cq_offset := int o1\<rparr>) MAX_PAGE_SIZE setting d) =
    take 200 (drop (min o1 50000) (exported t f setting d))"
proof -
  have "nat (max 0 (min (int o1) MAX_OFFSET)) = min o1 50000" by (simp add: MAX_OFFSET_def)
  then show ?thesis using found_calls_clock [OF assms, of now]
    by (simp add: search_cdrs_def Let_def export_query_limit MAX_PAGE_SIZE_def limit_offset_def exported_def take_map drop_map)
qed


section \<open>Examples\<close>

definition demo_call :: "int \<Rightarrow> int \<Rightarrow> dt \<Rightarrow> cdr_row" where
  "demo_call i b t = \<lparr>cdr_id = i, cdr_brand_id = b, cdr_connection_id = 1, cdr_tenant_id = 1, cdr_call_uuid = ''u'', cdr_call_id = None,
     cdr_start_at = t, cdr_end_at = None, cdr_call_duration = Some 5, cdr_direction = Some ''in'', cdr_src = Some ''593990899917'',
     cdr_dst = None, cdr_src_norm = Some ''990899917'', cdr_dst_norm = None, cdr_dst_country = None, cdr_agent_extension = None,
     cdr_agent_name = None, cdr_bridged_agent_name = None, cdr_bridged_agent_extension = None, cdr_call_type = None,
     cdr_queue_name = None, cdr_bill_duration = None, cdr_cost = None, cdr_caller_user = None, cdr_client_callerid_name = None,
     cdr_client_callerid_number = None, cdr_status = None, cdr_hangup_disposition = None, cdr_public_recording_url = None,
     cdr_raw = JNull\<rparr>"

definition demo_calls :: database where
  "demo_calls = empty_db\<lparr>db_cdrs := [demo_call 1 1 10, demo_call 2 2 20, demo_call 3 1 30]\<rparr>"

definition demo_form :: call_form where
  "demo_form = \<lparr>cf_number = None, cf_number_match = None, cf_date_from = None, cf_date_to = Some ''1970-01-02'', cf_direction = None,
     cf_agent = None, cf_media = None, cf_connection_id = Some [], cf_status = None, cf_min_duration = Some [], cf_country = None,
     cf_queue = None, cf_call_type = None, cf_sort = ''started'', cf_desc = ''1'', cf_limit = Some ''1'', cf_offset = Some ''1''\<rparr>"



text \<open>By number, several organisations are merged by time.\<close>

lemma numbers_merge_by_time: "line_before BY_SRC reverse = line_before BY_STARTED reverse"
  by (simp add: fun_eq_iff line_before_def merge_key_def)

text \<open>A page of several organisations is as long as it was asked to be, whatever the cap on a page.\<close>

lemma merged_page_has_no_cap: "length brands \<noteq> 1 \<Longrightarrow> pg_limit (fst (search_across now names q brands d)) = cq_limit q"
  by (auto simp: search_across_def Let_def split: list.split)

end
