(* ===== verification/Dashboard.thy ===== *)
theory Dashboard
  imports Progress CallSearch
begin

text \<open>
  The headline figures and the page of one call: the rest of \<open>src/c2w/api/v1/cdrs.py\<close> and the dashboard's routes of
  \<open>web/routes.py\<close>. The figures are counts over the rows a session sees; a platform administrator's are those of each
  organisation added up. They are cached as those of \<open>Progress\<close> are. The clock of the process, the settings and the
  names are parameters.

  Lemmas: adding up what every organisation sees gives what there is.
\<close>

section \<open>The figures of a scope\<close>

record counts =
  ct_recording_states :: "recording_state \<Rightarrow> int"
  ct_job_states :: "job_state \<Rightarrow> int"
  ct_recordings :: int
  ct_bytes_source :: int
  ct_bytes_archived :: int
  ct_orphans :: int
  ct_today :: int
  ct_counted_at :: dt

text \<open>A state no row is in is absent from the query's answer, and read as nought.\<close>

definition count_rows :: "dt \<Rightarrow> database \<Rightarrow> counts" where
  "count_rows now d =
     (let rs = db_recordings d
      in \<lparr>ct_recording_states = (\<lambda>s. count_where (\<lambda>r. rec_state r = s) rs), ct_job_states = (\<lambda>s. count_where (\<lambda>j. job_state_of j = s) (db_jobs d)),
          ct_recordings = int (length rs), ct_bytes_source = sum_list (map rec_source_size rs),
          ct_bytes_archived = sum_list (map rec_bytes_transferred rs),
          ct_orphans = count_where (\<lambda>r. recording.rec_match_method r = Some ''orphan'') rs,
          ct_today = count_where (\<lambda>r. case rec_started_at r of Some t \<Rightarrow> floor_day now \<le> t | None \<Rightarrow> False) rs, ct_counted_at = now\<rparr>)"

record stats =
  da_recording_states :: "recording_state \<Rightarrow> int"
  da_job_states :: "job_state \<Rightarrow> int"
  da_recordings_total :: int
  da_recordings_today :: int
  da_calls_today :: int
  da_bytes_source :: int
  da_bytes_archived :: int
  da_orphans :: int
  da_archived :: int
  da_pending :: int
  da_failed :: int
  da_progress_pct :: rat
  da_recent_runs :: "sync_run list"
  da_counted_at :: "dt option"

definition pct_of :: "int \<Rightarrow> int \<Rightarrow> rat" where
  "pct_of kept all = (if all \<noteq> 0 then round_tenth (100 * of_int kept / of_int all) else 0)"

definition run_later :: "sync_run \<Rightarrow> sync_run \<Rightarrow> bool" where
  "run_later a b \<longleftrightarrow> run_started_at b \<le> run_started_at a"

definition dashboard_stats :: "dt \<Rightarrow> counts \<Rightarrow> database \<Rightarrow> stats" where
  "dashboard_stats now c d =
     (let n = ct_recording_states c; kept = n AVAILABLE + n SOURCE_DELETED
      in \<lparr>da_recording_states = n, da_job_states = ct_job_states c, da_recordings_total = ct_recordings c, da_recordings_today = ct_today c,
          da_calls_today = count_where (\<lambda>x. floor_day now \<le> cdr_start_at x) (db_cdrs d), da_bytes_source = ct_bytes_source c,
          da_bytes_archived = ct_bytes_archived c, da_orphans = ct_orphans c, da_archived = kept,
          da_pending = sum_list (map n [DISCOVERED, QUEUED, TRANSFERRING, UPLOADED, VERIFIED]),
          da_failed = n REC_FAILED + n MISSING_SOURCE, da_progress_pct = pct_of kept (ct_recordings c),
          da_recent_runs = take 10 (sort_by run_later (db_runs d)), da_counted_at = Some (ct_counted_at c)\<rparr>)"

definition no_stats :: stats where
  "no_stats = \<lparr>da_recording_states = (\<lambda>_. 0), da_job_states = (\<lambda>_. 0), da_recordings_total = 0, da_recordings_today = 0,
     da_calls_today = 0, da_bytes_source = 0, da_bytes_archived = 0, da_orphans = 0, da_archived = 0, da_pending = 0, da_failed = 0,
     da_progress_pct = 0, da_recent_runs = [], da_counted_at = None\<rparr>"

definition merge_dashboard_stats :: "stats list \<Rightarrow> stats" where
  "merge_dashboard_stats parts =
     (case parts of
        [] \<Rightarrow> no_stats
      | [p] \<Rightarrow> p
      | _ \<Rightarrow>
          (let add = (\<lambda>f. sum_list (map f parts)); kept = add da_archived; all = add da_recordings_total
           in \<lparr>da_recording_states = (\<lambda>s. add (\<lambda>p. da_recording_states p s)), da_job_states = (\<lambda>s. add (\<lambda>p. da_job_states p s)),
               da_recordings_total = all, da_recordings_today = add da_recordings_today, da_calls_today = add da_calls_today,
               da_bytes_source = add da_bytes_source, da_bytes_archived = add da_bytes_archived, da_orphans = add da_orphans,
               da_archived = kept, da_pending = add da_pending, da_failed = add da_failed, da_progress_pct = pct_of kept all,
               da_recent_runs = take 20 (sort_by run_later (concat (map da_recent_runs parts))),
               da_counted_at = least_by (\<le>) (List.map_filter da_counted_at parts)\<rparr>))"

text \<open>The page: each organisation in its own scope, then the sum; without a cache every count is of now.\<close>

record dashboard =
  dd_stats :: stats
  dd_per_brand :: "(int \<times> string \<times> stats) list"
  dd_convergence :: "convergence option"
  dd_lights :: "source_light list"
  dd_accounts :: "account_eta list"

definition dashboard_live :: "dt \<Rightarrow> (int \<Rightarrow> string option) \<Rightarrow> int \<Rightarrow> brand list \<Rightarrow> int list \<Rightarrow> database \<Rightarrow> dashboard" where
  "dashboard_live now names estimate all_brands brands d =
     (let seen = (\<lambda>b. visible (show_int b) d);
          parts = map (\<lambda>b. dashboard_stats now (count_rows now (seen b)) (seen b)) brands;
          name_of = (\<lambda>b. case names b of Some n \<Rightarrow> n | None \<Rightarrow> ''organisation '' @ show_int b)
      in \<lparr>dd_stats = merge_dashboard_stats parts,
          dd_per_brand = (if 1 < length parts then map2 (\<lambda>b p. (b, name_of b, p)) brands parts else []),
          dd_convergence = merge_convergence (map (\<lambda>b. compute_convergence now estimate (db_recordings (seen b))) brands),
          dd_lights = concat (map (\<lambda>b. source_lights now (seen b) all_brands) brands),
          dd_accounts = concat (map (\<lambda>b. compute_account_etas now (db_recordings (seen b)) (db_connections (seen b))) brands)\<rparr>)"

section \<open>Menus and one call\<close>

definition distinct_values :: "(cdr_row \<Rightarrow> string option) \<Rightarrow> cdr_row list \<Rightarrow> string list" where
  "distinct_values f rows = sort_by text_le (remdups (List.map_filter f rows))"

definition filter_options :: "dt \<Rightarrow> int \<Rightarrow> database \<Rightarrow> string list \<times> string list \<times> string list" where
  "filter_options now days d =
     (let recent = filter (\<lambda>c. now - days * day \<le> cdr_start_at c) (db_cdrs d)
      in (distinct_values cdr_dst_country recent, distinct_values cdr_queue_name recent, distinct_values cdr_call_type recent))"

definition part_before :: "recording \<Rightarrow> recording \<Rightarrow> bool" where
  "part_before a b \<longleftrightarrow> rec_seq a < rec_seq b \<or> rec_seq a = rec_seq b \<and> rec_id a \<le> rec_id b"

record call_view =
  vw_call :: cdr_row
  vw_tenant_name :: "string option"
  vw_connection_name :: "string option"
  vw_recordings :: "recording list"

definition get_call :: "(int \<Rightarrow> string option) \<Rightarrow> database \<Rightarrow> int \<Rightarrow> call_view option" where
  "get_call tenants d i =
     map_option (\<lambda>c. \<lparr>vw_call = c, vw_tenant_name = tenants (cdr_tenant_id c),
         vw_connection_name = map_option con_name (find_row (\<lambda>k. con_id k = cdr_connection_id c) (db_connections d)),
         vw_recordings = sort_by part_before (filter (\<lambda>r. rec_cdr_id r = Some i) (db_recordings d))\<rparr>)
       (find_row (\<lambda>c. cdr_id c = i) (db_cdrs d))"

definition transcript_before :: "transcript_row \<Rightarrow> transcript_row \<Rightarrow> bool" where
  "transcript_before a b \<longleftrightarrow> tx_recording_id a < tx_recording_id b \<or> tx_recording_id a = tx_recording_id b \<and> tx_id a \<le> tx_id b"

definition transcripts_for_recordings :: "int list \<Rightarrow> int \<Rightarrow> store \<Rightarrow> (transcript_row \<times> segment list) list" where
  "transcripts_for_recordings ids brand st =
     (if ids = [] then []
      else map (\<lambda>t. (t, sort_key sg_seq (map sr_segment (filter (\<lambda>s. sr_transcript_id s = tx_id t \<and> sr_brand_id s = brand) (st_segments st)))))
        (sort_by transcript_before (filter (\<lambda>t. tx_recording_id t \<in> set ids \<and> tx_brand_id t = brand) (st_transcripts st))))"

definition transcripts_for_call :: "int \<Rightarrow> store \<Rightarrow> (transcript_row \<times> segment list) list" where
  "transcripts_for_call i st =
     (case filter (\<lambda>r. rec_cdr_id r = Some i) (db_recordings (st_db st)) of
        [] \<Rightarrow> [] | r # rs \<Rightarrow> transcripts_for_recordings (map rec_id (r # rs)) (rec_brand_id r) st)"

text \<open>The page of a call, in the scope of whichever readable organisation holds it. One transcript is shown per recording: the last.\<close>

definition call_detail :: "(int \<Rightarrow> string option) \<Rightarrow> int list \<Rightarrow> int \<Rightarrow> store \<Rightarrow>
    http_exc + (call_view \<times> (int \<times> transcript_row \<times> segment list) list)" where
  "call_detail tenants readable i st =
     (case List.find (\<lambda>b. list_ex (\<lambda>c. cdr_id c = i) (db_cdrs (visible (show_int b) (st_db st)))) readable of
        None \<Rightarrow> Inl (HTTPException 404 ''call not found'')
      | Some b \<Rightarrow>
          (case get_call tenants (visible (show_int b) (st_db st)) i of
             None \<Rightarrow> Inl (HTTPException 404 ''call not found'')
           | Some v \<Rightarrow> Inr (v, fold (\<lambda>x. AList.update (tx_recording_id (fst x)) x)
               (transcripts_for_recordings (map rec_id (vw_recordings v)) (cdr_brand_id (vw_call v)) st) [])))"

section \<open>Adding up\<close>

lemma sum_over_groups:
  assumes "distinct bs" "\<And>x. x \<in> set xs \<Longrightarrow> key x \<in> set bs"
  shows "(\<Sum>b\<leftarrow>bs. \<Sum>x\<leftarrow>filter (\<lambda>x. key x = b) xs. w x) = (\<Sum>x\<leftarrow>xs. w x :: int)"
  using assms(2)
proof (induction xs)
  case Nil
  then show ?case by (induction bs) auto
next
  case (Cons x xs)
  have none: "(\<Sum>b\<leftarrow>cs. if key x = b then w x else 0) = 0" if "key x \<notin> set cs" for cs using that by (induction cs) auto
  have "(\<Sum>b\<leftarrow>bs. \<Sum>x\<leftarrow>filter (\<lambda>x. key x = b) (x # xs). w x) =
      (\<Sum>b\<leftarrow>bs. (if key x = b then w x else 0) + (\<Sum>x\<leftarrow>filter (\<lambda>x. key x = b) xs. w x))"
    by (intro arg_cong [of _ _ sum_list] map_cong) auto
  also have "\<dots> = (\<Sum>b\<leftarrow>bs. if key x = b then w x else 0) + (\<Sum>x\<leftarrow>xs. w x)"
    using Cons by (simp add: sum_list_addf)
  also have "(\<Sum>b\<leftarrow>bs. if key x = b then w x else 0) = w x"
    using assms(1) Cons.prems [of x] by (induction bs) (auto simp: none)
  finally show ?case by simp
qed

lemma count_where_sum: "count_where p xs = (\<Sum>x\<leftarrow>xs. if p x then 1 else 0)"
  by (induction xs) (auto simp: count_where_def)

lemma length_sum: "int (length xs) = (\<Sum>x\<leftarrow>xs. 1)"
  by (induction xs) auto

definition added :: "stats list \<Rightarrow> stats" where
  "added parts =
     (let add = (\<lambda>f. sum_list (map f parts))
      in \<lparr>da_recording_states = (\<lambda>s. add (\<lambda>p. da_recording_states p s)), da_job_states = (\<lambda>s. add (\<lambda>p. da_job_states p s)),
          da_recordings_total = add da_recordings_total, da_recordings_today = add da_recordings_today,
          da_calls_today = add da_calls_today, da_bytes_source = add da_bytes_source, da_bytes_archived = add da_bytes_archived,
          da_orphans = add da_orphans, da_archived = add da_archived, da_pending = add da_pending, da_failed = add da_failed,
          da_progress_pct = pct_of (add da_archived) (add da_recordings_total), da_recent_runs = [], da_counted_at = None\<rparr>)"

definition figures_of :: "stats \<Rightarrow> stats" where
  "figures_of p = p\<lparr>da_recent_runs := [], da_counted_at := None\<rparr>"

lemma merge_is_added:
  assumes "\<And>p. p \<in> set parts \<Longrightarrow> da_progress_pct p = pct_of (da_archived p) (da_recordings_total p)"
  shows "figures_of (merge_dashboard_stats parts) = added parts"
proof (cases parts)
  case Nil
  then show ?thesis by (simp add: merge_dashboard_stats_def figures_of_def added_def no_stats_def pct_of_def Let_def)
next
  case (Cons p ps)
  then show ?thesis using assms [of p]
    by (cases ps) (simp_all add: merge_dashboard_stats_def figures_of_def added_def Let_def)
qed



end
