(* ===== verification/MessageSearch.thy ===== *)
theory MessageSearch
  imports Sms CallSearch
begin

text \<open>
  The messages page: \<open>src/c2w/api/v1/messages.py\<close> and the routes \<open>/messages\<close> and \<open>/messages/export.csv\<close> of
  \<open>web/routes.py\<close>, in the shape of the calls page beside it. The text of the export's lines is not modelled.

  Lemmas: when an export ends, and what a search of the text takes for a wildcard.
\<close>

section \<open>The query\<close>

record message_query =
  mq_date_from :: "dt option"
  mq_date_to :: "dt option"
  mq_number :: "string option"
  mq_direction :: "string option"
  mq_status :: "string option"
  mq_country :: "string option"
  mq_stream :: "string option"
  mq_campaign :: "string option"
  mq_body :: "string option"
  mq_by_cost :: bool
  mq_descending :: bool
  mq_limit :: int
  mq_offset :: int

definition message_range :: "dt \<Rightarrow> message_query \<Rightarrow> dt \<times> dt" where
  "message_range now q =
     (let stop = (case mq_date_to q of Some t \<Rightarrow> t | None \<Rightarrow> now)
      in (case mq_date_from q of Some t \<Rightarrow> t | None \<Rightarrow> stop - 7 * day, stop))"

record message_form =
  mf_number :: "string option"
  mf_date_from :: "string option"
  mf_date_to :: "string option"
  mf_direction :: "string option"
  mf_status :: "string option"
  mf_country :: "string option"
  mf_stream :: "string option"
  mf_campaign :: "string option"
  mf_body :: "string option"
  mf_sort :: string
  mf_desc :: string
  mf_limit :: "string option"
  mf_offset :: "string option"

definition int_or :: "int \<Rightarrow> string option \<Rightarrow> int" where
  "int_or d v = (case form_int v of Some n \<Rightarrow> n | None \<Rightarrow> d)"

definition parse_message_query :: "message_form \<Rightarrow> message_query" where
  "parse_message_query f =
     \<lparr>mq_date_from = form_date (mf_date_from f), mq_date_to = form_date (mf_date_to f), mq_number = nonempty (mf_number f),
      mq_direction = nonempty (mf_direction f), mq_status = nonempty (mf_status f), mq_country = nonempty (mf_country f),
      mq_stream = nonempty (mf_stream f), mq_campaign = nonempty (mf_campaign f), mq_body = nonempty (mf_body f),
      mq_by_cost = (mf_sort f = ''cost''), mq_descending = (mf_desc f \<in> {''1'', ''true'', []}),
      mq_limit = int_or 50 (mf_limit f), mq_offset = int_or 0 (mf_offset f)\<rparr>"

section \<open>Conditions and pages\<close>

definition message_number :: "string \<Rightarrow> sms_row \<Rightarrow> bool" where
  "message_number typed m =
     (let raw = py_strip typed; digits = normalise_msisdn (Some raw)
      in if 6 \<le> length digits
         then col (\<lambda>s. s = digits) (sms_source_norm m) \<or> col (\<lambda>s. s = digits) (sms_destination_norm m)
         else col (ilike (''%'' @ raw @ ''%'')) (sms_source_number m) \<or> col (ilike (''%'' @ raw @ ''%'')) (sms_destination_number m))"

definition message_matches :: "dt \<Rightarrow> message_query \<Rightarrow> sms_row \<Rightarrow> bool" where
  "message_matches now q m \<longleftrightarrow>
     fst (message_range now q) \<le> sms_occurred_at m \<and> sms_occurred_at m \<le> snd (message_range now q) \<and>
     (if mq_direction q \<in> {Some ''in'', Some ''out''} then Some (sms_direction m) = mq_direction q else True) \<and>
     (case nonempty (mq_number q) of Some s \<Rightarrow> message_number s m | None \<Rightarrow> True) \<and>
     given_col (mq_status q) (sms_status m) \<and> stripped_col (mq_country q) (sms_country_name m) \<and>
     stripped_col (mq_stream q) (sms_stream m) \<and> stripped_col (mq_campaign q) (sms_campaign m) \<and>
     (case nonempty (mq_body q) of Some s \<Rightarrow> col (ilike (''%'' @ py_strip s @ ''%'')) (sms_body m) | None \<Rightarrow> True)"

text \<open>The order and the sum of a numeric column: what is not a number is above everything, and so is a sum with it.\<close>

fun decimal_rank :: "decimal \<Rightarrow> int \<times> rat" where
  "decimal_rank (Dec x) = (0, x)"
| "decimal_rank (DecInfinity up) = (if up then 1 else - 1, 0)"
| "decimal_rank DecNaN = (2, 0)"

fun decimal_add :: "decimal \<Rightarrow> decimal \<Rightarrow> decimal" where
  "decimal_add (Dec x) (Dec y) = Dec (x + y)"
| "decimal_add DecNaN _ = DecNaN"
| "decimal_add _ DecNaN = DecNaN"
| "decimal_add (DecInfinity a) (DecInfinity b) = (if a = b then DecInfinity a else DecNaN)"
| "decimal_add (DecInfinity a) _ = DecInfinity a"
| "decimal_add _ (DecInfinity b) = DecInfinity b"

definition message_value :: "bool \<Rightarrow> sms_row \<Rightarrow> (int \<times> rat) option" where
  "message_value by_cost m = (if by_cost then map_option decimal_rank (sms_cost m) else Some (0, of_int (sms_occurred_at m)))"

definition message_before :: "bool \<Rightarrow> bool \<Rightarrow> sms_row \<Rightarrow> sms_row \<Rightarrow> bool" where
  "message_before by_cost descending a b =
     (let by_id = (if descending then sms_id b \<le> sms_id a else sms_id a \<le> sms_id b)
      in case (message_value by_cost a, message_value by_cost b) of
           (None, None) \<Rightarrow> by_id | (None, Some _) \<Rightarrow> False | (Some _, None) \<Rightarrow> True
         | (Some x, Some y) \<Rightarrow> if x = y then by_id else if descending then y < x else x < y)"

definition seen_messages :: "string \<Rightarrow> sms_row list \<Rightarrow> sms_row list" where
  "seen_messages setting rows = filter (\<lambda>m. policy_admits setting (Some (sms_brand_id m))) rows"

definition found_messages :: "dt \<Rightarrow> message_query \<Rightarrow> sms_row list \<Rightarrow> sms_row list" where
  "found_messages now q rows = sort_by (message_before (mq_by_cost q) (mq_descending q)) (filter (message_matches now q) rows)"

definition connection_of :: "connection list \<Rightarrow> sms_row \<Rightarrow> string option" where
  "connection_of cons m = map_option con_name (find_row (\<lambda>k. Some (con_id k) = sms_connection_id m \<and> con_brand_id k = sms_brand_id m) cons)"

record message_page =
  mp_rows :: "(sms_row \<times> string option) list"
  mp_limit :: int
  mp_offset :: int
  mp_truncated :: bool

definition search_messages :: "dt \<Rightarrow> message_query \<Rightarrow> string \<Rightarrow> connection list \<Rightarrow> sms_row list \<Rightarrow> message_page" where
  "search_messages now q setting cons rows =
     (let l = max 1 (min (mq_limit q) 200); o1 = max 0 (min (mq_offset q) 50000)
      in \<lparr>mp_rows = map (\<lambda>m. (m, connection_of cons m)) (limit_offset l o1 (found_messages now q (seen_messages setting rows))),
          mp_limit = l, mp_offset = o1, mp_truncated = (50000 \<le> o1)\<rparr>)"

definition count_messages :: "dt \<Rightarrow> message_query \<Rightarrow> string \<Rightarrow> sms_row list \<Rightarrow> int" where
  "count_messages now q setting rows = min 10000 (int (length (found_messages now q (seen_messages setting rows))))"

section \<open>Figures and menus\<close>

record message_figures =
  mg_total :: int
  mg_sent :: int
  mg_received :: int
  mg_delivered :: int
  mg_failed :: int
  mg_cost :: decimal
  mg_delivery_rate :: "rat option"

definition message_stats :: "dt \<Rightarrow> int \<Rightarrow> sms_row list \<Rightarrow> message_figures" where
  "message_stats now days rows =
     (let recent = filter (\<lambda>m. now - days * day \<le> sms_occurred_at m) rows; count = (\<lambda>p. int (length (filter p recent)));
          sent = count (\<lambda>m. sms_direction m = ''out'');
          delivered = count (\<lambda>m. sms_direction m = ''out'' \<and> sms_delivered_at m \<noteq> None)
      in \<lparr>mg_total = int (length recent), mg_sent = sent, mg_received = count (\<lambda>m. sms_direction m = ''in''), mg_delivered = delivered,
          mg_failed = count (\<lambda>m. sms_direction m = ''out'' \<and>
            col (\<lambda>s. py_lower s \<in> {''failed'', ''rejected'', ''undelivered'', ''expired'', ''error''}) (sms_status m)),
          mg_cost = foldl decimal_add (Dec 0) (List.map_filter sms_cost recent),
          mg_delivery_rate = (if sent \<noteq> 0 then Some (of_int delivered / of_int sent * 100) else None)\<rparr>)"

definition message_values :: "(sms_row \<Rightarrow> string option) \<Rightarrow> sms_row list \<Rightarrow> string list" where
  "message_values f rows = sort_by text_le (remdups (List.map_filter f rows))"

definition message_filter_options :: "dt \<Rightarrow> int \<Rightarrow> sms_row list \<Rightarrow> string list \<times> string list \<times> string list \<times> string list" where
  "message_filter_options now days rows =
     (let recent = filter (\<lambda>m. now - days * day \<le> sms_occurred_at m) rows
      in (message_values sms_status recent, message_values sms_country_name recent, message_values sms_stream recent, message_values sms_campaign recent))"

section \<open>The export\<close>

definition message_export_query :: "message_form \<Rightarrow> message_query" where
  "message_export_query f = parse_message_query (f\<lparr>mf_sort := ''occurred'', mf_desc := ''1'', mf_limit := Some ''200'', mf_offset := Some ''0''\<rparr>)"

definition export_messages :: "nat \<Rightarrow> (int \<Rightarrow> dt) \<Rightarrow> role \<Rightarrow> message_form \<Rightarrow> string \<Rightarrow> connection list \<Rightarrow> sms_row list \<Rightarrow>
    http_exc + (sms_row \<times> string option) list option" where
  "export_messages fuel clock r f setting cons rows =
     (if \<not> has_permission r CDR_EXPORT then Inl (HTTPException 403 ''your role may not export messages'')
      else (let q = message_export_query f
            in Inr (walk fuel (\<lambda>o1. mp_rows (search_messages (clock o1) (q\<lparr>mq_offset := o1\<rparr>) setting cons rows)) 200 0)))"

lemma message_matches_paging [simp]: "message_matches now (q\<lparr>mq_offset := o1\<rparr>) = message_matches now q"
  by (simp add: fun_eq_iff message_matches_def message_range_def cong: option.case_cong if_cong)

lemma found_messages_clock: "mq_date_to q = Some t \<Longrightarrow> found_messages now (q\<lparr>mq_offset := o1\<rparr>) rows = found_messages t q rows"
  by (simp add: found_messages_def) (simp add: message_matches_def [abs_def] message_range_def)

lemma message_export_limit: "mq_limit (message_export_query f) = 200"
proof -
  have "form_int (Some ''200'') = Some 200" by code_simp
  then show ?thesis by (simp add: message_export_query_def parse_message_query_def int_or_def)
qed

text \<open>The messages' export ends, or does not, as the calls' does.\<close>

lemma message_export_ends_or_never:
  assumes "has_permission r CDR_EXPORT" "mq_date_to (message_export_query f) = Some t"
    and "every = map (\<lambda>m. (m, connection_of cons m)) (found_messages t (message_export_query f) (seen_messages setting rows))"
  shows "if length every < 50200 then export_messages 251 clock r f setting cons rows = Inr (Some every)
    else \<forall>fuel. export_messages fuel clock r f setting cons rows = Inr None"
proof -
  define page where "page = (\<lambda>o1. mp_rows (search_messages (clock o1) ((message_export_query f)\<lparr>mq_offset := o1\<rparr>) setting cons rows))"
  have run: "export_messages fuel clock r f setting cons rows = Inr (walk fuel page 200 0)" for fuel
    using assms(1) by (simp add: export_messages_def page_def Let_def)
  have "nat (max 0 (min (int o1) 50000)) = min o1 50000" for o1 by simp
  then have at_offset: "page (int o1) = take 200 (drop (min o1 (200 * 250)) every)" for o1
    using found_messages_clock [OF assms(2)]
    by (simp add: page_def search_messages_def Let_def message_export_limit limit_offset_def assms(3) take_map drop_map)
  from walk_clamped [of page 200 250, OF at_offset] show ?thesis by (simp add: run split: if_splits)
qed

text \<open>A percent sign in what is looked for is a wildcard: \<open>50%\<close> finds every message with a 50 in it.\<close>

lemma percent_is_a_wildcard: "ilike (''%'' @ ''50%'' @ ''%'') ''at 15:50 today''"
  by code_simp

end
