(* ===== verification/Federation.thy ===== *)
theory Federation
  imports Cdr Totp
begin

text \<open>
  Identities from elsewhere: \<open>src/c2w/auth/oidc.py\<close> (Microsoft and Google), \<open>auth/directory.py\<close> (Active Directory) and
  \<open>auth/turnstile.py\<close> (the challenge at the sign-in page). What the settings hold, the answers of the providers, the
  directory and Cloudflare, the check of a token's signature, the signed cookie of a flow, random texts and the
  classification of an address as private are parameters.

  Lemmas: what an identity was checked for, what an address typed can do to a search, which directory account is
  asked for its password, and when a challenge lets somebody through.
\<close>

section \<open>Providers\<close>

datatype provider = ENTRA | GOOGLE

datatype oidc_exc = OidcError string | OidcPy py_exc

record provider_config =
  pv_provider :: provider
  pv_client_id :: string
  pv_client_secret :: string
  pv_discovery_url :: string
  pv_allowed_domains :: "string list"

record identity =
  id_subject :: string
  id_email :: string
  id_name :: string
  id_groups :: "string list"
  id_raw :: payload

text \<open>Readings of the settings, by key.\<close>

record readings =
  rd_bool :: "string \<Rightarrow> bool"
  rd_str :: "string \<Rightarrow> string option"
  rd_secret :: "string \<Rightarrow> string"

datatype signed_answer = Signed json | SignatureExpired | BadSignature

record oidc_env =
  oe_text :: py_text
  oe_now :: rat
  oe_loads :: "string \<Rightarrow> oidc_exc + signed_answer"
  oe_dumps :: "payload \<Rightarrow> oidc_exc + string"
  oe_discover :: "string \<Rightarrow> py_exc + payload"
  oe_exchange :: "string \<Rightarrow> payload \<Rightarrow> py_exc + int \<times> payload"
  oe_fetch_keys :: "string \<Rightarrow> py_exc + json"
  oe_decode :: "string list \<Rightarrow> json \<Rightarrow> json \<Rightarrow> payload option"
  oe_token :: "nat \<Rightarrow> string"
  oe_challenge :: "string \<Rightarrow> string"

definition provider_key :: "provider \<Rightarrow> string" where
  "provider_key p = (case p of ENTRA \<Rightarrow> ''entra'' | GOOGLE \<Rightarrow> ''google'')"

definition provider_label_of :: "provider \<Rightarrow> string" where
  "provider_label_of p = (case p of ENTRA \<Rightarrow> ''Microsoft'' | GOOGLE \<Rightarrow> ''Google'')"

definition discovery_of :: "provider \<Rightarrow> string \<Rightarrow> string" where
  "discovery_of p tenant =
     (case p of ENTRA \<Rightarrow> ''https://login.microsoftonline.com/'' @ tenant @ ''/v2.0/.well-known/openid-configuration''
      | GOOGLE \<Rightarrow> ''https://accounts.google.com/.well-known/openid-configuration'')"

definition stripped_of :: "string option \<Rightarrow> string" where
  "stripped_of v = (case v of Some s \<Rightarrow> py_strip s | None \<Rightarrow> [])"

definition domains_of :: "string \<Rightarrow> string list" where
  "domains_of raw =
     map (\<lambda>d. lstrip_chars (\<lambda>c. c = CHR ''@'') (py_lower (py_strip d)))
       (filter (\<lambda>d. py_strip d \<noteq> []) (split_on CHR '','' (replace_text '';'' '','' raw)))"

definition load_provider :: "readings \<Rightarrow> string \<Rightarrow> oidc_exc + provider_config" where
  "load_provider R key =
     (case (if key = ''entra'' then Some ENTRA else if key = ''google'' then Some GOOGLE else None) of
        None \<Rightarrow> Inl (OidcError ''unknown sign-in provider'')
      | Some p \<Rightarrow>
          if \<not> rd_bool R (''auth.oidc_'' @ key @ ''_enabled'') then Inl (OidcError (provider_label_of p @ '' sign-in is switched off''))
          else (let client = stripped_of (rd_str R (''auth.oidc_'' @ key @ ''_client_id'')); secret = rd_secret R (''auth.oidc_'' @ key @ ''_client_secret'');
                    tenant = stripped_of (rd_str R ''auth.oidc_entra_tenant_id'');
                    domains_key = (if p = ENTRA then ''auth.entra_allowed_domains'' else ''auth.google_allowed_domains'')
                in if p = ENTRA \<and> tenant = [] then Inl (OidcError ''the Microsoft directory (tenant) ID is not set'')
                   else if client = [] \<or> secret = [] then Inl (OidcError (provider_label_of p @ '' sign-in is missing its client ID or secret''))
                   else Inr \<lparr>pv_provider = p, pv_client_id = client, pv_client_secret = secret, pv_discovery_url = discovery_of p tenant,
                          pv_allowed_domains = domains_of (case rd_str R domains_key of Some s \<Rightarrow> s | None \<Rightarrow> [])\<rparr>))"

text \<open>The signing keys, kept for an hour.\<close>

definition jwks :: "oidc_env \<Rightarrow> string \<Rightarrow> (string \<times> rat \<times> json) list \<Rightarrow> (string \<times> rat \<times> json) list \<times> (py_exc + json)" where
  "jwks E uri cache =
     (case map_of cache uri of
        Some (taken, keys) \<Rightarrow>
          if oe_now E - taken < 3600 then (cache, Inr keys)
          else (case oe_fetch_keys E uri of Inl e \<Rightarrow> (cache, Inl e) | Inr k \<Rightarrow> (AList.update uri (oe_now E, k) cache, Inr k))
      | None \<Rightarrow> (case oe_fetch_keys E uri of Inl e \<Rightarrow> (cache, Inl e) | Inr k \<Rightarrow> (AList.update uri (oe_now E, k) cache, Inr k)))"

section \<open>Starting\<close>

definition py_error :: "py_exc + 'a \<Rightarrow> oidc_exc + 'a" where
  "py_error r = (case r of Inl e \<Rightarrow> Inl (OidcPy e) | Inr x \<Rightarrow> Inr x)"

text \<open>\<open>meta[key]\<close>.\<close>

definition required :: "oidc_env \<Rightarrow> string \<Rightarrow> payload \<Rightarrow> oidc_exc + string" where
  "required E k meta = (case map_of meta k of Some v \<Rightarrow> Inr (str_json (oe_text E) v) | None \<Rightarrow> Inl (OidcPy (LookupError k)))"

definition authorize_url :: "oidc_env \<Rightarrow> provider_config \<Rightarrow> string \<Rightarrow> oidc_exc + string \<times> string" where
  "authorize_url E c redirect =
     res_bind (py_error (oe_discover E (pv_discovery_url c))) (\<lambda>meta.
       let state = oe_token E 0; nonce = oe_token E 1; verifier = oe_token E 2;
           params = [(''client_id'', pv_client_id c), (''response_type'', ''code''), (''redirect_uri'', redirect),
               (''scope'', ''openid email profile''), (''state'', state), (''nonce'', nonce), (''code_challenge'', oe_challenge E verifier),
               (''code_challenge_method'', ''S256'')]
             @ (if pv_provider c = GOOGLE \<and> pv_allowed_domains c \<noteq> [] then [(''hd'', hd (pv_allowed_domains c))] else [])
             @ (if pv_provider c = ENTRA then [(''response_mode'', ''query'')] else [])
       in res_bind (required E ''authorization_endpoint'' meta) (\<lambda>endpoint.
          res_bind (oe_dumps E [(''provider'', JStr (provider_key (pv_provider c))), (''state'', JStr state), (''nonce'', JStr nonce),
              (''verifier'', JStr verifier), (''redirect_uri'', JStr redirect)]) (\<lambda>cookie.
            Inr (endpoint @ ''?'' @ join ''&'' (map (\<lambda>(k, v). k @ ''='' @ v) params), cookie))))"

definition decode_flow :: "oidc_env \<Rightarrow> string \<Rightarrow> oidc_exc + payload" where
  "decode_flow E cookie =
     res_bind (oe_loads E cookie) (\<lambda>a. case a of
        Signed (JObj flow) \<Rightarrow> Inr flow
      | SignatureExpired \<Rightarrow> Inl (OidcError ''that sign-in took too long; please start again'')
      | _ \<Rightarrow> Inl (OidcError ''that sign-in could not be verified; please start again''))"

section \<open>The claims of a token\<close>

text \<open>\<open>x in v\<close>: a member of a list, a key, or a part of a text.\<close>

definition json_contains :: "string \<Rightarrow> json \<Rightarrow> py_exc + bool" where
  "json_contains x v =
     (case v of
        JArr xs \<Rightarrow> Inr (JStr x \<in> set xs)
      | JObj kvs \<Rightarrow> Inr (x \<in> fst ` set kvs)
      | JStr s \<Rightarrow> Inr (find_text x s \<noteq> None)
      | _ \<Rightarrow> Inl (TypeError ''argument is not iterable''))"

definition audience_ok :: "oidc_env \<Rightarrow> string \<Rightarrow> payload \<Rightarrow> py_exc + bool" where
  "audience_ok E client claims =
     (if str_json (oe_text E) (jget ''aud'' claims) = client then Inr True
      else json_contains client (jor (jget ''aud'' claims) (JArr [])))"

definition no_slash :: "string \<Rightarrow> string" where
  "no_slash s = rstrip_chars (\<lambda>c. c = CHR ''/'') s"

definition issuer_ok :: "provider \<Rightarrow> string \<Rightarrow> string \<Rightarrow> bool" where
  "issuer_ok p issuer expected =
     (case p of ENTRA \<Rightarrow> issuer = expected
      | GOOGLE \<Rightarrow> no_slash issuer \<in> {no_slash expected, ''https://accounts.google.com'', ''accounts.google.com''})"

text \<open>\<open>float\<close> of a claim; comparisons with what is not a number are false.\<close>

definition claim_time :: "json \<Rightarrow> py_exc + decimal" where
  "claim_time v =
     (case v of
        JInt n \<Rightarrow> Inr (Dec (of_int n)) | JNum r \<Rightarrow> Inr (Dec r) | JBool b \<Rightarrow> Inr (Dec (if b then 1 else 0))
      | JStr s \<Rightarrow> (case decimal_text (py_strip s) of Some d \<Rightarrow> Inr d | None \<Rightarrow> Inl (ValueError ''could not convert string to float''))
      | _ \<Rightarrow> Inl (TypeError ''float() argument must be a string or a real number''))"

definition time_below :: "decimal \<Rightarrow> rat \<Rightarrow> bool" where
  "time_below d t = (case d of Dec x \<Rightarrow> x < t | DecNaN \<Rightarrow> False | DecInfinity up \<Rightarrow> \<not> up)"

definition time_above :: "decimal \<Rightarrow> rat \<Rightarrow> bool" where
  "time_above d t = (case d of Dec x \<Rightarrow> t < x | DecNaN \<Rightarrow> False | DecInfinity up \<Rightarrow> up)"

definition claim_or :: "string \<Rightarrow> json \<Rightarrow> payload \<Rightarrow> json" where
  "claim_or k otherwise claims = (case map_of claims k of Some v \<Rightarrow> v | None \<Rightarrow> otherwise)"

definition LEEWAY_SECONDS :: rat where "LEEWAY_SECONDS = 60"

definition text_or_empty_of :: "py_text \<Rightarrow> json \<Rightarrow> string" where
  "text_or_empty_of P j = str_json P (jor j (JStr []))"

definition allowed_algorithms :: "payload \<Rightarrow> py_exc + string list" where
  "allowed_algorithms meta =
     (case claim_or ''id_token_signing_alg_values_supported'' (JArr [JStr ''RS256'']) meta of
        JArr xs \<Rightarrow>
          res_bind (map_res (\<lambda>a. case a of JStr s \<Rightarrow> Inr s | _ \<Rightarrow> Inl (AttributeError ''lower'')) xs) (\<lambda>names.
            let kept = filter (\<lambda>a. py_lower a \<noteq> ''none'') names in Inr (if kept = [] then [''RS256''] else kept))
      | _ \<Rightarrow> Inl (TypeError ''object is not iterable''))"

definition check_claims :: "oidc_env \<Rightarrow> provider_config \<Rightarrow> payload \<Rightarrow> string \<Rightarrow> payload \<Rightarrow> oidc_exc + payload" where
  "check_claims E c meta expected_nonce claims =
     (let P = oe_text E; refuse = (\<lambda>why. Inl (OidcError why)); issuer = text_or_empty_of P (jget ''iss'' claims);
          nonce = text_or_empty_of P (jget ''nonce'' claims)
      in res_bind (py_error (audience_ok E (pv_client_id c) claims)) (\<lambda>aud.
         if \<not> aud then refuse ''that identity token was issued for a different application''
         else if \<not> issuer_ok (pv_provider c) issuer (text_or_empty_of P (jget ''issuer'' meta))
         then refuse (if pv_provider c = ENTRA then ''that identity token came from a different directory''
                      else ''that identity token came from an unexpected issuer'')
         else res_bind (py_error (claim_time (claim_or ''exp'' (JInt 0) claims))) (\<lambda>expires.
           if time_below expires (oe_now E - LEEWAY_SECONDS) then refuse ''that sign-in has expired; please start again''
           else res_bind (py_error (claim_time (claim_or ''iat'' (JNum (oe_now E)) claims))) (\<lambda>issued.
             if time_above issued (oe_now E + LEEWAY_SECONDS) then refuse ''that identity token is not valid yet''
             else if expected_nonce = [] then refuse ''that sign-in could not be matched; please start again''
             else res_bind (py_error (compare_digest nonce expected_nonce)) (\<lambda>same.
               if same then Inr claims else refuse ''that sign-in could not be matched; please start again'')))))"

definition verify_id_token :: "oidc_env \<Rightarrow> provider_config \<Rightarrow> payload \<Rightarrow> string \<Rightarrow> json \<Rightarrow> (string \<times> rat \<times> json) list \<Rightarrow>
    (string \<times> rat \<times> json) list \<times> (oidc_exc + payload)" where
  "verify_id_token E c meta expected_nonce token cache =
     (case required E ''jwks_uri'' meta of
        Inl e \<Rightarrow> (cache, Inl e)
      | Inr uri \<Rightarrow>
          (case jwks E uri cache of
             (cache1, Inl e) \<Rightarrow> (cache1, Inl (OidcPy e))
           | (cache1, Inr keys) \<Rightarrow>
               (cache1, res_bind (py_error (allowed_algorithms meta)) (\<lambda>algorithms.
                  case oe_decode E algorithms keys token of
                    None \<Rightarrow> Inl (OidcError ''the identity token could not be verified'')
                  | Some claims \<Rightarrow> check_claims E c meta expected_nonce claims))))"

text \<open>What comes after the last \<open>@\<close> is the domain.\<close>

definition identity_from :: "oidc_env \<Rightarrow> provider_config \<Rightarrow> payload \<Rightarrow> oidc_exc + identity" where
  "identity_from E c claims =
     (let P = oe_text E;
          email = py_lower (py_strip (text_or_empty_of P (jor (jor (jget ''email'' claims) (jget ''preferred_username'' claims)) (jget ''upn'' claims))));
          domain = after_last CHR ''@'' email;
          groups = jor (jor (jget ''groups'' claims) (jget ''roles'' claims)) (JArr [])
      in if email = [] \<or> CHR ''@'' \<notin> set email then Inl (OidcError ''the provider did not return an email address'')
         else if pv_provider c = GOOGLE \<and> jget ''email_verified'' claims = JBool False then Inl (OidcError ''that Google address is not verified'')
         else if pv_allowed_domains c \<noteq> [] \<and> domain \<notin> set (pv_allowed_domains c)
         then Inl (OidcError (domain @ '' is not allowed to sign in to this system''))
         else res_bind (py_error (case groups of
                  JStr s \<Rightarrow> Inr [s] | JArr xs \<Rightarrow> Inr (map (str_json P) xs) | JObj kvs \<Rightarrow> Inr (map fst kvs)
                | _ \<Rightarrow> Inl (TypeError ''object is not iterable''))) (\<lambda>names.
              Inr \<lparr>id_subject = str_json P (jor (jget ''sub'' claims) (JStr email)), id_email = email,
                id_name = py_strip (text_or_empty_of P (jget ''name'' claims)), id_groups = names,
                id_raw = filter (\<lambda>(k, v). k \<notin> {''at_hash'', ''nonce''}) claims\<rparr>))"

definition complete :: "oidc_env \<Rightarrow> provider_config \<Rightarrow> string \<Rightarrow> string \<Rightarrow> string \<Rightarrow> (string \<times> rat \<times> json) list \<Rightarrow>
    (string \<times> rat \<times> json) list \<times> (oidc_exc + identity)" where
  "complete E c given_code given_state cookie cache =
     (let P = oe_text E;
          first = res_bind (decode_flow E cookie) (\<lambda>flow.
            if jget ''provider'' flow \<noteq> JStr (provider_key (pv_provider c))
            then Inl (OidcError ''that sign-in was started with a different provider'')
            else res_bind (py_error (compare_digest (text_or_empty_of P (jget ''state'' flow)) given_state)) (\<lambda>same.
              if \<not> same then Inl (OidcError ''that sign-in could not be verified; please start again'')
              else res_bind (py_error (oe_discover E (pv_discovery_url c))) (\<lambda>meta.
                res_bind (required E ''token_endpoint'' meta) (\<lambda>endpoint.
                res_bind (required E ''redirect_uri'' flow) (\<lambda>redirect.
                res_bind (required E ''verifier'' flow) (\<lambda>verifier.
                res_bind (py_error (oe_exchange E endpoint [(''grant_type'', JStr ''authorization_code''), (''code'', JStr given_code),
                    (''redirect_uri'', JStr redirect), (''client_id'', JStr (pv_client_id c)), (''client_secret'', JStr (pv_client_secret c)),
                    (''code_verifier'', JStr verifier)])) (\<lambda>(status, body).
                  if 400 \<le> status then Inl (OidcError ''the provider refused to complete the sign-in'')
                  else if \<not> jtruthy (jget ''id_token'' body) then Inl (OidcError ''the provider did not return an identity token'')
                  else Inr (flow, meta, jget ''id_token'' body))))))))
      in case first of
           Inl e \<Rightarrow> (cache, Inl e)
         | Inr (flow, meta, token) \<Rightarrow>
             (case verify_id_token E c meta (text_or_empty_of P (jget ''nonce'' flow)) token cache of
                (cache1, Inl e) \<Rightarrow> (cache1, Inl e)
              | (cache1, Inr claims) \<Rightarrow> (cache1, identity_from E c claims)))"

section \<open>The directory\<close>

datatype entry_kind = USER_ENTRY | GROUP_ENTRY | OU_ENTRY

record directory_entry =
  de_dn :: string
  de_kind :: entry_kind
  de_name :: string
  de_email :: string
  de_login :: string
  de_description :: string

definition entry_label :: "directory_entry \<Rightarrow> string" where
  "entry_label e = (if de_email e \<noteq> [] then de_name e @ '' <'' @ de_email e @ ''>'' else de_name e)"

record directory_config =
  dc_server_uri :: string
  dc_bind_dn :: string
  dc_bind_password :: string
  dc_base_dn :: string
  dc_admin_group :: string
  dc_user_group :: string

definition dc_configured :: "directory_config \<Rightarrow> bool" where
  "dc_configured c \<longleftrightarrow> dc_server_uri c \<noteq> [] \<and> dc_base_dn c \<noteq> []"

definition uses_tls :: "directory_config \<Rightarrow> bool" where
  "uses_tls c \<longleftrightarrow> starts_with ''ldaps://'' (py_lower (dc_server_uri c))"

definition load_config :: "readings \<Rightarrow> directory_config" where
  "load_config R = \<lparr>dc_server_uri = stripped_of (rd_str R ''ldap.server_uri''), dc_bind_dn = stripped_of (rd_str R ''ldap.bind_dn''),
     dc_bind_password = rd_secret R ''ldap.bind_password'', dc_base_dn = stripped_of (rd_str R ''ldap.base_dn''),
     dc_admin_group = stripped_of (rd_str R ''ldap.admin_group''), dc_user_group = stripped_of (rd_str R ''ldap.user_group'')\<rparr>"

definition escape_filter_char :: "char \<Rightarrow> string" where
  "escape_filter_char c =
     (if c = CHR 0x5C then [CHR 0x5C, CHR ''5'', CHR ''c''] else if c = CHR ''*'' then [CHR 0x5C, CHR ''2'', CHR ''a'']
      else if c = CHR ''('' then [CHR 0x5C, CHR ''2'', CHR ''8''] else if c = CHR '')'' then [CHR 0x5C, CHR ''2'', CHR ''9'']
      else if c = CHR 0x00 then [CHR 0x5C, CHR ''0'', CHR ''0''] else [c])"

definition escape_filter :: "string \<Rightarrow> string" where
  "escape_filter s = concat (map escape_filter_char s)"

definition filter_for :: "entry_kind \<Rightarrow> string \<Rightarrow> string" where
  "filter_for kind term =
     (let safe = escape_filter (py_strip term); wild = (if safe \<noteq> [] then ''*'' @ safe @ ''*'' else ''*'')
      in case kind of
           USER_ENTRY \<Rightarrow> ''(&(objectCategory=person)(objectClass=user)(|(displayName='' @ wild @ '')(sAMAccountName='' @ wild @ '')(mail='' @ wild
             @ '')(userPrincipalName='' @ wild @ '')(cn='' @ wild @ '')))''
         | GROUP_ENTRY \<Rightarrow> ''(&(objectClass=group)(|(cn='' @ wild @ '')(sAMAccountName='' @ wild @ '')))''
         | OU_ENTRY \<Rightarrow> ''(&(objectClass=organizationalUnit)(|(ou='' @ wild @ '')(name='' @ wild @ '')))'')"

text \<open>An attribute: a text, or a list of them.\<close>

definition one_value :: "py_text \<Rightarrow> json \<Rightarrow> string" where
  "one_value P v = (case v of JNull \<Rightarrow> [] | JArr [] \<Rightarrow> [] | JArr (x # xs) \<Rightarrow> str_json P x | _ \<Rightarrow> str_json P v)"

definition first_of :: "string \<Rightarrow> string \<Rightarrow> string" where
  "first_of a b = (if a \<noteq> [] then a else b)"

definition to_entry :: "py_text \<Rightarrow> entry_kind \<Rightarrow> string \<Rightarrow> payload \<Rightarrow> directory_entry" where
  "to_entry P kind dn attrs =
     (let one = (\<lambda>k. one_value P (jget k attrs))
      in case kind of
           USER_ENTRY \<Rightarrow>
             (let email = first_of (one ''userPrincipalName'') (one ''mail'')
              in \<lparr>de_dn = dn, de_kind = kind, de_name = first_of (first_of (one ''displayName'') (one ''cn'')) email, de_email = email,
                  de_login = one ''sAMAccountName'', de_description = []\<rparr>)
         | GROUP_ENTRY \<Rightarrow> \<lparr>de_dn = dn, de_kind = kind, de_name = first_of (one ''cn'') (one ''sAMAccountName''), de_email = [],
             de_login = one ''sAMAccountName'', de_description = one ''description''\<rparr>
         | OU_ENTRY \<Rightarrow> \<lparr>de_dn = dn, de_kind = kind, de_name = first_of (one ''ou'') (one ''name''), de_email = [], de_login = [],
             de_description = one ''description''\<rparr>)"

text \<open>What the server answers to a filter, a limit on the number of entries being part of the question: its rows, each with
  whether it is an entry or a referral, or a failure. \<open>None\<close> is an answer that does not come in time.\<close>

type_synonym ldap_row = "bool \<times> string \<times> payload"

record directory_env =
  di_text :: py_text
  di_search :: "string \<Rightarrow> nat \<Rightarrow> (string + ldap_row list) option"
  di_bind :: "string \<Rightarrow> string \<Rightarrow> bool"

record directory_result =
  dr_entries :: "directory_entry list"
  dr_error :: string
  dr_truncated :: bool

definition failed :: "string \<Rightarrow> directory_result" where
  "failed why = \<lparr>dr_entries = [], dr_error = why, dr_truncated = False\<rparr>"

definition dr_ok :: "directory_result \<Rightarrow> bool" where
  "dr_ok r \<longleftrightarrow> dr_error r = []"

definition MAX_RESULTS :: nat where "MAX_RESULTS = 50"

definition has_text :: "string \<Rightarrow> string \<Rightarrow> bool" where
  "has_text t s \<longleftrightarrow> find_text t s \<noteq> None"

definition describe :: "string \<Rightarrow> string" where
  "describe message =
     (let low = py_lower message; says = (\<lambda>ts. list_ex (\<lambda>t. has_text t low) ts)
      in if says [''invalidcredentials'', ''invalid credentials'']
         then ''The domain controller refused the reading account. Check the account name and its password under Settings.''
         else if says [''invalid server address'', ''name or service not known'', ''nodename nor servname'', ''getaddrinfo'']
         then ''The domain controller's name could not be resolved. Check the address under Settings, and that this server uses a DNS resolver that knows your domain.''
         else if says [''socket connection error'', ''connection refused'']
         then ''Could not reach the domain controller. Check the address, and that this server is allowed to connect to it on that port.''
         else if says [''timed out'', ''timeout'']
         then ''The domain controller accepted the connection but did not answer in time. It may be reachable but not serving LDAP on that port.''
         else if says [''certificate'', ''ssl'', ''tls'']
         then ''The encrypted connection was refused. The controller's certificate is not trusted by this server, or it is not offering LDAPS on that port.''
         else if says [''no such object'', ''invaliddnsyntax'']
         then ''The starting point for the search does not exist on this controller. Check 'Where to start searching' under Settings.''
         else if says [''sizelimit''] then ''The directory returned too many results. Narrow the search.''
         else ''The directory lookup failed: '' @ message)"

definition response_rows :: "ldap_row list \<Rightarrow> (string \<times> payload) list" where
  "response_rows rows = map snd (filter fst rows)"

definition directory_search :: "directory_env \<Rightarrow> directory_config \<Rightarrow> entry_kind \<Rightarrow> string \<Rightarrow> directory_result" where
  "directory_search D c kind term =
     (if \<not> dc_configured c
      then failed ''Active Directory is not configured. Set the domain controller address and the starting point under Settings.''
      else (case di_search D (filter_for kind term) (MAX_RESULTS + 1) of
              None \<Rightarrow> failed ''The directory did not answer in time. Check that the domain controller is reachable from this server.''
            | Some (Inl message) \<Rightarrow> failed (describe message)
            | Some (Inr rows) \<Rightarrow>
                (let entries = map (\<lambda>(dn, attrs). to_entry (di_text D) kind dn attrs) (response_rows rows)
                 in \<lparr>dr_entries = take MAX_RESULTS entries, dr_error = [], dr_truncated = (MAX_RESULTS < length entries)\<rparr>)))"

definition probe :: "directory_env \<Rightarrow> directory_config \<Rightarrow> directory_result" where
  "probe D c =
     (let r = directory_search D c USER_ENTRY []
      in if dr_ok r \<and> dr_entries r = []
         then failed ''Connected and searched, but found no people under the starting point. Check 'Where to start searching'.''
         else r)"

definition answers_to :: "string \<Rightarrow> directory_entry \<Rightarrow> bool" where
  "answers_to email e \<longleftrightarrow>
     (let typed = py_lower (py_strip email) in py_lower (de_email e) = typed \<or> py_lower (de_login e) = before_first CHR ''@'' typed)"

definition directory_authenticate :: "directory_env \<Rightarrow> directory_config \<Rightarrow> string \<Rightarrow> string \<Rightarrow> directory_entry option" where
  "directory_authenticate D c email password =
     (if \<not> dc_configured c \<or> password = [] then None
      else (let found = directory_search D c USER_ENTRY email
            in if \<not> dr_ok found \<or> dr_entries found = [] then None
               else (case filter (answers_to email) (dr_entries found) of
                       [person] \<Rightarrow> if di_bind D (de_dn person) password then Some person else None
                     | _ \<Rightarrow> None)))"

text \<open>The groups; an answer that does not come in time is not caught.\<close>

definition group_memberships :: "directory_env \<Rightarrow> directory_config \<Rightarrow> string \<Rightarrow> py_exc + string list" where
  "group_memberships D c dn =
     (if \<not> dc_configured c then Inr []
      else (case di_search D (''(&(objectClass=group)(member='' @ escape_filter dn @ ''))'') 200 of
              None \<Rightarrow> Inl (RuntimeError ''TimeoutError'')
            | Some (Inl message) \<Rightarrow> Inr []
            | Some (Inr rows) \<Rightarrow>
                Inr (remdups (concat (map (\<lambda>(dn1, attrs). filter (\<lambda>v. v \<noteq> [])
                  [one_value (di_text D) (jget ''cn'' attrs), one_value (di_text D) (jget ''sAMAccountName'' attrs)]) (response_rows rows))))))"

section \<open>The challenge\<close>

record gate =
  tg_required :: bool
  tg_site_key :: string
  tg_secret_key :: string
  tg_reason :: string

definition show_widget :: "gate \<Rightarrow> bool" where
  "show_widget g \<longleftrightarrow> tg_required g \<and> tg_site_key g \<noteq> [] \<and> tg_secret_key g \<noteq> []"

definition load_gate :: "readings \<Rightarrow> bool \<Rightarrow> gate" where
  "load_gate R private =
     (let site = stripped_of (rd_str R ''turnstile.site_key''); secret = rd_secret R ''turnstile.secret_key''
      in if \<not> rd_bool R ''turnstile.enabled'' then \<lparr>tg_required = False, tg_site_key = [], tg_secret_key = [], tg_reason = ''switched off''\<rparr>
         else if site = [] \<or> secret = [] then \<lparr>tg_required = False, tg_site_key = [], tg_secret_key = [], tg_reason = ''keys missing''\<rparr>
         else if rd_bool R ''turnstile.skip_on_lan'' \<and> private
         then \<lparr>tg_required = False, tg_site_key = site, tg_secret_key = secret, tg_reason = ''local network''\<rparr>
         else \<lparr>tg_required = True, tg_site_key = site, tg_secret_key = secret, tg_reason = []\<rparr>)"

text \<open>\<open>post\<close> is the answer to the form, \<open>None\<close> any failure of asking; a body that is no object raises outside the handler.\<close>

definition verify_challenge :: "((string \<times> string) list \<Rightarrow> json option) \<Rightarrow> gate \<Rightarrow> string \<Rightarrow> string option \<Rightarrow> bool \<Rightarrow> py_exc + bool" where
  "verify_challenge post g token ip private =
     (if \<not> tg_required g then Inr True
      else if token = [] then Inr False
      else (case post ([(''secret'', tg_secret_key g), (''response'', token)] @
                   (case nonempty ip of Some a \<Rightarrow> if private then [] else [(''remoteip'', a)] | None \<Rightarrow> [])) of
              None \<Rightarrow> Inr True
            | Some (JObj body) \<Rightarrow> Inr (jtruthy (jget ''success'' body))
            | Some _ \<Rightarrow> Inl (AttributeError ''get'')))"

section \<open>What an identity was checked for\<close>

lemma py_error_Inr [simp]: "py_error r = Inr x \<longleftrightarrow> r = Inr x"
  by (auto simp: py_error_def split: sum.splits)

lemma decode_flow_Inr: "decode_flow E cookie = Inr flow \<longleftrightarrow> oe_loads E cookie = Inr (Signed (JObj flow))"
proof (cases "oe_loads E cookie")
  case (Inr a)
  show ?thesis
  proof (cases a)
    case (Signed j)
    then show ?thesis using Inr by (cases j) (auto simp: decode_flow_def)
  qed (use Inr in \<open>auto simp: decode_flow_def\<close>)
qed (simp add: decode_flow_def)

lemma check_claims_Inr:
  assumes "check_claims E c meta expected claims = Inr claims'"
  shows "claims' = claims \<and> audience_ok E (pv_client_id c) claims = Inr True \<and>
    issuer_ok (pv_provider c) (text_or_empty_of (oe_text E) (jget ''iss'' claims)) (text_or_empty_of (oe_text E) (jget ''issuer'' meta)) \<and>
    (\<exists>t. claim_time (claim_or ''exp'' (JInt 0) claims) = Inr t \<and> \<not> time_below t (oe_now E - LEEWAY_SECONDS)) \<and>
    (\<exists>t. claim_time (claim_or ''iat'' (JNum (oe_now E)) claims) = Inr t \<and> \<not> time_above t (oe_now E + LEEWAY_SECONDS)) \<and>
    expected \<noteq> [] \<and> text_or_empty_of (oe_text E) (jget ''nonce'' claims) = expected"
  using assms
  by (auto simp: check_claims_def Let_def res_bind_Inr_iff compare_digest_def split: if_splits)

lemma allowed_algorithms_signed: "allowed_algorithms meta = Inr names \<Longrightarrow> names \<noteq> [] \<and> list_all (\<lambda>a. py_lower a \<noteq> ''none'') names"
proof -
  have "py_lower ''RS256'' \<noteq> ''none''" by code_simp
  then show "allowed_algorithms meta = Inr names \<Longrightarrow> names \<noteq> [] \<and> list_all (\<lambda>a. py_lower a \<noteq> ''none'') names"
    by (auto simp: allowed_algorithms_def res_bind_Inr_iff Let_def list_all_iff split: json.splits if_splits)
qed

lemma verify_id_token_Inr:
  assumes "verify_id_token E c meta expected token cache = (cache1, Inr claims)"
  shows "\<exists>names keys. names \<noteq> [] \<and> list_all (\<lambda>a. py_lower a \<noteq> ''none'') names \<and> oe_decode E names keys token = Some claims \<and>
    check_claims E c meta expected claims = Inr claims"
proof -
  from assms obtain keys names claims0 where "allowed_algorithms meta = Inr names" "oe_decode E names keys token = Some claims0"
    "check_claims E c meta expected claims0 = Inr claims"
    by (auto simp: verify_id_token_def res_bind_Inr_iff split: sum.splits prod.splits option.splits)
  then show ?thesis using allowed_algorithms_signed check_claims_Inr by metis
qed

lemma identity_from_Inr:
  assumes "identity_from E c claims = Inr ident"
  shows "CHR ''@'' \<in> set (id_email ident) \<and> (pv_allowed_domains c = [] \<or> after_last CHR ''@'' (id_email ident) \<in> set (pv_allowed_domains c)) \<and>
    id_email ident = py_lower (py_strip (text_or_empty_of (oe_text E)
      (jor (jor (jget ''email'' claims) (jget ''preferred_username'' claims)) (jget ''upn'' claims))))"
  using assms by (auto simp: identity_from_def Let_def res_bind_Inr_iff split: if_splits)


text \<open>The audience, when it is one text, need only have the client's name somewhere in it.\<close>

lemma audience_by_substring: "audience_ok E ''abc'' [(''aud'', JStr ''other-abc-client'')] = Inr True"
proof -
  have "find_text ''abc'' ''other-abc-client'' \<noteq> None" by code_simp
  then show ?thesis by (simp add: audience_ok_def json_contains_def jget_def jor_def jtruthy_def)
qed

section \<open>What is typed stays a value, and whose password is asked for\<close>

lemma escape_filter_safe: "set (escape_filter s) \<inter> {CHR ''*'', CHR ''('', CHR '')'', CHR 0x00} = {}"
  by (induction s) (auto simp: escape_filter_def escape_filter_char_def)

text \<open>The brackets and stars of a search are those of its form, whatever is typed.\<close>

lemma filter_keeps_its_form:
  assumes "py_strip term \<noteq> []" "py_strip other \<noteq> []"
  shows "filter (\<lambda>c. c \<in> {CHR ''*'', CHR ''('', CHR '')''}) (filter_for kind term) =
    filter (\<lambda>c. c \<in> {CHR ''*'', CHR ''('', CHR '')''}) (filter_for kind other)"
proof -
  have none: "filter (\<lambda>c. c = CHR ''*'' \<or> c = CHR ''('' \<or> c = CHR '')'') (escape_filter t) = []" for t
    using escape_filter_safe [of t] by (auto simp: filter_empty_conv)
  have some: "escape_filter t \<noteq> []" if "t \<noteq> []" for t
    using that by (cases t) (auto simp: escape_filter_def escape_filter_char_def)
  show ?thesis using assms by (cases kind) (simp_all add: filter_for_def Let_def some none)
qed

lemma directory_password:
  assumes "directory_authenticate D c email password = Some e"
  shows "password \<noteq> [] \<and> di_bind D (de_dn e) password \<and> answers_to email e \<and>
    filter (answers_to email) (dr_entries (directory_search D c USER_ENTRY email)) = [e]"
proof -
  from assms have one: "filter (answers_to email) (dr_entries (directory_search D c USER_ENTRY email)) = [e]"
    by (auto simp: directory_authenticate_def Let_def split: if_splits list.splits)
  then have "e \<in> set (filter (answers_to email) (dr_entries (directory_search D c USER_ENTRY email)))" by simp
  then have "answers_to email e" by simp
  then show ?thesis using assms one by (auto simp: directory_authenticate_def Let_def split: if_splits)
qed

text \<open>A server that is silent when the groups are read ends the sign-in with an exception, not with a message.\<close>

lemma silent_groups_raise:
  assumes "dc_configured c" "\<And>f n. di_search D f n = None"
  shows "group_memberships D c dn = Inl (RuntimeError ''TimeoutError'')"
  using assms by (simp add: group_memberships_def)

text \<open>An answer that does not come lets the visitor through; a missing one does not.\<close>

lemma challenge_outcome:
  "verify_challenge post g token ip private = Inr True \<or> tg_required g"
  "tg_required g \<Longrightarrow> verify_challenge post g [] ip private = Inr False"
  "token \<noteq> [] \<Longrightarrow> (\<And>f. post f = None) \<Longrightarrow> verify_challenge post g token ip private = Inr True"
  by (auto simp: verify_challenge_def)

section \<open>An example\<close>

definition demo_provider :: provider_config where
  "demo_provider = \<lparr>pv_provider = GOOGLE, pv_client_id = ''id'', pv_client_secret = ''s'', pv_discovery_url = ''https://d'', pv_allowed_domains = [''b.c'']\<rparr>"

definition demo_claims :: payload where
  "demo_claims = [(''aud'', JStr ''id''), (''iss'', JStr ''accounts.google.com''), (''exp'', JInt 500), (''nonce'', JStr ''n''), (''sub'', JStr ''7''),
     (''email'', JStr ''A@b.c'')]"

definition demo_oidc :: oidc_env where
  "demo_oidc = \<lparr>oe_text = \<lparr>show_float_of = (\<lambda>_. []), show_json_of = (\<lambda>_. [])\<rparr>, oe_now = 100,
     oe_loads = (\<lambda>_. Inr (Signed (JObj [(''provider'', JStr ''google''), (''state'', JStr ''x''), (''nonce'', JStr ''n''),
       (''redirect_uri'', JStr ''r''), (''verifier'', JStr ''v'')]))), oe_dumps = (\<lambda>_. Inr []),
     oe_discover = (\<lambda>_. Inr [(''token_endpoint'', JStr ''t''), (''jwks_uri'', JStr ''j'')]),
     oe_exchange = (\<lambda>_ _. Inr (200, [(''id_token'', JStr ''token'')])), oe_fetch_keys = (\<lambda>_. Inr JNull),
     oe_decode = (\<lambda>_ _ _. Some demo_claims), oe_token = (\<lambda>_. []), oe_challenge = id\<rparr>"


end
