(* ===== verification/Accounts.thy ===== *)
theory Accounts
  imports Endpoints Users Deletion
begin

text \<open>
  \<open>src/c2w/web/accounts.py\<close> and the pages of \<open>web/routes.py\<close> that call it: the CommPeak accounts and the
  archives of an organisation, added, changed, tried out, shown, stopped and removed from the console. An
  operation is a state transformer with a result, in the order the code reads and writes; a page runs one in a
  transaction, which the errors it turns into a message do not undo.

  The cipher, the master key, the bytes drawn and the storage services are parameters; the rows extend the ones
  \<open>Endpoints\<close> opens.

  Lemmas: every stored credential opens under its own organisation's key for its own row and field, whatever
  is done; what was typed is what is shown, also after changes that leave the boxes empty; a failed sealing
  leaves a row without credentials behind.
\<close>

section \<open>Rows\<close>

record account = connection_row +
  ac_tenant_id :: int
  ac_name :: string
  ac_cdr_api_base :: "string option"
  ac_cdr_api_user :: "string option"
  ac_destination_id :: "int option"
  ac_status :: connection_status
  ac_status_detail :: "string option"
  ac_last_probe_at :: "dt option"
  ac_is_enabled :: bool

record storage = destination_row +
  so_name :: string
  so_provider :: string
  so_path_prefix :: string
  so_status :: connection_status
  so_status_detail :: "string option"
  so_last_probe_at :: "dt option"
  so_is_enabled :: bool

record tenant =
  tn_id :: int
  tn_brand_id :: int
  tn_name :: string
  tn_slug :: string
  tn_domain :: "string option"

record organisation =
  og_id :: int
  og_name :: string
  og_key_id :: "string option"
  og_wrapped :: "string option"

record accounts_db =
  ad_organisations :: "organisation list"
  ad_tenants :: "tenant list"
  ad_accounts :: "account list"
  ad_storage :: "storage list"
  ad_recordings :: "recording list"
  ad_cdrs :: "cdr_row list"
  ad_next_id :: int

text \<open>What a request draws and reads: a nonce for each value it seals (found by its associated data), and the
  bytes of a new data key.\<close>

record draws =
  dw_nonce :: "string \<Rightarrow> bytes"
  dw_kid :: bytes
  dw_data_key :: bytes
  dw_key_nonce :: bytes
  dw_now :: dt

text \<open>What does not change from one request to the next: the cipher, the master key and \<open>repr\<close> of a text.\<close>

record vault =
  va_aead :: aead
  va_master :: string
  va_repr :: "string \<Rightarrow> string"

section \<open>Operations and their errors\<close>

datatype account_exc =
    AccountError string
  | CryptoFailed string
  | TransferFailed transfer_error
  | Escaped py_exc
  | NotUnique string
  | Unended

type_synonym 'a act = "accounts_db \<Rightarrow> accounts_db \<times> (account_exc + 'a)"

definition give :: "'a \<Rightarrow> 'a act" where "give x d = (d, Inr x)"
definition fail_with :: "account_exc \<Rightarrow> 'a act" where "fail_with e d = (d, Inl e)"
definition asks :: "(accounts_db \<Rightarrow> 'a) \<Rightarrow> 'a act" where "asks f d = (d, Inr (f d))"
definition change :: "(accounts_db \<Rightarrow> accounts_db) \<Rightarrow> unit act" where "change g d = (g d, Inr ())"
definition lifted :: "account_exc + 'a \<Rightarrow> 'a act" where "lifted r d = (d, r)"

definition and_then :: "'a act \<Rightarrow> ('a \<Rightarrow> 'b act) \<Rightarrow> 'b act" where
  "and_then m f d = (case m d of (d', Inl e) \<Rightarrow> (d', Inl e) | (d', Inr x) \<Rightarrow> f x d')"

text \<open>The constraints a flush checks: an organisation has a bucket once, an archive's name once and a PBX's
  slug once, and an account names an archive that exists.\<close>

definition constraints_ok :: "accounts_db \<Rightarrow> bool" where
  "constraints_ok d \<longleftrightarrow>
     distinct (map (\<lambda>a. (cn_brand_id a, cn_s3_bucket a)) (ad_accounts d)) \<and>
     distinct (map (\<lambda>s. (ds_brand_id s, so_name s)) (ad_storage d)) \<and>
     distinct (map (\<lambda>t. (tn_brand_id t, tn_slug t)) (ad_tenants d)) \<and>
     (\<forall>a \<in> set (ad_accounts d). case ac_destination_id a of None \<Rightarrow> True | Some i \<Rightarrow> i \<in> ds_id ` set (ad_storage d))"

definition flush :: "unit act" where
  "flush d = (if constraints_ok d then (d, Inr ()) else (d, Inl (NotUnique ''a constraint of the database is violated'')))"

definition crypto_result :: "py_exc + 'a \<Rightarrow> account_exc + 'a" where
  "crypto_result r = (case r of Inr x \<Rightarrow> Inr x | Inl (RuntimeError m) \<Rightarrow> Inl (CryptoFailed m) | Inl e \<Rightarrow> Inl (Escaped e))"

type_synonym form = "(string \<times> string) list"

definition typed :: "form \<Rightarrow> string \<Rightarrow> string" where
  "typed f k = (case map_of f k of Some s \<Rightarrow> py_strip s | None \<Rightarrow> [])"

text \<open>\<open>(form.get(k) or default).strip()\<close>.\<close>

definition typed_or :: "form \<Rightarrow> string \<Rightarrow> string \<Rightarrow> string" where
  "typed_or f k standard = py_strip (or_else (case map_of f k of Some s \<Rightarrow> s | None \<Rightarrow> []) standard)"

definition text_or_none :: "string \<Rightarrow> string option" where
  "text_or_none s = (if s = [] then None else Some s)"

definition require_text :: "form \<Rightarrow> string \<Rightarrow> string \<Rightarrow> string act" where
  "require_text f k field =
     (let t = typed f k in if t = [] then fail_with (AccountError (field @ '' is required'')) else give t)"

text \<open>\<open>int(form[k]) if form.get(k) else None\<close>, and \<open>int(form[k])\<close>.\<close>

definition int_text :: "string \<Rightarrow> account_exc + int" where
  "int_text s = (case py_int_text s of Some i \<Rightarrow> Inr i | None \<Rightarrow> Inl (Escaped (ValueError ''invalid literal for int() with base 10'')))"

definition chosen_archive :: "form \<Rightarrow> account_exc + int option" where
  "chosen_archive f =
     (case nonempty (map_of f ''destination_id'') of None \<Rightarrow> Inr None | Some s \<Rightarrow> res_bind (int_text s) (\<lambda>i. Inr (Some i)))"

definition form_id :: "form \<Rightarrow> string \<Rightarrow> account_exc + int" where
  "form_id f k = (case map_of f k of None \<Rightarrow> Inl (Escaped (LookupError k)) | Some s \<Rightarrow> int_text s)"

section \<open>Organisations, their keys and their PBXes\<close>

definition organisation_of :: "int \<Rightarrow> accounts_db \<Rightarrow> organisation option" where
  "organisation_of b d = find_row (\<lambda>org. og_id org = b) (ad_organisations d)"

definition key_pair :: "organisation \<Rightarrow> (string \<times> string) option" where
  "key_pair org = (case (nonempty (og_key_id org), nonempty (og_wrapped org)) of (Some k, Some w) \<Rightarrow> Some (k, w) | _ \<Rightarrow> None)"

definition set_key :: "int \<Rightarrow> string \<times> string \<Rightarrow> accounts_db \<Rightarrow> accounts_db" where
  "set_key b kw d = d\<lparr>ad_organisations :=
     map (\<lambda>org. if og_id org = b then org\<lparr>og_key_id := Some (fst kw), og_wrapped := Some (snd kw)\<rparr> else org) (ad_organisations d)\<rparr>"

definition brand_keys_for :: "vault \<Rightarrow> draws \<Rightarrow> int \<Rightarrow> (organisation \<times> string \<times> string) act" where
  "brand_keys_for V w b =
     and_then (asks (organisation_of b)) (\<lambda>found.
       case found of
         None \<Rightarrow> fail_with (AccountError ''that organisation no longer exists'')
       | Some org \<Rightarrow>
           (case key_pair org of
              Some kw \<Rightarrow> give (org, kw)
            | None \<Rightarrow>
                and_then (lifted (crypto_result (generate_data_key (va_aead V) (va_master V) (dw_kid w) (dw_data_key w) (dw_key_nonce w)))) (\<lambda>kw.
                and_then (change (set_key b kw)) (\<lambda>_.
                and_then flush (\<lambda>_. give (org, kw))))))"

text \<open>The first of \<open>slug\<close>, \<open>slug-2\<close>, \<open>slug-3\<close>, \<dots> that is not taken; the fuel is the number of slugs
  taken, and \<open>free_slug_is_free\<close> says it is enough.\<close>

definition numbered :: "string \<Rightarrow> nat \<Rightarrow> string" where
  "numbered slug n = slug @ ''-'' @ show_nat n"

fun next_slug :: "nat \<Rightarrow> string list \<Rightarrow> string \<Rightarrow> nat \<Rightarrow> string \<Rightarrow> string" where
  "next_slug 0 taken slug n candidate = candidate"
| "next_slug (Suc fuel) taken slug n candidate =
     (if candidate \<in> set taken then next_slug fuel taken slug (Suc n) (numbered slug (Suc n)) else candidate)"

definition free_slug :: "string list \<Rightarrow> string \<Rightarrow> string" where
  "free_slug taken slug = next_slug (length taken) taken slug 1 slug"

definition slug_of :: "string \<Rightarrow> string" where
  "slug_of domain = or_else (take 80 (before_first CHR ''.'' domain)) ''tenant''"

definition tenant_for_domain :: "int \<Rightarrow> string \<Rightarrow> int act" where
  "tenant_for_domain b raw d =
     (let domain = py_lower (py_strip raw)
      in case filter (\<lambda>t. tn_brand_id t = b \<and> tn_domain t = Some domain) (ad_tenants d) of
           [t] \<Rightarrow> (d, Inr (tn_id t))
         | _ # _ # _ \<Rightarrow> (d, Inl (Escaped (RuntimeError ''Multiple rows were found when one or none was required'')))
         | [] \<Rightarrow>
             (let taken = map tn_slug (filter (\<lambda>t. tn_brand_id t = b) (ad_tenants d));
                  row = \<lparr>tn_id = ad_next_id d, tn_brand_id = b, tn_name = domain, tn_slug = free_slug taken (slug_of domain),
                         tn_domain = Some domain\<rparr>
              in and_then (change (\<lambda>d. d\<lparr>ad_tenants := ad_tenants d @ [row], ad_next_id := ad_next_id d + 1\<rparr>))
                   (\<lambda>_. and_then flush (\<lambda>_. give (tn_id row))) d))"

section \<open>CommPeak accounts\<close>

definition account_of :: "int \<Rightarrow> int \<Rightarrow> accounts_db \<Rightarrow> account option" where
  "account_of b i d = find_row (\<lambda>a. cn_id a = i \<and> cn_brand_id a = b) (ad_accounts d)"

definition the_account :: "int \<Rightarrow> int \<Rightarrow> account act" where
  "the_account b i =
     and_then (asks (account_of b i)) (\<lambda>r. case r of
       None \<Rightarrow> fail_with (AccountError ''that CommPeak account no longer exists'') | Some a \<Rightarrow> give a)"

definition set_account :: "int \<Rightarrow> (account \<Rightarrow> account) \<Rightarrow> accounts_db \<Rightarrow> accounts_db" where
  "set_account i g d = d\<lparr>ad_accounts := map (\<lambda>a. if cn_id a = i then g a else a) (ad_accounts d)\<rparr>"

definition insert_account :: "(int \<Rightarrow> account) \<Rightarrow> int act" where
  "insert_account row d =
     (d\<lparr>ad_accounts := ad_accounts d @ [row (ad_next_id d)], ad_next_id := ad_next_id d + 1\<rparr>, Inr (ad_next_id d))"

definition sealed_value :: "vault \<Rightarrow> draws \<Rightarrow> string \<times> string \<Rightarrow> string \<Rightarrow> string \<Rightarrow> string act" where
  "sealed_value V w kw v aad =
     lifted (crypto_result (seal (va_aead V) (va_master V) (dw_nonce w aad) v (fst kw) (snd kw) aad))"

text \<open>The three credentials of an account: the box, the field its seal is bound to, and its column.\<close>

datatype credential = ACCESS | SECRET | CDR_KEY

fun credential_box :: "credential \<Rightarrow> string" where
  "credential_box ACCESS = ''s3_access_key''"
| "credential_box SECRET = ''s3_secret''"
| "credential_box CDR_KEY = ''cdr_api_token''"

fun credential_field :: "credential \<Rightarrow> string" where
  "credential_field ACCESS = ''access_key''"
| "credential_field SECRET = ''secret_key''"
| "credential_field CDR_KEY = ''cdr_api_key''"

fun store_credential :: "credential \<Rightarrow> string \<Rightarrow> account \<Rightarrow> account" where
  "store_credential ACCESS c a = a\<lparr>cn_s3_access_key_sealed := c\<rparr>"
| "store_credential SECRET c a = a\<lparr>cn_s3_secret_sealed := c\<rparr>"
| "store_credential CDR_KEY c a = a\<lparr>cn_cdr_api_key_sealed := Some c\<rparr>"

definition seal_into :: "vault \<Rightarrow> draws \<Rightarrow> string \<times> string \<Rightarrow> int \<Rightarrow> (account \<Rightarrow> account) \<Rightarrow> string \<Rightarrow> credential \<Rightarrow> unit act" where
  "seal_into V w kw i g v cr =
     and_then (sealed_value V w kw v (field_aad ''connection'' i (credential_field cr))) (\<lambda>c.
       change (set_account i (\<lambda>a. g (store_credential cr c a))))"

definition new_account_row :: "form \<Rightarrow> int \<Rightarrow> int \<Rightarrow> string \<Rightarrow> string \<Rightarrow> int option \<Rightarrow> int \<Rightarrow> account" where
  "new_account_row f b tenant name bucket dest i =
     \<lparr>cn_id = i, cn_brand_id = b, cn_s3_endpoint = typed_or f ''s3_endpoint'' COMMPEAK_ENDPOINT,
      cn_s3_region = typed_or f ''s3_region'' ''us-east-1'', cn_s3_bucket = bucket, cn_s3_access_key_sealed = [],
      cn_s3_secret_sealed = [], cn_cdr_api_key_sealed = None, ac_tenant_id = tenant, ac_name = name,
      ac_cdr_api_base = text_or_none (typed f ''cdr_api_base''), ac_cdr_api_user = text_or_none (typed f ''cdr_api_user''),
      ac_destination_id = dest, ac_status = UNTESTED, ac_status_detail = None, ac_last_probe_at = None, ac_is_enabled = True\<rparr>"

definition bucket_taken :: "int \<Rightarrow> string \<Rightarrow> accounts_db \<Rightarrow> bool" where
  "bucket_taken b bucket d \<longleftrightarrow> (\<exists>a \<in> set (ad_accounts d). cn_brand_id a = b \<and> cn_s3_bucket a = bucket)"

text \<open>The row goes in with its credentials empty; its id is what binds them, so they are sealed after.\<close>

definition seal_typed :: "vault \<Rightarrow> draws \<Rightarrow> string \<times> string \<Rightarrow> int \<Rightarrow> (account \<Rightarrow> account) \<Rightarrow> form \<Rightarrow> credential \<Rightarrow> unit act" where
  "seal_typed V w kw i g f cr =
     (let v = typed f (credential_box cr) in if v = [] then give () else seal_into V w kw i g v cr)"

definition insert_connection :: "vault \<Rightarrow> draws \<Rightarrow> string \<times> string \<Rightarrow> int \<Rightarrow> form \<Rightarrow> int act" where
  "insert_connection V w kw b f =
     and_then (tenant_for_domain b (typed f ''commpeak_domain'')) (\<lambda>tenant.
     and_then (lifted (chosen_archive f)) (\<lambda>dest.
     and_then (insert_account (new_account_row f b tenant (typed f ''name'') (typed f ''s3_bucket'') dest)) (\<lambda>i.
     and_then flush (\<lambda>_.
     and_then (seal_into V w kw i id (typed f ''s3_access_key'') ACCESS) (\<lambda>_.
     and_then (seal_into V w kw i id (typed f ''s3_secret'') SECRET) (\<lambda>_.
     and_then (seal_typed V w kw i id f CDR_KEY) (\<lambda>_.
     and_then flush (\<lambda>_. give i))))))))"

fun require_all :: "form \<Rightarrow> (string \<times> string) list \<Rightarrow> unit act" where
  "require_all f [] = give ()"
| "require_all f ((k, field) # ks) = and_then (require_text f k field) (\<lambda>_. require_all f ks)"

definition add_connection :: "vault \<Rightarrow> draws \<Rightarrow> int \<Rightarrow> form \<Rightarrow> int act" where
  "add_connection V w b f =
     and_then (brand_keys_for V w b) (\<lambda>(org, kw).
     and_then (require_all f [(''name'', ''A name''), (''commpeak_domain'', ''The CommPeak domain''), (''s3_bucket'', ''The bucket''),
       (''s3_access_key'', ''The S3 token''), (''s3_secret'', ''The S3 secret'')]) (\<lambda>_.
     and_then (asks (bucket_taken b (typed f ''s3_bucket''))) (\<lambda>dup.
       if dup then fail_with (AccountError (''bucket '' @ typed f ''s3_bucket'' @ '' is already registered for '' @ og_name org))
       else insert_connection V w kw b f)))"

definition untested :: "account \<Rightarrow> account" where "untested a = a\<lparr>ac_status := UNTESTED\<rparr>"

definition when_typed :: "form \<Rightarrow> string \<Rightarrow> (string \<Rightarrow> unit act) \<Rightarrow> unit act" where
  "when_typed f k m = (let v = typed f k in if v = [] then give () else m v)"

definition update_connection :: "vault \<Rightarrow> draws \<Rightarrow> int \<Rightarrow> int \<Rightarrow> form \<Rightarrow> string act" where
  "update_connection V w b i f =
     and_then (brand_keys_for V w b) (\<lambda>(_, kw).
     and_then (the_account b i) (\<lambda>_.
     and_then (when_typed f ''name'' (\<lambda>v. change (set_account i (\<lambda>a. a\<lparr>ac_name := v\<rparr>)))) (\<lambda>_.
     and_then (when_typed f ''commpeak_domain'' (\<lambda>v.
       and_then (tenant_for_domain b v) (\<lambda>t. change (set_account i (\<lambda>a. a\<lparr>ac_tenant_id := t\<rparr>))))) (\<lambda>_.
     and_then (when_typed f ''s3_endpoint'' (\<lambda>v. change (set_account i (\<lambda>a. a\<lparr>cn_s3_endpoint := v\<rparr>)))) (\<lambda>_.
     and_then (change (set_account i (\<lambda>a. a\<lparr>ac_cdr_api_base := text_or_none (typed f ''cdr_api_base''),
       ac_cdr_api_user := text_or_none (typed f ''cdr_api_user'')\<rparr>))) (\<lambda>_.
     and_then (lifted (chosen_archive f)) (\<lambda>dest.
     and_then (change (set_account i (\<lambda>a. a\<lparr>ac_destination_id := dest, ac_is_enabled := (map_of f ''is_enabled'' = Some ''true'')\<rparr>))) (\<lambda>_.
     and_then (seal_typed V w kw i untested f ACCESS) (\<lambda>_.
     and_then (seal_typed V w kw i untested f SECRET) (\<lambda>_.
     and_then (seal_typed V w kw i untested f CDR_KEY) (\<lambda>_.
     and_then flush (\<lambda>_.
     and_then (the_account b i) (\<lambda>a. give (ac_name a))))))))))))))"

definition delete_connection :: "int \<Rightarrow> int \<Rightarrow> string \<Rightarrow> string act" where
  "delete_connection b i actor =
     and_then (the_account b i) (\<lambda>a.
     and_then (change (set_account i (\<lambda>a. a\<lparr>ac_is_enabled := False, ac_status := CONN_DISABLED,
       ac_status_detail := Some (''removed by '' @ actor)\<rparr>))) (\<lambda>_.
     and_then flush (\<lambda>_. give (ac_name a))))"

text \<open>The curly quotes of a message, straight here.\<close>

definition in_quotes :: "string \<Rightarrow> string" where "in_quotes s = [CHR 0x22] @ s @ [CHR 0x22]"

text \<open>Refused while recordings or calls that came from the account are kept.\<close>

definition rows_of_account :: "int \<Rightarrow> int \<Rightarrow> accounts_db \<Rightarrow> nat \<times> nat" where
  "rows_of_account b i d =
     (length (filter (\<lambda>r. rec_brand_id r = b \<and> rec_connection_id r = i) (ad_recordings d)),
      length (filter (\<lambda>c. cdr_brand_id c = b \<and> cdr_connection_id c = i) (ad_cdrs d)))"

definition drop_account :: "int \<Rightarrow> accounts_db \<Rightarrow> accounts_db" where
  "drop_account i d = d\<lparr>ad_accounts := filter (\<lambda>a. cn_id a \<noteq> i) (ad_accounts d)\<rparr>"

definition purge_connection :: "int \<Rightarrow> int \<Rightarrow> string act" where
  "purge_connection b i =
     and_then (the_account b i) (\<lambda>a.
     and_then (asks (rows_of_account b i)) (\<lambda>(recordings, calls).
       if recordings \<noteq> 0 \<or> calls \<noteq> 0
       then fail_with (AccountError (show_commas recordings @ '' recording(s) and '' @ show_commas calls @ '' call record(s) came from ''
              @ ac_name a @ '' and point at it. Use '' @ in_quotes ''stop using'' @ '' instead, which leaves them intact and stops reading anything new''))
       else and_then (change (drop_account i)) (\<lambda>_. and_then flush (\<lambda>_. give (ac_name a)))))"

text \<open>\<open>CryptoError\<close> and its text, as \<open>open_sealed\<close> raises it when a stored credential is opened.\<close>

definition unseal_with :: "vault \<Rightarrow> unsealer" where
  "unseal_with V v k wrapped aad =
     (case open_sealed (va_aead V) (va_master V) v k wrapped aad of Inl e \<Rightarrow> Inl (exc_text e) | Inr p \<Rightarrow> Inr p)"

definition keys_in :: "accounts_db \<Rightarrow> int \<Rightarrow> brand_keys option" where
  "keys_in d b = map_option (\<lambda>org. \<lparr>bk_key_id = og_key_id org, bk_wrapped = og_wrapped org\<rparr>) (organisation_of b d)"

definition transfer_result :: "transfer_error + 'a \<Rightarrow> account_exc + 'a" where
  "transfer_result r = (case r of Inl e \<Rightarrow> Inl (TransferFailed e) | Inr x \<Rightarrow> Inr x)"

definition reveal_credentials :: "vault \<Rightarrow> int \<Rightarrow> int \<Rightarrow> (string \<times> string \<times> string) act" where
  "reveal_credentials V b i =
     and_then (the_account b i) (\<lambda>a.
     and_then (asks keys_in) (\<lambda>keys.
     and_then (lifted (transfer_result (reveal_connection_credentials (unseal_with V) keys (connection_row.truncate a)))) (\<lambda>(token, secret).
       give (ac_name a, token, secret))))"

section \<open>Trying out an account\<close>

definition PROBE_COOLDOWN_SECONDS :: int where "PROBE_COOLDOWN_SECONDS = 20"

record check =
  ck_name :: string
  ck_ok :: "bool option"
  ck_detail :: string
  ck_hint :: string

record probe_outcome =
  po_ok :: bool
  po_summary :: string
  po_checks :: "check list"

definition hint_text :: "string option \<Rightarrow> string" where
  "hint_text h = (case h of Some s \<Rightarrow> s | None \<Rightarrow> [])"

definition cooling :: "dt \<Rightarrow> account \<Rightarrow> int option" where
  "cooling now a =
     (case ac_last_probe_at a of
        None \<Rightarrow> None
      | Some t \<Rightarrow> if now - t < PROBE_COOLDOWN_SECONDS * second
                  then Some ((PROBE_COOLDOWN_SECONDS * second - (now - t)) div second + 1) else None)"

definition tested_moments_ago :: "int \<Rightarrow> probe_outcome" where
  "tested_moments_ago remaining =
     \<lparr>po_ok = False, po_summary = ''Tested moments ago. Wait '' @ show_int remaining @ ''s before testing this account again.'',
      po_checks = [\<lparr>ck_name = ''not tested'', ck_ok = None, ck_detail = ''no request was sent to CommPeak'',
        ck_hint = ''CommPeak rate-limits, and a rate-limited refusal looks exactly like an address that is not on the account's access list -- so testing in quick succession can manufacture the very failure you are trying to diagnose''\<rparr>]\<rparr>"

definition spaced_name :: "string \<Rightarrow> string" where
  "spaced_name n = map (\<lambda>c. if c = CHR ''_'' then CHR '' '' else c) n"

definition shown_probe :: "probe_result \<Rightarrow> check" where
  "shown_probe r = \<lparr>ck_name = spaced_name (pr_name r), ck_ok = Some (pr_ok r), ck_detail = pr_detail r, ck_hint = hint_text (pr_hint r)\<rparr>"

definition failed_check :: "check list \<Rightarrow> check option" where
  "failed_check cs = find_row (\<lambda>c. ck_ok c \<noteq> Some True) cs"

text \<open>What a test leaves in the row: its status, the first failure, and the time.\<close>

definition tested_status :: "check list \<Rightarrow> connection_status \<times> string option" where
  "tested_status cs =
     (case failed_check cs of
        None \<Rightarrow> (CONN_OK, None)
      | Some c \<Rightarrow> (CONN_ERROR, Some (take 2000 (ck_detail c @ '' -- '' @ ck_hint c))))"

definition outcome_of :: "string \<Rightarrow> check list \<Rightarrow> probe_outcome" where
  "outcome_of fine cs =
     \<lparr>po_ok = (failed_check cs = None),
      po_summary = (case failed_check cs of None \<Rightarrow> fine | Some c \<Rightarrow> ck_detail c), po_checks = cs\<rparr>"

definition note_test :: "connection_status \<times> string option \<Rightarrow> dt \<Rightarrow> account \<Rightarrow> account" where
  "note_test st now a = a\<lparr>ac_status := fst st, ac_status_detail := snd st, ac_last_probe_at := Some now\<rparr>"

definition test_connection :: "vault \<Rightarrow> service \<Rightarrow> nat \<Rightarrow> dt \<Rightarrow> int \<Rightarrow> int \<Rightarrow> probe_outcome act" where
  "test_connection V svc fuel now b i =
     and_then (the_account b i) (\<lambda>a.
       case cooling now a of
         Some remaining \<Rightarrow> give (tested_moments_ago remaining)
       | None \<Rightarrow>
           and_then (asks keys_in) (\<lambda>keys.
             case open_source (unseal_with V) keys (connection_row.truncate a) of
               Inl e \<Rightarrow>
                 and_then (change (set_account i (note_test (CONN_ERROR, Some (take 2000 (te_str e))) now))) (\<lambda>_.
                 and_then flush (\<lambda>_. give \<lparr>po_ok = False, po_summary = te_str e, po_checks = []\<rparr>))
             | Inr c \<Rightarrow>
                 (case snd (run_source_probes fuel True svc (enter c) []) of
                    None \<Rightarrow> fail_with Unended
                  | Some results \<Rightarrow>
                      (let cs = map shown_probe results
                       in and_then (change (set_account i (note_test (tested_status cs) now))) (\<lambda>_.
                          and_then flush (\<lambda>_. give (outcome_of ''Reachable'' cs)))))))"

section \<open>Archives\<close>

definition storage_of :: "int \<Rightarrow> int \<Rightarrow> accounts_db \<Rightarrow> storage option" where
  "storage_of b i d = find_row (\<lambda>s. ds_id s = i \<and> ds_brand_id s = b) (ad_storage d)"

definition the_storage :: "int \<Rightarrow> int \<Rightarrow> storage act" where
  "the_storage b i =
     and_then (asks (storage_of b i)) (\<lambda>r. case r of
       None \<Rightarrow> fail_with (AccountError ''that storage no longer exists'') | Some s \<Rightarrow> give s)"

definition set_storage :: "int \<Rightarrow> (storage \<Rightarrow> storage) \<Rightarrow> accounts_db \<Rightarrow> accounts_db" where
  "set_storage i g d = d\<lparr>ad_storage := map (\<lambda>s. if ds_id s = i then g s else s) (ad_storage d)\<rparr>"

definition insert_storage :: "(int \<Rightarrow> storage) \<Rightarrow> int act" where
  "insert_storage row d =
     (d\<lparr>ad_storage := ad_storage d @ [row (ad_next_id d)], ad_next_id := ad_next_id d + 1\<rparr>, Inr (ad_next_id d))"

datatype archive_credential = ARCHIVE_ACCESS | ARCHIVE_SECRET

text \<open>The box and the field of an archive's credential have the same name.\<close>

fun archive_field :: "archive_credential \<Rightarrow> string" where
  "archive_field ARCHIVE_ACCESS = ''access_key''"
| "archive_field ARCHIVE_SECRET = ''secret_key''"

fun store_archive_credential :: "archive_credential \<Rightarrow> string \<Rightarrow> storage \<Rightarrow> storage" where
  "store_archive_credential ARCHIVE_ACCESS c s = s\<lparr>ds_access_key_sealed := c\<rparr>"
| "store_archive_credential ARCHIVE_SECRET c s = s\<lparr>ds_secret_sealed := c\<rparr>"

definition seal_archive :: "vault \<Rightarrow> draws \<Rightarrow> string \<times> string \<Rightarrow> int \<Rightarrow> (storage \<Rightarrow> storage) \<Rightarrow> form \<Rightarrow> archive_credential \<Rightarrow> unit act" where
  "seal_archive V w kw i g f cr =
     (let v = typed f (archive_field cr)
      in if v = [] then give ()
         else and_then (sealed_value V w kw v (field_aad ''destination'' i (archive_field cr))) (\<lambda>c.
                change (set_storage i (\<lambda>s. g (store_archive_credential cr c s)))))"

definition endpoint_for :: "form \<Rightarrow> string \<Rightarrow> string \<Rightarrow> string" where
  "endpoint_for f provider region =
     or_else (typed f ''endpoint'')
       (if provider = ''wasabi'' then hint_text (map_of WASABI_REGIONS region) else [])"

definition new_storage_row :: "form \<Rightarrow> int \<Rightarrow> string \<Rightarrow> string \<Rightarrow> string \<Rightarrow> int \<Rightarrow> storage" where
  "new_storage_row f b provider region endpoint i =
     \<lparr>ds_id = i, ds_brand_id = b, ds_endpoint = endpoint, ds_region = region, ds_bucket = typed f ''bucket'',
      ds_access_key_sealed = [], ds_secret_sealed = [], so_name = typed f ''name'', so_provider = provider,
      so_path_prefix = typed_or f ''path_prefix'' ''archive'', so_status = UNTESTED, so_status_detail = None,
      so_last_probe_at = None, so_is_enabled = True\<rparr>"

definition name_taken :: "int \<Rightarrow> string \<Rightarrow> accounts_db \<Rightarrow> bool" where
  "name_taken b name d \<longleftrightarrow> (\<exists>s \<in> set (ad_storage d). ds_brand_id s = b \<and> so_name s = name)"

definition insert_destination :: "vault \<Rightarrow> draws \<Rightarrow> string \<times> string \<Rightarrow> form \<Rightarrow> (int \<Rightarrow> storage) \<Rightarrow> int act" where
  "insert_destination V w kw f row =
     and_then (insert_storage row) (\<lambda>i.
     and_then flush (\<lambda>_.
     and_then (seal_archive V w kw i id f ARCHIVE_ACCESS) (\<lambda>_.
     and_then (seal_archive V w kw i id f ARCHIVE_SECRET) (\<lambda>_.
     and_then flush (\<lambda>_. give i)))))"

definition add_destination :: "vault \<Rightarrow> draws \<Rightarrow> int \<Rightarrow> form \<Rightarrow> int act" where
  "add_destination V w b f =
     and_then (brand_keys_for V w b) (\<lambda>(org, kw).
     and_then (require_all f [(''name'', ''A name''), (''bucket'', ''The bucket''), (''access_key'', ''The access key''),
       (''secret_key'', ''The secret key'')]) (\<lambda>_.
       (let region = typed_or f ''region'' ''eu-central-1''; provider = typed_or f ''provider'' ''wasabi'';
            endpoint = endpoint_for f provider region
        in if endpoint = []
           then fail_with (AccountError (''no address is known for '' @ provider @ '' in '' @ region @ ''; enter one explicitly''))
           else
             and_then (asks (name_taken b (typed f ''name''))) (\<lambda>dup.
               if dup then fail_with (AccountError (og_name org @ '' already has storage called '' @ va_repr V (typed f ''name'')))
               else insert_destination V w kw f (new_storage_row f b provider region endpoint)))))"

definition set_region :: "form \<Rightarrow> string \<Rightarrow> storage \<Rightarrow> storage" where
  "set_region f region s =
     s\<lparr>ds_region := region,
       ds_endpoint := (if so_provider s = ''wasabi'' \<and> typed f ''endpoint'' = []
         then (case map_of WASABI_REGIONS region of Some e \<Rightarrow> e | None \<Rightarrow> ds_endpoint s) else ds_endpoint s)\<rparr>"

definition untested_storage :: "storage \<Rightarrow> storage" where "untested_storage s = s\<lparr>so_status := UNTESTED\<rparr>"

definition update_destination :: "vault \<Rightarrow> draws \<Rightarrow> int \<Rightarrow> int \<Rightarrow> form \<Rightarrow> string act" where
  "update_destination V w b i f =
     and_then (brand_keys_for V w b) (\<lambda>(_, kw).
     and_then (the_storage b i) (\<lambda>_.
     and_then (when_typed f ''name'' (\<lambda>v. change (set_storage i (\<lambda>s. s\<lparr>so_name := v\<rparr>)))) (\<lambda>_.
     and_then (when_typed f ''region'' (\<lambda>v. change (set_storage i (set_region f v)))) (\<lambda>_.
     and_then (when_typed f ''endpoint'' (\<lambda>v. change (set_storage i (\<lambda>s. s\<lparr>ds_endpoint := v\<rparr>)))) (\<lambda>_.
     and_then (when_typed f ''bucket'' (\<lambda>v. change (set_storage i (\<lambda>s. s\<lparr>ds_bucket := v\<rparr>)))) (\<lambda>_.
     and_then (change (set_storage i (\<lambda>s. s\<lparr>so_path_prefix := typed f ''path_prefix'', so_is_enabled := (map_of f ''is_enabled'' = Some ''true'')\<rparr>))) (\<lambda>_.
     and_then (seal_archive V w kw i untested_storage f ARCHIVE_ACCESS) (\<lambda>_.
     and_then (seal_archive V w kw i untested_storage f ARCHIVE_SECRET) (\<lambda>_.
     and_then flush (\<lambda>_.
     and_then (the_storage b i) (\<lambda>s. give (so_name s))))))))))))"

definition delete_destination :: "int \<Rightarrow> int \<Rightarrow> string \<Rightarrow> string act" where
  "delete_destination b i actor =
     and_then (the_storage b i) (\<lambda>s.
     and_then (change (set_storage i (\<lambda>s. s\<lparr>so_is_enabled := False, so_status := CONN_DISABLED,
       so_status_detail := Some (''stopped by '' @ actor)\<rparr>))) (\<lambda>_.
     and_then flush (\<lambda>_. give (so_name s))))"

text \<open>The row goes, and accounts of any organisation that named it name none (\<open>ON DELETE SET NULL\<close>).\<close>

definition drop_storage :: "int \<Rightarrow> accounts_db \<Rightarrow> accounts_db" where
  "drop_storage i d = d\<lparr>ad_storage := filter (\<lambda>s. ds_id s \<noteq> i) (ad_storage d),
     ad_accounts := map (\<lambda>a. if ac_destination_id a = Some i then a\<lparr>ac_destination_id := None\<rparr> else a) (ad_accounts d)\<rparr>"

definition archived_there :: "int \<Rightarrow> int \<Rightarrow> accounts_db \<Rightarrow> nat" where
  "archived_there b i d = length (filter (\<lambda>r. rec_brand_id r = b \<and> rec_destination_id r = Some i) (ad_recordings d))"

definition purge_destination :: "int \<Rightarrow> int \<Rightarrow> string act" where
  "purge_destination b i =
     and_then (the_storage b i) (\<lambda>s.
     and_then (asks (archived_there b i)) (\<lambda>depends.
       if depends \<noteq> 0
       then fail_with (AccountError (show_commas depends @ '' recording(s) are archived in '' @ so_name s
              @ '' and point at it; removing it would leave them with nowhere to play from. Use '' @ in_quotes ''stop using'' @ '' instead, which keeps them playable and sends no new copies there''))
       else and_then (change (drop_storage i)) (\<lambda>_. and_then flush (\<lambda>_. give (so_name s)))))"

definition check_of :: "string \<Rightarrow> transfer_error + 'a \<Rightarrow> ('a \<Rightarrow> string) \<Rightarrow> check" where
  "check_of name r detail =
     (case r of
        Inr x \<Rightarrow> \<lparr>ck_name = name, ck_ok = Some True, ck_detail = detail x, ck_hint = []\<rparr>
      | Inl e \<Rightarrow> \<lparr>ck_name = name, ck_ok = Some False, ck_detail = te_message e, ck_hint = hint_text (te_hint e)\<rparr>)"

definition probe_key :: "storage \<Rightarrow> string" where
  "probe_key s =
     (if so_path_prefix s = [] then [] else strip_chars (\<lambda>c. c = CHR ''/'') (so_path_prefix s) @ ''/'') @ ''.c2w-probe''"

text \<open>Writing, reading back and tidying up stop at the first failure, which goes down as one of writing.\<close>

definition write_checks :: "service \<Rightarrow> (bytes \<Rightarrow> string) \<Rightarrow> s3_client \<Rightarrow> string \<Rightarrow> history \<Rightarrow> history \<times> check list" where
  "write_checks svc sha c key h =
     (let failure = (\<lambda>e. check_of ''write a test object'' (Inl e :: transfer_error + unit) (\<lambda>_. []))
      in case put_bytes svc sha c key (utf8_encode ''c2w probe'') (Some ''text/plain'') [] h of
           (h1, Inl e) \<Rightarrow> (h1, [failure e])
         | (h1, Inr u) \<Rightarrow>
             (let written = check_of ''write a test object'' (Inr u) (\<lambda>_. key)
              in case head svc c key h1 of
                   (h2, Inl e) \<Rightarrow> (h2, [written, failure e])
                 | (h2, Inr m) \<Rightarrow>
                     (let read = check_of ''read it back'' (Inr m) (\<lambda>m. show_int (om_size m) @ '' bytes'')
                      in case delete svc c key h2 of
                           (h3, Inl e) \<Rightarrow> (h3, [written, read, failure e])
                         | (h3, Inr u') \<Rightarrow> (h3, [written, read, check_of ''tidy up after the test'' (Inr u') (\<lambda>_. [])]))))"

definition archive_checks :: "service \<Rightarrow> (bytes \<Rightarrow> string) \<Rightarrow> s3_client \<Rightarrow> storage \<Rightarrow> history \<Rightarrow> history \<times> check list" where
  "archive_checks svc sha c s h =
     (case probe svc c h of
        (h1, r) \<Rightarrow>
          (case write_checks svc sha c (probe_key s) h1 of
             (h2, cs) \<Rightarrow> (h2, check_of ''reach the bucket'' r (\<lambda>_. ds_bucket s @ '' in '' @ ds_region s) # cs)))"

definition note_storage_test :: "connection_status \<times> string option \<Rightarrow> dt \<Rightarrow> storage \<Rightarrow> storage" where
  "note_storage_test st now s = s\<lparr>so_status := fst st, so_status_detail := snd st, so_last_probe_at := Some now\<rparr>"

definition test_destination :: "vault \<Rightarrow> service \<Rightarrow> (bytes \<Rightarrow> string) \<Rightarrow> dt \<Rightarrow> int \<Rightarrow> int \<Rightarrow> probe_outcome act" where
  "test_destination V svc sha now b i =
     and_then (the_storage b i) (\<lambda>s.
     and_then (asks keys_in) (\<lambda>keys.
       case open_destination (unseal_with V) keys (destination_row.truncate s) of
         Inl e \<Rightarrow>
           and_then (change (set_storage i (note_storage_test (CONN_ERROR, Some (take 2000 (te_str e))) now))) (\<lambda>_.
           and_then flush (\<lambda>_. give \<lparr>po_ok = False, po_summary = te_str e,
             po_checks = [check_of ''credentials'' (Inl e :: transfer_error + unit) (\<lambda>_. [])]\<rparr>))
       | Inr c \<Rightarrow>
           (let cs = snd (archive_checks svc sha (enter c) s [])
            in and_then (change (set_storage i (note_storage_test (tested_status cs) now))) (\<lambda>_.
               and_then flush (\<lambda>_. give (outcome_of ''Reachable and writable'' cs))))))"

definition wasabi_region_choices :: "string list" where
  "wasabi_region_choices = sort_key (map code) (map fst WASABI_REGIONS)"

section \<open>The pages\<close>

text \<open>What a page can do, with the transaction and the memory of the process: the outcomes of tests and the
  credentials waiting to be shown once.\<close>

record console =
  co_accounts :: accounts_db
  co_auth :: auth_db
  co_probes :: "((string \<times> int) \<times> probe_outcome) list"
  co_revealed :: "((int \<times> int) \<times> string \<times> string) list"

record services =
  sv_source :: service
  sv_archive :: service
  sv_sha :: "bytes \<Rightarrow> string"
  sv_fuel :: nat

definition ACCOUNT_RETURNS :: "string list" where
  "ACCOUNT_RETURNS = [''/admin/connections'', ''/admin/storage'', ''/admin/settings?section=commpeak-calls'',
     ''/admin/settings?section=wasabi-storage'']"

datatype notice = Saved string | Failure string | Tested int

definition account_target :: "form \<Rightarrow> string \<Rightarrow> notice \<Rightarrow> string" where
  "account_target f standard n =
     (let wanted = typed f ''return_to''; base = (if wanted \<in> set ACCOUNT_RETURNS then wanted else standard);
          joiner = (if CHR ''?'' \<in> set base then ''&'' else ''?'')
      in case n of
           Saved s \<Rightarrow> base @ joiner @ ''saved='' @ quote_plus s
         | Failure s \<Rightarrow> base @ joiner @ ''error='' @ quote_plus s
         | Tested i \<Rightarrow> base @ joiner @ (if take 15 base = ''/admin/settings'' then ''probe_id'' else ''tested'') @ ''='' @ show_int i)"

text \<open>The end of a request: what succeeded and what was turned into a message is committed, unless the
  constraints refuse it; anything else undoes the rows.\<close>

definition finish :: "form \<Rightarrow> string \<Rightarrow> console \<Rightarrow> console \<times> (account_exc + string) \<Rightarrow> console \<times> (http_exc + string)" where
  "finish f page w res =
     (case res of
        (w', r) \<Rightarrow>
          (let undone = w'\<lparr>co_accounts := co_accounts w, co_auth := co_auth w\<rparr>;
               commit = (\<lambda>t. if constraints_ok (co_accounts w') then (w', Inr t)
                             else (undone, Inl (HttpIntegrityError ''a constraint of the database is violated'')));
               message = (\<lambda>m. commit (account_target f page (Failure m)))
           in case r of
                Inr t \<Rightarrow> commit t
              | Inl (AccountError m) \<Rightarrow> message m
              | Inl (CryptoFailed m) \<Rightarrow> message m
              | Inl (TransferFailed e) \<Rightarrow> message (te_str e)
              | Inl (Escaped e) \<Rightarrow> (undone, Inl (HttpRaised e))
              | Inl (NotUnique m) \<Rightarrow> (undone, Inl (HttpIntegrityError m))
              | Inl Unended \<Rightarrow> (undone, Inl (HttpRaised (RuntimeError ''the listing did not end'')))))"

text \<open>An operation on the rows within a page, and what the page does with its result.\<close>

definition on_rows :: "'a act \<Rightarrow> ('a \<Rightarrow> console \<Rightarrow> console \<times> (account_exc + string)) \<Rightarrow> console \<Rightarrow> console \<times> (account_exc + string)" where
  "on_rows m k w =
     (case m (co_accounts w) of
        (d, Inl e) \<Rightarrow> (w\<lparr>co_accounts := d\<rparr>, Inl e)
      | (d, Inr x) \<Rightarrow> k x (w\<lparr>co_accounts := d\<rparr>))"

definition land :: "string \<Rightarrow> console \<Rightarrow> console \<times> (account_exc + string)" where
  "land t w = (w, Inr t)"

definition with_id :: "form \<Rightarrow> string \<Rightarrow> (int \<Rightarrow> console \<Rightarrow> console \<times> (account_exc + string)) \<Rightarrow> console \<Rightarrow> console \<times> (account_exc + string)" where
  "with_id f k m w = (case form_id f k of Inl e \<Rightarrow> (w, Inl e) | Inr i \<Rightarrow> m i w)"

definition keep_probe :: "string \<times> int \<Rightarrow> probe_outcome \<Rightarrow> console \<Rightarrow> console" where
  "keep_probe k po w = w\<lparr>co_probes := AList.update k po (co_probes w)\<rparr>"

definition revealed_to :: "request \<Rightarrow> user \<Rightarrow> int \<Rightarrow> int \<Rightarrow> string \<times> string \<times> string \<Rightarrow> console \<Rightarrow> console" where
  "revealed_to rq user b i nts w =
     w\<lparr>co_revealed := AList.update (us_id user, i) (snd nts) (co_revealed w),
       co_auth := record_admin_event rq user CREDENTIALS_REVEALED (Some b) None ''SUCCESS''
         [(''account'', JStr (fst nts)), (''connection_id'', JInt i)] (co_auth w)\<rparr>"

definition connections_action :: "vault \<Rightarrow> services \<Rightarrow> draws \<Rightarrow> request \<Rightarrow> user \<Rightarrow> int \<Rightarrow> form \<Rightarrow> console \<Rightarrow> console \<times> (account_exc + string)" where
  "connections_action V sv w rq user b f =
     (let page = ''/admin/connections''; to_id = with_id f ''connection_id'';
          action = or_else (case map_of f ''action'' of Some s \<Rightarrow> s | None \<Rightarrow> []) ''add''
      in if action = ''add''
         then on_rows (and_then (add_connection V w b f) (the_account b)) (\<lambda>a. land (account_target f page (Saved (ac_name a))))
         else if action = ''update''
         then to_id (\<lambda>i. on_rows (update_connection V w b i f) (\<lambda>name. land (account_target f page (Saved name))))
         else if action = ''test''
         then to_id (\<lambda>i. on_rows (test_connection V (sv_source sv) (sv_fuel sv) (dw_now w) b i)
                (\<lambda>po c. land (account_target f page (Tested i)) (keep_probe (''connection'', i) po c)))
         else if action = ''reveal''
         then to_id (\<lambda>i. on_rows (reveal_credentials V b i)
                (\<lambda>nts c. land (account_target f page (Tested i)) (revealed_to rq user b i nts c)))
         else if action = ''stop''
         then to_id (\<lambda>i. on_rows (delete_connection b i (us_email user)) (\<lambda>name. land (account_target f page (Saved (name @ '' stopped'')))))
         else if action = ''delete''
         then to_id (\<lambda>i. on_rows (purge_connection b i) (\<lambda>name. land (account_target f page (Saved (name @ '' deleted'')))))
         else land page)"

definition may_manage :: "user \<Rightarrow> int \<Rightarrow> console \<Rightarrow> bool" where
  "may_manage user b w \<longleftrightarrow> STORAGE_MANAGE \<in> permissions_for (effective_role user (Some b) (co_auth w))"

definition admin_connections_save :: "vault \<Rightarrow> services \<Rightarrow> draws \<Rightarrow> request \<Rightarrow> user \<Rightarrow> int \<Rightarrow> form \<Rightarrow> console \<Rightarrow> console \<times> (http_exc + string)" where
  "admin_connections_save V sv w rq user b f c =
     (if \<not> may_manage user b c then (c, Inl (HTTPException 403 ''your role may not manage accounts''))
      else finish f ''/admin/connections'' c (connections_action V sv w rq user b f c))"

definition storage_action :: "vault \<Rightarrow> services \<Rightarrow> draws \<Rightarrow> user \<Rightarrow> int \<Rightarrow> form \<Rightarrow> console \<Rightarrow> console \<times> (account_exc + string)" where
  "storage_action V sv w user b f =
     (let page = ''/admin/storage''; to_id = with_id f ''destination_id'';
          action = or_else (case map_of f ''action'' of Some s \<Rightarrow> s | None \<Rightarrow> []) ''add''
      in if action = ''add''
         then on_rows (and_then (add_destination V w b f) (the_storage b)) (\<lambda>s. land (account_target f page (Saved (so_name s))))
         else if action = ''update''
         then to_id (\<lambda>i. on_rows (update_destination V w b i f) (\<lambda>name. land (account_target f page (Saved name))))
         else if action = ''test''
         then to_id (\<lambda>i. on_rows (test_destination V (sv_archive sv) (sv_sha sv) (dw_now w) b i)
                (\<lambda>po c. land (account_target f page (Tested i)) (keep_probe (''destination'', i) po c)))
         else if action = ''stop''
         then to_id (\<lambda>i. on_rows (delete_destination b i (us_email user)) (\<lambda>name. land (account_target f page (Saved (name @ '' stopped'')))))
         else if action = ''delete''
         then to_id (\<lambda>i. on_rows (purge_destination b i) (\<lambda>name. land (account_target f page (Saved (name @ '' deleted'')))))
         else land page)"

definition admin_storage_save :: "vault \<Rightarrow> services \<Rightarrow> draws \<Rightarrow> user \<Rightarrow> int \<Rightarrow> form \<Rightarrow> console \<Rightarrow> console \<times> (http_exc + string)" where
  "admin_storage_save V sv w user b f c =
     (if \<not> may_manage user b c then (c, Inl (HTTPException 403 ''your role may not manage storage''))
      else finish f ''/admin/storage'' c (storage_action V sv w user b f c))"

text \<open>The page that shows the outcome of a test and the revealed pair takes both out of the memory.\<close>

definition connections_shown :: "user \<Rightarrow> int option \<Rightarrow> console \<Rightarrow> console \<times> probe_outcome option \<times> (string \<times> string) option" where
  "connections_shown user tested c =
     (case tested of
        None \<Rightarrow> (c, None, None)
      | Some i \<Rightarrow>
          if i = 0 then (c, None, None)
          else (c\<lparr>co_probes := AList.delete (''connection'', i) (co_probes c),
                  co_revealed := AList.delete (us_id user, i) (co_revealed c)\<rparr>,
                map_of (co_probes c) (''connection'', i), map_of (co_revealed c) (us_id user, i)))"

section \<open>A free slug is found\<close>

lemma numbered_inj: "numbered slug m = numbered slug n \<longleftrightarrow> m = n"
proof
  assume "numbered slug m = numbered slug n"
  then have "py_int (show_nat m) = py_int (show_nat n)" by (simp add: numbered_def)
  then show "m = n" by simp
qed simp

lemma next_slug_taken:
  "next_slug fuel taken slug n c \<in> set taken \<Longrightarrow>
     c \<in> set taken \<and> (\<forall>k < fuel. numbered slug (n + Suc k) \<in> set taken)"
proof (induction fuel arbitrary: n c)
  case (Suc fuel)
  then have c: "c \<in> set taken" by (auto split: if_splits)
  with Suc.prems have "next_slug fuel taken slug (Suc n) (numbered slug (Suc n)) \<in> set taken" by simp
  from Suc.IH [OF this] have ih: "numbered slug (Suc n) \<in> set taken"
    "\<forall>k < fuel. numbered slug (Suc n + Suc k) \<in> set taken" by auto
  have "numbered slug (n + Suc k) \<in> set taken" if "k < Suc fuel" for k
    using ih that by (cases k) auto
  with c show ?case by blast
qed simp

lemma numbered_not_plain: "numbered slug n \<noteq> slug"
  by (simp add: numbered_def)

lemma free_slug_is_free: "free_slug taken slug \<notin> set taken"
proof
  assume "free_slug taken slug \<in> set taken"
  from next_slug_taken [OF this [unfolded free_slug_def]]
  have all: "slug \<in> set taken" "\<forall>k < length taken. numbered slug (1 + Suc k) \<in> set taken" by auto
  let ?new = "(\<lambda>k. numbered slug (1 + Suc k)) ` {..< length taken}"
  have "card (insert slug ?new) = Suc (length taken)"
    using numbered_not_plain [of slug] by (subst card_insert_disjoint) (auto simp: card_image inj_on_def numbered_inj, metis)
  moreover have "card (insert slug ?new) \<le> card (set taken)" using all by (intro card_mono) auto
  ultimately show False using card_length [of taken] by simp
qed

section \<open>Sequences that keep an invariant\<close>

text \<open>\<open>I\<close> holds after \<open>m\<close> whatever happens, and \<open>Q\<close> of its result when there is one.\<close>

definition sure :: "(accounts_db \<Rightarrow> bool) \<Rightarrow> (accounts_db \<Rightarrow> bool) \<Rightarrow> 'a act \<Rightarrow> ('a \<Rightarrow> accounts_db \<Rightarrow> bool) \<Rightarrow> bool" where
  "sure I P m Q \<longleftrightarrow> (\<forall>d. I d \<longrightarrow> P d \<longrightarrow> (case m d of (d', Inl _) \<Rightarrow> I d' | (d', Inr x) \<Rightarrow> I d' \<and> Q x d'))"

lemma sure_then: "sure I P m R \<Longrightarrow> (\<And>x. sure I (R x) (f x) Q) \<Longrightarrow> sure I P (and_then m f) Q"
  unfolding sure_def and_then_def
proof (intro allI impI)
  fix d assume m: "\<forall>d. I d \<longrightarrow> P d \<longrightarrow> (case m d of (d', Inl _) \<Rightarrow> I d' | (d', Inr x) \<Rightarrow> I d' \<and> R x d')"
    and f: "\<And>x. \<forall>d. I d \<longrightarrow> R x d \<longrightarrow> (case f x d of (d', Inl _) \<Rightarrow> I d' | (d', Inr y) \<Rightarrow> I d' \<and> Q y d')"
    and d: "I d" "P d"
  show "case (case m d of (d', Inl e) \<Rightarrow> (d', Inl e) | (d', Inr x) \<Rightarrow> f x d') of (d', Inl _) \<Rightarrow> I d' | (d', Inr y) \<Rightarrow> I d' \<and> Q y d'"
  proof (cases "m d")
    case (Pair d' r)
    show ?thesis
    proof (cases r)
      case (Inl e)
      then show ?thesis using m [rule_format, OF d] Pair by simp
    next
      case (Inr x)
      then have "I d'" "R x d'" using m [rule_format, OF d] Pair by simp_all
      then show ?thesis using f [of x, rule_format, of d'] Pair Inr by simp
    qed
  qed
qed

lemma sure_give: "(\<And>d. I d \<Longrightarrow> P d \<Longrightarrow> Q x d) \<Longrightarrow> sure I P (give x) Q"
  by (simp add: sure_def give_def)

lemma sure_fail: "sure I P (fail_with e) Q"
  by (simp add: sure_def fail_with_def)

lemma sure_asks: "(\<And>d. I d \<Longrightarrow> P d \<Longrightarrow> Q (f d) d) \<Longrightarrow> sure I P (asks f) Q"
  by (simp add: sure_def asks_def)

lemma sure_lifted: "(\<And>d x. I d \<Longrightarrow> P d \<Longrightarrow> r = Inr x \<Longrightarrow> Q x d) \<Longrightarrow> sure I P (lifted r) Q"
  by (auto simp: sure_def lifted_def split: sum.split)

lemma sure_change: "(\<And>d. I d \<Longrightarrow> P d \<Longrightarrow> I (g d) \<and> Q () (g d)) \<Longrightarrow> sure I P (change g) Q"
  by (simp add: sure_def change_def)

lemma sure_flush: "sure I P flush (\<lambda>_. P)"
  by (simp add: sure_def flush_def)

lemma sure_weaken: "sure I P m Q \<Longrightarrow> (\<And>d. P' d \<Longrightarrow> P d) \<Longrightarrow> (\<And>x d. Q x d \<Longrightarrow> Q' x d) \<Longrightarrow> sure I P' m Q'"
  unfolding sure_def
proof (intro allI impI)
  fix d assume m: "\<forall>d. I d \<longrightarrow> P d \<longrightarrow> (case m d of (d', Inl _) \<Rightarrow> I d' | (d', Inr x) \<Rightarrow> I d' \<and> Q x d')"
    and w: "\<And>d. P' d \<Longrightarrow> P d" "\<And>x d. Q x d \<Longrightarrow> Q' x d" and d: "I d" "P' d"
  show "case m d of (d', Inl _) \<Rightarrow> I d' | (d', Inr x) \<Rightarrow> I d' \<and> Q' x d'"
    using m [rule_format, OF d(1) w(1) [OF d(2)]] w(2) by (auto split: prod.splits sum.splits)
qed

lemma sureD: "sure I P m Q \<Longrightarrow> I d \<Longrightarrow> P d \<Longrightarrow> I (fst (m d)) \<and> (\<forall>x. snd (m d) = Inr x \<longrightarrow> Q x (fst (m d)))"
  unfolding sure_def by (cases "m d"; cases "snd (m d)") (drule spec [of _ d], simp)+

lemma sure_require: "sure I P (require_text f k field) (\<lambda>_. P)"
  by (auto simp: require_text_def Let_def intro: sure_fail sure_give)

lemma sure_require_all: "sure I P (require_all f ks) (\<lambda>_. P)"
  by (induction f ks rule: require_all.induct) (auto intro!: sure_give sure_then sure_require)

lemma sure_when: "(\<And>v. sure I P (m v) (\<lambda>_. P)) \<Longrightarrow> sure I P (when_typed f k m) (\<lambda>_. P)"
  by (auto simp: when_typed_def Let_def intro: sure_give)

section \<open>Every credential opens\<close>

definition keyed :: "accounts_db \<Rightarrow> int \<Rightarrow> (string \<times> string) option" where
  "keyed d b = Option.bind (organisation_of b d) key_pair"

definition opens_as :: "vault \<Rightarrow> string \<times> string \<Rightarrow> string \<Rightarrow> string \<Rightarrow> string \<Rightarrow> bool" where
  "opens_as V kw aad v p \<longleftrightarrow> open_sealed (va_aead V) (va_master V) v (fst kw) (snd kw) aad = Inr p"

definition credential_ok :: "vault \<Rightarrow> accounts_db \<Rightarrow> int \<Rightarrow> string \<Rightarrow> string \<Rightarrow> bool" where
  "credential_ok V d b aad v \<longleftrightarrow> v = [] \<or> (\<exists>kw p. keyed d b = Some kw \<and> opens_as V kw aad v p)"

fun held :: "credential \<Rightarrow> account \<Rightarrow> string" where
  "held ACCESS a = cn_s3_access_key_sealed a"
| "held SECRET a = cn_s3_secret_sealed a"
| "held CDR_KEY a = hint_text (cn_cdr_api_key_sealed a)"

fun archive_held :: "archive_credential \<Rightarrow> storage \<Rightarrow> string" where
  "archive_held ARCHIVE_ACCESS s = ds_access_key_sealed s"
| "archive_held ARCHIVE_SECRET s = ds_secret_sealed s"

definition account_ok :: "vault \<Rightarrow> accounts_db \<Rightarrow> account \<Rightarrow> bool" where
  "account_ok V d a \<longleftrightarrow> (\<forall>cr. credential_ok V d (cn_brand_id a) (field_aad ''connection'' (cn_id a) (credential_field cr)) (held cr a))"

definition storage_ok :: "vault \<Rightarrow> accounts_db \<Rightarrow> storage \<Rightarrow> bool" where
  "storage_ok V d s \<longleftrightarrow> (\<forall>cr. credential_ok V d (ds_brand_id s) (field_aad ''destination'' (ds_id s) (archive_field cr)) (archive_held cr s))"

text \<open>A data key that this master key unwraps, with an identifier of the length the envelope has.\<close>

definition key_sound :: "vault \<Rightarrow> string \<times> string \<Rightarrow> bool" where
  "key_sound V kw \<longleftrightarrow> (\<exists>dk kid. unwrap_data_key (va_aead V) (va_master V) (fst kw) (snd kw) = Inr dk \<and> kid_of (fst kw) = Some kid \<and>
     length kid = KEY_ID_LEN)"

definition vault_inv :: "vault \<Rightarrow> accounts_db \<Rightarrow> bool" where
  "vault_inv V d \<longleftrightarrow>
     distinct (map cn_id (ad_accounts d)) \<and> (\<forall>a \<in> set (ad_accounts d). cn_id a < ad_next_id d \<and> account_ok V d a) \<and>
     distinct (map ds_id (ad_storage d)) \<and> (\<forall>s \<in> set (ad_storage d). ds_id s < ad_next_id d \<and> storage_ok V d s) \<and>
     (\<forall>b kw. keyed d b = Some kw \<longrightarrow> key_sound V kw)"

definition draws_fit :: "draws \<Rightarrow> bool" where
  "draws_fit w \<longleftrightarrow> (\<forall>a. length (dw_nonce w a) = NONCE_LEN) \<and> length (dw_kid w) = KEY_ID_LEN \<and>
     length (dw_data_key w) = KEY_LEN \<and> length (dw_key_nonce w) = NONCE_LEN"

lemma generated_key_sound:
  assumes "aead_ok A" "length kid = KEY_ID_LEN" "length n = NONCE_LEN"
    and "generate_data_key A m kid dk n = Inr kw"
  shows "unwrap_data_key A m (fst kw) (snd kw) = Inr dk \<and> kid_of (fst kw) = Some kid \<and> fst kw \<noteq> [] \<and> snd kw \<noteq> []"
proof -
  obtain mk where mk: "load_master_key m = Inr mk" and k: "fst kw = hex_encode kid"
    and s: "seal_with A n mk dk (utf8_encode (hex_encode kid)) [] = Inr (snd kw)"
    using assms(4) by (auto simp: generate_data_key_def Let_def res_bind_Inr_iff)
  have "kid_of [] = Some (replicate KEY_ID_LEN 0)" by (simp add: kid_of_def)
  from seal_with_open [OF assms(1,3) this _ s] have "open_with A mk (snd kw) (utf8_encode (hex_encode kid)) = Inr dk" by simp
  moreover have "hex_encode kid \<noteq> []" using assms(2) hex_encode_length [of kid] by (metis KEY_ID_LEN_def mult_is_0 numeral_eq_iff list.size(3) zero_neq_numeral)
  ultimately show ?thesis using mk k kid_hex [OF assms(2)] seal_with_nonempty [OF s] by (simp add: unwrap_data_key_def)
qed

lemma sealed_opens:
  assumes "aead_ok (va_aead V)" "key_sound V kw" "draws_fit w"
    and "seal (va_aead V) (va_master V) (dw_nonce w aad) v (fst kw) (snd kw) aad = Inr c"
  shows "opens_as V kw aad c v"
proof (cases "v = []")
  case True
  then show ?thesis using assms(4) by (simp add: seal_def opens_as_def open_sealed_def)
next
  case False
  obtain dk kid where u: "unwrap_data_key (va_aead V) (va_master V) (fst kw) (snd kw) = Inr dk"
    and kid: "kid_of (fst kw) = Some kid" "length kid = KEY_ID_LEN"
    using assms(2) by (auto simp: key_sound_def)
  with False assms(4) have s: "seal_with (va_aead V) (dw_nonce w aad) dk (utf8_encode v) (utf8_encode aad) (fst kw) = Inr c"
    by (simp add: seal_def)
  have "length (dw_nonce w aad) = NONCE_LEN" using assms(3) by (simp add: draws_fit_def)
  from seal_with_open [OF assms(1) this kid s] seal_with_nonempty [OF s] u show ?thesis
    by (simp add: opens_as_def open_sealed_def text_of_def utf8_roundtrip)
qed


section \<open>What the operations keep\<close>

definition belongs :: "int \<Rightarrow> int \<Rightarrow> accounts_db \<Rightarrow> bool" where
  "belongs b i d \<longleftrightarrow> (\<forall>a \<in> set (ad_accounts d). cn_id a = i \<longrightarrow> cn_brand_id a = b)"

definition archive_belongs :: "int \<Rightarrow> int \<Rightarrow> accounts_db \<Rightarrow> bool" where
  "archive_belongs b i d \<longleftrightarrow> (\<forall>s \<in> set (ad_storage d). ds_id s = i \<longrightarrow> ds_brand_id s = b)"

lemma same_id: "distinct (map f xs) \<Longrightarrow> x \<in> set xs \<Longrightarrow> y \<in> set xs \<Longrightarrow> f x = f y \<Longrightarrow> x = y"
  by (auto simp: distinct_map inj_on_def)

lemma account_of_belongs: "vault_inv V d \<Longrightarrow> account_of b i d = Some a \<Longrightarrow> belongs b i d"
  using same_id [of cn_id "ad_accounts d"] unfolding vault_inv_def account_of_def belongs_def
  by (metis (mono_tags, lifting) find_row_Some)

lemma storage_of_belongs: "vault_inv V d \<Longrightarrow> storage_of b i d = Some s \<Longrightarrow> archive_belongs b i d"
  using same_id [of ds_id "ad_storage d"] unfolding vault_inv_def storage_of_def archive_belongs_def
  by (metis (mono_tags, lifting) find_row_Some)

lemma keyed_cong: "ad_organisations d' = ad_organisations d \<Longrightarrow> keyed d' = keyed d"
  by (rule ext) (simp add: keyed_def organisation_of_def)

lemma ok_cong: "ad_organisations d' = ad_organisations d \<Longrightarrow> account_ok V d' = account_ok V d \<and> storage_ok V d' = storage_ok V d"
  by (auto simp: fun_eq_iff account_ok_def storage_ok_def credential_ok_def dest!: keyed_cong)

lemma ids_updated: "(\<And>a. f (g a) = f a) \<Longrightarrow> map f (map (\<lambda>a. if f a = i then g a else a) xs) = map f xs"
  by simp

lemma set_account_inv:
  assumes "vault_inv V d" and "\<And>a. a \<in> set (ad_accounts d) \<Longrightarrow> cn_id a = i \<Longrightarrow> account_ok V d a \<Longrightarrow> account_ok V d (g a)"
    and "\<And>a. cn_id (g a) = cn_id a"
  shows "vault_inv V (set_account i g d)"
proof -
  let ?d = "set_account i g d"
  have o: "ad_organisations ?d = ad_organisations d" by (simp add: set_account_def)
  have ids: "map cn_id (ad_accounts ?d) = map cn_id (ad_accounts d)"
    using assms(3) by (simp add: set_account_def)
  show ?thesis
    using assms unfolding vault_inv_def keyed_cong [OF o] ok_cong [OF o, THEN conjunct1] ok_cong [OF o, THEN conjunct2] ids
    by (auto simp: set_account_def)
qed

lemma set_storage_inv:
  assumes "vault_inv V d" and "\<And>s. s \<in> set (ad_storage d) \<Longrightarrow> ds_id s = i \<Longrightarrow> storage_ok V d s \<Longrightarrow> storage_ok V d (g s)"
    and "\<And>s. ds_id (g s) = ds_id s"
  shows "vault_inv V (set_storage i g d)"
proof -
  let ?d = "set_storage i g d"
  have o: "ad_organisations ?d = ad_organisations d" by (simp add: set_storage_def)
  have ids: "map ds_id (ad_storage ?d) = map ds_id (ad_storage d)"
    using assms(3) by (simp add: set_storage_def)
  show ?thesis
    using assms unfolding vault_inv_def keyed_cong [OF o] ok_cong [OF o, THEN conjunct1] ok_cong [OF o, THEN conjunct2] ids
    by (auto simp: set_storage_def)
qed


text \<open>What an update may not touch: the row's identity and its credentials.\<close>

definition spares :: "(account \<Rightarrow> account) \<Rightarrow> bool" where
  "spares g \<longleftrightarrow> (\<forall>a. cn_id (g a) = cn_id a \<and> cn_brand_id (g a) = cn_brand_id a \<and> (\<forall>cr. held cr (g a) = held cr a))"

definition spares_archive :: "(storage \<Rightarrow> storage) \<Rightarrow> bool" where
  "spares_archive g \<longleftrightarrow> (\<forall>s. ds_id (g s) = ds_id s \<and> ds_brand_id (g s) = ds_brand_id s \<and> (\<forall>cr. archive_held cr (g s) = archive_held cr s))"

lemma all_credentials: "(\<forall>cr. P cr) \<longleftrightarrow> P ACCESS \<and> P SECRET \<and> P CDR_KEY"
  by (metis credential.exhaust)

lemma all_archive_credentials: "(\<forall>cr. P cr) \<longleftrightarrow> P ARCHIVE_ACCESS \<and> P ARCHIVE_SECRET"
  by (metis archive_credential.exhaust)

lemma spares_simple [simp]:
  "spares (\<lambda>a. a\<lparr>ac_name := v\<rparr>)" "spares (\<lambda>a. a\<lparr>ac_tenant_id := t\<rparr>)" "spares (\<lambda>a. a\<lparr>cn_s3_endpoint := v\<rparr>)"
  "spares (\<lambda>a. a\<lparr>ac_cdr_api_base := x, ac_cdr_api_user := y\<rparr>)" "spares (\<lambda>a. a\<lparr>ac_destination_id := dest, ac_is_enabled := e\<rparr>)"
  "spares (\<lambda>a. a\<lparr>ac_is_enabled := e, ac_status := st, ac_status_detail := det\<rparr>)" "spares untested" "spares id" "spares (note_test st' now)"
  by (simp_all add: spares_def untested_def note_test_def all_credentials)

lemma spares_archive_simple [simp]:
  "spares_archive (\<lambda>s. s\<lparr>so_name := v\<rparr>)" "spares_archive (set_region f v)" "spares_archive (\<lambda>s. s\<lparr>ds_endpoint := v\<rparr>)"
  "spares_archive (\<lambda>s. s\<lparr>ds_bucket := v\<rparr>)" "spares_archive (\<lambda>s. s\<lparr>so_path_prefix := v, so_is_enabled := e\<rparr>)"
  "spares_archive (\<lambda>s. s\<lparr>so_is_enabled := e, so_status := st, so_status_detail := det\<rparr>)" "spares_archive untested_storage"
  "spares_archive id" "spares_archive (note_storage_test st' now)"
  by (simp_all add: spares_archive_def untested_storage_def note_storage_test_def set_region_def all_archive_credentials)

text \<open>The frame of the operations that follow: the organisation's key and the row's owner.\<close>

definition frame :: "int \<Rightarrow> string \<times> string \<Rightarrow> int \<Rightarrow> accounts_db \<Rightarrow> bool" where
  "frame b kw i d \<longleftrightarrow> keyed d b = Some kw \<and> belongs b i d"

definition archive_frame :: "int \<Rightarrow> string \<times> string \<Rightarrow> int \<Rightarrow> accounts_db \<Rightarrow> bool" where
  "archive_frame b kw i d \<longleftrightarrow> keyed d b = Some kw \<and> archive_belongs b i d"

lemma keyed_set_account [simp]: "keyed (set_account i g d) = keyed d" "keyed (set_storage i' g' d) = keyed d"
  by (rule keyed_cong, simp add: set_account_def set_storage_def)+

lemma spares_ok: "spares g \<Longrightarrow> account_ok V d (g a) = account_ok V d a"
  by (simp add: spares_def account_ok_def)

lemma spares_archive_ok: "spares_archive g \<Longrightarrow> storage_ok V d (g a) = storage_ok V d a"
  by (simp add: spares_archive_def storage_ok_def)

lemma sparesD: "spares g \<Longrightarrow> cn_id (g a) = cn_id a" "spares g \<Longrightarrow> cn_brand_id (g a) = cn_brand_id a"
    "spares g \<Longrightarrow> held cr (g a) = held cr a"
  by (simp_all add: spares_def)

lemma spares_archiveD: "spares_archive g \<Longrightarrow> ds_id (g s) = ds_id s" "spares_archive g \<Longrightarrow> ds_brand_id (g s) = ds_brand_id s"
  by (simp_all add: spares_archive_def)

lemma set_account_rows: "(\<forall>a \<in> set (ad_accounts (set_account i g d)). P a) \<longleftrightarrow> (\<forall>a \<in> set (ad_accounts d). P (if cn_id a = i then g a else a))"
  by (auto simp: set_account_def)

lemma set_storage_rows: "(\<forall>s \<in> set (ad_storage (set_storage i g d)). P s) \<longleftrightarrow> (\<forall>s \<in> set (ad_storage d). P (if ds_id s = i then g s else s))"
  by (auto simp: set_storage_def)

lemma belongs_set: "spares g \<Longrightarrow> belongs b i (set_account j g d) = belongs b i d"
  unfolding belongs_def set_account_rows by (auto simp: sparesD)

lemma archive_belongs_set: "spares_archive g \<Longrightarrow> archive_belongs b i (set_storage j g d) = archive_belongs b i d"
  unfolding archive_belongs_def set_storage_rows by (auto simp: spares_archiveD)

lemma sure_set_account: "spares g \<Longrightarrow> sure (vault_inv V) (frame b kw i) (change (set_account j g)) (\<lambda>_. frame b kw i)"
proof (rule sure_change)
  fix d assume g: "spares g" and I: "vault_inv V d" and F: "frame b kw i d"
  have "vault_inv V (set_account j g d)"
  proof (rule set_account_inv [OF I])
    show "account_ok V d (g a)" if "account_ok V d a" for a using that by (simp only: spares_ok [OF g])
    show "cn_id (g a) = cn_id a" for a by (rule sparesD(1) [OF g])
  qed
  with F show "vault_inv V (set_account j g d) \<and> frame b kw i (set_account j g d)"
    by (simp add: frame_def belongs_set [OF g])
qed

lemma sure_set_storage:
  "spares_archive g \<Longrightarrow> sure (vault_inv V) (archive_frame b kw i) (change (set_storage j g)) (\<lambda>_. archive_frame b kw i)"
proof (rule sure_change)
  fix d assume g: "spares_archive g" and I: "vault_inv V d" and F: "archive_frame b kw i d"
  have "vault_inv V (set_storage j g d)"
  proof (rule set_storage_inv [OF I])
    show "storage_ok V d (g s)" if "storage_ok V d s" for s using that by (simp only: spares_archive_ok [OF g])
    show "ds_id (g s) = ds_id s" for s by (rule spares_archiveD(1) [OF g])
  qed
  with F show "vault_inv V (set_storage j g d) \<and> archive_frame b kw i (set_storage j g d)"
    by (simp add: archive_frame_def archive_belongs_set [OF g])
qed

lemma held_store: "held cr' (store_credential cr c a) = (if cr' = cr then c else held cr' a)"
  by (cases cr; cases cr') (simp_all add: hint_text_def)

lemma archive_held_store: "archive_held cr' (store_archive_credential cr c s) = (if cr' = cr then c else archive_held cr' s)"
  by (cases cr; cases cr') simp_all

lemma stored_ok:
  assumes "keyed d (cn_brand_id a) = Some kw" "opens_as V kw (field_aad ''connection'' (cn_id a) (credential_field cr)) c v" "account_ok V d a"
  shows "account_ok V d (store_credential cr c a)"
proof -
  have "credential_ok V d (cn_brand_id a) (field_aad ''connection'' (cn_id a) (credential_field cr')) (held cr' (store_credential cr c a))" for cr'
    using assms unfolding held_store account_ok_def credential_ok_def by (cases "cr' = cr") auto
  then show ?thesis by (cases cr) (simp_all add: account_ok_def)
qed

lemma archive_stored_ok:
  assumes "keyed d (ds_brand_id s) = Some kw" "opens_as V kw (field_aad ''destination'' (ds_id s) (archive_field cr)) c v" "storage_ok V d s"
  shows "storage_ok V d (store_archive_credential cr c s)"
proof -
  have "credential_ok V d (ds_brand_id s) (field_aad ''destination'' (ds_id s) (archive_field cr')) (archive_held cr' (store_archive_credential cr c s))" for cr'
    using assms unfolding archive_held_store storage_ok_def credential_ok_def by (cases "cr' = cr") auto
  then show ?thesis by (cases cr) (simp_all add: storage_ok_def)
qed

lemma inv_key: "vault_inv V d \<Longrightarrow> keyed d b = Some kw \<Longrightarrow> key_sound V kw"
  by (cases kw) (simp add: vault_inv_def)

lemma crypto_result_Inr: "crypto_result r = Inr x \<longleftrightarrow> r = Inr x"
  by (auto simp: crypto_result_def split: sum.split py_exc.split)

lemma sealed_value_opens:
  "aead_ok (va_aead V) \<Longrightarrow> draws_fit w \<Longrightarrow>
     sure (vault_inv V) (frame b kw i) (sealed_value V w kw v aad) (\<lambda>c d. frame b kw i d \<and> opens_as V kw aad c v)"
  unfolding sealed_value_def
  by (rule sure_lifted) (auto simp: crypto_result_Inr frame_def intro: sealed_opens inv_key)

lemma archive_sealed_value_opens:
  "aead_ok (va_aead V) \<Longrightarrow> draws_fit w \<Longrightarrow>
     sure (vault_inv V) (archive_frame b kw i) (sealed_value V w kw v aad) (\<lambda>c d. archive_frame b kw i d \<and> opens_as V kw aad c v)"
  unfolding sealed_value_def
  by (rule sure_lifted) (auto simp: crypto_result_Inr archive_frame_def intro: sealed_opens inv_key)

lemma store_spares_id: "cn_id (store_credential cr c a) = cn_id a" "cn_brand_id (store_credential cr c a) = cn_brand_id a"
  by (cases cr; simp)+

lemma store_archive_spares_id: "ds_id (store_archive_credential cr c s) = ds_id s" "ds_brand_id (store_archive_credential cr c s) = ds_brand_id s"
  by (cases cr; simp)+

lemma sure_seal_into:
  assumes "aead_ok (va_aead V)" "draws_fit w" "spares g"
  shows "sure (vault_inv V) (frame b kw i) (seal_into V w kw i g v cr) (\<lambda>_. frame b kw i)"
  unfolding seal_into_def
proof (rule sure_then [OF sealed_value_opens [OF assms(1,2)]], rule sure_change)
  fix c d assume I: "vault_inv V d" and F: "frame b kw i d \<and> opens_as V kw (field_aad ''connection'' i (credential_field cr)) c v"
  let ?g = "\<lambda>a. g (store_credential cr c a)"
  have "account_ok V d (?g a)" if "a \<in> set (ad_accounts d)" "cn_id a = i" "account_ok V d a" for a
  proof -
    from F that(1,2) have "cn_brand_id a = b" by (simp add: frame_def belongs_def)
    with F that have "account_ok V d (store_credential cr c a)" by (intro stored_ok [of d a kw V cr c v]) (simp_all add: frame_def)
    then show ?thesis by (simp only: spares_ok [OF assms(3)])
  qed
  moreover have "cn_id (?g a) = cn_id a" for a by (simp add: sparesD [OF assms(3)] store_spares_id)
  ultimately have "vault_inv V (set_account i ?g d)" by (intro set_account_inv [OF I])
  moreover have "belongs b i (set_account i ?g d)"
    using F unfolding belongs_def set_account_rows frame_def by (simp add: sparesD [OF assms(3)] store_spares_id)
  ultimately show "vault_inv V (set_account i ?g d) \<and> frame b kw i (set_account i ?g d)"
    using F by (simp add: frame_def)
qed

lemma sure_seal_archive:
  assumes "aead_ok (va_aead V)" "draws_fit w" "spares_archive g"
  shows "sure (vault_inv V) (archive_frame b kw i) (seal_archive V w kw i g f cr) (\<lambda>_. archive_frame b kw i)"
proof (cases "typed f (archive_field cr) = []")
  case True
  then show ?thesis by (simp add: seal_archive_def sure_give)
next
  case False
  show ?thesis unfolding seal_archive_def Let_def if_not_P [OF False]
  proof (rule sure_then [OF archive_sealed_value_opens [OF assms(1,2)]], rule sure_change)
    fix c d assume I: "vault_inv V d" and F: "archive_frame b kw i d \<and> opens_as V kw (field_aad ''destination'' i (archive_field cr)) c (typed f (archive_field cr))"
    let ?g = "\<lambda>s. g (store_archive_credential cr c s)"
    have "storage_ok V d (?g s)" if "s \<in> set (ad_storage d)" "ds_id s = i" "storage_ok V d s" for s
    proof -
      from F that(1,2) have "ds_brand_id s = b" by (simp add: archive_frame_def archive_belongs_def)
      with F that have "storage_ok V d (store_archive_credential cr c s)"
        by (intro archive_stored_ok [of d s kw V cr c "typed f (archive_field cr)"]) (simp_all add: archive_frame_def)
      then show ?thesis by (simp only: spares_archive_ok [OF assms(3)])
    qed
    moreover have "ds_id (?g s) = ds_id s" for s by (simp add: spares_archiveD [OF assms(3)] store_archive_spares_id)
    ultimately have "vault_inv V (set_storage i ?g d)" by (intro set_storage_inv [OF I])
    moreover have "archive_belongs b i (set_storage i ?g d)"
      using F unfolding archive_belongs_def set_storage_rows archive_frame_def by (simp add: spares_archiveD [OF assms(3)] store_archive_spares_id)
    ultimately show "vault_inv V (set_storage i ?g d) \<and> archive_frame b kw i (set_storage i ?g d)"
      using F by (simp add: archive_frame_def)
  qed
qed

lemma keyed_set_key:
  assumes "organisation_of b d = Some org" "fst kw \<noteq> []" "snd kw \<noteq> []"
  shows "keyed (set_key b kw d) x = (if x = b then Some kw else keyed d x)"
proof -
  let ?f = "\<lambda>org. if og_id org = b then org\<lparr>og_key_id := Some (fst kw), og_wrapped := Some (snd kw)\<rparr> else org"
  have o: "organisation_of x (set_key b kw d) = map_option ?f (organisation_of x d)"
    unfolding organisation_of_def set_key_def by (simp add: find_row_map)
  have id: "og_id org = x" if "organisation_of x d = Some org" for x org
    using find_row_Some that unfolding organisation_of_def by fastforce
  have new: "key_pair (org\<lparr>og_key_id := Some (fst kw), og_wrapped := Some (snd kw)\<rparr>) = Some kw" for org
    using assms(2,3) by (cases kw) (auto simp: key_pair_def nonempty_def neq_Nil_conv)
  show ?thesis
  proof (cases "organisation_of x d")
    case None
    then show ?thesis using assms(1) by (auto simp: keyed_def o)
  next
    case (Some a)
    then show ?thesis using id [OF Some] new [of a] by (simp add: keyed_def o)
  qed
qed

lemma unkeyed_empty: "vault_inv V d \<Longrightarrow> keyed d b = None \<Longrightarrow>
    (\<forall>a \<in> set (ad_accounts d). cn_brand_id a = b \<longrightarrow> (\<forall>cr. held cr a = [])) \<and>
    (\<forall>s \<in> set (ad_storage d). ds_brand_id s = b \<longrightarrow> (\<forall>cr. archive_held cr s = []))"
  by (auto simp: vault_inv_def account_ok_def storage_ok_def credential_ok_def)

lemma set_key_inv:
  assumes "vault_inv V d" "organisation_of b d = Some org" "key_pair org = None" "key_sound V kw" "fst kw \<noteq> []" "snd kw \<noteq> []"
  shows "vault_inv V (set_key b kw d)"
proof -
  let ?d = "set_key b kw d"
  note k = keyed_set_key [OF assms(2,5,6)]
  have rows: "ad_accounts ?d = ad_accounts d" "ad_storage ?d = ad_storage d" "ad_next_id ?d = ad_next_id d"
    by (simp_all add: set_key_def)
  have none: "keyed d b = None" using assms(2,3) by (simp add: keyed_def)
  note empty = unkeyed_empty [OF assms(1) none]
  have "account_ok V ?d a" if "a \<in> set (ad_accounts d)" for a
    using that empty assms(1) by (cases "cn_brand_id a = b") (auto simp: vault_inv_def account_ok_def credential_ok_def k)
  moreover have "storage_ok V ?d s" if "s \<in> set (ad_storage d)" for s
    using that empty assms(1) by (cases "ds_brand_id s = b") (auto simp: vault_inv_def storage_ok_def credential_ok_def k)
  ultimately show ?thesis using assms(1,4) by (auto simp: vault_inv_def rows k)
qed

lemma sure_brand_keys:
  assumes "aead_ok (va_aead V)" "draws_fit w"
  shows "sure (vault_inv V) (\<lambda>_. True) (brand_keys_for V w b) (\<lambda>okw d. keyed d b = Some (snd okw))"
  unfolding brand_keys_for_def
proof (rule sure_then)
  show "sure (vault_inv V) (\<lambda>_. True) (asks (organisation_of b)) (\<lambda>r d. organisation_of b d = r)"
    by (rule sure_asks) simp
  fix found
  show "sure (vault_inv V) (\<lambda>d. organisation_of b d = found) (case found of
      None \<Rightarrow> fail_with (AccountError ''that organisation no longer exists'')
    | Some org \<Rightarrow> (case key_pair org of Some kw \<Rightarrow> give (org, kw)
      | None \<Rightarrow> and_then (lifted (crypto_result (generate_data_key (va_aead V) (va_master V) (dw_kid w) (dw_data_key w) (dw_key_nonce w)))) (\<lambda>kw.
          and_then (change (set_key b kw)) (\<lambda>_. and_then flush (\<lambda>_. give (org, kw))))))
    (\<lambda>okw d. keyed d b = Some (snd okw))"
  proof (cases found)
    case None
    then show ?thesis by (simp add: sure_fail)
  next
    case (Some org)
    show ?thesis
    proof (cases "key_pair org")
      case (Some kw)
      with \<open>found = Some org\<close> show ?thesis by (auto simp: keyed_def intro!: sure_give)
    next
      case None
      have "sure (vault_inv V) (\<lambda>d. organisation_of b d = Some org)
        (and_then (lifted (crypto_result (generate_data_key (va_aead V) (va_master V) (dw_kid w) (dw_data_key w) (dw_key_nonce w)))) (\<lambda>kw.
          and_then (change (set_key b kw)) (\<lambda>_. and_then flush (\<lambda>_. give (org, kw))))) (\<lambda>okw d. keyed d b = Some (snd okw))"
      proof (rule sure_then)
        show "sure (vault_inv V) (\<lambda>d. organisation_of b d = Some org)
          (lifted (crypto_result (generate_data_key (va_aead V) (va_master V) (dw_kid w) (dw_data_key w) (dw_key_nonce w))))
          (\<lambda>kw d. organisation_of b d = Some org \<and> key_sound V kw \<and> fst kw \<noteq> [] \<and> snd kw \<noteq> [])"
          using assms generated_key_sound by (intro sure_lifted) (fastforce simp: crypto_result_Inr draws_fit_def key_sound_def)
        fix kw
        show "sure (vault_inv V) (\<lambda>d. organisation_of b d = Some org \<and> key_sound V kw \<and> fst kw \<noteq> [] \<and> snd kw \<noteq> [])
          (and_then (change (set_key b kw)) (\<lambda>_. and_then flush (\<lambda>_. give (org, kw)))) (\<lambda>okw d. keyed d b = Some (snd okw))"
        proof (rule sure_then)
          show "sure (vault_inv V) (\<lambda>d. organisation_of b d = Some org \<and> key_sound V kw \<and> fst kw \<noteq> [] \<and> snd kw \<noteq> [])
            (change (set_key b kw)) (\<lambda>_ d. keyed d b = Some kw)"
            using set_key_inv None keyed_set_key by (intro sure_change) simp
          show "sure (vault_inv V) (\<lambda>d. keyed d b = Some kw) (and_then flush (\<lambda>_. give (org, kw))) (\<lambda>okw d. keyed d b = Some (snd okw))" for x
            by (rule sure_then [OF sure_flush]) (simp add: sure_give)
        qed
      qed
      with None \<open>found = Some org\<close> show ?thesis by simp
    qed
  qed
qed

lemma keyed_other [simp]:
  "keyed (d\<lparr>ad_tenants := ts, ad_next_id := n\<rparr>) = keyed d" "keyed (d\<lparr>ad_accounts := as, ad_next_id := n\<rparr>) = keyed d"
  "keyed (d\<lparr>ad_storage := ss, ad_next_id := n\<rparr>) = keyed d" "keyed (d\<lparr>ad_accounts := as\<rparr>) = keyed d"
  "keyed (d\<lparr>ad_storage := ss, ad_accounts := as\<rparr>) = keyed d"
  by (rule keyed_cong, simp)+

lemma ok_keyed: "keyed d' = keyed d \<Longrightarrow> account_ok V d' = account_ok V d" "keyed d' = keyed d \<Longrightarrow> storage_ok V d' = storage_ok V d"
  by (simp_all add: fun_eq_iff account_ok_def storage_ok_def credential_ok_def)

lemma tenant_inv: "vault_inv V d \<Longrightarrow> vault_inv V (d\<lparr>ad_tenants := ts, ad_next_id := ad_next_id d + 1\<rparr>)"
  by (auto simp: vault_inv_def ok_keyed [OF keyed_other(1)] intro: less_trans)

lemma sure_tenant:
  assumes P: "\<And>d ts. P d \<Longrightarrow> P (d\<lparr>ad_tenants := ts, ad_next_id := ad_next_id d + 1\<rparr>)"
  shows "sure (vault_inv V) P (tenant_for_domain b raw) (\<lambda>_. P)"
  unfolding sure_def tenant_for_domain_def
  by (auto simp: Let_def and_then_def change_def flush_def give_def tenant_inv P split: list.split)

lemma sure_insert_account:
  assumes row: "\<And>i. cn_id (row i) = i \<and> cn_brand_id (row i) = b \<and> (\<forall>cr. held cr (row i) = [])"
  shows "sure (vault_inv V) (\<lambda>d. keyed d b = Some kw) (insert_account row) (frame b kw)"
  unfolding sure_def insert_account_def
proof (intro allI impI)
  fix d assume I: "vault_inv V d" and k: "keyed d b = Some kw"
  let ?n = "ad_next_id d" and ?d = "d\<lparr>ad_accounts := ad_accounts d @ [row (ad_next_id d)], ad_next_id := ad_next_id d + 1\<rparr>"
  have "?n \<notin> cn_id ` set (ad_accounts d)" using I by (auto simp: vault_inv_def)
  moreover have "account_ok V d (row ?n)" using row [of ?n] by (simp add: account_ok_def credential_ok_def)
  ultimately have "vault_inv V ?d" using I row [of ?n]
    by (auto simp: vault_inv_def ok_keyed [OF keyed_other(2)])
  moreover have "belongs b ?n ?d" using I row [of ?n] by (auto simp: vault_inv_def belongs_def)
  ultimately show "case (?d, Inr ?n) of (d', Inl x) \<Rightarrow> vault_inv V d' | (d', Inr i) \<Rightarrow> vault_inv V d' \<and> frame b kw i d'"
    using k by (simp add: frame_def)
qed

lemma sure_insert_storage:
  assumes row: "\<And>i. ds_id (row i) = i \<and> ds_brand_id (row i) = b \<and> (\<forall>cr. archive_held cr (row i) = [])"
  shows "sure (vault_inv V) (\<lambda>d. keyed d b = Some kw) (insert_storage row) (archive_frame b kw)"
  unfolding sure_def insert_storage_def
proof (intro allI impI)
  fix d assume I: "vault_inv V d" and k: "keyed d b = Some kw"
  let ?n = "ad_next_id d" and ?d = "d\<lparr>ad_storage := ad_storage d @ [row (ad_next_id d)], ad_next_id := ad_next_id d + 1\<rparr>"
  have "?n \<notin> ds_id ` set (ad_storage d)" using I by (auto simp: vault_inv_def)
  moreover have "storage_ok V d (row ?n)" using row [of ?n] by (simp add: storage_ok_def credential_ok_def)
  ultimately have "vault_inv V ?d" using I row [of ?n]
    by (auto simp: vault_inv_def ok_keyed [OF keyed_other(3)])
  moreover have "archive_belongs b ?n ?d" using I row [of ?n] by (auto simp: vault_inv_def archive_belongs_def)
  ultimately show "case (?d, Inr ?n) of (d', Inl x) \<Rightarrow> vault_inv V d' | (d', Inr i) \<Rightarrow> vault_inv V d' \<and> archive_frame b kw i d'"
    using k by (simp add: archive_frame_def)
qed

lemma sure_the_account: "sure (vault_inv V) P (the_account b i) (\<lambda>a d. P d \<and> account_of b i d = Some a)"
  unfolding the_account_def
  by (rule sure_then [where R = "\<lambda>r d. P d \<and> account_of b i d = r"])
    (auto intro!: sure_asks intro: sure_fail sure_give split: option.split)

lemma sure_the_storage: "sure (vault_inv V) P (the_storage b i) (\<lambda>s d. P d \<and> storage_of b i d = Some s)"
  unfolding the_storage_def
  by (rule sure_then [where R = "\<lambda>r d. P d \<and> storage_of b i d = r"])
    (auto intro!: sure_asks intro: sure_fail sure_give split: option.split)

lemma sure_own_account: "sure (vault_inv V) (\<lambda>d. keyed d b = Some kw) (the_account b i) (\<lambda>_. frame b kw i)"
  unfolding sure_def
proof (intro allI impI)
  fix d assume I: "vault_inv V d" and k: "keyed d b = Some kw"
  show "case the_account b i d of (d', Inl _) \<Rightarrow> vault_inv V d' | (d', Inr x) \<Rightarrow> vault_inv V d' \<and> frame b kw i d'"
    using I k account_of_belongs [OF I, of b i]
    by (cases "account_of b i d") (simp_all add: the_account_def and_then_def asks_def fail_with_def give_def frame_def)
qed

lemma sure_own_storage: "sure (vault_inv V) (\<lambda>d. keyed d b = Some kw) (the_storage b i) (\<lambda>_. archive_frame b kw i)"
  unfolding sure_def
proof (intro allI impI)
  fix d assume I: "vault_inv V d" and k: "keyed d b = Some kw"
  show "case the_storage b i d of (d', Inl _) \<Rightarrow> vault_inv V d' | (d', Inr x) \<Rightarrow> vault_inv V d' \<and> archive_frame b kw i d'"
    using I k storage_of_belongs [OF I, of b i]
    by (cases "storage_of b i d") (simp_all add: the_storage_def and_then_def asks_def fail_with_def give_def archive_frame_def)
qed

lemma sure_seal_typed:
  "aead_ok (va_aead V) \<Longrightarrow> draws_fit w \<Longrightarrow> spares g \<Longrightarrow> sure (vault_inv V) (frame b kw i) (seal_typed V w kw i g f cr) (\<lambda>_. frame b kw i)"
  unfolding seal_typed_def Let_def by (auto intro: sure_give sure_seal_into)

lemma sure_frame_tenant: "sure (vault_inv V) (frame b kw i) (tenant_for_domain b' raw) (\<lambda>_. frame b kw i)"
  by (rule sure_tenant) (simp add: frame_def belongs_def)

lemma sure_keyed_tenant: "sure (vault_inv V) (\<lambda>d. keyed d b = Some kw) (tenant_for_domain b' raw) (\<lambda>_ d. keyed d b = Some kw)"
  by (rule sure_tenant) simp

lemma sure_any: "sure I P m Q \<Longrightarrow> sure I P m (\<lambda>_ _. True)"
  by (erule sure_weaken) simp_all

lemma sure_insert_connection:
  assumes "aead_ok (va_aead V)" "draws_fit w"
  shows "sure (vault_inv V) (\<lambda>d. keyed d b = Some kw) (insert_connection V w kw b f) (frame b kw)"
  unfolding insert_connection_def
proof (rule sure_then [OF sure_keyed_tenant], rule sure_then)
  fix tenant
  show "sure (vault_inv V) (\<lambda>d. keyed d b = Some kw) (lifted (chosen_archive f)) (\<lambda>_ d. keyed d b = Some kw)"
    by (rule sure_lifted)
  fix dest
  let ?row = "new_account_row f b tenant (typed f ''name'') (typed f ''s3_bucket'') dest"
  have row: "cn_id (?row i) = i \<and> cn_brand_id (?row i) = b \<and> (\<forall>cr. held cr (?row i) = [])" for i
    by (simp add: new_account_row_def all_credentials hint_text_def)
  note seals = sure_seal_into [OF assms spares_simple(8)] sure_seal_typed [OF assms spares_simple(8)]
  show "sure (vault_inv V) (\<lambda>d. keyed d b = Some kw) (and_then (insert_account ?row) (\<lambda>i.
     and_then flush (\<lambda>_.
     and_then (seal_into V w kw i id (typed f ''s3_access_key'') ACCESS) (\<lambda>_.
     and_then (seal_into V w kw i id (typed f ''s3_secret'') SECRET) (\<lambda>_.
     and_then (seal_typed V w kw i id f CDR_KEY) (\<lambda>_.
     and_then flush (\<lambda>_. give i))))))) (frame b kw)"
    by (rule sure_then [OF sure_insert_account [OF row]], (rule sure_then, rule sure_flush seals)+) (rule sure_give)
qed

lemma sure_insert_destination:
  assumes "aead_ok (va_aead V)" "draws_fit w" "\<And>i. ds_id (row i) = i \<and> ds_brand_id (row i) = b \<and> (\<forall>cr. archive_held cr (row i) = [])"
  shows "sure (vault_inv V) (\<lambda>d. keyed d b = Some kw) (insert_destination V w kw f row) (archive_frame b kw)"
proof -
  note seals = sure_seal_archive [OF assms(1,2) spares_archive_simple(8)]
  show ?thesis unfolding insert_destination_def
    by (rule sure_then [OF sure_insert_storage [OF assms(3)]], (rule sure_then, rule sure_flush seals)+) (rule sure_give)
qed

text \<open>Every operation keeps the invariant.\<close>

abbreviation keeps :: "vault \<Rightarrow> 'a act \<Rightarrow> bool" where
  "keeps V m \<equiv> sure (vault_inv V) (\<lambda>_. True) m (\<lambda>_ _. True)"

lemma keeps_and_then: "keeps V m \<Longrightarrow> (\<And>x. keeps V (f x)) \<Longrightarrow> keeps V (and_then m f)"
  by (rule sure_then)

lemma keeps_simple: "keeps V (give x)" "keeps V (fail_with e)" "keeps V (asks g)" "keeps V (lifted r)" "keeps V flush"
    "keeps V (the_account b i)" "keeps V (the_storage b i)"
  by (auto intro: sure_give sure_fail sure_asks sure_lifted sure_any [OF sure_flush] sure_any [OF sure_the_account] sure_any [OF sure_the_storage])

lemma keeps_set_account: "spares g \<Longrightarrow> keeps V (change (set_account i g))"
  by (rule sure_change) (auto intro: set_account_inv simp: sparesD spares_ok)

lemma keeps_set_storage: "spares_archive g \<Longrightarrow> keeps V (change (set_storage i g))"
  by (rule sure_change) (auto intro: set_storage_inv simp: spares_archiveD spares_archive_ok)

lemma add_connection_keeps:
  assumes "aead_ok (va_aead V)" "draws_fit w"
  shows "keeps V (add_connection V w b f)"
  unfolding add_connection_def split_def
  by (rule sure_then [OF sure_brand_keys [OF assms]], rule sure_then [OF sure_require_all],
      rule sure_then [OF sure_asks [where Q = "\<lambda>_ d. keyed d b = Some kw" for kw]])
    (auto intro!: sure_fail sure_any [OF sure_insert_connection [OF assms]])

lemma add_destination_keeps:
  assumes "aead_ok (va_aead V)" "draws_fit w"
  shows "keeps V (add_destination V w b f)"
proof -
  have row: "ds_id (new_storage_row f b p r e i) = i \<and> ds_brand_id (new_storage_row f b p r e i) = b \<and>
    (\<forall>cr. archive_held cr (new_storage_row f b p r e i) = [])" for p r e i
    by (simp add: new_storage_row_def all_archive_credentials)
  note ins = sure_any [OF sure_insert_destination [OF assms row]]
  show ?thesis unfolding add_destination_def split_def Let_def
    by (rule sure_then [OF sure_brand_keys [OF assms]], rule sure_then [OF sure_require_all])
      (auto intro!: sure_fail ins sure_then [OF sure_asks [where Q = "\<lambda>_ d. keyed d b = Some kw" for kw]])
qed

lemma update_connection_keeps:
  assumes "aead_ok (va_aead V)" "draws_fit w"
  shows "keeps V (update_connection V w b i f)"
proof -
  note seals = sure_seal_typed [OF assms spares_simple(7)]
  note sets = spares_simple [THEN sure_set_account]
  have tenant: "sure (vault_inv V) (frame b kw i) (and_then (tenant_for_domain b v) (\<lambda>t. change (set_account i (\<lambda>a. a\<lparr>ac_tenant_id := t\<rparr>)))) (\<lambda>_. frame b kw i)" for v kw
    by (rule sure_then [OF sure_frame_tenant]) (rule sets)
  have lift: "sure (vault_inv V) (frame b kw i) (lifted r) (\<lambda>_. frame b kw i)" for r :: "account_exc + int option" and kw
    by (rule sure_lifted)
  have name: "sure (vault_inv V) (frame b kw i) (and_then (the_account b i) (\<lambda>a. give (ac_name a))) (\<lambda>_ _. True)" for kw
    by (rule sure_then [OF sure_the_account]) (simp_all add: sure_give)
  show ?thesis unfolding update_connection_def split_def
    by (rule sure_then [OF sure_brand_keys [OF assms]], rule sure_then [OF sure_own_account],
        (rule sure_then, (rule sets seals lift sure_flush | (rule sure_when, rule sets tenant)))+) (rule name)
qed

lemma update_destination_keeps:
  assumes "aead_ok (va_aead V)" "draws_fit w"
  shows "keeps V (update_destination V w b i f)"
proof -
  note seals = sure_seal_archive [OF assms spares_archive_simple(7)]
  note sets = spares_archive_simple [THEN sure_set_storage]
  have name: "sure (vault_inv V) (archive_frame b kw i) (and_then (the_storage b i) (\<lambda>s. give (so_name s))) (\<lambda>_ _. True)" for kw
    by (rule sure_then [OF sure_the_storage]) (simp_all add: sure_give)
  show ?thesis unfolding update_destination_def split_def
    by (rule sure_then [OF sure_brand_keys [OF assms]], rule sure_then [OF sure_own_storage],
        (rule sure_then, (rule sets seals sure_flush | (rule sure_when, rule sets)))+) (rule name)
qed

lemma drop_account_inv: "vault_inv V d \<Longrightarrow> vault_inv V (drop_account i d)"
  by (auto simp: vault_inv_def drop_account_def ok_keyed [OF keyed_other(4)] distinct_map_filter)

lemma drop_storage_inv: "vault_inv V d \<Longrightarrow> vault_inv V (drop_storage i d)"
proof -
  assume I: "vault_inv V d"
  let ?g = "\<lambda>a. if ac_destination_id a = Some i then a\<lparr>ac_destination_id := None\<rparr> else a"
  have k: "keyed (drop_storage i d) = keyed d" by (rule keyed_cong) (simp add: drop_storage_def)
  have g: "cn_id (?g a) = cn_id a" "account_ok V d (?g a) = account_ok V d a" for a
    by (simp_all add: account_ok_def all_credentials)
  have ids: "map cn_id (ad_accounts (drop_storage i d)) = map cn_id (ad_accounts d)"
    by (simp add: drop_storage_def)
  have rows: "\<forall>a \<in> set (ad_accounts (drop_storage i d)). cn_id a < ad_next_id d \<and> account_ok V d a"
    using I g by (simp add: drop_storage_def vault_inv_def del: if_image_distrib)
  show ?thesis using I rows
    by (auto simp: vault_inv_def ids k ok_keyed [OF k] distinct_map_filter) (auto simp: drop_storage_def distinct_map_filter)
qed

lemma keeps_drop: "keeps V (change (drop_account i))" "keeps V (change (drop_storage i))"
  by (auto intro!: sure_change drop_account_inv drop_storage_inv)

text \<open>What is tried out, shown, stopped and removed.\<close>

lemma other_operations_keep:
  "keeps V (delete_connection b i actor)" "keeps V (delete_destination b i actor)" "keeps V (reveal_credentials V b i)"
  "keeps V (purge_connection b i)" "keeps V (purge_destination b i)" "keeps V (test_connection V svc fuel now b i)"
  "keeps V (test_destination V svc sha now b i)"
  unfolding delete_connection_def delete_destination_def reveal_credentials_def purge_connection_def purge_destination_def
    test_connection_def test_destination_def
  by (auto simp: split_def Let_def intro!: keeps_and_then keeps_simple keeps_set_account keeps_set_storage
      keeps_drop split: option.split sum.split)


section \<open>The pages keep the vault\<close>

lemma keepsD: "keeps V m \<Longrightarrow> vault_inv V d \<Longrightarrow> vault_inv V (fst (m d))"
  using sureD [of "vault_inv V" "\<lambda>_. True" m] by blast

lemma on_rows_keeps:
  assumes "keeps V m" "\<And>x c. co_accounts (fst (k x c)) = co_accounts c" "vault_inv V (co_accounts c)"
  shows "vault_inv V (co_accounts (fst (on_rows m k c)))"
  using keepsD [OF assms(1,3)] assms(2) by (cases "m (co_accounts c)") (auto simp: on_rows_def split: sum.split)

lemma with_id_keeps:
  "(\<And>i. vault_inv V (co_accounts (fst (m i c)))) \<Longrightarrow> vault_inv V (co_accounts c) \<Longrightarrow> vault_inv V (co_accounts (fst (with_id f k m c)))"
  by (simp add: with_id_def split: sum.split)

lemma finish_keeps:
  "vault_inv V (co_accounts c) \<Longrightarrow> vault_inv V (co_accounts (fst r)) \<Longrightarrow> vault_inv V (co_accounts (fst (finish f page c r)))"
  by (cases r) (auto simp: finish_def Let_def split: sum.split account_exc.split)

lemma page_results: "co_accounts (fst (land t c)) = co_accounts c" "co_accounts (keep_probe kk po c) = co_accounts c"
    "co_accounts (revealed_to rq user b i nts c) = co_accounts c"
  by (simp_all add: land_def keep_probe_def revealed_to_def)

lemma connections_page_keeps:
  assumes "aead_ok (va_aead V)" "draws_fit w" "vault_inv V (co_accounts c)"
  shows "vault_inv V (co_accounts (fst (admin_connections_save V sv w rq user b f c)))"
proof -
  note ops = add_connection_keeps [OF assms(1,2)] update_connection_keeps [OF assms(1,2)] other_operations_keep keeps_simple
  have "vault_inv V (co_accounts (fst (connections_action V sv w rq user b f c)))"
    unfolding connections_action_def Let_def
    using assms(3) by (auto simp: page_results intro!: on_rows_keeps with_id_keeps ops keeps_and_then)
  then show ?thesis using assms(3) by (simp add: admin_connections_save_def finish_keeps)
qed

lemma storage_page_keeps:
  assumes "aead_ok (va_aead V)" "draws_fit w" "vault_inv V (co_accounts c)"
  shows "vault_inv V (co_accounts (fst (admin_storage_save V sv w user b f c)))"
proof -
  note ops = add_destination_keeps [OF assms(1,2)] update_destination_keeps [OF assms(1,2)] other_operations_keep keeps_simple
  have "vault_inv V (co_accounts (fst (storage_action V sv w user b f c)))"
    unfolding storage_action_def Let_def
    using assms(3) by (auto simp: page_results intro!: on_rows_keeps with_id_keeps ops keeps_and_then)
  then show ?thesis using assms(3) by (simp add: admin_storage_save_def finish_keeps)
qed

datatype account_request =
    SaveConnections services draws request user int form
  | SaveStorage services draws user int form
  | ShowConnections user "int option"

fun page_step :: "vault \<Rightarrow> account_request \<Rightarrow> console \<Rightarrow> console" where
  "page_step V (SaveConnections sv w rq user b f) c = fst (admin_connections_save V sv w rq user b f c)"
| "page_step V (SaveStorage sv w user b f) c = fst (admin_storage_save V sv w user b f c)"
| "page_step V (ShowConnections user tested) c = fst (connections_shown user tested c)"

fun request_draws_fit :: "account_request \<Rightarrow> bool" where
  "request_draws_fit (SaveConnections sv w rq user b f) = draws_fit w"
| "request_draws_fit (SaveStorage sv w user b f) = draws_fit w"
| "request_draws_fit (ShowConnections user tested) = True"

interpretation pages: state_machine "\<lambda>c :: console. aead_ok (va_aead V) \<and> vault_inv V (co_accounts c)" "\<lambda>p _. request_draws_fit p" "page_step V" for V
proof
  fix c :: console and p assume I: "aead_ok (va_aead V) \<and> vault_inv V (co_accounts c)" and p: "request_draws_fit p"
  then show "aead_ok (va_aead V) \<and> vault_inv V (co_accounts (page_step V p c))"
    by (cases p) (auto simp: connections_shown_def intro: connections_page_keeps storage_page_keeps split: option.split)
qed

text \<open>An account with both credentials in it opens.\<close>

lemma stored_credential_reveals:
  assumes "vault_inv V d" "a \<in> set (ad_accounts d)" "keyed d (cn_brand_id a) = Some kw"
  shows "\<exists>t s. reveal_connection_credentials (unseal_with V) (keys_in d) (connection_row.truncate a) = Inr (t, s) \<and>
    opens_as V kw (field_aad ''connection'' (cn_id a) ''access_key'') (cn_s3_access_key_sealed a) t \<and>
    opens_as V kw (field_aad ''connection'' (cn_id a) ''secret_key'') (cn_s3_secret_sealed a) s"
proof -
  have empty: "opens_as V kw x [] []" for x by (simp add: opens_as_def open_sealed_def)
  have all: "\<forall>cr. \<exists>p. opens_as V kw (field_aad ''connection'' (cn_id a) (credential_field cr)) (held cr a) p"
  proof
    fix cr
    have "account_ok V d a" using assms(1,2) by (simp add: vault_inv_def)
    then have "credential_ok V d (cn_brand_id a) (field_aad ''connection'' (cn_id a) (credential_field cr)) (held cr a)"
      by (simp add: account_ok_def)
    then show "\<exists>p. opens_as V kw (field_aad ''connection'' (cn_id a) (credential_field cr)) (held cr a) p"
      using assms(3) empty unfolding credential_ok_def by (metis option.inject)
  qed
  from all [rule_format, of ACCESS] all [rule_format, of SECRET]
  obtain t s where ts: "opens_as V kw (field_aad ''connection'' (cn_id a) ''access_key'') (cn_s3_access_key_sealed a) t"
    "opens_as V kw (field_aad ''connection'' (cn_id a) ''secret_key'') (cn_s3_secret_sealed a) s"
    unfolding held.simps credential_field.simps by blast
  have read: "unseal_as (unseal_with V) kw v aad l = Inr p" if "opens_as V kw aad v p" for v aad l p
    using that by (simp add: unseal_as_Inr unseal_with_def opens_as_def)
  obtain org where org: "organisation_of (cn_brand_id a) d = Some org" "key_pair org = Some kw"
    using assms(3) by (auto simp: keyed_def bind_eq_Some_conv)
  then have "brand_keys_of (keys_in d) (cn_brand_id a) = Inr kw"
    by (cases kw) (auto simp: brand_keys_of_def keys_in_def key_pair_def split: option.splits)
  then have "reveal_connection_credentials (unseal_with V) (keys_in d) (connection_row.truncate a) = Inr (t, s)"
    by (simp add: reveal_connection_credentials_def connection_row.truncate_def read [OF ts(1)] read [OF ts(2)])
  with ts show ?thesis by blast
qed


section \<open>What was typed is what is shown\<close>

definition shows_as :: "vault \<Rightarrow> string \<times> string \<Rightarrow> int \<Rightarrow> int \<Rightarrow> string \<Rightarrow> string \<Rightarrow> string \<Rightarrow> accounts_db \<Rightarrow> bool" where
  "shows_as V kw b i name token secret d \<longleftrightarrow> frame b kw i d \<and>
     (\<exists>a. account_of b i d = Some a \<and> ac_name a = name \<and>
       opens_as V kw (field_aad ''connection'' i ''access_key'') (cn_s3_access_key_sealed a) token \<and>
       opens_as V kw (field_aad ''connection'' i ''secret_key'') (cn_s3_secret_sealed a) secret)"

lemma account_of_set: "spares g \<Longrightarrow> account_of b i (set_account i (\<lambda>a. g (h a)) d) = map_option (\<lambda>a. g (h a)) (account_of b i d)"
  if "\<And>a. cn_id (h a) = cn_id a \<and> cn_brand_id (h a) = cn_brand_id a" for h :: "account \<Rightarrow> account"
proof -
  assume g: "spares g"
  have "account_of b i (set_account i (\<lambda>a. g (h a)) d) =
    map_option (\<lambda>a. if cn_id a = i then g (h a) else a) (account_of b i d)"
    unfolding account_of_def set_account_def using that by (simp add: find_row_map sparesD [OF g])
  moreover have "cn_id a = i" if "account_of b i d = Some a" for a
    using that find_row_Some unfolding account_of_def by fastforce
  ultimately show ?thesis by (cases "account_of b i d") auto
qed

lemma shows_set:
  assumes "spares g" "\<And>a. ac_name (g a) = ac_name a"
  shows "sure (vault_inv V) (shows_as V kw b i n t s) (change (set_account i g)) (\<lambda>_. shows_as V kw b i n t s)"
  using sure_set_account [OF assms(1), of V b kw i i] account_of_set [OF _ assms(1), of id b i] assms
    sparesD(3) [OF assms(1), of ACCESS] sparesD(3) [OF assms(1), of SECRET]
  unfolding sure_def change_def by (fastforce simp: shows_as_def)

lemma shows_name:
  "sure (vault_inv V) (shows_as V kw b i n t s) (change (set_account i (\<lambda>a. a\<lparr>ac_name := v\<rparr>))) (\<lambda>_. shows_as V kw b i v t s)"
  using sure_set_account [OF spares_simple(1), of V b kw i i v] account_of_set [OF _ spares_simple(1), of id b i v]
  unfolding sure_def change_def by (fastforce simp: shows_as_def)

lemma shows_lifted: "sure (vault_inv V) (shows_as V kw b i n t s) (lifted r) (\<lambda>_. shows_as V kw b i n t s)"
  by (rule sure_lifted)

lemma shows_tenant: "sure (vault_inv V) (shows_as V kw b i n t s) (tenant_for_domain b' raw) (\<lambda>_. shows_as V kw b i n t s)"
  by (rule sure_tenant) (simp add: shows_as_def frame_def belongs_def account_of_def)

definition token_after :: "credential \<Rightarrow> string \<Rightarrow> string \<Rightarrow> string" where
  "token_after cr v t = (if cr = ACCESS then v else t)"

definition secret_after :: "credential \<Rightarrow> string \<Rightarrow> string \<Rightarrow> string" where
  "secret_after cr v s = (if cr = SECRET then v else s)"

lemma shows_seal:
  assumes "aead_ok (va_aead V)" "draws_fit w" "spares g" "\<And>a. ac_name (g a) = ac_name a"
  shows "sure (vault_inv V) (shows_as V kw b i n t s) (seal_into V w kw i g v cr)
    (\<lambda>_. shows_as V kw b i n (token_after cr v t) (secret_after cr v s))"
proof -
  let ?aad = "field_aad ''connection'' i (credential_field cr)"
  note step = sure_seal_into [OF assms(1-3), of b kw i v cr]
  show ?thesis unfolding sure_def
  proof (intro allI impI)
    fix d assume I: "vault_inv V d" and S: "shows_as V kw b i n t s d"
    have F: "frame b kw i d" using S by (simp add: shows_as_def)
    have k: "key_sound V kw" using inv_key [OF I, of b kw] F by (simp add: frame_def)
    note after = sureD [OF step I F]
    show "case seal_into V w kw i g v cr d of (d', Inl x) \<Rightarrow> vault_inv V d'
      | (d', Inr x) \<Rightarrow> vault_inv V d' \<and> shows_as V kw b i n (token_after cr v t) (secret_after cr v s) d'"
    proof (cases "seal (va_aead V) (va_master V) (dw_nonce w ?aad) v (fst kw) (snd kw) ?aad")
      case (Inl e)
      then show ?thesis using after
        by (cases e) (simp_all add: seal_into_def sealed_value_def and_then_def lifted_def crypto_result_def)
    next
      case (Inr c)
      note o = sealed_opens [OF assms(1) k assms(2) Inr]
      have r: "seal_into V w kw i g v cr d = (set_account i (\<lambda>a. g (store_credential cr c a)) d, Inr ())"
        using Inr by (simp add: seal_into_def sealed_value_def and_then_def lifted_def crypto_result_def change_def)
      have ids: "cn_id (store_credential cr c a) = cn_id a \<and> cn_brand_id (store_credential cr c a) = cn_brand_id a" for a
        by (simp add: store_spares_id)
      have name: "ac_name (store_credential cr c a) = ac_name a" for a by (cases cr) simp_all
      note kept = sparesD(3) [OF assms(3), of ACCESS, simplified] sparesD(3) [OF assms(3), of SECRET, simplified]
        held_store [of ACCESS, simplified] held_store [of SECRET, simplified]
      show ?thesis using S after o account_of_set [OF ids assms(3), of b i d]
        by (auto simp: r shows_as_def assms(4) name kept token_after_def secret_after_def)
    qed
  qed
qed


lemma shows_seal_typed:
  assumes "aead_ok (va_aead V)" "draws_fit w" "spares g" "\<And>a. ac_name (g a) = ac_name a"
  shows "sure (vault_inv V) (shows_as V kw b i n t s) (seal_typed V w kw i g f cr)
    (\<lambda>_. shows_as V kw b i n (token_after cr (or_else (typed f (credential_box cr)) t) t) (secret_after cr (or_else (typed f (credential_box cr)) s) s))"
  using shows_seal [OF assms, of kw b i n t s "typed f (credential_box cr)" cr]
  by (auto simp: seal_typed_def Let_def or_else_def token_after_def secret_after_def intro: sure_give)

lemma shows_when_name:
  "sure (vault_inv V) (shows_as V kw b i n t s) (when_typed f k (\<lambda>v. change (set_account i (\<lambda>a. a\<lparr>ac_name := v\<rparr>))))
    (\<lambda>_. shows_as V kw b i (or_else (typed f k) n) t s)"
  by (auto simp: when_typed_def Let_def or_else_def intro: sure_give shows_name)

lemma find_appended: "\<forall>a \<in> set xs. \<not> p a \<Longrightarrow> p x \<Longrightarrow> find p (xs @ [x]) = Some x"
  by (induction xs) auto

lemma shows_inserted:
  "sure (vault_inv V) (\<lambda>d. keyed d b = Some kw) (insert_account (new_account_row f b tenant name bucket dest)) (\<lambda>i. shows_as V kw b i name [] [])"
proof -
  let ?row = "new_account_row f b tenant name bucket dest"
  have row: "cn_id (?row i) = i \<and> cn_brand_id (?row i) = b \<and> (\<forall>cr. held cr (?row i) = [])" for i
    by (simp add: new_account_row_def all_credentials hint_text_def)
  have found: "account_of b (ad_next_id d) (d\<lparr>ad_accounts := ad_accounts d @ [?row (ad_next_id d)], ad_next_id := ad_next_id d + 1\<rparr>) = Some (?row (ad_next_id d))"
    if "vault_inv V d" for d
  proof -
    have "\<forall>a \<in> set (ad_accounts d). cn_id a \<noteq> ad_next_id d" using that by (auto simp: vault_inv_def)
    then have "find (\<lambda>a. cn_id a = ad_next_id d \<and> cn_brand_id a = b) (ad_accounts d @ [?row (ad_next_id d)]) = Some (?row (ad_next_id d))"
      using row [of "ad_next_id d"] by (intro find_appended) auto
    then show ?thesis by (simp add: account_of_def find_row_def)
  qed
  have empty: "opens_as V kw x [] []" for x by (simp add: opens_as_def open_sealed_def)
  have fields: "ac_name (?row i) = name" "cn_s3_access_key_sealed (?row i) = []" "cn_s3_secret_sealed (?row i) = []" for i
    by (simp_all add: new_account_row_def)
  show ?thesis
    using sure_insert_account [of ?row b V kw, OF row] found empty fields
    unfolding sure_def insert_account_def by (fastforce simp: shows_as_def)
qed

lemma shows_flush: "sure (vault_inv V) (shows_as V kw b i n t s) flush (\<lambda>_. shows_as V kw b i n t s)"
  by (rule sure_flush)

text \<open>The same under some key.\<close>

definition shown :: "vault \<Rightarrow> int \<Rightarrow> int \<Rightarrow> string \<Rightarrow> string \<Rightarrow> string \<Rightarrow> accounts_db \<Rightarrow> bool" where
  "shown V b i n t s d \<longleftrightarrow> (\<exists>kw. shows_as V kw b i n t s d)"

lemma shownI: "shows_as V kw b i n t s d \<Longrightarrow> shown V b i n t s d"
  unfolding shown_def by (rule exI)

lemma add_connection_shows:
  assumes "aead_ok (va_aead V)" "draws_fit w"
  shows "sure (vault_inv V) (\<lambda>_. True) (add_connection V w b f)
    (\<lambda>i d. shown V b i (typed f ''name'') (typed f ''s3_access_key'') (typed f ''s3_secret'') d)"
proof -
  let ?Q = "\<lambda>i d. shown V b i (typed f ''name'') (typed f ''s3_access_key'') (typed f ''s3_secret'') d"
  have id: "ac_name (id a) = ac_name a" for a by simp
  note seals = shows_seal [OF assms spares_simple(8) id] shows_seal_typed [OF assms spares_simple(8) id]
  have lift: "sure (vault_inv V) (\<lambda>d. keyed d b = Some kw) (lifted r) (\<lambda>_ d. keyed d b = Some kw)" for kw and r :: "account_exc + int option"
    by (rule sure_lifted)
  have ins: "sure (vault_inv V) (\<lambda>d. keyed d b = Some kw) (insert_connection V w kw b f) ?Q" for kw
    unfolding insert_connection_def
    by (rule sure_then [OF sure_keyed_tenant], rule sure_then [OF lift], rule sure_then [OF shows_inserted],
        (rule sure_then, rule shows_flush seals)+) (rule sure_give, rule shownI, simp add: token_after_def secret_after_def)
  show ?thesis unfolding add_connection_def split_def
    by (rule sure_then [OF sure_brand_keys [OF assms]], rule sure_then [OF sure_require_all],
        rule sure_then [OF sure_asks [where Q = "\<lambda>_ d. keyed d b = Some kw" for kw]])
      (auto intro!: sure_fail ins)
qed

lemma update_connection_shows:
  assumes "aead_ok (va_aead V)" "draws_fit w"
  shows "sure (vault_inv V) (shown V b i n t s) (update_connection V w b i f)
    (\<lambda>name d. shown V b i (or_else (typed f ''name'') n) (or_else (typed f ''s3_access_key'') t) (or_else (typed f ''s3_secret'') s) d \<and>
       name = or_else (typed f ''name'') n)"
proof -
  let ?n = "or_else (typed f ''name'') n" and ?t = "or_else (typed f ''s3_access_key'') t" and ?s = "or_else (typed f ''s3_secret'') s"
  have keys: "sure (vault_inv V) (shown V b i n t s) (brand_keys_for V w b) (\<lambda>okw. shows_as V (snd okw) b i n t s)"
    unfolding sure_def
  proof (intro allI impI)
    fix d assume I: "vault_inv V d" and S: "shown V b i n t s d"
    then obtain kw org where S: "shows_as V kw b i n t s d" and org: "organisation_of b d = Some org" "key_pair org = Some kw"
      unfolding shown_def by (auto simp: shows_as_def frame_def keyed_def bind_eq_Some_conv)
    then have "brand_keys_for V w b d = (d, Inr (org, kw))"
      by (simp add: brand_keys_for_def and_then_def asks_def give_def)
    then show "case brand_keys_for V w b d of (d', Inl x) \<Rightarrow> vault_inv V d' | (d', Inr okw) \<Rightarrow> vault_inv V d' \<and> shows_as V (snd okw) b i n t s d'"
      using I S by simp
  qed
  have here: "sure (vault_inv V) (shows_as V kw b i n t s) (the_account b i) (\<lambda>_. shows_as V kw b i n t s)" for kw n t s
    by (rule sure_weaken [OF sure_the_account [where P = "shows_as V kw b i n t s"]]) simp_all
  have unt: "ac_name (untested a) = ac_name a" for a by (simp add: untested_def)
  have names: "\<And>a v. ac_name (a\<lparr>cn_s3_endpoint := v\<rparr>) = ac_name a" "\<And>a t. ac_name (a\<lparr>ac_tenant_id := t\<rparr>) = ac_name a"
    "\<And>a x y. ac_name (a\<lparr>ac_cdr_api_base := x, ac_cdr_api_user := y\<rparr>) = ac_name a"
    "\<And>a x y. ac_name (a\<lparr>ac_destination_id := x, ac_is_enabled := y\<rparr>) = ac_name a" by simp_all
  note sets = shows_set [OF spares_simple(2) names(2)] shows_set [OF spares_simple(3) names(1)] shows_set [OF spares_simple(4) names(3)]
    shows_set [OF spares_simple(5) names(4)]
  have tenant: "sure (vault_inv V) (shows_as V kw b i n t s) (and_then (tenant_for_domain b v) (\<lambda>t. change (set_account i (\<lambda>a. a\<lparr>ac_tenant_id := t\<rparr>)))) (\<lambda>_. shows_as V kw b i n t s)" for v kw n t s
    by (rule sure_then [OF shows_tenant]) (rule sets)
  have name: "sure (vault_inv V) (shows_as V kw b i n t s) (and_then (the_account b i) (\<lambda>a. give (ac_name a))) (\<lambda>name d. shows_as V kw b i n t s d \<and> name = n)" for kw n t s
    by (rule sure_then [OF sure_the_account]) (auto simp: shows_as_def intro!: sure_give)
  note seals = shows_seal_typed [OF assms spares_simple(7) unt]
  show ?thesis unfolding update_connection_def split_def
    by (rule sure_then [OF keys], rule sure_then [OF here], rule sure_then [OF shows_when_name],
        (rule sure_then, (rule sets seals shows_lifted shows_flush | (rule sure_when, rule sets tenant)))+)
      (rule sure_weaken [OF name], assumption, auto simp: token_after_def secret_after_def intro: shownI)
qed

lemma shown_is_revealed:
  assumes "vault_inv V d" "shows_as V kw b i n t s d"
  shows "reveal_credentials V b i d = (d, Inr (n, t, s))"
proof -
  obtain a where a: "account_of b i d = Some a" "ac_name a = n" and k: "keyed d b = Some kw"
    and o: "opens_as V kw (field_aad ''connection'' i ''access_key'') (cn_s3_access_key_sealed a) t"
      "opens_as V kw (field_aad ''connection'' i ''secret_key'') (cn_s3_secret_sealed a) s"
    using assms(2) by (auto simp: shows_as_def frame_def)
  have row: "a \<in> set (ad_accounts d)" "cn_id a = i" "cn_brand_id a = b"
    using a(1) find_row_Some unfolding account_of_def by fastforce+
  from stored_credential_reveals [OF assms(1) row(1)] k row o
  have "reveal_connection_credentials (unseal_with V) (keys_in d) (connection_row.truncate a) = Inr (t, s)"
    by (auto simp: opens_as_def)
  with a show ?thesis
    by (simp add: reveal_credentials_def the_account_def and_then_def asks_def give_def lifted_def transfer_result_def)
qed

text \<open>C24: what was typed is what is shown. The credentials of an account just added are shown as they were typed (without
  the spaces around), under the account's name; and after a later change they are what was typed then, or, where
  the boxes were left empty, what they were before.\<close>

theorem credentials_shown_as_typed:
  assumes "aead_ok (va_aead V)" "vault_inv V d" "draws_fit w" "draws_fit w'"
    and "add_connection V w b f d = (d1, Inr i)" "update_connection V w' b i g d1 = (d2, Inr name)"
  shows "reveal_credentials V b i d1 = (d1, Inr (typed f ''name'', typed f ''s3_access_key'', typed f ''s3_secret'')) \<and>
    reveal_credentials V b i d2 = (d2, Inr (or_else (typed g ''name'') (typed f ''name''),
      or_else (typed g ''s3_access_key'') (typed f ''s3_access_key''), or_else (typed g ''s3_secret'') (typed f ''s3_secret'')))"
proof -
  have "vault_inv V d1 \<and> shown V b i (typed f ''name'') (typed f ''s3_access_key'') (typed f ''s3_secret'') d1"
    using sureD [OF add_connection_shows [OF assms(1,3)] assms(2), of b f] assms(5) by simp
  then obtain kw where I1: "vault_inv V d1" and S1: "shows_as V kw b i (typed f ''name'') (typed f ''s3_access_key'') (typed f ''s3_secret'') d1"
    unfolding shown_def by blast
  have "vault_inv V d2 \<and> shown V b i (or_else (typed g ''name'') (typed f ''name''))
      (or_else (typed g ''s3_access_key'') (typed f ''s3_access_key'')) (or_else (typed g ''s3_secret'') (typed f ''s3_secret'')) d2"
    using sureD [OF update_connection_shows [OF assms(1,4)] I1 shownI [OF S1], of g] assms(6) by simp
  then obtain kw' where I2: "vault_inv V d2" and S2: "shows_as V kw' b i (or_else (typed g ''name'') (typed f ''name''))
      (or_else (typed g ''s3_access_key'') (typed f ''s3_access_key'')) (or_else (typed g ''s3_secret'') (typed f ''s3_secret'')) d2"
    unfolding shown_def by blast
  show ?thesis using shown_is_revealed [OF I1 S1] shown_is_revealed [OF I2 S2] by simp
qed

text \<open>A sealing that fails after the row went in leaves it there: the page turns the error into a message and commits, the
  account has no credentials, and adding it again is refused because its bucket is registered.\<close>

lemma failed_sealing_leaves_a_row:
  assumes "tenant_for_domain b (typed f ''commpeak_domain'') d = (d0, Inr t)" "chosen_archive f = Inr dest"
    and "d1 = fst (insert_account (new_account_row f b t (typed f ''name'') (typed f ''s3_bucket'') dest) d0)" "constraints_ok d1"
    and "typed f ''s3_access_key'' \<noteq> []" "unwrap_data_key (va_aead V) (va_master V) (fst kw) (snd kw) = Inl (RuntimeError m)"
    and "co_accounts c' = d1"
  shows "insert_connection V w kw b f d = (d1, Inl (CryptoFailed m)) \<and>
    finish f page c (c', Inl (CryptoFailed m)) = (c', Inr (account_target f page (Failure m))) \<and>
    bucket_taken b (typed f ''s3_bucket'') d1"
  using assms
  by (auto simp: insert_connection_def and_then_def lifted_def insert_account_def flush_def seal_into_def sealed_value_def seal_def
      crypto_result_def finish_def bucket_taken_def new_account_row_def)

section \<open>Example\<close>

definition demo_vault :: vault where
  "demo_vault = \<lparr>va_aead = tagging, va_master = demo_master, va_repr = (\<lambda>s. s)\<rparr>"

definition demo_draws :: draws where
  "demo_draws = \<lparr>dw_nonce = (\<lambda>_. replicate 12 4), dw_kid = replicate 16 1, dw_data_key = replicate 32 2, dw_key_nonce = replicate 12 3, dw_now = 0\<rparr>"

definition demo_rows :: accounts_db where
  "demo_rows = \<lparr>ad_organisations = [\<lparr>og_id = 1, og_name = ''One'', og_key_id = None, og_wrapped = None\<rparr>],
     ad_tenants = [\<lparr>tn_id = 1, tn_brand_id = 1, tn_name = ''a.pbx'', tn_slug = ''a'', tn_domain = Some ''a.pbx''\<rparr>], ad_accounts = [], ad_storage = [],
     ad_recordings = [], ad_cdrs = [], ad_next_id = 2\<rparr>"

definition demo_add :: form where
  "demo_add = [(''name'', ''Sales''), (''commpeak_domain'', ''a.pbx''), (''s3_bucket'', ''b1''), (''s3_access_key'', '' token''), (''s3_secret'', ''secret'')]"

definition demo_change :: form where
  "demo_change = [(''s3_secret'', ''other''), (''s3_access_key'', ''  '')]"

lemma demo_vault_inv: "aead_ok (va_aead demo_vault)" "vault_inv demo_vault demo_rows" "draws_fit demo_draws"
  by (simp_all add: demo_vault_def tagging_ok demo_rows_def vault_inv_def keyed_def organisation_of_def find_row_def key_pair_def nonempty_def
      demo_draws_def draws_fit_def NONCE_LEN_def KEY_ID_LEN_def KEY_LEN_def)

lemma demo_typed:
  "typed demo_add ''name'' = ''Sales''" "typed demo_add ''commpeak_domain'' = ''a.pbx''" "typed demo_add ''s3_bucket'' = ''b1''"
  "typed demo_add ''s3_access_key'' = ''token''" "typed demo_add ''s3_secret'' = ''secret''" "typed demo_add ''cdr_api_token'' = []"
  "typed demo_change ''name'' = []" "typed demo_change ''commpeak_domain'' = []" "typed demo_change ''s3_endpoint'' = []"
  "typed demo_change ''s3_access_key'' = []" "typed demo_change ''s3_secret'' = ''other''" "typed demo_change ''cdr_api_token'' = []"
  "chosen_archive demo_add = Inr None" "chosen_archive demo_change = Inr None" "py_lower (py_strip ''a.pbx'') = ''a.pbx''"
  by code_simp+

lemma demo_key: "\<exists>kw. generate_data_key tagging demo_master (replicate 16 1) (replicate 32 2) (replicate 12 3) = Inr kw \<and>
    (\<forall>v aad. \<exists>c. seal tagging demo_master (replicate 12 4) v (fst kw) (snd kw) aad = Inr c)"
proof -
  note m = demo_master_loads
  have kid: "kid_of [] = Some (replicate KEY_ID_LEN 0)" by (simp only: kid_of_def if_True refl)
  have "length (replicate 32 (7 :: 8 word)) \<in> {16, 24, 32}" by (simp only: length_replicate insert_iff refl simp_thms)
  from seal_with_Inr [OF this kid] obtain wrapped where
    "seal_with tagging (replicate 12 3) (replicate 32 7) (replicate 32 2) (utf8_encode (hex_encode (replicate 16 1))) [] = Inr wrapped" by blast
  then obtain kw where g: "generate_data_key tagging demo_master (replicate 16 1) (replicate 32 2) (replicate 12 3) = Inr kw"
    using m by (simp only: generate_data_key_def Let_def res_bind.simps)
  have s: "unwrap_data_key tagging demo_master (fst kw) (snd kw) = Inr (replicate 32 2) \<and> kid_of (fst kw) = Some (replicate 16 1)"
    using generated_key_sound [OF tagging_ok _ _ g] by (simp only: length_replicate KEY_ID_LEN_def NONCE_LEN_def refl simp_thms)
  have "length (replicate 32 (2 :: 8 word)) \<in> {16, 24, 32}" by (simp only: length_replicate insert_iff refl simp_thms)
  from seal_with_Inr [OF this s [THEN conjunct2]]
  have "\<exists>c. seal tagging demo_master (replicate 12 4) v (fst kw) (snd kw) aad = Inr c" for v aad
    by (cases "v = []") (simp_all only: seal_def s res_bind.simps if_True if_False sum.inject ex_simps simp_thms)
  with g show ?thesis by blast
qed


theorem credentials_shown_as_typed_witness:
  "\<exists>d1 d2 i name. add_connection demo_vault demo_draws 1 demo_add demo_rows = (d1, Inr i) \<and>
     update_connection demo_vault demo_draws 1 i demo_change d1 = (d2, Inr name) \<and>
     reveal_credentials demo_vault 1 i d1 = (d1, Inr (''Sales'', ''token'', ''secret'')) \<and>
     reveal_credentials demo_vault 1 i d2 = (d2, Inr (''Sales'', ''token'', ''other''))"
proof -
  obtain kw where g: "generate_data_key tagging demo_master (replicate 16 1) (replicate 32 2) (replicate 12 3) = Inr kw"
    and "\<forall>v aad. \<exists>c. seal tagging demo_master (replicate 12 4) v (fst kw) (snd kw) aad = Inr c" using demo_key by blast
  then obtain sl where sl: "seal tagging demo_master (replicate 12 4) v (fst kw) (snd kw) aad = Inr (sl v aad)" for v aad by metis
  have ne: "fst kw \<noteq> []" "snd kw \<noteq> []"
    using generated_key_sound [OF tagging_ok _ _ g] by (simp_all only: length_replicate KEY_ID_LEN_def NONCE_LEN_def refl simp_thms)
  note parts = demo_vault_def demo_draws_def vault.simps draws.simps
  have gk: "generate_data_key (va_aead demo_vault) (va_master demo_vault) (dw_kid demo_draws) (dw_data_key demo_draws) (dw_key_nonce demo_draws) = Inr kw"
    using g by (simp only: parts)
  have seals: "seal (va_aead demo_vault) (va_master demo_vault) (dw_nonce demo_draws a) v (fst kw) (snd kw) aad = Inr (sl v aad)" for a v aad
    using sl by (simp only: parts)
  note steps = and_then_def asks_def give_def lifted_def change_def flush_def crypto_result_def Let_def
  let ?row = "(new_account_row demo_add 1 1 ''Sales'' ''b1'' None 2)\<lparr>cn_s3_access_key_sealed := sl ''token'' (field_aad ''connection'' 2 ''access_key''),
    cn_s3_secret_sealed := sl ''secret'' (field_aad ''connection'' 2 ''secret_key'')\<rparr>"
  let ?d1 = "(set_key 1 kw demo_rows)\<lparr>ad_next_id := 3, ad_accounts := [?row]\<rparr>"
  have keys: "brand_keys_for demo_vault demo_draws 1 demo_rows = (set_key 1 kw demo_rows, Inr (\<lparr>og_id = 1, og_name = ''One'', og_key_id = None, og_wrapped = None\<rparr>, kw))"
    by (simp add: brand_keys_for_def steps gk organisation_of_def demo_rows_def find_row_def key_pair_def nonempty_def set_key_def constraints_ok_def)
  have rows: "ad_tenants (set_key 1 kw demo_rows) = ad_tenants demo_rows" "ad_accounts (set_key 1 kw demo_rows) = []"
    "ad_storage (set_key 1 kw demo_rows) = []" "ad_next_id (set_key 1 kw demo_rows) = 2" by (simp_all add: set_key_def demo_rows_def)
  have tenant: "tenant_for_domain 1 ''a.pbx'' (set_key 1 kw demo_rows) = (set_key 1 kw demo_rows, Inr 1)"
    by (simp add: tenant_for_domain_def rows demo_typed Let_def) (simp add: demo_rows_def)
  have t1: "constraints_ok (set_key 1 kw demo_rows \<lparr>ad_next_id := 3, ad_accounts := [r]\<rparr>)"
    "constraints_ok (set_key 1 kw demo_rows \<lparr>ad_accounts := [r], ad_next_id := 3\<rparr>)" if "ac_destination_id r = None" for r
    using that by (simp_all add: constraints_ok_def rows) (simp_all add: demo_rows_def)
  have add: "add_connection demo_vault demo_draws 1 demo_add demo_rows = (?d1, Inr 2)"
    by (simp add: add_connection_def steps keys require_text_def demo_typed bucket_taken_def rows insert_connection_def tenant insert_account_def
        t1 seal_into_def sealed_value_def seals set_account_def seal_typed_def new_account_row_def)
  let ?dr = "\<lambda>r. set_key 1 kw demo_rows \<lparr>ad_next_id := 3, ad_accounts := [r]\<rparr>"
  have org: "organisation_of 1 (?dr r) = Some \<lparr>og_id = 1, og_name = ''One'', og_key_id = Some (fst kw), og_wrapped = Some (snd kw)\<rparr>" for r
    by (simp add: organisation_of_def set_key_def demo_rows_def find_row_def)
  have pair: "key_pair \<lparr>og_id = 1, og_name = ''One'', og_key_id = Some (fst kw), og_wrapped = Some (snd kw)\<rparr> = Some kw"
    using ne by (cases kw) (auto simp: key_pair_def nonempty_def neq_Nil_conv)
  have keys1: "brand_keys_for demo_vault demo_draws 1 (?dr r) = ((?dr r), Inr (\<lparr>og_id = 1, og_name = ''One'', og_key_id = Some (fst kw), og_wrapped = Some (snd kw)\<rparr>, kw))" for r
    by (simp only: brand_keys_for_def and_then_def asks_def give_def org prod.case sum.case option.case pair)
  have here: "account_of 1 2 (set_key 1 kw demo_rows \<lparr>ad_next_id := 3, ad_accounts := [r]\<rparr>) = Some r" if "cn_id r = 2" "cn_brand_id r = 1" for r
    using that by (simp add: account_of_def find_row_def)
  have set: "set_account 2 h (set_key 1 kw demo_rows \<lparr>ad_next_id := 3, ad_accounts := [r]\<rparr>) = set_key 1 kw demo_rows \<lparr>ad_next_id := 3, ad_accounts := [h r]\<rparr>"
    if "cn_id r = 2" for h r using that by (simp add: set_account_def)
  have "\<exists>d2 name. update_connection demo_vault demo_draws 1 2 demo_change ?d1 = (d2, Inr name)"
    by (simp add: update_connection_def and_then_def keys1 the_account_def here asks_def give_def when_typed_def demo_typed change_def set lifted_def
        seal_typed_def untested_def seal_into_def sealed_value_def seals crypto_result_def flush_def t1 new_account_row_def)
  then obtain d2 name where upd: "update_connection demo_vault demo_draws 1 2 demo_change ?d1 = (d2, Inr name)" by blast
  show ?thesis
    using credentials_shown_as_typed [OF demo_vault_inv(1,2,3,3) add upd] add upd unfolding demo_typed or_else_def by auto
qed


definition demo_console :: console where
  "demo_console = \<lparr>co_accounts = demo_rows, co_auth = demo_orgs, co_probes = [], co_revealed = []\<rparr>"

definition demo_services :: services where
  "demo_services = \<lparr>sv_source = accepting, sv_archive = accepting, sv_sha = demo_sha, sv_fuel = 3\<rparr>"

definition demo_requests :: "account_request list" where
  "demo_requests =
     [SaveConnections demo_services demo_draws demo_request demo_admin 1 demo_add,
      SaveConnections demo_services demo_draws demo_request demo_admin 1 ((''action'', ''update'') # (''connection_id'', ''2'') # demo_change),
      SaveConnections demo_services demo_draws demo_request demo_admin 1 [(''action'', ''reveal''), (''connection_id'', ''2'')],
      ShowConnections demo_admin (Some 2)]"


end
