(* ===== verification/Spec2Isabelle.thy ===== *)
theory Spec2Isabelle
  imports Settings Login Polling Filters Dashboard MessageSearch Federation Accounts
begin

text \<open>
  A verification development of the recording archiver under \<open>src/c2w\<close>: a service that copies the call recordings of
  CommPeak accounts into an archive of its own, proves the copies, finds the call each belongs to, transcribes
  them, and shows all of it to the people of several organisations.

  \<^bold>\<open>The program's parts\<close>

  A scheduler lists what the accounts hold and writes a row per recording and a job per copy; workers claim jobs,
  copy, read back and compare; a reconciler looks at copies again at night; what is proved may be deleted at the
  source. Call records and text messages are read from HTTP interfaces and stored beside the recordings. A
  transcriber, here or on lent machines, turns archived recordings into text. A web console signs people in,
  decides what they may do and for which organisation, and lists, plays, exports and administers. The parts meet
  in the database and hardly call each other: what one leaves in a row is what the next starts from, so the
  theorems that span components are about rows: what a job's row says agrees with its recording's, a cursor does
  not pass what was not read, a row of another organisation is not seen.

  \<^bold>\<open>The theories, in the order of their imports\<close>

  \<^item> Ground: \<open>Prelude\<close> (text, integers, exceptions as values, the lists and maps all theories share, the collections
    of simplification rules), \<open>Bytes\<close>, \<open>PyText\<close>, \<open>Regex\<close>, \<open>Calendar\<close>, \<open>Json\<close> (what the source uses of
    Python's library), \<open>Upsert\<close> and \<open>Sql\<close> (what it uses of the database: \<open>ON CONFLICT\<close>, \<open>LIKE\<close>, an order, pages).
  \<^item> Storage: \<open>Errors\<close> (\<open>storage/errors.py\<close>: classify, retry, alert), \<open>S3Client\<close> (\<open>storage/base.py\<close>,
    \<open>s3_adapter.py\<close>: listing, streaming, multipart upload over an arbitrary service), \<open>Endpoints\<close>
    (\<open>storage/commpeak.py\<close>, \<open>wasabi.py\<close>, \<open>deleter.py\<close>, \<open>factory.py\<close>), \<open>Crypto\<close> (\<open>crypto.py\<close>).
  \<^item> The pipeline: \<open>KeyParse\<close> and \<open>Correlate\<close> (\<open>commpeak/keyparse.py\<close>, \<open>correlate.py\<close>), \<open>Db\<close>
    (\<open>db/base.py\<close>, \<open>db/models/core.py\<close>: the tables as lists of rows), \<open>Queue\<close>, \<open>Inventory\<close>, \<open>Transfers\<close>,
    \<open>Deletion\<close> (\<open>sync/queue.py\<close>, \<open>inventory.py\<close>, \<open>transfer.py\<close>, \<open>completeness.py\<close>, \<open>source_retention.py\<close>,
    \<open>source_delete.py\<close>), \<open>Alerts\<close> (\<open>alerts/base.py\<close>), \<open>Worker\<close>, \<open>Reconciler\<close>, \<open>Scheduler\<close>, \<open>Polling\<close>
    (\<open>workers/worker.py\<close>, \<open>reconciler.py\<close>, \<open>scheduler.py\<close>).
  \<^item> Calls, messages, transcripts: \<open>Cdr\<close>, \<open>Sms\<close> (\<open>commpeak/cdr_client.py\<close>, \<open>sms_client.py\<close>), \<open>Transcripts\<close>
    (\<open>transcribe/base.py\<close>, \<open>announcements.py\<close>, \<open>service.py\<close>), \<open>Agents\<close> (\<open>transcribe/agents.py\<close>,
    \<open>api/agent.py\<close>, \<open>workers/transcriber.py\<close>).
  \<^item> People and settings: \<open>SettingsSpec\<close>, \<open>Settings\<close> (\<open>settings_spec.py\<close>, \<open>settings.py\<close>), \<open>Totp\<close>, \<open>Auth\<close>,
    \<open>Mfa\<close> (\<open>auth/totp.py\<close>, \<open>local.py\<close>, \<open>mfa.py\<close>), \<open>Access\<close> (\<open>auth/rbac.py\<close>, \<open>api/deps.py\<close>,
    \<open>db/session.py\<close>), \<open>Users\<close>, \<open>Login\<close> (the account and sign-in routes of \<open>web/routes.py\<close>, \<open>audit.py\<close>),
    \<open>Federation\<close> (\<open>auth/oidc.py\<close>, \<open>directory.py\<close>, \<open>turnstile.py\<close>: sign-in at a provider or a directory).
  \<^item> The console: \<open>Media\<close> (\<open>media/sdr.py\<close> and its routes), \<open>Filters\<close> (\<open>web/filters.py\<close>), \<open>Progress\<close>
    (\<open>sync/convergence.py\<close>, \<open>account_eta.py\<close>, \<open>source_lights.py\<close>), \<open>CallSearch\<close>, \<open>Dashboard\<close>,
    \<open>MessageSearch\<close> (\<open>api/v1/cdrs.py\<close>, \<open>messages.py\<close> and their routes), \<open>Accounts\<close>
    (\<open>web/accounts.py\<close> and its routes).

  Each theory has its component's records and datatypes, one definition per operation under the source's name
  (with a suffix or prefix where the name is taken), its invariant, and its lemmas.

  \<^bold>\<open>How the code is read\<close>

  \<^item> A class with state is a record that its operations take and give back; a table is the list of its rows in the
    order of their ids; a nullable column is an option; a transaction is its statements applied in order, kept when
    the session is left normally and given up when an exception leaves it. Sessions do not flush by themselves.
  \<^item> An exception is the left of a sum, with a datatype per component for what it raises; every early return and
    every handler is a branch. Python's integers are \<open>int\<close>, bytes of the formats are \<open>8 word\<close>; text is a list of
    characters of Latin-1, and the few signs outside it are written in ASCII as each theory says.
  \<^item> An instant is the whole number of microseconds since 1970 in UTC. Floats that are only compared, rounded or
    stored are exact rationals; the rounding of floats is not modelled otherwise.
  \<^item> What is not in the repository is an argument: the storage service, the HTTP interfaces, SHA-1, SHA-256, HMAC,
    Argon2, AES-GCM and the signer of tickets, random bytes, the clock, the recogniser, the directory's answer, the
    rows another transaction holds locked. Where a theorem needs something of one of these it says so in a
    hypothesis (what is sealed opens, a signed ticket reads back), and its witness has an instance.
  \<^item> Tasks that the source runs at once in one pass are run one after the other, in the order of their creation; the
    interleaving of whole operations is the sequence of steps of the machines of \<open>Queue\<close>, \<open>Mfa\<close>, \<open>Users\<close>,
    \<open>Agents\<close> and \<open>Accounts\<close> and the requests of \<open>Login\<close>, whose invariants hold in every reachable state.

  \<^bold>\<open>What the lemmas show\<close>

  \<^item> Who gets in and what is seen: no session without the second factor that is asked for, one use of a code, eight
    guesses between two locks, sessions as a map, a permission for every guarded route, one organisation's rows, a
    link only to who may have it, an administrator that remains (\<open>Login\<close>, \<open>Mfa\<close>, \<open>Auth\<close>, \<open>Access\<close>, \<open>Media\<close>, \<open>Users\<close>).
  \<^item> Nothing is lost: playable exactly when proved, deleted at the source only when proved again, agreement of jobs
    and recordings, disjoint claims, bounded retries, cursors that pass nothing unread, every account in turn
    (\<open>Transfers\<close>, \<open>Deletion\<close>, \<open>Worker\<close>, \<open>Queue\<close>, \<open>Inventory\<close>, \<open>Polling\<close>, \<open>Scheduler\<close>, \<open>Reconciler\<close>, \<open>Agents\<close>).
  \<^item> What is read is what was written: keys, envelopes, base64, settings, uploads, a page of call records read twice,
    the credentials of an account (\<open>KeyParse\<close>, \<open>Crypto\<close>, \<open>Bytes\<close>, \<open>Settings\<close>, \<open>S3Client\<close>, \<open>Cdr\<close>, \<open>Sms\<close>,
    \<open>Accounts\<close>).
  \<^item> What is shown is so: the best call for a recording, a page of several organisations, the sum of their figures,
    the list of pages, dates and lights, the lines of the log (\<open>Correlate\<close>, \<open>CallSearch\<close>, \<open>Dashboard\<close>, \<open>Progress\<close>,
    \<open>Filters\<close>).

  \<^bold>\<open>Interfaces\<close>

  A locale states what one component promises to another, and each is interpreted on the code's own definitions:
  keyed tables and their upsert (\<open>Upsert\<close>, given by \<open>Cdr\<close> and \<open>Sms\<close>), an order for a sort (\<open>Sql\<close>, given by
  \<open>CallSearch\<close>), a destination for uploads (\<open>S3Client\<close>, given there by the adapter), the steps of a system and
  their invariants (\<open>Db\<close>, given by \<open>Queue\<close>, \<open>Mfa\<close>, \<open>Users\<close>, \<open>Agents\<close> and \<open>Accounts\<close>).

  \<^bold>\<open>Bounds and fuel\<close>

  Loops over a list are structural. Those that follow an answer take fuel: a listing as many pages as the service
  gives tokens, a reading of records the page limit the source itself has, an export one unit per page. Where a
  theorem says that such a loop returns it names the fuel: the page limit, or 251 pages for an export, which is
  exactly where the source's own bound lies; and it says when no fuel is enough.

  \<^bold>\<open>Not modelled\<close>

  \<^item> The recogniser itself (\<open>transcribe/whisper_local.py\<close>): a model run by a library in another process.
  \<^item> What only draws: the templates, the contexts most pages of \<open>web/routes.py\<close> put together for them, links that
    repeat a query, the names of time zones, the text of a line of an export, the summaries a scheduler logs.
  \<^item> The pages that edit settings and organisations; what they store is \<open>Settings\<close>. The checks of single services (\<open>web/settings_tests.py\<close>), which call one and put its answer into words.
  \<^item> Assembly: \<open>api/app.py\<close>, \<open>workers/api_entry.py\<close>, \<open>config.py\<close>, \<open>logging.py\<close>, the command line
    (\<open>cli.py\<close>: prompts around operations modelled here), the migrations (the schema they end in is that of the
    tables), the program of a lent machine (\<open>agent_dist\<close>: it only sends the requests of \<open>Agents\<close>).
  \<^item> The channels of alerts (Telegram, Slack, mail, a webhook): one request each; \<open>Alerts\<close> has what decides to send.
  \<^item> Of the database: the widths of columns, locks other than those on rows, and its own failures; of a process:
    signals, pools and the pauses between passes.
\<close>

end
